(* ===== verification/Prelude.thy ===== *)
theory Prelude
  imports
    Main
    "HOL-Library.AList"
    "HOL-Library.Char_ord"
    "HOL-Library.List_Lexorder"
    "HOL-Library.Product_Lexorder"
begin

text \<open>
  What every component theory shares: the exceptions of the program as one datatype, the
  result type \<open>exn + 'a\<close> with its sequencing operator, Python's insertion-ordered dict as
  an association list, \<open>sorted\<close> as \<^const>\<open>sort_key\<close>, and the theorem collections the
  component proofs use.

  A Python \<open>str\<close> is modelled in two ways.  Identifiers, slugs, keys and template texts
  that the code only compares, sorts and stores are \<^typ>\<open>string\<close>.  Free text whose
  characters the code inspects (memory entries, untrusted content) is a list of Unicode
  code points, \<open>pystr\<close>, so that lengths and character classes are Python's.
\<close>

subsection \<open>Theorem collections\<close>

named_theorems sql_simps \<open>statements of the table model, as rewrite rules\<close>
named_theorems result_splits \<open>case splits for results\<close>

subsection \<open>Exceptions and results\<close>

text \<open>
  The exception classes the modelled code raises or lets through.  Messages are kept only
  where the code returns them as data.
\<close>

datatype exn =
    RuntimeError
  | ValueError
  | KeyError
  | TypeError
  | IntegrityError
  | MultipleResultsFound
  | HTTPError nat string
  | UnsafeContent
  | MemoryFull nat nat
  | KmsDecryptError
  | PermissionError
  | DataError
  | ProgrammingError
  | AssertionError
  | AttributeError
  | ProposalNotFoundError
  | ProposalAlreadyDecidedError string
  | ProposalSkillSlugTakenError string
  | OSError
  | OverflowError
  | RecursionError

type_synonym 'a result = "exn + 'a"

definition bind_result :: "'e + 'a \<Rightarrow> ('a \<Rightarrow> 'e + 'b) \<Rightarrow> 'e + 'b" where
  "bind_result m k = (case m of Inl e \<Rightarrow> Inl e | Inr x \<Rightarrow> k x)"

lemma bind_result_simps [simp]:
  "bind_result (Inl e) k = Inl e"
  "bind_result (Inr x) k = k x"
  by (simp_all add: bind_result_def)

lemma bind_result_eq_Inr:
  "bind_result m k = Inr y \<longleftrightarrow> (\<exists>x. m = Inr x \<and> k x = Inr y)"
  by (cases m) simp_all

lemma bind_result_eq_Inl:
  "bind_result m k = Inl e \<longleftrightarrow> m = Inl e \<or> (\<exists>x. m = Inr x \<and> k x = Inl e)"
  by (cases m) simp_all

lemmas result_eqs = bind_result_eq_Inr bind_result_eq_Inl

declare sum.splits [result_splits] option.splits [result_splits] if_splits [result_splits]

subsection \<open>Python dicts\<close>

text \<open>
  \<open>d[k] = v\<close> keeps the position of an existing key and appends a new one, which is what
  \<^const>\<open>AList.update\<close> does; \<open>d.values()\<close> lists the values in that order.
\<close>

abbreviation dict_set :: "'k \<Rightarrow> 'v \<Rightarrow> ('k \<times> 'v) list \<Rightarrow> ('k \<times> 'v) list" where
  "dict_set \<equiv> AList.update"

abbreviation dict_get :: "('k \<times> 'v) list \<Rightarrow> 'k \<Rightarrow> 'v option" where
  "dict_get \<equiv> map_of"

lemma dict_get_set: "dict_get (dict_set k v d) k' = (if k' = k then Some v else dict_get d k')"
  by (simp add: update_conv')

text \<open>A dict keyed by a field of its values: every value sits under its own key.\<close>

definition keyed_by :: "('v \<Rightarrow> 'k) \<Rightarrow> ('k \<times> 'v) list \<Rightarrow> bool" where
  "keyed_by key d \<longleftrightarrow> distinct (map fst d) \<and> (\<forall>(k, v) \<in> set d. key v = k)"

lemma keyed_by_Nil [simp]: "keyed_by key []"
  by (simp add: keyed_by_def)

lemma keyed_by_dict_set:
  "keyed_by key d \<Longrightarrow> key v = k \<Longrightarrow> keyed_by key (dict_set k v d)"
proof -
  assume d: "keyed_by key d" and kv: "key v = k"
  have "set (dict_set k v d) \<subseteq> insert (k, v) (set d)"
    by (induction d) auto
  with d kv show ?thesis
    unfolding keyed_by_def by (auto simp: distinct_update)
qed

lemma keyed_by_map_keys: "keyed_by key d \<Longrightarrow> map key (map snd d) = map fst d"
  by (auto simp: keyed_by_def)

lemma keyed_by_mem:
  assumes "keyed_by key d"
  shows "v \<in> set (map snd d) \<longleftrightarrow> dict_get d (key v) = Some v"
proof -
  have dist: "distinct (map fst d)" and keys: "\<forall>(k, v) \<in> set d. key v = k"
    using assms by (auto simp: keyed_by_def)
  have "v \<in> set (map snd d) \<longleftrightarrow> (key v, v) \<in> set d"
    using keys by force
  with dist show ?thesis by simp
qed

text \<open>\<open>old if v is None else v\<close>.\<close>

definition keep_or :: "'x option \<Rightarrow> 'x \<Rightarrow> 'x" where
  "keep_or v old = (case v of None \<Rightarrow> old | Some x \<Rightarrow> x)"

lemma keep_or_simps [simp]: "keep_or None x = x" "keep_or (Some y) x = y"
  by (simp_all add: keep_or_def)

subsection \<open>Rows selected from a list\<close>

fun scalar_one_or_none :: "'a list \<Rightarrow> 'a option result" where
  "scalar_one_or_none [] = Inr None"
| "scalar_one_or_none [x] = Inr (Some x)"
| "scalar_one_or_none (x # y # zs) = Inl MultipleResultsFound"

lemma scalar_one_or_none_None [simp]:
  "scalar_one_or_none xs = Inr None \<longleftrightarrow> xs = []"
  by (cases xs rule: scalar_one_or_none.cases) auto

lemma scalar_one_or_none_Some [simp]:
  "scalar_one_or_none xs = Inr (Some x) \<longleftrightarrow> xs = [x]"
  by (cases xs rule: scalar_one_or_none.cases) auto

lemma scalar_one_or_none_Inl:
  "scalar_one_or_none xs = Inl e \<longleftrightarrow> e = MultipleResultsFound \<and> 2 \<le> length xs"
  by (cases xs rule: scalar_one_or_none.cases) auto

text \<open>At most one row passes a filter when the rows that pass have distinct keys, all equal.\<close>

lemma filter_same_key_le_one:
  assumes "distinct (map f (filter P xs))" and "\<And>x. x \<in> set xs \<Longrightarrow> Q x \<Longrightarrow> P x \<and> f x = k"
  shows "length (filter Q xs) \<le> 1"
proof -
  have eq: "filter Q (filter P xs) = filter Q xs"
    using assms(2) by (auto intro: filter_cong)
  have "distinct (map f (filter Q (filter P xs)))"
    using assms(1) distinct_map_filter by blast
  then have d: "distinct (map f (filter Q xs))" by (simp only: eq)
  have "set (map f (filter Q xs)) \<subseteq> {k}"
    using assms(2) by auto
  then have "card (set (map f (filter Q xs))) \<le> card {k}"
    by (intro card_mono) auto
  with d show ?thesis
    using distinct_card [of "map f (filter Q xs)"] by simp
qed

lemma le_one_cases:
  assumes "length xs \<le> 1"
  obtains "xs = []" | x where "xs = [x]"
  using assms by (cases xs) (auto simp: le_Suc_eq)

lemma filter_singletonD: "filter P xs = [x] \<Longrightarrow> x \<in> set xs \<and> P x"
  by (metis filter_eq_ConsD in_set_conv_decomp)

lemma filter_le_one_singleton:
  assumes "length (filter P xs) \<le> 1"
  shows "filter P xs = [x] \<longleftrightarrow> x \<in> set xs \<and> P x"
proof
  assume "x \<in> set xs \<and> P x"
  then have "x \<in> set (filter P xs)" by simp
  with assms show "filter P xs = [x]"
    by (rule_tac le_one_cases [OF assms]) auto
qed (rule filter_singletonD)

end
