(* ===== verification/Layered_Tables.thy ===== *)
theory Layered_Tables
  imports Prelude
begin

text \<open>
  The tables behind the layered configuration (\<open>models/skill.py\<close>, \<open>instruction.py\<close>,
  \<open>command.py\<close>, \<open>mcp_server.py\<close>, \<open>cron_job.py\<close>) and the statements their
  repositories run.  A table is the list of its rows; a row extends the columns all five
  tables share.  A statement is executed against the constraints of the schema the database
  is at, and a violated constraint is \<^const>\<open>IntegrityError\<close>: the ORM constraints of
  \<open>models/\<close>, and from the revision \<open>0003_agents\<close> on the CHECK that migration adds.
  \<open>ORDER BY slug\<close> is the C collation.  What the driver cannot encode (NUL in a text, an integer beyond
  its column) is outside the model of these five tables.
\<close>

subsection \<open>Rows\<close>

type_synonym uuid = nat

datatype scope = Bundled | Official | UserScope

text \<open>The column holds the scope as text.\<close>

definition scope_text :: "scope \<Rightarrow> string" where
  "scope_text sc = (case sc of Bundled \<Rightarrow> ''bundled'' | Official \<Rightarrow> ''official'' | UserScope \<Rightarrow> ''user'')"

text \<open>The columns common to all five layered tables.\<close>

record layered_row =
  rid :: uuid
  scope :: scope
  user_id :: "uuid option"
  agent_id :: "uuid option"
  slug :: string
  mandatory :: bool

text \<open>The four versioned tables add the version history columns.\<close>

record versioned_row = layered_row +
  version :: int
  is_current :: bool

subsection \<open>Schema constraints\<close>

text \<open>
  The alembic revision the database is at, as far as it matters for the layered tables:
  \<open>Schema_0001\<close> is the initial schema (and the ORM metadata), \<open>Schema_0003\<close> the
  schema from \<open>0003_agents\<close> to the head.
\<close>

datatype schema_rev = Schema_0001 | Schema_0003

definition scope_check :: "'a layered_row_scheme \<Rightarrow> bool" where
  "scope_check r \<longleftrightarrow> scope r = Official \<or> scope r = UserScope"

definition scope_user_id_check :: "'a layered_row_scheme \<Rightarrow> bool" where
  "scope_user_id_check r \<longleftrightarrow>
     scope r = UserScope \<and> user_id r \<noteq> None \<or> scope r = Official \<and> user_id r = None"

definition scope_agent_id_check :: "'a layered_row_scheme \<Rightarrow> bool" where
  "scope_agent_id_check r \<longleftrightarrow>
     scope r = UserScope \<and> agent_id r \<noteq> None \<or> scope r = Official \<and> agent_id r = None"

definition row_ok :: "schema_rev \<Rightarrow> 'a layered_row_scheme \<Rightarrow> bool" where
  "row_ok sch r \<longleftrightarrow> scope_check r \<and> scope_user_id_check r \<and>
     (case sch of Schema_0001 \<Rightarrow> True | Schema_0003 \<Rightarrow> scope_agent_id_check r)"

definition official_current :: "'a versioned_row_scheme \<Rightarrow> bool" where
  "official_current r \<longleftrightarrow> scope r = Official \<and> is_current r"

definition user_current :: "'a versioned_row_scheme \<Rightarrow> bool" where
  "user_current r \<longleftrightarrow> scope r = UserScope \<and> is_current r"

text \<open>Primary key, CHECK constraints and the two partial unique indexes.\<close>

definition table_ok :: "schema_rev \<Rightarrow> 'a versioned_row_scheme list \<Rightarrow> bool" where
  "table_ok sch t \<longleftrightarrow>
     distinct (map rid t) \<and>
     list_all (row_ok sch) t \<and>
     distinct (map slug (filter official_current t)) \<and>
     distinct (map (\<lambda>r. (user_id r, slug r)) (filter user_current t))"

subsection \<open>Statements\<close>

definition sql_update :: "('r \<Rightarrow> bool) \<Rightarrow> ('r \<Rightarrow> 'r) \<Rightarrow> 'r list \<Rightarrow> 'r list" where
  "sql_update p f t = map (\<lambda>r. if p r then f r else r) t"

definition sql_delete :: "('r \<Rightarrow> bool) \<Rightarrow> 'r list \<Rightarrow> 'r list" where
  "sql_delete p t = filter (\<lambda>r. \<not> p r) t"

text \<open>A statement that leaves table \<open>t\<close> behind succeeds when \<open>t\<close> meets the constraints.\<close>

definition checked ::
  "schema_rev \<Rightarrow> 'x \<Rightarrow> 'a versioned_row_scheme list \<Rightarrow> ('x \<times> 'a versioned_row_scheme list) result"
where
  "checked sch x t = (if table_ok sch t then Inr (x, t) else Inl IntegrityError)"

subsection \<open>The tenant of the transaction\<close>

text \<open>
  \<open>BaseRepo.current_user_id\<close>: the GUC \<open>app.user_id\<close> of the transaction, unset or
  empty being \<^const>\<open>None\<close>.
\<close>

definition current_user_id :: "uuid option \<Rightarrow> uuid result" where
  "current_user_id guc = (case guc of None \<Rightarrow> Inl RuntimeError | Some u \<Rightarrow> Inr u)"

subsection \<open>Reads\<close>

definition user_row :: "uuid \<Rightarrow> 'a versioned_row_scheme \<Rightarrow> bool" where
  "user_row u r \<longleftrightarrow> scope r = UserScope \<and> user_id r = Some u \<and> is_current r"

definition list_user_rows ::
  "('a versioned_row_scheme \<Rightarrow> 'k::linorder) \<Rightarrow> uuid option \<Rightarrow> 'a versioned_row_scheme list
     \<Rightarrow> 'a versioned_row_scheme list result"
where
  "list_user_rows ord guc t =
     bind_result (current_user_id guc) (\<lambda>u. Inr (sort_key ord (filter (user_row u) t)))"

definition list_official_rows ::
  "('a versioned_row_scheme \<Rightarrow> 'k::linorder) \<Rightarrow> 'a versioned_row_scheme list
     \<Rightarrow> 'a versioned_row_scheme list"
where
  "list_official_rows ord t = sort_key ord (filter official_current t)"

definition get_user_row ::
  "uuid option \<Rightarrow> string \<Rightarrow> 'a versioned_row_scheme list
     \<Rightarrow> 'a versioned_row_scheme option result"
where
  "get_user_row guc s t =
     bind_result (current_user_id guc)
       (\<lambda>u. scalar_one_or_none (filter (\<lambda>r. user_row u r \<and> slug r = s) t))"

definition get_official_row ::
  "string \<Rightarrow> 'a versioned_row_scheme list \<Rightarrow> 'a versioned_row_scheme option result"
where
  "get_official_row s t =
     scalar_one_or_none (filter (\<lambda>r. official_current r \<and> slug r = s) t)"

definition list_versions_rows ::
  "string \<Rightarrow> 'a versioned_row_scheme list \<Rightarrow> 'a versioned_row_scheme list"
where
  "list_versions_rows s t =
     sort_key (\<lambda>r. - version r) (filter (\<lambda>r. scope r = Official \<and> slug r = s) t)"

subsection \<open>Writes\<close>

definition insert_row ::
  "schema_rev \<Rightarrow> 'a versioned_row_scheme \<Rightarrow> 'a versioned_row_scheme list
     \<Rightarrow> ('a versioned_row_scheme \<times> 'a versioned_row_scheme list) result"
where
  "insert_row sch r t = checked sch r (t @ [r])"

text \<open>\<open>values = None\<close> is the empty \<open>values\<close> dict, for which the code only reads.\<close>

definition update_user_row ::
  "schema_rev \<Rightarrow> uuid option \<Rightarrow> string
     \<Rightarrow> ('a versioned_row_scheme \<Rightarrow> 'a versioned_row_scheme) option
     \<Rightarrow> 'a versioned_row_scheme list
     \<Rightarrow> ('a versioned_row_scheme option \<times> 'a versioned_row_scheme list) result"
where
  "update_user_row sch guc s values t =
     bind_result (current_user_id guc) (\<lambda>u.
       case values of
         None \<Rightarrow> bind_result (get_user_row guc s t) (\<lambda>r. Inr (r, t))
       | Some f \<Rightarrow>
           (let p = (\<lambda>r. user_row u r \<and> slug r = s)
            in bind_result (checked sch () (sql_update p f t)) (\<lambda>(_, t').
                 bind_result (scalar_one_or_none (map f (filter p t))) (\<lambda>r. Inr (r, t')))))"

definition delete_user_row ::
  "uuid option \<Rightarrow> string \<Rightarrow> 'a versioned_row_scheme list
     \<Rightarrow> (bool \<times> 'a versioned_row_scheme list) result"
where
  "delete_user_row guc s t =
     bind_result (current_user_id guc) (\<lambda>u.
       let p = (\<lambda>r. scope r = UserScope \<and> user_id r = Some u \<and> slug r = s)
       in Inr (filter p t \<noteq> [], sql_delete p t))"

definition retire_row ::
  "'a versioned_row_scheme \<Rightarrow> 'a versioned_row_scheme list \<Rightarrow> 'a versioned_row_scheme list"
where
  "retire_row c t = sql_update (\<lambda>r. rid r = rid c) (\<lambda>r. r\<lparr>is_current := False\<rparr>) t"

text \<open>
  \<open>update_official\<close>: retire the current row and insert its successor, which \<open>bump\<close>
  builds from the current one.
\<close>

definition update_official_row ::
  "schema_rev \<Rightarrow> ('a versioned_row_scheme \<Rightarrow> 'a versioned_row_scheme) \<Rightarrow> string
     \<Rightarrow> 'a versioned_row_scheme list
     \<Rightarrow> ('a versioned_row_scheme option \<times> 'a versioned_row_scheme list) result"
where
  "update_official_row sch bump s t =
     bind_result (get_official_row s t) (\<lambda>cur.
       case cur of
         None \<Rightarrow> Inr (None, t)
       | Some c \<Rightarrow>
           bind_result (checked sch () (retire_row c t)) (\<lambda>(_, t1).
             bind_result (insert_row sch (bump c) t1) (\<lambda>(r, t2). Inr (Some r, t2))))"

definition delete_official_row ::
  "schema_rev \<Rightarrow> string \<Rightarrow> 'a versioned_row_scheme list
     \<Rightarrow> (bool \<times> 'a versioned_row_scheme list) result"
where
  "delete_official_row sch s t =
     bind_result (get_official_row s t) (\<lambda>cur.
       case cur of
         None \<Rightarrow> Inr (False, t)
       | Some c \<Rightarrow> checked sch True (retire_row c t))"

definition rollback_official_row ::
  "schema_rev \<Rightarrow> string \<Rightarrow> int \<Rightarrow> 'a versioned_row_scheme list
     \<Rightarrow> ('a versioned_row_scheme option \<times> 'a versioned_row_scheme list) result"
where
  "rollback_official_row sch s v t =
     bind_result
       (scalar_one_or_none (filter (\<lambda>r. scope r = Official \<and> slug r = s \<and> version r = v) t))
       (\<lambda>tgt. case tgt of
          None \<Rightarrow> Inr (None, t)
        | Some target \<Rightarrow>
            bind_result
              (checked sch ()
                (sql_update (\<lambda>r. official_current r \<and> slug r = s)
                   (\<lambda>r. r\<lparr>is_current := False\<rparr>) t))
              (\<lambda>(_, t1).
                bind_result
                  (checked sch ()
                    (sql_update (\<lambda>r. rid r = rid target) (\<lambda>r. r\<lparr>is_current := True\<rparr>) t1))
                  (\<lambda>(_, t2). Inr (find (\<lambda>r. rid r = rid target) t2, t2))))"

subsection \<open>The constraints under statements\<close>

lemma table_ok_rid: "table_ok sch t \<Longrightarrow> distinct (map rid t)"
  by (simp add: table_ok_def)

text \<open>
  A row transformer that leaves the constrained columns alone and at most retires rows
  cannot violate a constraint.
\<close>

definition retiring :: "('a versioned_row_scheme \<Rightarrow> 'a versioned_row_scheme) \<Rightarrow> bool" where
  "retiring f \<longleftrightarrow> (\<forall>r. rid (f r) = rid r \<and> scope (f r) = scope r \<and> user_id (f r) = user_id r \<and>
     agent_id (f r) = agent_id r \<and> slug (f r) = slug r \<and> (is_current (f r) \<longrightarrow> is_current r))"

lemma row_ok_cong:
  "scope r' = scope r \<Longrightarrow> user_id r' = user_id r \<Longrightarrow> agent_id r' = agent_id r \<Longrightarrow>
   row_ok sch r' = row_ok sch r"
  by (simp add: row_ok_def scope_check_def scope_user_id_check_def scope_agent_id_check_def
      split: schema_rev.splits)

lemma distinct_map_filter_mono:
  assumes "distinct (map g (filter P xs))" and "\<And>x. Q x \<Longrightarrow> P x"
  shows "distinct (map g (filter Q xs))"
proof -
  have "filter Q xs = filter Q (filter P xs)"
    using assms(2) by (auto intro: filter_cong)
  with assms(1) show ?thesis by (metis distinct_map_filter)
qed

lemma table_ok_map_retiring:
  assumes t: "table_ok sch t" and f: "retiring f"
  shows "table_ok sch (map f t)"
proof -
  have fs: "rid (f r) = rid r" "scope (f r) = scope r" "user_id (f r) = user_id r"
    "agent_id (f r) = agent_id r" "slug (f r) = slug r" "is_current (f r) \<Longrightarrow> is_current r" for r
    using f by (auto simp: retiring_def)
  have "map rid (map f t) = map rid t"
    by (simp add: fs)
  then have "distinct (map rid (map f t))"
    using t by (simp only: table_ok_def)
  moreover have "list_all (row_ok sch) (map f t)"
    using t by (simp add: table_ok_def list_all_iff row_ok_cong [OF fs(2-4)])
  moreover have "distinct (map slug (filter official_current (map f t)))"
    using t distinct_map_filter_mono [of slug official_current t "\<lambda>r. official_current (f r)"]
    by (auto simp: table_ok_def filter_map o_def fs official_current_def)
  moreover have "distinct (map (\<lambda>r. (user_id r, slug r)) (filter user_current (map f t)))"
    using t distinct_map_filter_mono
      [of "\<lambda>r. (user_id r, slug r)" user_current t "\<lambda>r. user_current (f r)"]
    by (auto simp: table_ok_def filter_map o_def fs user_current_def)
  ultimately show ?thesis
    by (simp only: table_ok_def simp_thms)
qed

lemma retiring_if [intro]: "retiring f \<Longrightarrow> retiring (\<lambda>r. if p r then f r else r)"
  by (auto simp: retiring_def)

lemma retiring_retire [intro, simp]: "retiring (\<lambda>r. r\<lparr>is_current := False\<rparr>)"
  by (auto simp: retiring_def)

lemma table_ok_update [simp, intro]:
  "table_ok sch t \<Longrightarrow> retiring f \<Longrightarrow> table_ok sch (sql_update p f t)"
  unfolding sql_update_def by (rule table_ok_map_retiring) auto

lemma table_ok_retire_row [simp, intro]: "table_ok sch t \<Longrightarrow> table_ok sch (retire_row c t)"
  by (simp add: retire_row_def)

lemma table_ok_delete [simp, intro]: "table_ok sch t \<Longrightarrow> table_ok sch (sql_delete p t)"
  unfolding table_ok_def sql_delete_def
  by (auto simp: distinct_map_filter list_all_iff filter_filter conj_commute
      intro: distinct_map_filter_mono)

lemma checked_eq_Inr: "checked sch x t = Inr (y, t') \<longleftrightarrow> table_ok sch t \<and> y = x \<and> t' = t"
  by (auto simp: checked_def)

lemma checked_ok [simp]: "table_ok sch t \<Longrightarrow> checked sch x t = Inr (x, t)"
  by (simp add: checked_def)

subsection \<open>Lookups never find two rows\<close>

lemma official_le_one:
  "table_ok sch t \<Longrightarrow> length (filter (\<lambda>r. official_current r \<and> slug r = s) t) \<le> 1"
  by (rule filter_same_key_le_one [where P = official_current and f = slug and k = s])
    (auto simp: table_ok_def)

lemma user_le_one:
  "table_ok sch t \<Longrightarrow> length (filter (\<lambda>r. user_row u r \<and> slug r = s) t) \<le> 1"
  by (rule filter_same_key_le_one
      [where P = user_current and f = "\<lambda>r. (user_id r, slug r)" and k = "(Some u, s)"])
    (auto simp: table_ok_def user_row_def user_current_def)

lemma get_official_row_ok:
  "table_ok sch t \<Longrightarrow> \<exists>x. get_official_row s t = Inr x"
  by (rule le_one_cases [OF official_le_one [of sch t s]]) (auto simp: get_official_row_def)

lemma get_user_row_ok:
  "table_ok sch t \<Longrightarrow> guc = Some u \<Longrightarrow> \<exists>x. get_user_row guc s t = Inr x"
  by (rule le_one_cases [OF user_le_one [of sch t u s]])
    (auto simp: get_user_row_def current_user_id_def)

lemma get_official_row_Some:
  assumes "table_ok sch t"
  shows "get_official_row s t = Inr (Some r) \<longleftrightarrow> r \<in> set t \<and> official_current r \<and> slug r = s"
  using official_le_one [OF assms, of s]
  by (simp add: get_official_row_def filter_le_one_singleton)

lemma get_user_row_Some:
  assumes "table_ok sch t"
  shows "get_user_row (Some u) s t = Inr (Some r) \<longleftrightarrow> r \<in> set t \<and> user_row u r \<and> slug r = s"
  using user_le_one [OF assms, of u s]
  by (simp add: get_user_row_def current_user_id_def filter_le_one_singleton)

end
