(* ===== verification/Version_History.thy ===== *)
theory Version_History
  imports Layered_Tables
begin

text \<open>
  What the statements of \<open>Layered_Tables\<close> do to the version history of an official
  entity, on any table that meets its constraints: which row is current afterwards, which
  rows are untouched, and that no constraint is violated on the way.  The locale
  \<open>official_versions\<close> is the contract a repository's row builders meet; the repositories
  interpret it with their own.
\<close>

subsection \<open>Inserting a row\<close>

lemma table_ok_snoc:
  assumes "table_ok sch t" and "rid r \<notin> rid ` set t" and "row_ok sch r"
    and "official_current r \<Longrightarrow> \<forall>x \<in> set t. official_current x \<longrightarrow> slug x \<noteq> slug r"
    and "user_current r \<Longrightarrow> \<forall>x \<in> set t. user_current x \<longrightarrow> (user_id x, slug x) \<noteq> (user_id r, slug r)"
  shows "table_ok sch (t @ [r])"
  using assms unfolding table_ok_def by auto

lemma table_ok_snocD: "table_ok sch (t @ [r]) \<Longrightarrow> table_ok sch t \<and> row_ok sch r"
  by (auto simp: table_ok_def)

subsection \<open>Retiring the current row\<close>

lemma rid_inj: "table_ok sch t \<Longrightarrow> x \<in> set t \<Longrightarrow> y \<in> set t \<Longrightarrow> rid x = rid y \<Longrightarrow> x = y"
  by (drule table_ok_rid) (simp add: distinct_map inj_on_def)

lemma map_rid_retire_row: "map rid (retire_row c t) = map rid t"
  by (simp add: retire_row_def sql_update_def)

lemma rid_retire_row [simp]: "rid ` set (retire_row c t) = rid ` set t"
  using map_rid_retire_row [of c t] by (metis set_map)

lemma retire_row_memD:
  assumes "table_ok sch t" and "c \<in> set t" and "x \<in> set (retire_row c t)"
  shows "x = c\<lparr>is_current := False\<rparr> \<or> x \<in> set t \<and> x \<noteq> c"
proof -
  obtain y where y: "y \<in> set t" "x = (if rid y = rid c then y\<lparr>is_current := False\<rparr> else y)"
    using assms(3) by (auto simp: retire_row_def sql_update_def)
  then show ?thesis
    using rid_inj [OF assms(1) y(1) assms(2)] by (cases "y = c") auto
qed

lemma retire_row_no_current:
  assumes "table_ok sch t" and "c \<in> set t" and "official_current c" and "x \<in> set (retire_row c t)"
    and "official_current x"
  shows "slug x \<noteq> slug c"
proof
  assume s: "slug x = slug c"
  have "x \<noteq> c\<lparr>is_current := False\<rparr>"
    using assms(5) by (auto simp: official_current_def)
  then have x: "x \<in> set t" "x \<noteq> c"
    using retire_row_memD [OF assms(1,2,4)] by auto
  have "get_official_row (slug c) t = Inr (Some x)" "get_official_row (slug c) t = Inr (Some c)"
    using assms x s by (auto simp: get_official_row_Some [OF assms(1)])
  with x show False by simp
qed

lemma filter_retire_row:
  assumes "table_ok sch t" and "c \<in> set t" and "\<not> P c" and "\<not> P (c\<lparr>is_current := False\<rparr>)"
  shows "filter P (retire_row c t) = filter P t"
proof -
  have "filter P (map (\<lambda>r. if rid r = rid c then r\<lparr>is_current := False\<rparr> else r) ys) = filter P ys"
    if "set ys \<subseteq> set t" for ys
    using that
  proof (induction ys)
    case (Cons y ys)
    then show ?case
      using rid_inj [OF assms(1) _ assms(2), of y] assms(3,4) by (cases "y = c") auto
  qed simp
  then show ?thesis by (simp add: retire_row_def sql_update_def)
qed

lemma get_official_retire_other:
  assumes "table_ok sch t" and "c \<in> set t" and "slug c \<noteq> s"
  shows "get_official_row s (retire_row c t) = get_official_row s t"
  using assms(3) by (simp add: get_official_row_def filter_retire_row [OF assms(1,2)])

lemma get_official_retire_same:
  assumes "table_ok sch t" and "c \<in> set t" and "official_current c"
  shows "get_official_row (slug c) (retire_row c t) = Inr None"
  using retire_row_no_current [OF assms] by (auto simp: get_official_row_def filter_empty_conv)

lemma get_official_snoc:
  "get_official_row s (t @ [r]) =
    (if official_current r \<and> slug r = s
     then (case get_official_row s t of Inr None \<Rightarrow> Inr (Some r) | _ \<Rightarrow> Inl MultipleResultsFound)
     else get_official_row s t)"
  by (cases "filter (\<lambda>r. official_current r \<and> slug r = s) t" rule: scalar_one_or_none.cases)
    (auto simp: get_official_row_def)

subsection \<open>Updating, deleting\<close>

text \<open>\<open>r\<close> is the next official version of \<open>c\<close>, under the primary key \<open>n\<close>.\<close>

definition official_successor ::
  "'a versioned_row_scheme \<Rightarrow> uuid \<Rightarrow> 'a versioned_row_scheme \<Rightarrow> bool" where
  "official_successor c n r \<longleftrightarrow> rid r = n \<and> scope r = Official \<and> user_id r = None \<and>
     agent_id r = None \<and> slug r = slug c \<and> version r = version c + 1 \<and> is_current r"

definition official_first :: "uuid \<Rightarrow> string \<Rightarrow> 'a versioned_row_scheme \<Rightarrow> bool" where
  "official_first n s r \<longleftrightarrow> rid r = n \<and> scope r = Official \<and> user_id r = None \<and>
     agent_id r = None \<and> slug r = s \<and> version r = 1 \<and> is_current r"

lemma official_row_ok:
  "scope r = Official \<Longrightarrow> user_id r = None \<Longrightarrow> agent_id r = None \<Longrightarrow> row_ok sch r"
  by (simp add: row_ok_def scope_check_def scope_user_id_check_def scope_agent_id_check_def
      split: schema_rev.splits)

lemma update_official_row_none:
  "get_official_row s t = Inr None \<Longrightarrow> update_official_row sch f s t = Inr (None, t)"
  by (simp add: update_official_row_def)

lemma update_official_row_some:
  assumes t: "table_ok sch t" and c: "get_official_row s t = Inr (Some c)"
    and f: "official_successor c n (f c)" and n: "n \<notin> rid ` set t"
  shows "update_official_row sch f s t = Inr (Some (f c), retire_row c t @ [f c])"
    and "table_ok sch (retire_row c t @ [f c])"
proof -
  have c': "c \<in> set t" "official_current c" "slug c = s"
    using c by (auto simp: get_official_row_Some [OF t])
  show ok: "table_ok sch (retire_row c t @ [f c])"
  proof (rule table_ok_snoc)
    show "table_ok sch (retire_row c t)" using t by simp
    show "rid (f c) \<notin> rid ` set (retire_row c t)"
      using f n by (simp add: official_successor_def)
    show "row_ok sch (f c)"
      using f by (intro official_row_ok) (simp_all add: official_successor_def)
    show "\<forall>x \<in> set (retire_row c t). official_current x \<longrightarrow> slug x \<noteq> slug (f c)"
      using retire_row_no_current [OF t c'(1,2)] f by (auto simp: official_successor_def)
    show "\<forall>x \<in> set (retire_row c t). user_current x \<longrightarrow>
        (user_id x, slug x) \<noteq> (user_id (f c), slug (f c))" if "user_current (f c)"
      using that f by (simp add: user_current_def official_successor_def)
  qed
  with t c show "update_official_row sch f s t = Inr (Some (f c), retire_row c t @ [f c])"
    by (simp add: update_official_row_def insert_row_def)
qed

lemma get_official_after_update:
  assumes t: "table_ok sch t" and c: "get_official_row s t = Inr (Some c)"
    and r: "official_successor c n r"
  shows "get_official_row s' (retire_row c t @ [r])
       = (if s' = s then Inr (Some r) else get_official_row s' t)"
proof -
  have c': "c \<in> set t" "official_current c" "slug c = s"
    using c by (auto simp: get_official_row_Some [OF t])
  show ?thesis
    using get_official_retire_same [OF t c'(1,2)] get_official_retire_other [OF t c'(1)] c' r
    by (auto simp: get_official_snoc official_successor_def official_current_def)
qed

lemma delete_official_row_some:
  assumes t: "table_ok sch t" and c: "get_official_row s t = Inr (Some c)"
  shows "delete_official_row sch s t = Inr (True, retire_row c t)"
  using assms by (simp add: delete_official_row_def)

lemma delete_official_row_none:
  "get_official_row s t = Inr None \<Longrightarrow> delete_official_row sch s t = Inr (False, t)"
  by (simp add: delete_official_row_def)

lemma get_official_after_delete:
  assumes t: "table_ok sch t" and c: "get_official_row s t = Inr (Some c)"
  shows "get_official_row s' (retire_row c t)
       = (if s' = s then Inr None else get_official_row s' t)"
proof -
  have c': "c \<in> set t" "official_current c" "slug c = s"
    using c by (auto simp: get_official_row_Some [OF t])
  then show ?thesis
    using get_official_retire_same [OF t c'(1,2)] get_official_retire_other [OF t c'(1)] by auto
qed

subsection \<open>Rolling back\<close>

lemma sql_update_rid_split:
  assumes "distinct (map rid (xs @ x # ys))" and "rid x = i"
  shows "sql_update (\<lambda>r. rid r = i) f (xs @ x # ys) = xs @ f x # ys"
proof -
  have "map (\<lambda>r. if rid r = i then f r else r) zs = zs" if "i \<notin> rid ` set zs" for zs
    using that by (intro map_idI) auto
  with assms show ?thesis by (auto simp: sql_update_def)
qed

lemma table_ok_activate:
  assumes t: "table_ok sch (xs @ x # ys)" and x: "scope x = Official"
    and none: "\<forall>y \<in> set (xs @ x # ys). official_current y \<longrightarrow> slug y \<noteq> slug x"
  shows "table_ok sch (xs @ x\<lparr>is_current := True\<rparr> # ys)"
proof -
  let ?x = "x\<lparr>is_current := True\<rparr>"
  have "row_ok sch ?x = row_ok sch x" by (rule row_ok_cong) simp_all
  moreover have "official_current ?x" "\<not> user_current ?x" "\<not> user_current x"
    using x by (simp_all add: official_current_def user_current_def)
  moreover have "\<not> official_current x" using none by auto
  ultimately show ?thesis
    using t none unfolding table_ok_def by auto
qed

lemma rollback_official_row_none:
  "filter (\<lambda>r. scope r = Official \<and> slug r = s \<and> version r = v) t = [] \<Longrightarrow>
   rollback_official_row sch s v t = Inr (None, t)"
  by (simp add: rollback_official_row_def)

definition rolled_back ::
  "string \<Rightarrow> 'a versioned_row_scheme \<Rightarrow> 'a versioned_row_scheme list
     \<Rightarrow> 'a versioned_row_scheme list"
where
  "rolled_back s target t = sql_update (\<lambda>r. rid r = rid target) (\<lambda>r. r\<lparr>is_current := True\<rparr>)
     (sql_update (\<lambda>r. official_current r \<and> slug r = s) (\<lambda>r. r\<lparr>is_current := False\<rparr>) t)"

lemma rolled_back_split:
  fixes s :: string
  assumes "table_ok sch t" and "t = xs @ target # ys"
    and "g = (\<lambda>r. if official_current r \<and> slug r = s then r\<lparr>is_current := False\<rparr> else r)"
  shows "rolled_back s target t = map g xs @ target\<lparr>is_current := True\<rparr> # map g ys"
    and "sql_update (\<lambda>r. official_current r \<and> slug r = s) (\<lambda>r. r\<lparr>is_current := False\<rparr>) t
       = map g xs @ g target # map g ys"
proof -
  show t1: "sql_update (\<lambda>r. official_current r \<and> slug r = s) (\<lambda>r. r\<lparr>is_current := False\<rparr>) t
       = map g xs @ g target # map g ys"
    by (simp add: assms(2,3) sql_update_def)
  have g: "rid (g r) = rid r" "(g r)\<lparr>is_current := True\<rparr> = r\<lparr>is_current := True\<rparr>" for r
    by (simp_all add: assms(3))
  have "map rid (map g xs @ g target # map g ys) = map rid t"
    by (simp add: assms(2) g(1))
  then have "distinct (map rid (map g xs @ g target # map g ys))"
    using table_ok_rid [OF assms(1)] by (simp only:)
  then have "sql_update (\<lambda>r. rid r = rid target) (\<lambda>r. r\<lparr>is_current := True\<rparr>)
      (map g xs @ g target # map g ys) = map g xs @ (g target)\<lparr>is_current := True\<rparr> # map g ys"
    by (rule sql_update_rid_split) (rule g(1))
  then show "rolled_back s target t = map g xs @ target\<lparr>is_current := True\<rparr> # map g ys"
    by (simp only: rolled_back_def t1 g(2))
qed

lemma rollback_official_row_some:
  assumes t: "table_ok sch t"
    and tgt: "filter (\<lambda>r. scope r = Official \<and> slug r = s \<and> version r = v) t = [target]"
  shows "rollback_official_row sch s v t
       = Inr (Some (target\<lparr>is_current := True\<rparr>), rolled_back s target t)"
    and "table_ok sch (rolled_back s target t)"
proof -
  have T: "target \<in> set t" "scope target = Official" "slug target = s"
    using filter_singletonD [OF tgt] by auto
  then obtain xs ys where xy: "t = xs @ target # ys" by (auto dest: split_list)
  let ?g = "\<lambda>r. if official_current r \<and> slug r = s then r\<lparr>is_current := False\<rparr> else r"
  let ?t1 = "sql_update (\<lambda>r. official_current r \<and> slug r = s) (\<lambda>r. r\<lparr>is_current := False\<rparr>) t"
  note t1 = rolled_back_split(2) [OF t xy refl, of s] and t2 = rolled_back_split(1) [OF t xy refl, of s]
  have ok1: "table_ok sch ?t1" using t by auto
  have act: "(?g target)\<lparr>is_current := True\<rparr> = target\<lparr>is_current := True\<rparr>" by simp
  have "table_ok sch (map ?g xs @ (?g target)\<lparr>is_current := True\<rparr> # map ?g ys)"
  proof (rule table_ok_activate)
    show "table_ok sch (map ?g xs @ ?g target # map ?g ys)"
      using ok1 by (simp only: t1)
    show "scope (?g target) = Official" using T by simp
    show "\<forall>y \<in> set (map ?g xs @ ?g target # map ?g ys).
        official_current y \<longrightarrow> slug y \<noteq> slug (?g target)"
      using T by (auto simp: official_current_def)
  qed
  then show ok2: "table_ok sch (rolled_back s target t)"
    by (simp only: t2 act)
  have fresh: "rid target \<notin> rid ` set (map ?g xs)"
    using table_ok_rid [OF t] by (auto simp: xy)
  have "find (\<lambda>r. rid r = rid target) (rolled_back s target t)
      = Some (target\<lparr>is_current := True\<rparr>)"
    unfolding t2
    using fresh by (induction xs) auto
  then show "rollback_official_row sch s v t
       = Inr (Some (target\<lparr>is_current := True\<rparr>), rolled_back s target t)"
    using ok1 ok2 by (simp add: rollback_official_row_def tgt rolled_back_def)
qed

lemma get_official_after_rollback:
  fixes t :: "'a versioned_row_scheme list"
  assumes t: "table_ok sch t"
    and tgt: "filter (\<lambda>r. scope r = Official \<and> slug r = s \<and> version r = v) t = [target]"
  shows "get_official_row s' (rolled_back s target t)
       = (if s' = s then Inr (Some (target\<lparr>is_current := True\<rparr>)) else get_official_row s' t)"
proof -
  have T: "target \<in> set t" "scope target = Official" "slug target = s"
    using filter_singletonD [OF tgt] by auto
  then obtain xs ys where xy: "t = xs @ target # ys" by (auto dest: split_list)
  let ?g = "\<lambda>r. if official_current r \<and> slug r = s then r\<lparr>is_current := False\<rparr> else r"
  note t2 = rolled_back_split(1) [OF t xy refl, of s]
  have other: "filter (\<lambda>r. official_current r \<and> slug r = s') (map ?g zs)
      = filter (\<lambda>r. official_current r \<and> slug r = s') zs" if "s' \<noteq> s"
    for zs :: "'a versioned_row_scheme list"
    using that by (induction zs) auto
  have same: "filter (\<lambda>r. official_current r \<and> slug r = s) (map ?g zs) = []"
    for zs :: "'a versioned_row_scheme list"
    by (induction zs) (auto simp: official_current_def)
  have x: "official_current (target\<lparr>is_current := True\<rparr>)" "slug (target\<lparr>is_current := True\<rparr>) = s"
    using T by (simp_all add: official_current_def)
  show ?thesis
  proof (cases "s' = s")
    case True
    then show ?thesis
      unfolding get_official_row_def t2 using x same by simp
  next
    case False
    have "filter (\<lambda>r. official_current r \<and> slug r = s') (rolled_back s target t)
        = filter (\<lambda>r. official_current r \<and> slug r = s') (xs @ target # ys)"
      unfolding t2 using False x T other [OF False] by simp
    with False show ?thesis
      by (simp only: get_official_row_def xy [symmetric] if_False)
  qed
qed

subsection \<open>Linear histories\<close>

definition history :: "string \<Rightarrow> 'a versioned_row_scheme list \<Rightarrow> int list" where
  "history s t = map version (filter (\<lambda>r. scope r = Official \<and> slug r = s) t)"

text \<open>No version number twice, and the current version is the newest one.\<close>

definition linear_history :: "string \<Rightarrow> 'a versioned_row_scheme list \<Rightarrow> bool" where
  "linear_history s t \<longleftrightarrow> distinct (history s t) \<and>
     (\<forall>c \<in> set t. official_current c \<and> slug c = s \<longrightarrow> (\<forall>v \<in> set (history s t). v \<le> version c))"

lemma history_retiring:
  assumes "retiring f" and "\<And>r. version (f r) = version r"
  shows "history s (sql_update p f t) = history s t"
  using assms by (induction t) (auto simp: history_def sql_update_def retiring_def)

lemma history_retire_row [simp]: "history s (retire_row c t) = history s t"
  unfolding retire_row_def by (rule history_retiring) auto

lemma history_snoc:
  "history s (t @ [r]) = history s t @ (if scope r = Official \<and> slug r = s then [version r] else [])"
  by (simp add: history_def)

lemma linear_history_update:
  assumes t: "table_ok sch t" and lin: "linear_history s t"
    and c: "get_official_row s t = Inr (Some c)" and r: "official_successor c n r"
  shows "linear_history s (retire_row c t @ [r])"
proof -
  have c': "c \<in> set t" "official_current c" "slug c = s"
    using c by (auto simp: get_official_row_Some [OF t])
  have hist: "history s (retire_row c t @ [r]) = history s t @ [version c + 1]"
    using r c' by (simp add: history_snoc official_successor_def)
  have max: "\<forall>v \<in> set (history s t). v \<le> version c"
    using lin c' by (auto simp: linear_history_def)
  have cur: "x = r" if "x \<in> set (retire_row c t @ [r])" "official_current x" "slug x = s" for x
    using that retire_row_no_current [OF t c'(1,2), of x] c'(3) by auto
  have "distinct (history s t @ [version c + 1])"
    using lin max by (auto simp: linear_history_def)
  moreover have "v \<le> version x"
    if x: "x \<in> set (retire_row c t @ [r])" "official_current x \<and> slug x = s"
      and v: "v \<in> set (history s t @ [version c + 1])" for x v
  proof -
    have "version x = version c + 1"
      using cur [OF x(1)] x(2) r by (auto simp: official_successor_def)
    with v max show ?thesis by force
  qed
  ultimately show ?thesis
    unfolding linear_history_def hist by blast
qed

lemma linear_history_unambiguous:
  assumes "linear_history s t"
  shows "length (filter (\<lambda>r. scope r = Official \<and> slug r = s \<and> version r = v) t) \<le> 1"
  by (rule filter_same_key_le_one
      [where P = "\<lambda>r. scope r = Official \<and> slug r = s" and f = version and k = v])
    (use assms in \<open>auto simp: linear_history_def history_def\<close>)

lemma history_rolled_back [simp]: "history s' (rolled_back s target t) = history s' t"
proof -
  have "history s' (sql_update p (\<lambda>r. r\<lparr>is_current := True\<rparr>) xs) = history s' xs"
    for p and xs :: "'a versioned_row_scheme list"
    by (induction xs) (auto simp: history_def sql_update_def)
  then show ?thesis
    unfolding rolled_back_def by (simp add: history_retiring)
qed

text \<open>
  Rolling back to a version that is not the newest and then updating gives the new row the
  number of a version that already exists, and that number can no longer be rolled back to.
\<close>

lemma rollback_ambiguous:
  assumes "v \<in> set (history s t)" and "scope r = Official" and "slug r = s" and "version r = v"
  shows "rollback_official_row sch s v (t @ [r]) = Inl MultipleResultsFound"
proof -
  let ?P = "\<lambda>r. scope r = Official \<and> slug r = s \<and> version r = v"
  have "filter ?P t \<noteq> []"
    using assms(1) by (auto simp: history_def filter_empty_conv)
  then have "2 \<le> length (filter ?P (t @ [r]))"
    using assms(2-4) by (cases "filter ?P t") auto
  then have "scalar_one_or_none (filter ?P (t @ [r])) = Inl MultipleResultsFound"
    by (simp only: scalar_one_or_none_Inl)
  then show ?thesis
    by (simp add: rollback_official_row_def del: filter_append)
qed

subsection \<open>Who owns the rows\<close>

text \<open>Official statements leave every user row as it is.\<close>

definition user_rows :: "'a versioned_row_scheme list \<Rightarrow> 'a versioned_row_scheme list" where
  "user_rows t = filter (\<lambda>r. scope r = UserScope) t"

lemma user_rows_retire [simp]:
  assumes "table_ok sch t" and "c \<in> set t" and "official_current c"
  shows "user_rows (retire_row c t) = user_rows t"
  unfolding user_rows_def using assms
  by (intro filter_retire_row [OF assms(1,2)]) (auto simp: official_current_def)

text \<open>The rows tenant \<open>u\<close> does not own: no statement of \<open>u\<close> touches them.\<close>

definition owned :: "uuid \<Rightarrow> 'a versioned_row_scheme \<Rightarrow> bool" where
  "owned u r \<longleftrightarrow> scope r = UserScope \<and> user_id r = Some u"

definition foreign_rows :: "uuid \<Rightarrow> 'a versioned_row_scheme list \<Rightarrow> 'a versioned_row_scheme list"
where
  "foreign_rows u t = filter (\<lambda>r. \<not> owned u r) t"

lemma list_user_rows_owned:
  "list_user_rows ord (Some u) t = Inr rs \<Longrightarrow>
   set rs = {r \<in> set t. owned u r \<and> is_current r}"
  by (auto simp: list_user_rows_def current_user_id_def user_row_def owned_def)

lemma get_user_row_owned:
  "get_user_row (Some u) s t = Inr (Some r) \<Longrightarrow> r \<in> set t \<and> owned u r \<and> slug r = s"
  by (auto simp: get_user_row_def current_user_id_def user_row_def owned_def dest: filter_singletonD)

lemma foreign_rows_insert: "owned u r \<Longrightarrow> foreign_rows u (t @ [r]) = foreign_rows u t"
  by (simp add: foreign_rows_def)

lemma foreign_rows_update:
  assumes upd: "update_user_row sch (Some u) s values t = Inr (r, t')"
    and f: "\<And>f x. values = Some f \<Longrightarrow> scope (f x) = scope x \<and> user_id (f x) = user_id x"
  shows "foreign_rows u t' = foreign_rows u t"
proof (cases "values")
  case None
  with upd show ?thesis
    by (auto simp: update_user_row_def current_user_id_def result_eqs)
next
  case (Some g)
  have "foreign_rows u (sql_update (\<lambda>r. user_row u r \<and> slug r = s) g t) = foreign_rows u t"
    using f [OF Some]
    by (induction t) (auto simp: foreign_rows_def sql_update_def owned_def user_row_def)
  with Some upd show ?thesis
    by (auto simp: update_user_row_def current_user_id_def result_eqs checked_eq_Inr Let_def)
qed

lemma foreign_rows_delete:
  "delete_user_row (Some u) s t = Inr (b, t') \<Longrightarrow> foreign_rows u t' = foreign_rows u t"
  by (auto simp: delete_user_row_def current_user_id_def foreign_rows_def sql_delete_def owned_def
      intro: filter_cong)

lemma no_tenant_no_rows:
  "list_user_rows ord None t = Inl RuntimeError"
  "get_user_row None s t = Inl RuntimeError"
  "update_user_row sch None s vs t = Inl RuntimeError"
  "delete_user_row None s t = Inl RuntimeError"
  by (simp_all add: list_user_rows_def get_user_row_def update_user_row_def delete_user_row_def
      current_user_id_def)

subsection \<open>The contract of a versioned repository\<close>

text \<open>
  \<open>first\<close> builds the row of \<open>create_official\<close>, \<open>bump\<close> the successor row of
  \<open>update_official\<close>.  What a repository promises about them is all the history laws need.
\<close>

locale official_versions =
  fixes first :: "uuid \<Rightarrow> string \<Rightarrow> 'p \<Rightarrow> 'a versioned_row_scheme"
    and bump :: "uuid \<Rightarrow> string \<Rightarrow> 'q \<Rightarrow> 'a versioned_row_scheme \<Rightarrow> 'a versioned_row_scheme"
  assumes first_row: "official_first n s (first n s p)"
    and bump_row: "slug c = s \<Longrightarrow> official_successor c n (bump n s q c)"
begin

lemma create_new:
  assumes t: "table_ok sch t" and none: "get_official_row s t = Inr None" and n: "n \<notin> rid ` set t"
  shows "insert_row sch (first n s p) t = Inr (first n s p, t @ [first n s p])"
    and "get_official_row s (t @ [first n s p]) = Inr (Some (first n s p))"
proof -
  let ?r = "first n s p"
  have r: "official_first n s ?r" by (rule first_row)
  have "table_ok sch (t @ [?r])"
  proof (rule table_ok_snoc [OF t])
    show "row_ok sch ?r" using r by (intro official_row_ok) (simp_all add: official_first_def)
    show "\<forall>x \<in> set t. official_current x \<longrightarrow> slug x \<noteq> slug ?r"
      using none r by (auto simp: get_official_row_def filter_empty_conv official_first_def)
    show "\<forall>x \<in> set t. user_current x \<longrightarrow> (user_id x, slug x) \<noteq> (user_id ?r, slug ?r)"
      if "user_current ?r" using that r by (simp add: user_current_def official_first_def)
  qed (use n r in \<open>simp add: official_first_def\<close>)
  then show "insert_row sch ?r t = Inr (?r, t @ [?r])"
    by (simp add: insert_row_def)
  show "get_official_row s (t @ [?r]) = Inr (Some ?r)"
    using none r by (simp add: get_official_snoc official_first_def official_current_def)
qed

lemma create_taken:
  assumes t: "table_ok sch t" and c: "get_official_row s t = Inr (Some c)"
  shows "insert_row sch (first n s p) t = Inl IntegrityError"
proof -
  have "c \<in> set t" "official_current c" "slug c = s"
    using c by (auto simp: get_official_row_Some [OF t])
  moreover have "official_current (first n s p)" "slug (first n s p) = s"
    using first_row [of n s p] by (auto simp: official_first_def official_current_def)
  ultimately have "\<not> table_ok sch (t @ [first n s p])"
    by (force simp: table_ok_def)
  then show ?thesis by (simp add: insert_row_def checked_def)
qed

lemma update_read_back:
  assumes t: "table_ok sch t" and c: "get_official_row s t = Inr (Some c)" and n: "n \<notin> rid ` set t"
  shows "\<exists>t'. update_official_row sch (bump n s q) s t = Inr (Some (bump n s q c), t') \<and>
     table_ok sch t' \<and> get_official_row s t' = Inr (Some (bump n s q c)) \<and>
     (\<forall>s'. s' \<noteq> s \<longrightarrow> get_official_row s' t' = get_official_row s' t) \<and>
     user_rows t' = user_rows t \<and> (linear_history s t \<longrightarrow> linear_history s t')"
proof -
  have c': "c \<in> set t" "official_current c" "slug c = s"
    using c by (auto simp: get_official_row_Some [OF t])
  have r: "official_successor c n (bump n s q c)" using c'(3) by (rule bump_row)
  let ?t' = "retire_row c t @ [bump n s q c]"
  have "user_rows ?t' = user_rows t"
    using r user_rows_retire [OF t c'(1,2)] by (simp add: user_rows_def official_successor_def)
  then show ?thesis
    using update_official_row_some [where f = "bump n s q", OF t c r n] get_official_after_update [OF t c r]
      linear_history_update [OF t _ c r] by auto
qed

lemma rollback_then_update_clash:
  assumes t: "table_ok sch t"
    and tgt: "filter (\<lambda>r. scope r = Official \<and> slug r = s \<and> version r = v) t = [target]"
    and newer: "v + 1 \<in> set (history s t)" and n: "n \<notin> rid ` set t"
  shows "\<exists>t2. bind_result (rollback_official_row sch s v t)
       (\<lambda>(_, t1). update_official_row sch (bump n s q) s t1)
      = Inr (Some (bump n s q (target\<lparr>is_current := True\<rparr>)), t2) \<and>
     rollback_official_row sch s (v + 1) t2 = Inl MultipleResultsFound"
proof -
  let ?c = "target\<lparr>is_current := True\<rparr>" and ?t1 = "rolled_back s target t"
  have T: "slug target = s" "scope target = Official" "version target = v"
    using filter_singletonD [OF tgt] by auto
  note rb = rollback_official_row_some [OF t tgt]
  have c: "get_official_row s ?t1 = Inr (Some ?c)"
    by (simp add: get_official_after_rollback [OF t tgt])
  have r: "official_successor ?c n (bump n s q ?c)" by (rule bump_row) (simp add: T)
  have "map rid ?t1 = map rid t"
    by (simp add: rolled_back_def sql_update_def)
  then have n1: "n \<notin> rid ` set ?t1" using n by (metis set_map)
  have "rollback_official_row sch s (v + 1) (retire_row ?c ?t1 @ [bump n s q ?c])
      = Inl MultipleResultsFound"
    by (rule rollback_ambiguous) (use newer r T in \<open>simp_all add: official_successor_def\<close>)
  then show ?thesis
    using update_official_row_some(1) [where f = "bump n s q", OF rb(2) c r n1] by (simp add: rb(1))
qed

end

end
