(* ===== verification/Layered_Resolution.thy ===== *)
theory Layered_Resolution
  imports Version_History
begin

text \<open>
  The three loops of every \<open>list_effective\<close>: bundled entries, then official rows, then the
  tenant's rows are stored into one dict under their slug, so a later layer shadows an
  earlier one, except that an opted-out official is skipped unless mandatory and a user row
  never shadows a mandatory official.  \<open>effective_at\<close> states the same precedence as a
  specification, slug by slug; the locale \<open>layered_entity\<close> proves once that the loops
  implement it, for every entity whose resolved form carries its slug.
\<close>

subsection \<open>The loops\<close>

definition store_all ::
  "('x \<Rightarrow> bool) \<Rightarrow> ('x \<Rightarrow> string) \<Rightarrow> ('x \<Rightarrow> 'r) \<Rightarrow> 'x list \<Rightarrow> (string \<times> 'r) list \<Rightarrow> (string \<times> 'r) list"
where
  "store_all keep key mk xs d =
     fold (\<lambda>x m. if keep x then dict_set (key x) (mk x) m else m) xs d"

definition mandatory_slugs :: "'a versioned_row_scheme list \<Rightarrow> string list" where
  "mandatory_slugs officials = map slug (filter mandatory officials)"

text \<open>
  \<open>enabled\<close> is the extra guard of the MCP repository; the other repositories have none
  (they pass \<open>\<lambda>_. True\<close>).
\<close>

definition layered_merge ::
  "('b \<Rightarrow> string) \<Rightarrow> ('b \<Rightarrow> 'r) \<Rightarrow> ('a versioned_row_scheme \<Rightarrow> bool)
     \<Rightarrow> ('a versioned_row_scheme \<Rightarrow> 'r) \<Rightarrow> ('a versioned_row_scheme \<Rightarrow> 'r)
     \<Rightarrow> string list \<Rightarrow> 'b list \<Rightarrow> 'a versioned_row_scheme list \<Rightarrow> 'a versioned_row_scheme list
     \<Rightarrow> (string \<times> 'r) list"
where
  "layered_merge bkey mkb enabled mko mku opt_outs bundled officials users =
     store_all (\<lambda>u. enabled u \<and> slug u \<notin> set (mandatory_slugs officials)) slug mku users
       (store_all (\<lambda>r. enabled r \<and> \<not> (\<not> mandatory r \<and> slug r \<in> set opt_outs)) slug mko officials
         (store_all (\<lambda>_. True) bkey mkb bundled []))"

subsection \<open>The precedence as a specification\<close>

definition last_with :: "('x \<Rightarrow> 'k) \<Rightarrow> 'k \<Rightarrow> ('x \<Rightarrow> bool) \<Rightarrow> 'x list \<Rightarrow> 'x option" where
  "last_with key k keep xs = find (\<lambda>x. keep x \<and> key x = k) (rev xs)"

definition effective_at ::
  "('b \<Rightarrow> string) \<Rightarrow> ('b \<Rightarrow> 'r) \<Rightarrow> ('a versioned_row_scheme \<Rightarrow> bool)
     \<Rightarrow> ('a versioned_row_scheme \<Rightarrow> 'r) \<Rightarrow> ('a versioned_row_scheme \<Rightarrow> 'r)
     \<Rightarrow> string list \<Rightarrow> 'b list \<Rightarrow> 'a versioned_row_scheme list \<Rightarrow> 'a versioned_row_scheme list
     \<Rightarrow> string \<Rightarrow> 'r option"
where
  "effective_at bkey mkb enabled mko mku opt_outs bundled officials users k =
     (if k \<in> set (mandatory_slugs officials) then
        (case last_with slug k (\<lambda>r. enabled r \<and> (mandatory r \<or> k \<notin> set opt_outs)) officials of
           Some r \<Rightarrow> Some (mko r)
         | None \<Rightarrow> map_option mkb (last_with bkey k (\<lambda>_. True) bundled))
      else
        (case last_with slug k enabled users of
           Some u \<Rightarrow> Some (mku u)
         | None \<Rightarrow>
             (case (if k \<in> set opt_outs then None else last_with slug k enabled officials) of
                Some r \<Rightarrow> Some (mko r)
              | None \<Rightarrow> map_option mkb (last_with bkey k (\<lambda>_. True) bundled))))"

lemma last_with_SomeD: "last_with key k keep xs = Some x \<Longrightarrow> x \<in> set xs \<and> keep x \<and> key x = k"
  by (auto simp: last_with_def find_Some_iff) (metis nth_mem set_rev length_rev)

lemma last_with_cong:
  "(\<And>x. x \<in> set xs \<Longrightarrow> key x = k \<Longrightarrow> keep x = keep' x) \<Longrightarrow>
   last_with key k keep xs = last_with key k keep' xs"
  unfolding last_with_def by (rule find_cong) auto

lemma last_with_None: "last_with key k keep xs = None \<longleftrightarrow> (\<forall>x \<in> set xs. keep x \<longrightarrow> key x \<noteq> k)"
  by (auto simp: last_with_def find_None_iff)

lemma last_with_unique:
  assumes "distinct (map key xs)" and "x \<in> set xs" and "keep x"
  shows "last_with key (key x) keep xs = Some x"
proof -
  obtain y where y: "last_with key (key x) keep xs = Some y"
    using assms(2,3) last_with_None [of key "key x" keep xs] by fastforce
  then have "y = x"
    using last_with_SomeD [OF y] assms(1,2) by (auto simp: distinct_map inj_on_def)
  with y show ?thesis by simp
qed

lemma store_all_snoc:
  "store_all keep key mk (xs @ [x]) d =
    (if keep x then dict_set (key x) (mk x) (store_all keep key mk xs d)
     else store_all keep key mk xs d)"
  by (simp add: store_all_def)

lemma dict_get_store_all:
  "dict_get (store_all keep key mk xs d) k =
    (case last_with key k keep xs of Some x \<Rightarrow> Some (mk x) | None \<Rightarrow> dict_get d k)"
proof (induction xs rule: rev_induct)
  case Nil
  then show ?case by (simp add: store_all_def last_with_def)
next
  case (snoc x xs)
  then show ?case
    by (auto simp: store_all_snoc dict_get_set last_with_def)
qed

lemma keyed_by_store_all:
  assumes "keyed_by rkey d" and "\<And>x. x \<in> set xs \<Longrightarrow> rkey (mk x) = key x"
  shows "keyed_by rkey (store_all keep key mk xs d)"
  using assms(2)
proof (induction xs rule: rev_induct)
  case Nil
  then show ?case using assms(1) by (simp add: store_all_def)
next
  case (snoc x xs)
  then show ?case by (auto simp: store_all_snoc intro!: keyed_by_dict_set)
qed

subsection \<open>The loops implement the specification\<close>

lemma layered_merge_effective_at:
  "dict_get (layered_merge bkey mkb enabled mko mku opt_outs bundled officials users) k
   = effective_at bkey mkb enabled mko mku opt_outs bundled officials users k"
proof (cases "k \<in> set (mandatory_slugs officials)")
  case True
  have "last_with slug k (\<lambda>u. enabled u \<and> slug u \<notin> set (mandatory_slugs officials)) users = None"
    using True by (auto simp: last_with_None)
  moreover have "last_with slug k (\<lambda>r. enabled r \<and> \<not> (\<not> mandatory r \<and> slug r \<in> set opt_outs)) officials
      = last_with slug k (\<lambda>r. enabled r \<and> (mandatory r \<or> k \<notin> set opt_outs)) officials"
    by (rule last_with_cong) auto
  ultimately show ?thesis
    using True by (simp add: layered_merge_def effective_at_def dict_get_store_all
        split: option.splits)
next
  case False
  have "last_with slug k (\<lambda>u. enabled u \<and> slug u \<notin> set (mandatory_slugs officials)) users
      = last_with slug k enabled users"
    using False by (intro last_with_cong) auto
  moreover have "last_with slug k (\<lambda>r. enabled r \<and> \<not> (\<not> mandatory r \<and> slug r \<in> set opt_outs)) officials
      = (if k \<in> set opt_outs then None else last_with slug k enabled officials)"
  proof (cases "k \<in> set opt_outs")
    case True
    then have "\<forall>x \<in> set officials. slug x = k \<longrightarrow> \<not> mandatory x"
      using False by (auto simp: mandatory_slugs_def)
    with True show ?thesis by (auto simp: last_with_None)
  next
    case out: False
    then show ?thesis by (auto intro!: last_with_cong)
  qed
  ultimately show ?thesis
    using False by (simp add: layered_merge_def effective_at_def dict_get_store_all
        split: option.splits)
qed

subsection \<open>The contract of a layered entity\<close>

text \<open>
  The resolved forms carry the slug of what they were built from.  From that alone the
  merged dict is keyed by slug and the sorted list of its values has one entry per slug,
  the one the specification names.
\<close>

locale layered_entity =
  fixes bkey :: "'b \<Rightarrow> string"
    and mkb :: "'b \<Rightarrow> 'r"
    and enabled :: "'a versioned_row_scheme \<Rightarrow> bool"
    and mko :: "'a versioned_row_scheme \<Rightarrow> 'r"
    and mku :: "'a versioned_row_scheme \<Rightarrow> 'r"
    and rkey :: "'r \<Rightarrow> string"
  assumes rkey_bundled: "rkey (mkb b) = bkey b"
    and rkey_official: "rkey (mko r) = slug r"
    and rkey_user: "rkey (mku r) = slug r"
begin

lemma merged_keyed:
  "keyed_by rkey (layered_merge bkey mkb enabled mko mku outs bundled officials users)"
  unfolding layered_merge_def
  by (intro keyed_by_store_all keyed_by_Nil) (simp_all add: rkey_bundled rkey_official rkey_user)

lemma merged_mem:
  "r \<in> set (map snd (layered_merge bkey mkb enabled mko mku outs bundled officials users)) \<longleftrightarrow>
   effective_at bkey mkb enabled mko mku outs bundled officials users (rkey r) = Some r"
  by (simp only: keyed_by_mem [OF merged_keyed] layered_merge_effective_at)

lemma sorted_result:
  assumes "rs = sort_key ord (map snd (layered_merge bkey mkb enabled mko mku outs bundled officials users))"
  shows "sorted (map ord rs) \<and> distinct (map rkey rs) \<and>
     (\<forall>r. r \<in> set rs \<longleftrightarrow>
        effective_at bkey mkb enabled mko mku outs bundled officials users (rkey r) = Some r)"
proof -
  let ?d = "layered_merge bkey mkb enabled mko mku outs bundled officials users"
  have mem: "r \<in> set rs \<longleftrightarrow>
      effective_at bkey mkb enabled mko mku outs bundled officials users (rkey r) = Some r" for r
    using merged_mem [of r] unfolding assms by (simp only: set_sort)
  have "distinct (map rkey (map snd ?d))"
    using merged_keyed [of outs bundled officials users]
    by (simp only: keyed_by_map_keys [OF merged_keyed] keyed_by_def)
  then have "distinct (map snd ?d) \<and> inj_on rkey (set (map snd ?d))"
    by (simp only: distinct_map)
  then have "distinct (map rkey rs)"
    by (simp add: assms distinct_map)
  with mem show ?thesis
    by (simp add: assms sorted_sort_key)
qed

lemma mandatory_wins:
  assumes "distinct (map slug officials)" and "r \<in> set officials" and "mandatory r" and "enabled r"
  shows "effective_at bkey mkb enabled mko mku outs bundled officials users (slug r) = Some (mko r)"
  using assms last_with_unique [of slug officials r "\<lambda>x. enabled x \<and> (mandatory x \<or> slug r \<notin> set outs)"]
  by (auto simp: effective_at_def mandatory_slugs_def)

lemma user_shadows:
  assumes "distinct (map slug users)" and "u \<in> set users" and "enabled u"
    and "slug u \<notin> set (mandatory_slugs officials)"
  shows "effective_at bkey mkb enabled mko mku outs bundled officials users (slug u) = Some (mku u)"
  using assms by (simp add: effective_at_def last_with_unique)

lemma opted_out_absent:
  assumes "k \<in> set outs" and "k \<notin> set (mandatory_slugs officials)"
    and "\<forall>u \<in> set users. slug u \<noteq> k" and "\<forall>b \<in> set bundled. bkey b \<noteq> k"
  shows "effective_at bkey mkb enabled mko mku outs bundled officials users k = None"
  using assms by (auto simp: effective_at_def last_with_None split: option.splits)

lemma slug_of_effective:
  "effective_at bkey mkb enabled mko mku outs bundled officials users k = Some r \<Longrightarrow> rkey r = k"
  by (auto simp: effective_at_def rkey_bundled rkey_official rkey_user
      split: if_splits option.splits dest: last_with_SomeD)

end

text \<open>The listings of a table that meets its constraints have one row per slug.\<close>

lemma distinct_sort_key: "distinct (map f (sort_key ord xs)) = distinct (map f xs)"
  by (simp add: distinct_map)

lemma distinct_official_slugs:
  "table_ok sch t \<Longrightarrow> distinct (map slug (list_official_rows ord t))"
  by (simp add: list_official_rows_def distinct_sort_key table_ok_def)

lemma distinct_user_slugs:
  assumes "table_ok sch t" and "list_user_rows ord (Some u) t = Inr rs"
  shows "distinct (map slug rs)"
proof -
  have "distinct (map (\<lambda>r. (user_id r, slug r)) (filter (user_row u) t))"
    by (rule distinct_map_filter_mono [where P = user_current])
      (use assms(1) in \<open>auto simp: table_ok_def user_row_def user_current_def\<close>)
  moreover have "map (\<lambda>r. (user_id r, slug r)) (filter (user_row u) t)
      = map (Pair (Some u)) (map slug (filter (user_row u) t))"
    by (simp add: user_row_def)
  ultimately have "distinct (map slug (filter (user_row u) t))"
    by (metis distinct_map)
  with assms(2) show ?thesis
    by (auto simp: list_user_rows_def current_user_id_def distinct_sort_key)
qed

end
