(* ===== verification/Py_Values.thy ===== *)
theory Py_Values
  imports Prelude
begin

text \<open>
  JSON and YAML values as Python holds them, with the operations of the standard library the
  modelled code applies to them: truthiness, \<open>dict.get\<close>, \<open>str()\<close>, and \<open>str.strip\<close> on
  Latin-1 strings.  Numbers are integers; floats do not occur in the modelled documents.
\<close>

datatype json =
    JNull
  | JBool bool
  | JInt int
  | JStr string
  | JArr "json list"
  | JObj "(string \<times> json) list"

fun truthy :: "json \<Rightarrow> bool" where
  "truthy JNull = False"
| "truthy (JBool b) = b"
| "truthy (JInt i) = (i \<noteq> 0)"
| "truthy (JStr s) = (s \<noteq> [])"
| "truthy (JArr xs) = (xs \<noteq> [])"
| "truthy (JObj kvs) = (kvs \<noteq> [])"

definition py_get :: "(string \<times> json) list \<Rightarrow> string \<Rightarrow> json" where
  "py_get d k = (case map_of d k of None \<Rightarrow> JNull | Some v \<Rightarrow> v)"

subsection \<open>Whitespace\<close>

definition py_isspace :: "char \<Rightarrow> bool" where
  "py_isspace c = (let n = of_char c :: nat
     in 9 \<le> n \<and> n \<le> 13 \<or> 28 \<le> n \<and> n \<le> 32 \<or> n = 133 \<or> n = 160)"

definition py_lstrip :: "string \<Rightarrow> string" where
  "py_lstrip s = dropWhile py_isspace s"

definition py_strip :: "string \<Rightarrow> string" where
  "py_strip s = rev (dropWhile py_isspace (rev (dropWhile py_isspace s)))"

subsection \<open>\<open>str()\<close> and \<open>repr()\<close>\<close>

fun digits :: "nat \<Rightarrow> string" where
  "digits n = (if n < 10 then [char_of (48 + n)] else digits (n div 10) @ [char_of (48 + n mod 10)])"

declare digits.simps [simp del]

definition str_int :: "int \<Rightarrow> string" where
  "str_int i = (if i < 0 then CHR ''-'' # digits (nat (- i)) else digits (nat i))"

definition hex_digit :: "nat \<Rightarrow> char" where
  "hex_digit n = (if n < 10 then char_of (48 + n) else char_of (87 + n))"

definition repr_char :: "char \<Rightarrow> char \<Rightarrow> string" where
  "repr_char q c = (let n = of_char c :: nat in
     if c = q \<or> n = 92 then [CHR 0x5C, c]
     else if n = 10 then [CHR 0x5C, CHR ''n'']
     else if n = 13 then [CHR 0x5C, CHR ''r'']
     else if n = 9 then [CHR 0x5C, CHR ''t'']
     else if n < 32 \<or> 127 \<le> n \<and> n \<le> 160 \<or> n = 173
       then [CHR 0x5C, CHR ''x'', hex_digit (n div 16), hex_digit (n mod 16)]
     else [c])"

definition repr_str :: "string \<Rightarrow> string" where
  "repr_str s = (let q = (if CHR 0x27 \<in> set s \<and> CHR 0x22 \<notin> set s then CHR 0x22 else CHR 0x27)
     in [q] @ concat (map (repr_char q) s) @ [q])"

fun join_with :: "string \<Rightarrow> string list \<Rightarrow> string" where
  "join_with sep [] = []"
| "join_with sep [x] = x"
| "join_with sep (x # y # zs) = x @ sep @ join_with sep (y # zs)"

fun py_repr :: "json \<Rightarrow> string" where
  "py_repr JNull = ''None''"
| "py_repr (JBool b) = (if b then ''True'' else ''False'')"
| "py_repr (JInt i) = str_int i"
| "py_repr (JStr s) = repr_str s"
| "py_repr (JArr xs) = ''['' @ join_with '', '' (map py_repr xs) @ '']''"
| "py_repr (JObj kvs) =
     ''{'' @ join_with '', '' (map (\<lambda>kv. repr_str (fst kv) @ '': '' @ py_repr (snd kv)) kvs) @ ''}''"

definition py_str :: "json \<Rightarrow> string" where
  "py_str v = (case v of JStr s \<Rightarrow> s | _ \<Rightarrow> py_repr v)"

text \<open>\<open>str(d.get(k) or "")\<close>.\<close>

definition get_text :: "(string \<times> json) list \<Rightarrow> string \<Rightarrow> string" where
  "get_text d k = (let v = py_get d k in if truthy v then py_str v else [])"

lemma py_strip_Nil [simp]: "py_strip [] = []"
  by (simp add: py_strip_def)

lemma py_strip_idem [simp]: "py_strip (py_strip s) = py_strip s"
proof -
  let ?d = "dropWhile py_isspace"
  have idem: "?d (rev (?d (rev (?d s)))) = rev (?d (rev (?d s)))"
  proof (cases "rev (?d (rev (?d s)))")
    case Nil
    then show ?thesis by (simp only: rev.simps dropWhile.simps)
  next
    case (Cons c cs)
    obtain ws where ws: "rev (?d s) = ws @ ?d (rev (?d s))"
      by (metis takeWhile_dropWhile_id)
    then have "?d s = rev (?d (rev (?d s))) @ rev ws"
      by (metis rev_append rev_rev_ident)
    with Cons have "?d s = c # cs @ rev ws" by simp
    then have "\<not> py_isspace c" by (metis dropWhile_eq_Cons_conv)
    with Cons show ?thesis by simp
  qed
  show ?thesis
    by (simp add: py_strip_def idem)
qed

end
