(* ===== verification/Skill_Repo.thy ===== *)
theory Skill_Repo
  imports Layered_Resolution Py_Values
begin

text \<open>
  \<open>repositories/skill_repo.py\<close> over the \<open>skills\<close> table: user CRUD, versioned official
  rows, the curator's columns and the layered \<open>list_effective\<close>.  Every operation takes the
  schema revision, the tenant of the transaction (the GUC \<open>app.user_id\<close>), the fresh primary
  key \<open>uuid4()\<close> drew where it inserts, and the table; it returns the code's result with the
  table left behind, or the exception.
\<close>

subsection \<open>Rows and resolved skills\<close>

type_synonym timestamp = int
type_synonym dict = "(string \<times> json) list"

record skill_row = versioned_row +
  enabled_default :: bool
  frontmatter :: dict
  body :: string
  created_by :: "uuid option"
  use_count :: int
  success_count :: int
  error_count :: int
  last_used_at :: "timestamp option"
  curator_state :: string

record bundled_skill =
  bs_slug :: string
  bs_frontmatter :: dict
  bs_body :: string

definition bs_description :: "bundled_skill \<Rightarrow> string" where
  "bs_description b = py_strip (get_text (bs_frontmatter b) ''description'')"

record resolved_skill =
  rs_slug :: string
  rs_scope :: scope
  rs_description :: string
  rs_body :: string
  rs_frontmatter :: dict
  rs_enabled_default :: bool
  rs_mandatory :: bool

subsection \<open>Reads\<close>

definition skill_list_user :: "uuid option \<Rightarrow> skill_row list \<Rightarrow> skill_row list result" where
  "skill_list_user guc t = list_user_rows slug guc t"

definition skill_list_official :: "skill_row list \<Rightarrow> skill_row list" where
  "skill_list_official t = list_official_rows slug t"

definition skill_get_user :: "uuid option \<Rightarrow> string \<Rightarrow> skill_row list \<Rightarrow> skill_row option result" where
  "skill_get_user guc s t = get_user_row guc s t"

definition skill_get_official :: "string \<Rightarrow> skill_row list \<Rightarrow> skill_row option result" where
  "skill_get_official s t = get_official_row s t"

subsection \<open>User scope writes\<close>

definition skill_user_row ::
  "uuid \<Rightarrow> uuid \<Rightarrow> string \<Rightarrow> dict \<Rightarrow> string \<Rightarrow> bool \<Rightarrow> skill_row"
where
  "skill_user_row n u s fm b en =
     \<lparr>rid = n, scope = UserScope, user_id = Some u, agent_id = None, slug = s, mandatory = False,
      version = 1, is_current = True, enabled_default = en, frontmatter = fm, body = b,
      created_by = Some u, use_count = 0, success_count = 0, error_count = 0,
      last_used_at = None, curator_state = ''active''\<rparr>"

definition skill_create_user ::
  "schema_rev \<Rightarrow> uuid \<Rightarrow> uuid option \<Rightarrow> string \<Rightarrow> dict \<Rightarrow> string \<Rightarrow> bool \<Rightarrow> skill_row list
     \<Rightarrow> (skill_row \<times> skill_row list) result"
where
  "skill_create_user sch n guc s fm b en t =
     bind_result (current_user_id guc) (\<lambda>u. insert_row sch (skill_user_row n u s fm b en) t)"

definition skill_values ::
  "dict option \<Rightarrow> string option \<Rightarrow> bool option \<Rightarrow> (skill_row \<Rightarrow> skill_row) option"
where
  "skill_values fm b en =
     (if fm = None \<and> b = None \<and> en = None then None
      else Some (\<lambda>r. r\<lparr>frontmatter := keep_or fm (frontmatter r), body := keep_or b (body r),
        enabled_default := keep_or en (enabled_default r)\<rparr>))"

definition skill_update_user ::
  "schema_rev \<Rightarrow> uuid option \<Rightarrow> string \<Rightarrow> dict option \<Rightarrow> string option \<Rightarrow> bool option
     \<Rightarrow> skill_row list \<Rightarrow> (skill_row option \<times> skill_row list) result"
where
  "skill_update_user sch guc s fm b en t = update_user_row sch guc s (skill_values fm b en) t"

definition skill_delete_user ::
  "uuid option \<Rightarrow> string \<Rightarrow> skill_row list \<Rightarrow> (bool \<times> skill_row list) result"
where
  "skill_delete_user guc s t = delete_user_row guc s t"

subsection \<open>Official scope writes\<close>

text \<open>The keyword arguments of \<open>create_official\<close> and \<open>update_official\<close>.\<close>

record skill_args =
  sa_frontmatter :: dict
  sa_body :: string
  sa_mandatory :: bool
  sa_enabled_default :: bool
  sa_created_by :: "uuid option"

record skill_changes =
  sc_frontmatter :: "dict option"
  sc_body :: "string option"
  sc_mandatory :: "bool option"
  sc_enabled_default :: "bool option"
  sc_created_by :: "uuid option"

definition skill_first :: "uuid \<Rightarrow> string \<Rightarrow> skill_args \<Rightarrow> skill_row" where
  "skill_first n s a =
     \<lparr>rid = n, scope = Official, user_id = None, agent_id = None, slug = s,
      mandatory = sa_mandatory a, version = 1, is_current = True,
      enabled_default = sa_enabled_default a, frontmatter = sa_frontmatter a, body = sa_body a,
      created_by = sa_created_by a, use_count = 0, success_count = 0, error_count = 0,
      last_used_at = None, curator_state = ''active''\<rparr>"

definition skill_create_official ::
  "schema_rev \<Rightarrow> uuid \<Rightarrow> string \<Rightarrow> skill_args \<Rightarrow> skill_row list
     \<Rightarrow> (skill_row \<times> skill_row list) result"
where
  "skill_create_official sch n s a t = insert_row sch (skill_first n s a) t"

text \<open>The successor row starts with fresh curator columns: the code does not copy them.\<close>

definition skill_bump :: "uuid \<Rightarrow> string \<Rightarrow> skill_changes \<Rightarrow> skill_row \<Rightarrow> skill_row" where
  "skill_bump n s a current =
     \<lparr>rid = n, scope = Official, user_id = None, agent_id = None, slug = s,
      mandatory = keep_or (sc_mandatory a) (mandatory current),
      version = version current + 1, is_current = True,
      enabled_default = keep_or (sc_enabled_default a) (enabled_default current),
      frontmatter = keep_or (sc_frontmatter a) (frontmatter current),
      body = keep_or (sc_body a) (body current),
      created_by = sc_created_by a, use_count = 0, success_count = 0, error_count = 0,
      last_used_at = None, curator_state = ''active''\<rparr>"

definition skill_update_official ::
  "schema_rev \<Rightarrow> uuid \<Rightarrow> string \<Rightarrow> skill_changes \<Rightarrow> skill_row list
     \<Rightarrow> (skill_row option \<times> skill_row list) result"
where
  "skill_update_official sch n s a t = update_official_row sch (skill_bump n s a) s t"

definition skill_delete_official ::
  "schema_rev \<Rightarrow> string \<Rightarrow> skill_row list \<Rightarrow> (bool \<times> skill_row list) result"
where
  "skill_delete_official sch s t = delete_official_row sch s t"

definition skill_list_versions :: "string \<Rightarrow> skill_row list \<Rightarrow> skill_row list" where
  "skill_list_versions s t = list_versions_rows s t"

definition skill_rollback_official ::
  "schema_rev \<Rightarrow> string \<Rightarrow> int \<Rightarrow> skill_row list \<Rightarrow> (skill_row option \<times> skill_row list) result"
where
  "skill_rollback_official sch s v t = rollback_official_row sch s v t"

subsection \<open>Curator columns\<close>

definition skill_bump_use ::
  "schema_rev \<Rightarrow> timestamp \<Rightarrow> uuid option \<Rightarrow> string \<Rightarrow> bool option \<Rightarrow> bool \<Rightarrow> skill_row list
     \<Rightarrow> (unit \<times> skill_row list) result"
where
  "skill_bump_use sch now guc s success error t =
     bind_result (current_user_id guc) (\<lambda>u.
       checked sch () (sql_update (\<lambda>r. user_row u r \<and> slug r = s)
         (\<lambda>r. r\<lparr>use_count := use_count r + 1, last_used_at := Some now,
            success_count := (if success = Some True then success_count r + 1 else success_count r),
            error_count := (if error then error_count r + 1 else error_count r)\<rparr>) t))"

definition VALID_CURATOR_STATES :: "string list" where
  "VALID_CURATOR_STATES = [''active'', ''stale'', ''archived'', ''pinned'']"

definition skill_update_curator_state ::
  "schema_rev \<Rightarrow> uuid option \<Rightarrow> string \<Rightarrow> string \<Rightarrow> skill_row list
     \<Rightarrow> (skill_row option \<times> skill_row list) result"
where
  "skill_update_curator_state sch guc s st t =
     (if st \<notin> set VALID_CURATOR_STATES then Inl ValueError
      else update_user_row sch guc s (Some (\<lambda>r. r\<lparr>curator_state := st\<rparr>)) t)"

text \<open>\<open>GROUP BY user_id, agent_id ORDER BY user_id, agent_id LIMIT n\<close> as distinct sorted pairs.\<close>

definition skill_list_curator_targets_admin :: "nat \<Rightarrow> skill_row list \<Rightarrow> (uuid \<times> uuid) list" where
  "skill_list_curator_targets_admin limit t =
     take limit (sort (remdups
       (List.map_filter (\<lambda>r. if scope r = UserScope \<and> is_current r
          then (case (user_id r, agent_id r) of (Some u, Some a) \<Rightarrow> Some (u, a) | _ \<Rightarrow> None)
          else None) t)))"

subsection \<open>Layered resolution\<close>

definition bundled_to_resolved :: "bundled_skill \<Rightarrow> resolved_skill" where
  "bundled_to_resolved b =
     \<lparr>rs_slug = bs_slug b, rs_scope = Bundled, rs_description = bs_description b,
      rs_body = bs_body b, rs_frontmatter = bs_frontmatter b, rs_enabled_default = True,
      rs_mandatory = False\<rparr>"

definition row_description :: "skill_row \<Rightarrow> string" where
  "row_description r = py_strip (get_text (frontmatter r) ''description'')"

definition official_to_resolved :: "skill_row \<Rightarrow> resolved_skill" where
  "official_to_resolved r =
     \<lparr>rs_slug = slug r, rs_scope = Official, rs_description = row_description r,
      rs_body = body r, rs_frontmatter = frontmatter r, rs_enabled_default = enabled_default r,
      rs_mandatory = mandatory r\<rparr>"

definition user_to_resolved :: "skill_row \<Rightarrow> resolved_skill" where
  "user_to_resolved r =
     \<lparr>rs_slug = slug r, rs_scope = UserScope, rs_description = row_description r,
      rs_body = body r, rs_frontmatter = frontmatter r, rs_enabled_default = enabled_default r,
      rs_mandatory = False\<rparr>"

definition skill_list_effective ::
  "bundled_skill list \<Rightarrow> uuid option \<Rightarrow> string list \<Rightarrow> skill_row list
     \<Rightarrow> resolved_skill list result"
where
  "skill_list_effective bundled guc opt_outs t =
     (let officials = skill_list_official t in
      bind_result (skill_list_user guc t) (\<lambda>users.
        Inr (sort_key rs_slug (map snd
          (layered_merge bs_slug bundled_to_resolved (\<lambda>_. True) official_to_resolved
             user_to_resolved opt_outs bundled officials users)))))"

subsection \<open>The contracts\<close>

interpretation skill_versions: official_versions skill_first skill_bump
  by unfold_locales
    (simp_all add: official_first_def official_successor_def skill_first_def skill_bump_def)

interpretation skill_layers: layered_entity
  bs_slug bundled_to_resolved "\<lambda>_. True" official_to_resolved user_to_resolved rs_slug
  by unfold_locales
    (simp_all add: bundled_to_resolved_def official_to_resolved_def user_to_resolved_def)

lemmas skill_op_defs =
  skill_list_user_def skill_list_official_def skill_get_user_def skill_get_official_def
  skill_create_user_def skill_update_user_def skill_delete_user_def skill_create_official_def
  skill_update_official_def skill_delete_official_def skill_rollback_official_def

subsection \<open>Facts about the operations\<close>

lemma skill_list_effective_Inr:
  "skill_list_effective bundled guc outs t = Inr rs \<longleftrightarrow>
   (\<exists>u. guc = Some u \<and> rs = sort_key rs_slug (map snd
      (layered_merge bs_slug bundled_to_resolved (\<lambda>_. True) official_to_resolved user_to_resolved
         outs bundled (list_official_rows slug t) (sort_key slug (filter (user_row u) t)))))"
  by (cases guc) (auto simp: skill_list_effective_def skill_op_defs list_user_rows_def
      current_user_id_def)

lemma skill_effective_mem:
  assumes "skill_list_effective bundled (Some u) outs t = Inr rs"
  shows "r \<in> set rs \<longleftrightarrow> effective_at bs_slug bundled_to_resolved (\<lambda>_. True) official_to_resolved
     user_to_resolved outs bundled (list_official_rows slug t)
     (sort_key slug (filter (user_row u) t)) (rs_slug r) = Some r"
proof -
  have "rs = sort_key rs_slug (map snd
      (layered_merge bs_slug bundled_to_resolved (\<lambda>_. True) official_to_resolved user_to_resolved
         outs bundled (list_official_rows slug t) (sort_key slug (filter (user_row u) t))))"
    using assms by (simp add: skill_list_effective_Inr)
  then show ?thesis by (simp only: set_sort skill_layers.merged_mem)
qed

text \<open>The rows a tenant's resolution reads: the current officials and the tenant's own.\<close>

definition visible_to :: "uuid \<Rightarrow> 'a versioned_row_scheme \<Rightarrow> bool" where
  "visible_to u r \<longleftrightarrow> official_current r \<or> user_row u r"

lemma filter_visible_official: "filter official_current (filter (visible_to u) t) = filter official_current t"
  by (auto simp: filter_filter visible_to_def intro!: filter_cong)

lemma filter_visible_user: "filter (user_row u) (filter (visible_to u) t) = filter (user_row u) t"
  by (auto simp: filter_filter visible_to_def intro!: filter_cong)

definition example_skill :: "uuid \<Rightarrow> scope \<Rightarrow> uuid option \<Rightarrow> string \<Rightarrow> int \<Rightarrow> bool \<Rightarrow> bool \<Rightarrow> skill_row"
where
  "example_skill n sc u s v cur mand =
     \<lparr>rid = n, scope = sc, user_id = u, agent_id = None, slug = s, mandatory = mand,
      version = v, is_current = cur, enabled_default = True, frontmatter = [], body = ''b'',
      created_by = None, use_count = 0, success_count = 0, error_count = 0,
      last_used_at = None, curator_state = ''active''\<rparr>"

text \<open>
  An official skill \<open>plan\<close> at version 2 of two, mandatory, with a user row of tenant 7 under
  the same slug.
\<close>

definition example_skills :: "skill_row list" where
  "example_skills =
     [example_skill 1 Official None ''plan'' 1 False False,
      example_skill 2 Official None ''plan'' 2 True True,
      example_skill 3 UserScope (Some 7) ''plan'' 1 True False]"

lemmas example_skill_defs =
  example_skills_def example_skill_def table_ok_def row_ok_def scope_check_def
  scope_user_id_check_def official_current_def user_current_def

lemma example_skills_ok: "table_ok Schema_0001 example_skills"
  by (simp add: example_skill_defs)

subsection \<open>A tenant at work\<close>

text \<open>One successful write of tenant \<open>u\<close> on the table.\<close>

inductive skill_user_step :: "schema_rev \<Rightarrow> uuid \<Rightarrow> skill_row list \<Rightarrow> skill_row list \<Rightarrow> bool"
  for sch u
where
  create: "skill_create_user sch n (Some u) s fm b en t = Inr (r, t') \<Longrightarrow> skill_user_step sch u t t'"
| update: "skill_update_user sch (Some u) s fm' b' en' t = Inr (r', t') \<Longrightarrow> skill_user_step sch u t t'"
| delete: "skill_delete_user (Some u) s t = Inr (d, t') \<Longrightarrow> skill_user_step sch u t t'"
| used: "skill_bump_use sch now (Some u) s succ err t = Inr (x, t') \<Longrightarrow> skill_user_step sch u t t'"
| curated: "skill_update_curator_state sch (Some u) s st t = Inr (r', t') \<Longrightarrow> skill_user_step sch u t t'"

lemma skill_values_keep:
  "skill_values fm b en = Some f \<Longrightarrow> scope (f x) = scope x \<and> user_id (f x) = user_id x"
  by (auto simp: skill_values_def split: if_splits)

lemma skill_bump_use_isolated:
  assumes "skill_bump_use sch now (Some u) s succ err t = Inr (x, t')"
  shows "foreign_rows u t' = foreign_rows u t"
proof -
  have "foreign_rows u (sql_update (\<lambda>r. user_row u r \<and> slug r = s) f t) = foreign_rows u t"
    if "\<And>r. scope (f r) = scope r \<and> user_id (f r) = user_id r" for f :: "skill_row \<Rightarrow> skill_row"
    using that by (induction t) (auto simp: foreign_rows_def sql_update_def owned_def user_row_def)
  with assms show ?thesis
    by (auto simp: skill_bump_use_def current_user_id_def checked_eq_Inr)
qed

lemma skill_user_step_isolated:
  assumes "skill_user_step sch u t t'"
  shows "foreign_rows u t' = foreign_rows u t"
  using assms
proof cases
  case (create n s fm b en r)
  then show ?thesis
    by (auto simp: skill_create_user_def current_user_id_def insert_row_def checked_eq_Inr
        skill_user_row_def foreign_rows_def owned_def)
next
  case (update s fm' b' en' r')
  then show ?thesis
    unfolding skill_update_user_def by (rule foreign_rows_update) (rule skill_values_keep)
next
  case (delete s d)
  then show ?thesis
    unfolding skill_delete_user_def by (rule foreign_rows_delete)
next
  case (used now s succ err x)
  then show ?thesis by (rule skill_bump_use_isolated)
next
  case (curated s st r')
  then have "update_user_row sch (Some u) s (Some (\<lambda>r. r\<lparr>curator_state := st\<rparr>)) t = Inr (r', t')"
    by (simp add: skill_update_curator_state_def split: if_splits)
  then show ?thesis by (rule foreign_rows_update) auto
qed

lemma update_user_row_table_ok:
  "update_user_row sch guc s vs t = Inr (r, t') \<Longrightarrow> table_ok sch t \<Longrightarrow> table_ok sch t'"
  by (auto simp: update_user_row_def result_eqs checked_eq_Inr Let_def split: option.splits)

lemma skill_user_step_table_ok:
  "skill_user_step sch u t t' \<Longrightarrow> table_ok sch t \<Longrightarrow> table_ok sch t'"
  by (cases rule: skill_user_step.cases, assumption)
    (auto simp: skill_op_defs insert_row_def checked_eq_Inr result_eqs skill_bump_use_def
      skill_update_curator_state_def delete_user_row_def Let_def
      dest: update_user_row_table_ok split: if_splits)

subsection \<open>Properties\<close>

text \<open>
  C4. \<open>list_effective\<close> returns, in slug order and with one entry per slug, exactly the
  resolved skills the layering rules name: per slug the mandatory official, else the
  tenant's own row, else the official that is not opted out, else the bundled skill.
\<close>

theorem skill_effective_spec:
  assumes "skill_list_user (Some u) t = Inr users"
    and "skill_list_effective bundled (Some u) outs t = Inr rs"
  shows "sorted (map rs_slug rs) \<and> distinct (map rs_slug rs) \<and>
    (\<forall>r. r \<in> set rs \<longleftrightarrow>
       effective_at bs_slug bundled_to_resolved (\<lambda>_. True) official_to_resolved user_to_resolved
         outs bundled (skill_list_official t) users (rs_slug r) = Some r)"
proof -
  have "rs = sort_key rs_slug (map snd (layered_merge bs_slug bundled_to_resolved (\<lambda>_. True)
      official_to_resolved user_to_resolved outs bundled (skill_list_official t) users))"
    using assms by (simp add: skill_list_effective_def)
  then show ?thesis by (rule skill_layers.sorted_result)
qed

theorem skill_effective_spec_witness:
  "skill_list_effective [] (Some 7) [''plan''] example_skills
     = Inr [official_to_resolved (example_skill 2 Official None ''plan'' 2 True True)] \<and>
   effective_at bs_slug bundled_to_resolved (\<lambda>_. True) official_to_resolved user_to_resolved
     [''plan''] [] (skill_list_official example_skills)
     [example_skill 3 UserScope (Some 7) ''plan'' 1 True False] ''plan''
     = Some (official_to_resolved (example_skill 2 Official None ''plan'' 2 True True))"
proof -
  let ?r = "official_to_resolved (example_skill 2 Official None ''plan'' 2 True True)"
  have u: "skill_list_user (Some 7) example_skills
      = Inr [example_skill 3 UserScope (Some 7) ''plan'' 1 True False]"
    by (simp add: skill_op_defs list_user_rows_def current_user_id_def example_skill_defs
        user_row_def)
  have e: "skill_list_effective [] (Some 7) [''plan''] example_skills = Inr [?r]"
    by (simp add: skill_list_effective_Inr list_official_rows_def layered_merge_def store_all_def
        mandatory_slugs_def user_row_def example_skill_defs)
  have "rs_slug ?r = ''plan''"
    by (simp add: official_to_resolved_def example_skill_def)
  then show ?thesis
    using skill_effective_spec [OF u e] e by (metis list.set_intros(1))
qed

text \<open>
  Mandatory officials are enforced: whatever the tenant has stored and opted out of,
  the resolved list has the current mandatory official under its slug, and nothing else
  under that slug.
\<close>

theorem skill_mandatory_enforced:
  assumes "table_ok sch t" and "r \<in> set t" and "official_current r" and "mandatory r"
    and "skill_list_effective bundled (Some u) outs t = Inr rs"
  shows "\<forall>x. x \<in> set rs \<and> rs_slug x = slug r \<longleftrightarrow> x = official_to_resolved r"
proof -
  have "effective_at bs_slug bundled_to_resolved (\<lambda>_. True) official_to_resolved user_to_resolved
     outs bundled (list_official_rows slug t) (sort_key slug (filter (user_row u) t)) (slug r)
     = Some (official_to_resolved r)"
    using assms by (intro skill_layers.mandatory_wins distinct_official_slugs)
      (auto simp: list_official_rows_def)
  moreover have "rs_slug (official_to_resolved r) = slug r"
    by (simp add: official_to_resolved_def)
  ultimately show ?thesis
    using skill_effective_mem [OF assms(5)] by (metis option.inject)
qed

theorem skill_mandatory_enforced_witness:
  "\<exists>rs. skill_list_effective [] (Some 7) [''plan''] example_skills = Inr rs \<and>
     official_to_resolved (example_skill 2 Official None ''plan'' 2 True True) \<in> set rs"
proof -
  obtain rs where rs: "skill_list_effective [] (Some 7) [''plan''] example_skills = Inr rs"
    by (simp add: skill_list_effective_Inr)
  let ?m = "example_skill 2 Official None ''plan'' 2 True True"
  have m: "?m \<in> set example_skills" "official_current ?m" "mandatory ?m"
    by (simp_all add: example_skill_defs)
  have "official_to_resolved ?m \<in> set rs"
    using skill_mandatory_enforced [OF example_skills_ok m rs] by blast
  with rs show ?thesis by blast
qed

text \<open>
  Tenant isolation of the read path: the resolved list of tenant \<open>u\<close> is a function of
  the current officials and of \<open>u\<close>'s own current rows; rows of other tenants cannot
  influence it.
\<close>

theorem skill_effective_noninterference:
  assumes "filter (visible_to u) t = filter (visible_to u) t'"
  shows "skill_list_effective bundled (Some u) outs t = skill_list_effective bundled (Some u) outs t'"
proof -
  have "filter official_current t = filter official_current t'"
    using assms by (metis filter_visible_official)
  moreover have "filter (user_row u) t = filter (user_row u) t'"
    using assms by (metis filter_visible_user)
  ultimately show ?thesis
    by (simp add: skill_list_effective_def skill_op_defs list_user_rows_def list_official_rows_def
        current_user_id_def)
qed

theorem skill_effective_noninterference_witness:
  "skill_list_effective [] (Some 8) [] example_skills
   = skill_list_effective [] (Some 8) [] (take 2 example_skills)"
  by (rule skill_effective_noninterference)
    (simp add: visible_to_def user_row_def example_skill_defs)

text \<open>
  \<open>update_official\<close> of an existing skill never fails on a well-formed table (the
  fresh key being unused): it returns the successor row, which is then the current one under
  the slug with the version raised by one and the unchanged columns copied; other slugs and
  all user rows are as before, and a linear history stays linear.
\<close>

theorem skill_update_official_history:
  assumes "table_ok sch t" and "skill_get_official s t = Inr (Some c)" and "n \<notin> rid ` set t"
  shows "\<exists>r t'. skill_update_official sch n s a t = Inr (Some r, t') \<and> table_ok sch t' \<and>
     skill_get_official s t' = Inr (Some r) \<and> version r = version c + 1 \<and>
     body r = keep_or (sc_body a) (body c) \<and> mandatory r = keep_or (sc_mandatory a) (mandatory c) \<and>
     (\<forall>s'. s' \<noteq> s \<longrightarrow> skill_get_official s' t' = skill_get_official s' t) \<and>
     user_rows t' = user_rows t \<and> (linear_history s t \<longrightarrow> linear_history s t')"
  using skill_versions.update_read_back [OF assms(1) _ assms(3), of s c a] assms(2)
  by (auto simp: skill_op_defs skill_bump_def)

theorem skill_update_official_history_witness:
  "\<exists>r t'. skill_update_official Schema_0001 9 ''plan'' 
       \<lparr>sc_frontmatter = None, sc_body = Some ''new'', sc_mandatory = None,
        sc_enabled_default = None, sc_created_by = None\<rparr> example_skills = Inr (Some r, t') \<and>
     version r = 3 \<and> body r = ''new'' \<and> mandatory r"
proof -
  have c: "skill_get_official ''plan'' example_skills
      = Inr (Some (example_skill 2 Official None ''plan'' 2 True True))"
    by (simp add: skill_op_defs get_official_row_def example_skill_defs)
  have n: "(9::uuid) \<notin> rid ` set example_skills"
    by (simp add: example_skill_defs)
  show ?thesis
    using skill_update_official_history [OF example_skills_ok c n,
        of "\<lparr>sc_frontmatter = None, sc_body = Some ''new'', sc_mandatory = None,
             sc_enabled_default = None, sc_created_by = None\<rparr>"]
    by (auto simp: example_skill_def)
qed

text \<open>
  \<open>rollback_official\<close> to a version that occurs once makes that version current again
  without violating a constraint, and changes nothing under other slugs.  In a linear history
  every version is such a version.
\<close>

theorem skill_rollback_restores:
  assumes "table_ok sch t" and "linear_history s t" and "target \<in> set t"
    and "scope target = Official" and "slug target = s" and "version target = v"
  shows "\<exists>t'. skill_rollback_official sch s v t = Inr (Some (target\<lparr>is_current := True\<rparr>), t') \<and>
     table_ok sch t' \<and> skill_get_official s t' = Inr (Some (target\<lparr>is_current := True\<rparr>)) \<and>
     (\<forall>s'. s' \<noteq> s \<longrightarrow> skill_get_official s' t' = skill_get_official s' t) \<and>
     (\<forall>s'. history s' t' = history s' t)"
proof -
  have f: "filter (\<lambda>r. scope r = Official \<and> slug r = s \<and> version r = v) t = [target]"
    using linear_history_unambiguous [OF assms(2), of v] assms(3-6)
    by (simp add: filter_le_one_singleton)
  show ?thesis
    using rollback_official_row_some [OF assms(1) f] get_official_after_rollback [OF assms(1) f]
    by (auto simp: skill_op_defs)
qed

theorem skill_rollback_restores_witness:
  "\<exists>r t'. skill_rollback_official Schema_0001 ''plan'' 1 example_skills = Inr (Some r, t') \<and>
     version r = 1 \<and> skill_get_official ''plan'' t' = Inr (Some r)"
proof -
  let ?v1 = "example_skill 1 Official None ''plan'' 1 False False"
  have "linear_history ''plan'' example_skills"
    by (simp add: linear_history_def history_def example_skill_defs)
  moreover have "?v1 \<in> set example_skills" "scope ?v1 = Official" "slug ?v1 = ''plan''"
    "version ?v1 = 1"
    by (simp_all add: example_skill_defs)
  ultimately show ?thesis
    using skill_rollback_restores [OF example_skills_ok] by (fastforce simp: example_skill_def)
qed

text \<open>
  Rolling back and then editing breaks the history: the edit reuses the number of a
  version that already exists, and rolling back to that number raises
  \<open>MultipleResultsFound\<close> from then on.
\<close>

theorem skill_rollback_then_update_clash:
  assumes "table_ok sch t" and "linear_history s t" and "target \<in> set t"
    and "scope target = Official" and "slug target = s" and "version target = v"
    and "v + 1 \<in> set (history s t)" and "n \<notin> rid ` set t"
  shows "\<exists>r t2. bind_result (skill_rollback_official sch s v t)
       (\<lambda>(_, t1). skill_update_official sch n s a t1) = Inr (Some r, t2) \<and> version r = v + 1 \<and>
     skill_rollback_official sch s (v + 1) t2 = Inl MultipleResultsFound"
proof -
  have f: "filter (\<lambda>r. scope r = Official \<and> slug r = s \<and> version r = v) t = [target]"
    using linear_history_unambiguous [OF assms(2), of v] assms(3-6)
    by (simp add: filter_le_one_singleton)
  show ?thesis
    using skill_versions.rollback_then_update_clash [OF assms(1) f assms(7,8), of a] assms(6)
    by (auto simp: skill_op_defs skill_bump_def)
qed

theorem skill_rollback_then_update_clash_witness:
  "\<exists>r t2. bind_result (skill_rollback_official Schema_0001 ''plan'' 1 example_skills)
       (\<lambda>(_, t1). skill_update_official Schema_0001 9 ''plan''
          \<lparr>sc_frontmatter = None, sc_body = Some ''new'', sc_mandatory = None,
           sc_enabled_default = None, sc_created_by = None\<rparr> t1) = Inr (Some r, t2) \<and>
     version r = 2 \<and> skill_rollback_official Schema_0001 ''plan'' 2 t2 = Inl MultipleResultsFound"
proof -
  let ?v1 = "example_skill 1 Official None ''plan'' 1 False False"
  have h: "linear_history ''plan'' example_skills" "1 + 1 \<in> set (history ''plan'' example_skills)"
    by (simp_all add: linear_history_def history_def example_skill_defs)
  have m: "?v1 \<in> set example_skills" "scope ?v1 = Official" "slug ?v1 = ''plan''" "version ?v1 = 1"
    by (simp_all add: example_skill_defs)
  have n: "(9::uuid) \<notin> rid ` set example_skills"
    by (simp add: example_skill_defs)
  show ?thesis
    using skill_rollback_then_update_clash [OF example_skills_ok h(1) m h(2) n] by simp
qed

text \<open>
  From the schema revision \<open>0003_agents\<close> on, \<open>create_user\<close> cannot succeed: it never
  sets \<open>agent_id\<close>, which the CHECK constraint of that revision requires of user rows.
\<close>

theorem skill_create_user_lacks_agent:
  "skill_create_user Schema_0003 n (Some u) s fm b en t = Inl IntegrityError"
  by (simp add: skill_op_defs current_user_id_def insert_row_def checked_def table_ok_def
      row_ok_def scope_agent_id_check_def skill_user_row_def)

text \<open>
  Tenant isolation of the write paths: along any sequence of successful writes of tenant
  \<open>u\<close> (create, edit, delete, usage counting, curation) every row \<open>u\<close> does not own stays
  as it was, and the table keeps meeting its constraints.
\<close>

theorem skill_writes_isolated:
  assumes "(skill_user_step sch u)\<^sup>*\<^sup>* t t'" and "table_ok sch t"
  shows "foreign_rows u t' = foreign_rows u t \<and> table_ok sch t'"
  using assms
proof (induction rule: rtranclp_induct)
  case (step t1 t2)
  then show ?case
    using skill_user_step_isolated skill_user_step_table_ok by metis
qed simp

theorem skill_writes_isolated_witness:
  "\<exists>t'. (skill_user_step Schema_0001 8)\<^sup>*\<^sup>* example_skills t' \<and> length t' = 4 \<and>
     foreign_rows 8 t' = example_skills"
proof -
  let ?r = "skill_user_row 9 8 ''plan'' [] ''mine'' True"
  have "skill_create_user Schema_0001 9 (Some 8) ''plan'' [] ''mine'' True example_skills
      = Inr (?r, example_skills @ [?r])"
    by (simp add: skill_create_user_def current_user_id_def insert_row_def checked_def
        skill_user_row_def example_skill_defs)
  then have st: "(skill_user_step Schema_0001 8)\<^sup>*\<^sup>* example_skills (example_skills @ [?r])"
    by (intro r_into_rtranclp skill_user_step.create)
  have "foreign_rows 8 example_skills = example_skills"
    by (simp add: foreign_rows_def owned_def example_skill_defs)
  with skill_writes_isolated [OF st example_skills_ok] st show ?thesis
    by (intro exI [of _ "example_skills @ [?r]"]) (simp add: example_skills_def)
qed

end
