(* ===== verification/Instruction_Repo.thy ===== *)
theory Instruction_Repo
  imports Layered_Resolution
begin

text \<open>
  \<open>repositories/instruction_repo.py\<close>: prompt fragments with a priority.  The shape is that
  of the skills; listings and the resolved list are ordered by \<open>(priority, slug)\<close>.
\<close>

record instruction_row = versioned_row +
  priority :: int
  i_body :: string
  i_created_by :: "uuid option"

record bundled_instruction =
  bi_slug :: string
  bi_body :: string
  bi_priority :: int
  bi_mandatory :: bool

record resolved_instruction =
  ri_slug :: string
  ri_scope :: scope
  ri_body :: string
  ri_priority :: int
  ri_mandatory :: bool

definition instruction_order :: "instruction_row \<Rightarrow> int \<times> string" where
  "instruction_order r = (priority r, slug r)"

subsection \<open>Reads\<close>

definition instruction_list_user ::
  "uuid option \<Rightarrow> instruction_row list \<Rightarrow> instruction_row list result" where
  "instruction_list_user guc t = list_user_rows instruction_order guc t"

definition instruction_list_official :: "instruction_row list \<Rightarrow> instruction_row list" where
  "instruction_list_official t = list_official_rows instruction_order t"

definition instruction_get_user ::
  "uuid option \<Rightarrow> string \<Rightarrow> instruction_row list \<Rightarrow> instruction_row option result" where
  "instruction_get_user guc s t = get_user_row guc s t"

definition instruction_get_official ::
  "string \<Rightarrow> instruction_row list \<Rightarrow> instruction_row option result" where
  "instruction_get_official s t = get_official_row s t"

subsection \<open>User scope writes\<close>

definition instruction_user_row :: "uuid \<Rightarrow> uuid \<Rightarrow> string \<Rightarrow> string \<Rightarrow> int \<Rightarrow> instruction_row" where
  "instruction_user_row n u s b p =
     \<lparr>rid = n, scope = UserScope, user_id = Some u, agent_id = None, slug = s, mandatory = False,
      version = 1, is_current = True, priority = p, i_body = b, i_created_by = Some u\<rparr>"

definition instruction_create_user ::
  "schema_rev \<Rightarrow> uuid \<Rightarrow> uuid option \<Rightarrow> string \<Rightarrow> string \<Rightarrow> int \<Rightarrow> instruction_row list
     \<Rightarrow> (instruction_row \<times> instruction_row list) result"
where
  "instruction_create_user sch n guc s b p t =
     bind_result (current_user_id guc) (\<lambda>u. insert_row sch (instruction_user_row n u s b p) t)"

definition instruction_values ::
  "string option \<Rightarrow> int option \<Rightarrow> (instruction_row \<Rightarrow> instruction_row) option"
where
  "instruction_values b p =
     (if b = None \<and> p = None then None
      else Some (\<lambda>r. r\<lparr>i_body := keep_or b (i_body r), priority := keep_or p (priority r)\<rparr>))"

definition instruction_update_user ::
  "schema_rev \<Rightarrow> uuid option \<Rightarrow> string \<Rightarrow> string option \<Rightarrow> int option \<Rightarrow> instruction_row list
     \<Rightarrow> (instruction_row option \<times> instruction_row list) result"
where
  "instruction_update_user sch guc s b p t = update_user_row sch guc s (instruction_values b p) t"

definition instruction_delete_user ::
  "uuid option \<Rightarrow> string \<Rightarrow> instruction_row list \<Rightarrow> (bool \<times> instruction_row list) result"
where
  "instruction_delete_user guc s t = delete_user_row guc s t"

subsection \<open>Official scope writes\<close>

record instruction_args =
  ia_body :: string
  ia_priority :: int
  ia_mandatory :: bool
  ia_created_by :: "uuid option"

record instruction_changes =
  ic_body :: "string option"
  ic_priority :: "int option"
  ic_mandatory :: "bool option"
  ic_created_by :: "uuid option"

definition instruction_first :: "uuid \<Rightarrow> string \<Rightarrow> instruction_args \<Rightarrow> instruction_row" where
  "instruction_first n s a =
     \<lparr>rid = n, scope = Official, user_id = None, agent_id = None, slug = s,
      mandatory = ia_mandatory a, version = 1, is_current = True, priority = ia_priority a,
      i_body = ia_body a, i_created_by = ia_created_by a\<rparr>"

definition instruction_create_official ::
  "schema_rev \<Rightarrow> uuid \<Rightarrow> string \<Rightarrow> instruction_args \<Rightarrow> instruction_row list
     \<Rightarrow> (instruction_row \<times> instruction_row list) result"
where
  "instruction_create_official sch n s a t = insert_row sch (instruction_first n s a) t"

definition instruction_bump ::
  "uuid \<Rightarrow> string \<Rightarrow> instruction_changes \<Rightarrow> instruction_row \<Rightarrow> instruction_row"
where
  "instruction_bump n s a current =
     \<lparr>rid = n, scope = Official, user_id = None, agent_id = None, slug = s,
      mandatory = keep_or (ic_mandatory a) (mandatory current),
      version = version current + 1, is_current = True,
      priority = keep_or (ic_priority a) (priority current),
      i_body = keep_or (ic_body a) (i_body current), i_created_by = ic_created_by a\<rparr>"

definition instruction_update_official ::
  "schema_rev \<Rightarrow> uuid \<Rightarrow> string \<Rightarrow> instruction_changes \<Rightarrow> instruction_row list
     \<Rightarrow> (instruction_row option \<times> instruction_row list) result"
where
  "instruction_update_official sch n s a t = update_official_row sch (instruction_bump n s a) s t"

definition instruction_delete_official ::
  "schema_rev \<Rightarrow> string \<Rightarrow> instruction_row list \<Rightarrow> (bool \<times> instruction_row list) result"
where
  "instruction_delete_official sch s t = delete_official_row sch s t"

definition instruction_list_versions :: "string \<Rightarrow> instruction_row list \<Rightarrow> instruction_row list" where
  "instruction_list_versions s t = list_versions_rows s t"

definition instruction_rollback_official ::
  "schema_rev \<Rightarrow> string \<Rightarrow> int \<Rightarrow> instruction_row list
     \<Rightarrow> (instruction_row option \<times> instruction_row list) result"
where
  "instruction_rollback_official sch s v t = rollback_official_row sch s v t"

subsection \<open>Layered resolution\<close>

definition bundled_instruction_resolved :: "bundled_instruction \<Rightarrow> resolved_instruction" where
  "bundled_instruction_resolved b =
     \<lparr>ri_slug = bi_slug b, ri_scope = Bundled, ri_body = bi_body b, ri_priority = bi_priority b,
      ri_mandatory = bi_mandatory b\<rparr>"

definition official_instruction_resolved :: "instruction_row \<Rightarrow> resolved_instruction" where
  "official_instruction_resolved r =
     \<lparr>ri_slug = slug r, ri_scope = Official, ri_body = i_body r, ri_priority = priority r,
      ri_mandatory = mandatory r\<rparr>"

definition user_instruction_resolved :: "instruction_row \<Rightarrow> resolved_instruction" where
  "user_instruction_resolved r =
     \<lparr>ri_slug = slug r, ri_scope = UserScope, ri_body = i_body r, ri_priority = priority r,
      ri_mandatory = False\<rparr>"

definition resolved_instruction_order :: "resolved_instruction \<Rightarrow> int \<times> string" where
  "resolved_instruction_order i = (ri_priority i, ri_slug i)"

definition instruction_list_effective ::
  "bundled_instruction list \<Rightarrow> uuid option \<Rightarrow> string list \<Rightarrow> instruction_row list
     \<Rightarrow> resolved_instruction list result"
where
  "instruction_list_effective bundled guc opt_outs t =
     (let officials = instruction_list_official t in
      bind_result (instruction_list_user guc t) (\<lambda>users.
        Inr (sort_key resolved_instruction_order (map snd
          (layered_merge bi_slug bundled_instruction_resolved (\<lambda>_. True)
             official_instruction_resolved user_instruction_resolved
             opt_outs bundled officials users)))))"

subsection \<open>The contracts\<close>

interpretation instruction_versions: official_versions instruction_first instruction_bump
  by unfold_locales (simp_all add: official_first_def official_successor_def
      instruction_first_def instruction_bump_def)

interpretation instruction_layers: layered_entity
  bi_slug bundled_instruction_resolved "\<lambda>_. True" official_instruction_resolved
  user_instruction_resolved ri_slug
  by unfold_locales (simp_all add: bundled_instruction_resolved_def
      official_instruction_resolved_def user_instruction_resolved_def)

lemmas instruction_op_defs =
  instruction_list_user_def instruction_list_official_def instruction_get_user_def
  instruction_get_official_def instruction_create_user_def instruction_update_user_def
  instruction_delete_user_def instruction_create_official_def instruction_update_official_def
  instruction_delete_official_def instruction_rollback_official_def

subsection \<open>Properties\<close>

text \<open>
  The system prompt's instruction list is ordered by priority, ties by slug, holds one
  instruction per slug, and never lets a bundled or user fragment replace a mandatory
  official one.
\<close>

theorem instruction_effective_ordered:
  assumes "table_ok sch t" and "instruction_list_effective bundled (Some u) outs t = Inr rs"
  shows "sorted (map (\<lambda>i. (ri_priority i, ri_slug i)) rs) \<and> distinct (map ri_slug rs) \<and>
     (\<forall>r. r \<in> set t \<and> official_current r \<and> mandatory r \<longrightarrow>
        official_instruction_resolved r \<in> set rs)"
proof -
  let ?users = "sort_key instruction_order (filter (user_row u) t)"
  have rs: "rs = sort_key resolved_instruction_order (map snd (layered_merge bi_slug
      bundled_instruction_resolved (\<lambda>_. True) official_instruction_resolved
      user_instruction_resolved outs bundled (instruction_list_official t) ?users))"
    using assms(2) by (simp add: instruction_list_effective_def instruction_op_defs
        list_user_rows_def current_user_id_def)
  note res = instruction_layers.sorted_result [OF rs]
  have "official_instruction_resolved r \<in> set rs"
    if "r \<in> set t" "official_current r" "mandatory r" for r
  proof -
    have "effective_at bi_slug bundled_instruction_resolved (\<lambda>_. True)
        official_instruction_resolved user_instruction_resolved outs bundled
        (instruction_list_official t) ?users (slug r) = Some (official_instruction_resolved r)"
      using that distinct_official_slugs [OF assms(1), of instruction_order]
      by (intro instruction_layers.mandatory_wins)
        (auto simp: instruction_op_defs list_official_rows_def)
    moreover have "ri_slug (official_instruction_resolved r) = slug r"
      by (simp add: official_instruction_resolved_def)
    ultimately show ?thesis using res by metis
  qed
  moreover have "resolved_instruction_order = (\<lambda>i. (ri_priority i, ri_slug i))"
    by (simp add: resolved_instruction_order_def fun_eq_iff)
  ultimately show ?thesis using res by auto
qed

theorem instruction_effective_ordered_witness:
  "\<exists>rs. instruction_list_effective
       [\<lparr>bi_slug = ''base'', bi_body = ''x'', bi_priority = 0, bi_mandatory = True\<rparr>] (Some 7) [''a'']
       [instruction_first 1 ''a'' \<lparr>ia_body = ''b'', ia_priority = 5, ia_mandatory = True, ia_created_by = None\<rparr>]
     = Inr rs \<and> map ri_slug rs = [''base'', ''a''] \<and> sorted (map (\<lambda>i. (ri_priority i, ri_slug i)) rs)"
proof -
  let ?t = "[instruction_first 1 ''a'' \<lparr>ia_body = ''b'', ia_priority = 5, ia_mandatory = True,
      ia_created_by = None\<rparr>]"
  let ?b = "[\<lparr>bi_slug = ''base'', bi_body = ''x'', bi_priority = 0, bi_mandatory = True\<rparr>]"
  have ok: "table_ok Schema_0003 ?t"
    by (simp add: table_ok_def row_ok_def scope_check_def scope_user_id_check_def
        scope_agent_id_check_def instruction_first_def)
  obtain rs where rs: "instruction_list_effective ?b (Some 7) [''a''] ?t = Inr rs"
    and slugs: "map ri_slug rs = [''base'', ''a'']"
    by (auto simp: instruction_list_effective_def instruction_op_defs list_user_rows_def
        list_official_rows_def current_user_id_def layered_merge_def store_all_def
        instruction_first_def official_current_def user_row_def mandatory_slugs_def
        bundled_instruction_resolved_def official_instruction_resolved_def
        resolved_instruction_order_def)
  show ?thesis
    using instruction_effective_ordered [OF ok rs] rs slugs by (intro exI [of _ rs]) simp
qed

end
