(* ===== verification/Command_Repo.thy ===== *)
theory Command_Repo
  imports Layered_Resolution Py_Values
begin

text \<open>
  \<open>repositories/command_repo.py\<close>: slash-command templates, with \<open>expand\<close>.  The sandboxed
  Jinja environment is a library: \<open>render\<close> is a parameter that takes the template and the
  arguments and returns the text or raises.
\<close>

record command_row = versioned_row +
  description :: "string option"
  prompt_tpl :: string
  arg_schema :: "(string \<times> json) list option"
  bind_skills :: "string list option"
  c_created_by :: "uuid option"

record bundled_command =
  bc_slug :: string
  bc_prompt_tpl :: string
  bc_description :: "string option"
  bc_arg_schema :: "(string \<times> json) list option"
  bc_bind_skills :: "string list"

record resolved_command =
  rc_slug :: string
  rc_scope :: scope
  rc_prompt_tpl :: string
  rc_description :: "string option"
  rc_arg_schema :: "(string \<times> json) list option"
  rc_bind_skills :: "string list"

subsection \<open>Reads\<close>

definition command_list_user :: "uuid option \<Rightarrow> command_row list \<Rightarrow> command_row list result" where
  "command_list_user guc t = list_user_rows slug guc t"

definition command_list_official :: "command_row list \<Rightarrow> command_row list" where
  "command_list_official t = list_official_rows slug t"

definition command_get_user ::
  "uuid option \<Rightarrow> string \<Rightarrow> command_row list \<Rightarrow> command_row option result" where
  "command_get_user guc s t = get_user_row guc s t"

definition command_get_official :: "string \<Rightarrow> command_row list \<Rightarrow> command_row option result" where
  "command_get_official s t = get_official_row s t"

subsection \<open>Writes\<close>

record command_args =
  ca_prompt_tpl :: string
  ca_description :: "string option"
  ca_arg_schema :: "(string \<times> json) list option"
  ca_bind_skills :: "string list option"
  ca_mandatory :: bool
  ca_created_by :: "uuid option"

record command_changes =
  cc_prompt_tpl :: "string option"
  cc_description :: "string option"
  cc_arg_schema :: "(string \<times> json) list option"
  cc_bind_skills :: "string list option"
  cc_mandatory :: "bool option"
  cc_created_by :: "uuid option"

definition command_create_user ::
  "schema_rev \<Rightarrow> uuid \<Rightarrow> uuid option \<Rightarrow> string \<Rightarrow> command_args \<Rightarrow> command_row list
     \<Rightarrow> (command_row \<times> command_row list) result"
where
  "command_create_user sch n guc s a t =
     bind_result (current_user_id guc) (\<lambda>u. insert_row sch
       \<lparr>rid = n, scope = UserScope, user_id = Some u, agent_id = None, slug = s,
        mandatory = False, version = 1, is_current = True, description = ca_description a,
        prompt_tpl = ca_prompt_tpl a, arg_schema = ca_arg_schema a,
        bind_skills = ca_bind_skills a, c_created_by = Some u\<rparr> t)"

definition command_values :: "command_changes \<Rightarrow> (command_row \<Rightarrow> command_row) option" where
  "command_values a =
     (if cc_prompt_tpl a = None \<and> cc_description a = None \<and> cc_arg_schema a = None \<and>
        cc_bind_skills a = None then None
      else Some (\<lambda>r. r\<lparr>
        prompt_tpl := keep_or (cc_prompt_tpl a) (prompt_tpl r),
        description := (case cc_description a of None \<Rightarrow> description r | d \<Rightarrow> d),
        arg_schema := (case cc_arg_schema a of None \<Rightarrow> arg_schema r | x \<Rightarrow> x),
        bind_skills := (case cc_bind_skills a of None \<Rightarrow> bind_skills r | x \<Rightarrow> x)\<rparr>))"

definition command_update_user ::
  "schema_rev \<Rightarrow> uuid option \<Rightarrow> string \<Rightarrow> command_changes \<Rightarrow> command_row list
     \<Rightarrow> (command_row option \<times> command_row list) result"
where
  "command_update_user sch guc s a t = update_user_row sch guc s (command_values a) t"

definition command_delete_user ::
  "uuid option \<Rightarrow> string \<Rightarrow> command_row list \<Rightarrow> (bool \<times> command_row list) result"
where
  "command_delete_user guc s t = delete_user_row guc s t"

definition command_first :: "uuid \<Rightarrow> string \<Rightarrow> command_args \<Rightarrow> command_row" where
  "command_first n s a =
     \<lparr>rid = n, scope = Official, user_id = None, agent_id = None, slug = s,
      mandatory = ca_mandatory a, version = 1, is_current = True,
      description = ca_description a, prompt_tpl = ca_prompt_tpl a, arg_schema = ca_arg_schema a,
      bind_skills = ca_bind_skills a, c_created_by = ca_created_by a\<rparr>"

definition command_create_official ::
  "schema_rev \<Rightarrow> uuid \<Rightarrow> string \<Rightarrow> command_args \<Rightarrow> command_row list
     \<Rightarrow> (command_row \<times> command_row list) result"
where
  "command_create_official sch n s a t = insert_row sch (command_first n s a) t"

text \<open>
  \<open>bind_skills\<close> is copied when non-empty: \<open>list(x) if x else None\<close> turns an empty list
  into NULL.
\<close>

definition command_bump :: "uuid \<Rightarrow> string \<Rightarrow> command_changes \<Rightarrow> command_row \<Rightarrow> command_row" where
  "command_bump n s a current =
     \<lparr>rid = n, scope = Official, user_id = None, agent_id = None, slug = s,
      mandatory = keep_or (cc_mandatory a) (mandatory current),
      version = version current + 1, is_current = True,
      description = (case cc_description a of None \<Rightarrow> description current | d \<Rightarrow> d),
      prompt_tpl = keep_or (cc_prompt_tpl a) (prompt_tpl current),
      arg_schema = (if cc_arg_schema a = None \<and> arg_schema current \<noteq> None
        then arg_schema current else cc_arg_schema a),
      bind_skills = (case cc_bind_skills a of
          None \<Rightarrow> (case bind_skills current of Some (x # xs) \<Rightarrow> Some (x # xs) | _ \<Rightarrow> None)
        | Some xs \<Rightarrow> Some xs),
      c_created_by = cc_created_by a\<rparr>"

definition command_update_official ::
  "schema_rev \<Rightarrow> uuid \<Rightarrow> string \<Rightarrow> command_changes \<Rightarrow> command_row list
     \<Rightarrow> (command_row option \<times> command_row list) result"
where
  "command_update_official sch n s a t = update_official_row sch (command_bump n s a) s t"

definition command_delete_official ::
  "schema_rev \<Rightarrow> string \<Rightarrow> command_row list \<Rightarrow> (bool \<times> command_row list) result"
where
  "command_delete_official sch s t = delete_official_row sch s t"

definition command_list_versions :: "string \<Rightarrow> command_row list \<Rightarrow> command_row list" where
  "command_list_versions s t = list_versions_rows s t"

definition command_rollback_official ::
  "schema_rev \<Rightarrow> string \<Rightarrow> int \<Rightarrow> command_row list \<Rightarrow> (command_row option \<times> command_row list) result"
where
  "command_rollback_official sch s v t = rollback_official_row sch s v t"

subsection \<open>Layered resolution and expansion\<close>

definition bundled_command_resolved :: "bundled_command \<Rightarrow> resolved_command" where
  "bundled_command_resolved b =
     \<lparr>rc_slug = bc_slug b, rc_scope = Bundled, rc_prompt_tpl = bc_prompt_tpl b,
      rc_description = bc_description b, rc_arg_schema = bc_arg_schema b,
      rc_bind_skills = bc_bind_skills b\<rparr>"

definition row_command_resolved :: "scope \<Rightarrow> command_row \<Rightarrow> resolved_command" where
  "row_command_resolved sc r =
     \<lparr>rc_slug = slug r, rc_scope = sc, rc_prompt_tpl = prompt_tpl r,
      rc_description = description r, rc_arg_schema = arg_schema r,
      rc_bind_skills = (case bind_skills r of None \<Rightarrow> [] | Some xs \<Rightarrow> xs)\<rparr>"

definition command_list_effective ::
  "bundled_command list \<Rightarrow> uuid option \<Rightarrow> string list \<Rightarrow> command_row list
     \<Rightarrow> resolved_command list result"
where
  "command_list_effective bundled guc opt_outs t =
     (let officials = command_list_official t in
      bind_result (command_list_user guc t) (\<lambda>users.
        Inr (sort_key rc_slug (map snd
          (layered_merge bc_slug bundled_command_resolved (\<lambda>_. True)
             (row_command_resolved Official) (row_command_resolved UserScope)
             opt_outs bundled officials users)))))"

definition command_expand ::
  "(string \<Rightarrow> 'args \<Rightarrow> string result) \<Rightarrow> bundled_command list \<Rightarrow> uuid option \<Rightarrow> string \<Rightarrow> 'args
     \<Rightarrow> command_row list \<Rightarrow> string result"
where
  "command_expand render bundled guc s args t =
     bind_result (command_get_user guc s t) (\<lambda>u.
       bind_result (case u of None \<Rightarrow> command_get_official s t | Some r \<Rightarrow> Inr (Some r)) (\<lambda>row.
         case row of
           Some r \<Rightarrow> render (prompt_tpl r) args
         | None \<Rightarrow> (case find (\<lambda>b. bc_slug b = s) bundled of
               Some b \<Rightarrow> render (bc_prompt_tpl b) args
             | None \<Rightarrow> Inl KeyError)))"

subsection \<open>The contracts\<close>

interpretation command_versions: official_versions command_first command_bump
  by unfold_locales
    (simp_all add: official_first_def official_successor_def command_first_def command_bump_def)

interpretation command_layers: layered_entity
  bc_slug bundled_command_resolved "\<lambda>_. True" "row_command_resolved Official"
  "row_command_resolved UserScope" rc_slug
  by unfold_locales (simp_all add: bundled_command_resolved_def row_command_resolved_def)

subsection \<open>Properties\<close>

text \<open>
  \<open>expand\<close> and the layered resolution disagree.  When a tenant has a command of their
  own under the slug of a mandatory official one, every effective command list shows the
  official template there, and \<open>expand\<close> renders the tenant's.
\<close>

theorem command_expand_ignores_mandatory:
  assumes ok: "table_ok sch t"
    and m: "m \<in> set t" "official_current m" "mandatory m" "slug m = s"
    and r: "r \<in> set t" "user_row u r" "slug r = s"
    and eff: "command_list_effective bundled (Some u) outs t = Inr rs"
  shows "command_expand render bundled (Some u) s args t = render (prompt_tpl r) args \<and>
     (\<exists>x \<in> set rs. rc_slug x = s) \<and>
     (\<forall>x \<in> set rs. rc_slug x = s \<longrightarrow> rc_prompt_tpl x = prompt_tpl m)"
proof -
  let ?users = "sort_key slug (filter (user_row u) t)"
  have rs: "rs = sort_key rc_slug (map snd (layered_merge bc_slug bundled_command_resolved
      (\<lambda>_. True) (row_command_resolved Official) (row_command_resolved UserScope) outs bundled
      (command_list_official t) ?users))"
    using eff by (simp add: command_list_effective_def command_list_user_def list_user_rows_def
        current_user_id_def)
  note res = command_layers.sorted_result [OF rs]
  have "effective_at bc_slug bundled_command_resolved (\<lambda>_. True) (row_command_resolved Official)
      (row_command_resolved UserScope) outs bundled (command_list_official t) ?users (slug m)
      = Some (row_command_resolved Official m)"
    using m distinct_official_slugs [OF ok, of slug]
    by (intro command_layers.mandatory_wins)
      (auto simp: command_list_official_def list_official_rows_def)
  then have "x \<in> set rs \<and> rc_slug x = s \<longleftrightarrow> x = row_command_resolved Official m" for x
    using res m(4) by (metis command_layers.slug_of_effective option.inject)
  moreover have "command_get_user (Some u) s t = Inr (Some r)"
    using r by (simp add: command_get_user_def get_user_row_Some [OF ok])
  then have "command_expand render bundled (Some u) s args t = render (prompt_tpl r) args"
    by (simp add: command_expand_def)
  moreover have "rc_prompt_tpl (row_command_resolved Official m) = prompt_tpl m"
    by (simp add: row_command_resolved_def)
  ultimately show ?thesis by metis
qed

definition example_command :: "uuid \<Rightarrow> scope \<Rightarrow> uuid option \<Rightarrow> string \<Rightarrow> bool \<Rightarrow> command_row" where
  "example_command n sc u tpl mand =
     \<lparr>rid = n, scope = sc, user_id = u, agent_id = None, slug = ''go'', mandatory = mand,
      version = 1, is_current = True, description = None, prompt_tpl = tpl, arg_schema = None,
      bind_skills = None, c_created_by = None\<rparr>"

theorem command_expand_ignores_mandatory_witness:
  "\<exists>rs. command_list_effective [] (Some 7) []
       [example_command 1 Official None ''official'' True, example_command 2 UserScope (Some 7) ''mine'' False]
       = Inr rs \<and>
     command_expand (\<lambda>tpl _. Inr tpl) [] (Some 7) ''go'' ()
       [example_command 1 Official None ''official'' True, example_command 2 UserScope (Some 7) ''mine'' False]
       = Inr ''mine'' \<and> (\<exists>x \<in> set rs. rc_slug x = ''go'' \<and> rc_prompt_tpl x = ''official'')"
proof -
  let ?m = "example_command 1 Official None ''official'' True"
  let ?r = "example_command 2 UserScope (Some 7) ''mine'' False"
  have ok: "table_ok Schema_0001 [?m, ?r]"
    by (simp add: table_ok_def row_ok_def scope_check_def scope_user_id_check_def
        official_current_def user_current_def example_command_def)
  have m: "?m \<in> set [?m, ?r]" "official_current ?m" "mandatory ?m" "slug ?m = ''go''"
    and r: "?r \<in> set [?m, ?r]" "user_row 7 ?r" "slug ?r = ''go''"
    by (simp_all add: official_current_def user_row_def example_command_def)
  obtain rs where rs: "command_list_effective [] (Some 7) [] [?m, ?r] = Inr rs"
    by (simp add: command_list_effective_def command_list_user_def list_user_rows_def
        current_user_id_def)
  have "prompt_tpl ?r = ''mine''" "prompt_tpl ?m = ''official''"
    by (simp_all add: example_command_def)
  with command_expand_ignores_mandatory [OF ok m r rs, of "\<lambda>tpl _. Inr tpl" "()"] rs
  show ?thesis by auto
qed

end
