(* ===== verification/Py_Text.thy ===== *)
theory Py_Text
  imports Prelude "HOL-Library.Sublist" "HOL-Library.Word"
begin

text \<open>
  Python's \<open>str\<close> as a list of Unicode code points, for the components that look at the
  characters: white space and \<open>strip\<close>, \<open>split\<close> and \<open>join\<close> on a separator, substring tests,
  and the UTF-8 codec with its failures.
\<close>

type_synonym pystr = "nat list"
type_synonym bytes = "8 word list"

text \<open>A literal of ASCII (or Latin-1) characters.\<close>

definition codes :: "string \<Rightarrow> pystr" where
  "codes s = map of_char s"

lemma codes_simps [simp]: "codes [] = []" "codes (c # s) = of_char c # codes s"
  by (simp_all add: codes_def)

lemma codes_append [simp]: "codes (a @ b) = codes a @ codes b"
  by (simp add: codes_def)

lemma length_codes [simp]: "length (codes s) = length s"
  by (simp add: codes_def)

subsection \<open>White space\<close>

text \<open>\<open>str.isspace\<close> for one code point, which is also what \<open>\s\<close> matches.\<close>

definition is_space :: "nat \<Rightarrow> bool" where
  "is_space c \<longleftrightarrow> (9 \<le> c \<and> c \<le> 13) \<or> (28 \<le> c \<and> c \<le> 32) \<or> c = 133 \<or> c = 160 \<or> c = 5760 \<or>
     (8192 \<le> c \<and> c \<le> 8202) \<or> c = 8232 \<or> c = 8233 \<or> c = 8239 \<or> c = 8287 \<or> c = 12288"

definition lstrip :: "pystr \<Rightarrow> pystr" where
  "lstrip s = dropWhile is_space s"

definition rstrip :: "pystr \<Rightarrow> pystr" where
  "rstrip s = rev (dropWhile is_space (rev s))"

definition strip :: "pystr \<Rightarrow> pystr" where
  "strip s = rstrip (lstrip s)"

definition stripped :: "pystr \<Rightarrow> bool" where
  "stripped s \<longleftrightarrow> (s \<noteq> [] \<longrightarrow> \<not> is_space (hd s) \<and> \<not> is_space (last s))"

lemma rstrip_eq_Nil [simp]: "rstrip s = [] \<longleftrightarrow> (\<forall>c \<in> set s. is_space c)"
  by (auto simp: rstrip_def dropWhile_eq_Nil_conv)

lemma strip_eq_Nil [simp]: "strip s = [] \<longleftrightarrow> (\<forall>c \<in> set s. is_space c)"
proof -
  have "(\<forall>c \<in> set (dropWhile is_space s). is_space c) \<longleftrightarrow> (\<forall>c \<in> set s. is_space c)"
    by (metis dropWhile_eq_Nil_conv hd_dropWhile hd_in_set set_dropWhileD)
  then show ?thesis by (simp add: strip_def lstrip_def)
qed

lemma hd_rstrip: "rstrip s \<noteq> [] \<Longrightarrow> hd (rstrip s) = hd s"
proof -
  assume ne: "rstrip s \<noteq> []"
  have "s = rstrip s @ rev (takeWhile is_space (rev s))"
    unfolding rstrip_def by (metis rev_append rev_rev_ident takeWhile_dropWhile_id)
  with ne show ?thesis by (metis hd_append2)
qed

lemma stripped_strip [simp]: "stripped (strip s)"
proof (cases "strip s = []")
  case False
  have "\<not> is_space (last (strip s))"
    using False hd_dropWhile [of is_space "rev (lstrip s)"]
    by (simp add: strip_def rstrip_def last_rev)
  moreover have "hd (strip s) = hd (lstrip s)"
    using False by (simp add: strip_def hd_rstrip del: rstrip_eq_Nil)
  moreover have "lstrip s \<noteq> []"
    using False by (auto simp: strip_def rstrip_def)
  ultimately show ?thesis
    using hd_dropWhile [of is_space s] by (simp add: stripped_def lstrip_def)
qed (simp add: stripped_def)

lemma dropWhile_hd: "s = [] \<or> \<not> P (hd s) \<Longrightarrow> dropWhile P s = s"
  by (cases s) auto

lemma strip_stripped [simp]: "stripped s \<Longrightarrow> strip s = s"
  by (auto simp: stripped_def strip_def lstrip_def rstrip_def dropWhile_hd hd_rev)

lemma length_strip_le: "length (strip s) \<le> length s"
proof -
  have "length (strip s) \<le> length (lstrip s)"
    using length_dropWhile_le [of is_space "rev (lstrip s)"] by (simp add: strip_def rstrip_def)
  then show ?thesis
    using length_dropWhile_le [of is_space s] by (simp add: lstrip_def)
qed

lemma set_strip: "set (strip s) \<subseteq> set s"
  unfolding strip_def rstrip_def lstrip_def by (auto dest!: set_dropWhileD)

lemma strip_snoc_space [simp]: "is_space c \<Longrightarrow> strip (s @ [c]) = strip s"
proof (cases "\<forall>x \<in> set s. is_space x")
  case True
  assume "is_space c"
  with True have "strip (s @ [c]) = []" "strip s = []" by auto
  then show ?thesis by (simp only:)
next
  case False
  assume "is_space c"
  moreover have "dropWhile is_space (s @ [c]) = dropWhile is_space s @ [c]"
    using False by (induction s) auto
  ultimately show ?thesis by (simp add: strip_def rstrip_def lstrip_def)
qed

subsection \<open>Splitting on one character, joining\<close>

fun split_on :: "nat \<Rightarrow> pystr \<Rightarrow> pystr list" where
  "split_on d [] = [[]]"
| "split_on d (c # s) =
     (if c = d then [] # split_on d s
      else (case split_on d s of [] \<Rightarrow> [[c]] | x # xs \<Rightarrow> (c # x) # xs))"

fun join_by :: "pystr \<Rightarrow> pystr list \<Rightarrow> pystr" where
  "join_by sep [] = []"
| "join_by sep [x] = x"
| "join_by sep (x # y # xs) = x @ sep @ join_by sep (y # xs)"

lemma split_on_ne [simp]: "split_on d s \<noteq> []"
  by (induction s) (auto split: list.splits)

lemma split_on_free: "d \<notin> set s \<Longrightarrow> split_on d s = [s]"
  by (induction s) auto

lemma split_on_append: "d \<notin> set x \<Longrightarrow> split_on d (x @ d # s) = x # split_on d s"
  by (induction x) auto

lemma split_on_pieces: "x \<in> set (split_on d s) \<Longrightarrow> d \<notin> set x \<and> set x \<subseteq> set s"
proof (induction s arbitrary: x)
  case (Cons c s)
  then show ?case
    by (cases "split_on d s") (fastforce split: if_splits)+
qed simp

lemma join_by_Cons: "xs \<noteq> [] \<Longrightarrow> join_by sep (x # xs) = x @ sep @ join_by sep xs"
  by (cases xs) auto

lemma join_by_eq_Nil: "join_by sep xs = [] \<Longrightarrow> \<forall>x \<in> set xs. x = []"
  by (induction sep xs rule: join_by.induct) auto

lemma length_join_by:
  "length (join_by sep xs) = sum_list (map length xs) + (length xs - 1) * length sep"
  by (induction sep xs rule: join_by.induct) auto

lemma set_join_by: "set (join_by sep xs) \<subseteq> \<Union> (set ` set xs) \<union> set sep"
  by (induction sep xs rule: join_by.induct) auto

lemma hd_join_by: "xs \<noteq> [] \<Longrightarrow> hd xs \<noteq> [] \<Longrightarrow> hd (join_by sep xs) = hd (hd xs)"
  by (cases "(sep, xs)" rule: join_by.cases) auto

lemma last_join_by:
  "xs \<noteq> [] \<Longrightarrow> last xs \<noteq> [] \<Longrightarrow> join_by sep xs \<noteq> [] \<and> last (join_by sep xs) = last (last xs)"
  by (induction sep xs rule: join_by.induct) auto

subsection \<open>Substrings\<close>

text \<open>\<open>needle in haystack\<close>.\<close>

definition contains :: "pystr \<Rightarrow> pystr \<Rightarrow> bool" where
  "contains needle hay \<longleftrightarrow> list_ex (prefix needle) (suffixes hay)"

lemma contains_iff: "contains needle hay \<longleftrightarrow> (\<exists>a b. hay = a @ needle @ b)"
  by (fastforce simp: contains_def list_ex_iff suffix_def prefix_def)

subsection \<open>UTF-8\<close>

text \<open>
  \<open>str.encode("utf-8")\<close> raises on the surrogate code points, which a Python string may
  hold; \<open>bytes.decode("utf-8")\<close> rejects overlong forms, surrogates and values above the
  Unicode range.
\<close>

definition surrogate :: "nat \<Rightarrow> bool" where
  "surrogate c \<longleftrightarrow> 55296 \<le> c \<and> c \<le> 57343"

definition scalar :: "nat \<Rightarrow> bool" where
  "scalar c \<longleftrightarrow> c < 1114112 \<and> \<not> surrogate c"

definition utf8_char :: "nat \<Rightarrow> nat list" where
  "utf8_char c =
     (if c < 128 then [c]
      else if c < 2048 then [192 + c div 64, 128 + c mod 64]
      else if c < 65536 then [224 + c div 4096, 128 + c div 64 mod 64, 128 + c mod 64]
      else [240 + c div 262144, 128 + c div 4096 mod 64, 128 + c div 64 mod 64, 128 + c mod 64])"

definition utf8_encode :: "pystr \<Rightarrow> bytes result" where
  "utf8_encode s =
     (if list_ex surrogate s then Inl ValueError
      else Inr (map of_nat (concat (map utf8_char s))))"

definition cont :: "nat \<Rightarrow> bool" where
  "cont b \<longleftrightarrow> 128 \<le> b \<and> b < 192"

fun utf8_decode_nats :: "nat list \<Rightarrow> pystr option" where
  "utf8_decode_nats [] = Some []"
| "utf8_decode_nats (a # bs) =
     (if a < 128 then map_option (Cons a) (utf8_decode_nats bs)
      else if a < 194 then None
      else case bs of
        [] \<Rightarrow> None
      | b # cs \<Rightarrow>
          (if \<not> cont b then None
           else if a < 224 then map_option (Cons ((a - 192) * 64 + (b - 128))) (utf8_decode_nats cs)
           else case cs of
             [] \<Rightarrow> None
           | c # ds \<Rightarrow>
               (if \<not> cont c then None
                else if a < 240 then
                  (let n = (a - 224) * 4096 + (b - 128) * 64 + (c - 128)
                   in if n < 2048 \<or> surrogate n then None
                      else map_option (Cons n) (utf8_decode_nats ds))
                else case ds of
                  [] \<Rightarrow> None
                | d # es \<Rightarrow>
                    (if \<not> cont d then None
                     else let n = (a - 240) * 262144 + (b - 128) * 4096 + (c - 128) * 64 + (d - 128)
                       in if n < 65536 \<or> 1114112 \<le> n then None
                          else map_option (Cons n) (utf8_decode_nats es)))))"

definition utf8_decode :: "bytes \<Rightarrow> pystr result" where
  "utf8_decode bs = (case utf8_decode_nats (map unat bs) of None \<Rightarrow> Inl ValueError | Some s \<Rightarrow> Inr s)"

lemma utf8_char_lt: "c < 1114112 \<Longrightarrow> \<forall>b \<in> set (utf8_char c). b < 256"
  by (auto simp: utf8_char_def)

lemma utf8_decode_char:
  assumes "scalar c"
  shows "utf8_decode_nats (utf8_char c @ bs) = map_option (Cons c) (utf8_decode_nats bs)"
proof -
  have parts: "c = c div 64 * 64 + c mod 64" "c div 64 = c div 4096 * 64 + c div 64 mod 64"
    "c div 4096 = c div 262144 * 64 + c div 4096 mod 64"
    using div_mult2_eq [of c 64 64] div_mult2_eq [of c 4096 64] by simp_all
  consider "c < 128" | "128 \<le> c" "c < 2048" | "2048 \<le> c" "c < 65536" | "65536 \<le> c" "c < 1114112"
    using assms by (force simp: scalar_def)
  then show ?thesis
  proof cases
    case 2
    then have "2 \<le> c div 64" "c div 64 < 32" by auto
    with 2 show ?thesis by (simp add: utf8_char_def cont_def)
  next
    case 3
    then have "c div 4096 < 16" by auto
    moreover have "c div 4096 * 4096 + c div 64 mod 64 * 64 + c mod 64 = c"
      using parts by linarith
    moreover have "\<not> surrogate c" using assms by (simp add: scalar_def)
    ultimately show ?thesis using 3 by (simp add: utf8_char_def cont_def)
  next
    case 4
    then have "c div 262144 < 5" by auto
    moreover have "c div 262144 * 262144 + c div 4096 mod 64 * 4096 + c div 64 mod 64 * 64 + c mod 64 = c"
      using parts by linarith
    ultimately show ?thesis using 4 by (simp add: utf8_char_def cont_def)
  qed (simp add: utf8_char_def)
qed

lemma utf8_roundtrip:
  assumes "list_all (\<lambda>c. c < 1114112) s" and "utf8_encode s = Inr bs"
  shows "utf8_decode bs = Inr s"
proof -
  have sc: "\<forall>c \<in> set s. scalar c"
    using assms by (auto simp: utf8_encode_def scalar_def list_all_iff list_ex_iff split: if_splits)
  have "\<forall>b \<in> set (concat (map utf8_char s)). b < 256"
    using assms(1) utf8_char_lt by (fastforce simp: list_all_iff)
  then have "map (\<lambda>b. unat (of_nat b :: 8 word)) (concat (map utf8_char s)) = concat (map utf8_char s)"
    by (intro map_idI) (simp add: unat_of_nat del: set_concat)
  moreover have "utf8_decode_nats (concat (map utf8_char s)) = Some s"
    using sc by (induction s) (simp_all add: utf8_decode_char)
  ultimately show ?thesis
    using assms(2) by (auto simp: utf8_decode_def utf8_encode_def o_def split: if_splits)
qed

end
