(* ===== verification/Kms.thy ===== *)
theory Kms
  imports Py_Text
begin

text \<open>
  \<open>storage/kms.py\<close> and \<open>storage/kms_local.py\<close>: envelope encryption bound to an encryption
  context.  \<open>Fernet\<close> is a library: its \<open>encrypt\<close> and \<open>decrypt\<close> are the arguments \<open>fenc\<close> and
  \<open>fdec\<close>, and what the code relies on is that \<open>fdec\<close> undoes \<open>fenc\<close>.
\<close>

type_synonym enc_context = "(string \<times> string) list"

record kms =
  kms_encrypt :: "bytes \<Rightarrow> enc_context \<Rightarrow> bytes result"
  kms_decrypt :: "bytes \<Rightarrow> enc_context \<Rightarrow> bytes result"

subsection \<open>The canonical JSON of a context\<close>

text \<open>\<open>json.dumps\<close> with \<open>ensure_ascii\<close>: quotes, backslashes and everything that is not printable
  ASCII is escaped.\<close>

definition hex_lower :: "nat \<Rightarrow> char" where
  "hex_lower d = char_of (if d < 10 then 48 + d else 87 + d)"

definition hex4 :: "nat \<Rightarrow> string" where
  "hex4 n = map hex_lower [n div 4096 mod 16, n div 256 mod 16, n div 16 mod 16, n mod 16]"

definition json_char :: "char \<Rightarrow> string" where
  "json_char c =
     (let n = of_char c :: nat in
      if n = 34 \<or> n = 92 then [CHR 0x5C, c]
      else if n = 10 then [CHR 0x5C, CHR ''n'']
      else if n = 13 then [CHR 0x5C, CHR ''r'']
      else if n = 9 then [CHR 0x5C, CHR ''t'']
      else if n = 12 then [CHR 0x5C, CHR ''f'']
      else if n = 8 then [CHR 0x5C, CHR ''b'']
      else if n < 32 \<or> 126 < n then CHR 0x5C # CHR ''u'' # hex4 n
      else [c])"

definition json_string :: "string \<Rightarrow> string" where
  "json_string s = CHR 0x22 # concat (map json_char s) @ [CHR 0x22]"

fun json_members :: "(string \<times> string) list \<Rightarrow> string" where
  "json_members [] = []"
| "json_members [(k, v)] = json_string k @ '':'' @ json_string v"
| "json_members ((k, v) # m # ms) =
     json_string k @ '':'' @ json_string v @ '','' @ json_members (m # ms)"

definition byte_of_char :: "char \<Rightarrow> 8 word" where
  "byte_of_char c = of_nat (of_char c)"

definition serialize_context :: "enc_context \<Rightarrow> bytes" where
  "serialize_context ctx = map byte_of_char (''{'' @ json_members (sort_key fst ctx) @ ''}'')"

subsection \<open>LocalKms\<close>

text \<open>\<open>struct.pack(">I", n)\<close>, which raises on values of 33 bits and more.\<close>

definition pack_be32 :: "nat \<Rightarrow> bytes result" where
  "pack_be32 n =
     (if n < 2 ^ 32
      then Inr (map of_nat [n div 2 ^ 24 mod 256, n div 2 ^ 16 mod 256, n div 2 ^ 8 mod 256, n mod 256])
      else Inl ValueError)"

definition unpack_be32 :: "bytes \<Rightarrow> nat option" where
  "unpack_be32 bs =
     (if length bs = 4
      then Some (fold (\<lambda>b n. n * 256 + unat b) bs 0)
      else None)"

definition local_encrypt :: "(bytes \<Rightarrow> bytes) \<Rightarrow> bytes \<Rightarrow> enc_context \<Rightarrow> bytes result" where
  "local_encrypt fenc plaintext ctx =
     (if ''user_id'' \<notin> fst ` set ctx then Inl ValueError
      else
        (let ctx_bytes = serialize_context ctx;
             token = fenc (ctx_bytes @ [0] @ plaintext)
         in bind_result (pack_be32 (length ctx_bytes)) (\<lambda>hdr. Inr (hdr @ ctx_bytes @ token))))"

definition local_decrypt :: "(bytes \<Rightarrow> bytes option) \<Rightarrow> bytes \<Rightarrow> enc_context \<Rightarrow> bytes result" where
  "local_decrypt fdec ciphertext ctx =
     (if ''user_id'' \<notin> fst ` set ctx then Inl ValueError
      else
        (case unpack_be32 (take 4 ciphertext) of
           None \<Rightarrow> Inl KmsDecryptError
         | Some ctx_len \<Rightarrow>
             (let stored_ctx = take ctx_len (drop 4 ciphertext);
                  token = drop (4 + ctx_len) ciphertext;
                  expected_ctx = serialize_context ctx
              in if stored_ctx \<noteq> expected_ctx then Inl KmsDecryptError
                 else
                   (case fdec token of
                      None \<Rightarrow> Inl KmsDecryptError
                    | Some blob \<Rightarrow>
                        (let sep = length (takeWhile (\<lambda>b. b \<noteq> 0) blob)
                         in if 0 \<notin> set blob \<or> take sep blob \<noteq> stored_ctx then Inl KmsDecryptError
                            else Inr (drop (sep + 1) blob))))))"

definition local_kms :: "(bytes \<Rightarrow> bytes) \<Rightarrow> (bytes \<Rightarrow> bytes option) \<Rightarrow> kms" where
  "local_kms fenc fdec = \<lparr>kms_encrypt = local_encrypt fenc, kms_decrypt = local_decrypt fdec\<rparr>"

subsection \<open>The serialised context\<close>

lemma of_char_lt: "(of_char c :: nat) < 256"
  using nat_of_char_less_256 by simp

lemma of_char_hex_lower: "d < 16 \<Longrightarrow> of_char (hex_lower d) = (if d < 10 then 48 + d else 87 + d :: nat)"
  by (simp add: hex_lower_def)

definition printable :: "char \<Rightarrow> bool" where
  "printable c \<longleftrightarrow> 32 \<le> (of_char c :: nat) \<and> (of_char c :: nat) < 127"

lemma printable_hex: "d < 16 \<Longrightarrow> printable (hex_lower d)"
  by (auto simp: printable_def of_char_hex_lower)

lemma hex4_printable: "list_all printable (hex4 n)"
  by (simp add: hex4_def printable_hex)

lemma printable_marks:
  "printable CHR 0x22" "printable CHR 0x5C" "printable CHR '':''" "printable CHR '',''"
  "printable CHR ''{''" "printable CHR ''}''" "printable CHR ''n''" "printable CHR ''r''"
  "printable CHR ''t''" "printable CHR ''f''" "printable CHR ''b''" "printable CHR ''u''"
  by (simp_all add: printable_def)

lemma json_char_printable: "list_all printable (json_char c)"
  using hex4_printable [of "of_char c"]
  by (simp add: json_char_def Let_def printable_marks) (simp add: printable_def)

lemma json_string_printable: "list_all printable (json_string s)"
proof -
  have "list_all printable (concat (map json_char s))"
    using json_char_printable by (induction s) auto
  then show ?thesis by (simp add: json_string_def printable_marks)
qed

lemma json_members_printable: "list_all printable (json_members ms)"
  by (induction ms rule: json_members.induct) (simp_all add: json_string_printable printable_marks)

lemma of_nat_byte_ne_0: "0 < n \<Longrightarrow> n < 256 \<Longrightarrow> (of_nat n :: 8 word) \<noteq> 0"
proof
  assume n: "0 < n" "n < 256" "(of_nat n :: 8 word) = 0"
  then have "unat (of_nat n :: 8 word) = 0" by (simp only: unat_0)
  with n(1,2) show False by (simp add: unat_of_nat)
qed

lemma byte_of_printable: "printable c \<Longrightarrow> byte_of_char c \<noteq> 0"
  unfolding byte_of_char_def by (rule of_nat_byte_ne_0) (simp_all add: printable_def)

lemma printable_no_nul: "list_all printable t \<Longrightarrow> 0 \<notin> set (map byte_of_char t)"
  using byte_of_printable by (induction t) auto

lemma serialize_no_nul: "0 \<notin> set (serialize_context ctx)"
  unfolding serialize_context_def
  by (rule printable_no_nul) (simp add: json_members_printable printable_marks)

subsection \<open>The header\<close>

lemma unpack_pack:
  assumes "pack_be32 n = Inr hdr"
  shows "unpack_be32 hdr = Some n \<and> length hdr = 4"
proof -
  have n: "n < 2 ^ 32"
    and h: "hdr = map of_nat [n div 2 ^ 24 mod 256, n div 2 ^ 16 mod 256, n div 2 ^ 8 mod 256, n mod 256]"
    using assms by (auto simp: pack_be32_def split: if_splits)
  have "n div 2 ^ 24 < 256"
    using n by (simp add: less_mult_imp_div_less)
  moreover have "n = n div 2 ^ 8 * 256 + n mod 256"
    "n div 2 ^ 8 = n div 2 ^ 16 * 256 + n div 2 ^ 8 mod 256"
    "n div 2 ^ 16 = n div 2 ^ 24 * 256 + n div 2 ^ 16 mod 256"
    using div_mult2_eq [of n 256 256] div_mult2_eq [of n 65536 256] by simp_all
  ultimately show ?thesis
    by (simp add: h unpack_be32_def unat_of_nat)
qed

lemma local_roundtrip:
  assumes "fdec (fenc (serialize_context ctx @ [0] @ p)) = Some (serialize_context ctx @ [0] @ p)"
    and "local_encrypt fenc p ctx = Inr ct"
  shows "local_decrypt fdec ct ctx = Inr p"
proof -
  let ?c = "serialize_context ctx"
  obtain hdr where hdr: "pack_be32 (length ?c) = Inr hdr" and u: "''user_id'' \<in> fst ` set ctx"
    and ct: "ct = hdr @ ?c @ fenc (?c @ [0] @ p)"
    using assms(2) by (auto simp: local_encrypt_def Let_def result_eqs split: if_splits)
  have h: "unpack_be32 hdr = Some (length ?c)" "length hdr = 4"
    using unpack_pack [OF hdr] by auto
  have "takeWhile (\<lambda>b. b \<noteq> 0) (?c @ [0] @ p) = ?c"
    using serialize_no_nul [of ctx] by (subst takeWhile_append2) auto
  then show ?thesis
    using u h assms(1) by (simp add: local_decrypt_def ct Let_def)
qed

lemma local_decrypt_other:
  assumes "local_encrypt fenc p ctx = Inr ct" and "serialize_context ctx' \<noteq> serialize_context ctx"
    and "''user_id'' \<in> fst ` set ctx'"
  shows "local_decrypt fdec ct ctx' = Inl KmsDecryptError"
proof -
  let ?c = "serialize_context ctx"
  obtain hdr where hdr: "pack_be32 (length ?c) = Inr hdr"
    and ct: "ct = hdr @ ?c @ fenc (?c @ [0] @ p)"
    using assms(1) by (auto simp: local_encrypt_def Let_def result_eqs split: if_splits)
  show ?thesis
    using assms(2,3) unpack_pack [OF hdr] by (simp add: local_decrypt_def ct Let_def)
qed

subsection \<open>Different owners have different contexts\<close>

text \<open>A reader for one escaped character shows that the encoding is uniquely readable.\<close>

definition unhex :: "char \<Rightarrow> nat" where
  "unhex c = (let n = of_char c in if n < 58 then n - 48 else n - 87)"

lemma unhex_hex_lower: "d < 16 \<Longrightarrow> unhex (hex_lower d) = d"
  by (simp add: unhex_def of_char_hex_lower)

fun read_char :: "string \<Rightarrow> (char \<times> string) option" where
  "read_char [] = None"
| "read_char (c # s) =
     (if c \<noteq> CHR 0x5C then Some (c, s)
      else (case s of
          [] \<Rightarrow> None
        | e # r \<Rightarrow>
            (if e = CHR ''u'' then
               (case r of
                  h1 # h2 # h3 # h4 # t \<Rightarrow>
                    Some (char_of (((unhex h1 * 16 + unhex h2) * 16 + unhex h3) * 16 + unhex h4), t)
                | _ \<Rightarrow> None)
             else if e = CHR ''n'' then Some (char_of (10 :: nat), r)
             else if e = CHR ''r'' then Some (char_of (13 :: nat), r)
             else if e = CHR ''t'' then Some (char_of (9 :: nat), r)
             else if e = CHR ''f'' then Some (char_of (12 :: nat), r)
             else if e = CHR ''b'' then Some (char_of (8 :: nat), r)
             else Some (e, r))))"

lemma char_of_eqI: "(of_char c :: nat) = n \<Longrightarrow> char_of n = c"
  by (metis char_of_char)

lemma hex4_reads:
  assumes "n < 256"
  shows "\<exists>h1 h2 h3 h4. hex4 n = [h1, h2, h3, h4] \<and>
    ((unhex h1 * 16 + unhex h2) * 16 + unhex h3) * 16 + unhex h4 = n"
  using assms by (simp add: hex4_def unhex_hex_lower)

lemma read_json_char: "read_char (json_char c @ x) = Some (c, x)"
proof -
  define n :: nat where "n = of_char c"
  have c: "c = char_of n" by (simp add: n_def)
  have n: "n < 256" unfolding n_def by (rule of_char_lt)
  obtain h1 h2 h3 h4 where h: "hex4 n = [h1, h2, h3, h4]"
    "((unhex h1 * 16 + unhex h2) * 16 + unhex h3) * 16 + unhex h4 = n"
    using hex4_reads [OF n] by blast
  consider "n = 34 \<or> n = 92" | "n = 10" | "n = 13" | "n = 9" | "n = 12" | "n = 8"
    | "n \<notin> {34, 92, 10, 13, 9, 12, 8}" "n < 32 \<or> 126 < n" | "n \<notin> {34, 92}" "32 \<le> n" "n \<le> 126"
    by fastforce
  then show ?thesis
  proof cases
    case 7
    then have "json_char c = CHR 0x5C # CHR ''u'' # hex4 n"
      by (simp add: json_char_def n_def [symmetric])
    then show ?thesis using h c by simp
  next
    case 8
    then have "json_char c = [c]"
      by (simp add: json_char_def n_def [symmetric])
    moreover have "c \<noteq> CHR 0x5C"
      using 8 by (auto simp: n_def)
    ultimately show ?thesis by simp
  next
    case 1
    then have "json_char c = [CHR 0x5C, c]"
      by (simp add: json_char_def n_def [symmetric])
    moreover have "c \<noteq> CHR ''u''" "c \<noteq> CHR ''n''" "c \<noteq> CHR ''r''" "c \<noteq> CHR ''t''"
      "c \<noteq> CHR ''f''" "c \<noteq> CHR ''b''"
      using 1 by (auto simp: n_def)
    ultimately show ?thesis by simp
  qed (use c in \<open>simp add: json_char_def\<close>)+
qed

lemma json_text_inj:
  "concat (map json_char s) @ CHR 0x22 # x = concat (map json_char t) @ CHR 0x22 # y \<Longrightarrow>
   s = t \<and> x = y"
proof (induction s arbitrary: t)
  case Nil
  show ?case
  proof (cases t)
    case (Cons d t')
    then have "CHR 0x22 # x = json_char d @ (concat (map json_char t') @ CHR 0x22 # y)"
      using Nil by simp
    then have "read_char (CHR 0x22 # x) = Some (d, concat (map json_char t') @ CHR 0x22 # y)"
      by (simp only: read_json_char)
    then have "d = CHR 0x22" by simp
    with Nil Cons show ?thesis by (simp add: json_char_def)
  qed (use Nil in simp)
next
  case (Cons c s)
  have r: "read_char (concat (map json_char (c # s)) @ CHR 0x22 # x)
      = Some (c, concat (map json_char s) @ CHR 0x22 # x)"
    using read_json_char by simp
  show ?case
  proof (cases t)
    case Nil
    have "read_char (concat (map json_char t) @ CHR 0x22 # y) = Some (c, concat (map json_char s) @ CHR 0x22 # x)"
      using r by (simp only: Cons.prems)
    then have "c = CHR 0x22" using Nil by simp
    with Nil Cons.prems show ?thesis by (simp add: json_char_def)
  next
    case (Cons d t')
    have "read_char (concat (map json_char t) @ CHR 0x22 # y)
        = Some (d, concat (map json_char t') @ CHR 0x22 # y)"
      using read_json_char Cons by simp
    with r Cons.prems have "c = d"
      "concat (map json_char s) @ CHR 0x22 # x = concat (map json_char t') @ CHR 0x22 # y"
      by simp_all
    with Cons.IH Cons show ?thesis by blast
  qed
qed

text \<open>The contexts the program uses name the owner: \<open>{"user_id": owner}\<close>.\<close>

definition owner_ctx :: "string \<Rightarrow> enc_context" where
  "owner_ctx owner = [(''user_id'', owner)]"

lemma unat_of_byte: "n < 256 \<Longrightarrow> unat (of_nat n :: 8 word) = n"
  by (simp add: unat_of_nat)

lemma byte_of_char_inj: "inj byte_of_char"
proof (rule injI)
  fix c d assume "byte_of_char c = byte_of_char d"
  then have "unat (byte_of_char c) = unat (byte_of_char d)" by simp
  moreover have "unat (byte_of_char x) = of_char x" for x
    unfolding byte_of_char_def by (rule unat_of_byte [OF of_char_lt])
  ultimately show "c = d" by simp
qed

lemma serialize_owner_inj: "serialize_context (owner_ctx a) = serialize_context (owner_ctx b) \<Longrightarrow> a = b"
proof -
  assume "serialize_context (owner_ctx a) = serialize_context (owner_ctx b)"
  then have "''{'' @ json_members (sort_key fst (owner_ctx a)) @ ''}''
      = ''{'' @ json_members (sort_key fst (owner_ctx b)) @ ''}''"
    unfolding serialize_context_def by (rule injD [OF inj_mapI [OF byte_of_char_inj]])
  then have "json_string a @ ''}'' = json_string b @ ''}''"
    by (simp add: owner_ctx_def)
  then have "concat (map json_char a) @ CHR 0x22 # ''}'' = concat (map json_char b) @ CHR 0x22 # ''}''"
    by (simp add: json_string_def)
  then show "a = b" using json_text_inj by blast
qed

lemma length_json_char: "length (json_char c) \<le> 6"
  by (simp add: json_char_def hex4_def Let_def)

lemma length_json_string: "length (json_string s) \<le> 6 * length s + 2"
proof -
  have "length (concat (map json_char s)) \<le> 6 * length s"
    using length_json_char by (induction s) (auto intro: add_mono)
  then show ?thesis by (simp add: json_string_def)
qed

definition kms_contract :: "kms \<Rightarrow> bool" where
  "kms_contract K \<longleftrightarrow>
     (\<forall>p owner ct. kms_encrypt K p (owner_ctx owner) = Inr ct \<longrightarrow>
        kms_decrypt K ct (owner_ctx owner) = Inr p \<and>
        (\<forall>other. other \<noteq> owner \<longrightarrow> kms_decrypt K ct (owner_ctx other) = Inl KmsDecryptError))"

lemma local_kms_contract:
  assumes "\<And>x. fdec (fenc x) = Some x"
  shows "kms_contract (local_kms fenc fdec)"
proof -
  have u: "''user_id'' \<in> fst ` set (owner_ctx x)" for x
    by (simp add: owner_ctx_def)
  show ?thesis
    unfolding kms_contract_def
    using local_roundtrip [of fdec fenc] local_decrypt_other [of fenc _ _ _ _ fdec] assms u
      serialize_owner_inj
    by (simp add: local_kms_def) blast
qed

lemma local_kms_encrypts:
  assumes "length owner < 2 ^ 29"
  shows "\<exists>ct. kms_encrypt (local_kms fenc fdec) p (owner_ctx owner) = Inr ct"
proof -
  have "length (serialize_context (owner_ctx owner)) = 12 + length (json_string owner)"
    by (simp add: serialize_context_def owner_ctx_def json_string_def json_char_def)
  then have "length (serialize_context (owner_ctx owner)) < 2 ^ 32"
    using assms length_json_string [of owner] by simp
  then show ?thesis
    by (simp add: local_kms_def local_encrypt_def pack_be32_def Let_def) (simp add: owner_ctx_def)
qed

subsection \<open>Properties\<close>

text \<open>
  \<open>LocalKms\<close> binds a ciphertext to its owner: what was encrypted for an owner is
  decrypted for that owner, exactly, and for nobody else; encryption succeeds for every
  owner name a 32-bit length can describe.
\<close>

theorem local_kms_binds_owner:
  assumes "\<And>x. fdec (fenc x) = Some x"
  shows "kms_contract (local_kms fenc fdec) \<and>
     (length owner < 2 ^ 29 \<longrightarrow> (\<exists>ct. kms_encrypt (local_kms fenc fdec) p (owner_ctx owner) = Inr ct))"
  using local_kms_contract [of fdec fenc] local_kms_encrypts assms by blast

theorem local_kms_binds_owner_witness:
  "\<exists>ct. kms_encrypt (local_kms id Some) [1, 2] (owner_ctx ''official'') = Inr ct \<and>
     kms_decrypt (local_kms id Some) ct (owner_ctx ''official'') = Inr [1, 2] \<and>
     kms_decrypt (local_kms id Some) ct (owner_ctx ''me'') = Inl KmsDecryptError"
proof -
  have law: "Some (id x) = Some x" for x :: bytes by simp
  note binds = local_kms_binds_owner [where fdec = Some and fenc = id, OF law]
  obtain ct where ct: "kms_encrypt (local_kms id Some) [1, 2] (owner_ctx ''official'') = Inr ct"
    using binds [of "''official''" "[1, 2]"] by auto
  then show ?thesis
    using binds [THEN conjunct1] by (intro exI [of _ ct]) (simp add: kms_contract_def)
qed

end
