(* ===== verification/Uuid_Text.thy ===== *)
theory Uuid_Text
  imports Layered_Tables Kms
begin

text \<open>
  UUIDs as text, which owners of secrets, cache keys and agents are named by.
\<close>

text \<open>\<open>str(uuid)\<close>: 32 lower case hex digits in groups of 8, 4, 4, 4 and 12.\<close>

definition hex32 :: "uuid \<Rightarrow> string" where
  "hex32 n = map (\<lambda>i. hex_lower (n div 16 ^ i mod 16)) (rev [0..<32])"

definition uuid_str :: "uuid \<Rightarrow> string" where
  "uuid_str n =
     (let h = hex32 n
      in take 8 h @ ''-'' @ take 4 (drop 8 h) @ ''-'' @ take 4 (drop 12 h) @ ''-'' @
         take 4 (drop 16 h) @ ''-'' @ drop 20 h)"

lemma same_digits:
  "\<forall>i < k. n div 16 ^ i mod 16 = m div 16 ^ i mod 16 \<Longrightarrow> n mod 16 ^ k = (m :: nat) mod 16 ^ k"
proof (induction k)
  case (Suc k)
  then have "n mod 16 ^ k = m mod 16 ^ k" "n div 16 ^ k mod 16 = m div 16 ^ k mod 16" by simp_all
  then show ?case
    using mod_mult2_eq [of n "16 ^ k" 16] mod_mult2_eq [of m "16 ^ k" 16]
    by (simp add: mult.commute)
qed simp

lemma hex32_inj:
  assumes "n < 2 ^ 128" and "m < 2 ^ 128" and "hex32 n = hex32 m"
  shows "n = m"
proof -
  have "\<forall>i < 32. hex_lower (n div 16 ^ i mod 16) = hex_lower (m div 16 ^ i mod 16)"
    using assms(3) by (simp add: hex32_def)
  then have "\<forall>i < 32. unhex (hex_lower (n div 16 ^ i mod 16)) = unhex (hex_lower (m div 16 ^ i mod 16))"
    by metis
  then have "\<forall>i < 32. n div 16 ^ i mod 16 = m div 16 ^ i mod 16"
    by (simp add: unhex_hex_lower)
  then have "n mod 16 ^ 32 = m mod 16 ^ 32" by (rule same_digits)
  moreover have "(16 :: nat) ^ 32 = 2 ^ 128" by simp
  ultimately show ?thesis using assms(1,2) by simp
qed

lemma uuid_str_inj:
  assumes "n < 2 ^ 128" and "m < 2 ^ 128" and "uuid_str n = uuid_str m"
  shows "n = m"
proof -
  have "length (hex32 x) = 32" for x by (simp add: hex32_def)
  then have "take 8 (hex32 n) @ take 4 (drop 8 (hex32 n)) @ take 4 (drop 12 (hex32 n)) @
        take 4 (drop 16 (hex32 n)) @ drop 20 (hex32 n)
      = take 8 (hex32 m) @ take 4 (drop 8 (hex32 m)) @ take 4 (drop 12 (hex32 m)) @
        take 4 (drop 16 (hex32 m)) @ drop 20 (hex32 m)"
    using assms(3) by (simp add: uuid_str_def Let_def)
  moreover have "take 8 h @ take 4 (drop 8 h) @ take 4 (drop 12 h) @ take 4 (drop 16 h) @ drop 20 h = h"
    for h :: string
    using append_take_drop_id [of 8 h] append_take_drop_id [of 4 "drop 8 h"]
      append_take_drop_id [of 4 "drop 12 h"] append_take_drop_id [of 4 "drop 16 h"]
    by (simp del: append_take_drop_id)
  ultimately show ?thesis using hex32_inj assms(1,2) by metis
qed

lemma uuid_str_not_official: "uuid_str n \<noteq> ''official''"
proof
  assume "uuid_str n = ''official''"
  then have "length (uuid_str n) = 8" by simp
  then show False by (simp add: uuid_str_def hex32_def Let_def)
qed

end
