(* ===== verification/Mcp_Repo.thy ===== *)
theory Mcp_Repo
  imports Layered_Resolution Uuid_Text
begin

text \<open>
  \<open>repositories/mcp_repo.py\<close>: the MCP server registry.  Auth values are UTF-8 encoded and
  encrypted under the context of their owner: the user's id, or \<open>official\<close>.  The key service
  is the argument \<open>K\<close>, any implementation of \<open>storage/kms.py\<close>.
\<close>

subsection \<open>Rows\<close>

record mcp_row = versioned_row +
  url :: string
  auth_header :: "string option"
  auth_value_ct :: "bytes option"
  cache_tools_list :: bool
  m_enabled :: bool
  last_probe_at :: "int option"
  last_probe_ok :: "bool option"

record resolved_mcp =
  rm_slug :: string
  rm_scope :: scope
  rm_url :: string
  rm_auth_header :: "string option"
  rm_auth_value_ct :: "bytes option"
  rm_cache_tools_list :: bool
  rm_enabled :: bool
  rm_mandatory :: bool
  rm_user_id :: "string option"

subsection \<open>Reads\<close>

definition mcp_list_user :: "uuid option \<Rightarrow> mcp_row list \<Rightarrow> mcp_row list result" where
  "mcp_list_user guc t = list_user_rows slug guc t"

definition mcp_list_official :: "mcp_row list \<Rightarrow> mcp_row list" where
  "mcp_list_official t = list_official_rows slug t"

definition mcp_get_user :: "uuid option \<Rightarrow> string \<Rightarrow> mcp_row list \<Rightarrow> mcp_row option result" where
  "mcp_get_user guc s t = get_user_row guc s t"

definition mcp_get_official :: "string \<Rightarrow> mcp_row list \<Rightarrow> mcp_row option result" where
  "mcp_get_official s t = get_official_row s t"

definition row_owner :: "mcp_row \<Rightarrow> string" where
  "row_owner r = (case user_id r of Some u \<Rightarrow> uuid_str u | None \<Rightarrow> ''official'')"

definition decrypt_auth_value :: "kms \<Rightarrow> mcp_row \<Rightarrow> pystr option result" where
  "decrypt_auth_value K r =
     (case auth_value_ct r of
        None \<Rightarrow> Inr None
      | Some ct \<Rightarrow>
          bind_result (kms_decrypt K ct (owner_ctx (row_owner r))) (\<lambda>plaintext.
            bind_result (utf8_decode plaintext) (\<lambda>s. Inr (Some s))))"

subsection \<open>Writes\<close>

text \<open>\<open>await kms.encrypt(auth_value.encode("utf-8"), {"user_id": owner})\<close>.\<close>

definition seal :: "kms \<Rightarrow> string \<Rightarrow> pystr \<Rightarrow> bytes result" where
  "seal K owner v = bind_result (utf8_encode v) (\<lambda>b. kms_encrypt K b (owner_ctx owner))"

definition seal_option :: "kms \<Rightarrow> string \<Rightarrow> pystr option \<Rightarrow> bytes option result" where
  "seal_option K owner v =
     (case v of None \<Rightarrow> Inr None | Some x \<Rightarrow> bind_result (seal K owner x) (\<lambda>ct. Inr (Some ct)))"

record mcp_args =
  ma_url :: string
  ma_auth_header :: "string option"
  ma_auth_value :: "pystr option"
  ma_cache_tools_list :: bool
  ma_enabled :: bool
  ma_mandatory :: bool

record mcp_changes =
  mc_url :: "string option"
  mc_auth_header :: "string option"
  mc_auth_value :: "pystr option"
  mc_clear_auth_value :: bool
  mc_cache_tools_list :: "bool option"
  mc_enabled :: "bool option"
  mc_mandatory :: "bool option"

definition mcp_create_user ::
  "kms \<Rightarrow> schema_rev \<Rightarrow> uuid \<Rightarrow> uuid option \<Rightarrow> string \<Rightarrow> mcp_args \<Rightarrow> mcp_row list
     \<Rightarrow> (mcp_row \<times> mcp_row list) result"
where
  "mcp_create_user K sch n guc s a t =
     bind_result (current_user_id guc) (\<lambda>u.
     bind_result (seal_option K (uuid_str u) (ma_auth_value a)) (\<lambda>ct.
       insert_row sch
         \<lparr>rid = n, scope = UserScope, user_id = Some u, agent_id = None, slug = s,
          mandatory = False, version = 1, is_current = True, url = ma_url a,
          auth_header = ma_auth_header a, auth_value_ct = ct,
          cache_tools_list = ma_cache_tools_list a, m_enabled = ma_enabled a,
          last_probe_at = None, last_probe_ok = None\<rparr> t))"

text \<open>The \<open>values\<close> dict of \<open>update_user\<close>: None when it is empty.\<close>

definition mcp_values ::
  "kms \<Rightarrow> uuid \<Rightarrow> mcp_changes \<Rightarrow> (mcp_row \<Rightarrow> mcp_row) option result"
where
  "mcp_values K u a =
     bind_result (seal_option K (uuid_str u) (mc_auth_value a)) (\<lambda>ct.
       Inr (if mc_url a = None \<and> mc_auth_header a = None \<and> mc_auth_value a = None \<and>
              \<not> mc_clear_auth_value a \<and> mc_cache_tools_list a = None \<and> mc_enabled a = None
            then None
            else Some (\<lambda>r. r\<lparr>
              url := keep_or (mc_url a) (url r),
              auth_header := (if mc_auth_header a \<noteq> None then mc_auth_header a else auth_header r),
              auth_value_ct := (if mc_auth_value a \<noteq> None then ct
                else if mc_clear_auth_value a then None else auth_value_ct r),
              cache_tools_list := keep_or (mc_cache_tools_list a) (cache_tools_list r),
              m_enabled := keep_or (mc_enabled a) (m_enabled r)\<rparr>)))"

definition mcp_update_user ::
  "kms \<Rightarrow> schema_rev \<Rightarrow> uuid option \<Rightarrow> string \<Rightarrow> mcp_changes \<Rightarrow> mcp_row list
     \<Rightarrow> (mcp_row option \<times> mcp_row list) result"
where
  "mcp_update_user K sch guc s a t =
     bind_result (current_user_id guc) (\<lambda>u.
     bind_result (mcp_values K u a) (\<lambda>vs. update_user_row sch guc s vs t))"

definition mcp_delete_user :: "uuid option \<Rightarrow> string \<Rightarrow> mcp_row list \<Rightarrow> (bool \<times> mcp_row list) result" where
  "mcp_delete_user guc s t = delete_user_row guc s t"

definition mcp_first :: "uuid \<Rightarrow> string \<Rightarrow> mcp_args \<times> bytes option \<Rightarrow> mcp_row" where
  "mcp_first n s = (\<lambda>(a, ct).
     \<lparr>rid = n, scope = Official, user_id = None, agent_id = None, slug = s,
      mandatory = ma_mandatory a, version = 1, is_current = True, url = ma_url a,
      auth_header = ma_auth_header a, auth_value_ct = ct,
      cache_tools_list = ma_cache_tools_list a, m_enabled = ma_enabled a,
      last_probe_at = None, last_probe_ok = None\<rparr>)"

definition mcp_create_official ::
  "kms \<Rightarrow> schema_rev \<Rightarrow> uuid \<Rightarrow> string \<Rightarrow> mcp_args \<Rightarrow> mcp_row list \<Rightarrow> (mcp_row \<times> mcp_row list) result"
where
  "mcp_create_official K sch n s a t =
     bind_result (seal_option K ''official'' (ma_auth_value a)) (\<lambda>ct.
       insert_row sch (mcp_first n s (a, ct)) t)"

text \<open>\<open>bytes(x) if x else None\<close>: an empty ciphertext counts as none.\<close>

definition nonempty :: "bytes option \<Rightarrow> bytes option" where
  "nonempty x = (case x of Some (b # bs) \<Rightarrow> Some (b # bs) | _ \<Rightarrow> None)"

definition mcp_bump :: "uuid \<Rightarrow> string \<Rightarrow> mcp_changes \<times> bytes option \<Rightarrow> mcp_row \<Rightarrow> mcp_row" where
  "mcp_bump n s = (\<lambda>(a, ct) current.
     \<lparr>rid = n, scope = Official, user_id = None, agent_id = None, slug = s,
      mandatory = keep_or (mc_mandatory a) (mandatory current),
      version = version current + 1, is_current = True,
      url = keep_or (mc_url a) (url current),
      auth_header = (if mc_auth_header a = None then auth_header current else mc_auth_header a),
      auth_value_ct = (if mc_auth_value a \<noteq> None then ct
        else if mc_clear_auth_value a then None else nonempty (auth_value_ct current)),
      cache_tools_list = keep_or (mc_cache_tools_list a) (cache_tools_list current),
      m_enabled = keep_or (mc_enabled a) (m_enabled current),
      last_probe_at = None, last_probe_ok = None\<rparr>)"

text \<open>The encryption comes after the lookup and before the current row is retired.\<close>

definition mcp_update_official ::
  "kms \<Rightarrow> schema_rev \<Rightarrow> uuid \<Rightarrow> string \<Rightarrow> mcp_changes \<Rightarrow> mcp_row list
     \<Rightarrow> (mcp_row option \<times> mcp_row list) result"
where
  "mcp_update_official K sch n s a t =
     bind_result (mcp_get_official s t) (\<lambda>cur.
       case cur of
         None \<Rightarrow> Inr (None, t)
       | Some _ \<Rightarrow>
           bind_result (seal_option K ''official'' (mc_auth_value a)) (\<lambda>ct.
             update_official_row sch (mcp_bump n s (a, ct)) s t))"

definition mcp_delete_official ::
  "schema_rev \<Rightarrow> string \<Rightarrow> mcp_row list \<Rightarrow> (bool \<times> mcp_row list) result"
where
  "mcp_delete_official sch s t = delete_official_row sch s t"

definition mcp_list_versions :: "string \<Rightarrow> mcp_row list \<Rightarrow> mcp_row list" where
  "mcp_list_versions s t = list_versions_rows s t"

definition mcp_rollback_official ::
  "schema_rev \<Rightarrow> string \<Rightarrow> int \<Rightarrow> mcp_row list \<Rightarrow> (mcp_row option \<times> mcp_row list) result"
where
  "mcp_rollback_official sch s v t = rollback_official_row sch s v t"

definition mcp_record_probe ::
  "schema_rev \<Rightarrow> uuid option \<Rightarrow> string \<Rightarrow> bool \<Rightarrow> int \<Rightarrow> mcp_row list \<Rightarrow> (unit \<times> mcp_row list) result"
where
  "mcp_record_probe sch guc s ok when t =
     bind_result (current_user_id guc) (\<lambda>u.
       checked sch () (sql_update (\<lambda>r. user_row u r \<and> slug r = s)
         (\<lambda>r. r\<lparr>last_probe_at := Some when, last_probe_ok := Some ok\<rparr>) t))"

subsection \<open>Layered resolution\<close>

definition official_mcp_resolved :: "mcp_row \<Rightarrow> resolved_mcp" where
  "official_mcp_resolved r =
     \<lparr>rm_slug = slug r, rm_scope = Official, rm_url = url r, rm_auth_header = auth_header r,
      rm_auth_value_ct = nonempty (auth_value_ct r), rm_cache_tools_list = cache_tools_list r,
      rm_enabled = m_enabled r, rm_mandatory = mandatory r, rm_user_id = None\<rparr>"

definition user_mcp_resolved :: "mcp_row \<Rightarrow> resolved_mcp" where
  "user_mcp_resolved r =
     \<lparr>rm_slug = slug r, rm_scope = UserScope, rm_url = url r, rm_auth_header = auth_header r,
      rm_auth_value_ct = nonempty (auth_value_ct r), rm_cache_tools_list = cache_tools_list r,
      rm_enabled = m_enabled r, rm_mandatory = False,
      rm_user_id = map_option uuid_str (user_id r)\<rparr>"

text \<open>There is no bundled tier: the merge starts from the empty list.\<close>

definition mcp_list_effective ::
  "uuid option \<Rightarrow> string list \<Rightarrow> mcp_row list \<Rightarrow> resolved_mcp list result"
where
  "mcp_list_effective guc opt_outs t =
     (let officials = mcp_list_official t in
      bind_result (mcp_list_user guc t) (\<lambda>users.
        Inr (sort_key rm_slug (map snd
          (layered_merge rm_slug id m_enabled official_mcp_resolved user_mcp_resolved
             opt_outs [] officials users)))))"

subsection \<open>The contracts\<close>

interpretation mcp_versions: official_versions mcp_first mcp_bump
  by unfold_locales
    (simp_all add: official_first_def official_successor_def mcp_first_def mcp_bump_def split: prod.splits)

interpretation mcp_layers: layered_entity
  rm_slug id m_enabled official_mcp_resolved user_mcp_resolved rm_slug
  by unfold_locales (simp_all add: official_mcp_resolved_def user_mcp_resolved_def)

subsection \<open>Properties\<close>

lemma insert_row_Inr: "insert_row sch r t = Inr (r', t') \<Longrightarrow> r' = r"
  by (auto simp: insert_row_def checked_def split: if_splits)

text \<open>
  C12. An MCP credential belongs to its row's owner: with any key service that meets the
  contract, \<open>decrypt_auth_value\<close> of the row \<open>create_user\<close> stored returns the value that was
  given, and the same ciphertext copied into the row of another user or of an official server
  cannot be decrypted.
\<close>

theorem mcp_auth_bound_to_owner:
  assumes "kms_contract K" and "mcp_create_user K sch n (Some u) s a t = Inr (r, t')"
    and "ma_auth_value a = Some v" and "list_all (\<lambda>c. c < 1114112) v" and "u < 2 ^ 128"
    and "\<forall>u'. user_id r' = Some u' \<longrightarrow> u' \<noteq> u \<and> u' < 2 ^ 128"
    and "auth_value_ct r' = auth_value_ct r"
  shows "decrypt_auth_value K r = Inr (Some v) \<and> decrypt_auth_value K r' = Inl KmsDecryptError"
proof -
  obtain b ct where b: "utf8_encode v = Inr b" and ct: "kms_encrypt K b (owner_ctx (uuid_str u)) = Inr ct"
    and r: "auth_value_ct r = Some ct" "user_id r = Some u"
    using assms(2,3) by (auto simp: mcp_create_user_def current_user_id_def seal_option_def seal_def
        result_eqs dest!: insert_row_Inr)
  have "row_owner r' \<noteq> uuid_str u"
    using assms(5,6) uuid_str_inj [of _ u] uuid_str_not_official [of u]
    by (auto simp: row_owner_def split: option.splits)
  then show ?thesis
    using assms(1,7) ct r utf8_roundtrip [OF assms(4) b]
    by (simp add: decrypt_auth_value_def kms_contract_def row_owner_def)
qed

theorem mcp_auth_bound_to_owner_witness:
  "\<exists>r t'. mcp_create_user (local_kms id Some) Schema_0001 1 (Some 7) ''s''
       \<lparr>ma_url = ''u'', ma_auth_header = None, ma_auth_value = Some [233], ma_cache_tools_list = True,
        ma_enabled = True, ma_mandatory = False\<rparr> [] = Inr (r, t') \<and>
     decrypt_auth_value (local_kms id Some) r = Inr (Some [233]) \<and>
     decrypt_auth_value (local_kms id Some) (r\<lparr>user_id := Some 8\<rparr>) = Inl KmsDecryptError"
proof -
  let ?K = "local_kms id Some"
  let ?a = "\<lparr>ma_url = ''u'', ma_auth_header = None, ma_auth_value = Some [233], ma_cache_tools_list = True,
        ma_enabled = True, ma_mandatory = False\<rparr>"
  have K: "kms_contract ?K"
    by (rule local_kms_contract) simp
  have "length (uuid_str 7) = 36"
    by (simp add: uuid_str_def hex32_def Let_def)
  then obtain ct where ct: "kms_encrypt ?K (map of_nat [195, 169]) (owner_ctx (uuid_str 7)) = Inr ct"
    using local_kms_encrypts [of "uuid_str 7" id Some] by fastforce
  then have "\<exists>r t'. mcp_create_user ?K Schema_0001 1 (Some 7) ''s'' ?a [] = Inr (r, t')"
    by (simp add: mcp_create_user_def current_user_id_def seal_option_def seal_def utf8_encode_def
        surrogate_def utf8_char_def insert_row_def checked_def table_ok_def row_ok_def
        scope_check_def scope_user_id_check_def official_current_def user_current_def)
  then obtain r t' where c: "mcp_create_user ?K Schema_0001 1 (Some 7) ''s'' ?a [] = Inr (r, t')"
    by blast
  show ?thesis
    using mcp_auth_bound_to_owner [OF K c, of "[233]" "r\<lparr>user_id := Some 8\<rparr>"] c
    by (intro exI [of _ r] exI [of _ t']) simp
qed

text \<open>
  The agent factory only sees enabled servers, one per slug; and a mandatory official
  server that is disabled still hides the tenant's own server under its slug, so that the slug
  resolves to nothing.
\<close>

theorem mcp_effective_enabled_only:
  assumes "mcp_list_effective (Some u) outs t = Inr rs"
  shows "(\<forall>x \<in> set rs. rm_enabled x) \<and> distinct (map rm_slug rs) \<and>
     (table_ok sch t \<longrightarrow> (\<forall>m \<in> set t. official_current m \<and> mandatory m \<and> \<not> m_enabled m \<longrightarrow>
        (\<forall>x \<in> set rs. rm_slug x \<noteq> slug m)))"
proof -
  let ?users = "sort_key slug (filter (user_row u) t)"
  have rs: "rs = sort_key rm_slug (map snd (layered_merge rm_slug id m_enabled
      official_mcp_resolved user_mcp_resolved outs [] (mcp_list_official t) ?users))"
    using assms by (simp add: mcp_list_effective_def mcp_list_user_def list_user_rows_def
        current_user_id_def)
  note res = mcp_layers.sorted_result [OF rs]
  have mem: "effective_at rm_slug id m_enabled official_mcp_resolved user_mcp_resolved outs []
      (mcp_list_official t) ?users (rm_slug x) = Some x" if "x \<in> set rs" for x
    using res that by blast
  have en: "rm_enabled x" if x: "x \<in> set rs" for x
    using mem [OF x]
    by (auto simp: effective_at_def last_with_def official_mcp_resolved_def user_mcp_resolved_def
        find_Some_iff split: if_splits option.splits)
  have "rm_slug x \<noteq> slug m"
    if ok: "table_ok sch t" and m: "m \<in> set t" "official_current m" "mandatory m" "\<not> m_enabled m"
      and x: "x \<in> set rs" for m x
  proof
    assume eq: "rm_slug x = slug m"
    have mo: "m \<in> set (mcp_list_official t)"
      using m by (simp add: mcp_list_official_def list_official_rows_def)
    have d: "distinct (map slug (mcp_list_official t))"
      using distinct_official_slugs [OF ok, of slug] by (simp add: mcp_list_official_def)
    have "last_with slug (slug m) (\<lambda>r. m_enabled r \<and> (mandatory r \<or> slug m \<notin> set outs))
        (mcp_list_official t) = None"
      using d mo m(4) by (auto simp: last_with_None distinct_map inj_on_def)
    moreover have "slug m \<in> set (mandatory_slugs (mcp_list_official t))"
      using mo m(3) by (auto simp: mandatory_slugs_def)
    ultimately have "effective_at rm_slug id m_enabled official_mcp_resolved user_mcp_resolved outs []
        (mcp_list_official t) ?users (slug m) = None"
      by (simp add: effective_at_def last_with_def)
    with mem [OF x] eq show False by simp
  qed
  with res en show ?thesis by blast
qed

definition example_mcp :: "uuid \<Rightarrow> scope \<Rightarrow> uuid option \<Rightarrow> bool \<Rightarrow> bool \<Rightarrow> mcp_row" where
  "example_mcp n sc u mand en =
     \<lparr>rid = n, scope = sc, user_id = u, agent_id = None, slug = ''s'', mandatory = mand,
      version = 1, is_current = True, url = ''u'', auth_header = None, auth_value_ct = None,
      cache_tools_list = True, m_enabled = en, last_probe_at = None, last_probe_ok = None\<rparr>"

theorem mcp_effective_enabled_only_witness:
  "\<exists>rs. mcp_list_effective (Some 7) []
       [example_mcp 1 Official None True False, example_mcp 2 UserScope (Some 7) False True] = Inr rs \<and>
     (\<forall>x \<in> set rs. rm_slug x \<noteq> ''s'')"
proof -
  let ?m = "example_mcp 1 Official None True False"
  let ?t = "[?m, example_mcp 2 UserScope (Some 7) False True]"
  obtain rs where rs: "mcp_list_effective (Some 7) [] ?t = Inr rs"
    by (simp add: mcp_list_effective_def mcp_list_user_def list_user_rows_def current_user_id_def)
  have ok: "table_ok Schema_0001 ?t"
    by (simp add: table_ok_def row_ok_def scope_check_def scope_user_id_check_def
        official_current_def user_current_def example_mcp_def)
  have m: "?m \<in> set ?t" "official_current ?m" "mandatory ?m" "\<not> m_enabled ?m" "slug ?m = ''s''"
    by (simp_all add: official_current_def example_mcp_def)
  show ?thesis
    using mcp_effective_enabled_only [OF rs, of Schema_0001] ok m rs by metis
qed

end
