(* ===== verification/Cron_Repo.thy ===== *)
theory Cron_Repo
  imports Layered_Tables
begin

text \<open>
  \<open>repositories/cron_repo.py\<close> over the table \<open>cron_jobs\<close>.  Its rows are layered but not
  versioned, official rows are edited in place, and no index makes a slug unique.
\<close>

record cron_row = layered_row +
  cron_expr :: string
  cr_prompt :: string
  webhook_url :: "string option"
  cr_enabled :: bool
  last_fired_at :: "int option"
  strikes :: int

definition cron_table_ok :: "schema_rev \<Rightarrow> cron_row list \<Rightarrow> bool" where
  "cron_table_ok sch t \<longleftrightarrow> distinct (map rid t) \<and> list_all (row_ok sch) t"

definition cron_checked :: "schema_rev \<Rightarrow> 'x \<Rightarrow> cron_row list \<Rightarrow> ('x \<times> cron_row list) result" where
  "cron_checked sch x t = (if cron_table_ok sch t then Inr (x, t) else Inl IntegrityError)"

definition cron_user :: "uuid \<Rightarrow> cron_row \<Rightarrow> bool" where
  "cron_user u r \<longleftrightarrow> scope r = UserScope \<and> user_id r = Some u"

definition cron_official :: "cron_row \<Rightarrow> bool" where
  "cron_official r \<longleftrightarrow> scope r = Official"

subsection \<open>Reads\<close>

definition cron_list_user :: "uuid option \<Rightarrow> cron_row list \<Rightarrow> cron_row list result" where
  "cron_list_user guc t =
     bind_result (current_user_id guc) (\<lambda>u. Inr (sort_key slug (filter (cron_user u) t)))"

definition cron_list_official :: "cron_row list \<Rightarrow> cron_row list" where
  "cron_list_official t = sort_key slug (filter cron_official t)"

definition cron_get_user :: "uuid option \<Rightarrow> string \<Rightarrow> cron_row list \<Rightarrow> cron_row option result" where
  "cron_get_user guc s t =
     bind_result (current_user_id guc) (\<lambda>u.
       scalar_one_or_none (filter (\<lambda>r. cron_user u r \<and> slug r = s) t))"

definition cron_get_official :: "string \<Rightarrow> cron_row list \<Rightarrow> cron_row option result" where
  "cron_get_official s t = scalar_one_or_none (filter (\<lambda>r. cron_official r \<and> slug r = s) t)"

subsection \<open>User scope writes\<close>

record cron_args =
  ra_cron_expr :: string
  ra_prompt :: string
  ra_webhook_url :: "string option"
  ra_enabled :: bool
  ra_mandatory :: bool

record cron_changes =
  rc_cron_expr :: "string option"
  rc_prompt :: "string option"
  rc_webhook_url :: "string option"
  rc_clear_webhook_url :: bool
  rc_enabled :: "bool option"
  rc_mandatory :: "bool option"

definition cron_new_row ::
  "uuid \<Rightarrow> scope \<Rightarrow> uuid option \<Rightarrow> bool \<Rightarrow> string \<Rightarrow> cron_args \<Rightarrow> cron_row"
where
  "cron_new_row n sc u mand s a =
     \<lparr>rid = n, scope = sc, user_id = u, agent_id = None, slug = s, mandatory = mand,
      cron_expr = ra_cron_expr a, cr_prompt = ra_prompt a, webhook_url = ra_webhook_url a,
      cr_enabled = ra_enabled a, last_fired_at = None, strikes = 0\<rparr>"

definition cron_create_user ::
  "schema_rev \<Rightarrow> uuid \<Rightarrow> uuid option \<Rightarrow> string \<Rightarrow> cron_args \<Rightarrow> cron_row list
     \<Rightarrow> (cron_row \<times> cron_row list) result"
where
  "cron_create_user sch n guc s a t =
     bind_result (current_user_id guc) (\<lambda>u.
       let r = cron_new_row n UserScope (Some u) False s a in cron_checked sch r (t @ [r]))"

text \<open>The \<open>values\<close> of the two updates; only \<open>update_official\<close> knows \<open>mandatory\<close>.\<close>

definition cron_values :: "cron_changes \<Rightarrow> (cron_row \<Rightarrow> cron_row) option" where
  "cron_values a =
     (if rc_cron_expr a = None \<and> rc_prompt a = None \<and> rc_webhook_url a = None \<and>
        \<not> rc_clear_webhook_url a \<and> rc_enabled a = None \<and> rc_mandatory a = None
      then None
      else Some (\<lambda>r. r\<lparr>
        mandatory := keep_or (rc_mandatory a) (mandatory r),
        cron_expr := keep_or (rc_cron_expr a) (cron_expr r),
        cr_prompt := keep_or (rc_prompt a) (cr_prompt r),
        webhook_url := (if rc_webhook_url a \<noteq> None then rc_webhook_url a
          else if rc_clear_webhook_url a then None else webhook_url r),
        cr_enabled := keep_or (rc_enabled a) (cr_enabled r)\<rparr>))"

text \<open>\<open>UPDATE .. RETURNING\<close> read by \<open>scalar_one_or_none\<close>.\<close>

definition cron_update_where ::
  "schema_rev \<Rightarrow> (cron_row \<Rightarrow> bool) \<Rightarrow> (cron_row \<Rightarrow> cron_row) \<Rightarrow> cron_row list
     \<Rightarrow> (cron_row option \<times> cron_row list) result"
where
  "cron_update_where sch p f t =
     bind_result (cron_checked sch () (sql_update p f t)) (\<lambda>(_, t').
       bind_result (scalar_one_or_none (map f (filter p t))) (\<lambda>r. Inr (r, t')))"

definition cron_update_user ::
  "schema_rev \<Rightarrow> uuid option \<Rightarrow> string \<Rightarrow> cron_changes \<Rightarrow> cron_row list
     \<Rightarrow> (cron_row option \<times> cron_row list) result"
where
  "cron_update_user sch guc s a t =
     bind_result (current_user_id guc) (\<lambda>u.
       case cron_values (a\<lparr>rc_mandatory := None\<rparr>) of
         None \<Rightarrow> bind_result (cron_get_user guc s t) (\<lambda>r. Inr (r, t))
       | Some f \<Rightarrow> cron_update_where sch (\<lambda>r. cron_user u r \<and> slug r = s) f t)"

definition cron_delete_user ::
  "uuid option \<Rightarrow> string \<Rightarrow> cron_row list \<Rightarrow> (bool \<times> cron_row list) result"
where
  "cron_delete_user guc s t =
     bind_result (current_user_id guc) (\<lambda>u.
       let p = (\<lambda>r. cron_user u r \<and> slug r = s) in Inr (filter p t \<noteq> [], sql_delete p t))"

subsection \<open>Official scope writes\<close>

definition cron_create_official ::
  "schema_rev \<Rightarrow> uuid \<Rightarrow> string \<Rightarrow> cron_args \<Rightarrow> cron_row list \<Rightarrow> (cron_row \<times> cron_row list) result"
where
  "cron_create_official sch n s a t =
     (let r = cron_new_row n Official None (ra_mandatory a) s a in cron_checked sch r (t @ [r]))"

definition cron_update_official ::
  "schema_rev \<Rightarrow> string \<Rightarrow> cron_changes \<Rightarrow> cron_row list \<Rightarrow> (cron_row option \<times> cron_row list) result"
where
  "cron_update_official sch s a t =
     (case cron_values a of
        None \<Rightarrow> bind_result (cron_get_official s t) (\<lambda>r. Inr (r, t))
      | Some f \<Rightarrow> cron_update_where sch (\<lambda>r. cron_official r \<and> slug r = s) f t)"

definition cron_delete_official :: "string \<Rightarrow> cron_row list \<Rightarrow> bool \<times> cron_row list" where
  "cron_delete_official s t =
     (let p = (\<lambda>r. cron_official r \<and> slug r = s) in (filter p t \<noteq> [], sql_delete p t))"

subsection \<open>Firing\<close>

definition cron_mark_fired ::
  "schema_rev \<Rightarrow> uuid option \<Rightarrow> string \<Rightarrow> int \<Rightarrow> bool \<Rightarrow> cron_row list \<Rightarrow> (unit \<times> cron_row list) result"
where
  "cron_mark_fired sch guc s when reset_strikes t =
     bind_result (current_user_id guc) (\<lambda>u.
       cron_checked sch () (sql_update (\<lambda>r. cron_user u r \<and> slug r = s)
         (\<lambda>r. r\<lparr>last_fired_at := Some when,
            strikes := (if reset_strikes then 0 else strikes r)\<rparr>) t))"

text \<open>\<open>ORDER BY scope, slug\<close>: \<open>official\<close> sorts before \<open>user\<close>.\<close>

definition cron_list_enabled_admin :: "cron_row list \<Rightarrow> cron_row list" where
  "cron_list_enabled_admin t = sort_key (\<lambda>r. (scope_text (scope r), slug r)) (filter cr_enabled t)"

definition cron_mark_fired_admin :: "schema_rev \<Rightarrow> uuid \<Rightarrow> int \<Rightarrow> cron_row list \<Rightarrow> (unit \<times> cron_row list) result" where
  "cron_mark_fired_admin sch n when t =
     cron_checked sch () (sql_update (\<lambda>r. rid r = n)
       (\<lambda>r. r\<lparr>last_fired_at := Some when, strikes := 0\<rparr>) t)"

subsection \<open>Properties\<close>

text \<open>
  No constraint keeps a cron slug unique.  A second \<open>create_user\<close> under a slug the tenant
  already uses succeeds (before revision \<open>0003_agents\<close>), and from then on reading or editing
  the job by its slug raises \<open>MultipleResultsFound\<close>; deleting it removes both jobs.
\<close>

theorem cron_duplicate_slug:
  assumes "cron_table_ok Schema_0001 t" and "cron_get_user (Some u) s t = Inr (Some r)"
    and "n \<notin> rid ` set t" and "cron_values (a'\<lparr>rc_mandatory := None\<rparr>) \<noteq> None"
  shows "\<exists>r' t'. cron_create_user Schema_0001 n (Some u) s a t = Inr (r', t') \<and>
     cron_get_user (Some u) s t' = Inl MultipleResultsFound \<and>
     cron_update_user Schema_0001 (Some u) s a' t' = Inl MultipleResultsFound \<and>
     cron_delete_user (Some u) s t' = Inr (True, filter (\<lambda>x. x \<noteq> r) t)"
proof -
  let ?r = "cron_new_row n UserScope (Some u) False s a"
  let ?p = "\<lambda>r. cron_user u r \<and> slug r = s"
  have one: "filter ?p t = [r]"
    using assms(2) by (simp add: cron_get_user_def current_user_id_def)
  have new: "?p ?r"
    by (simp add: cron_new_row_def cron_user_def)
  have ok: "cron_table_ok Schema_0001 (t @ [?r])"
    using assms(1,3) by (auto simp: cron_table_ok_def cron_new_row_def row_ok_def scope_check_def
        scope_user_id_check_def)
  then have c: "cron_create_user Schema_0001 n (Some u) s a t = Inr (?r, t @ [?r])"
    by (simp add: cron_create_user_def current_user_id_def cron_checked_def Let_def)
  have two: "filter ?p (t @ [?r]) = [r, ?r]"
    using one new by simp
  obtain f where f: "cron_values (a'\<lparr>rc_mandatory := None\<rparr>) = Some f"
    using assms(4) by blast
  have keep: "rid (f x) = rid x \<and> row_ok Schema_0001 (f x) = row_ok Schema_0001 x" for x
    using f by (auto simp: cron_values_def row_ok_def scope_check_def scope_user_id_check_def
        split: if_splits)
  have "map rid (sql_update ?p f (t @ [?r])) = map rid (t @ [?r])"
    using keep by (auto simp: sql_update_def)
  moreover have "list_all (row_ok Schema_0001) (sql_update ?p f (t @ [?r]))"
    using ok keep by (auto simp: sql_update_def cron_table_ok_def list_all_iff)
  ultimately have "cron_table_ok Schema_0001 (sql_update ?p f (t @ [?r]))"
    using ok by (simp only: cron_table_ok_def simp_thms)
  then have "cron_update_user Schema_0001 (Some u) s a' (t @ [?r]) = Inl MultipleResultsFound"
    using f by (simp add: cron_update_user_def current_user_id_def cron_update_where_def
        cron_checked_def two del: filter_append)
  moreover have "filter (\<lambda>x. \<not> ?p x) t = filter (\<lambda>x. x \<noteq> r) t"
  proof (rule filter_cong [OF refl])
    fix x assume "x \<in> set t"
    then show "(\<not> ?p x) = (x \<noteq> r)"
      using arg_cong [OF one, of "\<lambda>l. x \<in> set l"] by auto
  qed
  then have "cron_delete_user (Some u) s (t @ [?r]) = Inr (True, filter (\<lambda>x. x \<noteq> r) t)"
    using new by (simp add: cron_delete_user_def current_user_id_def sql_delete_def Let_def)
      (simp add: two del: filter_append)?
  moreover have "cron_get_user (Some u) s (t @ [?r]) = Inl MultipleResultsFound"
    by (simp add: cron_get_user_def current_user_id_def two del: filter_append)
  ultimately show ?thesis using c by blast
qed

definition example_cron :: "uuid \<Rightarrow> uuid \<Rightarrow> string \<Rightarrow> cron_row" where
  "example_cron n u s = cron_new_row n UserScope (Some u) False s
     \<lparr>ra_cron_expr = ''* * * * *'', ra_prompt = ''p'', ra_webhook_url = None, ra_enabled = True,
      ra_mandatory = False\<rparr>"

theorem cron_duplicate_slug_witness:
  "\<exists>r' t'. cron_create_user Schema_0001 2 (Some 7) ''j''
       \<lparr>ra_cron_expr = ''@daily'', ra_prompt = ''q'', ra_webhook_url = None, ra_enabled = True,
        ra_mandatory = False\<rparr> [example_cron 1 7 ''j''] = Inr (r', t') \<and>
     cron_get_user (Some 7) ''j'' t' = Inl MultipleResultsFound"
proof -
  let ?t = "[example_cron 1 7 ''j'']"
  let ?c = "\<lparr>rc_cron_expr = None, rc_prompt = Some ''z'', rc_webhook_url = None,
     rc_clear_webhook_url = False, rc_enabled = None, rc_mandatory = None\<rparr>"
  have "cron_table_ok Schema_0001 ?t" "cron_get_user (Some 7) ''j'' ?t = Inr (Some (example_cron 1 7 ''j''))"
    by (simp_all add: cron_table_ok_def example_cron_def cron_new_row_def row_ok_def scope_check_def
        scope_user_id_check_def cron_get_user_def current_user_id_def cron_user_def)
  moreover have "(2::uuid) \<notin> rid ` set ?t" "cron_values (?c\<lparr>rc_mandatory := None\<rparr>) \<noteq> None"
    by (simp_all add: example_cron_def cron_new_row_def cron_values_def)
  ultimately show ?thesis
    using cron_duplicate_slug [of ?t 7 "''j''" "example_cron 1 7 ''j''" 2 ?c] by blast
qed

end
