(* ===== verification/Opt_Out_Repo.thy ===== *)
theory Opt_Out_Repo
  imports Layered_Tables
begin

text \<open>
  \<open>repositories/opt_out_repo.py\<close>: the user's opt-outs from official entities.  The table is
  the list of its rows, whose primary key is the whole row.
\<close>

type_synonym opt_out = "uuid \<times> string \<times> string"

definition VALID_ENTITIES :: "string list" where
  "VALID_ENTITIES = [''skill'', ''instruction'', ''command'', ''mcp_server'', ''cron_job'']"

definition opt_out_list ::
  "uuid option \<Rightarrow> string option \<Rightarrow> opt_out list \<Rightarrow> (string \<times> string) list result"
where
  "opt_out_list guc entity t =
     (if (case entity of Some e \<Rightarrow> e \<notin> set VALID_ENTITIES | None \<Rightarrow> False) then Inl ValueError
      else bind_result (current_user_id guc) (\<lambda>u.
        Inr (map snd (filter (\<lambda>(w, e, s). w = u \<and>
          (case entity of Some e' \<Rightarrow> e = e' | None \<Rightarrow> True)) t))))"

text \<open>\<open>INSERT .. ON CONFLICT DO NOTHING\<close>.\<close>

definition opt_out_add ::
  "uuid option \<Rightarrow> string \<Rightarrow> string \<Rightarrow> opt_out list \<Rightarrow> opt_out list result"
where
  "opt_out_add guc entity s t =
     (if entity \<notin> set VALID_ENTITIES then Inl ValueError
      else bind_result (current_user_id guc) (\<lambda>u.
        Inr (if (u, entity, s) \<in> set t then t else t @ [(u, entity, s)])))"

definition opt_out_remove ::
  "uuid option \<Rightarrow> string \<Rightarrow> string \<Rightarrow> opt_out list \<Rightarrow> (bool \<times> opt_out list) result"
where
  "opt_out_remove guc entity s t =
     (if entity \<notin> set VALID_ENTITIES then Inl ValueError
      else bind_result (current_user_id guc) (\<lambda>u.
        Inr ((u, entity, s) \<in> set t, filter (\<lambda>r. r \<noteq> (u, entity, s)) t)))"

subsection \<open>Properties\<close>

text \<open>
  Opt-outs behave as one set per tenant: adding is idempotent and adds exactly the pair,
  removing undoes it and reports whether it was there, the primary key is kept, and no
  operation changes what another tenant lists.
\<close>

theorem opt_outs_are_sets:
  assumes "entity \<in> set VALID_ENTITIES" and "distinct t" and "opt_out_add (Some u) entity s t = Inr t'"
  shows "distinct t' \<and> opt_out_add (Some u) entity s t' = Inr t' \<and>
     (\<exists>xs ys. opt_out_list (Some u) None t = Inr xs \<and> opt_out_list (Some u) None t' = Inr ys \<and>
        set ys = insert (entity, s) (set xs)) \<and>
     (\<exists>t''. opt_out_remove (Some u) entity s t' = Inr (True, t'') \<and> distinct t'' \<and>
        opt_out_remove (Some u) entity s t'' = Inr (False, t'') \<and>
        (\<forall>r. r \<in> set t'' \<longleftrightarrow> r \<in> set t \<and> r \<noteq> (u, entity, s))) \<and>
     (\<forall>v e. v \<noteq> u \<longrightarrow> opt_out_list (Some v) e t' = opt_out_list (Some v) e t)"
proof -
  have t': "t' = (if (u, entity, s) \<in> set t then t else t @ [(u, entity, s)])"
    using assms by (simp add: opt_out_add_def current_user_id_def)
  have others: "opt_out_list (Some v) e t' = opt_out_list (Some v) e t" if "v \<noteq> u" for v e
    using that by (auto simp: t' opt_out_list_def current_user_id_def)
  have lists: "\<exists>xs ys. opt_out_list (Some u) None t = Inr xs \<and> opt_out_list (Some u) None t' = Inr ys \<and>
        set ys = insert (entity, s) (set xs)"
    unfolding t' opt_out_list_def current_user_id_def by (cases "(u, entity, s) \<in> set t") force+
  have rem: "\<exists>t''. opt_out_remove (Some u) entity s t' = Inr (True, t'') \<and> distinct t'' \<and>
        opt_out_remove (Some u) entity s t'' = Inr (False, t'') \<and>
        (\<forall>r. r \<in> set t'' \<longleftrightarrow> r \<in> set t \<and> r \<noteq> (u, entity, s))"
  proof (intro exI conjI)
    let ?f = "filter (\<lambda>r. r \<noteq> (u, entity, s)) t'"
    show "opt_out_remove (Some u) entity s t' = Inr (True, ?f)"
      using assms(1) by (simp add: t' opt_out_remove_def current_user_id_def)
    show "distinct ?f" using assms(2) by (simp add: t')
    show "opt_out_remove (Some u) entity s ?f = Inr (False, ?f)"
      using assms(1) by (simp add: opt_out_remove_def current_user_id_def)
    show "\<forall>r. r \<in> set ?f \<longleftrightarrow> r \<in> set t \<and> r \<noteq> (u, entity, s)"
      by (auto simp: t')
  qed
  have "distinct t' \<and> opt_out_add (Some u) entity s t' = Inr t'"
    using assms(1,2) by (auto simp: t' opt_out_add_def current_user_id_def)
  with others lists rem show ?thesis by blast
qed

theorem opt_outs_are_sets_witness:
  "opt_out_add (Some 7) ''skill'' ''plan'' [(8, ''skill'', ''plan'')]
     = Inr [(8, ''skill'', ''plan''), (7, ''skill'', ''plan'')] \<and>
   opt_out_list (Some 8) None [(8, ''skill'', ''plan''), (7, ''skill'', ''plan'')]
     = Inr [(''skill'', ''plan'')]"
proof -
  have v: "''skill'' \<in> set VALID_ENTITIES" by (simp add: VALID_ENTITIES_def)
  have a: "opt_out_add (Some 7) ''skill'' ''plan'' [(8, ''skill'', ''plan'')]
     = Inr [(8, ''skill'', ''plan''), (7, ''skill'', ''plan'')]"
    using v by (simp add: opt_out_add_def current_user_id_def)
  have l: "opt_out_list (Some 8) None [(8, ''skill'', ''plan'')] = Inr [(''skill'', ''plan'')]"
    by (simp add: opt_out_list_def current_user_id_def)
  have "\<forall>w e. w \<noteq> 7 \<longrightarrow> opt_out_list (Some w) e [(8, ''skill'', ''plan''), (7, ''skill'', ''plan'')]
      = opt_out_list (Some w) e [(8, ''skill'', ''plan'')]"
    using opt_outs_are_sets [OF v _ a] by simp
  then have "opt_out_list (Some 8) None [(8, ''skill'', ''plan''), (7, ''skill'', ''plan'')]
      = opt_out_list (Some 8) None [(8, ''skill'', ''plan'')]"
    by simp
  with a l show ?thesis by simp
qed

end
