(* ===== verification/Memory_Spec.thy ===== *)
theory Memory_Spec
  imports Untrusted
begin

text \<open>
  What a memory backend promises (\<open>agent/backends/memory.py\<close>): a document is a list of
  entries, edited entry by entry under a character limit.  The abstract operations work on the
  list; the locale \<open>memory_backend\<close> states that a backend implements them, whatever it stores,
  and the client lemmas are proved once from that.  \<open>Memory_Store\<close> and \<open>Memory_Repo\<close>
  interpret it.
\<close>

subsection \<open>Documents\<close>

definition ENTRY_DELIMITER :: pystr where
  "ENTRY_DELIMITER = [10, 167, 10]"

definition MEMORY_CHAR_LIMIT :: nat where "MEMORY_CHAR_LIMIT = 2200"
definition USER_PROFILE_CHAR_LIMIT :: nat where "USER_PROFILE_CHAR_LIMIT = 1375"

text \<open>
  \<open>[e.strip() for e in text.split(ENTRY_DELIMITER.strip()) if e.strip()]\<close>: the separator that
  is split on is the bare section sign.
\<close>

definition cut_entries :: "pystr \<Rightarrow> pystr list" where
  "cut_entries text = filter (\<lambda>e. e \<noteq> []) (map strip (split_on 167 text))"

definition join_entries :: "pystr list \<Rightarrow> pystr" where
  "join_entries es = join_by ENTRY_DELIMITER es"

definition total_of :: "pystr list \<Rightarrow> nat" where
  "total_of es = sum_list (map length es) + (length es - 1) * length ENTRY_DELIMITER"

definition matches :: "pystr \<Rightarrow> pystr list \<Rightarrow> nat list" where
  "matches old es = filter (\<lambda>i. contains old (es ! i)) [0..<length es]"

definition pop_at :: "nat \<Rightarrow> 'a list \<Rightarrow> 'a list" where
  "pop_at i xs = take i xs @ drop (Suc i) xs"

lemma total_of_join: "total_of es = length (join_entries es)"
  by (simp add: total_of_def join_entries_def length_join_by)

lemma total_of_snoc:
  "total_of (es @ [c]) = total_of es + length c + (if es = [] then 0 else length ENTRY_DELIMITER)"
  by (cases es) (simp_all add: total_of_def)

lemma matches_lt: "i \<in> set (matches old es) \<Longrightarrow> i < length es"
  by (auto simp: matches_def)

lemma set_pop_at: "set (pop_at i xs) \<subseteq> set xs"
  by (auto simp: pop_at_def dest: in_set_takeD in_set_dropD)

lemma total_of_pop_at: "i < length es \<Longrightarrow> total_of (pop_at i es) \<le> total_of es"
proof -
  assume i: "i < length es"
  have "es = take i es @ es ! i # drop (Suc i) es"
    using i by (rule id_take_nth_drop)
  then have "map length es = map length (take i es) @ length (es ! i) # map length (drop (Suc i) es)"
    by (metis list.simps(9) map_append)
  then have "sum_list (map length (pop_at i es)) \<le> sum_list (map length es)"
    by (simp add: pop_at_def)
  moreover have "length (pop_at i es) \<le> length es"
    using i by (simp add: pop_at_def)
  ultimately show ?thesis
    unfolding total_of_def by (intro add_mono mult_le_mono1 diff_le_mono)
qed

subsection \<open>Entries that survive storage\<close>

text \<open>
  \<open>plain\<close>: no section sign, carriage return, NUL or surrogate, and no white space at the ends.
  \<open>tidy\<close> entries are plain, non-empty and pass the validator.
\<close>

definition plain :: "pystr \<Rightarrow> bool" where
  "plain c \<longleftrightarrow> stripped c \<and> list_all scalar c \<and> 167 \<notin> set c \<and> 13 \<notin> set c \<and> 0 \<notin> set c"

definition tidy :: "pystr \<Rightarrow> bool" where
  "tidy e \<longleftrightarrow> plain e \<and> e \<noteq> [] \<and> \<not> harmful e"

lemma tidyD: "tidy e \<Longrightarrow> stripped e \<and> e \<noteq> [] \<and> 167 \<notin> set e \<and> \<not> harmful e"
  by (simp add: tidy_def plain_def)

lemma strip_Cons_space [simp]: "is_space c \<Longrightarrow> strip (c # s) = strip s"
  by (simp add: strip_def lstrip_def)

lemma is_space_newline [simp]: "is_space 10"
  by (simp add: is_space_def)

lemma cut_entries_append:
  "167 \<notin> set x \<Longrightarrow>
   cut_entries (x @ 167 # s) = (if strip x = [] then [] else [strip x]) @ cut_entries s"
  by (simp add: cut_entries_def split_on_append del: strip_eq_Nil)

lemma cut_entries_space: "is_space c \<Longrightarrow> c \<noteq> 167 \<Longrightarrow> cut_entries (c # s) = cut_entries s"
  by (cases "split_on 167 s") (simp_all add: cut_entries_def del: strip_eq_Nil)

lemma cut_entries_single: "167 \<notin> set x \<Longrightarrow> cut_entries x = (if strip x = [] then [] else [strip x])"
  by (simp add: cut_entries_def split_on_free del: strip_eq_Nil)

lemma cut_entries_Nil [simp]: "cut_entries [] = []"
  by (simp add: cut_entries_def)

lemma strip_ne: "stripped s \<Longrightarrow> s \<noteq> [] \<Longrightarrow> strip s = s \<and> strip s \<noteq> []"
  by (simp del: strip_eq_Nil)

lemma cut_join:
  assumes "list_all tidy es"
  shows "cut_entries (join_entries es) = es"
  using assms
proof (induction "ENTRY_DELIMITER" es rule: join_by.induct)
  case (2 x)
  then show ?case
    using strip_ne [of x] by (simp add: join_entries_def cut_entries_single tidy_def plain_def del: strip_eq_Nil)
next
  case (3 x y xs)
  then have x: "stripped x" "x \<noteq> []" "167 \<notin> set x"
    by (simp_all add: tidy_def plain_def)
  have "cut_entries (join_entries (x # y # xs))
      = cut_entries ((x @ [10]) @ 167 # 10 # join_entries (y # xs))"
    by (simp add: join_entries_def ENTRY_DELIMITER_def)
  also have "\<dots> = x # cut_entries (10 # join_entries (y # xs))"
    using x strip_ne [of x] by (subst cut_entries_append) (simp_all del: strip_eq_Nil)
  also have "\<dots> = x # y # xs"
    using 3 by (simp add: cut_entries_space)
  finally show ?case .
qed (simp add: join_entries_def)

lemma stripped_join: "list_all tidy es \<Longrightarrow> stripped (join_entries es)"
proof (cases "es = []")
  case False
  assume t: "list_all tidy es"
  then have "tidy (hd es)" "tidy (last es)"
    using False by (auto simp: list_all_iff)
  then show ?thesis
    using False hd_join_by [of es ENTRY_DELIMITER] last_join_by [of es ENTRY_DELIMITER]
    by (simp add: stripped_def join_entries_def tidy_def plain_def)
qed (simp add: join_entries_def stripped_def)

lemma join_entries_eq_Nil: "list_all tidy es \<Longrightarrow> join_entries es = [] \<longleftrightarrow> es = []"
  using join_by_eq_Nil [of ENTRY_DELIMITER es]
  by (cases es) (auto simp: join_entries_def tidy_def)

lemma set_join_entries: "set (join_entries es) \<subseteq> \<Union> (set ` set es) \<union> {10, 167}"
  using set_join_by [of ENTRY_DELIMITER es] by (auto simp: join_entries_def ENTRY_DELIMITER_def)

subsection \<open>The abstract operations\<close>

datatype kind = Memory | User

definition check_entry :: "pystr \<Rightarrow> unit result" where
  "check_entry c = (if strip c = [] then Inl ValueError else check_untrusted c)"

definition spec_add :: "nat \<Rightarrow> pystr \<Rightarrow> pystr list \<Rightarrow> pystr list result" where
  "spec_add limit c es =
     bind_result (check_entry c) (\<lambda>_.
       if c \<in> set es then Inr es
       else if limit < total_of (es @ [c]) then Inl (MemoryFull (total_of es) limit)
       else Inr (es @ [c]))"

definition spec_replace :: "nat \<Rightarrow> pystr \<Rightarrow> pystr \<Rightarrow> pystr list \<Rightarrow> pystr list result" where
  "spec_replace limit old c es =
     bind_result (check_entry c) (\<lambda>_.
       case matches old es of
         [i] \<Rightarrow> (let es' = es[i := c] in
           if limit < total_of es' then Inl (MemoryFull (total_of es') limit) else Inr es')
       | _ \<Rightarrow> Inl ValueError)"

definition spec_remove :: "pystr \<Rightarrow> pystr list \<Rightarrow> pystr list result" where
  "spec_remove old es = (case matches old es of [i] \<Rightarrow> Inr (pop_at i es) | _ \<Rightarrow> Inl ValueError)"

lemma check_entry_ok: "check_entry c = Inr () \<longleftrightarrow> strip c \<noteq> [] \<and> \<not> harmful c"
  by (simp add: check_entry_def check_untrusted_iff del: strip_eq_Nil)

lemma check_entry_tidy: "plain c \<Longrightarrow> check_entry c = Inr () \<longleftrightarrow> tidy c"
  unfolding check_entry_ok tidy_def
  by (metis plain_def strip_stripped)

lemma spec_tidy:
  assumes "list_all tidy es" and "plain c"
  shows "spec_add limit c es = Inr es' \<Longrightarrow> list_all tidy es'"
    and "spec_replace limit old c es = Inr es' \<Longrightarrow> list_all tidy es'"
    and "spec_remove old es = Inr es' \<Longrightarrow> list_all tidy es'"
proof -
  have c: "check_entry c = Inr () \<Longrightarrow> tidy c"
    using assms(2) by (simp add: check_entry_tidy)
  show "spec_add limit c es = Inr es' \<Longrightarrow> list_all tidy es'"
    using assms(1) c by (auto simp: spec_add_def result_eqs split: if_splits)
  show "spec_replace limit old c es = Inr es' \<Longrightarrow> list_all tidy es'"
    using assms(1) c
    by (auto simp: spec_replace_def result_eqs Let_def list_all_iff split: if_splits list.splits
        dest!: subsetD [OF set_update_subset_insert])
  show "spec_remove old es = Inr es' \<Longrightarrow> list_all tidy es'"
    using assms(1) set_pop_at
    by (fastforce simp: spec_remove_def list_all_iff split: list.splits)
qed

lemma spec_within_limit:
  assumes "total_of es \<le> limit"
  shows "spec_add limit c es = Inr es' \<Longrightarrow> total_of es' \<le> limit"
    and "spec_replace limit old c es = Inr es' \<Longrightarrow> total_of es' \<le> limit"
    and "spec_remove old es = Inr es' \<Longrightarrow> total_of es' \<le> limit"
proof -
  show "spec_add limit c es = Inr es' \<Longrightarrow> total_of es' \<le> limit"
    using assms by (auto simp: spec_add_def result_eqs split: if_splits)
  show "spec_replace limit old c es = Inr es' \<Longrightarrow> total_of es' \<le> limit"
    by (auto simp: spec_replace_def result_eqs Let_def split: if_splits list.splits)
  show "spec_remove old es = Inr es' \<Longrightarrow> total_of es' \<le> limit"
  proof -
    assume "spec_remove old es = Inr es'"
    then obtain i where "matches old es = [i]" "es' = pop_at i es"
      by (auto simp: spec_remove_def split: list.splits)
    then show ?thesis
      using total_of_pop_at [OF matches_lt, of i old es] assms by simp
  qed
qed

subsection \<open>The interface\<close>

record 'st backend =
  b_entries :: "kind \<Rightarrow> 'st \<Rightarrow> pystr list result"
  b_char_limit :: "kind \<Rightarrow> nat"
  b_add :: "kind \<Rightarrow> pystr \<Rightarrow> 'st \<Rightarrow> unit result \<times> 'st"
  b_replace :: "kind \<Rightarrow> pystr \<Rightarrow> pystr \<Rightarrow> 'st \<Rightarrow> unit result \<times> 'st"
  b_remove :: "kind \<Rightarrow> pystr \<Rightarrow> 'st \<Rightarrow> unit result \<times> 'st"

text \<open>
  An operation on document \<open>k\<close> implements an abstract one: the same exception and an
  unchanged state, or success with the document replaced and the other document unchanged.
\<close>

definition implements ::
  "'st backend \<Rightarrow> ('st \<Rightarrow> bool) \<Rightarrow> kind \<Rightarrow> 'st \<Rightarrow> pystr list result \<Rightarrow> unit result \<times> 'st \<Rightarrow> bool"
where
  "implements B ok k st spec out \<longleftrightarrow>
     (case spec of
        Inl e \<Rightarrow> out = (Inl e, st)
      | Inr es \<Rightarrow> fst out = Inr () \<and> ok (snd out) \<and> b_entries B k (snd out) = Inr es \<and>
          (\<forall>k'. k' \<noteq> k \<longrightarrow> b_entries B k' (snd out) = b_entries B k' st))"

datatype mem_op = Add kind pystr | Replace kind pystr pystr | Remove kind pystr

fun plain_op :: "mem_op \<Rightarrow> bool" where
  "plain_op (Add k c) = plain c"
| "plain_op (Replace k old c) = plain c"
| "plain_op (Remove k old) = True"

fun op_kind :: "mem_op \<Rightarrow> kind" where
  "op_kind (Add k c) = k"
| "op_kind (Replace k old c) = k"
| "op_kind (Remove k old) = k"

fun spec_op :: "(kind \<Rightarrow> nat) \<Rightarrow> mem_op \<Rightarrow> (kind \<Rightarrow> pystr list) \<Rightarrow> pystr list result" where
  "spec_op limit (Add k c) d = spec_add (limit k) c (d k)"
| "spec_op limit (Replace k old c) d = spec_replace (limit k) old c (d k)"
| "spec_op limit (Remove k old) d = spec_remove old (d k)"

text \<open>A run records the outcome of every operation and goes on after a failure.\<close>

fun spec_run ::
  "(kind \<Rightarrow> nat) \<Rightarrow> mem_op list \<Rightarrow> (kind \<Rightarrow> pystr list) \<Rightarrow> unit result list \<times> (kind \<Rightarrow> pystr list)"
where
  "spec_run limit [] d = ([], d)"
| "spec_run limit (op # ops) d =
     (case spec_op limit op d of
        Inl e \<Rightarrow> (let (rs, d') = spec_run limit ops d in (Inl e # rs, d'))
      | Inr es \<Rightarrow> (let (rs, d') = spec_run limit ops (d(op_kind op := es)) in (Inr () # rs, d')))"

fun backend_op :: "'st backend \<Rightarrow> mem_op \<Rightarrow> 'st \<Rightarrow> unit result \<times> 'st" where
  "backend_op B (Add k c) st = b_add B k c st"
| "backend_op B (Replace k old c) st = b_replace B k old c st"
| "backend_op B (Remove k old) st = b_remove B k old st"

fun backend_run :: "'st backend \<Rightarrow> mem_op list \<Rightarrow> 'st \<Rightarrow> unit result list \<times> 'st" where
  "backend_run B [] st = ([], st)"
| "backend_run B (op # ops) st =
     (let (r, st1) = backend_op B op st; (rs, st2) = backend_run B ops st1 in (r # rs, st2))"

lemma spec_op_within:
  assumes "\<forall>k. total_of (d k) \<le> limit k" and "spec_op limit op d = Inr es"
  shows "total_of es \<le> limit (op_kind op)"
  using assms spec_within_limit [of "d (op_kind op)" "limit (op_kind op)"]
  by (cases op) (simp_all only: spec_op.simps op_kind.simps)

lemma spec_run_within:
  assumes "\<forall>k. total_of (d k) \<le> limit k" and "spec_run limit ops d = (rs, d')"
  shows "\<forall>k. total_of (d' k) \<le> limit k"
  using assms
proof (induction ops arbitrary: d rs)
  case (Cons op ops)
  show ?case
  proof (cases "spec_op limit op d")
    case (Inl e)
    with Cons.prems(2) have "spec_run limit ops d = (tl rs, d')"
      by (auto split: prod.splits)
    then show ?thesis by (rule Cons.IH [OF Cons.prems(1)])
  next
    case (Inr es)
    with Cons.prems(2) have "spec_run limit ops (d(op_kind op := es)) = (tl rs, d')"
      by (auto split: prod.splits)
    moreover have "\<forall>k. total_of ((d(op_kind op := es)) k) \<le> limit k"
      using Cons.prems(1) spec_op_within [OF Cons.prems(1) Inr] by simp
    ultimately show ?thesis by (rule Cons.IH [rotated])
  qed
qed simp

locale memory_backend =
  fixes B :: "'st backend" and ok :: "'st \<Rightarrow> bool"
  assumes stored_tidy: "ok st \<Longrightarrow> \<exists>es. b_entries B k st = Inr es \<and> list_all tidy es"
    and add_implements: "ok st \<Longrightarrow> plain c \<Longrightarrow> b_entries B k st = Inr es \<Longrightarrow>
      implements B ok k st (spec_add (b_char_limit B k) c es) (b_add B k c st)"
    and replace_implements: "ok st \<Longrightarrow> plain c \<Longrightarrow> b_entries B k st = Inr es \<Longrightarrow>
      implements B ok k st (spec_replace (b_char_limit B k) old c es) (b_replace B k old c st)"
    and remove_implements: "ok st \<Longrightarrow> b_entries B k st = Inr es \<Longrightarrow>
      implements B ok k st (spec_remove old es) (b_remove B k old st)"
begin

definition shows_doc :: "'st \<Rightarrow> (kind \<Rightarrow> pystr list) \<Rightarrow> bool" where
  "shows_doc st d \<longleftrightarrow> ok st \<and> (\<forall>k. b_entries B k st = Inr (d k))"

lemma shows_doc_exists: "ok st \<Longrightarrow> \<exists>d. shows_doc st d"
  unfolding shows_doc_def using stored_tidy by meson

lemma op_implements:
  assumes "shows_doc st d" and "plain_op op"
  shows "implements B ok (op_kind op) st (spec_op (b_char_limit B) op d) (backend_op B op st)"
  using assms add_implements replace_implements remove_implements
  by (cases op) (auto simp: shows_doc_def)

lemma op_step:
  assumes "shows_doc st d" and "plain_op op" and "backend_op B op st = (r, st')"
  shows "case spec_op (b_char_limit B) op d of
      Inl e \<Rightarrow> r = Inl e \<and> st' = st
    | Inr es \<Rightarrow> r = Inr () \<and> shows_doc st' (d(op_kind op := es))"
  using op_implements [OF assms(1,2)] assms
  by (auto simp: implements_def shows_doc_def split: sum.splits)

lemma run_refines:
  assumes "shows_doc st d" and "list_all plain_op ops"
    and "backend_run B ops st = (rs, st')" and "spec_run (b_char_limit B) ops d = (rs', d')"
  shows "rs = rs' \<and> shows_doc st' d'"
  using assms
proof (induction ops arbitrary: st d rs rs')
  case (Cons op ops)
  obtain r st1 where op: "backend_op B op st = (r, st1)" by (cases "backend_op B op st")
  obtain rs1 where run: "backend_run B ops st1 = (rs1, st')" and rs: "rs = r # rs1"
    using Cons.prems(3) op by (auto split: prod.splits)
  have "plain_op op" "list_all plain_op ops"
    using Cons.prems(2) by simp_all
  note step = op_step [OF Cons.prems(1) this(1) op]
  show ?case
  proof (cases "spec_op (b_char_limit B) op d")
    case (Inl e)
    then obtain rs2 where "spec_run (b_char_limit B) ops d = (rs2, d')" "rs' = Inl e # rs2"
      using Cons.prems(4) by (auto split: prod.splits)
    with Cons.IH [OF _ \<open>list_all plain_op ops\<close> run] Cons.prems(1) step Inl rs
    show ?thesis by auto
  next
    case (Inr es)
    then obtain rs2 where "spec_run (b_char_limit B) ops (d(op_kind op := es)) = (rs2, d')"
      "rs' = Inr () # rs2"
      using Cons.prems(4) by (auto split: prod.splits)
    with Cons.IH [OF _ \<open>list_all plain_op ops\<close> run] step Inr rs
    show ?thesis by auto
  qed
qed simp

lemma run_within_limit:
  assumes "shows_doc st d" and "list_all plain_op ops" and "\<forall>k. total_of (d k) \<le> b_char_limit B k"
    and "backend_run B ops st = (rs, st')"
  shows "\<exists>d'. shows_doc st' d' \<and> (\<forall>k. total_of (d' k) \<le> b_char_limit B k)"
proof -
  obtain rs' d' where run: "spec_run (b_char_limit B) ops d = (rs', d')" by fastforce
  with run_refines [OF assms(1,2,4) run] spec_run_within [OF assms(3) run] show ?thesis by blast
qed

end

end
