(* ===== verification/Memory_Store.thy ===== *)
theory Memory_Store
  imports Memory_Spec Py_Values
begin

text \<open>
  \<open>memory/store.py\<close> and \<open>agent/backends/memory_local.py\<close>: \<open>MEMORY.md\<close> and \<open>USER.md\<close> as
  files.  A file is its bytes; reading decodes UTF-8 and translates line ends, writing
  truncates the file first, so that a text that cannot be encoded leaves it empty.  The
  exception \<open>MemoryFull\<close> carries the current size and the limit.
\<close>

subsection \<open>Text files\<close>

fun newlines_after :: "bool \<Rightarrow> pystr \<Rightarrow> pystr" where
  "newlines_after cr [] = []"
| "newlines_after cr (c # s) =
     (if c = 13 then 10 # newlines_after True s
      else if c = 10 \<and> cr then newlines_after False s
      else c # newlines_after False s)"

definition universal_newlines :: "pystr \<Rightarrow> pystr" where
  "universal_newlines s = newlines_after False s"

definition read_text :: "bytes \<Rightarrow> pystr result" where
  "read_text f = bind_result (utf8_decode f) (\<lambda>s. Inr (universal_newlines s))"

definition write_text :: "pystr \<Rightarrow> unit result \<times> bytes" where
  "write_text s = (case utf8_encode s of Inl e \<Rightarrow> (Inl e, []) | Inr b \<Rightarrow> (Inr (), b))"

lemma universal_newlines_id: "13 \<notin> set s \<Longrightarrow> universal_newlines s = s"
  unfolding universal_newlines_def by (induction s) auto

lemma read_written:
  assumes "list_all scalar s" and "13 \<notin> set s"
  shows "\<exists>b. write_text s = (Inr (), b) \<and> read_text b = Inr s"
proof -
  obtain b where b: "utf8_encode s = Inr b"
    using assms(1) by (auto simp: utf8_encode_def scalar_def list_all_iff list_ex_iff)
  moreover have "utf8_decode b = Inr s"
    using assms(1) by (intro utf8_roundtrip b) (simp add: list_all_iff scalar_def)
  ultimately show ?thesis
    using assms(2) by (simp add: write_text_def read_text_def universal_newlines_id)
qed

subsection \<open>MemoryStore\<close>

record store =
  md_file :: bytes
  char_limit :: nat
  label :: pystr

definition for_memory :: "bytes \<Rightarrow> store" where
  "for_memory f = \<lparr>md_file = f, char_limit = MEMORY_CHAR_LIMIT, label = codes ''MEMORY''\<rparr>"

definition for_user :: "bytes \<Rightarrow> store" where
  "for_user f = \<lparr>md_file = f, char_limit = USER_PROFILE_CHAR_LIMIT, label = codes ''USER PROFILE''\<rparr>"

definition store_entries :: "store \<Rightarrow> pystr list result" where
  "store_entries st =
     bind_result (read_text (md_file st)) (\<lambda>text.
       let raw = strip text in Inr (if raw = [] then [] else cut_entries raw))"

definition store_total_chars :: "store \<Rightarrow> nat result" where
  "store_total_chars st = bind_result (store_entries st) (\<lambda>es. Inr (total_of es))"

definition store_save :: "pystr list \<Rightarrow> store \<Rightarrow> unit result \<times> store" where
  "store_save es st =
     (let text = join_entries es;
          (r, f) = write_text (if text \<noteq> [] then text @ [10] else [])
      in (r, st\<lparr>md_file := f\<rparr>))"

definition store_add :: "pystr \<Rightarrow> store \<Rightarrow> unit result \<times> store" where
  "store_add content st =
     (case check_entry content of
        Inl e \<Rightarrow> (Inl e, st)
      | Inr _ \<Rightarrow>
          (case store_entries st of
             Inl e \<Rightarrow> (Inl e, st)
           | Inr existing \<Rightarrow>
               (if content \<in> set existing then (Inr (), st)
                else
                  (let new_total = total_of existing + length content +
                         (if existing \<noteq> [] then length ENTRY_DELIMITER else 0)
                   in if new_total > char_limit st
                      then (Inl (MemoryFull (total_of existing) (char_limit st)), st)
                      else store_save (existing @ [content]) st))))"

definition store_replace :: "pystr \<Rightarrow> pystr \<Rightarrow> store \<Rightarrow> unit result \<times> store" where
  "store_replace old new_content st =
     (case check_entry new_content of
        Inl e \<Rightarrow> (Inl e, st)
      | Inr _ \<Rightarrow>
          (case store_entries st of
             Inl e \<Rightarrow> (Inl e, st)
           | Inr es \<Rightarrow>
               (case matches old es of
                  [] \<Rightarrow> (Inl ValueError, st)
                | i # js \<Rightarrow>
                    (if js \<noteq> [] then (Inl ValueError, st)
                     else
                       (let es' = es[i := new_content]; total = total_of es'
                        in if total > char_limit st
                           then (Inl (MemoryFull total (char_limit st)), st)
                           else store_save es' st)))))"

definition store_remove :: "pystr \<Rightarrow> store \<Rightarrow> unit result \<times> store" where
  "store_remove old st =
     (case store_entries st of
        Inl e \<Rightarrow> (Inl e, st)
      | Inr es \<Rightarrow>
          (case matches old es of
             [] \<Rightarrow> (Inl ValueError, st)
           | i # js \<Rightarrow>
               (if js \<noteq> [] then (Inl ValueError, st) else store_save (pop_at i es) st)))"

text \<open>
  \<open>render_block\<close>.  The percentage \<open>round(chars / limit * 100)\<close> is a floating point
  computation: \<open>pct\<close> is the function that yields it.
\<close>

definition render_block :: "(nat \<Rightarrow> nat \<Rightarrow> nat) \<Rightarrow> store \<Rightarrow> pystr result" where
  "render_block pct st =
     bind_result (store_entries st) (\<lambda>es.
       if es = [] then Inr []
       else
         (let chars = total_of es;
              rule = replicate 46 9552;
              num = (\<lambda>n. codes (digits n))
          in Inr (rule @ [10] @ label st @ codes '' ['' @ num (pct chars (char_limit st)) @
               codes ''% '' @ [8212] @ codes '' '' @ num chars @ codes ''/'' @ num (char_limit st) @
               codes '' chars]'' @ [10] @ rule @ [10] @ join_entries es)))"

subsection \<open>The local backend\<close>

record local_memory =
  memory_md :: bytes
  user_md :: bytes

fun store_for :: "kind \<Rightarrow> local_memory \<Rightarrow> store" where
  "store_for Memory m = for_memory (memory_md m)"
| "store_for User m = for_user (user_md m)"

fun put_file :: "kind \<Rightarrow> bytes \<Rightarrow> local_memory \<Rightarrow> local_memory" where
  "put_file Memory f m = m\<lparr>memory_md := f\<rparr>"
| "put_file User f m = m\<lparr>user_md := f\<rparr>"

definition on_store ::
  "(store \<Rightarrow> unit result \<times> store) \<Rightarrow> kind \<Rightarrow> local_memory \<Rightarrow> unit result \<times> local_memory"
where
  "on_store op k m = (let (r, s) = op (store_for k m) in (r, put_file k (md_file s) m))"

definition local_get :: "kind \<Rightarrow> local_memory \<Rightarrow> pystr result" where
  "local_get k m = bind_result (store_entries (store_for k m)) (\<lambda>es. Inr (join_entries es))"

definition local_backend :: "local_memory backend" where
  "local_backend =
     \<lparr>b_entries = (\<lambda>k m. store_entries (store_for k m)),
      b_char_limit = (\<lambda>k. case k of Memory \<Rightarrow> MEMORY_CHAR_LIMIT | User \<Rightarrow> USER_PROFILE_CHAR_LIMIT),
      b_add = (\<lambda>k c. on_store (store_add c) k),
      b_replace = (\<lambda>k old c. on_store (store_replace old c) k),
      b_remove = (\<lambda>k old. on_store (store_remove old) k)\<rparr>"

subsection \<open>What a saved store reads back\<close>

definition saved :: "pystr list \<Rightarrow> store \<Rightarrow> bool" where
  "saved es st \<longleftrightarrow> list_all tidy es \<and>
     read_text (md_file st) = Inr (if es = [] then [] else join_entries es @ [10])"

lemma scalar_join: "list_all tidy es \<Longrightarrow> list_all scalar (join_entries es) \<and> 13 \<notin> set (join_entries es)"
  using set_join_entries [of es]
  by (fastforce simp: list_all_iff tidy_def plain_def scalar_def surrogate_def)

lemma saved_entries: "saved es st \<Longrightarrow> store_entries st = Inr es"
  using stripped_join [of es] cut_join [of es] join_entries_eq_Nil [of es]
  by (auto simp: saved_def store_entries_def strip_eq_Nil [of "[]"] simp del: strip_eq_Nil
      split: if_splits)

lemma store_save_tidy:
  assumes "list_all tidy es"
  shows "\<exists>f. store_save es st = (Inr (), st\<lparr>md_file := f\<rparr>) \<and> saved es (st\<lparr>md_file := f\<rparr>)"
proof -
  let ?text = "if join_entries es \<noteq> [] then join_entries es @ [10] else []"
  have "list_all scalar ?text \<and> 13 \<notin> set ?text"
    using scalar_join [OF assms] by (simp add: scalar_def surrogate_def)
  then obtain b where "write_text ?text = (Inr (), b)" "read_text b = Inr ?text"
    using read_written by blast
  then show ?thesis
    using assms join_entries_eq_Nil [OF assms]
    by (intro exI [of _ b]) (auto simp: store_save_def saved_def)
qed

text \<open>Each operation on a saved store follows the abstract one.\<close>

definition store_follows :: "store \<Rightarrow> pystr list result \<Rightarrow> unit result \<times> store \<Rightarrow> bool" where
  "store_follows st spec out \<longleftrightarrow>
     (case spec of
        Inl e \<Rightarrow> out = (Inl e, st)
      | Inr es \<Rightarrow> \<exists>f. out = (Inr (), st\<lparr>md_file := f\<rparr>) \<and> saved es (st\<lparr>md_file := f\<rparr>))"

lemma store_add_follows:
  assumes "saved es st" and "plain c"
  shows "store_follows st (spec_add (char_limit st) c es) (store_add c st)"
proof (cases "check_entry c")
  case (Inl e)
  then show ?thesis by (simp add: store_follows_def spec_add_def store_add_def)
next
  case (Inr x)
  then have t: "list_all tidy (es @ [c])"
    using assms check_entry_tidy [of c] by (simp add: saved_def)
  show ?thesis
  proof (cases "c \<in> set es")
    case True
    have "st = st\<lparr>md_file := md_file st\<rparr>" by simp
    with True assms(1) Inr show ?thesis
      by (auto simp: store_follows_def spec_add_def store_add_def saved_entries [OF assms(1)]
          intro!: exI [of _ "md_file st"])
  next
    case False
    then show ?thesis
      using store_save_tidy [OF t, of st] Inr
      by (auto simp: store_follows_def spec_add_def store_add_def saved_entries [OF assms(1)]
          total_of_snoc Let_def)
  qed
qed

lemma store_replace_follows:
  assumes "saved es st" and "plain c"
  shows "store_follows st (spec_replace (char_limit st) old c es) (store_replace old c st)"
proof (cases "check_entry c")
  case (Inl e)
  then show ?thesis by (simp add: store_follows_def spec_replace_def store_replace_def)
next
  case (Inr x)
  have "list_all tidy (es[i := c])" for i
    using assms Inr check_entry_tidy [of c] set_update_subset_insert [of es i c]
    by (auto simp: saved_def list_all_iff)
  then show ?thesis
    using store_save_tidy Inr
    by (auto simp: store_follows_def spec_replace_def store_replace_def saved_entries [OF assms(1)]
        Let_def split: list.splits)
qed

lemma store_remove_follows:
  assumes "saved es st"
  shows "store_follows st (spec_remove old es) (store_remove old st)"
proof -
  have "list_all tidy (pop_at i es)" for i
    using assms set_pop_at [of i es] by (auto simp: saved_def list_all_iff)
  then show ?thesis
    using store_save_tidy
    by (auto simp: store_follows_def spec_remove_def store_remove_def saved_entries [OF assms]
        split: list.splits)
qed

subsection \<open>The local backend keeps the contract\<close>

definition local_ok :: "local_memory \<Rightarrow> bool" where
  "local_ok m \<longleftrightarrow> (\<exists>es. saved es (store_for Memory m)) \<and> (\<exists>es. saved es (store_for User m))"

lemma local_ok_saved:
  "local_ok m \<Longrightarrow> store_entries (store_for k m) = Inr es \<Longrightarrow> saved es (store_for k m)"
  using saved_entries by (cases k) (auto simp: local_ok_def)

lemma saved_cong: "md_file s = md_file s' \<Longrightarrow> saved es s = saved es s'"
  by (simp add: saved_def)

lemma store_entries_cong: "md_file s = md_file s' \<Longrightarrow> store_entries s = store_entries s'"
  by (simp add: store_entries_def)

lemma store_for_put_file [simp]:
  "md_file (store_for k (put_file k f m)) = f"
  "k' \<noteq> k \<Longrightarrow> store_for k' (put_file k f m) = store_for k' m"
  "put_file k (md_file (store_for k m)) m = m"
  by (cases k; cases k'; simp add: for_memory_def for_user_def)+

lemma on_store_implements:
  assumes "local_ok m" and "store_follows (store_for k m) spec (op (store_for k m))"
  shows "implements local_backend local_ok k m spec (on_store op k m)"
proof (cases spec)
  case (Inl e)
  with assms show ?thesis by (simp add: implements_def store_follows_def on_store_def)
next
  case (Inr es)
  with assms obtain f where
    f: "op (store_for k m) = (Inr (), (store_for k m)\<lparr>md_file := f\<rparr>)"
      "saved es ((store_for k m)\<lparr>md_file := f\<rparr>)"
    by (auto simp: store_follows_def)
  then have s: "saved es (store_for k (put_file k f m))"
    using saved_cong [of "(store_for k m)\<lparr>md_file := f\<rparr>" "store_for k (put_file k f m)"] by simp
  moreover have "local_ok (put_file k f m)"
    using s assms(1) by (cases k) (auto simp: local_ok_def)
  ultimately show ?thesis
    using f Inr saved_entries [OF s] by (simp add: implements_def on_store_def local_backend_def)
qed

lemma store_for_limit: "char_limit (store_for k m) = b_char_limit local_backend k"
  by (cases k) (simp_all add: for_memory_def for_user_def local_backend_def)

lemma local_backend_entries: "b_entries local_backend k m = store_entries (store_for k m)"
  by (simp add: local_backend_def)

interpretation local_memory: memory_backend local_backend local_ok
proof
  fix st k
  assume "local_ok st"
  then show "\<exists>es. b_entries local_backend k st = Inr es \<and> list_all tidy es"
    using saved_entries by (cases k) (fastforce simp: local_ok_def local_backend_def saved_def)+
next
  fix st k es c
  assume "local_ok st" "plain c" "b_entries local_backend k st = Inr es"
  then show "implements local_backend local_ok k st
      (spec_add (b_char_limit local_backend k) c es) (b_add local_backend k c st)"
    using on_store_implements [of st k _ "store_add c"] store_add_follows [of es "store_for k st" c]
    by (simp add: store_for_limit local_ok_saved local_backend_def)
next
  fix st k es c old
  assume "local_ok st" "plain c" "b_entries local_backend k st = Inr es"
  then show "implements local_backend local_ok k st
      (spec_replace (b_char_limit local_backend k) old c es) (b_replace local_backend k old c st)"
    using on_store_implements [of st k _ "store_replace old c"]
      store_replace_follows [of es "store_for k st" c old]
    by (simp add: store_for_limit local_ok_saved local_backend_def)
next
  fix st k es old
  assume "local_ok st" "b_entries local_backend k st = Inr es"
  then show "implements local_backend local_ok k st
      (spec_remove old es) (b_remove local_backend k old st)"
    using on_store_implements [of st k _ "store_remove old"]
      store_remove_follows [of es "store_for k st" old]
    by (simp add: local_ok_saved local_backend_def)
qed

lemma local_shows_empty: "local_memory.shows_doc \<lparr>memory_md = [], user_md = []\<rparr> (\<lambda>_. [])"
proof -
  let ?m = "\<lparr>memory_md = [], user_md = []\<rparr>"
  have sv: "saved [] (store_for k ?m)" for k
    by (cases k) (simp_all add: saved_def for_memory_def for_user_def read_text_def
        utf8_decode_def universal_newlines_def)
  then have "local_ok ?m"
    unfolding local_ok_def by blast
  moreover have "b_entries local_backend k ?m = Inr []" for k
    using saved_entries [OF sv] by (simp only: local_backend_entries)
  ultimately show ?thesis
    by (simp only: local_memory.shows_doc_def simp_thms)
qed

subsection \<open>Entries that hold the section sign\<close>

definition section_signs :: "nat \<Rightarrow> pystr" where
  "section_signs n = join_by [167] (replicate n [120])"

lemma section_signs_Suc: "section_signs (Suc (Suc n)) = [120] @ 167 # section_signs (Suc n)"
  by (simp add: section_signs_def)

lemma section_signs_facts:
  "set (section_signs (Suc n)) \<subseteq> {120, 167} \<and> length (section_signs (Suc n)) = 2 * n + 1 \<and>
   hd (section_signs (Suc n)) = 120 \<and> last (section_signs (Suc n)) = 120 \<and>
   cut_entries (section_signs (Suc n)) = replicate (Suc n) [120]"
proof (induction n)
  case 0
  show ?case
    by (simp add: section_signs_def cut_entries_single) (simp add: strip_def lstrip_def rstrip_def is_space_def)
next
  case (Suc n)
  have x: "strip [120] = [120]"
    by (rule strip_stripped) (simp add: stripped_def is_space_def)
  have "cut_entries ([120] @ 167 # section_signs (Suc n)) = [120] # cut_entries (section_signs (Suc n))"
    by (subst cut_entries_append) (simp_all add: x del: strip_eq_Nil append_Cons)
  moreover have "section_signs (Suc n) \<noteq> []"
    using Suc by auto
  ultimately show ?case
    using Suc by (simp add: section_signs_Suc)
qed

lemma section_signs_safe: "\<not> harmful (section_signs (Suc n))"
proof
  let ?s = "section_signs (Suc n)"
  have s: "set ?s \<subseteq> {120, 167}"
    using section_signs_facts by blast
  assume "harmful ?s"
  moreover have "\<not> list_ex invisible ?s"
    using s by (auto simp: list_ex_iff invisible_def)
  ultimately obtain p a w b where p: "p \<in> set injection_patterns" "?s = a @ w @ b" "lang p w"
    by (auto simp: harmful_def)
  then have "w \<noteq> [] \<and> (ci_match 105 (hd w) \<or> ci_match 115 (hd w) \<or> ci_match 60 (hd w))"
    by (auto simp: injection_patterns_def lits_def dest!: lang_starts)
  moreover have "set w \<subseteq> {120, 167}"
    using s p(2) by auto
  ultimately have "hd w = 120 \<or> hd w = 167" "ci_match 105 (hd w) \<or> ci_match 115 (hd w) \<or> ci_match 60 (hd w)"
    using hd_in_set [of w] by blast+
  then show False
    by (auto simp: ci_match_def lower_code_def)
qed

subsection \<open>Properties\<close>

text \<open>
  C10. The local memory backend refines the abstract one: from empty files, any sequence of
  \<open>add\<close>, \<open>replace\<close> and \<open>remove\<close> with plain contents has exactly the outcomes of the abstract
  operations, the files read back the abstract entries, and both documents stay within their
  character limits.
\<close>

theorem local_memory_refines_spec:
  assumes "list_all plain_op ops"
    and "backend_run local_backend ops \<lparr>memory_md = [], user_md = []\<rparr> = (rs, m)"
    and "spec_run (b_char_limit local_backend) ops (\<lambda>_. []) = (rs', d)"
  shows "rs = rs' \<and> (\<forall>k. store_entries (store_for k m) = Inr (d k) \<and>
     total_of (d k) \<le> char_limit (store_for k m))"
proof -
  note run = local_memory.run_refines [OF local_shows_empty assms]
  have "\<forall>k. total_of (d k) \<le> b_char_limit local_backend k"
    by (rule spec_run_within [OF _ assms(3)]) (simp add: total_of_def)
  with run show ?thesis
    by (simp only: local_memory.shows_doc_def store_for_limit local_backend_entries simp_thms)
qed

theorem local_memory_refines_spec_witness:
  "\<exists>m. backend_run local_backend [Add Memory (codes ''a''), Add Memory (codes ''a'')]
       \<lparr>memory_md = [], user_md = []\<rparr> = ([Inr (), Inr ()], m) \<and>
     store_entries (store_for Memory m) = Inr [codes ''a'']"
proof -
  let ?ops = "[Add Memory (codes ''a''), Add Memory (codes ''a'')]"
  obtain rs m where run: "backend_run local_backend ?ops \<lparr>memory_md = [], user_md = []\<rparr> = (rs, m)"
    by fastforce
  have "plain (codes ''a'')"
    by (simp add: plain_def stripped_def is_space_def scalar_def surrogate_def)
  then have ok: "list_all plain_op ?ops" by simp
  have e: "check_entry (codes ''a'') = Inr ()"
    by (simp add: check_entry_def is_space_def check_untrusted_def invisible_def
        injection_patterns_def lits_def match_by_rewriting del: match_at.simps(3,5,7) search.simps(2))
  have s: "spec_run (b_char_limit local_backend) ?ops (\<lambda>_. [])
      = ([Inr (), Inr ()], (\<lambda>_. [])(Memory := [codes ''a'']))"
    using e by (simp add: spec_add_def total_of_def local_backend_def MEMORY_CHAR_LIMIT_def)
  show ?thesis
    using local_memory_refines_spec [OF ok run s] run by (metis fun_upd_same)
qed

text \<open>
  The character limit does not bound documents in general: an entry made of \<open>n\<close>
  letters separated by section signs has \<open>2n - 1\<close> characters and is accepted, and the stored
  document then reads back as \<open>n\<close> entries with \<open>4n - 3\<close> characters.
\<close>

theorem section_signs_exceed_limit:
  assumes "md_file st = []" and "2 * n + 1 \<le> char_limit st"
  shows "\<exists>st'. store_add (section_signs (Suc n)) st = (Inr (), st') \<and>
     store_entries st' = Inr (replicate (Suc n) [120]) \<and> store_total_chars st' = Inr (4 * n + 1)"
proof -
  let ?s = "section_signs (Suc n)"
  have f: "set ?s \<subseteq> {120, 167}" "length ?s = 2 * n + 1" "hd ?s = 120" "last ?s = 120"
    "cut_entries ?s = replicate (Suc n) [120]"
    using section_signs_facts [of n] by simp_all
  have ne: "?s \<noteq> []"
    using f(2) by auto
  have st: "stripped ?s"
    using f ne by (simp add: stripped_def is_space_def)
  have "check_entry ?s = Inr ()"
    using strip_ne [OF st ne] section_signs_safe [of n] ne
    by (simp add: check_entry_ok del: strip_eq_Nil)
  moreover have "store_entries st = Inr []"
    using assms(1) by (simp add: store_entries_def read_text_def utf8_decode_def
        universal_newlines_def)
  moreover have "list_all scalar (?s @ [10]) \<and> 13 \<notin> set (?s @ [10])"
    using f(1) by (auto simp: list_all_iff scalar_def surrogate_def)
  then obtain b where b: "write_text (?s @ [10]) = (Inr (), b)" "read_text b = Inr (?s @ [10])"
    using read_written by blast
  ultimately have add: "store_add ?s st = (Inr (), st\<lparr>md_file := b\<rparr>)"
    using assms(2) f(2) ne by (simp add: store_add_def store_save_def join_entries_def total_of_def)
  have "store_entries (st\<lparr>md_file := b\<rparr>) = Inr (replicate (Suc n) [120])"
    using b(2) strip_ne [OF st ne] f(5) ne by (simp add: store_entries_def Let_def del: strip_eq_Nil)
  then show ?thesis
    using add by (simp add: store_total_chars_def total_of_def ENTRY_DELIMITER_def sum_list_replicate)
qed

theorem section_signs_exceed_limit_witness:
  "\<exists>st'. store_add (section_signs 1100) (for_memory []) = (Inr (), st') \<and>
     store_total_chars st' = Inr 4397 \<and> MEMORY_CHAR_LIMIT < 4397"
  using section_signs_exceed_limit [of "for_memory []" 1099]
  by (auto simp: for_memory_def MEMORY_CHAR_LIMIT_def numeral_eq_Suc [of "Num.num.One"])

text \<open>
  A write is not atomic: adding an acceptable new entry that holds a lone surrogate
  raises \<open>UnicodeEncodeError\<close>, a \<open>ValueError\<close>, after the file has been truncated, and the whole
  document is lost.
\<close>

theorem store_add_surrogate_wipes:
  assumes "store_entries st = Inr es" and "check_entry c = Inr ()" and "c \<notin> set es"
    and "total_of (es @ [c]) \<le> char_limit st" and "list_ex surrogate c"
  shows "store_add c st = (Inl ValueError, st\<lparr>md_file := []\<rparr>) \<and>
     store_entries (st\<lparr>md_file := []\<rparr>) = Inr []"
proof -
  have "set c \<subseteq> set (join_entries (es @ [c]))"
    by (induction es rule: induct_list012) (auto simp: join_entries_def)
  then have "list_ex surrogate (join_entries (es @ [c]))"
    using assms(5) by (auto simp: list_ex_iff)
  moreover from this have "join_entries (es @ [c]) \<noteq> []" by auto
  ultimately have "store_save (es @ [c]) st = (Inl ValueError, st\<lparr>md_file := []\<rparr>)"
    by (simp add: store_save_def write_text_def utf8_encode_def)
  then show ?thesis
    using assms by (simp add: store_add_def total_of_snoc store_entries_def read_text_def
        utf8_decode_def universal_newlines_def split: if_splits)
qed

theorem store_add_surrogate_wipes_witness:
  "store_add [120, 55296] (for_memory (map of_nat [121, 10])) = (Inl ValueError, for_memory []) \<and>
   store_entries (for_memory (map of_nat [121, 10])) = Inr [[121]]"
proof -
  let ?st = "for_memory (map of_nat [121, 10])"
  have es: "store_entries ?st = Inr [[121]]"
    by (simp add: for_memory_def store_entries_def read_text_def utf8_decode_def
        universal_newlines_def cut_entries_def strip_def lstrip_def rstrip_def is_space_def)
  have c: "check_entry [120, 55296] = Inr ()"
    by (simp add: check_entry_def is_space_def check_untrusted_def invisible_def
        injection_patterns_def lits_def match_by_rewriting del: match_at.simps(3,5,7) search.simps(2))
  have "store_add [120, 55296] ?st = (Inl ValueError, ?st\<lparr>md_file := []\<rparr>)"
    using store_add_surrogate_wipes [OF es c]
    by (simp add: total_of_def ENTRY_DELIMITER_def for_memory_def MEMORY_CHAR_LIMIT_def surrogate_def)
  with es show ?thesis by (simp add: for_memory_def)
qed

end
