(* ===== verification/Memory_Repo.thy ===== *)
theory Memory_Repo
  imports Memory_Spec Layered_Tables
begin

text \<open>
  \<open>repositories/memory_repo.py\<close> over the table \<open>user_documents\<close>, and the cloud backend
  \<open>agent/backends/memory_cloud.py\<close> on top of it.  A transaction is the table with the tenant
  GUC; \<open>now()\<close> is an argument.  Postgres refuses NUL and surrogates in a \<open>text\<close> value.
\<close>

subsection \<open>The table\<close>

record user_document =
  ud_user :: uuid
  ud_kind :: string
  ud_agent :: "uuid option"
  ud_content :: pystr
  ud_version :: int
  ud_updated :: int

definition MEMORY_MD_CHAR_LIMIT :: nat where "MEMORY_MD_CHAR_LIMIT = 2400"
definition USER_MD_CHAR_LIMIT :: nat where "USER_MD_CHAR_LIMIT = 1500"

definition doc_limits :: "(string \<times> nat) list" where
  "doc_limits = [(''memory.md'', MEMORY_MD_CHAR_LIMIT), (''user.md'', USER_MD_CHAR_LIMIT)]"

text \<open>From revision \<open>0003_agents\<close> on, \<open>agent_id\<close> is NOT NULL.\<close>

definition doc_row_ok :: "schema_rev \<Rightarrow> user_document \<Rightarrow> bool" where
  "doc_row_ok sch r \<longleftrightarrow> ud_kind r \<in> {''memory.md'', ''user.md''} \<and>
     (sch = Schema_0003 \<longrightarrow> ud_agent r \<noteq> None)"

definition doc_key :: "user_document \<Rightarrow> uuid \<times> string" where
  "doc_key r = (ud_user r, ud_kind r)"

definition docs_ok :: "schema_rev \<Rightarrow> user_document list \<Rightarrow> bool" where
  "docs_ok sch t \<longleftrightarrow> distinct (map doc_key t) \<and> list_all (doc_row_ok sch) t"

definition pg_text :: "pystr \<Rightarrow> bool" where
  "pg_text s \<longleftrightarrow> 0 \<notin> set s \<and> \<not> list_ex surrogate s"

text \<open>
  \<open>INSERT .. ON CONFLICT (user_id, kind) DO UPDATE\<close>: the constraints are checked on the
  proposed row before the conflict is looked for.
\<close>

definition upsert_doc ::
  "schema_rev \<Rightarrow> user_document \<Rightarrow> (user_document \<Rightarrow> user_document) \<Rightarrow> user_document list
     \<Rightarrow> user_document list result"
where
  "upsert_doc sch new upd t =
     (if \<not> doc_row_ok sch new then Inl IntegrityError
      else if list_ex (\<lambda>r. doc_key r = doc_key new) t
        then Inr (map (\<lambda>r. if doc_key r = doc_key new then upd r else r) t)
      else Inr (t @ [new]))"

subsection \<open>MemoryRepo\<close>

definition memory_get ::
  "uuid option \<Rightarrow> string \<Rightarrow> user_document list \<Rightarrow> pystr result"
where
  "memory_get guc kind t =
     (if kind \<notin> fst ` set doc_limits then Inl ValueError
      else bind_result (current_user_id guc) (\<lambda>u.
        bind_result (scalar_one_or_none (filter (\<lambda>r. ud_user r = u \<and> ud_kind r = kind) t))
          (\<lambda>row. Inr (case row of None \<Rightarrow> [] | Some r \<Rightarrow> ud_content r))))"

definition memory_put ::
  "schema_rev \<Rightarrow> int \<Rightarrow> uuid option \<Rightarrow> string \<Rightarrow> pystr \<Rightarrow> user_document list
     \<Rightarrow> user_document list result"
where
  "memory_put sch now guc kind content t =
     (case map_of doc_limits kind of
        None \<Rightarrow> Inl ValueError
      | Some limit \<Rightarrow>
          (if length content > limit then Inl (MemoryFull (length content) limit)
           else bind_result (if content \<noteq> [] then check_untrusted content else Inr ()) (\<lambda>_.
             bind_result (current_user_id guc) (\<lambda>u.
               if \<not> pg_text content then Inl DataError
               else upsert_doc sch
                 \<lparr>ud_user = u, ud_kind = kind, ud_agent = None, ud_content = content,
                  ud_version = 1, ud_updated = now\<rparr>
                 (\<lambda>r. r\<lparr>ud_content := content, ud_version := ud_version r + 1,
                    ud_updated := now\<rparr>) t))))"

text \<open>
  \<open>find_compaction_candidates\<close>; \<open>cutoff\<close> is \<open>int(MEMORY_MD_CHAR_LIMIT * threshold)\<close>, 1920 by
  default.
\<close>

definition find_compaction_candidates ::
  "nat \<Rightarrow> nat \<Rightarrow> user_document list \<Rightarrow> (uuid \<times> uuid option) list"
where
  "find_compaction_candidates cutoff limit t =
     map (\<lambda>r. (ud_user r, ud_agent r)) (take limit (sort_key ud_updated
       (filter (\<lambda>r. ud_kind r = ''memory.md'' \<and> length (ud_content r) > cutoff) t)))"

text \<open>
  The row level security policy \<open>tenant_isolation\<close> of \<open>user_documents\<close>, which is forced.
  An unset tenant GUC is NULL and the comparison with it is not true; an unset agent GUC is
  the empty string, which admits every agent.
\<close>

definition rls_visible :: "uuid option \<Rightarrow> uuid option \<Rightarrow> user_document \<Rightarrow> bool" where
  "rls_visible guc_user guc_agent r \<longleftrightarrow>
     guc_user = Some (ud_user r) \<and> (guc_agent = None \<or> ud_agent r = guc_agent)"

subsection \<open>The cloud backend\<close>

fun kind_doc :: "kind \<Rightarrow> string" where
  "kind_doc Memory = ''memory.md''"
| "kind_doc User = ''user.md''"

fun kind_limit :: "kind \<Rightarrow> nat" where
  "kind_limit Memory = MEMORY_CHAR_LIMIT"
| "kind_limit User = USER_PROFILE_CHAR_LIMIT"

definition split_entries :: "pystr \<Rightarrow> pystr list" where
  "split_entries text = (if text = [] then [] else cut_entries text)"

definition cloud_get :: "uuid \<Rightarrow> kind \<Rightarrow> user_document list \<Rightarrow> pystr result" where
  "cloud_get u k t = memory_get (Some u) (kind_doc k) t"

definition cloud_entries :: "uuid \<Rightarrow> kind \<Rightarrow> user_document list \<Rightarrow> pystr list result" where
  "cloud_entries u k t = bind_result (cloud_get u k t) (\<lambda>body. Inr (split_entries body))"

text \<open>A transaction that raises is rolled back.\<close>

definition in_transaction :: "'t \<Rightarrow> 't result \<Rightarrow> unit result \<times> 't" where
  "in_transaction t r = (case r of Inl e \<Rightarrow> (Inl e, t) | Inr t' \<Rightarrow> (Inr (), t'))"

definition cloud_put ::
  "schema_rev \<Rightarrow> int \<Rightarrow> uuid \<Rightarrow> kind \<Rightarrow> pystr list \<Rightarrow> user_document list \<Rightarrow> user_document list result"
where
  "cloud_put sch now u k es t = memory_put sch now (Some u) (kind_doc k) (join_entries es) t"

definition cloud_add ::
  "schema_rev \<Rightarrow> int \<Rightarrow> uuid \<Rightarrow> kind \<Rightarrow> pystr \<Rightarrow> user_document list \<Rightarrow> unit result \<times> user_document list"
where
  "cloud_add sch now u k content t = in_transaction t
     (bind_result (check_entry content) (\<lambda>_.
      bind_result (memory_get (Some u) (kind_doc k) t) (\<lambda>body.
        let entries = split_entries body in
        if content \<in> set entries then Inr t
        else
          (let new_total = total_of entries + length content +
                 (if entries \<noteq> [] then length ENTRY_DELIMITER else 0);
               limit = kind_limit k
           in if new_total > limit then Inl (MemoryFull (total_of entries) limit)
              else cloud_put sch now u k (entries @ [content]) t))))"

definition cloud_replace ::
  "schema_rev \<Rightarrow> int \<Rightarrow> uuid \<Rightarrow> kind \<Rightarrow> pystr \<Rightarrow> pystr \<Rightarrow> user_document list
     \<Rightarrow> unit result \<times> user_document list"
where
  "cloud_replace sch now u k old new t = in_transaction t
     (bind_result (check_entry new) (\<lambda>_.
      bind_result (memory_get (Some u) (kind_doc k) t) (\<lambda>body.
        let entries = split_entries body in
        case matches old entries of
          [] \<Rightarrow> Inl ValueError
        | i # js \<Rightarrow>
            (if js \<noteq> [] then Inl ValueError
             else
               (let entries' = entries[i := new]; limit = kind_limit k
                in if total_of entries' > limit then Inl (MemoryFull (total_of entries') limit)
                   else cloud_put sch now u k entries' t)))))"

definition cloud_remove ::
  "schema_rev \<Rightarrow> int \<Rightarrow> uuid \<Rightarrow> kind \<Rightarrow> pystr \<Rightarrow> user_document list \<Rightarrow> unit result \<times> user_document list"
where
  "cloud_remove sch now u k old t = in_transaction t
     (bind_result (memory_get (Some u) (kind_doc k) t) (\<lambda>body.
        let entries = split_entries body in
        case matches old entries of
          [] \<Rightarrow> Inl ValueError
        | i # js \<Rightarrow>
            (if js \<noteq> [] then Inl ValueError
             else cloud_put sch now u k (pop_at i entries) t)))"

definition cloud_backend :: "schema_rev \<Rightarrow> int \<Rightarrow> uuid \<Rightarrow> user_document list backend" where
  "cloud_backend sch now u =
     \<lparr>b_entries = cloud_entries u, b_char_limit = kind_limit, b_add = cloud_add sch now u,
      b_replace = cloud_replace sch now u, b_remove = cloud_remove sch now u\<rparr>"

subsection \<open>A joined document of safe entries is safe\<close>

fun pat_chars :: "pat list \<Rightarrow> nat list" where
  "pat_chars [] = []"
| "pat_chars (Lit l # ps) = l # pat_chars ps"
| "pat_chars (Optional qs # ps) = pat_chars qs @ pat_chars ps"
| "pat_chars (_ # ps) = pat_chars ps"

lemma pat_chars_append [simp]: "pat_chars (ps @ qs) = pat_chars ps @ pat_chars qs"
  by (induction ps rule: pat_chars.induct) auto

lemma lang_free_of:
  assumes "lang ps w" and "\<not> is_space d" and "\<forall>l \<in> set (pat_chars ps). \<not> ci_match l d"
  shows "d \<notin> set w"
  using assms by (induction rule: lang.induct) (auto simp: list_all_iff)

lemma lang_ends:
  assumes "lang ps w" and "ps = qs @ [Lit l]"
  shows "w \<noteq> [] \<and> ci_match l (last w)"
  using assms
proof (induction arbitrary: qs rule: lang.induct)
  case (lang_lit l' c ps w)
  show ?case
  proof (cases qs)
    case Nil
    with lang_lit show ?thesis by (auto elim: lang_cases)
  next
    case (Cons q qs')
    with lang_lit have "w \<noteq> [] \<and> ci_match l (last w)" by simp
    then show ?thesis by simp
  qed
next
  case (lang_spaces u ps w)
  then obtain qs' where "qs = Spaces # qs'" "ps = qs' @ [Lit l]" by (cases qs) auto
  with lang_spaces show ?case by simp
next
  case (lang_spaces1 u ps w)
  then obtain qs' where "qs = Spaces1 # qs'" "ps = qs' @ [Lit l]" by (cases qs) auto
  with lang_spaces1 show ?case by simp
next
  case (lang_with qs1 ps w)
  then obtain qs' where "ps = qs' @ [Lit l]" by (cases qs) auto
  with lang_with.IH [of "qs1 @ qs'"] show ?case by simp
next
  case (lang_without ps w qs1)
  then obtain qs' where "ps = qs' @ [Lit l]" by (cases qs) auto
  with lang_without.IH show ?case by simp
qed simp

lemma ci_match_not_space: "ci_match l c \<Longrightarrow> l \<in> set [105, 115, 60, 101, 62] \<Longrightarrow> \<not> is_space c"
  by (auto simp: ci_match_def lower_code_def is_space_def split: if_splits)

lemma injection_word:
  assumes "p \<in> set injection_patterns" and "lang p w"
  shows "w \<noteq> [] \<and> \<not> is_space (hd w) \<and> \<not> is_space (last w) \<and> 167 \<notin> set w"
proof -
  obtain l ps where l: "p = Lit l # ps" "l \<in> {105, 115, 60}"
    using assms(1) by (auto simp: injection_patterns_def lits_def)
  have "\<exists>qs l'. p = qs @ [Lit l'] \<and> l' \<in> {115, 101, 62}"
    using assms(1)
    by (elim in_set_conv_nth [THEN iffD1, THEN exE])
      (auto simp: injection_patterns_def lits_def less_Suc_eq
        intro: exI [of _ "butlast p"])
  then obtain qs l' where l': "p = qs @ [Lit l']" "l' \<in> {115, 101, 62}" by blast
  have "w \<noteq> [] \<and> ci_match l (hd w)"
    using lang_starts assms(2) l(1) by blast
  moreover have "ci_match l' (last w)"
    using lang_ends [OF assms(2) l'(1)] by blast
  moreover have "167 \<notin> set w"
    using assms by (intro lang_free_of [OF assms(2)])
      (auto simp: injection_patterns_def lits_def ci_match_def lower_code_def is_space_def)
  ultimately show ?thesis
    using ci_match_not_space l(2) l'(2) by auto
qed

lemma word_left_or_right:
  assumes "x @ w @ y = a @ d # b" and "w \<noteq> []" and "d \<notin> set w"
  shows "(\<exists>x' y'. a = x' @ w @ y') \<or> (\<exists>x' y'. b = x' @ w @ y')"
proof -
  consider us where "x = a @ us" "us @ w @ y = d # b" | us where "a = x @ us" "us @ d # b = w @ y"
    using append_eq_append_conv2 [of x "w @ y" a "d # b"] assms(1) by metis
  then show ?thesis
  proof cases
    case (1 us)
    then show ?thesis using assms(2,3) by (cases us; cases w) auto
  next
    case (2 us)
    then consider vs where "w = us @ vs" "vs @ y = d # b" | vs where "us = w @ vs"
      using append_eq_append_conv2 [of us "d # b" w y] by metis
    then show ?thesis
    proof cases
      case (1 vs)
      with 2 assms(3) have "vs = []" by (cases vs) auto
      with 1 2 have "a = x @ w @ []" by simp
      then show ?thesis by blast
    qed (use 2 in auto)
  qed
qed

lemma harmful_section_sign: "harmful (a @ 167 # b) \<Longrightarrow> harmful a \<or> harmful b"
proof -
  assume "harmful (a @ 167 # b)"
  then consider "list_ex invisible (a @ b)"
    | p x w y where "p \<in> set injection_patterns" "x @ w @ y = a @ 167 # b" "lang p w"
    by (auto simp: harmful_def invisible_def)
  then show ?thesis
  proof cases
    case 2
    then show ?thesis
      using word_left_or_right [OF 2(2)] injection_word [OF 2(1,3)]
      unfolding harmful_def by blast
  qed (auto simp: harmful_def)
qed

lemma harmful_newline: "harmful (s @ [10]) \<Longrightarrow> harmful s" "harmful (10 # s) \<Longrightarrow> harmful s"
proof -
  have inv: "\<not> invisible 10" by (simp add: invisible_def)
  show "harmful s" if "harmful (s @ [10])"
  proof (cases "list_ex invisible s")
    case False
    with that inv obtain p x w y where w: "p \<in> set injection_patterns" "s @ [10] = x @ w @ y" "lang p w"
      by (auto simp: harmful_def)
    then have "y \<noteq> []"
      using injection_word [OF w(1,3)] by (metis append_Nil2 is_space_newline last_appendR last_snoc)
    then have "s = x @ w @ butlast y"
      using w(2) by (metis append_assoc butlast_append butlast_snoc)
    with w show ?thesis by (auto simp: harmful_def)
  qed (simp add: harmful_def)
  show "harmful s" if "harmful (10 # s)"
  proof (cases "list_ex invisible s")
    case False
    with that inv obtain p x w y where w: "p \<in> set injection_patterns" "10 # s = x @ w @ y" "lang p w"
      by (auto simp: harmful_def)
    then have "x \<noteq> []"
      using injection_word [OF w(1,3)] by (metis append_Nil hd_append2 is_space_newline list.sel(1))
    then have "s = tl x @ w @ y"
      using w(2) by (metis list.sel(3) tl_append2)
    with w show ?thesis by (auto simp: harmful_def)
  qed (simp add: harmful_def)
qed

lemma harmful_join: "harmful (join_entries es) \<Longrightarrow> \<exists>e \<in> set es. harmful e"
proof (induction es rule: induct_list012)
  case 1
  then show ?case
    by (auto simp: join_entries_def harmful_def dest: injection_word)
next
  case (3 x y zs)
  have "join_entries (x # y # zs) = (x @ [10]) @ 167 # (10 # join_entries (y # zs))"
    by (simp add: join_entries_def ENTRY_DELIMITER_def)
  with 3 have "harmful (x @ [10]) \<or> harmful (10 # join_entries (y # zs))"
    using harmful_section_sign by metis
  with 3 show ?case
    using harmful_newline by (metis list.set_intros)
qed (simp add: join_entries_def)

subsection \<open>The cloud backend keeps the contract\<close>

text \<open>
  The states of the contract, for tenant \<open>u\<close> before revision \<open>0003_agents\<close>: a table that meets
  its constraints, with the tenant's documents joined from tidy entries.
\<close>

definition cloud_doc :: "uuid \<Rightarrow> kind \<Rightarrow> user_document list \<Rightarrow> pystr" where
  "cloud_doc u k t =
     (case filter (\<lambda>r. ud_user r = u \<and> ud_kind r = kind_doc k) t of [] \<Rightarrow> [] | r # _ \<Rightarrow> ud_content r)"

fun doc_limit :: "kind \<Rightarrow> nat" where
  "doc_limit Memory = MEMORY_MD_CHAR_LIMIT"
| "doc_limit User = USER_MD_CHAR_LIMIT"

definition cloud_ok :: "uuid \<Rightarrow> user_document list \<Rightarrow> bool" where
  "cloud_ok u t \<longleftrightarrow> docs_ok Schema_0001 t \<and>
     (\<forall>k. \<exists>es. list_all tidy es \<and> cloud_doc u k t = join_entries es \<and> total_of es \<le> doc_limit k)"

lemma kind_doc_cases: "kind_doc k \<in> fst ` set doc_limits"
  "map_of doc_limits (kind_doc k) = Some (doc_limit k)"
  by (cases k; simp add: doc_limits_def)+

lemma kind_doc_inj [simp]: "kind_doc k = kind_doc k' \<longleftrightarrow> k = k'"
  by (cases k; cases k') auto

lemma docs_le_one:
  assumes "docs_ok sch t"
  shows "length (filter (\<lambda>r. ud_user r = u \<and> ud_kind r = s) t) \<le> 1"
  using assms by (intro filter_same_key_le_one [where P = "\<lambda>_. True" and f = doc_key and k = "(u, s)"])
    (auto simp: docs_ok_def doc_key_def)

lemma cloud_get_doc: "docs_ok sch t \<Longrightarrow> cloud_get u k t = Inr (cloud_doc u k t)"
  by (rule le_one_cases [OF docs_le_one [of sch t u "kind_doc k"]])
    (auto simp: cloud_get_def memory_get_def kind_doc_cases current_user_id_def cloud_doc_def)

lemma split_entries_eq: "split_entries s = cut_entries s"
  by (simp add: split_entries_def)

lemma cloud_entries_ok:
  assumes "cloud_ok u t" and "cloud_entries u k t = Inr es"
  shows "list_all tidy es \<and> cloud_doc u k t = join_entries es \<and>
    memory_get (Some u) (kind_doc k) t = Inr (join_entries es) \<and>
    split_entries (join_entries es) = es \<and> total_of es \<le> doc_limit k"
proof -
  obtain es' where es': "list_all tidy es'" "cloud_doc u k t = join_entries es'"
      "total_of es' \<le> doc_limit k"
    using assms(1) by (auto simp: cloud_ok_def)
  have g: "cloud_get u k t = Inr (cloud_doc u k t)"
    using assms(1) cloud_get_doc by (auto simp: cloud_ok_def)
  have "es = es'"
    using assms(2) g es' cut_join [of es'] by (simp add: cloud_entries_def split_entries_eq)
  then show ?thesis
    using es' g cut_join [of es'] by (simp add: cloud_get_def split_entries_eq)
qed

lemma cloud_doc_Nil: "cloud_doc v k [] = []"
  by (simp add: cloud_doc_def)

lemma cloud_doc_Cons:
  "cloud_doc v k (r # t) = (if doc_key r = (v, kind_doc k) then ud_content r else cloud_doc v k t)"
  by (simp add: cloud_doc_def doc_key_def)

lemma cloud_doc_upserted:
  assumes "doc_row_ok sch new" and "doc_key new = (u, kind_doc k)"
    and upd: "\<And>r. doc_key (upd r) = doc_key r \<and> ud_agent (upd r) = ud_agent r \<and> ud_content (upd r) = ud_content new"
    and "upsert_doc sch new upd t = Inr t'"
  shows "cloud_doc v k' t' = (if (v, k') = (u, k) then ud_content new else cloud_doc v k' t)"
    and "docs_ok sch t \<Longrightarrow> docs_ok sch t'"
proof -
  let ?f = "\<lambda>r. if doc_key r = doc_key new then upd r else r"
  have t': "t' = (if list_ex (\<lambda>r. doc_key r = doc_key new) t then map ?f t else t @ [new])"
    using assms(1,4) by (auto simp: upsert_doc_def split: if_splits)
  have old: "cloud_doc v k' (map ?f t) =
      (if (v, k') = (u, k) \<and> list_ex (\<lambda>r. doc_key r = doc_key new) t then ud_content new
       else cloud_doc v k' t)"
    by (induction t) (auto simp: cloud_doc_Cons cloud_doc_Nil upd assms(2))
  have new: "cloud_doc v k' (t @ [new]) =
      (if (v, k') = (u, k) \<and> \<not> list_ex (\<lambda>r. doc_key r = doc_key new) t then ud_content new
       else cloud_doc v k' t)"
    by (induction t) (auto simp: cloud_doc_Cons cloud_doc_Nil assms(2))
  show "cloud_doc v k' t' = (if (v, k') = (u, k) then ud_content new else cloud_doc v k' t)"
    using old new by (auto simp: t')
  show "docs_ok sch t \<Longrightarrow> docs_ok sch t'"
  proof -
    assume ok: "docs_ok sch t"
    have keys: "map doc_key (map ?f t) = map doc_key t"
      using upd by simp
    have "doc_row_ok sch (upd r) = doc_row_ok sch r" for r
      using upd [of r] by (simp add: doc_row_ok_def doc_key_def)
    then have rows: "list_all (doc_row_ok sch) (map ?f t) = list_all (doc_row_ok sch) t"
      by (induction t) simp_all
    show ?thesis
    proof (cases "list_ex (\<lambda>r. doc_key r = doc_key new) t")
      case True
      then show ?thesis
        using ok keys rows by (simp only: t' docs_ok_def if_True)
    next
      case False
      then show ?thesis
        using ok assms(1) by (auto simp: t' docs_ok_def list_ex_iff)
    qed
  qed
qed

lemma pg_text_join: "list_all tidy es \<Longrightarrow> pg_text (join_entries es)"
  using set_join_entries [of es]
  by (fastforce simp: list_all_iff list_ex_iff pg_text_def tidy_def plain_def scalar_def surrogate_def)

lemma limits_le: "kind_limit k \<le> doc_limit k"
  by (cases k) (simp_all add: MEMORY_CHAR_LIMIT_def USER_PROFILE_CHAR_LIMIT_def
      MEMORY_MD_CHAR_LIMIT_def USER_MD_CHAR_LIMIT_def)

lemma cloud_put_ok:
  assumes "cloud_ok u t" and "list_all tidy es" and "total_of es \<le> doc_limit k"
  shows "\<exists>t'. cloud_put Schema_0001 now u k es t = Inr t' \<and> cloud_ok u t' \<and>
    (\<forall>v k'. cloud_doc v k' t' = (if (v, k') = (u, k) then join_entries es else cloud_doc v k' t))"
proof -
  let ?new = "\<lparr>ud_user = u, ud_kind = kind_doc k, ud_agent = None, ud_content = join_entries es,
     ud_version = 1, ud_updated = now\<rparr>"
  let ?upd = "\<lambda>r. r\<lparr>ud_content := join_entries es, ud_version := ud_version r + 1, ud_updated := now\<rparr>"
  have row: "doc_row_ok Schema_0001 ?new"
    by (cases k) (simp_all add: doc_row_ok_def)
  then obtain t' where t': "upsert_doc Schema_0001 ?new ?upd t = Inr t'"
    by (cases "upsert_doc Schema_0001 ?new ?upd t") (simp_all add: upsert_doc_def split: if_splits)
  have safe: "check_untrusted (join_entries es) = Inr ()"
    using assms(2) harmful_join [of es] by (auto simp: check_untrusted_iff list_all_iff tidy_def)
  have "length (join_entries es) \<le> doc_limit k"
    using assms(3) by (simp only: total_of_join)
  then have put: "cloud_put Schema_0001 now u k es t = Inr t'"
    using t' safe pg_text_join [OF assms(2)]
    by (simp add: cloud_put_def memory_put_def kind_doc_cases current_user_id_def)
  note docs = cloud_doc_upserted [OF row _ _ t', of u k]
  have d: "cloud_doc v k' t' = (if (v, k') = (u, k) then join_entries es else cloud_doc v k' t)"
    for v k' using docs(1) by (simp add: doc_key_def)
  moreover have "docs_ok Schema_0001 t'"
    using docs(2) assms(1) by (simp add: doc_key_def cloud_ok_def)
  ultimately show ?thesis
    using put assms by (auto simp: cloud_ok_def)
qed

text \<open>The tail shared by the three operations: what \<open>cloud_put\<close> leaves implements the edit.\<close>

lemma cloud_put_implements:
  assumes "cloud_ok u t" and "list_all tidy es" and "total_of es \<le> doc_limit k"
  shows "implements (cloud_backend Schema_0001 now u) (cloud_ok u) k t (Inr es)
     (in_transaction t (cloud_put Schema_0001 now u k es t))"
proof -
  obtain t' where t': "cloud_put Schema_0001 now u k es t = Inr t'" "cloud_ok u t'"
    "\<forall>v k'. cloud_doc v k' t' = (if (v, k') = (u, k) then join_entries es else cloud_doc v k' t)"
    using cloud_put_ok [OF assms] by blast
  have ents: "cloud_entries u k' x = Inr (cut_entries (cloud_doc u k' x))" if "cloud_ok u x" for x k'
    using that cloud_get_doc [of Schema_0001 x u k']
    by (simp add: cloud_entries_def cloud_ok_def split_entries_eq)
  show ?thesis
    using t' cut_join [OF assms(2)]
    by (simp add: implements_def in_transaction_def cloud_backend_def ents [OF t'(2)] ents [OF assms(1)])
qed

lemma implements_unchanged:
  assumes "cloud_ok u t" and "cloud_entries u k t = Inr es"
  shows "implements (cloud_backend Schema_0001 now u) (cloud_ok u) k t (Inr es) (Inr (), t)"
  using assms by (simp add: implements_def cloud_backend_def)

lemma implements_raised:
  "implements (cloud_backend sch now u) ok k t (Inl e) (Inl e, t)"
  by (simp add: implements_def)

interpretation cloud_memory: memory_backend "cloud_backend Schema_0001 now u" "cloud_ok u" for now u
proof
  fix st k
  assume ok: "cloud_ok u st"
  then obtain es where "list_all tidy es" "cloud_doc u k st = join_entries es"
    by (auto simp: cloud_ok_def)
  then show "\<exists>es. b_entries (cloud_backend Schema_0001 now u) k st = Inr es \<and> list_all tidy es"
    using cloud_get_doc [of Schema_0001 st u k] cut_join [of es] ok
    by (simp add: cloud_backend_def cloud_entries_def cloud_ok_def split_entries_eq)
next
  fix st k c es
  assume ok: "cloud_ok u st" "plain c" "b_entries (cloud_backend Schema_0001 now u) k st = Inr es"
  then have es: "cloud_entries u k st = Inr es" by (simp add: cloud_backend_def)
  note f = cloud_entries_ok [OF ok(1) es]
  show "implements (cloud_backend Schema_0001 now u) (cloud_ok u) k st
      (spec_add (b_char_limit (cloud_backend Schema_0001 now u) k) c es)
      (b_add (cloud_backend Schema_0001 now u) k c st)"
  proof (cases "check_entry c = Inr () \<and> c \<notin> set es \<and> total_of (es @ [c]) \<le> kind_limit k")
    case True
    then have "list_all tidy (es @ [c])"
      using f check_entry_tidy [OF ok(2)] by simp
    then have "implements (cloud_backend Schema_0001 now u) (cloud_ok u) k st (Inr (es @ [c]))
        (in_transaction st (cloud_put Schema_0001 now u k (es @ [c]) st))"
      using True limits_le [of k] by (intro cloud_put_implements ok(1)) simp_all
    with True f show ?thesis
      by (simp add: spec_add_def cloud_backend_def cloud_add_def total_of_snoc Let_def
          split: if_splits)
  next
    case False
    then show ?thesis
      using f implements_raised implements_unchanged [OF ok(1) es]
      by (cases "check_entry c")
        (auto simp: spec_add_def cloud_backend_def cloud_add_def total_of_snoc in_transaction_def
          Let_def implements_def)
  qed
next
  fix st k c es old
  assume ok: "cloud_ok u st" "plain c" "b_entries (cloud_backend Schema_0001 now u) k st = Inr es"
  then have es: "cloud_entries u k st = Inr es" by (simp add: cloud_backend_def)
  note f = cloud_entries_ok [OF ok(1) es]
  show "implements (cloud_backend Schema_0001 now u) (cloud_ok u) k st
      (spec_replace (b_char_limit (cloud_backend Schema_0001 now u) k) old c es)
      (b_replace (cloud_backend Schema_0001 now u) k old c st)"
  proof (cases "\<exists>i. check_entry c = Inr () \<and> matches old es = [i] \<and> total_of (es[i := c]) \<le> kind_limit k")
    case True
    then obtain i where i: "check_entry c = Inr ()" "matches old es = [i]"
      "total_of (es[i := c]) \<le> kind_limit k" by blast
    then have "list_all tidy (es[i := c])"
      using f check_entry_tidy [OF ok(2)] set_update_subset_insert [of es i c]
      by (auto simp: list_all_iff)
    then have "implements (cloud_backend Schema_0001 now u) (cloud_ok u) k st (Inr (es[i := c]))
        (in_transaction st (cloud_put Schema_0001 now u k (es[i := c]) st))"
      using i limits_le [of k] by (intro cloud_put_implements ok(1)) simp_all
    with i f show ?thesis
      by (simp add: spec_replace_def cloud_backend_def cloud_replace_def Let_def)
  next
    case False
    then show ?thesis
      using f
      by (cases "check_entry c")
        (auto simp: spec_replace_def cloud_backend_def cloud_replace_def in_transaction_def
          Let_def implements_def split: list.splits)
  qed
next
  fix st k es old
  assume ok: "cloud_ok u st" "b_entries (cloud_backend Schema_0001 now u) k st = Inr es"
  then have es: "cloud_entries u k st = Inr es" by (simp add: cloud_backend_def)
  note f = cloud_entries_ok [OF ok(1) es]
  show "implements (cloud_backend Schema_0001 now u) (cloud_ok u) k st
      (spec_remove old es) (b_remove (cloud_backend Schema_0001 now u) k old st)"
  proof (cases "\<exists>i. matches old es = [i]")
    case True
    then obtain i where i: "matches old es = [i]" by blast
    then have "total_of (pop_at i es) \<le> doc_limit k"
      using f total_of_pop_at [OF matches_lt, of i old es] by simp
    moreover have "list_all tidy (pop_at i es)"
      using f set_pop_at [of i es] by (auto simp: list_all_iff)
    ultimately have "implements (cloud_backend Schema_0001 now u) (cloud_ok u) k st
        (Inr (pop_at i es)) (in_transaction st (cloud_put Schema_0001 now u k (pop_at i es) st))"
      by (intro cloud_put_implements ok(1))
    with i f show ?thesis
      by (simp add: spec_remove_def cloud_backend_def cloud_remove_def)
  next
    case False
    then show ?thesis
      using f by (auto simp: spec_remove_def cloud_backend_def cloud_remove_def in_transaction_def
          Let_def implements_def split: list.splits)
  qed
qed

subsection \<open>Properties\<close>

text \<open>
  From revision \<open>0003_agents\<close> on the cloud memory is read-only: \<open>put\<close> never sets
  \<open>agent_id\<close>, the NOT NULL constraint rejects the proposed row even when the document exists,
  and so no operation of the backend ever changes the table.  An \<open>add\<close> of a new acceptable
  entry that fits raises \<open>IntegrityError\<close>.
\<close>

theorem cloud_memory_frozen_by_agents:
  "snd (backend_op (cloud_backend Schema_0003 now u) op t) = t \<and>
   (memory_get (Some u) (kind_doc k) [] = Inr [] \<and> pg_text c \<and> check_entry c = Inr () \<and>
    length c \<le> kind_limit k
    \<longrightarrow> cloud_add Schema_0003 now u k c [] = (Inl IntegrityError, []))"
proof -
  have put: "memory_put Schema_0003 now guc s c t \<noteq> Inr t'" for guc s c t'
    by (auto simp: memory_put_def upsert_doc_def doc_row_ok_def result_eqs split: option.splits if_splits)
  have frozen: "snd (in_transaction t r) = t" if "\<And>t'. r = Inr t' \<Longrightarrow> t' = t" for r
    using that by (cases r) (auto simp: in_transaction_def)
  have "snd (cloud_add Schema_0003 now u k c t) = t" for k c
    unfolding cloud_add_def
    by (rule frozen) (auto simp: cloud_put_def result_eqs Let_def put split: if_split_asm)
  moreover have "snd (cloud_replace Schema_0003 now u k old c t) = t" for k old c
    unfolding cloud_replace_def
    by (rule frozen) (auto simp: cloud_put_def bind_result_eq_Inr Let_def put neq_Nil_conv
      split: if_split_asm list.split_asm)
  moreover have "snd (cloud_remove Schema_0003 now u k old t) = t" for k old
    unfolding cloud_remove_def
    by (rule frozen) (auto simp: cloud_put_def bind_result_eq_Inr Let_def put neq_Nil_conv
      split: if_split_asm list.split_asm)
  ultimately have "snd (backend_op (cloud_backend Schema_0003 now u) op t) = t"
    by (cases op) (simp_all add: cloud_backend_def)
  moreover have "cloud_add Schema_0003 now u k c [] = (Inl IntegrityError, [])"
    if "pg_text c" "check_entry c = Inr ()" "length c \<le> kind_limit k"
  proof -
    have "check_untrusted c = Inr ()" "c \<noteq> []"
      using that(2) by (auto simp: check_entry_def split: if_splits)
    then show ?thesis
      using that limits_le [of k]
      by (simp add: cloud_add_def memory_get_def kind_doc_cases current_user_id_def
          split_entries_def total_of_def cloud_put_def join_entries_def memory_put_def upsert_doc_def
          doc_row_ok_def in_transaction_def)
  qed
  ultimately show ?thesis by blast
qed

theorem cloud_memory_frozen_by_agents_witness:
  "cloud_add Schema_0003 0 7 Memory [120] [] = (Inl IntegrityError, [])"
proof -
  have "check_entry [120] = Inr ()"
    by (simp add: check_entry_def is_space_def check_untrusted_def invisible_def
        injection_patterns_def lits_def match_by_rewriting del: match_at.simps(3,5,7) search.simps(2))
  then show ?thesis
    using cloud_memory_frozen_by_agents [of 0 7 "Add Memory [120]" "[]" Memory "[120]"]
    by (simp add: memory_get_def doc_limits_def current_user_id_def pg_text_def surrogate_def
        MEMORY_CHAR_LIMIT_def)
qed

text \<open>
  The compaction scan finds nothing when it runs without a tenant, as the scheduler runs
  it: the tenant policy of \<open>user_documents\<close> has no fallback for an unset \<open>app.user_id\<close>, so no
  row is visible, however long the documents are.
\<close>

theorem compaction_scan_blind:
  "find_compaction_candidates cutoff limit (filter (rls_visible None guc_agent) t) = [] \<and>
   set (find_compaction_candidates cutoff limit (filter (rls_visible (Some u) guc_agent) t))
     \<subseteq> {u} \<times> UNIV"
proof -
  have "filter (rls_visible None guc_agent) t = []"
    by (simp add: rls_visible_def)
  moreover have "set (find_compaction_candidates cutoff limit x) \<subseteq> (\<lambda>r. (ud_user r, ud_agent r)) ` set x"
    for x :: "user_document list"
    by (auto simp: find_compaction_candidates_def dest!: in_set_takeD)
  ultimately show ?thesis
    by (fastforce simp: find_compaction_candidates_def rls_visible_def)
qed

end
