(* ===== verification/Memory_Tool.thy ===== *)
theory Memory_Tool
  imports Memory_Store Memory_Repo
begin

text \<open>
  \<open>memory/tool.py\<close>: the \<open>memory\<close> function tool over any backend, and the proof that the two
  backends cannot be told apart through it.  The recall re-index that follows a successful
  write swallows its failures and touches no memory document; it is left out.
\<close>

datatype reply =
    Usage nat nat
  | Refused
  | Full "pystr list" nat nat

record tool_call =
  tc_action :: string
  tc_target :: kind
  tc_content :: "pystr option"
  tc_old_text :: "pystr option"

text \<open>\<open>if not x\<close> on an optional string.\<close>

definition missing :: "pystr option \<Rightarrow> bool" where
  "missing x \<longleftrightarrow> x = None \<or> x = Some []"

definition b_total_chars :: "'st backend \<Rightarrow> kind \<Rightarrow> 'st \<Rightarrow> nat result" where
  "b_total_chars B k st = bind_result (b_entries B k st) (\<lambda>es. Inr (total_of es))"

definition report_usage :: "'st backend \<Rightarrow> kind \<Rightarrow> 'st \<Rightarrow> reply result" where
  "report_usage B k st = bind_result (b_total_chars B k st) (\<lambda>n. Inr (Usage n (b_char_limit B k)))"

text \<open>The body of the \<open>try\<close>: the reply, or the exception the handlers see.\<close>

definition tool_body :: "'st backend \<Rightarrow> tool_call \<Rightarrow> 'st \<Rightarrow> reply result \<times> 'st" where
  "tool_body B c st =
     (let k = tc_target c;
          after = (\<lambda>(r, st'). (bind_result r (\<lambda>_. report_usage B k st'), st'))
      in if tc_action c = ''add'' then
           (if missing (tc_content c) then (Inr Refused, st)
            else after (b_add B k (the (tc_content c)) st))
         else if tc_action c = ''replace'' then
           (if missing (tc_old_text c) \<or> missing (tc_content c) then (Inr Refused, st)
            else after (b_replace B k (the (tc_old_text c)) (the (tc_content c)) st))
         else if tc_action c = ''remove'' then
           (if missing (tc_old_text c) then (Inr Refused, st)
            else after (b_remove B k (the (tc_old_text c)) st))
         else (Inr Refused, st))"

definition memory_tool :: "'st backend \<Rightarrow> tool_call \<Rightarrow> 'st \<Rightarrow> reply result \<times> 'st" where
  "memory_tool B c st =
     (let (r, st') = tool_body B c st
      in case r of
           Inr x \<Rightarrow> (Inr x, st')
         | Inl (MemoryFull current limit) \<Rightarrow>
             (bind_result (b_entries B (tc_target c) st') (\<lambda>es. Inr (Full es current limit)), st')
         | Inl ValueError \<Rightarrow> (Inr Refused, st')
         | Inl UnsafeContent \<Rightarrow> (Inr Refused, st')
         | Inl e \<Rightarrow> (Inl e, st'))"

fun run_tool :: "'st backend \<Rightarrow> tool_call list \<Rightarrow> 'st \<Rightarrow> reply result list \<times> 'st" where
  "run_tool B [] st = ([], st)"
| "run_tool B (c # cs) st =
     (let (r, st1) = memory_tool B c st; (rs, st2) = run_tool B cs st1 in (r # rs, st2))"

definition plain_call :: "tool_call \<Rightarrow> bool" where
  "plain_call c \<longleftrightarrow> (case tc_content c of None \<Rightarrow> True | Some x \<Rightarrow> plain x)"

subsection \<open>The tool on the abstract document\<close>

definition call_op :: "tool_call \<Rightarrow> mem_op option" where
  "call_op c =
     (if tc_action c = ''add'' \<and> \<not> missing (tc_content c)
        then Some (Add (tc_target c) (the (tc_content c)))
      else if tc_action c = ''replace'' \<and> \<not> missing (tc_old_text c) \<and> \<not> missing (tc_content c)
        then Some (Replace (tc_target c) (the (tc_old_text c)) (the (tc_content c)))
      else if tc_action c = ''remove'' \<and> \<not> missing (tc_old_text c)
        then Some (Remove (tc_target c) (the (tc_old_text c)))
      else None)"

definition spec_tool ::
  "(kind \<Rightarrow> nat) \<Rightarrow> tool_call \<Rightarrow> (kind \<Rightarrow> pystr list) \<Rightarrow> reply \<times> (kind \<Rightarrow> pystr list)"
where
  "spec_tool limit c d =
     (case call_op c of
        None \<Rightarrow> (Refused, d)
      | Some op \<Rightarrow>
          (case spec_op limit op d of
             Inr es \<Rightarrow> (Usage (total_of es) (limit (tc_target c)), d(tc_target c := es))
           | Inl (MemoryFull n m) \<Rightarrow> (Full (d (tc_target c)) n m, d)
           | Inl e \<Rightarrow> (Refused, d)))"

fun spec_tool_run ::
  "(kind \<Rightarrow> nat) \<Rightarrow> tool_call list \<Rightarrow> (kind \<Rightarrow> pystr list) \<Rightarrow> reply list \<times> (kind \<Rightarrow> pystr list)"
where
  "spec_tool_run limit [] d = ([], d)"
| "spec_tool_run limit (c # cs) d =
     (let (r, d1) = spec_tool limit c d; (rs, d2) = spec_tool_run limit cs d1 in (r # rs, d2))"

lemma call_op_target: "call_op c = Some op \<Longrightarrow> op_kind op = tc_target c"
  by (auto simp: call_op_def split: if_splits)

lemma call_op_plain: "call_op c = Some op \<Longrightarrow> plain_call c \<Longrightarrow> plain_op op"
  by (auto simp: call_op_def plain_call_def missing_def split: if_splits option.splits)

lemma tool_body_op:
  "tool_body B c st =
     (case call_op c of
        None \<Rightarrow> (Inr Refused, st)
      | Some op \<Rightarrow> (let (r, st') = backend_op B op st
          in (bind_result r (\<lambda>_. report_usage B (tc_target c) st'), st')))"
  by (auto simp: tool_body_def call_op_def Let_def split: prod.splits)

lemma spec_op_errors: "spec_op limit op d = Inl e \<Longrightarrow> e = ValueError \<or> e = UnsafeContent \<or> (\<exists>n m. e = MemoryFull n m)"
  by (cases op) (auto simp: spec_add_def spec_replace_def spec_remove_def result_eqs check_entry_def
      check_untrusted_Inl Let_def split: if_splits list.splits)

context memory_backend
begin

lemma tool_refines:
  assumes "shows_doc st d" and "plain_call c" and "memory_tool B c st = (r, st')"
    and "spec_tool (b_char_limit B) c d = (r', d')"
  shows "r = Inr r' \<and> shows_doc st' d'"
proof (cases "call_op c")
  case None
  then show ?thesis using assms by (simp add: memory_tool_def tool_body_op spec_tool_def)
next
  case (Some op)
  obtain x st1 where op: "backend_op B op st = (x, st1)" by (cases "backend_op B op st")
  note step = op_step [OF assms(1) call_op_plain [OF Some assms(2)] op]
  have body: "tool_body B c st = (bind_result x (\<lambda>_. report_usage B (tc_target c) st1), st1)"
    by (simp add: tool_body_op Some op)
  show ?thesis
  proof (cases "spec_op (b_char_limit B) op d")
    case (Inl e)
    then have "x = Inl e" "st1 = st" using step by auto
    moreover have "b_entries B (tc_target c) st = Inr (d (tc_target c))"
      using assms(1) by (simp add: shows_doc_def)
    ultimately show ?thesis
      using assms(1,3,4) body Inl Some spec_op_errors [OF Inl]
      by (auto simp: memory_tool_def spec_tool_def)
  next
    case (Inr es)
    then have x: "x = Inr ()" "shows_doc st1 (d(tc_target c := es))"
      using step call_op_target [OF Some] by auto
    then have "report_usage B (tc_target c) st1 = Inr (Usage (total_of es) (b_char_limit B (tc_target c)))"
      by (simp add: shows_doc_def report_usage_def b_total_chars_def)
    then show ?thesis
      using assms(3,4) body Inr Some x by (auto simp: memory_tool_def spec_tool_def)
  qed
qed

lemma tool_run_refines:
  assumes "shows_doc st d" and "list_all plain_call cs" and "run_tool B cs st = (rs, st')"
    and "spec_tool_run (b_char_limit B) cs d = (rs', d')"
  shows "rs = map Inr rs' \<and> shows_doc st' d'"
  using assms
proof (induction cs arbitrary: st d rs rs')
  case (Cons c cs)
  obtain r st1 where c: "memory_tool B c st = (r, st1)" by (cases "memory_tool B c st")
  obtain rs1 where run: "run_tool B cs st1 = (rs1, st')" and rs: "rs = r # rs1"
    using Cons.prems(3) c by (auto split: prod.splits)
  obtain r' d1 where c': "spec_tool (b_char_limit B) c d = (r', d1)"
    by (cases "spec_tool (b_char_limit B) c d")
  obtain rs2 where run': "spec_tool_run (b_char_limit B) cs d1 = (rs2, d')" and rs': "rs' = r' # rs2"
    using Cons.prems(4) c' by (auto split: prod.splits)
  have "r = Inr r' \<and> shows_doc st1 d1"
    using tool_refines [OF Cons.prems(1) _ c c'] Cons.prems(2) by simp
  with Cons.IH [OF _ _ run run'] Cons.prems(2) rs rs' show ?case by simp
qed simp

end

lemma cloud_backend_entries: "b_entries (cloud_backend sch now u) k t = cloud_entries u k t"
  by (simp add: cloud_backend_def)

lemma cloud_shows_empty:
  assumes "docs_ok Schema_0001 t" and "\<forall>r \<in> set t. ud_user r \<noteq> u"
  shows "cloud_memory.shows_doc now u t (\<lambda>_. [])"
proof -
  have none: "filter (\<lambda>r. ud_user r = u \<and> ud_kind r = s) t = []" for s
    using assms(2) by (auto simp: filter_empty_conv)
  then have "cloud_ok u t"
    using assms(1) by (auto simp: cloud_ok_def cloud_doc_def join_entries_def total_of_def
        intro!: exI [of _ "[]"])
  moreover have "cloud_entries u k t = Inr []" for k
    using none by (simp add: cloud_entries_def cloud_get_def memory_get_def kind_doc_cases
        current_user_id_def split_entries_def)
  ultimately show ?thesis
    by (simp only: cloud_memory.shows_doc_def cloud_backend_entries simp_thms)
qed

lemma same_limits: "b_char_limit local_backend = b_char_limit (cloud_backend sch now u)"
proof
  show "b_char_limit local_backend k = b_char_limit (cloud_backend sch now u) k" for k
    by (cases k) (simp_all add: local_backend_def cloud_backend_def)
qed

subsection \<open>A tenant without documents since revision \<open>0003_agents\<close>\<close>

text \<open>What the memory tool answers then: as on the empty file, but a write that is accepted cannot be stored.\<close>

definition frozen_reply :: "reply result \<Rightarrow> reply result" where
  "frozen_reply r = (case r of Inr (Usage n m) \<Rightarrow> Inl IntegrityError | _ \<Rightarrow> r)"

lemma put_frozen:
  assumes "check_entry c = Inr ()" and "plain c" and "length c \<le> kind_limit k"
  shows "cloud_put Schema_0003 now u k [c] t = Inl IntegrityError"
proof -
  have "check_untrusted c = Inr ()" using assms(1) by (auto simp: check_entry_def split: if_splits)
  moreover have "pg_text c" using assms(2) by (simp add: plain_def pg_text_def scalar_def list_all_iff list_ex_iff)
  ultimately show ?thesis
    using assms(3) limits_le [of k]
    by (simp add: cloud_put_def join_entries_def memory_put_def kind_doc_cases current_user_id_def upsert_doc_def
        doc_row_ok_def)
qed

lemma no_documents:
  assumes "\<forall>r \<in> set t. ud_user r \<noteq> u"
  shows "memory_get (Some u) (kind_doc k) t = Inr []" and "cloud_entries u k t = Inr []"
proof -
  have none: "filter (\<lambda>r. ud_user r = u \<and> ud_kind r = s) t = []" for s
    using assms by (auto simp: filter_empty_conv)
  show get: "memory_get (Some u) (kind_doc k) t = Inr []"
    using none by (simp add: memory_get_def kind_doc_cases current_user_id_def)
  show "cloud_entries u k t = Inr []"
    by (simp add: cloud_entries_def cloud_get_def get split_entries_def)
qed

lemma cloud_op_frozen:
  assumes "\<forall>r \<in> set t. ud_user r \<noteq> u" and "plain_op op"
  shows "backend_op (cloud_backend Schema_0003 now u) op t =
    (case spec_op kind_limit op (\<lambda>_. []) of Inl e \<Rightarrow> Inl e | Inr es \<Rightarrow> Inl IntegrityError, t)"
proof (cases op)
  case (Add k c)
  then show ?thesis
    using no_documents [OF assms(1)] assms(2) put_frozen [of c k now u t]
    by (cases "check_entry c") (auto simp: cloud_backend_def cloud_add_def split_entries_def spec_add_def total_of_def
        in_transaction_def Let_def)
next
  case (Replace k old c)
  then show ?thesis
    using no_documents [OF assms(1)]
    by (cases "check_entry c") (auto simp: cloud_backend_def cloud_replace_def split_entries_def spec_replace_def
        matches_def in_transaction_def Let_def)
next
  case (Remove k old)
  then show ?thesis
    using no_documents [OF assms(1)]
    by (auto simp: cloud_backend_def cloud_remove_def split_entries_def spec_remove_def matches_def
        in_transaction_def Let_def)
qed

lemma cloud_tool_frozen:
  assumes "\<forall>r \<in> set t. ud_user r \<noteq> u" and "plain_call c"
  shows "memory_tool (cloud_backend Schema_0003 now u) c t
    = (frozen_reply (Inr (fst (spec_tool kind_limit c (\<lambda>_. [])))), t)"
proof (cases "call_op c")
  case None
  then show ?thesis by (simp add: memory_tool_def tool_body_op spec_tool_def frozen_reply_def)
next
  case (Some op)
  have body: "tool_body (cloud_backend Schema_0003 now u) c t =
      (case spec_op kind_limit op (\<lambda>_. []) of Inl e \<Rightarrow> Inl e | Inr es \<Rightarrow> Inl IntegrityError, t)"
    using cloud_op_frozen [OF assms(1) call_op_plain [OF Some assms(2)], of now]
    by (cases "spec_op kind_limit op (\<lambda>_. [])") (simp_all add: tool_body_op Some)
  show ?thesis
  proof (cases "spec_op kind_limit op (\<lambda>_. [])")
    case (Inl e)
    then show ?thesis
      using body Some spec_op_errors [OF Inl] no_documents(2) [OF assms(1)]
      by (auto simp: memory_tool_def spec_tool_def frozen_reply_def cloud_backend_entries)
  next
    case (Inr es)
    then show ?thesis using body Some by (simp add: memory_tool_def spec_tool_def frozen_reply_def)
  qed
qed

lemma local_limits: "b_char_limit local_backend = kind_limit"
proof
  show "b_char_limit local_backend k = kind_limit k" for k by (cases k) (simp_all add: local_backend_def)
qed

lemma local_tool_fresh:
  assumes "plain_call c"
  shows "fst (memory_tool local_backend c \<lparr>memory_md = [], user_md = []\<rparr>) = Inr (fst (spec_tool kind_limit c (\<lambda>_. [])))"
proof -
  obtain r m where r: "memory_tool local_backend c \<lparr>memory_md = [], user_md = []\<rparr> = (r, m)" by fastforce
  obtain r' d where r': "spec_tool (b_char_limit local_backend) c (\<lambda>_. []) = (r', d)" by fastforce
  show ?thesis
    using local_memory.tool_refines [OF local_shows_empty assms r r'] r r' by (simp add: local_limits)
qed

lemma cloud_run_frozen:
  assumes "\<forall>r \<in> set t. ud_user r \<noteq> u" and "list_all plain_call cs"
  shows "run_tool (cloud_backend Schema_0003 now u) cs t =
    (map (\<lambda>c. frozen_reply (fst (memory_tool local_backend c \<lparr>memory_md = [], user_md = []\<rparr>))) cs, t)"
  using assms(2)
  by (induction cs) (simp_all add: cloud_tool_frozen [OF assms(1)] local_tool_fresh)

subsection \<open>Properties\<close>

text \<open>
  C6. Whether the Postgres memory can stand in for the file depends on the schema.  For a tenant
  without documents and any sequence of calls of the \<open>memory\<close> tool with plain contents: before
  revision \<open>0003_agents\<close> both backends give the same replies, none of them an escaped exception, and
  leave the same entries; since that revision the table never changes, and every call is answered
  as the first call on empty files would be, except that one that would have been stored raises
  \<open>IntegrityError\<close> out of the tool.
\<close>

theorem memory_backends_interchangeable:
  assumes "list_all plain_call cs" and "docs_ok sch t0" and "\<forall>r \<in> set t0. ud_user r \<noteq> u"
    and "run_tool local_backend cs \<lparr>memory_md = [], user_md = []\<rparr> = (rs, m)"
    and "run_tool (cloud_backend sch now u) cs t0 = (rs', t)"
  shows "case sch of
      Schema_0001 \<Rightarrow> rs = rs' \<and> (\<forall>r \<in> set rs. \<exists>x. r = Inr x) \<and>
        (\<forall>k. store_entries (store_for k m) = cloud_entries u k t)
    | Schema_0003 \<Rightarrow> t = t0 \<and>
        rs' = map (\<lambda>c. frozen_reply (fst (memory_tool local_backend c \<lparr>memory_md = [], user_md = []\<rparr>))) cs"
proof (cases sch)
  case Schema_0003
  then show ?thesis
    using cloud_run_frozen [OF assms(3,1), of now] assms(5) by simp
next
  case sch: Schema_0001
  obtain rs0 d where run: "spec_tool_run (b_char_limit local_backend) cs (\<lambda>_. []) = (rs0, d)"
    by fastforce
  have l: "rs = map Inr rs0 \<and> local_memory.shows_doc m d"
    by (rule local_memory.tool_run_refines [OF local_shows_empty assms(1,4) run])
  have c: "rs' = map Inr rs0 \<and> cloud_memory.shows_doc now u t d"
    using cloud_memory.tool_run_refines [OF cloud_shows_empty [OF assms(2,3) [unfolded sch]] assms(1,5) [unfolded sch]] run
    by (simp only: same_limits [of Schema_0001 now u])
  have "store_entries (store_for k m) = cloud_entries u k t" for k
    using l c by (simp only: local_memory.shows_doc_def cloud_memory.shows_doc_def
        local_backend_entries cloud_backend_entries)
  with l c show ?thesis by (auto simp: sch)
qed

theorem memory_backends_interchangeable_witness:
  "\<exists>m t. run_tool local_backend
       [\<lparr>tc_action = ''add'', tc_target = Memory, tc_content = Some [120], tc_old_text = None\<rparr>]
       \<lparr>memory_md = [], user_md = []\<rparr> = ([Inr (Usage 1 2200)], m) \<and>
     run_tool (cloud_backend Schema_0001 5 7)
       [\<lparr>tc_action = ''add'', tc_target = Memory, tc_content = Some [120], tc_old_text = None\<rparr>] []
       = ([Inr (Usage 1 2200)], t) \<and> store_entries (store_for Memory m) = Inr [[120]] \<and>
     run_tool (cloud_backend Schema_0003 5 7)
       [\<lparr>tc_action = ''add'', tc_target = Memory, tc_content = Some [120], tc_old_text = None\<rparr>] []
       = ([Inl IntegrityError], [])"
proof -
  let ?c = "\<lparr>tc_action = ''add'', tc_target = Memory, tc_content = Some [120], tc_old_text = None\<rparr>"
  have p: "list_all plain_call [?c]"
    by (simp add: plain_call_def plain_def stripped_def is_space_def scalar_def surrogate_def)
  have chk: "check_untrusted [120] = Inr ()" "check_entry [120] = Inr ()"
    by (simp_all add: check_entry_def is_space_def check_untrusted_def invisible_def
        injection_patterns_def lits_def match_by_rewriting del: match_at.simps(3,5,7) search.simps(2))
  have s: "strip [120] = [120]"
    by (rule strip_stripped) (simp add: stripped_def is_space_def)
  obtain rs m where l: "run_tool local_backend [?c] \<lparr>memory_md = [], user_md = []\<rparr> = (rs, m)"
    by fastforce
  have c: "run_tool (cloud_backend Schema_0001 5 7) [?c] []
      = ([Inr (Usage 1 2200)], [\<lparr>ud_user = 7, ud_kind = ''memory.md'', ud_agent = None,
           ud_content = [120], ud_version = 1, ud_updated = 5\<rparr>])"
    using chk s by (simp add: memory_tool_def tool_body_def missing_def cloud_backend_def
        cloud_add_def memory_get_def doc_limits_def current_user_id_def split_entries_def
        MEMORY_CHAR_LIMIT_def cloud_put_def memory_put_def join_entries_def MEMORY_MD_CHAR_LIMIT_def
        upsert_doc_def doc_row_ok_def pg_text_def surrogate_def in_transaction_def total_of_def
        report_usage_def b_total_chars_def cloud_entries_def cloud_get_def cut_entries_def)
  have e: "cloud_entries 7 Memory [\<lparr>ud_user = 7, ud_kind = ''memory.md'', ud_agent = None,
      ud_content = [120], ud_version = 1, ud_updated = 5\<rparr>] = Inr [[120]]"
    using s by (simp add: cloud_entries_def cloud_get_def memory_get_def doc_limits_def
        current_user_id_def split_entries_def cut_entries_def)
  have ok: "docs_ok Schema_0001 []" "\<forall>r \<in> set []. ud_user r \<noteq> 7"
    by (simp_all add: docs_ok_def)
  note same = memory_backends_interchangeable [OF p ok l c, simplified schema_rev.case]
  then have "store_entries (store_for Memory m) = Inr [[120]]"
    using e by metis
  moreover have "run_tool (cloud_backend Schema_0003 5 7) [?c] [] = ([Inl IntegrityError], [])"
  proof -
    obtain rs' t where r: "run_tool (cloud_backend Schema_0003 5 7) [?c] [] = (rs', t)" by fastforce
    have "fst (memory_tool local_backend ?c \<lparr>memory_md = [], user_md = []\<rparr>) = Inr (Usage 1 2200)"
      using same l c by (auto split: prod.splits)
    with memory_backends_interchangeable [OF p _ _ l r] r show ?thesis by (simp add: docs_ok_def frozen_reply_def)
  qed
  ultimately show ?thesis using same l c by metis
qed

end
