(* ===== verification/Base64.thy ===== *)
theory Base64
  imports Py_Text
begin

text \<open>
  Python's \<open>base64.b64encode\<close> and \<open>base64.b64decode\<close> (not validating: foreign characters are
  skipped), which the effective configuration and the idempotency cache rely on for byte-exact
  storage in JSON.
\<close>

definition b64_char :: "nat \<Rightarrow> nat" where
  "b64_char v =
     (if v < 26 then 65 + v else if v < 52 then 71 + v else if v < 62 then v - 4
      else if v = 62 then 43 else 47)"

definition b64_val :: "nat \<Rightarrow> nat option" where
  "b64_val c =
     (if 65 \<le> c \<and> c \<le> 90 then Some (c - 65) else if 97 \<le> c \<and> c \<le> 122 then Some (c - 71)
      else if 48 \<le> c \<and> c \<le> 57 then Some (c + 4) else if c = 43 then Some 62
      else if c = 47 then Some 63 else None)"

fun b64_encode_nats :: "nat list \<Rightarrow> pystr" where
  "b64_encode_nats [] = []"
| "b64_encode_nats [a] = [b64_char (a div 4), b64_char (a mod 4 * 16), 61, 61]"
| "b64_encode_nats [a, b] =
     [b64_char (a div 4), b64_char (a mod 4 * 16 + b div 16), b64_char (b mod 16 * 4), 61]"
| "b64_encode_nats (a # b # c # r) =
     [b64_char (a div 4), b64_char (a mod 4 * 16 + b div 16), b64_char (b mod 16 * 4 + c div 64),
      b64_char (c mod 64)] @ b64_encode_nats r"

definition b64encode :: "bytes \<Rightarrow> pystr" where
  "b64encode bs = b64_encode_nats (map unat bs)"

text \<open>
  \<open>binascii.a2b_base64\<close>: \<open>q\<close> counts the sextets of the open quantum, \<open>left\<close> holds the bits
  left over, \<open>pads\<close> the pad characters seen in a row.
\<close>

fun b64_scan :: "nat \<Rightarrow> nat \<Rightarrow> nat \<Rightarrow> pystr \<Rightarrow> nat list option" where
  "b64_scan q left pads [] = (if q = 0 then Some [] else None)"
| "b64_scan q left pads (ch # s) =
     (if ch = 61 then
        (if 2 \<le> q \<and> 4 \<le> q + Suc pads then Some []
         else b64_scan q left (if 2 \<le> q then Suc pads else pads) s)
      else
        (case b64_val ch of
           None \<Rightarrow> b64_scan q left pads s
         | Some v \<Rightarrow>
             (if q = 0 then b64_scan 1 v 0 s
              else if q = 1 then
                map_option (Cons (left * 4 + v div 16)) (b64_scan 2 (v mod 16) 0 s)
              else if q = 2 then
                map_option (Cons (left * 16 + v div 4)) (b64_scan 3 (v mod 4) 0 s)
              else map_option (Cons (left * 64 + v)) (b64_scan 0 0 0 s))))"

definition b64decode :: "pystr \<Rightarrow> bytes result" where
  "b64decode s = (case b64_scan 0 0 0 s of None \<Rightarrow> Inl ValueError | Some ns \<Rightarrow> Inr (map of_nat ns))"

lemma b64_val_char: "v < 64 \<Longrightarrow> b64_val (b64_char v) = Some v \<and> b64_char v \<noteq> 61"
  by (auto simp: b64_val_def b64_char_def)

lemma b64_scan_char:
  assumes "v < 64"
  shows "b64_scan q left pads (b64_char v # s) =
     (if q = 0 then b64_scan 1 v 0 s
      else if q = 1 then map_option (Cons (left * 4 + v div 16)) (b64_scan 2 (v mod 16) 0 s)
      else if q = 2 then map_option (Cons (left * 16 + v div 4)) (b64_scan 3 (v mod 4) 0 s)
      else map_option (Cons (left * 64 + v)) (b64_scan 0 0 0 s))"
  using b64_val_char [OF assms] by simp

lemma b64_scan_pad:
  "b64_scan q left pads (61 # s) =
     (if 2 \<le> q \<and> 4 \<le> q + Suc pads then Some []
      else b64_scan q left (if 2 \<le> q then Suc pads else pads) s)"
  by simp

lemmas b64_scan_steps = b64_scan_char b64_scan_pad

lemma sextets:
  assumes "a < 256" and "b < 256" and "c < (256 :: nat)"
  shows "a div 4 < 64" "a mod 4 * 16 < 64" "a mod 4 * 16 + b div 16 < 64" "b mod 16 * 4 < 64"
    "b mod 16 * 4 + c div 64 < 64" "c mod 64 < 64"
proof -
  have "a mod 4 \<le> 3" "b mod 16 \<le> 15" "b div 16 < 16" "c div 64 < 4"
    using assms(2,3) by (simp_all add: less_mult_imp_div_less less_Suc_eq_le [symmetric])
  then show "a div 4 < 64" "a mod 4 * 16 < 64" "a mod 4 * 16 + b div 16 < 64" "b mod 16 * 4 < 64"
    "b mod 16 * 4 + c div 64 < 64" "c mod 64 < 64"
    using assms(1) by (simp_all add: less_mult_imp_div_less)
qed

lemma quantum_parts:
  assumes "a < 256" and "b < 256" and "c < (256 :: nat)"
  shows "a div 4 * 4 + (a mod 4 * 16 + b div 16) div 16 = a"
    "(a mod 4 * 16 + b div 16) mod 16 * 16 + (b mod 16 * 4 + c div 64) div 4 = b"
    "(b mod 16 * 4 + c div 64) mod 4 * 64 + c mod 64 = c"
    "a div 4 * 4 + a mod 4 * 16 div 16 = a"
    "(a mod 4 * 16 + b div 16) mod 16 * 16 + b mod 16 * 4 div 4 = b"
proof -
  have d: "b div 16 < 16" "c div 64 < 4"
    using assms(2,3) by (simp_all add: less_mult_imp_div_less)
  then show "a div 4 * 4 + (a mod 4 * 16 + b div 16) div 16 = a"
    "(a mod 4 * 16 + b div 16) mod 16 * 16 + (b mod 16 * 4 + c div 64) div 4 = b"
    "(b mod 16 * 4 + c div 64) mod 4 * 64 + c mod 64 = c"
    "a div 4 * 4 + a mod 4 * 16 div 16 = a"
    "(a mod 4 * 16 + b div 16) mod 16 * 16 + b mod 16 * 4 div 4 = b"
    using div_mult_mod_eq [of a 4] div_mult_mod_eq [of b 16] div_mult_mod_eq [of c 64]
    by simp_all
qed

lemma b64_scan_encode:
  "\<forall>x \<in> set ns. x < 256 \<Longrightarrow> b64_scan 0 0 0 (b64_encode_nats ns) = Some ns"
proof (induction ns rule: b64_encode_nats.induct)
  case (2 a)
  then show ?case
    using sextets [of a 0 0] quantum_parts [of a 0 0] by (simp add: b64_scan_steps del: b64_scan.simps(2))
next
  case (3 a b)
  then show ?case
    using sextets [of a b 0] quantum_parts [of a b 0] by (simp add: b64_scan_steps del: b64_scan.simps(2))
next
  case (4 a b c r)
  then show ?case
    using sextets [of a b c] quantum_parts [of a b c] by (simp add: b64_scan_steps del: b64_scan.simps(2))
qed simp

lemma b64_roundtrip: "b64decode (b64encode bs) = Inr bs"
proof -
  have "\<forall>x \<in> set (map unat bs). x < 256"
    using unsigned_less [where 'b = 8 and 'a = nat] by auto
  then have "b64_scan 0 0 0 (b64_encode_nats (map unat bs)) = Some (map unat bs)"
    by (rule b64_scan_encode)
  then show ?thesis
    by (simp add: b64decode_def b64encode_def o_def)
qed

lemma b64encode_eq_Nil: "b64encode bs = [] \<longleftrightarrow> bs = []"
  by (cases "map unat bs" rule: b64_encode_nats.cases) (auto simp: b64encode_def)

text \<open>The text of \<open>b64encode(b).decode("ascii")\<close>.\<close>

definition b64_text :: "bytes \<Rightarrow> string" where
  "b64_text bs = map char_of (b64encode bs)"

lemma b64_text_codes: "codes (b64_text bs) = b64encode bs"
proof -
  have "b64_char v < 256" if "v < 64" for v
    using that by (auto simp: b64_char_def)
  then have enc: "\<forall>x \<in> set (b64_encode_nats ns). x < 256" if "\<forall>x \<in> set ns. x < 256" for ns
    using that by (induction ns rule: b64_encode_nats.induct) (auto simp: sextets)
  have "\<forall>x \<in> set (map unat bs). x < 256"
    using unsigned_less [where 'b = 8 and 'a = nat] by auto
  then have "\<forall>x \<in> set (b64encode bs). x < 256"
    unfolding b64encode_def by (rule enc)
  then show ?thesis
    by (auto simp: b64_text_def codes_def o_def intro!: map_idI)
qed

end
