(* ===== verification/Redis_Model.thy ===== *)
theory Redis_Model
  imports Prelude
begin

text \<open>
  The part of Redis the code uses, as a store of keys with an optional expiry time in
  milliseconds.  Commands take the server's time; a key whose expiry has come is gone.  A
  pipeline is the composition of its commands, executed without interleaving.  The type of
  the values is that of the keyspace: counters, tokens or documents.
\<close>

type_synonym 'v redis = "string \<Rightarrow> ('v \<times> int option) option"

definition live :: "int \<Rightarrow> ('v \<times> int option) option \<Rightarrow> bool" where
  "live now e = (case e of None \<Rightarrow> False | Some (v, None) \<Rightarrow> True | Some (v, Some t) \<Rightarrow> now < t)"

definition r_get :: "int \<Rightarrow> string \<Rightarrow> 'v redis \<Rightarrow> 'v option" where
  "r_get now k r = (if live now (r k) then map_option fst (r k) else None)"

definition r_setex :: "int \<Rightarrow> string \<Rightarrow> int \<Rightarrow> 'v \<Rightarrow> 'v redis \<Rightarrow> 'v redis" where
  "r_setex now k ttl v r = r(k \<mapsto> (v, Some (now + ttl)))"

text \<open>\<open>SET key value NX PX ttl\<close>: true when the key was free.\<close>

definition r_set_nx :: "int \<Rightarrow> string \<Rightarrow> int \<Rightarrow> 'v \<Rightarrow> 'v redis \<Rightarrow> bool \<times> 'v redis" where
  "r_set_nx now k ttl v r = (if live now (r k) then (False, r) else (True, r_setex now k ttl v r))"

definition r_del :: "string \<Rightarrow> 'v redis \<Rightarrow> 'v redis" where
  "r_del k r = r(k := None)"

definition r_incrby :: "int \<Rightarrow> string \<Rightarrow> int \<Rightarrow> int redis \<Rightarrow> int \<times> int redis" where
  "r_incrby now k d r =
     (if live now (r k) then
        (case r k of
           Some (v, e) \<Rightarrow> (v + d, r(k \<mapsto> (v + d, e)))
         | None \<Rightarrow> (d, r(k \<mapsto> (d, None))))
      else (d, r(k \<mapsto> (d, None))))"

definition r_expire :: "int \<Rightarrow> string \<Rightarrow> int \<Rightarrow> 'v redis \<Rightarrow> 'v redis" where
  "r_expire now k ttl r =
     (if live now (r k) then
        (case r k of Some (v, e) \<Rightarrow> r(k \<mapsto> (v, Some (now + ttl))) | None \<Rightarrow> r)
      else r)"

text \<open>The counter pipeline \<open>INCRBY key d; EXPIRE key ttl\<close>.\<close>

definition r_count :: "int \<Rightarrow> string \<Rightarrow> int \<Rightarrow> int \<Rightarrow> int redis \<Rightarrow> int \<times> int redis" where
  "r_count now k d ttl r = (let (n, r1) = r_incrby now k d r in (n, r_expire now k ttl r1))"

lemma r_get_setex [simp]:
  "r_get t k' (r_setex now k ttl v r) =
     (if k' = k then (if t < now + ttl then Some v else None) else r_get t k' r)"
  by (simp add: r_get_def r_setex_def live_def)

lemma r_get_del [simp]: "r_get t k' (r_del k r) = (if k' = k then None else r_get t k' r)"
  by (simp add: r_get_def r_del_def live_def)

lemma r_get_later: "r_get now k r = None \<Longrightarrow> now \<le> t \<Longrightarrow> r_get t k r = None"
  by (auto simp: r_get_def live_def split: option.splits if_splits)

lemma r_count_value:
  "fst (r_count now k d ttl r) = (case r_get now k r of None \<Rightarrow> d | Some v \<Rightarrow> v + d)"
  by (auto simp: r_count_def r_incrby_def r_get_def live_def split: option.splits)

lemma r_get_count:
  assumes "0 < ttl"
  shows "r_get t k' (snd (r_count now k d ttl r)) =
     (if k' = k then (if t < now + ttl then Some (fst (r_count now k d ttl r)) else None)
      else r_get t k' r)"
  using assms
  by (auto simp: r_count_def r_incrby_def r_expire_def r_get_def live_def split: option.splits)

lemma r_set_nx_simps:
  "fst (r_set_nx now k ttl v r) \<longleftrightarrow> r_get now k r = None"
  "r_get t k' (snd (r_set_nx now k ttl v r)) =
     (if k' = k \<and> r_get now k r = None then (if t < now + ttl then Some v else None) else r_get t k' r)"
  by (auto simp: r_set_nx_def r_get_def r_setex_def live_def split: option.splits)

end
