(* ===== verification/Effective_Config.thy ===== *)
theory Effective_Config
  imports Skill_Repo Instruction_Repo Command_Repo Mcp_Repo Opt_Out_Repo Base64 Redis_Model
begin

text \<open>
  \<open>effective.py\<close>, \<open>web/effective_config.py\<close> and \<open>web/effective_cache.py\<close>: the resolved
  configuration of a tenant, its JSON document, and the Redis cache in front of it.
  A cached text is identified with the JSON value it denotes.  The SHA-256 digest is the
  argument \<open>sha\<close>.
\<close>

record effective_config =
  ec_skills :: "resolved_skill list"
  ec_instructions :: "resolved_instruction list"
  ec_commands :: "resolved_command list"
  ec_mcp_servers :: "resolved_mcp list"
  ec_etag :: string

subsection \<open>Dict access\<close>

text \<open>
  \<open>d[k]\<close> raises \<open>KeyError\<close>; a value of another type than the field's, which the writer never
  produces, is \<open>TypeError\<close> here.
\<close>

definition need :: "(json \<Rightarrow> 'x option) \<Rightarrow> (string \<times> json) list \<Rightarrow> string \<Rightarrow> 'x result" where
  "need conv d k =
     (case map_of d k of
        None \<Rightarrow> Inl KeyError
      | Some v \<Rightarrow> (case conv v of None \<Rightarrow> Inl TypeError | Some x \<Rightarrow> Inr x))"

text \<open>\<open>d.get(k)\<close> of a nullable field.\<close>

definition need_null :: "(json \<Rightarrow> 'x option) \<Rightarrow> (string \<times> json) list \<Rightarrow> string \<Rightarrow> 'x option result" where
  "need_null conv d k =
     (case map_of d k of
        None \<Rightarrow> Inr None
      | Some JNull \<Rightarrow> Inr None
      | Some v \<Rightarrow> (case conv v of None \<Rightarrow> Inl TypeError | Some x \<Rightarrow> Inr (Some x)))"

fun as_str :: "json \<Rightarrow> string option" where
  "as_str (JStr s) = Some s" | "as_str _ = None"

fun as_bool :: "json \<Rightarrow> bool option" where
  "as_bool (JBool b) = Some b" | "as_bool _ = None"

fun as_int :: "json \<Rightarrow> int option" where
  "as_int (JInt i) = Some i" | "as_int _ = None"

fun as_obj :: "json \<Rightarrow> (string \<times> json) list option" where
  "as_obj (JObj d) = Some d" | "as_obj _ = None"

fun as_list :: "(json \<Rightarrow> 'x option) \<Rightarrow> json \<Rightarrow> 'x list option" where
  "as_list conv (JArr xs) =
     (if list_all (\<lambda>x. conv x \<noteq> None) xs then Some (map (the \<circ> conv) xs) else None)"
| "as_list conv _ = None"

definition as_scope :: "json \<Rightarrow> scope option" where
  "as_scope v = (case v of JStr s \<Rightarrow> find (\<lambda>sc. scope_text sc = s) [Bundled, Official, UserScope] | _ \<Rightarrow> None)"

definition opt_json :: "('x \<Rightarrow> json) \<Rightarrow> 'x option \<Rightarrow> json" where
  "opt_json f x = (case x of None \<Rightarrow> JNull | Some y \<Rightarrow> f y)"

subsection \<open>Entities to and from dicts\<close>

definition skill_to_dict :: "resolved_skill \<Rightarrow> json" where
  "skill_to_dict s = JObj
     [(''slug'', JStr (rs_slug s)), (''scope'', JStr (scope_text (rs_scope s))),
      (''description'', JStr (rs_description s)), (''body'', JStr (rs_body s)),
      (''frontmatter'', JObj (rs_frontmatter s)),
      (''enabled_default'', JBool (rs_enabled_default s)), (''mandatory'', JBool (rs_mandatory s))]"

definition skill_from_dict :: "(string \<times> json) list \<Rightarrow> resolved_skill result" where
  "skill_from_dict d =
     bind_result (need as_str d ''slug'') (\<lambda>s.
     bind_result (need as_scope d ''scope'') (\<lambda>sc.
     bind_result (need as_str d ''description'') (\<lambda>de.
     bind_result (need as_str d ''body'') (\<lambda>b.
     bind_result (need as_obj d ''frontmatter'') (\<lambda>fm.
     bind_result (need as_bool d ''enabled_default'') (\<lambda>en.
     bind_result (need as_bool d ''mandatory'') (\<lambda>ma.
       Inr \<lparr>rs_slug = s, rs_scope = sc, rs_description = de, rs_body = b, rs_frontmatter = fm,
            rs_enabled_default = en, rs_mandatory = ma\<rparr>)))))))"

definition instruction_to_dict :: "resolved_instruction \<Rightarrow> json" where
  "instruction_to_dict i = JObj
     [(''slug'', JStr (ri_slug i)), (''scope'', JStr (scope_text (ri_scope i))),
      (''body'', JStr (ri_body i)), (''priority'', JInt (ri_priority i)),
      (''mandatory'', JBool (ri_mandatory i))]"

definition instruction_from_dict :: "(string \<times> json) list \<Rightarrow> resolved_instruction result" where
  "instruction_from_dict d =
     bind_result (need as_str d ''slug'') (\<lambda>s.
     bind_result (need as_scope d ''scope'') (\<lambda>sc.
     bind_result (need as_str d ''body'') (\<lambda>b.
     bind_result (need as_int d ''priority'') (\<lambda>p.
     bind_result (need as_bool d ''mandatory'') (\<lambda>ma.
       Inr \<lparr>ri_slug = s, ri_scope = sc, ri_body = b, ri_priority = p, ri_mandatory = ma\<rparr>)))))"

definition command_to_dict :: "resolved_command \<Rightarrow> json" where
  "command_to_dict c = JObj
     [(''slug'', JStr (rc_slug c)), (''scope'', JStr (scope_text (rc_scope c))),
      (''prompt_tpl'', JStr (rc_prompt_tpl c)), (''description'', opt_json JStr (rc_description c)),
      (''arg_schema'', opt_json JObj (rc_arg_schema c)),
      (''bind_skills'', JArr (map JStr (rc_bind_skills c)))]"

text \<open>\<open>list(d.get("bind_skills") or [])\<close>.\<close>

definition command_from_dict :: "(string \<times> json) list \<Rightarrow> resolved_command result" where
  "command_from_dict d =
     bind_result (need as_str d ''slug'') (\<lambda>s.
     bind_result (need as_scope d ''scope'') (\<lambda>sc.
     bind_result (need as_str d ''prompt_tpl'') (\<lambda>p.
     bind_result (need_null as_str d ''description'') (\<lambda>de.
     bind_result (need_null as_obj d ''arg_schema'') (\<lambda>sch.
     bind_result (need_null (as_list as_str) d ''bind_skills'') (\<lambda>bs.
       Inr \<lparr>rc_slug = s, rc_scope = sc, rc_prompt_tpl = p, rc_description = de,
            rc_arg_schema = sch, rc_bind_skills = (case bs of None \<Rightarrow> [] | Some xs \<Rightarrow> xs)\<rparr>))))))"

text \<open>Base64 text is ASCII.\<close>

definition mcp_to_dict :: "resolved_mcp \<Rightarrow> json" where
  "mcp_to_dict m = JObj
     [(''slug'', JStr (rm_slug m)), (''scope'', JStr (scope_text (rm_scope m))),
      (''url'', JStr (rm_url m)), (''auth_header'', opt_json JStr (rm_auth_header m)),
      (''auth_value_ct_b64'', opt_json (\<lambda>ct. JStr (b64_text ct)) (rm_auth_value_ct m)),
      (''cache_tools_list'', JBool (rm_cache_tools_list m)), (''enabled'', JBool (rm_enabled m)),
      (''mandatory'', JBool (rm_mandatory m)), (''user_id'', opt_json JStr (rm_user_id m))]"

text \<open>\<open>b64decode(raw) if raw else None\<close>: an empty text counts as none.\<close>

definition ct_from_b64 :: "string option \<Rightarrow> bytes option result" where
  "ct_from_b64 raw =
     (case raw of
        Some (c # cs) \<Rightarrow> bind_result (b64decode (codes (c # cs))) (\<lambda>b. Inr (Some b))
      | _ \<Rightarrow> Inr None)"

definition mcp_from_dict :: "(string \<times> json) list \<Rightarrow> resolved_mcp result" where
  "mcp_from_dict d =
     bind_result (need_null as_str d ''auth_value_ct_b64'') (\<lambda>raw.
     bind_result (need as_str d ''slug'') (\<lambda>s.
     bind_result (need as_scope d ''scope'') (\<lambda>sc.
     bind_result (need as_str d ''url'') (\<lambda>u.
     bind_result (need_null as_str d ''auth_header'') (\<lambda>ah.
     bind_result (ct_from_b64 raw) (\<lambda>ct.
     bind_result (need as_bool d ''cache_tools_list'') (\<lambda>ctl.
     bind_result (need as_bool d ''enabled'') (\<lambda>en.
     bind_result (need as_bool d ''mandatory'') (\<lambda>ma.
     bind_result (need_null as_str d ''user_id'') (\<lambda>uid.
       Inr \<lparr>rm_slug = s, rm_scope = sc, rm_url = u, rm_auth_header = ah, rm_auth_value_ct = ct,
            rm_cache_tools_list = ctl, rm_enabled = en, rm_mandatory = ma, rm_user_id = uid\<rparr>))))))))))"

subsection \<open>The document\<close>

definition config_to_json :: "effective_config \<Rightarrow> json" where
  "config_to_json c = JObj
     [(''skills'', JArr (map skill_to_dict (ec_skills c))),
      (''instructions'', JArr (map instruction_to_dict (ec_instructions c))),
      (''commands'', JArr (map command_to_dict (ec_commands c))),
      (''mcp_servers'', JArr (map mcp_to_dict (ec_mcp_servers c))),
      (''etag'', JStr (ec_etag c))]"

fun map_result :: "('x \<Rightarrow> 'y result) \<Rightarrow> 'x list \<Rightarrow> 'y list result" where
  "map_result f [] = Inr []"
| "map_result f (x # xs) = bind_result (f x) (\<lambda>y. bind_result (map_result f xs) (\<lambda>ys. Inr (y # ys)))"

definition config_from_json :: "json \<Rightarrow> effective_config result" where
  "config_from_json j =
     (case j of
        JObj d \<Rightarrow>
          bind_result (need (as_list as_obj) d ''skills'') (\<lambda>ss.
          bind_result (map_result skill_from_dict ss) (\<lambda>skills.
          bind_result (need (as_list as_obj) d ''instructions'') (\<lambda>is'.
          bind_result (map_result instruction_from_dict is') (\<lambda>instructions.
          bind_result (need (as_list as_obj) d ''commands'') (\<lambda>cs.
          bind_result (map_result command_from_dict cs) (\<lambda>commands.
          bind_result (need (as_list as_obj) d ''mcp_servers'') (\<lambda>ms.
          bind_result (map_result mcp_from_dict ms) (\<lambda>mcps.
          bind_result (need as_str d ''etag'') (\<lambda>tag.
            Inr \<lparr>ec_skills = skills, ec_instructions = instructions, ec_commands = commands,
                 ec_mcp_servers = mcps, ec_etag = tag\<rparr>)))))))))
      | _ \<Rightarrow> Inl TypeError)"

text \<open>\<open>_compute_etag\<close>: the digest of a projection of the lists.\<close>

definition etag_payload ::
  "resolved_skill list \<Rightarrow> resolved_instruction list \<Rightarrow> resolved_command list \<Rightarrow> resolved_mcp list \<Rightarrow> json"
where
  "etag_payload skills instructions commands mcps = JObj
     [(''skills'', JArr (map (\<lambda>s. JObj [(''slug'', JStr (rs_slug s)),
         (''scope'', JStr (scope_text (rs_scope s))), (''body'', JStr (rs_body s))]) skills)),
      (''instructions'', JArr (map (\<lambda>i. JObj [(''slug'', JStr (ri_slug i)),
         (''scope'', JStr (scope_text (ri_scope i))), (''priority'', JInt (ri_priority i)),
         (''body'', JStr (ri_body i)), (''mandatory'', JBool (ri_mandatory i))]) instructions)),
      (''commands'', JArr (map (\<lambda>c. JObj [(''slug'', JStr (rc_slug c)),
         (''scope'', JStr (scope_text (rc_scope c))), (''prompt_tpl'', JStr (rc_prompt_tpl c))]) commands)),
      (''mcp_servers'', JArr (map (\<lambda>m. JObj [(''slug'', JStr (rm_slug m)),
         (''scope'', JStr (scope_text (rm_scope m))), (''url'', JStr (rm_url m)),
         (''auth_header'', opt_json JStr (rm_auth_header m)), (''enabled'', JBool (rm_enabled m))]) mcps))]"

definition build_config ::
  "(json \<Rightarrow> string) \<Rightarrow> resolved_skill list \<Rightarrow> resolved_instruction list \<Rightarrow> resolved_command list
     \<Rightarrow> resolved_mcp list \<Rightarrow> effective_config"
where
  "build_config sha skills instructions commands mcps =
     \<lparr>ec_skills = skills, ec_instructions = instructions, ec_commands = commands,
      ec_mcp_servers = mcps,
      ec_etag = take 16 (sha (etag_payload skills instructions commands mcps))\<rparr>"

subsection \<open>Computing and caching\<close>

record database =
  db_skills :: "skill_row list"
  db_instructions :: "instruction_row list"
  db_commands :: "command_row list"
  db_mcp_servers :: "mcp_row list"
  db_opt_outs :: "opt_out list"

record bundle_t =
  shipped_skills :: "bundled_skill list"
  shipped_instructions :: "bundled_instruction list"
  shipped_commands :: "bundled_command list"

definition opt_out_slugs :: "string \<Rightarrow> (string \<times> string) list \<Rightarrow> string list" where
  "opt_out_slugs entity pairs = map snd (filter (\<lambda>(e, s). e = entity) pairs)"

definition compute_effective_config ::
  "(json \<Rightarrow> string) \<Rightarrow> bundle_t \<Rightarrow> uuid option \<Rightarrow> database \<Rightarrow> effective_config result"
where
  "compute_effective_config sha shipped guc db =
     bind_result (opt_out_list guc None (db_opt_outs db)) (\<lambda>outs.
     bind_result (skill_list_effective (shipped_skills shipped) guc (opt_out_slugs ''skill'' outs)
       (db_skills db)) (\<lambda>skills.
     bind_result (instruction_list_effective (shipped_instructions shipped) guc
       (opt_out_slugs ''instruction'' outs) (db_instructions db)) (\<lambda>instructions.
     bind_result (command_list_effective (shipped_commands shipped) guc
       (opt_out_slugs ''command'' outs) (db_commands db)) (\<lambda>commands.
     bind_result (mcp_list_effective guc (opt_out_slugs ''mcp_server'' outs)
       (db_mcp_servers db)) (\<lambda>mcps.
       Inr (build_config sha skills instructions commands mcps))))))"

definition EFFECTIVE_CONFIG_TTL_MS :: int where "EFFECTIVE_CONFIG_TTL_MS = 60000"

definition cache_key :: "uuid \<Rightarrow> string" where
  "cache_key u = ''effective:'' @ uuid_str u"

definition get_or_compute_effective_config ::
  "(json \<Rightarrow> string) \<Rightarrow> bundle_t \<Rightarrow> int \<Rightarrow> uuid \<Rightarrow> database \<Rightarrow> json redis
     \<Rightarrow> effective_config result \<times> json redis"
where
  "get_or_compute_effective_config sha shipped now u db r =
     (case r_get now (cache_key u) r of
        Some cached \<Rightarrow> (config_from_json cached, r)
      | None \<Rightarrow>
          (case compute_effective_config sha shipped (Some u) db of
             Inl e \<Rightarrow> (Inl e, r)
           | Inr eff \<Rightarrow>
               (Inr eff, r_setex now (cache_key u) EFFECTIVE_CONFIG_TTL_MS (config_to_json eff) r)))"

definition invalidate_effective_config :: "uuid \<Rightarrow> json redis \<Rightarrow> json redis" where
  "invalidate_effective_config u r = r_del (cache_key u) r"

text \<open>\<open>evict_all\<close> removes every key with the prefix \<open>effective:\<close>.\<close>

definition evict_all :: "json redis \<Rightarrow> json redis" where
  "evict_all r = (\<lambda>k. if take 10 k = ''effective:'' then None else r k)"

definition evict_users :: "uuid list \<Rightarrow> json redis \<Rightarrow> json redis" where
  "evict_users us r = fold (\<lambda>u. r_del (cache_key u)) us r"

subsection \<open>Round trips\<close>

lemma need_simps:
  "need conv ((k, v) # d) k = (case conv v of None \<Rightarrow> Inl TypeError | Some x \<Rightarrow> Inr x)"
  "k' \<noteq> k \<Longrightarrow> need conv ((k', v) # d) k = need conv d k"
  by (simp_all add: need_def)

lemma need_null_simps:
  "conv JNull = None \<Longrightarrow> need_null conv ((k, opt_json f x) # d) k =
     (case x of None \<Rightarrow> Inr None | Some y \<Rightarrow> need_null conv [(k, f y)] k)"
  "k' \<noteq> k \<Longrightarrow> need_null conv ((k', v) # d) k = need_null conv d k"
  by (auto simp: need_null_def opt_json_def split: option.splits)

lemma as_scope_text [simp]: "as_scope (JStr (scope_text sc)) = Some sc"
  by (cases sc) (simp_all add: as_scope_def scope_text_def)

lemma as_list_strs [simp]: "as_list as_str (JArr (map JStr xs)) = Some xs"
  by (simp add: list_all_iff o_def)

lemma need_null_here: "v \<noteq> JNull \<Longrightarrow> need_null conv ((k, v) # d) k =
    (case conv v of None \<Rightarrow> Inl TypeError | Some x \<Rightarrow> Inr (Some x))"
  by (cases v) (simp_all add: need_null_def)

lemma need_null_opt:
  assumes "\<And>y. f y \<noteq> JNull" and "\<And>y. conv (f y) = Some y"
  shows "need_null conv ((k, opt_json f x) # d) k = Inr x"
proof (cases x)
  case (Some y)
  then show ?thesis using assms by (simp add: opt_json_def need_null_here)
qed (simp add: opt_json_def need_null_def)

lemma skill_roundtrip: "\<exists>d. skill_to_dict s = JObj d \<and> skill_from_dict d = Inr s"
  by (simp add: skill_to_dict_def skill_from_dict_def need_simps)

lemma instruction_roundtrip: "\<exists>d. instruction_to_dict i = JObj d \<and> instruction_from_dict d = Inr i"
  by (simp add: instruction_to_dict_def instruction_from_dict_def need_simps)

lemma command_roundtrip: "\<exists>d. command_to_dict c = JObj d \<and> command_from_dict d = Inr c"
  by (simp add: command_to_dict_def command_from_dict_def need_simps need_null_simps(2)
      need_null_opt need_null_here del: as_list.simps)

lemma ct_roundtrip:
  "ct_from_b64 (map_option b64_text x) = Inr (nonempty x)"
proof (cases x)
  case (Some bs)
  show ?thesis
  proof (cases bs)
    case (Cons b bs')
    then have "b64_text bs \<noteq> []"
      by (simp add: b64_text_def b64encode_eq_Nil)
    then obtain c cs where c: "b64_text bs = c # cs" by (cases "b64_text bs") auto
    then have "b64decode (codes (c # cs)) = Inr bs"
      using b64_text_codes [of bs] by (simp only: b64_roundtrip)
    then show ?thesis using Some Cons c by (simp add: ct_from_b64_def nonempty_def)
  qed (simp add: Some ct_from_b64_def nonempty_def b64_text_def b64encode_def)
qed (simp add: ct_from_b64_def nonempty_def)

lemma need_null_ct:
  "need_null as_str ((k, opt_json (\<lambda>ct. JStr (b64_text ct)) x) # d) k = Inr (map_option b64_text x)"
  by (cases x) (simp_all add: opt_json_def need_null_def)

lemma mcp_roundtrip:
  "\<exists>d. mcp_to_dict m = JObj d \<and>
     mcp_from_dict d = Inr (m\<lparr>rm_auth_value_ct := nonempty (rm_auth_value_ct m)\<rparr>)"
  by (simp add: mcp_to_dict_def mcp_from_dict_def need_simps need_null_simps(2) need_null_opt
      need_null_ct ct_roundtrip)

lemma as_list_objs:
  assumes "\<And>x. \<exists>d. f x = JObj d \<and> g d = Inr (h x)"
  shows "\<exists>ds. as_list as_obj (JArr (map f xs)) = Some ds \<and> map_result g ds = Inr (map h xs)"
proof -
  define dict where "dict x = the (as_obj (f x))" for x
  have d: "f x = JObj (dict x) \<and> g (dict x) = Inr (h x)" for x
    using assms [of x] by (auto simp: dict_def)
  then have "as_list as_obj (JArr (map f xs)) = Some (map dict xs)"
    by (simp add: list_all_iff o_def)
  moreover have "map_result g (map dict xs) = Inr (map h xs)"
    using d by (induction xs) simp_all
  ultimately show ?thesis by blast
qed

definition without_empty_ct :: "effective_config \<Rightarrow> effective_config" where
  "without_empty_ct c = c\<lparr>ec_mcp_servers :=
     map (\<lambda>m. m\<lparr>rm_auth_value_ct := nonempty (rm_auth_value_ct m)\<rparr>) (ec_mcp_servers c)\<rparr>"

lemma config_roundtrip: "config_from_json (config_to_json c) = Inr (without_empty_ct c)"
proof -
  obtain ss where ss: "as_list as_obj (JArr (map skill_to_dict (ec_skills c))) = Some ss"
      "map_result skill_from_dict ss = Inr (ec_skills c)"
    using as_list_objs [of skill_to_dict skill_from_dict id] skill_roundtrip by auto
  obtain is' where is': "as_list as_obj (JArr (map instruction_to_dict (ec_instructions c))) = Some is'"
      "map_result instruction_from_dict is' = Inr (ec_instructions c)"
    using as_list_objs [of instruction_to_dict instruction_from_dict id] instruction_roundtrip by auto
  obtain cs where cs: "as_list as_obj (JArr (map command_to_dict (ec_commands c))) = Some cs"
      "map_result command_from_dict cs = Inr (ec_commands c)"
    using as_list_objs [of command_to_dict command_from_dict id] command_roundtrip by auto
  obtain ms where ms: "as_list as_obj (JArr (map mcp_to_dict (ec_mcp_servers c))) = Some ms"
      "map_result mcp_from_dict ms
       = Inr (map (\<lambda>m. m\<lparr>rm_auth_value_ct := nonempty (rm_auth_value_ct m)\<rparr>) (ec_mcp_servers c))"
    using as_list_objs [of mcp_to_dict mcp_from_dict
        "\<lambda>m. m\<lparr>rm_auth_value_ct := nonempty (rm_auth_value_ct m)\<rparr>"] mcp_roundtrip by blast
  show ?thesis
    by (simp add: config_from_json_def config_to_json_def need_simps ss is' cs ms
        without_empty_ct_def del: as_list.simps)
qed

lemma computed_without_empty_ct:
  assumes "compute_effective_config sha shipped (Some u) db = Inr c"
  shows "without_empty_ct c = c"
proof -
  obtain outs mcps where m: "mcp_list_effective (Some u) outs (db_mcp_servers db) = Inr mcps"
    and c: "ec_mcp_servers c = mcps"
    using assms by (auto simp: compute_effective_config_def result_eqs build_config_def)
  let ?users = "sort_key slug (filter (user_row u) (db_mcp_servers db))"
  have rs: "mcps = sort_key rm_slug (map snd (layered_merge rm_slug id m_enabled
      official_mcp_resolved user_mcp_resolved outs [] (mcp_list_official (db_mcp_servers db)) ?users))"
    using m by (simp add: mcp_list_effective_def mcp_list_user_def list_user_rows_def
        current_user_id_def)
  have "nonempty (rm_auth_value_ct x) = rm_auth_value_ct x" if "x \<in> set mcps" for x
  proof -
    have "effective_at rm_slug id m_enabled official_mcp_resolved user_mcp_resolved outs []
        (mcp_list_official (db_mcp_servers db)) ?users (rm_slug x) = Some x"
      using mcp_layers.sorted_result [OF rs] that by blast
    then consider r where "x = official_mcp_resolved r" | r where "x = user_mcp_resolved r"
      by (auto simp: effective_at_def last_with_def split: if_splits option.splits)
    then show ?thesis
      by cases (auto simp: official_mcp_resolved_def user_mcp_resolved_def nonempty_def
          split: option.splits list.splits)
  qed
  then have "map (\<lambda>m. m\<lparr>rm_auth_value_ct := nonempty (rm_auth_value_ct m)\<rparr>) mcps = mcps"
    by (intro map_idI) (metis resolved_mcp.surjective resolved_mcp.update_convs(5))
  then show ?thesis
    by (simp add: without_empty_ct_def c)
qed

lemma cached_config_reads_back:
  "compute_effective_config sha shipped (Some u) db = Inr c \<Longrightarrow>
   config_from_json (config_to_json c) = Inr c"
  by (simp add: config_roundtrip computed_without_empty_ct)

subsection \<open>The cache over time\<close>

text \<open>
  A history of the cached view: the clock moves on, anybody writes the database, tenants read
  through the cache, and administrators evict.  \<open>log\<close> is a ghost: when each recomputation
  could have happened and what it saw.  A read is one step: its five queries see one database and the
  cache is written at once.  At READ COMMITTED a writer may come between them; then the cached view mixes
  two states, and counts from the later of them only, which the steps here do not show.
\<close>

record cache_state =
  cs_now :: int
  cs_db :: database
  cs_redis :: "json redis"
  cs_log :: "(int \<times> database) list"

inductive cache_step :: "(json \<Rightarrow> string) \<Rightarrow> bundle_t \<Rightarrow> cache_state \<Rightarrow> cache_state \<Rightarrow> bool"
  for sha shipped
where
  time_passes: "cs_now s \<le> t \<Longrightarrow> cache_step sha shipped s (s\<lparr>cs_now := t\<rparr>)"
| db_write: "cache_step sha shipped s (s\<lparr>cs_db := db'\<rparr>)"
| read: "u < 2 ^ 128 \<Longrightarrow>
    get_or_compute_effective_config sha shipped (cs_now s) u (cs_db s) (cs_redis s) = (res, r') \<Longrightarrow>
    cache_step sha shipped s (s\<lparr>cs_redis := r', cs_log := (cs_now s, cs_db s) # cs_log s\<rparr>)"
| evict_one: "cache_step sha shipped s (s\<lparr>cs_redis := invalidate_effective_config u (cs_redis s)\<rparr>)"
| evict_some: "cache_step sha shipped s (s\<lparr>cs_redis := evict_users us (cs_redis s)\<rparr>)"
| evict_everything: "cache_step sha shipped s (s\<lparr>cs_redis := evict_all (cs_redis s)\<rparr>)"

definition entry_ok ::
  "(json \<Rightarrow> string) \<Rightarrow> bundle_t \<Rightarrow> int \<Rightarrow> (int \<times> database) list \<Rightarrow> string \<Rightarrow> json \<times> int option \<Rightarrow> bool"
where
  "entry_ok sha shipped now log k e \<longleftrightarrow>
     (\<exists>u t db c. u < 2 ^ 128 \<and> k = cache_key u \<and> (t, db) \<in> set log \<and> t \<le> now \<and>
        compute_effective_config sha shipped (Some u) db = Inr c \<and>
        e = (config_to_json c, Some (t + EFFECTIVE_CONFIG_TTL_MS)))"

definition cache_inv :: "(json \<Rightarrow> string) \<Rightarrow> bundle_t \<Rightarrow> cache_state \<Rightarrow> bool" where
  "cache_inv sha shipped s \<longleftrightarrow>
     (\<forall>k e. cs_redis s k = Some e \<longrightarrow> entry_ok sha shipped (cs_now s) (cs_log s) k e)"

lemma entry_ok_mono:
  "entry_ok sha shipped now log k e \<Longrightarrow> now \<le> now' \<Longrightarrow> set log \<subseteq> set log' \<Longrightarrow>
   entry_ok sha shipped now' log' k e"
  unfolding entry_ok_def by (elim exE conjE, intro exI conjI) (assumption | rule order_trans | erule subsetD)+

lemma cache_inv_subset:
  assumes "cache_inv sha shipped s" and "\<And>k e. r' k = Some e \<Longrightarrow> cs_redis s k = Some e"
  shows "cache_inv sha shipped (s\<lparr>cs_redis := r'\<rparr>)"
  using assms by (simp add: cache_inv_def)

lemma evict_users_sub: "evict_users us r k = Some e \<Longrightarrow> r k = Some e"
proof (induction us arbitrary: r)
  case (Cons u us)
  then have "evict_users us (r_del (cache_key u) r) k = Some e"
    by (simp add: evict_users_def)
  then have "r_del (cache_key u) r k = Some e" by (rule Cons.IH)
  then show ?case by (simp add: r_del_def split: if_splits)
qed (simp add: evict_users_def)

lemma cache_step_inv:
  assumes "cache_step sha shipped s s'" and inv: "cache_inv sha shipped s"
  shows "cache_inv sha shipped s'"
  using assms(1)
proof cases
  case (time_passes t)
  then show ?thesis
    using inv entry_ok_mono [of sha shipped "cs_now s" "cs_log s" _ _ t "cs_log s"]
    by (simp add: cache_inv_def)
next
  case (db_write db')
  then show ?thesis using inv by (simp add: cache_inv_def)
next
  case (read u res r')
  let ?log = "(cs_now s, cs_db s) # cs_log s"
  have old: "entry_ok sha shipped (cs_now s) ?log k e" if "cs_redis s k = Some e" for k e
  proof -
    have "entry_ok sha shipped (cs_now s) (cs_log s) k e"
      using inv that unfolding cache_inv_def by blast
    then show ?thesis by (rule entry_ok_mono) auto
  qed
  have "entry_ok sha shipped (cs_now s) ?log k e" if k: "r' k = Some e" for k e
  proof (cases "cs_redis s k = Some e")
    case False
    then obtain c where "r' = r_setex (cs_now s) (cache_key u) EFFECTIVE_CONFIG_TTL_MS
          (config_to_json c) (cs_redis s)"
        "compute_effective_config sha shipped (Some u) (cs_db s) = Inr c"
      using read k by (auto simp: get_or_compute_effective_config_def split: option.splits sum.splits)
    with k False read show ?thesis
      unfolding entry_ok_def
      by (intro exI [of _ u] exI [of _ "cs_now s"] exI [of _ "cs_db s"] exI [of _ c])
        (auto simp: r_setex_def split: if_splits)
  qed (use old in blast)
  then show ?thesis using read by (simp add: cache_inv_def)
next
  case (evict_one u)
  show ?thesis
    unfolding evict_one(1)
    by (rule cache_inv_subset [OF inv])
      (simp add: invalidate_effective_config_def r_del_def split: if_splits)
next
  case (evict_some us)
  show ?thesis
    unfolding evict_some by (rule cache_inv_subset [OF inv]) (rule evict_users_sub)
next
  case evict_everything
  show ?thesis
    unfolding evict_everything
    by (rule cache_inv_subset [OF inv]) (simp add: evict_all_def split: if_splits)
qed

definition cold :: "int \<Rightarrow> database \<Rightarrow> cache_state" where
  "cold now db = \<lparr>cs_now = now, cs_db = db, cs_redis = (\<lambda>_. None), cs_log = []\<rparr>"

lemma cache_reachable_inv:
  "(cache_step sha shipped)\<^sup>*\<^sup>* (cold now db) s \<Longrightarrow> cache_inv sha shipped s"
proof (induction rule: rtranclp_induct)
  case base
  show ?case by (simp add: cache_inv_def cold_def)
qed (rule cache_step_inv)

lemma cache_key_inj: "u < 2 ^ 128 \<Longrightarrow> v < 2 ^ 128 \<Longrightarrow> cache_key u = cache_key v \<Longrightarrow> u = v"
  using uuid_str_inj by (simp add: cache_key_def)

subsection \<open>Properties\<close>

text \<open>
  C13. The effective-config cache is stale by less than its 60 s: whatever was written, read
  and evicted before, a read returns exactly what \<open>compute_effective_config\<close> yields for that
  tenant on the current database or on one some read saw less than 60 000 ms ago; and after
  \<open>evict_all\<close> it yields the current database's.
\<close>

theorem effective_cache_bounded_staleness:
  assumes "(cache_step sha shipped)\<^sup>*\<^sup>* (cold now0 db0) s" and "u < 2 ^ 128"
    and "get_or_compute_effective_config sha shipped (cs_now s) u (cs_db s) (cs_redis s) = (res, r')"
  shows "(\<exists>t db. (t, db) \<in> set ((cs_now s, cs_db s) # cs_log s) \<and> cs_now s - 60000 < t \<and> t \<le> cs_now s \<and>
       res = compute_effective_config sha shipped (Some u) db) \<and>
     fst (get_or_compute_effective_config sha shipped (cs_now s) u (cs_db s) (evict_all (cs_redis s)))
       = compute_effective_config sha shipped (Some u) (cs_db s)"
proof
  have miss: "fst (get_or_compute_effective_config sha shipped (cs_now s) u (cs_db s) r)
      = compute_effective_config sha shipped (Some u) (cs_db s)"
    if "r_get (cs_now s) (cache_key u) r = None" for r
    using that by (simp add: get_or_compute_effective_config_def split: sum.splits)
  show "\<exists>t db. (t, db) \<in> set ((cs_now s, cs_db s) # cs_log s) \<and> cs_now s - 60000 < t \<and> t \<le> cs_now s \<and>
       res = compute_effective_config sha shipped (Some u) db"
  proof (cases "r_get (cs_now s) (cache_key u) (cs_redis s)")
    case None
    then have "res = compute_effective_config sha shipped (Some u) (cs_db s)"
      using miss assms(3) by (metis fst_conv)
    then show ?thesis by (intro exI [of _ "cs_now s"] exI [of _ "cs_db s"]) simp
  next
    case (Some v)
    then obtain e where e: "cs_redis s (cache_key u) = Some (v, e)" "live (cs_now s) (Some (v, e))"
      by (auto simp: r_get_def split: if_splits)
    obtain u' t db c where x: "u' < 2 ^ 128" "cache_key u = cache_key u'" "(t, db) \<in> set (cs_log s)"
        "t \<le> cs_now s" "compute_effective_config sha shipped (Some u') db = Inr c"
        "(v, e) = (config_to_json c, Some (t + EFFECTIVE_CONFIG_TTL_MS))"
      using cache_reachable_inv [OF assms(1)] e(1) unfolding cache_inv_def entry_ok_def by blast
    then have u': "u' = u"
      using cache_key_inj assms(2) by metis
    have "res = Inr c"
      using assms(3) Some x(5,6) cached_config_reads_back
      by (auto simp: get_or_compute_effective_config_def)
    then show ?thesis
      using x u' e(2)
      by (intro exI [of _ t] exI [of _ db]) (auto simp: live_def EFFECTIVE_CONFIG_TTL_MS_def)
  qed
  have "r_get (cs_now s) (cache_key u) (evict_all (cs_redis s)) = None"
    by (simp add: r_get_def evict_all_def cache_key_def live_def)
  then show "fst (get_or_compute_effective_config sha shipped (cs_now s) u (cs_db s)
      (evict_all (cs_redis s))) = compute_effective_config sha shipped (Some u) (cs_db s)"
    by (rule miss)
qed

theorem effective_cache_bounded_staleness_witness:
  "\<exists>s res r'. (cache_step (\<lambda>_. ''h'') \<lparr>shipped_skills = [], shipped_instructions = [], shipped_commands = []\<rparr>)\<^sup>*\<^sup>*
       (cold 0 \<lparr>db_skills = example_skills, db_instructions = [], db_commands = [], db_mcp_servers = [], db_opt_outs = []\<rparr>) s \<and>
     db_skills (cs_db s) = [] \<and> length (cs_log s) = 1 \<and>
     get_or_compute_effective_config (\<lambda>_. ''h'') \<lparr>shipped_skills = [], shipped_instructions = [], shipped_commands = []\<rparr>
       (cs_now s) 7 (cs_db s) (cs_redis s) = (res, r') \<and>
     (\<exists>t db. (t, db) \<in> set ((cs_now s, cs_db s) # cs_log s) \<and> cs_now s - 60000 < t \<and>
        res = compute_effective_config (\<lambda>_. ''h'')
          \<lparr>shipped_skills = [], shipped_instructions = [], shipped_commands = []\<rparr> (Some 7) db)"
proof -
  let ?sha = "\<lambda>_ :: json. ''h''"
  let ?sh = "\<lparr>shipped_skills = [], shipped_instructions = [], shipped_commands = []\<rparr>"
  let ?d0 = "\<lparr>db_skills = example_skills, db_instructions = [], db_commands = [], db_mcp_servers = [], db_opt_outs = []\<rparr>"
  let ?s0 = "cold 0 ?d0"
  obtain res0 r0 where r0: "get_or_compute_effective_config ?sha ?sh (cs_now ?s0) 7 (cs_db ?s0) (cs_redis ?s0) = (res0, r0)"
    by fastforce
  let ?s1 = "?s0\<lparr>cs_redis := r0, cs_log := (cs_now ?s0, cs_db ?s0) # cs_log ?s0\<rparr>"
  let ?s2 = "?s1\<lparr>cs_db := ?d0\<lparr>db_skills := []\<rparr>\<rparr>"
  have "cache_step ?sha ?sh ?s0 ?s1"
    by (rule cache_step.read [OF _ r0]) simp
  moreover have "cache_step ?sha ?sh ?s1 ?s2"
    by (rule cache_step.db_write)
  ultimately have reach: "(cache_step ?sha ?sh)\<^sup>*\<^sup>* ?s0 ?s2"
    by (meson r_into_rtranclp rtranclp_trans)
  obtain res r' where r: "get_or_compute_effective_config ?sha ?sh (cs_now ?s2) 7 (cs_db ?s2) (cs_redis ?s2) = (res, r')"
    by fastforce
  have "db_skills (cs_db ?s2) = [] \<and> length (cs_log ?s2) = 1"
    by (simp add: cold_def)
  with effective_cache_bounded_staleness [OF reach _ r] reach r show ?thesis
    by (intro exI [of _ ?s2] exI [of _ res] exI [of _ r']) auto
qed

text \<open>
  The etag does not cover the whole document: skills' descriptions and frontmatter,
  commands' descriptions, schemas and skill bindings, and the MCP credentials can all change
  while the etag stays the same.
\<close>

theorem etag_ignores_fields:
  "ec_etag (build_config sha
      (map (\<lambda>s. s\<lparr>rs_description := fd s, rs_frontmatter := ff s, rs_mandatory := fm s\<rparr>) skills) instructions
      (map (\<lambda>c. c\<lparr>rc_description := gd c, rc_arg_schema := ga c, rc_bind_skills := gb c\<rparr>) commands)
      (map (\<lambda>m. m\<lparr>rm_auth_value_ct := h m, rm_user_id := hu m\<rparr>) mcps))
   = ec_etag (build_config sha skills instructions commands mcps)"
  by (simp add: build_config_def etag_payload_def o_def)

end
