(* ===== verification/Session_Locks.thy ===== *)
theory Session_Locks
  imports Redis_Model
begin

text \<open>
  \<open>storage/locks_redis.py\<close> and \<open>storage/locks_memory.py\<close>: the two implementations of the
  session lock of \<open>storage/locks.py\<close>, as state machines over any number of clients.  A client
  inside the \<open>async with\<close> block holds a lease that runs out \<open>ttl\<close> after it was acquired; the
  promise is that two unexpired leases of one key never overlap.
\<close>

type_synonym client = nat
type_synonym token = nat

subsection \<open>The Redis lock\<close>

text \<open>The commands: \<open>SET key token NX PX ttl\<close> and the release script.\<close>

definition redis_try :: "int \<Rightarrow> string \<Rightarrow> token \<Rightarrow> int \<Rightarrow> token redis \<Rightarrow> bool \<times> token redis" where
  "redis_try now key tok ttl r = r_set_nx now key ttl tok r"

definition redis_release :: "int \<Rightarrow> string \<Rightarrow> token \<Rightarrow> token redis \<Rightarrow> token redis" where
  "redis_release now key tok r = (if r_get now key r = Some tok then r_del key r else r)"

text \<open>\<open>ttl_ms = max(1, int(ttl * 1000))\<close>.\<close>

definition ttl_ms :: "int \<Rightarrow> int" where
  "ttl_ms ms = max 1 ms"

text \<open>
  Where a client is in \<open>_acquire\<close>: in the retry loop until its deadline, or inside the block
  since a time.
\<close>

datatype phase =
    Idle
  | Waiting string token int int
  | Inside string token int int

record rl_state =
  rl_now :: int
  rl_redis :: "token redis"
  rl_phase :: "client \<Rightarrow> phase"
  rl_used :: "token set"

definition move :: "client \<Rightarrow> phase \<Rightarrow> rl_state \<Rightarrow> rl_state" where
  "move c p s = s\<lparr>rl_phase := (rl_phase s)(c := p)\<rparr>"

text \<open>
  Tokens are 128 random bits; a new one is taken to differ from all earlier ones.  A release
  whose call fails is swallowed and leaves the key to its expiry.
\<close>

inductive rl_step :: "rl_state \<Rightarrow> rl_state \<Rightarrow> bool" where
  rl_time: "rl_now s \<le> t \<Longrightarrow> rl_step s (s\<lparr>rl_now := t\<rparr>)"
| rl_enter: "rl_phase s c = Idle \<Longrightarrow> tok \<notin> rl_used s \<Longrightarrow>
    rl_step s ((move c (Waiting key tok (rl_now s + wait) (ttl_ms ms)) s)\<lparr>rl_used := insert tok (rl_used s)\<rparr>)"
| rl_acquire: "rl_phase s c = Waiting key tok deadline ttl \<Longrightarrow> rl_now s < deadline \<Longrightarrow>
    redis_try (rl_now s) key tok ttl (rl_redis s) = (True, r') \<Longrightarrow>
    rl_step s ((move c (Inside key tok (rl_now s) ttl) s)\<lparr>rl_redis := r'\<rparr>)"
| rl_retry: "rl_phase s c = Waiting key tok deadline ttl \<Longrightarrow> rl_now s < deadline \<Longrightarrow>
    redis_try (rl_now s) key tok ttl (rl_redis s) = (False, r') \<Longrightarrow>
    rl_step s (s\<lparr>rl_redis := r'\<rparr>)"
| rl_timeout: "rl_phase s c = Waiting key tok deadline ttl \<Longrightarrow> deadline \<le> rl_now s \<Longrightarrow>
    rl_step s (move c Idle s)"
| rl_exit: "rl_phase s c = Inside key tok t ttl \<Longrightarrow>
    rl_step s ((move c Idle s)\<lparr>rl_redis := redis_release (rl_now s) key tok (rl_redis s)\<rparr>)"
| rl_exit_lost: "rl_phase s c = Inside key tok t ttl \<Longrightarrow> rl_step s (move c Idle s)"

fun phase_token :: "phase \<Rightarrow> token option" where
  "phase_token Idle = None"
| "phase_token (Waiting key tok d ttl) = Some tok"
| "phase_token (Inside key tok t ttl) = Some tok"

definition tokens_ok :: "token set \<Rightarrow> (client \<Rightarrow> phase) \<Rightarrow> bool" where
  "tokens_ok used ph \<longleftrightarrow>
     (\<forall>c tok. phase_token (ph c) = Some tok \<longrightarrow> tok \<in> used \<and>
        (\<forall>c'. phase_token (ph c') = Some tok \<longrightarrow> c' = c))"

definition leases_ok :: "int \<Rightarrow> token redis \<Rightarrow> (client \<Rightarrow> phase) \<Rightarrow> bool" where
  "leases_ok now r ph \<longleftrightarrow>
     (\<forall>c key tok t ttl. ph c = Inside key tok t ttl \<and> now < t + ttl \<longrightarrow>
        r key = Some (tok, Some (t + ttl)))"

definition rl_inv :: "rl_state \<Rightarrow> bool" where
  "rl_inv s \<longleftrightarrow> tokens_ok (rl_used s) (rl_phase s) \<and> leases_ok (rl_now s) (rl_redis s) (rl_phase s)"

lemma tokens_ok_keep:
  "tokens_ok used ph \<Longrightarrow> phase_token p = None \<or> phase_token p = phase_token (ph c) \<Longrightarrow>
   tokens_ok used (ph(c := p))"
  unfolding tokens_ok_def fun_upd_apply by (metis option.distinct(1))

lemma tokens_ok_new:
  "tokens_ok used ph \<Longrightarrow> phase_token p = Some tok \<Longrightarrow> tok \<notin> used \<Longrightarrow>
   tokens_ok (insert tok used) (ph(c := p))"
  by (auto simp: tokens_ok_def)

lemma leases_ok_leave:
  "leases_ok now r ph \<Longrightarrow> (\<And>key tok t ttl. p \<noteq> Inside key tok t ttl) \<Longrightarrow> leases_ok now r (ph(c := p))"
  by (auto simp: leases_ok_def)

lemma leases_ok_acquire:
  assumes "leases_ok now r ph" and "redis_try now key tok ttl r = (True, r')"
  shows "leases_ok now r' (ph(c := Inside key tok now ttl))"
proof -
  have free: "\<not> live now (r key)" and r': "r' = r(key \<mapsto> (tok, Some (now + ttl)))"
    using assms(2) by (auto simp: redis_try_def r_set_nx_def r_setex_def split: if_splits)
  have "key' \<noteq> key" if "ph c' = Inside key' tok' t' ttl'" "now < t' + ttl'" for c' key' tok' t' ttl'
    using assms(1) that free by (auto simp: leases_ok_def live_def)
  then show ?thesis
    using assms(1) unfolding leases_ok_def r'
    by (simp split: if_splits) blast
qed

lemma leases_ok_release:
  assumes "leases_ok now r ph" and "tokens_ok used ph" and "ph c = Inside key tok t ttl"
  shows "leases_ok now (redis_release now key tok r) (ph(c := Idle))"
  unfolding leases_ok_def
proof (intro allI impI)
  fix c' key' tok' t' ttl'
  assume c': "(ph(c := Idle)) c' = Inside key' tok' t' ttl' \<and> now < t' + ttl'"
  then have "c' \<noteq> c" "ph c' = Inside key' tok' t' ttl'" by (auto split: if_splits)
  moreover from this have "tok' \<noteq> tok"
    using assms(2,3) unfolding tokens_ok_def by (metis phase_token.simps(3))
  ultimately show "redis_release now key tok r key' = Some (tok', Some (t' + ttl'))"
    using assms(1) c' by (auto simp: leases_ok_def redis_release_def r_get_def r_del_def split: if_splits)
qed

lemma rl_step_inv:
  assumes "rl_step s s'" and inv: "rl_inv s"
  shows "rl_inv s'"
proof -
  have tok: "tokens_ok (rl_used s) (rl_phase s)" and lease: "leases_ok (rl_now s) (rl_redis s) (rl_phase s)"
    using inv by (simp_all add: rl_inv_def)
  show ?thesis
    using assms(1)
  proof cases
    case (rl_time t)
    then show ?thesis using tok lease by (auto simp: rl_inv_def leases_ok_def)
  next
    case (rl_enter c tok key wait ms)
    then show ?thesis
      using tokens_ok_new [OF tok] leases_ok_leave [OF lease] by (simp add: rl_inv_def move_def)
  next
    case (rl_acquire c key tok deadline ttl r')
    then show ?thesis
      using tokens_ok_keep [OF tok] leases_ok_acquire [OF lease] by (simp add: rl_inv_def move_def)
  next
    case (rl_retry c key tok deadline ttl r')
    then have "r' = rl_redis s"
      by (auto simp: redis_try_def r_set_nx_def split: if_splits)
    with inv rl_retry(1) show ?thesis by simp
  next
    case (rl_timeout c key tok deadline ttl)
    then show ?thesis
      using tokens_ok_keep [OF tok] leases_ok_leave [OF lease] by (simp add: rl_inv_def move_def)
  next
    case (rl_exit c key tok t ttl)
    then show ?thesis
      using tokens_ok_keep [OF tok] leases_ok_release [OF lease tok]
      by (simp add: rl_inv_def move_def)
  next
    case (rl_exit_lost c key tok t ttl)
    then show ?thesis
      using tokens_ok_keep [OF tok] leases_ok_leave [OF lease] by (simp add: rl_inv_def move_def)
  qed
qed

definition rl_start :: "int \<Rightarrow> rl_state" where
  "rl_start now = \<lparr>rl_now = now, rl_redis = (\<lambda>_. None), rl_phase = (\<lambda>_. Idle), rl_used = {}\<rparr>"

lemma rl_reachable_inv: "rl_step\<^sup>*\<^sup>* (rl_start now) s \<Longrightarrow> rl_inv s"
proof (induction rule: rtranclp_induct)
  case base
  show ?case by (simp add: rl_inv_def rl_start_def tokens_ok_def leases_ok_def)
qed (rule rl_step_inv)

subsection \<open>The in-memory lock\<close>

text \<open>
  \<open>asyncio.Lock\<close> of one key is its locked flag.  \<open>armed\<close> clients have a running expiry task;
  the release in \<open>_expire\<close> and the one in the \<open>finally\<close> clause only test the flag.
\<close>

record ml_state =
  ml_locked :: bool
  ml_armed :: "client set"
  ml_inside :: "client set"

definition memory_acquire :: "client \<Rightarrow> ml_state \<Rightarrow> ml_state option" where
  "memory_acquire c s =
     (if ml_locked s then None
      else Some (s\<lparr>ml_locked := True, ml_armed := insert c (ml_armed s), ml_inside := insert c (ml_inside s)\<rparr>))"

definition memory_expire :: "client \<Rightarrow> ml_state \<Rightarrow> ml_state" where
  "memory_expire c s =
     s\<lparr>ml_armed := ml_armed s - {c}, ml_locked := (if ml_locked s then False else ml_locked s)\<rparr>"

definition memory_exit :: "client \<Rightarrow> ml_state \<Rightarrow> ml_state" where
  "memory_exit c s =
     s\<lparr>ml_armed := ml_armed s - {c}, ml_inside := ml_inside s - {c},
       ml_locked := (if ml_locked s then False else ml_locked s)\<rparr>"

inductive ml_step :: "ml_state \<Rightarrow> ml_state \<Rightarrow> bool" where
  ml_acquire: "c \<notin> ml_inside s \<Longrightarrow> memory_acquire c s = Some s' \<Longrightarrow> ml_step s s'"
| ml_expire: "c \<in> ml_armed s \<Longrightarrow> ml_step s (memory_expire c s)"
| ml_exit: "c \<in> ml_inside s \<Longrightarrow> ml_step s (memory_exit c s)"

definition ml_start :: ml_state where
  "ml_start = \<lparr>ml_locked = False, ml_armed = {}, ml_inside = {}\<rparr>"

text \<open>Runs in which nobody overstays: a lease never expires.\<close>

inductive ml_prompt_step :: "ml_state \<Rightarrow> ml_state \<Rightarrow> bool" where
  mlp_acquire: "c \<notin> ml_inside s \<Longrightarrow> memory_acquire c s = Some s' \<Longrightarrow> ml_prompt_step s s'"
| mlp_exit: "c \<in> ml_inside s \<Longrightarrow> ml_prompt_step s (memory_exit c s)"

lemma ml_prompt_inv:
  "ml_prompt_step\<^sup>*\<^sup>* ml_start s \<Longrightarrow> (ml_locked s \<and> (\<exists>c. ml_inside s = {c})) \<or> (\<not> ml_locked s \<and> ml_inside s = {})"
proof (induction rule: rtranclp_induct)
  case (step s s')
  from step.hyps(2) step.IH show ?case
    by cases (auto simp: memory_acquire_def memory_exit_def split: if_splits)
qed (simp add: ml_start_def)

subsection \<open>Properties\<close>

text \<open>
  C14. The Redis lock excludes: in every reachable state two clients inside the block of one
  key cannot both have an unexpired lease, however slow clients are, whatever expires, and
  whichever releases fail.
\<close>

theorem redis_lock_excludes:
  assumes "rl_step\<^sup>*\<^sup>* (rl_start now0) s"
    and "rl_phase s c1 = Inside key tok1 t1 ttl1" and "rl_now s < t1 + ttl1"
    and "rl_phase s c2 = Inside key tok2 t2 ttl2" and "rl_now s < t2 + ttl2"
  shows "c1 = c2"
proof -
  note inv = rl_reachable_inv [OF assms(1)]
  have "rl_redis s key = Some (tok1, Some (t1 + ttl1))" "rl_redis s key = Some (tok2, Some (t2 + ttl2))"
    using inv assms(2-5) unfolding rl_inv_def leases_ok_def by blast+
  then have "tok1 = tok2" by simp
  with inv assms(2,4) show ?thesis
    unfolding rl_inv_def tokens_ok_def by (metis phase_token.simps(3))
qed

theorem redis_lock_excludes_witness:
  "\<exists>s. rl_step\<^sup>*\<^sup>* (rl_start 0) s \<and> rl_phase s 1 = Inside ''k'' 9 0 100 \<and> rl_now s < 0 + 100 \<and>
     (\<forall>c tok t ttl. rl_phase s c = Inside ''k'' tok t ttl \<and> rl_now s < t + ttl \<longrightarrow> c = 1)"
proof -
  let ?s0 = "rl_start 0"
  let ?s1 = "(move 1 (Waiting ''k'' 9 (rl_now ?s0 + 30) (ttl_ms 100)) ?s0)\<lparr>rl_used := insert 9 (rl_used ?s0)\<rparr>"
  have s1: "rl_step ?s0 ?s1"
    by (rule rl_enter) (simp_all add: rl_start_def)
  let ?r = "snd (redis_try (rl_now ?s1) ''k'' 9 (ttl_ms 100) (rl_redis ?s1))"
  let ?s2 = "(move 1 (Inside ''k'' 9 (rl_now ?s1) (ttl_ms 100)) ?s1)\<lparr>rl_redis := ?r\<rparr>"
  have s2: "rl_step ?s1 ?s2"
    by (rule rl_acquire [where deadline = 30])
      (simp_all add: rl_start_def move_def redis_try_def r_set_nx_def live_def)
  have reach: "rl_step\<^sup>*\<^sup>* ?s0 ?s2"
    using s1 s2 by (meson r_into_rtranclp rtranclp_trans)
  have p: "rl_phase ?s2 1 = Inside ''k'' 9 0 100" "rl_now ?s2 < 0 + 100"
    by (simp_all add: rl_start_def move_def ttl_ms_def)
  have "c = 1" if "rl_phase ?s2 c = Inside ''k'' tok t ttl" "rl_now ?s2 < t + ttl" for c tok t ttl
    using redis_lock_excludes [OF reach that p] by simp
  with reach p show ?thesis by blast
qed

text \<open>
  The in-memory lock excludes only as long as no lease expires.  Once a client overstays
  its lease, its own exit releases the lock of the next holder: two clients are then inside
  with running leases.
\<close>

theorem memory_lock_breaks_after_expiry:
  "(\<forall>s. ml_prompt_step\<^sup>*\<^sup>* ml_start s \<longrightarrow> (\<forall>c1 \<in> ml_inside s. \<forall>c2 \<in> ml_inside s. c1 = c2)) \<and>
   (a \<noteq> b \<and> a \<noteq> c \<and> b \<noteq> c \<longrightarrow>
     (\<exists>s. ml_step\<^sup>*\<^sup>* ml_start s \<and> b \<in> ml_inside s \<and> b \<in> ml_armed s \<and> c \<in> ml_inside s \<and> c \<in> ml_armed s))"
proof -
  have "ml_prompt_step\<^sup>*\<^sup>* ml_start s \<longrightarrow> (\<forall>c1 \<in> ml_inside s. \<forall>c2 \<in> ml_inside s. c1 = c2)" for s
    using ml_prompt_inv [of s] by auto
  moreover have "\<exists>s. ml_step\<^sup>*\<^sup>* ml_start s \<and> b \<in> ml_inside s \<and> b \<in> ml_armed s \<and> c \<in> ml_inside s \<and> c \<in> ml_armed s"
    if d: "a \<noteq> b" "a \<noteq> c" "b \<noteq> c"
  proof -
    let ?s1 = "the (memory_acquire a ml_start)"
    let ?s2 = "memory_expire a ?s1"
    let ?s3 = "the (memory_acquire b ?s2)"
    let ?s4 = "memory_exit a ?s3"
    let ?s5 = "the (memory_acquire c ?s4)"
    note defs = ml_start_def memory_acquire_def memory_expire_def memory_exit_def
    have "ml_step ml_start ?s1" by (rule ml_acquire [of a]) (simp_all add: defs)
    moreover have "ml_step ?s1 ?s2" by (rule ml_expire) (simp add: defs)
    moreover have "ml_step ?s2 ?s3" by (rule ml_acquire [of b]) (use d in \<open>simp_all add: defs\<close>)
    moreover have "ml_step ?s3 ?s4" by (rule ml_exit) (simp add: defs)
    moreover have "ml_step ?s4 ?s5" by (rule ml_acquire [of c]) (use d in \<open>simp_all add: defs\<close>)
    ultimately have "ml_step\<^sup>*\<^sup>* ml_start ?s5"
      by (meson converse_rtranclp_into_rtranclp rtranclp.rtrancl_refl)
    moreover have "b \<in> ml_inside ?s5 \<and> b \<in> ml_armed ?s5 \<and> c \<in> ml_inside ?s5 \<and> c \<in> ml_armed ?s5"
      using d by (simp add: defs)
    ultimately show ?thesis by blast
  qed
  ultimately show ?thesis by blast
qed

theorem memory_lock_breaks_after_expiry_witness:
  "\<exists>s. ml_step\<^sup>*\<^sup>* ml_start s \<and> 2 \<in> ml_inside s \<and> 2 \<in> ml_armed s \<and> 3 \<in> ml_inside s \<and> 3 \<in> ml_armed s"
  using memory_lock_breaks_after_expiry [of 1 2 3] by simp

end
