(* ===== verification/Redis_Keys.thy ===== *)
theory Redis_Keys
  imports Redis_Model Py_Values
begin

text \<open>
  The keys the limits build by joining parts with colons.  A part without a colon can be read
  back, so different parts give different keys.
\<close>

definition colon_free :: "string \<Rightarrow> bool" where
  "colon_free s \<longleftrightarrow> CHR '':'' \<notin> set s"

lemma colon_free_split:
  "colon_free a \<Longrightarrow> colon_free b \<Longrightarrow> a @ CHR '':'' # x = b @ CHR '':'' # y \<longleftrightarrow> a = b \<and> x = y"
proof (induction a arbitrary: b)
  case (Cons c a)
  then show ?case by (cases b) (auto simp: colon_free_def)
next
  case Nil
  then show ?case by (cases b) (auto simp: colon_free_def)
qed

lemma colon_free_no_split: "colon_free a \<Longrightarrow> a \<noteq> b @ CHR '':'' # x"
  by (auto simp: colon_free_def)

subsection \<open>Decimal numerals\<close>

definition digit_char :: "char \<Rightarrow> bool" where
  "digit_char c \<longleftrightarrow> 48 \<le> (of_char c :: nat) \<and> (of_char c :: nat) \<le> 57"

lemma digit_char_of [simp]: "n < 10 \<Longrightarrow> digit_char (char_of (48 + n :: nat))"
  by (simp add: digit_char_def)

lemma digits_chars: "c \<in> set (digits n) \<Longrightarrow> digit_char c"
proof (induction n rule: digits.induct)
  case (1 n)
  show ?case
  proof (cases "n < 10")
    case True
    with 1(2) show ?thesis by (simp add: digits.simps [of n])
  next
    case False
    with 1 show ?thesis by (auto simp: digits.simps [of n])
  qed
qed

lemma digits_ne [simp]: "digits n \<noteq> []"
  by (subst digits.simps) simp

lemma digits_inj: "digits n = digits m \<longleftrightarrow> n = m"
proof
  have digit: "of_char (char_of (48 + k) :: char) - 48 = k" if "k < 10" for k :: nat
    using that by simp
  have "digits n = digits m \<Longrightarrow> n = m"
  proof (induction n arbitrary: m rule: digits.induct)
    case (1 n)
    have small: "length (digits k) = 1 \<longleftrightarrow> k < 10" for k
      by (subst digits.simps) simp
    show ?case
    proof (cases "n < 10")
      case True
      with 1(2) small [of n] small [of m] have "m < 10" by simp
      with True 1(2) have "(char_of (48 + n) :: char) = char_of (48 + m)"
        by (simp add: digits.simps [of n] digits.simps [of m])
      with True \<open>m < 10\<close> digit show ?thesis by metis
    next
      case False
      with 1(2) small [of n] small [of m] have m: "\<not> m < 10" by simp
      with False 1(2) have "digits (n div 10) = digits (m div 10)"
        and "(char_of (48 + n mod 10) :: char) = char_of (48 + m mod 10)"
        by (simp_all add: digits.simps [of n] digits.simps [of m])
      then have "n div 10 = m div 10" "n mod 10 = m mod 10"
        using 1(1) [OF False] digit [of "n mod 10"] digit [of "m mod 10"] by (blast, metis mod_less_divisor zero_less_numeral)
      then show ?thesis by (metis div_mult_mod_eq)
    qed
  qed
  then show "digits n = digits m \<Longrightarrow> n = m" .
qed simp

lemma digits_not_minus: "digits n \<noteq> CHR ''-'' # s"
  using digits_chars [of "CHR ''-''" n] by (auto simp: digit_char_def)

lemma str_int_inj [simp]: "str_int i = str_int j \<longleftrightarrow> i = j"
  using digits_not_minus [of "nat i"] digits_not_minus [of "nat j"]
  by (auto simp: str_int_def digits_inj dest: sym)

lemma colon_free_str_int [simp]: "colon_free (str_int i)"
  using digits_chars [of "CHR '':''"] by (auto simp: colon_free_def str_int_def digit_char_def)

subsection \<open>User and agent in a key\<close>

text \<open>An agent id is left out of a key when it is missing or empty.\<close>

definition agent_part :: "string option \<Rightarrow> string option" where
  "agent_part a = (if a = Some [] then None else a)"

definition plain_ids :: "string \<Rightarrow> string option \<Rightarrow> bool" where
  "plain_ids u a \<longleftrightarrow> colon_free u \<and> pred_option colon_free a"

definition slot_text :: "string \<Rightarrow> string option \<Rightarrow> string \<Rightarrow> string" where
  "slot_text u a z = (case a of None \<Rightarrow> u @ '':'' @ z | Some x \<Rightarrow> u @ '':'' @ x @ '':'' @ z)"

lemma slot_text_inj:
  assumes "plain_ids u a" and "plain_ids v b" and "colon_free y" and "colon_free z"
  shows "slot_text u a y = slot_text v b z \<longleftrightarrow> u = v \<and> a = b \<and> y = z"
  using assms colon_free_no_split [of y] colon_free_no_split [of z]
  by (cases a; cases b) (auto simp: slot_text_def plain_ids_def colon_free_split)

lemma plain_ids_agent_part [simp]: "plain_ids u a \<Longrightarrow> plain_ids u (agent_part a)"
  by (simp add: plain_ids_def agent_part_def)

end
