(* ===== verification/Rate_Limit.thy ===== *)
theory Rate_Limit
  imports Redis_Keys
begin

text \<open>
  \<open>web/rate_limit.py\<close>: the fixed-window counter of turns.  Times are milliseconds; the window
  number of the key is the minute.  \<open>None\<close> for the Redis client disables the limit.
\<close>

definition DEFAULT_TURN_RATE_PER_MIN :: int where "DEFAULT_TURN_RATE_PER_MIN = 60"
definition WINDOW_SECONDS :: int where "WINDOW_SECONDS = 60"

definition rate_bucket :: "int \<Rightarrow> int" where
  "rate_bucket now = now div (WINDOW_SECONDS * 1000)"

definition rate_key :: "string \<Rightarrow> string option \<Rightarrow> int \<Rightarrow> string" where
  "rate_key user_id agent_id now =
     (let bucket = str_int (rate_bucket now) in
      case agent_id of
        Some (c # cs) \<Rightarrow> ''rate:turn:'' @ user_id @ '':'' @ (c # cs) @ '':'' @ bucket
      | _ \<Rightarrow> ''rate:turn:'' @ user_id @ '':'' @ bucket)"

definition rate_cap :: "int option \<Rightarrow> int" where
  "rate_cap limit_per_min = (case limit_per_min of None \<Rightarrow> DEFAULT_TURN_RATE_PER_MIN | Some n \<Rightarrow> n)"

definition check_and_consume ::
  "int \<Rightarrow> string \<Rightarrow> string option \<Rightarrow> int option \<Rightarrow> int redis option \<Rightarrow> bool \<times> int redis option"
where
  "check_and_consume now user_id agent_id limit_per_min redis =
     (case redis of
        None \<Rightarrow> (True, None)
      | Some r \<Rightarrow>
          (let cap = rate_cap limit_per_min in
           if cap \<le> 0 then (True, Some r)
           else
             (let (count, r') = r_count now (rate_key user_id agent_id now) 1 (WINDOW_SECONDS * 2 * 1000) r
              in (count \<le> cap, Some r'))))"

subsection \<open>Keys\<close>

text \<open>A slot is one counter: the user, the agent unless it is empty, and the minute.\<close>

type_synonym slot = "string \<times> string option \<times> int"

definition rate_slot :: "string \<Rightarrow> string option \<Rightarrow> int \<Rightarrow> slot" where
  "rate_slot u a now = (u, agent_part a, rate_bucket now)"

lemma rate_key_slot:
  "rate_key u a now = ''rate:turn:'' @ slot_text u (agent_part a) (str_int (rate_bucket now))"
  by (auto simp: rate_key_def slot_text_def agent_part_def Let_def split: option.splits list.splits)

lemma rate_key_eq:
  assumes "plain_ids u a" and "plain_ids v b"
  shows "rate_key u a now = rate_key v b now' \<longleftrightarrow> rate_slot u a now = rate_slot v b now'"
  using slot_text_inj [OF plain_ids_agent_part [OF assms(1)] plain_ids_agent_part [OF assms(2)]]
  by (auto simp: rate_key_slot rate_slot_def)

subsection \<open>Runs of calls and what they promise\<close>

record rate_call =
  rc_now :: int
  rc_user :: string
  rc_agent :: "string option"
  rc_limit :: "int option"

fun rate_run :: "int redis option \<Rightarrow> rate_call list \<Rightarrow> bool list" where
  "rate_run r [] = []"
| "rate_run r (c # cs) =
     (let (ok, r') = check_and_consume (rc_now c) (rc_user c) (rc_agent c) (rc_limit c) r
      in ok # rate_run r' cs)"

definition call_slot :: "rate_call \<Rightarrow> slot" where
  "call_slot c = rate_slot (rc_user c) (rc_agent c) (rc_now c)"

text \<open>The contract: a call with a cap passes when fewer than the cap went before it in its slot.\<close>

fun rate_spec :: "slot list \<Rightarrow> rate_call list \<Rightarrow> bool list" where
  "rate_spec h [] = []"
| "rate_spec h (c # cs) =
     (if rate_cap (rc_limit c) \<le> 0 then True # rate_spec h cs
      else (int (count_list h (call_slot c)) < rate_cap (rc_limit c)) # rate_spec (call_slot c # h) cs)"

text \<open>From \<open>t\<close> on, the counters of the current minute hold the number of calls of their slot.\<close>

definition counts_ok :: "int \<Rightarrow> slot list \<Rightarrow> int redis \<Rightarrow> bool" where
  "counts_ok t h r \<longleftrightarrow>
     (\<forall>t' u a. t \<le> t' \<and> plain_ids u a \<longrightarrow>
        r_get t' (rate_key u a t') r =
          (let n = count_list h (rate_slot u a t') in if n = 0 then None else Some (int n)))"

lemma counts_ok_later: "counts_ok t h r \<Longrightarrow> t \<le> t' \<Longrightarrow> counts_ok t' h r"
  by (simp add: counts_ok_def)

lemma same_minute: "rate_bucket now = rate_bucket t' \<Longrightarrow> t' < now + 120000"
  unfolding rate_bucket_def WINDOW_SECONDS_def
  using div_mult_mod_eq [of now 60000] div_mult_mod_eq [of t' 60000]
    pos_mod_bound [of 60000 now] pos_mod_bound [of 60000 t']
    pos_mod_sign [of 60000 now] pos_mod_sign [of 60000 t']
  by simp

lemma counts_ok_count:
  assumes ok: "counts_ok now h r" and ids: "plain_ids u a"
  shows "fst (r_count now (rate_key u a now) 1 120000 r) = int (count_list h (rate_slot u a now)) + 1"
    and "counts_ok now (rate_slot u a now # h) (snd (r_count now (rate_key u a now) 1 120000 r))"
proof -
  let ?n = "count_list h (rate_slot u a now)"
  have "r_get now (rate_key u a now) r = (if ?n = 0 then None else Some (int ?n))"
    using ok ids by (simp add: counts_ok_def Let_def)
  then show fst: "fst (r_count now (rate_key u a now) 1 120000 r) = int ?n + 1"
    by (simp add: r_count_value)
  show "counts_ok now (rate_slot u a now # h) (snd (r_count now (rate_key u a now) 1 120000 r))"
    unfolding counts_ok_def
  proof (intro allI impI)
    fix t' v b assume t': "now \<le> t' \<and> plain_ids v b"
    show "r_get t' (rate_key v b t') (snd (r_count now (rate_key u a now) 1 120000 r)) =
      (let n = count_list (rate_slot u a now # h) (rate_slot v b t') in if n = 0 then None else Some (int n))"
    proof (cases "rate_slot v b t' = rate_slot u a now")
      case True
      then have "t' < now + 120000"
        using same_minute by (simp add: rate_slot_def)
      moreover have "rate_key v b t' = rate_key u a now"
        using True rate_key_eq ids t' by blast
      ultimately show ?thesis
        using True fst by (simp add: r_get_count)
    next
      case False
      then have "rate_key v b t' \<noteq> rate_key u a now"
        using rate_key_eq ids t' by blast
      with False ok t' show ?thesis
        by (simp add: r_get_count counts_ok_def)
    qed
  qed
qed

lemma rate_run_spec:
  assumes "counts_ok t h r" and "sorted (t # map rc_now cs)"
    and "list_all (\<lambda>c. plain_ids (rc_user c) (rc_agent c)) cs"
  shows "rate_run (Some r) cs = rate_spec h cs"
  using assms
proof (induction cs arbitrary: t h r)
  case (Cons c cs)
  let ?k = "rate_key (rc_user c) (rc_agent c) (rc_now c)"
  have ok: "counts_ok (rc_now c) h r" and ids: "plain_ids (rc_user c) (rc_agent c)"
    and s: "sorted (rc_now c # map rc_now cs)"
    using Cons.prems counts_ok_later by (simp, simp_all)
  show ?case
  proof (cases "rate_cap (rc_limit c) \<le> 0")
    case True
    with Cons.IH [OF ok s] Cons.prems(3) show ?thesis
      by (simp add: check_and_consume_def)
  next
    case False
    note count = counts_ok_count [OF ok ids]
    obtain n r' where n: "r_count (rc_now c) ?k 1 120000 r = (n, r')" by fastforce
    from count n have "n = int (count_list h (call_slot c)) + 1" "counts_ok (rc_now c) (call_slot c # h) r'"
      by (simp_all add: call_slot_def)
    with False Cons.IH [OF _ s] Cons.prems(3) n show ?thesis
      by (auto simp: check_and_consume_def WINDOW_SECONDS_def Let_def)
  qed
qed simp

subsection \<open>Properties\<close>

text \<open>
  C15. The rate limiter is exact: over any sequence of calls in time order, from an empty
  store, a call passes exactly when fewer calls than its cap were counted for the same user,
  agent and minute before it; calls of other users, other agents and other minutes have no
  effect, and the 120 s expiry never loses a count.
\<close>

theorem rate_limit_exact:
  assumes "sorted (map rc_now cs)" and "list_all (\<lambda>c. plain_ids (rc_user c) (rc_agent c)) cs"
  shows "rate_run (Some (\<lambda>_. None)) cs = rate_spec [] cs"
proof (cases cs)
  case (Cons c cs')
  have "counts_ok (rc_now c) [] (\<lambda>_. None)"
    by (simp add: counts_ok_def r_get_def live_def)
  then show ?thesis
    using rate_run_spec [of "rc_now c" "[]" "\<lambda>_. None" cs] assms Cons by simp
qed simp

theorem rate_limit_exact_witness:
  "rate_run (Some (\<lambda>_. None))
     [\<lparr>rc_now = 59000, rc_user = ''u'', rc_agent = None, rc_limit = Some 1\<rparr>,
      \<lparr>rc_now = 59500, rc_user = ''u'', rc_agent = None, rc_limit = Some 1\<rparr>,
      \<lparr>rc_now = 59600, rc_user = ''u'', rc_agent = Some ''a'', rc_limit = Some 1\<rparr>,
      \<lparr>rc_now = 60000, rc_user = ''u'', rc_agent = None, rc_limit = Some 1\<rparr>]
   = [True, False, True, True]"
  by (subst rate_limit_exact)
    (simp_all add: plain_ids_def colon_free_def rate_cap_def call_slot_def rate_slot_def
      agent_part_def rate_bucket_def WINDOW_SECONDS_def)

end
