(* ===== verification/Cost_Budget.thy ===== *)
theory Cost_Budget
  imports Redis_Keys
begin

text \<open>
  \<open>web/cost_budget.py\<close>: the daily cost counter with its budget check and its one alert per
  day.  Times are milliseconds since 1970 in UTC; counters and alert marks live in one store.
\<close>

subsection \<open>The day of a moment\<close>

type_synonym date = "nat \<times> nat \<times> nat"

definition leap_year :: "nat \<Rightarrow> bool" where
  "leap_year y \<longleftrightarrow> (y mod 4 = 0 \<and> y mod 100 \<noteq> 0) \<or> y mod 400 = 0"

definition month_days :: "nat \<Rightarrow> nat \<Rightarrow> nat" where
  "month_days y m =
     (if m = 2 then (if leap_year y then 29 else 28) else if m \<in> {4, 6, 9, 11} then 30 else 31)"

fun next_date :: "date \<Rightarrow> date" where
  "next_date (y, m, d) =
     (if d < month_days y m then (y, m, d + 1) else if m < 12 then (y, m + 1, 1) else (y + 1, 1, 1))"

definition day_number :: "int \<Rightarrow> nat" where
  "day_number now = nat (now div 86400000)"

definition date_of_day :: "nat \<Rightarrow> date" where
  "date_of_day n = (next_date ^^ n) (1970, 1, 1)"

definition pad2 :: "nat \<Rightarrow> string" where
  "pad2 n = (if n < 10 then CHR ''0'' # digits n else digits n)"

fun date_text :: "date \<Rightarrow> string" where
  "date_text (y, m, d) = digits y @ pad2 m @ pad2 d"

definition ymd :: "int \<Rightarrow> string" where
  "ymd now = date_text (date_of_day (day_number now))"

fun valid_date :: "date \<Rightarrow> bool" where
  "valid_date (y, m, d) \<longleftrightarrow> 1 \<le> m \<and> m \<le> 12 \<and> 1 \<le> d \<and> d \<le> month_days y m"

fun date_rank :: "date \<Rightarrow> nat" where
  "date_rank (y, m, d) = y * 10000 + m * 100 + d"

lemma month_days_bounds: "28 \<le> month_days y m" "month_days y m \<le> 31"
  by (simp_all add: month_days_def)

lemma next_date_valid: "valid_date x \<Longrightarrow> valid_date (next_date x)"
  using month_days_bounds(1) by (cases x) (auto simp: Suc_le_eq intro: le_trans [of _ 28] less_le_trans [of 0 28])

lemma next_date_rank: "valid_date x \<Longrightarrow> date_rank x < date_rank (next_date x)"
proof (cases x)
  case (fields y m d)
  assume "valid_date x"
  with fields have "d \<le> 31" "m \<le> 12" using month_days_bounds(2) [of y m] by auto
  with fields show ?thesis by auto
qed

lemma date_of_day_valid: "valid_date (date_of_day n)"
  by (induction n) (simp_all add: date_of_day_def month_days_def next_date_valid)

lemma date_of_day_mono: "n < k \<Longrightarrow> date_rank (date_of_day n) < date_rank (date_of_day k)"
proof (induction k)
  case (Suc k)
  have "date_of_day (Suc k) = next_date (date_of_day k)" by (simp add: date_of_day_def)
  with Suc next_date_rank [OF date_of_day_valid [of k]] show ?case
    by (cases "n = k") auto
qed simp

lemma date_of_day_inj: "date_of_day n = date_of_day k \<longleftrightarrow> n = k"
  using date_of_day_mono [of n k] date_of_day_mono [of k n] by (cases n k rule: linorder_cases) auto

lemma pad2_length: "n < 100 \<Longrightarrow> length (pad2 n) = 2"
proof -
  assume "n < 100"
  then have "length (digits n) = (if n < 10 then 1 else 2)"
    by (subst digits.simps) (auto simp: digits.simps [of "n div 10"])
  then show ?thesis by (simp add: pad2_def)
qed

lemma code48: "(of_char (CHR ''0'') :: nat) = 48"
  by simp

lemma pad2_inj: "n < 100 \<Longrightarrow> k < 100 \<Longrightarrow> pad2 n = pad2 k \<longleftrightarrow> n = k"
proof -
  assume n: "n < 100" and k: "k < 100"
  have len: "length (digits j) = (if j < 10 then 1 else 2)" if "j < 100" for j
    using that by (subst digits.simps) (auto simp: digits.simps [of "j div 10"])
  have lead: "CHR ''0'' # w \<noteq> digits j" if "10 \<le> j" "j < 100" for j w
  proof -
    have "digits j = [char_of (48 + j div 10), char_of (48 + j mod 10)]"
      using that by (subst digits.simps) (auto simp: digits.simps [of "j div 10"])
    moreover have "0 < j div 10" "j div 10 < 10" using that by auto
    ultimately have "(of_char (hd (digits j)) :: nat) = 48 + j div 10" by simp
    with \<open>0 < j div 10\<close> show ?thesis by (metis code48 list.sel(1) add_cancel_left_right less_irrefl)
  qed
  with n k len show ?thesis
    using lead [of k "digits n"] lead [of n "digits k"]
    unfolding pad2_def by (auto simp: digits_inj dest: sym)
qed

lemma date_text_inj:
  assumes "valid_date x" and "valid_date y"
  shows "date_text x = date_text y \<longleftrightarrow> x = y"
proof -
  obtain a m d where x: "x = (a, m, d)" by (cases x)
  obtain b n e where y: "y = (b, n, e)" by (cases y)
  have small: "m < 100" "d < 100" "n < 100" "e < 100"
    using assms x y month_days_bounds(2) [of a m] month_days_bounds(2) [of b n] by auto
  then have len: "length (pad2 m) = length (pad2 n)" "length (pad2 d) = length (pad2 e)"
    "length (pad2 m @ pad2 d) = length (pad2 n @ pad2 e)"
    by (simp_all add: pad2_length)
  show ?thesis
    using small len append_eq_append_conv [of "digits a" "digits b" "pad2 m @ pad2 d" "pad2 n @ pad2 e"]
    by (auto simp: x y pad2_inj digits_inj)
qed

lemma ymd_eq: "ymd now = ymd now' \<longleftrightarrow> day_number now = day_number now'"
  by (simp add: ymd_def date_text_inj date_of_day_valid date_of_day_inj)

lemma colon_free_ymd [simp]: "colon_free (ymd now)"
proof -
  have "CHR '':'' \<notin> set (digits n)" for n
    using digits_chars [of "CHR '':''" n] by (auto simp: digit_char_def)
  then show ?thesis
    unfolding ymd_def colon_free_def by (cases "date_of_day (day_number now)") (auto simp: pad2_def)
qed

subsection \<open>The counter\<close>

definition COST_TTL_SECONDS :: int where "COST_TTL_SECONDS = 86400 * 2"
definition ALERT_THRESHOLD_PCT :: int where "ALERT_THRESHOLD_PCT = 80"

definition counter_key :: "string \<Rightarrow> string \<Rightarrow> string option \<Rightarrow> string" where
  "counter_key user_id day agent_id =
     (case agent_id of
        Some (c # cs) \<Rightarrow> ''cost:day:'' @ user_id @ '':'' @ (c # cs) @ '':'' @ day
      | _ \<Rightarrow> ''cost:day:'' @ user_id @ '':'' @ day)"

definition alert_key :: "string \<Rightarrow> string \<Rightarrow> string option \<Rightarrow> string" where
  "alert_key user_id day agent_id =
     (case agent_id of
        Some (c # cs) \<Rightarrow> ''cost:alerted:'' @ user_id @ '':'' @ (c # cs) @ '':'' @ day
      | _ \<Rightarrow> ''cost:alerted:'' @ user_id @ '':'' @ day)"

definition get_spent_micro :: "int \<Rightarrow> string \<Rightarrow> string option \<Rightarrow> int redis option \<Rightarrow> int" where
  "get_spent_micro now user_id agent_id redis =
     (case redis of
        None \<Rightarrow> 0
      | Some r \<Rightarrow> (case r_get now (counter_key user_id (ymd now) agent_id) r of None \<Rightarrow> 0 | Some n \<Rightarrow> n))"

definition check_budget ::
  "int \<Rightarrow> string \<Rightarrow> string option \<Rightarrow> int option \<Rightarrow> int redis option \<Rightarrow> bool"
where
  "check_budget now user_id agent_id budget_micro redis =
     (case (redis, budget_micro) of
        (Some r, Some budget) \<Rightarrow> budget \<le> 0 \<or> get_spent_micro now user_id agent_id redis < budget
      | _ \<Rightarrow> True)"

text \<open>The result is the new total and whether the alert metric was emitted.\<close>

definition record_cost ::
  "int \<Rightarrow> string \<Rightarrow> string option \<Rightarrow> int \<Rightarrow> int option \<Rightarrow> int redis option
     \<Rightarrow> (int \<times> bool) \<times> int redis option"
where
  "record_cost now user_id agent_id cost_micro budget_micro redis =
     (case redis of
        None \<Rightarrow> ((0, False), None)
      | Some r \<Rightarrow>
          (if cost_micro \<le> 0 then ((0, False), Some r)
           else
             (let day = ymd now;
                  (total, r1) = r_count now (counter_key user_id day agent_id) cost_micro
                    (COST_TTL_SECONDS * 1000) r
              in case budget_micro of
                   None \<Rightarrow> ((total, False), Some r1)
                 | Some budget \<Rightarrow>
                     (if 0 < budget then
                        (let threshold = budget * ALERT_THRESHOLD_PCT div 100;
                             previous = total - cost_micro
                         in if previous < threshold \<and> threshold \<le> total then
                              (let (fresh, r2) = r_set_nx now (alert_key user_id day agent_id)
                                 (COST_TTL_SECONDS * 1000) 1 r1
                               in ((total, fresh), Some r2))
                            else ((total, False), Some r1))
                      else ((total, False), Some r1)))))"

subsection \<open>Keys and days\<close>

type_synonym cost_slot = "string \<times> string option \<times> nat"

definition cost_slot :: "string \<Rightarrow> string option \<Rightarrow> int \<Rightarrow> cost_slot" where
  "cost_slot u a now = (u, agent_part a, day_number now)"

lemma counter_key_slot: "counter_key u z a = ''cost:day:'' @ slot_text u (agent_part a) z"
  by (auto simp: counter_key_def slot_text_def agent_part_def split: option.splits list.splits)

lemma alert_key_slot: "alert_key u z a = ''cost:alerted:'' @ slot_text u (agent_part a) z"
  by (auto simp: alert_key_def slot_text_def agent_part_def split: option.splits list.splits)

lemma cost_keys_eq:
  assumes "plain_ids u a" and "plain_ids v b"
  shows "counter_key u (ymd t) a = counter_key v (ymd t') b \<longleftrightarrow> cost_slot u a t = cost_slot v b t'"
    and "alert_key u (ymd t) a = alert_key v (ymd t') b \<longleftrightarrow> cost_slot u a t = cost_slot v b t'"
  using slot_text_inj [OF plain_ids_agent_part [OF assms(1)] plain_ids_agent_part [OF assms(2)]]
  by (auto simp: counter_key_slot alert_key_slot cost_slot_def ymd_eq)

lemma cost_keys_apart: "counter_key u z a \<noteq> alert_key v w b"
  by (simp add: counter_key_slot alert_key_slot)

lemma same_day:
  assumes "0 \<le> now" and "now \<le> t'" and "day_number now = day_number t'"
  shows "t' < now + 172800000"
proof -
  have "now div 86400000 = t' div 86400000"
    using assms by (simp add: day_number_def nat_eq_iff pos_imp_zdiv_nonneg_iff)
  then show ?thesis
    using div_mult_mod_eq [of now 86400000] div_mult_mod_eq [of t' 86400000]
      pos_mod_bound [of 86400000 t'] pos_mod_sign [of 86400000 now] by simp
qed

subsection \<open>The ledger\<close>

datatype cost_event =
    Record int string "string option" int "int option"
  | Check int string "string option" "int option"

datatype cost_answer = Recorded int bool | Within bool

fun event_now :: "cost_event \<Rightarrow> int" where
  "event_now (Record now u a c b) = now"
| "event_now (Check now u a b) = now"

fun event_ids :: "cost_event \<Rightarrow> bool" where
  "event_ids (Record now u a c b) = plain_ids u a"
| "event_ids (Check now u a b) = plain_ids u a"

fun cost_run :: "int redis option \<Rightarrow> cost_event list \<Rightarrow> cost_answer list" where
  "cost_run r [] = []"
| "cost_run r (Record now u a c b # es) =
     (let ((total, alert), r') = record_cost now u a c b r in Recorded total alert # cost_run r' es)"
| "cost_run r (Check now u a b # es) = Within (check_budget now u a b r) # cost_run r es"

definition spent :: "(cost_slot \<times> int) list \<Rightarrow> cost_slot \<Rightarrow> int" where
  "spent h s = sum_list (map snd (filter (\<lambda>(s', c). s' = s) h))"

text \<open>
  The contract: a ledger of the costs recorded so far and the set of slots that had their
  alert.  A budget is kept while the sum of the day is below it; an alert is given when the sum
  crosses four fifths of the budget, once per slot.
\<close>

definition crosses :: "int option \<Rightarrow> int \<Rightarrow> int \<Rightarrow> bool" where
  "crosses b previous amount =
     (case b of None \<Rightarrow> False
      | Some n \<Rightarrow> 0 < n \<and> previous < n * 80 div 100 \<and> n * 80 div 100 \<le> amount)"

fun cost_spec :: "(cost_slot \<times> int) list \<Rightarrow> cost_slot set \<Rightarrow> cost_event list \<Rightarrow> cost_answer list" where
  "cost_spec h A [] = []"
| "cost_spec h A (Record now u a c b # es) =
     (if c \<le> 0 then Recorded 0 False # cost_spec h A es
      else
        (let s = cost_slot u a now;
             total = spent h s + c;
             alert = crosses b (spent h s) total \<and> s \<notin> A
         in Recorded total alert # cost_spec ((s, c) # h) (if alert then insert s A else A) es))"
| "cost_spec h A (Check now u a b # es) =
     Within (case b of None \<Rightarrow> True | Some n \<Rightarrow> n \<le> 0 \<or> spent h (cost_slot u a now) < n) # cost_spec h A es"

definition ledger_ok :: "int \<Rightarrow> (cost_slot \<times> int) list \<Rightarrow> cost_slot set \<Rightarrow> int redis \<Rightarrow> bool" where
  "ledger_ok t h A r \<longleftrightarrow> 0 \<le> t \<and>
     (\<forall>t' u a. t \<le> t' \<and> plain_ids u a \<longrightarrow>
        r_get t' (counter_key u (ymd t') a) r =
          (if cost_slot u a t' \<in> fst ` set h then Some (spent h (cost_slot u a t')) else None) \<and>
        (r_get t' (alert_key u (ymd t') a) r = None \<longleftrightarrow> cost_slot u a t' \<notin> A))"

lemma ledger_ok_later: "ledger_ok t h A r \<Longrightarrow> t \<le> t' \<Longrightarrow> ledger_ok t' h A r"
  by (simp add: ledger_ok_def)

lemma spent_none: "s \<notin> fst ` set h \<Longrightarrow> spent h s = 0"
  unfolding spent_def by (induction h) auto

lemma spent_Cons [simp]: "spent ((s', c) # h) s = (if s' = s then c + spent h s else spent h s)"
  by (simp add: spent_def)

lemma ledger_ok_count:
  assumes ok: "ledger_ok now h A r" and ids: "plain_ids u a"
  shows "fst (r_count now (counter_key u (ymd now) a) c 172800000 r) = spent h (cost_slot u a now) + c"
    and "ledger_ok now ((cost_slot u a now, c) # h) A
      (snd (r_count now (counter_key u (ymd now) a) c 172800000 r))"
proof -
  let ?s = "cost_slot u a now" and ?k = "counter_key u (ymd now) a"
  have now: "0 \<le> now" using ok by (simp add: ledger_ok_def)
  have "r_get now ?k r = (if ?s \<in> fst ` set h then Some (spent h ?s) else None)"
    using ok ids by (simp add: ledger_ok_def)
  then show fst: "fst (r_count now ?k c 172800000 r) = spent h ?s + c"
    by (simp add: r_count_value spent_none)
  show "ledger_ok now ((?s, c) # h) A (snd (r_count now ?k c 172800000 r))"
    unfolding ledger_ok_def
  proof (intro conjI allI impI now)
    fix t' v b assume t': "now \<le> t' \<and> plain_ids v b"
    let ?s' = "cost_slot v b t'"
    have key: "counter_key v (ymd t') b = ?k \<longleftrightarrow> ?s' = ?s"
      using cost_keys_eq(1) ids t' by blast
    have day: "t' < now + 172800000" if "?s' = ?s"
      using same_day [OF now, of t'] t' that by (simp add: cost_slot_def)
    show "r_get t' (counter_key v (ymd t') b) (snd (r_count now ?k c 172800000 r)) =
      (if ?s' \<in> fst ` set ((?s, c) # h) then Some (spent ((?s, c) # h) ?s') else None)"
      using ok t' fst key day by (auto simp: r_get_count ledger_ok_def)
    show "(r_get t' (alert_key v (ymd t') b) (snd (r_count now ?k c 172800000 r)) = None) = (?s' \<notin> A)"
      using ok t' cost_keys_apart [of u "ymd now" a v "ymd t'" b]
      by (simp add: r_get_count ledger_ok_def eq_commute [of "alert_key v (ymd t') b"])
  qed
qed

lemma ledger_ok_alert:
  assumes ok: "ledger_ok now h A r" and ids: "plain_ids u a"
  shows "fst (r_set_nx now (alert_key u (ymd now) a) 172800000 1 r) \<longleftrightarrow> cost_slot u a now \<notin> A"
    and "ledger_ok now h (insert (cost_slot u a now) A)
      (snd (r_set_nx now (alert_key u (ymd now) a) 172800000 1 r))"
proof -
  let ?s = "cost_slot u a now" and ?k = "alert_key u (ymd now) a"
  have now: "0 \<le> now" using ok by (simp add: ledger_ok_def)
  have free: "r_get now ?k r = None \<longleftrightarrow> ?s \<notin> A"
    using ok ids by (simp add: ledger_ok_def)
  then show "fst (r_set_nx now ?k 172800000 1 r) \<longleftrightarrow> ?s \<notin> A"
    by (simp add: r_set_nx_simps)
  show "ledger_ok now h (insert ?s A) (snd (r_set_nx now ?k 172800000 1 r))"
    unfolding ledger_ok_def
  proof (intro conjI allI impI now)
    fix t' v b assume t': "now \<le> t' \<and> plain_ids v b"
    let ?s' = "cost_slot v b t'"
    have key: "alert_key v (ymd t') b = ?k \<longleftrightarrow> ?s' = ?s"
      using cost_keys_eq(2) ids t' by blast
    have day: "t' < now + 172800000" if "?s' = ?s"
      using same_day [OF now, of t'] t' that by (simp add: cost_slot_def)
    show "r_get t' (counter_key v (ymd t') b) (snd (r_set_nx now ?k 172800000 1 r)) =
      (if ?s' \<in> fst ` set h then Some (spent h ?s') else None)"
      using ok t' cost_keys_apart by (simp add: r_set_nx_simps ledger_ok_def)
    have "(r_get t' (alert_key v (ymd t') b) r = None) = (?s' \<notin> A)"
      using ok t' by (simp add: ledger_ok_def)
    then show "(r_get t' (alert_key v (ymd t') b) (snd (r_set_nx now ?k 172800000 1 r)) = None) = (?s' \<notin> insert ?s A)"
      using key day free by (auto simp: r_set_nx_simps)
  qed
qed

lemma cost_run_spec:
  assumes "ledger_ok t h A r" and "sorted (t # map event_now es)" and "list_all event_ids es"
  shows "cost_run (Some r) es = cost_spec h A es"
  using assms
proof (induction es arbitrary: t h A r)
  case (Cons e es)
  have ok: "ledger_ok (event_now e) h A r" and s: "sorted (event_now e # map event_now es)"
    using Cons.prems ledger_ok_later by (simp, simp_all)
  show ?case
  proof (cases e)
    case (Check now u a b)
    then have "get_spent_micro now u a (Some r) = spent h (cost_slot u a now)"
      using ok Cons.prems(3) by (simp add: get_spent_micro_def ledger_ok_def spent_none)
    with Cons.IH [OF ok s] Cons.prems(3) Check show ?thesis
      by (simp add: check_budget_def split: option.splits)
  next
    case (Record now u a c b)
    let ?s = "cost_slot u a now"
    show ?thesis
    proof (cases "c \<le> 0")
      case True
      with Cons.IH [OF ok s] Cons.prems(3) Record show ?thesis by (simp add: record_cost_def)
    next
      case False
      have ids: "plain_ids u a" and now: "ledger_ok now h A r" using Cons.prems(3) Record ok by simp_all
      obtain n r1 where n: "r_count now (counter_key u (ymd now) a) c 172800000 r = (n, r1)" by fastforce
      have total: "n = spent h ?s + c" and ok1: "ledger_ok now ((?s, c) # h) A r1"
        using ledger_ok_count [OF now ids, of c] n by simp_all
      obtain fresh r2 where f: "r_set_nx now (alert_key u (ymd now) a) 172800000 1 r1 = (fresh, r2)"
        by fastforce
      have fresh: "fresh \<longleftrightarrow> ?s \<notin> A" and ok2: "ledger_ok now ((?s, c) # h) (insert ?s A) r2"
        using ledger_ok_alert [OF ok1 ids] f by simp_all
      have rest1: "cost_run (Some r1) es = cost_spec ((?s, c) # h) A es"
        and rest2: "cost_run (Some r2) es = cost_spec ((?s, c) # h) (insert ?s A) es"
        using Cons.IH [of now] ok1 ok2 s Cons.prems(3) Record by simp_all
      show ?thesis
      proof (cases "crosses b (spent h ?s) n")
        case True
        then obtain m where b: "b = Some m" "0 < m" "n - c < m * 80 div 100" "m * 80 div 100 \<le> n"
          using total by (auto simp: crosses_def split: option.splits)
        then have "record_cost now u a c b (Some r) = ((n, fresh), Some r2)"
          using False n f by (simp add: record_cost_def COST_TTL_SECONDS_def ALERT_THRESHOLD_PCT_def)
        with Record False True fresh total rest2 show ?thesis
          by (auto simp: insert_absorb Let_def)
      next
        case nc: False
        then have "record_cost now u a c b (Some r) = ((n, False), Some r1)"
          using False n total
          by (auto simp: record_cost_def COST_TTL_SECONDS_def ALERT_THRESHOLD_PCT_def crosses_def
              Let_def split: option.splits)
        with Record False nc total rest1 show ?thesis by (simp add: Let_def)
      qed
    qed
  qed
qed simp

subsection \<open>Properties\<close>

text \<open>
  The daily budget is exact: over any sequence of recorded costs and budget checks in
  time order, from an empty store, every recorded total is the sum of the positive costs of
  that user, agent and UTC day, every check compares that sum with the budget, and the alert
  is given when the sum crosses four fifths of the budget, at most once per user, agent and
  day.
\<close>

theorem cost_budget_exact:
  assumes "sorted (0 # map event_now es)" and "list_all event_ids es"
  shows "cost_run (Some (\<lambda>_. None)) es = cost_spec [] {} es"
proof -
  have "ledger_ok 0 [] {} (\<lambda>_. None)"
    by (simp add: ledger_ok_def r_get_def live_def)
  then show ?thesis
    using assms by (rule cost_run_spec)
qed

theorem cost_budget_exact_witness:
  "cost_run (Some (\<lambda>_. None))
     [Check 5 ''u'' None (Some 100), Record 10 ''u'' None 79 (Some 100), Record 20 ''u'' None 1 (Some 100),
      Check 30 ''u'' None (Some 100), Record 40 ''u'' None 50 (Some 100), Check 50 ''u'' None (Some 100),
      Check 50 ''u'' (Some ''a'') (Some 100), Check 86400000 ''u'' None (Some 100)]
   = [Within True, Recorded 79 False, Recorded 80 True, Within True, Recorded 130 False,
      Within False, Within True, Within True]"
  by (subst cost_budget_exact)
    (simp_all add: plain_ids_def colon_free_def cost_slot_def agent_part_def day_number_def crosses_def
      spent_def Let_def)

end
