(* ===== verification/Sse.thy ===== *)
theory Sse
  imports Py_Text Kms
begin

text \<open>
  \<open>web/sse.py\<close> and the reader \<open>_parse_sse\<close> of \<open>web/turns.py\<close>: server-sent events with a JSON
  payload, written as bytes and read back as event names with the text of their payload.
\<close>

subsection \<open>JSON text\<close>

text \<open>JSON values with Unicode strings, as the events carry them.\<close>

datatype ujson =
    UNull
  | UBool bool
  | UInt int
  | UStr pystr
  | UArr "ujson list"
  | UObj "(pystr \<times> ujson) list"

text \<open>
  \<open>json.dumps(data, separators=(",", ":"))\<close>: everything outside printable ASCII is escaped,
  code points above the basic plane as a surrogate pair.
\<close>

definition u_escape :: "nat \<Rightarrow> pystr" where
  "u_escape n = codes (CHR 0x5C # CHR ''u'' # hex4 n)"

definition dump_char :: "nat \<Rightarrow> pystr" where
  "dump_char n =
     (if n = 34 \<or> n = 92 then [92, n]
      else if n = 10 then codes [CHR 0x5C, CHR ''n'']
      else if n = 13 then codes [CHR 0x5C, CHR ''r'']
      else if n = 9 then codes [CHR 0x5C, CHR ''t'']
      else if n = 12 then codes [CHR 0x5C, CHR ''f'']
      else if n = 8 then codes [CHR 0x5C, CHR ''b'']
      else if 32 \<le> n \<and> n \<le> 126 then [n]
      else if n < 65536 then u_escape n
      else u_escape (55296 + (n - 65536) div 1024 mod 1024) @ u_escape (56320 + (n - 65536) mod 1024))"

definition dump_string :: "pystr \<Rightarrow> pystr" where
  "dump_string s = [34] @ concat (map dump_char s) @ [34]"

fun nat_text :: "nat \<Rightarrow> pystr" where
  "nat_text n = (if n < 10 then [48 + n] else nat_text (n div 10) @ [48 + n mod 10])"

declare nat_text.simps [simp del]

definition int_text :: "int \<Rightarrow> pystr" where
  "int_text i = (if i < 0 then 45 # nat_text (nat (- i)) else nat_text (nat i))"

fun dumps :: "ujson \<Rightarrow> pystr" where
  "dumps UNull = codes ''null''"
| "dumps (UBool b) = (if b then codes ''true'' else codes ''false'')"
| "dumps (UInt i) = int_text i"
| "dumps (UStr s) = dump_string s"
| "dumps (UArr xs) = [91] @ join_by [44] (map dumps xs) @ [93]"
| "dumps (UObj kvs) =
     [123] @ join_by [44] (map (\<lambda>kv. dump_string (fst kv) @ [58] @ dumps (snd kv)) kvs) @ [125]"

subsection \<open>Writing events\<close>

definition to_bytes :: "pystr \<Rightarrow> bytes" where
  "to_bytes s = map of_nat (concat (map utf8_char s))"

text \<open>Payloads are ASCII and so are the names, hence \<open>encode()\<close> never raises here.\<close>

definition encode_event :: "string \<Rightarrow> (pystr \<times> ujson) list \<Rightarrow> bytes" where
  "encode_event name data =
     to_bytes (codes ''event: '' @ codes name @ [10] @ codes ''data: '' @ dumps (UObj data) @ [10, 10])"

definition event_delta :: "pystr \<Rightarrow> bytes" where
  "event_delta t = encode_event ''delta'' [(codes ''text'', UStr t)]"

definition event_tool_call :: "pystr \<Rightarrow> pystr \<Rightarrow> ujson \<Rightarrow> bytes" where
  "event_tool_call i name args =
     encode_event ''tool_call'' [(codes ''id'', UStr i), (codes ''name'', UStr name), (codes ''args'', args)]"

definition event_tool_output :: "pystr \<Rightarrow> pystr \<Rightarrow> bytes" where
  "event_tool_output i output =
     encode_event ''tool_output'' [(codes ''id'', UStr i), (codes ''output'', UStr output)]"

definition event_permission_request :: "pystr \<Rightarrow> pystr \<Rightarrow> ujson \<Rightarrow> bytes" where
  "event_permission_request tool_call_id tool args =
     encode_event ''permission_request''
       [(codes ''tool_call_id'', UStr tool_call_id), (codes ''tool'', UStr tool), (codes ''args'', args)]"

definition event_usage :: "int \<Rightarrow> int \<Rightarrow> int \<Rightarrow> bytes" where
  "event_usage input_tokens output_tokens cost =
     encode_event ''usage''
       [(codes ''input_tokens'', UInt input_tokens), (codes ''output_tokens'', UInt output_tokens),
        (codes ''cost_usd_micro'', UInt cost)]"

definition event_error :: "pystr \<Rightarrow> pystr \<Rightarrow> int option \<Rightarrow> bytes" where
  "event_error k message retry_after_ms =
     encode_event ''error''
       ([(codes ''kind'', UStr k), (codes ''message'', UStr message)] @
        (case retry_after_ms of None \<Rightarrow> [] | Some ms \<Rightarrow> [(codes ''retry_after_ms'', UInt ms)]))"

definition event_done :: "pystr \<Rightarrow> pystr \<Rightarrow> bytes" where
  "event_done turn_id final_text =
     encode_event ''done'' [(codes ''turn_id'', UStr turn_id), (codes ''final_text'', UStr final_text)]"

subsection \<open>Reading events\<close>

text \<open>
  \<open>bytes.decode("utf-8", errors="replace")\<close>: every maximal prefix of a sequence that cannot be
  completed becomes one U+FFFD.
\<close>

definition second_ok :: "nat \<Rightarrow> nat \<Rightarrow> bool" where
  "second_ok a b \<longleftrightarrow>
     (if a = 224 then 160 \<le> b \<and> b < 192
      else if a = 237 then 128 \<le> b \<and> b < 160
      else if a = 240 then 144 \<le> b \<and> b < 192
      else if a = 244 then 128 \<le> b \<and> b < 144
      else cont b)"

fun decode_replace_nats :: "nat list \<Rightarrow> pystr" where
  "decode_replace_nats [] = []"
| "decode_replace_nats (a # bs) =
     (if a < 128 then a # decode_replace_nats bs
      else if a < 194 \<or> 245 \<le> a then 65533 # decode_replace_nats bs
      else case bs of
        [] \<Rightarrow> [65533]
      | b # cs \<Rightarrow>
          (if \<not> second_ok a b then 65533 # decode_replace_nats bs
           else if a < 224 then ((a - 192) * 64 + (b - 128)) # decode_replace_nats cs
           else case cs of
             [] \<Rightarrow> [65533]
           | c # ds \<Rightarrow>
               (if \<not> cont c then 65533 # decode_replace_nats cs
                else if a < 240 then
                  ((a - 224) * 4096 + (b - 128) * 64 + (c - 128)) # decode_replace_nats ds
                else case ds of
                  [] \<Rightarrow> [65533]
                | d # es \<Rightarrow>
                    (if \<not> cont d then 65533 # decode_replace_nats ds
                     else ((a - 240) * 262144 + (b - 128) * 4096 + (c - 128) * 64 + (d - 128))
                       # decode_replace_nats es))))"

definition starts_with :: "pystr \<Rightarrow> pystr \<Rightarrow> bool" where
  "starts_with s p \<longleftrightarrow> take (length p) s = p"

record sse_state =
  ss_out :: "(pystr \<times> pystr) list"
  ss_name :: pystr
  ss_data :: "pystr list"

definition sse_line :: "pystr \<Rightarrow> sse_state \<Rightarrow> sse_state" where
  "sse_line line st =
     (if line = [] then
        \<lparr>ss_out = (if ss_name st \<noteq> [] then ss_out st @ [(ss_name st, join_by [10] (ss_data st))] else ss_out st),
         ss_name = [], ss_data = []\<rparr>
      else if starts_with line (codes ''event: '') then st\<lparr>ss_name := strip (drop 7 line)\<rparr>
      else if starts_with line (codes ''data: '') then st\<lparr>ss_data := ss_data st @ [drop 6 line]\<rparr>
      else st)"

definition parse_sse :: "bytes \<Rightarrow> (pystr \<times> pystr) list" where
  "parse_sse raw =
     (let t = decode_replace_nats (map unat raw)
      in ss_out (fold sse_line (split_on 10 t) \<lparr>ss_out = [], ss_name = [], ss_data = []\<rparr>))"

subsection \<open>JSON text is printable ASCII\<close>

definition ascii_text :: "pystr \<Rightarrow> bool" where
  "ascii_text s \<longleftrightarrow> (\<forall>c \<in> set s. 32 \<le> c \<and> c < 127)"

lemma ascii_text_simps [simp]:
  "ascii_text []" "ascii_text (c # s) \<longleftrightarrow> 32 \<le> c \<and> c < 127 \<and> ascii_text s"
  "ascii_text (a @ b) \<longleftrightarrow> ascii_text a \<and> ascii_text b"
  by (auto simp: ascii_text_def)

lemma ascii_codes: "ascii_text (codes s) \<longleftrightarrow> list_all printable s"
  by (induction s) (auto simp: printable_def)

lemma ascii_concat: "(\<And>x. x \<in> set xs \<Longrightarrow> ascii_text (f x)) \<Longrightarrow> ascii_text (concat (map f xs))"
  by (auto simp: ascii_text_def)

lemma ascii_u_escape: "ascii_text (u_escape n)"
  using hex4_printable [of n] by (simp add: u_escape_def flip: ascii_codes)

lemma ascii_dump_char: "ascii_text (dump_char n)"
  using ascii_u_escape by (simp add: dump_char_def)

lemma ascii_dump_string: "ascii_text (dump_string s)"
  using ascii_dump_char by (simp add: dump_string_def ascii_concat)

lemma ascii_nat_text: "ascii_text (nat_text n)"
  by (induction n rule: nat_text.induct) (subst nat_text.simps, auto)

lemma ascii_join: "ascii_text sep \<Longrightarrow> (\<And>x. x \<in> set xs \<Longrightarrow> ascii_text x) \<Longrightarrow> ascii_text (join_by sep xs)"
  by (induction sep xs rule: join_by.induct) auto

lemma ascii_dumps: "ascii_text (dumps v)"
proof (induction v)
  case (UInt i)
  then show ?case by (simp add: int_text_def ascii_nat_text)
next
  case (UArr xs)
  then show ?case by (auto intro!: ascii_join)
next
  case (UObj kvs)
  then have "ascii_text (dumps (snd kv))" if "kv \<in> set kvs" for kv
    using that by (cases kv) auto
  then show ?case by (auto intro!: ascii_join simp: ascii_dump_string)
qed (simp_all add: ascii_dump_string)

subsection \<open>Reading back what was written\<close>

definition plain_name :: "string \<Rightarrow> bool" where
  "plain_name n \<longleftrightarrow> n \<noteq> [] \<and> list_all (\<lambda>c. printable c \<and> c \<noteq> CHR '' '') n"

lemma plain_name_codes:
  assumes "plain_name n"
  shows "ascii_text (codes n)" and "codes n \<noteq> []" and "strip (codes n) = codes n"
proof -
  have p: "\<forall>c \<in> set n. printable c \<and> c \<noteq> CHR '' ''" and ne: "n \<noteq> []"
    using assms by (auto simp: plain_name_def list_all_iff)
  then show "ascii_text (codes n)" by (simp add: ascii_codes list_all_iff)
  show "codes n \<noteq> []" using ne by (cases n) simp_all
  have "\<not> is_space x" if x: "x \<in> set (codes n)" for x
  proof -
    obtain c where c: "c \<in> set n" "x = of_char c" using x by (auto simp: codes_def)
    then have "32 \<le> x \<and> x < 127" using p by (simp add: printable_def)
    moreover have "x \<noteq> 32"
    proof
      assume "x = 32"
      with c(2) have "(of_char c :: nat) = of_char (CHR '' '')" by simp
      then have "c = CHR '' ''" by (simp only: of_char_eq_iff)
      with p c(1) show False by blast
    qed
    ultimately show ?thesis by (auto simp: is_space_def)
  qed
  moreover have "codes n \<noteq> []" using ne by (cases n) simp_all
  ultimately have "stripped (codes n)"
    unfolding stripped_def by (meson hd_in_set last_in_set)
  then show "strip (codes n) = codes n" by (rule strip_stripped)
qed

definition lines_text :: "pystr \<Rightarrow> bool" where
  "lines_text s \<longleftrightarrow> (\<forall>c \<in> set s. c < 128)"

lemma to_bytes_ascii: "lines_text s \<Longrightarrow> map unat (to_bytes s) = s"
proof -
  assume "lines_text s"
  then have "concat (map utf8_char s) = s" and "\<forall>c \<in> set s. c < 256"
    unfolding lines_text_def by (induction s) (auto simp: utf8_char_def)
  then show ?thesis
    by (auto simp: to_bytes_def o_def unat_of_nat intro!: map_idI)
qed

lemma decode_ascii: "lines_text s \<Longrightarrow> decode_replace_nats s = s"
  by (induction s) (auto simp: lines_text_def)

definition record_text :: "string \<Rightarrow> (pystr \<times> ujson) list \<Rightarrow> pystr" where
  "record_text n d = codes ''event: '' @ codes n @ [10] @ codes ''data: '' @ dumps (UObj d) @ [10, 10]"

lemma encode_event_record: "encode_event n d = to_bytes (record_text n d)"
  by (simp only: encode_event_def record_text_def)

lemma ascii_lines: "ascii_text s \<Longrightarrow> lines_text s"
  by (auto simp: ascii_text_def lines_text_def)

lemma record_text_lines: "plain_name n \<Longrightarrow> lines_text (record_text n d)"
  using ascii_lines [OF ascii_dumps [of "UObj d"]] ascii_lines [OF plain_name_codes(1) [of n]]
  unfolding record_text_def lines_text_def by auto

lemma no_newline: "ascii_text s \<Longrightarrow> 10 \<notin> set s"
  by (auto simp: ascii_text_def)

lemma sse_record:
  assumes "plain_name n"
  shows "fold sse_line (split_on 10 (record_text n d @ rest)) \<lparr>ss_out = out, ss_name = [], ss_data = []\<rparr>
       = fold sse_line (split_on 10 rest)
           \<lparr>ss_out = out @ [(codes n, dumps (UObj d))], ss_name = [], ss_data = []\<rparr>"
proof -
  let ?e = "codes ''event: '' @ codes n" and ?d = "codes ''data: '' @ dumps (UObj d)"
  note name = plain_name_codes [OF assms]
  have "10 \<notin> set ?e" "10 \<notin> set ?d"
    using no_newline [OF name(1)] no_newline [OF ascii_dumps [of "UObj d"]] by (auto simp del: dumps.simps)
  moreover have "record_text n d @ rest = ?e @ 10 # (?d @ 10 # ([] @ 10 # rest))"
    by (simp add: record_text_def del: dumps.simps)
  ultimately have "split_on 10 (record_text n d @ rest) = ?e # ?d # [] # split_on 10 rest"
    by (simp only: split_on_append list.set(1) empty_iff not_False_eq_True)
  moreover have "sse_line ?e st = st\<lparr>ss_name := codes n\<rparr>" for st
    using name(3) by (simp add: sse_line_def starts_with_def)
  moreover have "sse_line ?d st = st\<lparr>ss_data := ss_data st @ [dumps (UObj d)]\<rparr>" for st
    by (simp add: sse_line_def starts_with_def del: dumps.simps)
  ultimately show ?thesis
    using name(2) by (simp add: sse_line_def del: dumps.simps)
qed

definition encode_all :: "(string \<times> (pystr \<times> ujson) list) list \<Rightarrow> bytes" where
  "encode_all evs = concat (map (\<lambda>(n, d). encode_event n d) evs)"

lemma parse_encode_all:
  assumes "\<forall>(n, d) \<in> set evs. plain_name n"
  shows "parse_sse (encode_all evs) = map (\<lambda>(n, d). (codes n, dumps (UObj d))) evs"
proof -
  let ?t = "concat (map (\<lambda>(n, d). record_text n d) evs)"
  have ascii: "lines_text ?t"
    using assms record_text_lines by (fastforce simp: lines_text_def)
  have bytes: "map unat (encode_all evs) = ?t"
    using assms
    by (induction evs) (auto simp: encode_all_def encode_event_record to_bytes_ascii record_text_lines)
  have "fold sse_line (split_on 10 ?t) \<lparr>ss_out = out, ss_name = [], ss_data = []\<rparr>
      = \<lparr>ss_out = out @ map (\<lambda>(n, d). (codes n, dumps (UObj d))) evs, ss_name = [], ss_data = []\<rparr>" for out
    using assms
    by (induction evs arbitrary: out) (auto simp: sse_record sse_line_def simp del: dumps.simps)
  then show ?thesis
    by (simp add: parse_sse_def bytes decode_ascii [OF ascii] del: dumps.simps)
qed

subsection \<open>Properties\<close>

text \<open>
  C16. Events survive the wire: whatever text, arguments and numbers a sequence of server-sent
  events carries (newlines, quotes, non-ASCII and lone surrogates included), the bytes read
  back as the same sequence of event names and payload texts.
\<close>

theorem sse_roundtrip:
  assumes "\<forall>(n, d) \<in> set evs. plain_name n"
  shows "parse_sse (encode_all evs) = map (\<lambda>(n, d). (codes n, dumps (UObj d))) evs"
  using assms by (rule parse_encode_all)

theorem sse_roundtrip_witness:
  "parse_sse (encode_all [(''delta'', [(codes ''text'', UStr [10, 233, 55357, 34])]), (''done'', [])])
   = [(codes ''delta'', codes ''{\"text\":\"'' @ [92, 110] @ u_escape 233 @ u_escape 55357 @ [92, 34] @ codes ''\"}''),
      (codes ''done'', codes ''{}'')]"
  by (subst sse_roundtrip) (simp_all add: plain_name_def printable_def dump_string_def dump_char_def)

end
