(* ===== verification/Idempotency.thy ===== *)
theory Idempotency
  imports Redis_Keys Base64 Sse
begin

text \<open>
  \<open>web/idempotency.py\<close>: completed responses under the key of a retried request.  A stored
  document is a JSON value; \<open>json.dumps\<close> and \<open>json.loads\<close> are inverse to each other on it.
\<close>

definition IDEMPOTENCY_TTL_MS :: int where "IDEMPOTENCY_TTL_MS = 24 * 3600 * 1000"

definition idem_redis_key :: "string \<Rightarrow> string \<Rightarrow> string" where
  "idem_redis_key user_id idem_key = ''idem:'' @ user_id @ '':'' @ idem_key"

text \<open>The stored document of a kind with its body.\<close>

definition cached_doc :: "string \<Rightarrow> ujson \<Rightarrow> ujson" where
  "cached_doc kind body = UObj [(codes ''kind'', UStr (codes kind)), (codes ''body'', body)]"

text \<open>Reading a stored document of the kind: its \<open>body\<close> member, with the default of \<open>dict.get\<close>.\<close>

definition body_of_kind :: "string \<Rightarrow> ujson \<Rightarrow> ujson \<Rightarrow> ujson option" where
  "body_of_kind kind missing doc =
     (case doc of
        UObj d \<Rightarrow>
          (case map_of d (codes ''kind'') of
             Some (UStr k) \<Rightarrow>
               (if k = codes kind then Some (case map_of d (codes ''body'') of None \<Rightarrow> missing | Some b \<Rightarrow> b) else None)
           | _ \<Rightarrow> None)
      | _ \<Rightarrow> None)"

definition get_cached_json :: "int \<Rightarrow> string \<Rightarrow> string \<Rightarrow> ujson redis option \<Rightarrow> ujson option" where
  "get_cached_json now user_id idem_key redis =
     (case redis of
        None \<Rightarrow> None
      | Some r \<Rightarrow>
          (if idem_key = [] then None
           else
             (case r_get now (idem_redis_key user_id idem_key) r of
                None \<Rightarrow> None
              | Some doc \<Rightarrow> body_of_kind ''json'' (UObj []) doc)))"

definition store_cached_json ::
  "int \<Rightarrow> string \<Rightarrow> string \<Rightarrow> ujson \<Rightarrow> ujson redis option \<Rightarrow> ujson redis option"
where
  "store_cached_json now user_id idem_key body redis =
     (case redis of
        None \<Rightarrow> None
      | Some r \<Rightarrow>
          (if idem_key = [] then Some r
           else Some (r_setex now (idem_redis_key user_id idem_key) IDEMPOTENCY_TTL_MS
             (cached_doc ''json'' body) r)))"

text \<open>\<open>base64.b64decode(encoded.encode("ascii"))\<close>, with the errors the code catches as \<open>None\<close>.\<close>

definition decode_ascii_b64 :: "ujson \<Rightarrow> bytes option" where
  "decode_ascii_b64 encoded =
     (case encoded of
        UStr s \<Rightarrow>
          (if list_all (\<lambda>c. c < 128) s
           then (case b64decode s of Inl e \<Rightarrow> None | Inr b \<Rightarrow> Some b)
           else None)
      | _ \<Rightarrow> None)"

definition get_cached_stream :: "int \<Rightarrow> string \<Rightarrow> string \<Rightarrow> ujson redis option \<Rightarrow> bytes option" where
  "get_cached_stream now user_id idem_key redis =
     (case redis of
        None \<Rightarrow> None
      | Some r \<Rightarrow>
          (if idem_key = [] then None
           else
             (case r_get now (idem_redis_key user_id idem_key) r of
                None \<Rightarrow> None
              | Some doc \<Rightarrow>
                  (case body_of_kind ''sse'' (UStr []) doc of
                     None \<Rightarrow> None
                   | Some encoded \<Rightarrow> decode_ascii_b64 encoded))))"

definition store_cached_stream ::
  "int \<Rightarrow> string \<Rightarrow> string \<Rightarrow> bytes \<Rightarrow> ujson redis option \<Rightarrow> ujson redis option"
where
  "store_cached_stream now user_id idem_key sse_bytes redis =
     (case redis of
        None \<Rightarrow> None
      | Some r \<Rightarrow>
          (if idem_key = [] then Some r
           else Some (r_setex now (idem_redis_key user_id idem_key) IDEMPOTENCY_TTL_MS
             (cached_doc ''sse'' (UStr (b64encode sse_bytes))) r)))"

subsection \<open>Lemmas\<close>

lemma decode_b64_ascii [simp]: "decode_ascii_b64 (UStr (b64encode bs)) = Some bs"
proof -
  have "b64_char v < 128" if "v < 64" for v
    using that by (auto simp: b64_char_def)
  then have enc: "\<forall>x \<in> set (b64_encode_nats ns). x < 128" if "\<forall>x \<in> set ns. x < 256" for ns
    using that by (induction ns rule: b64_encode_nats.induct) (auto simp: sextets)
  have "\<forall>x \<in> set (map unat bs). x < 256"
    using unsigned_less [where 'b = 8 and 'a = nat] by auto
  then have "list_all (\<lambda>c. c < 128) (b64encode bs)"
    using enc unfolding b64encode_def list_all_iff by blast
  then show ?thesis
    by (simp add: decode_ascii_b64_def b64_roundtrip)
qed

lemma codes_inj [simp]: "codes s = codes t \<longleftrightarrow> s = t"
  by (simp add: codes_def inj_map_eq_map inj_on_def of_char_eq_iff)

lemma body_of_kind_doc [simp]:
  "body_of_kind kind d (cached_doc k b) = (if k = kind then Some b else None)"
  by (simp add: body_of_kind_def cached_doc_def)

lemma idem_redis_key_eq:
  "colon_free u \<Longrightarrow> colon_free v \<Longrightarrow> idem_redis_key u k = idem_redis_key v l \<longleftrightarrow> u = v \<and> k = l"
  by (simp add: idem_redis_key_def colon_free_split)

lemmas idem_defs = get_cached_json_def get_cached_stream_def store_cached_json_def
  store_cached_stream_def IDEMPOTENCY_TTL_MS_def

subsection \<open>Properties\<close>

text \<open>
  The idempotency cache is faithful: for 24 hours a stored stream comes back byte for
  byte and a stored JSON body unchanged, for the same user and key and for the endpoint of the
  same kind only; afterwards nothing is replayed, and the entries of other users and of other
  keys are as before.
\<close>

theorem idempotency_cache_faithful:
  assumes "k \<noteq> []" and "colon_free u" and "colon_free v" and "now \<le> t" and "(v, l) \<noteq> (u, k)"
  shows "get_cached_stream t u k (store_cached_stream now u k bs (Some r))
           = (if t < now + 86400000 then Some bs else None) \<and>
         get_cached_json t u k (store_cached_stream now u k bs (Some r)) = None \<and>
         get_cached_json t u k (store_cached_json now u k body (Some r))
           = (if t < now + 86400000 then Some body else None) \<and>
         get_cached_stream t u k (store_cached_json now u k body (Some r)) = None \<and>
         (\<forall>r' \<in> {store_cached_stream now u k bs (Some r), store_cached_json now u k body (Some r)}.
            get_cached_stream t v l r' = get_cached_stream t v l (Some r) \<and>
            get_cached_json t v l r' = get_cached_json t v l (Some r))"
  using assms by (auto simp: idem_defs idem_redis_key_eq)

theorem idempotency_cache_faithful_witness:
  "get_cached_stream 10 ''u'' ''k'' (store_cached_stream 0 ''u'' ''k'' [1, 2, 255] (Some (\<lambda>_. None))) = Some [1, 2, 255] \<and>
   get_cached_json 10 ''u'' ''k'' (store_cached_stream 0 ''u'' ''k'' [1] (Some (\<lambda>_. None))) = None \<and>
   get_cached_stream 86400000 ''u'' ''k'' (store_cached_stream 0 ''u'' ''k'' [1] (Some (\<lambda>_. None))) = None \<and>
   get_cached_json 0 ''v'' ''k'' (store_cached_json 0 ''u'' ''k'' UNull (Some (\<lambda>_. None)))
     = get_cached_json 0 ''v'' ''k'' (Some (\<lambda>_. None))"
proof -
  have c: "colon_free ''u''" "colon_free ''v''" by (simp_all add: colon_free_def)
  note facts = idempotency_cache_faithful [of "''k''" "''u''" "''v''", OF _ c]
  show ?thesis
    using facts [of 0 10 "''k''" "[1, 2, 255]" "\<lambda>_. None" UNull] facts [of 0 10 "''k''" "[1]" "\<lambda>_. None" UNull]
      facts [of 0 86400000 "''k''" "[1]" "\<lambda>_. None" UNull] facts [of 0 0 "''k''" "[1]" "\<lambda>_. None" UNull]
    by simp
qed

end
