(* ===== verification/Permission_Broker.thy ===== *)
theory Permission_Broker
  imports Prelude
begin

text \<open>
  \<open>web/permissions.py\<close>: the broker that parks a tool call on a future until a decision arrives,
  from this process or over the Redis channel, and \<open>core/permission.py\<close>, the tool policy of a
  session.  Turn states and futures are objects: they live in a store under a number each, and
  a caller keeps the number of its state after the turn was removed from the registry.
\<close>

subsection \<open>Policies\<close>

definition WRITE_TOOL_NAMES :: "string list" where
  "WRITE_TOOL_NAMES = [''memory'', ''skill_manage'', ''cron_manage'']"

definition is_tool_allowed :: "string \<Rightarrow> string \<Rightarrow> bool" where
  "is_tool_allowed mode tool_name = (if mode = ''ro'' then tool_name \<notin> set WRITE_TOOL_NAMES else True)"

definition filter_tools :: "string \<Rightarrow> ('t \<Rightarrow> string) \<Rightarrow> 't list \<Rightarrow> 't list" where
  "filter_tools mode name tools = filter (\<lambda>t. is_tool_allowed mode (name t)) tools"

subsection \<open>The broker of one process\<close>

type_synonym turn_id = string
type_synonym call_id = string
type_synonym decision = string

datatype future = Pending | Resolved decision | Cancelled

record 'a permission_request =
  q_call :: call_id
  q_tool :: string
  q_args :: 'a
  q_future :: nat

record 'a turn_state =
  ts_requests :: "(call_id \<times> 'a permission_request) list"
  ts_queue :: "'a permission_request list"

record 'a broker =
  br_turns :: "turn_id \<Rightarrow> nat option"
  br_states :: "nat \<Rightarrow> 'a turn_state"
  br_futures :: "nat \<Rightarrow> future"
  br_next :: nat

definition new_broker :: "'a broker" where
  "new_broker = \<lparr>br_turns = (\<lambda>_. None), br_states = (\<lambda>_. \<lparr>ts_requests = [], ts_queue = []\<rparr>),
     br_futures = (\<lambda>_. Pending), br_next = 0\<rparr>"

text \<open>\<open>self._turns.setdefault(turn_id, _TurnState())\<close>.\<close>

definition turn_state_of :: "turn_id \<Rightarrow> 'a broker \<Rightarrow> nat \<times> 'a broker" where
  "turn_state_of t b =
     (case br_turns b t of
        Some sid \<Rightarrow> (sid, b)
      | None \<Rightarrow>
          (let sid = br_next b in
           (sid, b\<lparr>br_turns := (br_turns b)(t \<mapsto> sid),
                   br_states := (br_states b)(sid := \<lparr>ts_requests = [], ts_queue = []\<rparr>),
                   br_next := sid + 1\<rparr>)))"

text \<open>
  \<open>request_decision\<close> up to its \<open>await\<close>: the state, the future awaited and whether the request is
  this caller's own (then it is removed when the wait ends).
\<close>

definition open_request ::
  "turn_id \<Rightarrow> call_id \<Rightarrow> string \<Rightarrow> 'a \<Rightarrow> 'a broker \<Rightarrow> (nat \<times> nat \<times> bool) \<times> 'a broker"
where
  "open_request t c tool args b =
     (let (sid, b1) = turn_state_of t b;
          st = br_states b1 sid
      in case dict_get (ts_requests st) c of
           Some req \<Rightarrow> ((sid, q_future req, False), b1)
         | None \<Rightarrow>
             (let fid = br_next b1;
                  req = \<lparr>q_call = c, q_tool = tool, q_args = args, q_future = fid\<rparr>
              in ((sid, fid, True),
                  b1\<lparr>br_states := (br_states b1)(sid :=
                        \<lparr>ts_requests = dict_set c req (ts_requests st), ts_queue = ts_queue st @ [req]\<rparr>),
                     br_futures := (br_futures b1)(fid := Pending),
                     br_next := fid + 1\<rparr>)))"

text \<open>The \<open>finally\<close> clause: \<open>state.requests.pop(tool_call_id, None)\<close>.\<close>

definition close_request :: "nat \<Rightarrow> call_id \<Rightarrow> 'a broker \<Rightarrow> 'a broker" where
  "close_request sid c b =
     b\<lparr>br_states := (br_states b)(sid :=
         (br_states b sid)\<lparr>ts_requests := AList.delete c (ts_requests (br_states b sid))\<rparr>)\<rparr>"

text \<open>\<open>pending_events\<close>: the next queued request, or none yet.\<close>

definition pending_event :: "turn_id \<Rightarrow> 'a broker \<Rightarrow> 'a permission_request option \<times> 'a broker" where
  "pending_event t b =
     (let (sid, b1) = turn_state_of t b in
      case ts_queue (br_states b1 sid) of
        [] \<Rightarrow> (None, b1)
      | req # rest \<Rightarrow>
          (Some req, b1\<lparr>br_states := (br_states b1)(sid := (br_states b1 sid)\<lparr>ts_queue := rest\<rparr>)\<rparr>))"

definition resolve_local :: "turn_id \<Rightarrow> call_id \<Rightarrow> decision \<Rightarrow> 'a broker \<Rightarrow> bool \<times> 'a broker" where
  "resolve_local t c d b =
     (case br_turns b t of
        None \<Rightarrow> (False, b)
      | Some sid \<Rightarrow>
          (case dict_get (ts_requests (br_states b sid)) c of
             None \<Rightarrow> (False, b)
           | Some req \<Rightarrow>
               (if br_futures b (q_future req) \<noteq> Pending then (False, b)
                else (True, b\<lparr>br_futures := (br_futures b)(q_future req := Resolved d)\<rparr>))))"

definition VALID_DECISIONS :: "decision list" where
  "VALID_DECISIONS = [''allow'', ''deny'']"

text \<open>\<open>resolve\<close>: the answer, and the message published when it was not delivered here.\<close>

definition resolve ::
  "bool \<Rightarrow> turn_id \<Rightarrow> call_id \<Rightarrow> decision \<Rightarrow> 'a broker
     \<Rightarrow> (bool \<times> (turn_id \<times> call_id \<times> decision) option) result \<times> 'a broker"
where
  "resolve has_redis t c d b =
     (if d \<notin> set VALID_DECISIONS then (Inl ValueError, b)
      else
        (let (delivered, b') = resolve_local t c d b in
         (Inr (delivered, if \<not> delivered \<and> has_redis then Some (t, c, d) else None), b')))"

definition cancel_future :: "'a permission_request \<Rightarrow> (nat \<Rightarrow> future) \<Rightarrow> nat \<Rightarrow> future" where
  "cancel_future req f = (if f (q_future req) = Pending then f(q_future req := Cancelled) else f)"

definition cancel_turn :: "turn_id \<Rightarrow> 'a broker \<Rightarrow> 'a broker" where
  "cancel_turn t b =
     (case br_turns b t of
        None \<Rightarrow> b
      | Some sid \<Rightarrow>
          b\<lparr>br_turns := (br_turns b)(t := None),
            br_futures := fold cancel_future (map snd (ts_requests (br_states b sid))) (br_futures b)\<rparr>)"

subsection \<open>Processes, the channel and the waiting callers\<close>

text \<open>
  \<open>pb_posted\<close> records the decisions the HTTP handler accepted; \<open>pb_inbox\<close> holds, per process, the
  messages of the channel not yet handled; \<open>pb_waiters\<close> the callers parked in \<open>request_decision\<close>.
\<close>

record waiter =
  w_proc :: nat
  w_turn :: turn_id
  w_call :: call_id
  w_state :: nat
  w_future :: nat
  w_own :: bool

record 'a pb_state =
  pb_brokers :: "nat \<Rightarrow> 'a broker"
  pb_inbox :: "nat \<Rightarrow> (turn_id \<times> call_id \<times> decision) list"
  pb_waiters :: "nat \<Rightarrow> waiter option"
  pb_posted :: "(turn_id \<times> call_id \<times> decision) set"

definition finish_wait :: "waiter \<Rightarrow> 'a broker \<Rightarrow> 'a broker" where
  "finish_wait w b = (if w_own w then close_request (w_state w) (w_call w) b else b)"

inductive pb_step :: "bool \<Rightarrow> 'a pb_state \<Rightarrow> 'a pb_state \<Rightarrow> bool" for has_redis :: bool where
  pb_request: "pb_waiters s w = None \<Longrightarrow>
    open_request t c tool args (pb_brokers s p) = ((sid, fid, own), b) \<Longrightarrow>
    pb_step has_redis s (s\<lparr>pb_brokers := (pb_brokers s)(p := b),
      pb_waiters := (pb_waiters s)(w \<mapsto> \<lparr>w_proc = p, w_turn = t, w_call = c, w_state = sid,
        w_future = fid, w_own = own\<rparr>)\<rparr>)"
| pb_wake: "pb_waiters s w = Some x \<Longrightarrow> br_futures (pb_brokers s (w_proc x)) (w_future x) \<noteq> Pending \<Longrightarrow>
    pb_step has_redis s (s\<lparr>pb_waiters := (pb_waiters s)(w := None),
      pb_brokers := (pb_brokers s)(w_proc x := finish_wait x (pb_brokers s (w_proc x)))\<rparr>)"
| pb_abandon: "pb_waiters s w = Some x \<Longrightarrow> b = pb_brokers s (w_proc x) \<Longrightarrow>
    f = (if br_futures b (w_future x) = Pending
         then (br_futures b)(w_future x := Cancelled) else br_futures b) \<Longrightarrow>
    pb_step has_redis s (s\<lparr>pb_waiters := (pb_waiters s)(w := None),
      pb_brokers := (pb_brokers s)(w_proc x := finish_wait x (b\<lparr>br_futures := f\<rparr>))\<rparr>)"
| pb_event: "pending_event t (pb_brokers s p) = (e, b) \<Longrightarrow>
    pb_step has_redis s (s\<lparr>pb_brokers := (pb_brokers s)(p := b)\<rparr>)"
| pb_decide: "resolve has_redis t c d (pb_brokers s p) = (Inr (ok, msg), b) \<Longrightarrow>
    pb_step has_redis s (s\<lparr>pb_brokers := (pb_brokers s)(p := b),
      pb_posted := insert (t, c, d) (pb_posted s),
      pb_inbox := (\<lambda>q. pb_inbox s q @ (case msg of None \<Rightarrow> [] | Some m \<Rightarrow> [m]))\<rparr>)"
| pb_deliver: "pb_inbox s p = (t, c, d) # ms \<Longrightarrow>
    pb_step has_redis s (s\<lparr>pb_inbox := (pb_inbox s)(p := ms),
      pb_brokers := (pb_brokers s)(p := snd (resolve_local t c d (pb_brokers s p)))\<rparr>)"
| pb_cancel: "pb_step has_redis s (s\<lparr>pb_brokers := (pb_brokers s)(p := cancel_turn t (pb_brokers s p))\<rparr>)"

definition pb_start :: "'a pb_state" where
  "pb_start = \<lparr>pb_brokers = (\<lambda>_. new_broker), pb_inbox = (\<lambda>_. []), pb_waiters = (\<lambda>_. None), pb_posted = {}\<rparr>"

subsection \<open>The invariant of one process\<close>

text \<open>
  \<open>own\<close> names the turn and the call a future was created for.  Registered requests, waiting
  callers and resolved futures agree with it; the request of a caller that waits for an open
  future is still registered under its turn.
\<close>

abbreviation reqs :: "'a broker \<Rightarrow> nat \<Rightarrow> call_id \<Rightarrow> 'a permission_request option" where
  "reqs b sid c \<equiv> dict_get (ts_requests (br_states b sid)) c"

definition broker_ok :: "(nat \<Rightarrow> (turn_id \<times> call_id) option) \<Rightarrow> 'a broker \<Rightarrow> bool" where
  "broker_ok own b \<longleftrightarrow>
     (\<forall>t sid. br_turns b t = Some sid \<longrightarrow> sid < br_next b) \<and>
     (\<forall>t t' sid. br_turns b t = Some sid \<and> br_turns b t' = Some sid \<longrightarrow> t = t') \<and>
     (\<forall>fid. own fid \<noteq> None \<longrightarrow> fid < br_next b) \<and>
     (\<forall>t sid c req. br_turns b t = Some sid \<and> reqs b sid c = Some req \<longrightarrow> own (q_future req) = Some (t, c))"

definition waiter_ok :: "(nat \<Rightarrow> (turn_id \<times> call_id) option) \<Rightarrow> 'a broker \<Rightarrow> waiter \<Rightarrow> bool" where
  "waiter_ok own b x \<longleftrightarrow>
     own (w_future x) = Some (w_turn x, w_call x) \<and> w_state x < br_next b \<and>
     (w_own x \<longrightarrow> (\<exists>req. reqs b (w_state x) (w_call x) = Some req \<and> q_future req = w_future x)) \<and>
     (br_futures b (w_future x) = Pending \<longrightarrow>
        br_turns b (w_turn x) = Some (w_state x) \<and>
        (\<exists>req. reqs b (w_state x) (w_call x) = Some req \<and> q_future req = w_future x))"

definition answers_ok ::
  "(nat \<Rightarrow> (turn_id \<times> call_id) option) \<Rightarrow> (turn_id \<times> call_id \<times> decision) set \<Rightarrow> 'a broker \<Rightarrow> bool"
where
  "answers_ok own P b \<longleftrightarrow> (\<forall>fid t c d. own fid = Some (t, c) \<and> br_futures b fid = Resolved d \<longrightarrow> (t, c, d) \<in> P)"

definition owners_apart :: "(nat \<Rightarrow> waiter option) \<Rightarrow> bool" where
  "owners_apart ws \<longleftrightarrow>
     (\<forall>w x w' x'. ws w = Some x \<and> ws w' = Some x' \<and> w_own x \<and> w_own x' \<and> w \<noteq> w' \<longrightarrow>
        (w_state x, w_call x) \<noteq> (w_state x', w_call x'))"

definition proc_ok ::
  "(nat \<Rightarrow> (turn_id \<times> call_id) option) \<Rightarrow> (turn_id \<times> call_id \<times> decision) set \<Rightarrow> 'a broker
     \<Rightarrow> (nat \<Rightarrow> waiter option) \<Rightarrow> bool"
where
  "proc_ok own P b ws \<longleftrightarrow>
     broker_ok own b \<and> (\<forall>w x. ws w = Some x \<longrightarrow> waiter_ok own b x) \<and> answers_ok own P b \<and> owners_apart ws"

lemma turn_state_of_ok:
  assumes ok: "proc_ok own P b ws" and t: "turn_state_of t b = (sid, b')"
  shows "proc_ok own P b' ws \<and> br_turns b' t = Some sid"
proof (cases "br_turns b t")
  case (Some s)
  with ok t show ?thesis by (simp add: turn_state_of_def)
next
  case None
  then have b': "sid = br_next b"
    "b' = b\<lparr>br_turns := (br_turns b)(t \<mapsto> sid),
       br_states := (br_states b)(sid := \<lparr>ts_requests = [], ts_queue = []\<rparr>), br_next := sid + 1\<rparr>"
    using t by (auto simp: turn_state_of_def Let_def)
  have bo: "broker_ok own b" using ok by (simp add: proc_ok_def)
  have "broker_ok own b'"
    using bo unfolding b' broker_ok_def
    by (simp add: less_Suc_eq) (metis less_irrefl)
  moreover have "waiter_ok own b' x" if "ws w = Some x" for w x
  proof -
    have x: "waiter_ok own b x" using ok that by (simp add: proc_ok_def)
    then have "w_state x \<noteq> sid" by (auto simp: waiter_ok_def b'(1))
    with x None show ?thesis by (auto simp: waiter_ok_def b'(2) less_Suc_eq b'(1) [symmetric])
  qed
  moreover have "answers_ok own P b'"
    using ok by (simp add: proc_ok_def answers_ok_def b'(2))
  ultimately show ?thesis
    using ok by (simp add: proc_ok_def b'(2))
qed

lemma pending_event_ok:
  assumes "proc_ok own P b ws" and e: "pending_event t b = (e, b')"
  shows "proc_ok own P b' ws"
proof -
  obtain sid b1 where t: "turn_state_of t b = (sid, b1)" by fastforce
  have ok: "proc_ok own P b1 ws" using turn_state_of_ok assms(1) t by blast
  show ?thesis
  proof (cases "ts_queue (br_states b1 sid)")
    case Nil
    with ok e t show ?thesis by (simp add: pending_event_def)
  next
    case (Cons req rest)
    then have b': "b' = b1\<lparr>br_states := (br_states b1)(sid := (br_states b1 sid)\<lparr>ts_queue := rest\<rparr>)\<rparr>"
      using e t by (simp add: pending_event_def)
    have "reqs b' i c = reqs b1 i c" for i c by (simp add: b')
    then show ?thesis
      using ok by (simp add: proc_ok_def broker_ok_def waiter_ok_def answers_ok_def b')
  qed
qed

lemma futures_ok:
  assumes ok: "proc_ok own P b ws" and P: "P \<subseteq> P'"
    and f: "\<And>fid. f fid = br_futures b fid \<or>
      (br_futures b fid = Pending \<and> f fid \<noteq> Pending \<and>
       (\<forall>d. f fid = Resolved d \<longrightarrow> (\<forall>t c. own fid = Some (t, c) \<longrightarrow> (t, c, d) \<in> P')))"
  shows "proc_ok own P' (b\<lparr>br_futures := f\<rparr>) ws"
proof -
  have "answers_ok own P' (b\<lparr>br_futures := f\<rparr>)"
    using ok P f unfolding proc_ok_def answers_ok_def by simp (metis subsetD)
  moreover have "waiter_ok own (b\<lparr>br_futures := f\<rparr>) x" if "ws w = Some x" for w x
  proof -
    have "waiter_ok own b x" using ok that by (simp add: proc_ok_def)
    moreover have "f (w_future x) = Pending \<Longrightarrow> br_futures b (w_future x) = Pending"
      using f [of "w_future x"] by auto
    ultimately show ?thesis by (simp add: waiter_ok_def)
  qed
  ultimately show ?thesis
    using ok by (simp add: proc_ok_def broker_ok_def)
qed

lemma proc_ok_mono: "proc_ok own P b ws \<Longrightarrow> P \<subseteq> P' \<Longrightarrow> proc_ok own P' b ws"
  using futures_ok [of own P b ws P' "br_futures b"] by simp

lemma resolve_local_ok:
  assumes ok: "proc_ok own P b ws" and P: "P \<subseteq> P'" "(t, c, d) \<in> P'"
  shows "proc_ok own P' (snd (resolve_local t c d b)) ws"
proof -
  have same: "proc_ok own P' b ws" using proc_ok_mono [OF ok P(1)] .
  show ?thesis
  proof (cases "\<exists>sid req. br_turns b t = Some sid \<and> reqs b sid c = Some req \<and> br_futures b (q_future req) = Pending")
    case True
    then obtain sid req where r: "br_turns b t = Some sid" "reqs b sid c = Some req"
      "br_futures b (q_future req) = Pending" by blast
    then have "own (q_future req) = Some (t, c)"
      using ok by (simp add: proc_ok_def broker_ok_def)
    then have "proc_ok own P' (b\<lparr>br_futures := (br_futures b)(q_future req := Resolved d)\<rparr>) ws"
      using futures_ok [OF ok P(1)] r(3) P(2) by simp
    with r show ?thesis by (simp add: resolve_local_def)
  next
    case False
    then have "snd (resolve_local t c d b) = b"
      by (auto simp: resolve_local_def split: option.splits)
    with same show ?thesis by simp
  qed
qed

lemma fold_cancel_future:
  "fold cancel_future rs f fid =
     (if f fid = Pending \<and> fid \<in> q_future ` set rs then Cancelled else f fid)"
  by (induction rs arbitrary: f) (auto simp: cancel_future_def)

lemma cancel_turn_ok:
  assumes ok: "proc_ok own P b ws"
  shows "proc_ok own P (cancel_turn t b) ws"
    and "\<And>w x. ws w = Some x \<Longrightarrow> w_turn x = t \<Longrightarrow> br_futures (cancel_turn t b) (w_future x) \<noteq> Pending"
proof -
  have w: "waiter_ok own b x" if "ws w = Some x" for w x
    using ok that by (simp add: proc_ok_def)
  have "proc_ok own P (cancel_turn t b) ws \<and>
    (\<forall>w x. ws w = Some x \<and> w_turn x = t \<longrightarrow> br_futures (cancel_turn t b) (w_future x) \<noteq> Pending)"
  proof (cases "br_turns b t")
    case None
    with w have "br_futures b (w_future x) \<noteq> Pending" if "ws w = Some x" "w_turn x = t" for w x
      using that by (auto simp: waiter_ok_def)
    with None ok show ?thesis by (auto simp: cancel_turn_def)
  next
    case (Some sid)
    let ?f = "fold cancel_future (map snd (ts_requests (br_states b sid))) (br_futures b)"
    have b': "cancel_turn t b = b\<lparr>br_turns := (br_turns b)(t := None), br_futures := ?f\<rparr>"
      using Some by (simp add: cancel_turn_def)
    have fin: "?f (w_future x) \<noteq> Pending" if x: "ws w = Some x" "w_turn x = t" for w x
    proof
      assume "?f (w_future x) = Pending"
      then have p: "br_futures b (w_future x) = Pending"
        and n: "w_future x \<notin> q_future ` snd ` set (ts_requests (br_states b sid))"
        by (auto simp: fold_cancel_future split: if_splits)
      from p w [OF x(1)] x(2) Some obtain req where "reqs b sid (w_call x) = Some req" "q_future req = w_future x"
        by (auto simp: waiter_ok_def)
      then have "w_future x \<in> q_future ` snd ` set (ts_requests (br_states b sid))"
        by (force dest: map_of_SomeD)
      with n show False by blast
    qed
    have ok': "proc_ok own P (b\<lparr>br_futures := ?f\<rparr>) ws"
      using futures_ok [OF ok order_refl, of ?f] by (auto simp: fold_cancel_future)
    have "proc_ok own P (cancel_turn t b) ws"
      unfolding proc_ok_def
    proof (intro conjI allI impI)
      show "broker_ok own (cancel_turn t b)"
        using ok by (simp add: proc_ok_def broker_ok_def b')
      show "answers_ok own P (cancel_turn t b)" and "owners_apart ws"
        using ok' by (simp_all add: proc_ok_def answers_ok_def b')
      fix w x assume x: "ws w = Some x"
      then have "waiter_ok own (b\<lparr>br_futures := ?f\<rparr>) x" using ok' by (simp add: proc_ok_def)
      with fin [OF x] show "waiter_ok own (cancel_turn t b) x"
        by (auto simp: waiter_ok_def b')
    qed
    with fin b' show ?thesis by auto
  qed
  then show "proc_ok own P (cancel_turn t b) ws"
    and "\<And>w x. ws w = Some x \<Longrightarrow> w_turn x = t \<Longrightarrow> br_futures (cancel_turn t b) (w_future x) \<noteq> Pending"
    by blast+
qed

lemma open_request_ok:
  assumes ok: "proc_ok own P b ws" and o: "open_request t c tool args b = ((sid, fid, mine), b')"
    and free: "ws w = None"
    and x_def: "x = \<lparr>w_proc = p, w_turn = t, w_call = c, w_state = sid, w_future = fid, w_own = mine\<rparr>"
  shows "\<exists>own'. proc_ok own' P b' (ws(w \<mapsto> x))"
proof -
  obtain s0 b1 where t: "turn_state_of t b = (s0, b1)" by fastforce
  then have ok1: "proc_ok own P b1 ws" and turn: "br_turns b1 t = Some s0"
    using turn_state_of_ok [OF ok] by simp_all
  then have s0: "s0 < br_next b1" by (simp add: proc_ok_def broker_ok_def)
  show ?thesis
  proof (cases "reqs b1 s0 c")
    case (Some req)
    then have b': "b' = b1" "sid = s0" "fid = q_future req" "\<not> mine"
      using o t by (simp_all add: open_request_def)
    have "own fid = Some (t, c)"
      using ok1 turn Some b'(3) by (simp add: proc_ok_def broker_ok_def)
    then have "waiter_ok own b' x"
      using turn Some s0 b' by (simp add: waiter_ok_def x_def)
    moreover have "owners_apart (ws(w \<mapsto> x))"
      using ok1 b'(4) by (auto simp: proc_ok_def owners_apart_def x_def)
    ultimately have "proc_ok own P b' (ws(w \<mapsto> x))"
      using ok1 b'(1) by (simp add: proc_ok_def)
    then show ?thesis by blast
  next
    case None
    define req where "req = \<lparr>q_call = c, q_tool = tool, q_args = args, q_future = br_next b1\<rparr>"
    have eq: "sid = s0" "fid = br_next b1" "mine"
      "b' = b1\<lparr>br_states := (br_states b1)(sid := \<lparr>ts_requests = dict_set c req (ts_requests (br_states b1 sid)),
                ts_queue = ts_queue (br_states b1 sid) @ [req]\<rparr>),
              br_futures := (br_futures b1)(fid := Pending), br_next := fid + 1\<rparr>"
      using o t None by (auto simp: open_request_def Let_def req_def)
    let ?own = "own(fid \<mapsto> (t, c))"
    have reqs': "reqs b' i k = (if i = sid \<and> k = c then Some req else reqs b1 i k)" for i k
      by (simp add: eq(4) dict_get_set)
    have fut': "br_futures b' f = (if f = fid then Pending else br_futures b1 f)" for f
      by (simp add: eq(4))
    have rest: "br_turns b' = br_turns b1" "br_next b' = Suc fid"
      by (simp_all add: eq(4))
    have bo: "broker_ok own b1" and old: "\<And>v y. ws v = Some y \<Longrightarrow> waiter_ok own b1 y"
      using ok1 by (auto simp: proc_ok_def)
    have fresh: "own fid = None"
      using bo eq(2) unfolding broker_ok_def by (metis less_irrefl)
    have "broker_ok ?own b'"
      unfolding broker_ok_def rest
    proof (intro conjI allI impI)
      fix t' i k r assume r: "br_turns b1 t' = Some i \<and> reqs b' i k = Some r"
      show "?own (q_future r) = Some (t', k)"
      proof (cases "i = sid \<and> k = c")
        case True
        then have "t' = t" using r turn bo eq(1) unfolding broker_ok_def by blast
        with True r show ?thesis by (auto simp: reqs' req_def eq(2))
      next
        case False
        then have "own (q_future r) = Some (t', k)"
          using r bo unfolding reqs' broker_ok_def by (auto split: if_splits)
        with fresh show ?thesis by auto
      qed
    qed (use bo eq(2) in \<open>auto simp: broker_ok_def less_Suc_eq split: if_splits\<close>)
    moreover have "waiter_ok ?own b' y" if y: "(ws(w \<mapsto> x)) v = Some y" for v y
    proof (cases "v = w")
      case True
      with y have yx: "y = x" by simp
      from turn s0 eq(1-3) show ?thesis
        unfolding yx by (simp add: waiter_ok_def x_def reqs' rest req_def)
    next
      case False
      with y have y: "ws v = Some y" by simp
      have ne: "w_future y \<noteq> fid" using old [OF y] fresh by (auto simp: waiter_ok_def)
      have keep: "reqs b1 (w_state y) (w_call y) = Some r \<Longrightarrow> reqs b' (w_state y) (w_call y) = Some r" for r
        using None eq(1) by (auto simp: reqs')
      have own': "?own (w_future y) = own (w_future y)"
        and fy: "br_futures b' (w_future y) = br_futures b1 (w_future y)"
        and "w_state y < br_next b1 \<Longrightarrow> w_state y < Suc fid"
        using ne eq(2) by (simp_all add: fut')
      with old [OF y] keep show ?thesis
        unfolding waiter_ok_def own' fy rest by blast
    qed
    moreover have "answers_ok ?own P b'"
      using ok1 by (auto simp: proc_ok_def answers_ok_def fut')
    moreover have "owners_apart (ws(w \<mapsto> x))"
    proof -
      have "\<not> (w_state y = sid \<and> w_call y = c)" if "ws v = Some y" "w_own y" for v y
        using old [OF that(1)] that(2) None eq(1) by (auto simp: waiter_ok_def)
      then show ?thesis
        using ok1 unfolding proc_ok_def owners_apart_def x_def by (auto split: if_splits)
    qed
    ultimately have "proc_ok ?own P b' (ws(w \<mapsto> x))"
      by (simp add: proc_ok_def)
    then show ?thesis by blast
  qed
qed

lemma finish_wait_ok:
  assumes ok: "proc_ok own P b ws" and x: "ws w = Some x" and fin: "br_futures b (w_future x) \<noteq> Pending"
  shows "proc_ok own P (finish_wait x b) (ws(w := None))"
proof -
  have ok0: "proc_ok own P b (ws(w := None))"
    using ok by (auto simp: proc_ok_def owners_apart_def)
  show ?thesis
  proof (cases "w_own x")
    case False
    with ok0 show ?thesis by (simp add: finish_wait_def)
  next
    case True
    let ?b = "finish_wait x b"
    have reqs': "reqs ?b i k = (if i = w_state x \<and> k = w_call x then None else reqs b i k)" for i k
      using True by (simp add: finish_wait_def close_request_def delete_conv')
    have rest: "br_turns ?b = br_turns b" "br_next ?b = br_next b" "br_futures ?b = br_futures b"
      using True by (simp_all add: finish_wait_def close_request_def)
    have wx: "waiter_ok own b x" using ok x by (simp add: proc_ok_def)
    have "broker_ok own ?b"
      using ok by (auto simp: proc_ok_def broker_ok_def reqs' rest)
    moreover have "waiter_ok own ?b y" if y: "(ws(w := None)) v = Some y" for v y
    proof -
      have v: "v \<noteq> w" "ws v = Some y" using y by (auto split: if_splits)
      then have wy: "waiter_ok own b y" using ok by (simp add: proc_ok_def)
      have "\<not> w_own y" if "w_state y = w_state x" "w_call y = w_call x"
        using ok x v True that unfolding proc_ok_def owners_apart_def by blast
      moreover have "br_futures b (w_future y) \<noteq> Pending"
        if "w_state y = w_state x" "w_call y = w_call x"
        using wx wy True that fin by (auto simp: waiter_ok_def)
      ultimately show ?thesis
        using wy by (auto simp: waiter_ok_def reqs' rest)
    qed
    moreover have "answers_ok own P ?b"
      using ok by (simp add: proc_ok_def answers_ok_def rest)
    ultimately show ?thesis
      using ok0 by (simp add: proc_ok_def)
  qed
qed

subsection \<open>The invariant of the whole system\<close>

definition waiters_of :: "nat \<Rightarrow> 'a pb_state \<Rightarrow> nat \<Rightarrow> waiter option" where
  "waiters_of p s w = (case pb_waiters s w of Some x \<Rightarrow> if w_proc x = p then Some x else None | None \<Rightarrow> None)"

definition pb_inv :: "'a pb_state \<Rightarrow> bool" where
  "pb_inv s \<longleftrightarrow>
     (\<forall>p. \<exists>own. proc_ok own (pb_posted s) (pb_brokers s p) (waiters_of p s)) \<and>
     (\<forall>p. set (pb_inbox s p) \<subseteq> pb_posted s) \<and>
     (\<forall>(t, c, d) \<in> pb_posted s. d \<in> set VALID_DECISIONS)"

lemma pb_step_inv:
  assumes step: "pb_step has_redis s s'" and inv: "pb_inv s"
  shows "pb_inv s'"
proof -
  have procs: "\<exists>own. proc_ok own (pb_posted s) (pb_brokers s p) (waiters_of p s)" for p
    using inv by (simp add: pb_inv_def)
  have change: "\<exists>own. proc_ok own (pb_posted s') (pb_brokers s' q) (waiters_of q s')"
    if "pb_posted s \<subseteq> pb_posted s'" "pb_brokers s' q = pb_brokers s q" "waiters_of q s' = waiters_of q s" for q
    using procs [of q] that proc_ok_mono by metis
  have "\<forall>p. \<exists>own. proc_ok own (pb_posted s') (pb_brokers s' p) (waiters_of p s')"
    using step
  proof cases
    case (pb_request w t c tool args p sid fid own b)
    show ?thesis
    proof
      fix q
      show "\<exists>own. proc_ok own (pb_posted s') (pb_brokers s' q) (waiters_of q s')"
      proof (cases "q = p")
        case True
        from procs [of p] obtain o0 where o0: "proc_ok o0 (pb_posted s) (pb_brokers s p) (waiters_of p s)" ..
        have free: "waiters_of p s w = None" using pb_request by (simp add: waiters_of_def)
        have "waiters_of p s' = (waiters_of p s)(w \<mapsto> \<lparr>w_proc = p, w_turn = t, w_call = c, w_state = sid,
            w_future = fid, w_own = own\<rparr>)"
          using pb_request by (auto simp: waiters_of_def fun_eq_iff)
        then show ?thesis
          using open_request_ok [OF o0 pb_request(3) free refl, of p] True pb_request(1) by simp
      next
        case False
        then have "waiters_of q s' = waiters_of q s"
          using pb_request by (auto simp: waiters_of_def fun_eq_iff)
        with False pb_request show ?thesis by (intro change) auto
      qed
    qed
  next
    case (pb_wake w x)
    show ?thesis
    proof
      fix q
      show "\<exists>own. proc_ok own (pb_posted s') (pb_brokers s' q) (waiters_of q s')"
      proof (cases "q = w_proc x")
        case True
        from procs [of q] obtain o0 where o0: "proc_ok o0 (pb_posted s) (pb_brokers s q) (waiters_of q s)" ..
        have w: "waiters_of q s w = Some x" using pb_wake True by (simp add: waiters_of_def)
        have "waiters_of q s' = (waiters_of q s)(w := None)"
          using pb_wake by (auto simp: waiters_of_def fun_eq_iff)
        then show ?thesis
          using finish_wait_ok [OF o0 w] pb_wake True by auto
      next
        case False
        then have "waiters_of q s' = waiters_of q s"
          using pb_wake by (auto simp: waiters_of_def fun_eq_iff)
        with False pb_wake show ?thesis by (intro change) auto
      qed
    qed
  next
    case (pb_abandon w x b f)
    show ?thesis
    proof
      fix q
      show "\<exists>own. proc_ok own (pb_posted s') (pb_brokers s' q) (waiters_of q s')"
      proof (cases "q = w_proc x")
        case True
        from procs [of q] obtain o0 where o0: "proc_ok o0 (pb_posted s) b (waiters_of q s)"
          using pb_abandon(3) True by auto
        have w: "waiters_of q s w = Some x" using pb_abandon True by (simp add: waiters_of_def)
        have "proc_ok o0 (pb_posted s) (b\<lparr>br_futures := f\<rparr>) (waiters_of q s)"
          using futures_ok [OF o0 order_refl, of f] pb_abandon(4) by auto
        moreover have "f (w_future x) \<noteq> Pending" using pb_abandon(4) by auto
        ultimately have "proc_ok o0 (pb_posted s) (finish_wait x (b\<lparr>br_futures := f\<rparr>)) ((waiters_of q s)(w := None))"
          using finish_wait_ok w by (metis (no_types, lifting) broker.select_convs(3) broker.surjective broker.update_convs(3))
        moreover have "waiters_of q s' = (waiters_of q s)(w := None)"
          using pb_abandon by (auto simp: waiters_of_def fun_eq_iff)
        ultimately show ?thesis using pb_abandon(1) True by auto
      next
        case False
        then have "waiters_of q s' = waiters_of q s"
          using pb_abandon by (auto simp: waiters_of_def fun_eq_iff)
        with False pb_abandon show ?thesis by (intro change) auto
      qed
    qed
  next
    case (pb_event t p e b)
    have w: "waiters_of q s' = waiters_of q s" for q using pb_event by (simp add: waiters_of_def fun_eq_iff)
    from procs [of p] pending_event_ok [OF _ pb_event(2)] w pb_event(1) change show ?thesis
      by (metis (no_types, lifting) fun_upd_apply order_refl pb_state.select_convs(1,4) pb_state.surjective pb_state.update_convs(1))
  next
    case (pb_decide t c d p ok msg b)
    have w: "waiters_of q s' = waiters_of q s" for q using pb_decide by (simp add: waiters_of_def fun_eq_iff)
    have "b = snd (resolve_local t c d (pb_brokers s p))"
      using pb_decide(2) by (auto simp: resolve_def Let_def split: if_splits prod.splits)
    then have "\<exists>own. proc_ok own (insert (t, c, d) (pb_posted s)) b (waiters_of p s)"
      using procs [of p] resolve_local_ok [of _ "pb_posted s" _ _ "insert (t, c, d) (pb_posted s)"] by blast
    then have "\<exists>own. proc_ok own (pb_posted s') (pb_brokers s' q) (waiters_of q s')" for q
      using w pb_decide(1) change [of q] by (cases "q = p") auto
    then show ?thesis by blast
  next
    case (pb_deliver p t c d ms)
    have w: "waiters_of q s' = waiters_of q s" for q using pb_deliver by (simp add: waiters_of_def fun_eq_iff)
    have "(t, c, d) \<in> pb_posted s"
      using inv pb_deliver(2) unfolding pb_inv_def by (metis list.set_intros(1) subsetD)
    then have "\<exists>own. proc_ok own (pb_posted s) (snd (resolve_local t c d (pb_brokers s p))) (waiters_of p s)"
      using procs [of p] resolve_local_ok [OF _ order_refl] by blast
    then have "\<exists>own. proc_ok own (pb_posted s') (pb_brokers s' q) (waiters_of q s')" for q
      using w pb_deliver(1) change [of q] by (cases "q = p") auto
    then show ?thesis by blast
  next
    case (pb_cancel p t)
    have w: "waiters_of q s' = waiters_of q s" for q using pb_cancel by (simp add: waiters_of_def fun_eq_iff)
    have "\<exists>own. proc_ok own (pb_posted s) (cancel_turn t (pb_brokers s p)) (waiters_of p s)"
      using procs [of p] cancel_turn_ok(1) by blast
    then have "\<exists>own. proc_ok own (pb_posted s') (pb_brokers s' q) (waiters_of q s')" for q
      using w pb_cancel change [of q] by (cases "q = p") auto
    then show ?thesis by blast
  qed
  moreover have "(\<forall>p. set (pb_inbox s' p) \<subseteq> pb_posted s') \<and> (\<forall>(t, c, d) \<in> pb_posted s'. d \<in> set VALID_DECISIONS)"
    using step
  proof cases
    case (pb_decide t c d p ok msg b)
    then have "d \<in> set VALID_DECISIONS" "msg = None \<or> msg = Some (t, c, d)"
      by (auto simp: resolve_def Let_def split: if_splits prod.splits)
    with inv pb_decide(1) show ?thesis by (auto simp: pb_inv_def)
  next
    case (pb_deliver p t c d ms)
    then have "set ms \<subseteq> set (pb_inbox s p)" by auto
    moreover have "\<forall>q. set (pb_inbox s q) \<subseteq> pb_posted s" "\<forall>(t, c, d) \<in> pb_posted s. d \<in> set VALID_DECISIONS"
      using inv by (auto simp: pb_inv_def)
    ultimately show ?thesis using pb_deliver(1) by (simp, blast)
  qed (use inv in \<open>simp_all add: pb_inv_def\<close>)
  ultimately show ?thesis by (simp add: pb_inv_def)
qed

lemma pb_reachable_inv:
  fixes s :: "'a pb_state"
  shows "(pb_step has_redis)\<^sup>*\<^sup>* pb_start s \<Longrightarrow> pb_inv s"
proof (induction rule: rtranclp_induct)
  case base
  have "proc_ok (\<lambda>_. None) {} (new_broker :: 'a broker) (\<lambda>_. None)"
    by (simp add: proc_ok_def broker_ok_def answers_ok_def owners_apart_def new_broker_def)
  moreover have "waiters_of p (pb_start :: 'a pb_state) = (\<lambda>_. None)" for p :: nat
    by (simp add: waiters_of_def pb_start_def fun_eq_iff)
  ultimately have "\<exists>own. proc_ok own {} (new_broker :: 'a broker) (waiters_of p (pb_start :: 'a pb_state))" for p
    by metis
  then show ?case by (simp add: pb_inv_def) (simp add: pb_start_def)
qed (rule pb_step_inv)

subsection \<open>Properties\<close>

text \<open>
  C7. Decisions are authentic: however requests, decisions, messages between processes,
  cancellations and abandoned waits interleave, the answer a parked tool call receives was
  posted to the decisions endpoint for that very turn and call, and is \<open>allow\<close> or \<open>deny\<close>.
\<close>

theorem permission_decisions_authentic:
  fixes s :: "'a pb_state"
  assumes "(pb_step has_redis)\<^sup>*\<^sup>* pb_start s" and "pb_waiters s w = Some x"
    and "br_futures (pb_brokers s (w_proc x)) (w_future x) = Resolved d"
  shows "(w_turn x, w_call x, d) \<in> pb_posted s \<and> d \<in> {''allow'', ''deny''}"
proof -
  note inv = pb_reachable_inv [OF assms(1)]
  then obtain own where own: "proc_ok own (pb_posted s) (pb_brokers s (w_proc x)) (waiters_of (w_proc x) s)"
    unfolding pb_inv_def by blast
  have "waiters_of (w_proc x) s w = Some x" using assms(2) by (simp add: waiters_of_def)
  with own have "own (w_future x) = Some (w_turn x, w_call x)"
    by (auto simp: proc_ok_def waiter_ok_def)
  with own assms(3) have "(w_turn x, w_call x, d) \<in> pb_posted s"
    by (simp add: proc_ok_def answers_ok_def)
  with inv show ?thesis by (auto simp: pb_inv_def VALID_DECISIONS_def)
qed

definition parked :: "nat pb_state" where
  "parked = pb_start\<lparr>
     pb_brokers := (pb_brokers (pb_start :: nat pb_state))(0 := snd (open_request ''t'' ''c'' ''memory'' 7 new_broker)),
     pb_waiters := (pb_waiters (pb_start :: nat pb_state))(5 \<mapsto> \<lparr>w_proc = 0, w_turn = ''t'', w_call = ''c'', w_state = 0,
       w_future = 1, w_own = True\<rparr>)\<rparr>"

lemma parked_open:
  "open_request ''t'' ''c'' ''memory'' (7 :: nat) new_broker
     = ((0, 1, True), snd (open_request ''t'' ''c'' ''memory'' (7 :: nat) new_broker))"
  by (simp add: open_request_def turn_state_of_def new_broker_def Let_def)

lemma parked_step: "pb_step r pb_start parked"
  unfolding parked_def
  by (rule pb_request) (simp add: pb_start_def, subst parked_open [symmetric], simp add: pb_start_def)

definition decided :: "nat pb_state" where
  "decided = parked\<lparr>
     pb_brokers := (pb_brokers parked)(0 := snd (resolve True ''t'' ''c'' ''deny'' (pb_brokers parked 0))),
     pb_posted := insert (''t'', ''c'', ''deny'') (pb_posted parked),
     pb_inbox := (\<lambda>q. pb_inbox parked q @ (case None of None \<Rightarrow> [] | Some m \<Rightarrow> [m]))\<rparr>"

lemma decided_step: "pb_step True parked decided"
  unfolding decided_def
  by (rule pb_decide [where ok = True and msg = None])
    (simp add: parked_def pb_start_def resolve_def VALID_DECISIONS_def resolve_local_def open_request_def
      turn_state_of_def new_broker_def Let_def)

theorem permission_decisions_authentic_witness:
  "\<exists>x. pb_waiters decided 5 = Some x \<and>
     br_futures (pb_brokers decided (w_proc x)) (w_future x) = Resolved ''deny'' \<and>
     (w_turn x, w_call x, ''deny'') \<in> pb_posted decided"
proof -
  let ?x = "\<lparr>w_proc = 0, w_turn = ''t'', w_call = ''c'', w_state = 0, w_future = 1, w_own = True\<rparr> :: waiter"
  have run: "(pb_step True)\<^sup>*\<^sup>* pb_start decided"
    using parked_step decided_step by (meson converse_rtranclp_into_rtranclp rtranclp.rtrancl_refl)
  have w: "pb_waiters decided 5 = Some ?x" by (simp add: decided_def parked_def)
  have f: "br_futures (pb_brokers decided (w_proc ?x)) (w_future ?x) = Resolved ''deny''"
    by (simp add: decided_def parked_def pb_start_def resolve_def VALID_DECISIONS_def resolve_local_def
        open_request_def turn_state_of_def new_broker_def Let_def)
  show ?thesis
    using permission_decisions_authentic [OF run w f] w f by blast
qed

text \<open>
  Aborting a turn never leaves a tool call parked: after \<open>cancel_turn\<close>, in every reachable
  state, no caller of that process waits for an open future of that turn any more.
\<close>

theorem cancel_turn_releases:
  fixes s :: "'a pb_state"
  assumes "(pb_step has_redis)\<^sup>*\<^sup>* pb_start s" and "pb_waiters s w = Some x"
    and "w_proc x = p" and "w_turn x = t"
  shows "br_futures (cancel_turn t (pb_brokers s p)) (w_future x) \<noteq> Pending"
proof -
  obtain own where own: "proc_ok own (pb_posted s) (pb_brokers s p) (waiters_of p s)"
    using pb_reachable_inv [OF assms(1)] unfolding pb_inv_def by blast
  have "waiters_of p s w = Some x" using assms(2,3) by (simp add: waiters_of_def)
  then show ?thesis using cancel_turn_ok(2) [OF own] assms(4) by blast
qed

theorem cancel_turn_releases_witness:
  "\<exists>x. pb_waiters parked 5 = Some x \<and> br_futures (pb_brokers parked 0) (w_future x) = Pending \<and>
     br_futures (cancel_turn ''t'' (pb_brokers parked 0)) (w_future x) \<noteq> Pending"
proof -
  let ?x = "\<lparr>w_proc = 0, w_turn = ''t'', w_call = ''c'', w_state = 0, w_future = 1, w_own = True\<rparr> :: waiter"
  have run: "(pb_step True)\<^sup>*\<^sup>* pb_start parked"
    using parked_step by blast
  have w: "pb_waiters parked 5 = Some ?x" by (simp add: parked_def)
  have "br_futures (pb_brokers parked 0) (w_future ?x) = Pending"
    by (simp add: parked_def pb_start_def open_request_def turn_state_of_def new_broker_def Let_def)
  with cancel_turn_releases [OF run w, of 0 "''t''"] w show ?thesis by auto
qed

end
