(* ===== verification/Agent_Repo.thy ===== *)
theory Agent_Repo
  imports Layered_Tables
begin

text \<open>
  \<open>repositories/agent_repo.py\<close> and \<open>repositories/user_settings_repo.py\<close>: the agents of a user
  and the settings of the user's own row.  The agent id of a request, \<open>ref\<close>, is \<^const>\<open>None\<close> where
  \<open>UUID()\<close> rejects its text.
\<close>

subsection \<open>Tables\<close>

record agent_row =
  a_id :: uuid
  a_user :: uuid
  a_slug :: string
  a_name :: string
  persona :: string
  default_model :: "string option"
  permission_mode :: string
  enabled_tools :: "string list"
  rate_limit_per_min :: "int option"
  cost_budget_usd_micro :: "int option"
  is_default :: bool
  archived_at :: "int option"
  a_updated_at :: int

record user_settings =
  us_default_model :: "string option"
  us_permission_mode :: string
  us_rate_limit_per_min :: "int option"
  us_cost_budget_usd_micro :: "int option"

record account =
  u_id :: uuid
  u_settings :: user_settings
  u_default_agent :: "uuid option"

record agent_db =
  db_agents :: "agent_row list"
  db_users :: "account list"

definition valid_modes :: "string list" where
  "valid_modes = [''auto'', ''ask'', ''ro'']"

text \<open>The constraints of the table: the mode check, the keys and the partial unique index.\<close>

definition agents_ok :: "agent_row list \<Rightarrow> bool" where
  "agents_ok t \<longleftrightarrow>
     list_all (\<lambda>a. permission_mode a \<in> set valid_modes) t \<and> distinct (map a_id t) \<and>
     distinct (map (\<lambda>a. (a_user a, a_slug a)) t) \<and> distinct (map a_user (filter is_default t))"

text \<open>
  A write returns its value with the new tables; one that would violate the constraints raises,
  and the transaction keeps nothing.
\<close>

definition agents_checked :: "'x \<Rightarrow> agent_row list \<Rightarrow> agent_db \<Rightarrow> ('x \<times> agent_db) result" where
  "agents_checked x t db = (if agents_ok t then Inr (x, db\<lparr>db_agents := t\<rparr>) else Inl IntegrityError)"

subsection \<open>Reads\<close>

definition agent_list_for_user :: "uuid option \<Rightarrow> bool \<Rightarrow> agent_db \<Rightarrow> agent_row list result" where
  "agent_list_for_user guc include_archived db =
     bind_result (current_user_id guc) (\<lambda>u.
       Inr (sort_key (\<lambda>a. (if is_default a then 0 else 1 :: nat, a_slug a))
         (filter (\<lambda>a. a_user a = u \<and> (include_archived \<or> archived_at a = None)) (db_agents db))))"

text \<open>The rows \<open>WHERE user_id = u AND id = aid\<close>.\<close>

definition own_agent :: "uuid \<Rightarrow> uuid \<Rightarrow> agent_row \<Rightarrow> bool" where
  "own_agent u aid a \<longleftrightarrow> a_user a = u \<and> a_id a = aid"

definition agent_get :: "uuid option \<Rightarrow> uuid option \<Rightarrow> agent_db \<Rightarrow> agent_row option result" where
  "agent_get guc ref db =
     bind_result (current_user_id guc) (\<lambda>u.
       (case ref of
          None \<Rightarrow> Inl ValueError
        | Some aid \<Rightarrow> scalar_one_or_none (filter (own_agent u aid) (db_agents db))))"

definition agent_get_by_slug :: "uuid option \<Rightarrow> string \<Rightarrow> agent_db \<Rightarrow> agent_row option result" where
  "agent_get_by_slug guc s db =
     bind_result (current_user_id guc) (\<lambda>u.
       scalar_one_or_none (filter (\<lambda>a. a_user a = u \<and> a_slug a = s) (db_agents db)))"

definition agent_get_default :: "uuid option \<Rightarrow> agent_db \<Rightarrow> agent_row option result" where
  "agent_get_default guc db =
     bind_result (current_user_id guc) (\<lambda>u.
       scalar_one_or_none
         (filter (\<lambda>a. a_user a = u \<and> is_default a \<and> archived_at a = None) (db_agents db)))"

subsection \<open>Writes\<close>

record agent_args =
  ga_slug :: string
  ga_name :: string
  ga_persona :: string
  ga_default_model :: "string option"
  ga_permission_mode :: string
  ga_enabled_tools :: "string list"
  ga_rate_limit :: "int option"
  ga_cost_budget :: "int option"
  ga_is_default :: bool

record agent_changes =
  gc_name :: "string option"
  gc_persona :: "string option"
  gc_default_model :: "string option"
  gc_clear_default_model :: bool
  gc_permission_mode :: "string option"
  gc_enabled_tools :: "string list option"
  gc_rate_limit :: "int option"
  gc_clear_rate_limit :: bool
  gc_cost_budget :: "int option"
  gc_clear_cost_budget :: bool

definition check_mode :: "string \<Rightarrow> unit result" where
  "check_mode m = (if m \<notin> set valid_modes then Inl ValueError else Inr ())"

definition agent_create ::
  "uuid option \<Rightarrow> uuid \<Rightarrow> int \<Rightarrow> agent_args \<Rightarrow> agent_db \<Rightarrow> (agent_row \<times> agent_db) result"
where
  "agent_create guc fresh now g db =
     bind_result (check_mode (ga_permission_mode g)) (\<lambda>_.
     bind_result (current_user_id guc) (\<lambda>u.
       (let row = \<lparr>a_id = fresh, a_user = u, a_slug = ga_slug g, a_name = ga_name g,
          persona = ga_persona g, default_model = ga_default_model g,
          permission_mode = ga_permission_mode g, enabled_tools = ga_enabled_tools g,
          rate_limit_per_min = ga_rate_limit g, cost_budget_usd_micro = ga_cost_budget g,
          is_default = ga_is_default g, archived_at = None, a_updated_at = now\<rparr>
        in agents_checked row (db_agents db @ [row]) db)))"

text \<open>A nullable column of an update: the new value, or null when the clear flag is set.\<close>

definition set_or_clear :: "'x option \<Rightarrow> bool \<Rightarrow> 'x option \<Rightarrow> 'x option" where
  "set_or_clear new clear old =
     (case new of Some v \<Rightarrow> Some v | None \<Rightarrow> if clear then None else old)"

definition no_changes :: "agent_changes \<Rightarrow> bool" where
  "no_changes c \<longleftrightarrow>
     gc_name c = None \<and> gc_persona c = None \<and> gc_default_model c = None \<and> \<not> gc_clear_default_model c \<and>
     gc_permission_mode c = None \<and> gc_enabled_tools c = None \<and> gc_rate_limit c = None \<and>
     \<not> gc_clear_rate_limit c \<and> gc_cost_budget c = None \<and> \<not> gc_clear_cost_budget c"

definition apply_changes :: "int \<Rightarrow> agent_changes \<Rightarrow> agent_row \<Rightarrow> agent_row" where
  "apply_changes now c a =
     a\<lparr>a_name := keep_or (gc_name c) (a_name a),
       persona := keep_or (gc_persona c) (persona a),
       default_model := set_or_clear (gc_default_model c) (gc_clear_default_model c) (default_model a),
       permission_mode := keep_or (gc_permission_mode c) (permission_mode a),
       enabled_tools := keep_or (gc_enabled_tools c) (enabled_tools a),
       rate_limit_per_min := set_or_clear (gc_rate_limit c) (gc_clear_rate_limit c) (rate_limit_per_min a),
       cost_budget_usd_micro :=
         set_or_clear (gc_cost_budget c) (gc_clear_cost_budget c) (cost_budget_usd_micro a),
       a_updated_at := now\<rparr>"

definition parsed_uuid :: "uuid option \<Rightarrow> uuid result" where
  "parsed_uuid ref = (case ref of None \<Rightarrow> Inl ValueError | Some aid \<Rightarrow> Inr aid)"

definition agent_update ::
  "uuid option \<Rightarrow> int \<Rightarrow> uuid option \<Rightarrow> agent_changes \<Rightarrow> agent_db \<Rightarrow> (agent_row option \<times> agent_db) result"
where
  "agent_update guc now ref c db =
     bind_result (case gc_permission_mode c of None \<Rightarrow> Inr () | Some m \<Rightarrow> check_mode m) (\<lambda>_.
     bind_result (current_user_id guc) (\<lambda>u.
     bind_result (parsed_uuid ref) (\<lambda>aid.
       if no_changes c then bind_result (agent_get guc (Some aid) db) (\<lambda>r. Inr (r, db))
       else
         (let t = sql_update (own_agent u aid) (apply_changes now c) (db_agents db) in
          bind_result (agents_checked () t db) (\<lambda>(_, db').
          bind_result (scalar_one_or_none (filter (own_agent u aid) t)) (\<lambda>r. Inr (r, db')))))))"

definition agent_archive ::
  "uuid option \<Rightarrow> int \<Rightarrow> uuid option \<Rightarrow> agent_db \<Rightarrow> (bool \<times> agent_db) result"
where
  "agent_archive guc now ref db =
     bind_result (current_user_id guc) (\<lambda>u.
     bind_result (parsed_uuid ref) (\<lambda>aid.
     bind_result (agent_get guc (Some aid) db) (\<lambda>existing.
       (case existing of
          None \<Rightarrow> Inr (False, db)
        | Some a \<Rightarrow>
            (if is_default a then Inl ValueError
             else agents_checked True
               (sql_update (own_agent u aid) (\<lambda>r. r\<lparr>archived_at := Some now, a_updated_at := now\<rparr>)
                 (db_agents db)) db)))))"

text \<open>\<open>UPDATE users SET default_agent_id = aid WHERE id = u\<close>.\<close>

definition stamp_default :: "uuid \<Rightarrow> uuid \<Rightarrow> agent_db \<Rightarrow> agent_db" where
  "stamp_default u aid db =
     db\<lparr>db_users := sql_update (\<lambda>x. u_id x = u) (\<lambda>x. x\<lparr>u_default_agent := Some aid\<rparr>) (db_users db)\<rparr>"

definition agent_set_default ::
  "uuid option \<Rightarrow> int \<Rightarrow> uuid option \<Rightarrow> agent_db \<Rightarrow> (agent_row option \<times> agent_db) result"
where
  "agent_set_default guc now ref db =
     bind_result (current_user_id guc) (\<lambda>u.
     bind_result (parsed_uuid ref) (\<lambda>aid.
     bind_result (agent_get guc (Some aid) db) (\<lambda>target.
       (case target of
          None \<Rightarrow> Inr (None, db)
        | Some a \<Rightarrow>
            (if archived_at a \<noteq> None then Inr (None, db)
             else
               bind_result (agents_checked ()
                 (sql_update (\<lambda>r. a_user r = u \<and> is_default r \<and> a_id r \<noteq> aid)
                    (\<lambda>r. r\<lparr>is_default := False, a_updated_at := now\<rparr>) (db_agents db)) db) (\<lambda>(_, db1).
               bind_result (agents_checked ()
                 (sql_update (own_agent u aid) (\<lambda>r. r\<lparr>is_default := True, a_updated_at := now\<rparr>)
                    (db_agents db1)) db1) (\<lambda>(_, db2).
               bind_result (scalar_one_or_none (filter (own_agent u aid) (db_agents db2))) (\<lambda>updated.
                 Inr (updated, stamp_default u aid db2)))))))))"

definition agent_ensure_default ::
  "uuid option \<Rightarrow> uuid \<Rightarrow> int \<Rightarrow> agent_db \<Rightarrow> (agent_row \<times> agent_db) result"
where
  "agent_ensure_default guc fresh now db =
     bind_result (agent_get_default guc db) (\<lambda>existing.
       (case existing of
          Some a \<Rightarrow> Inr (a, db)
        | None \<Rightarrow>
            bind_result (agent_create guc fresh now
              \<lparr>ga_slug = ''default'', ga_name = ''default'', ga_persona = [], ga_default_model = None,
               ga_permission_mode = ''auto'', ga_enabled_tools = [], ga_rate_limit = None,
               ga_cost_budget = None, ga_is_default = True\<rparr> db) (\<lambda>(agent, db').
            bind_result (current_user_id guc) (\<lambda>u. Inr (agent, stamp_default u (a_id agent) db')))))"

subsection \<open>UserSettingsRepo\<close>

text \<open>\<open>Result.one()\<close> raises when there is no row; the key excludes several.\<close>

definition settings_get :: "uuid option \<Rightarrow> agent_db \<Rightarrow> user_settings result" where
  "settings_get guc db =
     bind_result (current_user_id guc) (\<lambda>u.
       (case filter (\<lambda>x. u_id x = u) (db_users db) of
          [] \<Rightarrow> Inl RuntimeError
        | [x] \<Rightarrow> Inr (u_settings x)
        | _ \<Rightarrow> Inl MultipleResultsFound))"

definition settings_update ::
  "uuid option \<Rightarrow> string option \<Rightarrow> bool \<Rightarrow> string option \<Rightarrow> agent_db \<Rightarrow> (user_settings \<times> agent_db) result"
where
  "settings_update guc model clear_model mode db =
     bind_result (case mode of None \<Rightarrow> Inr () | Some m \<Rightarrow> check_mode m) (\<lambda>_.
     bind_result
       (if model = None \<and> \<not> clear_model \<and> mode = None then Inr db
        else
          bind_result (current_user_id guc) (\<lambda>u.
            Inr (db\<lparr>db_users := sql_update (\<lambda>x. u_id x = u)
              (\<lambda>x. x\<lparr>u_settings := (u_settings x)\<lparr>
                 us_default_model := set_or_clear model clear_model (us_default_model (u_settings x)),
                 us_permission_mode := keep_or mode (us_permission_mode (u_settings x))\<rparr>\<rparr>) (db_users db)\<rparr>)))
       (\<lambda>db'. bind_result (settings_get guc db') (\<lambda>st. Inr (st, db'))))"

subsection \<open>The default agent\<close>

inductive agent_step :: "agent_db \<Rightarrow> agent_db \<Rightarrow> bool" where
  as_create: "agent_create guc fresh now g db = Inr (r, db') \<Longrightarrow> agent_step db db'"
| as_update: "agent_update guc now ref c db = Inr (r', db') \<Longrightarrow> agent_step db db'"
| as_archive: "agent_archive guc now ref db = Inr (ok, db') \<Longrightarrow> agent_step db db'"
| as_set_default: "agent_set_default guc now ref db = Inr (r', db') \<Longrightarrow> agent_step db db'"
| as_ensure: "agent_ensure_default guc fresh now db = Inr (r, db') \<Longrightarrow> agent_step db db'"
| as_settings: "settings_update guc m clear mode db = Inr (st, db') \<Longrightarrow> agent_step db db'"

definition main_agent :: "uuid \<Rightarrow> agent_db \<Rightarrow> agent_row \<Rightarrow> bool" where
  "main_agent u db b \<longleftrightarrow>
     b \<in> set (db_agents db) \<and> a_user b = u \<and> is_default b \<and> archived_at b = None \<and>
     (\<forall>x \<in> set (db_users db). u_id x = u \<longrightarrow> u_default_agent x = Some (a_id b))"

definition main_ok :: "uuid \<Rightarrow> agent_db \<Rightarrow> bool" where
  "main_ok u db \<longleftrightarrow> agents_ok (db_agents db) \<and> (\<exists>b. main_agent u db b)"

lemma agents_checked_Inr:
  "agents_checked x t db = Inr (y, db') \<longleftrightarrow> y = x \<and> agents_ok t \<and> db' = db\<lparr>db_agents := t\<rparr>"
  by (auto simp: agents_checked_def)

lemma in_sql_update: "b \<in> set t \<Longrightarrow> (if p b then f b else b) \<in> set (sql_update p f t)"
  by (auto simp: sql_update_def)

lemma agents_ok_le_one:
  assumes "agents_ok t"
  shows "length (filter (own_agent u aid) t) \<le> 1" and "length (filter (\<lambda>a. a_user a = u \<and> is_default a) t) \<le> 1"
proof -
  have "distinct (map a_id (filter (\<lambda>_. True) t))" using assms by (simp add: agents_ok_def)
  then show "length (filter (own_agent u aid) t) \<le> 1"
    by (rule filter_same_key_le_one [where k = aid]) (simp add: own_agent_def)
  have "distinct (map a_user (filter is_default t))" using assms by (simp add: agents_ok_def)
  then show "length (filter (\<lambda>a. a_user a = u \<and> is_default a) t) \<le> 1"
    by (rule filter_same_key_le_one [where k = u]) simp
qed

lemma same_default:
  assumes "agents_ok t" and "b \<in> set t" and "c \<in> set t"
    and "a_user b = a_user c" and "is_default b" and "is_default c"
  shows "b = c"
proof -
  have "filter (\<lambda>a. a_user a = a_user c \<and> is_default a) t = [b]"
    "filter (\<lambda>a. a_user a = a_user c \<and> is_default a) t = [c]"
    using filter_le_one_singleton [OF agents_ok_le_one(2) [OF assms(1)]] assms by simp_all
  then show ?thesis by simp
qed

lemma main_get_default:
  assumes "agents_ok (db_agents db)" and "main_agent u db b"
  shows "agent_get_default (Some u) db = Inr (Some b)"
proof -
  have "filter (\<lambda>a. a_user a = u \<and> is_default a \<and> archived_at a = None) (db_agents db) = [b]"
  proof (subst filter_le_one_singleton)
    have "filter (\<lambda>a. a_user a = u \<and> is_default a \<and> archived_at a = None) (db_agents db)
        = filter (\<lambda>a. archived_at a = None) (filter (\<lambda>a. a_user a = u \<and> is_default a) (db_agents db))"
      by (simp add: conj_assoc)
    then have "length (filter (\<lambda>a. a_user a = u \<and> is_default a \<and> archived_at a = None) (db_agents db))
        \<le> length (filter (\<lambda>a. a_user a = u \<and> is_default a) (db_agents db))"
      by (simp only: length_filter_le)
    then show "length (filter (\<lambda>a. a_user a = u \<and> is_default a \<and> archived_at a = None) (db_agents db)) \<le> 1"
      using agents_ok_le_one(2) [OF assms(1), of u] by linarith
  qed (use assms(2) in \<open>simp add: main_agent_def\<close>)
  then show ?thesis by (simp add: agent_get_default_def current_user_id_def)
qed

lemma main_keep:
  assumes "main_agent u db b" and "agents_ok t"
    and "\<And>a. a \<in> set (db_agents db) \<Longrightarrow> p a \<Longrightarrow> a_id (f a) = a_id a \<and> a_user (f a) = a_user a \<and>
      is_default (f a) = is_default a \<and> (is_default a \<longrightarrow> archived_at (f a) = archived_at a)"
    and "t = sql_update p f (db_agents db)"
  shows "main_ok u (db\<lparr>db_agents := t\<rparr>)"
proof -
  let ?b = "if p b then f b else b"
  have "b \<in> set (db_agents db)" using assms(1) by (simp add: main_agent_def)
  then have "?b \<in> set t" unfolding assms(4) by (rule in_sql_update)
  then have "main_agent u (db\<lparr>db_agents := t\<rparr>) ?b"
    using assms(1) assms(3) [of b] by (auto simp: main_agent_def)
  with assms(2) show ?thesis by (auto simp: main_ok_def)
qed

lemma main_create:
  assumes "main_agent u db b" and "agent_create guc fresh now g db = Inr (r, db')"
  shows "main_ok u db'"
  using assms
  by (auto simp: agent_create_def result_eqs agents_checked_Inr main_agent_def main_ok_def Let_def)

lemma main_update:
  assumes "main_agent u db b" and "agents_ok (db_agents db)" and "agent_update guc now ref c db = Inr (r, db')"
  shows "main_ok u db'"
proof (cases "no_changes c")
  case True
  with assms show ?thesis by (auto simp: agent_update_def result_eqs main_ok_def)
next
  case False
  with assms(3) obtain v aid where
    t: "agents_ok (sql_update (own_agent v aid) (apply_changes now c) (db_agents db))"
    "db' = db\<lparr>db_agents := sql_update (own_agent v aid) (apply_changes now c) (db_agents db)\<rparr>"
    by (auto simp: agent_update_def result_eqs agents_checked_Inr Let_def)
  show ?thesis
    unfolding t(2) by (rule main_keep [OF assms(1) t(1) _ refl]) (simp add: apply_changes_def)
qed

lemma agent_getD:
  "agent_get guc (Some aid) db = Inr (Some a) \<Longrightarrow>
   a \<in> set (db_agents db) \<and> (\<exists>v. guc = Some v \<and> own_agent v aid a \<and> filter (own_agent v aid) (db_agents db) = [a])"
  by (auto simp: agent_get_def result_eqs current_user_id_def dest: filter_singletonD split: option.splits)

lemma main_archive:
  assumes "main_agent u db b" and "agents_ok (db_agents db)" and "agent_archive guc now ref db = Inr (ok, db')"
  shows "main_ok u db'"
proof -
  from assms(3) obtain v aid e where v: "guc = Some v" and e: "agent_get guc (Some aid) db = Inr e"
    and rest: "(case e of None \<Rightarrow> Inr (False, db) | Some a \<Rightarrow> if is_default a then Inl ValueError
      else agents_checked True (sql_update (own_agent v aid)
        (\<lambda>r. r\<lparr>archived_at := Some now, a_updated_at := now\<rparr>) (db_agents db)) db) = Inr (ok, db')"
    by (auto simp: agent_archive_def result_eqs current_user_id_def split: option.splits)
  show ?thesis
  proof (cases e)
    case None
    with rest assms(1,2) show ?thesis by (auto simp: main_ok_def)
  next
    case (Some a)
    let ?t = "sql_update (own_agent v aid) (\<lambda>r. r\<lparr>archived_at := Some now, a_updated_at := now\<rparr>) (db_agents db)"
    from Some rest have nd: "\<not> is_default a" and t: "agents_ok ?t" "db' = db\<lparr>db_agents := ?t\<rparr>"
      by (auto simp: agents_checked_Inr split: if_splits)
    have "filter (own_agent v aid) (db_agents db) = [a]"
      using agent_getD [of guc aid db a] e Some v by auto
    then have "\<not> is_default x" if "x \<in> set (db_agents db)" "own_agent v aid x" for x
      using nd that by (metis (mono_tags, lifting) list.set_intros(1) mem_Collect_eq set_ConsD set_filter empty_iff list.set(1))
    then show ?thesis
      unfolding t(2) by (intro main_keep [OF assms(1) t(1) _ refl]) auto
  qed
qed

lemma main_set_default:
  assumes "main_agent u db b" and "agents_ok (db_agents db)"
    and "agent_set_default guc now ref db = Inr (r, db')"
  shows "main_ok u db'"
proof -
  obtain v where v: "guc = Some v"
    using assms(3) by (cases guc) (simp_all add: agent_set_default_def current_user_id_def)
  obtain aid where p: "parsed_uuid ref = Inr aid"
    using assms(3) v by (cases "parsed_uuid ref") (simp_all add: agent_set_default_def current_user_id_def)
  obtain e where e: "agent_get guc (Some aid) db = Inr e"
    using assms(3) v p
    by (cases "agent_get guc (Some aid) db") (simp_all add: agent_set_default_def current_user_id_def)
  note run = assms(3) [unfolded agent_set_default_def v current_user_id_def option.case bind_result_simps p
      e [unfolded v]]
  have same: ?thesis if "db' = db"
    using assms(1,2) that by (auto simp: main_ok_def)
  show ?thesis
  proof (cases "db' = db")
    case False
    define p1 where "p1 = (\<lambda>r :: agent_row. a_user r = v \<and> is_default r \<and> a_id r \<noteq> aid)"
    define f1 where "f1 = (\<lambda>r :: agent_row. r\<lparr>is_default := False, a_updated_at := now\<rparr>)"
    define f2 where "f2 = (\<lambda>r :: agent_row. r\<lparr>is_default := True, a_updated_at := now\<rparr>)"
    let ?t2 = "sql_update (own_agent v aid) f2 (sql_update p1 f1 (db_agents db))"
    obtain a where a1: "e = Some a" using run False by (cases e) simp_all
    have a2: "archived_at a = None" using run False a1 by (cases "archived_at a") simp_all
    have a3: "agents_ok ?t2" "db' = stamp_default v aid (db\<lparr>db_agents := ?t2\<rparr>)"
      using run a1 a2 by (auto simp: result_eqs agents_checked_Inr p1_def f1_def f2_def)
    note a = a1 a2 a3
    have mem: "(let x' = if p1 x then f1 x else x in if own_agent v aid x' then f2 x' else x') \<in> set ?t2"
      if "x \<in> set (db_agents db)" for x
      unfolding Let_def by (intro in_sql_update that)
    show ?thesis
    proof (cases "v = u")
      case True
      have own: "a \<in> set (db_agents db)" "own_agent v aid a"
        using agent_getD [of guc aid db a] e a(1) v by auto
      then have "f2 a \<in> set ?t2"
        using mem [OF own(1)] by (simp add: p1_def own_agent_def)
      then have "main_agent u db' (f2 a)"
        using own a(2) True
        by (auto simp: main_agent_def a(4) stamp_default_def f2_def own_agent_def sql_update_def)
      then show ?thesis using a(3) by (auto simp: main_ok_def a(4) stamp_default_def)
    next
      case False
      have b: "b \<in> set (db_agents db)" "a_user b = u" using assms(1) by (simp_all add: main_agent_def)
      then have "b \<in> set ?t2"
        using mem [OF b(1)] False by (simp add: p1_def own_agent_def)
      then have "main_agent u db' b"
        using assms(1) False by (auto simp: main_agent_def a(4) stamp_default_def sql_update_def split: if_splits)
      then show ?thesis using a(3) by (auto simp: main_ok_def a(4) stamp_default_def)
    qed
  qed (rule same)
qed

lemma main_ensure:
  assumes "main_agent u db b" and "agents_ok (db_agents db)"
    and "agent_ensure_default guc fresh now db = Inr (r, db')"
  shows "main_ok u db'"
proof -
  from assms(3) obtain v where v: "guc = Some v"
    by (auto simp: agent_ensure_default_def agent_get_default_def current_user_id_def result_eqs split: option.splits)
  show ?thesis
  proof (cases "v = u")
    case True
    with assms(3) v main_get_default [OF assms(2,1)] have "db' = db"
      by (simp add: agent_ensure_default_def)
    with assms(1,2) show ?thesis by (auto simp: main_ok_def)
  next
    case False
    from assms(3) v obtain e where e: "agent_get_default guc db = Inr e"
      by (auto simp: agent_ensure_default_def result_eqs)
    show ?thesis
    proof (cases e)
      case (Some a)
      with e assms show ?thesis by (auto simp: agent_ensure_default_def main_ok_def)
    next
      case None
      with e assms(3) v obtain g r1 db1 where c: "agent_create guc fresh now g db = Inr (r1, db1)"
        and db': "db' = stamp_default v (a_id r1) db1"
        by (auto simp: agent_ensure_default_def result_eqs current_user_id_def)
      from c have "db_users db1 = db_users db" "set (db_agents db) \<subseteq> set (db_agents db1)"
        "agents_ok (db_agents db1)"
        by (auto simp: agent_create_def result_eqs agents_checked_Inr Let_def)
      with assms(1) False have "main_agent u db' b" "agents_ok (db_agents db')"
        by (auto simp: main_agent_def db' stamp_default_def sql_update_def split: if_splits)
      then show ?thesis by (auto simp: main_ok_def)
    qed
  qed
qed

lemma main_settings:
  assumes "main_agent u db b" and "agents_ok (db_agents db)"
    and "settings_update guc m clear mode db = Inr (st, db')"
  shows "main_ok u db'"
proof -
  from assms(3) obtain f where f: "\<And>x. u_id (f x) = u_id x \<and> u_default_agent (f x) = u_default_agent x"
    and db': "db' = db \<or> (\<exists>p. db' = db\<lparr>db_users := sql_update p f (db_users db)\<rparr>)"
  proof -
    assume goal: "\<And>f. (\<And>x. u_id (f x) = u_id x \<and> u_default_agent (f x) = u_default_agent x) \<Longrightarrow>
      db' = db \<or> (\<exists>p. db' = db\<lparr>db_users := sql_update p f (db_users db)\<rparr>) \<Longrightarrow> thesis"
    let ?f = "\<lambda>x. x\<lparr>u_settings := (u_settings x)\<lparr>
      us_default_model := set_or_clear m clear (us_default_model (u_settings x)),
      us_permission_mode := keep_or mode (us_permission_mode (u_settings x))\<rparr>\<rparr>"
    have "db' = db \<or> (\<exists>p. db' = db\<lparr>db_users := sql_update p ?f (db_users db)\<rparr>)"
      using assms(3) unfolding settings_update_def result_eqs
      by (clarsimp split: if_splits) (auto simp: result_eqs)
    then show thesis by (intro goal [of ?f]) simp_all
  qed
  have "db_agents db' = db_agents db"
    using db' by auto
  moreover have "\<forall>x' \<in> set (db_users db'). \<exists>x \<in> set (db_users db). u_id x' = u_id x \<and> u_default_agent x' = u_default_agent x"
    using db'
  proof (elim disjE exE)
    fix p assume d: "db' = db\<lparr>db_users := sql_update p f (db_users db)\<rparr>"
    show ?thesis
    proof
      fix x' assume "x' \<in> set (db_users db')"
      then obtain x where "x \<in> set (db_users db)" "x' = (if p x then f x else x)"
        by (auto simp: d sql_update_def)
      then show "\<exists>x \<in> set (db_users db). u_id x' = u_id x \<and> u_default_agent x' = u_default_agent x"
        using f by (intro bexI [of _ x]) auto
    qed
  qed auto
  ultimately have "main_agent u db' b" "agents_ok (db_agents db')"
    using assms(1,2) by (auto simp: main_agent_def)
  then show ?thesis by (auto simp: main_ok_def)
qed

lemma agent_step_main:
  assumes "agent_step db db'" and "main_ok u db"
  shows "main_ok u db'"
proof -
  from assms(2) obtain b where b: "main_agent u db b" and ok: "agents_ok (db_agents db)"
    by (auto simp: main_ok_def)
  from assms(1) show ?thesis
    by cases (erule main_create [OF b] main_update [OF b ok] main_archive [OF b ok]
      main_set_default [OF b ok] main_ensure [OF b ok] main_settings [OF b ok])+
qed

lemma ensure_default_main:
  assumes "agents_ok (db_agents db)" and "\<forall>a \<in> set (db_agents db). a_user a = u \<longrightarrow> \<not> is_default a"
    and "agent_ensure_default (Some u) fresh now db = Inr (r, db')"
  shows "main_ok u db'"
proof -
  have "filter (\<lambda>a. a_user a = u \<and> is_default a \<and> archived_at a = None) (db_agents db) = []"
    using assms(2) by (auto simp: filter_empty_conv)
  then have "agent_get_default (Some u) db = Inr None"
    by (simp add: agent_get_default_def current_user_id_def)
  with assms(3) obtain db1 where c: "agent_create (Some u) fresh now
      \<lparr>ga_slug = ''default'', ga_name = ''default'', ga_persona = [], ga_default_model = None,
       ga_permission_mode = ''auto'', ga_enabled_tools = [], ga_rate_limit = None,
       ga_cost_budget = None, ga_is_default = True\<rparr> db = Inr (r, db1)"
    and db': "db' = stamp_default u (a_id r) db1"
    by (auto simp: agent_ensure_default_def result_eqs current_user_id_def)
  from c have r: "a_user r = u" "is_default r" "archived_at r = None" "r \<in> set (db_agents db1)"
    "agents_ok (db_agents db1)"
    by (auto simp: agent_create_def result_eqs agents_checked_Inr Let_def current_user_id_def)
  then have "main_agent u db' r" "agents_ok (db_agents db')"
    by (auto simp: main_agent_def db' stamp_default_def sql_update_def)
  then show ?thesis by (auto simp: main_ok_def)
qed

subsection \<open>Properties\<close>

text \<open>
  C9. A user always has exactly one default agent to resolve turns with: once
  \<open>ensure_default\<close> has created it, whatever any tenant creates, edits, archives or promotes,
  \<open>get_default\<close> finds one row, it is not archived, and \<open>users.default_agent_id\<close> names it.
\<close>

theorem default_agent_invariant:
  assumes "agents_ok (db_agents db)" and "\<forall>a \<in> set (db_agents db). a_user a = u \<longrightarrow> \<not> is_default a"
    and "agent_ensure_default (Some u) fresh now db = Inr (r, db1)" and "agent_step\<^sup>*\<^sup>* db1 db2"
  shows "\<exists>b. agent_get_default (Some u) db2 = Inr (Some b) \<and> archived_at b = None \<and>
    (\<forall>x \<in> set (db_users db2). u_id x = u \<longrightarrow> u_default_agent x = Some (a_id b))"
proof -
  have "main_ok u db1" using ensure_default_main assms(1-3) by blast
  with assms(4) have "main_ok u db2"
    by (induction rule: rtranclp_induct) (auto intro: agent_step_main)
  then obtain b where "main_agent u db2 b" "agents_ok (db_agents db2)"
    by (auto simp: main_ok_def)
  then show ?thesis
    using main_get_default by (auto simp: main_agent_def)
qed

definition example_db :: agent_db where
  "example_db = \<lparr>db_agents = [], db_users = [\<lparr>u_id = 7, u_settings = \<lparr>us_default_model = None,
     us_permission_mode = ''auto'', us_rate_limit_per_min = None, us_cost_budget_usd_micro = None\<rparr>,
     u_default_agent = None\<rparr>]\<rparr>"

definition example_db1 :: agent_db where
  "example_db1 = (case agent_ensure_default (Some 7) 1 0 example_db of Inl e \<Rightarrow> example_db | Inr (r, db) \<Rightarrow> db)"

definition example_args :: agent_args where
  "example_args = \<lparr>ga_slug = ''coder'', ga_name = ''coder'', ga_persona = [], ga_default_model = None,
      ga_permission_mode = ''ro'', ga_enabled_tools = [], ga_rate_limit = None,
      ga_cost_budget = None, ga_is_default = False\<rparr>"

definition example_db2 :: agent_db where
  "example_db2 = (case agent_create (Some 7) 2 5 example_args example_db1 of Inl e \<Rightarrow> example_db1 | Inr (r, db) \<Rightarrow> db)"

lemmas agent_example_defs = example_db_def agent_ensure_default_def agent_get_default_def
  current_user_id_def agent_create_def check_mode_def valid_modes_def agents_checked_def agents_ok_def
  stamp_default_def sql_update_def Let_def

theorem default_agent_invariant_witness:
  "\<exists>b. agent_get_default (Some 7) example_db2 = Inr (Some b) \<and> archived_at b = None \<and>
     length (db_agents example_db2) = 2"
proof -
  have d1: "\<exists>r. agent_ensure_default (Some 7) 1 0 example_db = Inr (r, example_db1)"
    by (simp add: example_db1_def agent_example_defs)
  have "\<exists>r. agent_create (Some 7) 2 5 example_args example_db1 = Inr (r, example_db2) \<and> length (db_agents example_db2) = 2"
    by (simp add: example_db2_def example_args_def example_db1_def agent_example_defs)
  then have step: "agent_step\<^sup>*\<^sup>* example_db1 example_db2" and len: "length (db_agents example_db2) = 2"
    using as_create by blast+
  from d1 obtain r where r: "agent_ensure_default (Some 7) 1 0 example_db = Inr (r, example_db1)" ..
  have ok: "agents_ok (db_agents example_db)" "\<forall>a \<in> set (db_agents example_db). a_user a = 7 \<longrightarrow> \<not> is_default a"
    by (simp_all add: example_db_def agents_ok_def)
  show ?thesis
    using default_agent_invariant [OF ok r step] len by blast
qed

end
