(* ===== verification/Pricing.thy ===== *)
theory Pricing
  imports Complex_Main Prelude
begin

text \<open>
  \<open>providers/pricing.py\<close>: the price of a turn in micro-USD.  Rates are exact decimals; the
  rounding error of binary floats on them is not modelled, \<open>round\<close> to even is.
\<close>

record model_pricing =
  mp_name :: string
  mp_provider :: string
  input_per_mtok :: rat
  cached_input_per_mtok :: rat
  output_per_mtok :: rat

type_synonym pricing_table = "string \<Rightarrow> model_pricing option"

text \<open>The rows of the file in order: a later row of the same name replaces an earlier one.\<close>

definition pricing_rows :: "model_pricing list \<Rightarrow> pricing_table" where
  "pricing_rows rows = fold (\<lambda>r t. t(mp_name r \<mapsto> r)) rows (\<lambda>_. None)"

definition py_round :: "rat \<Rightarrow> int" where
  "py_round x =
     (let f = \<lfloor>x\<rfloor>; d = x - of_int f in
      if d < 1 / 2 then f else if 1 / 2 < d then f + 1 else if even f then f else f + 1)"

definition compute_cost_usd_micro :: "pricing_table \<Rightarrow> string \<Rightarrow> int \<Rightarrow> int \<Rightarrow> int \<Rightarrow> int" where
  "compute_cost_usd_micro table model input_tokens output_tokens cached_input_tokens =
     (case table model of
        None \<Rightarrow> 0
      | Some p \<Rightarrow>
          py_round (of_int input_tokens * input_per_mtok p
            + of_int cached_input_tokens * cached_input_per_mtok p
            + of_int output_tokens * output_per_mtok p))"

lemma py_round_int [simp]: "py_round (of_int n) = n"
  by (simp add: py_round_def)

lemma py_round_close: "\<bar>of_int (py_round x) - x\<bar> \<le> 1 / 2"
  using of_int_floor_le [of x] real_of_int_floor_add_one_gt
  by (auto simp: py_round_def Let_def abs_if algebra_simps) (linarith | use floor_correct [of x] in linarith)+

lemma py_round_nonneg: "0 \<le> x \<Longrightarrow> 0 \<le> py_round x"
  by (simp add: py_round_def Let_def)

lemma cost_nonneg:
  assumes "\<And>p. table model = Some p \<Longrightarrow>
      0 \<le> input_per_mtok p \<and> 0 \<le> cached_input_per_mtok p \<and> 0 \<le> output_per_mtok p"
    and "0 \<le> i" and "0 \<le> out" and "0 \<le> c"
  shows "0 \<le> compute_cost_usd_micro table model i out c"
  using assms by (auto simp: compute_cost_usd_micro_def intro!: py_round_nonneg add_nonneg_nonneg split: option.splits)

end
