(* ===== verification/Turn_Stream.thy ===== *)
theory Turn_Stream
  imports Sse Pricing
begin

text \<open>
  \<open>web/turns.py\<close>: the driver between the agent's event stream and the server-sent events of a
  turn.  The queue it reads is filled by two tasks, one with the events of the runner and its
  end, one with permission requests; their interleaving is any shuffle.  An event function of
  \<open>web/sse.py\<close> is kept as the name and data it encodes.
\<close>

subsection \<open>Events\<close>

text \<open>The attributes the driver reads from a result; an absent count is \<^const>\<open>None\<close>.\<close>

record run_result =
  rr_final_output :: pystr
  rr_input_tokens :: "int option"
  rr_output_tokens :: "int option"
  rr_cached_input_tokens :: "int option"

text \<open>
  Tool events have an optional id and, as Python objects, an address, from which the driver
  makes an id when there is none.
\<close>

datatype agent_event =
    StreamDelta pystr
  | StreamToolCall "pystr option" pystr ujson nat
  | StreamToolOutput "pystr option" pystr pystr nat
  | StreamDone run_result
  | OtherEvent

type_synonym sse_event = "string \<times> (pystr \<times> ujson) list"

definition synthesise_tool_call_id :: "pystr \<Rightarrow> nat \<Rightarrow> pystr" where
  "synthesise_tool_call_id name addr = codes ''tc_'' @ name @ codes ''_'' @ codes (hex4 addr)"

definition tool_event_id :: "pystr option \<Rightarrow> pystr \<Rightarrow> nat \<Rightarrow> pystr" where
  "tool_event_id i name addr =
     (case i of Some (c # cs) \<Rightarrow> c # cs | _ \<Rightarrow> synthesise_tool_call_id name addr)"

fun translate_event :: "agent_event \<Rightarrow> sse_event list" where
  "translate_event (StreamDelta t) = (if t = [] then [] else [(''delta'', [(codes ''text'', UStr t)])])"
| "translate_event (StreamToolCall i name args addr) =
     [(''tool_call'', [(codes ''id'', UStr (tool_event_id i name addr)), (codes ''name'', UStr name),
       (codes ''args'', args)])]"
| "translate_event (StreamToolOutput i name output addr) =
     [(''tool_output'', [(codes ''id'', UStr (tool_event_id i name addr)), (codes ''output'', UStr output)])]"
| "translate_event (StreamDone r) = []"
| "translate_event OtherEvent = []"

lemma translate_delta_encodes: "t \<noteq> [] \<Longrightarrow> encode_all (translate_event (StreamDelta t)) = event_delta t"
  by (simp add: encode_all_def event_delta_def)

subsection \<open>The loop\<close>

record turn_usage =
  tu_model :: "string option"
  tu_input_tokens :: int
  tu_output_tokens :: int
  tu_cached_input_tokens :: int
  tu_cost_usd_micro :: int

definition no_usage :: turn_usage where
  "no_usage = \<lparr>tu_model = None, tu_input_tokens = 0, tu_output_tokens = 0, tu_cached_input_tokens = 0,
     tu_cost_usd_micro = 0\<rparr>"

definition count_of :: "int option \<Rightarrow> int" where
  "count_of n = (case n of None \<Rightarrow> 0 | Some k \<Rightarrow> k)"

text \<open>\<open>request.model or ""\<close>, and the usage a final result stands for.\<close>

definition model_name :: "string option \<Rightarrow> string" where
  "model_name m = (case m of None \<Rightarrow> [] | Some s \<Rightarrow> s)"

definition usage_of_result :: "pricing_table \<Rightarrow> string option \<Rightarrow> run_result \<Rightarrow> turn_usage" where
  "usage_of_result table model r =
     (let i = count_of (rr_input_tokens r); out = count_of (rr_output_tokens r);
          c = count_of (rr_cached_input_tokens r); name = model_name model
      in \<lparr>tu_model = (if name = [] then None else Some name), tu_input_tokens = i,
          tu_output_tokens = out, tu_cached_input_tokens = c,
          tu_cost_usd_micro = compute_cost_usd_micro table name i out c\<rparr>)"

definition usage_event :: "turn_usage \<Rightarrow> sse_event" where
  "usage_event u =
     (''usage'', [(codes ''input_tokens'', UInt (tu_input_tokens u)),
       (codes ''output_tokens'', UInt (tu_output_tokens u)),
       (codes ''cost_usd_micro'', UInt (tu_cost_usd_micro u))])"

definition error_event :: "string \<Rightarrow> pystr \<Rightarrow> sse_event" where
  "error_event k message = (''error'', [(codes ''kind'', UStr (codes k)), (codes ''message'', UStr message)])"

definition done_event :: "pystr \<Rightarrow> pystr \<Rightarrow> sse_event" where
  "done_event turn_id final_text =
     (''done'', [(codes ''turn_id'', UStr turn_id), (codes ''final_text'', UStr final_text)])"

definition permission_event :: "pystr \<Rightarrow> pystr \<Rightarrow> ujson \<Rightarrow> sse_event" where
  "permission_event tool_call_id tool args =
     (''permission_request'', [(codes ''tool_call_id'', UStr tool_call_id), (codes ''tool'', UStr tool),
       (codes ''args'', args)])"

lemma events_encode:
  "encode_all [error_event k msg] = event_error (codes k) msg None"
  "encode_all [done_event tid txt] = event_done tid txt"
  "encode_all [permission_event c t a] = event_permission_request c t a"
  "encode_all [usage_event u] = event_usage (tu_input_tokens u) (tu_output_tokens u) (tu_cost_usd_micro u)"
  by (simp_all add: encode_all_def error_event_def event_error_def done_event_def event_done_def
      permission_event_def event_permission_request_def usage_event_def event_usage_def)

text \<open>What the queue holds; an error carries \<open>str(exc)\<close> and the name of its class.\<close>

datatype item =
    ItemEvent agent_event
  | ItemPermission pystr pystr ujson
  | ItemError pystr pystr
  | ItemAborted
  | ItemEnd

text \<open>
  The loop of \<open>stream_turn_to_sse\<close>: the events it yields, the final text and the usage.
  \<^const>\<open>None\<close> means that it still waits for the queue.
\<close>

fun stream_loop ::
  "pricing_table \<Rightarrow> string option \<Rightarrow> item list \<Rightarrow> pystr \<Rightarrow> turn_usage
     \<Rightarrow> (sse_event list \<times> pystr \<times> turn_usage) option"
where
  "stream_loop table model [] final usage = None"
| "stream_loop table model (ItemEnd # items) final usage = Some ([], final, usage)"
| "stream_loop table model (ItemError msg cls # items) final usage =
     Some ([error_event ''INTERNAL'' (if msg = [] then cls else msg)], final, usage)"
| "stream_loop table model (ItemAborted # items) final usage =
     Some ([error_event ''UNAVAILABLE'' (codes ''turn aborted'')], final, usage)"
| "stream_loop table model (ItemPermission c t a # items) final usage =
     map_option (\<lambda>(evs, x). (permission_event c t a # evs, x)) (stream_loop table model items final usage)"
| "stream_loop table model (ItemEvent ev # items) final usage =
     (case ev of
        StreamDone r \<Rightarrow>
          (let u = usage_of_result table model r in
           map_option (\<lambda>(evs, x). (translate_event ev @ usage_event u # evs, x))
             (stream_loop table model items (rr_final_output r) u))
      | _ \<Rightarrow>
          map_option (\<lambda>(evs, x). (translate_event ev @ evs, x)) (stream_loop table model items final usage))"

text \<open>The whole generator: the \<open>finally\<close> clause yields the \<open>done\<close> event.\<close>

definition stream_turn ::
  "pricing_table \<Rightarrow> pystr \<Rightarrow> string option \<Rightarrow> item list \<Rightarrow> (sse_event list \<times> turn_usage) option"
where
  "stream_turn table turn_id model items =
     map_option (\<lambda>(evs, final, usage). (evs @ [done_event turn_id final], usage))
       (stream_loop table model items [] no_usage)"

subsection \<open>What the runner task puts on the queue\<close>

datatype run_end = Finished | Raised pystr pystr | CancelledRun

fun end_items :: "run_end \<Rightarrow> item list" where
  "end_items Finished = [ItemEnd]"
| "end_items (Raised msg cls) = [ItemError msg cls, ItemEnd]"
| "end_items CancelledRun = [ItemAborted, ItemEnd]"

definition drain_runner :: "agent_event list \<Rightarrow> run_end \<Rightarrow> item list" where
  "drain_runner evs e = map ItemEvent evs @ end_items e"

definition drain_broker :: "(pystr \<times> pystr \<times> ujson) list \<Rightarrow> item list" where
  "drain_broker reqs = map (\<lambda>(c, t, a). ItemPermission c t a) reqs"

subsection \<open>The promise to the client\<close>

text \<open>The events of a turn without permission requests: its translated events, the error if
  any, and the end with the last final text.\<close>

definition event_chunks :: "pricing_table \<Rightarrow> string option \<Rightarrow> agent_event \<Rightarrow> sse_event list" where
  "event_chunks table model ev =
     translate_event ev @ (case ev of StreamDone r \<Rightarrow> [usage_event (usage_of_result table model r)] | _ \<Rightarrow> [])"

fun error_chunks :: "run_end \<Rightarrow> sse_event list" where
  "error_chunks Finished = []"
| "error_chunks (Raised msg cls) = [error_event ''INTERNAL'' (if msg = [] then cls else msg)]"
| "error_chunks CancelledRun = [error_event ''UNAVAILABLE'' (codes ''turn aborted'')]"

fun last_result :: "agent_event list \<Rightarrow> run_result option \<Rightarrow> run_result option" where
  "last_result [] r = r"
| "last_result (StreamDone r' # evs) r = last_result evs (Some r')"
| "last_result (ev # evs) r = last_result evs r"

definition final_text_of :: "agent_event list \<Rightarrow> pystr" where
  "final_text_of evs = (case last_result evs None of None \<Rightarrow> [] | Some r \<Rightarrow> rr_final_output r)"

definition usage_of :: "pricing_table \<Rightarrow> string option \<Rightarrow> agent_event list \<Rightarrow> turn_usage" where
  "usage_of table model evs =
     (case last_result evs None of None \<Rightarrow> no_usage | Some r \<Rightarrow> usage_of_result table model r)"

definition is_permission_event :: "sse_event \<Rightarrow> bool" where
  "is_permission_event e \<longleftrightarrow> fst e = ''permission_request''"

text \<open>What the loop must have done on an interleaving, from the values it had so far.\<close>

definition loop_result ::
  "pricing_table \<Rightarrow> string option \<Rightarrow> agent_event list \<Rightarrow> run_end \<Rightarrow> (pystr \<times> pystr \<times> ujson) list
     \<Rightarrow> pystr \<Rightarrow> turn_usage \<Rightarrow> (sse_event list \<times> pystr \<times> turn_usage) option \<Rightarrow> bool"
where
  "loop_result table model evs e reqs final usage res \<longleftrightarrow>
     (\<exists>out. res = Some (out,
        case last_result evs None of None \<Rightarrow> final | Some r \<Rightarrow> rr_final_output r,
        case last_result evs None of None \<Rightarrow> usage | Some r \<Rightarrow> usage_of_result table model r) \<and>
      filter (\<lambda>x. \<not> is_permission_event x) out = concat (map (event_chunks table model) evs) @ error_chunks e \<and>
      prefix (filter is_permission_event out) (map (\<lambda>(c, t, a). permission_event c t a) reqs))"

lemma not_permission [simp]:
  "\<not> is_permission_event (usage_event u)" "\<not> is_permission_event (error_event k m)" "\<not> is_permission_event (done_event i t)"
  "is_permission_event (permission_event c t a)"
  by (simp_all add: is_permission_event_def usage_event_def error_event_def done_event_def permission_event_def)

lemma translate_not_permission: "x \<in> set (translate_event ev) \<Longrightarrow> \<not> is_permission_event x"
  by (cases ev) (auto simp: is_permission_event_def split: if_splits)

lemma filter_chunks [simp]:
  "filter (\<lambda>x. \<not> is_permission_event x) (event_chunks table model ev) = event_chunks table model ev"
  "filter is_permission_event (event_chunks table model ev) = []"
  using translate_not_permission
  by (auto simp: event_chunks_def filter_id_conv filter_empty_conv split: agent_event.splits)

lemma last_result_default:
  "last_result evs (Some r) = (case last_result evs None of None \<Rightarrow> Some r | Some r' \<Rightarrow> Some r')"
proof (induction evs arbitrary: r)
  case (Cons ev evs)
  then show ?case
  proof (cases ev)
    case (StreamDone r')
    then show ?thesis using Cons [of r'] by (simp split: option.splits)
  qed simp_all
qed simp

lemma loop_event:
  "stream_loop table model (ItemEvent ev # items) final usage =
     map_option (\<lambda>(evs, x). (event_chunks table model ev @ evs, x))
       (stream_loop table model items
          (case ev of StreamDone r \<Rightarrow> rr_final_output r | _ \<Rightarrow> final)
          (case ev of StreamDone r \<Rightarrow> usage_of_result table model r | _ \<Rightarrow> usage))"
  by (cases ev) (simp_all add: event_chunks_def Let_def)

lemma loop_result_event:
  assumes "loop_result table model evs e reqs
      (case ev of StreamDone r \<Rightarrow> rr_final_output r | _ \<Rightarrow> final)
      (case ev of StreamDone r \<Rightarrow> usage_of_result table model r | _ \<Rightarrow> usage) res"
  shows "loop_result table model (ev # evs) e reqs final usage
      (map_option (\<lambda>(out, x). (event_chunks table model ev @ out, x)) res)"
  using assms unfolding loop_result_def
  by (cases ev) (auto simp: last_result_default split: option.splits)

lemma loop_result_permission:
  assumes "loop_result table model evs e reqs final usage res"
  shows "loop_result table model evs e ((c, t, a) # reqs) final usage
      (map_option (\<lambda>(out, x). (permission_event c t a # out, x)) res)"
  using assms unfolding loop_result_def by auto

lemma stream_loop_shuffle:
  "items \<in> shuffles (drain_runner evs e) (drain_broker reqs) \<Longrightarrow>
   loop_result table model evs e reqs final usage (stream_loop table model items final usage)"
proof (induction items arbitrary: evs reqs final usage)
  case Nil
  then show ?case by (cases evs; cases e) (auto simp: drain_runner_def)
next
  case (Cons i items)
  from Cons.prems consider
      "drain_runner evs e \<noteq> []" "hd (drain_runner evs e) = i"
        "items \<in> shuffles (tl (drain_runner evs e)) (drain_broker reqs)"
    | c t a reqs' where "reqs = (c, t, a) # reqs'" "i = ItemPermission c t a"
        "items \<in> shuffles (drain_runner evs e) (drain_broker reqs')"
    by (cases reqs; cases "drain_runner evs e") (auto simp: Cons_in_shuffles_iff drain_broker_def)
  then show ?case
  proof cases
    case 1
    show ?thesis
    proof (cases evs)
      case Nil
      with 1(2) show ?thesis
        by (cases e) (auto simp: drain_runner_def loop_result_def)
    next
      case (Cons ev evs')
      with 1 have i: "i = ItemEvent ev" and "items \<in> shuffles (drain_runner evs' e) (drain_broker reqs)"
        by (simp_all add: drain_runner_def)
      then show ?thesis
        unfolding i Cons loop_event by (intro loop_result_event Cons.IH)
    qed
  next
    case 2
    then show ?thesis
      using loop_result_permission [OF Cons.IH [OF 2(3)]] by simp
  qed
qed

lemma plain_event_names:
  "\<forall>(n, d) \<in> set (translate_event ev). plain_name n"
  "plain_name (fst (usage_event u))" "plain_name (fst (error_event k m))"
  "plain_name (fst (done_event i t))" "plain_name (fst (permission_event c tool a))"
  by (cases ev) (auto simp: plain_name_def printable_def usage_event_def error_event_def done_event_def
      permission_event_def)

lemma stream_loop_names:
  "stream_loop table model items final usage = Some (out, x) \<Longrightarrow> \<forall>e \<in> set out. plain_name (fst e)"
proof (induction items arbitrary: final usage out x)
  case (Cons i items)
  show ?case
  proof (cases i)
    case (ItemEvent ev)
    with Cons.prems obtain out' where out: "out = event_chunks table model ev @ out'"
      and "\<exists>f u. stream_loop table model items f u = Some (out', x)"
      by (auto simp: loop_event simp del: stream_loop.simps(6))
    then have "\<forall>e \<in> set out'. plain_name (fst e)" using Cons.IH by blast
    then show ?thesis
      using plain_event_names(1) [of ev] plain_event_names(2)
      by (auto simp: out event_chunks_def split: agent_event.splits)
  next
    case (ItemPermission c t a)
    with Cons.prems obtain out' where out: "out = permission_event c t a # out'"
      and "stream_loop table model items final usage = Some (out', x)"
      by auto
    then have "\<forall>e \<in> set out'. plain_name (fst e)" using Cons.IH by blast
    then show ?thesis
      using plain_event_names(5) by (simp add: out)
  qed (use Cons.prems plain_event_names(3) in auto)
qed simp

subsection \<open>Properties\<close>

text \<open>
  C3. A turn's stream always ends and tells the client everything in order: for every
  behaviour of the runner (finishing, raising, being cancelled) and every interleaving with
  permission requests, the bytes sent parse to a sequence that, without the permission
  requests, is the translated events of the run in order, then at most one error, then one
  \<open>done\<close> with the last final text; the permission requests come in the order they were made; and
  the usage left on the handle is that of the last result.
\<close>

theorem turn_stream_complete:
  assumes "items \<in> shuffles (drain_runner evs e) (drain_broker reqs)"
  shows "\<exists>out. stream_turn table turn_id model items = Some (out, usage_of table model evs) \<and>
    filter (\<lambda>x. \<not> is_permission_event x) out =
      concat (map (event_chunks table model) evs) @ error_chunks e @ [done_event turn_id (final_text_of evs)] \<and>
    prefix (filter is_permission_event out) (map (\<lambda>(c, t, a). permission_event c t a) reqs) \<and>
    last out = done_event turn_id (final_text_of evs) \<and>
    parse_sse (encode_all out) = map (\<lambda>(n, d). (codes n, dumps (UObj d))) out"
proof -
  have "loop_result table model evs e reqs [] no_usage (stream_loop table model items [] no_usage)"
    using stream_loop_shuffle assms by blast
  then obtain out where loop: "stream_loop table model items [] no_usage
      = Some (out, final_text_of evs, usage_of table model evs)"
    and out: "filter (\<lambda>x. \<not> is_permission_event x) out = concat (map (event_chunks table model) evs) @ error_chunks e"
      "prefix (filter is_permission_event out) (map (\<lambda>(c, t, a). permission_event c t a) reqs)"
    unfolding loop_result_def final_text_of_def usage_of_def by blast
  have "\<forall>(n, d) \<in> set (out @ [done_event turn_id (final_text_of evs)]). plain_name n"
    using stream_loop_names [OF loop] plain_event_names(4) by (simp add: split_beta)
  then have "parse_sse (encode_all (out @ [done_event turn_id (final_text_of evs)]))
      = map (\<lambda>(n, d). (codes n, dumps (UObj d))) (out @ [done_event turn_id (final_text_of evs)])"
    by (rule parse_encode_all)
  with loop out show ?thesis by (simp add: stream_turn_def)
qed

theorem turn_stream_complete_witness:
  "\<exists>out. stream_turn (\<lambda>_. None) [116] None
      [ItemEvent (StreamDelta [104, 105]), ItemPermission [99] [109] UNull, ItemError [] [69], ItemEnd]
        = Some (out, no_usage) \<and>
     filter (\<lambda>x. \<not> is_permission_event x) out =
       [(''delta'', [(codes ''text'', UStr [104, 105])]), error_event ''INTERNAL'' [69], done_event [116] []]"
proof -
  have "[ItemEvent (StreamDelta [104, 105]), ItemPermission [99] [109] UNull, ItemError [] [69], ItemEnd]
      \<in> shuffles (drain_runner [StreamDelta [104, 105]] (Raised [] [69])) (drain_broker [([99], [109], UNull)])"
    by (simp add: drain_runner_def drain_broker_def Cons_in_shuffles_iff)
  from turn_stream_complete [OF this, of "\<lambda>_. None" "[116]" None] show ?thesis
    by (auto simp: usage_of_def final_text_of_def event_chunks_def)
qed

end
