(* ===== verification/Turn_Routes.thy ===== *)
theory Turn_Routes
  imports Turn_Stream Idempotency Rate_Limit Cost_Budget Agent_Repo Uuid_Text Permission_Broker
begin

text \<open>
  \<open>web/routes/turns.py\<close> with the parts of \<open>web/turn_engine.py\<close>, \<open>agent/factory.py\<close> and
  \<open>repositories/usage_repo.py\<close> that decide about a turn: idempotent replay, limits, the session
  lock, the run, metering and caching.  The agent itself is the list of queue items it produces.
\<close>

subsection \<open>Errors of the HTTP surface\<close>

datatype error_kind =
    UNAUTHORIZED | FORBIDDEN | NOT_FOUND | CONFLICT | UNPROCESSABLE | RATE_LIMIT | TOOL_DENIED
  | UNAVAILABLE | INTERNAL

fun status_of_kind :: "error_kind \<Rightarrow> nat" where
  "status_of_kind UNAUTHORIZED = 401"
| "status_of_kind FORBIDDEN = 403"
| "status_of_kind NOT_FOUND = 404"
| "status_of_kind CONFLICT = 409"
| "status_of_kind UNPROCESSABLE = 422"
| "status_of_kind RATE_LIMIT = 429"
| "status_of_kind TOOL_DENIED = 403"
| "status_of_kind UNAVAILABLE = 503"
| "status_of_kind INTERNAL = 500"

fun kind_value :: "error_kind \<Rightarrow> string" where
  "kind_value UNAUTHORIZED = ''UNAUTHORIZED''"
| "kind_value FORBIDDEN = ''FORBIDDEN''"
| "kind_value NOT_FOUND = ''NOT_FOUND''"
| "kind_value CONFLICT = ''CONFLICT''"
| "kind_value UNPROCESSABLE = ''UNPROCESSABLE''"
| "kind_value RATE_LIMIT = ''RATE_LIMIT''"
| "kind_value TOOL_DENIED = ''TOOL_DENIED''"
| "kind_value UNAVAILABLE = ''UNAVAILABLE''"
| "kind_value INTERNAL = ''INTERNAL''"

definition http_error :: "error_kind \<Rightarrow> exn" where
  "http_error k = HTTPError (status_of_kind k) (kind_value k)"

subsection \<open>Requests, responses, state\<close>

text \<open>The text of an agent id with the value \<open>UUID()\<close> gives it, none where that raises.\<close>

type_synonym agent_ref = "string \<times> uuid option"

record turn_in =
  ti_session_key :: string
  ti_text :: pystr
  ti_permission_mode :: "string option"
  ti_command :: "string option"
  ti_model :: "string option"
  ti_agent :: "agent_ref option"

record turn_request =
  tr_user :: uuid
  tr_session_key :: string
  tr_text :: pystr
  tr_permission_mode :: string
  tr_command :: "string option"
  tr_model :: "string option"
  tr_agent :: "agent_ref option"

record turn_out =
  to_turn_id :: pystr
  to_final_text :: pystr
  to_events :: "(pystr \<times> pystr) list"

record agent_limits =
  al_agent_id :: uuid
  al_rate_limit_per_min :: "int option"
  al_cost_budget_usd_micro :: "int option"

record usage_row =
  ur_user :: uuid
  ur_session :: string
  ur_model :: string
  ur_input_tokens :: int
  ur_output_tokens :: int
  ur_cached_input_tokens :: int
  ur_cost_usd_micro :: int

record web_state =
  ws_db :: agent_db
  ws_docs :: "ujson redis"
  ws_counts :: "int redis"
  ws_usage :: "usage_row list"
  ws_runs :: "turn_request list"

definition docs_of :: "bool \<Rightarrow> web_state \<Rightarrow> ujson redis option" where
  "docs_of has_redis st = (if has_redis then Some (ws_docs st) else None)"

definition counts_of :: "bool \<Rightarrow> web_state \<Rightarrow> int redis option" where
  "counts_of has_redis st = (if has_redis then Some (ws_counts st) else None)"

definition put_docs :: "ujson redis option \<Rightarrow> web_state \<Rightarrow> web_state" where
  "put_docs r st = (case r of None \<Rightarrow> st | Some d \<Rightarrow> st\<lparr>ws_docs := d\<rparr>)"

definition put_counts :: "int redis option \<Rightarrow> web_state \<Rightarrow> web_state" where
  "put_counts r st = (case r of None \<Rightarrow> st | Some d \<Rightarrow> st\<lparr>ws_counts := d\<rparr>)"

subsection \<open>Response bodies\<close>

definition event_json :: "pystr \<times> pystr \<Rightarrow> ujson" where
  "event_json e = UObj [(codes ''event'', UStr (fst e)), (codes ''data'', UStr (snd e))]"

text \<open>\<open>body_out.model_dump()\<close> and \<open>TurnOut(**cached)\<close>, whose validation rejects other shapes.\<close>

definition turn_out_json :: "turn_out \<Rightarrow> ujson" where
  "turn_out_json o1 =
     UObj [(codes ''turn_id'', UStr (to_turn_id o1)), (codes ''final_text'', UStr (to_final_text o1)),
       (codes ''events'', UArr (map event_json (to_events o1)))]"

fun event_of_json :: "ujson \<Rightarrow> (pystr \<times> pystr) option" where
  "event_of_json (UObj d) =
     (case (map_of d (codes ''event''), map_of d (codes ''data'')) of
        (Some (UStr n), Some (UStr t)) \<Rightarrow> Some (n, t)
      | _ \<Rightarrow> None)"
| "event_of_json _ = None"

fun events_of_json :: "ujson list \<Rightarrow> (pystr \<times> pystr) list option" where
  "events_of_json [] = Some []"
| "events_of_json (v # vs) =
     (case (event_of_json v, events_of_json vs) of (Some e, Some es) \<Rightarrow> Some (e # es) | _ \<Rightarrow> None)"

definition turn_out_of_json :: "ujson \<Rightarrow> turn_out result" where
  "turn_out_of_json v =
     (case v of
        UObj d \<Rightarrow>
          (case (map_of d (codes ''turn_id''), map_of d (codes ''final_text''), map_of d (codes ''events'')) of
             (Some (UStr i), Some (UStr t), Some (UArr es)) \<Rightarrow>
               (case events_of_json es of
                  Some evs \<Rightarrow> Inr \<lparr>to_turn_id = i, to_final_text = t, to_events = evs\<rparr>
                | None \<Rightarrow> Inl ValueError)
           | _ \<Rightarrow> Inl ValueError)
      | _ \<Rightarrow> Inl ValueError)"

lemma events_of_json_map [simp]: "events_of_json (map event_json es) = Some es"
  by (induction es) (simp_all add: event_json_def)

lemma turn_out_roundtrip [simp]: "turn_out_of_json (turn_out_json b) = Inr b"
  by (simp add: turn_out_of_json_def turn_out_json_def)

subsection \<open>Limits before the run\<close>

text \<open>
  \<open>_resolve_agent_limits\<close>: HTTP errors pass, every other failure counts as no limits and the
  transaction is rolled back.
\<close>

definition named_agent :: "uuid \<Rightarrow> uuid option \<Rightarrow> agent_db \<Rightarrow> (agent_row \<times> agent_db) result" where
  "named_agent u aid db =
     bind_result (agent_get (Some u) aid db) (\<lambda>r.
       (case r of
          None \<Rightarrow> Inl (http_error NOT_FOUND)
        | Some a \<Rightarrow> if archived_at a \<noteq> None then Inl (http_error NOT_FOUND) else Inr (a, db)))"

definition or_default :: "int option \<Rightarrow> int option \<Rightarrow> int option" where
  "or_default own fallback = (case own of Some n \<Rightarrow> Some n | None \<Rightarrow> fallback)"

definition limits_of :: "user_settings \<Rightarrow> agent_row \<Rightarrow> agent_limits" where
  "limits_of us a =
     \<lparr>al_agent_id = a_id a,
      al_rate_limit_per_min = or_default (rate_limit_per_min a) (us_rate_limit_per_min us),
      al_cost_budget_usd_micro = or_default (cost_budget_usd_micro a) (us_cost_budget_usd_micro us)\<rparr>"

definition is_http_error :: "exn \<Rightarrow> bool" where
  "is_http_error e = (case e of HTTPError s k \<Rightarrow> True | _ \<Rightarrow> False)"

definition resolve_agent_limits ::
  "uuid \<Rightarrow> agent_ref option \<Rightarrow> uuid \<Rightarrow> int \<Rightarrow> agent_db \<Rightarrow> (agent_limits option \<times> agent_db) result"
where
  "resolve_agent_limits u requested fresh now db =
     (case bind_result (settings_get (Some u) db) (\<lambda>us.
         bind_result
           (case requested of
              Some (txt, aid) \<Rightarrow> named_agent u aid db
            | None \<Rightarrow> agent_ensure_default (Some u) fresh now db)
           (\<lambda>(a, db'). Inr (limits_of us a, db'))) of
        Inr (l, db') \<Rightarrow> Inr (Some l, db')
      | Inl e \<Rightarrow> if is_http_error e then Inl e else Inr (None, db))"

definition enforce_preflight_limits ::
  "bool \<Rightarrow> uuid \<Rightarrow> agent_ref option \<Rightarrow> uuid \<Rightarrow> int \<Rightarrow> web_state \<Rightarrow> agent_limits option result \<times> web_state"
where
  "enforce_preflight_limits has_redis u requested fresh now st =
     (if \<not> has_redis then (Inr None, st)
      else
        (case resolve_agent_limits u requested fresh now (ws_db st) of
           Inl e \<Rightarrow> (Inl e, st)
         | Inr (None, db') \<Rightarrow> (Inr None, st\<lparr>ws_db := db'\<rparr>)
         | Inr (Some l, db') \<Rightarrow>
             (let agent = Some (uuid_str (al_agent_id l));
                  st1 = st\<lparr>ws_db := db'\<rparr>;
                  (allowed, r) = check_and_consume now (uuid_str u) agent (al_rate_limit_per_min l)
                    (counts_of has_redis st1);
                  st2 = put_counts r st1
              in if \<not> allowed then (Inl (http_error RATE_LIMIT), st2)
                 else if \<not> check_budget now (uuid_str u) agent (al_cost_budget_usd_micro l)
                   (counts_of has_redis st2) then (Inl (http_error FORBIDDEN), st2)
                 else (Inr (Some l), st2))))"

definition turn_request_of :: "uuid \<Rightarrow> turn_in \<Rightarrow> agent_limits option \<Rightarrow> turn_request" where
  "turn_request_of u body l =
     \<lparr>tr_user = u, tr_session_key = ti_session_key body, tr_text = ti_text body,
      tr_permission_mode = (case ti_permission_mode body of None \<Rightarrow> ''auto'' | Some [] \<Rightarrow> ''auto'' | Some m \<Rightarrow> m),
      tr_command = ti_command body, tr_model = ti_model body,
      tr_agent = (case l of Some x \<Rightarrow> Some (uuid_str (al_agent_id x), Some (al_agent_id x)) | None \<Rightarrow> ti_agent body)\<rparr>"

subsection \<open>Metering after the run\<close>

text \<open>\<open>_record_usage\<close> over \<open>UsageRepo.record_turn\<close>, which prices the turn again.\<close>

definition record_usage ::
  "pricing_table \<Rightarrow> uuid \<Rightarrow> string \<Rightarrow> turn_usage \<Rightarrow> web_state \<Rightarrow> web_state"
where
  "record_usage table u session_key usage st =
     (case tu_model usage of
        None \<Rightarrow> st
      | Some [] \<Rightarrow> st
      | Some m \<Rightarrow>
          (if tu_input_tokens usage = 0 \<and> tu_output_tokens usage = 0 then st
           else st\<lparr>ws_usage := ws_usage st @
             [\<lparr>ur_user = u, ur_session = session_key, ur_model = m,
               ur_input_tokens = tu_input_tokens usage, ur_output_tokens = tu_output_tokens usage,
               ur_cached_input_tokens = tu_cached_input_tokens usage,
               ur_cost_usd_micro = compute_cost_usd_micro table m (tu_input_tokens usage)
                 (tu_output_tokens usage) (tu_cached_input_tokens usage)\<rparr>]\<rparr>))"

definition record_cost_metered ::
  "bool \<Rightarrow> int \<Rightarrow> uuid \<Rightarrow> agent_limits option \<Rightarrow> turn_usage \<Rightarrow> web_state \<Rightarrow> web_state"
where
  "record_cost_metered has_redis now u l usage st =
     (case l of
        None \<Rightarrow> st
      | Some x \<Rightarrow>
          (if \<not> has_redis \<or> tu_cost_usd_micro usage \<le> 0 then st
           else put_counts (snd (record_cost now (uuid_str u) (Some (uuid_str (al_agent_id x)))
             (tu_cost_usd_micro usage) (al_cost_budget_usd_micro x) (counts_of has_redis st))) st))"

subsection \<open>\<open>POST /v1/turns\<close>\<close>

text \<open>Up to the lock: the cached answer, or the request to run with its limits.\<close>

definition begin_turn ::
  "bool \<Rightarrow> uuid \<Rightarrow> turn_in \<Rightarrow> string \<Rightarrow> uuid \<Rightarrow> int \<Rightarrow> web_state
     \<Rightarrow> (turn_out + turn_request \<times> agent_limits option) result \<times> web_state"
where
  "begin_turn has_redis u body idem fresh now st =
     (case get_cached_json now (uuid_str u) idem (docs_of has_redis st) of
        Some cached \<Rightarrow> (bind_result (turn_out_of_json cached) (\<lambda>b. Inr (Inl b)), st)
      | None \<Rightarrow>
          (case enforce_preflight_limits has_redis u (ti_agent body) fresh now st of
             (Inl e, st1) \<Rightarrow> (Inl e, st1)
           | (Inr l, st1) \<Rightarrow> (Inr (Inr (turn_request_of u body l, l)), st1)))"

text \<open>Under the lock: the agent runs.  \<^const>\<open>None\<close> where it never ends.\<close>

definition run_turn ::
  "pricing_table \<Rightarrow> pystr \<Rightarrow> turn_request \<Rightarrow> item list \<Rightarrow> web_state
     \<Rightarrow> ((sse_event list \<times> turn_usage) \<times> web_state) option"
where
  "run_turn table turn_id req items st =
     map_option (\<lambda>r. (r, st\<lparr>ws_runs := ws_runs st @ [req]\<rparr>))
       (stream_turn table turn_id (tr_model req) items)"

text \<open>The final text is read from the \<open>done\<close> events.\<close>

definition final_text_in :: "sse_event list \<Rightarrow> pystr" where
  "final_text_in out =
     fold (\<lambda>(n, d) t. if n = ''done''
         then (case map_of d (codes ''final_text'') of Some (UStr s) \<Rightarrow> s | _ \<Rightarrow> [])
         else t) out []"

definition finish_turn ::
  "pricing_table \<Rightarrow> bool \<Rightarrow> uuid \<Rightarrow> turn_in \<Rightarrow> string \<Rightarrow> agent_limits option \<Rightarrow> int \<Rightarrow> pystr
     \<Rightarrow> sse_event list \<Rightarrow> turn_usage \<Rightarrow> web_state \<Rightarrow> turn_out \<times> web_state"
where
  "finish_turn table has_redis u body idem l now turn_id out usage st =
     (let st1 = record_usage table u (ti_session_key body) usage st;
          st2 = record_cost_metered has_redis now u l usage st1;
          b = \<lparr>to_turn_id = turn_id, to_final_text = final_text_in out,
               to_events = parse_sse (encode_all out)\<rparr>
      in (b, put_docs (store_cached_json now (uuid_str u) idem (turn_out_json b) (docs_of has_redis st2)) st2))"

definition post_turn ::
  "pricing_table \<Rightarrow> bool \<Rightarrow> uuid \<Rightarrow> turn_in \<Rightarrow> string \<Rightarrow> uuid \<Rightarrow> int \<Rightarrow> bool \<Rightarrow> pystr \<Rightarrow> item list \<Rightarrow> int
     \<Rightarrow> web_state \<Rightarrow> (turn_out result \<times> web_state) option"
where
  "post_turn table has_redis u body idem fresh now locked turn_id items later st =
     (case begin_turn has_redis u body idem fresh now st of
        (Inl e, st1) \<Rightarrow> Some (Inl e, st1)
      | (Inr (Inl cached), st1) \<Rightarrow> Some (Inr cached, st1)
      | (Inr (Inr (req, l)), st1) \<Rightarrow>
          (if \<not> locked then Some (Inl (http_error UNAVAILABLE), st1)
           else
             map_option (\<lambda>((out, usage), st2).
                 let (b, st3) = finish_turn table has_redis u body idem l later turn_id out usage st2
                 in (Inr b, st3))
               (run_turn table turn_id req items st1)))"

subsection \<open>\<open>POST /v1/turns:stream\<close>\<close>

definition lock_timeout_events :: "pystr \<Rightarrow> pystr \<Rightarrow> sse_event list" where
  "lock_timeout_events turn_id message =
     [error_event ''UNAVAILABLE'' message, done_event turn_id []]"

definition finish_stream ::
  "pricing_table \<Rightarrow> bool \<Rightarrow> uuid \<Rightarrow> turn_in \<Rightarrow> string \<Rightarrow> agent_limits option \<Rightarrow> int
     \<Rightarrow> sse_event list \<Rightarrow> turn_usage \<Rightarrow> web_state \<Rightarrow> bytes \<times> web_state"
where
  "finish_stream table has_redis u body idem l now out usage st =
     (let raw = encode_all out;
          st1 = put_docs (store_cached_stream now (uuid_str u) idem raw (docs_of has_redis st)) st;
          st2 = record_usage table u (ti_session_key body) usage st1
      in (raw, record_cost_metered has_redis now u l usage st2))"

definition post_turn_stream ::
  "pricing_table \<Rightarrow> bool \<Rightarrow> uuid \<Rightarrow> turn_in \<Rightarrow> string \<Rightarrow> uuid \<Rightarrow> int \<Rightarrow> bool \<Rightarrow> pystr \<Rightarrow> pystr \<Rightarrow> item list
     \<Rightarrow> int \<Rightarrow> web_state \<Rightarrow> (bytes result \<times> web_state) option"
where
  "post_turn_stream table has_redis u body idem fresh now locked lock_message turn_id items later st =
     (case get_cached_stream now (uuid_str u) idem (docs_of has_redis st) of
        Some cached \<Rightarrow> Some (Inr cached, st)
      | None \<Rightarrow>
          (case enforce_preflight_limits has_redis u (ti_agent body) fresh now st of
             (Inl e, st1) \<Rightarrow> Some (Inl e, st1)
           | (Inr l, st1) \<Rightarrow>
               (if \<not> locked then
                  (let (raw, st2) = finish_stream table has_redis u body idem l later
                     (lock_timeout_events turn_id lock_message) no_usage st1
                   in Some (Inr raw, st2))
                else
                  map_option (\<lambda>((out, usage), st2).
                      let (raw, st3) = finish_stream table has_redis u body idem l later out usage st2
                      in (Inr raw, st3))
                    (run_turn table turn_id (turn_request_of u body l) items st1))))"

subsection \<open>The tools of a turn\<close>

text \<open>\<open>turn_engine.py\<close>: the policy registered for the session, else the agent's or user's mode.\<close>

definition engine_policy :: "(string \<Rightarrow> string option) \<Rightarrow> string \<Rightarrow> string \<Rightarrow> turn_request \<Rightarrow> string option" where
  "engine_policy registry agent_mode user_mode req =
     (case registry (tr_session_key req) of
        Some mode \<Rightarrow> Some mode
      | None \<Rightarrow>
          (let effective_mode = (if agent_mode \<noteq> [] then agent_mode else user_mode)
           in if effective_mode = ''ro'' then Some ''ro'' else None))"

definition base_tools :: "string list" where
  "base_tools = [''memory'', ''memory_search'', ''session_search'', ''skill_manage'', ''skill_view'', ''cron_manage'']"

definition github_tools :: "string list" where
  "github_tools = [''gh_issue_list'', ''gh_issue_create'', ''gh_pr_view'', ''gh_pr_comment'', ''gh_search_code'',
     ''gh_diff_view'']"

definition agent_tools :: "bool \<Rightarrow> bool \<Rightarrow> string option \<Rightarrow> string list" where
  "agent_tools web_search has_github policy =
     (let tools = base_tools @ (if web_search then [''web_search''] else []) @ (if has_github then github_tools else [])
      in case policy of None \<Rightarrow> tools | Some mode \<Rightarrow> filter_tools mode (\<lambda>t. t) tools)"

subsection \<open>Lemmas\<close>

lemma colon_free_uuid_str [simp]: "colon_free (uuid_str n)"
proof -
  have "CHR '':'' \<noteq> hex_lower (k mod 16)" for k
  proof
    assume "CHR '':'' = hex_lower (k mod 16)"
    then have "(of_char (hex_lower (k mod 16)) :: nat) = of_char CHR '':''" by simp
    moreover have "(of_char (hex_lower (k mod 16)) :: nat) = (if k mod 16 < 10 then 48 + k mod 16 else 87 + k mod 16)"
      by (rule of_char_hex_lower) simp
    ultimately show False by (auto split: if_splits)
  qed
  then have "CHR '':'' \<notin> set (hex32 n)" by (auto simp: hex32_def)
  then show ?thesis
    unfolding colon_free_def uuid_str_def Let_def by (auto dest: in_set_takeD in_set_dropD)
qed

lemma put_docs_simps [simp]:
  "ws_db (put_docs r st) = ws_db st" "ws_counts (put_docs r st) = ws_counts st"
  "ws_usage (put_docs r st) = ws_usage st" "ws_runs (put_docs r st) = ws_runs st"
  by (simp_all add: put_docs_def split: option.splits)

lemma put_counts_simps [simp]:
  "ws_db (put_counts r st) = ws_db st" "ws_docs (put_counts r st) = ws_docs st"
  "ws_usage (put_counts r st) = ws_usage st" "ws_runs (put_counts r st) = ws_runs st"
  by (simp_all add: put_counts_def split: option.splits)

lemma record_usage_simps [simp]:
  "ws_db (record_usage table u sk usage st) = ws_db st" "ws_docs (record_usage table u sk usage st) = ws_docs st"
  "ws_counts (record_usage table u sk usage st) = ws_counts st" "ws_runs (record_usage table u sk usage st) = ws_runs st"
  by (simp_all add: record_usage_def split: option.splits list.splits)

lemma record_cost_metered_simps [simp]:
  "ws_db (record_cost_metered h now u l usage st) = ws_db st"
  "ws_docs (record_cost_metered h now u l usage st) = ws_docs st"
  "ws_usage (record_cost_metered h now u l usage st) = ws_usage st"
  "ws_runs (record_cost_metered h now u l usage st) = ws_runs st"
  by (simp_all add: record_cost_metered_def split: option.splits)

lemma preflight_simps:
  assumes "enforce_preflight_limits h u ref fresh now st = (r, st1)"
  shows "ws_docs st1 = ws_docs st" "ws_usage st1 = ws_usage st" "ws_runs st1 = ws_runs st"
  using assms unfolding enforce_preflight_limits_def
  by (auto simp: Let_def split: if_splits sum.splits option.splits prod.splits)

lemma finish_turn_docs:
  assumes "finish_turn table True u body k l now tid out usage st = (b, st')"
  shows "ws_docs st' = the (store_cached_json now (uuid_str u) k (turn_out_json b) (Some (ws_docs st)))"
    and "ws_runs st' = ws_runs st"
  using assms
  by (auto simp: finish_turn_def Let_def docs_of_def put_docs_def store_cached_json_def split: option.splits)

lemma run_turn_simps:
  assumes "run_turn table tid req items st = Some (r, st')"
  shows "ws_runs st' = ws_runs st @ [req]" "ws_docs st' = ws_docs st" "ws_counts st' = ws_counts st"
    "ws_usage st' = ws_usage st" "ws_db st' = ws_db st"
    "stream_turn table tid (tr_model req) items = Some r"
  using assms by (auto simp: run_turn_def)

text \<open>What a turn that was not answered from the cache must have done.\<close>

lemma post_turn_ran:
  assumes "post_turn table h u body k fresh now locked tid items later st = Some (Inr b, st')"
    and "get_cached_json now (uuid_str u) k (docs_of h st) = None"
  obtains l st1 out usage st2 where
    "enforce_preflight_limits h u (ti_agent body) fresh now st = (Inr l, st1)" "locked"
    "run_turn table tid (turn_request_of u body l) items st1 = Some ((out, usage), st2)"
    "finish_turn table h u body k l later tid out usage st2 = (b, st')"
proof -
  obtain r st1 where e: "enforce_preflight_limits h u (ti_agent body) fresh now st = (r, st1)" by fastforce
  have start: "begin_turn h u body k fresh now st =
      (case r of Inl x \<Rightarrow> Inl x | Inr l \<Rightarrow> Inr (Inr (turn_request_of u body l, l)), st1)"
    using assms(2) e by (simp add: begin_turn_def split: sum.splits)
  obtain l where r: "r = Inr l"
    using assms(1) start by (cases r) (simp_all add: post_turn_def)
  have locked using assms(1) start r by (simp add: post_turn_def split: if_splits)
  obtain out usage st2 where run: "run_turn table tid (turn_request_of u body l) items st1 = Some ((out, usage), st2)"
    using assms(1) start r \<open>locked\<close>
    by (cases "run_turn table tid (turn_request_of u body l) items st1") (auto simp: post_turn_def)
  have "finish_turn table h u body k l later tid out usage st2 = (b, st')"
    using assms(1) start r \<open>locked\<close> run by (simp add: post_turn_def split: prod.splits)
  with that e r \<open>locked\<close> run show thesis by blast
qed

lemma stream_unpriced:
  "stream_loop table model items final usage = Some (out, f, usage') \<Longrightarrow> model_name model = [] \<Longrightarrow>
   table [] = None \<Longrightarrow> tu_model usage = None \<and> tu_cost_usd_micro usage = 0 \<Longrightarrow>
   tu_model usage' = None \<and> tu_cost_usd_micro usage' = 0"
proof (induction items arbitrary: final usage out)
  case (Cons i items)
  show ?case
  proof (cases i)
    case (ItemEvent ev)
    with Cons.prems obtain out' where
      "stream_loop table model items (case ev of StreamDone r \<Rightarrow> rr_final_output r | _ \<Rightarrow> final)
         (case ev of StreamDone r \<Rightarrow> usage_of_result table model r | _ \<Rightarrow> usage) = Some (out', f, usage')"
      by (auto simp: loop_event simp del: stream_loop.simps(6))
    moreover have "tu_model u = None \<and> tu_cost_usd_micro u = 0"
      if "u = (case ev of StreamDone r \<Rightarrow> usage_of_result table model r | _ \<Rightarrow> usage)" for u
      using that Cons.prems
      by (cases ev) (auto simp: usage_of_result_def Let_def compute_cost_usd_micro_def)
    ultimately show ?thesis using Cons.IH Cons.prems(2,3) by blast
  qed (use Cons in auto)
qed simp

lemma turn_unpriced:
  assumes "stream_turn table tid model items = Some (out, usage)" and "model_name model = []" and "table [] = None"
  shows "tu_model usage = None \<and> tu_cost_usd_micro usage = 0"
  using assms stream_unpriced [of table model items "[]" no_usage]
  by (auto simp: stream_turn_def no_usage_def)

lemma check_and_consume_Some:
  "\<exists>ok c'. check_and_consume now x y z (Some c) = (ok, Some c')"
  by (cases "rate_cap z \<le> 0") (auto simp: check_and_consume_def Let_def split: prod.splits)

lemma check_and_consume_spent:
  assumes "check_and_consume now x y z (Some c) = (ok, Some c')"
  shows "get_spent_micro t v a (Some c') = get_spent_micro t v a (Some c)"
proof -
  have "counter_key v (ymd t) a \<noteq> rate_key x y now"
    by (simp add: counter_key_slot rate_key_slot)
  moreover have "c' = c \<or> c' = snd (r_count now (rate_key x y now) 1 120000 c)"
    using assms by (auto simp: check_and_consume_def Let_def WINDOW_SECONDS_def split: if_splits prod.splits)
  ultimately show ?thesis by (auto simp: get_spent_micro_def r_get_count)
qed

lemma preflight_counts:
  assumes "enforce_preflight_limits h u ref fresh now st = (r, st1)"
  shows "ws_counts st1 = ws_counts st \<or>
    (\<exists>x y z ok. check_and_consume now x y z (Some (ws_counts st)) = (ok, Some (ws_counts st1)))"
proof -
  consider "\<not> h" | e where "h" "resolve_agent_limits u ref fresh now (ws_db st) = Inl e"
    | db' where "h" "resolve_agent_limits u ref fresh now (ws_db st) = Inr (None, db')"
    | l db' where "h" "resolve_agent_limits u ref fresh now (ws_db st) = Inr (Some l, db')"
    by (cases h; cases "resolve_agent_limits u ref fresh now (ws_db st)") (force intro: option.exhaust)+
  then show ?thesis
  proof cases
    case 4
    let ?x = "uuid_str u" and ?y = "Some (uuid_str (al_agent_id l))" and ?z = "al_rate_limit_per_min l"
    obtain ok c' where c: "check_and_consume now ?x ?y ?z (Some (ws_counts st)) = (ok, Some c')"
      using check_and_consume_Some by blast
    then have "ws_counts st1 = c'"
      using assms 4
      by (auto simp: enforce_preflight_limits_def counts_of_def put_counts_def Let_def split: if_splits)
    with c show ?thesis by blast
  qed (use assms in \<open>auto simp: enforce_preflight_limits_def\<close>)
qed

lemma preflight_spent:
  assumes "enforce_preflight_limits h u ref fresh now st = (r, st1)"
  shows "get_spent_micro t v a (Some (ws_counts st1)) = get_spent_micro t v a (Some (ws_counts st))"
  using preflight_counts [OF assms] check_and_consume_spent by auto

definition quiet_limits :: "uuid \<Rightarrow> turn_in \<Rightarrow> web_state \<Rightarrow> agent_limits \<Rightarrow> bool" where
  "quiet_limits u body st l \<longleftrightarrow>
     (\<forall>fresh now. resolve_agent_limits u (ti_agent body) fresh now (ws_db st) = Inr (Some l, ws_db st)) \<and>
     al_rate_limit_per_min l = Some 0 \<and> al_cost_budget_usd_micro l = None"

lemma quiet_preflight:
  "quiet_limits u body st l \<Longrightarrow> ws_db st' = ws_db st \<Longrightarrow>
   enforce_preflight_limits True u (ti_agent body) fresh now st' = (Inr (Some l), st')"
  by (simp add: quiet_limits_def enforce_preflight_limits_def check_and_consume_def check_budget_def
      counts_of_def put_counts_def rate_cap_def)

text \<open>The turns of the agent that Redis holds for the current minute.\<close>

definition turns_counted :: "int \<Rightarrow> uuid \<Rightarrow> agent_limits \<Rightarrow> int redis \<Rightarrow> int" where
  "turns_counted now u x counts =
     (case r_get now (rate_key (uuid_str u) (Some (uuid_str (al_agent_id x))) now) counts of None \<Rightarrow> 0 | Some n \<Rightarrow> n)"

lemma check_and_consume_passed:
  "fst (check_and_consume now (uuid_str u) (Some (uuid_str (al_agent_id x))) (al_rate_limit_per_min x) (Some c)) \<longleftrightarrow>
     rate_cap (al_rate_limit_per_min x) \<le> 0 \<or> turns_counted now u x c < rate_cap (al_rate_limit_per_min x)"
  using r_count_value [of now "rate_key (uuid_str u) (Some (uuid_str (al_agent_id x))) now" 1 120000 c]
  by (auto simp: check_and_consume_def turns_counted_def Let_def WINDOW_SECONDS_def split: prod.splits option.splits)

text \<open>What has been checked when the limits let a turn pass.\<close>

lemma preflight_passed:
  assumes "enforce_preflight_limits h u ref fresh now st = (Inr l, st1)"
  shows "case l of
      None \<Rightarrow> \<not> h \<or> resolve_agent_limits u ref fresh now (ws_db st) = Inr (None, ws_db st)
    | Some x \<Rightarrow> h \<and> (\<exists>db'. resolve_agent_limits u ref fresh now (ws_db st) = Inr (Some x, db')) \<and>
        (rate_cap (al_rate_limit_per_min x) \<le> 0 \<or>
          turns_counted now u x (ws_counts st) < rate_cap (al_rate_limit_per_min x)) \<and>
        (case al_cost_budget_usd_micro x of None \<Rightarrow> True
         | Some b \<Rightarrow> b \<le> 0 \<or>
             get_spent_micro now (uuid_str u) (Some (uuid_str (al_agent_id x))) (Some (ws_counts st)) < b)"
proof -
  have none: "db' = ws_db st" if "resolve_agent_limits u ref fresh now (ws_db st) = Inr (None, db')" for db'
    using that by (auto simp: resolve_agent_limits_def split: sum.splits if_splits)
  consider "\<not> h" "l = None"
    | db' where "h" "l = None" "resolve_agent_limits u ref fresh now (ws_db st) = Inr (None, db')"
    | x db' where "h" "resolve_agent_limits u ref fresh now (ws_db st) = Inr (Some x, db')"
    using assms by (auto simp: enforce_preflight_limits_def split: if_splits sum.splits option.splits)
  then show ?thesis
  proof cases
    case 3
    let ?u = "uuid_str u" and ?a = "Some (uuid_str (al_agent_id x))"
    obtain ok c' where c: "check_and_consume now ?u ?a (al_rate_limit_per_min x) (Some (ws_counts st)) = (ok, Some c')"
      using check_and_consume_Some by blast
    have "l = Some x" and ok: "ok" "check_budget now ?u ?a (al_cost_budget_usd_micro x) (Some c')"
      using assms 3 c by (auto simp: enforce_preflight_limits_def counts_of_def put_counts_def Let_def split: if_splits)
    moreover have "rate_cap (al_rate_limit_per_min x) \<le> 0 \<or>
        turns_counted now u x (ws_counts st) < rate_cap (al_rate_limit_per_min x)"
      using check_and_consume_passed [of now u x "ws_counts st"] c ok(1) by simp
    moreover note check_and_consume_spent [OF c, of now ?u ?a]
    ultimately show ?thesis
      using 3 ok(2) by (auto simp: check_budget_def split: option.splits)
  qed (use none in auto)
qed

text \<open>A turn that reached the agent came through the cache, the limits and the lock.\<close>

lemma post_turn_reaches:
  assumes "post_turn table h u body k fresh now locked tid items later st = Some (r, st1)"
    and "ws_runs st1 \<noteq> ws_runs st" and "enforce_preflight_limits h u (ti_agent body) fresh now st = (r0, sta)"
  shows "locked \<and> get_cached_json now (uuid_str u) k (docs_of h st) = None \<and>
    (\<exists>l. r0 = Inr l \<and> ws_runs st1 = ws_runs sta @ [turn_request_of u body l])"
  using assms preflight_simps(3) [OF assms(3)] unfolding post_turn_def begin_turn_def
  by (auto simp: bind_result_def run_turn_def finish_turn_def Let_def split: option.splits sum.splits if_splits prod.splits)

lemma post_turn_stream_reaches:
  assumes "post_turn_stream table h u body k fresh now locked msg tid items later st = Some (r, st1)"
    and "ws_runs st1 \<noteq> ws_runs st" and "enforce_preflight_limits h u (ti_agent body) fresh now st = (r0, sta)"
  shows "locked \<and> get_cached_stream now (uuid_str u) k (docs_of h st) = None \<and>
    (\<exists>l. r0 = Inr l \<and> ws_runs st1 = ws_runs sta @ [turn_request_of u body l])"
  using assms preflight_simps(3) [OF assms(3)] unfolding post_turn_stream_def
  by (auto simp: run_turn_def finish_stream_def Let_def split: option.splits sum.splits if_splits prod.splits)

subsection \<open>An example state\<close>

definition example_agent :: agent_row where
  "example_agent = \<lparr>a_id = 1, a_user = 7, a_slug = ''default'', a_name = ''default'', persona = [],
     default_model = Some ''gpt-5.4'', permission_mode = ''auto'', enabled_tools = [],
     rate_limit_per_min = Some 0, cost_budget_usd_micro = None, is_default = True,
     archived_at = None, a_updated_at = 0\<rparr>"

definition example_web :: web_state where
  "example_web = \<lparr>ws_db = \<lparr>db_agents = [example_agent], db_users = db_users example_db\<rparr>,
     ws_docs = (\<lambda>_. None), ws_counts = (\<lambda>_. None), ws_usage = [], ws_runs = []\<rparr>"

definition example_body :: turn_in where
  "example_body = \<lparr>ti_session_key = ''s'', ti_text = [104], ti_permission_mode = None, ti_command = None,
     ti_model = None, ti_agent = None\<rparr>"

definition example_items :: "item list" where
  "example_items = [ItemEvent (StreamDone \<lparr>rr_final_output = [104], rr_input_tokens = Some 1000000,
     rr_output_tokens = Some 1000000, rr_cached_input_tokens = None\<rparr>), ItemEnd]"

lemma example_quiet:
  "quiet_limits 7 example_body example_web \<lparr>al_agent_id = 1, al_rate_limit_per_min = Some 0,
     al_cost_budget_usd_micro = None\<rparr>"
  by (simp add: quiet_limits_def resolve_agent_limits_def example_body_def example_web_def example_agent_def
      example_db_def settings_get_def current_user_id_def agent_ensure_default_def agent_get_default_def
      limits_of_def or_default_def)

lemma example_miss: "get_cached_json t u k (Some (ws_docs example_web)) = None"
  "get_cached_stream t u k (Some (ws_docs example_web)) = None"
  by (simp_all add: example_web_def get_cached_json_def get_cached_stream_def r_get_def live_def)

lemma example_stream: "\<exists>out usage. stream_turn table tid (ti_model example_body) example_items = Some (out, usage)"
  by (simp add: stream_turn_def example_items_def Let_def)

lemma post_turn_quiet:
  assumes "quiet_limits u body st l" and "get_cached_json now (uuid_str u) k (Some (ws_docs st)) = None"
    and "stream_turn table tid (ti_model body) items = Some (out, usage)"
  shows "\<exists>b st1. post_turn table True u body k fresh now True tid items later st = Some (Inr b, st1) \<and>
    ws_runs st1 = ws_runs st @ [turn_request_of u body (Some l)]"
proof -
  let ?req = "turn_request_of u body (Some l)"
  have start: "begin_turn True u body k fresh now st = (Inr (Inr (?req, Some l)), st)"
    using assms(2) quiet_preflight [OF assms(1) refl] by (simp add: begin_turn_def docs_of_def)
  have run: "run_turn table tid ?req items st = Some ((out, usage), st\<lparr>ws_runs := ws_runs st @ [?req]\<rparr>)"
    using assms(3) by (simp add: run_turn_def turn_request_of_def)
  obtain b st1 where fin: "finish_turn table True u body k (Some l) later tid out usage
      (st\<lparr>ws_runs := ws_runs st @ [?req]\<rparr>) = (b, st1)" by fastforce
  from start run fin have "post_turn table True u body k fresh now True tid items later st = Some (Inr b, st1)"
    by (simp add: post_turn_def)
  with finish_turn_docs(2) [OF fin] show ?thesis by auto
qed

lemma example_run:
  "\<exists>b st1. post_turn table True 7 example_body k fresh now True tid example_items later example_web = Some (Inr b, st1) \<and>
     ws_runs st1 \<noteq> ws_runs example_web"
  using post_turn_quiet [OF example_quiet example_miss(1), of table tid example_items] example_stream [of table tid]
  by fastforce

subsection \<open>Properties\<close>

text \<open>
  C8. A retried turn is replayed: once a turn with an idempotency key has answered, every
  request of the same user with that key in the next 24 hours gets the same answer, whatever
  its body and whether or not the session is locked, without running the agent, consuming
  limits or recording usage.
\<close>

theorem turn_replayed:
  assumes "post_turn table True u body k fresh now locked tid items later st = Some (Inr b, st1)"
    and "get_cached_json now (uuid_str u) k (Some (ws_docs st)) = None"
    and "k \<noteq> []" and "later \<le> t" and "t < later + 86400000" and "ws_docs st2 = ws_docs st1"
  shows "post_turn table True u body' k fresh' t locked' tid' items' later' st2 = Some (Inr b, st2)"
proof -
  have "get_cached_json now (uuid_str u) k (docs_of True st) = None"
    using assms(2) by (simp add: docs_of_def)
  from post_turn_ran [OF assms(1) this] obtain l out usage sta stb where
    "finish_turn table True u body k l later tid out usage stb = (b, st1)" by metis
  then have "ws_docs st1 = the (store_cached_json later (uuid_str u) k (turn_out_json b) (Some (ws_docs stb)))"
    by (rule finish_turn_docs(1))
  then have "get_cached_json t (uuid_str u) k (docs_of True st2) = Some (turn_out_json b)"
    using assms(3-6) by (simp add: docs_of_def idem_defs)
  then show ?thesis
    by (simp add: post_turn_def begin_turn_def)
qed

theorem turn_replayed_witness:
  "\<exists>b st1. post_turn (\<lambda>_. None) True 7 example_body ''k'' 0 0 True [116] example_items 5 example_web = Some (Inr b, st1) \<and>
     post_turn (\<lambda>_. None) True 7 example_body ''k'' 0 6 False [117] [] 9 st1 = Some (Inr b, st1)"
  using example_run [of "\<lambda>_. None" "''k''" 0 0 "[116]" 5]
    turn_replayed [of "\<lambda>_. None" 7 example_body "''k''" 0 0 True "[116]" example_items 5 example_web _ _ 6,
      OF _ example_miss(1)]
  by fastforce

text \<open>
  An idempotency key does not stop concurrent duplicates: when a retry arrives while the
  first request is still running, it has already missed the cache before it waits for the
  session lock and is not looked up again under it, so the agent runs twice for one key.
\<close>

theorem concurrent_duplicate_runs_twice:
  assumes "quiet_limits u body st l" and "get_cached_json now (uuid_str u) k (Some (ws_docs st)) = None"
    and "get_cached_json now' (uuid_str u) k (Some (ws_docs st)) = None"
    and "stream_turn table tid1 (ti_model body) items1 = Some (out1, usage1)"
    and "stream_turn table tid2 (ti_model body) items2 = Some (out2, usage2)"
  shows "\<exists>req b1 b2 s1 s2 s3 s4.
    begin_turn True u body k f1 now st = (Inr (Inr (req, Some l)), st) \<and>
    begin_turn True u body k f2 now' st = (Inr (Inr (req, Some l)), st) \<and>
    run_turn table tid1 req items1 st = Some ((out1, usage1), s1) \<and>
    finish_turn table True u body k (Some l) later1 tid1 out1 usage1 s1 = (b1, s2) \<and>
    run_turn table tid2 req items2 s2 = Some ((out2, usage2), s3) \<and>
    finish_turn table True u body k (Some l) later2 tid2 out2 usage2 s3 = (b2, s4) \<and>
    ws_runs s4 = ws_runs st @ [req, req]"
proof -
  let ?req = "turn_request_of u body (Some l)"
  have b1: "begin_turn True u body k f1 now st = (Inr (Inr (?req, Some l)), st)"
    and b2: "begin_turn True u body k f2 now' st = (Inr (Inr (?req, Some l)), st)"
    using assms(2,3) quiet_preflight [OF assms(1) refl] by (simp_all add: begin_turn_def docs_of_def)
  have model: "tr_model ?req = ti_model body" by (simp add: turn_request_of_def)
  define s1 where "s1 = st\<lparr>ws_runs := ws_runs st @ [?req]\<rparr>"
  have r1: "run_turn table tid1 ?req items1 st = Some ((out1, usage1), s1)"
    using assms(4) by (simp add: run_turn_def model s1_def)
  obtain a1 s2 where f1: "finish_turn table True u body k (Some l) later1 tid1 out1 usage1 s1 = (a1, s2)"
    by fastforce
  define s3 where "s3 = s2\<lparr>ws_runs := ws_runs s2 @ [?req]\<rparr>"
  have r2: "run_turn table tid2 ?req items2 s2 = Some ((out2, usage2), s3)"
    using assms(5) by (simp add: run_turn_def model s3_def)
  obtain a2 s4 where f2: "finish_turn table True u body k (Some l) later2 tid2 out2 usage2 s3 = (a2, s4)"
    by fastforce
  have "ws_runs s4 = ws_runs st @ [?req, ?req]"
    using finish_turn_docs(2) [OF f1] finish_turn_docs(2) [OF f2] by (simp add: s1_def s3_def)
  with b1 b2 r1 f1 r2 f2 show ?thesis by blast
qed

theorem concurrent_duplicate_runs_twice_witness:
  "\<exists>req b s1 s2 s3 s4.
     run_turn (\<lambda>_. None) [116] req example_items example_web = Some ((fst (the (stream_turn (\<lambda>_. None) [116] None example_items)),
       snd (the (stream_turn (\<lambda>_. None) [116] None example_items))), s1) \<and>
     begin_turn True 7 example_body ''k'' 0 3 example_web = (Inr (Inr (req, b)), example_web) \<and>
     run_turn (\<lambda>_. None) [117] req example_items s2 = Some (s3, s4) \<and> ws_runs s4 = [req, req]"
proof -
  obtain o1 u1 where r1: "stream_turn (\<lambda>_. None) [116] (ti_model example_body) example_items = Some (o1, u1)"
    using example_stream by blast
  obtain o2 u2 where r2: "stream_turn (\<lambda>_. None) [117] (ti_model example_body) example_items = Some (o2, u2)"
    using example_stream by blast
  have m: "ti_model example_body = None" by (simp add: example_body_def)
  have e: "ws_runs example_web = []" by (simp add: example_web_def)
  from concurrent_duplicate_runs_twice [OF example_quiet example_miss(1) [of 0 _ "''k''"] example_miss(1) [of 3 _ "''k''"] r1 r2,
      of 0 0 0 0]
  obtain req b1 b2 s1 s2 s3 s4 where
    *: "begin_turn True 7 example_body ''k'' 0 3 example_web = (Inr (Inr (req, Some \<lparr>al_agent_id = 1,
        al_rate_limit_per_min = Some 0, al_cost_budget_usd_micro = None\<rparr>)), example_web)"
      "run_turn (\<lambda>_. None) [116] req example_items example_web = Some ((o1, u1), s1)"
      "run_turn (\<lambda>_. None) [117] req example_items s2 = Some ((o2, u2), s3)"
      "finish_turn (\<lambda>_. None) True 7 example_body ''k'' (Some \<lparr>al_agent_id = 1,
        al_rate_limit_per_min = Some 0, al_cost_budget_usd_micro = None\<rparr>) 0 [117] o2 u2 s3 = (b2, s4)"
      "ws_runs s4 = [req, req]"
    using e by auto
  have "ws_runs s3 = [req, req]" using finish_turn_docs(2) [OF *(4)] *(5) by simp
  with * r1 m show ?thesis by auto
qed

text \<open>
  A turn without an explicit model is free: when the request names no model (the agent's or
  user's default then answers it), whatever the run consumes, no usage row is written and the
  spend that budgets are checked against does not change.
\<close>

theorem turn_without_model_unmetered:
  assumes "post_turn table h u body k fresh now locked tid items later st = Some (r, st1)"
    and "ti_model body = None" and "table [] = None"
  shows "ws_usage st1 = ws_usage st \<and>
    get_spent_micro t v a (Some (ws_counts st1)) = get_spent_micro t v a (Some (ws_counts st))"
proof (cases "get_cached_json now (uuid_str u) k (docs_of h st)")
  case (Some c)
  with assms(1) have "st1 = st"
    by (cases "turn_out_of_json c") (auto simp: post_turn_def begin_turn_def)
  then show ?thesis by simp
next
  case None
  obtain r0 sta where e: "enforce_preflight_limits h u (ti_agent body) fresh now st = (r0, sta)" by fastforce
  note pre = preflight_simps [OF e] preflight_spent [OF e]
  show ?thesis
  proof (cases r)
    case (Inr b)
    from post_turn_ran [OF assms(1) [unfolded Inr] None] e obtain l out usage stb where
      run: "run_turn table tid (turn_request_of u body l) items sta = Some ((out, usage), stb)"
      and fin: "finish_turn table h u body k l later tid out usage stb = (b, st1)"
      by (metis prod.inject)
    have "tu_model usage = None" "tu_cost_usd_micro usage = 0"
      using turn_unpriced [OF run_turn_simps(6) [OF run]] assms(2,3)
      by (simp_all add: turn_request_of_def model_name_def)
    then have "ws_usage st1 = ws_usage stb" "ws_counts st1 = ws_counts stb"
      using fin by (auto simp: finish_turn_def Let_def record_cost_metered_def record_usage_def split: option.splits)
    with run_turn_simps [OF run] pre show ?thesis by simp
  next
    case (Inl x)
    have "st1 = sta"
    proof (cases r0)
      case (Inl y)
      with assms(1) None e show ?thesis by (simp add: post_turn_def begin_turn_def)
    next
      case r0: (Inr l)
      with assms(1) None e Inl show ?thesis
        by (auto simp: post_turn_def begin_turn_def split: if_splits prod.splits)
    qed
    with pre show ?thesis by simp
  qed
qed

theorem turn_without_model_unmetered_witness:
  "\<exists>r st1. post_turn (\<lambda>_. None) True 7 example_body ''k'' 0 0 True [116] example_items 5 example_web = Some (r, st1) \<and>
     ws_runs st1 \<noteq> [] \<and> ws_usage st1 = [] \<and> get_spent_micro 6 (uuid_str 7) (Some (uuid_str 1)) (Some (ws_counts st1)) = 0"
proof -
  obtain b st1 where run: "post_turn (\<lambda>_. None) True 7 example_body ''k'' 0 0 True [116] example_items 5 example_web
      = Some (Inr b, st1)" "ws_runs st1 \<noteq> ws_runs example_web"
    using example_run by blast
  have "ti_model example_body = None" by (simp add: example_body_def)
  from turn_without_model_unmetered [OF run(1) this refl] run show ?thesis
    by (auto simp: example_web_def get_spent_micro_def r_get_def live_def)
qed

text \<open>
  C1. A turn reaches the agent only by these ways, whether it is posted or streamed: its key had no
  cached answer, the session lock was held, and then either there is no Redis, or resolving its
  limits raised something other than an HTTP error (a malformed agent id, an unknown user), and
  it runs under no limit at all; or the limits of its agent were resolved, its agent had made fewer
  turns in this minute than its cap, and had spent less today than its budget, a cap or budget that
  is not positive counting as none.  It then ran once, as that agent.  The database is taken to answer.
\<close>

theorem turn_runs_within_limits:
  assumes "(\<exists>r. post_turn table h u body k fresh now locked tid items later st = Some (r, st1)) \<and>
        uncached = (get_cached_json now (uuid_str u) k (docs_of h st) = None) \<or>
      (\<exists>r. post_turn_stream table h u body k fresh now locked msg tid items later st = Some (r, st1)) \<and>
        uncached = (get_cached_stream now (uuid_str u) k (docs_of h st) = None)"
    and "ws_runs st1 \<noteq> ws_runs st"
  shows "locked \<and> uncached \<and>
    (\<exists>l. ws_runs st1 = ws_runs st @ [turn_request_of u body l] \<and>
      (case l of
         None \<Rightarrow> \<not> h \<or> resolve_agent_limits u (ti_agent body) fresh now (ws_db st) = Inr (None, ws_db st)
       | Some x \<Rightarrow>
           h \<and> (\<exists>db'. resolve_agent_limits u (ti_agent body) fresh now (ws_db st) = Inr (Some x, db')) \<and>
           (rate_cap (al_rate_limit_per_min x) \<le> 0 \<or>
             turns_counted now u x (ws_counts st) < rate_cap (al_rate_limit_per_min x)) \<and>
           (case al_cost_budget_usd_micro x of None \<Rightarrow> True
            | Some b \<Rightarrow> b \<le> 0 \<or>
                get_spent_micro now (uuid_str u) (Some (uuid_str (al_agent_id x))) (Some (ws_counts st)) < b)))"
proof -
  obtain r0 sta where e: "enforce_preflight_limits h u (ti_agent body) fresh now st = (r0, sta)" by fastforce
  have ran: "locked \<and> uncached \<and> (\<exists>l. r0 = Inr l \<and> ws_runs st1 = ws_runs sta @ [turn_request_of u body l])"
    using assms(1)
  proof
    assume "(\<exists>r. post_turn table h u body k fresh now locked tid items later st = Some (r, st1)) \<and>
      uncached = (get_cached_json now (uuid_str u) k (docs_of h st) = None)"
    then show ?thesis using post_turn_reaches assms(2) e by blast
  next
    assume "(\<exists>r. post_turn_stream table h u body k fresh now locked msg tid items later st = Some (r, st1)) \<and>
      uncached = (get_cached_stream now (uuid_str u) k (docs_of h st) = None)"
    then show ?thesis using post_turn_stream_reaches assms(2) e by blast
  qed
  then obtain l where l: "r0 = Inr l" "ws_runs st1 = ws_runs sta @ [turn_request_of u body l]" by blast
  then show ?thesis
    using ran preflight_simps(3) [OF e] preflight_passed [OF e [unfolded l(1)]]
    by (intro conjI exI [of _ l]) (simp_all split: option.splits)
qed

theorem turn_runs_within_limits_witness:
  "\<exists>b st1. post_turn (\<lambda>_. None) True 7 example_body ''k'' 0 0 True [116] example_items 5 example_web = Some (Inr b, st1) \<and>
     length (ws_runs st1) = 1"
proof -
  obtain b st1 where run: "post_turn (\<lambda>_. None) True 7 example_body ''k'' 0 0 True [116] example_items 5 example_web
      = Some (Inr b, st1)" "ws_runs st1 \<noteq> ws_runs example_web"
    using example_run by blast
  have "(\<exists>r. post_turn (\<lambda>_. None) True 7 example_body ''k'' 0 0 True [116] example_items 5 example_web = Some (r, st1)) \<and>
        True = (get_cached_json 0 (uuid_str 7) ''k'' (docs_of True example_web) = None) \<or>
      (\<exists>r. post_turn_stream (\<lambda>_. None) True 7 example_body ''k'' 0 0 True [] [116] example_items 5 example_web = Some (r, st1)) \<and>
        True = (get_cached_stream 0 (uuid_str 7) ''k'' (docs_of True example_web) = None)"
    using run(1) example_miss(1) by (simp add: docs_of_def)
  from turn_runs_within_limits [OF this run(2)]
  have "\<exists>l. ws_runs st1 = ws_runs example_web @ [turn_request_of 7 example_body l]" by blast
  then show ?thesis using run(1) by (auto simp: example_web_def)
qed

text \<open>
  A lock timeout is cached as the answer: when a streaming turn cannot get the session lock,
  its error stream is stored under the idempotency key, and for 24 hours every retry with the
  key gets those bytes and never reaches the agent.
\<close>

theorem lock_timeout_replayed:
  assumes "post_turn_stream table True u body k fresh now False msg tid items later st = Some (Inr raw, st1)"
    and "get_cached_stream now (uuid_str u) k (Some (ws_docs st)) = None"
    and "k \<noteq> []" and "later \<le> t" and "t < later + 86400000" and "ws_docs st2 = ws_docs st1"
  shows "raw = encode_all (lock_timeout_events tid msg) \<and>
    post_turn_stream table True u body' k fresh' t locked' msg' tid' items' later' st2 = Some (Inr raw, st2)"
proof -
  obtain r0 sta where e: "enforce_preflight_limits True u (ti_agent body) fresh now st = (r0, sta)" by fastforce
  obtain l where fin: "finish_stream table True u body k l later (lock_timeout_events tid msg) no_usage sta = (raw, st1)"
    using assms(1,2) e by (auto simp: post_turn_stream_def docs_of_def split: sum.splits prod.splits)
  then have raw: "raw = encode_all (lock_timeout_events tid msg)"
    and "ws_docs st1 = the (store_cached_stream later (uuid_str u) k raw (Some (ws_docs sta)))"
    using assms(3) by (auto simp: finish_stream_def Let_def docs_of_def put_docs_def store_cached_stream_def)
  then have "get_cached_stream t (uuid_str u) k (docs_of True st2) = Some raw"
    using assms(3-6) by (simp add: docs_of_def idem_defs)
  with raw show ?thesis by (simp add: post_turn_stream_def)
qed

theorem lock_timeout_replayed_witness:
  "\<exists>raw st1. post_turn_stream (\<lambda>_. None) True 7 example_body ''k'' 0 0 False [119] [116] [] 5 example_web = Some (Inr raw, st1) \<and>
     post_turn_stream (\<lambda>_. None) True 7 example_body ''k'' 0 6 True [] [117] example_items 9 st1 = Some (Inr raw, st1)"
proof -
  have "\<exists>raw st1. post_turn_stream (\<lambda>_. None) True 7 example_body ''k'' 0 0 False [119] [116] [] 5 example_web = Some (Inr raw, st1)"
    using quiet_preflight [OF example_quiet refl, of 0 0] example_miss(2) [of 0 "uuid_str 7" "''k''"]
    by (simp add: post_turn_stream_def docs_of_def finish_stream_def Let_def)
  then obtain raw st1 where
    run: "post_turn_stream (\<lambda>_. None) True 7 example_body ''k'' 0 0 False [119] [116] [] 5 example_web = Some (Inr raw, st1)"
    by blast
  from lock_timeout_replayed [OF run example_miss(2), of 6 st1] run show ?thesis by auto
qed

text \<open>
  The permission mode of a request has no effect on its tools, which depend on the session's
  registered policy and the agent's or user's mode only; and in read-only mode the memory, skill
  and cron writers are withheld while the GitHub tools that write are still offered.
\<close>

theorem request_mode_ignored:
  "engine_policy registry agent_mode user_mode (req\<lparr>tr_permission_mode := m\<rparr>)
     = engine_policy registry agent_mode user_mode req \<and>
   (registry (tr_session_key req) = None \<and> (if agent_mode = [] then user_mode else agent_mode) = ''ro'' \<longrightarrow>
     set (agent_tools web True (engine_policy registry agent_mode user_mode req)) \<inter> set WRITE_TOOL_NAMES = {} \<and>
     {''gh_issue_create'', ''gh_pr_comment''} \<subseteq> set (agent_tools web True (engine_policy registry agent_mode user_mode req)))"
  by (auto simp: engine_policy_def agent_tools_def base_tools_def github_tools_def filter_tools_def
      is_tool_allowed_def WRITE_TOOL_NAMES_def Let_def)

theorem request_mode_ignored_witness:
  "\<exists>tools. agent_tools False True (engine_policy (\<lambda>_. None) ''ro'' ''auto''
       (turn_request_of 7 (example_body\<lparr>ti_permission_mode := Some ''auto''\<rparr>) None)) = tools \<and>
     ''gh_issue_create'' \<in> set tools \<and> ''memory'' \<notin> set tools"
  using request_mode_ignored [where registry = "\<lambda>_. None" and agent_mode = "''ro''" and user_mode = "''auto''"
      and req = "turn_request_of 7 (example_body\<lparr>ti_permission_mode := Some ''auto''\<rparr>) None" and web = False]
  by (auto simp: WRITE_TOOL_NAMES_def)

end
