(* ===== verification/Webhook_Delivery.thy ===== *)
theory Webhook_Delivery
  imports Sse Py_Values
begin

text \<open>
  \<open>cron/delivery.py\<close>: the signed POST of a cron result, with its retries.  The HMAC, the secrets
  provider and the answers of the web application are parameters; times are in milliseconds.
\<close>

subsection \<open>The secret\<close>

definition SECRET_TTL_MS :: int where "SECRET_TTL_MS = 300000"

type_synonym secret_cache = "(string \<times> (int \<times> string)) list"

text \<open>\<open>lookup name = None\<close> is a provider that raises.\<close>

definition resolve_secret ::
  "bool \<Rightarrow> string option \<Rightarrow> string \<Rightarrow> (string \<Rightarrow> string option) \<Rightarrow> int \<Rightarrow> secret_cache
     \<Rightarrow> string \<times> secret_cache"
where
  "resolve_secret is_local env name lookup now cache =
     (if is_local then (case env of None \<Rightarrow> [] | Some v \<Rightarrow> v, cache)
      else
        (let fetch = (case lookup name of
               None \<Rightarrow> ([], cache)
             | Some v \<Rightarrow> (v, dict_set name (now, v) cache))
         in case dict_get cache name of
              Some (at, v) \<Rightarrow> if now - at < SECRET_TTL_MS then (v, cache) else fetch
            | None \<Rightarrow> fetch))"

subsection \<open>The request\<close>

text \<open>\<open>json.dumps(.., ensure_ascii=False)\<close> of an object of strings, with the default separators.\<close>

definition raw_char :: "nat \<Rightarrow> pystr" where
  "raw_char n =
     (if n = 34 \<or> n = 92 then [92, n]
      else if n = 10 then codes [CHR 0x5C, CHR ''n'']
      else if n = 13 then codes [CHR 0x5C, CHR ''r'']
      else if n = 9 then codes [CHR 0x5C, CHR ''t'']
      else if n = 12 then codes [CHR 0x5C, CHR ''f'']
      else if n = 8 then codes [CHR 0x5C, CHR ''b'']
      else if n < 32 then u_escape n
      else [n])"

definition raw_string :: "pystr \<Rightarrow> pystr" where
  "raw_string s = [34] @ concat (map raw_char s) @ [34]"

definition webhook_text :: "pystr \<Rightarrow> pystr \<Rightarrow> pystr" where
  "webhook_text txt session_key =
     codes ''{'' @ raw_string (codes ''text'') @ codes '': '' @ raw_string txt @ codes '', '' @
     raw_string (codes ''session_key'') @ codes '': '' @ raw_string session_key @ codes ''}''"

record http_post =
  hp_url :: string
  hp_content :: bytes
  hp_signature :: string

definition sign :: "(bytes \<Rightarrow> bytes \<Rightarrow> string) \<Rightarrow> string \<Rightarrow> bytes \<Rightarrow> string" where
  "sign hmac_hex secret body = ''sha256='' @ hmac_hex (to_bytes (codes secret)) body"

subsection \<open>The attempts\<close>

definition BACKOFF_MS :: "nat list" where "BACKOFF_MS = [1000, 4000, 16000]"

definition max_attempts :: nat where "max_attempts = length BACKOFF_MS + 1"

text \<open>What one \<open>client.post\<close> does: a transport error, another exception, or a status.\<close>

datatype http_outcome = TransportError | OtherError | Status nat

datatype delivery_action = Sleep nat | Post http_post

datatype delivery = MissingUrl | NoSecret | NotEncodable | Delivered nat | Rejected nat | Exhausted | PostRaised

definition retryable :: "http_outcome \<Rightarrow> bool" where
  "retryable r = (case r of TransportError \<Rightarrow> True | OtherError \<Rightarrow> False | Status c \<Rightarrow> 500 \<le> c \<and> c < 600)"

definition verdict :: "http_outcome \<Rightarrow> delivery" where
  "verdict r =
     (case r of
        TransportError \<Rightarrow> Exhausted
      | OtherError \<Rightarrow> PostRaised
      | Status c \<Rightarrow> if 400 \<le> c \<and> c < 500 then Rejected c else Delivered c)"

definition attempt_actions :: "http_post \<Rightarrow> nat \<Rightarrow> delivery_action list" where
  "attempt_actions req attempt = (if attempt > 0 then [Sleep (BACKOFF_MS ! (attempt - 1))] else []) @ [Post req]"

fun webhook_loop ::
  "(nat \<Rightarrow> http_outcome) \<Rightarrow> http_post \<Rightarrow> nat list \<Rightarrow> delivery_action list \<times> delivery"
where
  "webhook_loop resp req [] = ([], Exhausted)"
| "webhook_loop resp req (attempt # rest) =
     (if retryable (resp attempt)
      then (let (acts, r) = webhook_loop resp req rest in (attempt_actions req attempt @ acts, r))
      else (attempt_actions req attempt, verdict (resp attempt)))"

definition deliver_webhook ::
  "(bytes \<Rightarrow> bytes \<Rightarrow> string) \<Rightarrow> string \<Rightarrow> json \<Rightarrow> pystr \<Rightarrow> pystr \<Rightarrow> (nat \<Rightarrow> http_outcome)
     \<Rightarrow> delivery_action list \<times> delivery"
where
  "deliver_webhook hmac_hex secret url txt session_key resp =
     (case url of
        JStr u \<Rightarrow>
          (if u = [] then ([], MissingUrl)
           else if secret = [] then ([], NoSecret)
           else (case utf8_encode (webhook_text txt session_key) of
               Inl e \<Rightarrow> ([], NotEncodable)
             | Inr body \<Rightarrow>
                 webhook_loop resp
                   \<lparr>hp_url = u, hp_content = body, hp_signature = sign hmac_hex secret body\<rparr> [0..<max_attempts]))
      | _ \<Rightarrow> ([], MissingUrl))"

subsection \<open>Properties\<close>

fun slept :: "delivery_action list \<Rightarrow> nat" where
  "slept [] = 0"
| "slept (Sleep n # as) = n + slept as"
| "slept (Post r # as) = slept as"

definition posts :: "delivery_action list \<Rightarrow> http_post list" where
  "posts acts = concat (map (\<lambda>a. case a of Post r \<Rightarrow> [r] | Sleep n \<Rightarrow> []) acts)"

lemmas webhook_simps = attempt_actions_def BACKOFF_MS_def posts_def less_Suc_eq Let_def

lemma webhook_delivery_cases:
  assumes "deliver_webhook hmac_hex secret url txt key resp = (acts, r)"
  shows "length (posts acts) \<le> 4 \<and> slept acts \<le> 21000 \<and>
    (acts = [] \<longleftrightarrow> r \<in> {MissingUrl, NoSecret, NotEncodable}) \<and>
    (acts \<noteq> [] \<longrightarrow> (\<exists>u body. url = JStr u \<and> u \<noteq> [] \<and> secret \<noteq> [] \<and>
       utf8_encode (webhook_text txt key) = Inr body \<and>
       set (posts acts) = {\<lparr>hp_url = u, hp_content = body,
         hp_signature = sign hmac_hex secret body\<rparr>} \<and>
       (\<forall>i < length (posts acts) - 1. retryable (resp i)) \<and>
       (let last_answer = resp (length (posts acts) - 1) in
        if retryable last_answer then length (posts acts) = 4 \<and> r = Exhausted else r = verdict last_answer)))"
proof (cases "\<exists>u body. url = JStr u \<and> u \<noteq> [] \<and> secret \<noteq> [] \<and> utf8_encode (webhook_text txt key) = Inr body")
  case False
  then have "acts = [] \<and> r \<in> {MissingUrl, NoSecret, NotEncodable}"
    using assms by (auto simp: deliver_webhook_def split: json.splits if_splits sum.splits)
  then show ?thesis by (auto simp: posts_def)
next
  case True
  then obtain u body where ok: "url = JStr u" "u \<noteq> []" "secret \<noteq> []"
      "utf8_encode (webhook_text txt key) = Inr body" by blast
  let ?req = "\<lparr>hp_url = u, hp_content = body, hp_signature = sign hmac_hex secret body\<rparr>"
  have four: "[0..<max_attempts] = [0, Suc 0, Suc (Suc 0), Suc (Suc (Suc 0))]"
    by (simp add: max_attempts_def BACKOFF_MS_def upt_rec)
  have run: "webhook_loop resp ?req [0, Suc 0, Suc (Suc 0), Suc (Suc (Suc 0))] = (acts, r)"
    using assms ok by (simp add: deliver_webhook_def four)
  have verdicts: "\<not> retryable x \<Longrightarrow> verdict x \<notin> {MissingUrl, NoSecret, NotEncodable}" for x
    by (cases x) (auto simp: verdict_def retryable_def)
  let ?ok = "\<lambda>i. retryable (resp i)"
  consider "\<not> ?ok 0" | "?ok 0" "\<not> ?ok (Suc 0)" | "?ok 0" "?ok (Suc 0)" "\<not> ?ok (Suc (Suc 0))"
    | "?ok 0" "?ok (Suc 0)" "?ok (Suc (Suc 0))" "?ok (Suc (Suc (Suc 0)))"
    | "?ok 0" "?ok (Suc 0)" "?ok (Suc (Suc 0))" "\<not> ?ok (Suc (Suc (Suc 0)))" by blast
  then show ?thesis
    using run ok by cases (auto simp: webhook_simps dest: verdicts split: if_splits)
qed

text \<open>
  Delivery always ends.  With a URL and a secret it posts one and the same signed request
  until an answer is neither a transport error nor a 5xx, at most four times and after
  waiting 1, 4 and 16 seconds; a 4xx answer rejects it, any other status counts as
  delivered, and four failures exhaust it.  Without a URL or a secret nothing is sent.
\<close>

theorem webhook_delivery_bounded:
  assumes "deliver_webhook hmac_hex secret url txt key resp = (acts, r)"
  shows "length (posts acts) \<le> 4 \<and> slept acts \<le> 21000 \<and>
    (acts = [] \<longleftrightarrow> r \<in> {MissingUrl, NoSecret, NotEncodable}) \<and>
    (acts \<noteq> [] \<longrightarrow> (\<exists>u body. url = JStr u \<and> u \<noteq> [] \<and> secret \<noteq> [] \<and>
       utf8_encode (webhook_text txt key) = Inr body \<and>
       set (posts acts) = {\<lparr>hp_url = u, hp_content = body, hp_signature = sign hmac_hex secret body\<rparr>} \<and>
       (\<forall>i < length (posts acts) - 1. resp i = TransportError \<or> (\<exists>c. resp i = Status c \<and> 500 \<le> c \<and> c < 600)) \<and>
       (case resp (length (posts acts) - 1) of
          TransportError \<Rightarrow> length (posts acts) = 4 \<and> r = Exhausted
        | OtherError \<Rightarrow> r = PostRaised
        | Status c \<Rightarrow>
            (if 500 \<le> c \<and> c < 600 then length (posts acts) = 4 \<and> r = Exhausted
             else if 400 \<le> c \<and> c < 500 then r = Rejected c else r = Delivered c))))"
proof -
  have retry: "retryable x \<longleftrightarrow> x = TransportError \<or> (\<exists>c. x = Status c \<and> 500 \<le> c \<and> c < 600)" for x
    by (cases x) (simp_all add: retryable_def)
  show ?thesis
    using webhook_delivery_cases [OF assms]
    by (cases "resp (length (posts acts) - 1)") (auto simp: retry verdict_def Let_def split: if_splits)
qed

theorem webhook_delivery_bounded_witness:
  "\<exists>acts r. deliver_webhook (\<lambda>k b. ''00'') ''s'' (JStr ''http://h'') (codes ''hi'') (codes ''k'')
       (\<lambda>i. if i < 2 then Status 503 else Status 200) = (acts, r) \<and>
     length (posts acts) = 3 \<and> r = Delivered 200 \<and> slept acts \<le> 21000"
proof -
  let ?d = "deliver_webhook (\<lambda>k b. ''00'') ''s'' (JStr ''http://h'') (codes ''hi'') (codes ''k'')
       (\<lambda>i. if i < 2 then Status 503 else Status 200)"
  obtain acts r where d: "?d = (acts, r)" by (cases ?d)
  have "\<not> list_ex surrogate (webhook_text (codes ''hi'') (codes ''k''))"
    by (simp add: webhook_text_def raw_string_def raw_char_def surrogate_def)
  then have "length (posts (fst ?d)) = 3" "snd ?d = Delivered 200"
    by (simp_all add: deliver_webhook_def utf8_encode_def max_attempts_def webhook_simps upt_rec retryable_def
        verdict_def)
  moreover have "slept acts \<le> 21000"
    using webhook_delivery_bounded [OF d] by blast
  ultimately show ?thesis using d by simp
qed

end
