(* ===== verification/Worker_Messages.thy ===== *)
theory Worker_Messages
  imports Py_Values "HOL-Library.Monad_Syntax"
begin

text \<open>
  The bodies of queue messages: \<open>CronMessage\<close> of \<open>cron/scheduler.py\<close> and the message classes of
  \<open>evolve/cloud.py\<close> and of the modules of \<open>worker/\<close>.  A body is the JSON document its text
  stands for, \<^const>\<open>None\<close> where \<open>json.loads\<close> rejects the text.  A parser gives \<^const>\<open>None\<close>
  for each of the exceptions \<open>ValueError\<close>, \<open>KeyError\<close> and \<open>TypeError\<close>, which its caller
  treats alike.
\<close>

type_synonym body = "json option"

subsection \<open>Reading a document\<close>

text \<open>\<open>data[k]\<close> and \<open>data.get(k)\<close>.\<close>

definition get_item :: "json \<Rightarrow> string \<Rightarrow> json option" where
  "get_item d k = (case d of JObj kvs \<Rightarrow> map_of kvs k | _ \<Rightarrow> None)"

definition get_or :: "json \<Rightarrow> string \<Rightarrow> json \<Rightarrow> json option" where
  "get_or d k v = (case d of JObj kvs \<Rightarrow> Some (case map_of kvs k of None \<Rightarrow> v | Some x \<Rightarrow> x) | _ \<Rightarrow> None)"

text \<open>\<open>str(data[k])\<close> and \<open>str(data.get(k) or "")\<close>.\<close>

definition str_item :: "json \<Rightarrow> string \<Rightarrow> string option" where
  "str_item d k = map_option py_str (get_item d k)"

definition str_or_empty :: "json \<Rightarrow> string \<Rightarrow> string option" where
  "str_or_empty d k = map_option (\<lambda>v. if truthy v then py_str v else []) (get_or d k JNull)"

text \<open>
  \<open>int(v)\<close>: whitespace around, one sign, decimal digits with single underscores between them, at
  most 4300 of them.
\<close>

definition int_space :: "char \<Rightarrow> bool" where
  "int_space c = (let n = of_char c :: nat in 9 \<le> n \<and> n \<le> 13 \<or> n = 32 \<or> n = 133 \<or> n = 160)"

fun digit_run :: "bool \<Rightarrow> nat \<Rightarrow> string \<Rightarrow> nat option" where
  "digit_run after acc [] = (if after then Some acc else None)"
| "digit_run after acc (c # cs) =
     (let n = of_char c :: nat in
      if 48 \<le> n \<and> n \<le> 57 then digit_run True (acc * 10 + (n - 48)) cs
      else if c = CHR ''_'' \<and> after then digit_run False acc cs
      else None)"

definition int_of_text :: "string \<Rightarrow> int option" where
  "int_of_text s =
     (let t = rev (dropWhile int_space (rev (dropWhile int_space s)));
          (neg, ds) = (case t of
             CHR ''-'' # u \<Rightarrow> (True, u)
           | CHR ''+'' # u \<Rightarrow> (False, u)
           | _ \<Rightarrow> (False, t))
      in if 4300 < length (filter (\<lambda>c. c \<noteq> CHR ''_'') ds) then None
         else map_option (\<lambda>n. if neg then - int n else int n) (digit_run False 0 ds))"

definition py_int :: "json \<Rightarrow> int option" where
  "py_int v =
     (case v of
        JInt i \<Rightarrow> Some i
      | JBool b \<Rightarrow> Some (if b then 1 else 0)
      | JStr s \<Rightarrow> int_of_text s
      | _ \<Rightarrow> None)"

definition int_or :: "json \<Rightarrow> string \<Rightarrow> int \<Rightarrow> int option" where
  "int_or d k v = Option.bind (get_or d k (JInt v)) py_int"

text \<open>\<open>list(v)\<close>.\<close>

definition py_list :: "json \<Rightarrow> json list option" where
  "py_list v =
     (case v of
        JArr xs \<Rightarrow> Some xs
      | JStr s \<Rightarrow> Some (map (\<lambda>c. JStr [c]) s)
      | JObj kvs \<Rightarrow> Some (map (\<lambda>kv. JStr (fst kv)) kvs)
      | _ \<Rightarrow> None)"

text \<open>The discriminator: \<open>isinstance(data, dict) and data.get("kind") == kind\<close>.\<close>

definition has_kind :: "string \<Rightarrow> body \<Rightarrow> bool" where
  "has_kind k b \<longleftrightarrow> (case b of Some (JObj kvs) \<Rightarrow> py_get kvs ''kind'' = JStr k | _ \<Rightarrow> False)"

lemmas reading = get_item_def get_or_def str_item_def str_or_empty_def int_or_def py_int_def py_list_def

subsection \<open>Cron messages\<close>

record cron_message =
  cm_job_id :: string
  cm_scope :: string
  cm_slug :: string
  cm_user_id :: string
  cm_prompt :: string
  cm_webhook_url :: json
  cm_scheduled_for :: string

definition cron_to_json :: "cron_message \<Rightarrow> json" where
  "cron_to_json m = JObj [(''cron_job_id'', JStr (cm_job_id m)), (''scope'', JStr (cm_scope m)),
     (''slug'', JStr (cm_slug m)), (''user_id'', JStr (cm_user_id m)), (''prompt'', JStr (cm_prompt m)),
     (''webhook_url'', cm_webhook_url m), (''scheduled_for'', JStr (cm_scheduled_for m))]"

definition cron_from_json :: "body \<Rightarrow> cron_message option" where
  "cron_from_json raw =
     (do {
       d \<leftarrow> raw;
       job \<leftarrow> str_item d ''cron_job_id'';
       sc \<leftarrow> str_item d ''scope'';
       s \<leftarrow> str_item d ''slug'';
       u \<leftarrow> str_item d ''user_id'';
       p \<leftarrow> str_item d ''prompt'';
       url \<leftarrow> get_or d ''webhook_url'' JNull;
       at \<leftarrow> str_item d ''scheduled_for'';
       Some \<lparr>cm_job_id = job, cm_scope = sc, cm_slug = s, cm_user_id = u, cm_prompt = p,
         cm_webhook_url = url, cm_scheduled_for = at\<rparr>
     })"

subsection \<open>Evolution messages\<close>

definition EVOLVE_KIND :: string where "EVOLVE_KIND = ''evolve''"
definition EVOLVE_GEPA_KIND :: string where "EVOLVE_GEPA_KIND = ''evolve_gepa''"

record evolve_message =
  ev_kind :: string
  ev_user_id :: string
  ev_skill_slug :: string
  ev_enqueued_at :: string

definition evolve_to_json :: "evolve_message \<Rightarrow> json" where
  "evolve_to_json m = JObj [(''kind'', JStr (ev_kind m)), (''user_id'', JStr (ev_user_id m)),
     (''skill_slug'', JStr (ev_skill_slug m)), (''enqueued_at'', JStr (ev_enqueued_at m))]"

definition evolve_from_json :: "body \<Rightarrow> evolve_message option" where
  "evolve_from_json raw =
     (do {
       d \<leftarrow> raw;
       k \<leftarrow> str_item d ''kind'';
       u \<leftarrow> str_item d ''user_id'';
       s \<leftarrow> str_item d ''skill_slug'';
       at \<leftarrow> str_item d ''enqueued_at'';
       Some \<lparr>ev_kind = k, ev_user_id = u, ev_skill_slug = s, ev_enqueued_at = at\<rparr>
     })"

record gepa_message =
  ge_kind :: string
  ge_user_id :: string
  ge_agent_id :: string
  ge_skill_slug :: string
  ge_enqueued_at :: string

definition gepa_to_json :: "gepa_message \<Rightarrow> json" where
  "gepa_to_json m = JObj [(''kind'', JStr (ge_kind m)), (''user_id'', JStr (ge_user_id m)),
     (''agent_id'', JStr (ge_agent_id m)), (''skill_slug'', JStr (ge_skill_slug m)),
     (''enqueued_at'', JStr (ge_enqueued_at m))]"

definition gepa_from_json :: "body \<Rightarrow> gepa_message option" where
  "gepa_from_json raw =
     (do {
       d \<leftarrow> raw;
       k \<leftarrow> str_item d ''kind'';
       u \<leftarrow> str_item d ''user_id'';
       a \<leftarrow> str_item d ''agent_id'';
       s \<leftarrow> str_item d ''skill_slug'';
       at \<leftarrow> str_item d ''enqueued_at'';
       Some \<lparr>ge_kind = k, ge_user_id = u, ge_agent_id = a, ge_skill_slug = s, ge_enqueued_at = at\<rparr>
     })"

subsection \<open>Maintenance messages\<close>

definition EMBED_KIND :: string where "EMBED_KIND = ''embed''"
definition EMBED_BATCH_LIMIT :: int where "EMBED_BATCH_LIMIT = 50"

record embed_message =
  em_kind :: string
  em_user_id :: string
  em_agent_id :: string
  em_limit :: int

definition embed_to_json :: "embed_message \<Rightarrow> json" where
  "embed_to_json m = JObj [(''kind'', JStr (em_kind m)), (''user_id'', JStr (em_user_id m)),
     (''agent_id'', JStr (em_agent_id m)), (''limit'', JInt (em_limit m))]"

definition embed_from_json :: "body \<Rightarrow> embed_message option" where
  "embed_from_json raw =
     (do {
       d \<leftarrow> raw;
       k \<leftarrow> str_item d ''kind'';
       u \<leftarrow> str_item d ''user_id'';
       a \<leftarrow> str_item d ''agent_id'';
       n \<leftarrow> int_or d ''limit'' EMBED_BATCH_LIMIT;
       Some \<lparr>em_kind = k, em_user_id = u, em_agent_id = a, em_limit = n\<rparr>
     })"

definition SUMMARIZE_KIND :: string where "SUMMARIZE_KIND = ''summarize''"

record summarize_message =
  su_kind :: string
  su_user_id :: string
  su_agent_id :: string
  su_session_id :: string
  su_model :: string

definition summarize_to_json :: "summarize_message \<Rightarrow> json" where
  "summarize_to_json m = JObj [(''kind'', JStr (su_kind m)), (''user_id'', JStr (su_user_id m)),
     (''agent_id'', JStr (su_agent_id m)), (''session_id'', JStr (su_session_id m)),
     (''model'', JStr (su_model m))]"

definition summarize_from_json :: "body \<Rightarrow> summarize_message option" where
  "summarize_from_json raw =
     (do {
       d \<leftarrow> raw;
       k \<leftarrow> str_item d ''kind'';
       u \<leftarrow> str_item d ''user_id'';
       a \<leftarrow> str_item d ''agent_id'';
       s \<leftarrow> str_item d ''session_id'';
       md \<leftarrow> str_or_empty d ''model'';
       Some \<lparr>su_kind = k, su_user_id = u, su_agent_id = a, su_session_id = s, su_model = md\<rparr>
     })"

definition COMPACT_KIND :: string where "COMPACT_KIND = ''compact''"
definition CURATE_KIND :: string where "CURATE_KIND = ''curate''"

text \<open>\<open>CompactMessage\<close> and \<open>CurateMessage\<close> have the same fields and the same two methods.\<close>

record slice_message =
  sm_kind :: string
  sm_user_id :: string
  sm_agent_id :: string
  sm_model :: string

definition slice_to_json :: "slice_message \<Rightarrow> json" where
  "slice_to_json m = JObj [(''kind'', JStr (sm_kind m)), (''user_id'', JStr (sm_user_id m)),
     (''agent_id'', JStr (sm_agent_id m)), (''model'', JStr (sm_model m))]"

definition slice_from_json :: "body \<Rightarrow> slice_message option" where
  "slice_from_json raw =
     (do {
       d \<leftarrow> raw;
       k \<leftarrow> str_item d ''kind'';
       u \<leftarrow> str_item d ''user_id'';
       a \<leftarrow> str_item d ''agent_id'';
       md \<leftarrow> str_or_empty d ''model'';
       Some \<lparr>sm_kind = k, sm_user_id = u, sm_agent_id = a, sm_model = md\<rparr>
     })"

definition CLASSIFY_KIND :: string where "CLASSIFY_KIND = ''classify''"

record classify_message =
  cl_kind :: string
  cl_user_id :: string
  cl_agent_id :: string
  cl_session_id :: string
  cl_turn_id :: string
  cl_user_request :: string
  cl_final_text :: string
  cl_tool_tail :: "json list"
  cl_skill_slug :: json
  cl_model :: string

definition classify_to_json :: "classify_message \<Rightarrow> json" where
  "classify_to_json m = JObj [(''kind'', JStr (cl_kind m)), (''user_id'', JStr (cl_user_id m)),
     (''agent_id'', JStr (cl_agent_id m)), (''session_id'', JStr (cl_session_id m)),
     (''turn_id'', JStr (cl_turn_id m)), (''user_request'', JStr (cl_user_request m)),
     (''final_text'', JStr (cl_final_text m)), (''tool_tail'', JArr (cl_tool_tail m)),
     (''skill_slug'', cl_skill_slug m), (''model'', JStr (cl_model m))]"

definition classify_from_json :: "body \<Rightarrow> classify_message option" where
  "classify_from_json raw =
     (do {
       d \<leftarrow> raw;
       k \<leftarrow> str_item d ''kind'';
       u \<leftarrow> str_item d ''user_id'';
       a \<leftarrow> str_item d ''agent_id'';
       s \<leftarrow> str_item d ''session_id'';
       t \<leftarrow> str_item d ''turn_id'';
       rq \<leftarrow> str_or_empty d ''user_request'';
       ft \<leftarrow> str_or_empty d ''final_text'';
       tail_doc \<leftarrow> get_or d ''tool_tail'' JNull;
       tt \<leftarrow> (if truthy tail_doc then py_list tail_doc else Some []);
       sk \<leftarrow> get_or d ''skill_slug'' JNull;
       md \<leftarrow> str_or_empty d ''model'';
       Some \<lparr>cl_kind = k, cl_user_id = u, cl_agent_id = a, cl_session_id = s, cl_turn_id = t,
         cl_user_request = rq, cl_final_text = ft, cl_tool_tail = tt, cl_skill_slug = sk, cl_model = md\<rparr>
     })"

definition GDPR_DELETE_KIND :: string where "GDPR_DELETE_KIND = ''gdpr_delete''"

record gdpr_message =
  gd_kind :: string
  gd_request_id :: string

definition gdpr_to_json :: "gdpr_message \<Rightarrow> json" where
  "gdpr_to_json m = JObj [(''kind'', JStr (gd_kind m)), (''request_id'', JStr (gd_request_id m))]"

definition gdpr_from_json :: "body \<Rightarrow> gdpr_message option" where
  "gdpr_from_json raw =
     (do {
       d \<leftarrow> raw;
       k \<leftarrow> str_item d ''kind'';
       r \<leftarrow> str_item d ''request_id'';
       Some \<lparr>gd_kind = k, gd_request_id = r\<rparr>
     })"

definition AUDIT_SHIP_KIND :: string where "AUDIT_SHIP_KIND = ''audit_ship''"
definition AUDIT_RETENTION_DAYS :: int where "AUDIT_RETENTION_DAYS = 90"
definition AUDIT_BATCH_LIMIT :: int where "AUDIT_BATCH_LIMIT = 1000"

record audit_ship_message =
  as_kind :: string
  as_retention_days :: int
  as_limit :: int

definition audit_ship_to_json :: "audit_ship_message \<Rightarrow> json" where
  "audit_ship_to_json m = JObj [(''kind'', JStr (as_kind m)),
     (''retention_days'', JInt (as_retention_days m)), (''limit'', JInt (as_limit m))]"

definition audit_ship_from_json :: "body \<Rightarrow> audit_ship_message option" where
  "audit_ship_from_json raw =
     (do {
       d \<leftarrow> raw;
       k \<leftarrow> str_item d ''kind'';
       r \<leftarrow> int_or d ''retention_days'' AUDIT_RETENTION_DAYS;
       n \<leftarrow> int_or d ''limit'' AUDIT_BATCH_LIMIT;
       Some \<lparr>as_kind = k, as_retention_days = r, as_limit = n\<rparr>
     })"

subsection \<open>Round trips\<close>

text \<open>Every message class reads back what it wrote.\<close>

lemma py_str_JStr [simp]: "py_str (JStr s) = s"
  by (simp add: py_str_def)

lemma str_or_text: "(if truthy (JStr s) then py_str (JStr s) else []) = s"
  by simp

lemma cron_read_back: "cron_from_json (Some (cron_to_json m)) = Some m"
  by (cases m) (simp add: cron_from_json_def cron_to_json_def reading)

lemma evolve_read_back: "evolve_from_json (Some (evolve_to_json m)) = Some m"
  by (cases m) (simp add: evolve_from_json_def evolve_to_json_def reading)

lemma gepa_read_back: "gepa_from_json (Some (gepa_to_json m)) = Some m"
  by (cases m) (simp add: gepa_from_json_def gepa_to_json_def reading)

lemma embed_read_back: "embed_from_json (Some (embed_to_json m)) = Some m"
  by (cases m) (simp add: embed_from_json_def embed_to_json_def reading)

lemma summarize_read_back: "summarize_from_json (Some (summarize_to_json m)) = Some m"
  by (cases m) (simp add: summarize_from_json_def summarize_to_json_def reading)

lemma slice_read_back: "slice_from_json (Some (slice_to_json m)) = Some m"
  by (cases m) (simp add: slice_from_json_def slice_to_json_def reading)

lemma classify_read_back: "classify_from_json (Some (classify_to_json m)) = Some m"
  by (cases m) (simp add: classify_from_json_def classify_to_json_def reading)

lemma gdpr_read_back: "gdpr_from_json (Some (gdpr_to_json m)) = Some m"
  by (cases m) (simp add: gdpr_from_json_def gdpr_to_json_def reading)

lemma audit_ship_read_back: "audit_ship_from_json (Some (audit_ship_to_json m)) = Some m"
  by (cases m) (simp add: audit_ship_from_json_def audit_ship_to_json_def reading)

lemmas read_back = cron_read_back evolve_read_back gepa_read_back embed_read_back summarize_read_back
  slice_read_back classify_read_back gdpr_read_back audit_ship_read_back

text \<open>The discriminator of a written message is its \<open>kind\<close> field; cron messages have none.\<close>

lemma kind_of_written:
  "has_kind k (Some (cron_to_json c)) \<longleftrightarrow> False"
  "has_kind k (Some (evolve_to_json e)) \<longleftrightarrow> ev_kind e = k"
  "has_kind k (Some (gepa_to_json g)) \<longleftrightarrow> ge_kind g = k"
  "has_kind k (Some (embed_to_json em)) \<longleftrightarrow> em_kind em = k"
  "has_kind k (Some (summarize_to_json su)) \<longleftrightarrow> su_kind su = k"
  "has_kind k (Some (slice_to_json sl)) \<longleftrightarrow> sm_kind sl = k"
  "has_kind k (Some (classify_to_json cl)) \<longleftrightarrow> cl_kind cl = k"
  "has_kind k (Some (gdpr_to_json gd)) \<longleftrightarrow> gd_kind gd = k"
  "has_kind k (Some (audit_ship_to_json a)) \<longleftrightarrow> as_kind a = k"
  by (simp_all add: has_kind_def py_get_def cron_to_json_def evolve_to_json_def gepa_to_json_def
      embed_to_json_def summarize_to_json_def slice_to_json_def classify_to_json_def gdpr_to_json_def
      audit_ship_to_json_def)

lemma get_or_defined: "get_item d k = Some x \<Longrightarrow> \<exists>y. get_or d k' v = Some y"
  by (auto simp: reading split: json.splits)

end
