(* ===== verification/Message_Queue.thy ===== *)
theory Message_Queue
  imports Prelude
begin

text \<open>
  \<open>storage/queue.py\<close> and \<open>storage/queue_memory.py\<close>: the queue between the scheduler and the
  worker.  The locale states what the sender relies on; the in-memory queue provides it.
\<close>

subsection \<open>The interface\<close>

locale message_queue =
  fixes send :: "'b \<Rightarrow> 'q \<Rightarrow> 'q"
    and receive :: "nat \<Rightarrow> 'q \<Rightarrow> 'b list \<times> 'q"
    and pending :: "'q \<Rightarrow> 'b list"
  assumes pending_send: "pending (send b q) = pending q @ [b]"
    and receive_prefix: "pending q = fst (receive n q) @ pending (snd (receive n q))"
    and receive_all: "length (pending q) \<le> n \<Longrightarrow> pending (snd (receive n q)) = []"
begin

lemma pending_fold_send: "pending (fold send bs q) = pending q @ bs"
  by (induction bs arbitrary: q) (simp_all add: pending_send)

lemma receive_sent:
  assumes "pending q = []"
  shows "fst (receive (length bs) (fold send bs q)) = bs"
proof -
  let ?q = "fold send bs q"
  have "pending ?q = bs"
    using assms by (simp add: pending_fold_send)
  moreover from this have "pending (snd (receive (length bs) ?q)) = []"
    by (intro receive_all) simp
  ultimately show ?thesis
    using receive_prefix [of ?q "length bs"] by simp
qed

end

subsection \<open>The in-memory queue\<close>

text \<open>
  \<open>secrets.token_hex(8)\<close> is the parameter \<open>fresh\<close>: the token of the \<open>n\<close>-th message sent.
\<close>

record 'b queue_message =
  qm_body :: 'b
  receipt_handle :: string

record 'b memory_queue =
  mq_items :: "'b queue_message list"
  mq_inflight :: "string set"
  mq_drawn :: nat

definition new_queue :: "'b memory_queue" where
  "new_queue = \<lparr>mq_items = [], mq_inflight = {}, mq_drawn = 0\<rparr>"

definition mq_send :: "(nat \<Rightarrow> string) \<Rightarrow> 'b \<Rightarrow> 'b memory_queue \<Rightarrow> 'b memory_queue" where
  "mq_send fresh body q =
     q\<lparr>mq_items := mq_items q @ [\<lparr>qm_body = body, receipt_handle = fresh (mq_drawn q)\<rparr>],
       mq_drawn := Suc (mq_drawn q)\<rparr>"

text \<open>\<open>get_nowait\<close> until the queue is empty or \<open>n\<close> messages are out.\<close>

fun mq_drain :: "nat \<Rightarrow> 'b memory_queue \<Rightarrow> 'b queue_message list \<times> 'b memory_queue" where
  "mq_drain 0 q = ([], q)"
| "mq_drain (Suc n) q =
     (case mq_items q of
        [] \<Rightarrow> ([], q)
      | m # ms \<Rightarrow>
          let (out, q') = mq_drain n (q\<lparr>mq_items := ms, mq_inflight := insert (receipt_handle m) (mq_inflight q)\<rparr>)
          in (m # out, q'))"

text \<open>
  \<open>receive\<close>: with \<open>wait_seconds\<close> positive the first \<open>get\<close> waits, \<^const>\<open>None\<close> as long as the queue
  is empty and the timeout has not passed; one message is then taken whatever \<open>max_messages\<close> is.
\<close>

definition mq_receive ::
  "int \<Rightarrow> int \<Rightarrow> bool \<Rightarrow> 'b memory_queue \<Rightarrow> ('b queue_message list \<times> 'b memory_queue) option"
where
  "mq_receive max_messages wait_seconds timed_out q =
     (if wait_seconds \<le> 0 then Some (mq_drain (nat max_messages) q)
      else if mq_items q = [] then (if timed_out then Some ([], q) else None)
      else Some (mq_drain (Suc (nat (max_messages - 1))) q))"

definition mq_delete :: "string \<Rightarrow> 'b memory_queue \<Rightarrow> 'b memory_queue" where
  "mq_delete handle q = q\<lparr>mq_inflight := mq_inflight q - {handle}\<rparr>"

subsection \<open>It provides the interface\<close>

lemma mq_drain_split:
  "fst (mq_drain n q) = take n (mq_items q) \<and> mq_items (snd (mq_drain n q)) = drop n (mq_items q)"
  by (induction n q rule: mq_drain.induct) (simp_all add: case_prod_beta Let_def split: list.split)

lemma mq_drain_take [simp]: "fst (mq_drain n q) = take n (mq_items q)"
  and mq_drain_drop [simp]: "mq_items (snd (mq_drain n q)) = drop n (mq_items q)"
  using mq_drain_split by blast+

lemma mq_drain_inflight [simp]:
  "mq_inflight (snd (mq_drain n q)) = mq_inflight q \<union> receipt_handle ` set (take n (mq_items q))"
  by (induction n q rule: mq_drain.induct) (auto simp: case_prod_beta Let_def split: list.split)

lemma mq_drain_drawn [simp]: "mq_drawn (snd (mq_drain n q)) = mq_drawn q"
  by (induction n q rule: mq_drain.induct) (auto simp: case_prod_beta Let_def split: list.split)

declare mq_drain.simps [simp del]

lemma mq_drain_split_eq:
  assumes "mq_drain n q = (out, q')"
  shows "out @ mq_items q' = mq_items q \<and> mq_drawn q' = mq_drawn q \<and>
    mq_inflight q' = mq_inflight q \<union> receipt_handle ` set out"
  using mq_drain_take [of n q] mq_drain_drop [of n q] mq_drain_drawn [of n q] mq_drain_inflight [of n q]
  unfolding assms by simp

lemma mq_send_simps [simp]:
  "mq_items (mq_send fresh b q) = mq_items q @ [\<lparr>qm_body = b, receipt_handle = fresh (mq_drawn q)\<rparr>]"
  "mq_inflight (mq_send fresh b q) = mq_inflight q"
  "mq_drawn (mq_send fresh b q) = Suc (mq_drawn q)"
  by (simp_all add: mq_send_def)

lemma mq_delete_simps [simp]:
  "mq_items (mq_delete t q) = mq_items q"
  "mq_inflight (mq_delete t q) = mq_inflight q - {t}"
  "mq_drawn (mq_delete t q) = mq_drawn q"
  by (simp_all add: mq_delete_def)

lemma new_queue_simps [simp]:
  "mq_items new_queue = []" "mq_inflight new_queue = {}" "mq_drawn new_queue = 0"
  by (simp_all add: new_queue_def)

definition mq_pending :: "'b memory_queue \<Rightarrow> 'b list" where
  "mq_pending q = map qm_body (mq_items q)"

definition mq_take :: "nat \<Rightarrow> 'b memory_queue \<Rightarrow> 'b list \<times> 'b memory_queue" where
  "mq_take n q = (case mq_drain n q of (ms, q') \<Rightarrow> (map qm_body ms, q'))"

interpretation mem: message_queue "mq_send fresh" mq_take mq_pending for fresh
proof unfold_locales
  show "mq_pending (mq_send fresh b q) = mq_pending q @ [b]" for b q
    by (simp add: mq_pending_def)
  show "mq_pending q = fst (mq_take n q) @ mq_pending (snd (mq_take n q))" for q :: "'a memory_queue" and n
    by (simp add: mq_take_def mq_pending_def case_prod_beta flip: map_append)
  show "length (mq_pending q) \<le> n \<Longrightarrow> mq_pending (snd (mq_take n q)) = []" for q :: "'a memory_queue" and n
    by (simp add: mq_take_def mq_pending_def case_prod_beta)
qed

lemma mq_take_receive:
  "mq_receive (int n) 0 t q = Some r \<Longrightarrow> mq_take n q = (map qm_body (fst r), snd r)"
  by (auto simp: mq_receive_def mq_take_def case_prod_beta)

subsection \<open>Runs of the queue\<close>

datatype 'b queue_op = SendOp 'b | ReceiveOp int int bool | DeleteOp string

definition mq_op ::
  "(nat \<Rightarrow> string) \<Rightarrow> 'b queue_op \<Rightarrow> 'b memory_queue \<Rightarrow> 'b queue_message list \<times> 'b memory_queue"
where
  "mq_op fresh c q =
     (case c of
        SendOp b \<Rightarrow> ([], mq_send fresh b q)
      | ReceiveOp most wait timed_out \<Rightarrow>
          (case mq_receive most wait timed_out q of None \<Rightarrow> ([], q) | Some r \<Rightarrow> r)
      | DeleteOp t \<Rightarrow> ([], mq_delete t q))"

fun mq_run ::
  "(nat \<Rightarrow> string) \<Rightarrow> 'b queue_op list \<Rightarrow> 'b memory_queue \<Rightarrow> 'b queue_message list \<times> 'b memory_queue"
where
  "mq_run fresh [] q = ([], q)"
| "mq_run fresh (c # cs) q =
     (let (out, q1) = mq_op fresh c q; (outs, q2) = mq_run fresh cs q1 in (out @ outs, q2))"

fun sent_by :: "(nat \<Rightarrow> string) \<Rightarrow> nat \<Rightarrow> 'b queue_op list \<Rightarrow> 'b queue_message list" where
  "sent_by fresh n [] = []"
| "sent_by fresh n (SendOp b # cs) = \<lparr>qm_body = b, receipt_handle = fresh n\<rparr> # sent_by fresh (Suc n) cs"
| "sent_by fresh n (ReceiveOp m w t # cs) = sent_by fresh n cs"
| "sent_by fresh n (DeleteOp h # cs) = sent_by fresh n cs"

definition is_delete :: "'b queue_op \<Rightarrow> bool" where
  "is_delete c = (case c of DeleteOp h \<Rightarrow> True | _ \<Rightarrow> False)"

lemma mq_receive_items:
  "mq_receive m w t q = Some (out, q') \<Longrightarrow> out @ mq_items q' = mq_items q \<and> mq_drawn q' = mq_drawn q"
  by (auto simp: mq_receive_def dest!: mq_drain_split_eq split: if_splits)

lemma mq_receive_inflight:
  "mq_receive m w t q = Some (out, q') \<Longrightarrow> mq_inflight q' = mq_inflight q \<union> receipt_handle ` set out"
  by (auto simp: mq_receive_def dest!: mq_drain_split_eq split: if_splits)

lemma mq_run_sent:
  "fst (mq_run fresh cs q) @ mq_items (snd (mq_run fresh cs q)) = mq_items q @ sent_by fresh (mq_drawn q) cs"
proof (induction cs arbitrary: q)
  case (Cons c cs)
  show ?case
  proof (cases c)
    case (ReceiveOp m w t)
    then show ?thesis
      using Cons.IH
      by (cases "mq_receive m w t q") (auto simp: mq_op_def case_prod_beta dest!: mq_receive_items)
  qed (use Cons.IH in \<open>simp_all add: mq_op_def case_prod_beta\<close>)
qed simp

text \<open>Deleting changes the set of handles in flight only.\<close>

definition same_items :: "'b memory_queue \<Rightarrow> 'b memory_queue \<Rightarrow> bool" where
  "same_items q q' \<longleftrightarrow> mq_items q = mq_items q' \<and> mq_drawn q = mq_drawn q'"

lemma mq_op_same_items:
  "same_items q q' \<Longrightarrow> \<not> is_delete c \<Longrightarrow>
     fst (mq_op fresh c q) = fst (mq_op fresh c q') \<and> same_items (snd (mq_op fresh c q)) (snd (mq_op fresh c q'))"
  by (cases c) (auto simp: same_items_def mq_op_def mq_receive_def is_delete_def)

lemma mq_run_same_items:
  "same_items q q' \<Longrightarrow> fst (mq_run fresh cs q) = fst (mq_run fresh (filter (\<lambda>c. \<not> is_delete c) cs) q')"
proof (induction cs arbitrary: q q')
  case (Cons c cs)
  show ?case
  proof (cases "is_delete c")
    case True
    then have "same_items (snd (mq_op fresh c q)) q'"
      using Cons.prems by (cases c) (auto simp: is_delete_def mq_op_def same_items_def)
    with True Cons.IH show ?thesis by (cases c) (auto simp: is_delete_def mq_op_def case_prod_beta)
  next
    case False
    with mq_op_same_items [OF Cons.prems, of c fresh] Cons.IH show ?thesis
      by (auto simp: case_prod_beta)
  qed
qed simp

subsection \<open>Properties\<close>

text \<open>
  The in-memory queue hands every message out once, in the order sent, and never again: what
  was received so far followed by what is queued is what was sent, and the deliveries are the
  same with and without \<open>delete\<close>.  A message that is received and not deleted is lost, where
  the protocol promises delivery at least once.
\<close>

theorem memory_queue_once_in_order:
  "fst (mq_run fresh cs new_queue) @ mq_items (snd (mq_run fresh cs new_queue)) = sent_by fresh 0 cs \<and>
   fst (mq_run fresh cs new_queue) = fst (mq_run fresh (filter (\<lambda>c. \<not> is_delete c) cs) new_queue)"
  using mq_run_sent [of fresh cs new_queue] mq_run_same_items [of new_queue new_queue fresh cs]
  by (simp add: same_items_def)

end
