(* ===== verification/Worker_Dispatch.thy ===== *)
theory Worker_Dispatch
  imports Worker_Messages Message_Queue Py_Text "HOL-Library.Multiset"
begin

text \<open>
  \<open>worker/runner.py\<close> and \<open>worker/__main__.py\<close>: what the worker does with one queue message, and
  the loop that receives batches and deletes the messages that succeeded.  The job behind each
  kind of message is a parameter over a state \<open>'w\<close> of the outside world.
\<close>

subsection \<open>One message\<close>

record turn_outcome =
  ot_final_text :: pystr
  ot_session_key :: string

text \<open>A job returns a bool or raises (\<^const>\<open>None\<close>); a turn returns its outcome or raises.\<close>

type_synonym ('m, 'w) job = "'m \<Rightarrow> 'w \<Rightarrow> bool option \<times> 'w"

record 'w handlers =
  evolve_gepa_fn :: "(gepa_message, 'w) job"
  evolve_fn :: "(evolve_message, 'w) job"
  embed_fn :: "(embed_message, 'w) job"
  summarize_fn :: "(summarize_message, 'w) job"
  compact_fn :: "(slice_message, 'w) job"
  classify_fn :: "(classify_message, 'w) job"
  gdpr_delete_fn :: "(gdpr_message, 'w) job"
  audit_ship_fn :: "(audit_ship_message, 'w) job"
  curate_fn :: "(slice_message, 'w) job"
  run_turn_fn :: "cron_message \<Rightarrow> 'w \<Rightarrow> turn_outcome option \<times> 'w"
  deliver_fn :: "json \<Rightarrow> pystr \<Rightarrow> string \<Rightarrow> 'w \<Rightarrow> unit option \<times> 'w"

text \<open>A parse failure counts as success; an exception of the job as failure.\<close>

definition run_job :: "('m, 'w) job \<Rightarrow> 'm option \<Rightarrow> 'w \<Rightarrow> bool \<times> 'w" where
  "run_job job parsed w =
     (case parsed of
        None \<Rightarrow> (True, w)
      | Some m \<Rightarrow> (case job m w of (None, w') \<Rightarrow> (False, w') | (Some ok, w') \<Rightarrow> (ok, w')))"

definition run_cron :: "'w handlers \<Rightarrow> cron_message option \<Rightarrow> 'w \<Rightarrow> bool \<times> 'w" where
  "run_cron h parsed w =
     (case parsed of
        None \<Rightarrow> (True, w)
      | Some m \<Rightarrow>
          (case run_turn_fn h m w of
             (None, w1) \<Rightarrow> (False, w1)
           | (Some outcome, w1) \<Rightarrow>
               (if truthy (cm_webhook_url m)
                then (True, snd (deliver_fn h (JObj [(''platform'', JStr ''webhook''), (''url'', cm_webhook_url m)])
                       (ot_final_text outcome) (ot_session_key outcome) w1))
                else (True, w1))))"

definition dispatch_message :: "'w handlers \<Rightarrow> body \<Rightarrow> 'w \<Rightarrow> bool \<times> 'w" where
  "dispatch_message h raw w =
     (if has_kind EVOLVE_GEPA_KIND raw then run_job (evolve_gepa_fn h) (gepa_from_json raw) w
      else if has_kind EVOLVE_KIND raw then run_job (evolve_fn h) (evolve_from_json raw) w
      else if has_kind EMBED_KIND raw then run_job (embed_fn h) (embed_from_json raw) w
      else if has_kind SUMMARIZE_KIND raw then run_job (summarize_fn h) (summarize_from_json raw) w
      else if has_kind COMPACT_KIND raw then run_job (compact_fn h) (slice_from_json raw) w
      else if has_kind CLASSIFY_KIND raw then run_job (classify_fn h) (classify_from_json raw) w
      else if has_kind GDPR_DELETE_KIND raw then run_job (gdpr_delete_fn h) (gdpr_from_json raw) w
      else if has_kind AUDIT_SHIP_KIND raw then run_job (audit_ship_fn h) (audit_ship_from_json raw) w
      else if has_kind CURATE_KIND raw then run_job (curate_fn h) (slice_from_json raw) w
      else run_cron h (cron_from_json raw) w)"

text \<open>The default runner of cron messages: the session key of their turn, and the call of \<open>run_turn\<close>.\<close>

definition cron_session_key :: "cron_message \<Rightarrow> string" where
  "cron_session_key m = ''cron-'' @ cm_job_id m @ ''-'' @ cm_scheduled_for m"

definition default_run_turn ::
  "(string \<Rightarrow> string \<Rightarrow> string \<Rightarrow> 'w \<Rightarrow> pystr option \<times> 'w) \<Rightarrow> cron_message \<Rightarrow> 'w \<Rightarrow> turn_outcome option \<times> 'w"
where
  "default_run_turn run_turn m w =
     (case run_turn (cron_session_key m) (cm_prompt m) (cm_user_id m) w of
        (None, w') \<Rightarrow> (None, w')
      | (Some out, w') \<Rightarrow> (Some \<lparr>ot_final_text = out, ot_session_key = cron_session_key m\<rparr>, w'))"

subsection \<open>The loop\<close>

text \<open>
  \<open>run_worker\<close> receives a batch when the one before is finished and runs its messages
  concurrently, so that they finish in any order; \<open>_process_one\<close> deletes a message when its
  dispatch returned true.  \<open>wk_acked\<close> and \<open>wk_failed\<close> record the messages that finished.
\<close>

definition POLL_BATCH :: int where "POLL_BATCH = 10"
definition POLL_WAIT_SECONDS :: int where "POLL_WAIT_SECONDS = 20"

record 'w worker =
  wk_queue :: "body memory_queue"
  wk_running :: "body queue_message list"
  wk_world :: 'w
  wk_acked :: "body queue_message list"
  wk_failed :: "body queue_message list"

definition process_one :: "'w handlers \<Rightarrow> body queue_message \<Rightarrow> 'w worker \<Rightarrow> 'w worker" where
  "process_one h raw s =
     (let (ok, w') = dispatch_message h (qm_body raw) (wk_world s) in
      if ok then s\<lparr>wk_queue := mq_delete (receipt_handle raw) (wk_queue s), wk_world := w',
          wk_running := remove1 raw (wk_running s), wk_acked := wk_acked s @ [raw]\<rparr>
      else s\<lparr>wk_world := w', wk_running := remove1 raw (wk_running s), wk_failed := wk_failed s @ [raw]\<rparr>)"

inductive worker_step :: "(nat \<Rightarrow> string) \<Rightarrow> 'w handlers \<Rightarrow> 'w worker \<Rightarrow> 'w worker \<Rightarrow> bool"
  for fresh h
where
  Enqueue: "worker_step fresh h s (s\<lparr>wk_queue := mq_send fresh b (wk_queue s)\<rparr>)"
| Poll: "wk_running s = [] \<Longrightarrow> mq_receive POLL_BATCH POLL_WAIT_SECONDS timed_out (wk_queue s) = Some (batch, q) \<Longrightarrow>
    worker_step fresh h s (s\<lparr>wk_queue := q, wk_running := batch\<rparr>)"
| Finish: "raw \<in> set (wk_running s) \<Longrightarrow> worker_step fresh h s (process_one h raw s)"

definition worker_start :: "'w \<Rightarrow> 'w worker" where
  "worker_start w = \<lparr>wk_queue = new_queue, wk_running = [], wk_world = w, wk_acked = [], wk_failed = []\<rparr>"

inductive_cases worker_stepE: "worker_step fresh h s s'"

subsection \<open>The invariant of the loop\<close>

definition wk_all :: "'w worker \<Rightarrow> body queue_message list" where
  "wk_all s = wk_acked s @ wk_failed s @ wk_running s @ mq_items (wk_queue s)"

definition wk_inv :: "(nat \<Rightarrow> string) \<Rightarrow> 'w worker \<Rightarrow> bool" where
  "wk_inv fresh s \<longleftrightarrow>
     mset (map receipt_handle (wk_all s)) = mset (map fresh [0..<mq_drawn (wk_queue s)]) \<and>
     mq_inflight (wk_queue s) = receipt_handle ` set (wk_failed s @ wk_running s)"

lemma wk_inv_distinct:
  assumes "inj fresh" and "wk_inv fresh s"
  shows "distinct (map receipt_handle (wk_all s))"
proof -
  have "distinct (map fresh [0..<mq_drawn (wk_queue s)])"
    using assms(1) by (auto simp: distinct_map intro: inj_on_subset)
  then show ?thesis
    using assms(2) mset_eq_imp_distinct_iff unfolding wk_inv_def by blast
qed

lemma wk_inv_start: "wk_inv fresh (worker_start w)"
  by (simp add: wk_inv_def wk_all_def worker_start_def)

lemma wk_inv_enqueue: "wk_inv fresh s \<Longrightarrow> wk_inv fresh (s\<lparr>wk_queue := mq_send fresh b (wk_queue s)\<rparr>)"
  by (simp add: wk_inv_def wk_all_def)

lemma wk_inv_poll:
  assumes "wk_running s = []" and "mq_receive m t x (wk_queue s) = Some (batch, q)" and "wk_inv fresh s"
  shows "wk_inv fresh (s\<lparr>wk_queue := q, wk_running := batch\<rparr>)"
  using assms mq_receive_items [OF assms(2)] mq_receive_inflight [OF assms(2)]
  by (auto simp: wk_inv_def wk_all_def)

lemma wk_inv_finish:
  assumes "inj fresh" and "raw \<in> set (wk_running s)" and "wk_inv fresh s"
  shows "wk_inv fresh (process_one h raw s)"
proof -
  let ?s = "process_one h raw s"
  have m: "mset (wk_all ?s) = mset (wk_all s)"
    using assms(2) by (auto simp: process_one_def wk_all_def case_prod_beta)
  have dist: "distinct (map receipt_handle (wk_failed s @ wk_running s))"
    using wk_inv_distinct [OF assms(1,3)] by (auto simp: wk_all_def)
  then have rest: "receipt_handle ` set (remove1 raw (wk_running s)) = receipt_handle ` set (wk_running s) - {receipt_handle raw}"
    "receipt_handle ` set (wk_failed s) - {receipt_handle raw} = receipt_handle ` set (wk_failed s)"
    using assms(2) by (auto simp: distinct_map inj_on_def dest: notin_set_remove1)
  have "mset (map receipt_handle (wk_all ?s)) = mset (map receipt_handle (wk_all s))"
    using m by (metis mset_map)
  moreover have "mq_drawn (wk_queue ?s) = mq_drawn (wk_queue s)"
    by (simp add: process_one_def case_prod_beta)
  moreover have "mq_inflight (wk_queue ?s) = receipt_handle ` set (wk_failed ?s @ wk_running ?s)"
    using assms(3) rest imageI [OF assms(2), of receipt_handle]
    by (cases "fst (dispatch_message h (qm_body raw) (wk_world s))")
      (simp_all add: process_one_def case_prod_beta wk_inv_def image_Un Un_Diff, blast)
  ultimately show ?thesis
    using assms(3) by (simp add: wk_inv_def)
qed

lemma wk_inv_step: "worker_step fresh h s s' \<Longrightarrow> inj fresh \<Longrightarrow> wk_inv fresh s \<Longrightarrow> wk_inv fresh s'"
  by (induction rule: worker_step.induct) (auto intro: wk_inv_enqueue wk_inv_poll wk_inv_finish)

lemma wk_inv_reachable: "(worker_step fresh h)\<^sup>*\<^sup>* (worker_start w) s \<Longrightarrow> inj fresh \<Longrightarrow> wk_inv fresh s"
  by (induction rule: rtranclp_induct) (auto intro: wk_inv_start wk_inv_step)

subsection \<open>Properties\<close>

text \<open>
  Every message class reaches its own job with the values it was built from: the body a
  producer writes is parsed back exactly and no earlier test of the dispatch catches it.
  A cron message runs its turn, and only then, if it has a webhook, the delivery, whose
  failure does not make the message fail.
\<close>

theorem worker_routes_every_kind:
  "dispatch_message h (Some (gepa_to_json (g\<lparr>ge_kind := EVOLVE_GEPA_KIND\<rparr>))) w
     = run_job (evolve_gepa_fn h) (Some (g\<lparr>ge_kind := EVOLVE_GEPA_KIND\<rparr>)) w \<and>
   dispatch_message h (Some (evolve_to_json (e\<lparr>ev_kind := EVOLVE_KIND\<rparr>))) w
     = run_job (evolve_fn h) (Some (e\<lparr>ev_kind := EVOLVE_KIND\<rparr>)) w \<and>
   dispatch_message h (Some (embed_to_json (em\<lparr>em_kind := EMBED_KIND\<rparr>))) w
     = run_job (embed_fn h) (Some (em\<lparr>em_kind := EMBED_KIND\<rparr>)) w \<and>
   dispatch_message h (Some (summarize_to_json (su\<lparr>su_kind := SUMMARIZE_KIND\<rparr>))) w
     = run_job (summarize_fn h) (Some (su\<lparr>su_kind := SUMMARIZE_KIND\<rparr>)) w \<and>
   dispatch_message h (Some (slice_to_json (sl\<lparr>sm_kind := COMPACT_KIND\<rparr>))) w
     = run_job (compact_fn h) (Some (sl\<lparr>sm_kind := COMPACT_KIND\<rparr>)) w \<and>
   dispatch_message h (Some (classify_to_json (cl\<lparr>cl_kind := CLASSIFY_KIND\<rparr>))) w
     = run_job (classify_fn h) (Some (cl\<lparr>cl_kind := CLASSIFY_KIND\<rparr>)) w \<and>
   dispatch_message h (Some (gdpr_to_json (gd\<lparr>gd_kind := GDPR_DELETE_KIND\<rparr>))) w
     = run_job (gdpr_delete_fn h) (Some (gd\<lparr>gd_kind := GDPR_DELETE_KIND\<rparr>)) w \<and>
   dispatch_message h (Some (audit_ship_to_json (a\<lparr>as_kind := AUDIT_SHIP_KIND\<rparr>))) w
     = run_job (audit_ship_fn h) (Some (a\<lparr>as_kind := AUDIT_SHIP_KIND\<rparr>)) w \<and>
   dispatch_message h (Some (slice_to_json (sl\<lparr>sm_kind := CURATE_KIND\<rparr>))) w
     = run_job (curate_fn h) (Some (sl\<lparr>sm_kind := CURATE_KIND\<rparr>)) w \<and>
   dispatch_message h (Some (cron_to_json c)) w = run_cron h (Some c) w"
  by (simp add: dispatch_message_def kind_of_written read_back EVOLVE_GEPA_KIND_def EVOLVE_KIND_def
      EMBED_KIND_def SUMMARIZE_KIND_def COMPACT_KIND_def CLASSIFY_KIND_def GDPR_DELETE_KIND_def
      AUDIT_SHIP_KIND_def CURATE_KIND_def)

text \<open>
  C18. On the in-memory queue every message ever sent is, exactly once, queued, running, acked or
  failed.  A message that failed is dispatched no second time: it stays in flight for ever,
  although the worker leaves it in the queue to be delivered again.
\<close>

theorem worker_accounts_for_every_message:
  assumes "inj fresh" and "(worker_step fresh h)\<^sup>*\<^sup>* (worker_start w) s"
  shows "mset (map receipt_handle (wk_acked s @ wk_failed s @ wk_running s @ mq_items (wk_queue s)))
       = mset (map fresh [0..<mq_drawn (wk_queue s)]) \<and>
     distinct (map receipt_handle (wk_acked s @ wk_failed s @ wk_running s @ mq_items (wk_queue s))) \<and>
     mq_inflight (wk_queue s) = receipt_handle ` set (wk_failed s @ wk_running s)"
  using wk_inv_reachable [OF assms(2,1)] wk_inv_distinct [OF assms(1)]
  unfolding wk_inv_def wk_all_def by blast

definition quiet_handlers :: "nat handlers" where
  "quiet_handlers =
     \<lparr>evolve_gepa_fn = \<lambda>m w. (Some True, w), evolve_fn = \<lambda>m w. (Some True, w),
      embed_fn = \<lambda>m w. (Some False, w), summarize_fn = \<lambda>m w. (Some True, w),
      compact_fn = \<lambda>m w. (Some True, w), classify_fn = \<lambda>m w. (Some True, w),
      gdpr_delete_fn = \<lambda>m w. (Some True, w), audit_ship_fn = \<lambda>m w. (Some True, w),
      curate_fn = \<lambda>m w. (Some True, w), run_turn_fn = \<lambda>m w. (None, Suc w),
      deliver_fn = \<lambda>sp txt k w. (Some (), w)\<rparr>"

text \<open>A cron turn that raises: its message is received once, fails, and stays in flight.\<close>

theorem worker_accounts_for_every_message_witness:
  "\<exists>s. (worker_step (\<lambda>n. replicate n CHR ''a'') quiet_handlers)\<^sup>*\<^sup>* (worker_start 0) s \<and>
     wk_world s = 1 \<and> mq_items (wk_queue s) = [] \<and> wk_running s = [] \<and>
     mq_inflight (wk_queue s) = receipt_handle ` set (wk_failed s) \<and> length (wk_failed s) = 1"
proof -
  let ?f = "\<lambda>n. replicate n CHR ''a''"
  let ?m = "\<lparr>cm_job_id = ''j'', cm_scope = ''user'', cm_slug = ''s'', cm_user_id = ''u'', cm_prompt = ''p'',
     cm_webhook_url = JNull, cm_scheduled_for = ''t''\<rparr>"
  let ?raw = "\<lparr>qm_body = Some (cron_to_json ?m), receipt_handle = []\<rparr>"
  let ?s1 = "(worker_start (0::nat))\<lparr>wk_queue := mq_send ?f (Some (cron_to_json ?m)) (wk_queue (worker_start (0::nat)))\<rparr>"
  let ?q = "snd (mq_drain (Suc 9) (wk_queue ?s1))"
  let ?s2 = "?s1\<lparr>wk_queue := ?q, wk_running := [?raw]\<rparr>"
  let ?s3 = "process_one quiet_handlers ?raw ?s2"
  have inj: "inj ?f"
    by (auto intro!: injI dest: arg_cong [of _ _ length])
  have "mq_drain (Suc 9) (wk_queue ?s1) = ([?raw], ?q)"
    by (rule prod_eqI) (simp_all add: worker_start_def)
  then have "mq_receive POLL_BATCH POLL_WAIT_SECONDS False (wk_queue ?s1) = Some ([?raw], ?q)"
    by (simp add: mq_receive_def POLL_BATCH_def POLL_WAIT_SECONDS_def worker_start_def)
  then have "worker_step ?f quiet_handlers ?s1 ?s2"
    by (intro Poll) (simp_all add: worker_start_def)
  moreover have "worker_step ?f quiet_handlers (worker_start 0) ?s1"
    by (rule Enqueue)
  moreover have "worker_step ?f quiet_handlers ?s2 ?s3"
    by (rule Finish) simp
  ultimately have "(worker_step ?f quiet_handlers)\<^sup>*\<^sup>* (worker_start 0) ?s3"
    by (meson r_into_rtranclp rtranclp_trans)
  moreover note worker_accounts_for_every_message [OF inj this]
  moreover have "dispatch_message quiet_handlers (qm_body ?raw) 0 = (False, 1)"
    by (simp add: dispatch_message_def kind_of_written read_back run_cron_def quiet_handlers_def)
  then have "wk_world ?s3 = 1" "mq_items (wk_queue ?s3) = []" "wk_running ?s3 = []" "wk_failed ?s3 = [?raw]"
    by (simp_all add: process_one_def worker_start_def)
  ultimately show ?thesis
    by (intro exI [of _ ?s3]) simp
qed

end
