(* ===== verification/Error_Kinds.thy ===== *)
theory Error_Kinds
  imports Py_Text Py_Values
begin

text \<open>
  \<open>agent/errors.py\<close>: exceptions of the SDKs sorted into kinds.  An exception is what the code
  reads of it: which of the named classes it is an instance of, its \<open>code\<close> and \<open>message\<close>
  attributes, its \<open>str()\<close> and the name of its class.
\<close>

datatype sdk_class =
    BadRequestError
  | RateLimitError
  | APIConnectionError
  | InternalServerError
  | ContentFilterFinishReasonError
  | ModelBehaviorError
  | ToolTimeoutError
  | MCPToolCancellationError

record raised =
  ex_instance_of :: "sdk_class list"
  ex_code :: "string option"
  ex_message :: "string option"
  ex_str :: string
  ex_class_name :: string

datatype failure_kind = RateLimit | ContextOverflow | ModelRefusal | ToolError | Network | UnknownError

fun kind_text :: "failure_kind \<Rightarrow> string" where
  "kind_text RateLimit = ''rate_limit''"
| "kind_text ContextOverflow = ''context_overflow''"
| "kind_text ModelRefusal = ''model_refusal''"
| "kind_text ToolError = ''tool_error''"
| "kind_text Network = ''network''"
| "kind_text UnknownError = ''unknown''"

text \<open>\<open>str.lower\<close> on Latin-1 characters.\<close>

definition py_lower_char :: "char \<Rightarrow> char" where
  "py_lower_char c =
     (let n = of_char c :: nat in
      if 65 \<le> n \<and> n \<le> 90 \<or> 192 \<le> n \<and> n \<le> 222 \<and> n \<noteq> 215 then char_of (n + 32) else c)"

definition py_lower :: "string \<Rightarrow> string" where
  "py_lower s = map py_lower_char s"

text \<open>\<open>getattr(exc, name, None) or other\<close>.\<close>

definition or_else :: "string option \<Rightarrow> string \<Rightarrow> string" where
  "or_else v other = (case v of None \<Rightarrow> other | Some s \<Rightarrow> if s = [] then other else s)"

definition CONTEXT_OVERFLOW_CODES :: "string list" where
  "CONTEXT_OVERFLOW_CODES = [''context_length_exceeded'', ''string_above_max_length'']"

definition CONTEXT_OVERFLOW_MARKERS :: "string list" where
  "CONTEXT_OVERFLOW_MARKERS = [''context length'', ''context_length'', ''maximum context'', ''too long for'']"

definition is_context_overflow :: "raised \<Rightarrow> bool" where
  "is_context_overflow e \<longleftrightarrow>
     py_lower (or_else (ex_code e) []) \<in> set CONTEXT_OVERFLOW_CODES \<or>
     list_ex (\<lambda>marker. contains (codes marker) (codes (py_lower (or_else (ex_message e) (ex_str e)))))
       CONTEXT_OVERFLOW_MARKERS"

definition DISPATCH :: "(sdk_class list \<times> failure_kind) list" where
  "DISPATCH =
     [([RateLimitError], RateLimit),
      ([APIConnectionError, InternalServerError], Network),
      ([ContentFilterFinishReasonError, ModelBehaviorError], ModelRefusal),
      ([ToolTimeoutError, MCPToolCancellationError], ToolError)]"

definition kind_of :: "raised \<Rightarrow> failure_kind" where
  "kind_of e =
     (if BadRequestError \<in> set (ex_instance_of e)
      then (if is_context_overflow e then ContextOverflow else UnknownError)
      else (case find (\<lambda>(cs, k). list_ex (\<lambda>c. c \<in> set (ex_instance_of e)) cs) DISPATCH of
          None \<Rightarrow> UnknownError
        | Some (cs, k) \<Rightarrow> k))"

record classified =
  ce_kind :: failure_kind
  ce_retryable :: bool
  ce_summary :: string

definition summarize :: "raised \<Rightarrow> string" where
  "summarize e =
     take 200 (or_else (ex_message e) (if ex_str e = [] then ex_class_name e else ex_str e))"

definition classify :: "raised \<Rightarrow> classified" where
  "classify e = \<lparr>ce_kind = kind_of e, ce_retryable = kind_of e \<in> {RateLimit, Network}, ce_summary = summarize e\<rparr>"

lemma classify_simps [simp]:
  "ce_kind (classify e) = kind_of e" "ce_summary (classify e) = summarize e"
  by (simp_all add: classify_def)

end
