(* ===== verification/Cron_Jobs.thy ===== *)
theory Cron_Jobs
  imports Error_Kinds
begin

text \<open>
  The cron jobs of the local command line: \<open>JobStore\<close> of \<open>cron/jobs.py\<close>, whose file is the list
  of its jobs, and the firing of a job with its strikes, \<open>make_fire\<close> of \<open>cron/scheduler.py\<close>.
\<close>

subsection \<open>The store\<close>

type_synonym delivery_spec = "(string \<times> json) list"

record job =
  jb_id :: string
  jb_schedule :: string
  jb_prompt :: string
  jb_delivery :: delivery_spec
  jb_enabled :: bool
  jb_disabled_reason :: "string option"

definition job_get :: "string \<Rightarrow> job list \<Rightarrow> job option" where
  "job_get i jobs = find (\<lambda>j. jb_id j = i) jobs"

text \<open>\<open>fresh\<close> is \<open>uuid.uuid4().hex[:12]\<close>.\<close>

definition job_add :: "string \<Rightarrow> string \<Rightarrow> string \<Rightarrow> delivery_spec \<Rightarrow> bool \<Rightarrow> job list \<Rightarrow> job \<times> job list" where
  "job_add fresh schedule prompt spec enabled jobs =
     (let j = \<lparr>jb_id = fresh, jb_schedule = schedule, jb_prompt = prompt, jb_delivery = spec,
        jb_enabled = enabled, jb_disabled_reason = None\<rparr> in (j, jobs @ [j]))"

definition job_remove :: "string \<Rightarrow> job list \<Rightarrow> bool \<times> job list" where
  "job_remove i jobs =
     (let after = filter (\<lambda>j. jb_id j \<noteq> i) jobs in
      if length after = length jobs then (False, jobs) else (True, after))"

text \<open>\<open>update_first\<close> is the loop that changes the first job of an id and returns.\<close>

fun update_first :: "string \<Rightarrow> (job \<Rightarrow> job) \<Rightarrow> job list \<Rightarrow> job list option" where
  "update_first i f [] = None"
| "update_first i f (j # js) =
     (if jb_id j = i then Some (f j # js) else map_option (Cons j) (update_first i f js))"

definition enable_job :: "bool \<Rightarrow> job \<Rightarrow> job" where
  "enable_job enabled j =
     j\<lparr>jb_enabled := enabled, jb_disabled_reason := (if enabled then None else jb_disabled_reason j)\<rparr>"

text \<open>The file is written only when the flag changes or a reason is wiped.\<close>

definition job_set_enabled :: "string \<Rightarrow> bool \<Rightarrow> job list \<Rightarrow> bool \<times> job list" where
  "job_set_enabled i enabled jobs =
     (case job_get i jobs of
        None \<Rightarrow> (False, jobs)
      | Some j \<Rightarrow>
          (if jb_enabled j \<noteq> enabled \<or> enabled \<and> jb_disabled_reason j \<notin> {None, Some []}
           then (case update_first i (enable_job enabled) jobs of None \<Rightarrow> (True, jobs) | Some js \<Rightarrow> (True, js))
           else (True, jobs)))"

definition job_disable_with_reason :: "string \<Rightarrow> string \<Rightarrow> job list \<Rightarrow> bool \<times> job list" where
  "job_disable_with_reason i reason jobs =
     (case update_first i (\<lambda>j. j\<lparr>jb_enabled := False, jb_disabled_reason := Some reason\<rparr>) jobs of
        None \<Rightarrow> (False, jobs)
      | Some js \<Rightarrow> (True, js))"

lemma update_first_None: "update_first i f jobs = None \<longleftrightarrow> i \<notin> jb_id ` set jobs"
  by (induction jobs) auto

lemma update_first_distinct:
  "distinct (map jb_id jobs) \<Longrightarrow> update_first i f jobs = Some js \<Longrightarrow>
     js = map (\<lambda>j. if jb_id j = i then f j else j) jobs"
proof (induction jobs arbitrary: js)
  case (Cons j jobs)
  then show ?case
    by (auto simp: image_iff split: if_splits intro!: map_idI [symmetric])
qed simp

subsection \<open>Firing\<close>

definition REFUSAL_STRIKE_LIMIT :: nat where "REFUSAL_STRIKE_LIMIT = 3"

text \<open>
  What a firing leaves behind: the strikes of the process, the store, and the texts handed to
  \<open>deliver\<close> with the session they belong to.  \<open>sent spec txt sid\<close> is the exception \<open>deliver\<close>
  raises, if any.
\<close>

record fire_state =
  fs_strikes :: "(string \<times> nat) list"
  fs_store :: "job list"
  fs_delivered :: "(delivery_spec \<times> pystr \<times> string) list"
  fs_ended :: "string list"

text \<open>\<open>deliver\<close> looks the platform up; a platform that cannot be hashed raises \<open>TypeError\<close>.\<close>

definition unhashable :: "string \<Rightarrow> raised" where
  "unhashable type_name = \<lparr>ex_instance_of = [], ex_code = None, ex_message = None,
     ex_str = ''unhashable type: '' @ repr_str type_name, ex_class_name = ''TypeError''\<rparr>"

definition deliver ::
  "(delivery_spec \<Rightarrow> pystr \<Rightarrow> string \<Rightarrow> raised option) \<Rightarrow> delivery_spec \<Rightarrow> pystr \<Rightarrow> string \<Rightarrow> raised option"
where
  "deliver webhook sp txt sid =
     (case (case map_of sp ''platform'' of None \<Rightarrow> JStr ''log'' | Some v \<Rightarrow> v) of
        JStr p \<Rightarrow> if p = ''webhook'' then webhook sp txt sid else None
      | JArr xs \<Rightarrow> Some (unhashable ''list'')
      | JObj kvs \<Rightarrow> Some (unhashable ''dict'')
      | _ \<Rightarrow> None)"

definition dict_pop :: "'k \<Rightarrow> ('k \<times> 'v) list \<Rightarrow> ('k \<times> 'v) list" where
  "dict_pop k d = filter (\<lambda>kv. fst kv \<noteq> k) d"

definition strike :: "string \<Rightarrow> fire_state \<Rightarrow> fire_state" where
  "strike i st =
     (let n = (case dict_get (fs_strikes st) i of None \<Rightarrow> 0 | Some n \<Rightarrow> n) + 1;
          st1 = st\<lparr>fs_strikes := dict_set i n (fs_strikes st)\<rparr>
      in if n \<ge> REFUSAL_STRIKE_LIMIT
         then st1\<lparr>fs_store := snd (job_disable_with_reason i
                (''auto-disabled: '' @ digits n @ '' model refusals'') (fs_store st1)),
              fs_strikes := dict_pop i (fs_strikes st1)\<rparr>
         else st1)"

text \<open>The text of a failure opens with the code point U+26A0.\<close>

definition failure_text :: "job \<Rightarrow> raised \<Rightarrow> pystr" where
  "failure_text j e =
     9888 # codes ('' cron job '' @ jb_id j @ '' failed ('' @ kind_text (kind_of e) @ ''): '' @ summarize e)"

definition fire_failed ::
  "(delivery_spec \<Rightarrow> pystr \<Rightarrow> string \<Rightarrow> raised option) \<Rightarrow> job \<Rightarrow> string \<Rightarrow> raised \<Rightarrow> fire_state
     \<Rightarrow> raised option \<times> fire_state"
where
  "fire_failed sent j sid e st =
     (let st1 = (if kind_of e = ModelRefusal then strike (jb_id j) st
                 else st\<lparr>fs_strikes := dict_pop (jb_id j) (fs_strikes st)\<rparr>)
      in (sent (jb_delivery j) (failure_text j e) sid,
          st1\<lparr>fs_delivered := fs_delivered st1 @ [(jb_delivery j, failure_text j e, sid)],
              fs_ended := fs_ended st1 @ [sid]\<rparr>))"

text \<open>\<open>fire\<close>: the run of the agent gives a text or an exception.  The result is what it raises.\<close>

definition fire ::
  "(delivery_spec \<Rightarrow> pystr \<Rightarrow> string \<Rightarrow> raised option) \<Rightarrow> job \<Rightarrow> string \<Rightarrow> raised + pystr \<Rightarrow> fire_state
     \<Rightarrow> raised option \<times> fire_state"
where
  "fire sent j sid run st =
     (case run of
        Inl e \<Rightarrow> fire_failed sent j sid e st
      | Inr out \<Rightarrow>
          (let st1 = st\<lparr>fs_strikes := dict_pop (jb_id j) (fs_strikes st),
                 fs_delivered := fs_delivered st @ [(jb_delivery j, out, sid)]\<rparr>
           in case sent (jb_delivery j) out sid of
                None \<Rightarrow> (None, st1\<lparr>fs_ended := fs_ended st1 @ [sid]\<rparr>)
              | Some e \<Rightarrow> fire_failed sent j sid e st1))"

text \<open>The jobs registered at start-up: enabled ones with a schedule that parses.\<close>

definition schedule_jobs :: "(string \<Rightarrow> 't option) \<Rightarrow> job list \<Rightarrow> (job \<times> 't) list" where
  "schedule_jobs parse jobs =
     concat (map (\<lambda>j. if \<not> jb_enabled j then []
       else case parse (jb_schedule j) of None \<Rightarrow> [] | Some t \<Rightarrow> [(j, t)]) jobs)"

subsection \<open>Three strikes\<close>

text \<open>A run of firings of one job, each with its session and the outcome of its agent.\<close>

fun fire_all ::
  "(delivery_spec \<Rightarrow> pystr \<Rightarrow> string \<Rightarrow> raised option) \<Rightarrow> job \<Rightarrow> (string \<times> (raised + pystr)) list \<Rightarrow> fire_state \<Rightarrow> fire_state"
where
  "fire_all sent j [] st = st"
| "fire_all sent j ((sid, run) # runs) st = fire_all sent j runs (snd (fire sent j sid run st))"

definition refused :: "raised + pystr \<Rightarrow> bool" where
  "refused run = (case run of Inl e \<Rightarrow> kind_of e = ModelRefusal | Inr out \<Rightarrow> False)"

text \<open>Reference: the strikes left, and whether three consecutive refusals have occurred.\<close>

fun strikes_after :: "nat \<Rightarrow> bool list \<Rightarrow> nat" where
  "strikes_after n [] = n"
| "strikes_after n (r # rs) = strikes_after (if r then (n + 1) mod 3 else 0) rs"

definition three_in_a_row :: "bool list \<Rightarrow> bool" where
  "three_in_a_row rs \<longleftrightarrow> (\<exists>as bs. rs = as @ [True, True, True] @ bs)"

fun struck_out :: "nat \<Rightarrow> bool list \<Rightarrow> bool" where
  "struck_out n [] = False"
| "struck_out n (r # rs) = (r \<and> n = 2 \<or> struck_out (if r then (n + 1) mod 3 else 0) rs)"

definition strikes_of :: "job \<Rightarrow> fire_state \<Rightarrow> nat" where
  "strikes_of j st = (case dict_get (fs_strikes st) (jb_id j) of None \<Rightarrow> 0 | Some n \<Rightarrow> n)"

definition auto_disabled :: "job \<Rightarrow> fire_state \<Rightarrow> bool" where
  "auto_disabled j st \<longleftrightarrow>
     (\<exists>x \<in> set (fs_store st). jb_id x = jb_id j \<and> \<not> jb_enabled x \<and>
        jb_disabled_reason x = Some ''auto-disabled: 3 model refusals'')"

lemma map_of_dict_pop [simp]: "map_of (dict_pop k d) k = None"
  by (induction d) (auto simp: dict_pop_def)

lemma disable_auto:
  "i \<in> jb_id ` set jobs \<Longrightarrow>
     \<exists>x \<in> set (snd (job_disable_with_reason i reason jobs)).
        jb_id x = i \<and> \<not> jb_enabled x \<and> jb_disabled_reason x = Some reason"
proof (induction jobs)
  case (Cons j jobs)
  then show ?case
    by (cases "update_first i (\<lambda>j. j\<lparr>jb_enabled := False, jb_disabled_reason := Some reason\<rparr>) jobs")
      (auto simp: job_disable_with_reason_def update_first_None)
qed simp

lemma update_first_keeps_ids: "update_first i f jobs = Some js \<Longrightarrow> (\<And>x. jb_id (f x) = jb_id x) \<Longrightarrow> map jb_id js = map jb_id jobs"
  by (induction jobs arbitrary: js) (auto split: if_splits)

lemma disable_keeps_ids [simp]:
  "map jb_id (snd (job_disable_with_reason i reason jobs)) = map jb_id jobs"
  by (auto simp: job_disable_with_reason_def split: option.splits dest: update_first_keeps_ids)

lemma disable_keeps_id_set: "jb_id ` set (snd (job_disable_with_reason i reason jobs)) = jb_id ` set jobs"
  using disable_keeps_ids by (metis list.set_map)

lemma two_or_less: "(n::nat) < 3 \<Longrightarrow> n = 0 \<or> n = 1 \<or> n = 2"
  by auto

lemma digits_3: "digits 3 = ''3''"
  by code_simp

lemmas firing = fire_def fire_failed_def refused_def strikes_of_def strike_def Let_def
  REFUSAL_STRIKE_LIMIT_def dict_get_set digits_3

lemma fire_strikes:
  assumes "\<And>sp txt s. sent sp txt s = None" and "strikes_of j st < 3"
  shows "strikes_of j (snd (fire sent j sid run st)) = (if refused run then (strikes_of j st + 1) mod 3 else 0)"
  using assms two_or_less [OF assms(2)] by (auto simp: firing split: sum.splits option.splits)

lemma fire_store:
  assumes "\<And>sp txt s. sent sp txt s = None" and "strikes_of j st < 3"
  shows "fs_store (snd (fire sent j sid run st)) =
    (if refused run \<and> strikes_of j st = 2
     then snd (job_disable_with_reason (jb_id j) ''auto-disabled: 3 model refusals'' (fs_store st))
     else fs_store st)"
  using assms two_or_less [OF assms(2)] by (auto simp: firing split: sum.splits option.splits)

lemma fire_delivers:
  assumes "\<And>sp txt s. sent sp txt s = None"
  shows "length (fs_delivered (snd (fire sent j sid run st))) = Suc (length (fs_delivered st))"
  using assms by (auto simp: firing split: sum.splits option.splits)

lemma fire_auto_disabled:
  assumes "\<And>sp txt s. sent sp txt s = None" and "strikes_of j st < 3" and "jb_id j \<in> jb_id ` set (fs_store st)"
  shows "auto_disabled j (snd (fire sent j sid run st)) \<longleftrightarrow>
    auto_disabled j st \<or> refused run \<and> strikes_of j st = 2"
  using disable_auto [OF assms(3), of "''auto-disabled: 3 model refusals''"]
  by (auto simp: auto_disabled_def fire_store [OF assms(1,2)])

lemma fire_ids:
  assumes "\<And>sp txt s. sent sp txt s = None" and "strikes_of j st < 3"
  shows "jb_id ` set (fs_store (snd (fire sent j sid run st))) = jb_id ` set (fs_store st)"
  by (simp add: fire_store [OF assms] disable_keeps_id_set)

lemma three_in_a_row_Nil [simp]: "\<not> three_in_a_row []"
  by (simp add: three_in_a_row_def)

lemma three_in_a_row_Cons:
  "three_in_a_row (r # rs) \<longleftrightarrow> r \<and> (\<exists>bs. rs = True # True # bs) \<or> three_in_a_row rs"
  by (auto simp: three_in_a_row_def Cons_eq_append_conv)

lemma three_after_break:
  "n < 3 \<Longrightarrow> three_in_a_row (replicate n True @ False # rs) \<longleftrightarrow> three_in_a_row rs"
  by (auto dest!: two_or_less simp: three_in_a_row_Cons numeral_2_eq_2)

lemma struck_out_iff: "n < 3 \<Longrightarrow> struck_out n rs \<longleftrightarrow> three_in_a_row (replicate n True @ rs)"
proof (induction rs arbitrary: n)
  case Nil
  then show ?case
    by (auto dest!: two_or_less simp: three_in_a_row_Cons numeral_2_eq_2)
next
  case (Cons r rs)
  show ?case
  proof (cases r)
    case True
    then show ?thesis
      using Cons.IH [of "Suc n"] two_or_less [OF Cons.prems]
      by (auto simp: three_in_a_row_Cons numeral_2_eq_2)
  next
    case False
    then show ?thesis
      using Cons.IH [of 0] three_after_break [OF Cons.prems] by simp
  qed
qed

lemma fire_all_spec:
  assumes "\<And>sp txt s. sent sp txt s = None" and "strikes_of j st < 3" and "jb_id j \<in> jb_id ` set (fs_store st)"
  shows "(auto_disabled j (fire_all sent j runs st) \<longleftrightarrow>
      auto_disabled j st \<or> struck_out (strikes_of j st) (map (refused \<circ> snd) runs)) \<and>
    strikes_of j (fire_all sent j runs st) = strikes_after (strikes_of j st) (map (refused \<circ> snd) runs) \<and>
    length (fs_delivered (fire_all sent j runs st)) = length (fs_delivered st) + length runs"
  using assms(2,3)
proof (induction runs arbitrary: st)
  case (Cons r runs)
  obtain sid run where r: "r = (sid, run)" by (cases r)
  let ?st = "snd (fire sent j sid run st)"
  have "strikes_of j ?st < 3" "jb_id j \<in> jb_id ` set (fs_store ?st)"
    using Cons.prems by (simp_all add: fire_strikes [OF assms(1)] fire_ids [OF assms(1)])
  note IH = Cons.IH [OF this]
  show ?case
    using IH Cons.prems
    by (simp add: r fire_strikes [OF assms(1)] fire_auto_disabled [OF assms(1)] fire_delivers [OF assms(1)])
qed simp

subsection \<open>Properties\<close>

text \<open>
  A job is disabled, with the reason stamped into the store, exactly when three of its firings
  in a row were refused by the model; a success or another error resets the count.  The
  firings already registered go on: each of them runs and delivers all the same.
\<close>

theorem three_refusals_disable:
  assumes "\<And>sp txt s. sent sp txt s = None" and "strikes_of j st = 0" and "jb_id j \<in> jb_id ` set (fs_store st)"
    and "\<not> auto_disabled j st"
  shows "(auto_disabled j (fire_all sent j runs st) \<longleftrightarrow> three_in_a_row (map (refused \<circ> snd) runs)) \<and>
    length (fs_delivered (fire_all sent j runs st)) = length (fs_delivered st) + length runs"
  using fire_all_spec [of sent j st runs] assms struck_out_iff [of 0 "map (refused \<circ> snd) runs"] by simp

definition example_job :: job where
  "example_job = \<lparr>jb_id = ''j'', jb_schedule = ''@daily'', jb_prompt = ''p'',
     jb_delivery = [(''platform'', JStr ''log'')], jb_enabled = True, jb_disabled_reason = None\<rparr>"

definition refusal :: raised where
  "refusal = \<lparr>ex_instance_of = [ModelBehaviorError], ex_code = None, ex_message = None, ex_str = ''no'',
     ex_class_name = ''ModelBehaviorError''\<rparr>"

theorem three_refusals_disable_witness:
  "let st = \<lparr>fs_strikes = [], fs_store = [example_job], fs_delivered = [], fs_ended = []\<rparr> in
   auto_disabled example_job (fire_all (\<lambda>sp txt s. None) example_job
     [(''a'', Inl refusal), (''b'', Inl refusal), (''c'', Inl refusal), (''d'', Inr [])] st) \<and>
   \<not> auto_disabled example_job (fire_all (\<lambda>sp txt s. None) example_job
     [(''a'', Inl refusal), (''b'', Inl refusal), (''c'', Inr []), (''d'', Inl refusal)] st)"
proof -
  let ?st = "\<lparr>fs_strikes = [], fs_store = [example_job], fs_delivered = [], fs_ended = []\<rparr>"
  have r: "refused (Inl refusal)" "\<not> refused (Inr [])"
    by (simp_all add: refused_def kind_of_def refusal_def DISPATCH_def)
  have "strikes_of example_job ?st = 0" "jb_id example_job \<in> jb_id ` set (fs_store ?st)"
    "\<not> auto_disabled example_job ?st"
    by (simp_all add: strikes_of_def auto_disabled_def example_job_def)
  note spec = three_refusals_disable [where sent = "\<lambda>sp txt s. None", OF refl this]
  show ?thesis
    unfolding Let_def by (simp only: spec [THEN conjunct1]) (simp add: r three_in_a_row_Cons)
qed

end
