(* ===== verification/Scheduler_Tick.thy ===== *)
theory Scheduler_Tick
  imports Cron_Repo Worker_Messages Message_Queue Cost_Budget Uuid_Text
begin

text \<open>
  The cloud scheduler: schedules and fan-out of \<open>cron/scheduler.py\<close>, \<open>repositories/user_repo.py\<close>
  and \<open>scheduler/tick.py\<close>.  Times are microseconds since 1970 in UTC.  APScheduler's crontab
  parser (\<open>crontab\<close>, \<^const>\<open>None\<close> for \<open>ValueError\<close>) and \<open>get_next_fire_time\<close> (\<open>next_fire\<close>) are
  parameters.
\<close>

subsection \<open>Schedules\<close>

definition ALIASES :: "(string \<times> string) list" where
  "ALIASES = [(''@minutely'', ''* * * * *''), (''@hourly'', ''0 * * * *''), (''@daily'', ''0 0 * * *''),
     (''@weekly'', ''0 0 * * 0'')]"

definition parse_schedule :: "(string \<Rightarrow> 't option) \<Rightarrow> string \<Rightarrow> 't option" where
  "parse_schedule crontab schedule =
     (let s = py_strip schedule in
      case s of
        CHR ''@'' # _ \<Rightarrow> (case map_of ALIASES s of None \<Rightarrow> None | Some e \<Rightarrow> crontab e)
      | _ \<Rightarrow> crontab s)"

text \<open>\<^const>\<open>None\<close> where the code raises \<open>ValueError\<close>.\<close>

definition is_due ::
  "(string \<Rightarrow> 't option) \<Rightarrow> ('t \<Rightarrow> int option \<Rightarrow> int \<Rightarrow> int option) \<Rightarrow> string \<Rightarrow> int option \<Rightarrow> int \<Rightarrow> bool option"
where
  "is_due crontab next_fire expr last_fired now =
     (case parse_schedule crontab expr of
        None \<Rightarrow> None
      | Some trigger \<Rightarrow> map_option (\<lambda>t. t \<le> now) (next_fire trigger last_fired now))"

subsection \<open>Messages\<close>

text \<open>\<open>datetime.isoformat()\<close> of a moment in UTC, from 1970 on.\<close>

definition pad6 :: "nat \<Rightarrow> string" where
  "pad6 n = (let s = digits n in replicate (6 - length s) CHR ''0'' @ s)"

definition isoformat :: "int \<Rightarrow> string" where
  "isoformat now =
     (let (y, m, d) = date_of_day (nat (now div 86400000000)); us = nat (now mod 86400000000) in
      digits y @ ''-'' @ pad2 m @ ''-'' @ pad2 d @ ''T'' @ pad2 (us div 3600000000) @ '':'' @
      pad2 (us div 60000000 mod 60) @ '':'' @ pad2 (us div 1000000 mod 60) @
      (if us mod 1000000 = 0 then [] else ''.'' @ pad6 (us mod 1000000)) @ ''+00:00'')"

definition url_json :: "string option \<Rightarrow> json" where
  "url_json u = (case u of None \<Rightarrow> JNull | Some s \<Rightarrow> JStr s)"

definition expand_official_to_user_messages ::
  "string \<Rightarrow> string \<Rightarrow> string \<Rightarrow> string option \<Rightarrow> string list \<Rightarrow> string \<Rightarrow> cron_message list"
where
  "expand_official_to_user_messages job s prompt url active_user_ids at =
     map (\<lambda>u. \<lparr>cm_job_id = job, cm_scope = ''official'', cm_slug = s, cm_user_id = u, cm_prompt = prompt,
       cm_webhook_url = url_json url, cm_scheduled_for = at\<rparr>) active_user_ids"

definition build_user_message ::
  "string \<Rightarrow> string \<Rightarrow> string \<Rightarrow> string \<Rightarrow> string option \<Rightarrow> string \<Rightarrow> cron_message"
where
  "build_user_message job s u prompt url at =
     \<lparr>cm_job_id = job, cm_scope = ''user'', cm_slug = s, cm_user_id = u, cm_prompt = prompt,
      cm_webhook_url = url_json url, cm_scheduled_for = at\<rparr>"

subsection \<open>Users\<close>

record user_identity =
  ui_id :: uuid
  ui_role :: string
  ui_created_at :: int

definition list_active_user_ids :: "user_identity list \<Rightarrow> string list" where
  "list_active_user_ids users =
     map (uuid_str \<circ> ui_id) (sort_key ui_created_at (filter (\<lambda>u. ui_role u = ''user'') users))"

subsection \<open>One tick\<close>

text \<open>The messages of a due row; \<^const>\<open>None\<close> is the user-scope row without a user, which is skipped.\<close>

definition row_messages :: "string list \<Rightarrow> int \<Rightarrow> cron_row \<Rightarrow> cron_message list option" where
  "row_messages active now r =
     (if scope r = UserScope then
        (case user_id r of
           None \<Rightarrow> None
         | Some u \<Rightarrow> Some [build_user_message (uuid_str (rid r)) (slug r) (uuid_str u) (cr_prompt r) (webhook_url r)
             (isoformat now)])
      else Some (expand_official_to_user_messages (uuid_str (rid r)) (slug r) (cr_prompt r) (webhook_url r)
        active (isoformat now)))"

text \<open>\<open>send\<close> gives \<^const>\<open>None\<close> where it raises; what was sent before stays sent.\<close>

fun send_all :: "(body \<Rightarrow> 'q \<Rightarrow> 'q option) \<Rightarrow> cron_message list \<Rightarrow> 'q \<Rightarrow> bool \<times> 'q" where
  "send_all send [] q = (True, q)"
| "send_all send (m # ms) q =
     (case send (Some (cron_to_json m)) q of None \<Rightarrow> (False, q) | Some q' \<Rightarrow> send_all send ms q')"

definition fire_row ::
  "schema_rev \<Rightarrow> (body \<Rightarrow> 'q \<Rightarrow> 'q option) \<Rightarrow> int \<Rightarrow> cron_row \<Rightarrow> cron_message list
     \<Rightarrow> cron_row list \<times> nat \<Rightarrow> 'q \<Rightarrow> (cron_row list \<times> nat) option \<times> 'q"
where
  "fire_row sch send now r ms st q =
     (case send_all send ms q of
        (False, q') \<Rightarrow> (None, q')
      | (True, q') \<Rightarrow>
          (case cron_mark_fired_admin sch (rid r) now (fst st) of
             Inl e \<Rightarrow> (None, q')
           | Inr (_, t') \<Rightarrow> (Some (t', snd st + length ms), q')))"

fun tick_rows ::
  "(string \<Rightarrow> 't option) \<Rightarrow> ('t \<Rightarrow> int option \<Rightarrow> int \<Rightarrow> int option) \<Rightarrow> schema_rev
     \<Rightarrow> (body \<Rightarrow> 'q \<Rightarrow> 'q option) \<Rightarrow> string list \<Rightarrow> int \<Rightarrow> cron_row list
     \<Rightarrow> cron_row list \<times> nat \<Rightarrow> 'q \<Rightarrow> (cron_row list \<times> nat) option \<times> 'q"
where
  "tick_rows crontab next_fire sch send active now [] st q = (Some st, q)"
| "tick_rows crontab next_fire sch send active now (r # rs) st q =
     (if is_due crontab next_fire (cron_expr r) (last_fired_at r) now \<noteq> Some True
      then tick_rows crontab next_fire sch send active now rs st q
      else (case row_messages active now r of
          None \<Rightarrow> tick_rows crontab next_fire sch send active now rs st q
        | Some ms \<Rightarrow>
            (case fire_row sch send now r ms st q of
               (None, q') \<Rightarrow> (None, q')
             | (Some st', q') \<Rightarrow> tick_rows crontab next_fire sch send active now rs st' q')))"

text \<open>The transaction commits at the end; an exception rolls the table back.\<close>

definition tick ::
  "(string \<Rightarrow> 't option) \<Rightarrow> ('t \<Rightarrow> int option \<Rightarrow> int \<Rightarrow> int option) \<Rightarrow> schema_rev
     \<Rightarrow> (body \<Rightarrow> 'q \<Rightarrow> 'q option) \<Rightarrow> user_identity list \<Rightarrow> int \<Rightarrow> cron_row list \<Rightarrow> 'q
     \<Rightarrow> nat option \<times> cron_row list \<times> 'q"
where
  "tick crontab next_fire sch send users now t q =
     (case tick_rows crontab next_fire sch send (list_active_user_ids users) now
             (cron_list_enabled_admin t) (t, 0) q of
        (None, q') \<Rightarrow> (None, t, q')
      | (Some (t', n), q') \<Rightarrow> (Some n, t', q'))"

subsection \<open>What a tick does\<close>

definition fired :: "int \<Rightarrow> cron_row \<Rightarrow> cron_row" where
  "fired now r = r\<lparr>last_fired_at := Some now, strikes := 0\<rparr>"

lemma fired_simps [simp]:
  "rid (fired now r) = rid r" "slug (fired now r) = slug r" "cron_expr (fired now r) = cron_expr r"
  "cr_enabled (fired now r) = cr_enabled r" "last_fired_at (fired now r) = Some now"
  "row_ok sch (fired now r) = row_ok sch r" "fired now (fired now r) = fired now r"
  by (simp_all add: fired_def row_ok_def scope_check_def scope_user_id_check_def
      scope_agent_id_check_def split: schema_rev.splits)

definition due_now ::
  "(string \<Rightarrow> 't option) \<Rightarrow> ('t \<Rightarrow> int option \<Rightarrow> int \<Rightarrow> int option) \<Rightarrow> int \<Rightarrow> cron_row \<Rightarrow> bool"
where
  "due_now crontab next_fire now r \<longleftrightarrow> is_due crontab next_fire (cron_expr r) (last_fired_at r) now = Some True"

definition messages_of :: "string list \<Rightarrow> int \<Rightarrow> cron_row list \<Rightarrow> cron_message list" where
  "messages_of active now rows = concat (map (\<lambda>r. the (row_messages active now r)) rows)"

definition mark_rows :: "int \<Rightarrow> cron_row list \<Rightarrow> cron_row list \<Rightarrow> cron_row list" where
  "mark_rows now rows t = map (\<lambda>r. if rid r \<in> rid ` set rows then fired now r else r) t"

lemma cron_table_ok_mark [simp]: "cron_table_ok sch (mark_rows now rows t) = cron_table_ok sch t"
proof -
  have "map rid (mark_rows now rows t) = map rid t" by (simp add: mark_rows_def)
  moreover have "list_all (row_ok sch) (mark_rows now rows t) = list_all (row_ok sch) t"
    by (induction t) (simp_all add: mark_rows_def)
  ultimately show ?thesis by (simp only: cron_table_ok_def)
qed

lemma mark_fired_admin_ok:
  "cron_table_ok sch t \<Longrightarrow> cron_mark_fired_admin sch (rid r) now t = Inr ((), mark_rows now [r] t)"
proof -
  assume "cron_table_ok sch t"
  moreover have "sql_update (\<lambda>x. rid x = rid r) (\<lambda>r. r\<lparr>last_fired_at := Some now, strikes := 0\<rparr>) t
      = mark_rows now [r] t"
    by (simp add: sql_update_def mark_rows_def fired_def)
  ultimately show ?thesis
    by (simp add: cron_mark_fired_admin_def cron_checked_def)
qed

lemma mark_rows_Cons: "mark_rows now rs (mark_rows now [r] t) = mark_rows now (r # rs) t"
  by (simp add: mark_rows_def)

lemma mark_rows_Nil [simp]: "mark_rows now [] t = t"
  by (simp add: mark_rows_def)

lemma send_all_total:
  "send_all (\<lambda>b q. Some (send b q)) ms q = (True, fold send (map (\<lambda>m. Some (cron_to_json m)) ms) q)"
  by (induction ms arbitrary: q) simp_all

lemma tick_rows_total:
  assumes "cron_table_ok sch t" and "\<forall>r \<in> set rs. row_messages active now r \<noteq> None"
  shows "tick_rows crontab next_fire sch (\<lambda>b q. Some (send b q)) active now rs (t, n) q =
    (let due = filter (due_now crontab next_fire now) rs; ms = messages_of active now due in
     (Some (mark_rows now due t, n + length ms), fold send (map (\<lambda>m. Some (cron_to_json m)) ms) q))"
  using assms
proof (induction rs arbitrary: t n q)
  case (Cons r rs)
  then obtain ms where ms: "row_messages active now r = Some ms" by auto
  show ?case
    using Cons.prems Cons.IH [of "mark_rows now [r] t"] Cons.IH [of t]
    by (auto simp: ms due_now_def fire_row_def send_all_total mark_fired_admin_ok Let_def messages_of_def
        mark_rows_Cons)
qed (simp add: Let_def messages_of_def)

lemma set_enabled_admin [simp]: "set (cron_list_enabled_admin t) = {r \<in> set t. cr_enabled r}"
  by (simp add: cron_list_enabled_admin_def)

lemma row_messages_defined: "row_ok sch r \<Longrightarrow> row_messages active now r \<noteq> None"
  by (auto simp: row_messages_def row_ok_def scope_user_id_check_def split: option.splits)

definition due_rows ::
  "(string \<Rightarrow> 't option) \<Rightarrow> ('t \<Rightarrow> int option \<Rightarrow> int \<Rightarrow> int option) \<Rightarrow> int \<Rightarrow> cron_row list \<Rightarrow> cron_row list"
where
  "due_rows crontab next_fire now t = filter (due_now crontab next_fire now) (cron_list_enabled_admin t)"

lemma tick_total:
  assumes "cron_table_ok sch t"
  shows "tick crontab next_fire sch (\<lambda>b q. Some (send b q)) users now t q =
    (let ms = messages_of (list_active_user_ids users) now (due_rows crontab next_fire now t) in
     (Some (length ms), mark_rows now (due_rows crontab next_fire now t) t,
      fold send (map (\<lambda>m. Some (cron_to_json m)) ms) q))"
proof -
  have "\<forall>r \<in> set (cron_list_enabled_admin t). row_messages (list_active_user_ids users) now r \<noteq> None"
    using assms row_messages_defined by (fastforce simp: cron_table_ok_def list_all_iff)
  then show ?thesis
    by (simp add: tick_def due_rows_def Let_def tick_rows_total [OF assms])
qed

text \<open>Rows are told apart by their id, so a tick stamps exactly the rows that are due.\<close>

lemma mark_due_rows:
  assumes "cron_table_ok sch t"
  shows "mark_rows now (due_rows crontab next_fire now t) t
    = map (\<lambda>r. if cr_enabled r \<and> due_now crontab next_fire now r then fired now r else r) t"
proof -
  have "distinct (map rid t)" using assms by (simp add: cron_table_ok_def)
  then have "rid r \<in> rid ` set (due_rows crontab next_fire now t) \<longleftrightarrow>
      cr_enabled r \<and> due_now crontab next_fire now r" if "r \<in> set t" for r
    using that by (auto simp: due_rows_def distinct_map inj_on_def)
  then show ?thesis by (simp add: mark_rows_def)
qed

subsection \<open>Properties\<close>

text \<open>
  C17. One tick sends exactly the messages of the enabled rows that are due, in the order of the
  scan, one for the owner of a user-scope row and one for every active user of an official
  row (whoever opted out of it); it stamps exactly those rows, and a second tick at the
  same moment sends nothing.  The assumption is APScheduler's: the next fire time after a
  previous one lies after it.
\<close>

theorem tick_fires_due_rows_once:
  assumes "cron_table_ok sch t"
    and "\<And>tr p m x. next_fire tr (Some p) m = Some x \<Longrightarrow> p \<le> m \<Longrightarrow> p < x"
  shows "\<exists>q' t'. tick crontab next_fire sch (\<lambda>b q. Some (mq_send fresh b q)) users now t q
       = (Some (length (messages_of (list_active_user_ids users) now (due_rows crontab next_fire now t))), t', q') \<and>
     mq_pending q' = mq_pending q @
       map (\<lambda>m. Some (cron_to_json m)) (messages_of (list_active_user_ids users) now (due_rows crontab next_fire now t)) \<and>
     t' = map (\<lambda>r. if cr_enabled r \<and> due_now crontab next_fire now r
            then r\<lparr>last_fired_at := Some now, strikes := 0\<rparr> else r) t \<and>
     tick crontab next_fire sch (\<lambda>b q. Some (mq_send fresh b q)) users now t' q' = (Some 0, t', q')"
proof -
  let ?due = "due_rows crontab next_fire now t"
  let ?t = "mark_rows now ?due t"
  have "\<not> due_now crontab next_fire now (fired now r)" for r
    using assms(2) by (fastforce simp: due_now_def is_due_def split: option.splits)
  then have none: "due_rows crontab next_fire now ?t = []"
    unfolding mark_due_rows [OF assms(1)] by (auto simp: due_rows_def filter_empty_conv split: if_splits)
  have "cron_table_ok sch ?t" using assms(1) by simp
  from tick_total [OF this, of crontab next_fire "mq_send fresh" users now] none
  have "tick crontab next_fire sch (\<lambda>b q. Some (mq_send fresh b q)) users now ?t q' = (Some 0, ?t, q')" for q'
    by (simp add: messages_of_def)
  then show ?thesis
    using tick_total [OF assms(1), of crontab next_fire "mq_send fresh" users now q]
    by (simp add: Let_def mem.pending_fold_send mark_due_rows [OF assms(1)] fired_def)
qed

text \<open>A trigger that fires at every full minute.\<close>

definition next_minute :: "int \<Rightarrow> int" where
  "next_minute x = - ((- x) div 60000000) * 60000000"

definition minutely :: "unit \<Rightarrow> int option \<Rightarrow> int \<Rightarrow> int option" where
  "minutely tr previous now = Some (next_minute (case previous of None \<Rightarrow> now | Some p \<Rightarrow> p + 1))"

lemma next_minute_ge: "x \<le> next_minute x"
  using div_mult_mod_eq [of "- x" 60000000] pos_mod_sign [of 60000000 "- x"]
  unfolding next_minute_def by linarith

definition minute_job :: cron_row where
  "minute_job = example_cron 1 7 ''j''"

lemma minute_job_ok: "cron_table_ok Schema_0001 [minute_job]"
  by (simp add: cron_table_ok_def minute_job_def example_cron_def cron_new_row_def row_ok_def scope_check_def
      scope_user_id_check_def)

theorem tick_fires_due_rows_once_witness:
  "\<exists>q' t'. tick (\<lambda>s. Some ()) minutely Schema_0001 (\<lambda>b q. Some (mq_send (\<lambda>n. ''r'') b q)) [] 60000000 [minute_job]
       new_queue = (Some 1, t', q') \<and> length (mq_pending q') = 1 \<and>
     tick (\<lambda>s. Some ()) minutely Schema_0001 (\<lambda>b q. Some (mq_send (\<lambda>n. ''r'') b q)) [] 60000000 t' q'
       = (Some 0, t', q')"
proof -
  have law: "minutely tr (Some p) m = Some x \<Longrightarrow> p \<le> m \<Longrightarrow> p < x" for tr p m x
    using next_minute_ge [of "p + 1"] by (auto simp: minutely_def)
  have "due_rows (\<lambda>s. Some ()) minutely 60000000 [minute_job] = [minute_job]"
    by (simp add: due_rows_def cron_list_enabled_admin_def minute_job_def example_cron_def cron_new_row_def
        due_now_def is_due_def parse_schedule_def py_strip_def py_isspace_def minutely_def next_minute_def Let_def)
  then have "length (messages_of (list_active_user_ids []) 60000000
      (due_rows (\<lambda>s. Some ()) minutely 60000000 [minute_job])) = 1"
    by (simp add: messages_of_def row_messages_def minute_job_def example_cron_def cron_new_row_def)
  moreover obtain q' t' where
    "tick (\<lambda>s. Some ()) minutely Schema_0001 (\<lambda>b q. Some (mq_send (\<lambda>n. ''r'') b q)) [] 60000000 [minute_job] new_queue
      = (Some (length (messages_of (list_active_user_ids []) 60000000
          (due_rows (\<lambda>s. Some ()) minutely 60000000 [minute_job]))), t', q')"
    "mq_pending q' = mq_pending new_queue @ map (\<lambda>m. Some (cron_to_json m))
       (messages_of (list_active_user_ids []) 60000000 (due_rows (\<lambda>s. Some ()) minutely 60000000 [minute_job]))"
    "tick (\<lambda>s. Some ()) minutely Schema_0001 (\<lambda>b q. Some (mq_send (\<lambda>n. ''r'') b q)) [] 60000000 t' q'
      = (Some 0, t', q')"
    using tick_fires_due_rows_once [where next_fire = minutely and crontab = "\<lambda>s. Some ()"
        and fresh = "\<lambda>n. ''r''" and users = "[]" and now = 60000000 and q = new_queue, OF minute_job_ok] law
    by blast
  moreover from this have "length (mq_pending q') = 1"
    using calculation(1) by (simp add: mq_pending_def)
  ultimately show ?thesis by simp
qed

text \<open>A run of ticks.\<close>

fun ticks ::
  "(string \<Rightarrow> 't option) \<Rightarrow> ('t \<Rightarrow> int option \<Rightarrow> int \<Rightarrow> int option) \<Rightarrow> schema_rev
     \<Rightarrow> (body \<Rightarrow> 'q \<Rightarrow> 'q option) \<Rightarrow> user_identity list \<Rightarrow> int list \<Rightarrow> cron_row list \<times> 'q \<Rightarrow> cron_row list \<times> 'q"
where
  "ticks crontab next_fire sch send users [] st = st"
| "ticks crontab next_fire sch send users (now # ms) (t, q) =
     ticks crontab next_fire sch send users ms (snd (tick crontab next_fire sch send users now t q))"

lemma messages_of_job:
  "m \<in> set (messages_of active now rows) \<Longrightarrow> list_all (row_ok sch) rows \<Longrightarrow>
     \<exists>r \<in> set rows. cm_job_id m = uuid_str (rid r)"
proof (induction rows)
  case (Cons r rows)
  obtain ms where "row_messages active now r = Some ms"
    using Cons.prems(2) row_messages_defined by fastforce
  moreover from this have "m \<in> set ms \<Longrightarrow> cm_job_id m = uuid_str (rid r)"
    by (auto simp: row_messages_def build_user_message_def expand_official_to_user_messages_def
        split: if_splits option.splits)
  ultimately show ?case using Cons by (auto simp: messages_of_def)
qed (simp add: messages_of_def)

lemma cron_to_json_eq: "cron_to_json m = cron_to_json m' \<longleftrightarrow> m = m'"
  by (metis cron_read_back option.inject)

lemma never_fired_not_due:
  assumes "\<And>tr m x. next_fire tr None m = Some x \<Longrightarrow> m \<le> x"
    and "\<And>tr. parse_schedule crontab (cron_expr r) = Some tr \<Longrightarrow> next_fire tr None now \<noteq> Some now"
    and "last_fired_at r = None"
  shows "\<not> due_now crontab next_fire now r"
  using assms by (fastforce simp: due_now_def is_due_def split: option.splits)

text \<open>
  A job that never fired does not fire until a tick falls exactly on one of its fire times:
  with APScheduler's rule that, without a previous fire time, the next one is not before
  the present, no tick at any other moment sends a message for the job or stamps it.
\<close>

theorem never_fired_job_starves:
  assumes "cron_table_ok sch t" and "r \<in> set t" and "last_fired_at r = None" and "\<forall>x \<in> set t. rid x < 2 ^ 128"
    and "\<And>tr m x. next_fire tr None m = Some x \<Longrightarrow> m \<le> x"
    and "\<And>tr now. parse_schedule crontab (cron_expr r) = Some tr \<Longrightarrow> now \<in> set moments \<Longrightarrow>
      next_fire tr None now \<noteq> Some now"
    and "ticks crontab next_fire sch (\<lambda>b q. Some (mq_send fresh b q)) users moments (t, q) = (t', q')"
  shows "r \<in> set t' \<and> (\<forall>m. Some (cron_to_json m) \<in> set (mq_pending q') \<longrightarrow> cm_job_id m = uuid_str (rid r) \<longrightarrow>
      Some (cron_to_json m) \<in> set (mq_pending q))"
  using assms
proof (induction moments arbitrary: t q)
  case (Cons now moments)
  let ?due = "due_rows crontab next_fire now t"
  let ?t = "mark_rows now ?due t"
  obtain q1 where tick: "tick crontab next_fire sch (\<lambda>b q. Some (mq_send fresh b q)) users now t q
      = (Some (length (messages_of (list_active_user_ids users) now ?due)), ?t, q1)"
    and pend: "mq_pending q1 = mq_pending q @
      map (\<lambda>m. Some (cron_to_json m)) (messages_of (list_active_user_ids users) now ?due)"
    using tick_total [OF Cons.prems(1), of crontab next_fire "mq_send fresh" users now q]
    by (simp add: Let_def mem.pending_fold_send)
  have idle: "\<not> due_now crontab next_fire now r"
    using Cons.prems(3,5,6) by (intro never_fired_not_due) auto
  then have "r \<in> set ?t"
    using Cons.prems(2) by (force simp: mark_due_rows [OF Cons.prems(1)])
  moreover have "\<forall>x \<in> set ?t. rid x < 2 ^ 128"
    using Cons.prems(4) by (auto simp: mark_rows_def)
  moreover have "ticks crontab next_fire sch (\<lambda>b q. Some (mq_send fresh b q)) users moments (?t, q1) = (t', q')"
    using Cons.prems(7) by (simp add: tick)
  ultimately have IH: "r \<in> set t' \<and> (\<forall>m. Some (cron_to_json m) \<in> set (mq_pending q') \<longrightarrow>
      cm_job_id m = uuid_str (rid r) \<longrightarrow> Some (cron_to_json m) \<in> set (mq_pending q1))"
    using Cons.prems(1,3,5,6) by (intro Cons.IH [of ?t q1]) auto
  have rows: "list_all (row_ok sch) ?due" "set ?due \<subseteq> set t"
    using Cons.prems(1) by (auto simp: due_rows_def cron_table_ok_def list_all_iff)
  have "cm_job_id m \<noteq> uuid_str (rid r)"
    if m: "m \<in> set (messages_of (list_active_user_ids users) now ?due)" for m
  proof
    assume "cm_job_id m = uuid_str (rid r)"
    then obtain x where x: "x \<in> set ?due" "uuid_str (rid x) = uuid_str (rid r)"
      using messages_of_job [OF m rows(1)] by auto
    then have "rid x = rid r"
      using uuid_str_inj Cons.prems(2,4) rows(2) by blast
    then have "x = r"
      using x(1) rows(2) Cons.prems(1,2) by (auto simp: cron_table_ok_def distinct_map inj_on_def)
    then show False using x(1) idle by (simp add: due_rows_def)
  qed
  then show ?case
    using IH pend by (auto simp: cron_to_json_eq)
qed auto

theorem never_fired_job_starves_witness:
  "\<exists>t' q'. ticks (\<lambda>s. Some ()) minutely Schema_0001 (\<lambda>b q. Some (mq_send (\<lambda>n. ''r'') b q)) [] [1, 60000001]
       ([minute_job], new_queue) = (t', q') \<and> minute_job \<in> set t' \<and> cr_enabled minute_job"
proof -
  let ?run = "ticks (\<lambda>s. Some ()) minutely Schema_0001 (\<lambda>b q. Some (mq_send (\<lambda>n. ''r'') b q)) [] [1, 60000001]
     ([minute_job], new_queue)"
  obtain t' q' where run: "?run = (t', q')" by (cases ?run)
  have law: "minutely tr None m = Some x \<Longrightarrow> m \<le> x" for tr m x
    using next_minute_ge by (auto simp: minutely_def)
  have off: "now \<in> set [1, 60000001] \<Longrightarrow> minutely tr None now \<noteq> Some now" for tr now
    by (auto simp: minutely_def next_minute_def)
  have "minute_job \<in> set t'"
    by (rule never_fired_job_starves [where next_fire = minutely, OF minute_job_ok _ _ _ law off run, THEN conjunct1])
      (simp_all add: minute_job_def example_cron_def cron_new_row_def)
  then show ?thesis
    using run by (simp add: minute_job_def example_cron_def cron_new_row_def)
qed

end
