(* ===== verification/Cron_Tool.thy ===== *)
theory Cron_Tool
  imports Cron_Jobs Scheduler_Tick "HOL-Library.Multiset"
begin

text \<open>
  The tool \<open>cron_manage\<close> of \<open>cron/manage_tool.py\<close> over the interface \<open>CronBackend\<close> of
  \<open>agent/backends/cron.py\<close>, and its two backends, \<open>cron_local.py\<close> over the job file and
  \<open>cron_cloud.py\<close> over the table \<open>cron_jobs\<close>.
\<close>

subsection \<open>The interface\<close>

record cron_view =
  cv_id :: string
  cv_schedule :: string
  cv_prompt :: string
  cv_delivery :: delivery_spec
  cv_enabled :: bool
  cv_disabled_reason :: "string option"

record 's cron_ops =
  op_list_jobs :: "'s \<Rightarrow> cron_view list result"
  op_add :: "string \<Rightarrow> string \<Rightarrow> delivery_spec \<Rightarrow> 's \<Rightarrow> (cron_view \<times> 's) result"
  op_remove :: "string \<Rightarrow> 's \<Rightarrow> (bool \<times> 's) result"
  op_set_enabled :: "string \<Rightarrow> bool \<Rightarrow> 's \<Rightarrow> (bool \<times> 's) result"

subsection \<open>The tool\<close>

definition schedule_error :: "(string \<Rightarrow> string + 't) \<Rightarrow> string \<Rightarrow> string option" where
  "schedule_error crontab schedule =
     (let s = py_strip schedule;
          parse = (\<lambda>e. case crontab e of Inl msg \<Rightarrow> Some msg | Inr t \<Rightarrow> None)
      in case s of
           CHR ''@'' # _ \<Rightarrow> (case map_of ALIASES s of
               None \<Rightarrow> Some (''unknown schedule alias: '' @ repr_str s)
             | Some e \<Rightarrow> parse e)
         | _ \<Rightarrow> parse s)"

text \<open>
  \<open>urlparse(url)\<close>: its scheme and network location, or the message of its \<open>ValueError\<close>.  The
  check of a bracketed host against the address formats is the parameter \<open>host_error\<close>.
\<close>

definition scheme_char :: "char \<Rightarrow> bool" where
  "scheme_char c = (let n = of_char c :: nat in
     97 \<le> n \<and> n \<le> 122 \<or> 65 \<le> n \<and> n \<le> 90 \<or> 48 \<le> n \<and> n \<le> 57 \<or> c \<in> {CHR ''+'', CHR ''-'', CHR ''.''})"

definition letter :: "char \<Rightarrow> bool" where
  "letter c = (let n = of_char c :: nat in 97 \<le> n \<and> n \<le> 122 \<or> 65 \<le> n \<and> n \<le> 90)"

definition url_parts :: "(string \<Rightarrow> string option) \<Rightarrow> string \<Rightarrow> string + string \<times> string" where
  "url_parts host_error url =
     (let u = filter (\<lambda>c. of_char c \<notin> {9, 10, 13 :: nat}) (dropWhile (\<lambda>c. of_char c \<le> (32 :: nat)) url);
          pre = takeWhile (\<lambda>c. c \<noteq> CHR '':'') u;
          (scheme, rest) =
            (if length pre < length u \<and> pre \<noteq> [] \<and> letter (hd pre) \<and> list_all scheme_char pre
             then (py_lower pre, drop (Suc (length pre)) u) else ([], u));
          netloc = (if take 2 rest = ''//'' then takeWhile (\<lambda>c. c \<notin> set ''/?#'') (drop 2 rest) else [])
      in if (CHR ''['' \<in> set netloc) \<noteq> (CHR '']'' \<in> set netloc) then Inl ''Invalid IPv6 URL''
         else if CHR ''['' \<in> set netloc
         then (case host_error netloc of Some msg \<Rightarrow> Inl msg | None \<Rightarrow> Inr (scheme, netloc))
         else Inr (scheme, netloc))"

definition build_delivery ::
  "(string \<Rightarrow> string option) \<Rightarrow> string option \<Rightarrow> string option \<Rightarrow> string + delivery_spec"
where
  "build_delivery host_error platform url =
     (case platform of
        None \<Rightarrow> Inl (''delivery_platform is required for '' @ repr_str ''add'')
      | Some p \<Rightarrow>
          (if p \<noteq> ''log'' \<and> p \<noteq> ''webhook''
           then Inl (''unknown delivery_platform '' @ repr_str p @ ''; must be one of ('' @ repr_str ''log'' @
             '', '' @ repr_str ''webhook'' @ '')'')
           else if p = ''webhook'' then
             (case url of
                None \<Rightarrow> Inl (''delivery_url is required for platform='' @ repr_str ''webhook'')
              | Some [] \<Rightarrow> Inl (''delivery_url is required for platform='' @ repr_str ''webhook'')
              | Some u \<Rightarrow>
                  (case url_parts host_error u of
                     Inl msg \<Rightarrow> Inl msg
                   | Inr (scheme, netloc) \<Rightarrow>
                       (if scheme \<notin> {''http'', ''https''} \<or> netloc = []
                        then Inl (''delivery_url must be http(s); got '' @ repr_str u)
                        else Inr [(''platform'', JStr ''webhook''), (''url'', JStr u)])))
           else Inr [(''platform'', JStr ''log'')]))"

datatype cron_action = ListJobs | AddJob | RemoveJob | EnableJob | DisableJob | OtherAction string

record cron_call =
  cc_schedule :: "string option"
  cc_prompt :: "string option"
  cc_delivery_platform :: "string option"
  cc_delivery_url :: "string option"
  cc_job_id :: "string option"

definition view_json :: "cron_view \<Rightarrow> json" where
  "view_json v = JObj [(''id'', JStr (cv_id v)), (''schedule'', JStr (cv_schedule v)),
     (''prompt'', JStr (cv_prompt v)), (''delivery'', JObj (cv_delivery v)), (''enabled'', JBool (cv_enabled v)),
     (''disabled_reason'', case cv_disabled_reason v of None \<Rightarrow> JNull | Some r \<Rightarrow> JStr r)]"

definition reply_error :: "string \<Rightarrow> json" where
  "reply_error msg = JObj [(''success'', JBool False), (''error'', JStr msg)]"

definition reply_ok :: "(string \<times> json) list \<Rightarrow> json" where
  "reply_ok kvs = JObj ((''success'', JBool True) # kvs)"

text \<open>The operations that name a job.\<close>

definition on_job :: "string option \<Rightarrow> (string \<Rightarrow> 's \<Rightarrow> (bool \<times> 's) result) \<Rightarrow> 's \<Rightarrow> (json \<times> 's) result" where
  "on_job job_id f st =
     (case job_id of
        None \<Rightarrow> Inr (reply_error ''job_id is required'', st)
      | Some [] \<Rightarrow> Inr (reply_error ''job_id is required'', st)
      | Some i \<Rightarrow>
          bind_result (f i st) (\<lambda>(found, st').
            Inr (if found then reply_ok [] else reply_error (''no such job: '' @ i), st')))"

definition cron_manage ::
  "(string \<Rightarrow> string + 't) \<Rightarrow> (string \<Rightarrow> string option) \<Rightarrow> 's cron_ops \<Rightarrow> cron_action
     \<Rightarrow> cron_call \<Rightarrow> 's \<Rightarrow> (json \<times> 's) result"
where
  "cron_manage crontab host_error ops action c st =
     (case action of
        ListJobs \<Rightarrow>
          bind_result (op_list_jobs ops st) (\<lambda>vs. Inr (reply_ok [(''jobs'', JArr (map view_json vs))], st))
      | AddJob \<Rightarrow>
          (if cc_schedule c \<in> {None, Some []} then Inr (reply_error ''schedule is required'', st)
           else if cc_prompt c \<in> {None, Some []} then Inr (reply_error ''prompt is required'', st)
           else (case schedule_error crontab (the (cc_schedule c)) of
               Some msg \<Rightarrow> Inr (reply_error (''invalid schedule: '' @ msg), st)
             | None \<Rightarrow>
                 (case build_delivery host_error (cc_delivery_platform c) (cc_delivery_url c) of
                    Inl msg \<Rightarrow> Inr (reply_error msg, st)
                  | Inr d \<Rightarrow>
                      bind_result (op_add ops (the (cc_schedule c)) (the (cc_prompt c)) d st) (\<lambda>(v, st').
                        Inr (reply_ok [(''job'', view_json v)], st')))))
      | RemoveJob \<Rightarrow> on_job (cc_job_id c) (op_remove ops) st
      | EnableJob \<Rightarrow> on_job (cc_job_id c) (\<lambda>i. op_set_enabled ops i True) st
      | DisableJob \<Rightarrow> on_job (cc_job_id c) (\<lambda>i. op_set_enabled ops i False) st
      | OtherAction a \<Rightarrow> Inr (reply_error (''unknown action '' @ repr_str a), st))"

subsection \<open>The local backend\<close>

definition job_view :: "job \<Rightarrow> cron_view" where
  "job_view j = \<lparr>cv_id = jb_id j, cv_schedule = jb_schedule j, cv_prompt = jb_prompt j,
     cv_delivery = jb_delivery j, cv_enabled = jb_enabled j, cv_disabled_reason = jb_disabled_reason j\<rparr>"

definition local_cron :: "string \<Rightarrow> job list cron_ops" where
  "local_cron fresh =
     \<lparr>op_list_jobs = \<lambda>jobs. Inr (map job_view jobs),
      op_add = \<lambda>schedule prompt d jobs.
        (case job_add fresh schedule prompt d True jobs of (j, jobs') \<Rightarrow> Inr (job_view j, jobs')),
      op_remove = \<lambda>i jobs. Inr (job_remove i jobs),
      op_set_enabled = \<lambda>i enabled jobs. Inr (job_set_enabled i enabled jobs)\<rparr>"

subsection \<open>The cloud backend\<close>

text \<open>\<open>re.sub("[^a-z0-9]+", "-", s)\<close>.\<close>

definition slug_char :: "char \<Rightarrow> bool" where
  "slug_char c = (let n = of_char c :: nat in 97 \<le> n \<and> n \<le> 122 \<or> 48 \<le> n \<and> n \<le> 57)"

fun dashed :: "bool \<Rightarrow> string \<Rightarrow> string" where
  "dashed in_run [] = []"
| "dashed in_run (c # cs) =
     (if slug_char c then c # dashed False cs
      else if in_run then dashed True cs else CHR ''-'' # dashed True cs)"

definition strip_dashes :: "string \<Rightarrow> string" where
  "strip_dashes s = rev (dropWhile (\<lambda>c. c = CHR ''-'') (rev (dropWhile (\<lambda>c. c = CHR ''-'') s)))"

definition slug_from_prompt :: "string \<Rightarrow> string \<Rightarrow> string" where
  "slug_from_prompt ending prompt =
     (let base = take 32 (strip_dashes (dashed False (py_lower prompt))) in
      (if base = [] then ''job'' else base) @ ''-'' @ ending)"

definition row_to_view :: "cron_row \<Rightarrow> cron_view" where
  "row_to_view r =
     \<lparr>cv_id = slug r, cv_schedule = cron_expr r, cv_prompt = cr_prompt r,
      cv_delivery = (case webhook_url r of
          None \<Rightarrow> [(''platform'', JStr ''log'')]
        | Some [] \<Rightarrow> [(''platform'', JStr ''log'')]
        | Some u \<Rightarrow> [(''platform'', JStr ''webhook''), (''url'', JStr u)]),
      cv_enabled = cr_enabled r, cv_disabled_reason = None\<rparr>"

text \<open>The URL of a validated spec is a string.\<close>

definition delivery_url :: "delivery_spec \<Rightarrow> string option" where
  "delivery_url d =
     (if py_get d ''platform'' = JStr ''webhook''
      then (case py_get d ''url'' of JStr u \<Rightarrow> Some u | _ \<Rightarrow> None) else None)"

definition only_enabled :: "bool \<Rightarrow> cron_changes" where
  "only_enabled e = \<lparr>rc_cron_expr = None, rc_prompt = None, rc_webhook_url = None,
     rc_clear_webhook_url = False, rc_enabled = Some e, rc_mandatory = None\<rparr>"

definition cloud_cron :: "schema_rev \<Rightarrow> uuid \<Rightarrow> string \<Rightarrow> uuid \<Rightarrow> cron_row list cron_ops" where
  "cloud_cron sch n ending u =
     \<lparr>op_list_jobs = \<lambda>t. bind_result (cron_list_user (Some u) t) (\<lambda>rows. Inr (map row_to_view rows)),
      op_add = \<lambda>schedule prompt d t.
        bind_result (cron_create_user sch n (Some u) (slug_from_prompt ending prompt)
          \<lparr>ra_cron_expr = schedule, ra_prompt = prompt, ra_webhook_url = delivery_url d, ra_enabled = True,
           ra_mandatory = False\<rparr> t) (\<lambda>(r, t'). Inr (row_to_view r, t')),
      op_remove = \<lambda>i t. cron_delete_user (Some u) i t,
      op_set_enabled = \<lambda>i e t.
        bind_result (cron_update_user sch (Some u) i (only_enabled e) t) (\<lambda>(r, t'). Inr (r \<noteq> None, t'))\<rparr>"

subsection \<open>The contract of a backend\<close>

text \<open>
  What the tool relies on, for states in which no two jobs share an id: removing and switching
  act on the job of that id and on no other, report whether there is one, and a job that
  could be added is listed with the values given.
\<close>

definition switched :: "string \<Rightarrow> bool \<Rightarrow> cron_view \<Rightarrow> cron_view \<Rightarrow> bool" where
  "switched i e v v' \<longleftrightarrow>
     cv_id v' = cv_id v \<and> cv_schedule v' = cv_schedule v \<and> cv_prompt v' = cv_prompt v \<and>
     cv_delivery v' = cv_delivery v \<and> cv_enabled v' = (if cv_id v = i then e else cv_enabled v)"

lemma switched_refl: "(cv_id v = i \<Longrightarrow> cv_enabled v = e) \<Longrightarrow> switched i e v v"
  by (auto simp: switched_def)

lemma all_switched_refl: "(\<And>v. v \<in> set vs \<Longrightarrow> cv_id v = i \<Longrightarrow> cv_enabled v = e) \<Longrightarrow> list_all2 (switched i e) vs vs"
  by (intro list.rel_refl_strong switched_refl) auto

locale cron_backend =
  fixes ops :: "'s cron_ops" and ok :: "'s \<Rightarrow> bool"
  assumes listing: "ok st \<Longrightarrow> \<exists>vs. op_list_jobs ops st = Inr vs \<and> distinct (map cv_id vs)"
    and adding: "ok st \<Longrightarrow> op_list_jobs ops st = Inr vs \<Longrightarrow> op_add ops schedule prompt d st = Inr (v, st') \<Longrightarrow>
      cv_schedule v = schedule \<and> cv_prompt v = prompt \<and> cv_enabled v \<and>
      (\<exists>vs'. op_list_jobs ops st' = Inr vs' \<and> set vs' = insert v (set vs))"
    and removing: "ok st \<Longrightarrow> op_list_jobs ops st = Inr vs \<Longrightarrow>
      \<exists>st'. op_remove ops i st = Inr (i \<in> cv_id ` set vs, st') \<and> ok st' \<and>
        op_list_jobs ops st' = Inr (filter (\<lambda>v. cv_id v \<noteq> i) vs)"
    and switching: "ok st \<Longrightarrow> op_list_jobs ops st = Inr vs \<Longrightarrow>
      \<exists>st' vs'. op_set_enabled ops i e st = Inr (i \<in> cv_id ` set vs, st') \<and> ok st' \<and>
        op_list_jobs ops st' = Inr vs' \<and> list_all2 (switched i e) vs vs'"
begin

lemma remove_then_list:
  assumes "ok st" and "op_list_jobs ops st = Inr vs" and "i \<noteq> []"
  shows "\<exists>st'. cron_manage crontab host_error ops RemoveJob (c\<lparr>cc_job_id := Some i\<rparr>) st
      = Inr (if i \<in> cv_id ` set vs then reply_ok [] else reply_error (''no such job: '' @ i), st') \<and>
    ok st' \<and> cron_manage crontab host_error ops ListJobs c' st'
      = Inr (reply_ok [(''jobs'', JArr (map view_json (filter (\<lambda>v. cv_id v \<noteq> i) vs)))], st')"
  using removing [OF assms(1,2), of i] assms(3)
  by (cases i) (auto simp: cron_manage_def on_job_def)

lemma switch_then_list:
  assumes "ok st" and "op_list_jobs ops st = Inr vs" and "i \<noteq> []"
  shows "\<exists>st' vs'. cron_manage crontab host_error ops (if e then EnableJob else DisableJob)
        (c\<lparr>cc_job_id := Some i\<rparr>) st
      = Inr (if i \<in> cv_id ` set vs then reply_ok [] else reply_error (''no such job: '' @ i), st') \<and>
    ok st' \<and> op_list_jobs ops st' = Inr vs' \<and> list_all2 (switched i e) vs vs'"
  using switching [OF assms(1,2), of i e] assms(3)
  by (cases i) (auto simp: cron_manage_def on_job_def)

end

subsection \<open>Both backends keep the contract\<close>

lemma sort_key_map: "(\<And>x. f (g x) = f x) \<Longrightarrow> sort_key f (map g xs) = map g (sort_key f xs)"
proof -
  assume fg: "\<And>x. f (g x) = f x"
  have "insort_key f (g x) (map g ys) = map g (insort_key f x ys)" for x ys
    by (induction ys) (simp_all add: fg)
  then show ?thesis by (induction xs) simp_all
qed

definition jobs_ok :: "job list \<Rightarrow> bool" where
  "jobs_ok jobs \<longleftrightarrow> distinct (map jb_id jobs)"

lemma job_view_id [simp]: "cv_id (job_view j) = jb_id j"
  by (simp add: job_view_def)

lemma job_get_Some: "job_get i jobs = Some j \<Longrightarrow> j \<in> set jobs \<and> jb_id j = i"
  by (auto simp: job_get_def find_Some_iff)

lemma job_get_None: "job_get i jobs = None \<longleftrightarrow> i \<notin> jb_id ` set jobs"
  by (auto simp: job_get_def find_None_iff)

lemma job_set_enabled_spec:
  assumes "jobs_ok jobs" and "job_set_enabled i e jobs = (b, jobs')"
  shows "b = (i \<in> jb_id ` set jobs) \<and> jobs_ok jobs' \<and>
    list_all2 (switched i e) (map job_view jobs) (map job_view jobs')"
proof (cases "job_get i jobs")
  case None
  then show ?thesis
    using assms job_get_None [of i jobs] by (auto simp: job_set_enabled_def intro!: all_switched_refl)
next
  case (Some j)
  note j = job_get_Some [OF Some]
  have uniq: "x = j" if "x \<in> set jobs" "jb_id x = i" for x
    using assms(1) j that by (auto simp: jobs_ok_def distinct_map inj_on_def)
  show ?thesis
  proof (cases "jb_enabled j \<noteq> e \<or> e \<and> jb_disabled_reason j \<notin> {None, Some []}")
    case True
    obtain js where js: "update_first i (enable_job e) jobs = Some js"
      using j update_first_None [of i "enable_job e" jobs] by (cases "update_first i (enable_job e) jobs") auto
    then have eq: "js = map (\<lambda>j. if jb_id j = i then enable_job e j else j) jobs"
      using assms(1) update_first_distinct by (simp add: jobs_ok_def)
    have "map jb_id js = map jb_id jobs"
      by (simp add: eq enable_job_def)
    then have "jobs_ok js" using assms(1) by (simp only: jobs_ok_def)
    moreover have "list_all2 (switched i e) (map job_view jobs) (map job_view js)"
      by (auto simp: eq list.rel_map switched_def job_view_def enable_job_def intro!: list.rel_refl_strong)
    ultimately show ?thesis
      using assms(2) Some j True js by (auto simp: job_set_enabled_def)
  next
    case False
    then have "list_all2 (switched i e) (map job_view jobs) (map job_view jobs)"
      using uniq by (intro all_switched_refl) (auto simp: job_view_def)
    then show ?thesis
      using assms Some j False by (auto simp: job_set_enabled_def)
  qed
qed

lemma job_remove_spec:
  "job_remove i jobs = (i \<in> jb_id ` set jobs, filter (\<lambda>j. jb_id j \<noteq> i) jobs)"
proof (cases "i \<in> jb_id ` set jobs")
  case True
  then obtain j where "j \<in> set jobs" "jb_id j = i" by auto
  then have "length (filter (\<lambda>j. jb_id j \<noteq> i) jobs) < length jobs"
    by (intro length_filter_less [of j]) auto
  then show ?thesis using True by (simp add: job_remove_def)
next
  case False
  then have "filter (\<lambda>j. jb_id j \<noteq> i) jobs = jobs" by (auto intro!: filter_True)
  then show ?thesis using False by (simp add: job_remove_def)
qed

interpretation local: cron_backend "local_cron fresh" jobs_ok for fresh
proof unfold_locales
  fix st i e vs
  assume ok: "jobs_ok st" and vs: "op_list_jobs (local_cron fresh) st = Inr vs"
  have vs': "vs = map job_view st" using vs by (simp add: local_cron_def)
  show "\<exists>st'. op_remove (local_cron fresh) i st = Inr (i \<in> cv_id ` set vs, st') \<and> jobs_ok st' \<and>
      op_list_jobs (local_cron fresh) st' = Inr (filter (\<lambda>v. cv_id v \<noteq> i) vs)"
    using ok by (auto simp: vs' local_cron_def job_remove_spec jobs_ok_def image_image filter_map comp_def
        distinct_map_filter)
  obtain b st' where s: "job_set_enabled i e st = (b, st')" by (cases "job_set_enabled i e st")
  show "\<exists>st' vs'. op_set_enabled (local_cron fresh) i e st = Inr (i \<in> cv_id ` set vs, st') \<and> jobs_ok st' \<and>
      op_list_jobs (local_cron fresh) st' = Inr vs' \<and> list_all2 (switched i e) vs vs'"
    using job_set_enabled_spec [OF ok s] s by (auto simp: vs' local_cron_def image_image)
qed (auto simp: local_cron_def jobs_ok_def job_add_def job_view_def comp_def Let_def)

definition user_jobs_ok :: "schema_rev \<Rightarrow> uuid \<Rightarrow> cron_row list \<Rightarrow> bool" where
  "user_jobs_ok sch u t \<longleftrightarrow> cron_table_ok sch t \<and> distinct (map slug (filter (cron_user u) t))"

lemma row_to_view_id [simp]: "cv_id (row_to_view r) = slug r"
  by (simp add: row_to_view_def)

definition user_views :: "uuid \<Rightarrow> cron_row list \<Rightarrow> cron_view list" where
  "user_views u t = map row_to_view (sort_key slug (filter (cron_user u) t))"

lemma cloud_list: "op_list_jobs (cloud_cron sch n ending u) t = Inr (user_views u t)"
  by (simp add: cloud_cron_def cron_list_user_def current_user_id_def user_views_def)

lemma cloud_remove:
  "op_remove (cloud_cron sch n ending u) i t
     = Inr (i \<in> cv_id ` set (user_views u t), filter (\<lambda>r. \<not> (cron_user u r \<and> slug r = i)) t)"
  by (auto simp: cloud_cron_def cron_delete_user_def current_user_id_def sql_delete_def Let_def
      user_views_def image_image filter_empty_conv)

lemma user_views_remove:
  "user_views u (filter (\<lambda>r. \<not> (cron_user u r \<and> slug r = i)) t) = filter (\<lambda>v. cv_id v \<noteq> i) (user_views u t)"
proof -
  have "filter (cron_user u) (filter (\<lambda>r. \<not> (cron_user u r \<and> slug r = i)) t)
      = filter (\<lambda>r. slug r \<noteq> i) (filter (cron_user u) t)"
    by (auto simp: filter_filter intro: filter_cong)
  then show ?thesis
    by (simp add: user_views_def filter_map comp_def filter_sort)
qed

definition set_flag :: "uuid \<Rightarrow> string \<Rightarrow> bool \<Rightarrow> cron_row \<Rightarrow> cron_row" where
  "set_flag u i e r = (if cron_user u r \<and> slug r = i then r\<lparr>cr_enabled := e\<rparr> else r)"

lemma set_flag_simps [simp]:
  "slug (set_flag u i e r) = slug r" "rid (set_flag u i e r) = rid r"
  "cron_user w (set_flag u i e r) = cron_user w r" "row_ok sch (set_flag u i e r) = row_ok sch r"
  by (simp_all add: set_flag_def cron_user_def row_ok_def scope_check_def scope_user_id_check_def
      scope_agent_id_check_def split: schema_rev.splits)

lemma set_flag_ok [simp]: "user_jobs_ok sch u (map (set_flag w i e) t) = user_jobs_ok sch u t"
  by (simp add: user_jobs_ok_def cron_table_ok_def filter_map comp_def list_all_iff)

lemma cloud_update:
  assumes "user_jobs_ok sch u t"
  shows "\<exists>r. cron_update_user sch (Some u) i (only_enabled e) t = Inr (r, map (set_flag u i e) t) \<and>
    (r \<noteq> None \<longleftrightarrow> i \<in> slug ` set (filter (cron_user u) t))"
proof -
  let ?p = "\<lambda>r. cron_user u r \<and> slug r = i"
  let ?f = "\<lambda>r. r\<lparr>cr_enabled := e\<rparr>"
  have upd: "sql_update ?p ?f t = map (set_flag u i e) t"
    by (simp add: sql_update_def set_flag_def)
  have "cron_table_ok sch (map (set_flag u i e) t)"
    using assms set_flag_ok [of sch u u i e t] by (simp add: user_jobs_ok_def)
  moreover have "length (filter ?p t) \<le> 1"
    using assms by (intro filter_same_key_le_one [of slug "cron_user u" t ?p i]) (auto simp: user_jobs_ok_def)
  then obtain r where "scalar_one_or_none (map ?f (filter ?p t)) = Inr r"
    by (cases "map ?f (filter ?p t)" rule: scalar_one_or_none.cases) (auto simp: map_eq_Cons_conv)
  moreover from this have "r \<noteq> None \<longleftrightarrow> filter ?p t \<noteq> []"
    by (cases r) auto
  ultimately show ?thesis
    by (auto simp: cron_update_user_def current_user_id_def cron_values_def only_enabled_def
        cron_update_where_def cron_checked_def upd filter_empty_conv)
qed

lemma user_views_flag:
  "list_all2 (switched i e) (user_views u t) (user_views u (map (set_flag u i e) t))"
proof -
  have "user_views u (map (set_flag u i e) t)
      = map row_to_view (map (set_flag u i e) (sort_key slug (filter (cron_user u) t)))"
    by (simp add: user_views_def filter_map comp_def sort_key_map)
  then show ?thesis
    by (auto simp: user_views_def list.rel_map switched_def row_to_view_def set_flag_def
        intro!: list.rel_refl_strong)
qed

lemma cloud_set_enabled:
  assumes "user_jobs_ok sch u t"
  shows "op_set_enabled (cloud_cron sch n ending u) i e t
    = Inr (i \<in> cv_id ` set (user_views u t), map (set_flag u i e) t)"
  using cloud_update [OF assms, of i e] by (auto simp: cloud_cron_def user_views_def image_image)

lemma distinct_user_views: "distinct (map cv_id (user_views u t)) = distinct (map slug (filter (cron_user u) t))"
proof -
  have "map cv_id (user_views u t) = map slug (sort_key slug (filter (cron_user u) t))"
    by (simp add: user_views_def)
  moreover have "distinct (map slug (sort_key slug xs)) = distinct (map slug xs)" for xs :: "cron_row list"
    by (intro mset_eq_imp_distinct_iff) simp
  ultimately show ?thesis by simp
qed

interpretation cloud: cron_backend "cloud_cron sch n ending u" "user_jobs_ok sch u" for sch n ending u
proof unfold_locales
  fix st i e vs
  assume ok: "user_jobs_ok sch u st" and "op_list_jobs (cloud_cron sch n ending u) st = Inr vs"
  then have vs: "vs = user_views u st" by (simp add: cloud_list)
  let ?rest = "filter (\<lambda>r. \<not> (cron_user u r \<and> slug r = i)) st"
  have ok': "user_jobs_ok sch u ?rest"
    using ok by (auto simp: user_jobs_ok_def cron_table_ok_def list_all_iff distinct_map_filter filter_filter
        distinct_map inj_on_def)
  show "\<exists>st'. op_remove (cloud_cron sch n ending u) i st = Inr (i \<in> cv_id ` set vs, st') \<and>
      user_jobs_ok sch u st' \<and> op_list_jobs (cloud_cron sch n ending u) st' = Inr (filter (\<lambda>v. cv_id v \<noteq> i) vs)"
    by (rule exI [of _ ?rest], intro conjI) (simp_all only: vs cloud_remove cloud_list user_views_remove ok')
  show "\<exists>st' vs'. op_set_enabled (cloud_cron sch n ending u) i e st = Inr (i \<in> cv_id ` set vs, st') \<and>
      user_jobs_ok sch u st' \<and> op_list_jobs (cloud_cron sch n ending u) st' = Inr vs' \<and>
      list_all2 (switched i e) vs vs'"
    by (rule exI [of _ "map (set_flag u i e) st"], rule exI [of _ "user_views u (map (set_flag u i e) st)"])
      (simp add: vs cloud_set_enabled [OF ok] cloud_list user_views_flag ok)
next
  fix st vs schedule prompt d v st'
  assume add: "op_add (cloud_cron sch n ending u) schedule prompt d st = Inr (v, st')"
    and vs: "op_list_jobs (cloud_cron sch n ending u) st = Inr vs"
  obtain r where "v = row_to_view r" "st' = st @ [r]" "cron_user u r" "cron_expr r = schedule"
      "cr_prompt r = prompt" "cr_enabled r"
    using add by (auto simp: cloud_cron_def cron_create_user_def current_user_id_def cron_checked_def Let_def
        cron_new_row_def cron_user_def split: if_splits)
  then show "cv_schedule v = schedule \<and> cv_prompt v = prompt \<and> cv_enabled v \<and>
      (\<exists>vs'. op_list_jobs (cloud_cron sch n ending u) st' = Inr vs' \<and> set vs' = insert v (set vs))"
    using vs by (auto simp: cloud_list user_views_def row_to_view_def)
qed (simp add: cloud_list user_jobs_ok_def distinct_user_views)

subsection \<open>Properties\<close>

text \<open>
  With either backend, \<open>cron_manage\<close> with \<open>remove\<close> removes the job of the given id and no other
  and reports success exactly when there was one; \<open>enable\<close> and \<open>disable\<close> switch that job
  and no other, with the same report.
\<close>

theorem cron_tool_acts_on_one_job:
  assumes "jobs_ok jobs" and "user_jobs_ok sch u t" and "i \<noteq> []"
  shows "(\<exists>jobs'. cron_manage crontab host_error (local_cron fresh) RemoveJob (c\<lparr>cc_job_id := Some i\<rparr>) jobs
      = Inr (if i \<in> jb_id ` set jobs then reply_ok [] else reply_error (''no such job: '' @ i), jobs') \<and>
      cron_manage crontab host_error (local_cron fresh) ListJobs c jobs'
      = Inr (reply_ok [(''jobs'', JArr (map view_json (filter (\<lambda>v. cv_id v \<noteq> i) (map job_view jobs))))], jobs')) \<and>
    (\<exists>t'. cron_manage crontab host_error (cloud_cron sch n ending u) RemoveJob (c\<lparr>cc_job_id := Some i\<rparr>) t
      = Inr (if i \<in> cv_id ` set (user_views u t) then reply_ok [] else reply_error (''no such job: '' @ i), t') \<and>
      cron_manage crontab host_error (cloud_cron sch n ending u) ListJobs c t'
      = Inr (reply_ok [(''jobs'', JArr (map view_json (filter (\<lambda>v. cv_id v \<noteq> i) (user_views u t))))], t')) \<and>
    (\<exists>jobs'. cron_manage crontab host_error (local_cron fresh) (if e then EnableJob else DisableJob)
        (c\<lparr>cc_job_id := Some i\<rparr>) jobs
      = Inr (if i \<in> jb_id ` set jobs then reply_ok [] else reply_error (''no such job: '' @ i), jobs') \<and>
      list_all2 (switched i e) (map job_view jobs) (map job_view jobs')) \<and>
    (\<exists>t'. cron_manage crontab host_error (cloud_cron sch n ending u) (if e then EnableJob else DisableJob)
        (c\<lparr>cc_job_id := Some i\<rparr>) t
      = Inr (if i \<in> cv_id ` set (user_views u t) then reply_ok [] else reply_error (''no such job: '' @ i), t') \<and>
      list_all2 (switched i e) (user_views u t) (user_views u t'))"
proof (intro conjI)
  have l: "op_list_jobs (local_cron fresh) js = Inr (map job_view js)" for js
    by (simp add: local_cron_def)
  have ids: "cv_id ` set (map job_view jobs) = jb_id ` set jobs"
    by (simp add: image_image)
  note rl = local.remove_then_list [OF assms(1) l assms(3), of crontab host_error c c, unfolded ids]
  note sl = local.switch_then_list [OF assms(1) l assms(3), of crontab host_error e c, unfolded ids l]
  note rc = cloud.remove_then_list [OF assms(2) cloud_list assms(3), of crontab host_error n ending c c]
  note sc = cloud.switch_then_list [OF assms(2) cloud_list assms(3), of crontab host_error n ending e c, unfolded cloud_list]
  show "\<exists>jobs'. cron_manage crontab host_error (local_cron fresh) RemoveJob (c\<lparr>cc_job_id := Some i\<rparr>) jobs
      = Inr (if i \<in> jb_id ` set jobs then reply_ok [] else reply_error (''no such job: '' @ i), jobs') \<and>
      cron_manage crontab host_error (local_cron fresh) ListJobs c jobs'
      = Inr (reply_ok [(''jobs'', JArr (map view_json (filter (\<lambda>v. cv_id v \<noteq> i) (map job_view jobs))))], jobs')"
    using rl by blast
  show "\<exists>t'. cron_manage crontab host_error (cloud_cron sch n ending u) RemoveJob (c\<lparr>cc_job_id := Some i\<rparr>) t
      = Inr (if i \<in> cv_id ` set (user_views u t) then reply_ok [] else reply_error (''no such job: '' @ i), t') \<and>
      cron_manage crontab host_error (cloud_cron sch n ending u) ListJobs c t'
      = Inr (reply_ok [(''jobs'', JArr (map view_json (filter (\<lambda>v. cv_id v \<noteq> i) (user_views u t))))], t')"
    using rc by blast
  show "\<exists>jobs'. cron_manage crontab host_error (local_cron fresh) (if e then EnableJob else DisableJob)
        (c\<lparr>cc_job_id := Some i\<rparr>) jobs
      = Inr (if i \<in> jb_id ` set jobs then reply_ok [] else reply_error (''no such job: '' @ i), jobs') \<and>
      list_all2 (switched i e) (map job_view jobs) (map job_view jobs')"
    using sl by blast
  show "\<exists>t'. cron_manage crontab host_error (cloud_cron sch n ending u) (if e then EnableJob else DisableJob)
        (c\<lparr>cc_job_id := Some i\<rparr>) t
      = Inr (if i \<in> cv_id ` set (user_views u t) then reply_ok [] else reply_error (''no such job: '' @ i), t') \<and>
      list_all2 (switched i e) (user_views u t) (user_views u t')"
    using sc by blast
qed

definition no_call :: cron_call where
  "no_call = \<lparr>cc_schedule = None, cc_prompt = None, cc_delivery_platform = None, cc_delivery_url = None,
     cc_job_id = None\<rparr>"

theorem cron_tool_acts_on_one_job_witness:
  "(\<exists>jobs'. cron_manage Inr (\<lambda>h. None) (local_cron ''x'') RemoveJob (no_call\<lparr>cc_job_id := Some ''j''\<rparr>) [example_job]
      = Inr (reply_ok [], jobs')) \<and>
   (\<exists>t'. cron_manage Inr (\<lambda>h. None) (cloud_cron Schema_0001 1 ''x'' 7) DisableJob (no_call\<lparr>cc_job_id := Some ''j''\<rparr>)
        [example_cron 1 7 ''j''] = Inr (reply_ok [], t') \<and>
      list_all2 (switched ''j'' False) (user_views 7 [example_cron 1 7 ''j'']) (user_views 7 t'))"
proof -
  have j: "jobs_ok [example_job]" "''j'' \<in> jb_id ` set [example_job]"
    by (simp_all add: jobs_ok_def example_job_def)
  have t: "user_jobs_ok Schema_0001 7 [example_cron 1 7 ''j'']"
    "''j'' \<in> cv_id ` set (user_views 7 [example_cron 1 7 ''j''])"
    by (simp_all add: user_jobs_ok_def cron_table_ok_def example_cron_def cron_new_row_def row_ok_def
        scope_check_def scope_user_id_check_def user_views_def cron_user_def)
  note both = cron_tool_acts_on_one_job [OF j(1) t(1), where i = "''j''" and e = False and c = no_call
      and crontab = Inr and host_error = "\<lambda>h. None" and fresh = "''x''" and n = 1
      and ending = "''x''", simplified j t]
  show ?thesis
    using both by auto
qed

text \<open>
  From the schema revision \<open>0003_agents\<close> on, the cloud \<open>cron_manage\<close> cannot add a job: a call
  that passes every check raises \<open>IntegrityError\<close>, because the row is inserted without the
  agent its CHECK constraint demands; every other call is an error reply.
\<close>

theorem cloud_cron_add_fails:
  "cron_manage crontab host_error (cloud_cron Schema_0003 n ending u) AddJob c t = Inl IntegrityError \<or>
   (\<exists>msg. cron_manage crontab host_error (cloud_cron Schema_0003 n ending u) AddJob c t
      = Inr (reply_error msg, t))"
proof -
  have "op_add (cloud_cron Schema_0003 n ending u) schedule prompt d t = Inl IntegrityError" for schedule prompt d
    by (simp add: cloud_cron_def cron_create_user_def current_user_id_def cron_checked_def Let_def cron_table_ok_def
        cron_new_row_def row_ok_def scope_agent_id_check_def)
  then show ?thesis
    by (auto simp: cron_manage_def split: option.splits sum.splits)
qed

end
