(* ===== verification/Session_Tables.thy ===== *)
theory Session_Tables
  imports Py_Values "HOL-Library.Multiset"
begin

text \<open>
  What the two message stores share: the columns of a message and of a session, the dict a
  message is returned as, the order by time and id, and the list a session's messages are.
  Message texts are Latin-1 strings here.
\<close>

subsection \<open>Rows\<close>

record message_body =
  mb_role :: string
  mb_content :: "string option"
  mb_tool_call_id :: "string option"
  mb_tool_calls :: "json list option"
  mb_tool_name :: "string option"

record message_row =
  mr_id :: nat
  mr_session :: string
  mr_body :: message_body
  mr_ts :: int

record 'u session_row =
  ss_id :: string
  ss_source :: string
  ss_user :: 'u
  ss_model :: "string option"
  ss_started_at :: int
  ss_ended_at :: "int option"
  ss_end_reason :: "string option"
  ss_message_count :: int
  ss_tool_call_count :: int
  ss_input_tokens :: int
  ss_output_tokens :: int
  ss_title :: "string option"

text \<open>\<open>_message_row_to_msg\<close> and \<open>_row_to_msg\<close>: absent and empty columns leave no key.\<close>

definition body_to_msg :: "message_body \<Rightarrow> (string \<times> json) list" where
  "body_to_msg b =
     [(''role'', JStr (mb_role b))] @
     (case mb_content b of None \<Rightarrow> [] | Some c \<Rightarrow> [(''content'', JStr c)]) @
     (case mb_tool_call_id b of None \<Rightarrow> [] | Some [] \<Rightarrow> [] | Some i \<Rightarrow> [(''tool_call_id'', JStr i)]) @
     (case mb_tool_calls b of None \<Rightarrow> [] | Some [] \<Rightarrow> [] | Some cs \<Rightarrow> [(''tool_calls'', JArr cs)]) @
     (case mb_tool_name b of None \<Rightarrow> [] | Some [] \<Rightarrow> [] | Some n \<Rightarrow> [(''name'', JStr n)])"

text \<open>\<open>list(tool_calls) if tool_calls else None\<close>.\<close>

definition stored_calls :: "json list option \<Rightarrow> json list option" where
  "stored_calls c = (case c of None \<Rightarrow> None | Some [] \<Rightarrow> None | Some cs \<Rightarrow> Some cs)"

definition stored_body :: "message_body \<Rightarrow> message_body" where
  "stored_body b = b\<lparr>mb_tool_calls := stored_calls (mb_tool_calls b)\<rparr>"

lemma body_to_msg_stored [simp]: "body_to_msg (stored_body b) = body_to_msg b"
  by (simp add: body_to_msg_def stored_body_def stored_calls_def split: option.split list.split)

lemma stored_body_idem [simp]: "stored_body (stored_body b) = stored_body b"
  by (simp add: stored_body_def stored_calls_def split: option.split list.split)

subsection \<open>Order\<close>

text \<open>\<open>ORDER BY timestamp, id\<close>; ids are unique, so the descending order is its reverse.\<close>

definition in_order :: "'a message_row_scheme list \<Rightarrow> 'a message_row_scheme list" where
  "in_order rows = sort_key (\<lambda>r. (mr_ts r, mr_id r)) rows"

definition newest_first :: "'a message_row_scheme list \<Rightarrow> 'a message_row_scheme list" where
  "newest_first rows = rev (in_order rows)"

lemma sort_key_snoc:
  fixes f :: "'b \<Rightarrow> 'k :: linorder"
  assumes "\<And>y. y \<in> set xs \<Longrightarrow> f y \<le> f x"
  shows "sort_key f (xs @ [x]) = sort_key f xs @ [x]"
proof (rule properties_for_sort_key)
  show "mset (sort_key f xs @ [x]) = mset (xs @ [x])" by simp
  show "filter (\<lambda>y. f k = f y) (sort_key f xs @ [x]) = filter (\<lambda>y. f k = f y) (xs @ [x])" for k
    using sort_key_stable [of f "f k" xs] by (simp add: eq_commute)
  show "sorted (map f (sort_key f xs @ [x]))"
    using assms by (simp add: sorted_append)
qed

lemma in_order_snoc:
  assumes "\<And>y. y \<in> set rows \<Longrightarrow> mr_ts y \<le> mr_ts r \<and> mr_id y < mr_id r"
  shows "in_order (rows @ [r]) = in_order rows @ [r]"
  unfolding in_order_def using assms by (intro sort_key_snoc) (fastforce simp: less_eq_prod_def)

lemma in_order_filter: "in_order (filter P rows) = filter P (in_order rows)"
  by (simp add: in_order_def filter_sort)

lemma set_in_order [simp]: "set (in_order rows) = set rows"
  by (simp add: in_order_def)

lemma length_in_order [simp]: "length (in_order rows) = length rows"
  by (simp add: in_order_def)

lemma in_order_Nil [simp]: "in_order [] = []" "in_order rows = [] \<longleftrightarrow> rows = []"
  by (simp_all add: in_order_def flip: set_empty)

lemma in_order_distinct: "distinct (map mr_id (in_order rows)) = distinct (map mr_id rows)"
  unfolding in_order_def by (intro mset_eq_imp_distinct_iff) simp

lemma drop_newest:
  assumes "distinct (map mr_id xs)" and "xs \<noteq> []"
  shows "filter (\<lambda>r. mr_id r \<noteq> mr_id (last xs)) xs = butlast xs"
proof -
  obtain ys y where xs: "xs = ys @ [y]" using assms(2) by (metis append_butlast_last_id)
  then have "filter (\<lambda>r. mr_id r \<noteq> mr_id y) ys = ys"
    using assms(1) by (intro filter_True) (auto simp: xs image_iff)
  then show ?thesis by (simp add: xs)
qed

subsection \<open>Rows of one session\<close>

definition of_session :: "string \<Rightarrow> 'a message_row_scheme list \<Rightarrow> 'a message_row_scheme list" where
  "of_session k rows = filter (\<lambda>r. mr_session r = k) rows"

text \<open>Copies of rows, with new ids from \<open>n\<close> on.\<close>

definition renumbered :: "nat \<Rightarrow> string \<Rightarrow> 'a message_row_scheme list \<Rightarrow> 'a message_row_scheme list" where
  "renumbered n k rows = map2 (\<lambda>i r. r\<lparr>mr_id := i, mr_session := k\<rparr>) [n..<n + length rows] rows"

lemma renumbered_Nil [simp]: "renumbered n k [] = []"
  by (simp add: renumbered_def)

lemma renumbered_Cons [simp]:
  "renumbered n k (r # rs) = r\<lparr>mr_id := n, mr_session := k\<rparr> # renumbered (Suc n) k rs"
  by (simp add: renumbered_def upt_conv_Cons del: upt_Suc)

lemma renumbered_ids [simp]: "map mr_id (renumbered n k rows) = [n..<n + length rows]"
  by (induction rows arbitrary: n) (simp_all add: upt_conv_Cons del: upt_Suc)

lemma renumbered_bodies [simp]: "map mr_body (renumbered n k rows) = map mr_body rows"
  by (induction rows arbitrary: n) simp_all

lemma renumbered_set:
  "x \<in> set (renumbered n k rows) \<Longrightarrow>
     mr_session x = k \<and> n \<le> mr_id x \<and> mr_id x < n + length rows \<and> (\<exists>r \<in> set rows. mr_ts x = mr_ts r)"
  by (induction rows arbitrary: n) fastforce+

lemma renumbered_sorted:
  "sorted (map (\<lambda>r. (mr_ts r, mr_id r)) rows) \<Longrightarrow>
     sorted (map (\<lambda>r. (mr_ts r, mr_id r)) (renumbered n k rows))"
proof (induction rows arbitrary: n)
  case (Cons r rows)
  have "mr_ts r \<le> mr_ts y" if "y \<in> set rows" for y
    using Cons.prems that by (auto simp: less_eq_prod_def)
  then have "(mr_ts r, n) \<le> (mr_ts x, mr_id x)" if "x \<in> set (renumbered (Suc n) k rows)" for x
    using renumbered_set [OF that] by (auto simp: less_eq_prod_def)
  then show ?case using Cons by auto
qed simp

lemma renumbered_in_order: "in_order (renumbered n k (in_order rows)) = renumbered n k (in_order rows)"
  unfolding in_order_def by (intro sort_key_id_if_sorted renumbered_sorted) simp

lemma latest_in_order:
  assumes "distinct (map mr_id rows)"
  shows "in_order (take n (rev (in_order rows))) = drop (length rows - n) (in_order rows)"
proof -
  let ?q = "in_order rows"
  have "take n (rev ?q) = rev (drop (length rows - n) ?q)"
    by (simp add: take_rev)
  moreover have "in_order (rev (drop m ?q)) = drop m ?q" for m
    unfolding in_order_def
  proof (rule sort_key_inj_key_eq)
    show "mset (rev (drop m (sort_key (\<lambda>r. (mr_ts r, mr_id r)) rows)))
        = mset (drop m (sort_key (\<lambda>r. (mr_ts r, mr_id r)) rows))" by simp
    show "inj_on (\<lambda>r. (mr_ts r, mr_id r)) (set (rev (drop m (sort_key (\<lambda>r. (mr_ts r, mr_id r)) rows))))"
      using assms by (auto simp: distinct_map inj_on_def dest!: in_set_dropD)
    show "sorted (map (\<lambda>r. (mr_ts r, mr_id r)) (drop m (sort_key (\<lambda>r. (mr_ts r, mr_id r)) rows)))"
      by (simp add: sorted_wrt_drop flip: drop_map)
  qed
  ultimately show ?thesis by simp
qed

subsection \<open>Selections of a table\<close>

text \<open>
  Both stores keep their messages in one table and read a session through a selection \<open>P\<close> of
  its rows: the lemmas say what the statements of the stores do to a selection.
\<close>

definition timed :: "('a message_row_scheme \<Rightarrow> bool) \<Rightarrow> 'a message_row_scheme list \<Rightarrow> (int \<times> message_body) list" where
  "timed P rows = map (\<lambda>r. (mr_ts r, mr_body r)) (in_order (filter P rows))"

definition bodies :: "('a message_row_scheme \<Rightarrow> bool) \<Rightarrow> 'a message_row_scheme list \<Rightarrow> message_body list" where
  "bodies P rows = map mr_body (in_order (filter P rows))"

lemma bodies_timed: "bodies P rows = map snd (timed P rows)"
  by (simp add: bodies_def timed_def)

definition good_rows :: "int \<Rightarrow> nat \<Rightarrow> 'a message_row_scheme list \<Rightarrow> bool" where
  "good_rows now n rows \<longleftrightarrow> distinct (map mr_id rows) \<and> (\<forall>r \<in> set rows. mr_id r < n \<and> mr_ts r \<le> now)"

lemma good_rows_later: "good_rows t n rows \<Longrightarrow> t \<le> now \<Longrightarrow> good_rows now n rows"
  by (fastforce simp: good_rows_def)

lemma good_rows_filter: "good_rows now n rows \<Longrightarrow> good_rows now n (filter P rows)"
  by (auto simp: good_rows_def distinct_map_filter)

lemma good_rows_append:
  "good_rows now n rows \<Longrightarrow> mr_id r = n \<Longrightarrow> mr_ts r = now \<Longrightarrow> good_rows now (Suc n) (rows @ [r])"
  by (auto simp: good_rows_def less_Suc_eq)

lemma timed_append:
  assumes "good_rows now n rows" and "mr_id r = n" and "mr_ts r = now"
  shows "timed P (rows @ [r]) = (if P r then timed P rows @ [(mr_ts r, mr_body r)] else timed P rows)"
proof -
  have "in_order (filter P rows @ [r]) = in_order (filter P rows) @ [r]"
    using assms by (intro in_order_snoc) (auto simp: good_rows_def)
  then show ?thesis by (simp add: timed_def)
qed

lemma timed_latest:
  assumes "good_rows now n rows"
  shows "map (\<lambda>r. (mr_ts r, mr_body r)) (in_order (take k (newest_first (filter P rows)))) = drop (length (timed P rows) - k) (timed P rows)"
  using latest_in_order [of "filter P rows" k] assms
  by (simp add: good_rows_def timed_def newest_first_def distinct_map_filter drop_map)

lemma newest_first_Cons:
  "filter P rows \<noteq> [] \<Longrightarrow> \<exists>rest. newest_first (filter P rows) = last (in_order (filter P rows)) # rest"
  unfolding newest_first_def by (metis append_butlast_last_id in_order_Nil(2) rev_eq_Cons_iff rev_rev_ident)

lemma timed_pop:
  assumes "good_rows now n rows" and "filter P rows \<noteq> []"
    and "r = last (in_order (filter P rows))" and "Q = P \<or> \<not> Q r"
  shows "timed Q (filter (\<lambda>x. mr_id x \<noteq> mr_id r) rows) = (if Q = P then butlast (timed P rows) else timed Q rows)"
proof (cases "Q = P")
  case True
  have "filter P (filter (\<lambda>x. mr_id x \<noteq> mr_id r) rows) = filter (\<lambda>x. mr_id x \<noteq> mr_id r) (filter P rows)"
    by (auto simp: filter_filter intro: filter_cong)
  then have "in_order (filter P (filter (\<lambda>x. mr_id x \<noteq> mr_id r) rows))
      = filter (\<lambda>x. mr_id x \<noteq> mr_id r) (in_order (filter P rows))"
    by (simp add: in_order_filter)
  also have "\<dots> = butlast (in_order (filter P rows))"
    unfolding assms(3) using assms(1,2)
    by (intro drop_newest) (simp_all add: in_order_distinct good_rows_def distinct_map_filter)
  finally show ?thesis using True by (simp add: timed_def map_butlast)
next
  case False
  have "r \<in> set rows"
    using assms(2,3) last_in_set [of "in_order (filter P rows)"] by auto
  then have "mr_id x \<noteq> mr_id r" if "x \<in> set rows" "Q x" for x
    using that False assms(1,4) by (auto simp: good_rows_def distinct_map inj_on_def)
  then have "filter Q (filter (\<lambda>x. mr_id x \<noteq> mr_id r) rows) = filter Q rows"
    by (auto simp: filter_filter intro!: filter_cong)
  then show ?thesis using False by (simp add: timed_def)
qed

lemma timed_last: "filter P rows \<noteq> [] \<Longrightarrow> last (timed P rows) = (let r = last (in_order (filter P rows)) in (mr_ts r, mr_body r))"
  by (simp add: timed_def last_map Let_def)

lemma timed_Nil: "timed P rows = [] \<longleftrightarrow> filter P rows = []"
  by (simp add: timed_def)

lemma length_timed [simp]: "length (timed P rows) = length (filter P rows)"
  by (simp add: timed_def)

lemma timed_drop:
  "(\<And>x. Q x \<Longrightarrow> Q = P \<or> \<not> P x) \<Longrightarrow> timed Q (filter (\<lambda>x. \<not> P x) rows) = (if Q = P then [] else timed Q rows)"
  by (auto simp: timed_def filter_filter filter_empty_conv intro!: arg_cong [of _ _ "\<lambda>xs. map (\<lambda>r. (mr_ts r, mr_body r)) (in_order xs)"] filter_cong)

lemma good_rows_copy:
  assumes "good_rows now n rows"
  shows "good_rows now (n + length (filter P rows)) (rows @ renumbered n k (in_order (filter P rows)))"
proof -
  have "mr_id x < n + length (filter P rows) \<and> mr_ts x \<le> now"
    if "x \<in> set (renumbered n k (in_order (filter P rows)))" for x
    using renumbered_set [OF that] assms by (auto simp: good_rows_def)
  then show ?thesis
    using assms by (auto simp: good_rows_def)
qed

text \<open>Rows in which ids grow where the times are equal are sorted by the time alone.\<close>

abbreviation id_rises :: "'a message_row_scheme \<Rightarrow> 'a message_row_scheme \<Rightarrow> bool" where
  "id_rises x y \<equiv> mr_ts x = mr_ts y \<longrightarrow> mr_id x \<le> mr_id y"

lemma insort_time:
  "(\<And>y. y \<in> set ys \<Longrightarrow> id_rises x y) \<Longrightarrow> insort_key mr_ts x ys = insort_key (\<lambda>r. (mr_ts r, mr_id r)) x ys"
  by (induction ys) (auto simp: less_eq_prod_def)

lemma in_order_time: "sorted_wrt id_rises rows \<Longrightarrow> in_order rows = sort_key mr_ts rows"
proof (induction rows)
  case (Cons r rows)
  then have "in_order rows = sort_key mr_ts rows" by simp
  moreover have "insort_key mr_ts r (sort_key mr_ts rows) = insort_key (\<lambda>r. (mr_ts r, mr_id r)) r (sort_key mr_ts rows)"
    using Cons.prems by (intro insort_time) simp
  ultimately show ?case by (simp add: in_order_def)
qed simp

lemma insort_map: "insort_key f (h x) (map h ys) = map h (insort_key (\<lambda>z. f (h z)) x ys)"
  by (induction ys) simp_all

lemma sort_map: "sort_key f (map h xs) = map h (sort_key (\<lambda>z. f (h z)) xs)"
  by (induction xs) (simp_all add: insort_map)

lemma in_order_rises: "sorted_wrt id_rises (in_order rows)"
proof -
  have "sorted (map (\<lambda>r. (mr_ts r, mr_id r)) (in_order rows))" by (simp add: in_order_def)
  then show ?thesis unfolding sorted_map by (rule sorted_wrt_mono_rel [rotated]) (auto simp: less_eq_prod_def)
qed

lemma in_order_append:
  assumes "distinct (map mr_id (xs @ ys))" and "\<And>x y. x \<in> set xs \<Longrightarrow> y \<in> set ys \<Longrightarrow> mr_id x < mr_id y"
  shows "in_order (xs @ ys) = sort_key mr_ts (in_order xs @ in_order ys)"
proof -
  have "in_order (xs @ ys) = in_order (in_order xs @ in_order ys)"
    unfolding in_order_def
  proof (rule sort_key_inj_key_eq)
    show "inj_on (\<lambda>r. (mr_ts r, mr_id r)) (set (xs @ ys))"
      using assms(1) unfolding distinct_map by (auto simp: inj_on_def)
  qed simp_all
  also have "\<dots> = sort_key mr_ts (in_order xs @ in_order ys)"
    using assms(2) in_order_rises [of xs] in_order_rises [of ys]
    by (intro in_order_time) (fastforce simp: sorted_wrt_append)
  finally show ?thesis .
qed

text \<open>Copying a selection into one that may hold rows merges them by their times.\<close>

lemma timed_copy:
  assumes "good_rows now n rows"
    and "\<And>x. x \<in> set (renumbered n k (in_order (filter P rows))) \<Longrightarrow> Q x = b"
  shows "timed Q (rows @ renumbered n k (in_order (filter P rows)))
    = (if b then sort_key fst (timed Q rows @ timed P rows) else timed Q rows)"
proof (cases b)
  case False
  then have "filter Q (renumbered n k (in_order (filter P rows))) = []"
    using assms(2) by (simp add: filter_empty_conv)
  then show ?thesis using False by (simp add: timed_def)
next
  case True
  let ?new = "renumbered n k (in_order (filter P rows))"
  have new: "filter Q ?new = ?new" using assms(2) True by simp
  have "in_order (filter Q rows @ ?new) = sort_key mr_ts (in_order (filter Q rows) @ in_order ?new)"
  proof (rule in_order_append)
    show "mr_id x < mr_id y" if "x \<in> set (filter Q rows)" "y \<in> set ?new" for x y
      using that(1) renumbered_set [OF that(2)] assms(1) by (auto simp: good_rows_def)
    show "distinct (map mr_id (filter Q rows @ ?new))"
      using assms(1) by (fastforce simp: good_rows_def distinct_map_filter)
  qed
  moreover have copied: "map (\<lambda>r. (mr_ts r, mr_body r)) ?new = timed P rows"
  proof -
    have "map (\<lambda>r. (mr_ts r, mr_body r)) (renumbered m k xs) = map (\<lambda>r. (mr_ts r, mr_body r)) xs"
      for m and xs :: "'a message_row_scheme list"
      by (induction xs arbitrary: m) simp_all
    then show ?thesis by (simp add: timed_def)
  qed
  ultimately have "timed Q (rows @ ?new) = map (\<lambda>r. (mr_ts r, mr_body r)) (sort_key mr_ts (in_order (filter Q rows) @ ?new))"
    by (simp only: timed_def filter_append new renumbered_in_order)
  also have "\<dots> = sort_key fst (map (\<lambda>r. (mr_ts r, mr_body r)) (in_order (filter Q rows) @ ?new))"
    by (simp only: sort_map fst_conv)
  also have "\<dots> = sort_key fst (timed Q rows @ timed P rows)"
    by (simp only: map_append copied) (simp only: timed_def)
  finally show ?thesis using True by simp
qed

subsection \<open>The contract of a message store\<close>

datatype store_op =
    OpenSession string string "string option"
  | AppendMsg string message_body
  | GetMsgs string "int option"
  | PopMsg string
  | ClearMsgs string
  | CopyMsgs string string

datatype store_reply =
    Done
  | Appended nat
  | Msgs "(string \<times> json) list list"
  | Popped "(string \<times> json) list option"
  | Copied nat
  | Raised exn

text \<open>
  Abstractly a store knows the keys of its sessions, and of every key the messages with their
  times, in order.  A negative limit is no limit; messages can be put under a key whose session
  has not been made.
\<close>

type_synonym conversations = "string set \<times> (string \<Rightarrow> (int \<times> message_body) list)"

definition last_n :: "int option \<Rightarrow> 'x list \<Rightarrow> 'x list" where
  "last_n n xs = (case n of None \<Rightarrow> xs | Some k \<Rightarrow> if k < 0 then xs else drop (length xs - nat k) xs)"

fun conv_step :: "int \<Rightarrow> store_op \<Rightarrow> conversations \<Rightarrow> store_reply \<times> conversations" where
  "conv_step now (OpenSession k source model) (ks, c) = (Done, (insert k ks, c))"
| "conv_step now (AppendMsg k b) (ks, c) = (Appended 0, (ks, c(k := c k @ [(now, stored_body b)])))"
| "conv_step now (GetMsgs k n) (ks, c) = (Msgs (map (\<lambda>m. body_to_msg (snd m)) (last_n n (c k))), (ks, c))"
| "conv_step now (PopMsg k) (ks, c) =
     (Popped (if c k = [] then None else Some (body_to_msg (snd (last (c k))))), (ks, c(k := butlast (c k))))"
| "conv_step now (ClearMsgs k) (ks, c) = (Done, (ks, c(k := [])))"
| "conv_step now (CopyMsgs src dst) (ks, c) =
     (Copied (length (c src)), (ks, c(dst := sort_key fst (c dst @ c src))))"

text \<open>A store may refuse an operation, with an error and without a change.\<close>

type_synonym refusal = "store_op \<Rightarrow> conversations \<Rightarrow> exn option"

definition guarded_step :: "refusal \<Rightarrow> int \<Rightarrow> store_op \<Rightarrow> conversations \<Rightarrow> store_reply \<times> conversations" where
  "guarded_step refuses now o1 c = (case refuses o1 c of Some e \<Rightarrow> (Raised e, c) | None \<Rightarrow> conv_step now o1 c)"

fun guarded_run :: "refusal \<Rightarrow> (int \<times> store_op) list \<Rightarrow> conversations \<Rightarrow> store_reply list" where
  "guarded_run refuses [] c = []"
| "guarded_run refuses ((now, o1) # os) c =
     (let (r, c') = guarded_step refuses now o1 c in r # guarded_run refuses os c')"

text \<open>A run of a store takes the time of each operation.\<close>

fun store_run ::
  "(int \<Rightarrow> store_op \<Rightarrow> 'db \<Rightarrow> store_reply \<times> 'db) \<Rightarrow> (int \<times> store_op) list \<Rightarrow> 'db \<Rightarrow> store_reply list"
where
  "store_run step [] db = []"
| "store_run step ((now, o1) # os) db = (let (r, db') = step now o1 db in r # store_run step os db')"

fun clock_ok :: "int \<Rightarrow> (int \<times> store_op) list \<Rightarrow> bool" where
  "clock_ok t [] \<longleftrightarrow> True"
| "clock_ok t ((now, o1) # os) \<longleftrightarrow> t \<le> now \<and> clock_ok now os"

text \<open>The ids of appended messages are the store's own: the contract leaves them out and asks that they grow.\<close>

fun sans_id :: "store_reply \<Rightarrow> store_reply" where
  "sans_id (Appended i) = Appended 0"
| "sans_id r = r"

lemma sans_id_Raised [simp]: "sans_id r = Raised e \<longleftrightarrow> r = Raised e" "Raised e = sans_id r \<longleftrightarrow> r = Raised e"
  by (cases r; auto)+

fun appended_ids :: "store_reply list \<Rightarrow> nat list" where
  "appended_ids [] = []"
| "appended_ids (Appended i # rs) = i # appended_ids rs"
| "appended_ids (r # rs) = appended_ids rs"

locale message_store =
  fixes step :: "int \<Rightarrow> store_op \<Rightarrow> 'db \<Rightarrow> store_reply \<times> 'db"
    and view :: "'db \<Rightarrow> conversations"
    and good :: "int \<Rightarrow> 'db \<Rightarrow> bool"
    and refuses :: refusal
    and next_id :: "'db \<Rightarrow> nat"
  assumes later: "good t db \<Longrightarrow> t \<le> now \<Longrightarrow> good now db"
    and refines: "good now db \<Longrightarrow> step now o1 db = (r, db') \<Longrightarrow>
      good now db' \<and> guarded_step refuses now o1 (view db) = (sans_id r, view db')"
    and ids: "good now db \<Longrightarrow> step now o1 db = (r, db') \<Longrightarrow>
      next_id db \<le> next_id db' \<and> (\<forall>i. r = Appended i \<longrightarrow> next_id db \<le> i \<and> i < next_id db')"
begin

lemma run_refines:
  "good t db \<Longrightarrow> clock_ok t os \<Longrightarrow> map sans_id (store_run step os db) = guarded_run refuses os (view db)"
proof (induction os arbitrary: t db)
  case (Cons x os)
  obtain now o1 where x: "x = (now, o1)" by (cases x)
  obtain r db' where st: "step now o1 db = (r, db')" by (cases "step now o1 db")
  have "good now db" using Cons.prems later x by auto
  from refines [OF this st] show ?case using Cons.IH [of now db'] Cons.prems by (simp add: x st)
qed simp

lemma run_ids:
  "good t db \<Longrightarrow> clock_ok t os \<Longrightarrow>
     sorted_wrt (<) (appended_ids (store_run step os db)) \<and> (\<forall>i \<in> set (appended_ids (store_run step os db)). next_id db \<le> i)"
proof (induction os arbitrary: t db)
  case (Cons x os)
  obtain now o1 where x: "x = (now, o1)" by (cases x)
  obtain r db' where st: "step now o1 db = (r, db')" by (cases "step now o1 db")
  have good: "good now db" using Cons.prems later x by auto
  have IH: "sorted_wrt (<) (appended_ids (store_run step os db'))" "\<forall>i \<in> set (appended_ids (store_run step os db')). next_id db' \<le> i"
    using Cons.IH [of now db'] Cons.prems refines [OF good st] by (auto simp: x)
  show ?case using ids [OF good st] IH by (cases r) (fastforce simp: x st)+
qed simp

end

text \<open>A run in which nothing is refused is a run of the contract itself.\<close>

lemma guarded_run_free:
  "(\<And>e. Raised e \<notin> set (guarded_run refuses os c)) \<Longrightarrow> snd c = snd c' \<Longrightarrow>
     guarded_run refuses os c = guarded_run (\<lambda>_ _. None) os c'"
proof (induction os arbitrary: c c')
  case (Cons x os)
  obtain now o1 where x: "x = (now, o1)" by (cases x)
  obtain ks m ks' where c: "c = (ks, m)" "c' = (ks', m)"
    using Cons.prems(2) by (cases c; cases c') auto
  have free: "refuses o1 c = None"
    using Cons.prems(1) by (cases "refuses o1 c") (auto simp: x guarded_step_def)
  obtain r d where st: "conv_step now o1 c = (r, d)" by (cases "conv_step now o1 c")
  obtain d' where st': "conv_step now o1 c' = (r, d')" and "snd d = snd d'"
    using st by (cases o1) (auto simp: c)
  moreover have "guarded_run refuses os d = guarded_run (\<lambda>_ _. None) os d'"
    using Cons.prems(1) \<open>snd d = snd d'\<close> by (intro Cons.IH) (auto simp: x guarded_step_def free st)
  ultimately show ?case by (simp add: x guarded_step_def free st st')
qed simp

end
