(* ===== verification/Pg_Sessions.thy ===== *)
theory Pg_Sessions
  imports Session_Tables Layered_Tables
begin

text \<open>
  \<open>repositories/session_repo.py\<close> and \<open>repositories/message_repo.py\<close>: the Postgres tables of
  sessions and messages.  Every statement is filtered by the user of the transaction; a
  message refers to an existing session, of whichever user.  The full-text search is left out.
\<close>

subsection \<open>Tables\<close>

record pg_message = message_row +
  mr_user :: uuid

type_synonym pg_session = "uuid session_row"

record pg_db =
  pd_sessions :: "pg_session list"
  pd_messages :: "pg_message list"
  pd_next_id :: nat

text \<open>A text of Postgres has no NUL, and neither has a text inside \<open>JSONB\<close>.\<close>

definition pg_string :: "string \<Rightarrow> bool" where
  "pg_string s \<longleftrightarrow> CHR 0x00 \<notin> set s"

definition pg_string_opt :: "string option \<Rightarrow> bool" where
  "pg_string_opt v \<longleftrightarrow> (case v of None \<Rightarrow> True | Some s \<Rightarrow> pg_string s)"

fun pg_json :: "json \<Rightarrow> bool" where
  "pg_json (JStr s) \<longleftrightarrow> pg_string s"
| "pg_json (JArr vs) \<longleftrightarrow> list_all pg_json vs"
| "pg_json (JObj kvs) \<longleftrightarrow> list_all (\<lambda>(k, v). pg_string k \<and> pg_json v) kvs"
| "pg_json _ \<longleftrightarrow> True"

definition pg_body :: "message_body \<Rightarrow> bool" where
  "pg_body b \<longleftrightarrow> pg_string (mb_role b) \<and> pg_string_opt (mb_content b) \<and> pg_string_opt (mb_tool_call_id b) \<and>
     pg_string_opt (mb_tool_name b) \<and> (case mb_tool_calls b of None \<Rightarrow> True | Some cs \<Rightarrow> list_all pg_json cs)"

text \<open>A statement with such a parameter fails.\<close>

definition pg_param :: "bool \<Rightarrow> unit result" where
  "pg_param ok = (if ok then Inr () else Inl DataError)"

lemma pg_param_simps [simp]: "pg_param True = Inr ()" "pg_param False = Inl DataError"
  by (simp_all add: pg_param_def)

definition own :: "uuid \<Rightarrow> string \<Rightarrow> pg_session \<Rightarrow> bool" where
  "own u sid s \<longleftrightarrow> ss_id s = sid \<and> ss_user s = u"

definition mine :: "uuid \<Rightarrow> pg_message list \<Rightarrow> pg_message list" where
  "mine u rows = filter (\<lambda>r. mr_user r = u) rows"

definition pg_set_count :: "(int \<Rightarrow> int) \<Rightarrow> uuid \<Rightarrow> string \<Rightarrow> pg_db \<Rightarrow> pg_db" where
  "pg_set_count f u k db = db\<lparr>pd_sessions := map (\<lambda>s. if own u k s
     then s\<lparr>ss_message_count := f (ss_message_count s)\<rparr> else s) (pd_sessions db)\<rparr>"

definition pg_limit :: "int \<Rightarrow> 'x list \<Rightarrow> 'x list result" where
  "pg_limit n xs = (if n < 0 then Inl DataError else Inr (take (nat n) xs))"

subsection \<open>Sessions\<close>

text \<open>
  Since revision \<open>0003_agents\<close> the column \<open>agent_id\<close> is \<open>NOT NULL\<close>; the insert never sets it.
\<close>

definition pg_create_session ::
  "schema_rev \<Rightarrow> uuid option \<Rightarrow> string \<Rightarrow> string \<Rightarrow> string option \<Rightarrow> int \<Rightarrow> pg_db \<Rightarrow> (unit \<times> pg_db) result"
where
  "pg_create_session sch guc sid source model now db =
     bind_result (current_user_id guc) (\<lambda>u.
       if \<not> (pg_string sid \<and> pg_string source \<and> pg_string_opt model) then Inl DataError
       else if sch = Schema_0003 then Inl IntegrityError
       else if sid \<in> ss_id ` set (pd_sessions db) then Inr ((), db)
       else Inr ((), db\<lparr>pd_sessions := pd_sessions db @
         [\<lparr>ss_id = sid, ss_source = source, ss_user = u, ss_model = model, ss_started_at = now,
           ss_ended_at = None, ss_end_reason = None, ss_message_count = 0, ss_tool_call_count = 0,
           ss_input_tokens = 0, ss_output_tokens = 0, ss_title = None\<rparr>]\<rparr>))"

definition pg_end_session :: "uuid option \<Rightarrow> string \<Rightarrow> string \<Rightarrow> int \<Rightarrow> pg_db \<Rightarrow> (unit \<times> pg_db) result" where
  "pg_end_session guc sid reason now db =
     bind_result (current_user_id guc) (\<lambda>u. bind_result (pg_param (pg_string sid \<and> pg_string reason)) (\<lambda>_. Inr ((),
       db\<lparr>pd_sessions := map (\<lambda>s. if own u sid s
          then s\<lparr>ss_ended_at := Some now, ss_end_reason := Some reason\<rparr> else s) (pd_sessions db)\<rparr>)))"

definition pg_get_session_meta :: "uuid option \<Rightarrow> string \<Rightarrow> pg_db \<Rightarrow> pg_session option result" where
  "pg_get_session_meta guc sid db =
     bind_result (current_user_id guc) (\<lambda>u. bind_result (pg_param (pg_string sid)) (\<lambda>_.
       scalar_one_or_none (filter (own u sid) (pd_sessions db))))"

definition pg_list_recent_sessions :: "uuid option \<Rightarrow> int \<Rightarrow> bool \<Rightarrow> pg_db \<Rightarrow> pg_session list result" where
  "pg_list_recent_sessions guc most include_ended db =
     bind_result (current_user_id guc) (\<lambda>u.
       pg_limit most (sort_key (\<lambda>s. - ss_started_at s)
         (filter (\<lambda>s. ss_user s = u \<and> (include_ended \<or> ss_ended_at s = None)) (pd_sessions db))))"

text \<open>Deleting sessions cascades on their messages.\<close>

definition drop_sessions :: "uuid \<Rightarrow> string list \<Rightarrow> pg_db \<Rightarrow> pg_db" where
  "drop_sessions u ids db =
     (let gone = ss_id ` set (filter (\<lambda>s. ss_user s = u \<and> ss_id s \<in> set ids) (pd_sessions db)) in
      db\<lparr>pd_messages := filter (\<lambda>r. \<not> (mr_user r = u \<and> mr_session r \<in> set ids) \<and> mr_session r \<notin> gone) (pd_messages db),
         pd_sessions := filter (\<lambda>s. \<not> (ss_user s = u \<and> ss_id s \<in> set ids)) (pd_sessions db)\<rparr>)"

definition pg_delete_sessions_ended_before :: "uuid option \<Rightarrow> int \<Rightarrow> pg_db \<Rightarrow> (nat \<times> pg_db) result" where
  "pg_delete_sessions_ended_before guc cutoff db =
     bind_result (current_user_id guc) (\<lambda>u.
       let ids = map ss_id (filter (\<lambda>s. ss_user s = u \<and>
           (case ss_ended_at s of None \<Rightarrow> False | Some t \<Rightarrow> t < cutoff)) (pd_sessions db)) in
       Inr (if ids = [] then (0, db) else (length ids, drop_sessions u ids db)))"

definition pg_delete_session :: "uuid option \<Rightarrow> string \<Rightarrow> pg_db \<Rightarrow> (bool \<times> pg_db) result" where
  "pg_delete_session guc sid db =
     bind_result (current_user_id guc) (\<lambda>u. bind_result (pg_param (pg_string sid)) (\<lambda>_.
       Inr (list_ex (own u sid) (pd_sessions db), drop_sessions u [sid] db)))"

text \<open>Postgres' \<open>LIKE\<close>: \<open>%\<close> and \<open>_\<close> are wildcards and a backslash escapes.\<close>

fun pg_like :: "string \<Rightarrow> string \<Rightarrow> bool" where
  "pg_like [] s = (s = [])"
| "pg_like (p # ps) s =
     (if p = CHR ''%'' then (case s of [] \<Rightarrow> pg_like ps [] | c # cs \<Rightarrow> pg_like ps s \<or> pg_like (p # ps) cs)
      else (case s of
          [] \<Rightarrow> False
        | c # cs \<Rightarrow>
            (if p = CHR ''_'' then pg_like ps cs
             else if p = CHR 0x5C then (case ps of [] \<Rightarrow> False | q # qs \<Rightarrow> q = c \<and> pg_like qs cs)
             else p = c \<and> pg_like ps cs)))"

definition pg_find_session_by_prefix :: "uuid option \<Rightarrow> string \<Rightarrow> pg_db \<Rightarrow> string option result" where
  "pg_find_session_by_prefix guc prefix db =
     (if prefix = [] then Inr None
      else bind_result (current_user_id guc) (\<lambda>u. bind_result (pg_param (pg_string prefix)) (\<lambda>_.
        case take 2 (sort_key (\<lambda>s. - ss_started_at s)
            (filter (\<lambda>s. ss_user s = u \<and> pg_like (prefix @ ''%'') (ss_id s)) (pd_sessions db))) of
          [] \<Rightarrow> Inr None
        | [s] \<Rightarrow> Inr (Some (ss_id s))
        | _ \<Rightarrow> Inl ValueError)))"

subsection \<open>Messages\<close>

definition pg_append_message ::
  "uuid option \<Rightarrow> string \<Rightarrow> message_body \<Rightarrow> int \<Rightarrow> pg_db \<Rightarrow> (nat \<times> pg_db) result"
where
  "pg_append_message guc k b now db =
     bind_result (current_user_id guc) (\<lambda>u.
       if \<not> (pg_string k \<and> pg_body (stored_body b)) then Inl DataError
       else if k \<notin> ss_id ` set (pd_sessions db) then Inl IntegrityError
       else Inr (pd_next_id db,
         pg_set_count (\<lambda>n. n + 1) u k (db\<lparr>pd_messages := pd_messages db @
             [\<lparr>mr_id = pd_next_id db, mr_session = k, mr_body = stored_body b, mr_ts = now, mr_user = u\<rparr>],
           pd_next_id := Suc (pd_next_id db)\<rparr>)))"

definition pg_get_messages :: "uuid option \<Rightarrow> string \<Rightarrow> int option \<Rightarrow> pg_db \<Rightarrow> (string \<times> json) list list result" where
  "pg_get_messages guc k most db =
     bind_result (current_user_id guc) (\<lambda>u. bind_result (pg_param (pg_string k)) (\<lambda>_.
       let rows = of_session k (mine u (pd_messages db)) in
       case most of
         None \<Rightarrow> Inr (map (body_to_msg \<circ> mr_body) (in_order rows))
       | Some n \<Rightarrow> bind_result (pg_limit n (newest_first rows)) (\<lambda>xs. Inr (map (body_to_msg \<circ> mr_body) (rev xs)))))"

definition pg_pop_last_message ::
  "uuid option \<Rightarrow> string \<Rightarrow> pg_db \<Rightarrow> ((string \<times> json) list option \<times> pg_db) result"
where
  "pg_pop_last_message guc k db =
     bind_result (current_user_id guc) (\<lambda>u. bind_result (pg_param (pg_string k)) (\<lambda>_.
       Inr (case newest_first (of_session k (mine u (pd_messages db))) of
          [] \<Rightarrow> (None, db)
        | r # _ \<Rightarrow>
            (Some (body_to_msg (mr_body r)),
             pg_set_count (\<lambda>n. max (n - 1) 0) u k
               (db\<lparr>pd_messages := filter (\<lambda>x. \<not> (mr_user x = u \<and> mr_id x = mr_id r)) (pd_messages db)\<rparr>)))))"

definition pg_clear_session :: "uuid option \<Rightarrow> string \<Rightarrow> pg_db \<Rightarrow> (unit \<times> pg_db) result" where
  "pg_clear_session guc k db =
     bind_result (current_user_id guc) (\<lambda>u. bind_result (pg_param (pg_string k)) (\<lambda>_. Inr ((),
       pg_set_count (\<lambda>n. 0) u k
         (db\<lparr>pd_messages := filter (\<lambda>r. \<not> (mr_user r = u \<and> mr_session r = k)) (pd_messages db)\<rparr>))))"

definition pg_copy_messages :: "uuid option \<Rightarrow> string \<Rightarrow> string \<Rightarrow> pg_db \<Rightarrow> (nat \<times> pg_db) result" where
  "pg_copy_messages guc src dst db =
     bind_result (current_user_id guc) (\<lambda>u. bind_result (pg_param (pg_string src)) (\<lambda>_.
       let rows = in_order (of_session src (mine u (pd_messages db))) in
       if rows = [] then Inr (0, db)
       else if \<not> pg_string dst then Inl DataError
       else if dst \<notin> ss_id ` set (pd_sessions db) then Inl IntegrityError
       else Inr (length rows,
         pg_set_count (\<lambda>n. int (length rows)) u dst
           (db\<lparr>pd_messages := pd_messages db @ renumbered (pd_next_id db) dst rows,
               pd_next_id := pd_next_id db + length rows\<rparr>))))"

subsection \<open>The store keeps the contract\<close>

text \<open>An operation of a user is one transaction: where it raises, the tables are as before.\<close>

definition pg_step :: "schema_rev \<Rightarrow> uuid \<Rightarrow> int \<Rightarrow> store_op \<Rightarrow> pg_db \<Rightarrow> store_reply \<times> pg_db" where
  "pg_step sch u now c db =
     (case (case c of
        OpenSession k source model \<Rightarrow> map_sum id (\<lambda>(_, db'). (Done, db')) (pg_create_session sch (Some u) k source model now db)
      | AppendMsg k b \<Rightarrow> map_sum id (\<lambda>(i, db'). (Appended i, db')) (pg_append_message (Some u) k b now db)
      | GetMsgs k n \<Rightarrow> map_sum id (\<lambda>ms. (Msgs ms, db)) (pg_get_messages (Some u) k n db)
      | PopMsg k \<Rightarrow> map_sum id (\<lambda>(m, db'). (Popped m, db')) (pg_pop_last_message (Some u) k db)
      | ClearMsgs k \<Rightarrow> map_sum id (\<lambda>(_, db'). (Done, db')) (pg_clear_session (Some u) k db)
      | CopyMsgs src dst \<Rightarrow> map_sum id (\<lambda>(n, db'). (Copied n, db')) (pg_copy_messages (Some u) src dst db)) of
        Inl e \<Rightarrow> (Raised e, db)
      | Inr x \<Rightarrow> x)"

text \<open>What Postgres refuses, and with which error.\<close>

fun pg_refuses :: "schema_rev \<Rightarrow> refusal" where
  "pg_refuses sch (OpenSession k source model) (ks, c) =
     (if \<not> (pg_string k \<and> pg_string source \<and> pg_string_opt model) then Some DataError
      else if sch = Schema_0003 then Some IntegrityError else None)"
| "pg_refuses sch (AppendMsg k b) (ks, c) =
     (if \<not> (pg_string k \<and> pg_body (stored_body b)) then Some DataError
      else if k \<notin> ks then Some IntegrityError else None)"
| "pg_refuses sch (GetMsgs k n) (ks, c) =
     (if \<not> pg_string k \<or> (\<exists>i. n = Some i \<and> i < 0) then Some DataError else None)"
| "pg_refuses sch (PopMsg k) (ks, c) = (if pg_string k then None else Some DataError)"
| "pg_refuses sch (ClearMsgs k) (ks, c) = (if pg_string k then None else Some DataError)"
| "pg_refuses sch (CopyMsgs src dst) (ks, c) =
     (if \<not> pg_string src then Some DataError
      else if c src = [] then None
      else if \<not> pg_string dst then Some DataError
      else if dst \<notin> ks then Some IntegrityError else None)"

definition pg_timed :: "uuid \<Rightarrow> pg_db \<Rightarrow> string \<Rightarrow> (int \<times> message_body) list" where
  "pg_timed u db k = timed (\<lambda>r. mr_user r = u \<and> mr_session r = k) (pd_messages db)"

definition pg_keys :: "pg_db \<Rightarrow> string set" where
  "pg_keys db = ss_id ` set (pd_sessions db)"

definition pg_view :: "uuid \<Rightarrow> pg_db \<Rightarrow> conversations" where
  "pg_view u db = (pg_keys db, pg_timed u db)"

definition pg_good :: "int \<Rightarrow> pg_db \<Rightarrow> bool" where
  "pg_good now db \<longleftrightarrow> good_rows now (pd_next_id db) (pd_messages db)"

abbreviation belongs :: "uuid \<Rightarrow> string \<Rightarrow> pg_message \<Rightarrow> bool" where
  "belongs u k \<equiv> \<lambda>r. mr_user r = u \<and> mr_session r = k"

lemma pg_set_count_simps [simp]:
  "pd_messages (pg_set_count f u k db) = pd_messages db" "pd_next_id (pg_set_count f u k db) = pd_next_id db"
  by (simp_all add: pg_set_count_def)

lemma pg_set_count_keys [simp]: "pg_keys (pg_set_count f u k db) = pg_keys db"
proof -
  have "map ss_id (pd_sessions (pg_set_count f u k db)) = map ss_id (pd_sessions db)" by (simp add: pg_set_count_def)
  then have "set (map ss_id (pd_sessions (pg_set_count f u k db))) = set (map ss_id (pd_sessions db))" by (rule arg_cong)
  then show ?thesis by (simp add: pg_keys_def)
qed

lemma pg_keys_rows [simp]: "pg_keys (db\<lparr>pd_messages := ms\<rparr>) = pg_keys db"
  "pg_keys (db\<lparr>pd_messages := ms, pd_next_id := n\<rparr>) = pg_keys db"
  by (simp_all add: pg_keys_def)

lemma user_set [simp]: "current_user_id (Some u) = Inr u"
  by (simp add: current_user_id_def)

lemma own_rows: "of_session k (mine u rows) = filter (belongs u k) rows"
  by (auto simp: of_session_def mine_def intro: filter_cong)

lemma belongs_eq: "belongs v j = belongs u k \<longleftrightarrow> v = u \<and> j = k"
proof
  assume eq: "belongs v j = belongs u k"
  let ?r = "\<lparr>mr_id = 0, mr_session = j, mr_body = undefined, mr_ts = 0, mr_user = v\<rparr> :: pg_message"
  have "belongs u k ?r" using fun_cong [OF eq, of ?r] by simp
  then show "v = u \<and> j = k" by simp
qed simp

lemma renumbered_user: "x \<in> set (renumbered n k rows) \<Longrightarrow> \<exists>r \<in> set rows. mr_user x = mr_user r"
  for rows :: "pg_message list"
  by (induction rows arbitrary: n) fastforce+

lemma pg_created:
  "pg_string k \<Longrightarrow> pg_string source \<Longrightarrow> pg_string_opt model \<Longrightarrow>
   \<exists>db1. pg_create_session Schema_0001 (Some u) k source model now db = Inr ((), db1) \<and>
     pd_messages db1 = pd_messages db \<and> pd_next_id db1 = pd_next_id db \<and> pg_keys db1 = insert k (pg_keys db)"
  by (auto simp: pg_create_session_def pg_keys_def)

text \<open>What an operation of \<open>u\<close> that is not refused leaves of the conversations of every user.\<close>

definition pg_updates :: "uuid \<Rightarrow> int \<Rightarrow> string \<Rightarrow> (int \<times> message_body) list \<Rightarrow> pg_db \<Rightarrow> pg_db \<Rightarrow> bool" where
  "pg_updates u now k ms db db' \<longleftrightarrow> pg_good now db' \<and> pg_keys db' = pg_keys db \<and> pd_next_id db \<le> pd_next_id db' \<and>
     (\<forall>v j. pg_timed v db' j = (if v = u \<and> j = k then ms else pg_timed v db j))"

lemma pg_append:
  assumes "pg_good now db" and "pg_string k" and "pg_body (stored_body b)" and "k \<in> pg_keys db"
  shows "\<exists>db'. pg_append_message (Some u) k b now db = Inr (pd_next_id db, db') \<and> pd_next_id db < pd_next_id db' \<and>
    pg_updates u now k (pg_timed u db k @ [(now, stored_body b)]) db db'"
  using assms
  by (auto simp: pg_append_message_def pg_updates_def pg_good_def pg_timed_def timed_append pg_keys_def [of db]
      intro!: good_rows_append)

lemma pg_get:
  assumes "pg_good now db" and "pg_string k" and "\<not> (\<exists>i. n = Some i \<and> i < 0)"
  shows "pg_get_messages (Some u) k n db = Inr (map (\<lambda>m. body_to_msg (snd m)) (last_n n (pg_timed u db k)))"
proof -
  have col: "map (body_to_msg \<circ> mr_body) rows = map (\<lambda>m. body_to_msg (snd m)) (map (\<lambda>r. (mr_ts r, mr_body r)) rows)"
    for rows :: "pg_message list" by simp
  show ?thesis
  proof (cases n)
    case None
    then show ?thesis
      using assms(2) by (simp add: pg_get_messages_def pg_timed_def last_n_def own_rows timed_def col del: map_map)
  next
    case (Some m)
    let ?rows = "in_order (filter (belongs u k) (pd_messages db))"
    have "rev (take (nat m) (newest_first (filter (belongs u k) (pd_messages db)))) = drop (length ?rows - nat m) ?rows"
      by (simp add: newest_first_def take_rev)
    then show ?thesis
      using Some assms(2,3) by (simp add: pg_get_messages_def pg_limit_def pg_timed_def last_n_def own_rows timed_def
          col drop_map del: map_map)
  qed
qed

lemma pg_pop:
  assumes "pg_good now db" and "pg_string k"
  shows "\<exists>db'. pg_pop_last_message (Some u) k db =
      Inr (if pg_timed u db k = [] then None else Some (body_to_msg (snd (last (pg_timed u db k)))), db') \<and>
    pg_updates u now k (butlast (pg_timed u db k)) db db'"
proof (cases "filter (belongs u k) (pd_messages db) = []")
  case True
  then show ?thesis
    using assms by (auto simp: pg_pop_last_message_def own_rows newest_first_def pg_timed_def timed_def pg_updates_def)
next
  case False
  let ?r = "last (in_order (filter (belongs u k) (pd_messages db)))"
  let ?left = "filter (\<lambda>x. mr_id x \<noteq> mr_id ?r) (pd_messages db)"
  let ?db' = "pg_set_count (\<lambda>n. max (n - 1) 0) u k (db\<lparr>pd_messages := ?left\<rparr>)"
  obtain rest where new: "newest_first (of_session k (mine u (pd_messages db))) = ?r # rest"
    using newest_first_Cons [OF False] by (auto simp: own_rows)
  have r: "?r \<in> set (pd_messages db)" "belongs u k ?r"
    using False last_in_set [of "in_order (filter (belongs u k) (pd_messages db))"] by auto
  have "mr_user x = u" if "x \<in> set (pd_messages db)" "mr_id x = mr_id ?r" for x
    using that r assms by (auto simp: pg_good_def good_rows_def distinct_map dest: inj_onD)
  then have left: "filter (\<lambda>x. \<not> (mr_user x = u \<and> mr_id x = mr_id ?r)) (pd_messages db) = ?left"
    by (intro filter_cong refl) blast
  have "pg_timed v ?db' j = (if v = u \<and> j = k then butlast (pg_timed u db k) else pg_timed v db j)" for v j
  proof -
    have "belongs v j = belongs u k \<or> \<not> belongs v j ?r" using r(2) by auto
    note pop = timed_pop [OF assms(1) [unfolded pg_good_def] False refl this, unfolded belongs_eq]
    have "pg_timed v ?db' j = timed (belongs v j) ?left" by (simp add: pg_timed_def)
    then show ?thesis unfolding pg_timed_def [of _ db] by (simp only: pop)
  qed
  then have "pg_updates u now k (butlast (pg_timed u db k)) db ?db'"
    using assms by (simp add: pg_updates_def pg_good_def good_rows_filter)
  moreover have "pg_pop_last_message (Some u) k db = Inr (Some (body_to_msg (mr_body ?r)), ?db')"
    by (simp only: pg_pop_last_message_def user_set bind_result_simps assms(2) pg_param_simps new list.case left)
  moreover have "pg_timed u db k \<noteq> []" "snd (last (pg_timed u db k)) = mr_body ?r"
    using False by (simp_all add: pg_timed_def timed_Nil timed_last Let_def)
  ultimately show ?thesis by auto
qed

lemma pg_clear:
  assumes "pg_good now db" and "pg_string k"
  shows "\<exists>db'. pg_clear_session (Some u) k db = Inr ((), db') \<and> pg_updates u now k [] db db'"
proof -
  have "timed (belongs v j) (filter (\<lambda>r. \<not> belongs u k r) (pd_messages db))
      = (if v = u \<and> j = k then [] else timed (belongs v j) (pd_messages db))" for v j
    using timed_drop [of "belongs v j" "belongs u k" "pd_messages db"] unfolding belongs_eq by blast
  then show ?thesis
    using assms by (simp add: pg_clear_session_def pg_updates_def pg_good_def good_rows_filter pg_timed_def)
qed

lemma timed_sorted: "sort_key fst (timed P rows) = timed P rows"
proof (rule sort_key_id_if_sorted)
  have "sorted (map (\<lambda>r. (mr_ts r, mr_id r)) (in_order (filter P rows)))" by (simp add: in_order_def)
  then have "sorted (map mr_ts (in_order (filter P rows)))"
    unfolding sorted_map by (rule sorted_wrt_mono_rel [rotated]) (auto simp: less_eq_prod_def)
  then show "sorted (map fst (timed P rows))" by (simp add: timed_def comp_def)
qed

lemma pg_copy:
  assumes "pg_good now db" and "pg_string src"
    and "pg_timed u db src \<noteq> [] \<Longrightarrow> pg_string dst \<and> dst \<in> pg_keys db"
  shows "\<exists>db'. pg_copy_messages (Some u) src dst db = Inr (length (pg_timed u db src), db') \<and>
    pg_updates u now dst (sort_key fst (pg_timed u db dst @ pg_timed u db src)) db db'"
proof -
  let ?P = "belongs u src"
  let ?new = "renumbered (pd_next_id db) dst (in_order (filter ?P (pd_messages db)))"
  have user: "belongs v j x = (v = u \<and> j = dst)" if "x \<in> set ?new" for x v j
    using renumbered_set [OF that] renumbered_user [OF that] by auto
  have copied: "timed (belongs v j) (pd_messages db @ ?new)
      = (if v = u \<and> j = dst then sort_key fst (pg_timed u db dst @ pg_timed u db src) else pg_timed v db j)" for v j
    using timed_copy [OF assms(1) [unfolded pg_good_def], of dst ?P "belongs v j" "v = u \<and> j = dst", OF user]
    by (simp add: pg_timed_def)
  show ?thesis
  proof (cases "filter ?P (pd_messages db) = []")
    case True
    then have "pg_timed u db src = []" by (simp add: pg_timed_def timed_def)
    then show ?thesis
      using True assms by (auto simp: pg_copy_messages_def own_rows pg_updates_def pg_timed_def timed_sorted)
  next
    case False
    then have "pg_timed u db src \<noteq> []" by (simp add: pg_timed_def timed_Nil)
    then have "pg_string dst" "dst \<in> ss_id ` set (pd_sessions db)" using assms(3) by (auto simp: pg_keys_def)
    then show ?thesis
      using False assms(1,2) copied good_rows_copy [of now "pd_next_id db" "pd_messages db" ?P dst]
      by (auto simp: pg_copy_messages_def own_rows pg_updates_def pg_good_def pg_timed_def Let_def)
  qed
qed

text \<open>An operation of a user leaves the conversations of the others.\<close>

definition pg_others :: "uuid \<Rightarrow> pg_db \<Rightarrow> pg_db \<Rightarrow> bool" where
  "pg_others u db db' \<longleftrightarrow> (\<forall>v. v \<noteq> u \<longrightarrow> pg_timed v db' = pg_timed v db)"

lemma pg_updates_view:
  "pg_updates u now k ms db db' \<Longrightarrow> pg_good now db' \<and> pg_view u db' = (pg_keys db, (pg_timed u db)(k := ms)) \<and>
     pd_next_id db \<le> pd_next_id db' \<and> pg_others u db db'"
  by (auto simp: pg_updates_def pg_view_def pg_others_def fun_eq_iff)

text \<open>A step does what the contract says where it is not refused, and nothing where it is.\<close>

definition step_ok :: "schema_rev \<Rightarrow> uuid \<Rightarrow> int \<Rightarrow> store_op \<Rightarrow> pg_db \<Rightarrow> store_reply \<times> pg_db \<Rightarrow> bool" where
  "step_ok sch u now c db x \<longleftrightarrow> (case x of (r, db') \<Rightarrow> pg_good now db' \<and>
     guarded_step (pg_refuses sch) now c (pg_view u db) = (sans_id r, pg_view u db') \<and>
     pd_next_id db \<le> pd_next_id db' \<and> (\<forall>i. r = Appended i \<longrightarrow> pd_next_id db \<le> i \<and> i < pd_next_id db') \<and> pg_others u db db')"

lemma step_ok_refused:
  "pg_good now db \<Longrightarrow> pg_refuses sch c (pg_view u db) = Some e \<Longrightarrow> step_ok sch u now c db (Raised e, db)"
  by (simp add: step_ok_def guarded_step_def pg_others_def)

lemma step_ok_done:
  assumes "pg_refuses sch c (pg_view u db) = None" and "pg_updates u now k ms db db'"
    and "conv_step now c (pg_view u db) = (sans_id r, (pg_keys db, (pg_timed u db)(k := ms)))"
    and "\<And>i. r = Appended i \<Longrightarrow> pd_next_id db \<le> i \<and> i < pd_next_id db'"
  shows "step_ok sch u now c db (r, db')"
  using pg_updates_view [OF assms(2)] assms(1,3,4) by (auto simp: step_ok_def guarded_step_def)

lemma pg_step_ok:
  assumes good: "pg_good now db"
  shows "step_ok sch u now c db (pg_step sch u now c db)"
proof (cases "pg_refuses sch c (pg_view u db)")
  case (Some e)
  then have "pg_step sch u now c db = (Raised e, db)"
    by (cases c) (auto simp: pg_step_def pg_view_def pg_create_session_def pg_append_message_def pg_get_messages_def
        pg_limit_def pg_pop_last_message_def pg_clear_session_def pg_copy_messages_def pg_keys_def pg_timed_def timed_Nil pg_param_def
        own_rows Let_def split: if_splits)
  with step_ok_refused [OF good Some] show ?thesis by simp
next
  case none: None
  show ?thesis
  proof (cases c)
    case (OpenSession k source model)
    with none have ok: "pg_string k" "pg_string source" "pg_string_opt model" and sch: "sch = Schema_0001"
      by (cases sch; auto simp: pg_view_def split: if_splits)+
    obtain db1 where "pg_create_session Schema_0001 (Some u) k source model now db = Inr ((), db1)"
      "pd_messages db1 = pd_messages db" "pd_next_id db1 = pd_next_id db" "pg_keys db1 = insert k (pg_keys db)"
      using pg_created [OF ok] by blast
    then show ?thesis
      using good none by (auto simp: OpenSession sch pg_step_def step_ok_def guarded_step_def pg_view_def pg_good_def
          pg_timed_def pg_others_def fun_eq_iff)
  next
    case (AppendMsg k b)
    with none have "pg_string k" "pg_body (stored_body b)" "k \<in> pg_keys db" by (auto simp: pg_view_def split: if_splits)
    from pg_append [OF good this] obtain db' where
      st: "pg_append_message (Some u) k b now db = Inr (pd_next_id db, db')" and id: "pd_next_id db < pd_next_id db'"
      and upd: "pg_updates u now k (pg_timed u db k @ [(now, stored_body b)]) db db'" by blast
    show ?thesis using step_ok_done [OF none upd, of "Appended (pd_next_id db)"] id
      by (simp add: AppendMsg pg_step_def st pg_view_def)
  next
    case (GetMsgs k n)
    with none have ok: "pg_string k" "\<not> (\<exists>i. n = Some i \<and> i < 0)" by (auto simp: pg_view_def split: if_splits)
    show ?thesis
      using good none by (simp add: GetMsgs pg_step_def pg_get [OF good ok] step_ok_def guarded_step_def pg_view_def pg_others_def)
  next
    case (PopMsg k)
    with none have ok: "pg_string k" by (auto simp: pg_view_def split: if_splits)
    obtain db' where st: "pg_pop_last_message (Some u) k db =
        Inr (if pg_timed u db k = [] then None else Some (body_to_msg (snd (last (pg_timed u db k)))), db')"
      and upd: "pg_updates u now k (butlast (pg_timed u db k)) db db'" using pg_pop [OF good ok] by blast
    show ?thesis using step_ok_done [OF none upd, of "fst (pg_step sch u now c db)"]
      by (simp add: PopMsg pg_step_def st pg_view_def)
  next
    case (ClearMsgs k)
    with none have ok: "pg_string k" by (auto simp: pg_view_def split: if_splits)
    obtain db' where st: "pg_clear_session (Some u) k db = Inr ((), db')" and upd: "pg_updates u now k [] db db'"
      using pg_clear [OF good ok] by blast
    show ?thesis using step_ok_done [OF none upd, of Done] by (simp add: ClearMsgs pg_step_def st pg_view_def)
  next
    case (CopyMsgs src dst)
    with none have ok: "pg_string src" "pg_timed u db src \<noteq> [] \<Longrightarrow> pg_string dst \<and> dst \<in> pg_keys db"
      by (auto simp: pg_view_def split: if_splits)
    obtain db' where st: "pg_copy_messages (Some u) src dst db = Inr (length (pg_timed u db src), db')"
      and upd: "pg_updates u now dst (sort_key fst (pg_timed u db dst @ pg_timed u db src)) db db'"
      using pg_copy [OF good ok] by blast
    show ?thesis using step_ok_done [OF none upd, of "Copied (length (pg_timed u db src))"]
      by (simp add: CopyMsgs pg_step_def st pg_view_def)
  qed
qed

lemma pg_step_spec:
  assumes "pg_good now db"
  shows "pg_others u db (snd (pg_step sch u now c db))"
  using pg_step_ok [OF assms, of sch u c] by (auto simp: step_ok_def split: prod.splits)

interpretation pg_store: message_store "pg_step sch u" "pg_view u" pg_good "pg_refuses sch" pd_next_id for sch u
proof unfold_locales
  show "pg_good t db \<Longrightarrow> t \<le> now \<Longrightarrow> pg_good now db" for t db now
    unfolding pg_good_def by (rule good_rows_later)
next
  fix now db c r db'
  assume "pg_good now db" "pg_step sch u now c db = (r, db')"
  with pg_step_ok [of now db sch u c]
  have spec: "step_ok sch u now c db (r, db')" by simp
  show "pg_good now db' \<and> guarded_step (pg_refuses sch) now c (pg_view u db) = (sans_id r, pg_view u db')"
    using spec by (simp add: step_ok_def)
  show "pd_next_id db \<le> pd_next_id db' \<and> (\<forall>i. r = Appended i \<longrightarrow> pd_next_id db \<le> i \<and> i < pd_next_id db')"
    using spec by (auto simp: step_ok_def)
qed

lemmas pg_defs = pg_step_def pg_create_session_def pg_append_message_def pg_get_messages_def pg_limit_def
  pg_pop_last_message_def pg_clear_session_def pg_copy_messages_def pg_set_count_def own_def own_rows stored_body_def
  stored_calls_def pg_body_def pg_string_opt_def pg_string_def

end
