(* ===== verification/Session_Routes.thy ===== *)
theory Session_Routes
  imports Pg_Sessions Turn_Routes
begin

text \<open>
  \<open>web/routes/sessions.py\<close>: listing, reading, forking and deleting the caller's sessions in
  Postgres.  Search, compaction and export are left out.
\<close>

subsection \<open>Routes\<close>

text \<open>\<open>_resolve_key\<close>: a full id, else a prefix.\<close>

definition resolve_key :: "uuid option \<Rightarrow> string \<Rightarrow> pg_db \<Rightarrow> string result" where
  "resolve_key guc key db =
     bind_result (pg_get_session_meta guc key db) (\<lambda>meta.
       if meta \<noteq> None then Inr key
       else
         (case pg_find_session_by_prefix guc key db of
            Inl e \<Rightarrow> Inl (if e = ValueError then http_error CONFLICT else e)
          | Inr None \<Rightarrow> Inl (http_error NOT_FOUND)
          | Inr (Some k) \<Rightarrow> Inr k))"

definition route_list_sessions :: "uuid option \<Rightarrow> int \<Rightarrow> bool \<Rightarrow> pg_db \<Rightarrow> pg_session list result" where
  "route_list_sessions guc most include_ended db = pg_list_recent_sessions guc most include_ended db"

definition route_get_session :: "uuid option \<Rightarrow> string \<Rightarrow> pg_db \<Rightarrow> pg_session result" where
  "route_get_session guc key db =
     bind_result (resolve_key guc key db) (\<lambda>k.
       bind_result (pg_get_session_meta guc k db) (\<lambda>meta.
         case meta of None \<Rightarrow> Inl (http_error NOT_FOUND) | Some s \<Rightarrow> Inr s))"

definition route_get_messages :: "uuid option \<Rightarrow> string \<Rightarrow> int option \<Rightarrow> pg_db \<Rightarrow> (string \<times> json) list list result" where
  "route_get_messages guc key most db =
     bind_result (resolve_key guc key db) (\<lambda>k. pg_get_messages guc k most db)"

record fork_out =
  fo_src_key :: string
  fo_new_key :: string
  fo_copied :: nat

definition route_fork_session ::
  "schema_rev \<Rightarrow> uuid option \<Rightarrow> string \<Rightarrow> string \<Rightarrow> int \<Rightarrow> pg_db \<Rightarrow> (fork_out \<times> pg_db) result"
where
  "route_fork_session sch guc key new_key now db =
     bind_result (route_get_session guc key db) (\<lambda>meta.
       if new_key = ss_id meta then Inl (http_error CONFLICT)
       else bind_result (pg_get_session_meta guc new_key db) (\<lambda>existing.
         if existing \<noteq> None then Inl (http_error CONFLICT)
         else bind_result (pg_create_session sch guc new_key (ss_source meta) (ss_model meta) now db) (\<lambda>(_, db1).
           bind_result (pg_copy_messages guc (ss_id meta) new_key db1) (\<lambda>(n, db2).
             Inr (\<lparr>fo_src_key = ss_id meta, fo_new_key = new_key, fo_copied = n\<rparr>, db2)))))"

definition route_delete_session :: "uuid option \<Rightarrow> string \<Rightarrow> pg_db \<Rightarrow> (unit \<times> pg_db) result" where
  "route_delete_session guc key db =
     bind_result (resolve_key guc key db) (\<lambda>k.
       bind_result (pg_delete_session guc k db) (\<lambda>(hit, db1).
         if hit then Inr ((), db1) else Inl (http_error NOT_FOUND)))"

subsection \<open>Lemmas\<close>

definition unique_ids :: "pg_db \<Rightarrow> bool" where
  "unique_ids db \<longleftrightarrow> distinct (map ss_id (pd_sessions db)) \<and> (\<forall>s \<in> set (pd_sessions db). pg_string (ss_id s))"

definition stored_texts :: "pg_session \<Rightarrow> bool" where
  "stored_texts s \<longleftrightarrow> pg_string (ss_source s) \<and> pg_string_opt (ss_model s)"

lemma own_unique:
  assumes "unique_ids db" and "s \<in> set (pd_sessions db)" and "ss_user s = u"
  shows "filter (own u (ss_id s)) (pd_sessions db) = [s]"
proof -
  have "distinct (map ss_id xs) \<Longrightarrow> s \<in> set xs \<Longrightarrow> filter (own u (ss_id s)) xs = [s]" for xs
  proof (induction xs)
    case (Cons x xs)
    have none: "filter (own u (ss_id x)) xs = []"
      using Cons.prems(1) by (auto simp: filter_empty_conv own_def) (metis image_eqI)
    have "ss_id s \<noteq> ss_id x" if "s \<in> set xs" using Cons.prems(1) that by (auto simp: image_iff)
    then show ?case using Cons none assms(3) by (auto simp: own_def [of _ _ x])
  qed simp
  then show ?thesis using assms(1,2) by (simp add: unique_ids_def)
qed

lemma get_meta_own:
  assumes "unique_ids db" and "s \<in> set (pd_sessions db)" and "ss_user s = u"
  shows "pg_get_session_meta (Some u) (ss_id s) db = Inr (Some s)"
  using assms by (simp add: pg_get_session_meta_def own_unique [OF assms] unique_ids_def)

lemma get_meta_mine:
  assumes "unique_ids db" and "pg_get_session_meta (Some u) k db = Inr (Some s)"
  shows "s \<in> set (pd_sessions db) \<and> ss_user s = u \<and> ss_id s = k"
proof -
  have "filter (own u k) (pd_sessions db) = [s]"
    using assms(2) by (cases "filter (own u k) (pd_sessions db)" rule: scalar_one_or_none.cases) (auto simp: pg_get_session_meta_def pg_param_def split: if_splits)
  then have "s \<in> set (filter (own u k) (pd_sessions db))" by simp
  then show ?thesis by (simp add: own_def)
qed

lemma pg_like_all: "pg_like ''%'' s"
  by (induction s) simp_all

lemma pg_like_any: "pg_like ''%%'' s"
proof (cases s)
  case (Cons c cs)
  have "pg_like ''%'' (c # cs)" by (rule pg_like_all)
  then show ?thesis by (subst pg_like.simps) (simp add: Cons del: pg_like.simps)
qed simp

definition fk_ok :: "pg_db \<Rightarrow> bool" where
  "fk_ok db \<longleftrightarrow> (\<forall>r \<in> set (pd_messages db). mr_session r \<in> ss_id ` set (pd_sessions db))"

lemma unknown_session:
  assumes "fk_ok db" and "k \<notin> ss_id ` set (pd_sessions db)" and "pg_string k"
  shows "pg_get_session_meta (Some u) k db = Inr None" and "pg_timed u db k = []"
proof -
  have "filter (own u k) (pd_sessions db) = []"
    using assms(2) by (auto simp: filter_empty_conv own_def)
  then show "pg_get_session_meta (Some u) k db = Inr None" using assms(3) by (simp add: pg_get_session_meta_def)
  have "mr_session r \<noteq> k" if "r \<in> set (pd_messages db)" for r
    using assms that by (auto simp: fk_ok_def)
  then show "pg_timed u db k = []" by (simp add: pg_timed_def timed_Nil filter_empty_conv)
qed

lemma resolve_own:
  assumes "unique_ids db" and "s \<in> set (pd_sessions db)" and "ss_user s = u"
  shows "resolve_key (Some u) (ss_id s) db = Inr (ss_id s)"
  by (simp add: resolve_key_def get_meta_own [OF assms])

lemma drop_one:
  assumes "unique_ids db" and "s \<in> set (pd_sessions db)" and "ss_user s = u"
  shows "drop_sessions u [ss_id s] db =
    db\<lparr>pd_messages := filter (\<lambda>r. mr_session r \<noteq> ss_id s) (pd_messages db),
       pd_sessions := filter (\<lambda>x. ss_id x \<noteq> ss_id s) (pd_sessions db)\<rparr>"
proof -
  have "filter (\<lambda>x. ss_user x = u \<and> ss_id x \<in> set [ss_id s]) (pd_sessions db) = [s]"
    using own_unique [OF assms] unfolding own_def [abs_def] by (simp add: conj_commute)
  moreover have "ss_user x = u" if "x \<in> set (pd_sessions db)" "ss_id x = ss_id s" for x
    using that assms by (auto simp: unique_ids_def distinct_map dest: inj_onD)
  then have "filter (\<lambda>x. \<not> (ss_user x = u \<and> ss_id x \<in> set [ss_id s])) (pd_sessions db)
      = filter (\<lambda>x. ss_id x \<noteq> ss_id s) (pd_sessions db)"
    by (intro filter_cong) auto
  moreover have "filter (\<lambda>r. \<not> (mr_user r = u \<and> mr_session r \<in> set [ss_id s]) \<and> mr_session r \<notin> {ss_id s}) (pd_messages db)
      = filter (\<lambda>r. mr_session r \<noteq> ss_id s) (pd_messages db)"
    by (intro filter_cong) auto
  ultimately show ?thesis by (simp only: drop_sessions_def Let_def) simp
qed

subsection \<open>Properties\<close>

text \<open>
  Forking one's own session into a new key copied its whole conversation and changed no
  other one; since sessions have an agent the row of the fork cannot be inserted, and every such
  request fails.
\<close>

theorem fork_fails_since_agents:
  assumes "unique_ids db" and "fk_ok db" and "pg_good now db"
    and "s \<in> set (pd_sessions db)" and "ss_user s = u" and "stored_texts s"
    and "new_key \<notin> ss_id ` set (pd_sessions db)" and "pg_string new_key"
  shows "(\<exists>db'. route_fork_session Schema_0001 (Some u) (ss_id s) new_key now db =
      Inr (\<lparr>fo_src_key = ss_id s, fo_new_key = new_key, fo_copied = length (pg_timed u db (ss_id s))\<rparr>, db') \<and>
      (\<forall>v. pg_timed v db' = (if v = u then (pg_timed u db)(new_key := pg_timed u db (ss_id s)) else pg_timed v db)))
    \<and> route_fork_session Schema_0003 (Some u) (ss_id s) new_key now db = Inl IntegrityError"
proof -
  note meta = get_meta_own [OF assms(1,4,5)] and new = unknown_session [OF assms(2,7,8)]
  have other: "new_key \<noteq> ss_id s" using assms(4,7) by auto
  have texts: "pg_string (ss_source s)" "pg_string_opt (ss_model s)" "pg_string (ss_id s)"
    using assms(1,4,6) by (auto simp: stored_texts_def unique_ids_def)
  obtain db1 where made:
    "pg_create_session Schema_0001 (Some u) new_key (ss_source s) (ss_model s) now db = Inr ((), db1)"
    and db1: "pd_messages db1 = pd_messages db" "pd_next_id db1 = pd_next_id db" "pg_keys db1 = insert new_key (pg_keys db)"
    using pg_created [OF assms(8) texts(1,2)] by blast
  have same: "pg_good now db1" "\<And>v. pg_timed v db1 = pg_timed v db"
    using assms(3) db1 by (simp_all add: pg_good_def pg_timed_def fun_eq_iff)
  have "sort_key fst (pg_timed u db1 new_key @ pg_timed u db1 (ss_id s)) = pg_timed u db (ss_id s)"
    using new(2) [of u] by (simp add: same(2)) (simp add: pg_timed_def timed_sorted)
  then obtain db2 where copied: "pg_copy_messages (Some u) (ss_id s) new_key db1 = Inr (length (pg_timed u db (ss_id s)), db2)"
    and upd: "pg_updates u now new_key (pg_timed u db (ss_id s)) db1 db2"
    using pg_copy [OF same(1) texts(3), of u new_key] assms(8) by (auto simp: same(2) db1(3))
  have pre: "route_get_session (Some u) (ss_id s) db = Inr s"
    by (simp add: route_get_session_def resolve_own [OF assms(1,4,5)] meta)
  show ?thesis
  proof
    show "route_fork_session Schema_0003 (Some u) (ss_id s) new_key now db = Inl IntegrityError"
      using texts assms(8) by (simp add: route_fork_session_def pre other new(1) pg_create_session_def)
    show "\<exists>db'. route_fork_session Schema_0001 (Some u) (ss_id s) new_key now db =
      Inr (\<lparr>fo_src_key = ss_id s, fo_new_key = new_key, fo_copied = length (pg_timed u db (ss_id s))\<rparr>, db') \<and>
      (\<forall>v. pg_timed v db' = (if v = u then (pg_timed u db)(new_key := pg_timed u db (ss_id s)) else pg_timed v db))"
      using upd same(2) by (intro exI [of _ db2])
        (auto simp: route_fork_session_def pre other new(1) made copied pg_updates_def fun_eq_iff)
  qed
qed

text \<open>
  A successful deletion removes exactly one session, one of the caller's own, with all its
  messages; every other session and message stays.
\<close>

theorem delete_session_removes_one:
  assumes "unique_ids db" and "route_delete_session (Some u) key db = Inr ((), db')"
  shows "\<exists>s \<in> set (pd_sessions db). ss_user s = u \<and>
    pd_sessions db' = filter (\<lambda>x. ss_id x \<noteq> ss_id s) (pd_sessions db) \<and>
    pd_messages db' = filter (\<lambda>r. mr_session r \<noteq> ss_id s) (pd_messages db)"
proof -
  obtain k where k: "resolve_key (Some u) key db = Inr k"
    using assms(2) by (cases "resolve_key (Some u) key db") (auto simp: route_delete_session_def)
  have hit: "list_ex (own u k) (pd_sessions db)" and db': "db' = drop_sessions u [k] db"
    using assms(2) by (auto simp: route_delete_session_def k pg_delete_session_def pg_param_def split: if_splits)
  obtain s where s: "s \<in> set (pd_sessions db)" "ss_user s = u" "ss_id s = k"
    using hit by (auto simp: list_ex_iff own_def)
  then show ?thesis
    using drop_one [OF assms(1) s(1,2)] by (intro bexI [of _ s]) (simp_all add: db')
qed

text \<open>
  The key of a request is used as a pattern: asking to delete the session named by a percent
  sign, which does not exist, deletes the only session of the caller.
\<close>

theorem delete_wildcard_hits:
  assumes "unique_ids db" and "filter (\<lambda>s. ss_user s = u) (pd_sessions db) = [s]" and "ss_id s \<noteq> ''%''"
  shows "route_delete_session (Some u) ''%'' db = Inr ((), drop_sessions u [ss_id s] db) \<and>
    s \<notin> set (pd_sessions (drop_sessions u [ss_id s] db))"
proof -
  have s: "s \<in> set (pd_sessions db)" "ss_user s = u"
    using arg_cong [OF assms(2), of set] by auto
  have "filter (own u ''%'') (pd_sessions db) = filter (\<lambda>x. ss_id x = ''%'') (filter (\<lambda>s. ss_user s = u) (pd_sessions db))"
    by (auto simp: own_def intro: filter_cong)
  then have none: "pg_get_session_meta (Some u) ''%'' db = Inr None"
    using assms(3) by (simp add: assms(2) pg_get_session_meta_def pg_string_def)
  have "filter (\<lambda>x. ss_user x = u \<and> pg_like ''%%'' (ss_id x)) (pd_sessions db) = [s]"
    by (simp only: pg_like_any simp_thms assms(2))
  then have "pg_find_session_by_prefix (Some u) ''%'' db = Inr (Some (ss_id s))"
    by (simp add: pg_find_session_by_prefix_def pg_string_def del: pg_like.simps)
  then have "resolve_key (Some u) ''%'' db = Inr (ss_id s)"
    by (simp add: resolve_key_def none)
  moreover have "list_ex (own u (ss_id s)) (pd_sessions db)"
    using s by (auto simp: list_ex_iff own_def)
  moreover have "pg_string (ss_id s)" using assms(1) s(1) by (simp add: unique_ids_def)
  ultimately show ?thesis
    by (simp add: route_delete_session_def pg_delete_session_def drop_one [OF assms(1) s])
qed

subsection \<open>Witnesses\<close>

definition example_session :: pg_session where
  "example_session = \<lparr>ss_id = ''a1'', ss_source = ''web'', ss_user = 7, ss_model = None, ss_started_at = 1,
     ss_ended_at = None, ss_end_reason = None, ss_message_count = 1, ss_tool_call_count = 0,
     ss_input_tokens = 0, ss_output_tokens = 0, ss_title = None\<rparr>"

definition example_message :: pg_message where
  "example_message = \<lparr>mr_id = 1, mr_session = ''a1'', mr_body = \<lparr>mb_role = ''user'', mb_content = Some ''hi'',
     mb_tool_call_id = None, mb_tool_calls = None, mb_tool_name = None\<rparr>, mr_ts = 2, mr_user = 7\<rparr>"

definition example_pg :: pg_db where
  "example_pg = \<lparr>pd_sessions = [example_session], pd_messages = [example_message], pd_next_id = 2\<rparr>"

lemma example_pg_ok:
  "unique_ids example_pg" "fk_ok example_pg" "pg_good 3 example_pg" "pd_sessions example_pg = [example_session]"
  "example_session \<in> set (pd_sessions example_pg)" "ss_user example_session = 7" "ss_id example_session = ''a1''"
  "stored_texts example_session"
  by (simp_all add: example_pg_def example_session_def example_message_def unique_ids_def fk_ok_def pg_good_def
      good_rows_def stored_texts_def pg_string_def pg_string_opt_def)

theorem fork_fails_since_agents_witness:
  "route_fork_session Schema_0003 (Some 7) ''a1'' ''b'' 3 example_pg = Inl IntegrityError"
  using fork_fails_since_agents [OF example_pg_ok(1,2,3,5,6,8), of "''b''"]
  by (simp add: example_pg_ok(4,7) pg_string_def)

theorem delete_session_removes_one_witness:
  "\<exists>s \<in> set (pd_sessions example_pg). ss_user s = 7 \<and> filter (\<lambda>x. ss_id x \<noteq> ss_id s) (pd_sessions example_pg) = []"
proof -
  have "route_delete_session (Some 7) ''a1'' example_pg = Inr ((), drop_sessions 7 [''a1''] example_pg)"
    using resolve_own [OF example_pg_ok(1,5,6)]
    by (simp add: route_delete_session_def pg_delete_session_def example_pg_ok(4,6,7) own_def pg_string_def)
  from delete_session_removes_one [OF example_pg_ok(1) this] show ?thesis
    by (auto simp: example_pg_ok(4))
qed

theorem delete_wildcard_hits_witness:
  "route_delete_session (Some 7) ''%'' example_pg = Inr ((), drop_sessions 7 [''a1''] example_pg)"
  using delete_wildcard_hits [OF example_pg_ok(1), of 7 example_session] by (simp add: example_pg_ok(4,6,7))

end
