(* ===== verification/Local_Sessions.thy ===== *)
theory Local_Sessions
  imports Session_Tables
begin

text \<open>
  \<open>sessions/local.py\<close>: the SQLite store of sessions, messages and summaries, and the adapter
  \<open>SDKSession\<close> of \<open>sessions/sdk_session.py\<close>.  A JSON column holds its document.  Foreign keys
  are not enforced, since the connection never turns them on.  The full-text search is left out.
\<close>

subsection \<open>The database\<close>

record summary_row =
  sy_session :: string
  sy_topic :: "string option"
  sy_summary :: string
  sy_generator :: string
  sy_generated_at :: int

type_synonym local_session = "string option session_row"

record session_db =
  sd_sessions :: "local_session list"
  sd_messages :: "message_row list"
  sd_next_id :: nat
  sd_summaries :: "summary_row list"

definition empty_db :: session_db where
  "empty_db = \<lparr>sd_sessions = [], sd_messages = [], sd_next_id = 1, sd_summaries = []\<rparr>"

definition sqlite_limit :: "int \<Rightarrow> 'x list \<Rightarrow> 'x list" where
  "sqlite_limit n xs = (if n < 0 then xs else take (nat n) xs)"

text \<open>\<open>UPDATE sessions SET message_count = f(message_count) WHERE id = k\<close>.\<close>

definition set_count :: "(int \<Rightarrow> int) \<Rightarrow> string \<Rightarrow> session_db \<Rightarrow> session_db" where
  "set_count f k db = db\<lparr>sd_sessions := map (\<lambda>s. if ss_id s = k
     then s\<lparr>ss_message_count := f (ss_message_count s)\<rparr> else s) (sd_sessions db)\<rparr>"

subsection \<open>Sessions\<close>

definition create_session ::
  "string \<Rightarrow> string \<Rightarrow> string option \<Rightarrow> string option \<Rightarrow> int \<Rightarrow> session_db \<Rightarrow> session_db"
where
  "create_session sid source model user now db =
     (if sid \<in> ss_id ` set (sd_sessions db) then db
      else db\<lparr>sd_sessions := sd_sessions db @
        [\<lparr>ss_id = sid, ss_source = source, ss_user = user, ss_model = model, ss_started_at = now,
          ss_ended_at = None, ss_end_reason = None, ss_message_count = 0, ss_tool_call_count = 0,
          ss_input_tokens = 0, ss_output_tokens = 0, ss_title = None\<rparr>]\<rparr>)"

definition end_session :: "string \<Rightarrow> string \<Rightarrow> int \<Rightarrow> session_db \<Rightarrow> session_db" where
  "end_session sid reason now db =
     db\<lparr>sd_sessions := map (\<lambda>s. if ss_id s = sid
        then s\<lparr>ss_ended_at := Some now, ss_end_reason := Some reason\<rparr> else s) (sd_sessions db)\<rparr>"

definition get_session_meta :: "string \<Rightarrow> session_db \<Rightarrow> local_session option" where
  "get_session_meta sid db = find (\<lambda>s. ss_id s = sid) (sd_sessions db)"

definition list_recent_sessions :: "int \<Rightarrow> bool \<Rightarrow> session_db \<Rightarrow> local_session list" where
  "list_recent_sessions most include_ended db =
     sqlite_limit most (sort_key (\<lambda>s. - ss_started_at s)
       (filter (\<lambda>s. include_ended \<or> ss_ended_at s = None) (sd_sessions db)))"

definition ended_before :: "int \<Rightarrow> 'u session_row \<Rightarrow> bool" where
  "ended_before cutoff s = (case ss_ended_at s of None \<Rightarrow> False | Some t \<Rightarrow> t < cutoff)"

definition delete_sessions_ended_before :: "int \<Rightarrow> session_db \<Rightarrow> nat \<times> session_db" where
  "delete_sessions_ended_before cutoff db =
     (let ids = map ss_id (filter (ended_before cutoff) (sd_sessions db)) in
      if ids = [] then (0, db)
      else (length ids, db\<lparr>sd_messages := filter (\<lambda>r. mr_session r \<notin> set ids) (sd_messages db),
              sd_sessions := filter (\<lambda>s. ss_id s \<notin> set ids) (sd_sessions db)\<rparr>))"

text \<open>SQLite's \<open>LIKE\<close>: \<open>%\<close> and \<open>_\<close> are wildcards and ASCII letters match in either case.\<close>

definition ascii_lower :: "char \<Rightarrow> char" where
  "ascii_lower c = (let n = of_char c :: nat in if 65 \<le> n \<and> n \<le> 90 then char_of (n + 32) else c)"

fun sqlite_like :: "string \<Rightarrow> string \<Rightarrow> bool" where
  "sqlite_like [] s = (s = [])"
| "sqlite_like (p # ps) [] = (p = CHR ''%'' \<and> sqlite_like ps [])"
| "sqlite_like (p # ps) (c # cs) =
     (if p = CHR ''%'' then sqlite_like ps (c # cs) \<or> sqlite_like (p # ps) cs
      else (p = CHR ''_'' \<or> ascii_lower p = ascii_lower c) \<and> sqlite_like ps cs)"

text \<open>\<^const>\<open>None\<close> where the prefix is ambiguous and \<open>ValueError\<close> is raised.\<close>

definition find_session_by_prefix :: "string \<Rightarrow> session_db \<Rightarrow> string option option" where
  "find_session_by_prefix prefix db =
     (if prefix = [] then Some None
      else (case take 2 (sort_key (\<lambda>s. - ss_started_at s)
              (filter (\<lambda>s. sqlite_like (prefix @ ''%'') (ss_id s)) (sd_sessions db))) of
          [] \<Rightarrow> Some None
        | [s] \<Rightarrow> Some (Some (ss_id s))
        | _ \<Rightarrow> None))"

subsection \<open>Messages\<close>

definition append_message :: "string \<Rightarrow> message_body \<Rightarrow> int \<Rightarrow> session_db \<Rightarrow> nat \<times> session_db" where
  "append_message k b now db =
     (sd_next_id db,
      set_count (\<lambda>n. n + 1) k (db\<lparr>sd_messages := sd_messages db @
          [\<lparr>mr_id = sd_next_id db, mr_session = k, mr_body = stored_body b, mr_ts = now\<rparr>],
        sd_next_id := Suc (sd_next_id db)\<rparr>))"

text \<open>With a limit the newest messages are selected and ordered again.\<close>

definition get_messages :: "string \<Rightarrow> int option \<Rightarrow> session_db \<Rightarrow> (string \<times> json) list list" where
  "get_messages k most db =
     map (body_to_msg \<circ> mr_body)
       (case most of
          None \<Rightarrow> in_order (of_session k (sd_messages db))
        | Some n \<Rightarrow> in_order (sqlite_limit n (newest_first (of_session k (sd_messages db)))))"

definition pop_last_message :: "string \<Rightarrow> session_db \<Rightarrow> (string \<times> json) list option \<times> session_db" where
  "pop_last_message k db =
     (case newest_first (of_session k (sd_messages db)) of
        [] \<Rightarrow> (None, db)
      | r # _ \<Rightarrow>
          (Some (body_to_msg (mr_body r)),
           set_count (\<lambda>n. max (n - 1) 0) k
             (db\<lparr>sd_messages := filter (\<lambda>x. mr_id x \<noteq> mr_id r) (sd_messages db)\<rparr>)))"

definition clear_session :: "string \<Rightarrow> session_db \<Rightarrow> session_db" where
  "clear_session k db =
     set_count (\<lambda>n. 0) k (db\<lparr>sd_messages := filter (\<lambda>r. mr_session r \<noteq> k) (sd_messages db)\<rparr>)"

definition copy_messages :: "string \<Rightarrow> string \<Rightarrow> session_db \<Rightarrow> nat \<times> session_db" where
  "copy_messages src dst db =
     (let rows = in_order (of_session src (sd_messages db));
          db1 = db\<lparr>sd_messages := sd_messages db @ renumbered (sd_next_id db) dst rows,
                   sd_next_id := sd_next_id db + length rows\<rparr>
      in (length rows, if rows = [] then db1 else set_count (\<lambda>n. int (length rows)) dst db1))"

subsection \<open>Summaries\<close>

definition upsert_summary :: "summary_row \<Rightarrow> session_db \<Rightarrow> session_db" where
  "upsert_summary row db =
     db\<lparr>sd_summaries := (if sy_session row \<in> sy_session ` set (sd_summaries db)
        then map (\<lambda>s. if sy_session s = sy_session row then row else s) (sd_summaries db)
        else sd_summaries db @ [row])\<rparr>"

definition get_summary :: "string \<Rightarrow> session_db \<Rightarrow> summary_row option" where
  "get_summary sid db = find (\<lambda>s. sy_session s = sid) (sd_summaries db)"

definition list_recent_summaries :: "string option \<Rightarrow> int \<Rightarrow> session_db \<Rightarrow> summary_row list" where
  "list_recent_summaries excluded most db =
     sqlite_limit most (sort_key (\<lambda>s. - sy_generated_at s)
       (filter (\<lambda>s. excluded \<noteq> Some (sy_session s)) (sd_summaries db)))"

subsection \<open>\<open>SDKSession\<close>\<close>

definition open_sdk_session ::
  "string \<Rightarrow> string \<Rightarrow> string option \<Rightarrow> string option \<Rightarrow> int \<Rightarrow> session_db \<Rightarrow> session_db"
where
  "open_sdk_session k source user model now db = create_session k source model user now db"

text \<open>
  A value bound to a text column; \<^const>\<open>None\<close> where the driver raises.
\<close>

definition bind_text :: "json \<Rightarrow> string option option" where
  "bind_text v =
     (case v of
        JNull \<Rightarrow> Some None
      | JStr s \<Rightarrow> Some (Some s)
      | JBool b \<Rightarrow> Some (Some (if b then ''1'' else ''0''))
      | JInt i \<Rightarrow> (if - (2 ^ 63) \<le> i \<and> i < 2 ^ 63 then Some (Some (str_int i)) else None)
      | _ \<Rightarrow> None)"

definition is_dict :: "json \<Rightarrow> bool" where
  "is_dict v = (case v of JObj kvs \<Rightarrow> True | _ \<Rightarrow> False)"

definition item_body :: "(string \<times> json) list \<Rightarrow> message_body option" where
  "item_body item =
     (case (bind_text (py_get item ''tool_call_id''), bind_text (py_get item ''name'')) of
        (Some call_id, Some name) \<Rightarrow>
          Some \<lparr>mb_role = (case map_of item ''role'' of None \<Rightarrow> ''assistant'' | Some v \<Rightarrow> py_str v),
                mb_content = (case py_get item ''content'' of JNull \<Rightarrow> None | v \<Rightarrow> Some (py_str v)),
                mb_tool_call_id = call_id,
                mb_tool_calls = (case py_get item ''tool_calls'' of JArr cs \<Rightarrow> Some (filter is_dict cs) | _ \<Rightarrow> None),
                mb_tool_name = name\<rparr>
      | _ \<Rightarrow> None)"

text \<open>Every item is committed by itself, so the ones before a failing item stay.\<close>

fun add_items :: "string \<Rightarrow> (int \<times> (string \<times> json) list) list \<Rightarrow> session_db \<Rightarrow> bool \<times> session_db" where
  "add_items k [] db = (True, db)"
| "add_items k ((now, item) # items) db =
     (case item_body item of
        None \<Rightarrow> (False, db)
      | Some b \<Rightarrow> add_items k items (snd (append_message k b now db)))"

definition get_items :: "string \<Rightarrow> int option \<Rightarrow> session_db \<Rightarrow> (string \<times> json) list list" where
  "get_items k most db = get_messages k most db"

definition pop_item :: "string \<Rightarrow> session_db \<Rightarrow> (string \<times> json) list option \<times> session_db" where
  "pop_item k db = pop_last_message k db"

subsection \<open>The store keeps the contract\<close>

definition local_step :: "int \<Rightarrow> store_op \<Rightarrow> session_db \<Rightarrow> store_reply \<times> session_db" where
  "local_step now c db =
     (case c of
        OpenSession k source model \<Rightarrow> (Done, create_session k source model None now db)
      | AppendMsg k b \<Rightarrow> (case append_message k b now db of (i, db') \<Rightarrow> (Appended i, db'))
      | GetMsgs k n \<Rightarrow> (Msgs (get_messages k n db), db)
      | PopMsg k \<Rightarrow> (case pop_last_message k db of (m, db') \<Rightarrow> (Popped m, db'))
      | ClearMsgs k \<Rightarrow> (Done, clear_session k db)
      | CopyMsgs src dst \<Rightarrow> (case copy_messages src dst db of (n, db') \<Rightarrow> (Copied n, db')))"

definition local_timed :: "session_db \<Rightarrow> string \<Rightarrow> (int \<times> message_body) list" where
  "local_timed db k = timed (\<lambda>r. mr_session r = k) (sd_messages db)"

definition local_convs :: "session_db \<Rightarrow> string \<Rightarrow> message_body list" where
  "local_convs db k = bodies (\<lambda>r. mr_session r = k) (sd_messages db)"

definition local_keys :: "session_db \<Rightarrow> string set" where
  "local_keys db = ss_id ` set (sd_sessions db)"

definition local_view :: "session_db \<Rightarrow> conversations" where
  "local_view db = (local_keys db, local_timed db)"

definition local_good :: "int \<Rightarrow> session_db \<Rightarrow> bool" where
  "local_good now db \<longleftrightarrow> good_rows now (sd_next_id db) (sd_messages db)"

lemma local_convs_timed: "local_convs db k = map snd (local_timed db k)"
  by (simp add: local_convs_def local_timed_def bodies_timed)

lemma set_count_simps [simp]:
  "sd_messages (set_count f k db) = sd_messages db" "sd_next_id (set_count f k db) = sd_next_id db"
  "sd_summaries (set_count f k db) = sd_summaries db"
  by (simp_all add: set_count_def)

lemma set_count_keys [simp]: "local_keys (set_count f k db) = local_keys db"
proof -
  have "map ss_id (sd_sessions (set_count f k db)) = map ss_id (sd_sessions db)" by (simp add: set_count_def)
  then have "set (map ss_id (sd_sessions (set_count f k db))) = set (map ss_id (sd_sessions db))" by (rule arg_cong)
  then show ?thesis by (simp add: local_keys_def)
qed

lemma local_keys_rows [simp]: "local_keys (db\<lparr>sd_messages := ms\<rparr>) = local_keys db"
  "local_keys (db\<lparr>sd_messages := ms, sd_next_id := n\<rparr>) = local_keys db"
  by (simp_all add: local_keys_def)

lemma session_eq: "(\<lambda>r. mr_session r = j) = (\<lambda>r. mr_session r = k) \<longleftrightarrow> j = k"
  by (auto simp: fun_eq_iff) (metis message_row.select_convs(2))

lemma create_session_view [simp]:
  "local_keys (create_session k source model user now db) = insert k (local_keys db)"
  "sd_messages (create_session k source model user now db) = sd_messages db"
  "sd_next_id (create_session k source model user now db) = sd_next_id db"
  by (auto simp: create_session_def local_keys_def)

lemma get_messages_timed:
  assumes "local_good now db"
  shows "get_messages k n db = map (\<lambda>m. body_to_msg (snd m)) (last_n n (local_timed db k))"
proof -
  have col: "map (body_to_msg \<circ> mr_body) rows = map (\<lambda>m. body_to_msg (snd m)) (map (\<lambda>r. (mr_ts r, mr_body r)) rows)"
    for rows :: "message_row list" by simp
  note latest = timed_latest [OF assms [unfolded local_good_def], of _ "\<lambda>r. mr_session r = k"]
  have all: "map (\<lambda>r. (mr_ts r, mr_body r)) (in_order (newest_first (of_session k (sd_messages db)))) = local_timed db k"
    using latest [of "length (filter (\<lambda>r. mr_session r = k) (sd_messages db))"]
    by (simp add: local_timed_def of_session_def newest_first_def)
  show ?thesis
  proof (cases n)
    case None
    then show ?thesis
      by (simp add: get_messages_def last_n_def col local_timed_def timed_def of_session_def del: map_map)
  next
    case (Some m)
    then show ?thesis
      using all latest [of "nat m"]
      by (simp add: get_messages_def last_n_def col sqlite_limit_def local_timed_def of_session_def del: map_map)
  qed
qed

lemma get_messages_bodies: "local_good now db \<Longrightarrow> get_messages k None db = map body_to_msg (local_convs db k)"
  by (simp add: get_messages_timed last_n_def local_convs_timed)

lemma local_append_timed:
  assumes "local_good now db"
  shows "local_good now (snd (append_message k b now db)) \<and>
    local_timed (snd (append_message k b now db)) = (local_timed db)(k := local_timed db k @ [(now, stored_body b)])"
  using assms
  by (auto simp: append_message_def local_good_def local_timed_def fun_eq_iff timed_append intro!: good_rows_append)

lemma local_append:
  assumes "local_good now db"
  shows "local_good now (snd (append_message k b now db)) \<and>
    local_convs (snd (append_message k b now db)) = (local_convs db)(k := local_convs db k @ [stored_body b])"
  using local_append_timed [OF assms] by (auto simp: local_convs_timed fun_eq_iff)

lemma local_pop:
  assumes "local_good now db" and "pop_last_message k db = (m, db')"
  shows "local_good now db' \<and> local_timed db' = (local_timed db)(k := butlast (local_timed db k)) \<and>
    local_keys db' = local_keys db \<and> sd_next_id db' = sd_next_id db \<and>
    m = (if local_timed db k = [] then None else Some (body_to_msg (snd (last (local_timed db k)))))"
proof (cases "filter (\<lambda>r. mr_session r = k) (sd_messages db) = []")
  case True
  then show ?thesis
    using assms by (auto simp: pop_last_message_def newest_first_def local_timed_def of_session_def timed_def)
next
  case False
  let ?r = "last (in_order (filter (\<lambda>r. mr_session r = k) (sd_messages db)))"
  obtain rest where new: "newest_first (of_session k (sd_messages db)) = ?r # rest"
    using newest_first_Cons [OF False] by (auto simp: of_session_def)
  have db': "m = Some (body_to_msg (mr_body ?r))"
    "db' = set_count (\<lambda>n. max (n - 1) 0) k (db\<lparr>sd_messages := filter (\<lambda>x. mr_id x \<noteq> mr_id ?r) (sd_messages db)\<rparr>)"
    using assms(2) by (simp_all add: pop_last_message_def new)
  have "mr_session ?r = k"
    using False last_in_set [of "in_order (filter (\<lambda>r. mr_session r = k) (sd_messages db))"] by auto
  then have "local_timed db' = (local_timed db)(k := butlast (local_timed db k))"
    using timed_pop [OF assms(1) [unfolded local_good_def] False refl]
    by (auto simp: db' local_timed_def fun_eq_iff session_eq)
  then show ?thesis
    using assms(1) False
    by (simp add: db' local_good_def good_rows_filter local_timed_def timed_Nil timed_last Let_def)
qed

lemma local_clear:
  "local_good now db \<Longrightarrow> local_good now (clear_session k db) \<and> local_timed (clear_session k db) = (local_timed db)(k := [])"
proof -
  have "timed (\<lambda>r. mr_session r = j) (filter (\<lambda>r. mr_session r \<noteq> k) rows)
      = (if j = k then [] else timed (\<lambda>r. mr_session r = j) rows)" for j and rows :: "message_row list"
    using timed_drop [of "\<lambda>r. mr_session r = j" "\<lambda>r. mr_session r = k" rows] by (simp only: session_eq) blast
  then show "local_good now db \<Longrightarrow> ?thesis"
    by (auto simp: clear_session_def local_good_def local_timed_def good_rows_filter fun_eq_iff)
qed

lemma local_copy:
  assumes "local_good now db" and "copy_messages src dst db = (n, db')"
  shows "local_good now db' \<and>
    local_timed db' = (local_timed db)(dst := sort_key fst (local_timed db dst @ local_timed db src)) \<and>
    local_keys db' = local_keys db \<and> sd_next_id db \<le> sd_next_id db' \<and> n = length (local_timed db src)"
proof -
  let ?P = "\<lambda>r. mr_session r = src"
  let ?new = "renumbered (sd_next_id db) dst (in_order (filter ?P (sd_messages db)))"
  have db': "sd_messages db' = sd_messages db @ ?new"
    "sd_next_id db' = sd_next_id db + length (filter ?P (sd_messages db))"
    "n = length (filter ?P (sd_messages db))" "local_keys db' = local_keys db"
    using assms(2) unfolding copy_messages_def Let_def of_session_def by (auto split: if_splits)
  have "local_timed db' j = (if dst = j then sort_key fst (local_timed db j @ local_timed db src) else local_timed db j)" for j
  proof -
    have "mr_session x = j \<longleftrightarrow> dst = j" if "x \<in> set ?new" for x
      using renumbered_set [OF that] by auto
    from timed_copy [where Q = "\<lambda>r. mr_session r = j", OF assms(1) [unfolded local_good_def] this]
    show ?thesis by (simp add: local_timed_def db')
  qed
  moreover have "local_good now db'"
    using assms(1) good_rows_copy [of now "sd_next_id db" "sd_messages db" ?P dst]
    by (simp add: local_good_def db')
  ultimately show ?thesis by (auto simp: fun_eq_iff db' local_timed_def)
qed

lemma local_step_spec:
  assumes good: "local_good now db" and st: "local_step now c db = (r, db')"
  shows "local_good now db' \<and> conv_step now c (local_view db) = (sans_id r, local_view db') \<and>
    sd_next_id db \<le> sd_next_id db' \<and> (\<forall>i. r = Appended i \<longrightarrow> sd_next_id db \<le> i \<and> i < sd_next_id db')"
proof (cases c)
  case (OpenSession k source model)
  then show ?thesis
    using good st
    by (auto simp: local_step_def local_good_def local_view_def local_timed_def)
next
  case (AppendMsg k b)
  have "local_keys (snd (append_message k b now db)) = local_keys db"
    "append_message k b now db = (sd_next_id db, snd (append_message k b now db))"
    "sd_next_id (snd (append_message k b now db)) = Suc (sd_next_id db)"
    by (simp_all add: append_message_def)
  then show ?thesis
    using local_append_timed [OF good, of k b] st AppendMsg
    by (auto simp: local_step_def local_view_def split: prod.splits)
next
  case (GetMsgs k n)
  then show ?thesis using get_messages_timed [OF good] good st by (auto simp: local_step_def local_view_def)
next
  case (PopMsg k)
  then show ?thesis
    using local_pop [OF good, of k] st by (cases "pop_last_message k db") (auto simp: local_step_def local_view_def)
next
  case (ClearMsgs k)
  then show ?thesis
    using local_clear [OF good] st by (auto simp: local_step_def local_view_def clear_session_def)
next
  case (CopyMsgs src dst)
  then show ?thesis
    using local_copy [OF good, of src dst] st
    by (cases "copy_messages src dst db") (auto simp: local_step_def local_view_def)
qed

text \<open>SQLite refuses nothing: not an unknown session, a negative limit or a NUL.\<close>

interpretation local_store: message_store local_step local_view local_good "\<lambda>_ _. None" sd_next_id
proof unfold_locales
  show "local_good t db \<Longrightarrow> t \<le> now \<Longrightarrow> local_good now db" for t db now
    unfolding local_good_def by (rule good_rows_later)
next
  fix now db c r db'
  assume "local_good now db" and "local_step now c db = (r, db')"
  note spec = local_step_spec [OF this]
  show "local_good now db' \<and> guarded_step (\<lambda>_ _. None) now c (local_view db) = (sans_id r, local_view db')"
    using spec by (simp add: guarded_step_def)
  show "sd_next_id db \<le> sd_next_id db' \<and> (\<forall>i. r = Appended i \<longrightarrow> sd_next_id db \<le> i \<and> i < sd_next_id db')"
    using spec by blast
qed

end
