(* ===== verification/Session_Search.thy ===== *)
theory Session_Search
  imports Local_Sessions
begin

text \<open>
  The full-text search of \<open>sessions/local.py\<close> and the tool \<open>session_search\<close> over it.  SQLite's
  FTS5 is the parameter \<open>fts\<close>: a query it rejects is \<^const>\<open>None\<close>, any other gives the snippet of
  each text it matches.
\<close>

type_synonym fts_engine = "string \<Rightarrow> (string \<Rightarrow> string option) option"

subsection \<open>The query\<close>

text \<open>The regular expressions' \<open>\w\<close> on Latin-1 text.\<close>

definition is_word :: "char \<Rightarrow> bool" where
  "is_word c =
     (let n = of_char c :: nat in
      48 \<le> n \<and> n \<le> 57 \<or> 65 \<le> n \<and> n \<le> 90 \<or> n = 95 \<or> 97 \<le> n \<and> n \<le> 122
      \<or> n \<in> {170, 178, 179, 181, 185, 186, 188, 189, 190} \<or> 192 \<le> n \<and> n \<noteq> 215 \<and> n \<noteq> 247)"

text \<open>\<open>_HYPHEN_TERM_RE\<close>: the longest \<open>(-\w+)*\<close> at the front, and the rest.\<close>

function hyphen_tail :: "string \<Rightarrow> string \<times> string" where
  "hyphen_tail s =
     (case s of
        h # c # cs \<Rightarrow>
          (if h = CHR ''-'' \<and> is_word c then
             (let (more, rest) = hyphen_tail (dropWhile is_word cs)
              in (h # c # takeWhile is_word cs @ more, rest))
           else ([], s))
      | _ \<Rightarrow> ([], s))"
  by pat_completeness auto
termination
proof (relation "measure length", goal_cases)
  case (2 s h t c cs)
  then show ?case using length_dropWhile_le [of is_word cs] by simp
qed simp

declare hyphen_tail.simps [simp del]

lemma hyphen_tail_length: "length (snd (hyphen_tail s)) \<le> length s"
proof (induction s rule: hyphen_tail.induct)
  case (1 s)
  show ?case
  proof (cases "\<exists>h c cs. s = h # c # cs \<and> h = CHR ''-'' \<and> is_word c")
    case True
    then obtain c cs where s: "s = CHR ''-'' # c # cs" and w: "is_word c" by auto
    have "length (snd (hyphen_tail (dropWhile is_word cs))) \<le> length (dropWhile is_word cs)"
      using 1 s w by auto
    then show ?thesis
      using length_dropWhile_le [of is_word cs] s w
      by (subst hyphen_tail.simps) (simp add: case_prod_beta)
  next
    case False
    then show ?thesis by (subst hyphen_tail.simps) (auto split: list.split)
  qed
qed

function quote_hyphens :: "string \<Rightarrow> string" where
  "quote_hyphens s =
     (case s of
        [] \<Rightarrow> []
      | c # cs \<Rightarrow>
          (if is_word c then
             (let w = takeWhile is_word s;
                  (more, rest) = hyphen_tail (dropWhile is_word s)
              in if more = [] then w @ quote_hyphens (dropWhile is_word cs)
                 else [CHR 0x22] @ w @ more @ [CHR 0x22] @ quote_hyphens rest)
           else c # quote_hyphens cs))"
  by pat_completeness auto
termination
proof (relation "measure length", goal_cases)
  case (2 s c cs w p more rest)
  then show ?case using length_dropWhile_le [of is_word cs] by simp
next
  case (3 s c cs w p more rest)
  then have "length rest \<le> length (dropWhile is_word s)"
    using hyphen_tail_length [of "dropWhile is_word s"] by (metis snd_conv)
  with 3 show ?case using length_dropWhile_le [of is_word cs] by simp
qed auto

declare quote_hyphens.simps [simp del]

text \<open>\<open>_TRAILING_BOOL_RE\<close>: a dangling operator at the end, with the white space before it.\<close>

definition rstrip_text :: "string \<Rightarrow> string" where
  "rstrip_text s = rev (py_lstrip (rev s))"

definition drop_trailing_bool :: "string \<Rightarrow> string" where
  "drop_trailing_bool s =
     (let t = rstrip_text s;
          words = filter (\<lambda>w. length w < length t \<and> map ascii_lower (drop (length t - length w) t) = w
              \<and> py_isspace (t ! (length t - length w - 1))) [''and'', ''or'', ''not'']
      in case words of [] \<Rightarrow> s | w # _ \<Rightarrow> rstrip_text (take (length t - length w) t))"

definition fts5_match :: "string \<Rightarrow> string" where
  "fts5_match q =
     (let q1 = py_strip q in
      if q1 = [] then []
      else
        (let q2 = (if count_list q1 CHR 0x22 mod 2 = 1 then filter (\<lambda>c. c \<noteq> CHR 0x22) q1 else q1)
         in py_strip (drop_trailing_bool (quote_hyphens q2))))"

subsection \<open>The search\<close>

record search_hit =
  sh_id :: nat
  sh_session_id :: string
  sh_role :: string
  sh_timestamp :: int
  sh_snippet :: string
  sh_source :: string

definition passes :: "string list option \<Rightarrow> string \<Rightarrow> bool" where
  "passes f x \<longleftrightarrow> (case f of None \<Rightarrow> True | Some [] \<Rightarrow> True | Some xs \<Rightarrow> x \<in> set xs)"

definition not_excluded :: "string list option \<Rightarrow> string \<Rightarrow> bool" where
  "not_excluded f x \<longleftrightarrow> (case f of None \<Rightarrow> True | Some xs \<Rightarrow> x \<notin> set xs)"

text \<open>The join: the session of a message, if there is one.\<close>

definition hit_of :: "(string \<Rightarrow> string option) \<Rightarrow> session_db \<Rightarrow> message_row \<Rightarrow> search_hit list" where
  "hit_of m db r =
     (case (mb_content (mr_body r), find (\<lambda>s. ss_id s = mr_session r) (sd_sessions db)) of
        (Some c, Some s) \<Rightarrow>
          (case m c of
             None \<Rightarrow> []
           | Some snippet \<Rightarrow> [\<lparr>sh_id = mr_id r, sh_session_id = mr_session r, sh_role = mb_role (mr_body r),
               sh_timestamp = mr_ts r, sh_snippet = snippet, sh_source = ss_source s\<rparr>])
      | _ \<Rightarrow> [])"

definition search_messages ::
  "fts_engine \<Rightarrow> string \<Rightarrow> int \<Rightarrow> string list option \<Rightarrow> string list option \<Rightarrow> string list option
     \<Rightarrow> session_db \<Rightarrow> search_hit list"
where
  "search_messages fts q most sources excluded roles db =
     (if fts5_match q = [] then []
      else (case fts (fts5_match q) of
          None \<Rightarrow> []
        | Some m \<Rightarrow>
            sqlite_limit most (sort_key (\<lambda>h. - sh_timestamp h)
              (filter (\<lambda>h. passes sources (sh_source h) \<and> not_excluded excluded (sh_source h) \<and> passes roles (sh_role h))
                (concat (map (hit_of m db) (sd_messages db)))))))"

text \<open>The tool is handed the context of the turn and does not read it.\<close>

definition session_search ::
  "fts_engine \<Rightarrow> 'ctx \<Rightarrow> string \<Rightarrow> int \<Rightarrow> string option \<Rightarrow> string option \<Rightarrow> session_db option \<Rightarrow> search_hit list option"
where
  "session_search fts ctx q most source role bound =
     (case bound of
        None \<Rightarrow> None
      | Some db \<Rightarrow>
          Some (search_messages fts q (min (max 1 most) 50)
            (case source of None \<Rightarrow> None | Some [] \<Rightarrow> None | Some s \<Rightarrow> Some [s]) None
            (case role of None \<Rightarrow> None | Some [] \<Rightarrow> None | Some r \<Rightarrow> Some [r]) db))"

subsection \<open>Lemmas\<close>

lemma length_hits: "length (concat (map (hit_of m db) rows)) \<le> length rows"
proof (induction rows)
  case (Cons r rows)
  have "length (hit_of m db r) \<le> 1" by (simp add: hit_of_def split: option.split)
  then show ?case using Cons by simp
qed simp

lemma sqlite_limit_all: "int (length xs) \<le> n \<Longrightarrow> sqlite_limit n xs = xs"
  by (simp add: sqlite_limit_def nat_le_iff le_nat_iff)

lemma find_session:
  assumes "distinct (map ss_id ss)" and "s \<in> set ss"
  shows "find (\<lambda>x. ss_id x = ss_id s) ss = Some s"
  using assms by (induction ss) (auto simp: image_iff)

lemma search_finds:
  assumes "r \<in> set (sd_messages db)" and "find (\<lambda>s. ss_id s = mr_session r) (sd_sessions db) = Some s"
    and "mb_content (mr_body r) = Some c" and "fts5_match q \<noteq> []"
    and "fts (fts5_match q) = Some m" and "m c = Some snippet" and "length (sd_messages db) \<le> 50"
  shows "\<lparr>sh_id = mr_id r, sh_session_id = mr_session r, sh_role = mb_role (mr_body r),
      sh_timestamp = mr_ts r, sh_snippet = snippet, sh_source = ss_source s\<rparr>
      \<in> set (search_messages fts q 50 None None None db)" (is "?h \<in> _")
proof -
  have "?h \<in> set (hit_of m db r)" using assms(2,3,6) by (simp add: hit_of_def)
  then have "?h \<in> set (concat (map (hit_of m db) (sd_messages db)))" using assms(1) by auto
  moreover have "length (concat (map (hit_of m db) (sd_messages db))) \<le> 50"
    using length_hits [of m db "sd_messages db"] assms(7) by linarith
  ultimately show ?thesis
    using assms(4,5) by (simp add: search_messages_def passes_def not_excluded_def sqlite_limit_all
        del: set_concat concat.simps)
qed

end
