(* ===== verification/Engine_Sessions.thy ===== *)
theory Engine_Sessions
  imports Turn_Routes Session_Search Pg_Sessions
begin

text \<open>
  The conversation of a cloud turn: \<open>web/turn_engine.py\<close> runs the agent over an \<open>SDKSession\<close> of
  the process-wide SQLite store, and registers \<open>session_search\<close> on the same store.  The agent,
  with the SDK's runner, is a parameter: from the history and the text of the turn it makes the
  items that the runner adds to the session, with the time of each.
\<close>

type_synonym history = "(string \<times> json) list list"

type_synonym agent_run = "history \<Rightarrow> pystr \<Rightarrow> (int \<times> (string \<times> json) list) list"

subsection \<open>A turn\<close>

text \<open>The history the agent is given, and the store after the turn.\<close>

definition engine_turn ::
  "agent_run \<Rightarrow> string option \<Rightarrow> int \<Rightarrow> turn_request \<Rightarrow> session_db \<Rightarrow> history \<times> session_db"
where
  "engine_turn agent model now req db =
     (let k = tr_session_key req;
          db1 = open_sdk_session k ''web'' (Some (uuid_str (tr_user req))) model now db;
          h = get_items k None db1
      in (h, snd (add_items k (agent h (tr_text req)) db1)))"

text \<open>What a store keeps of an item.\<close>

definition kept_keys :: "string set" where
  "kept_keys = {''role'', ''content'', ''tool_call_id'', ''tool_calls'', ''name''}"

definition storable :: "(int \<times> (string \<times> json) list) list \<Rightarrow> bool" where
  "storable items \<longleftrightarrow> list_all (\<lambda>(t, item). item_body item \<noteq> None) items"

subsection \<open>Lemmas\<close>

lemma open_sdk_session_simps [simp]:
  "local_convs (open_sdk_session k source user model now db) = local_convs db"
  "local_good t (open_sdk_session k source user model now db) = local_good t db"
  "sd_messages (open_sdk_session k source user model now db) = sd_messages db"
  by (simp_all add: open_sdk_session_def local_convs_def local_good_def fun_eq_iff)

lemma get_items_convs: "local_good now db \<Longrightarrow> get_items k None db = map body_to_msg (local_convs db k)"
  using get_messages_bodies [of now db k] by (simp add: get_items_def)

fun rising :: "int \<Rightarrow> (int \<times> 'x) list \<Rightarrow> bool" where
  "rising t [] \<longleftrightarrow> True"
| "rising t ((now, x) # xs) \<longleftrightarrow> t \<le> now \<and> rising now xs"

fun last_time :: "int \<Rightarrow> (int \<times> 'x) list \<Rightarrow> int" where
  "last_time t [] = t"
| "last_time t ((now, x) # xs) = last_time now xs"

definition new_bodies :: "(int \<times> (string \<times> json) list) list \<Rightarrow> message_body list" where
  "new_bodies items = map (\<lambda>(t, item). stored_body (the (item_body item))) items"

text \<open>Adding storable items extends the conversation of the key and no other.\<close>

lemma add_items_convs:
  "local_good t db \<Longrightarrow> rising t items \<Longrightarrow> storable items \<Longrightarrow>
     fst (add_items k items db) \<and> local_good (last_time t items) (snd (add_items k items db)) \<and>
     local_convs (snd (add_items k items db)) = (local_convs db)(k := local_convs db k @ new_bodies items)"
proof (induction items arbitrary: t db)
  case (Cons x items)
  obtain now item b where x: "x = (now, item)" and b: "item_body item = Some b"
    using Cons.prems(3) by (cases x) (auto simp: storable_def)
  have good: "local_good now db"
    using Cons.prems(1,2) by (auto simp: x local_good_def intro: good_rows_later)
  note step = local_append [OF good, of k b]
  have "fst (add_items k items (snd (append_message k b now db))) \<and>
      local_good (last_time now items) (snd (add_items k items (snd (append_message k b now db)))) \<and>
      local_convs (snd (add_items k items (snd (append_message k b now db))))
        = (local_convs (snd (append_message k b now db)))(k := local_convs (snd (append_message k b now db)) k @ new_bodies items)"
    using Cons.prems step by (intro Cons.IH) (auto simp: x storable_def)
  then show ?case using step by (simp add: x b new_bodies_def)
qed (simp add: new_bodies_def)

lemma engine_turn_history:
  assumes "local_good t db" and "t \<le> now" and "engine_turn agent model now req db = (h, db1)"
  shows "h = map body_to_msg (local_convs db (tr_session_key req))"
proof -
  have "local_good now db" using assms(1,2) by (auto simp: local_good_def intro: good_rows_later)
  then show ?thesis
    using get_items_convs [of now "open_sdk_session (tr_session_key req) ''web'' (Some (uuid_str (tr_user req))) model now db"]
      assms(3) by (auto simp: engine_turn_def Let_def)
qed

lemma engine_turn_convs:
  assumes "local_good t db" and "t \<le> now" and "engine_turn agent model now req db = (h, db1)"
    and "rising now (agent h (tr_text req))" and "storable (agent h (tr_text req))"
  shows "local_good (last_time now (agent h (tr_text req))) db1"
    and "local_convs db1 = (local_convs db)(tr_session_key req :=
      local_convs db (tr_session_key req) @ new_bodies (agent h (tr_text req)))"
proof -
  let ?db1 = "open_sdk_session (tr_session_key req) ''web'' (Some (uuid_str (tr_user req))) model now db"
  have "local_good now db" using assms(1,2) by (auto simp: local_good_def intro: good_rows_later)
  then have good: "local_good now ?db1" by simp
  have "db1 = snd (add_items (tr_session_key req) (agent h (tr_text req)) ?db1)"
    using assms(3) by (auto simp: engine_turn_def Let_def)
  then show "local_good (last_time now (agent h (tr_text req))) db1"
    and "local_convs db1 = (local_convs db)(tr_session_key req :=
      local_convs db (tr_session_key req) @ new_bodies (agent h (tr_text req)))"
    using add_items_convs [OF good assms(4,5), of "tr_session_key req"] by simp_all
qed

lemma append_sessions:
  "map ss_id (sd_sessions (snd (append_message k b now db))) = map ss_id (sd_sessions db) \<and>
   map ss_source (sd_sessions (snd (append_message k b now db))) = map ss_source (sd_sessions db)"
  by (simp add: append_message_def set_count_def)

lemma add_items_sessions:
  "map ss_id (sd_sessions (snd (add_items k items db))) = map ss_id (sd_sessions db)"
proof (induction items arbitrary: db)
  case (Cons x items)
  then show ?case by (cases x) (simp add: append_sessions split: option.split)
qed simp

lemma opened: "k \<in> ss_id ` set (sd_sessions (open_sdk_session k source user model now db))"
  by (simp add: open_sdk_session_def create_session_def)

lemma turn_session:
  "\<exists>s. find (\<lambda>s. ss_id s = tr_session_key req) (sd_sessions (snd (engine_turn agent model now req db))) = Some s"
proof -
  let ?db1 = "open_sdk_session (tr_session_key req) ''web'' (Some (uuid_str (tr_user req))) model now db"
  let ?db2 = "snd (engine_turn agent model now req db)"
  have "map ss_id (sd_sessions ?db2) = map ss_id (sd_sessions ?db1)"
    by (simp add: engine_turn_def Let_def add_items_sessions)
  then have "set (map ss_id (sd_sessions ?db2)) = set (map ss_id (sd_sessions ?db1))"
    by (rule arg_cong)
  then have "tr_session_key req \<in> ss_id ` set (sd_sessions ?db2)"
    using opened [of "tr_session_key req"] by simp
  then show ?thesis
    by (cases "find (\<lambda>s. ss_id s = tr_session_key req) (sd_sessions ?db2)") (auto simp: find_None_iff)
qed

lemma bodies_mem: "b \<in> set (bodies P rows) \<longleftrightarrow> (\<exists>r \<in> set rows. P r \<and> mr_body r = b)"
  by (auto simp: bodies_def)

lemma dicts_kept: "list_all is_dict cs \<Longrightarrow> filter is_dict cs = cs"
  by (induction cs) simp_all

text \<open>A message with a text role whose calls are dicts is read back from its own dict.\<close>

definition calls_ok :: "message_body \<Rightarrow> bool" where
  "calls_ok b \<longleftrightarrow> (case mb_tool_calls b of None \<Rightarrow> True | Some cs \<Rightarrow> list_all is_dict cs)"

text \<open>Columns that are absent and columns that are empty read the same.\<close>

definition some_text :: "string option \<Rightarrow> string option" where
  "some_text v = (case v of None \<Rightarrow> None | Some [] \<Rightarrow> None | Some s \<Rightarrow> Some s)"

lemma body_to_msg_parts:
  "body_to_msg b = (''role'', JStr (mb_role b)) #
     (case mb_content b of None \<Rightarrow> [] | Some c \<Rightarrow> [(''content'', JStr c)]) @
     (case some_text (mb_tool_call_id b) of None \<Rightarrow> [] | Some i \<Rightarrow> [(''tool_call_id'', JStr i)]) @
     (case stored_calls (mb_tool_calls b) of None \<Rightarrow> [] | Some cs \<Rightarrow> [(''tool_calls'', JArr cs)]) @
     (case some_text (mb_tool_name b) of None \<Rightarrow> [] | Some n \<Rightarrow> [(''name'', JStr n)])"
  by (simp add: body_to_msg_def some_text_def stored_calls_def split: option.split list.split)

lemma map_of_opt: "map_of ((case v of None \<Rightarrow> [] | Some x \<Rightarrow> [(k', f x)]) @ d) k =
    (if k = k' \<and> v \<noteq> None then map_option f v else map_of d k)"
  by (cases v) auto

lemma map_of_opt_last: "map_of (case v of None \<Rightarrow> [] | Some x \<Rightarrow> [(k', f x)]) k = (if k = k' then map_option f v else None)"
  by (cases v) auto

lemma body_to_msg_get:
  "map_of (body_to_msg b) ''role'' = Some (JStr (mb_role b))"
  "map_of (body_to_msg b) ''content'' = map_option JStr (mb_content b)"
  "map_of (body_to_msg b) ''tool_call_id'' = map_option JStr (some_text (mb_tool_call_id b))"
  "map_of (body_to_msg b) ''tool_calls'' = map_option JArr (stored_calls (mb_tool_calls b))"
  "map_of (body_to_msg b) ''name'' = map_option JStr (some_text (mb_tool_name b))"
  by (simp_all add: body_to_msg_parts map_of_opt map_of_opt_last del: map_of_append)

lemma py_get_opt: "map_of d k = map_option f v \<Longrightarrow> py_get d k = (case v of None \<Rightarrow> JNull | Some x \<Rightarrow> f x)"
  by (simp add: py_get_def split: option.split)

lemma some_text_idem [simp]: "some_text (some_text v) = some_text v"
  by (simp add: some_text_def split: option.split list.split)

lemma stored_calls_idem [simp]: "stored_calls (stored_calls v) = stored_calls v"
  by (simp add: stored_calls_def split: option.split list.split)

lemma bind_text_opt: "bind_text (case v of None \<Rightarrow> JNull | Some x \<Rightarrow> JStr x) = Some v"
  by (simp add: bind_text_def split: option.split)

lemma calls_of_opt:
  "calls_ok b \<Longrightarrow> (case (case stored_calls (mb_tool_calls b) of None \<Rightarrow> JNull | Some cs \<Rightarrow> JArr cs) of
     JArr cs \<Rightarrow> Some (filter is_dict cs) | _ \<Rightarrow> None) = stored_calls (mb_tool_calls b)"
  by (auto simp: stored_calls_def calls_ok_def dicts_kept split: option.split list.split)

lemma content_of_opt:
  "(case (case v of None \<Rightarrow> JNull | Some c \<Rightarrow> JStr c) of JNull \<Rightarrow> None | v \<Rightarrow> Some (py_str v)) = v"
  by (simp add: py_str_def split: option.split)

lemma item_body_msg:
  assumes "calls_ok b"
  shows "\<exists>b'. item_body (body_to_msg b) = Some b' \<and> body_to_msg b' = body_to_msg b"
proof -
  note get = py_get_opt [OF body_to_msg_get(2), of b] py_get_opt [OF body_to_msg_get(3), of b]
    py_get_opt [OF body_to_msg_get(4), of b] py_get_opt [OF body_to_msg_get(5), of b]
  have "item_body (body_to_msg b) = Some \<lparr>mb_role = mb_role b, mb_content = mb_content b,
      mb_tool_call_id = some_text (mb_tool_call_id b), mb_tool_calls = stored_calls (mb_tool_calls b),
      mb_tool_name = some_text (mb_tool_name b)\<rparr>"
    by (simp only: item_body_def get bind_text_opt body_to_msg_get(1) option.case prod.case
        calls_of_opt [OF assms] content_of_opt) (simp add: py_str_def)
  then show ?thesis by (simp add: body_to_msg_parts)
qed

subsection \<open>Properties\<close>

text \<open>
  C2. The conversation of a cloud turn is found by the session key alone: a turn with the key of
  an earlier one, of whichever user, is given the earlier history and everything that turn added;
  a turn with another key is given what it would have been given without it.
\<close>

theorem sessions_shared_across_users:
  assumes "local_good t db" and "t \<le> now1" and "engine_turn agent1 model1 now1 req1 db = (h1, db1)"
    and "rising now1 (agent1 h1 (tr_text req1))" and "storable (agent1 h1 (tr_text req1))"
    and "last_time now1 (agent1 h1 (tr_text req1)) \<le> now2"
  shows "fst (engine_turn agent2 model2 now2 req2 db1) =
    (if tr_session_key req2 = tr_session_key req1
     then h1 @ map body_to_msg (new_bodies (agent1 h1 (tr_text req1)))
     else fst (engine_turn agent2 model2 now2 req2 db))"
proof -
  have history: "fst (engine_turn agent2 model2 now2 req2 d) = map body_to_msg (local_convs d (tr_session_key req2))"
    if "local_good now2 d" for d
    using engine_turn_history [OF that order_refl] by (metis prod.collapse)
  have good1: "local_good now1 db" using assms(1,2) by (auto simp: local_good_def intro: good_rows_later)
  note h1 = engine_turn_history [OF assms(1-3)]
  note turn = engine_turn_convs [OF assms(1-5)]
  have "local_good now2 db1" using turn(1) assms(6) by (auto simp: local_good_def intro: good_rows_later)
  moreover have "now1 \<le> now2"
  proof -
    have "s \<le> last_time s xs" if "rising s xs" for s and xs :: "(int \<times> (string \<times> json) list) list"
      using that by (induction s xs rule: rising.induct) auto
    then show ?thesis using assms(4,6) by force
  qed
  then have "local_good now2 db" using good1 by (auto simp: local_good_def intro: good_rows_later)
  ultimately show ?thesis by (simp add: history turn(2) flip: h1)
qed

text \<open>
  The search tool of a turn reads the conversations of every user: whatever context it is
  called in, it returns a match in an item that a turn of any user has stored.
\<close>

theorem session_search_crosses_users:
  assumes "local_good t db" and "t \<le> now" and "engine_turn agent model now req db = (h, db1)"
    and "rising now (agent h (tr_text req))" and "storable (agent h (tr_text req))"
    and "(s, item) \<in> set (agent h (tr_text req))" and "item_body item = Some b" and "mb_content b = Some c"
    and "fts5_match q \<noteq> []" and "fts (fts5_match q) = Some m" and "m c = Some snippet"
    and "length (sd_messages db1) \<le> 50"
  shows "\<exists>hits hit. session_search fts ctx q 50 None None (Some db1) = Some hits \<and> hit \<in> set hits \<and>
    sh_session_id hit = tr_session_key req \<and> sh_snippet hit = snippet \<and> sh_role hit = mb_role b"
proof -
  have "stored_body b \<in> set (new_bodies (agent h (tr_text req)))"
    using assms(6,7) by (force simp: new_bodies_def)
  then have "stored_body b \<in> set (local_convs db1 (tr_session_key req))"
    using engine_turn_convs(2) [OF assms(1-5)] by simp
  then obtain r where r: "r \<in> set (sd_messages db1)" "mr_session r = tr_session_key req" "mr_body r = stored_body b"
    by (auto simp: local_convs_def bodies_mem)
  obtain s where s: "find (\<lambda>s. ss_id s = mr_session r) (sd_sessions db1) = Some s"
    using turn_session [of req agent model now db] assms(3) r(2) by auto
  have "mb_content (mr_body r) = Some c" using assms(8) by (simp add: r(3) stored_body_def)
  from search_finds [where fts = fts and q = q and m = m and snippet = snippet, OF r(1) s this assms(9-12)] show ?thesis
    by (force simp: session_search_def r stored_body_def)
qed

text \<open>
  Items made of text columns come back as they were: adding the dicts of messages whose calls
  are dicts to an empty session and reading the session gives the same dicts in the same order.
\<close>

theorem session_items_roundtrip:
  assumes "local_good t db" and "local_convs db k = []" and "rising t (zip ts (map body_to_msg bs))"
    and "length ts = length bs" and "list_all calls_ok bs"
  shows "fst (add_items k (zip ts (map body_to_msg bs)) db) \<and>
    get_items k None (snd (add_items k (zip ts (map body_to_msg bs)) db)) = map body_to_msg bs"
proof -
  let ?items = "zip ts (map body_to_msg bs)"
  have "storable ?items \<and> map body_to_msg (new_bodies ?items) = map body_to_msg bs"
    using assms(4,5)
  proof (induction bs arbitrary: ts)
    case (Cons b bs)
    then obtain s ss where ts: "ts = s # ss" by (cases ts) auto
    obtain b' where "item_body (body_to_msg b) = Some b'" "body_to_msg b' = body_to_msg b"
      using item_body_msg [of b] Cons.prems(2) by auto
    then show ?case using Cons.IH [of ss] Cons.prems ts by (simp add: storable_def new_bodies_def)
  qed (simp add: storable_def new_bodies_def)
  then show ?thesis
    using add_items_convs [OF assms(1,3)] get_items_convs [of "last_time t ?items" _ k] assms(2) by auto
qed

text \<open>
  Nothing but role, content, call id, calls and name of an item is stored: two items that agree
  on these five keys leave the same store, so the output of a tool, or the arguments of a call,
  which the SDK keeps under other keys, are lost.
\<close>

theorem session_items_lossy:
  assumes "\<forall>key \<in> kept_keys. map_of i key = map_of j key"
  shows "add_items k [(now, i)] db = add_items k [(now, j)] db"
proof -
  have "map_of i key = map_of j key" if "key \<in> kept_keys" for key
    using assms that by blast
  then have same: "map_of i ''role'' = map_of j ''role''" "py_get i ''content'' = py_get j ''content''"
    "py_get i ''tool_call_id'' = py_get j ''tool_call_id''" "py_get i ''tool_calls'' = py_get j ''tool_calls''"
    "py_get i ''name'' = py_get j ''name''"
    by (simp_all add: kept_keys_def py_get_def)
  have "item_body i = item_body j"
    by (simp only: item_body_def same)
  then show ?thesis by simp
qed

text \<open>
  C5. The two stores keep one contract and differ in what they refuse.  At times that do not go
  back, for any sequence of openings, appends, reads, pops, clears and forks, on either schema:
  SQLite answers as the map from keys to timed messages does, and refuses nothing; Postgres
  answers one user as the same map does, except that it refuses, with an error and without a
  change, a NUL in a text, a negative limit, an append or a non-empty fork into a session that
  was not opened, and since revision 0003 every opening; each store's message ids grow.  So from
  the same conversations the two give the same answers, ids apart, as long as Postgres raises nothing.
\<close>

theorem stores_agree:
  assumes "local_good t ldb" and "pg_good t pdb" and "clock_ok t os"
  shows "map sans_id (store_run local_step os ldb) = guarded_run (\<lambda>_ _. None) os (local_view ldb) \<and>
    map sans_id (store_run (pg_step sch u) os pdb) = guarded_run (pg_refuses sch) os (pg_view u pdb) \<and>
    sorted_wrt (<) (appended_ids (store_run local_step os ldb)) \<and>
    sorted_wrt (<) (appended_ids (store_run (pg_step sch u) os pdb)) \<and>
    (pg_timed u pdb = local_timed ldb \<and> (\<forall>e. Raised e \<notin> set (store_run (pg_step sch u) os pdb)) \<longrightarrow>
     map sans_id (store_run (pg_step sch u) os pdb) = map sans_id (store_run local_step os ldb))"
proof -
  note l = local_store.run_refines [OF assms(1,3)] and p = pg_store.run_refines [OF assms(2,3), where sch = sch and u = u]
  have "guarded_run (pg_refuses sch) os (pg_view u pdb) = guarded_run (\<lambda>_ _. None) os (local_view ldb)"
    if "pg_timed u pdb = local_timed ldb" "\<forall>e. Raised e \<notin> set (store_run (pg_step sch u) os pdb)"
  proof (rule guarded_run_free)
    show "Raised e \<notin> set (guarded_run (pg_refuses sch) os (pg_view u pdb))" for e
      using that(2) by (simp flip: p) (metis imageE sans_id_Raised)
  qed (simp add: that(1) pg_view_def local_view_def)
  with l p show ?thesis
    using local_store.run_ids [OF assms(1,3)] pg_store.run_ids [OF assms(2,3), where sch = sch and u = u] by simp
qed

text \<open>
  An operation on the Postgres store by one user changes no conversation of another user,
  even under the same session key.
\<close>

theorem pg_store_isolated:
  assumes "pg_good now db" and "v \<noteq> u"
  shows "pg_timed v (snd (pg_step sch u now c db)) = pg_timed v db"
  using pg_step_spec [OF assms(1), where sch = sch and u = u and c = c] assms(2) by (simp add: pg_others_def)

subsection \<open>Witnesses\<close>

definition session_request :: "uuid \<Rightarrow> turn_request" where
  "session_request u = \<lparr>tr_user = u, tr_session_key = ''k'', tr_text = codes ''hi'', tr_permission_mode = ''auto'',
     tr_command = None, tr_model = None, tr_agent = None\<rparr>"

definition example_run :: agent_run where
  "example_run h txt = [(2, [(''role'', JStr ''assistant''), (''content'', JStr ''secret'')])]"

definition secret_body :: message_body where
  "secret_body = \<lparr>mb_role = ''assistant'', mb_content = Some ''secret'', mb_tool_call_id = None,
     mb_tool_calls = None, mb_tool_name = None\<rparr>"

definition example_pgdb :: pg_db where
  "example_pgdb = \<lparr>pd_sessions = [], pd_messages = [], pd_next_id = 1\<rparr>"

lemma example_item: "item_body [(''role'', JStr ''assistant''), (''content'', JStr ''secret'')] = Some secret_body"
  by (simp add: item_body_def py_get_def bind_text_def py_str_def secret_body_def)

lemma empty_db_ok: "local_good 0 empty_db" "local_convs empty_db = (\<lambda>k. [])" "pg_good 0 example_pgdb"
  "pg_timed u example_pgdb = local_timed empty_db"
  by (simp_all add: local_good_def good_rows_def empty_db_def local_convs_def bodies_def pg_good_def pg_timed_def
      example_pgdb_def fun_eq_iff local_timed_def timed_def)

lemma example_run_ok: "rising 1 (example_run h txt)" "storable (example_run h txt)" "last_time 1 (example_run h txt) = 2"
  by (simp_all add: example_run_def storable_def example_item)

lemma example_stored: "new_bodies (example_run h txt) = [secret_body]"
  by (simp add: new_bodies_def example_run_def example_item) (simp add: secret_body_def stored_body_def stored_calls_def)

lemma example_first_turn:
  "engine_turn example_run None 1 (session_request 7) empty_db = ([], snd (engine_turn example_run None 1 (session_request 7) empty_db))"
  using engine_turn_history [OF empty_db_ok(1), of 1 example_run None "session_request 7"]
  by (cases "engine_turn example_run None 1 (session_request 7) empty_db") (simp add: empty_db_ok(2))

theorem sessions_shared_across_users_witness:
  "fst (engine_turn example_run None 3 (session_request 8) (snd (engine_turn example_run None 1 (session_request 7) empty_db)))
     = [[(''role'', JStr ''assistant''), (''content'', JStr ''secret'')]]"
  using sessions_shared_across_users [OF empty_db_ok(1) _ example_first_turn example_run_ok(1,2),
      where ?now2.0 = 3 and ?agent2.0 = example_run and ?model2.0 = None and ?req2.0 = "session_request 8"]
  by (simp add: example_run_ok(3) example_stored session_request_def) (simp add: body_to_msg_def secret_body_def)

definition whole_text :: fts_engine where
  "whole_text q = Some (\<lambda>c. if c = q then Some c else None)"

theorem session_search_crosses_users_witness:
  "\<exists>hits hit. session_search whole_text (8 :: nat) ''secret'' 50 None None
       (Some (snd (engine_turn example_run None 1 (session_request 7) empty_db))) = Some hits \<and>
     hit \<in> set hits \<and> sh_session_id hit = ''k'' \<and> sh_snippet hit = ''secret'' \<and> sh_role hit = ''assistant''"
proof -
  have q: "fts5_match ''secret'' = ''secret''" by code_simp
  have few: "length (sd_messages (snd (engine_turn example_run None 1 (session_request 7) empty_db))) \<le> 50"
    by (simp add: engine_turn_def Let_def open_sdk_session_def create_session_def empty_db_def example_run_def
        example_item append_message_def)
  have key: "tr_session_key (session_request 7) = ''k''" and role: "mb_role secret_body = ''assistant''"
    by (simp_all add: session_request_def secret_body_def)
  show ?thesis
    using session_search_crosses_users [OF empty_db_ok(1) _ example_first_turn example_run_ok(1,2),
        of 2 "[(''role'', JStr ''assistant''), (''content'', JStr ''secret'')]" secret_body "''secret''" "''secret''"
          whole_text "\<lambda>c. if c = ''secret'' then Some c else None" "''secret''" "8 :: nat"] few
    by (simp only: key role q example_item) (simp add: example_run_def whole_text_def secret_body_def)
qed

theorem session_items_roundtrip_witness:
  "get_items ''k'' None (snd (add_items ''k'' (zip [1] (map body_to_msg [secret_body])) empty_db))
     = map body_to_msg [secret_body]"
  using session_items_roundtrip [OF empty_db_ok(1), of "''k''" "[1]" "[secret_body]"]
  by (simp add: empty_db_ok(2) calls_ok_def secret_body_def)

theorem session_items_lossy_witness:
  "add_items ''k'' [(1, [(''type'', JStr ''function_call_output''), (''call_id'', JStr ''c1''), (''output'', JStr ''42'')])] empty_db
     = add_items ''k'' [(1, [(''type'', JStr ''function_call_output''), (''call_id'', JStr ''c2''), (''output'', JStr ''0'')])] empty_db"
  by (rule session_items_lossy) (simp add: kept_keys_def)

definition example_ops :: "(int \<times> store_op) list" where
  "example_ops = [(1, OpenSession ''k'' ''web'' None), (1, AppendMsg ''k'' secret_body), (2, OpenSession ''j'' ''web'' None),
     (2, CopyMsgs ''k'' ''j''), (3, CopyMsgs ''k'' ''j''), (3, GetMsgs ''j'' (Some 1)), (4, PopMsg ''k'')]"

text \<open>The same answers where sessions are opened first; where one is not, only SQLite takes the message.\<close>

theorem stores_agree_witness:
  "map sans_id (store_run (pg_step Schema_0001 7) example_ops example_pgdb) = map sans_id (store_run local_step example_ops empty_db) \<and>
   store_run (pg_step Schema_0003 7) [(1, AppendMsg ''k'' secret_body)] example_pgdb = [Raised IntegrityError] \<and>
   map sans_id (store_run local_step [(1, AppendMsg ''k'' secret_body)] empty_db) = [Appended 0]"
proof -
  have free: "Raised e \<notin> set (store_run (pg_step Schema_0001 7) example_ops example_pgdb)" for e
    by (simp add: example_ops_def pg_defs example_pgdb_def secret_body_def newest_first_def in_order_def Let_def
        renumbered_def upt_conv_Cons)
  have "clock_ok 0 example_ops" by (simp add: example_ops_def)
  from stores_agree [OF empty_db_ok(1,3) this, of Schema_0001 7] free empty_db_ok(4) show ?thesis
    using stores_agree [OF empty_db_ok(1,3), of "[(1, AppendMsg ''k'' secret_body)]" Schema_0003 7]
    by (auto simp: guarded_step_def local_view_def pg_defs example_pgdb_def secret_body_def)
qed

theorem pg_store_isolated_witness:
  "pg_timed 8 (snd (pg_step Schema_0001 7 1 (OpenSession ''k'' ''web'' None) example_pgdb)) = (\<lambda>k. [])"
  using pg_store_isolated [of 1 example_pgdb 8 7 Schema_0001 "OpenSession ''k'' ''web'' None"]
  by (simp add: pg_timed_def timed_def fun_eq_iff) (simp add: pg_good_def good_rows_def example_pgdb_def)

end
