(* ===== verification/Gdpr.thy ===== *)
theory Gdpr
  imports Pg_Sessions Turn_Routes Scheduler_Tick
begin

text \<open>
  Account deletion: \<open>repositories/gdpr_delete_repo.py\<close>, \<open>web/routes/users.py\<close>,
  \<open>scheduler/gdpr_tick.py\<close> and \<open>worker/gdpr.py\<close>; and the shipping of old audit rows,
  \<open>worker/audit_ship.py\<close> with \<open>repositories/audit_repo.py\<close>.  A row of a table is its owner, its
  author and the JSON document an export makes of it; the rows under an agent or a session are
  taken to belong to the user of that agent or session.  The bucket is the list of its objects, and
  whether an upload succeeds is an argument.
\<close>

subsection \<open>Tables\<close>

datatype tenant_table =
    Memory_chunks | Turn_outcomes | Session_summaries | Messages_table | Sessions_table | User_documents
  | Skill_proposals | Agents_table | Usage_events | Cron_jobs_table | Mcp_servers | Skills_table | Commands_table
  | Instructions_table | Opt_outs_table

fun table_name :: "tenant_table \<Rightarrow> string" where
  "table_name Memory_chunks = ''memory_chunks''"
| "table_name Turn_outcomes = ''turn_outcomes''"
| "table_name Session_summaries = ''session_summaries''"
| "table_name Messages_table = ''messages''"
| "table_name Sessions_table = ''sessions''"
| "table_name User_documents = ''user_documents''"
| "table_name Skill_proposals = ''skill_proposals''"
| "table_name Agents_table = ''agents''"
| "table_name Usage_events = ''usage_events''"
| "table_name Cron_jobs_table = ''cron_jobs''"
| "table_name Mcp_servers = ''mcp_servers''"
| "table_name Skills_table = ''skills''"
| "table_name Commands_table = ''commands''"
| "table_name Instructions_table = ''instructions''"
| "table_name Opt_outs_table = ''user_official_opt_outs''"

record table_row =
  tb_table :: tenant_table
  tb_user :: "uuid option"
  tb_created_by :: "uuid option"
  tb_data :: json

record audit_row =
  au_id :: int
  au_ts :: int
  au_actor :: uuid
  au_role :: string
  au_action :: string
  au_target :: json
  au_diff :: json
  au_request :: "uuid option"

record gdpr_request =
  gq_id :: uuid
  gq_user :: "uuid option"
  gq_requested_at :: int
  gq_scheduled_at :: int
  gq_completed_at :: "int option"
  gq_cancelled_at :: "int option"
  gq_archive_key :: "string option"

record account_db =
  ac_users :: "uuid list"
  ac_rows :: "table_row list"
  ac_audit :: "audit_row list"
  ac_requests :: "gdpr_request list"

text \<open>The tables with row level security; the others show every row to everybody.\<close>

definition rls_tables :: "tenant_table list" where
  "rls_tables = [Messages_table, Sessions_table, User_documents, Skill_proposals, Memory_chunks, Session_summaries,
     Turn_outcomes]"

definition GDPR_TENANT_TABLES :: "tenant_table list" where
  "GDPR_TENANT_TABLES = [Memory_chunks, Turn_outcomes, Session_summaries, Messages_table, Sessions_table,
     User_documents, Skill_proposals, Agents_table, Usage_events]"

definition visible_rows :: "uuid \<Rightarrow> tenant_table \<Rightarrow> account_db \<Rightarrow> table_row list" where
  "visible_rows u t db =
     filter (\<lambda>r. tb_table r = t \<and> (t \<in> set rls_tables \<longrightarrow> tb_user r = Some u)) (ac_rows db)"

subsection \<open>\<open>GdprDeleteRepo\<close>\<close>

definition is_pending :: "gdpr_request \<Rightarrow> bool" where
  "is_pending q \<longleftrightarrow> gq_completed_at q = None \<and> gq_cancelled_at q = None"

definition gdpr_get_by_id :: "uuid \<Rightarrow> account_db \<Rightarrow> gdpr_request option result" where
  "gdpr_get_by_id qid db = scalar_one_or_none (filter (\<lambda>q. gq_id q = qid) (ac_requests db))"

definition dump_tenant_rows :: "uuid \<Rightarrow> account_db \<Rightarrow> (string \<times> json) list" where
  "dump_tenant_rows u db = map (\<lambda>t. (table_name t, JArr (map tb_data (visible_rows u t db)))) GDPR_TENANT_TABLES"

definition get_pending_for_user :: "uuid \<Rightarrow> account_db \<Rightarrow> gdpr_request option result" where
  "get_pending_for_user u db =
     scalar_one_or_none (filter (\<lambda>q. gq_user q = Some u \<and> is_pending q) (ac_requests db))"

text \<open>A partial unique index allows one pending request for a user.\<close>

definition gdpr_create :: "uuid \<Rightarrow> int \<Rightarrow> uuid \<Rightarrow> int \<Rightarrow> account_db \<Rightarrow> (gdpr_request \<times> account_db) result" where
  "gdpr_create u scheduled fresh now db =
     (if u \<notin> set (ac_users db) \<or> fresh \<in> gq_id ` set (ac_requests db)
         \<or> list_ex (\<lambda>q. gq_user q = Some u \<and> is_pending q) (ac_requests db) then Inl IntegrityError
      else (let q = \<lparr>gq_id = fresh, gq_user = Some u, gq_requested_at = now, gq_scheduled_at = scheduled,
              gq_completed_at = None, gq_cancelled_at = None, gq_archive_key = None\<rparr>
        in Inr (q, db\<lparr>ac_requests := ac_requests db @ [q]\<rparr>)))"

text \<open>The rows an update changes, and their new values.\<close>

definition update_requests ::
  "(gdpr_request \<Rightarrow> bool) \<Rightarrow> (gdpr_request \<Rightarrow> gdpr_request) \<Rightarrow> account_db \<Rightarrow> (gdpr_request option \<times> account_db) result"
where
  "update_requests p f db =
     bind_result (scalar_one_or_none (map f (filter p (ac_requests db)))) (\<lambda>r.
       Inr (r, db\<lparr>ac_requests := map (\<lambda>q. if p q then f q else q) (ac_requests db)\<rparr>))"

definition cancel_pending :: "uuid \<Rightarrow> int \<Rightarrow> account_db \<Rightarrow> (gdpr_request option \<times> account_db) result" where
  "cancel_pending u now db =
     update_requests (\<lambda>q. gq_user q = Some u \<and> is_pending q) (\<lambda>q. q\<lparr>gq_cancelled_at := Some now\<rparr>) db"

definition gdpr_list_due :: "int \<Rightarrow> int \<Rightarrow> account_db \<Rightarrow> gdpr_request list result" where
  "gdpr_list_due now most db =
     pg_limit most (sort_key gq_scheduled_at (filter (\<lambda>q. is_pending q \<and> gq_scheduled_at q \<le> now) (ac_requests db)))"

definition gdpr_mark_completed ::
  "uuid \<Rightarrow> string \<Rightarrow> int \<Rightarrow> account_db \<Rightarrow> (gdpr_request option \<times> account_db) result"
where
  "gdpr_mark_completed qid key now db =
     update_requests (\<lambda>q. gq_id q = qid \<and> gq_completed_at q = None)
       (\<lambda>q. q\<lparr>gq_completed_at := Some now, gq_archive_key := Some key\<rparr>) db"

subsection \<open>The routes\<close>

text \<open>Microseconds.\<close>

definition GDPR_DELETE_GRACE :: int where
  "GDPR_DELETE_GRACE = 7 * 86400 * 10 ^ 6"

definition route_request_delete :: "uuid \<Rightarrow> uuid \<Rightarrow> int \<Rightarrow> account_db \<Rightarrow> (gdpr_request \<times> account_db) result" where
  "route_request_delete u fresh now db =
     bind_result (get_pending_for_user u db) (\<lambda>existing.
       if existing \<noteq> None then Inl (http_error CONFLICT)
       else (case gdpr_create u (now + GDPR_DELETE_GRACE) fresh now db of
           Inl e \<Rightarrow> Inl (if e = IntegrityError then http_error CONFLICT else e)
         | Inr r \<Rightarrow> Inr r))"

definition route_cancel_delete :: "uuid \<Rightarrow> int \<Rightarrow> account_db \<Rightarrow> (gdpr_request \<times> account_db) result" where
  "route_cancel_delete u now db =
     bind_result (cancel_pending u now db) (\<lambda>(r, db').
       case r of None \<Rightarrow> Inl (http_error NOT_FOUND) | Some q \<Rightarrow> Inr (q, db'))"

subsection \<open>The tick\<close>

definition gdpr_tick :: "int \<Rightarrow> int \<Rightarrow> account_db \<Rightarrow> gdpr_message list result" where
  "gdpr_tick now most db =
     bind_result (gdpr_list_due now most db) (\<lambda>due.
       Inr (map (\<lambda>q. \<lparr>gd_kind = GDPR_DELETE_KIND, gd_request_id = uuid_str (gq_id q)\<rparr>) due))"

subsection \<open>The worker\<close>

definition GDPR_TOMBSTONE_ACTOR_ID :: uuid where
  "GDPR_TOMBSTONE_ACTOR_ID = 0xdeadbee"

text \<open>
  The foreign keys to \<open>users\<close>: those of \<open>audit_log\<close>, of \<open>usage_events\<close> and of the author columns have
  no delete action and are checked when the statement ends; all others cascade, and that of the
  request is set to null.
\<close>

definition anonymise_audit :: "uuid \<Rightarrow> account_db \<Rightarrow> account_db result" where
  "anonymise_audit u db =
     (if list_ex (\<lambda>a. au_actor a = u) (ac_audit db) \<and> GDPR_TOMBSTONE_ACTOR_ID \<notin> set (ac_users db)
      then Inl IntegrityError
      else Inr (db\<lparr>ac_audit := map (\<lambda>a. if au_actor a = u then a\<lparr>au_actor := GDPR_TOMBSTONE_ACTOR_ID\<rparr> else a) (ac_audit db)\<rparr>))"

definition cascaded :: "uuid \<Rightarrow> table_row \<Rightarrow> bool" where
  "cascaded u r \<longleftrightarrow> tb_user r = Some u \<and> tb_table r \<noteq> Usage_events"

definition delete_user :: "uuid \<Rightarrow> account_db \<Rightarrow> account_db result" where
  "delete_user u db =
     (if u \<notin> set (ac_users db) then Inr db
      else (let rows = filter (\<lambda>r. \<not> cascaded u r) (ac_rows db) in
        if list_ex (\<lambda>r. tb_user r = Some u \<or> tb_created_by r = Some u) rows
           \<or> list_ex (\<lambda>a. au_actor a = u) (ac_audit db)
        then Inl IntegrityError
        else Inr (db\<lparr>ac_users := filter (\<lambda>v. v \<noteq> u) (ac_users db), ac_rows := rows,
          ac_requests := map (\<lambda>q. if gq_user q = Some u then q\<lparr>gq_user := None\<rparr> else q) (ac_requests db)\<rparr>)))"

text \<open>The deletes of cron jobs and MCP servers.\<close>

definition swept :: "uuid \<Rightarrow> table_row list \<Rightarrow> table_row list" where
  "swept u rows = filter (\<lambda>r. \<not> (tb_user r = Some u \<and> tb_table r \<in> {Cron_jobs_table, Mcp_servers})) rows"

definition purge_tenant_rows :: "uuid \<Rightarrow> account_db \<Rightarrow> account_db result" where
  "purge_tenant_rows u db =
     bind_result (anonymise_audit u db) (\<lambda>db1.
       delete_user u (db1\<lparr>ac_rows := swept u (ac_rows db1)\<rparr>))"

type_synonym blobs = "(string \<times> json) list"

definition archive_key :: "uuid \<Rightarrow> string \<Rightarrow> string" where
  "archive_key u qid = ''gdpr/'' @ uuid_str u @ ''/'' @ qid @ ''.json''"

definition archive_document :: "uuid \<Rightarrow> string \<Rightarrow> account_db \<Rightarrow> json" where
  "archive_document u qid db =
     JObj [(''user_id'', JStr (uuid_str u)), (''request_id'', JStr qid), (''data'', JObj (dump_tenant_rows u db))]"

text \<open>The archive, the purge and the stamp; the purge and the stamp are transactions of their own.\<close>

definition delete_account ::
  "uuid \<Rightarrow> string \<Rightarrow> uuid \<Rightarrow> bool \<Rightarrow> int \<Rightarrow> account_db \<times> blobs \<Rightarrow> bool result \<times> account_db \<times> blobs"
where
  "delete_account qid id_text u upload_ok now st =
     (let (db, blobs) = st in
      if \<not> upload_ok then (Inr False, st)
      else (let key = archive_key u id_text;
                blobs' = dict_set key (archive_document u id_text db) blobs
        in case purge_tenant_rows u db of
             Inl e \<Rightarrow> (Inr False, db, blobs')
           | Inr db1 \<Rightarrow>
               (case gdpr_mark_completed qid key now db1 of
                  Inl e \<Rightarrow> (Inl e, db1, blobs')
                | Inr (r, db2) \<Rightarrow> (Inr True, db2, blobs'))))"

text \<open>The request id of the message as text and as the value \<open>UUID()\<close> gives it.\<close>

definition run_gdpr_delete ::
  "string \<Rightarrow> uuid option \<Rightarrow> bool \<Rightarrow> int \<Rightarrow> account_db \<times> blobs \<Rightarrow> bool result \<times> account_db \<times> blobs"
where
  "run_gdpr_delete id_text id_value upload_ok now st =
     (case id_value of
        None \<Rightarrow> (Inl ValueError, st)
      | Some qid \<Rightarrow>
          (case gdpr_get_by_id qid (fst st) of
             Inl e \<Rightarrow> (Inl e, st)
           | Inr None \<Rightarrow> (Inr True, st)
           | Inr (Some q) \<Rightarrow>
               (if \<not> is_pending q then (Inr True, st)
                else (case gq_user q of
                    None \<Rightarrow> (Inr True, st)
                  | Some u \<Rightarrow> delete_account qid id_text u upload_ok now st))))"

subsection \<open>The audit log\<close>

definition audit_log_write ::
  "uuid \<Rightarrow> string \<Rightarrow> string \<Rightarrow> json \<Rightarrow> json \<Rightarrow> uuid option \<Rightarrow> int \<Rightarrow> int \<Rightarrow> account_db \<Rightarrow> (audit_row \<times> account_db) result"
where
  "audit_log_write actor role action target diff req fresh now db =
     (if actor \<notin> set (ac_users db) then Inl IntegrityError
      else (let a = \<lparr>au_id = fresh, au_ts = now, au_actor = actor, au_role = role, au_action = action,
              au_target = target, au_diff = diff, au_request = req\<rparr>
        in Inr (a, db\<lparr>ac_audit := ac_audit db @ [a]\<rparr>)))"

definition audit_list ::
  "uuid option \<Rightarrow> string option \<Rightarrow> int option \<Rightarrow> int \<Rightarrow> account_db \<Rightarrow> audit_row list result"
where
  "audit_list actor action since most db =
     pg_limit most (sort_key (\<lambda>a. - au_ts a) (filter (\<lambda>a.
       (case actor of None \<Rightarrow> True | Some u \<Rightarrow> au_actor a = u) \<and>
       (case action of None \<Rightarrow> True | Some x \<Rightarrow> au_action a = x) \<and>
       (case since of None \<Rightarrow> True | Some t \<Rightarrow> t \<le> au_ts a)) (ac_audit db)))"

definition audit_json :: "audit_row \<Rightarrow> json" where
  "audit_json a =
     JObj [(''id'', JInt (au_id a)), (''ts'', JStr (isoformat (au_ts a))), (''actor_id'', JStr (uuid_str (au_actor a))),
       (''actor_role'', JStr (au_role a)), (''action'', JStr (au_action a)), (''target'', au_target a),
       (''diff'', au_diff a),
       (''request_id'', case au_request a of None \<Rightarrow> JNull | Some r \<Rightarrow> JStr (uuid_str r))]"

definition expired_audit :: "int \<Rightarrow> int \<Rightarrow> account_db \<Rightarrow> audit_row list result" where
  "expired_audit cutoff most db = pg_limit most (sort_key au_id (filter (\<lambda>a. au_ts a < cutoff) (ac_audit db)))"

type_synonym audit_objects = "(string \<times> json list) list"

definition run_audit_ship ::
  "uuid \<Rightarrow> audit_ship_message \<Rightarrow> bool \<Rightarrow> int \<Rightarrow> account_db \<times> audit_objects
     \<Rightarrow> bool result \<times> account_db \<times> audit_objects"
where
  "run_audit_ship fresh msg upload_ok now st =
     (let (db, objects) = st;
          cutoff = now - as_retention_days msg * 86400 * 10 ^ 6
      in case expired_audit cutoff (as_limit msg) db of
           Inl e \<Rightarrow> (Inl e, st)
         | Inr [] \<Rightarrow> (Inr True, st)
         | Inr (r # rs) \<Rightarrow>
             (if \<not> upload_ok then (Inr False, st)
              else (let rows = r # rs;
                        key = ''audit/'' @ date_text (date_of_day (nat (cutoff div 86400000000))) @ ''/'' @ uuid_str fresh @ ''-'' @ str_int (au_id r) @ ''-''
                          @ str_int (au_id (last rows)) @ ''.jsonl'';
                        ids = map au_id rows
                in (Inr True, db\<lparr>ac_audit := filter (\<lambda>a. au_id a \<notin> set ids) (ac_audit db)\<rparr>,
                    dict_set key (map audit_json rows) objects))))"

definition audit_ship_tick :: audit_ship_message where
  "audit_ship_tick = \<lparr>as_kind = AUDIT_SHIP_KIND, as_retention_days = AUDIT_RETENTION_DAYS, as_limit = AUDIT_BATCH_LIMIT\<rparr>"

subsection \<open>Lemmas\<close>

lemma request_simps [simp]: "is_pending (q\<lparr>gq_user := x\<rparr>) = is_pending q"
  by (simp add: is_pending_def)

text \<open>What the purge of a user does when no foreign key stops it, and when one does.\<close>

definition to_tombstone :: "uuid \<Rightarrow> audit_row \<Rightarrow> audit_row" where
  "to_tombstone u a = (if au_actor a = u then a\<lparr>au_actor := GDPR_TOMBSTONE_ACTOR_ID\<rparr> else a)"

definition erased :: "uuid \<Rightarrow> account_db \<Rightarrow> account_db" where
  "erased u db = db\<lparr>ac_users := filter (\<lambda>v. v \<noteq> u) (ac_users db),
     ac_rows := filter (\<lambda>r. tb_user r \<noteq> Some u) (ac_rows db),
     ac_audit := map (to_tombstone u) (ac_audit db),
     ac_requests := map (\<lambda>q. if gq_user q = Some u then q\<lparr>gq_user := None\<rparr> else q) (ac_requests db)\<rparr>"

definition purge_stopped :: "uuid \<Rightarrow> account_db \<Rightarrow> bool" where
  "purge_stopped u db \<longleftrightarrow>
     list_ex (\<lambda>a. au_actor a = u) (ac_audit db) \<and> GDPR_TOMBSTONE_ACTOR_ID \<notin> set (ac_users db) \<or>
     list_ex (\<lambda>r. if tb_user r = Some u then tb_table r = Usage_events else tb_created_by r = Some u) (ac_rows db)"

lemma purge_exact:
  assumes "u \<in> set (ac_users db)" and "u \<noteq> GDPR_TOMBSTONE_ACTOR_ID"
  shows "purge_tenant_rows u db = (if purge_stopped u db then Inl IntegrityError else Inr (erased u db))"
proof (cases "list_ex (\<lambda>a. au_actor a = u) (ac_audit db) \<and> GDPR_TOMBSTONE_ACTOR_ID \<notin> set (ac_users db)")
  case True
  then show ?thesis by (simp add: purge_tenant_rows_def anonymise_audit_def purge_stopped_def)
next
  case False
  let ?kept = "filter (\<lambda>r. \<not> cascaded u r) (swept u (ac_rows db))"
  have anon: "anonymise_audit u db = Inr (db\<lparr>ac_audit := map (to_tombstone u) (ac_audit db)\<rparr>)"
    using False by (auto simp: anonymise_audit_def to_tombstone_def [abs_def])
  have audit: "\<not> list_ex (\<lambda>a. au_actor a = u) (map (to_tombstone u) (ac_audit db))"
    using assms(2) by (auto simp: list_ex_iff to_tombstone_def)
  have kept: "list_ex (\<lambda>r. tb_user r = Some u \<or> tb_created_by r = Some u) ?kept \<longleftrightarrow>
      list_ex (\<lambda>r. if tb_user r = Some u then tb_table r = Usage_events else tb_created_by r = Some u) (ac_rows db)"
    by (auto simp: list_ex_iff swept_def cascaded_def)
  show ?thesis
  proof (cases "purge_stopped u db")
    case True
    then show ?thesis
      using False assms(1) kept by (auto simp: purge_tenant_rows_def anon delete_user_def Let_def purge_stopped_def)
  next
    case go: False
    then have stay: "\<not> list_ex (\<lambda>r. if tb_user r = Some u then tb_table r = Usage_events else tb_created_by r = Some u) (ac_rows db)"
      by (simp add: purge_stopped_def)
    then have "?kept = filter (\<lambda>r. tb_user r \<noteq> Some u) (ac_rows db)"
      unfolding swept_def filter_filter by (intro filter_cong refl) (auto simp: cascaded_def list_ex_iff)
    then show ?thesis
      using go stay kept audit assms(1) by (simp add: purge_tenant_rows_def anon delete_user_def Let_def erased_def)
  qed
qed

lemma purge_blocked:
  assumes "u \<in> set (ac_users db)"
    and "(\<exists>r \<in> set (ac_rows db). tb_user r = Some u \<and> tb_table r = Usage_events) \<or>
      (\<exists>a \<in> set (ac_audit db). au_actor a = u) \<and> GDPR_TOMBSTONE_ACTOR_ID \<notin> set (ac_users db)"
  shows "purge_tenant_rows u db = Inl IntegrityError"
proof (cases "(\<exists>a \<in> set (ac_audit db). au_actor a = u) \<and> GDPR_TOMBSTONE_ACTOR_ID \<notin> set (ac_users db)")
  case True
  then show ?thesis by (simp add: purge_tenant_rows_def anonymise_audit_def list_ex_iff)
next
  case False
  then obtain r where r: "r \<in> set (ac_rows db)" "tb_user r = Some u" "tb_table r = Usage_events"
    using assms(2) by blast
  then have kept: "r \<in> set (filter (\<lambda>r. \<not> cascaded u r) (swept u (ac_rows db)))"
    by (simp add: swept_def cascaded_def)
  then have "list_ex (\<lambda>r. tb_user r = Some u \<or> tb_created_by r = Some u)
      (filter (\<lambda>r. \<not> cascaded u r) (swept u (ac_rows db)))"
    using r(2) unfolding list_ex_iff by blast
  then show ?thesis
    using assms(1) False by (simp add: purge_tenant_rows_def anonymise_audit_def delete_user_def list_ex_iff Let_def del: set_filter)
qed

lemma scalar_one_set: "scalar_one_or_none xs = Inr (Some x) \<Longrightarrow> x \<in> set xs"
  by (cases xs rule: scalar_one_or_none.cases) auto

text \<open>What holds of the requests.\<close>

definition requests_ok :: "account_db \<Rightarrow> bool" where
  "requests_ok db \<longleftrightarrow> distinct (map gq_id (ac_requests db)) \<and>
     (\<forall>u. length (filter (\<lambda>q. gq_user q = Some u \<and> is_pending q) (ac_requests db)) \<le> 1) \<and>
     (\<forall>q \<in> set (ac_requests db). gq_completed_at q = None \<or> gq_cancelled_at q = None)"

lemma fewer_pass: "(\<And>x. P (g x) \<Longrightarrow> P x) \<Longrightarrow> length (filter P (map g xs)) \<le> length (filter P xs)"
proof (induction xs)
  case (Cons x xs)
  then have "length (filter P (map g xs)) \<le> length (filter P xs)" by simp
  then show ?case using Cons.prems [of x] by simp
qed simp

lemma mapped_requests:
  assumes "requests_ok db" and "ac_requests db' = map g (ac_requests db)"
    and "\<And>q. gq_id (g q) = gq_id q"
    and "\<And>u q. gq_user (g q) = Some u \<and> is_pending (g q) \<Longrightarrow> gq_user q = Some u \<and> is_pending q"
    and "\<And>q. q \<in> set (ac_requests db) \<Longrightarrow> gq_completed_at (g q) = None \<or> gq_cancelled_at (g q) = None"
  shows "requests_ok db'"
  unfolding requests_ok_def assms(2)
proof (intro conjI allI ballI)
  show "distinct (map gq_id (map g (ac_requests db)))"
    using assms(1) by (simp add: requests_ok_def assms(3) comp_def)
  show "length (filter (\<lambda>q. gq_user q = Some u \<and> is_pending q) (map g (ac_requests db))) \<le> 1" for u
  proof -
    have "length (filter (\<lambda>q. gq_user q = Some u \<and> is_pending q) (map g (ac_requests db)))
        \<le> length (filter (\<lambda>q. gq_user q = Some u \<and> is_pending q) (ac_requests db))"
      by (rule fewer_pass) (rule assms(4))
    also have "\<dots> \<le> 1" using assms(1) by (simp add: requests_ok_def)
    finally show ?thesis .
  qed
  show "gq_completed_at q = None \<or> gq_cancelled_at q = None" if "q \<in> set (map g (ac_requests db))" for q
  proof -
    from that obtain x where "x \<in> set (ac_requests db)" "q = g x" by auto
    then show ?thesis using assms(5) [of x] by simp
  qed
qed

lemma settle_requests:
  assumes "requests_ok db" and "update_requests p f db = Inr (r, db')"
    and "\<And>q. gq_id (f q) = gq_id q" and "\<And>q. \<not> is_pending (f q)"
    and "\<And>q. q \<in> set (ac_requests db) \<Longrightarrow> p q \<Longrightarrow> gq_completed_at (f q) = None \<or> gq_cancelled_at (f q) = None"
  shows "requests_ok db'"
proof -
  let ?g = "\<lambda>q. if p q then f q else q"
  have db': "ac_requests db' = map ?g (ac_requests db)"
    using assms(2) by (cases "scalar_one_or_none (map f (filter p (ac_requests db)))") (auto simp: update_requests_def)
  show ?thesis
  proof (rule mapped_requests [OF assms(1) db'])
    show "gq_completed_at (?g q) = None \<or> gq_cancelled_at (?g q) = None" if "q \<in> set (ac_requests db)" for q
      using assms(1,5) that by (auto simp: requests_ok_def)
  qed (auto simp: assms(3,4) split: if_splits)
qed

lemma create_requests:
  "requests_ok db \<Longrightarrow> gdpr_create u t fresh now db = Inr (q, db') \<Longrightarrow> requests_ok db'"
  by (auto simp: gdpr_create_def requests_ok_def is_pending_def list_ex_iff filter_empty_conv Let_def split: if_splits)

lemma purged_requests:
  "purge_tenant_rows u db = Inr db' \<Longrightarrow>
     ac_requests db' = map (\<lambda>q. if u \<in> set (ac_users db) \<and> gq_user q = Some u then q\<lparr>gq_user := None\<rparr> else q) (ac_requests db)"
  by (auto simp: purge_tenant_rows_def anonymise_audit_def delete_user_def Let_def map_idI split: if_splits)

lemma erase_requests:
  assumes "requests_ok db" and "purge_tenant_rows u db = Inr db'"
  shows "requests_ok db'"
  by (rule mapped_requests [OF assms(1) purged_requests [OF assms(2)]])
    (use assms(1) in \<open>auto simp: requests_ok_def split: if_splits\<close>)

text \<open>The steps of the system that touch requests.\<close>

inductive account_step :: "account_db \<times> blobs \<Rightarrow> account_db \<times> blobs \<Rightarrow> bool" where
  request_step: "route_request_delete u fresh now db = Inr (q, db') \<Longrightarrow> account_step (db, b) (db', b)"
| cancel_step: "route_cancel_delete u now db = Inr (q, db') \<Longrightarrow> account_step (db, b) (db', b)"
| work_step: "run_gdpr_delete t v ok now st = (r, st') \<Longrightarrow> account_step st st'"

inductive_cases account_stepE: "account_step st st'"

lemma request_requests:
  "requests_ok db \<Longrightarrow> route_request_delete u fresh now db = Inr (q, db') \<Longrightarrow> requests_ok db'"
  by (cases "get_pending_for_user u db"; cases "gdpr_create u (now + GDPR_DELETE_GRACE) fresh now db")
    (auto simp: route_request_delete_def intro: create_requests split: if_splits)

lemma cancel_requests:
  assumes "requests_ok db" and "route_cancel_delete u now db = Inr (q, db')"
  shows "requests_ok db'"
proof -
  obtain r where "cancel_pending u now db = Inr (r, db')"
    using assms(2) by (cases "cancel_pending u now db") (auto simp: route_cancel_delete_def split: option.splits)
  then show ?thesis
    unfolding cancel_pending_def
    by (rule settle_requests [OF assms(1)]) (auto simp: is_pending_def)
qed

lemma run_cases:
  assumes "run_gdpr_delete t v ok now st = (r, st')"
  shows "st' = st \<or> (\<exists>qid q u. v = Some qid \<and> gdpr_get_by_id qid (fst st) = Inr (Some q) \<and> is_pending q \<and>
    gq_user q = Some u \<and> delete_account qid t u ok now st = (r, st'))"
proof (cases v)
  case (Some qid)
  show ?thesis
  proof (cases "gdpr_get_by_id qid (fst st)")
    case (Inr x)
    then show ?thesis
    proof (cases x)
      case q: (Some q)
      then show ?thesis
        using assms Some Inr by (cases "gq_user q") (auto simp: run_gdpr_delete_def split: if_splits)
    qed (use assms Some Inr in \<open>simp add: run_gdpr_delete_def\<close>)
  qed (use assms Some in \<open>simp add: run_gdpr_delete_def\<close>)
qed (use assms in \<open>simp add: run_gdpr_delete_def\<close>)

lemma get_by_id_set: "gdpr_get_by_id qid db = Inr (Some q) \<Longrightarrow> q \<in> set (ac_requests db) \<and> gq_id q = qid"
proof -
  assume "gdpr_get_by_id qid db = Inr (Some q)"
  then have "q \<in> set (filter (\<lambda>q. gq_id q = qid) (ac_requests db))"
    unfolding gdpr_get_by_id_def by (rule scalar_one_set)
  then show ?thesis by simp
qed

lemma delete_requests:
  assumes "requests_ok (fst st)" and q: "gdpr_get_by_id qid (fst st) = Inr (Some q)" "is_pending q"
    and "delete_account qid t u ok now st = (r, st')"
  shows "requests_ok (fst st')"
proof -
  obtain db b where st: "st = (db, b)" by (cases st)
  show ?thesis
  proof (cases "purge_tenant_rows u db")
    case (Inl e)
    then show ?thesis using assms(1,4) by (auto simp: st delete_account_def Let_def split: if_splits)
  next
    case purge: (Inr db1)
    note requests = purged_requests [OF purge]
    have ok1: "requests_ok db1" using erase_requests [OF _ purge] assms(1) by (simp add: st)
    have uncancelled: "gq_cancelled_at y = None" if "y \<in> set (ac_requests db1)" "gq_id y = qid" for y
    proof -
      obtain x where x: "x \<in> set (ac_requests db)" "gq_id x = gq_id y" "gq_cancelled_at x = gq_cancelled_at y"
        using \<open>y \<in> set (ac_requests db1)\<close> by (auto simp: requests split: if_splits)
      have "inj_on gq_id (set (ac_requests db))" using assms(1) by (simp add: st requests_ok_def distinct_map)
      then have "x = q"
        using x(1,2) \<open>gq_id y = qid\<close> get_by_id_set [OF q(1)] by (auto simp: st dest: inj_onD)
      then show ?thesis using q(2) x(3) by (simp add: is_pending_def)
    qed
    show ?thesis
    proof (cases "gdpr_mark_completed qid (archive_key u t) now db1")
      case (Inl e)
      then show ?thesis using assms(1,4) ok1 purge by (auto simp: st delete_account_def Let_def split: if_splits)
    next
      case (Inr p)
      then have m: "gdpr_mark_completed qid (archive_key u t) now db1 = Inr (fst p, snd p)" by simp
      have "requests_ok (snd p)"
        by (rule settle_requests [OF ok1 m [unfolded gdpr_mark_completed_def]]) (auto simp: is_pending_def uncancelled)
      then show ?thesis
        using assms(1,4) Inr purge by (cases p) (auto simp: st delete_account_def Let_def split: if_splits)
    qed
  qed
qed

lemma run_requests:
  "requests_ok (fst st) \<Longrightarrow> run_gdpr_delete t v ok now st = (r, st') \<Longrightarrow> requests_ok (fst st')"
  using run_cases delete_requests by metis

lemma only_member:
  assumes "distinct (map f xs)" and "\<And>y. y \<in> set xs \<Longrightarrow> f y = k" and "x \<in> set xs"
  shows "xs = [x]"
proof (cases xs)
  case (Cons y ys)
  have "ys = []"
  proof (cases ys)
    case 2: (Cons z zs)
    have "f y = k" "f z = k" using assms(2) [of y] assms(2) [of z] by (simp_all add: Cons 2)
    then show ?thesis using assms(1) by (simp add: Cons 2)
  qed simp
  then show ?thesis using assms(3) by (simp add: Cons)
qed (use assms(3) in simp)

subsection \<open>Properties\<close>

text \<open>
  The archive of one user holds the usage events and the agents of all users: of the exported
  tables only those with row level security are narrowed to the user.
\<close>

theorem gdpr_export_scope:
  "dump_tenant_rows u db = map (\<lambda>t. (table_name t, JArr (map tb_data (filter (\<lambda>r. tb_table r = t \<and>
     (t = Agents_table \<or> t = Usage_events \<or> tb_user r = Some u)) (ac_rows db))))) GDPR_TENANT_TABLES"
proof -
  have "t \<in> set rls_tables \<longleftrightarrow> \<not> (t = Agents_table \<or> t = Usage_events)" if "t \<in> set GDPR_TENANT_TABLES" for t
    using that by (auto simp: rls_tables_def GDPR_TENANT_TABLES_def)
  then show ?thesis
    unfolding dump_tenant_rows_def visible_rows_def by (intro map_cong refl) (auto intro!: arg_cong [of _ _ "map tb_data"] filter_cong)
qed

text \<open>
  C19. What the worker does with a message for a pending request of a user, due or not (it does not
  look at the date).  If the archive cannot be stored, nothing changes and it reports failure.  Else
  the archive is stored, and it holds nine tables: of seven the rows of the user, of the agents and
  the usage events the rows of every user, and of the other tables nothing.  If the user has a usage
  event, is the author of a row that is not the user's, or is in the audit log while there is no
  tombstone user, the database stays as it is and failure is reported.  Otherwise the user and all
  rows of the user are gone, archived or not, the rows of others and the length of the audit log
  stay, the user's name in the log is the tombstone's, and the request is completed with the key of the archive.
\<close>

theorem gdpr_delete_erases:
  assumes "gdpr_get_by_id qid db = Inr (Some q)" and "is_pending q" and "gq_user q = Some u"
    and "u \<in> set (ac_users db)" and "u \<noteq> GDPR_TOMBSTONE_ACTOR_ID" and "requests_ok db"
  shows "run_gdpr_delete t (Some qid) False now (db, blobs) = (Inr False, db, blobs) \<and>
    (\<exists>data done db'.
      run_gdpr_delete t (Some qid) True now (db, blobs) =
        (Inr done, db', dict_set (archive_key u t)
          (JObj [(''user_id'', JStr (uuid_str u)), (''request_id'', JStr t), (''data'', JObj data)]) blobs) \<and>
      data = map (\<lambda>n. (table_name n, JArr (map tb_data (filter (\<lambda>r. tb_table r = n \<and>
        (n = Agents_table \<or> n = Usage_events \<or> tb_user r = Some u)) (ac_rows db))))) GDPR_TENANT_TABLES \<and>
      (if list_ex (\<lambda>a. au_actor a = u) (ac_audit db) \<and> GDPR_TOMBSTONE_ACTOR_ID \<notin> set (ac_users db) \<or>
          list_ex (\<lambda>r. if tb_user r = Some u then tb_table r = Usage_events else tb_created_by r = Some u) (ac_rows db)
       then \<not> done \<and> db' = db
       else done \<and> ac_users db' = filter (\<lambda>v. v \<noteq> u) (ac_users db) \<and>
         ac_rows db' = filter (\<lambda>r. tb_user r \<noteq> Some u) (ac_rows db) \<and>
         ac_audit db' = map (to_tombstone u) (ac_audit db) \<and>
         (\<exists>q' \<in> set (ac_requests db'). gq_id q' = qid \<and> gq_completed_at q' = Some now \<and> gq_user q' = None \<and>
           gq_archive_key q' = Some (archive_key u t))))"
proof -
  let ?f = "\<lambda>q. q\<lparr>gq_completed_at := Some now, gq_archive_key := Some (archive_key u t)\<rparr>"
  let ?p = "\<lambda>q. gq_id q = qid \<and> gq_completed_at q = None"
  let ?e = "erased u db"
  let ?db' = "if purge_stopped u db then db else ?e\<lparr>ac_requests := map (\<lambda>q. if ?p q then ?f q else q) (ac_requests ?e)\<rparr>"
  have q: "q \<in> set (ac_requests db)" "gq_id q = qid" using get_by_id_set [OF assms(1)] by auto
  have "distinct (map gq_id (ac_requests ?e))"
    using assms(6) by (auto simp: erased_def requests_ok_def comp_def distinct_map inj_on_def)
  then have dist: "distinct (map gq_id (filter ?p (ac_requests ?e)))"
    by (rule distinct_map_filter)
  have mem: "q\<lparr>gq_user := None\<rparr> \<in> set (filter ?p (ac_requests ?e))"
    using q assms(2,3) by (force simp: erased_def is_pending_def)
  have "filter ?p (ac_requests ?e) = [q\<lparr>gq_user := None\<rparr>]"
    by (rule only_member [OF dist _ mem, of qid]) simp
  then have mark: "gdpr_mark_completed qid (archive_key u t) now ?e = Inr (Some (?f (q\<lparr>gq_user := None\<rparr>)),
      ?e\<lparr>ac_requests := map (\<lambda>q. if ?p q then ?f q else q) (ac_requests ?e)\<rparr>)"
    by (simp add: gdpr_mark_completed_def update_requests_def)
  have "?f (q\<lparr>gq_user := None\<rparr>) \<in> set (map (\<lambda>q. if ?p q then ?f q else q) (ac_requests ?e))"
    using mem by force
  then have settled: "\<exists>q' \<in> set (map (\<lambda>q. if ?p q then ?f q else q) (ac_requests ?e)).
      gq_id q' = qid \<and> gq_completed_at q' = Some now \<and> gq_user q' = None \<and> gq_archive_key q' = Some (archive_key u t)"
    by (rule bexI [rotated]) (use q(2) in simp)
  have run: "run_gdpr_delete t (Some qid) True now (db, blobs) =
      (Inr (\<not> purge_stopped u db), ?db', dict_set (archive_key u t) (archive_document u t db) blobs)"
    by (simp add: run_gdpr_delete_def assms(1-3) delete_account_def Let_def purge_exact [OF assms(4,5)] mark)
  moreover have "run_gdpr_delete t (Some qid) False now (db, blobs) = (Inr False, db, blobs)"
    by (simp add: run_gdpr_delete_def assms(1-3) delete_account_def)
  ultimately show ?thesis
    using settled
    by (intro conjI exI [of _ "dump_tenant_rows u db"] exI [of _ "\<not> purge_stopped u db"] exI [of _ ?db'])
      (auto simp: archive_document_def gdpr_export_scope purge_stopped_def erased_def)
qed

text \<open>
  A user with a single usage event is never deleted: the foreign key of that table stops the
  purge, so every run of the worker, however often it is repeated, leaves the database as it is
  and reports failure, and the same holds for a user who appears in the audit log.
\<close>

theorem gdpr_delete_never_completes:
  assumes "gdpr_get_by_id qid db = Inr (Some q)" and "is_pending q" and "gq_user q = Some u"
    and "u \<in> set (ac_users db)"
    and "(\<exists>r \<in> set (ac_rows db). tb_user r = Some u \<and> tb_table r = Usage_events) \<or>
      (\<exists>a \<in> set (ac_audit db). au_actor a = u) \<and> GDPR_TOMBSTONE_ACTOR_ID \<notin> set (ac_users db)"
  shows "fst (run_gdpr_delete t (Some qid) ok now (db, blobs)) = Inr False \<and>
    fst (fold (\<lambda>(ok, now) st. snd (run_gdpr_delete t (Some qid) ok now st)) tries (db, blobs)) = db"
proof -
  have step: "\<exists>b'. run_gdpr_delete t (Some qid) ok now (db, b) = (Inr False, db, b')" for ok now b
    by (cases ok) (simp_all add: run_gdpr_delete_def assms(1-3) delete_account_def Let_def purge_blocked [OF assms(4,5)])
  have "\<exists>b'. fold (\<lambda>(ok, now) st. snd (run_gdpr_delete t (Some qid) ok now st)) tries (db, b) = (db, b')" for b
  proof (induction tries arbitrary: b)
    case (Cons x tries)
    obtain ok now where "x = (ok, now)" by (cases x)
    moreover obtain b' where "run_gdpr_delete t (Some qid) ok now (db, b) = (Inr False, db, b')"
      using step by blast
    ultimately show ?case using Cons.IH [of b'] by simp
  qed simp
  then show ?thesis using step [of ok now blobs] by (metis fst_conv)
qed

text \<open>
  However requests are made, cancelled and worked off, a user has at most one pending request,
  and no request is both cancelled and completed.
\<close>

theorem gdpr_one_pending:
  assumes "account_step\<^sup>*\<^sup>* (db0, b0) (db, b)" and "requests_ok db0"
  shows "length (filter (\<lambda>q. gq_user q = Some u \<and> is_pending q) (ac_requests db)) \<le> 1 \<and>
    (\<forall>q \<in> set (ac_requests db). gq_completed_at q = None \<or> gq_cancelled_at q = None)"
proof -
  have step: "requests_ok (fst st')" if "account_step st st'" "requests_ok (fst st)" for st st'
    using that by (cases rule: account_step.cases) (auto intro: request_requests cancel_requests run_requests)
  have "requests_ok (fst st')" if "account_step\<^sup>*\<^sup>* st st'" "requests_ok (fst st)" for st st'
    using that by (induction rule: rtranclp_induct) (auto intro: step)
  from this [OF assms(1)] assms(2) show ?thesis by (simp add: requests_ok_def)
qed

text \<open>
  Shipping the audit log loses no row: a run that reports success removes exactly the rows it
  has written to the bucket, at most as many as the message allows and all older than the retention
  time; any other run removes nothing.
\<close>

theorem audit_ship_conserves:
  assumes "distinct (map au_id (ac_audit db))" and "run_audit_ship fresh msg ok now (db, objects) = (res, db', objects')"
  shows "db' = db \<and> objects' = objects \<or>
    (\<exists>key rows. res = Inr True \<and> objects' = dict_set key (map audit_json rows) objects \<and>
      mset (ac_audit db) = mset (ac_audit db') + mset rows \<and> int (length rows) \<le> as_limit msg \<and>
      (\<forall>a \<in> set rows. au_ts a < now - as_retention_days msg * 86400 * 10 ^ 6))"
proof -
  let ?cut = "now - as_retention_days msg * 86400 * 10 ^ 6"
  show ?thesis
  proof (cases "expired_audit ?cut (as_limit msg) db")
    case (Inr rows)
    show ?thesis
    proof (cases "rows = [] \<or> \<not> ok")
      case False
      then obtain r rs where rows: "rows = r # rs" by (cases rows) auto
      have sel: "rows = take (nat (as_limit msg)) (sort_key au_id (filter (\<lambda>a. au_ts a < ?cut) (ac_audit db)))" "0 \<le> as_limit msg"
        using Inr by (auto simp: expired_audit_def pg_limit_def split: if_splits)
      have sub: "set rows \<subseteq> {a \<in> set (ac_audit db). au_ts a < ?cut}"
        unfolding sel(1) using set_take_subset by fastforce
      have "length rows \<le> nat (as_limit msg)"
        unfolding sel(1) by simp
      then have len: "int (length rows) \<le> as_limit msg"
        using sel(2) by linarith
      have "distinct (map au_id (sort_key au_id (filter (\<lambda>a. au_ts a < ?cut) (ac_audit db))))"
        using assms(1) by (simp add: distinct_map_filter distinct_map inj_on_def)
      then have "distinct rows"
        unfolding sel(1) by (simp add: distinct_map)
      have same: "filter (\<lambda>a. au_id a \<in> au_id ` set rows) (ac_audit db) = filter (\<lambda>a. a \<in> set rows) (ac_audit db)"
        using assms(1) sub by (intro filter_cong refl) (auto simp: distinct_map inj_on_def)
      have taken: "mset (filter (\<lambda>a. a \<in> set rows) (ac_audit db)) = mset rows"
        using assms(1) sub \<open>distinct rows\<close>
        by (intro set_eq_iff_mset_eq_distinct [THEN iffD1]) (auto simp: distinct_map)
      have parts: "mset (ac_audit db) = mset (filter (\<lambda>a. au_id a \<notin> au_id ` set rows) (ac_audit db))
          + mset (filter (\<lambda>a. au_id a \<in> au_id ` set rows) (ac_audit db))"
        using multiset_partition [of "mset (ac_audit db)" "\<lambda>a. au_id a \<notin> au_id ` set rows"] by (simp only: mset_filter not_not)
      have split: "mset (ac_audit db) = mset (filter (\<lambda>a. au_id a \<notin> au_id ` set rows) (ac_audit db)) + mset rows"
        using parts unfolding same taken .
      obtain key where run: "run_audit_ship fresh msg ok now (db, objects) =
          (Inr True, db\<lparr>ac_audit := filter (\<lambda>a. au_id a \<notin> au_id ` set rows) (ac_audit db)\<rparr>, dict_set key (map audit_json rows) objects)"
        using False Inr by (simp add: run_audit_ship_def rows)
      show ?thesis
        using assms(2) split sub len unfolding run
        by (intro disjI2 exI [of _ key] exI [of _ rows]) auto
    qed (use assms(2) Inr in \<open>auto simp: run_audit_ship_def split: list.splits\<close>)
  qed (use assms(2) in \<open>simp add: run_audit_ship_def\<close>)
qed

subsection \<open>Witnesses\<close>

definition pending_request :: gdpr_request where
  "pending_request = \<lparr>gq_id = 1, gq_user = Some 7, gq_requested_at = 0, gq_scheduled_at = GDPR_DELETE_GRACE,
     gq_completed_at = None, gq_cancelled_at = None, gq_archive_key = None\<rparr>"

definition owned_row :: "tenant_table \<Rightarrow> uuid \<Rightarrow> table_row" where
  "owned_row t u = \<lparr>tb_table = t, tb_user = Some u, tb_created_by = None, tb_data = JInt (int u)\<rparr>"

definition accounts :: "table_row list \<Rightarrow> account_db" where
  "accounts rows = \<lparr>ac_users = [7, 8], ac_rows = rows,
     ac_audit = [\<lparr>au_id = 1, au_ts = 0, au_actor = 8, au_role = ''admin'', au_action = ''skill.create'', au_target = JNull,
       au_diff = JNull, au_request = None\<rparr>], ac_requests = [pending_request]\<rparr>"

lemma accounts_simps:
  "gdpr_get_by_id 1 (accounts rows) = Inr (Some pending_request)" "is_pending pending_request"
  "gq_user pending_request = Some 7" "requests_ok (accounts rows)" "7 \<in> set (ac_users (accounts rows))"
  "ac_rows (accounts rows) = rows"
  by (simp_all add: accounts_def gdpr_get_by_id_def pending_request_def is_pending_def requests_ok_def)

text \<open>A user with a session and a cron job goes; the archive holds another user's usage and not the cron job.\<close>

theorem gdpr_delete_erases_witness:
  "\<exists>db' blobs'. run_gdpr_delete ''1'' (Some 1) True 5 (accounts [owned_row Sessions_table 7, owned_row Cron_jobs_table 7, owned_row Usage_events 8], [])
      = (Inr True, db', blobs') \<and> 7 \<notin> set (ac_users db') \<and> ac_rows db' = [owned_row Usage_events 8]"
proof -
  have "(7 :: uuid) \<noteq> GDPR_TOMBSTONE_ACTOR_ID" by (simp add: GDPR_TOMBSTONE_ACTOR_ID_def)
  from gdpr_delete_erases [OF accounts_simps(1) [of "[owned_row Sessions_table 7, owned_row Cron_jobs_table 7, owned_row Usage_events 8]"]
      accounts_simps(2,3,5) this accounts_simps(4), where t = "''1''" and now = 5 and blobs = "[]"]
  show ?thesis by (auto simp: accounts_simps(6) owned_row_def accounts_def)
qed

theorem gdpr_delete_never_completes_witness:
  "fst (run_gdpr_delete ''1'' (Some 1) True 5 (accounts [owned_row Usage_events 7], [])) = Inr False"
  using gdpr_delete_never_completes [OF accounts_simps(1,2,3,5), of "[owned_row Usage_events 7]" "''1''" True 5 "[]"]
  by (simp add: accounts_simps(6) owned_row_def)

theorem gdpr_one_pending_witness:
  "length (filter (\<lambda>q. gq_user q = Some 7 \<and> is_pending q)
     (ac_requests (fst (snd (run_gdpr_delete ''1'' (Some 1) True 5 (accounts [], [])))))) \<le> 1"
proof -
  obtain db b where run: "snd (run_gdpr_delete ''1'' (Some 1) True 5 (accounts [], [])) = (db, b)"
    by (cases "snd (run_gdpr_delete ''1'' (Some 1) True 5 (accounts [], []))")
  have "account_step (accounts [], []) (db, b)"
    by (rule work_step [of "''1''" "Some 1" True 5 _ "fst (run_gdpr_delete ''1'' (Some 1) True 5 (accounts [], []))"])
      (simp flip: run)
  then have "account_step\<^sup>*\<^sup>* (accounts [], []) (db, b)" by (rule r_into_rtranclp)
  from gdpr_one_pending [OF this accounts_simps(4), of 7] show ?thesis unfolding run fst_conv by blast
qed

theorem audit_ship_conserves_witness:
  "\<exists>res db' objects'. run_audit_ship 9 audit_ship_tick True (100 * 86400 * 10 ^ 6) (accounts [], []) = (res, db', objects') \<and>
     (db' = accounts [] \<and> objects' = [] \<or> mset (ac_audit (accounts [])) \<noteq> {#} \<and> res = Inr True)"
proof -
  obtain res db' objects' where
    run: "run_audit_ship 9 audit_ship_tick True (100 * 86400 * 10 ^ 6) (accounts [], []) = (res, db', objects')"
    by (cases "run_audit_ship 9 audit_ship_tick True (100 * 86400 * 10 ^ 6) (accounts [], [])") auto
  have "distinct (map au_id (ac_audit (accounts [])))" by (simp add: accounts_def)
  from audit_ship_conserves [OF this run] run show ?thesis by (auto simp: accounts_def)
qed

end
