(* ===== verification/Route_Base.thy ===== *)
theory Route_Base
  imports Effective_Config Cron_Repo Turn_Routes Pg_Sessions Memory_Repo
begin

text \<open>
  What the configuration routes share: the environment of a request, the tables its transaction
  sees, and the two translations of a repository's answer into an HTTP error.  A route is a function
  of the environment, the body of the request and the tables; an error rolls the transaction back,
  so only a success has new tables.  Bodies have passed the validation of \<open>web/schemas.py\<close>, whose
  models are records here; the default of a missing field has been put in, and the \<open>created_at\<close> of
  the rows, which no modelled code reads, is left out.
\<close>

subsection \<open>Requests and tables\<close>

record route_env =
  en_user :: uuid
  en_rev :: schema_rev
  en_fresh :: uuid
  en_now :: int
  en_kms :: kms

record proposal_row =
  pr_id :: uuid
  pr_user :: uuid
  pr_skill_slug :: string
  pr_base_version :: "int option"
  pr_body :: string
  pr_fitness :: "dict option"
  pr_status :: string
  pr_created_at :: int
  pr_decided_at :: "int option"

record tenant_db = database +
  db_cron_jobs :: "cron_row list"
  db_documents :: "user_document list"
  db_accounts :: agent_db
  db_proposals :: "proposal_row list"

text \<open>The tenant of the transaction, which \<open>get_db_session\<close> takes from the request context.\<close>

definition guc_of :: "route_env \<Rightarrow> uuid option" where
  "guc_of e = Some (en_user e)"

subsection \<open>One table of the transaction\<close>

definition on_skills ::
  "(skill_row list \<Rightarrow> ('x \<times> skill_row list) result) \<Rightarrow> tenant_db \<Rightarrow> ('x \<times> tenant_db) result"
where
  "on_skills f db = bind_result (f (db_skills db)) (\<lambda>(x, t). Inr (x, db\<lparr>db_skills := t\<rparr>))"

definition on_instructions ::
  "(instruction_row list \<Rightarrow> ('x \<times> instruction_row list) result) \<Rightarrow> tenant_db \<Rightarrow> ('x \<times> tenant_db) result"
where
  "on_instructions f db = bind_result (f (db_instructions db)) (\<lambda>(x, t). Inr (x, db\<lparr>db_instructions := t\<rparr>))"

definition on_commands ::
  "(command_row list \<Rightarrow> ('x \<times> command_row list) result) \<Rightarrow> tenant_db \<Rightarrow> ('x \<times> tenant_db) result"
where
  "on_commands f db = bind_result (f (db_commands db)) (\<lambda>(x, t). Inr (x, db\<lparr>db_commands := t\<rparr>))"

definition on_mcp_servers ::
  "(mcp_row list \<Rightarrow> ('x \<times> mcp_row list) result) \<Rightarrow> tenant_db \<Rightarrow> ('x \<times> tenant_db) result"
where
  "on_mcp_servers f db = bind_result (f (db_mcp_servers db)) (\<lambda>(x, t). Inr (x, db\<lparr>db_mcp_servers := t\<rparr>))"

definition on_cron_jobs ::
  "(cron_row list \<Rightarrow> ('x \<times> cron_row list) result) \<Rightarrow> tenant_db \<Rightarrow> ('x \<times> tenant_db) result"
where
  "on_cron_jobs f db = bind_result (f (db_cron_jobs db)) (\<lambda>(x, t). Inr (x, db\<lparr>db_cron_jobs := t\<rparr>))"

definition on_accounts ::
  "(agent_db \<Rightarrow> ('x \<times> agent_db) result) \<Rightarrow> tenant_db \<Rightarrow> ('x \<times> tenant_db) result"
where
  "on_accounts f db = bind_result (f (db_accounts db)) (\<lambda>(x, t). Inr (x, db\<lparr>db_accounts := t\<rparr>))"

lemmas on_table_defs = on_skills_def on_instructions_def on_commands_def on_mcp_servers_def
  on_cron_jobs_def on_accounts_def

subsection \<open>Answers\<close>

text \<open>\<open>except IntegrityError as exc: raise http_error(CONFLICT)\<close>.\<close>

definition or_conflict :: "'x result \<Rightarrow> 'x result" where
  "or_conflict r = (case r of Inl e \<Rightarrow> Inl (if e = IntegrityError then http_error CONFLICT else e) | Inr x \<Rightarrow> Inr x)"

text \<open>\<open>if row is None: raise http_error(NOT_FOUND)\<close>.\<close>

definition or_missing :: "('x option \<times> 'd) result \<Rightarrow> ('x \<times> 'd) result" where
  "or_missing r = bind_result r (\<lambda>(x, db).
     case x of None \<Rightarrow> Inl (http_error NOT_FOUND) | Some y \<Rightarrow> Inr (y, db))"

definition found :: "'x option result \<Rightarrow> 'x result" where
  "found r = bind_result r (\<lambda>x. case x of None \<Rightarrow> Inl (http_error NOT_FOUND) | Some y \<Rightarrow> Inr y)"

text \<open>\<open>if not deleted: raise http_error(NOT_FOUND)\<close>.\<close>

definition or_gone :: "(bool \<times> 'd) result \<Rightarrow> (unit \<times> 'd) result" where
  "or_gone r = bind_result r (\<lambda>(ok, db). if ok then Inr ((), db) else Inl (http_error NOT_FOUND))"

text \<open>The response made of the row a write returns.\<close>

definition answer :: "('x \<Rightarrow> 'y) \<Rightarrow> ('x \<times> 'd) result \<Rightarrow> ('y \<times> 'd) result" where
  "answer f r = bind_result r (\<lambda>(x, db). Inr (f x, db))"

definition shown :: "('x \<Rightarrow> 'y) \<Rightarrow> 'x result \<Rightarrow> 'y result" where
  "shown f r = bind_result r (\<lambda>x. Inr (f x))"

definition listed :: "('x \<Rightarrow> 'y) \<Rightarrow> 'x list result \<Rightarrow> 'y list result" where
  "listed f r = bind_result r (\<lambda>xs. Inr (map f xs))"

lemma or_conflict_Inr [simp]: "or_conflict r = Inr x \<longleftrightarrow> r = Inr x"
  by (simp add: or_conflict_def split: sum.splits)

lemma or_conflict_IntegrityError [simp]: "or_conflict (Inl IntegrityError) = Inl (http_error CONFLICT)"
  by (simp add: or_conflict_def)

lemma or_missing_Inr [simp]: "or_missing r = Inr (x, db) \<longleftrightarrow> r = Inr (Some x, db)"
  by (auto simp: or_missing_def result_eqs split: option.splits)

lemma or_gone_Inr [simp]: "or_gone r = Inr (x, db) \<longleftrightarrow> r = Inr (True, db)"
  by (auto simp: or_gone_def result_eqs split: if_splits)

lemma found_Inr [simp]: "found r = Inr x \<longleftrightarrow> r = Inr (Some x)"
  by (auto simp: found_def result_eqs split: option.splits)

lemma answer_Inr: "answer f r = Inr (y, db) \<longleftrightarrow> (\<exists>x. r = Inr (x, db) \<and> y = f x)"
  by (auto simp: answer_def result_eqs)

lemma shown_Inr: "shown f r = Inr y \<longleftrightarrow> (\<exists>x. r = Inr x \<and> y = f x)"
  by (auto simp: shown_def result_eqs)

lemma answer_simps [simp]: "answer f (Inl e) = Inl e" "answer f (Inr (x, db)) = Inr (f x, db)"
  by (simp_all add: answer_def)

end
