(* ===== verification/User_Rows.thy ===== *)
theory User_Rows
  imports Version_History Route_Base
begin

text \<open>
  What the writes of one user do to a layered table and to what that user reads from it, and the
  interface of a resource of \<open>/v1/users/me\<close>: create, read, update and delete by slug.  Within the
  interface, any sequence of requests answers as a map from slugs to views does.
\<close>

lemma answer_cases [simp]:
  "or_conflict (Inr x) = Inr x"
  "or_missing (Inr (Some y, db)) = Inr (y, db)" "or_missing (Inr (None, db)) = Inl (http_error NOT_FOUND)"
  "or_gone (Inr (True, db)) = Inr ((), db)" "or_gone (Inr (False, db)) = Inl (http_error NOT_FOUND)"
  "found (Inr (Some y)) = Inr y" "found (Inr None) = Inl (http_error NOT_FOUND)"
  by (simp_all add: or_conflict_def or_missing_def or_gone_def found_def)

subsection \<open>Rows of a user\<close>

definition user_first :: "uuid \<Rightarrow> uuid \<Rightarrow> string \<Rightarrow> 'a versioned_row_scheme \<Rightarrow> bool" where
  "user_first n u s r \<longleftrightarrow> rid r = n \<and> scope r = UserScope \<and> user_id r = Some u \<and> agent_id r = None \<and>
     slug r = s \<and> is_current r"

text \<open>No statement of the code retires a user's row.\<close>

definition all_current :: "uuid \<Rightarrow> 'a versioned_row_scheme list \<Rightarrow> bool" where
  "all_current u t \<longleftrightarrow> list_all (\<lambda>r. owned u r \<longrightarrow> is_current r) t"

definition keeps_place :: "('a versioned_row_scheme \<Rightarrow> 'a versioned_row_scheme) \<Rightarrow> bool" where
  "keeps_place f \<longleftrightarrow> (\<forall>r. rid (f r) = rid r \<and> scope (f r) = scope r \<and> user_id (f r) = user_id r \<and>
     agent_id (f r) = agent_id r \<and> slug (f r) = slug r \<and> is_current (f r) = is_current r)"

lemma keeps_place_retiring: "keeps_place f \<Longrightarrow> retiring f"
  by (simp add: keeps_place_def retiring_def)

lemma keeps_place_user_row: "keeps_place f \<Longrightarrow> user_row u (f r) = user_row u r \<and> slug (f r) = slug r"
  by (simp add: keeps_place_def user_row_def)

lemma get_user_snoc:
  "get_user_row (Some u) s (t @ [r]) =
    (if user_row u r \<and> slug r = s
     then (case get_user_row (Some u) s t of Inr None \<Rightarrow> Inr (Some r) | _ \<Rightarrow> Inl MultipleResultsFound)
     else get_user_row (Some u) s t)"
  by (cases "filter (\<lambda>r. user_row u r \<and> slug r = s) t" rule: scalar_one_or_none.cases)
    (auto simp: get_user_row_def current_user_id_def)

lemma get_user_row_None:
  "get_user_row (Some u) s t = Inr None \<longleftrightarrow> (\<forall>r \<in> set t. user_row u r \<longrightarrow> slug r \<noteq> s)"
  by (auto simp: get_user_row_def current_user_id_def filter_empty_conv)

lemma insert_user_new:
  assumes t: "table_ok Schema_0001 t" and none: "get_user_row (Some u) s t = Inr None"
    and n: "n \<notin> rid ` set t" and r: "user_first n u s r"
  shows "insert_row Schema_0001 r t = Inr (r, t @ [r])" and "table_ok Schema_0001 (t @ [r])"
proof -
  show "table_ok Schema_0001 (t @ [r])"
  proof (rule table_ok_snoc [OF t])
    show "rid r \<notin> rid ` set t" using n r by (simp add: user_first_def)
    show "row_ok Schema_0001 r" using r by (simp add: user_first_def row_ok_def scope_check_def scope_user_id_check_def)
    show "\<forall>x \<in> set t. official_current x \<longrightarrow> slug x \<noteq> slug r" if "official_current r"
      using that r by (simp add: user_first_def official_current_def)
    show "\<forall>x \<in> set t. user_current x \<longrightarrow> (user_id x, slug x) \<noteq> (user_id r, slug r)"
      using none r by (auto simp: get_user_row_None user_first_def user_current_def user_row_def)
  qed
  then show "insert_row Schema_0001 r t = Inr (r, t @ [r])" by (simp add: insert_row_def)
qed

lemma insert_user_taken:
  assumes t: "table_ok sch t" and c: "get_user_row (Some u) s t = Inr (Some c)" and r: "user_first n u s r"
  shows "insert_row sch r t = Inl IntegrityError"
proof -
  have "c \<in> set t" "user_current c" "user_id c = Some u" "slug c = s"
    using c by (auto simp: get_user_row_Some [OF t] user_row_def user_current_def)
  moreover have "user_current r" "user_id r = Some u" "slug r = s"
    using r by (auto simp: user_first_def user_current_def)
  ultimately have "\<not> distinct (map (\<lambda>r. (user_id r, slug r)) (filter user_current (t @ [r])))"
    by force
  then show ?thesis by (simp add: insert_row_def checked_def table_ok_def)
qed

lemma insert_user_agentless:
  "user_first n u s r \<Longrightarrow> insert_row Schema_0003 r t = Inl IntegrityError"
  by (simp add: insert_row_def checked_def table_ok_def row_ok_def scope_agent_id_check_def user_first_def)

lemma filter_sql_update:
  "(\<And>r. P (f r) = P r) \<Longrightarrow> filter P (sql_update p f t) = map (\<lambda>r. if p r then f r else r) (filter P t)"
  by (induction t) (auto simp: sql_update_def)

lemma update_user_some:
  assumes t: "table_ok sch t" and c: "get_user_row (Some u) s t = Inr (Some c)" and f: "keeps_place f"
  defines "t' \<equiv> sql_update (\<lambda>r. user_row u r \<and> slug r = s) f t"
  shows "update_user_row sch (Some u) s (Some f) t = Inr (Some (f c), t')" and "table_ok sch t'"
    and "get_user_row (Some u) s' t' = (if s' = s then Inr (Some (f c)) else get_user_row (Some u) s' t)"
proof -
  show ok: "table_ok sch t'" unfolding t'_def by (rule table_ok_update [OF t keeps_place_retiring [OF f]])
  have one: "filter (\<lambda>r. user_row u r \<and> slug r = s) t = [c]"
    using c by (simp add: get_user_row_def current_user_id_def)
  show "update_user_row sch (Some u) s (Some f) t = Inr (Some (f c), t')"
    using ok by (simp add: update_user_row_def current_user_id_def Let_def one t'_def [symmetric])
  have read: "get_user_row (Some u) s' t' = scalar_one_or_none
      (map (\<lambda>r. if user_row u r \<and> slug r = s then f r else r) (filter (\<lambda>r. user_row u r \<and> slug r = s') t))"
    unfolding t'_def by (simp add: get_user_row_def current_user_id_def filter_sql_update keeps_place_user_row [OF f])
  show "get_user_row (Some u) s' t' = (if s' = s then Inr (Some (f c)) else get_user_row (Some u) s' t)"
  proof (cases "s' = s")
    case True
    have "user_row u c \<and> slug c = s" using one by (metis (mono_tags, lifting) filter_singletonD)
    then show ?thesis unfolding read unfolding True one by simp
  next
    case False
    have "map (\<lambda>r. if user_row u r \<and> slug r = s then f r else r) (filter (\<lambda>r. user_row u r \<and> slug r = s') t)
        = filter (\<lambda>r. user_row u r \<and> slug r = s') t"
      using False by (intro map_idI) auto
    with False show ?thesis unfolding read by (simp add: get_user_row_def current_user_id_def)
  qed
qed

lemma update_user_none:
  assumes t: "table_ok sch t" and c: "get_user_row (Some u) s t = Inr None" and f: "\<And>f. vs = Some f \<Longrightarrow> keeps_place f"
  shows "update_user_row sch (Some u) s vs t = Inr (None, t)"
proof (cases vs)
  case (Some f)
  have one: "filter (\<lambda>r. user_row u r \<and> slug r = s) t = []"
    using c by (simp add: get_user_row_def current_user_id_def)
  then have none: "\<And>r. r \<in> set t \<Longrightarrow> \<not> (user_row u r \<and> slug r = s)"
    by (metis (mono_tags, lifting) filter_empty_conv)
  have "sql_update (\<lambda>r. user_row u r \<and> slug r = s) f t = t"
    unfolding sql_update_def by (intro map_idI) (use none in auto)
  with Some t one show ?thesis
    by (simp add: update_user_row_def current_user_id_def Let_def)
qed (use c in \<open>simp add: update_user_row_def current_user_id_def\<close>)

lemma delete_user_reads:
  assumes t: "table_ok sch t" and cur: "all_current u t" and c: "get_user_row (Some u) s t = Inr x"
  defines "t' \<equiv> sql_delete (\<lambda>r. owned u r \<and> slug r = s) t"
  shows "delete_user_row (Some u) s t = Inr (x \<noteq> None, t')" and "table_ok sch t'" and "all_current u t'"
    and "get_user_row (Some u) s' t' = (if s' = s then Inr None else get_user_row (Some u) s' t)"
proof -
  have same: "filter (\<lambda>r. owned u r \<and> slug r = s) t = filter (\<lambda>r. user_row u r \<and> slug r = s) t"
    using cur by (intro filter_cong) (auto simp: all_current_def list_all_iff owned_def user_row_def)
  have "(filter (\<lambda>r. user_row u r \<and> slug r = s) t \<noteq> []) = (x \<noteq> None)"
    using c by (cases x) (simp_all add: get_user_row_def current_user_id_def)
  then show "delete_user_row (Some u) s t = Inr (x \<noteq> None, t')"
    using same by (simp add: delete_user_row_def current_user_id_def Let_def t'_def owned_def conj_assoc)
  show "table_ok sch t'" unfolding t'_def by (rule table_ok_delete [OF t])
  show "all_current u t'" using cur by (auto simp: all_current_def list_all_iff t'_def sql_delete_def)
  show "get_user_row (Some u) s' t' = (if s' = s then Inr None else get_user_row (Some u) s' t)"
  proof (cases "s' = s")
    case True
    then show ?thesis by (auto simp: get_user_row_None t'_def sql_delete_def user_row_def owned_def)
  next
    case False
    then have "filter (\<lambda>r. user_row u r \<and> slug r = s') t' = filter (\<lambda>r. user_row u r \<and> slug r = s') t"
      unfolding t'_def sql_delete_def filter_filter by (intro filter_cong refl) auto
    with False show ?thesis by (simp add: get_user_row_def current_user_id_def)
  qed
qed

lemma all_current_snoc: "all_current u t \<Longrightarrow> user_first n u s r \<Longrightarrow> all_current u (t @ [r])"
  by (simp add: all_current_def user_first_def)

lemma all_current_update: "all_current u t \<Longrightarrow> keeps_place f \<Longrightarrow> all_current u (sql_update p f t)"
  by (auto simp: all_current_def list_all_iff sql_update_def keeps_place_def owned_def)

lemma rid_update: "keeps_place f \<Longrightarrow> rid ` set (sql_update p f t) = rid ` set t"
  by (induction t) (auto simp: sql_update_def keeps_place_def)

subsection \<open>Requests to a resource and the map they are to act on\<close>

datatype ('c, 'q) request = Post 'c | Read string | Put string 'q | Drop string

datatype 'o answer_kind = Shown 'o | Gone | Refused exn

definition reply_of :: "('x \<Rightarrow> 'o answer_kind) \<Rightarrow> ('x \<times> 'd) result \<Rightarrow> 'd \<Rightarrow> 'o answer_kind \<times> 'd" where
  "reply_of f r d = (case r of Inl x \<Rightarrow> (Refused x, d) | Inr (y, d') \<Rightarrow> (f y, d'))"

fun map_step ::
  "schema_rev \<Rightarrow> ('c \<Rightarrow> string) \<Rightarrow> ('c \<Rightarrow> 'o) \<Rightarrow> ('q \<Rightarrow> 'o \<Rightarrow> 'o) \<Rightarrow> ('c, 'q) request \<Rightarrow> (string \<Rightarrow> 'o option)
     \<Rightarrow> 'o answer_kind \<times> (string \<Rightarrow> 'o option)"
where
  "map_step sch name first patch (Post b) m =
     (if sch = Schema_0003 \<or> m (name b) \<noteq> None then (Refused (http_error CONFLICT), m)
      else (Shown (first b), m(name b \<mapsto> first b)))"
| "map_step sch name first patch (Read s) m =
     (case m s of None \<Rightarrow> (Refused (http_error NOT_FOUND), m) | Some x \<Rightarrow> (Shown x, m))"
| "map_step sch name first patch (Put s q) m =
     (case m s of None \<Rightarrow> (Refused (http_error NOT_FOUND), m) | Some x \<Rightarrow> (Shown (patch q x), m(s \<mapsto> patch q x)))"
| "map_step sch name first patch (Drop s) m =
     (case m s of None \<Rightarrow> (Refused (http_error NOT_FOUND), m) | Some x \<Rightarrow> (Gone, m(s := None)))"

fun run_with :: "('r \<Rightarrow> 'd \<Rightarrow> 'o \<times> 'd) \<Rightarrow> 'r list \<Rightarrow> 'd \<Rightarrow> 'o list \<times> 'd" where
  "run_with f [] d = ([], d)"
| "run_with f (r # rs) d = (let (x, d1) = f r d; (xs, d2) = run_with f rs d1 in (x # xs, d2))"

definition resource_step ::
  "('c \<Rightarrow> route_env \<Rightarrow> 'd \<Rightarrow> ('o \<times> 'd) result) \<Rightarrow> (string \<Rightarrow> route_env \<Rightarrow> 'd \<Rightarrow> 'o result)
     \<Rightarrow> (string \<Rightarrow> 'q \<Rightarrow> route_env \<Rightarrow> 'd \<Rightarrow> ('o \<times> 'd) result) \<Rightarrow> (string \<Rightarrow> route_env \<Rightarrow> 'd \<Rightarrow> (unit \<times> 'd) result)
     \<Rightarrow> ('c, 'q) request \<times> route_env \<Rightarrow> 'd \<Rightarrow> 'o answer_kind \<times> 'd"
where
  "resource_step post read1 put drop1 = (\<lambda>(r, e) d. case r of
     Post b \<Rightarrow> reply_of Shown (post b e d) d
   | Read s \<Rightarrow> reply_of Shown (bind_result (read1 s e d) (\<lambda>x. Inr (x, d))) d
   | Put s q \<Rightarrow> reply_of Shown (put s q e d) d
   | Drop s \<Rightarrow> reply_of (\<lambda>_. Gone) (drop1 s e d) d)"

text \<open>The requests of one user against one schema, with new ids for the rows.\<close>

definition envs_ok :: "schema_rev \<Rightarrow> uuid \<Rightarrow> uuid set \<Rightarrow> route_env list \<Rightarrow> bool" where
  "envs_ok sch u used es \<longleftrightarrow> list_all (\<lambda>e. en_user e = u \<and> en_rev e = sch \<and> en_fresh e \<notin> used) es \<and>
     distinct (map en_fresh es)"

lemma envs_ok_tail:
  assumes "envs_ok sch u used (e # es)" and "used' \<subseteq> insert (en_fresh e) used"
  shows "envs_ok sch u used' es"
proof -
  have "en_fresh e' \<noteq> en_fresh e" if "e' \<in> set es" for e'
    using assms(1) that by (auto simp: envs_ok_def image_iff)
  with assms show ?thesis by (fastforce simp: envs_ok_def list_all_iff)
qed

subsection \<open>The interface\<close>

locale user_resource =
  fixes post :: "'c \<Rightarrow> route_env \<Rightarrow> 'd \<Rightarrow> ('o \<times> 'd) result"
    and read1 :: "string \<Rightarrow> route_env \<Rightarrow> 'd \<Rightarrow> 'o result"
    and put :: "string \<Rightarrow> 'q \<Rightarrow> route_env \<Rightarrow> 'd \<Rightarrow> ('o \<times> 'd) result"
    and drop1 :: "string \<Rightarrow> route_env \<Rightarrow> 'd \<Rightarrow> (unit \<times> 'd) result"
    and name :: "'c \<Rightarrow> string" and first :: "'c \<Rightarrow> 'o" and patch :: "'q \<Rightarrow> 'o \<Rightarrow> 'o"
    and look :: "uuid \<Rightarrow> 'd \<Rightarrow> string \<Rightarrow> 'o option"
    and good :: "schema_rev \<Rightarrow> uuid \<Rightarrow> 'd \<Rightarrow> bool" and ids :: "'d \<Rightarrow> uuid set"
  assumes read_look: "good (en_rev e) (en_user e) d \<Longrightarrow>
      read1 s e d = (case look (en_user e) d s of None \<Rightarrow> Inl (http_error NOT_FOUND) | Some x \<Rightarrow> Inr x)"
    and post_refused: "good (en_rev e) (en_user e) d \<Longrightarrow> en_rev e = Schema_0003 \<or> look (en_user e) d (name b) \<noteq> None \<Longrightarrow>
      post b e d = Inl (http_error CONFLICT)"
    and post_new: "good (en_rev e) (en_user e) d \<Longrightarrow> en_rev e = Schema_0001 \<Longrightarrow> look (en_user e) d (name b) = None \<Longrightarrow>
      en_fresh e \<notin> ids d \<Longrightarrow>
      \<exists>d'. post b e d = Inr (first b, d') \<and> good (en_rev e) (en_user e) d' \<and> ids d' \<subseteq> insert (en_fresh e) (ids d) \<and>
        look (en_user e) d' = (look (en_user e) d)(name b \<mapsto> first b)"
    and put_missing: "good (en_rev e) (en_user e) d \<Longrightarrow> look (en_user e) d s = None \<Longrightarrow> put s q e d = Inl (http_error NOT_FOUND)"
    and put_found: "good (en_rev e) (en_user e) d \<Longrightarrow> look (en_user e) d s = Some x \<Longrightarrow>
      \<exists>d'. put s q e d = Inr (patch q x, d') \<and> good (en_rev e) (en_user e) d' \<and> ids d' \<subseteq> ids d \<and>
        look (en_user e) d' = (look (en_user e) d)(s \<mapsto> patch q x)"
    and drop_missing: "good (en_rev e) (en_user e) d \<Longrightarrow> look (en_user e) d s = None \<Longrightarrow> drop1 s e d = Inl (http_error NOT_FOUND)"
    and drop_found: "good (en_rev e) (en_user e) d \<Longrightarrow> look (en_user e) d s = Some x \<Longrightarrow>
      \<exists>d'. drop1 s e d = Inr ((), d') \<and> good (en_rev e) (en_user e) d' \<and> ids d' \<subseteq> ids d \<and>
        look (en_user e) d' = (look (en_user e) d)(s := None)"
begin

lemma step_refines:
  assumes "good sch u d" and "en_user e = u" and "en_rev e = sch" and "en_fresh e \<notin> ids d"
    and "resource_step post read1 put drop1 (r, e) d = (x, d')"
  shows "map_step sch name first patch r (look u d) = (x, look u d') \<and> good sch u d' \<and>
    ids d' \<subseteq> insert (en_fresh e) (ids d)"
proof (cases r)
  case (Post b)
  show ?thesis
  proof (cases "sch = Schema_0003 \<or> look u d (name b) \<noteq> None")
    case True
    with assms Post post_refused [of e d b] show ?thesis by (auto simp: resource_step_def reply_of_def)
  next
    case False
    then have "sch = Schema_0001" by (cases sch) auto
    with assms(1-4) False obtain d1 where "post b e d = Inr (first b, d1)" "good sch u d1"
      "ids d1 \<subseteq> insert (en_fresh e) (ids d)" "look u d1 = (look u d)(name b \<mapsto> first b)"
      using post_new [of e d b] by auto
    with assms(5) Post False show ?thesis by (auto simp: resource_step_def reply_of_def)
  qed
next
  case (Read s)
  with assms read_look [of e d s] show ?thesis
    by (cases "look u d s") (auto simp: resource_step_def reply_of_def)
next
  case (Put s q)
  show ?thesis
  proof (cases "look u d s")
    case None
    with assms Put put_missing [of e d s q] show ?thesis by (auto simp: resource_step_def reply_of_def)
  next
    case (Some y)
    with assms(1-4) obtain d1 where "put s q e d = Inr (patch q y, d1)" "good sch u d1" "ids d1 \<subseteq> ids d"
      "look u d1 = (look u d)(s \<mapsto> patch q y)"
      using put_found [of e d s y q] by auto
    with assms(5) Put Some show ?thesis by (auto simp: resource_step_def reply_of_def)
  qed
next
  case (Drop s)
  show ?thesis
  proof (cases "look u d s")
    case None
    with assms Drop drop_missing [of e d s] show ?thesis by (auto simp: resource_step_def reply_of_def)
  next
    case (Some y)
    with assms(1-4) obtain d1 where "drop1 s e d = Inr ((), d1)" "good sch u d1" "ids d1 \<subseteq> ids d"
      "look u d1 = (look u d)(s := None)"
      using drop_found [of e d s y] by auto
    with assms(5) Drop Some show ?thesis by (auto simp: resource_step_def reply_of_def)
  qed
qed

lemma run_refines:
  "good sch u d \<Longrightarrow> envs_ok sch u (ids d) (map snd rs) \<Longrightarrow>
   run_with (resource_step post read1 put drop1) rs d = (xs, d') \<Longrightarrow>
   run_with (map_step sch name first patch) (map fst rs) (look u d) = (xs, look u d') \<and> good sch u d'"
proof (induction rs arbitrary: d xs)
  case (Cons r rs)
  obtain q e where r: "r = (q, e)" by (cases r)
  obtain x d1 where s: "resource_step post read1 put drop1 (q, e) d = (x, d1)" by fastforce
  obtain ys where ys: "run_with (resource_step post read1 put drop1) rs d1 = (ys, d')" "xs = x # ys"
    using Cons.prems(3) s by (auto simp: r split: prod.splits)
  have e: "en_user e = u" "en_rev e = sch" "en_fresh e \<notin> ids d"
    using Cons.prems(2) by (auto simp: envs_ok_def r)
  note st = step_refines [OF Cons.prems(1) e s]
  have "envs_ok sch u (ids d1) (map snd rs)"
    using envs_ok_tail [of sch u "ids d" e "map snd rs" "ids d1"] Cons.prems(2) st by (simp add: r)
  from Cons.IH [OF _ this ys(1)] st ys(2) show ?case by (simp add: r)
qed simp

end

end
