(* ===== verification/User_Routes.thy ===== *)
theory User_Routes
  imports Route_Base
begin

text \<open>
  \<open>web/routes/user_config.py\<close>: the routes under \<open>/v1/users/me\<close> over the documents, the settings
  and the five layered tables, with the request and response models of \<open>web/schemas.py\<close> they use.
  The opt-outs, the resolved view and the probe are in \<open>User_Views\<close>.  Texts are taken to be storable
  (no NUL) and priorities to fit their 32-bit column: otherwise the driver raises \<open>DataError\<close>, the request
  is answered 500 and nothing is written, a refusal the layered tables do not model.
\<close>

subsection \<open>Documents\<close>

record document_in =
  di_content :: pystr

record document_out =
  do_content :: pystr

text \<open>\<open>MemoryFull\<close> and \<open>UnsafeMemoryContent\<close> are conflicts.\<close>

fun document_refused :: "exn \<Rightarrow> exn" where
  "document_refused (MemoryFull n m) = http_error CONFLICT"
| "document_refused UnsafeContent = http_error CONFLICT"
| "document_refused e = e"

definition get_document :: "string \<Rightarrow> route_env \<Rightarrow> tenant_db \<Rightarrow> document_out result" where
  "get_document kind e db = shown (\<lambda>c. \<lparr>do_content = c\<rparr>) (memory_get (guc_of e) kind (db_documents db))"

definition put_document :: "string \<Rightarrow> document_in \<Rightarrow> route_env \<Rightarrow> tenant_db \<Rightarrow> (document_out \<times> tenant_db) result" where
  "put_document kind b e db =
     (case memory_put (en_rev e) (en_now e) (guc_of e) kind (di_content b) (db_documents db) of
        Inl x \<Rightarrow> Inl (document_refused x)
      | Inr t \<Rightarrow> Inr (\<lparr>do_content = di_content b\<rparr>, db\<lparr>db_documents := t\<rparr>))"

definition get_memory :: "route_env \<Rightarrow> tenant_db \<Rightarrow> document_out result" where
  "get_memory = get_document ''memory.md''"

definition put_memory :: "document_in \<Rightarrow> route_env \<Rightarrow> tenant_db \<Rightarrow> (document_out \<times> tenant_db) result" where
  "put_memory = put_document ''memory.md''"

definition get_user_doc :: "route_env \<Rightarrow> tenant_db \<Rightarrow> document_out result" where
  "get_user_doc = get_document ''user.md''"

definition put_user_doc :: "document_in \<Rightarrow> route_env \<Rightarrow> tenant_db \<Rightarrow> (document_out \<times> tenant_db) result" where
  "put_user_doc = put_document ''user.md''"

subsection \<open>Settings\<close>

record settings_out =
  so_default_model :: "string option"
  so_permission_mode :: string

record settings_in =
  si_default_model :: "string option"
  si_clear_default_model :: bool
  si_permission_mode :: "string option"

definition settings_to_out :: "user_settings \<Rightarrow> settings_out" where
  "settings_to_out s = \<lparr>so_default_model = us_default_model s, so_permission_mode = us_permission_mode s\<rparr>"

text \<open>The response model admits the three modes only; another one fails the response.\<close>

definition settings_response :: "user_settings \<Rightarrow> settings_out result" where
  "settings_response s = (if us_permission_mode s \<in> set valid_modes then Inr (settings_to_out s) else Inl ValueError)"

definition get_settings_route :: "route_env \<Rightarrow> tenant_db \<Rightarrow> settings_out result" where
  "get_settings_route e db = bind_result (settings_get (guc_of e) (db_accounts db)) settings_response"

definition put_settings :: "settings_in \<Rightarrow> route_env \<Rightarrow> tenant_db \<Rightarrow> (settings_out \<times> tenant_db) result" where
  "put_settings b e db =
     (case on_accounts (settings_update (guc_of e) (si_default_model b) (si_clear_default_model b) (si_permission_mode b)) db of
        Inl x \<Rightarrow> Inl (if x = ValueError then http_error CONFLICT else x)
      | Inr (s, db') \<Rightarrow> bind_result (settings_response s) (\<lambda>r. Inr (r, db')))"

subsection \<open>Skills\<close>

record skill_out =
  sk_slug :: string
  sk_version :: int
  sk_enabled_default :: bool
  sk_frontmatter :: dict
  sk_body :: string

record skill_create_in =
  ski_slug :: string
  ski_frontmatter :: dict
  ski_body :: string
  ski_enabled_default :: bool

record skill_update_in =
  sku_frontmatter :: "dict option"
  sku_body :: "string option"
  sku_enabled_default :: "bool option"

definition skill_to_out :: "skill_row \<Rightarrow> skill_out" where
  "skill_to_out s = \<lparr>sk_slug = slug s, sk_version = version s, sk_enabled_default = enabled_default s,
     sk_frontmatter = frontmatter s, sk_body = body s\<rparr>"

definition list_skills :: "route_env \<Rightarrow> tenant_db \<Rightarrow> skill_out list result" where
  "list_skills e db = listed skill_to_out (skill_list_user (guc_of e) (db_skills db))"

definition create_skill :: "skill_create_in \<Rightarrow> route_env \<Rightarrow> tenant_db \<Rightarrow> (skill_out \<times> tenant_db) result" where
  "create_skill b e db = answer skill_to_out (or_conflict (on_skills
     (skill_create_user (en_rev e) (en_fresh e) (guc_of e) (ski_slug b) (ski_frontmatter b) (ski_body b)
        (ski_enabled_default b)) db))"

definition get_skill :: "string \<Rightarrow> route_env \<Rightarrow> tenant_db \<Rightarrow> skill_out result" where
  "get_skill s e db = shown skill_to_out (found (skill_get_user (guc_of e) s (db_skills db)))"

definition update_skill :: "string \<Rightarrow> skill_update_in \<Rightarrow> route_env \<Rightarrow> tenant_db \<Rightarrow> (skill_out \<times> tenant_db) result" where
  "update_skill s b e db = answer skill_to_out (or_missing (on_skills
     (skill_update_user (en_rev e) (guc_of e) s (sku_frontmatter b) (sku_body b) (sku_enabled_default b)) db))"

definition delete_skill :: "string \<Rightarrow> route_env \<Rightarrow> tenant_db \<Rightarrow> (unit \<times> tenant_db) result" where
  "delete_skill s e db = or_gone (on_skills (skill_delete_user (guc_of e) s) db)"

subsection \<open>Instructions\<close>

record instruction_out =
  in_slug :: string
  in_version :: int
  in_priority :: int
  in_body :: string

record instruction_create_in =
  ini_slug :: string
  ini_body :: string
  ini_priority :: int

record instruction_update_in =
  inu_body :: "string option"
  inu_priority :: "int option"

definition instruction_to_out :: "instruction_row \<Rightarrow> instruction_out" where
  "instruction_to_out i = \<lparr>in_slug = slug i, in_version = version i, in_priority = priority i, in_body = i_body i\<rparr>"

definition list_instructions :: "route_env \<Rightarrow> tenant_db \<Rightarrow> instruction_out list result" where
  "list_instructions e db = listed instruction_to_out (instruction_list_user (guc_of e) (db_instructions db))"

definition create_instruction :: "instruction_create_in \<Rightarrow> route_env \<Rightarrow> tenant_db \<Rightarrow> (instruction_out \<times> tenant_db) result" where
  "create_instruction b e db = answer instruction_to_out (or_conflict (on_instructions
     (instruction_create_user (en_rev e) (en_fresh e) (guc_of e) (ini_slug b) (ini_body b) (ini_priority b)) db))"

definition get_instruction :: "string \<Rightarrow> route_env \<Rightarrow> tenant_db \<Rightarrow> instruction_out result" where
  "get_instruction s e db = shown instruction_to_out (found (instruction_get_user (guc_of e) s (db_instructions db)))"

definition update_instruction ::
  "string \<Rightarrow> instruction_update_in \<Rightarrow> route_env \<Rightarrow> tenant_db \<Rightarrow> (instruction_out \<times> tenant_db) result"
where
  "update_instruction s b e db = answer instruction_to_out (or_missing (on_instructions
     (instruction_update_user (en_rev e) (guc_of e) s (inu_body b) (inu_priority b)) db))"

definition delete_instruction :: "string \<Rightarrow> route_env \<Rightarrow> tenant_db \<Rightarrow> (unit \<times> tenant_db) result" where
  "delete_instruction s e db = or_gone (on_instructions (instruction_delete_user (guc_of e) s) db)"

subsection \<open>Commands\<close>

record command_out =
  co_slug :: string
  co_version :: int
  co_description :: "string option"
  co_prompt_tpl :: string
  co_arg_schema :: "dict option"
  co_bind_skills :: "string list option"

record command_create_in =
  coi_slug :: string
  coi_prompt_tpl :: string
  coi_description :: "string option"
  coi_arg_schema :: "dict option"
  coi_bind_skills :: "string list option"

record command_update_in =
  cou_prompt_tpl :: "string option"
  cou_description :: "string option"
  cou_arg_schema :: "dict option"
  cou_bind_skills :: "string list option"

text \<open>\<open>list(x) if x else None\<close>.\<close>

definition some_names :: "string list option \<Rightarrow> string list option" where
  "some_names x = (if x = Some [] then None else x)"

definition command_to_out :: "command_row \<Rightarrow> command_out" where
  "command_to_out c = \<lparr>co_slug = slug c, co_version = version c, co_description = description c,
     co_prompt_tpl = prompt_tpl c, co_arg_schema = arg_schema c, co_bind_skills = some_names (bind_skills c)\<rparr>"

definition list_commands :: "route_env \<Rightarrow> tenant_db \<Rightarrow> command_out list result" where
  "list_commands e db = listed command_to_out (command_list_user (guc_of e) (db_commands db))"

definition create_command :: "command_create_in \<Rightarrow> route_env \<Rightarrow> tenant_db \<Rightarrow> (command_out \<times> tenant_db) result" where
  "create_command b e db = answer command_to_out (or_conflict (on_commands
     (command_create_user (en_rev e) (en_fresh e) (guc_of e) (coi_slug b)
        \<lparr>ca_prompt_tpl = coi_prompt_tpl b, ca_description = coi_description b, ca_arg_schema = coi_arg_schema b,
         ca_bind_skills = coi_bind_skills b, ca_mandatory = False, ca_created_by = None\<rparr>) db))"

definition get_command :: "string \<Rightarrow> route_env \<Rightarrow> tenant_db \<Rightarrow> command_out result" where
  "get_command s e db = shown command_to_out (found (command_get_user (guc_of e) s (db_commands db)))"

definition update_command :: "string \<Rightarrow> command_update_in \<Rightarrow> route_env \<Rightarrow> tenant_db \<Rightarrow> (command_out \<times> tenant_db) result" where
  "update_command s b e db = answer command_to_out (or_missing (on_commands
     (command_update_user (en_rev e) (guc_of e) s
        \<lparr>cc_prompt_tpl = cou_prompt_tpl b, cc_description = cou_description b, cc_arg_schema = cou_arg_schema b,
         cc_bind_skills = cou_bind_skills b, cc_mandatory = None, cc_created_by = None\<rparr>) db))"

definition delete_command :: "string \<Rightarrow> route_env \<Rightarrow> tenant_db \<Rightarrow> (unit \<times> tenant_db) result" where
  "delete_command s e db = or_gone (on_commands (command_delete_user (guc_of e) s) db)"

subsection \<open>MCP servers\<close>

record mcp_out =
  mo_slug :: string
  mo_url :: string
  mo_auth_header :: "string option"
  mo_has_auth_value :: bool
  mo_cache_tools_list :: bool
  mo_enabled :: bool
  mo_last_probe_at :: "int option"
  mo_last_probe_ok :: "bool option"

record mcp_create_in =
  moi_slug :: string
  moi_url :: string
  moi_auth_header :: "string option"
  moi_auth_value :: "pystr option"
  moi_cache_tools_list :: bool
  moi_enabled :: bool

record mcp_update_in =
  mou_url :: "string option"
  mou_auth_header :: "string option"
  mou_auth_value :: "pystr option"
  mou_clear_auth_value :: bool
  mou_cache_tools_list :: "bool option"
  mou_enabled :: "bool option"

definition mcp_to_out :: "mcp_row \<Rightarrow> mcp_out" where
  "mcp_to_out m = \<lparr>mo_slug = slug m, mo_url = url m, mo_auth_header = auth_header m,
     mo_has_auth_value = (auth_value_ct m \<noteq> None), mo_cache_tools_list = cache_tools_list m,
     mo_enabled = m_enabled m, mo_last_probe_at = last_probe_at m, mo_last_probe_ok = last_probe_ok m\<rparr>"

definition list_mcp :: "route_env \<Rightarrow> tenant_db \<Rightarrow> mcp_out list result" where
  "list_mcp e db = listed mcp_to_out (mcp_list_user (guc_of e) (db_mcp_servers db))"

definition create_mcp :: "mcp_create_in \<Rightarrow> route_env \<Rightarrow> tenant_db \<Rightarrow> (mcp_out \<times> tenant_db) result" where
  "create_mcp b e db = answer mcp_to_out (or_conflict (on_mcp_servers
     (mcp_create_user (en_kms e) (en_rev e) (en_fresh e) (guc_of e) (moi_slug b)
        \<lparr>ma_url = moi_url b, ma_auth_header = moi_auth_header b, ma_auth_value = moi_auth_value b,
         ma_cache_tools_list = moi_cache_tools_list b, ma_enabled = moi_enabled b, ma_mandatory = False\<rparr>) db))"

definition get_mcp :: "string \<Rightarrow> route_env \<Rightarrow> tenant_db \<Rightarrow> mcp_out result" where
  "get_mcp s e db = shown mcp_to_out (found (mcp_get_user (guc_of e) s (db_mcp_servers db)))"

definition update_mcp :: "string \<Rightarrow> mcp_update_in \<Rightarrow> route_env \<Rightarrow> tenant_db \<Rightarrow> (mcp_out \<times> tenant_db) result" where
  "update_mcp s b e db = answer mcp_to_out (or_missing (on_mcp_servers
     (mcp_update_user (en_kms e) (en_rev e) (guc_of e) s
        \<lparr>mc_url = mou_url b, mc_auth_header = mou_auth_header b, mc_auth_value = mou_auth_value b,
         mc_clear_auth_value = mou_clear_auth_value b, mc_cache_tools_list = mou_cache_tools_list b,
         mc_enabled = mou_enabled b, mc_mandatory = None\<rparr>) db))"

definition delete_mcp :: "string \<Rightarrow> route_env \<Rightarrow> tenant_db \<Rightarrow> (unit \<times> tenant_db) result" where
  "delete_mcp s e db = or_gone (on_mcp_servers (mcp_delete_user (guc_of e) s) db)"

text \<open>
  The answer to the HEAD request is an argument: a status, an \<open>httpx.HTTPError\<close> with its text, or
  another exception of the client.
\<close>

datatype head_reply = HeadStatus nat | HeadError string | HeadRaises exn

record probe_result =
  pb_ok :: bool
  pb_when :: int
  pb_detail :: "string option"

fun head_outcome :: "head_reply \<Rightarrow> (bool \<times> string) result" where
  "head_outcome (HeadStatus c) = Inr (c < 500, ''HTTP '' @ str_int (int c))"
| "head_outcome (HeadError t) = Inr (False, t)"
| "head_outcome (HeadRaises x) = Inl x"

definition probe_mcp ::
  "(string \<Rightarrow> head_reply) \<Rightarrow> string \<Rightarrow> route_env \<Rightarrow> tenant_db \<Rightarrow> (probe_result \<times> tenant_db) result"
where
  "probe_mcp head s e db =
     bind_result (found (mcp_get_user (guc_of e) s (db_mcp_servers db))) (\<lambda>row.
     bind_result (head_outcome (head (url row))) (\<lambda>(ok, detail).
       answer (\<lambda>_. \<lparr>pb_ok = ok, pb_when = en_now e, pb_detail = Some detail\<rparr>)
         (on_mcp_servers (mcp_record_probe (en_rev e) (guc_of e) s ok (en_now e)) db)))"

subsection \<open>Cron jobs\<close>

record cron_out =
  cj_slug :: string
  cj_cron_expr :: string
  cj_prompt :: string
  cj_webhook_url :: "string option"
  cj_enabled :: bool
  cj_last_fired_at :: "int option"

record cron_create_in =
  cji_slug :: string
  cji_cron_expr :: string
  cji_prompt :: string
  cji_webhook_url :: "string option"
  cji_enabled :: bool

record cron_update_in =
  cju_cron_expr :: "string option"
  cju_prompt :: "string option"
  cju_webhook_url :: "string option"
  cju_clear_webhook_url :: bool
  cju_enabled :: "bool option"

definition cron_to_out :: "cron_row \<Rightarrow> cron_out" where
  "cron_to_out c = \<lparr>cj_slug = slug c, cj_cron_expr = cron_expr c, cj_prompt = cr_prompt c,
     cj_webhook_url = webhook_url c, cj_enabled = cr_enabled c, cj_last_fired_at = last_fired_at c\<rparr>"

definition list_cron :: "route_env \<Rightarrow> tenant_db \<Rightarrow> cron_out list result" where
  "list_cron e db = listed cron_to_out (cron_list_user (guc_of e) (db_cron_jobs db))"

definition create_cron :: "cron_create_in \<Rightarrow> route_env \<Rightarrow> tenant_db \<Rightarrow> (cron_out \<times> tenant_db) result" where
  "create_cron b e db = answer cron_to_out (or_conflict (on_cron_jobs
     (cron_create_user (en_rev e) (en_fresh e) (guc_of e) (cji_slug b)
        \<lparr>ra_cron_expr = cji_cron_expr b, ra_prompt = cji_prompt b, ra_webhook_url = cji_webhook_url b,
         ra_enabled = cji_enabled b, ra_mandatory = False\<rparr>) db))"

definition get_cron :: "string \<Rightarrow> route_env \<Rightarrow> tenant_db \<Rightarrow> cron_out result" where
  "get_cron s e db = shown cron_to_out (found (cron_get_user (guc_of e) s (db_cron_jobs db)))"

definition update_cron :: "string \<Rightarrow> cron_update_in \<Rightarrow> route_env \<Rightarrow> tenant_db \<Rightarrow> (cron_out \<times> tenant_db) result" where
  "update_cron s b e db = answer cron_to_out (or_missing (on_cron_jobs
     (cron_update_user (en_rev e) (guc_of e) s
        \<lparr>rc_cron_expr = cju_cron_expr b, rc_prompt = cju_prompt b, rc_webhook_url = cju_webhook_url b,
         rc_clear_webhook_url = cju_clear_webhook_url b, rc_enabled = cju_enabled b, rc_mandatory = None\<rparr>) db))"

definition delete_cron :: "string \<Rightarrow> route_env \<Rightarrow> tenant_db \<Rightarrow> (unit \<times> tenant_db) result" where
  "delete_cron s e db = or_gone (on_cron_jobs (cron_delete_user (guc_of e) s) db)"

end
