(* ===== verification/User_Views.thy ===== *)
theory User_Views
  imports User_Routes
begin

text \<open>
  The rest of \<open>web/routes/user_config.py\<close>: opt-outs, the resolved configuration a client sees, and
  skill proposals with \<open>repositories/proposal_repo.py\<close>.
\<close>

subsection \<open>Opt-outs\<close>

record opt_out_body =
  oo_entity :: string
  oo_slug :: string

definition list_opt_outs :: "route_env \<Rightarrow> tenant_db \<Rightarrow> opt_out_body list result" where
  "list_opt_outs e db =
     listed (\<lambda>(n, s). \<lparr>oo_entity = n, oo_slug = s\<rparr>) (opt_out_list (guc_of e) None (db_opt_outs db))"

text \<open>\<open>_MANDATORY_LOOKUP\<close> names the repository of an entity.\<close>

definition flagged :: "'a layered_row_scheme option \<Rightarrow> bool" where
  "flagged r \<longleftrightarrow> (case r of None \<Rightarrow> False | Some x \<Rightarrow> mandatory x)"

definition is_mandatory_official :: "string \<Rightarrow> string \<Rightarrow> tenant_db \<Rightarrow> bool result" where
  "is_mandatory_official entity s db =
     (if entity = ''skill'' then shown flagged (skill_get_official s (db_skills db))
      else if entity = ''instruction'' then shown flagged (instruction_get_official s (db_instructions db))
      else if entity = ''command'' then shown flagged (command_get_official s (db_commands db))
      else if entity = ''mcp_server'' then shown flagged (mcp_get_official s (db_mcp_servers db))
      else if entity = ''cron_job'' then shown flagged (cron_get_official s (db_cron_jobs db))
      else Inr False)"

definition add_opt_out :: "opt_out_body \<Rightarrow> route_env \<Rightarrow> tenant_db \<Rightarrow> (opt_out_body \<times> tenant_db) result" where
  "add_opt_out b e db =
     (if oo_entity b \<notin> set VALID_ENTITIES then Inl (http_error CONFLICT)
      else bind_result (is_mandatory_official (oo_entity b) (oo_slug b) db) (\<lambda>m.
        if m then Inl (http_error UNPROCESSABLE)
        else bind_result (opt_out_add (guc_of e) (oo_entity b) (oo_slug b) (db_opt_outs db)) (\<lambda>t.
          Inr (b, db\<lparr>db_opt_outs := t\<rparr>))))"

definition remove_opt_out :: "string \<Rightarrow> string \<Rightarrow> route_env \<Rightarrow> tenant_db \<Rightarrow> (unit \<times> tenant_db) result" where
  "remove_opt_out entity s e db =
     (if entity \<notin> set VALID_ENTITIES then Inl (http_error NOT_FOUND)
      else or_gone (bind_result (opt_out_remove (guc_of e) entity s (db_opt_outs db)) (\<lambda>(ok, t).
        Inr (ok, db\<lparr>db_opt_outs := t\<rparr>))))"

subsection \<open>The resolved configuration\<close>

record skill_view =
  sv_slug :: string
  sv_scope :: scope
  sv_description :: string
  sv_enabled_default :: bool
  sv_mandatory :: bool
  sv_frontmatter :: dict

record instruction_view =
  iv_slug :: string
  iv_scope :: scope
  iv_body :: string
  iv_priority :: int
  iv_mandatory :: bool

record command_view =
  cv_slug :: string
  cv_scope :: scope
  cv_description :: "string option"
  cv_prompt_tpl :: string
  cv_bind_skills :: "string list"

record mcp_view =
  mv_slug :: string
  mv_scope :: scope
  mv_url :: string
  mv_auth_header :: "string option"
  mv_has_auth_value :: bool
  mv_cache_tools_list :: bool
  mv_enabled :: bool
  mv_mandatory :: bool

record config_view =
  ev_skills :: "skill_view list"
  ev_instructions :: "instruction_view list"
  ev_commands :: "command_view list"
  ev_mcp_servers :: "mcp_view list"
  ev_etag :: string

definition skill_to_view :: "resolved_skill \<Rightarrow> skill_view" where
  "skill_to_view s = \<lparr>sv_slug = rs_slug s, sv_scope = rs_scope s, sv_description = rs_description s,
     sv_enabled_default = rs_enabled_default s, sv_mandatory = rs_mandatory s, sv_frontmatter = rs_frontmatter s\<rparr>"

definition instruction_to_view :: "resolved_instruction \<Rightarrow> instruction_view" where
  "instruction_to_view i = \<lparr>iv_slug = ri_slug i, iv_scope = ri_scope i, iv_body = ri_body i,
     iv_priority = ri_priority i, iv_mandatory = ri_mandatory i\<rparr>"

definition command_to_view :: "resolved_command \<Rightarrow> command_view" where
  "command_to_view c = \<lparr>cv_slug = rc_slug c, cv_scope = rc_scope c, cv_description = rc_description c,
     cv_prompt_tpl = rc_prompt_tpl c, cv_bind_skills = rc_bind_skills c\<rparr>"

definition mcp_to_view :: "resolved_mcp \<Rightarrow> mcp_view" where
  "mcp_to_view m = \<lparr>mv_slug = rm_slug m, mv_scope = rm_scope m, mv_url = rm_url m, mv_auth_header = rm_auth_header m,
     mv_has_auth_value = (rm_auth_value_ct m \<noteq> None), mv_cache_tools_list = rm_cache_tools_list m,
     mv_enabled = rm_enabled m, mv_mandatory = rm_mandatory m\<rparr>"

definition config_to_view :: "effective_config \<Rightarrow> config_view" where
  "config_to_view c = \<lparr>ev_skills = map skill_to_view (ec_skills c),
     ev_instructions = map instruction_to_view (ec_instructions c),
     ev_commands = map command_to_view (ec_commands c),
     ev_mcp_servers = map mcp_to_view (ec_mcp_servers c), ev_etag = ec_etag c\<rparr>"

text \<open>Without Redis the configuration is computed; with it, the cache is asked first.\<close>

definition get_effective_config ::
  "(json \<Rightarrow> string) \<Rightarrow> bundle_t \<Rightarrow> int \<Rightarrow> json redis option \<Rightarrow> route_env \<Rightarrow> tenant_db
     \<Rightarrow> config_view result \<times> json redis option"
where
  "get_effective_config sha shipped ms redis e db =
     (case redis of
        None \<Rightarrow> (shown config_to_view (compute_effective_config sha shipped (guc_of e) (database.truncate db)), None)
      | Some r \<Rightarrow>
          (let (c, r') = get_or_compute_effective_config sha shipped ms (en_user e) (database.truncate db) r
           in (shown config_to_view c, Some r')))"

subsection \<open>\<open>ProposalRepo\<close>\<close>

definition VALID_STATUSES :: "string list" where
  "VALID_STATUSES = [''pending'', ''approved'', ''rejected'', ''superseded'']"

definition own_proposal :: "uuid \<Rightarrow> uuid \<Rightarrow> proposal_row \<Rightarrow> bool" where
  "own_proposal u i p \<longleftrightarrow> pr_user p = u \<and> pr_id p = i"

definition proposal_list :: "uuid option \<Rightarrow> string option \<Rightarrow> int \<Rightarrow> proposal_row list \<Rightarrow> proposal_row list result" where
  "proposal_list guc status most t =
     bind_result (current_user_id guc) (\<lambda>u.
       if (case status of None \<Rightarrow> False | Some s \<Rightarrow> s \<notin> set VALID_STATUSES) then Inl ValueError
       else pg_limit most (sort_key (\<lambda>p. - pr_created_at p)
         (filter (\<lambda>p. pr_user p = u \<and> (case status of None \<Rightarrow> True | Some s \<Rightarrow> pr_status p = s)) t)))"

definition proposal_get :: "uuid option \<Rightarrow> uuid option \<Rightarrow> proposal_row list \<Rightarrow> proposal_row option result" where
  "proposal_get guc ref t =
     bind_result (current_user_id guc) (\<lambda>u.
     bind_result (parsed_uuid ref) (\<lambda>i. scalar_one_or_none (filter (own_proposal u i) t)))"

text \<open>The row that \<open>approve\<close> and \<open>reject\<close> act on.\<close>

definition pending_proposal :: "uuid option \<Rightarrow> uuid option \<Rightarrow> proposal_row list \<Rightarrow> proposal_row result" where
  "pending_proposal guc ref t =
     bind_result (proposal_get guc ref t) (\<lambda>row.
       case row of
         None \<Rightarrow> Inl ProposalNotFoundError
       | Some p \<Rightarrow> (if pr_status p \<noteq> ''pending'' then Inl (ProposalAlreadyDecidedError (pr_status p)) else Inr p))"

definition decide_proposal :: "string \<Rightarrow> int \<Rightarrow> proposal_row \<Rightarrow> tenant_db \<Rightarrow> proposal_row \<times> tenant_db" where
  "decide_proposal status now p db =
     (p\<lparr>pr_status := status, pr_decided_at := Some now\<rparr>,
      db\<lparr>db_proposals := sql_update (\<lambda>r. pr_id r = pr_id p)
        (\<lambda>r. r\<lparr>pr_status := status, pr_decided_at := Some now\<rparr>) (db_proposals db)\<rparr>)"

definition proposal_approve :: "uuid option \<Rightarrow> route_env \<Rightarrow> tenant_db \<Rightarrow> (proposal_row \<times> tenant_db) result" where
  "proposal_approve ref e db =
     bind_result (pending_proposal (guc_of e) ref (db_proposals db)) (\<lambda>p.
     bind_result (skill_get_user (guc_of e) (pr_skill_slug p) (db_skills db)) (\<lambda>existing.
       if existing \<noteq> None then Inl (ProposalSkillSlugTakenError (pr_skill_slug p))
       else bind_result (on_skills (skill_create_user (en_rev e) (en_fresh e) (guc_of e) (pr_skill_slug p)
            [(''slug'', JStr (pr_skill_slug p)), (''source'', JStr ''evolve'')] (pr_body p) True) db) (\<lambda>(_, db').
         Inr (decide_proposal ''approved'' (en_now e) p db'))))"

definition proposal_reject :: "uuid option \<Rightarrow> route_env \<Rightarrow> tenant_db \<Rightarrow> (proposal_row \<times> tenant_db) result" where
  "proposal_reject ref e db =
     bind_result (pending_proposal (guc_of e) ref (db_proposals db)) (\<lambda>p.
       Inr (decide_proposal ''rejected'' (en_now e) p db))"

subsection \<open>Proposal routes\<close>

record proposal_out =
  po_id :: string
  po_skill_slug :: string
  po_base_version :: "int option"
  po_body :: string
  po_fitness :: "dict option"
  po_status :: string
  po_created_at :: int
  po_decided_at :: "int option"

text \<open>The response model admits the four states.\<close>

definition proposal_to_out :: "proposal_row \<Rightarrow> proposal_out result" where
  "proposal_to_out p =
     (if pr_status p \<notin> set VALID_STATUSES then Inl ValueError
      else Inr \<lparr>po_id = uuid_str (pr_id p), po_skill_slug = pr_skill_slug p, po_base_version = pr_base_version p,
        po_body = pr_body p, po_fitness = pr_fitness p, po_status = pr_status p,
        po_created_at = pr_created_at p, po_decided_at = pr_decided_at p\<rparr>)"

fun proposal_error :: "exn \<Rightarrow> exn" where
  "proposal_error ProposalNotFoundError = http_error NOT_FOUND"
| "proposal_error (ProposalAlreadyDecidedError s) = http_error CONFLICT"
| "proposal_error (ProposalSkillSlugTakenError s) = http_error CONFLICT"
| "proposal_error x = x"

definition proposal_answer :: "(proposal_row \<times> tenant_db) result \<Rightarrow> (proposal_out \<times> tenant_db) result" where
  "proposal_answer r =
     (case r of
        Inl x \<Rightarrow> Inl (proposal_error x)
      | Inr (p, db) \<Rightarrow> bind_result (proposal_to_out p) (\<lambda>out1. Inr (out1, db)))"

definition list_skill_proposals :: "string option \<Rightarrow> int \<Rightarrow> route_env \<Rightarrow> tenant_db \<Rightarrow> proposal_out list result" where
  "list_skill_proposals status most e db =
     (case proposal_list (guc_of e) status most (db_proposals db) of
        Inl x \<Rightarrow> Inl (if x = ValueError then http_error UNPROCESSABLE else x)
      | Inr rows \<Rightarrow> map_result proposal_to_out rows)"

definition approve_skill_proposal :: "uuid option \<Rightarrow> route_env \<Rightarrow> tenant_db \<Rightarrow> (proposal_out \<times> tenant_db) result" where
  "approve_skill_proposal ref e db = proposal_answer (proposal_approve ref e db)"

definition reject_skill_proposal :: "uuid option \<Rightarrow> route_env \<Rightarrow> tenant_db \<Rightarrow> (proposal_out \<times> tenant_db) result" where
  "reject_skill_proposal ref e db = proposal_answer (proposal_reject ref e db)"

end
