(* ===== verification/User_Resources.thy ===== *)
theory User_Resources
  imports User_Rows User_Views
begin

text \<open>
  The routes of skills, instructions and commands provide the interface of \<open>User_Rows\<close>: whatever a
  user sends, the answers are those of a map from slugs to views, to which nothing can be added since
  revision \<open>0003\<close>.
\<close>

subsection \<open>The routes of one layered table\<close>

definition entity_post ::
  "('d \<Rightarrow> 'a versioned_row_scheme list) \<Rightarrow> ('a versioned_row_scheme list \<Rightarrow> 'd \<Rightarrow> 'd)
     \<Rightarrow> (uuid \<Rightarrow> uuid \<Rightarrow> 'c \<Rightarrow> 'a versioned_row_scheme) \<Rightarrow> ('a versioned_row_scheme \<Rightarrow> 'o)
     \<Rightarrow> 'c \<Rightarrow> route_env \<Rightarrow> 'd \<Rightarrow> ('o \<times> 'd) result"
where
  "entity_post tab upd mk view b e d = answer view (or_conflict
     (bind_result (insert_row (en_rev e) (mk (en_fresh e) (en_user e) b) (tab d)) (\<lambda>(x, t). Inr (x, upd t d))))"

definition entity_read ::
  "('d \<Rightarrow> 'a versioned_row_scheme list) \<Rightarrow> ('a versioned_row_scheme \<Rightarrow> 'o) \<Rightarrow> string \<Rightarrow> route_env \<Rightarrow> 'd \<Rightarrow> 'o result"
where
  "entity_read tab view s e d = shown view (found (get_user_row (guc_of e) s (tab d)))"

definition entity_put ::
  "('d \<Rightarrow> 'a versioned_row_scheme list) \<Rightarrow> ('a versioned_row_scheme list \<Rightarrow> 'd \<Rightarrow> 'd)
     \<Rightarrow> ('q \<Rightarrow> ('a versioned_row_scheme \<Rightarrow> 'a versioned_row_scheme) option) \<Rightarrow> ('a versioned_row_scheme \<Rightarrow> 'o)
     \<Rightarrow> string \<Rightarrow> 'q \<Rightarrow> route_env \<Rightarrow> 'd \<Rightarrow> ('o \<times> 'd) result"
where
  "entity_put tab upd vals view s q e d = answer view (or_missing
     (bind_result (update_user_row (en_rev e) (guc_of e) s (vals q) (tab d)) (\<lambda>(x, t). Inr (x, upd t d))))"

definition entity_drop ::
  "('d \<Rightarrow> 'a versioned_row_scheme list) \<Rightarrow> ('a versioned_row_scheme list \<Rightarrow> 'd \<Rightarrow> 'd)
     \<Rightarrow> string \<Rightarrow> route_env \<Rightarrow> 'd \<Rightarrow> (unit \<times> 'd) result"
where
  "entity_drop tab upd s e d = or_gone
     (bind_result (delete_user_row (guc_of e) s (tab d)) (\<lambda>(x, t). Inr (x, upd t d)))"

definition entity_look ::
  "('d \<Rightarrow> 'a versioned_row_scheme list) \<Rightarrow> ('a versioned_row_scheme \<Rightarrow> 'o) \<Rightarrow> uuid \<Rightarrow> 'd \<Rightarrow> string \<Rightarrow> 'o option"
where
  "entity_look tab view u d s = (case get_user_row (Some u) s (tab d) of Inr (Some r) \<Rightarrow> Some (view r) | _ \<Rightarrow> None)"

definition entity_good :: "('d \<Rightarrow> 'a versioned_row_scheme list) \<Rightarrow> schema_rev \<Rightarrow> uuid \<Rightarrow> 'd \<Rightarrow> bool" where
  "entity_good tab sch u d \<longleftrightarrow> table_ok sch (tab d) \<and> all_current u (tab d)"

definition entity_ids :: "('d \<Rightarrow> 'a versioned_row_scheme list) \<Rightarrow> 'd \<Rightarrow> uuid set" where
  "entity_ids tab d = rid ` set (tab d)"

lemmas entity_defs = entity_post_def entity_read_def entity_put_def entity_drop_def entity_look_def
  entity_good_def entity_ids_def guc_of_def

lemma look_cases:
  assumes "table_ok sch (tab d)"
  shows "(\<exists>r. get_user_row (Some u) s (tab d) = Inr (Some r) \<and> entity_look tab view u d s = Some (view r)) \<or>
    get_user_row (Some u) s (tab d) = Inr None \<and> entity_look tab view u d s = None"
proof -
  obtain x where "get_user_row (Some u) s (tab d) = Inr x"
    using get_user_row_ok [OF assms, of "Some u" u s] by auto
  then show ?thesis by (cases x) (auto simp: entity_look_def)
qed

lemma look_after:
  assumes "table_ok sch (tab d)" and "tab d' = t"
    and "\<And>s'. get_user_row (Some u) s' t = (if s' = s then Inr x else get_user_row (Some u) s' (tab d))"
  shows "entity_look tab view u d' = (entity_look tab view u d)(s := map_option view x)"
  using assms by (auto simp: fun_eq_iff entity_look_def split: option.splits)

locale user_entity =
  fixes tab :: "'d \<Rightarrow> 'a versioned_row_scheme list" and upd :: "'a versioned_row_scheme list \<Rightarrow> 'd \<Rightarrow> 'd"
    and mk :: "uuid \<Rightarrow> uuid \<Rightarrow> 'c \<Rightarrow> 'a versioned_row_scheme" and name :: "'c \<Rightarrow> string"
    and vals :: "'q \<Rightarrow> ('a versioned_row_scheme \<Rightarrow> 'a versioned_row_scheme) option"
    and view :: "'a versioned_row_scheme \<Rightarrow> 'o" and first :: "'c \<Rightarrow> 'o" and patch :: "'q \<Rightarrow> 'o \<Rightarrow> 'o"
  assumes tab_upd: "tab (upd t d) = t"
    and mk_first: "user_first n u (name b) (mk n u b)"
    and view_mk: "view (mk n u b) = first b"
    and vals_keep: "vals q = Some f \<Longrightarrow> keeps_place f"
    and view_vals: "view (case vals q of None \<Rightarrow> r | Some f \<Rightarrow> f r) = patch q (view r)"
begin

lemma look_new:
  assumes "user_first n u s r" and "get_user_row (Some u) s t = Inr None"
  shows "get_user_row (Some u) s' (t @ [r]) = (if s' = s then Inr (Some r) else get_user_row (Some u) s' t)"
  using assms by (auto simp: get_user_snoc user_first_def user_row_def)

end

sublocale user_entity \<subseteq> user_resource
  "entity_post tab upd mk view" "entity_read tab view" "entity_put tab upd vals view" "entity_drop tab upd"
  name first patch "entity_look tab view" "entity_good tab" "entity_ids tab"
proof
  fix e :: route_env and d :: 'd and s :: string and b :: 'c and q :: 'q
  assume good: "entity_good tab (en_rev e) (en_user e) d"
  then have t: "table_ok (en_rev e) (tab d)" and cur: "all_current (en_user e) (tab d)"
    by (simp_all add: entity_good_def)
  note cases = look_cases [where tab = tab and d = d and u = "en_user e" and view = view, OF t]
  show "entity_read tab view s e d =
      (case entity_look tab view (en_user e) d s of None \<Rightarrow> Inl (http_error NOT_FOUND) | Some x \<Rightarrow> Inr x)"
    using cases [of s] by (auto simp: entity_read_def guc_of_def shown_def found_def)
  show "entity_post tab upd mk view b e d = Inl (http_error CONFLICT)"
    if "en_rev e = Schema_0003 \<or> entity_look tab view (en_user e) d (name b) \<noteq> None"
  proof -
    have "insert_row (en_rev e) (mk (en_fresh e) (en_user e) b) (tab d) = Inl IntegrityError"
      using that insert_user_agentless [OF mk_first] insert_user_taken [OF t _ mk_first] cases [of "name b"] by auto
    then show ?thesis by (simp add: entity_post_def)
  qed
  show "\<exists>d'. entity_post tab upd mk view b e d = Inr (first b, d') \<and> entity_good tab (en_rev e) (en_user e) d' \<and>
      entity_ids tab d' \<subseteq> insert (en_fresh e) (entity_ids tab d) \<and>
      entity_look tab view (en_user e) d' = (entity_look tab view (en_user e) d)(name b \<mapsto> first b)"
    if sch: "en_rev e = Schema_0001" and none: "entity_look tab view (en_user e) d (name b) = None"
      and n: "en_fresh e \<notin> entity_ids tab d"
  proof -
    let ?r = "mk (en_fresh e) (en_user e) b"
    have none': "get_user_row (Some (en_user e)) (name b) (tab d) = Inr None"
      using cases [of "name b"] none by auto
    have n': "en_fresh e \<notin> rid ` set (tab d)" using n by (simp add: entity_ids_def)
    note new = insert_user_new [OF t [unfolded sch] none' n' mk_first]
    have "entity_look tab view (en_user e) (upd (tab d @ [?r]) d)
        = (entity_look tab view (en_user e) d)(name b := map_option view (Some ?r))"
      by (rule look_after [where tab = tab and d = d, OF t tab_upd look_new [OF mk_first none']])
    then show ?thesis
      using new cur all_current_snoc [OF cur mk_first] mk_first [of "en_fresh e" "en_user e" b]
      by (intro exI [of _ "upd (tab d @ [?r]) d"])
        (simp add: entity_post_def sch entity_good_def entity_ids_def tab_upd view_mk user_first_def)
  qed
  show "entity_put tab upd vals view s q e d = Inl (http_error NOT_FOUND)"
    if "entity_look tab view (en_user e) d s = None"
  proof -
    have "update_user_row (en_rev e) (Some (en_user e)) s (vals q) (tab d) = Inr (None, tab d)"
      using that cases [of s] by (intro update_user_none [OF t]) (auto dest: vals_keep)
    then show ?thesis by (simp add: entity_put_def guc_of_def or_missing_def)
  qed
  show "\<exists>d'. entity_put tab upd vals view s q e d = Inr (patch q x, d') \<and> entity_good tab (en_rev e) (en_user e) d' \<and>
      entity_ids tab d' \<subseteq> entity_ids tab d \<and>
      entity_look tab view (en_user e) d' = (entity_look tab view (en_user e) d)(s \<mapsto> patch q x)"
    if look: "entity_look tab view (en_user e) d s = Some x" for x
  proof -
    obtain r where r: "get_user_row (Some (en_user e)) s (tab d) = Inr (Some r)" "x = view r"
      using look cases [of s] by auto
    show ?thesis
    proof (cases "vals q")
      case None
      then have same: "patch q x = x" using view_vals [where q = q and r = r] r(2) by simp
      have "update_user_row (en_rev e) (Some (en_user e)) s (vals q) (tab d) = Inr (Some r, tab d)"
        using r(1) by (simp add: None update_user_row_def current_user_id_def)
      then show ?thesis
        using good look r(2) same
        by (intro exI [of _ "upd (tab d) d"])
          (simp add: entity_put_def guc_of_def or_missing_def entity_good_def entity_ids_def tab_upd
            fun_upd_idem entity_look_def fun_eq_iff)
    next
      case (Some f)
      let ?t = "sql_update (\<lambda>r. user_row (en_user e) r \<and> slug r = s) f (tab d)"
      have keep: "keeps_place f" using vals_keep [OF Some] .
      note upds = update_user_some [OF t r(1) keep]
      have val: "view (f r) = patch q x" using view_vals [where q = q and r = r] r(2) Some by simp
      have "entity_look tab view (en_user e) (upd ?t d) = (entity_look tab view (en_user e) d)(s := map_option view (Some (f r)))"
        by (rule look_after [where tab = tab and d = d, OF t tab_upd upds(3)])
      then show ?thesis
        using upds(1,2) all_current_update [OF cur keep] val rid_update [OF keep]
        by (intro exI [of _ "upd ?t d"])
          (simp add: entity_put_def guc_of_def or_missing_def entity_good_def entity_ids_def tab_upd Some)
    qed
  qed
  show "entity_drop tab upd s e d = Inl (http_error NOT_FOUND)" if "entity_look tab view (en_user e) d s = None"
  proof -
    have "get_user_row (Some (en_user e)) s (tab d) = Inr None" using that cases [of s] by auto
    from delete_user_reads(1) [OF t cur this] show ?thesis
      by (simp add: entity_drop_def guc_of_def or_gone_def)
  qed
  show "\<exists>d'. entity_drop tab upd s e d = Inr ((), d') \<and> entity_good tab (en_rev e) (en_user e) d' \<and>
      entity_ids tab d' \<subseteq> entity_ids tab d \<and>
      entity_look tab view (en_user e) d' = (entity_look tab view (en_user e) d)(s := None)"
    if look: "entity_look tab view (en_user e) d s = Some x" for x
  proof -
    let ?t = "sql_delete (\<lambda>r. owned (en_user e) r \<and> slug r = s) (tab d)"
    obtain r where r: "get_user_row (Some (en_user e)) s (tab d) = Inr (Some r)"
      using look cases [of s] by auto
    note dels = delete_user_reads [OF t cur r]
    have "entity_look tab view (en_user e) (upd ?t d) = (entity_look tab view (en_user e) d)(s := map_option view None)"
      by (rule look_after [where tab = tab and d = d, OF t tab_upd dels(4)])
    then show ?thesis
      using dels(1-3)
      by (intro exI [of _ "upd ?t d"])
        (auto simp: entity_drop_def guc_of_def or_gone_def entity_good_def entity_ids_def tab_upd sql_delete_def)
  qed
qed

subsection \<open>The three resources\<close>

definition skill_view_first :: "skill_create_in \<Rightarrow> skill_out" where
  "skill_view_first b = \<lparr>sk_slug = ski_slug b, sk_version = 1, sk_enabled_default = ski_enabled_default b,
     sk_frontmatter = ski_frontmatter b, sk_body = ski_body b\<rparr>"

definition skill_patch :: "skill_update_in \<Rightarrow> skill_out \<Rightarrow> skill_out" where
  "skill_patch q v = v\<lparr>sk_enabled_default := keep_or (sku_enabled_default q) (sk_enabled_default v),
     sk_frontmatter := keep_or (sku_frontmatter q) (sk_frontmatter v), sk_body := keep_or (sku_body q) (sk_body v)\<rparr>"

definition instruction_view_first :: "instruction_create_in \<Rightarrow> instruction_out" where
  "instruction_view_first b = \<lparr>in_slug = ini_slug b, in_version = 1, in_priority = ini_priority b, in_body = ini_body b\<rparr>"

definition instruction_patch :: "instruction_update_in \<Rightarrow> instruction_out \<Rightarrow> instruction_out" where
  "instruction_patch q v = v\<lparr>in_priority := keep_or (inu_priority q) (in_priority v), in_body := keep_or (inu_body q) (in_body v)\<rparr>"

definition command_view_first :: "command_create_in \<Rightarrow> command_out" where
  "command_view_first b = \<lparr>co_slug = coi_slug b, co_version = 1, co_description = coi_description b,
     co_prompt_tpl = coi_prompt_tpl b, co_arg_schema = coi_arg_schema b, co_bind_skills = some_names (coi_bind_skills b)\<rparr>"

definition command_patch :: "command_update_in \<Rightarrow> command_out \<Rightarrow> command_out" where
  "command_patch q v = v\<lparr>co_description := (case cou_description q of None \<Rightarrow> co_description v | x \<Rightarrow> x),
     co_prompt_tpl := keep_or (cou_prompt_tpl q) (co_prompt_tpl v),
     co_arg_schema := (case cou_arg_schema q of None \<Rightarrow> co_arg_schema v | x \<Rightarrow> x),
     co_bind_skills := (case cou_bind_skills q of None \<Rightarrow> co_bind_skills v | x \<Rightarrow> some_names x)\<rparr>"

definition new_command :: "uuid \<Rightarrow> uuid \<Rightarrow> command_create_in \<Rightarrow> command_row" where
  "new_command n u b = \<lparr>rid = n, scope = UserScope, user_id = Some u, agent_id = None, slug = coi_slug b,
     mandatory = False, version = 1, is_current = True, description = coi_description b,
     prompt_tpl = coi_prompt_tpl b, arg_schema = coi_arg_schema b, bind_skills = coi_bind_skills b,
     c_created_by = Some u\<rparr>"

definition command_changes_of :: "command_update_in \<Rightarrow> command_changes" where
  "command_changes_of q = \<lparr>cc_prompt_tpl = cou_prompt_tpl q, cc_description = cou_description q,
     cc_arg_schema = cou_arg_schema q, cc_bind_skills = cou_bind_skills q, cc_mandatory = None, cc_created_by = None\<rparr>"

interpretation skill_entity: user_entity db_skills "\<lambda>t d :: tenant_db. d\<lparr>db_skills := t\<rparr>"
  "\<lambda>n u b. skill_user_row n u (ski_slug b) (ski_frontmatter b) (ski_body b) (ski_enabled_default b)" ski_slug
  "\<lambda>q. skill_values (sku_frontmatter q) (sku_body q) (sku_enabled_default q)" skill_to_out skill_view_first skill_patch
  by unfold_locales
    (auto simp: user_first_def skill_user_row_def skill_to_out_def skill_view_first_def skill_patch_def
      skill_values_def keeps_place_def split: if_splits)

interpretation instruction_entity: user_entity db_instructions "\<lambda>t d :: tenant_db. d\<lparr>db_instructions := t\<rparr>"
  "\<lambda>n u b. instruction_user_row n u (ini_slug b) (ini_body b) (ini_priority b)" ini_slug
  "\<lambda>q. instruction_values (inu_body q) (inu_priority q)" instruction_to_out instruction_view_first instruction_patch
  by unfold_locales
    (auto simp: user_first_def instruction_user_row_def instruction_to_out_def instruction_view_first_def
      instruction_patch_def instruction_values_def keeps_place_def split: if_splits)

interpretation command_entity: user_entity db_commands "\<lambda>t d :: tenant_db. d\<lparr>db_commands := t\<rparr>"
  new_command coi_slug "\<lambda>q. command_values (command_changes_of q)" command_to_out command_view_first command_patch
  by unfold_locales
    (auto simp: user_first_def new_command_def command_to_out_def command_view_first_def
      command_patch_def command_values_def command_changes_of_def keeps_place_def some_names_def split: if_splits option.splits)

lemma skill_routes:
  "create_skill = entity_post db_skills (\<lambda>t d. d\<lparr>db_skills := t\<rparr>)
     (\<lambda>n u b. skill_user_row n u (ski_slug b) (ski_frontmatter b) (ski_body b) (ski_enabled_default b)) skill_to_out"
  "get_skill = entity_read db_skills skill_to_out"
  "update_skill = entity_put db_skills (\<lambda>t d. d\<lparr>db_skills := t\<rparr>)
     (\<lambda>q. skill_values (sku_frontmatter q) (sku_body q) (sku_enabled_default q)) skill_to_out"
  "delete_skill = entity_drop db_skills (\<lambda>t d. d\<lparr>db_skills := t\<rparr>)"
  by (auto simp: fun_eq_iff entity_defs create_skill_def get_skill_def update_skill_def delete_skill_def on_skills_def
      skill_create_user_def skill_get_user_def skill_update_user_def skill_delete_user_def current_user_id_def)

lemma instruction_routes:
  "create_instruction = entity_post db_instructions (\<lambda>t d. d\<lparr>db_instructions := t\<rparr>)
     (\<lambda>n u b. instruction_user_row n u (ini_slug b) (ini_body b) (ini_priority b)) instruction_to_out"
  "get_instruction = entity_read db_instructions instruction_to_out"
  "update_instruction = entity_put db_instructions (\<lambda>t d. d\<lparr>db_instructions := t\<rparr>)
     (\<lambda>q. instruction_values (inu_body q) (inu_priority q)) instruction_to_out"
  "delete_instruction = entity_drop db_instructions (\<lambda>t d. d\<lparr>db_instructions := t\<rparr>)"
  by (auto simp: fun_eq_iff entity_defs create_instruction_def get_instruction_def update_instruction_def
      delete_instruction_def on_instructions_def instruction_create_user_def instruction_get_user_def
      instruction_update_user_def instruction_delete_user_def current_user_id_def)

lemma command_routes:
  "create_command = entity_post db_commands (\<lambda>t d. d\<lparr>db_commands := t\<rparr>) new_command command_to_out"
  "get_command = entity_read db_commands command_to_out"
  "update_command = entity_put db_commands (\<lambda>t d. d\<lparr>db_commands := t\<rparr>)
     (\<lambda>q. command_values (command_changes_of q)) command_to_out"
  "delete_command = entity_drop db_commands (\<lambda>t d. d\<lparr>db_commands := t\<rparr>)"
  by (auto simp: fun_eq_iff entity_defs create_command_def get_command_def update_command_def
      delete_command_def on_commands_def command_create_user_def command_get_user_def new_command_def command_changes_of_def
      command_update_user_def command_delete_user_def current_user_id_def)

lemma instructions_are_a_map:
  assumes "entity_good db_instructions sch u db" and "envs_ok sch u (entity_ids db_instructions db) (map snd rs)"
    and "run_with (resource_step create_instruction get_instruction update_instruction delete_instruction) rs db = (xs, db')"
  shows "run_with (map_step sch ini_slug instruction_view_first instruction_patch) (map fst rs)
      (entity_look db_instructions instruction_to_out u db) = (xs, entity_look db_instructions instruction_to_out u db')"
  using instruction_entity.run_refines [OF assms(1,2)] assms(3) by (simp add: instruction_routes)

lemma commands_are_a_map:
  assumes "entity_good db_commands sch u db" and "envs_ok sch u (entity_ids db_commands db) (map snd rs)"
    and "run_with (resource_step create_command get_command update_command delete_command) rs db = (xs, db')"
  shows "run_with (map_step sch coi_slug command_view_first command_patch) (map fst rs)
      (entity_look db_commands command_to_out u db) = (xs, entity_look db_commands command_to_out u db')"
  using command_entity.run_refines [OF assms(1,2)] assms(3) by (simp add: command_routes)

subsection \<open>Properties\<close>

text \<open>
  C20. Whatever sequence of requests a user sends to \<open>/v1/users/me/skills\<close>, the answers are those of
  a map from slugs to views: a POST adds a new slug and conflicts on a taken one, a PUT changes what
  it names, a DELETE removes, and a slug that is not there is not found.  Since revision \<open>0003\<close> the
  map accepts no new slug.
\<close>

theorem user_skills_are_a_map:
  assumes "entity_good db_skills sch u db" and "envs_ok sch u (entity_ids db_skills db) (map snd rs)"
    and "run_with (resource_step create_skill get_skill update_skill delete_skill) rs db = (xs, db')"
  shows "run_with (map_step sch ski_slug skill_view_first skill_patch) (map fst rs)
      (entity_look db_skills skill_to_out u db) = (xs, entity_look db_skills skill_to_out u db')"
  using skill_entity.run_refines [OF assms(1,2)] assms(3) by (simp add: skill_routes)

text \<open>
  C21. Since revision \<open>0003\<close> a POST of a skill, instruction, command or cron job, and of an MCP server
  without or with a sealable auth value, always answers 409 "already exists", whatever the tables hold.
\<close>

theorem user_creates_always_conflict:
  assumes "en_rev e = Schema_0003"
    and "case moi_auth_value m of None \<Rightarrow> True | Some v \<Rightarrow> \<exists>ct. seal (en_kms e) (uuid_str (en_user e)) v = Inr ct"
  shows "create_skill s e db = Inl (http_error CONFLICT) \<and> create_instruction i e db = Inl (http_error CONFLICT) \<and>
    create_command c e db = Inl (http_error CONFLICT) \<and> create_mcp m e db = Inl (http_error CONFLICT) \<and>
    create_cron j e db = Inl (http_error CONFLICT)"
proof -
  have "\<exists>ct. seal_option (en_kms e) (uuid_str (en_user e)) (moi_auth_value m) = Inr ct"
    using assms(2) by (auto simp: seal_option_def split: option.splits)
  then have "create_mcp m e db = Inl (http_error CONFLICT)"
    using assms(1)
    by (auto simp: create_mcp_def on_mcp_servers_def mcp_create_user_def current_user_id_def guc_of_def insert_row_def
        checked_def table_ok_def row_ok_def scope_agent_id_check_def)
  moreover have "create_skill s e db = Inl (http_error CONFLICT)"
    using assms(1)
    by (simp add: skill_routes entity_post_def insert_row_def checked_def table_ok_def row_ok_def
        scope_agent_id_check_def skill_user_row_def)
  moreover have "create_instruction i e db = Inl (http_error CONFLICT)"
    using assms(1)
    by (simp add: instruction_routes entity_post_def insert_row_def checked_def table_ok_def row_ok_def
        scope_agent_id_check_def instruction_user_row_def)
  moreover have "create_command c e db = Inl (http_error CONFLICT)"
    using assms(1)
    by (simp add: command_routes entity_post_def insert_row_def checked_def table_ok_def row_ok_def
        scope_agent_id_check_def new_command_def)
  moreover have "create_cron j e db = Inl (http_error CONFLICT)"
    using assms(1)
    by (simp add: create_cron_def on_cron_jobs_def cron_create_user_def current_user_id_def guc_of_def cron_checked_def
        cron_table_ok_def row_ok_def scope_agent_id_check_def cron_new_row_def Let_def)
  ultimately show ?thesis by simp
qed

subsection \<open>Witnesses\<close>

definition no_rows :: tenant_db where
  "no_rows = \<lparr>db_skills = [], db_instructions = [], db_commands = [], db_mcp_servers = [], db_opt_outs = [],
     db_cron_jobs = [], db_documents = [], db_accounts = \<lparr>db_agents = [], db_users = []\<rparr>, db_proposals = []\<rparr>"

definition some_kms :: kms where
  "some_kms = \<lparr>kms_encrypt = \<lambda>b x. Inr b, kms_decrypt = \<lambda>b x. Inr b\<rparr>"

definition some_env :: "schema_rev \<Rightarrow> uuid \<Rightarrow> route_env" where
  "some_env sch n = \<lparr>en_user = 7, en_rev = sch, en_fresh = n, en_now = 0, en_kms = some_kms\<rparr>"

definition some_skill :: skill_create_in where
  "some_skill = \<lparr>ski_slug = ''a'', ski_frontmatter = [], ski_body = ''b'', ski_enabled_default = True\<rparr>"

lemma no_rows_good: "entity_good db_skills sch u no_rows" "entity_ids db_skills no_rows = {}"
  "entity_look db_skills skill_to_out u no_rows = (\<lambda>s. None)"
  by (simp_all add: entity_good_def entity_ids_def entity_look_def no_rows_def table_ok_def all_current_def
      get_user_row_def current_user_id_def fun_eq_iff)

theorem user_skills_are_a_map_witness:
  "fst (run_with (resource_step create_skill get_skill update_skill delete_skill)
      [(Post some_skill, some_env Schema_0001 1), (Post some_skill, some_env Schema_0001 2),
       (Drop ''a'', some_env Schema_0001 3), (Read ''a'', some_env Schema_0001 4)] no_rows) =
    [Shown (skill_view_first some_skill), Refused (http_error CONFLICT), Gone, Refused (http_error NOT_FOUND)]"
proof -
  let ?rs = "[(Post some_skill, some_env Schema_0001 1), (Post some_skill, some_env Schema_0001 2),
    (Drop ''a'', some_env Schema_0001 3), (Read ''a'', some_env Schema_0001 4)]"
  obtain xs db' where run: "run_with (resource_step create_skill get_skill update_skill delete_skill) ?rs no_rows = (xs, db')"
    by (cases "run_with (resource_step create_skill get_skill update_skill delete_skill) ?rs no_rows")
  have "envs_ok Schema_0001 7 (entity_ids db_skills no_rows) (map snd ?rs)"
    by (simp add: envs_ok_def no_rows_good some_env_def)
  from user_skills_are_a_map [OF no_rows_good(1) this run]
  show ?thesis unfolding run by (simp add: no_rows_good(3) some_skill_def)
qed

theorem user_creates_always_conflict_witness:
  "create_skill some_skill (some_env Schema_0003 1) no_rows = Inl (http_error CONFLICT)"
  using user_creates_always_conflict [of "some_env Schema_0003 1"
      "\<lparr>moi_slug = [], moi_url = [], moi_auth_header = None, moi_auth_value = None, moi_cache_tools_list = True, moi_enabled = True\<rparr>"]
  by (simp add: some_env_def)

end
