(* ===== verification/Agent_Routes.thy ===== *)
theory Agent_Routes
  imports Route_Base
begin

text \<open>
  \<open>web/routes/agents.py\<close>: the agents of a user.  An id in the path is what \<open>UUID()\<close> makes of it,
  \<open>None\<close> where that raises.
\<close>

record agent_out =
  ao_id :: string
  ao_slug :: string
  ao_name :: string
  ao_persona :: string
  ao_default_model :: "string option"
  ao_permission_mode :: string
  ao_enabled_tools :: "string list"
  ao_rate_limit_per_min :: "int option"
  ao_cost_budget_usd_micro :: "int option"
  ao_is_default :: bool
  ao_archived_at :: "int option"
  ao_updated_at :: int

record agent_create_in =
  aci_slug :: string
  aci_name :: string
  aci_persona :: string
  aci_default_model :: "string option"
  aci_permission_mode :: string
  aci_enabled_tools :: "string list"
  aci_rate_limit_per_min :: "int option"
  aci_cost_budget_usd_micro :: "int option"

type_synonym agent_update_in = agent_changes

text \<open>
  What the models check of a body; the update model does not bound the name.  FastAPI answers an
  invalid body with status 422 and a body of its own.
\<close>

definition invalid_body :: exn where
  "invalid_body = HTTPError 422 []"

definition agent_create_valid :: "agent_create_in \<Rightarrow> bool" where
  "agent_create_valid b \<longleftrightarrow> 1 \<le> length (aci_slug b) \<and> length (aci_slug b) \<le> 80 \<and>
     1 \<le> length (aci_name b) \<and> length (aci_name b) \<le> 200 \<and> aci_permission_mode b \<in> set valid_modes"

definition agent_update_valid :: "agent_update_in \<Rightarrow> bool" where
  "agent_update_valid b \<longleftrightarrow> (case gc_permission_mode b of None \<Rightarrow> True | Some m \<Rightarrow> m \<in> set valid_modes)"

definition agent_to_out :: "agent_row \<Rightarrow> agent_out result" where
  "agent_to_out a =
     (if permission_mode a \<notin> set valid_modes then Inl ValueError
      else Inr \<lparr>ao_id = uuid_str (a_id a), ao_slug = a_slug a, ao_name = a_name a, ao_persona = persona a,
        ao_default_model = default_model a, ao_permission_mode = permission_mode a,
        ao_enabled_tools = enabled_tools a, ao_rate_limit_per_min = rate_limit_per_min a,
        ao_cost_budget_usd_micro = cost_budget_usd_micro a, ao_is_default = is_default a,
        ao_archived_at = archived_at a, ao_updated_at = a_updated_at a\<rparr>)"

definition agent_answer :: "(agent_row \<times> 'd) result \<Rightarrow> (agent_out \<times> 'd) result" where
  "agent_answer r = bind_result r (\<lambda>(a, db). bind_result (agent_to_out a) (\<lambda>out1. Inr (out1, db)))"

text \<open>\<open>ensure_default\<close> makes the default agent of a user who has none, under a fresh id.\<close>

definition list_agents :: "route_env \<Rightarrow> tenant_db \<Rightarrow> (agent_out list \<times> tenant_db) result" where
  "list_agents e db =
     bind_result (on_accounts (agent_ensure_default (guc_of e) (en_fresh e) (en_now e)) db) (\<lambda>(_, db').
     bind_result (agent_list_for_user (guc_of e) False (db_accounts db')) (\<lambda>rows.
     bind_result (map_result agent_to_out rows) (\<lambda>out1. Inr (out1, db'))))"

text \<open>The second id is that of the new agent.\<close>

definition create_agent :: "agent_create_in \<Rightarrow> uuid \<Rightarrow> route_env \<Rightarrow> tenant_db \<Rightarrow> (agent_out \<times> tenant_db) result" where
  "create_agent b fresh2 e db =
     (if \<not> agent_create_valid b then Inl invalid_body
      else bind_result (on_accounts (agent_ensure_default (guc_of e) (en_fresh e) (en_now e)) db) (\<lambda>(_, db').
        agent_answer (or_conflict (on_accounts (agent_create (guc_of e) fresh2 (en_now e)
          \<lparr>ga_slug = aci_slug b, ga_name = aci_name b, ga_persona = aci_persona b,
           ga_default_model = aci_default_model b, ga_permission_mode = aci_permission_mode b,
           ga_enabled_tools = aci_enabled_tools b, ga_rate_limit = aci_rate_limit_per_min b,
           ga_cost_budget = aci_cost_budget_usd_micro b, ga_is_default = False\<rparr>) db'))))"

definition get_agent :: "uuid option \<Rightarrow> route_env \<Rightarrow> tenant_db \<Rightarrow> agent_out result" where
  "get_agent ref e db = bind_result (found (agent_get (guc_of e) ref (db_accounts db))) agent_to_out"

text \<open>\<open>except ValueError: raise http_error(CONFLICT)\<close>, also for a malformed id.\<close>

definition value_conflict :: "'x result \<Rightarrow> 'x result" where
  "value_conflict r = (case r of Inl x \<Rightarrow> Inl (if x = ValueError then http_error CONFLICT else x) | Inr y \<Rightarrow> Inr y)"

definition update_agent :: "uuid option \<Rightarrow> agent_update_in \<Rightarrow> route_env \<Rightarrow> tenant_db \<Rightarrow> (agent_out \<times> tenant_db) result" where
  "update_agent ref b e db =
     (if \<not> agent_update_valid b then Inl invalid_body
      else agent_answer (or_missing (value_conflict
        (on_accounts (agent_update (guc_of e) (en_now e) ref b) db))))"

definition archive_agent :: "uuid option \<Rightarrow> route_env \<Rightarrow> tenant_db \<Rightarrow> (unit \<times> tenant_db) result" where
  "archive_agent ref e db =
     or_gone (value_conflict (on_accounts (agent_archive (guc_of e) (en_now e) ref) db))"

definition set_default_agent :: "uuid option \<Rightarrow> route_env \<Rightarrow> tenant_db \<Rightarrow> (agent_out \<times> tenant_db) result" where
  "set_default_agent ref e db =
     agent_answer (or_missing (on_accounts (agent_set_default (guc_of e) (en_now e) ref) db))"

end
