(* ===== verification/User_Isolation.thy ===== *)
theory User_Isolation
  imports User_Resources Agent_Routes
begin

text \<open>
  Every route under \<open>/v1/users/me\<close> that writes, as one relation, and what it leaves alone: the rows of
  other users and the official rows.
\<close>

subsection \<open>What a user does not own\<close>

definition other_agents :: "uuid \<Rightarrow> agent_db \<Rightarrow> agent_row list \<times> account list" where
  "other_agents u a = (filter (\<lambda>r. a_user r \<noteq> u) (db_agents a), filter (\<lambda>x. u_id x \<noteq> u) (db_users a))"

definition others ::
  "uuid \<Rightarrow> tenant_db \<Rightarrow> (skill_row list \<times> instruction_row list \<times> command_row list \<times> mcp_row list \<times> cron_row list) \<times>
     (user_document list \<times> opt_out list \<times> proposal_row list) \<times> agent_row list \<times> account list"
where
  "others u db =
     ((foreign_rows u (db_skills db), foreign_rows u (db_instructions db), foreign_rows u (db_commands db),
       foreign_rows u (db_mcp_servers db), filter (\<lambda>r. \<not> cron_user u r) (db_cron_jobs db)),
      (filter (\<lambda>r. ud_user r \<noteq> u) (db_documents db), filter (\<lambda>r. fst r \<noteq> u) (db_opt_outs db),
       filter (\<lambda>p. pr_user p \<noteq> u) (db_proposals db)), other_agents u (db_accounts db))"

lemma filter_update_other:
  "(\<And>r. p r \<Longrightarrow> \<not> Q r \<and> \<not> Q (f r)) \<Longrightarrow> filter Q (sql_update p f t) = filter Q t"
  by (induction t) (auto simp: sql_update_def)

lemma filter_delete_other: "(\<And>r. p r \<Longrightarrow> \<not> Q r) \<Longrightarrow> filter Q (sql_delete p t) = filter Q t"
  by (induction t) (auto simp: sql_delete_def)

subsection \<open>Layered tables\<close>

lemma insert_foreign: "insert_row sch r t = Inr (x, t') \<Longrightarrow> owned u r \<Longrightarrow> foreign_rows u t' = foreign_rows u t"
  by (auto simp: insert_row_def checked_eq_Inr foreign_rows_insert)

lemma on_skills_Inr: "on_skills f db = Inr (x, db') \<longleftrightarrow> (\<exists>t. f (db_skills db) = Inr (x, t) \<and> db' = db\<lparr>db_skills := t\<rparr>)"
  by (auto simp: on_skills_def result_eqs)

lemma on_instructions_Inr:
  "on_instructions f db = Inr (x, db') \<longleftrightarrow> (\<exists>t. f (db_instructions db) = Inr (x, t) \<and> db' = db\<lparr>db_instructions := t\<rparr>)"
  by (auto simp: on_instructions_def result_eqs)

lemma on_commands_Inr:
  "on_commands f db = Inr (x, db') \<longleftrightarrow> (\<exists>t. f (db_commands db) = Inr (x, t) \<and> db' = db\<lparr>db_commands := t\<rparr>)"
  by (auto simp: on_commands_def result_eqs)

lemma on_mcp_servers_Inr:
  "on_mcp_servers f db = Inr (x, db') \<longleftrightarrow> (\<exists>t. f (db_mcp_servers db) = Inr (x, t) \<and> db' = db\<lparr>db_mcp_servers := t\<rparr>)"
  by (auto simp: on_mcp_servers_def result_eqs)

lemma on_cron_jobs_Inr:
  "on_cron_jobs f db = Inr (x, db') \<longleftrightarrow> (\<exists>t. f (db_cron_jobs db) = Inr (x, t) \<and> db' = db\<lparr>db_cron_jobs := t\<rparr>)"
  by (auto simp: on_cron_jobs_def result_eqs)

lemma on_accounts_Inr:
  "on_accounts f db = Inr (x, db') \<longleftrightarrow> (\<exists>t. f (db_accounts db) = Inr (x, t) \<and> db' = db\<lparr>db_accounts := t\<rparr>)"
  by (auto simp: on_accounts_def result_eqs)

lemmas on_table_eqs = on_skills_Inr on_instructions_Inr on_commands_Inr on_mcp_servers_Inr on_cron_jobs_Inr on_accounts_Inr

lemmas user_columns = owned_def skill_user_row_def instruction_user_row_def skill_values_def instruction_values_def
  command_values_def

lemma skill_write_foreign:
  "skill_create_user sch n (Some u) s fm b en t = Inr (x, t') \<Longrightarrow> foreign_rows u t' = foreign_rows u t"
  "skill_update_user sch (Some u) s fm' b' en' t = Inr (y, t') \<Longrightarrow> foreign_rows u t' = foreign_rows u t"
  "skill_delete_user (Some u) s t = Inr (z, t') \<Longrightarrow> foreign_rows u t' = foreign_rows u t"
  by (auto simp: skill_create_user_def skill_update_user_def skill_delete_user_def current_user_id_def user_columns
      elim!: insert_foreign foreign_rows_update foreign_rows_delete split: if_splits)

lemma instruction_write_foreign:
  "instruction_create_user sch n (Some u) s b p t = Inr (x, t') \<Longrightarrow> foreign_rows u t' = foreign_rows u t"
  "instruction_update_user sch (Some u) s b' p' t = Inr (y, t') \<Longrightarrow> foreign_rows u t' = foreign_rows u t"
  "instruction_delete_user (Some u) s t = Inr (z, t') \<Longrightarrow> foreign_rows u t' = foreign_rows u t"
  by (auto simp: instruction_create_user_def instruction_update_user_def instruction_delete_user_def current_user_id_def
      user_columns elim!: insert_foreign foreign_rows_update foreign_rows_delete split: if_splits)

lemma command_write_foreign:
  "command_create_user sch n (Some u) s a t = Inr (x, t') \<Longrightarrow> foreign_rows u t' = foreign_rows u t"
  "command_update_user sch (Some u) s q t = Inr (y, t') \<Longrightarrow> foreign_rows u t' = foreign_rows u t"
  "command_delete_user (Some u) s t = Inr (z, t') \<Longrightarrow> foreign_rows u t' = foreign_rows u t"
  by (auto simp: command_create_user_def command_update_user_def command_delete_user_def current_user_id_def
      user_columns elim!: insert_foreign foreign_rows_update foreign_rows_delete split: if_splits)

lemma mcp_values_keep:
  "mcp_values K u a = Inr (Some f) \<Longrightarrow> scope (f x) = scope x \<and> user_id (f x) = user_id x"
  by (auto simp: mcp_values_def result_eqs split: if_splits)

lemma mcp_write_foreign:
  "mcp_create_user K sch n (Some u) s a t = Inr (x, t') \<Longrightarrow> foreign_rows u t' = foreign_rows u t"
  "mcp_update_user K sch (Some u) s q t = Inr (y, t') \<Longrightarrow> foreign_rows u t' = foreign_rows u t"
  "mcp_delete_user (Some u) s t = Inr (z, t') \<Longrightarrow> foreign_rows u t' = foreign_rows u t"
  "mcp_record_probe sch (Some u) s ok w t = Inr (v, t') \<Longrightarrow> foreign_rows u t' = foreign_rows u t"
proof -
  show "mcp_create_user K sch n (Some u) s a t = Inr (x, t') \<Longrightarrow> foreign_rows u t' = foreign_rows u t"
    by (auto simp: mcp_create_user_def current_user_id_def result_eqs owned_def elim!: insert_foreign)
  show "mcp_update_user K sch (Some u) s q t = Inr (y, t') \<Longrightarrow> foreign_rows u t' = foreign_rows u t"
    by (auto simp: mcp_update_user_def current_user_id_def result_eqs elim!: foreign_rows_update dest: mcp_values_keep)
  show "mcp_delete_user (Some u) s t = Inr (z, t') \<Longrightarrow> foreign_rows u t' = foreign_rows u t"
    by (auto simp: mcp_delete_user_def elim: foreign_rows_delete)
  show "mcp_record_probe sch (Some u) s ok w t = Inr (v, t') \<Longrightarrow> foreign_rows u t' = foreign_rows u t"
    by (auto simp: mcp_record_probe_def current_user_id_def checked_eq_Inr foreign_rows_def owned_def user_row_def
        intro!: filter_update_other)
qed

lemma cron_write_foreign:
  "cron_create_user sch n (Some u) s a t = Inr (x, t') \<Longrightarrow> filter (\<lambda>r. \<not> cron_user u r) t' = filter (\<lambda>r. \<not> cron_user u r) t"
  "cron_update_user sch (Some u) s q t = Inr (y, t') \<Longrightarrow> filter (\<lambda>r. \<not> cron_user u r) t' = filter (\<lambda>r. \<not> cron_user u r) t"
  "cron_delete_user (Some u) s t = Inr (z, t') \<Longrightarrow> filter (\<lambda>r. \<not> cron_user u r) t' = filter (\<lambda>r. \<not> cron_user u r) t"
  by (auto simp: cron_create_user_def cron_update_user_def cron_delete_user_def current_user_id_def cron_checked_def
      cron_new_row_def cron_user_def cron_update_where_def cron_values_def result_eqs Let_def
      intro!: filter_update_other filter_delete_other split: if_splits option.splits)

subsection \<open>Documents, opt-outs, proposals, accounts\<close>

lemma memory_put_others:
  "memory_put sch now (Some u) kind c t = Inr t' \<Longrightarrow> filter (\<lambda>r. ud_user r \<noteq> u) t' = filter (\<lambda>r. ud_user r \<noteq> u) t"
  by (auto simp: memory_put_def upsert_doc_def current_user_id_def result_eqs doc_key_def Let_def
      intro!: filter_update_other [unfolded sql_update_def] split: option.splits if_splits)

lemma opt_out_write_others:
  "opt_out_add (Some u) n s t = Inr t' \<Longrightarrow> filter (\<lambda>r. fst r \<noteq> u) t' = filter (\<lambda>r. fst r \<noteq> u) t"
  "opt_out_remove (Some u) n s t = Inr (ok, t') \<Longrightarrow> filter (\<lambda>r. fst r \<noteq> u) t' = filter (\<lambda>r. fst r \<noteq> u) t"
proof -
  show "opt_out_add (Some u) n s t = Inr t' \<Longrightarrow> filter (\<lambda>r. fst r \<noteq> u) t' = filter (\<lambda>r. fst r \<noteq> u) t"
    by (auto simp: opt_out_add_def current_user_id_def split: if_splits)
  show "opt_out_remove (Some u) n s t = Inr (ok, t') \<Longrightarrow> filter (\<lambda>r. fst r \<noteq> u) t' = filter (\<lambda>r. fst r \<noteq> u) t"
    using filter_delete_other [of "\<lambda>r. r = (u, n, s)" "\<lambda>r. fst r \<noteq> u" t]
    by (auto simp: opt_out_remove_def current_user_id_def sql_delete_def split: if_splits)
qed

lemma settings_update_others:
  "settings_update (Some u) m cl mode a = Inr (x, a') \<Longrightarrow> other_agents u a' = other_agents u a"
  by (auto simp: settings_update_def current_user_id_def result_eqs other_agents_def
      intro!: filter_update_other split: if_splits)

lemma stamp_default_others: "other_agents u (stamp_default u i a) = other_agents u a"
  by (simp add: stamp_default_def other_agents_def filter_update_other)

lemma agents_checked_others:
  "agents_checked x t a = Inr (y, a') \<Longrightarrow> filter (\<lambda>r. a_user r \<noteq> u) t = filter (\<lambda>r. a_user r \<noteq> u) (db_agents a) \<Longrightarrow>
   other_agents u a' = other_agents u a"
  by (auto simp: agents_checked_def other_agents_def split: if_splits)

lemma agent_create_others:
  "agent_create (Some u) n now g a = Inr (x, a') \<Longrightarrow> other_agents u a' = other_agents u a"
  by (auto simp: agent_create_def current_user_id_def result_eqs Let_def elim!: agents_checked_others)

lemma agent_ensure_default_others:
  "agent_ensure_default (Some u) n now a = Inr (x, a') \<Longrightarrow> other_agents u a' = other_agents u a"
  by (auto simp: agent_ensure_default_def current_user_id_def result_eqs stamp_default_others
      dest: agent_create_others split: option.splits)

lemma agent_update_others:
  assumes "agent_update (Some u) now ref c a = Inr (x, a')"
  shows "other_agents u a' = other_agents u a"
proof -
  have "filter (\<lambda>r. a_user r \<noteq> u) (sql_update (own_agent u i) (apply_changes now c) (db_agents a))
      = filter (\<lambda>r. a_user r \<noteq> u) (db_agents a)" for i
    by (rule filter_update_other) (simp add: own_agent_def apply_changes_def)
  with assms show ?thesis
    by (auto simp: agent_update_def current_user_id_def result_eqs Let_def elim!: agents_checked_others split: if_splits)
qed

lemma agent_archive_others:
  assumes "agent_archive (Some u) now ref a = Inr (x, a')"
  shows "other_agents u a' = other_agents u a"
proof -
  have "filter (\<lambda>r. a_user r \<noteq> u) (sql_update (own_agent u i) (\<lambda>r. r\<lparr>archived_at := Some now, a_updated_at := now\<rparr>) (db_agents a))
      = filter (\<lambda>r. a_user r \<noteq> u) (db_agents a)" for i
    by (rule filter_update_other) (simp add: own_agent_def)
  with assms show ?thesis
    by (auto simp: agent_archive_def current_user_id_def result_eqs elim!: agents_checked_others split: if_splits option.splits)
qed

lemma agent_set_default_others:
  assumes "agent_set_default (Some u) now ref a = Inr (x, a')"
  shows "other_agents u a' = other_agents u a"
proof -
  have clear: "filter (\<lambda>r. a_user r \<noteq> u) (sql_update (\<lambda>r. a_user r = u \<and> is_default r \<and> a_id r \<noteq> i)
      (\<lambda>r. r\<lparr>is_default := False, a_updated_at := now\<rparr>) t) = filter (\<lambda>r. a_user r \<noteq> u) t" for i t
    by (rule filter_update_other) simp
  have mark: "filter (\<lambda>r. a_user r \<noteq> u) (sql_update (own_agent u i) (\<lambda>r. r\<lparr>is_default := True, a_updated_at := now\<rparr>) t)
      = filter (\<lambda>r. a_user r \<noteq> u) t" for i t
    by (rule filter_update_other) (simp add: own_agent_def)
  from assms show ?thesis
    by (auto simp: agent_set_default_def current_user_id_def result_eqs stamp_default_others clear mark
        dest!: agents_checked_others [where u = u] split: if_splits option.splits)
qed

text \<open>The ids of proposals are a primary key.\<close>

definition proposal_ids_ok :: "tenant_db \<Rightarrow> bool" where
  "proposal_ids_ok db \<longleftrightarrow> distinct (map pr_id (db_proposals db))"

lemma decide_proposal_others:
  assumes "proposal_ids_ok db" and "p \<in> set (db_proposals db)" and "pr_user p = u"
    and "decide_proposal st now p db = (q, db')"
  shows "others u db' = others u db \<and> proposal_ids_ok db'"
proof -
  have own: "pr_user r = u" if "r \<in> set (db_proposals db)" "pr_id r = pr_id p" for r
  proof -
    have "r = p" using assms(1,2) that by (auto simp: proposal_ids_ok_def distinct_map inj_on_def)
    with assms(3) show ?thesis by simp
  qed
  have "filter (\<lambda>r. pr_user r \<noteq> u) (sql_update (\<lambda>r. pr_id r = pr_id p) f xs) = filter (\<lambda>r. pr_user r \<noteq> u) xs"
    if "set xs \<subseteq> set (db_proposals db)" "\<And>r. pr_user (f r) = pr_user r" for f xs
    using that(1) by (induction xs) (auto simp: sql_update_def that(2) dest: own)
  moreover have "map pr_id (sql_update (\<lambda>r. pr_id r = pr_id p) (\<lambda>r. r\<lparr>pr_status := st, pr_decided_at := Some now\<rparr>) xs)
      = map pr_id xs" for xs :: "proposal_row list"
    by (simp add: sql_update_def)
  ultimately show ?thesis
    using assms(1,4) by (auto simp: decide_proposal_def others_def proposal_ids_ok_def)
qed

lemma proposal_get_own:
  assumes "proposal_get (Some u) ref t = Inr (Some p)"
  shows "p \<in> set t \<and> pr_user p = u"
proof -
  obtain i where "filter (own_proposal u i) t = [p]"
    using assms by (cases ref) (simp_all add: proposal_get_def parsed_uuid_def current_user_id_def)
  from filter_singletonD [OF this] show ?thesis by (simp add: own_proposal_def)
qed

lemma pending_proposal_own:
  assumes "pending_proposal (Some u) ref t = Inr p"
  shows "p \<in> set t \<and> pr_user p = u"
proof -
  have "proposal_get (Some u) ref t = Inr (Some p)"
    using assms by (auto simp: pending_proposal_def result_eqs split: option.split_asm if_split_asm)
  then show ?thesis by (rule proposal_get_own)
qed

lemma proposal_answer_Inr:
  "proposal_answer r = Inr (x, db) \<Longrightarrow> \<exists>p. r = Inr (p, db)"
  by (auto simp: proposal_answer_def result_eqs split: sum.splits)

lemma proposal_approve_others:
  assumes "proposal_approve ref e db = Inr (p, db')" and "proposal_ids_ok db" and "en_user e = u"
  shows "others u db' = others u db \<and> proposal_ids_ok db'"
proof -
  obtain q t x where q: "pending_proposal (Some u) ref (db_proposals db) = Inr q"
    and t: "skill_create_user (en_rev e) (en_fresh e) (Some u) (pr_skill_slug q)
      [(''slug'', JStr (pr_skill_slug q)), (''source'', JStr ''evolve'')] (pr_body q) True (db_skills db) = Inr (x, t)"
    and d: "decide_proposal ''approved'' (en_now e) q (db\<lparr>db_skills := t\<rparr>) = (p, db')"
    using assms(1,3) by (auto simp: proposal_approve_def guc_of_def result_eqs on_skills_Inr split: if_splits)
  have "others u (db\<lparr>db_skills := t\<rparr>) = others u db" using skill_write_foreign(1) [OF t] by (simp add: others_def)
  with decide_proposal_others [OF _ _ _ d, of u] pending_proposal_own [OF q] assms(2) show ?thesis
    by (simp add: proposal_ids_ok_def)
qed

lemma proposal_reject_others:
  assumes "proposal_reject ref e db = Inr (p, db')" and "proposal_ids_ok db" and "en_user e = u"
  shows "others u db' = others u db \<and> proposal_ids_ok db'"
proof -
  obtain q where q: "pending_proposal (Some u) ref (db_proposals db) = Inr q"
    and d: "decide_proposal ''rejected'' (en_now e) q db = (p, db')"
    using assms(1,3) by (auto simp: proposal_reject_def guc_of_def result_eqs)
  from decide_proposal_others [OF assms(2) _ _ d, of u] pending_proposal_own [OF q] show ?thesis by simp
qed

subsection \<open>The writes of a user\<close>

inductive user_write :: "uuid \<Rightarrow> tenant_db \<Rightarrow> tenant_db \<Rightarrow> bool" for u where
  uw_memory: "put_memory b e db = Inr (r, db') \<Longrightarrow> en_user e = u \<Longrightarrow> user_write u db db'"
| uw_user_doc: "put_user_doc b e db = Inr (r, db') \<Longrightarrow> en_user e = u \<Longrightarrow> user_write u db db'"
| uw_settings: "put_settings sb e db = Inr (sr, db') \<Longrightarrow> en_user e = u \<Longrightarrow> user_write u db db'"
| uw_create_skill: "create_skill kb e db = Inr (kr, db') \<Longrightarrow> en_user e = u \<Longrightarrow> user_write u db db'"
| uw_update_skill: "update_skill s kq e db = Inr (kr, db') \<Longrightarrow> en_user e = u \<Longrightarrow> user_write u db db'"
| uw_delete_skill: "delete_skill s e db = Inr (x, db') \<Longrightarrow> en_user e = u \<Longrightarrow> user_write u db db'"
| uw_create_instruction: "create_instruction ib e db = Inr (ir, db') \<Longrightarrow> en_user e = u \<Longrightarrow> user_write u db db'"
| uw_update_instruction: "update_instruction s iq e db = Inr (ir, db') \<Longrightarrow> en_user e = u \<Longrightarrow> user_write u db db'"
| uw_delete_instruction: "delete_instruction s e db = Inr (x, db') \<Longrightarrow> en_user e = u \<Longrightarrow> user_write u db db'"
| uw_create_command: "create_command cb e db = Inr (cr, db') \<Longrightarrow> en_user e = u \<Longrightarrow> user_write u db db'"
| uw_update_command: "update_command s cq e db = Inr (cr, db') \<Longrightarrow> en_user e = u \<Longrightarrow> user_write u db db'"
| uw_delete_command: "delete_command s e db = Inr (x, db') \<Longrightarrow> en_user e = u \<Longrightarrow> user_write u db db'"
| uw_create_mcp: "create_mcp mb e db = Inr (mr, db') \<Longrightarrow> en_user e = u \<Longrightarrow> user_write u db db'"
| uw_update_mcp: "update_mcp s mq e db = Inr (mr, db') \<Longrightarrow> en_user e = u \<Longrightarrow> user_write u db db'"
| uw_delete_mcp: "delete_mcp s e db = Inr (x, db') \<Longrightarrow> en_user e = u \<Longrightarrow> user_write u db db'"
| uw_probe: "probe_mcp head s e db = Inr (pr, db') \<Longrightarrow> en_user e = u \<Longrightarrow> user_write u db db'"
| uw_create_cron: "create_cron jb e db = Inr (jr, db') \<Longrightarrow> en_user e = u \<Longrightarrow> user_write u db db'"
| uw_update_cron: "update_cron s jq e db = Inr (jr, db') \<Longrightarrow> en_user e = u \<Longrightarrow> user_write u db db'"
| uw_delete_cron: "delete_cron s e db = Inr (x, db') \<Longrightarrow> en_user e = u \<Longrightarrow> user_write u db db'"
| uw_opt_out: "add_opt_out ob e db = Inr (orep, db') \<Longrightarrow> en_user e = u \<Longrightarrow> user_write u db db'"
| uw_opt_in: "remove_opt_out n s e db = Inr (x, db') \<Longrightarrow> en_user e = u \<Longrightarrow> user_write u db db'"
| uw_approve: "approve_skill_proposal ref e db = Inr (ar, db') \<Longrightarrow> en_user e = u \<Longrightarrow> user_write u db db'"
| uw_reject: "reject_skill_proposal ref e db = Inr (ar, db') \<Longrightarrow> en_user e = u \<Longrightarrow> user_write u db db'"
| uw_list_agents: "list_agents e db = Inr (lr, db') \<Longrightarrow> en_user e = u \<Longrightarrow> user_write u db db'"
| uw_create_agent: "create_agent gb n2 e db = Inr (gr, db') \<Longrightarrow> en_user e = u \<Longrightarrow> user_write u db db'"
| uw_update_agent: "update_agent ref gq e db = Inr (gr, db') \<Longrightarrow> en_user e = u \<Longrightarrow> user_write u db db'"
| uw_archive_agent: "archive_agent ref e db = Inr (x, db') \<Longrightarrow> en_user e = u \<Longrightarrow> user_write u db db'"
| uw_default_agent: "set_default_agent ref e db = Inr (gr, db') \<Longrightarrow> en_user e = u \<Longrightarrow> user_write u db db'"

lemma put_document_others:
  "put_document kind b e db = Inr (r, db') \<Longrightarrow> others (en_user e) db' = others (en_user e) db \<and> db_proposals db' = db_proposals db"
  by (auto simp: put_document_def guc_of_def others_def dest: memory_put_others split: sum.splits)

lemma put_settings_others:
  "put_settings b e db = Inr (r, db') \<Longrightarrow> others (en_user e) db' = others (en_user e) db \<and> db_proposals db' = db_proposals db"
  by (auto simp: put_settings_def guc_of_def others_def on_accounts_Inr result_eqs dest!: settings_update_others split: sum.splits)

lemma opt_out_others:
  "add_opt_out b e db = Inr (r, db') \<Longrightarrow> others (en_user e) db' = others (en_user e) db \<and> db_proposals db' = db_proposals db"
  "remove_opt_out n s e db = Inr (x, db') \<Longrightarrow> others (en_user e) db' = others (en_user e) db \<and> db_proposals db' = db_proposals db"
  by (auto simp: add_opt_out_def remove_opt_out_def guc_of_def others_def result_eqs dest: opt_out_write_others split: if_splits)

lemma skill_route_others:
  "create_skill kb e db = Inr (kr, db') \<Longrightarrow> others (en_user e) db' = others (en_user e) db \<and> db_proposals db' = db_proposals db"
  "update_skill s kq e db = Inr (kr, db') \<Longrightarrow> others (en_user e) db' = others (en_user e) db \<and> db_proposals db' = db_proposals db"
  "delete_skill s e db = Inr (x, db') \<Longrightarrow> others (en_user e) db' = others (en_user e) db \<and> db_proposals db' = db_proposals db"
  by (auto simp: create_skill_def update_skill_def delete_skill_def answer_Inr on_skills_Inr guc_of_def others_def
      dest: skill_write_foreign)

lemma instruction_route_others:
  "create_instruction ib e db = Inr (ir, db') \<Longrightarrow> others (en_user e) db' = others (en_user e) db \<and> db_proposals db' = db_proposals db"
  "update_instruction s iq e db = Inr (ir, db') \<Longrightarrow> others (en_user e) db' = others (en_user e) db \<and> db_proposals db' = db_proposals db"
  "delete_instruction s e db = Inr (x, db') \<Longrightarrow> others (en_user e) db' = others (en_user e) db \<and> db_proposals db' = db_proposals db"
  by (auto simp: create_instruction_def update_instruction_def delete_instruction_def answer_Inr on_instructions_Inr
      guc_of_def others_def dest: instruction_write_foreign)

lemma command_route_others:
  "create_command cb e db = Inr (cr, db') \<Longrightarrow> others (en_user e) db' = others (en_user e) db \<and> db_proposals db' = db_proposals db"
  "update_command s cq e db = Inr (cr, db') \<Longrightarrow> others (en_user e) db' = others (en_user e) db \<and> db_proposals db' = db_proposals db"
  "delete_command s e db = Inr (x, db') \<Longrightarrow> others (en_user e) db' = others (en_user e) db \<and> db_proposals db' = db_proposals db"
  by (auto simp: create_command_def update_command_def delete_command_def answer_Inr on_commands_Inr guc_of_def others_def
      dest: command_write_foreign)

lemma mcp_route_others:
  "create_mcp mb e db = Inr (mr, db') \<Longrightarrow> others (en_user e) db' = others (en_user e) db \<and> db_proposals db' = db_proposals db"
  "update_mcp s mq e db = Inr (mr, db') \<Longrightarrow> others (en_user e) db' = others (en_user e) db \<and> db_proposals db' = db_proposals db"
  "delete_mcp s e db = Inr (x, db') \<Longrightarrow> others (en_user e) db' = others (en_user e) db \<and> db_proposals db' = db_proposals db"
  "probe_mcp head s e db = Inr (pr, db') \<Longrightarrow> others (en_user e) db' = others (en_user e) db \<and> db_proposals db' = db_proposals db"
  by (auto simp: create_mcp_def update_mcp_def delete_mcp_def probe_mcp_def answer_Inr on_mcp_servers_Inr guc_of_def
      others_def result_eqs dest: mcp_write_foreign)

lemma cron_route_others:
  "create_cron jb e db = Inr (jr, db') \<Longrightarrow> others (en_user e) db' = others (en_user e) db \<and> db_proposals db' = db_proposals db"
  "update_cron s jq e db = Inr (jr, db') \<Longrightarrow> others (en_user e) db' = others (en_user e) db \<and> db_proposals db' = db_proposals db"
  "delete_cron s e db = Inr (x, db') \<Longrightarrow> others (en_user e) db' = others (en_user e) db \<and> db_proposals db' = db_proposals db"
  by (auto simp: create_cron_def update_cron_def delete_cron_def answer_Inr on_cron_jobs_Inr guc_of_def others_def
      dest: cron_write_foreign)

lemma value_conflict_Inr: "value_conflict r = Inr x \<longleftrightarrow> r = Inr x"
  by (simp add: value_conflict_def split: sum.splits)

lemma on_accounts_others:
  assumes "on_accounts f db = Inr (x, db')" and "\<And>a y a'. f a = Inr (y, a') \<Longrightarrow> other_agents u a' = other_agents u a"
  shows "others u db' = others u db \<and> db_proposals db' = db_proposals db"
  using assms by (auto simp: on_accounts_Inr others_def)

lemma agent_answer_Inr: "agent_answer r = Inr (x, db) \<Longrightarrow> \<exists>a. r = Inr (a, db)"
  by (auto simp: agent_answer_def result_eqs)

lemma agent_route_others:
  "list_agents e db = Inr (lr, db') \<Longrightarrow> others (en_user e) db' = others (en_user e) db \<and> db_proposals db' = db_proposals db"
  "update_agent ref gq e db = Inr (gr, db') \<Longrightarrow> others (en_user e) db' = others (en_user e) db \<and> db_proposals db' = db_proposals db"
  "archive_agent ref e db = Inr (x, db') \<Longrightarrow> others (en_user e) db' = others (en_user e) db \<and> db_proposals db' = db_proposals db"
  "set_default_agent ref e db = Inr (gr, db') \<Longrightarrow> others (en_user e) db' = others (en_user e) db \<and> db_proposals db' = db_proposals db"
proof -
  assume "list_agents e db = Inr (lr, db')"
  then obtain y where "on_accounts (agent_ensure_default (Some (en_user e)) (en_fresh e) (en_now e)) db = Inr (y, db')"
    by (auto simp: list_agents_def guc_of_def result_eqs)
  from on_accounts_others [OF this agent_ensure_default_others]
  show "others (en_user e) db' = others (en_user e) db \<and> db_proposals db' = db_proposals db" .
next
  assume "update_agent ref gq e db = Inr (gr, db')"
  then obtain y where "on_accounts (agent_update (Some (en_user e)) (en_now e) ref gq) db = Inr (y, db')"
    by (auto simp: update_agent_def guc_of_def value_conflict_Inr dest!: agent_answer_Inr split: if_splits)
  from on_accounts_others [OF this agent_update_others]
  show "others (en_user e) db' = others (en_user e) db \<and> db_proposals db' = db_proposals db" .
next
  assume "archive_agent ref e db = Inr (x, db')"
  then have "on_accounts (agent_archive (Some (en_user e)) (en_now e) ref) db = Inr (True, db')"
    by (simp add: archive_agent_def guc_of_def value_conflict_Inr)
  from on_accounts_others [OF this agent_archive_others]
  show "others (en_user e) db' = others (en_user e) db \<and> db_proposals db' = db_proposals db" .
next
  assume "set_default_agent ref e db = Inr (gr, db')"
  then obtain y where "on_accounts (agent_set_default (Some (en_user e)) (en_now e) ref) db = Inr (y, db')"
    by (auto simp: set_default_agent_def guc_of_def dest!: agent_answer_Inr)
  from on_accounts_others [OF this agent_set_default_others]
  show "others (en_user e) db' = others (en_user e) db \<and> db_proposals db' = db_proposals db" .
qed

lemma create_agent_others:
  assumes "create_agent gb n2 e db = Inr (gr, db')"
  shows "others (en_user e) db' = others (en_user e) db \<and> db_proposals db' = db_proposals db"
proof -
  obtain x y db1 g where one: "on_accounts (agent_ensure_default (Some (en_user e)) (en_fresh e) (en_now e)) db = Inr (x, db1)"
    and two: "on_accounts (agent_create (Some (en_user e)) n2 (en_now e) g) db1 = Inr (y, db')"
    using assms unfolding create_agent_def guc_of_def
    by (force simp: result_eqs dest!: agent_answer_Inr split: if_splits)
  from on_accounts_others [OF one agent_ensure_default_others] on_accounts_others [OF two agent_create_others]
  show ?thesis by simp
qed

lemma proposal_route_others:
  "approve_skill_proposal ref e db = Inr (ar, db') \<Longrightarrow> proposal_ids_ok db \<Longrightarrow>
     others (en_user e) db' = others (en_user e) db \<and> proposal_ids_ok db'"
  "reject_skill_proposal ref e db = Inr (ar, db') \<Longrightarrow> proposal_ids_ok db \<Longrightarrow>
     others (en_user e) db' = others (en_user e) db \<and> proposal_ids_ok db'"
  unfolding approve_skill_proposal_def reject_skill_proposal_def
  by (drule proposal_answer_Inr; elim exE; drule proposal_approve_others proposal_reject_others; simp)+

lemmas route_others = put_document_others put_settings_others opt_out_others skill_route_others instruction_route_others
  command_route_others mcp_route_others cron_route_others agent_route_others create_agent_others

lemma user_write_others:
  assumes "user_write u db db'" and "proposal_ids_ok db"
  shows "others u db' = others u db \<and> proposal_ids_ok db'"
  using assms
  by (cases rule: user_write.cases)
    (auto simp: put_memory_def put_user_doc_def proposal_ids_ok_def
      dest!: route_others dest: proposal_route_others [unfolded proposal_ids_ok_def])

subsection \<open>Properties\<close>

text \<open>
  C22. Whatever a user sends to the routes under \<open>/v1/users/me\<close>, in any order, the rows of every other
  user and the official rows of all tables, and the accounts and agents of other users, stay as they
  were.
\<close>

theorem user_routes_isolated:
  assumes "(user_write u)\<^sup>*\<^sup>* db db'" and "proposal_ids_ok db"
  shows "others u db' = others u db"
proof -
  have "others u db' = others u db \<and> proposal_ids_ok db'"
    using assms by (induction rule: rtranclp_induct) (use user_write_others in \<open>metis+\<close>)
  then show ?thesis ..
qed

theorem user_routes_isolated_witness:
  "\<exists>db'. user_write 7 no_rows db' \<and> db_skills db' \<noteq> [] \<and> others 7 db' = others 7 no_rows"
proof -
  obtain v db' where create: "create_skill some_skill (some_env Schema_0001 1) no_rows = Inr (v, db')"
    and rows: "db_skills db' \<noteq> []"
    by (simp add: create_skill_def on_skills_def skill_create_user_def guc_of_def current_user_id_def insert_row_def checked_def
        table_ok_def no_rows_def some_skill_def some_env_def skill_user_row_def row_ok_def scope_check_def
        scope_user_id_check_def official_current_def user_current_def)
  have "user_write 7 no_rows db'" using create by (rule uw_create_skill) (simp add: some_env_def)
  moreover have "others 7 db' = others 7 no_rows"
    by (rule user_routes_isolated [OF r_into_rtranclp])
      (use calculation in \<open>simp_all add: proposal_ids_ok_def no_rows_def\<close>)
  ultimately show ?thesis using rows by blast
qed

end
