(* ===== verification/User_Types.thy ===== *)
theory User_Types
  imports User_Isolation
begin

text \<open>
  The response models narrow some columns to literals: a permission mode is one of three words, the
  status of a proposal one of four.  The routes keep the stored values within them, so no answer
  fails on its way out.
\<close>

definition modes_valid :: "agent_db \<Rightarrow> bool" where
  "modes_valid a \<longleftrightarrow> list_all (\<lambda>x. us_permission_mode (u_settings x) \<in> set valid_modes) (db_users a) \<and>
     list_all (\<lambda>r. permission_mode r \<in> set valid_modes) (db_agents a)"

definition literals_valid :: "tenant_db \<Rightarrow> bool" where
  "literals_valid db \<longleftrightarrow> modes_valid (db_accounts db) \<and> list_all (\<lambda>p. pr_status p \<in> set VALID_STATUSES) (db_proposals db)"

subsection \<open>Accounts\<close>

lemma agents_checked_modes: "agents_checked x t a = Inr (y, a') \<Longrightarrow> modes_valid a \<Longrightarrow> modes_valid a'"
  by (auto simp: agents_checked_def agents_ok_def modes_valid_def split: if_splits)

lemma stamp_default_modes [simp]: "modes_valid (stamp_default u i a) = modes_valid a"
proof -
  have "list_all P (sql_update p f xs) = list_all P xs" if "\<And>x. P (f x) = P x" for P :: "account \<Rightarrow> bool" and p f xs
    using that by (induction xs) (auto simp: sql_update_def)
  then show ?thesis by (simp add: modes_valid_def stamp_default_def)
qed

lemma agent_create_modes: "agent_create guc n now g a = Inr (x, a') \<Longrightarrow> modes_valid a \<Longrightarrow> modes_valid a'"
  by (auto simp: agent_create_def result_eqs Let_def elim!: agents_checked_modes)

lemma agent_ensure_default_modes: "agent_ensure_default guc n now a = Inr (x, a') \<Longrightarrow> modes_valid a \<Longrightarrow> modes_valid a'"
  by (auto simp: agent_ensure_default_def result_eqs dest: agent_create_modes split: option.splits)

lemma agent_update_modes: "agent_update guc now ref c a = Inr (x, a') \<Longrightarrow> modes_valid a \<Longrightarrow> modes_valid a'"
  by (auto simp: agent_update_def result_eqs Let_def elim!: agents_checked_modes split: if_splits)

lemma agent_archive_modes: "agent_archive guc now ref a = Inr (x, a') \<Longrightarrow> modes_valid a \<Longrightarrow> modes_valid a'"
  by (auto simp: agent_archive_def result_eqs elim!: agents_checked_modes split: if_splits option.splits)

lemma agent_set_default_modes: "agent_set_default guc now ref a = Inr (x, a') \<Longrightarrow> modes_valid a \<Longrightarrow> modes_valid a'"
  by (auto simp: agent_set_default_def result_eqs dest!: agents_checked_modes split: if_splits option.splits)

lemma settings_update_modes:
  assumes "settings_update guc m cl mode a = Inr (x, a')" and "modes_valid a"
  shows "modes_valid a'"
proof -
  have "case mode of None \<Rightarrow> True | Some w \<Rightarrow> w \<in> set valid_modes"
    using assms(1) by (auto simp: settings_update_def result_eqs check_mode_def split: option.splits if_splits)
  with assms show ?thesis
    by (auto simp: settings_update_def result_eqs modes_valid_def list_all_iff sql_update_def keep_or_def
        split: if_splits option.splits)
qed

lemma on_accounts_literals:
  assumes "on_accounts f db = Inr (x, db')" and "\<And>y a'. f (db_accounts db) = Inr (y, a') \<Longrightarrow> modes_valid (db_accounts db) \<Longrightarrow> modes_valid a'"
    and "literals_valid db"
  shows "literals_valid db'"
  using assms by (auto simp: on_accounts_Inr literals_valid_def)

subsection \<open>Routes that touch neither accounts nor proposals\<close>

definition same_literals :: "tenant_db \<Rightarrow> tenant_db \<Rightarrow> bool" where
  "same_literals db db' \<longleftrightarrow> db_accounts db' = db_accounts db \<and> db_proposals db' = db_proposals db"

lemma table_routes_literals:
  "put_document kind b e db = Inr (r, db') \<Longrightarrow> same_literals db db'"
  "create_skill kb e db = Inr (kr, db') \<Longrightarrow> same_literals db db'"
  "update_skill s kq e db = Inr (kr, db') \<Longrightarrow> same_literals db db'"
  "delete_skill s e db = Inr (x, db') \<Longrightarrow> same_literals db db'"
  "create_instruction ib e db = Inr (ir, db') \<Longrightarrow> same_literals db db'"
  "update_instruction s iq e db = Inr (ir, db') \<Longrightarrow> same_literals db db'"
  "delete_instruction s e db = Inr (x, db') \<Longrightarrow> same_literals db db'"
  "create_command cb e db = Inr (cr, db') \<Longrightarrow> same_literals db db'"
  "update_command s cq e db = Inr (cr, db') \<Longrightarrow> same_literals db db'"
  "delete_command s e db = Inr (x, db') \<Longrightarrow> same_literals db db'"
  by (auto simp: put_document_def create_skill_def update_skill_def delete_skill_def create_instruction_def
      update_instruction_def delete_instruction_def create_command_def update_command_def delete_command_def
      answer_Inr on_table_eqs same_literals_def split: sum.splits)

lemma more_routes_literals:
  "create_mcp mb e db = Inr (mr, db') \<Longrightarrow> same_literals db db'"
  "update_mcp s mq e db = Inr (mr, db') \<Longrightarrow> same_literals db db'"
  "delete_mcp s e db = Inr (x, db') \<Longrightarrow> same_literals db db'"
  "probe_mcp head s e db = Inr (pr, db') \<Longrightarrow> same_literals db db'"
  "create_cron jb e db = Inr (jr, db') \<Longrightarrow> same_literals db db'"
  "update_cron s jq e db = Inr (jr, db') \<Longrightarrow> same_literals db db'"
  "delete_cron s e db = Inr (x, db') \<Longrightarrow> same_literals db db'"
  "add_opt_out ob e db = Inr (orep, db') \<Longrightarrow> same_literals db db'"
  "remove_opt_out n s e db = Inr (x, db') \<Longrightarrow> same_literals db db'"
  by (auto simp: create_mcp_def update_mcp_def delete_mcp_def probe_mcp_def create_cron_def update_cron_def delete_cron_def
      add_opt_out_def remove_opt_out_def answer_Inr on_table_eqs result_eqs same_literals_def split: if_splits)

lemma same_literals_valid: "same_literals db db' \<Longrightarrow> literals_valid db \<Longrightarrow> literals_valid db'"
  by (simp add: same_literals_def literals_valid_def)

subsection \<open>Routes that do\<close>

lemma settings_literals:
  assumes "put_settings b e db = Inr (r, db')" and "literals_valid db"
  shows "literals_valid db'"
proof -
  obtain y where "on_accounts (settings_update (guc_of e) (si_default_model b) (si_clear_default_model b)
      (si_permission_mode b)) db = Inr (y, db')"
    using assms(1) by (auto simp: put_settings_def result_eqs split: sum.splits)
  then show ?thesis by (rule on_accounts_literals [OF _ settings_update_modes assms(2)])
qed

lemma agent_routes_literals:
  assumes "literals_valid db"
  shows "list_agents e db = Inr (lr, db') \<Longrightarrow> literals_valid db'"
    and "create_agent gb n2 e db = Inr (gr, db') \<Longrightarrow> literals_valid db'"
    and "update_agent ref gq e db = Inr (gr, db') \<Longrightarrow> literals_valid db'"
    and "archive_agent ref e db = Inr (x, db') \<Longrightarrow> literals_valid db'"
    and "set_default_agent ref e db = Inr (gr, db') \<Longrightarrow> literals_valid db'"
proof -
  assume "list_agents e db = Inr (lr, db')"
  then obtain y where "on_accounts (agent_ensure_default (guc_of e) (en_fresh e) (en_now e)) db = Inr (y, db')"
    by (auto simp: list_agents_def result_eqs)
  then show "literals_valid db'" by (rule on_accounts_literals [OF _ agent_ensure_default_modes assms])
next
  assume "create_agent gb n2 e db = Inr (gr, db')"
  then obtain x y db1 g where one: "on_accounts (agent_ensure_default (guc_of e) (en_fresh e) (en_now e)) db = Inr (x, db1)"
    and two: "on_accounts (agent_create (guc_of e) n2 (en_now e) g) db1 = Inr (y, db')"
    unfolding create_agent_def by (force simp: result_eqs dest!: agent_answer_Inr split: if_splits)
  have "literals_valid db1" by (rule on_accounts_literals [OF one agent_ensure_default_modes assms])
  then show "literals_valid db'" by (rule on_accounts_literals [OF two agent_create_modes, rotated 2])
next
  assume "update_agent ref gq e db = Inr (gr, db')"
  then obtain y where "on_accounts (agent_update (guc_of e) (en_now e) ref gq) db = Inr (y, db')"
    by (auto simp: update_agent_def value_conflict_Inr dest!: agent_answer_Inr split: if_splits)
  then show "literals_valid db'" by (rule on_accounts_literals [OF _ agent_update_modes assms])
next
  assume "archive_agent ref e db = Inr (x, db')"
  then have "on_accounts (agent_archive (guc_of e) (en_now e) ref) db = Inr (True, db')"
    by (simp add: archive_agent_def value_conflict_Inr)
  then show "literals_valid db'" by (rule on_accounts_literals [OF _ agent_archive_modes assms])
next
  assume "set_default_agent ref e db = Inr (gr, db')"
  then obtain y where "on_accounts (agent_set_default (guc_of e) (en_now e) ref) db = Inr (y, db')"
    by (auto simp: set_default_agent_def dest!: agent_answer_Inr)
  then show "literals_valid db'" by (rule on_accounts_literals [OF _ agent_set_default_modes assms])
qed

lemma decide_literals:
  "decide_proposal st now p db = (q, db') \<Longrightarrow> st \<in> set VALID_STATUSES \<Longrightarrow> literals_valid db \<Longrightarrow> literals_valid db'"
  by (auto simp: decide_proposal_def literals_valid_def list_all_iff sql_update_def)

lemma proposal_routes_literals:
  assumes "literals_valid db"
  shows "approve_skill_proposal ref e db = Inr (ar, db') \<Longrightarrow> literals_valid db'"
    and "reject_skill_proposal ref e db = Inr (ar, db') \<Longrightarrow> literals_valid db'"
proof -
  assume "approve_skill_proposal ref e db = Inr (ar, db')"
  then obtain p where "proposal_approve ref e db = Inr (p, db')"
    unfolding approve_skill_proposal_def by (blast dest: proposal_answer_Inr)
  then obtain q t where "decide_proposal ''approved'' (en_now e) q (db\<lparr>db_skills := t\<rparr>) = (p, db')"
    by (auto simp: proposal_approve_def result_eqs on_skills_Inr split: if_splits)
  then show "literals_valid db'"
    by (rule decide_literals) (use assms in \<open>simp_all add: VALID_STATUSES_def literals_valid_def\<close>)
next
  assume "reject_skill_proposal ref e db = Inr (ar, db')"
  then obtain p where "proposal_reject ref e db = Inr (p, db')"
    unfolding reject_skill_proposal_def by (blast dest: proposal_answer_Inr)
  then obtain q where "decide_proposal ''rejected'' (en_now e) q db = (p, db')"
    by (auto simp: proposal_reject_def result_eqs)
  then show "literals_valid db'" by (rule decide_literals) (use assms in \<open>simp_all add: VALID_STATUSES_def\<close>)
qed

lemma user_write_literals: "user_write u db db' \<Longrightarrow> literals_valid db \<Longrightarrow> literals_valid db'"
  by (cases rule: user_write.cases)
    (auto simp: put_memory_def put_user_doc_def dest: settings_literals agent_routes_literals proposal_routes_literals
      dest!: table_routes_literals [THEN same_literals_valid] more_routes_literals [THEN same_literals_valid])

lemma map_result_no_error:
  "(\<And>x. x \<in> set xs \<Longrightarrow> \<exists>y. f x = Inr y) \<Longrightarrow> \<exists>ys. map_result f xs = Inr ys"
proof (induction xs)
  case (Cons x xs)
  obtain y where "f x = Inr y" using Cons.prems by force
  moreover obtain ys where "map_result f xs = Inr ys" using Cons by force
  ultimately show ?case by simp
qed simp

subsection \<open>Properties\<close>

text \<open>
  C23. However users write through their routes, the modes and states stored stay within what the response
  models admit, so that reading the settings, an agent or the proposals never fails on its own answer.
\<close>

theorem stored_literals_stay_valid:
  assumes "(user_write u)\<^sup>*\<^sup>* db db'" and "literals_valid db"
  shows "literals_valid db' \<and> get_settings_route e db' \<noteq> Inl ValueError \<and>
    get_agent (Some i) e db' \<noteq> Inl ValueError \<and> list_skill_proposals status most e db' \<noteq> Inl ValueError"
proof (intro conjI)
  show ok: "literals_valid db'"
    using assms by (induction rule: rtranclp_induct) (auto intro: user_write_literals)
  have users: "us_permission_mode (u_settings x) \<in> set valid_modes" if "x \<in> set (db_users (db_accounts db'))" for x
    using ok that by (auto simp: literals_valid_def modes_valid_def list_all_iff)
  have agents: "permission_mode r \<in> set valid_modes" if "r \<in> set (db_agents (db_accounts db'))" for r
    using ok that by (auto simp: literals_valid_def modes_valid_def list_all_iff)
  show "get_settings_route e db' \<noteq> Inl ValueError"
  proof
    assume "get_settings_route e db' = Inl ValueError"
    then obtain x where "filter (\<lambda>x. u_id x = en_user e) (db_users (db_accounts db')) = [x]"
      and "us_permission_mode (u_settings x) \<notin> set valid_modes"
      by (auto simp: get_settings_route_def settings_get_def settings_response_def guc_of_def current_user_id_def result_eqs
          split: list.splits if_splits)
    then show False using users [of x] by (metis filter_singletonD)
  qed
  show "get_agent (Some i) e db' \<noteq> Inl ValueError"
  proof
    assume "get_agent (Some i) e db' = Inl ValueError"
    then obtain r where "filter (own_agent (en_user e) i) (db_agents (db_accounts db')) = [r]"
      and "permission_mode r \<notin> set valid_modes"
      by (auto simp: get_agent_def agent_get_def agent_to_out_def guc_of_def current_user_id_def result_eqs found_def
          scalar_one_or_none_Inl http_error_def split: option.splits if_splits)
    then show False using agents [of r] by (metis filter_singletonD)
  qed
  show "list_skill_proposals status most e db' \<noteq> Inl ValueError"
  proof (cases "proposal_list (guc_of e) status most (db_proposals db')")
    case (Inr rows)
    then have "set rows \<subseteq> set (db_proposals db')"
      using set_take_subset by (fastforce simp: proposal_list_def pg_limit_def result_eqs split: if_splits)
    then have "\<exists>ys. map_result proposal_to_out rows = Inr ys"
      using ok by (intro map_result_no_error) (auto simp: proposal_to_out_def literals_valid_def list_all_iff)
    with Inr show ?thesis by (auto simp: list_skill_proposals_def)
  qed (simp add: list_skill_proposals_def http_error_def)
qed

theorem stored_literals_stay_valid_witness:
  "\<exists>r db'. list_agents (some_env Schema_0003 1) (no_rows\<lparr>db_accounts := example_db\<rparr>) = Inr (r, db') \<and>
     get_settings_route (some_env Schema_0003 1) db' \<noteq> Inl ValueError"
proof -
  let ?db = "no_rows\<lparr>db_accounts := example_db\<rparr>" and ?e = "some_env Schema_0003 1"
  obtain r db' where run: "list_agents ?e ?db = Inr (r, db')"
    by (simp add: list_agents_def on_accounts_def no_rows_def some_env_def guc_of_def agent_example_defs agent_list_for_user_def
        agent_to_out_def)
  have "user_write 7 ?db db'" using run by (rule uw_list_agents) (simp add: some_env_def)
  then have "(user_write 7)\<^sup>*\<^sup>* ?db db'" by (rule r_into_rtranclp)
  from stored_literals_stay_valid [OF this, of ?e 0 None 0] run show ?thesis
    by (simp add: literals_valid_def modes_valid_def no_rows_def example_db_def valid_modes_def)
qed

end
