(* ===== verification/Promotion_Repo.thy ===== *)
theory Promotion_Repo
  imports Complex_Main Skill_Repo Pg_Sessions
begin

text \<open>
  \<open>repositories/skill_promotion_repo.py\<close> and \<open>scheduler/promotion_tick.py\<close>: the candidates for
  promotion from the users' skills to the official ones.  A success rate is a fraction; the code
  compares its float with the threshold, which decides alike while the counts stay below
  \<open>2 ^ 50\<close>.  \<open>func.min\<close> of a UUID column is a function of the database, absent in PostgreSQL 16,
  and so is the text of a JSON array or object; both are arguments.
\<close>

subsection \<open>The table\<close>

record candidate_row =
  pc_id :: uuid
  pc_source_skill :: uuid
  pc_frontmatter_name :: string
  pc_unique_users :: int
  pc_use_count :: int
  pc_success_rate :: rat
  pc_status :: string
  pc_reason :: "string option"
  pc_decided_by :: "uuid option"
  pc_promoted_skill :: "uuid option"
  pc_generated_at :: int
  pc_decided_at :: "int option"

definition candidates_ok :: "candidate_row list \<Rightarrow> bool" where
  "candidates_ok t \<longleftrightarrow> distinct (map pc_id t) \<and>
     list_all (\<lambda>c. pc_status c \<in> {''pending'', ''promoted'', ''rejected''}) t \<and>
     distinct (map pc_frontmatter_name (filter (\<lambda>c. pc_status c = ''pending'') t))"

subsection \<open>Aggregation\<close>

record candidate_aggregate =
  cg_frontmatter_name :: string
  cg_source_skill :: uuid
  cg_unique_users :: int
  cg_use_count :: int
  cg_success_count :: int
  cg_error_count :: int

definition success_rate :: "candidate_aggregate \<Rightarrow> rat" where
  "success_rate g = (let denom = cg_success_count g + cg_error_count g
     in if denom = 0 then 0 else of_int (cg_success_count g) / of_int denom)"

text \<open>\<open>frontmatter ->> 'name'\<close>.\<close>

fun json_astext :: "(json \<Rightarrow> string) \<Rightarrow> json \<Rightarrow> string option" where
  "json_astext txt JNull = None"
| "json_astext txt (JStr s) = Some s"
| "json_astext txt (JBool b) = Some (if b then ''true'' else ''false'')"
| "json_astext txt (JInt i) = Some (str_int i)"
| "json_astext txt v = Some (txt v)"

definition skill_name :: "(json \<Rightarrow> string) \<Rightarrow> skill_row \<Rightarrow> string option" where
  "skill_name txt s = json_astext txt (py_get (frontmatter s) ''name'')"

definition named_skills :: "(json \<Rightarrow> string) \<Rightarrow> string \<Rightarrow> skill_row list \<Rightarrow> skill_row list" where
  "named_skills txt n t = filter (\<lambda>s. scope s = UserScope \<and> is_current s \<and> skill_name txt s = Some n) t"

definition skill_names :: "(json \<Rightarrow> string) \<Rightarrow> skill_row list \<Rightarrow> string list" where
  "skill_names txt t = remdups (List.map_filter (skill_name txt) (filter (\<lambda>s. scope s = UserScope \<and> is_current s) t))"

definition aggregate_of :: "(uuid list \<Rightarrow> uuid) \<Rightarrow> string \<Rightarrow> skill_row list \<Rightarrow> candidate_aggregate" where
  "aggregate_of min_uuid n g =
     \<lparr>cg_frontmatter_name = n, cg_source_skill = min_uuid (map rid g),
      cg_unique_users = int (length (remdups (List.map_filter user_id g))),
      cg_use_count = sum_list (map use_count g), cg_success_count = sum_list (map success_count g),
      cg_error_count = sum_list (map error_count g)\<rparr>"

definition over_thresholds :: "int \<Rightarrow> int \<Rightarrow> rat \<Rightarrow> candidate_aggregate \<Rightarrow> bool" where
  "over_thresholds users uses rate g \<longleftrightarrow>
     \<not> cg_unique_users g < users \<and> \<not> cg_use_count g < uses \<and> \<not> success_rate g < rate"

text \<open>The groups of a query without an order come in the order of their first row here.\<close>

definition aggregate_candidates ::
  "(json \<Rightarrow> string) \<Rightarrow> (uuid list \<Rightarrow> uuid) option \<Rightarrow> int \<Rightarrow> int \<Rightarrow> rat \<Rightarrow> skill_row list
     \<Rightarrow> candidate_aggregate list result"
where
  "aggregate_candidates txt min_uuid users uses rate t =
     (case min_uuid of
        None \<Rightarrow> Inl ProgrammingError
      | Some f \<Rightarrow> Inr (filter (over_thresholds users uses rate)
          (map (\<lambda>n. aggregate_of f n (named_skills txt n t)) (skill_names txt t))))"

subsection \<open>Writes and reads\<close>

definition upsert_pending :: "uuid \<Rightarrow> int \<Rightarrow> candidate_aggregate \<Rightarrow> candidate_row list \<Rightarrow> (uuid \<times> candidate_row list) result" where
  "upsert_pending fresh now g t =
     (case filter (\<lambda>c. pc_frontmatter_name c = cg_frontmatter_name g \<and> pc_status c = ''pending'') t of
        c # _ \<Rightarrow> Inr (pc_id c, sql_update (\<lambda>r. pc_id r = pc_id c)
          (\<lambda>r. r\<lparr>pc_source_skill := cg_source_skill g, pc_unique_users := cg_unique_users g,
             pc_use_count := cg_use_count g, pc_success_rate := success_rate g, pc_generated_at := now\<rparr>) t)
      | [] \<Rightarrow> (if fresh \<in> pc_id ` set t then Inl IntegrityError
          else Inr (fresh, t @ [\<lparr>pc_id = fresh, pc_source_skill = cg_source_skill g,
            pc_frontmatter_name = cg_frontmatter_name g, pc_unique_users = cg_unique_users g,
            pc_use_count = cg_use_count g, pc_success_rate = success_rate g, pc_status = ''pending'',
            pc_reason = None, pc_decided_by = None, pc_promoted_skill = None, pc_generated_at = now,
            pc_decided_at = None\<rparr>])))"

definition decide_candidate ::
  "uuid \<Rightarrow> (candidate_row \<Rightarrow> candidate_row) \<Rightarrow> candidate_row list \<Rightarrow> (candidate_row option \<times> candidate_row list) result"
where
  "decide_candidate i f t =
     (let p = (\<lambda>c. pc_id c = i \<and> pc_status c = ''pending'') in
      bind_result (scalar_one_or_none (map f (filter p t))) (\<lambda>r. Inr (r, sql_update p f t)))"

definition mark_promoted ::
  "uuid \<Rightarrow> uuid \<Rightarrow> uuid \<Rightarrow> int \<Rightarrow> candidate_row list \<Rightarrow> (candidate_row option \<times> candidate_row list) result"
where
  "mark_promoted i admin skill now =
     decide_candidate i (\<lambda>c. c\<lparr>pc_status := ''promoted'', pc_decided_by := Some admin,
       pc_promoted_skill := Some skill, pc_decided_at := Some now\<rparr>)"

definition mark_rejected ::
  "uuid \<Rightarrow> uuid \<Rightarrow> string option \<Rightarrow> int \<Rightarrow> candidate_row list \<Rightarrow> (candidate_row option \<times> candidate_row list) result"
where
  "mark_rejected i admin reason now =
     decide_candidate i (\<lambda>c. c\<lparr>pc_status := ''rejected'', pc_decided_by := Some admin,
       pc_reason := reason, pc_decided_at := Some now\<rparr>)"

definition candidate_get :: "uuid \<Rightarrow> candidate_row list \<Rightarrow> candidate_row option result" where
  "candidate_get i t = scalar_one_or_none (filter (\<lambda>c. pc_id c = i) t)"

definition pg_offset :: "int \<Rightarrow> 'x list \<Rightarrow> 'x list result" where
  "pg_offset n xs = (if n < 0 then Inl DataError else Inr (drop (nat n) xs))"

definition candidate_list_all :: "string option \<Rightarrow> int \<Rightarrow> int \<Rightarrow> candidate_row list \<Rightarrow> candidate_row list result" where
  "candidate_list_all status most off t =
     bind_result (pg_offset off (sort_key (\<lambda>c. - pc_generated_at c)
       (filter (\<lambda>c. case status of None \<Rightarrow> True | Some s \<Rightarrow> pc_status c = s) t))) (pg_limit most)"

definition candidate_list_pending :: "int \<Rightarrow> int \<Rightarrow> candidate_row list \<Rightarrow> candidate_row list result" where
  "candidate_list_pending = candidate_list_all (Some ''pending'')"

definition get_source_skill :: "uuid \<Rightarrow> skill_row list \<Rightarrow> skill_row option result" where
  "get_source_skill i t = scalar_one_or_none (filter (\<lambda>s. rid s = i) t)"

subsection \<open>The tick\<close>

definition PROMOTION_MIN_UNIQUE_USERS :: int where "PROMOTION_MIN_UNIQUE_USERS = 3"
definition PROMOTION_MIN_USE_COUNT :: int where "PROMOTION_MIN_USE_COUNT = 20"
definition PROMOTION_MIN_SUCCESS_RATE :: rat where "PROMOTION_MIN_SUCCESS_RATE = 4 / 5"

fun upsert_all :: "uuid list \<Rightarrow> int \<Rightarrow> candidate_aggregate list \<Rightarrow> candidate_row list \<Rightarrow> candidate_row list result" where
  "upsert_all (i # ids) now (g # gs) t = bind_result (upsert_pending i now g t) (\<lambda>(_, t'). upsert_all ids now gs t')"
| "upsert_all ids now gs t = Inr t"

text \<open>The list holds the values of \<open>uuid4()\<close>, at least one for every aggregate.\<close>

definition promotion_tick ::
  "(json \<Rightarrow> string) \<Rightarrow> (uuid list \<Rightarrow> uuid) option \<Rightarrow> uuid list \<Rightarrow> int \<Rightarrow> skill_row list \<Rightarrow> candidate_row list
     \<Rightarrow> (nat \<times> candidate_row list) result"
where
  "promotion_tick txt min_uuid ids now skills t =
     bind_result (aggregate_candidates txt min_uuid PROMOTION_MIN_UNIQUE_USERS PROMOTION_MIN_USE_COUNT
       PROMOTION_MIN_SUCCESS_RATE skills) (\<lambda>gs.
     bind_result (upsert_all ids now gs t) (\<lambda>t'. Inr (length gs, t')))"

end
