(* ===== verification/Promotion_Facts.thy ===== *)
theory Promotion_Facts
  imports Promotion_Repo
begin

text \<open>
  One sweep of the promotion tick against a declarative reading of its thresholds: which names
  qualify, what their pending candidate says, and that nothing else changes.
\<close>

subsection \<open>Which names qualify\<close>

definition users_of :: "(json \<Rightarrow> string) \<Rightarrow> string \<Rightarrow> skill_row list \<Rightarrow> uuid set" where
  "users_of txt n skills = {u. \<exists>s \<in> set skills. scope s = UserScope \<and> is_current s \<and>
     skill_name txt s = Some n \<and> user_id s = Some u}"

definition promotable :: "(json \<Rightarrow> string) \<Rightarrow> skill_row list \<Rightarrow> string \<Rightarrow> bool" where
  "promotable txt skills n \<longleftrightarrow>
     (let g = named_skills txt n skills; good = sum_list (map success_count g); bad = sum_list (map error_count g)
      in 3 \<le> card (users_of txt n skills) \<and> 20 \<le> sum_list (map use_count g) \<and>
         0 < good + bad \<and> 4 * (good + bad) \<le> 5 * good)"

definition counts_natural :: "skill_row list \<Rightarrow> bool" where
  "counts_natural skills \<longleftrightarrow> (\<forall>s \<in> set skills. 0 \<le> success_count s \<and> 0 \<le> error_count s)"

lemma rate_over_threshold:
  assumes "0 \<le> cg_success_count g" and "0 \<le> cg_error_count g"
  shows "\<not> success_rate g < PROMOTION_MIN_SUCCESS_RATE \<longleftrightarrow>
    0 < cg_success_count g + cg_error_count g \<and> 4 * (cg_success_count g + cg_error_count g) \<le> 5 * cg_success_count g"
proof (cases "cg_success_count g + cg_error_count g = 0")
  case True
  then show ?thesis by (simp add: success_rate_def PROMOTION_MIN_SUCCESS_RATE_def)
next
  case False
  let ?d = "cg_success_count g + cg_error_count g"
  have pos: "0 < ?d" using False assms by linarith
  have "success_rate g < PROMOTION_MIN_SUCCESS_RATE \<longleftrightarrow> 5 * rat_of_int (cg_success_count g) < 4 * rat_of_int ?d"
    using pos False by (simp add: success_rate_def PROMOTION_MIN_SUCCESS_RATE_def Let_def divide_less_eq)
  also have "\<dots> \<longleftrightarrow> 5 * cg_success_count g < 4 * ?d"
    by (metis of_int_less_iff of_int_mult of_int_numeral)
  finally show ?thesis using pos by linarith
qed

lemma set_map_filter: "set (List.map_filter f xs) = {y. \<exists>x \<in> set xs. f x = Some y}"
  by (force simp: List.map_filter_def image_def)

lemma set_user_ids: "set (List.map_filter user_id (named_skills txt n skills)) = users_of txt n skills"
  by (auto simp: users_of_def named_skills_def set_map_filter)

lemma sum_counts_natural:
  assumes "counts_natural skills"
  shows "0 \<le> sum_list (map success_count (named_skills txt n skills))"
    and "0 \<le> sum_list (map error_count (named_skills txt n skills))"
  using assms by (auto simp: counts_natural_def named_skills_def intro!: sum_list_nonneg)

lemma over_thresholds_promotable:
  assumes "counts_natural skills"
  shows "over_thresholds PROMOTION_MIN_UNIQUE_USERS PROMOTION_MIN_USE_COUNT PROMOTION_MIN_SUCCESS_RATE
      (aggregate_of f n (named_skills txt n skills)) \<longleftrightarrow> promotable txt skills n"
proof -
  let ?a = "aggregate_of f n (named_skills txt n skills)"
  have users: "cg_unique_users ?a = int (card (users_of txt n skills))"
    by (simp add: aggregate_of_def flip: set_user_ids length_remdups_card_conv)
  have "\<not> success_rate ?a < PROMOTION_MIN_SUCCESS_RATE \<longleftrightarrow>
      0 < cg_success_count ?a + cg_error_count ?a \<and> 4 * (cg_success_count ?a + cg_error_count ?a) \<le> 5 * cg_success_count ?a"
    by (rule rate_over_threshold) (simp_all add: aggregate_of_def sum_counts_natural [OF assms])
  then show ?thesis
    unfolding over_thresholds_def users by (auto simp: promotable_def Let_def PROMOTION_MIN_UNIQUE_USERS_def
        PROMOTION_MIN_USE_COUNT_def aggregate_of_def)
qed

lemma promotable_named: "promotable txt skills n \<Longrightarrow> n \<in> set (skill_names txt skills)"
proof -
  assume "promotable txt skills n"
  then have "users_of txt n skills \<noteq> {}" by (auto simp: promotable_def Let_def)
  then show ?thesis by (auto simp: users_of_def skill_names_def set_map_filter)
qed

text \<open>The names a sweep upserts, in order.\<close>

definition swept_names :: "(json \<Rightarrow> string) \<Rightarrow> skill_row list \<Rightarrow> string list" where
  "swept_names txt skills = filter (promotable txt skills) (skill_names txt skills)"

lemma swept_names_exact: "set (swept_names txt skills) = {n. promotable txt skills n}"
  by (auto simp: swept_names_def promotable_named)

lemma swept_names_distinct [simp]: "distinct (swept_names txt skills)"
  by (simp add: swept_names_def skill_names_def)

lemma aggregate_candidates_swept:
  assumes "counts_natural skills"
  shows "aggregate_candidates txt (Some f) PROMOTION_MIN_UNIQUE_USERS PROMOTION_MIN_USE_COUNT
      PROMOTION_MIN_SUCCESS_RATE skills =
    Inr (map (\<lambda>n. aggregate_of f n (named_skills txt n skills)) (swept_names txt skills))"
  by (simp add: aggregate_candidates_def swept_names_def filter_map o_def over_thresholds_promotable [OF assms])

subsection \<open>One upsert\<close>

definition pending_of :: "string \<Rightarrow> candidate_row list \<Rightarrow> candidate_row option" where
  "pending_of n t = find (\<lambda>c. pc_frontmatter_name c = n \<and> pc_status c = ''pending'') t"

definition settled :: "candidate_row list \<Rightarrow> candidate_row list" where
  "settled t = filter (\<lambda>c. pc_status c \<noteq> ''pending'') t"

text \<open>The row a pending candidate becomes when its numbers are refreshed.\<close>

definition refreshed :: "candidate_aggregate \<Rightarrow> int \<Rightarrow> candidate_row \<Rightarrow> candidate_row" where
  "refreshed g now r = r\<lparr>pc_source_skill := cg_source_skill g, pc_unique_users := cg_unique_users g,
     pc_use_count := cg_use_count g, pc_success_rate := success_rate g, pc_generated_at := now\<rparr>"

definition says :: "candidate_aggregate \<Rightarrow> int \<Rightarrow> candidate_row \<Rightarrow> bool" where
  "says g now c \<longleftrightarrow> pc_source_skill c = cg_source_skill g \<and> pc_unique_users c = cg_unique_users g \<and>
     pc_use_count c = cg_use_count g \<and> pc_success_rate c = success_rate g \<and> pc_generated_at c = now"

lemma refreshed_simps [simp]:
  "pc_id (refreshed g now r) = pc_id r" "pc_frontmatter_name (refreshed g now r) = pc_frontmatter_name r"
  "pc_status (refreshed g now r) = pc_status r" "says g now (refreshed g now r)"
  by (simp_all add: refreshed_def says_def)

lemma pending_of_NoneD: "pending_of n t = None \<longleftrightarrow> filter (\<lambda>c. pc_frontmatter_name c = n \<and> pc_status c = ''pending'') t = []"
  by (auto simp: pending_of_def find_None_iff filter_empty_conv)

lemma pending_of_SomeD:
  assumes "pending_of n t = Some c"
  shows "c \<in> set t" "pc_frontmatter_name c = n" "pc_status c = ''pending''"
  using assms by (auto simp: pending_of_def find_Some_iff)

lemma pending_of_filter:
  assumes "filter (\<lambda>c. pc_frontmatter_name c = n \<and> pc_status c = ''pending'') t = c # cs"
  shows "pending_of n t = Some c"
  using assms by (induction t) (auto simp: pending_of_def split: if_splits)

lemma upsert_pending_inserts:
  assumes "pending_of (cg_frontmatter_name g) t = None" and "fresh \<notin> pc_id ` set t"
  shows "\<exists>c. upsert_pending fresh now g t = Inr (fresh, t @ [c]) \<and> pc_id c = fresh \<and> pc_status c = ''pending'' \<and>
    pc_frontmatter_name c = cg_frontmatter_name g \<and> says g now c"
  using assms by (simp add: upsert_pending_def pending_of_NoneD says_def)

lemma upsert_pending_refreshes:
  assumes "pending_of (cg_frontmatter_name g) t = Some c"
  shows "upsert_pending fresh now g t = Inr (pc_id c, map (\<lambda>r. if pc_id r = pc_id c then refreshed g now r else r) t)"
proof -
  obtain d ds where f: "filter (\<lambda>c. pc_frontmatter_name c = cg_frontmatter_name g \<and> pc_status c = ''pending'') t = d # ds"
    using assms by (cases "filter (\<lambda>c. pc_frontmatter_name c = cg_frontmatter_name g \<and> pc_status c = ''pending'') t")
      (auto simp flip: pending_of_NoneD)
  then have "d = c" using pending_of_filter [OF f] assms by simp
  with f show ?thesis by (simp add: upsert_pending_def sql_update_def refreshed_def)
qed

lemma pending_map:
  assumes "\<And>r. r \<in> set t \<Longrightarrow> pc_frontmatter_name (h r) = pc_frontmatter_name r \<and> pc_status (h r) = pc_status r"
  shows "pending_of n (map h t) = map_option h (pending_of n t)"
  using assms by (induction t) (auto simp: pending_of_def)

lemma pending_snoc:
  "pending_of n (t @ [c]) = (case pending_of n t of Some d \<Rightarrow> Some d
     | None \<Rightarrow> if pc_frontmatter_name c = n \<and> pc_status c = ''pending'' then Some c else None)"
  by (induction t) (auto simp: pending_of_def)

lemma pending_id_unique:
  assumes "distinct (map pc_id t)" and "pending_of n t = Some c" and "r \<in> set t" and "pc_id r = pc_id c"
  shows "r = c"
  using assms pending_of_SomeD(1) [OF assms(2)] by (auto simp: distinct_map inj_on_def)

text \<open>An upsert writes the pending row of its name and keeps the rest.\<close>

lemma upsert_pending_exact:
  assumes ok: "candidates_ok t" and new: "fresh \<notin> pc_id ` set t"
  shows "\<exists>i t'. upsert_pending fresh now g t = Inr (i, t') \<and> candidates_ok t' \<and> settled t' = settled t \<and>
    pc_id ` set t' \<subseteq> insert fresh (pc_id ` set t) \<and>
    (\<exists>c. pending_of (cg_frontmatter_name g) t' = Some c \<and> says g now c) \<and>
    (\<forall>n. n \<noteq> cg_frontmatter_name g \<longrightarrow> pending_of n t' = pending_of n t)"
proof (cases "pending_of (cg_frontmatter_name g) t")
  case None
  from upsert_pending_inserts [OF this new] obtain c where
    c: "upsert_pending fresh now g t = Inr (fresh, t @ [c])" "pc_id c = fresh" "pc_status c = ''pending''"
      "pc_frontmatter_name c = cg_frontmatter_name g" "says g now c" by blast
  have "candidates_ok (t @ [c])"
    using ok new None c(3,4) by (auto simp: candidates_ok_def pending_of_NoneD filter_empty_conv simp flip: c(2))
  moreover have "pending_of n (t @ [c]) = pending_of n t" if "n \<noteq> cg_frontmatter_name g" for n
    using that c(4) by (auto simp: pending_snoc split: option.splits)
  moreover have "pending_of (cg_frontmatter_name g) (t @ [c]) = Some c" using c None by (simp add: pending_snoc)
  ultimately show ?thesis using c by (auto simp: settled_def)
next
  case (Some c)
  let ?h = "\<lambda>r. if pc_id r = pc_id c then refreshed g now r else r"
  have same: "pc_id (?h r) = pc_id r" "pc_frontmatter_name (?h r) = pc_frontmatter_name r" "pc_status (?h r) = pc_status r" for r
    by simp_all
  have ids: "map pc_id (map ?h t) = map pc_id t" by simp
  have pend: "map pc_frontmatter_name (filter (\<lambda>c. pc_status c = ''pending'') (map ?h t)) =
      map pc_frontmatter_name (filter (\<lambda>c. pc_status c = ''pending'') t)"
    by (induction t) auto
  have ok': "candidates_ok (map ?h t)"
    using ok unfolding candidates_ok_def ids pend by (auto simp: list_all_iff)
  have distinct: "distinct (map pc_id t)" using ok by (simp add: candidates_ok_def)
  have "?h r = r" if "r \<in> set t" "pc_status r \<noteq> ''pending''" for r
    using pending_id_unique [OF distinct Some that(1)] pending_of_SomeD(3) [OF Some] that by auto
  then have "settled (map ?h t) = settled t"
    by (auto simp: settled_def filter_map o_def intro!: map_idI)
  moreover have "pending_of n (map ?h t) = map_option ?h (pending_of n t)" for n
    by (rule pending_map) (simp add: same)
  moreover have "map_option ?h (pending_of n t) = pending_of n t" if "n \<noteq> cg_frontmatter_name g" for n
  proof (cases "pending_of n t")
    fix d assume d: "pending_of n t = Some d"
    have "d \<noteq> c" using pending_of_SomeD(2) [OF d] pending_of_SomeD(2) [OF Some] that by auto
    then show ?thesis using d pending_id_unique [OF distinct Some pending_of_SomeD(1) [OF d]] by auto
  qed simp
  ultimately have rows: "settled (map ?h t) = settled t" "pending_of (cg_frontmatter_name g) (map ?h t) = Some (?h c)"
    "\<forall>n. n \<noteq> cg_frontmatter_name g \<longrightarrow> pending_of n (map ?h t) = pending_of n t" using Some by simp_all
  have "pc_id ` set (map ?h t) \<subseteq> insert fresh (pc_id ` set t)" by (metis ids list.set_map subset_insertI)
  moreover have "says g now (?h c)" by simp
  ultimately show ?thesis using rows ok' upsert_pending_refreshes [OF Some, of fresh now] by blast
qed

subsection \<open>The sweep\<close>

lemma upsert_all_exact:
  assumes "candidates_ok t" and "distinct ids" and "set ids \<inter> pc_id ` set t = {}" and "length gs \<le> length ids"
    and "distinct (map cg_frontmatter_name gs)"
  shows "\<exists>t'. upsert_all ids now gs t = Inr t' \<and> candidates_ok t' \<and> settled t' = settled t \<and>
    (\<forall>g \<in> set gs. \<exists>c. pending_of (cg_frontmatter_name g) t' = Some c \<and> says g now c) \<and>
    (\<forall>n. n \<notin> cg_frontmatter_name ` set gs \<longrightarrow> pending_of n t' = pending_of n t)"
  using assms
proof (induction gs arbitrary: ids t)
  case Nil
  then show ?case by simp
next
  case (Cons g gs)
  then obtain i js where ids: "ids = i # js" by (cases ids) auto
  have new: "i \<notin> pc_id ` set t" using Cons.prems(3) by (auto simp: ids)
  obtain j t1 where up: "upsert_pending i now g t = Inr (j, t1)" and ok: "candidates_ok t1" and st: "settled t1 = settled t"
    and sub: "pc_id ` set t1 \<subseteq> insert i (pc_id ` set t)"
    and own: "\<exists>c. pending_of (cg_frontmatter_name g) t1 = Some c \<and> says g now c"
    and oth: "\<forall>n. n \<noteq> cg_frontmatter_name g \<longrightarrow> pending_of n t1 = pending_of n t"
    using upsert_pending_exact [OF Cons.prems(1) new] by blast
  have "set js \<inter> pc_id ` set t1 = {}" using sub Cons.prems(2,3) by (auto simp: ids)
  with Cons.IH [of t1 js] ok Cons.prems obtain t' where
    t': "upsert_all js now gs t1 = Inr t'" "candidates_ok t'" "settled t' = settled t1"
      "\<forall>g \<in> set gs. \<exists>c. pending_of (cg_frontmatter_name g) t' = Some c \<and> says g now c"
      "\<forall>n. n \<notin> cg_frontmatter_name ` set gs \<longrightarrow> pending_of n t' = pending_of n t1"
    by (auto simp: ids)
  have "cg_frontmatter_name g \<notin> cg_frontmatter_name ` set gs" using Cons.prems(5) by auto
  with t' up st own oth show ?case by (auto simp: ids)
qed

definition aggregates :: "(json \<Rightarrow> string) \<Rightarrow> (uuid list \<Rightarrow> uuid) \<Rightarrow> skill_row list \<Rightarrow> candidate_aggregate list" where
  "aggregates txt f skills = map (\<lambda>n. aggregate_of f n (named_skills txt n skills)) (swept_names txt skills)"

text \<open>
  C25. The daily promotion sweep depends on the database having \<open>min\<close> over UUIDs.  Where it has none,
  as the pinned PostgreSQL 16 has not, every sweep raises \<open>ProgrammingError\<close>, whatever the tables hold,
  and no candidate is made.  Where it has one, a pending candidate exists afterwards for exactly the
  names that had one and the names whose current user skills have at least three users, twenty uses
  and four successes out of five outcomes; the latter show the numbers of this sweep, whatever was
  decided on the name before; settled candidates and the other pending ones are untouched, and the
  answer is the number of names swept.
\<close>

theorem promotion_tick_exact:
  assumes "candidates_ok t" and "counts_natural skills" and "distinct ids" and "set ids \<inter> pc_id ` set t = {}"
    and "length (skill_names txt skills) \<le> length ids"
  shows "promotion_tick txt None ids now skills t = Inl ProgrammingError \<and>
    (\<exists>t'. promotion_tick txt (Some f) ids now skills t = Inr (card {n. promotable txt skills n}, t') \<and>
      candidates_ok t' \<and> filter (\<lambda>c. pc_status c \<noteq> ''pending'') t' = filter (\<lambda>c. pc_status c \<noteq> ''pending'') t \<and>
      (\<forall>n. if promotable txt skills n
         then \<exists>c. pending_of n t' = Some c \<and> pc_unique_users c = int (card (users_of txt n skills)) \<and>
           pc_use_count c = sum_list (map use_count (named_skills txt n skills)) \<and> pc_generated_at c = now
         else pending_of n t' = pending_of n t))"
proof -
  let ?gs = "aggregates txt f skills"
  have names: "map cg_frontmatter_name ?gs = swept_names txt skills" by (simp add: aggregates_def aggregate_of_def o_def)
  have len: "length ?gs = card {n. promotable txt skills n}"
    by (simp add: aggregates_def distinct_card flip: swept_names_exact)
  have "length ?gs \<le> length ids"
    using le_trans [OF length_filter_le assms(5)] by (simp add: aggregates_def swept_names_def)
  from upsert_all_exact [OF assms(1,3,4) this, of now] obtain t' where t': "upsert_all ids now ?gs t = Inr t'"
    "candidates_ok t'" "settled t' = settled t"
    "\<forall>g \<in> set ?gs. \<exists>c. pending_of (cg_frontmatter_name g) t' = Some c \<and> says g now c"
    "\<forall>n. n \<notin> cg_frontmatter_name ` set ?gs \<longrightarrow> pending_of n t' = pending_of n t" by (auto simp: names)
  have run: "promotion_tick txt (Some f) ids now skills t = Inr (length ?gs, t')"
    using t'(1) by (simp add: promotion_tick_def aggregate_candidates_swept [OF assms(2)] aggregates_def)
  have swept: "cg_frontmatter_name ` set ?gs = {n. promotable txt skills n}"
    using names swept_names_exact by (metis list.set_map)
  have "\<exists>c. pending_of n t' = Some c \<and> pc_unique_users c = int (card (users_of txt n skills)) \<and>
      pc_use_count c = sum_list (map use_count (named_skills txt n skills)) \<and> pc_generated_at c = now"
    if "promotable txt skills n" for n
  proof -
    let ?g = "aggregate_of f n (named_skills txt n skills)"
    have "?g \<in> set ?gs" using that by (auto simp: aggregates_def swept_names_exact)
    with t'(4) obtain c where "pending_of n t' = Some c" "says ?g now c" by (auto simp: aggregate_of_def)
    then show ?thesis
      by (simp add: says_def aggregate_of_def flip: set_user_ids length_remdups_card_conv)
  qed
  moreover have "promotion_tick txt None ids now skills t = Inl ProgrammingError"
    by (simp add: promotion_tick_def aggregate_candidates_def)
  ultimately show ?thesis using run t' swept by (auto simp: len settled_def)
qed

text \<open>Three users with a skill of one name; the name was rejected before and is pending again.\<close>

definition popular_skill :: "uuid \<Rightarrow> skill_row" where
  "popular_skill u = (example_skill u UserScope (Some u) ''s'' 1 True False)
     \<lparr>frontmatter := [(''name'', JStr ''plan'')], use_count := 7, success_count := 4, error_count := 1\<rparr>"

definition rejected_plan :: candidate_row where
  "rejected_plan = \<lparr>pc_id = 9, pc_source_skill = 1, pc_frontmatter_name = ''plan'', pc_unique_users = 3, pc_use_count = 20,
     pc_success_rate = 1, pc_status = ''rejected'', pc_reason = None, pc_decided_by = Some 5, pc_promoted_skill = None,
     pc_generated_at = 1, pc_decided_at = Some 2\<rparr>"

lemmas popular_simps = popular_skill_def example_skill_def named_skills_def skill_names_def skill_name_def py_get_def
  List.map_filter_def

lemma popular_skills:
  "counts_natural (map popular_skill [1, 2, 3])" "skill_names txt (map popular_skill [1, 2, 3]) = [''plan'']"
  "users_of txt ''plan'' (map popular_skill [1, 2, 3]) = {1, 2, 3}" "promotable txt (map popular_skill [1, 2, 3]) ''plan''"
proof -
  show u: "users_of txt ''plan'' (map popular_skill [1, 2, 3]) = {1, 2, 3}"
    by (auto simp: users_of_def popular_simps)
  show "counts_natural (map popular_skill [1, 2, 3])" "skill_names txt (map popular_skill [1, 2, 3]) = [''plan'']"
    by (simp_all add: counts_natural_def popular_simps)
  show "promotable txt (map popular_skill [1, 2, 3]) ''plan''"
    unfolding promotable_def Let_def u by (simp add: popular_simps)
qed

theorem promotion_tick_exact_witness:
  "\<exists>k t' c. promotion_tick (\<lambda>_. []) (Some hd) [10] 50 (map popular_skill [1, 2, 3]) [rejected_plan] = Inr (k, t') \<and>
     pending_of ''plan'' t' = Some c \<and> pc_unique_users c = 3 \<and> pending_of ''plan'' [rejected_plan] = None \<and>
     promotion_tick (\<lambda>_. []) None [10] 50 (map popular_skill [1, 2, 3]) [rejected_plan] = Inl ProgrammingError"
proof -
  have "candidates_ok [rejected_plan]" by (simp add: candidates_ok_def rejected_plan_def)
  moreover have "set [10] \<inter> pc_id ` set [rejected_plan] = {}" by (simp add: rejected_plan_def)
  moreover have "length (skill_names (\<lambda>_. []) (map popular_skill [1, 2, 3])) \<le> length [10 :: uuid]"
    unfolding popular_skills(2) by simp
  ultimately obtain t' where
    run: "promotion_tick (\<lambda>_. []) (Some hd) [10] 50 (map popular_skill [1, 2, 3]) [rejected_plan] =
        Inr (card {n. promotable (\<lambda>_. []) (map popular_skill [1, 2, 3]) n}, t')"
    and all: "\<forall>n. if promotable (\<lambda>_. []) (map popular_skill [1, 2, 3]) n
       then \<exists>c. pending_of n t' = Some c \<and> pc_unique_users c = int (card (users_of (\<lambda>_. []) n (map popular_skill [1, 2, 3]))) \<and>
         pc_use_count c = sum_list (map use_count (named_skills (\<lambda>_. []) n (map popular_skill [1, 2, 3]))) \<and> pc_generated_at c = 50
       else pending_of n t' = pending_of n [rejected_plan]"
    and fails: "promotion_tick (\<lambda>_. []) None [10] 50 (map popular_skill [1, 2, 3]) [rejected_plan] = Inl ProgrammingError"
    using promotion_tick_exact [OF _ popular_skills(1), of "[rejected_plan]" "[10]" "\<lambda>_. []" 50 hd] by auto
  from all [THEN spec, of "''plan''"] obtain c where "pending_of ''plan'' t' = Some c" "pc_unique_users c = 3"
    unfolding popular_skills(3) if_P [OF popular_skills(4)] by auto
  moreover have "pending_of ''plan'' [rejected_plan] = None" by (simp add: pending_of_def rejected_plan_def)
  ultimately show ?thesis using run fails by blast
qed

end
