(* ===== verification/Admin_Base.thy ===== *)
theory Admin_Base
  imports User_Views Promotion_Repo Gdpr
begin

text \<open>
  What the routes of \<open>web/routes/admin.py\<close> share: the gate, the audit row and the invalidation
  that end every write, with \<open>web/effective_invalidate.py\<close>.  The eviction is the last statement of
  a handler; its transaction commits after it.
\<close>

subsection \<open>Invalidation\<close>

definition evict_names :: "string list \<Rightarrow> json redis \<Rightarrow> json redis" where
  "evict_names names r = fold (\<lambda>n. r_del (''effective:'' @ n)) names r"

definition publish_invalidation ::
  "string list option \<Rightarrow> json redis option \<times> json list \<Rightarrow> json redis option \<times> json list"
where
  "publish_invalidation user_ids st =
     (case st of
        (None, sent) \<Rightarrow> st
      | (Some r, sent) \<Rightarrow>
          (case user_ids of
             None \<Rightarrow> (Some (evict_all r), sent @ [JObj [(''all'', JBool True)]])
           | Some [] \<Rightarrow> st
           | Some (n # ns) \<Rightarrow> (Some (evict_names (n # ns) r), sent @ [JObj [(''user_ids'', JArr (map JStr (n # ns)))]])))"

text \<open>What the subscriber does with one message; text that is no JSON is dropped.\<close>

definition on_invalidation :: "json option \<Rightarrow> json redis \<Rightarrow> json redis result" where
  "on_invalidation msg r =
     (case msg of
        None \<Rightarrow> Inr r
      | Some (JObj d) \<Rightarrow>
          (if truthy (py_get d ''all'') then Inr (evict_all r)
           else (case map_of d ''user_ids'' of
               None \<Rightarrow> Inr r
             | Some v \<Rightarrow> (case as_list as_str v of None \<Rightarrow> Inl TypeError | Some ns \<Rightarrow> Inr (evict_names ns r))))
      | Some _ \<Rightarrow> Inl AttributeError)"

subsection \<open>Requests and state\<close>

record admin_env = route_env +
  en_role :: string
  en_request_id :: "uuid option"
  en_audit_id :: int

record user_account =
  ua_id :: uuid
  ua_external_id :: string
  ua_role :: string
  ua_created_at :: int

record metered_event =
  ue_user :: uuid
  ue_ts :: int
  ue_model :: string
  ue_input_tokens :: int
  ue_output_tokens :: int
  ue_cost_usd_micro :: int

record admin_state =
  ad_db :: tenant_db
  ad_log :: account_db
  ad_candidates :: "candidate_row list"
  ad_users :: "user_account list"
  ad_usage :: "metered_event list"
  ad_redis :: "json redis option"
  ad_published :: "json list"

definition require_admin :: "admin_env \<Rightarrow> 'x result \<Rightarrow> 'x result" where
  "require_admin c r = (if en_role c \<noteq> ''admin'' then Inl (http_error FORBIDDEN) else r)"

definition on_config :: "(tenant_db \<Rightarrow> ('x \<times> tenant_db) result) \<Rightarrow> admin_state \<Rightarrow> ('x \<times> admin_state) result" where
  "on_config f st = bind_result (f (ad_db st)) (\<lambda>(x, db). Inr (x, st\<lparr>ad_db := db\<rparr>))"

definition on_candidates ::
  "(candidate_row list \<Rightarrow> ('x \<times> candidate_row list) result) \<Rightarrow> admin_state \<Rightarrow> ('x \<times> admin_state) result"
where
  "on_candidates f st = bind_result (f (ad_candidates st)) (\<lambda>(x, t). Inr (x, st\<lparr>ad_candidates := t\<rparr>))"

subsection \<open>The end of a write\<close>

text \<open>\<open>_audit\<close>; a request id that is no UUID is left out.\<close>

definition audit :: "admin_env \<Rightarrow> string \<Rightarrow> json \<Rightarrow> json \<Rightarrow> admin_state \<Rightarrow> admin_state result" where
  "audit c action target diff st =
     bind_result (audit_log_write (en_user c) (en_role c) action target diff (en_request_id c) (en_audit_id c) (en_now c)
       (ad_log st)) (\<lambda>(_, l). Inr (st\<lparr>ad_log := l\<rparr>))"

definition before_after :: "json \<Rightarrow> json \<Rightarrow> json" where
  "before_after b a = JObj [(''before'', b), (''after'', a)]"

definition entity_target :: "string \<Rightarrow> string \<Rightarrow> json" where
  "entity_target entity s = JObj [(''entity'', JStr entity), (''slug'', JStr s)]"

definition invalidated :: "admin_state \<Rightarrow> admin_state" where
  "invalidated st = (let (r, sent) = publish_invalidation None (ad_redis st, ad_published st)
     in st\<lparr>ad_redis := r, ad_published := sent\<rparr>)"

text \<open>The audit row, the invalidation and the answer.\<close>

definition written :: "admin_env \<Rightarrow> string \<Rightarrow> json \<Rightarrow> json \<Rightarrow> 'y \<Rightarrow> admin_state \<Rightarrow> ('y \<times> admin_state) result" where
  "written c action target diff out1 st =
     bind_result (audit c action target diff st) (\<lambda>st'. Inr (out1, invalidated st'))"

text \<open>
  The three handlers of an entity, over its repository: \<open>create1\<close> is \<open>create_official\<close> and \<open>read\<close>
  \<open>get_official\<close>; \<open>assert row is not None\<close> follows an update.
\<close>

definition admin_create ::
  "string \<Rightarrow> string \<Rightarrow> ('r \<Rightarrow> json) \<Rightarrow> ('r \<Rightarrow> 'y) \<Rightarrow> (tenant_db \<Rightarrow> ('r \<times> tenant_db) result)
     \<Rightarrow> admin_env \<Rightarrow> admin_state \<Rightarrow> ('y \<times> admin_state) result"
where
  "admin_create entity s snap view create1 c st = require_admin c
     (bind_result (or_conflict (on_config create1 st)) (\<lambda>(row, st').
        written c (entity @ ''.create'') (entity_target entity s) (before_after JNull (snap row)) (view row) st'))"

definition admin_update ::
  "string \<Rightarrow> string \<Rightarrow> ('r \<Rightarrow> json) \<Rightarrow> ('r \<Rightarrow> 'y) \<Rightarrow> (tenant_db \<Rightarrow> 'r option result)
     \<Rightarrow> (tenant_db \<Rightarrow> ('r option \<times> tenant_db) result) \<Rightarrow> admin_env \<Rightarrow> admin_state \<Rightarrow> ('y \<times> admin_state) result"
where
  "admin_update entity s snap view read change c st = require_admin c
     (bind_result (found (read (ad_db st))) (\<lambda>before.
      bind_result (on_config change st) (\<lambda>(r, st').
        case r of
          None \<Rightarrow> Inl AssertionError
        | Some row \<Rightarrow> written c (entity @ ''.update'') (entity_target entity s) (before_after (snap before) (snap row))
            (view row) st')))"

definition admin_delete ::
  "string \<Rightarrow> string \<Rightarrow> ('r \<Rightarrow> json) \<Rightarrow> (tenant_db \<Rightarrow> 'r option result) \<Rightarrow> (tenant_db \<Rightarrow> (bool \<times> tenant_db) result)
     \<Rightarrow> admin_env \<Rightarrow> admin_state \<Rightarrow> (unit \<times> admin_state) result"
where
  "admin_delete entity s snap read drop1 c st = require_admin c
     (bind_result (found (read (ad_db st))) (\<lambda>before.
      bind_result (or_gone (on_config drop1 st)) (\<lambda>(_, st').
        written c (entity @ ''.delete'') (entity_target entity s) (before_after (snap before) JNull) () st')))"

end
