(* ===== verification/Admin_Routes.thy ===== *)
theory Admin_Routes
  imports Admin_Base
begin

text \<open>
  \<open>web/routes/admin.py\<close>: official skills, instructions, commands, MCP servers and cron jobs.
  Versions, users, usage, the audit log, promotion candidates and MCP health are in \<open>Admin_Views\<close>.
\<close>

subsection \<open>Skills\<close>

record admin_skill_out =
  ask_slug :: string
  ask_version :: int
  ask_is_current :: bool
  ask_mandatory :: bool
  ask_enabled_default :: bool
  ask_frontmatter :: dict
  ask_body :: string

record admin_skill_create_in =
  aski_slug :: string
  aski_frontmatter :: dict
  aski_body :: string
  aski_mandatory :: bool
  aski_enabled_default :: bool

record admin_skill_update_in =
  asku_frontmatter :: "dict option"
  asku_body :: "string option"
  asku_mandatory :: "bool option"
  asku_enabled_default :: "bool option"

definition skill_to_admin_out :: "skill_row \<Rightarrow> admin_skill_out" where
  "skill_to_admin_out s = \<lparr>ask_slug = slug s, ask_version = version s, ask_is_current = is_current s,
     ask_mandatory = mandatory s, ask_enabled_default = enabled_default s, ask_frontmatter = frontmatter s,
     ask_body = body s\<rparr>"

definition skill_snapshot :: "skill_row \<Rightarrow> json" where
  "skill_snapshot s = JObj [(''version'', JInt (version s)), (''mandatory'', JBool (mandatory s)),
     (''enabled_default'', JBool (enabled_default s)), (''frontmatter'', JObj (frontmatter s)), (''body'', JStr (body s))]"

definition list_admin_skills :: "admin_env \<Rightarrow> admin_state \<Rightarrow> admin_skill_out list result" where
  "list_admin_skills c st = require_admin c (Inr (map skill_to_admin_out (skill_list_official (db_skills (ad_db st)))))"

definition create_admin_skill ::
  "admin_skill_create_in \<Rightarrow> admin_env \<Rightarrow> admin_state \<Rightarrow> (admin_skill_out \<times> admin_state) result"
where
  "create_admin_skill b c = admin_create ''skill'' (aski_slug b) skill_snapshot skill_to_admin_out
     (on_skills (skill_create_official (en_rev c) (en_fresh c) (aski_slug b)
        \<lparr>sa_frontmatter = aski_frontmatter b, sa_body = aski_body b, sa_mandatory = aski_mandatory b,
         sa_enabled_default = aski_enabled_default b, sa_created_by = Some (en_user c)\<rparr>)) c"

definition get_admin_skill :: "string \<Rightarrow> admin_env \<Rightarrow> admin_state \<Rightarrow> admin_skill_out result" where
  "get_admin_skill s c st = require_admin c
     (shown skill_to_admin_out (found (skill_get_official s (db_skills (ad_db st)))))"

definition update_admin_skill ::
  "string \<Rightarrow> admin_skill_update_in \<Rightarrow> admin_env \<Rightarrow> admin_state \<Rightarrow> (admin_skill_out \<times> admin_state) result"
where
  "update_admin_skill s b c = admin_update ''skill'' s skill_snapshot skill_to_admin_out
     (\<lambda>db. skill_get_official s (db_skills db))
     (on_skills (skill_update_official (en_rev c) (en_fresh c) s
        \<lparr>sc_frontmatter = asku_frontmatter b, sc_body = asku_body b, sc_mandatory = asku_mandatory b,
         sc_enabled_default = asku_enabled_default b, sc_created_by = Some (en_user c)\<rparr>)) c"

definition delete_admin_skill :: "string \<Rightarrow> admin_env \<Rightarrow> admin_state \<Rightarrow> (unit \<times> admin_state) result" where
  "delete_admin_skill s c = admin_delete ''skill'' s skill_snapshot (\<lambda>db. skill_get_official s (db_skills db))
     (on_skills (skill_delete_official (en_rev c) s)) c"

subsection \<open>Instructions\<close>

record admin_instruction_out =
  ain_slug :: string
  ain_version :: int
  ain_is_current :: bool
  ain_mandatory :: bool
  ain_priority :: int
  ain_body :: string

record admin_instruction_create_in =
  aini_slug :: string
  aini_body :: string
  aini_priority :: int
  aini_mandatory :: bool

record admin_instruction_update_in =
  ainu_body :: "string option"
  ainu_priority :: "int option"
  ainu_mandatory :: "bool option"

definition instruction_to_admin_out :: "instruction_row \<Rightarrow> admin_instruction_out" where
  "instruction_to_admin_out i = \<lparr>ain_slug = slug i, ain_version = version i, ain_is_current = is_current i,
     ain_mandatory = mandatory i, ain_priority = priority i, ain_body = i_body i\<rparr>"

definition instruction_snapshot :: "instruction_row \<Rightarrow> json" where
  "instruction_snapshot i = JObj [(''version'', JInt (version i)), (''mandatory'', JBool (mandatory i)),
     (''priority'', JInt (priority i)), (''body'', JStr (i_body i))]"

definition list_admin_instructions :: "admin_env \<Rightarrow> admin_state \<Rightarrow> admin_instruction_out list result" where
  "list_admin_instructions c st = require_admin c
     (Inr (map instruction_to_admin_out (instruction_list_official (db_instructions (ad_db st)))))"

definition create_admin_instruction ::
  "admin_instruction_create_in \<Rightarrow> admin_env \<Rightarrow> admin_state \<Rightarrow> (admin_instruction_out \<times> admin_state) result"
where
  "create_admin_instruction b c = admin_create ''instruction'' (aini_slug b) instruction_snapshot instruction_to_admin_out
     (on_instructions (instruction_create_official (en_rev c) (en_fresh c) (aini_slug b)
        \<lparr>ia_body = aini_body b, ia_priority = aini_priority b, ia_mandatory = aini_mandatory b,
         ia_created_by = Some (en_user c)\<rparr>)) c"

definition get_admin_instruction :: "string \<Rightarrow> admin_env \<Rightarrow> admin_state \<Rightarrow> admin_instruction_out result" where
  "get_admin_instruction s c st = require_admin c
     (shown instruction_to_admin_out (found (instruction_get_official s (db_instructions (ad_db st)))))"

definition update_admin_instruction ::
  "string \<Rightarrow> admin_instruction_update_in \<Rightarrow> admin_env \<Rightarrow> admin_state \<Rightarrow> (admin_instruction_out \<times> admin_state) result"
where
  "update_admin_instruction s b c = admin_update ''instruction'' s instruction_snapshot instruction_to_admin_out
     (\<lambda>db. instruction_get_official s (db_instructions db))
     (on_instructions (instruction_update_official (en_rev c) (en_fresh c) s
        \<lparr>ic_body = ainu_body b, ic_priority = ainu_priority b, ic_mandatory = ainu_mandatory b,
         ic_created_by = Some (en_user c)\<rparr>)) c"

definition delete_admin_instruction :: "string \<Rightarrow> admin_env \<Rightarrow> admin_state \<Rightarrow> (unit \<times> admin_state) result" where
  "delete_admin_instruction s c = admin_delete ''instruction'' s instruction_snapshot
     (\<lambda>db. instruction_get_official s (db_instructions db)) (on_instructions (instruction_delete_official (en_rev c) s)) c"

subsection \<open>Commands\<close>

record admin_command_out =
  aco_slug :: string
  aco_version :: int
  aco_is_current :: bool
  aco_mandatory :: bool
  aco_description :: "string option"
  aco_prompt_tpl :: string
  aco_arg_schema :: "dict option"
  aco_bind_skills :: "string list option"

record admin_command_create_in =
  acoi_slug :: string
  acoi_prompt_tpl :: string
  acoi_description :: "string option"
  acoi_arg_schema :: "dict option"
  acoi_bind_skills :: "string list option"
  acoi_mandatory :: bool

record admin_command_update_in =
  acou_prompt_tpl :: "string option"
  acou_description :: "string option"
  acou_arg_schema :: "dict option"
  acou_bind_skills :: "string list option"
  acou_mandatory :: "bool option"

definition command_to_admin_out :: "command_row \<Rightarrow> admin_command_out" where
  "command_to_admin_out r = \<lparr>aco_slug = slug r, aco_version = version r, aco_is_current = is_current r,
     aco_mandatory = mandatory r, aco_description = description r, aco_prompt_tpl = prompt_tpl r,
     aco_arg_schema = arg_schema r, aco_bind_skills = some_names (bind_skills r)\<rparr>"

text \<open>An empty schema or list counts as none.\<close>

definition command_snapshot :: "command_row \<Rightarrow> json" where
  "command_snapshot r = JObj [(''version'', JInt (version r)), (''mandatory'', JBool (mandatory r)),
     (''description'', opt_json JStr (description r)), (''prompt_tpl'', JStr (prompt_tpl r)),
     (''arg_schema'', opt_json JObj (if arg_schema r = Some [] then None else arg_schema r)),
     (''bind_skills'', opt_json (\<lambda>ns. JArr (map JStr ns)) (some_names (bind_skills r)))]"

definition list_admin_commands :: "admin_env \<Rightarrow> admin_state \<Rightarrow> admin_command_out list result" where
  "list_admin_commands c st = require_admin c
     (Inr (map command_to_admin_out (command_list_official (db_commands (ad_db st)))))"

definition create_admin_command ::
  "admin_command_create_in \<Rightarrow> admin_env \<Rightarrow> admin_state \<Rightarrow> (admin_command_out \<times> admin_state) result"
where
  "create_admin_command b c = admin_create ''command'' (acoi_slug b) command_snapshot command_to_admin_out
     (on_commands (command_create_official (en_rev c) (en_fresh c) (acoi_slug b)
        \<lparr>ca_prompt_tpl = acoi_prompt_tpl b, ca_description = acoi_description b, ca_arg_schema = acoi_arg_schema b,
         ca_bind_skills = acoi_bind_skills b, ca_mandatory = acoi_mandatory b, ca_created_by = Some (en_user c)\<rparr>)) c"

definition get_admin_command :: "string \<Rightarrow> admin_env \<Rightarrow> admin_state \<Rightarrow> admin_command_out result" where
  "get_admin_command s c st = require_admin c
     (shown command_to_admin_out (found (command_get_official s (db_commands (ad_db st)))))"

definition update_admin_command ::
  "string \<Rightarrow> admin_command_update_in \<Rightarrow> admin_env \<Rightarrow> admin_state \<Rightarrow> (admin_command_out \<times> admin_state) result"
where
  "update_admin_command s b c = admin_update ''command'' s command_snapshot command_to_admin_out
     (\<lambda>db. command_get_official s (db_commands db))
     (on_commands (command_update_official (en_rev c) (en_fresh c) s
        \<lparr>cc_prompt_tpl = acou_prompt_tpl b, cc_description = acou_description b, cc_arg_schema = acou_arg_schema b,
         cc_bind_skills = acou_bind_skills b, cc_mandatory = acou_mandatory b, cc_created_by = Some (en_user c)\<rparr>)) c"

definition delete_admin_command :: "string \<Rightarrow> admin_env \<Rightarrow> admin_state \<Rightarrow> (unit \<times> admin_state) result" where
  "delete_admin_command s c = admin_delete ''command'' s command_snapshot
     (\<lambda>db. command_get_official s (db_commands db)) (on_commands (command_delete_official (en_rev c) s)) c"

subsection \<open>MCP servers\<close>

record admin_mcp_out =
  amo_slug :: string
  amo_version :: int
  amo_is_current :: bool
  amo_url :: string
  amo_auth_header :: "string option"
  amo_has_auth_value :: bool
  amo_cache_tools_list :: bool
  amo_enabled :: bool
  amo_mandatory :: bool

record admin_mcp_create_in =
  amoi_slug :: string
  amoi_url :: string
  amoi_auth_header :: "string option"
  amoi_auth_value :: "pystr option"
  amoi_cache_tools_list :: bool
  amoi_enabled :: bool
  amoi_mandatory :: bool

record admin_mcp_update_in =
  amou_url :: "string option"
  amou_auth_header :: "string option"
  amou_auth_value :: "pystr option"
  amou_clear_auth_value :: bool
  amou_cache_tools_list :: "bool option"
  amou_enabled :: "bool option"
  amou_mandatory :: "bool option"

definition mcp_to_admin_out :: "mcp_row \<Rightarrow> admin_mcp_out" where
  "mcp_to_admin_out m = \<lparr>amo_slug = slug m, amo_version = version m, amo_is_current = is_current m, amo_url = url m,
     amo_auth_header = auth_header m, amo_has_auth_value = (auth_value_ct m \<noteq> None),
     amo_cache_tools_list = cache_tools_list m, amo_enabled = m_enabled m, amo_mandatory = mandatory m\<rparr>"

definition mcp_snapshot :: "mcp_row \<Rightarrow> json" where
  "mcp_snapshot m = JObj [(''version'', JInt (version m)), (''mandatory'', JBool (mandatory m)), (''url'', JStr (url m)),
     (''auth_header'', opt_json JStr (auth_header m)), (''has_auth_value'', JBool (auth_value_ct m \<noteq> None)),
     (''cache_tools_list'', JBool (cache_tools_list m)), (''enabled'', JBool (m_enabled m))]"

definition list_admin_mcp :: "admin_env \<Rightarrow> admin_state \<Rightarrow> admin_mcp_out list result" where
  "list_admin_mcp c st = require_admin c (Inr (map mcp_to_admin_out (mcp_list_official (db_mcp_servers (ad_db st)))))"

definition create_admin_mcp ::
  "admin_mcp_create_in \<Rightarrow> admin_env \<Rightarrow> admin_state \<Rightarrow> (admin_mcp_out \<times> admin_state) result"
where
  "create_admin_mcp b c = admin_create ''mcp_server'' (amoi_slug b) mcp_snapshot mcp_to_admin_out
     (on_mcp_servers (mcp_create_official (en_kms c) (en_rev c) (en_fresh c) (amoi_slug b)
        \<lparr>ma_url = amoi_url b, ma_auth_header = amoi_auth_header b, ma_auth_value = amoi_auth_value b,
         ma_cache_tools_list = amoi_cache_tools_list b, ma_enabled = amoi_enabled b, ma_mandatory = amoi_mandatory b\<rparr>)) c"

definition get_admin_mcp :: "string \<Rightarrow> admin_env \<Rightarrow> admin_state \<Rightarrow> admin_mcp_out result" where
  "get_admin_mcp s c st = require_admin c
     (shown mcp_to_admin_out (found (mcp_get_official s (db_mcp_servers (ad_db st)))))"

definition update_admin_mcp ::
  "string \<Rightarrow> admin_mcp_update_in \<Rightarrow> admin_env \<Rightarrow> admin_state \<Rightarrow> (admin_mcp_out \<times> admin_state) result"
where
  "update_admin_mcp s b c = admin_update ''mcp_server'' s mcp_snapshot mcp_to_admin_out
     (\<lambda>db. mcp_get_official s (db_mcp_servers db))
     (on_mcp_servers (mcp_update_official (en_kms c) (en_rev c) (en_fresh c) s
        \<lparr>mc_url = amou_url b, mc_auth_header = amou_auth_header b, mc_auth_value = amou_auth_value b,
         mc_clear_auth_value = amou_clear_auth_value b, mc_cache_tools_list = amou_cache_tools_list b,
         mc_enabled = amou_enabled b, mc_mandatory = amou_mandatory b\<rparr>)) c"

definition delete_admin_mcp :: "string \<Rightarrow> admin_env \<Rightarrow> admin_state \<Rightarrow> (unit \<times> admin_state) result" where
  "delete_admin_mcp s c = admin_delete ''mcp_server'' s mcp_snapshot
     (\<lambda>db. mcp_get_official s (db_mcp_servers db)) (on_mcp_servers (mcp_delete_official (en_rev c) s)) c"

subsection \<open>Cron jobs\<close>

record admin_cron_out =
  acj_slug :: string
  acj_cron_expr :: string
  acj_prompt :: string
  acj_webhook_url :: "string option"
  acj_enabled :: bool
  acj_mandatory :: bool

record admin_cron_create_in =
  acji_slug :: string
  acji_cron_expr :: string
  acji_prompt :: string
  acji_webhook_url :: "string option"
  acji_enabled :: bool
  acji_mandatory :: bool

record admin_cron_update_in =
  acju_cron_expr :: "string option"
  acju_prompt :: "string option"
  acju_webhook_url :: "string option"
  acju_clear_webhook_url :: bool
  acju_enabled :: "bool option"
  acju_mandatory :: "bool option"

definition cron_to_admin_out :: "cron_row \<Rightarrow> admin_cron_out" where
  "cron_to_admin_out r = \<lparr>acj_slug = slug r, acj_cron_expr = cron_expr r, acj_prompt = cr_prompt r,
     acj_webhook_url = webhook_url r, acj_enabled = cr_enabled r, acj_mandatory = mandatory r\<rparr>"

definition cron_snapshot :: "cron_row \<Rightarrow> json" where
  "cron_snapshot r = JObj [(''cron_expr'', JStr (cron_expr r)), (''prompt'', JStr (cr_prompt r)),
     (''webhook_url'', opt_json JStr (webhook_url r)), (''enabled'', JBool (cr_enabled r)),
     (''mandatory'', JBool (mandatory r))]"

definition list_admin_cron :: "admin_env \<Rightarrow> admin_state \<Rightarrow> admin_cron_out list result" where
  "list_admin_cron c st = require_admin c (Inr (map cron_to_admin_out (cron_list_official (db_cron_jobs (ad_db st)))))"

definition create_admin_cron ::
  "admin_cron_create_in \<Rightarrow> admin_env \<Rightarrow> admin_state \<Rightarrow> (admin_cron_out \<times> admin_state) result"
where
  "create_admin_cron b c = admin_create ''cron_job'' (acji_slug b) cron_snapshot cron_to_admin_out
     (on_cron_jobs (cron_create_official (en_rev c) (en_fresh c) (acji_slug b)
        \<lparr>ra_cron_expr = acji_cron_expr b, ra_prompt = acji_prompt b, ra_webhook_url = acji_webhook_url b,
         ra_enabled = acji_enabled b, ra_mandatory = acji_mandatory b\<rparr>)) c"

definition get_admin_cron :: "string \<Rightarrow> admin_env \<Rightarrow> admin_state \<Rightarrow> admin_cron_out result" where
  "get_admin_cron s c st = require_admin c
     (shown cron_to_admin_out (found (cron_get_official s (db_cron_jobs (ad_db st)))))"

definition update_admin_cron ::
  "string \<Rightarrow> admin_cron_update_in \<Rightarrow> admin_env \<Rightarrow> admin_state \<Rightarrow> (admin_cron_out \<times> admin_state) result"
where
  "update_admin_cron s b c = admin_update ''cron_job'' s cron_snapshot cron_to_admin_out
     (\<lambda>db. cron_get_official s (db_cron_jobs db))
     (on_cron_jobs (cron_update_official (en_rev c) s
        \<lparr>rc_cron_expr = acju_cron_expr b, rc_prompt = acju_prompt b, rc_webhook_url = acju_webhook_url b,
         rc_clear_webhook_url = acju_clear_webhook_url b, rc_enabled = acju_enabled b, rc_mandatory = acju_mandatory b\<rparr>)) c"

definition delete_admin_cron :: "string \<Rightarrow> admin_env \<Rightarrow> admin_state \<Rightarrow> (unit \<times> admin_state) result" where
  "delete_admin_cron s c = admin_delete ''cron_job'' s cron_snapshot
     (\<lambda>db. cron_get_official s (db_cron_jobs db)) (on_cron_jobs (\<lambda>t. Inr (cron_delete_official s t))) c"

end
