(* ===== verification/Admin_Views.thy ===== *)
theory Admin_Views
  imports Admin_Routes
begin

text \<open>
  The rest of \<open>web/routes/admin.py\<close>: version history and rollback, users and usage, the audit log,
  promotion candidates and the reachability of the official MCP servers.
\<close>

subsection \<open>Versions and rollback\<close>

record version_view =
  vv_version :: int
  vv_is_current :: bool
  vv_mandatory :: bool

definition version_to_view :: "'a versioned_row_scheme \<Rightarrow> version_view" where
  "version_to_view r = \<lparr>vv_version = version r, vv_is_current = is_current r, vv_mandatory = mandatory r\<rparr>"

text \<open>\<open>_VERSIONED_REPOS\<close> by the entity of the path; cron jobs have no versions.\<close>

definition versions_of :: "string \<Rightarrow> string \<Rightarrow> tenant_db \<Rightarrow> version_view list result" where
  "versions_of entity s db =
     (if entity = ''skills'' then Inr (map version_to_view (skill_list_versions s (db_skills db)))
      else if entity = ''instructions'' then Inr (map version_to_view (instruction_list_versions s (db_instructions db)))
      else if entity = ''commands'' then Inr (map version_to_view (command_list_versions s (db_commands db)))
      else if entity = ''mcp-servers'' then Inr (map version_to_view (mcp_list_versions s (db_mcp_servers db)))
      else Inl (http_error NOT_FOUND))"

definition list_versions :: "string \<Rightarrow> string \<Rightarrow> admin_env \<Rightarrow> admin_state \<Rightarrow> version_view list result" where
  "list_versions entity s c st = require_admin c
     (bind_result (versions_of entity s (ad_db st)) (\<lambda>rows.
        if rows = [] then Inl (http_error NOT_FOUND) else Inr rows))"

text \<open>The row the rollback returns, as its version view.\<close>

definition as_view :: "('a versioned_row_scheme option \<times> 'd) result \<Rightarrow> (version_view option \<times> 'd) result" where
  "as_view r = bind_result r (\<lambda>(x, db). Inr (map_option version_to_view x, db))"

definition roll_back_to :: "string \<Rightarrow> string \<Rightarrow> int \<Rightarrow> admin_env \<Rightarrow> tenant_db \<Rightarrow> (version_view option \<times> tenant_db) result" where
  "roll_back_to entity s v c db =
     (if entity = ''skills'' then as_view (on_skills (skill_rollback_official (en_rev c) s v) db)
      else if entity = ''instructions'' then as_view (on_instructions (instruction_rollback_official (en_rev c) s v) db)
      else if entity = ''commands'' then as_view (on_commands (command_rollback_official (en_rev c) s v) db)
      else if entity = ''mcp-servers'' then as_view (on_mcp_servers (mcp_rollback_official (en_rev c) s v) db)
      else Inl (http_error NOT_FOUND))"

text \<open>The action is the entity of the path without its last s.\<close>

definition rollback_action :: "string \<Rightarrow> string" where
  "rollback_action entity =
     (if entity \<noteq> [] \<and> last entity = CHR ''s'' then butlast entity else entity) @ ''.rollback''"

definition rollback_official ::
  "string \<Rightarrow> string \<Rightarrow> int \<Rightarrow> admin_env \<Rightarrow> admin_state \<Rightarrow> ((string \<times> int \<times> bool) \<times> admin_state) result"
where
  "rollback_official entity s v c st = require_admin c
     (bind_result (or_missing (on_config (roll_back_to entity s v c) st)) (\<lambda>(t, st').
        written c (rollback_action entity) (entity_target entity s) (JObj [(''rolled_back_to_version'', JInt v)])
          (s, vv_version t, vv_is_current t) st'))"

subsection \<open>Users and usage\<close>

record admin_user_out =
  auo_id :: string
  auo_external_id :: string
  auo_role :: string
  auo_created_at :: int

definition list_admin_users :: "admin_env \<Rightarrow> admin_state \<Rightarrow> admin_user_out list result" where
  "list_admin_users c st = require_admin c
     (listed (\<lambda>u. \<lparr>auo_id = uuid_str (ua_id u), auo_external_id = ua_external_id u, auo_role = ua_role u,
          auo_created_at = ua_created_at u\<rparr>)
        (pg_limit 500 (sort_key (\<lambda>u. - ua_created_at u) (ad_users st))))"

record usage_out_row =
  uo_day :: int
  uo_model :: string
  uo_input_tokens :: int
  uo_output_tokens :: int
  uo_cost_usd_micro :: int

text \<open>The UTC day of an event, counted from the epoch; time is in microseconds.\<close>

definition usage_slice :: "metered_event \<Rightarrow> int \<times> string" where
  "usage_slice x = (ue_ts x div 86400000000, ue_model x)"

definition usage_total :: "int \<times> string \<Rightarrow> metered_event list \<Rightarrow> usage_out_row" where
  "usage_total k xs = (let g = filter (\<lambda>x. usage_slice x = k) xs in
     \<lparr>uo_day = fst k, uo_model = snd k, uo_input_tokens = sum_list (map ue_input_tokens g),
      uo_output_tokens = sum_list (map ue_output_tokens g), uo_cost_usd_micro = sum_list (map ue_cost_usd_micro g)\<rparr>)"

definition usage_rows :: "metered_event list \<Rightarrow> usage_out_row list" where
  "usage_rows xs = map (\<lambda>k. usage_total k xs)
     (sort_key (\<lambda>(d, m). (- d, m)) (remdups (map usage_slice xs)))"

definition get_user_usage :: "uuid option \<Rightarrow> admin_env \<Rightarrow> admin_state \<Rightarrow> usage_out_row list result" where
  "get_user_usage ref c st = require_admin c
     (case ref of
        None \<Rightarrow> Inl (http_error NOT_FOUND)
      | Some u \<Rightarrow> Inr (usage_rows (filter (\<lambda>x. ue_user x = u) (ad_usage st))))"

subsection \<open>The audit log\<close>

record audit_out =
  ao_audit_id :: int
  ao_ts :: int
  ao_actor_id :: string
  ao_actor_role :: string
  ao_action :: string
  ao_target :: json
  ao_diff :: json
  ao_request_id :: "string option"

definition audit_to_out :: "audit_row \<Rightarrow> audit_out" where
  "audit_to_out a = \<lparr>ao_audit_id = au_id a, ao_ts = au_ts a, ao_actor_id = uuid_str (au_actor a),
     ao_actor_role = au_role a, ao_action = au_action a, ao_target = au_target a,
     ao_diff = (if truthy (au_diff a) then au_diff a else JNull), ao_request_id = map_option uuid_str (au_request a)\<rparr>"

text \<open>An actor that is no UUID raises in the repository.\<close>

definition list_audit_log ::
  "uuid option option \<Rightarrow> string option \<Rightarrow> int option \<Rightarrow> int \<Rightarrow> admin_env \<Rightarrow> admin_state \<Rightarrow> audit_out list result"
where
  "list_audit_log actor action since most c st = require_admin c
     (if actor = Some None then Inl ValueError
      else listed audit_to_out (audit_list (Option.bind actor id) action since most (ad_log st)))"

subsection \<open>Promotion candidates\<close>

record candidate_out =
  cn_id :: string
  cn_frontmatter_name :: string
  cn_unique_users :: int
  cn_use_count :: int
  cn_success_rate :: rat
  cn_status :: string
  cn_reason :: "string option"
  cn_promoted_skill :: "string option"
  cn_generated_at :: int
  cn_decided_at :: "int option"

definition candidate_to_out :: "candidate_row \<Rightarrow> candidate_out" where
  "candidate_to_out c = \<lparr>cn_id = uuid_str (pc_id c), cn_frontmatter_name = pc_frontmatter_name c,
     cn_unique_users = pc_unique_users c, cn_use_count = pc_use_count c, cn_success_rate = pc_success_rate c,
     cn_status = pc_status c, cn_reason = pc_reason c, cn_promoted_skill = map_option uuid_str (pc_promoted_skill c),
     cn_generated_at = pc_generated_at c, cn_decided_at = pc_decided_at c\<rparr>"

definition list_skill_candidates ::
  "string option \<Rightarrow> int \<Rightarrow> int \<Rightarrow> admin_env \<Rightarrow> admin_state \<Rightarrow> candidate_out list result"
where
  "list_skill_candidates status most off c st = require_admin c
     (listed candidate_to_out (candidate_list_all status most off (ad_candidates st)))"

text \<open>The pending candidate of an id in the path.\<close>

definition open_candidate :: "uuid option \<Rightarrow> admin_state \<Rightarrow> candidate_row result" where
  "open_candidate ref st =
     (case ref of
        None \<Rightarrow> Inl (http_error NOT_FOUND)
      | Some i \<Rightarrow> bind_result (found (candidate_get i (ad_candidates st))) (\<lambda>x.
          if pc_status x \<noteq> ''pending'' then Inl (http_error CONFLICT) else Inr x))"

text \<open>Version 1 of a new official skill, or the next version of the existing one.\<close>

definition promote_skill :: "skill_row \<Rightarrow> admin_env \<Rightarrow> tenant_db \<Rightarrow> (skill_row \<times> tenant_db) result" where
  "promote_skill source c db =
     bind_result (skill_get_official (slug source) (db_skills db)) (\<lambda>existing.
       case existing of
         None \<Rightarrow> on_skills (skill_create_official (en_rev c) (en_fresh c) (slug source)
           \<lparr>sa_frontmatter = frontmatter source, sa_body = body source, sa_mandatory = False,
            sa_enabled_default = True, sa_created_by = Some (en_user c)\<rparr>) db
       | Some x \<Rightarrow>
           bind_result (on_skills (skill_update_official (en_rev c) (en_fresh c) (slug source)
             \<lparr>sc_frontmatter = Some (frontmatter source), sc_body = Some (body source), sc_mandatory = None,
              sc_enabled_default = None, sc_created_by = Some (en_user c)\<rparr>) db) (\<lambda>(r, db').
           case r of None \<Rightarrow> Inl AssertionError | Some y \<Rightarrow> Inr (y, db')))"

definition asserted :: "('x option \<times> 'd) result \<Rightarrow> ('x \<times> 'd) result" where
  "asserted r = bind_result r (\<lambda>(x, st). case x of None \<Rightarrow> Inl AssertionError | Some y \<Rightarrow> Inr (y, st))"

text \<open>The rate of the audit row is a number of JSON, whose text is \<open>num\<close>.\<close>

definition promote_skill_candidate ::
  "(rat \<Rightarrow> json) \<Rightarrow> uuid option \<Rightarrow> admin_env \<Rightarrow> admin_state \<Rightarrow> (candidate_out \<times> admin_state) result"
where
  "promote_skill_candidate num ref c st = require_admin c
     (bind_result (open_candidate ref st) (\<lambda>x.
      bind_result (found (get_source_skill (pc_source_skill x) (db_skills (ad_db st)))) (\<lambda>source.
      bind_result (on_config (promote_skill source c) st) (\<lambda>(promoted, st1).
      bind_result (asserted (on_candidates (mark_promoted (pc_id x) (en_user c) (rid promoted) (en_now c)) st1)) (\<lambda>(y, st2).
        written c ''skill_candidate.promote''
          (JObj [(''entity'', JStr ''skill_candidate''), (''candidate_id'', JStr (uuid_str (pc_id x))),
             (''frontmatter_name'', JStr (pc_frontmatter_name x)), (''official_skill_slug'', JStr (slug source)),
             (''official_skill_id'', JStr (uuid_str (rid promoted))), (''source_user_id'', JStr ''[redacted]''),
             (''source_skill_id'', JStr ''[redacted]'')])
          (before_after JNull (JObj [(''version'', JInt (version promoted)), (''unique_user_count'', JInt (pc_unique_users x)),
             (''use_count'', JInt (pc_use_count x)), (''success_rate'', num (pc_success_rate x))]))
          (candidate_to_out y) st2)))))"

definition reject_skill_candidate ::
  "uuid option \<Rightarrow> string option \<Rightarrow> admin_env \<Rightarrow> admin_state \<Rightarrow> (candidate_out \<times> admin_state) result"
where
  "reject_skill_candidate ref reason c st = require_admin c
     (bind_result (open_candidate ref st) (\<lambda>x.
      bind_result (asserted (on_candidates (mark_rejected (pc_id x) (en_user c) reason (en_now c)) st)) (\<lambda>(y, st1).
      bind_result (audit c ''skill_candidate.reject''
        (JObj [(''entity'', JStr ''skill_candidate''), (''candidate_id'', JStr (uuid_str (pc_id x))),
           (''frontmatter_name'', JStr (pc_frontmatter_name x)), (''source_user_id'', JStr ''[redacted]''),
           (''source_skill_id'', JStr ''[redacted]'')])
        (JObj [(''reason'', opt_json JStr reason)]) st1) (\<lambda>st2. Inr (candidate_to_out y, st2)))))"

subsection \<open>MCP health\<close>

record health_row =
  hr_slug :: string
  hr_url :: string
  hr_ok :: bool
  hr_detail :: string

definition mcp_health :: "(string \<Rightarrow> head_reply) \<Rightarrow> admin_env \<Rightarrow> admin_state \<Rightarrow> health_row list result" where
  "mcp_health head c st = require_admin c
     (map_result (\<lambda>r. bind_result (head_outcome (head (url r))) (\<lambda>(ok, detail).
        Inr \<lparr>hr_slug = slug r, hr_url = url r, hr_ok = ok, hr_detail = detail\<rparr>))
        (mcp_list_official (db_mcp_servers (ad_db st))))"

end
