(* ===== verification/Admin_Facts.thy ===== *)
theory Admin_Facts
  imports Admin_Views
begin

text \<open>
  Who may write official configuration and what a write leaves behind: one audit row and an empty
  configuration cache; and what the audit log tells about the official skills.
\<close>

subsection \<open>The end of a write\<close>

definition audited :: "admin_env \<Rightarrow> admin_state \<Rightarrow> admin_state \<Rightarrow> bool" where
  "audited c st st' \<longleftrightarrow> en_role c = ''admin'' \<and>
     (\<exists>a. ac_audit (ad_log st') = ac_audit (ad_log st) @ [a] \<and> au_actor a = en_user c \<and> au_role a = ''admin'' \<and>
        au_id a = en_audit_id c \<and> au_ts a = en_now c) \<and> ac_users (ad_log st') = ac_users (ad_log st)"

definition cache_empty :: "admin_state \<Rightarrow> bool" where
  "cache_empty st \<longleftrightarrow> (\<forall>r k. ad_redis st = Some r \<longrightarrow> take 10 k = ''effective:'' \<longrightarrow> r k = None)"

lemma require_admin_Inr: "require_admin c r = Inr x \<longleftrightarrow> en_role c = ''admin'' \<and> r = Inr x"
  by (simp add: require_admin_def)

lemma audit_Inr:
  "audit c act t d st = Inr st' \<longleftrightarrow> en_user c \<in> set (ac_users (ad_log st)) \<and>
     st' = st\<lparr>ad_log := (ad_log st)\<lparr>ac_audit := ac_audit (ad_log st) @
       [\<lparr>au_id = en_audit_id c, au_ts = en_now c, au_actor = en_user c, au_role = en_role c, au_action = act,
         au_target = t, au_diff = d, au_request = en_request_id c\<rparr>]\<rparr>\<rparr>"
  by (auto simp: audit_def audit_log_write_def Let_def)

lemma invalidated_simps [simp]:
  "ad_db (invalidated st) = ad_db st" "ad_log (invalidated st) = ad_log st" "cache_empty (invalidated st)"
  by (auto simp: invalidated_def publish_invalidation_def cache_empty_def evict_all_def split: option.splits)

lemma written_Inr:
  assumes "written c act t d y st = Inr (x, st')"
  shows "x = y \<and> ad_db st' = ad_db st \<and> cache_empty st' \<and> (\<exists>a. ac_audit (ad_log st') = ac_audit (ad_log st) @ [a] \<and>
    au_actor a = en_user c \<and> au_role a = en_role c \<and> au_id a = en_audit_id c \<and> au_ts a = en_now c \<and>
    au_target a = t \<and> au_diff a = d) \<and> ac_users (ad_log st') = ac_users (ad_log st)"
  using assms by (auto simp: written_def result_eqs audit_Inr)

lemma on_config_Inr: "on_config f st = Inr (x, st') \<longleftrightarrow> (\<exists>db. f (ad_db st) = Inr (x, db) \<and> st' = st\<lparr>ad_db := db\<rparr>)"
  by (auto simp: on_config_def result_eqs)

lemma on_candidates_log: "on_candidates f st = Inr (x, st') \<Longrightarrow> ad_log st' = ad_log st"
  by (auto simp: on_candidates_def result_eqs)

lemma written_audited:
  assumes "written c act t d y st1 = Inr (x, st')" and "en_role c = ''admin''" and "ad_log st1 = ad_log st"
  shows "audited c st st' \<and> cache_empty st'"
  using written_Inr [OF assms(1)] assms(2,3) by (auto simp: audited_def)

lemma admin_create_audited:
  assumes "admin_create entity s snap view create1 c st = Inr (x, st')"
  shows "audited c st st' \<and> cache_empty st'"
proof -
  obtain t d y db where "written c (entity @ ''.create'') t d y (st\<lparr>ad_db := db\<rparr>) = Inr (x, st')" "en_role c = ''admin''"
    using assms by (force simp: admin_create_def require_admin_Inr result_eqs on_config_Inr)
  then show ?thesis by (rule written_audited) simp
qed

lemma admin_update_audited:
  assumes "admin_update entity s snap view read change c st = Inr (x, st')"
  shows "audited c st st' \<and> cache_empty st'"
proof -
  obtain t d y db where "written c (entity @ ''.update'') t d y (st\<lparr>ad_db := db\<rparr>) = Inr (x, st')" "en_role c = ''admin''"
    using assms by (force simp: admin_update_def require_admin_Inr result_eqs on_config_Inr split: option.splits)
  then show ?thesis by (rule written_audited) simp
qed

lemma admin_delete_audited:
  assumes "admin_delete entity s snap read drop1 c st = Inr (x, st')"
  shows "audited c st st' \<and> cache_empty st'"
proof -
  obtain t d db where "written c (entity @ ''.delete'') t d () (st\<lparr>ad_db := db\<rparr>) = Inr (x, st')" "en_role c = ''admin''"
    using assms by (force simp: admin_delete_def require_admin_Inr result_eqs on_config_Inr)
  then show ?thesis by (rule written_audited) simp
qed

subsection \<open>The writes of administrators\<close>

inductive official_write :: "admin_env \<Rightarrow> admin_state \<Rightarrow> admin_state \<Rightarrow> bool" where
  ow_create_skill: "create_admin_skill kb c st = Inr (kr, st') \<Longrightarrow> official_write c st st'"
| ow_update_skill: "update_admin_skill s kq c st = Inr (kr, st') \<Longrightarrow> official_write c st st'"
| ow_delete_skill: "delete_admin_skill s c st = Inr (x, st') \<Longrightarrow> official_write c st st'"
| ow_create_instruction: "create_admin_instruction ib c st = Inr (ir, st') \<Longrightarrow> official_write c st st'"
| ow_update_instruction: "update_admin_instruction s iq c st = Inr (ir, st') \<Longrightarrow> official_write c st st'"
| ow_delete_instruction: "delete_admin_instruction s c st = Inr (x, st') \<Longrightarrow> official_write c st st'"
| ow_create_command: "create_admin_command cb c st = Inr (cr, st') \<Longrightarrow> official_write c st st'"
| ow_update_command: "update_admin_command s cq c st = Inr (cr, st') \<Longrightarrow> official_write c st st'"
| ow_delete_command: "delete_admin_command s c st = Inr (x, st') \<Longrightarrow> official_write c st st'"
| ow_create_mcp: "create_admin_mcp mb c st = Inr (mr, st') \<Longrightarrow> official_write c st st'"
| ow_update_mcp: "update_admin_mcp s mq c st = Inr (mr, st') \<Longrightarrow> official_write c st st'"
| ow_delete_mcp: "delete_admin_mcp s c st = Inr (x, st') \<Longrightarrow> official_write c st st'"
| ow_create_cron: "create_admin_cron jb c st = Inr (jr, st') \<Longrightarrow> official_write c st st'"
| ow_update_cron: "update_admin_cron s jq c st = Inr (jr, st') \<Longrightarrow> official_write c st st'"
| ow_delete_cron: "delete_admin_cron s c st = Inr (x, st') \<Longrightarrow> official_write c st st'"

inductive admin_write :: "admin_env \<Rightarrow> admin_state \<Rightarrow> admin_state \<Rightarrow> bool" where
  aw_official: "official_write c st st' \<Longrightarrow> admin_write c st st'"
| aw_rollback: "rollback_official entity s v c st = Inr (rr, st') \<Longrightarrow> admin_write c st st'"
| aw_promote: "promote_skill_candidate num ref c st = Inr (cr, st') \<Longrightarrow> admin_write c st st'"
| aw_reject: "reject_skill_candidate ref reason c st = Inr (cr, st') \<Longrightarrow> admin_write c st st'"

lemma official_write_audited: "official_write c st st' \<Longrightarrow> audited c st st' \<and> cache_empty st'"
  by (cases rule: official_write.cases, assumption)
    (auto simp: create_admin_skill_def update_admin_skill_def delete_admin_skill_def create_admin_instruction_def
      update_admin_instruction_def delete_admin_instruction_def create_admin_command_def update_admin_command_def
      delete_admin_command_def create_admin_mcp_def update_admin_mcp_def delete_admin_mcp_def create_admin_cron_def
      update_admin_cron_def delete_admin_cron_def
      dest: admin_create_audited admin_update_audited admin_delete_audited)

lemma rollback_audited:
  assumes "rollback_official entity s v c st = Inr (x, st')"
  shows "audited c st st' \<and> cache_empty st'"
proof -
  obtain t d y db where "written c (rollback_action entity) t d y (st\<lparr>ad_db := db\<rparr>) = Inr (x, st')" "en_role c = ''admin''"
    using assms by (force simp: rollback_official_def require_admin_Inr result_eqs on_config_Inr)
  then show ?thesis by (rule written_audited) simp
qed

lemma asserted_log: "asserted (on_candidates f st) = Inr (x, st') \<Longrightarrow> ad_log st' = ad_log st"
  by (auto simp: asserted_def result_eqs dest: on_candidates_log split: option.splits)

lemma promote_audited:
  assumes "promote_skill_candidate num ref c st = Inr (x, st')"
  shows "audited c st st' \<and> cache_empty st'"
proof -
  obtain t d y db st2 f and z :: candidate_row where w: "written c ''skill_candidate.promote'' t d y st2 = Inr (x, st')" and "en_role c = ''admin''"
    and m: "asserted (on_candidates f (st\<lparr>ad_db := db\<rparr>)) = Inr (z, st2)"
    using assms by (clarsimp simp: promote_skill_candidate_def require_admin_Inr result_eqs on_config_Inr split: prod.splits)
  then show ?thesis by (intro written_audited [OF w]) (simp_all add: asserted_log [OF m])
qed

lemma reject_audited:
  assumes "reject_skill_candidate ref reason c st = Inr (x, st')"
  shows "audited c st st'"
  using assms
  by (auto simp: reject_skill_candidate_def require_admin_Inr result_eqs audit_Inr audited_def dest!: asserted_log)

lemma admin_write_audited: "admin_write c st st' \<Longrightarrow> audited c st st'"
  by (cases rule: admin_write.cases, assumption)
    (auto dest: official_write_audited rollback_audited promote_audited reject_audited)

text \<open>A run of writes with the requests that made them.\<close>

inductive admin_run :: "admin_env list \<Rightarrow> admin_state \<Rightarrow> admin_state \<Rightarrow> bool" where
  ar_none: "admin_run [] st st"
| ar_more: "admin_run cs st st1 \<Longrightarrow> admin_write c st1 st2 \<Longrightarrow> admin_run (cs @ [c]) st st2"

subsection \<open>What the log tells of a slug\<close>

definition after_of :: "json \<Rightarrow> json \<Rightarrow> json" where
  "after_of old d = (case d of JObj [(b, x), (a, y)] \<Rightarrow> y | _ \<Rightarrow> old)"

definition replay :: "string \<Rightarrow> audit_row list \<Rightarrow> json" where
  "replay s rows = foldl (\<lambda>cur a. if au_target a = entity_target ''skill'' s then after_of cur (au_diff a) else cur) JNull rows"

definition skill_now :: "string \<Rightarrow> tenant_db \<Rightarrow> json" where
  "skill_now s db = (case get_official_row s (db_skills db) of Inr (Some r) \<Rightarrow> skill_snapshot r | _ \<Rightarrow> JNull)"

lemma replay_snoc [simp]:
  "replay s (rows @ [a]) = (if au_target a = entity_target ''skill'' s then after_of (replay s rows) (au_diff a) else replay s rows)"
  by (simp add: replay_def)

lemma after_of_diff [simp]: "after_of old (before_after b a) = a"
  by (simp add: after_of_def before_after_def)

lemma entity_target_eq [simp]: "entity_target n s = entity_target m s' \<longleftrightarrow> n = m \<and> s = s'"
  by (auto simp: entity_target_def)

definition logged :: "admin_state \<Rightarrow> json \<Rightarrow> json \<Rightarrow> admin_state \<Rightarrow> bool" where
  "logged st t d st' \<longleftrightarrow> (\<exists>a. ac_audit (ad_log st') = ac_audit (ad_log st) @ [a] \<and> au_target a = t \<and> au_diff a = d)"

lemma admin_create_logged:
  assumes "admin_create entity s snap view create1 c st = Inr (x, st')"
  shows "\<exists>r. create1 (ad_db st) = Inr (r, ad_db st') \<and> logged st (entity_target entity s) (before_after JNull (snap r)) st'"
proof -
  obtain r db where r: "create1 (ad_db st) = Inr (r, db)"
    and w: "written c (entity @ ''.create'') (entity_target entity s) (before_after JNull (snap r)) (view r) (st\<lparr>ad_db := db\<rparr>) = Inr (x, st')"
    using assms by (auto simp: admin_create_def require_admin_Inr result_eqs on_config_Inr)
  with written_Inr [OF w] show ?thesis by (auto simp: logged_def)
qed

lemma admin_update_logged:
  assumes "admin_update entity s snap view read change c st = Inr (x, st')"
  shows "\<exists>b r. change (ad_db st) = Inr (Some r, ad_db st') \<and> logged st (entity_target entity s) (before_after b (snap r)) st'"
proof -
  obtain b r db where r: "change (ad_db st) = Inr (Some r, db)"
    and w: "written c (entity @ ''.update'') (entity_target entity s) (before_after (snap b) (snap r)) (view r) (st\<lparr>ad_db := db\<rparr>) = Inr (x, st')"
    using assms by (auto simp: admin_update_def require_admin_Inr result_eqs on_config_Inr split: option.splits)
  with written_Inr [OF w] show ?thesis by (auto simp: logged_def)
qed

lemma admin_delete_logged:
  assumes "admin_delete entity s snap read drop1 c st = Inr (x, st')"
  shows "\<exists>b. drop1 (ad_db st) = Inr (True, ad_db st') \<and> logged st (entity_target entity s) (before_after b JNull) st'"
proof -
  obtain b db where r: "drop1 (ad_db st) = Inr (True, db)"
    and w: "written c (entity @ ''.delete'') (entity_target entity s) (before_after (snap b) JNull) () (st\<lparr>ad_db := db\<rparr>) = Inr (x, st')"
    using assms by (auto simp: admin_delete_def require_admin_Inr result_eqs on_config_Inr)
  with written_Inr [OF w] show ?thesis by (auto simp: logged_def)
qed

subsection \<open>Official skills under their writes\<close>

lemma skill_create_now:
  assumes "skill_create_official sch n s a t = Inr (r, t')"
  shows "table_ok sch t' \<and> (\<forall>s'. get_official_row s' t' = (if s' = s then Inr (Some r) else get_official_row s' t))"
proof -
  have t': "table_ok sch t'" "r = skill_first n s a" "t' = t @ [r]"
    using assms by (auto simp: skill_create_official_def insert_row_def checked_eq_Inr)
  have "r \<in> set t' \<and> official_current r \<and> slug r = s"
    unfolding t'(3) by (simp add: t'(2) skill_first_def official_current_def)
  then have "get_official_row s t' = Inr (Some r)" by (simp only: get_official_row_Some [OF t'(1)])
  moreover have "get_official_row s' t' = get_official_row s' t" if "s' \<noteq> s" for s'
    using that t'(2,3) by (simp add: get_official_snoc skill_first_def)
  ultimately show ?thesis using t'(1) by simp
qed

lemma skill_update_now:
  assumes "table_ok sch t" and "skill_update_official sch n s a t = Inr (Some r, t')"
  shows "table_ok sch t' \<and> (\<forall>s'. get_official_row s' t' = (if s' = s then Inr (Some r) else get_official_row s' t))"
proof -
  obtain c where c: "get_official_row s t = Inr (Some c)" and r: "r = skill_bump n s a c"
    and t': "t' = retire_row c t @ [r]" "table_ok sch t'"
    using assms by (auto simp: skill_update_official_def update_official_row_def result_eqs insert_row_def checked_eq_Inr
        split: option.splits)
  have "slug c = s" using c by (simp add: get_official_row_Some [OF assms(1)])
  then have "official_successor c n r"
    unfolding r by (simp add: official_successor_def skill_bump_def)
  from get_official_after_update [OF assms(1) c this] t' show ?thesis by simp
qed

lemma skill_delete_now:
  assumes "table_ok sch t" and "skill_delete_official sch s t = Inr (True, t')"
  shows "table_ok sch t' \<and> (\<forall>s'. get_official_row s' t' = (if s' = s then Inr None else get_official_row s' t))"
proof -
  obtain c where c: "get_official_row s t = Inr (Some c)" and t': "t' = retire_row c t" "table_ok sch t'"
    using assms by (auto simp: skill_delete_official_def delete_official_row_def result_eqs checked_eq_Inr split: option.splits)
  from get_official_after_delete [OF assms(1) c] t' show ?thesis by simp
qed

definition tells :: "schema_rev \<Rightarrow> admin_state \<Rightarrow> bool" where
  "tells sch st \<longleftrightarrow> table_ok sch (db_skills (ad_db st)) \<and> (\<forall>s. skill_now s (ad_db st) = replay s (ac_audit (ad_log st)))"

lemma tells_skill:
  assumes "tells sch st" and "logged st (entity_target ''skill'' s) (before_after b (case x of None \<Rightarrow> JNull | Some r \<Rightarrow> skill_snapshot r)) st'"
    and "table_ok sch (db_skills (ad_db st'))"
    and "\<forall>s'. get_official_row s' (db_skills (ad_db st')) = (if s' = s then Inr x else get_official_row s' (db_skills (ad_db st)))"
  shows "tells sch st'"
  using assms by (auto simp: tells_def logged_def skill_now_def split: option.splits)

lemma tells_other:
  assumes "tells sch st" and "logged st (entity_target entity s) d st'" and "entity \<noteq> ''skill''"
    and "db_skills (ad_db st') = db_skills (ad_db st)"
  shows "tells sch st'"
  using assms by (auto simp: tells_def logged_def skill_now_def)

lemma other_tables [simp]:
  "on_instructions f db = Inr (x, db') \<Longrightarrow> db_skills db' = db_skills db"
  "on_commands g db = Inr (x, db') \<Longrightarrow> db_skills db' = db_skills db"
  "on_mcp_servers h db = Inr (x, db') \<Longrightarrow> db_skills db' = db_skills db"
  "on_cron_jobs k db = Inr (x, db') \<Longrightarrow> db_skills db' = db_skills db"
  by (auto simp: on_table_defs result_eqs)

lemma created_admin_skill:
  assumes "create_admin_skill kb c st = Inr (v, st')"
  shows "\<exists>r t a. skill_create_official (en_rev c) (en_fresh c) (aski_slug kb) a (db_skills (ad_db st)) = Inr (r, t) \<and>
    ad_db st' = (ad_db st)\<lparr>db_skills := t\<rparr> \<and>
    logged st (entity_target ''skill'' (aski_slug kb)) (before_after JNull (skill_snapshot r)) st'"
proof -
  from admin_create_logged [OF assms [unfolded create_admin_skill_def]] obtain r t a where
    "skill_create_official (en_rev c) (en_fresh c) (aski_slug kb) a (db_skills (ad_db st)) = Inr (r, t)"
    "ad_db st' = (ad_db st)\<lparr>db_skills := t\<rparr>"
    "logged st (entity_target ''skill'' (aski_slug kb)) (before_after JNull (skill_snapshot r)) st'"
    by (auto simp: on_skills_def result_eqs)
  then show ?thesis by blast
qed

lemma skill_write_tells:
  assumes "tells sch st" and "en_rev c = sch"
  shows "create_admin_skill kb c st = Inr (kr, st') \<Longrightarrow> tells sch st'"
    and "update_admin_skill s kq c st = Inr (kr, st') \<Longrightarrow> tells sch st'"
    and "delete_admin_skill s c st = Inr (x, st') \<Longrightarrow> tells sch st'"
proof -
  have ok: "table_ok sch (db_skills (ad_db st))" using assms(1) by (simp add: tells_def)
  assume "create_admin_skill kb c st = Inr (kr, st')"
  from created_admin_skill [OF this] obtain r t a where
    "skill_create_official sch (en_fresh c) (aski_slug kb) a (db_skills (ad_db st)) = Inr (r, t)"
    and db: "ad_db st' = (ad_db st)\<lparr>db_skills := t\<rparr>"
    and lg: "logged st (entity_target ''skill'' (aski_slug kb)) (before_after JNull (skill_snapshot r)) st'"
    using assms(2) by blast
  from skill_create_now [OF this(1)] show "tells sch st'"
    using tells_skill [OF assms(1), of "aski_slug kb" JNull "Some r" st'] lg by (simp add: db)
next
  have ok: "table_ok sch (db_skills (ad_db st))" using assms(1) by (simp add: tells_def)
  assume "update_admin_skill s kq c st = Inr (kr, st')"
  from admin_update_logged [OF this [unfolded update_admin_skill_def]] obtain b r t a where
    u: "skill_update_official sch (en_fresh c) s a (db_skills (ad_db st)) = Inr (Some r, t)"
    and db: "ad_db st' = (ad_db st)\<lparr>db_skills := t\<rparr>"
    and lg: "logged st (entity_target ''skill'' s) (before_after b (skill_snapshot r)) st'"
    using assms(2) by (auto simp: on_skills_def result_eqs)
  from skill_update_now [OF ok u] show "tells sch st'"
    using tells_skill [OF assms(1), of s b "Some r" st'] lg by (simp add: db)
next
  have ok: "table_ok sch (db_skills (ad_db st))" using assms(1) by (simp add: tells_def)
  assume "delete_admin_skill s c st = Inr (x, st')"
  from admin_delete_logged [OF this [unfolded delete_admin_skill_def]] obtain b t where
    u: "skill_delete_official sch s (db_skills (ad_db st)) = Inr (True, t)"
    and db: "ad_db st' = (ad_db st)\<lparr>db_skills := t\<rparr>"
    and lg: "logged st (entity_target ''skill'' s) (before_after b JNull) st'"
    using assms(2) by (auto simp: on_skills_def result_eqs)
  from skill_delete_now [OF ok u] show "tells sch st'"
    using tells_skill [OF assms(1), of s b None st'] lg by (simp add: db)
qed

lemma other_create_tells:
  assumes "tells sch st" and "admin_create entity s snap view create1 c st = Inr (x, st')" and "entity \<noteq> ''skill''"
    and "\<And>r db. create1 (ad_db st) = Inr (r, db) \<Longrightarrow> db_skills db = db_skills (ad_db st)"
  shows "tells sch st'"
  using admin_create_logged [OF assms(2)] assms(4) by (auto intro: tells_other [OF assms(1) _ assms(3)])

lemma other_update_tells:
  assumes "tells sch st" and "admin_update entity s snap view read change c st = Inr (x, st')" and "entity \<noteq> ''skill''"
    and "\<And>r db. change (ad_db st) = Inr (r, db) \<Longrightarrow> db_skills db = db_skills (ad_db st)"
  shows "tells sch st'"
  using admin_update_logged [OF assms(2)] assms(4) by (auto intro: tells_other [OF assms(1) _ assms(3)])

lemma other_delete_tells:
  assumes "tells sch st" and "admin_delete entity s snap read drop1 c st = Inr (x, st')" and "entity \<noteq> ''skill''"
    and "\<And>r db. drop1 (ad_db st) = Inr (r, db) \<Longrightarrow> db_skills db = db_skills (ad_db st)"
  shows "tells sch st'"
  using admin_delete_logged [OF assms(2)] assms(4) by (auto intro: tells_other [OF assms(1) _ assms(3)])

lemma official_write_tells:
  assumes "official_write c st st'" and "tells sch st" and "en_rev c = sch"
  shows "tells sch st'"
  using assms(1)
proof cases
  case (ow_create_skill kb kr) then show ?thesis by (rule skill_write_tells(1) [OF assms(2,3)])
next
  case (ow_update_skill s kq kr) then show ?thesis by (rule skill_write_tells(2) [OF assms(2,3)])
next
  case (ow_delete_skill s x) then show ?thesis by (rule skill_write_tells(3) [OF assms(2,3)])
qed (unfold create_admin_instruction_def create_admin_command_def create_admin_mcp_def create_admin_cron_def
    update_admin_instruction_def update_admin_command_def update_admin_mcp_def update_admin_cron_def
    delete_admin_instruction_def delete_admin_command_def delete_admin_mcp_def delete_admin_cron_def,
    (erule other_create_tells [OF assms(2)] other_update_tells [OF assms(2)] other_delete_tells [OF assms(2)];
      simp add: other_tables)+)

subsection \<open>Properties\<close>

text \<open>
  C24. Official configuration is written by administrators only, and every successful write appends exactly
  one row to the audit log: after any run of writes the log is the old one followed by one row per
  request, in order, naming its author, its id and its time, and nothing else is in it.
\<close>

theorem admin_writes_audited:
  assumes "admin_run cs st st'"
  shows "list_all (\<lambda>c. en_role c = ''admin'') cs \<and>
    (\<exists>new. ac_audit (ad_log st') = ac_audit (ad_log st) @ new \<and>
      map (\<lambda>a. (au_actor a, au_id a, au_ts a)) new = map (\<lambda>c. (en_user c, en_audit_id c, en_now c)) cs)"
  using assms
proof induction
  case (ar_more cs st st1 c st2)
  from admin_write_audited [OF ar_more.hyps(2)] obtain a where a: "en_role c = ''admin''"
    "ac_audit (ad_log st2) = ac_audit (ad_log st1) @ [a]" "(au_actor a, au_id a, au_ts a) = (en_user c, en_audit_id c, en_now c)"
    by (auto simp: audited_def)
  from ar_more.IH obtain new where "ac_audit (ad_log st1) = ac_audit (ad_log st) @ new"
    "map (\<lambda>a. (au_actor a, au_id a, au_ts a)) new = map (\<lambda>c. (en_user c, en_audit_id c, en_now c)) cs"
    by blast
  with a ar_more.IH show ?case by (intro conjI exI [of _ "new @ [a]"]) simp_all
qed simp

text \<open>
  As long as official configuration is created, updated and deleted through its routes, the audit log
  tells the present state of every official skill: the last "after" logged for its slug is the snapshot
  of the current row, or null when there is none.
\<close>

theorem audit_log_tells_official_skills:
  assumes "(\<lambda>st st'. \<exists>c. en_rev c = sch \<and> official_write c st st')\<^sup>*\<^sup>* st st'" and "tells sch st"
  shows "skill_now s (ad_db st') = replay s (ac_audit (ad_log st'))"
proof -
  have "tells sch st'"
    using assms by (induction rule: rtranclp_induct) (auto intro: official_write_tells)
  then show ?thesis by (simp add: tells_def)
qed

text \<open>
  The cache is emptied before the write commits: a reader that comes between the two computes the old
  configuration and caches it, and for the next minute every reader is given it, although the
  administrator's request has succeeded.
\<close>

theorem eviction_precedes_commit:
  assumes "official_write c st st'" and "ad_redis st' = Some r"
    and "compute_effective_config sha shipped (Some (en_user e)) (database.truncate (ad_db st)) = Inr old"
    and "get_effective_config sha shipped t (Some r) e (ad_db st) = (v, Some r1)"
    and "t \<le> t'" and "t' < t + EFFECTIVE_CONFIG_TTL_MS"
  shows "v = Inr (config_to_view old) \<and>
    get_effective_config sha shipped t' (Some r1) e (ad_db st') = (Inr (config_to_view old), Some r1)"
proof -
  let ?k = "cache_key (en_user e)"
  have "cache_empty st'" using official_write_audited [OF assms(1)] ..
  then have "r ?k = None" using assms(2) by (simp add: cache_empty_def cache_key_def)
  then have miss: "r_get t ?k r = None" by (simp add: r_get_def live_def)
  have old: "get_or_compute_effective_config sha shipped t (en_user e) (database.truncate (ad_db st)) r
      = (Inr old, r_setex t ?k EFFECTIVE_CONFIG_TTL_MS (config_to_json old) r)"
    by (simp add: get_or_compute_effective_config_def miss assms(3))
  have v: "v = Inr (config_to_view old)" and r1: "r1 = r_setex t ?k EFFECTIVE_CONFIG_TTL_MS (config_to_json old) r"
    using assms(4) by (simp_all add: get_effective_config_def old shown_def)
  have "r_get t' ?k r1 = Some (config_to_json old)" using assms(6) by (simp add: r1)
  then have "get_or_compute_effective_config sha shipped t' (en_user e) (database.truncate (ad_db st')) r1 = (Inr old, r1)"
    by (simp add: get_or_compute_effective_config_def cached_config_reads_back [OF assms(3)])
  with v show ?thesis by (simp add: get_effective_config_def shown_def)
qed

subsection \<open>Rollbacks\<close>

text \<open>The log records the number of the version only, so it does not tell the state after a rollback.\<close>

lemma rollback_logged:
  assumes "rollback_official entity s v c st = Inr (x, st')"
  shows "logged st (entity_target entity s) (JObj [(''rolled_back_to_version'', JInt v)]) st'"
proof -
  obtain y db where w: "written c (rollback_action entity) (entity_target entity s) (JObj [(''rolled_back_to_version'', JInt v)])
      y (st\<lparr>ad_db := db\<rparr>) = Inr (x, st')"
    using assms by (auto simp: rollback_official_def require_admin_Inr result_eqs on_config_Inr)
  with written_Inr [OF w] show ?thesis by (auto simp: logged_def)
qed

text \<open>Two path entities and two audit entities: the words of a rollback are those of the path.\<close>

lemma rollback_words:
  "rollback_action ''mcp-servers'' = ''mcp-server.rollback''" "entity_target ''mcp-servers'' s \<noteq> entity_target ''mcp_server'' s"
  by (simp_all add: rollback_action_def)

subsection \<open>Witnesses\<close>

definition admin_start :: admin_state where
  "admin_start = \<lparr>ad_db = \<lparr>db_skills = [], db_instructions = [], db_commands = [], db_mcp_servers = [], db_opt_outs = [],
       db_cron_jobs = [], db_documents = [], db_accounts = \<lparr>db_agents = [], db_users = []\<rparr>, db_proposals = []\<rparr>,
     ad_log = \<lparr>ac_users = [9], ac_rows = [], ac_audit = [], ac_requests = []\<rparr>,
     ad_candidates = [], ad_users = [], ad_usage = [], ad_redis = Some (\<lambda>k. None), ad_published = []\<rparr>"

definition admin_request :: admin_env where
  "admin_request = \<lparr>en_user = 9, en_rev = Schema_0003, en_fresh = 1, en_now = 5,
     en_kms = \<lparr>kms_encrypt = \<lambda>b x. Inr b, kms_decrypt = \<lambda>b x. Inr b\<rparr>, en_role = ''admin'', en_request_id = None, en_audit_id = 3\<rparr>"

definition admin_skill :: admin_skill_create_in where
  "admin_skill = \<lparr>aski_slug = ''a'', aski_frontmatter = [], aski_body = ''b'', aski_mandatory = True, aski_enabled_default = True\<rparr>"

lemma admin_creates:
  "\<exists>v st'. create_admin_skill admin_skill admin_request admin_start = Inr (v, st') \<and> ad_redis st' = Some (\<lambda>k. None) \<and>
     ask_body v = ''b'' \<and> db_skills (ad_db st') \<noteq> []"
  by (simp add: create_admin_skill_def admin_create_def require_admin_def on_config_def on_skills_def skill_create_official_def
      insert_row_def checked_def table_ok_def skill_first_def admin_start_def admin_request_def admin_skill_def row_ok_def
      scope_check_def scope_user_id_check_def scope_agent_id_check_def official_current_def user_current_def written_def
      audit_def audit_log_write_def Let_def or_conflict_def invalidated_def publish_invalidation_def evict_all_def
      skill_to_admin_out_def)

lemma tells_start: "tells sch admin_start"
  by (simp add: tells_def admin_start_def table_ok_def skill_now_def get_official_row_def replay_def)

theorem admin_writes_audited_witness:
  "\<exists>st'. admin_run [admin_request] admin_start st' \<and> length (ac_audit (ad_log st')) = 1"
proof -
  obtain v st' where "create_admin_skill admin_skill admin_request admin_start = Inr (v, st')" using admin_creates by blast
  then have run: "admin_run ([] @ [admin_request]) admin_start st'"
    by (intro ar_more [OF ar_none] aw_official ow_create_skill)
  from admin_writes_audited [OF this] obtain new where "ac_audit (ad_log st') = new" "length (map (\<lambda>a. (au_actor a, au_id a, au_ts a)) new) = 1"
    by (auto simp: admin_start_def)
  with run show ?thesis by auto
qed

theorem audit_log_tells_official_skills_witness:
  "\<exists>st' r. official_write admin_request admin_start st' \<and> get_official_row ''a'' (db_skills (ad_db st')) = Inr (Some r) \<and>
     replay ''a'' (ac_audit (ad_log st')) = skill_snapshot r"
proof -
  obtain v st' where c: "create_admin_skill admin_skill admin_request admin_start = Inr (v, st')" using admin_creates by blast
  then have w: "official_write admin_request admin_start st'" by (rule ow_create_skill)
  have "(\<lambda>st st'. \<exists>c. en_rev c = Schema_0003 \<and> official_write c st st')\<^sup>*\<^sup>* admin_start st'"
    by (rule r_into_rtranclp) (use w in \<open>auto simp: admin_request_def intro!: exI [of _ admin_request]\<close>)
  from audit_log_tells_official_skills [OF this tells_start, of "''a''"]
  have now: "skill_now ''a'' (ad_db st') = replay ''a'' (ac_audit (ad_log st'))" .
  from created_admin_skill [OF c] obtain r t a where
    "skill_create_official (en_rev admin_request) (en_fresh admin_request) (aski_slug admin_skill) a (db_skills (ad_db admin_start)) = Inr (r, t)"
    and db: "ad_db st' = (ad_db admin_start)\<lparr>db_skills := t\<rparr>" by blast
  from skill_create_now [OF this(1)] have "get_official_row ''a'' (db_skills (ad_db st')) = Inr (Some r)"
    by (simp add: db admin_skill_def)
  with w now show ?thesis by (auto simp: skill_now_def)
qed

theorem eviction_precedes_commit_witness:
  "\<exists>st' v r1 eff. official_write admin_request admin_start st' \<and>
     get_effective_config (\<lambda>j. []) \<lparr>shipped_skills = [], shipped_instructions = [], shipped_commands = []\<rparr> 10 (Some (\<lambda>k. None))
       (route_env.truncate admin_request) (ad_db admin_start) = (v, Some r1) \<and>
     get_effective_config (\<lambda>j. []) \<lparr>shipped_skills = [], shipped_instructions = [], shipped_commands = []\<rparr> 20 (Some r1)
       (route_env.truncate admin_request) (ad_db st') = (Inr eff, Some r1) \<and> ev_skills eff = [] \<and> db_skills (ad_db st') \<noteq> []"
proof -
  let ?ship = "\<lparr>shipped_skills = [], shipped_instructions = [], shipped_commands = []\<rparr>"
  let ?e = "route_env.truncate admin_request"
  obtain v st' where c: "create_admin_skill admin_skill admin_request admin_start = Inr (v, st')"
    and r: "ad_redis st' = Some (\<lambda>k. None)" and rows: "db_skills (ad_db st') \<noteq> []" using admin_creates by blast
  have w: "official_write admin_request admin_start st'" using c by (rule ow_create_skill)
  let ?old = "build_config (\<lambda>j. []) [] [] [] []"
  have old: "compute_effective_config (\<lambda>j. []) ?ship (Some (en_user ?e)) (database.truncate (ad_db admin_start)) = Inr ?old"
    by (simp add: compute_effective_config_def opt_out_list_def current_user_id_def admin_start_def database.truncate_def
        skill_list_effective_def instruction_list_effective_def command_list_effective_def mcp_list_effective_def
        list_user_rows_def list_official_rows_def skill_list_user_def skill_list_official_def instruction_list_user_def
        instruction_list_official_def command_list_user_def command_list_official_def mcp_list_user_def mcp_list_official_def
        opt_out_slugs_def layered_merge_def store_all_def)
  obtain v1 r1 where first: "get_effective_config (\<lambda>j. []) ?ship 10 (Some (\<lambda>k. None)) ?e (ad_db admin_start) = (v1, Some r1)"
    by (cases "get_or_compute_effective_config (\<lambda>j. []) ?ship 10 (en_user ?e) (database.truncate (ad_db admin_start)) (\<lambda>k. None)")
      (simp add: get_effective_config_def)
  from eviction_precedes_commit [OF w r old first, of 20]
  have "get_effective_config (\<lambda>j. []) ?ship 20 (Some r1) ?e (ad_db st') = (Inr (config_to_view ?old), Some r1)"
    by (simp add: EFFECTIVE_CONFIG_TTL_MS_def)
  moreover have "ev_skills (config_to_view ?old) = []" by (simp add: config_to_view_def build_config_def)
  ultimately show ?thesis using w first rows by blast
qed

end
