(* ===== verification/Curator.thy ===== *)
theory Curator
  imports User_Rows User_Views Worker_Messages Message_Queue
begin

text \<open>
  \<open>curator.py\<close>, \<open>worker/curate.py\<close> and \<open>scheduler/curator_tick.py\<close>: the daily pass over a user's
  skills.  The embedding service and the reviewing agent are arguments; a failed call is an
  \<open>Inl\<close>.  Embeddings are lists of reals, the code's floats without their rounding.  The reader of
  the reviewer's JSON is an argument, and so is the JSON number of a similarity.
\<close>

subsection \<open>States\<close>

definition CURATOR_STALE_AFTER_DAYS :: int where "CURATOR_STALE_AFTER_DAYS = 30"
definition CURATOR_ARCHIVE_AFTER_DAYS :: int where "CURATOR_ARCHIVE_AFTER_DAYS = 90"
definition CURATOR_MAX_BODY_CHARS :: nat where "CURATOR_MAX_BODY_CHARS = 1500"
definition CURATOR_REVIEWER_MAX_PAIRS :: nat where "CURATOR_REVIEWER_MAX_PAIRS = 5"
definition CURATOR_CONSOLIDATE_COSINE :: real where "CURATOR_CONSOLIDATE_COSINE = 85 / 100"

definition days :: "int \<Rightarrow> int" where
  "days n = n * 86400 * 10 ^ 6"

text \<open>\<open>created\<close> is the creation time of a row, a column of its own; times are microseconds.\<close>

definition target_state :: "(skill_row \<Rightarrow> int option) \<Rightarrow> int \<Rightarrow> skill_row \<Rightarrow> string" where
  "target_state created now s =
     (if curator_state s = ''pinned'' then ''pinned''
      else (case (case last_used_at s of Some t \<Rightarrow> Some t | None \<Rightarrow> created s) of
          None \<Rightarrow> (if curator_state s = [] then ''active'' else curator_state s)
        | Some l \<Rightarrow>
            (if days CURATOR_ARCHIVE_AFTER_DAYS \<le> now - l \<and> success_count s = 0 then ''archived''
             else if days CURATOR_STALE_AFTER_DAYS \<le> now - l then ''stale''
             else ''active'')))"

record curator_report =
  kept_active :: nat
  transitioned_stale :: nat
  transitioned_archived :: nat
  consolidation_proposals :: nat

text \<open>The loop over the listed skills; the statement also refreshes the listed object.\<close>

fun transition_all ::
  "schema_rev \<Rightarrow> uuid option \<Rightarrow> (skill_row \<Rightarrow> string) \<Rightarrow> skill_row list \<Rightarrow> skill_row list \<Rightarrow> curator_report
     \<Rightarrow> (curator_report \<times> skill_row list \<times> skill_row list) result"
where
  "transition_all sch guc target [] t rep = Inr (rep, [], t)"
| "transition_all sch guc target (s # ss) t rep =
     (if target s = curator_state s
      then bind_result (transition_all sch guc target ss t
             (if target s = ''active'' then rep\<lparr>kept_active := Suc (kept_active rep)\<rparr> else rep))
           (\<lambda>(rep', ss', t'). Inr (rep', s # ss', t'))
      else bind_result (skill_update_curator_state sch guc (slug s) (target s) t) (\<lambda>(_, t1).
           bind_result (transition_all sch guc target ss t1
             (if target s = ''stale'' then rep\<lparr>transitioned_stale := Suc (transitioned_stale rep)\<rparr>
              else if target s = ''archived'' then rep\<lparr>transitioned_archived := Suc (transitioned_archived rep)\<rparr>
              else rep))
           (\<lambda>(rep', ss', t'). Inr (rep', s\<lparr>curator_state := target s\<rparr> # ss', t'))))"

subsection \<open>Pairs to consolidate\<close>

definition cosine :: "real list \<Rightarrow> real list \<Rightarrow> real" where
  "cosine a b =
     (if a = [] \<or> b = [] \<or> length a \<noteq> length b then 0
      else (let dot = sum_list (map2 (*) a b); na = sum_list (map (\<lambda>x. x * x) a); nb = sum_list (map (\<lambda>x. x * x) b);
            denom = sqrt na * sqrt nb
        in if denom = 0 then 0 else dot / denom))"

record skill_pair =
  pair_a :: skill_row
  pair_b :: skill_row
  similarity :: real

definition embedding_at :: "real list list \<Rightarrow> nat \<Rightarrow> real list" where
  "embedding_at vs i = (if i < length vs then vs ! i else [])"

text \<open>No embedder is \<open>NullEmbeddingProvider\<close>.\<close>

definition find_consolidation_pairs ::
  "(string list \<Rightarrow> real list list result) option \<Rightarrow> real \<Rightarrow> skill_row list \<Rightarrow> skill_pair list"
where
  "find_consolidation_pairs emb threshold skills =
     (case emb of
        None \<Rightarrow> []
      | Some f \<Rightarrow>
          if length skills < 2 then []
          else (case f (map (\<lambda>s. take CURATOR_MAX_BODY_CHARS (body s)) skills) of
              Inl _ \<Rightarrow> []
            | Inr vs \<Rightarrow>
                (let pairs = concat (map (\<lambda>i.
                   if embedding_at vs i = [] then []
                   else List.map_filter (\<lambda>j.
                     let sim = cosine (embedding_at vs i) (embedding_at vs j)
                     in if embedding_at vs j \<noteq> [] \<and> threshold \<le> sim
                        then Some \<lparr>pair_a = skills ! i, pair_b = skills ! j, similarity = sim\<rparr> else None)
                     [i + 1..<length skills]) [0..<length skills])
                 in sort_key (\<lambda>p. - similarity p) pairs)))"

subsection \<open>Proposals\<close>

definition strip_chars :: "string \<Rightarrow> string \<Rightarrow> string" where
  "strip_chars cs s = rev (dropWhile (\<lambda>c. c \<in> set cs) (rev (dropWhile (\<lambda>c. c \<in> set cs) s)))"

definition lstrip_chars :: "string \<Rightarrow> string \<Rightarrow> string" where
  "lstrip_chars cs s = dropWhile (\<lambda>c. c \<in> set cs) s"

text \<open>
  A reply of a side agent, out of its code fence.  What \<open>json.loads\<close> raises beside \<open>JSONDecodeError\<close>, on
  integers of more than 4300 digits and on deep nesting, leaves the pass and is not modelled here.
\<close>

definition unfenced :: "string \<Rightarrow> string" where
  "unfenced reply =
     (let s = py_strip reply
      in if take 3 s = ''```'' then py_strip (lstrip_chars ''json'' (strip_chars ''`'' s)) else s)"

definition parse_reviewer :: "(string \<Rightarrow> json option) \<Rightarrow> string \<Rightarrow> dict option" where
  "parse_reviewer loads output =
     (case loads (unfenced output) of Some (JObj d) \<Rightarrow> Some d | _ \<Rightarrow> None)"

definition reviewer_prompt :: "(real \<Rightarrow> json) \<Rightarrow> skill_pair \<Rightarrow> json" where
  "reviewer_prompt num p =
     (let side = (\<lambda>s. JObj [(''slug'', JStr (slug s)), (''body'', JStr (take CURATOR_MAX_BODY_CHARS (body s)))])
      in JObj [(''similarity'', num (similarity p)), (''a'', side (pair_a p)), (''b'', side (pair_b p))])"

text \<open>\<open>str(d.get(k) or other)\<close>.\<close>

definition text_or :: "dict \<Rightarrow> string \<Rightarrow> string \<Rightarrow> string" where
  "text_or d k other = (let v = py_get d k in if truthy v then py_str v else other)"

record curator_services =
  cu_embed :: "(string list \<Rightarrow> real list list result) option"
  cu_review :: "json \<Rightarrow> string option result"
  cu_loads :: "string \<Rightarrow> json option"
  cu_num :: "real \<Rightarrow> json"

definition propose_merge :: "curator_services \<Rightarrow> uuid \<Rightarrow> int \<Rightarrow> uuid \<Rightarrow> skill_pair \<Rightarrow> proposal_row option" where
  "propose_merge sv u now fresh p =
     (case cu_review sv (reviewer_prompt (cu_num sv) p) of
        Inl _ \<Rightarrow> None
      | Inr out \<Rightarrow>
          (case parse_reviewer (cu_loads sv) (case out of None \<Rightarrow> [] | Some x \<Rightarrow> x) of
             None \<Rightarrow> None
           | Some d \<Rightarrow>
               (let merged = py_strip (text_or d ''body'' [])
                in if \<not> truthy (py_get d ''merge'') \<or> merged = [] then None
                   else Some \<lparr>pr_id = fresh, pr_user = u, pr_skill_slug = text_or d ''slug'' (slug (pair_a p)),
                     pr_base_version = None, pr_body = take CURATOR_MAX_BODY_CHARS merged,
                     pr_fitness = Some [(''trigger'', JStr ''curator''), (''similarity'', cu_num sv (similarity p)),
                       (''source_slugs'', JArr [JStr (slug (pair_a p)), JStr (slug (pair_b p))]),
                       (''reason'', JStr (take 240 (text_or d ''reason'' [])))],
                     pr_status = ''pending'', pr_created_at = now, pr_decided_at = None\<rparr>)))"

definition propose_merges :: "curator_services \<Rightarrow> uuid \<Rightarrow> int \<Rightarrow> (nat \<Rightarrow> uuid) \<Rightarrow> skill_pair list \<Rightarrow> proposal_row list" where
  "propose_merges sv u now fresh pairs =
     List.map_filter (\<lambda>(n, p). propose_merge sv u now (fresh n) p) (enumerate 0 pairs)"

subsection \<open>One pass\<close>

text \<open>
  The proposals are inserted when the transaction ends; their ids must be new and the agent's row
  must exist.
\<close>

definition run_for_agent ::
  "schema_rev \<Rightarrow> curator_services \<Rightarrow> (skill_row \<Rightarrow> int option) \<Rightarrow> (nat \<Rightarrow> uuid) \<Rightarrow> int \<Rightarrow> uuid \<Rightarrow> uuid \<Rightarrow> tenant_db
     \<Rightarrow> (curator_report \<times> tenant_db) result"
where
  "run_for_agent sch sv created fresh now u agent db =
     bind_result (skill_list_user (Some u) (db_skills db)) (\<lambda>skills.
     bind_result (transition_all sch (Some u) (target_state created now) skills (db_skills db)
       \<lparr>kept_active = 0, transitioned_stale = 0, transitioned_archived = 0, consolidation_proposals = 0\<rparr>) (\<lambda>(rep, skills', t).
       let pairs = find_consolidation_pairs (cu_embed sv) CURATOR_CONSOLIDATE_COSINE
             (filter (\<lambda>s. curator_state s \<noteq> ''archived'') skills');
           new = propose_merges sv u now fresh (take CURATOR_REVIEWER_MAX_PAIRS pairs)
       in if new \<noteq> [] \<and> (agent \<notin> a_id ` set (db_agents (db_accounts db)) \<or> u \<notin> u_id ` set (db_users (db_accounts db)) \<or>
              \<not> distinct (map pr_id new) \<or> pr_id ` set new \<inter> pr_id ` set (db_proposals db) \<noteq> {})
          then Inl IntegrityError
          else Inr (rep\<lparr>consolidation_proposals := length new\<rparr>,
                 db\<lparr>db_skills := t, db_proposals := db_proposals db @ new\<rparr>)))"

text \<open>A failed pass is rolled back and retried later.\<close>

definition run_curate ::
  "schema_rev \<Rightarrow> curator_services \<Rightarrow> (skill_row \<Rightarrow> int option) \<Rightarrow> (nat \<Rightarrow> uuid) \<Rightarrow> int \<Rightarrow> uuid \<Rightarrow> uuid \<Rightarrow> tenant_db
     \<Rightarrow> bool \<times> tenant_db"
where
  "run_curate sch sv created fresh now u agent db =
     (case run_for_agent sch sv created fresh now u agent db of Inl _ \<Rightarrow> (False, db) | Inr (_, db') \<Rightarrow> (True, db'))"

definition curator_message :: "uuid \<Rightarrow> uuid \<Rightarrow> slice_message" where
  "curator_message u a = \<lparr>sm_kind = CURATE_KIND, sm_user_id = uuid_str u, sm_agent_id = uuid_str a, sm_model = []\<rparr>"

definition curator_tick ::
  "(nat \<Rightarrow> string) \<Rightarrow> nat \<Rightarrow> skill_row list \<Rightarrow> json memory_queue \<Rightarrow> nat \<times> json memory_queue"
where
  "curator_tick fresh limit t q =
     (let slices = skill_list_curator_targets_admin limit t
      in (length slices, fold (\<lambda>(u, a). mq_send fresh (slice_to_json (curator_message u a))) slices q))"

subsection \<open>The states after a pass\<close>

definition moved :: "(skill_row \<Rightarrow> string) \<Rightarrow> uuid \<Rightarrow> (string \<Rightarrow> bool) \<Rightarrow> skill_row \<Rightarrow> skill_row" where
  "moved target u which r = (if user_row u r \<and> which (slug r) then r\<lparr>curator_state := target r\<rparr> else r)"

lemma target_state_valid:
  assumes "curator_state s \<in> set VALID_CURATOR_STATES"
  shows "target_state created now s \<in> set VALID_CURATOR_STATES"
  using assms by (auto simp: target_state_def VALID_CURATOR_STATES_def split: option.splits)

lemma target_state_idem:
  assumes "\<And>x. created (s\<lparr>curator_state := x\<rparr>) = created s"
  shows "target_state created now (s\<lparr>curator_state := target_state created now s\<rparr>) = target_state created now s"
  by (cases "curator_state s = ''pinned''"; cases "last_used_at s"; cases "created s") (simp_all add: target_state_def assms)

lemma keeps_place_state [simp]: "keeps_place (\<lambda>r. r\<lparr>curator_state := x\<rparr>)"
  by (simp add: keeps_place_def)

text \<open>A user has one current skill of a slug.\<close>

lemma user_row_unique:
  assumes "table_ok sch t" and "s \<in> set t" "user_row u s" and "r \<in> set t" "user_row u r" "slug r = slug s"
  shows "r = s"
proof -
  have "inj_on (\<lambda>r. (user_id r, slug r)) (set (filter user_current t))"
    using assms(1) by (simp add: table_ok_def distinct_map)
  then show ?thesis using assms(2-) by (auto simp: inj_on_def user_row_def user_current_def)
qed

lemma moved_user_row [simp]: "user_row u (moved target u which r) = user_row u r" "slug (moved target u which r) = slug r"
  by (simp_all add: moved_def user_row_def)

lemma sql_update_moved:
  assumes t: "table_ok sch t" and s: "s \<in> set t" "user_row u s" and new: "\<not> which (slug s)"
  shows "sql_update (\<lambda>r. user_row u r \<and> slug r = slug s) (\<lambda>r. r\<lparr>curator_state := target s\<rparr>) (map (moved target u which) t) =
    map (moved target u (\<lambda>x. x = slug s \<or> which x)) t"
  unfolding sql_update_def map_map
proof (rule map_cong [OF refl])
  fix r assume "r \<in> set t"
  note u1 = user_row_unique [OF t s this]
  show "((\<lambda>r. if user_row u r \<and> slug r = slug s then r\<lparr>curator_state := target s\<rparr> else r) \<circ> moved target u which) r =
      moved target u (\<lambda>x. x = slug s \<or> which x) r"
  proof (cases "user_row u r \<and> slug r = slug s")
    case True
    then have "r = s" using u1 by simp
    then show ?thesis using s(2) new by (simp add: moved_def)
  next
    case False
    then have "(user_row u r \<and> which (slug r)) = (user_row u r \<and> (slug r = slug s \<or> which (slug r)))" by auto
    then have "moved target u which r = moved target u (\<lambda>x. x = slug s \<or> which x) r" unfolding moved_def by (rule if_cong) simp_all
    then show ?thesis by (simp only: o_apply moved_user_row False if_False)
  qed
qed

lemma moved_same:
  assumes t: "table_ok sch t" and s: "s \<in> set t" "user_row u s" and same: "target s = curator_state s"
  shows "map (moved target u (\<lambda>x. x = slug s \<or> which x)) t = map (moved target u which) t"
proof (rule map_cong [OF refl])
  fix r assume "r \<in> set t"
  note u1 = user_row_unique [OF t s this]
  have id: "s\<lparr>curator_state := target s\<rparr> = s" using same by simp
  show "moved target u (\<lambda>x. x = slug s \<or> which x) r = moved target u which r"
  proof (cases "user_row u r \<and> slug r = slug s")
    case True
    then have "r = s" using u1 by simp
    then show ?thesis using id by (simp add: moved_def)
  next
    case False
    then show ?thesis by (auto simp: moved_def)
  qed
qed

lemma moved_all: "map (moved target u (\<lambda>_. False)) t = t"
  by (auto simp: moved_def intro: map_idI)

lemma skill_update_state:
  assumes t: "table_ok sch t" and s: "s \<in> set t" "user_row u s" and new: "\<not> which (slug s)"
    and ok: "table_ok sch (map (moved target u which) t)" and valid: "target s \<in> set VALID_CURATOR_STATES"
  shows "\<exists>r. skill_update_curator_state sch (Some u) (slug s) (target s) (map (moved target u which) t) =
      Inr (r, map (moved target u (\<lambda>x. x = slug s \<or> which x)) t) \<and>
    table_ok sch (map (moved target u (\<lambda>x. x = slug s \<or> which x)) t)"
proof -
  have "get_user_row (Some u) (slug s) (map (moved target u which) t) = Inr (Some (moved target u which s))"
    using s by (simp add: get_user_row_Some [OF ok])
  note up = update_user_some [OF ok this, where f = "\<lambda>r. r\<lparr>curator_state := target s\<rparr>"]
  show ?thesis
    using up(1,2) valid
    by (simp add: skill_update_curator_state_def sql_update_moved [where target = target and which = which, OF t s new])
qed

lemma transition_all_moves:
  assumes t: "table_ok sch t" and "set ss \<subseteq> set (filter (user_row u) t)" and "distinct (map slug ss)"
    and "\<forall>s \<in> set ss. \<not> which (slug s) \<and> target s \<in> set VALID_CURATOR_STATES"
    and "table_ok sch (map (moved target u which) t)"
  shows "\<exists>rep'. transition_all sch (Some u) target ss (map (moved target u which) t) rep =
      Inr (rep', map (\<lambda>s. s\<lparr>curator_state := target s\<rparr>) ss, map (moved target u (\<lambda>x. x \<in> slug ` set ss \<or> which x)) t) \<and>
    transitioned_stale rep' = transitioned_stale rep + length (filter (\<lambda>s. curator_state s \<noteq> target s \<and> target s = ''stale'') ss) \<and>
    transitioned_archived rep' = transitioned_archived rep + length (filter (\<lambda>s. curator_state s \<noteq> target s \<and> target s = ''archived'') ss) \<and>
    kept_active rep' = kept_active rep + length (filter (\<lambda>s. curator_state s = target s \<and> target s = ''active'') ss)"
  using assms(2-)
proof (induction ss arbitrary: which rep)
  case (Cons s ss)
  let ?w = "\<lambda>x. x = slug s \<or> which x"
  have s: "s \<in> set t" "user_row u s" "\<not> which (slug s)" "target s \<in> set VALID_CURATOR_STATES"
    using Cons.prems by auto
  have rest: "set ss \<subseteq> set (filter (user_row u) t)" "distinct (map slug ss)"
    "\<forall>x \<in> set ss. \<not> ?w (slug x) \<and> target x \<in> set VALID_CURATOR_STATES" using Cons.prems by (auto simp: image_iff)
  have set: "(\<lambda>x. x \<in> slug ` set ss \<or> ?w x) = (\<lambda>x. x \<in> slug ` set (s # ss) \<or> which x)" by auto
  show ?case
  proof (cases "target s = curator_state s")
    case True
    have same: "map (moved target u ?w) t = map (moved target u which) t" by (rule moved_same [where target = target and which = which, OF t s(1,2) True])
    have ok: "table_ok sch (map (moved target u ?w) t)" unfolding same using Cons.prems(4) .
    let ?rep = "if target s = ''active'' then rep\<lparr>kept_active := Suc (kept_active rep)\<rparr> else rep"
    from Cons.IH [OF rest ok, of ?rep] show ?thesis
      unfolding same set using True by (auto simp: result_eqs)
  next
    case False
    from skill_update_state [OF t s(1-3) Cons.prems(4) s(4)] obtain r where
      up: "skill_update_curator_state sch (Some u) (slug s) (target s) (map (moved target u which) t) =
        Inr (r, map (moved target u ?w) t)" and ok: "table_ok sch (map (moved target u ?w) t)" by blast
    let ?rep = "if target s = ''stale'' then rep\<lparr>transitioned_stale := Suc (transitioned_stale rep)\<rparr>
       else if target s = ''archived'' then rep\<lparr>transitioned_archived := Suc (transitioned_archived rep)\<rparr> else rep"
    from Cons.IH [OF rest ok, of ?rep] show ?thesis
      unfolding set using False up by auto
  qed
qed simp

subsection \<open>Properties\<close>

lemma listed_skills: "skill_list_user (Some u) t = Inr (sort_key slug (filter (user_row u) t))"
  by (simp add: skill_list_user_def list_user_rows_def current_user_id_def)

lemma distinct_own_slugs:
  assumes "table_ok sch t"
  shows "distinct (map slug (sort_key slug (filter (user_row u) t)))"
proof -
  have "distinct (map (\<lambda>r. (user_id r, slug r)) (filter (user_row u) t))"
    using assms distinct_map_filter_mono [of "\<lambda>r. (user_id r, slug r)" user_current t "user_row u"]
    by (auto simp: table_ok_def user_row_def user_current_def)
  then have "inj_on slug (set (filter (user_row u) t))" "distinct (filter (user_row u) t)"
    by (auto simp: distinct_map inj_on_def user_row_def)
  then show ?thesis by (simp add: distinct_map)
qed

lemma length_filter_sort_key: "length (filter P (sort_key f xs)) = length (filter P xs)"
  by (metis mset_filter mset_sort size_mset)

lemma if_fails_eq_Inr: "(if c then Inl e else Inr x) = Inr y \<longleftrightarrow> \<not> c \<and> y = x"
  by auto

lemma new_proposals:
  assumes "p \<in> set (propose_merges sv u now fresh pairs)"
  shows "pr_user p = u" "pr_status p = ''pending''" "pr_base_version p = None"
  using assms by (auto simp: propose_merges_def List.map_filter_def propose_merge_def Let_def
      split: sum.splits option.splits if_splits)

lemma length_propose_merges: "length (propose_merges sv u now fresh pairs) \<le> length pairs"
  by (simp add: propose_merges_def List.map_filter_def length_filter_le [THEN le_trans])

text \<open>What a successful pass leaves behind, and the counters of its report.\<close>

lemma curator_pass:
  assumes "run_for_agent sch sv created fresh now u agent db = Inr (rep, db')" and "table_ok sch (db_skills db)"
    and "\<forall>s \<in> set (db_skills db). curator_state s \<in> set VALID_CURATOR_STATES"
  shows "\<exists>new. db' = db\<lparr>db_skills := map (\<lambda>r. if user_row u r then r\<lparr>curator_state := target_state created now r\<rparr> else r) (db_skills db),
      db_proposals := db_proposals db @ new\<rparr> \<and>
    list_all (\<lambda>p. pr_user p = u \<and> pr_status p = ''pending'') new \<and> length new \<le> 5 \<and>
    consolidation_proposals rep = length new \<and>
    (new = [] \<or> distinct (map pr_id new) \<and> pr_id ` set new \<inter> pr_id ` set (db_proposals db) = {})"
    and "transitioned_stale rep = length (filter (\<lambda>s. curator_state s \<noteq> target_state created now s \<and>
      target_state created now s = ''stale'') (filter (user_row u) (db_skills db)))"
    and "transitioned_archived rep = length (filter (\<lambda>s. curator_state s \<noteq> target_state created now s \<and>
      target_state created now s = ''archived'') (filter (user_row u) (db_skills db)))"
proof -
  let ?t = "db_skills db" and ?target = "target_state created now"
  let ?ss = "sort_key slug (filter (user_row u) ?t)"
  let ?rep = "\<lparr>kept_active = 0, transitioned_stale = 0, transitioned_archived = 0, consolidation_proposals = 0\<rparr>"
  have target: "\<forall>s \<in> set ?ss. \<not> (\<lambda>_. False) (slug s) \<and> ?target s \<in> set VALID_CURATOR_STATES"
    using assms(3) by (simp add: target_state_valid)
  have sub: "set ?ss \<subseteq> set (filter (user_row u) ?t)" by simp
  have ok: "table_ok sch (map (moved ?target u (\<lambda>_. False)) ?t)" unfolding moved_all by (rule assms(2))
  obtain rep' where run: "transition_all sch (Some u) ?target ?ss ?t ?rep = Inr (rep', map (\<lambda>s. s\<lparr>curator_state := ?target s\<rparr>) ?ss,
        map (moved ?target u (\<lambda>x. x \<in> slug ` set ?ss \<or> False)) ?t)"
    and st: "transitioned_stale rep' = length (filter (\<lambda>s. curator_state s \<noteq> ?target s \<and> ?target s = ''stale'') ?ss)"
    and ar: "transitioned_archived rep' = length (filter (\<lambda>s. curator_state s \<noteq> ?target s \<and> ?target s = ''archived'') ?ss)"
    using transition_all_moves [where rep = ?rep and which = "\<lambda>_. False" and target = ?target and ss = ?ss and u = u,
        OF assms(2) sub distinct_own_slugs [OF assms(2)] target ok] unfolding moved_all by auto
  have rows: "map (moved ?target u (\<lambda>x. x \<in> slug ` set ?ss \<or> False)) ?t =
      map (\<lambda>r. if user_row u r then r\<lparr>curator_state := ?target r\<rparr> else r) ?t"
    by (rule map_cong [OF refl], unfold moved_def, rule if_cong) auto
  let ?pairs = "take CURATOR_REVIEWER_MAX_PAIRS (find_consolidation_pairs (cu_embed sv) CURATOR_CONSOLIDATE_COSINE
      (filter (\<lambda>s. curator_state s \<noteq> ''archived'') (map (\<lambda>s. s\<lparr>curator_state := ?target s\<rparr>) ?ss)))"
  let ?new = "propose_merges sv u now fresh ?pairs"
  have res: "(rep, db') = (rep'\<lparr>consolidation_proposals := length ?new\<rparr>,
      db\<lparr>db_skills := map (\<lambda>r. if user_row u r then r\<lparr>curator_state := ?target r\<rparr> else r) ?t,
        db_proposals := db_proposals db @ ?new\<rparr>) \<and>
      (?new = [] \<or> distinct (map pr_id ?new) \<and> pr_id ` set ?new \<inter> pr_id ` set (db_proposals db) = {})"
    using assms(1) unfolding run_for_agent_def listed_skills bind_result_simps run prod.case Let_def rows if_fails_eq_Inr
    by blast
  have "length ?new \<le> 5"
    using length_propose_merges [of sv u now fresh ?pairs] by (simp add: CURATOR_REVIEWER_MAX_PAIRS_def)
  moreover have "list_all (\<lambda>p. pr_user p = u \<and> pr_status p = ''pending'') ?new"
    using new_proposals by (auto simp: list_all_iff)
  ultimately show "\<exists>new. db' = db\<lparr>db_skills := map (\<lambda>r. if user_row u r then r\<lparr>curator_state := ?target r\<rparr> else r) ?t,
      db_proposals := db_proposals db @ new\<rparr> \<and> list_all (\<lambda>p. pr_user p = u \<and> pr_status p = ''pending'') new \<and>
      length new \<le> 5 \<and> consolidation_proposals rep = length new \<and>
      (new = [] \<or> distinct (map pr_id new) \<and> pr_id ` set new \<inter> pr_id ` set (db_proposals db) = {})"
    using res by (intro exI [of _ ?new]) simp
  show "transitioned_stale rep = length (filter (\<lambda>s. curator_state s \<noteq> ?target s \<and> ?target s = ''stale'') (filter (user_row u) ?t))"
    "transitioned_archived rep = length (filter (\<lambda>s. curator_state s \<noteq> ?target s \<and> ?target s = ''archived'') (filter (user_row u) ?t))"
    using res by (simp_all add: st ar length_filter_sort_key)
qed

text \<open>
  C26. One pass of the curator, when it succeeds: every current skill of the user has the state its idle
  time and successes call for, a pinned one stays pinned; no other column and no other row of the
  table changes; the report counts the changes; and at most five proposals are added, all pending
  and the user's own.  Nothing is merged.
\<close>

theorem curator_pass_exact:
  assumes "run_for_agent sch sv created fresh now u agent db = Inr (rep, db')" and "table_ok sch (db_skills db)"
    and "\<forall>s \<in> set (db_skills db). curator_state s \<in> set VALID_CURATOR_STATES"
  shows "db_skills db' = map (\<lambda>r. if user_row u r then r\<lparr>curator_state := target_state created now r\<rparr> else r) (db_skills db) \<and>
    transitioned_stale rep = length (filter (\<lambda>s. curator_state s \<noteq> target_state created now s \<and>
      target_state created now s = ''stale'') (filter (user_row u) (db_skills db))) \<and>
    transitioned_archived rep = length (filter (\<lambda>s. curator_state s \<noteq> target_state created now s \<and>
      target_state created now s = ''archived'') (filter (user_row u) (db_skills db))) \<and>
    (\<exists>new. db_proposals db' = db_proposals db @ new \<and> length new = consolidation_proposals rep \<and> length new \<le> 5 \<and>
       list_all (\<lambda>p. pr_user p = u \<and> pr_status p = ''pending'') new) \<and>
    db' = db\<lparr>db_skills := db_skills db', db_proposals := db_proposals db'\<rparr>"
proof -
  from curator_pass(1) [OF assms] obtain new where
    "db' = db\<lparr>db_skills := map (\<lambda>r. if user_row u r then r\<lparr>curator_state := target_state created now r\<rparr> else r) (db_skills db),
      db_proposals := db_proposals db @ new\<rparr>" "list_all (\<lambda>p. pr_user p = u \<and> pr_status p = ''pending'') new"
    "length new \<le> 5" "consolidation_proposals rep = length new" by blast
  with curator_pass(2,3) [OF assms] show ?thesis by simp
qed

text \<open>
  A merge the curator proposes under the slug of one of the user's skills, as the reviewer is told
  to and as the default does, can never be approved while that skill exists: approval answers 409.
\<close>

theorem curator_merge_never_approved:
  assumes "run_for_agent sch sv created fresh now u agent db = Inr (rep, db')" and "table_ok sch (db_skills db)"
    and "\<forall>s \<in> set (db_skills db). curator_state s \<in> set VALID_CURATOR_STATES"
    and "distinct (map pr_id (db_proposals db))"
    and "p \<in> set (db_proposals db')" and "p \<notin> set (db_proposals db)"
    and "pr_skill_slug p \<in> slug ` set (filter (user_row u) (db_skills db))" and "en_user e = u"
  shows "approve_skill_proposal (Some (pr_id p)) e db' = Inl (http_error CONFLICT)"
proof -
  let ?f = "\<lambda>r. if user_row u r then r\<lparr>curator_state := target_state created now r\<rparr> else r"
  from curator_pass(1) [OF assms(1-3)] obtain new where
    db': "db' = db\<lparr>db_skills := map ?f (db_skills db), db_proposals := db_proposals db @ new\<rparr>"
    and mine: "list_all (\<lambda>p. pr_user p = u \<and> pr_status p = ''pending'') new"
    and ids: "new = [] \<or> distinct (map pr_id new) \<and> pr_id ` set new \<inter> pr_id ` set (db_proposals db) = {}" by blast
  have p: "p \<in> set new" using assms(5,6) by (simp add: db')
  then have own: "pr_user p = u" "pr_status p = ''pending''" using mine by (auto simp: list_all_iff)
  have "distinct (map pr_id (db_proposals db'))" using ids p assms(4) by (auto simp: db')
  then have one: "filter (own_proposal u (pr_id p)) (db_proposals db') = [p]"
    using assms(5) own filter_same_key_le_one [of pr_id "\<lambda>_. True" "db_proposals db'" "own_proposal u (pr_id p)" "pr_id p"]
    by (simp add: filter_le_one_singleton own_proposal_def)
  obtain s where s: "s \<in> set (db_skills db)" "user_row u s" "slug s = pr_skill_slug p" using assms(7) by auto
  have ok: "table_ok sch (map ?f (db_skills db))"
    by (rule table_ok_map_retiring [OF assms(2)]) (simp_all add: retiring_def)
  have "skill_get_user (guc_of e) (pr_skill_slug p) (db_skills db') = Inr (Some (?f s))"
    unfolding skill_get_user_def guc_of_def db' assms(8) using s get_user_row_Some [OF ok] by (auto simp: user_row_def)
  moreover have "pending_proposal (guc_of e) (Some (pr_id p)) (db_proposals db') = Inr p"
    using assms(8) own one
    by (simp add: pending_proposal_def proposal_get_def guc_of_def current_user_id_def parsed_uuid_def)
  ultimately show ?thesis
    by (simp add: approve_skill_proposal_def proposal_approve_def proposal_answer_def)
qed

text \<open>Two idle skills, one pinned, with bodies that embed alike; the reviewer merges them.\<close>

definition idle_db :: tenant_db where
  "idle_db = \<lparr>db_skills = [example_skill 3 UserScope (Some 7) ''a'' 1 True False,
       (example_skill 4 UserScope (Some 7) ''b'' 1 True False)\<lparr>curator_state := ''pinned''\<rparr>],
     db_instructions = [], db_commands = [], db_mcp_servers = [], db_opt_outs = [], db_cron_jobs = [], db_documents = [],
     db_accounts = \<lparr>db_agents = [example_agent], db_users = db_users example_db\<rparr>,
     db_proposals = []\<rparr>"

definition merging :: curator_services where
  "merging = \<lparr>cu_embed = Some (\<lambda>xs. Inr (map (\<lambda>_. [1]) xs)), cu_review = \<lambda>_. Inr (Some ''yes''),
     cu_loads = \<lambda>_. Some (JObj [(''merge'', JBool True), (''body'', JStr ''m'')]), cu_num = \<lambda>_. JNull\<rparr>"

definition merge_of_idle :: proposal_row where
  "merge_of_idle = \<lparr>pr_id = 30, pr_user = 7, pr_skill_slug = ''a'', pr_base_version = None, pr_body = ''m'',
     pr_fitness = Some [(''trigger'', JStr ''curator''), (''similarity'', JNull), (''source_slugs'', JArr [JStr ''a'', JStr ''b'']),
       (''reason'', JStr [])], pr_status = ''pending'', pr_created_at = days 40, pr_decided_at = None\<rparr>"

lemma idle_db_ok: "table_ok Schema_0001 (db_skills idle_db)"
  "\<forall>s \<in> set (db_skills idle_db). curator_state s \<in> set VALID_CURATOR_STATES"
  by (simp_all add: idle_db_def table_ok_def row_ok_def example_skill_def scope_check_def scope_user_id_check_def
      official_current_def user_current_def VALID_CURATOR_STATES_def)

lemma idle_states:
  "target_state (\<lambda>_. Some 0) (days 40) (example_skill 3 UserScope (Some 7) ''a'' 1 True False) = ''stale''"
  by (simp add: target_state_def example_skill_def days_def CURATOR_ARCHIVE_AFTER_DAYS_def CURATOR_STALE_AFTER_DAYS_def)

lemma idle_rows:
  "db_skills idle_db = [example_skill 3 UserScope (Some 7) ''a'' 1 True False,
     (example_skill 4 UserScope (Some 7) ''b'' 1 True False)\<lparr>curator_state := ''pinned''\<rparr>]"
  "user_row 7 (example_skill 3 UserScope (Some 7) ''a'' 1 True False)"
  "user_row 7 ((example_skill 4 UserScope (Some 7) ''b'' 1 True False)\<lparr>curator_state := ''pinned''\<rparr>)"
  by (simp_all add: idle_db_def user_row_def example_skill_def)

lemma idle_pinned: "target_state c t (s\<lparr>curator_state := ''pinned''\<rparr>) = ''pinned''"
  by (simp add: target_state_def)

lemma idle_pass:
  "\<exists>db'. run_for_agent Schema_0001 merging (\<lambda>_. Some 0) (\<lambda>n. 30) (days 40) 7 1 idle_db =
     Inr (\<lparr>kept_active = 0, transitioned_stale = 1, transitioned_archived = 0, consolidation_proposals = 1\<rparr>, db') \<and>
     db_proposals db' = [merge_of_idle]"
proof -
  have list: "skill_list_user (Some 7) (db_skills idle_db) = Inr (db_skills idle_db)"
    by (simp add: listed_skills idle_db_def example_skill_def user_row_def)
  let ?a = "example_skill 3 UserScope (Some 7) ''a'' 1 True False"
  let ?b = "(example_skill 4 UserScope (Some 7) ''b'' 1 True False)\<lparr>curator_state := ''pinned''\<rparr>"
  have rows: "db_skills idle_db = [?a, ?b]" by (simp add: idle_db_def)
  have up: "skill_update_curator_state Schema_0001 (Some 7) ''a'' ''stale'' [?a, ?b] =
      Inr (Some (?a\<lparr>curator_state := ''stale''\<rparr>), [?a\<lparr>curator_state := ''stale''\<rparr>, ?b])"
    by (simp add: skill_update_curator_state_def VALID_CURATOR_STATES_def update_user_row_def current_user_id_def sql_update_def
        checked_def table_ok_def row_ok_def example_skill_def scope_check_def scope_user_id_check_def
        official_current_def user_current_def user_row_def)
  have a: "slug ?a = ''a''" "curator_state ?a = ''active''" "body ?a = ''b''" by (simp_all add: example_skill_def)
  have b: "slug ?b = ''b''" "curator_state ?b = ''pinned''" "body ?b = ''b''" "target_state (\<lambda>_. Some 0) (days 40) ?b = ''pinned''"
    by (simp_all add: example_skill_def target_state_def)
  let ?s = "?a\<lparr>curator_state := ''stale''\<rparr>"
  have trans: "transition_all Schema_0001 (Some 7) (target_state (\<lambda>_. Some 0) (days 40)) [?a, ?b] [?a, ?b]
      \<lparr>kept_active = 0, transitioned_stale = 0, transitioned_archived = 0, consolidation_proposals = 0\<rparr> =
    Inr (\<lparr>kept_active = 0, transitioned_stale = 1, transitioned_archived = 0, consolidation_proposals = 0\<rparr>, [?s, ?b], [?s, ?b])"
    using up a b idle_states by simp
  have cos: "cosine [1] [1] = 1" by (simp add: cosine_def)
  have pairs: "find_consolidation_pairs (cu_embed merging) CURATOR_CONSOLIDATE_COSINE [?s, ?b] =
      [\<lparr>pair_a = ?s, pair_b = ?b, similarity = 1\<rparr>]"
    by (simp add: find_consolidation_pairs_def merging_def embedding_at_def cos CURATOR_CONSOLIDATE_COSINE_def
        List.map_filter_def upt_rec)
  have merge: "propose_merge merging 7 (days 40) 30 \<lparr>pair_a = ?s, pair_b = ?b, similarity = 1\<rparr> = Some merge_of_idle"
    using a(1) b(1) by (simp add: propose_merge_def merging_def parse_reviewer_def unfenced_def merge_of_idle_def text_or_def py_get_def
        py_str_def py_strip_def py_lstrip_def py_isspace_def CURATOR_MAX_BODY_CHARS_def)
  show ?thesis
    using list trans pairs merge a(2) b(2) unfolding rows
    by (simp add: run_for_agent_def propose_merges_def List.map_filter_def idle_db_def example_agent_def example_db_def rows
        CURATOR_REVIEWER_MAX_PAIRS_def merge_of_idle_def)
qed

theorem curator_pass_exact_witness:
  "\<exists>db'. run_for_agent Schema_0001 merging (\<lambda>_. Some 0) (\<lambda>n. 30) (days 40) 7 1 idle_db =
     Inr (\<lparr>kept_active = 0, transitioned_stale = 1, transitioned_archived = 0, consolidation_proposals = 1\<rparr>, db') \<and>
     map curator_state (db_skills db') = [''stale'', ''pinned'']"
proof -
  obtain db' where run: "run_for_agent Schema_0001 merging (\<lambda>_. Some 0) (\<lambda>n. 30) (days 40) 7 1 idle_db =
      Inr (\<lparr>kept_active = 0, transitioned_stale = 1, transitioned_archived = 0, consolidation_proposals = 1\<rparr>, db')"
    using idle_pass by blast
  from curator_pass_exact [OF run idle_db_ok, THEN conjunct1] have "db_skills db' = map (\<lambda>r. if user_row 7 r
      then r\<lparr>curator_state := target_state (\<lambda>_. Some 0) (days 40) r\<rparr> else r) (db_skills idle_db)" .
  then have "map curator_state (db_skills db') = [''stale'', ''pinned'']"
    unfolding idle_rows(1) list.map if_P [OF idle_rows(2)] if_P [OF idle_rows(3)] idle_states idle_pinned by simp
  with run show ?thesis by (intro exI conjI)
qed

theorem curator_merge_never_approved_witness:
  "\<exists>rep db' e. run_for_agent Schema_0001 merging (\<lambda>_. Some 0) (\<lambda>n. 30) (days 40) 7 1 idle_db = Inr (rep, db') \<and>
     approve_skill_proposal (Some 30) e db' = Inl (http_error CONFLICT)"
proof -
  obtain rep db' where run: "run_for_agent Schema_0001 merging (\<lambda>_. Some 0) (\<lambda>n. 30) (days 40) 7 1 idle_db = Inr (rep, db')"
    and new: "db_proposals db' = [merge_of_idle]" using idle_pass by blast
  let ?e = "\<lparr>en_user = 7, en_rev = Schema_0001, en_fresh = 1, en_now = 5,
     en_kms = \<lparr>kms_encrypt = \<lambda>b x. Inr b, kms_decrypt = \<lambda>b x. Inr b\<rparr>\<rparr>"
  have old: "db_proposals idle_db = []" by (simp add: idle_db_def)
  have slug: "pr_skill_slug merge_of_idle \<in> slug ` set (filter (user_row 7) (db_skills idle_db))"
    by (simp add: merge_of_idle_def idle_db_def example_skill_def user_row_def)
  have "approve_skill_proposal (Some (pr_id merge_of_idle)) ?e db' = Inl (http_error CONFLICT)"
    by (rule curator_merge_never_approved [OF run idle_db_ok _ _ _ slug]) (simp_all add: new old)
  with run show ?thesis by (auto simp: merge_of_idle_def)
qed

end
