(* ===== verification/Mcp_Pool.thy ===== *)
theory Mcp_Pool
  imports Effective_Config
begin

text \<open>
  \<open>agent/mcp_pool.py\<close>: the pool of connected MCP servers.  A request looks its key up under the
  lock, builds outside the lock and stores under the lock again, so requests interleave between
  these steps.  Connecting is an argument; a server is its number and what it was opened with.
  Closing never fails, since the code suppresses its errors.
\<close>

subsection \<open>Servers\<close>

type_synonym pool_key = "string \<times> string \<times> string"

record mcp_server =
  sv_id :: nat
  sv_name :: string
  sv_url :: string
  sv_headers :: "(string \<times> pystr) list"

record pool_entry =
  pe_server :: mcp_server
  pe_expires_at :: int

definition pool_cache_key :: "string \<Rightarrow> resolved_mcp \<Rightarrow> pool_key" where
  "pool_cache_key usr e = (usr, rm_slug e, rm_url e)"

definition server_headers :: "kms \<Rightarrow> resolved_mcp \<Rightarrow> (string \<times> pystr) list result" where
  "server_headers K e =
     (case (rm_auth_value_ct e, rm_auth_header e) of
        (Some ct, Some h) \<Rightarrow>
          if h = [] then Inr []
          else (let owner = (case rm_user_id e of None \<Rightarrow> ''official'' | Some u \<Rightarrow> if u = [] then ''official'' else u)
            in bind_result (kms_decrypt K ct (owner_ctx owner)) (\<lambda>plain.
               bind_result (utf8_decode plain) (\<lambda>s. Inr [(h, s)])))
      | _ \<Rightarrow> Inr [])"

definition build_server :: "kms \<Rightarrow> (mcp_server \<Rightarrow> unit result) \<Rightarrow> nat \<Rightarrow> resolved_mcp \<Rightarrow> mcp_server result" where
  "build_server K connect fresh e =
     bind_result (server_headers K e) (\<lambda>h.
       let s = \<lparr>sv_id = fresh, sv_name = rm_slug e, sv_url = rm_url e, sv_headers = h\<rparr>
       in bind_result (connect s) (\<lambda>_. Inr s))"

subsection \<open>The pool\<close>

definition DEFAULT_TTL_MS :: int where "DEFAULT_TTL_MS = 600000"
definition DEFAULT_MAX_ENTRIES :: nat where "DEFAULT_MAX_ENTRIES = 100"

record mcp_pool =
  po_ttl :: int
  po_max :: nat
  po_cache :: "(pool_key \<times> pool_entry) list"
  po_closed :: "nat list"

definition close_servers :: "mcp_server list \<Rightarrow> mcp_pool \<Rightarrow> mcp_pool" where
  "close_servers ss p = p\<lparr>po_closed := po_closed p @ map sv_id ss\<rparr>"

text \<open>\<open>OrderedDict.move_to_end\<close>.\<close>

definition move_to_end :: "'k \<Rightarrow> ('k \<times> 'v) list \<Rightarrow> ('k \<times> 'v) list" where
  "move_to_end k c = (case map_of c k of None \<Rightarrow> c | Some v \<Rightarrow> AList.delete k c @ [(k, v)])"

text \<open>The first locked section.\<close>

definition pool_lookup :: "pool_key \<Rightarrow> int \<Rightarrow> mcp_pool \<Rightarrow> mcp_server option \<times> mcp_pool" where
  "pool_lookup k now p =
     (case map_of (po_cache p) k of
        None \<Rightarrow> (None, p)
      | Some x \<Rightarrow>
          if now < pe_expires_at x then (Some (pe_server x), p\<lparr>po_cache := move_to_end k (po_cache p)\<rparr>)
          else (None, close_servers [pe_server x] (p\<lparr>po_cache := AList.delete k (po_cache p)\<rparr>)))"

fun evict_if_full :: "nat \<Rightarrow> (pool_key \<times> pool_entry) list \<Rightarrow> (pool_key \<times> pool_entry) list \<times> mcp_server list" where
  "evict_if_full most [] = ([], [])"
| "evict_if_full most (x # xs) =
     (if most < length (x # xs)
      then (let (c, ss) = evict_if_full most xs in (c, pe_server (snd x) # ss))
      else (x # xs, []))"

text \<open>The second locked section; \<open>now\<close> is the time of the lookup.\<close>

definition pool_store :: "pool_key \<Rightarrow> int \<Rightarrow> mcp_server \<Rightarrow> mcp_pool \<Rightarrow> mcp_pool" where
  "pool_store k now s p =
     (let (c, ss) = evict_if_full (po_max p)
            (move_to_end k (dict_set k \<lparr>pe_server = s, pe_expires_at = now + po_ttl p\<rparr> (po_cache p)))
      in close_servers ss (p\<lparr>po_cache := c\<rparr>))"

definition get_or_build ::
  "kms \<Rightarrow> (mcp_server \<Rightarrow> unit result) \<Rightarrow> string \<Rightarrow> int \<Rightarrow> resolved_mcp \<Rightarrow> nat \<times> mcp_pool \<Rightarrow> mcp_server result \<times> nat \<times> mcp_pool"
where
  "get_or_build K connect usr now e st =
     (let k = pool_cache_key usr e
      in case pool_lookup k now (snd st) of
           (Some s, p) \<Rightarrow> (Inr s, fst st, p)
         | (None, p) \<Rightarrow>
             (case build_server K connect (fst st) e of
                Inl x \<Rightarrow> (Inl x, Suc (fst st), p)
              | Inr s \<Rightarrow> (Inr s, Suc (fst st), pool_store k now s p)))"

fun acquire_all ::
  "kms \<Rightarrow> (mcp_server \<Rightarrow> unit result) \<Rightarrow> string \<Rightarrow> int \<Rightarrow> resolved_mcp list \<Rightarrow> nat \<times> mcp_pool
     \<Rightarrow> mcp_server list result \<times> nat \<times> mcp_pool"
where
  "acquire_all K connect usr now [] st = (Inr [], st)"
| "acquire_all K connect usr now (e # es) st =
     (case get_or_build K connect usr now e st of
        (Inl x, st') \<Rightarrow> (Inl x, st')
      | (Inr s, st') \<Rightarrow>
          (case acquire_all K connect usr now es st' of
             (Inl x, st2) \<Rightarrow> (Inl x, st2)
           | (Inr ss, st2) \<Rightarrow> (Inr (s # ss), st2)))"

definition pool_acquire ::
  "kms \<Rightarrow> (mcp_server \<Rightarrow> unit result) \<Rightarrow> string \<Rightarrow> int \<Rightarrow> effective_config \<Rightarrow> nat \<times> mcp_pool
     \<Rightarrow> mcp_server list result \<times> nat \<times> mcp_pool"
where
  "pool_acquire K connect usr now eff st = acquire_all K connect usr now (ec_mcp_servers eff) st"

definition is_victim :: "string option \<Rightarrow> string option \<Rightarrow> pool_key \<Rightarrow> bool" where
  "is_victim usr s k \<longleftrightarrow>
     (usr = None \<or> usr = Some (fst k)) \<and> (s = None \<or> s = Some (fst (snd k)))"

definition pool_invalidate :: "string option \<Rightarrow> string option \<Rightarrow> mcp_pool \<Rightarrow> nat \<times> mcp_pool" where
  "pool_invalidate usr s p =
     (let victims = filter (\<lambda>(k, _). is_victim usr s k) (po_cache p)
      in (length victims, close_servers (map (\<lambda>(_, x). pe_server x) victims)
           (p\<lparr>po_cache := filter (\<lambda>(k, _). \<not> is_victim usr s k) (po_cache p)\<rparr>)))"

definition pool_shutdown :: "mcp_pool \<Rightarrow> mcp_pool" where
  "pool_shutdown p = close_servers (map (\<lambda>(_, x). pe_server x) (po_cache p)) (p\<lparr>po_cache := []\<rparr>)"

subsection \<open>Interleaved requests\<close>

text \<open>
  \<open>pr_building\<close> are the requests between their two locked sections, \<open>pr_asked\<close> all that had to
  build, \<open>pr_served\<close> the servers handed out, each with the time of its request.
\<close>

record pool_run =
  pr_pool :: mcp_pool
  pr_clock :: int
  pr_fresh :: nat
  pr_building :: "(string \<times> resolved_mcp \<times> int) list"
  pr_asked :: "(string \<times> resolved_mcp \<times> int) list"
  pr_served :: "(string \<times> resolved_mcp \<times> int \<times> mcp_server) list"

inductive pool_step :: "kms \<Rightarrow> (mcp_server \<Rightarrow> unit result) \<Rightarrow> pool_run \<Rightarrow> pool_run \<Rightarrow> bool"
  for K connect where
  pool_hit: "pool_lookup (pool_cache_key u e) (pr_clock st) (pr_pool st) = (Some s, p) \<Longrightarrow>
    pool_step K connect st (st\<lparr>pr_pool := p, pr_served := (u, e, pr_clock st, s) # pr_served st\<rparr>)"
| pool_miss: "pool_lookup (pool_cache_key u e) (pr_clock st) (pr_pool st) = (None, p) \<Longrightarrow>
    pool_step K connect st (st\<lparr>pr_pool := p, pr_building := (u, e, pr_clock st) # pr_building st,
      pr_asked := (u, e, pr_clock st) # pr_asked st\<rparr>)"
| pool_built: "(u, e, t) \<in> set (pr_building st) \<Longrightarrow> build_server K connect (pr_fresh st) e = Inr s \<Longrightarrow>
    pool_step K connect st (st\<lparr>pr_pool := pool_store (pool_cache_key u e) t s (pr_pool st), pr_fresh := Suc (pr_fresh st),
      pr_building := remove1 (u, e, t) (pr_building st), pr_served := (u, e, t, s) # pr_served st\<rparr>)"
| pool_failed: "(u, e, t) \<in> set (pr_building st) \<Longrightarrow> build_server K connect (pr_fresh st) e = Inl x \<Longrightarrow>
    pool_step K connect st (st\<lparr>pr_building := remove1 (u, e, t) (pr_building st)\<rparr>)"
| pool_invalidated: "pool_invalidate usr sl (pr_pool st) = (n, p) \<Longrightarrow> pool_step K connect st (st\<lparr>pr_pool := p\<rparr>)"
| pool_stopped: "pool_step K connect st (st\<lparr>pr_pool := pool_shutdown (pr_pool st)\<rparr>)"
| pool_ticked: "pr_clock st \<le> t \<Longrightarrow> pool_step K connect st (st\<lparr>pr_clock := t\<rparr>)"

definition pool_start :: "int \<Rightarrow> nat \<Rightarrow> pool_run" where
  "pool_start ttl most = \<lparr>pr_pool = \<lparr>po_ttl = ttl, po_max = most, po_cache = [], po_closed = []\<rparr>, pr_clock = 0, pr_fresh = 0,
     pr_building = [], pr_asked = [], pr_served = []\<rparr>"

subsection \<open>The ordered dict\<close>

lemma map_of_move_to_end [simp]: "map_of (move_to_end k c) = map_of c"
  by (auto simp: move_to_end_def map_add_def delete_conv' split: option.splits)

lemma distinct_move_to_end [simp]: "distinct (map fst c) \<Longrightarrow> distinct (map fst (move_to_end k c))"
  by (auto simp: move_to_end_def distinct_delete delete_keys distinct_removeAll split: option.splits)

lemma set_move_to_end [simp]: "distinct (map fst c) \<Longrightarrow> set (move_to_end k c) = set c"
  by (rule set_eqI, rule iffI)
    (metis distinct_move_to_end map_of_eq_Some_iff map_of_move_to_end prod.collapse)+

lemma length_move_to_end [simp]: "distinct (map fst c) \<Longrightarrow> length (move_to_end k c) = length c"
  by (metis distinct_card distinct_map distinct_move_to_end set_move_to_end)

lemma evict_splits: "evict_if_full most c = (c', ss) \<Longrightarrow> \<exists>old. c = old @ c' \<and> ss = map (\<lambda>(_, x). pe_server x) old \<and> length c' \<le> most"
proof (induction c arbitrary: c' ss)
  case (Cons x xs)
  show ?case
  proof (cases "most < length (x # xs)")
    case True
    then obtain ss1 where "evict_if_full most xs = (c', ss1)" "ss = pe_server (snd x) # ss1"
      using Cons.prems by (auto split: prod.splits)
    moreover from this(1) obtain old where "xs = old @ c'" "ss1 = map (\<lambda>(_, x). pe_server x) old" "length c' \<le> most"
      using Cons.IH by blast
    ultimately show ?thesis by (intro exI [of _ "x # old"]) (simp add: case_prod_beta)
  next
    case False
    then show ?thesis using Cons.prems by (intro exI [of _ "[]"]) auto
  qed
qed simp

subsection \<open>The operations on the cache\<close>

lemma set_delete: "set (AList.delete k c) \<subseteq> set c"
  by (auto simp: AList.delete_eq)

lemma pool_lookup_cache:
  assumes look: "pool_lookup k now p = (r, p')" and d: "distinct (map fst (po_cache p))"
  shows "po_ttl p' = po_ttl p" "po_max p' = po_max p" "distinct (map fst (po_cache p'))"
    and "set (po_cache p') \<subseteq> set (po_cache p)" "length (po_cache p') \<le> length (po_cache p)"
    and "r = Some s \<Longrightarrow> \<exists>x. (k, x) \<in> set (po_cache p) \<and> s = pe_server x \<and> now < pe_expires_at x"
proof -
  have "po_ttl p' = po_ttl p \<and> po_max p' = po_max p \<and> distinct (map fst (po_cache p')) \<and>
    set (po_cache p') \<subseteq> set (po_cache p) \<and> length (po_cache p') \<le> length (po_cache p) \<and>
    (r = Some s \<longrightarrow> (\<exists>x. (k, x) \<in> set (po_cache p) \<and> s = pe_server x \<and> now < pe_expires_at x))"
  proof (cases "map_of (po_cache p) k")
    case None
    then show ?thesis using look d by (simp add: pool_lookup_def)
  next
    case (Some x)
    note x = map_of_SomeD [OF Some]
    show ?thesis
    proof (cases "now < pe_expires_at x")
      case True
      then show ?thesis using look d Some x by (auto simp: pool_lookup_def)
    next
      case False
      then have "r = None" "p' = close_servers [pe_server x] (p\<lparr>po_cache := AList.delete k (po_cache p)\<rparr>)"
        using look Some by (simp_all add: pool_lookup_def)
      then show ?thesis using d set_delete [THEN subsetD] by (auto simp: close_servers_def distinct_delete length_delete_le)
    qed
  qed
  then show "po_ttl p' = po_ttl p" "po_max p' = po_max p" "distinct (map fst (po_cache p'))"
    "set (po_cache p') \<subseteq> set (po_cache p)" "length (po_cache p') \<le> length (po_cache p)"
    "r = Some s \<Longrightarrow> \<exists>x. (k, x) \<in> set (po_cache p) \<and> s = pe_server x \<and> now < pe_expires_at x"
    by blast+
qed

lemma set_dict_set: "set (dict_set k v c) \<subseteq> insert (k, v) (set c)"
  by (induction c) auto

lemma pool_store_cache:
  assumes "distinct (map fst (po_cache p))"
  shows "po_ttl (pool_store k now s p) = po_ttl p" "po_max (pool_store k now s p) = po_max p"
    and "distinct (map fst (po_cache (pool_store k now s p)))" "length (po_cache (pool_store k now s p)) \<le> po_max p"
    and "set (po_cache (pool_store k now s p)) \<subseteq> insert (k, \<lparr>pe_server = s, pe_expires_at = now + po_ttl p\<rparr>) (set (po_cache p))"
proof -
  let ?c = "move_to_end k (dict_set k \<lparr>pe_server = s, pe_expires_at = now + po_ttl p\<rparr> (po_cache p))"
  have d: "distinct (map fst ?c)" using assms by (simp add: distinct_update)
  obtain c' ss where ev: "evict_if_full (po_max p) ?c = (c', ss)" by fastforce
  from evict_splits [OF this] obtain old where old: "?c = old @ c'" "length c' \<le> po_max p" by blast
  have p': "po_ttl (pool_store k now s p) = po_ttl p" "po_max (pool_store k now s p) = po_max p" "po_cache (pool_store k now s p) = c'"
    by (simp_all add: pool_store_def ev close_servers_def)
  have "set c' \<subseteq> set ?c" unfolding old(1) by simp
  also have "set ?c = set (dict_set k \<lparr>pe_server = s, pe_expires_at = now + po_ttl p\<rparr> (po_cache p))"
    using assms by (simp add: distinct_update)
  finally show "set (po_cache (pool_store k now s p)) \<subseteq> insert (k, \<lparr>pe_server = s, pe_expires_at = now + po_ttl p\<rparr>) (set (po_cache p))"
    using set_dict_set p'(3) by fastforce
  show "distinct (map fst (po_cache (pool_store k now s p)))" using d unfolding p'(3) old(1) by simp
qed (use assms in \<open>simp_all add: pool_store_def close_servers_def split: prod.splits\<close>, (use evict_splits in blast)?)

subsection \<open>Whose servers are served\<close>

text \<open>The server was opened for a request of this user, with what that request resolved to.\<close>

definition opened_for :: "kms \<Rightarrow> pool_run \<Rightarrow> pool_key \<Rightarrow> int \<Rightarrow> mcp_server \<Rightarrow> bool" where
  "opened_for K st k t s \<longleftrightarrow> (\<exists>e. (fst k, e, t) \<in> set (pr_asked st) \<and> pool_cache_key (fst k) e = k \<and>
     server_headers K e = Inr (sv_headers s) \<and> sv_name s = rm_slug e \<and> sv_url s = rm_url e)"

definition pool_inv :: "kms \<Rightarrow> pool_run \<Rightarrow> bool" where
  "pool_inv K st \<longleftrightarrow> distinct (map fst (po_cache (pr_pool st))) \<and> length (po_cache (pr_pool st)) \<le> po_max (pr_pool st) \<and>
     (\<forall>k x. (k, x) \<in> set (po_cache (pr_pool st)) \<longrightarrow> opened_for K st k (pe_expires_at x - po_ttl (pr_pool st)) (pe_server x)) \<and>
     (\<forall>u e t s. (u, e, t, s) \<in> set (pr_served st) \<longrightarrow> (\<exists>t'. opened_for K st (pool_cache_key u e) t' s \<and> t' \<le> t \<and> (0 < po_ttl (pr_pool st) \<longrightarrow> t < t' + po_ttl (pr_pool st)))) \<and>
     (\<forall>u e t. (u, e, t) \<in> set (pr_asked st) \<longrightarrow> t \<le> pr_clock st) \<and> set (pr_building st) \<subseteq> set (pr_asked st)"

lemma opened_for_mono:
  "opened_for K st k t s \<Longrightarrow> set (pr_asked st) \<subseteq> set (pr_asked st') \<Longrightarrow> opened_for K st' k t s"
  by (auto simp: opened_for_def)

lemma build_server_Inr:
  "build_server K connect n e = Inr s \<longleftrightarrow> (\<exists>h. server_headers K e = Inr h \<and>
     s = \<lparr>sv_id = n, sv_name = rm_slug e, sv_url = rm_url e, sv_headers = h\<rparr> \<and> connect s = Inr ())"
  by (auto simp: build_server_def result_eqs Let_def)

lemma pool_inv_parts:
  assumes "pool_inv K st"
  shows "distinct (map fst (po_cache (pr_pool st)))" "length (po_cache (pr_pool st)) \<le> po_max (pr_pool st)"
    and "(k, x) \<in> set (po_cache (pr_pool st)) \<Longrightarrow> opened_for K st k (pe_expires_at x - po_ttl (pr_pool st)) (pe_server x)"
    and "opened_for K st k t s \<Longrightarrow> t \<le> pr_clock st" and "set (pr_building st) \<subseteq> set (pr_asked st)"
    and "(u, e, t, s) \<in> set (pr_served st) \<Longrightarrow> \<exists>t'. opened_for K st (pool_cache_key u e) t' s \<and> t' \<le> t \<and>
      (0 < po_ttl (pr_pool st) \<longrightarrow> t < t' + po_ttl (pr_pool st))"
  using assms unfolding pool_inv_def opened_for_def by blast+

lemma pool_inv_pool:
  assumes "pool_inv K st" and "po_ttl p = po_ttl (pr_pool st)" and "distinct (map fst (po_cache p))"
    and "length (po_cache p) \<le> po_max p"
    and "\<And>k x. (k, x) \<in> set (po_cache p) \<Longrightarrow>
      (k, x) \<in> set (po_cache (pr_pool st)) \<or> opened_for K st k (pe_expires_at x - po_ttl p) (pe_server x)"
  shows "pool_inv K (st\<lparr>pr_pool := p\<rparr>)"
proof -
  have "opened_for K st k (pe_expires_at x - po_ttl p) (pe_server x)" if "(k, x) \<in> set (po_cache p)" for k x
    using assms(5) [OF that] pool_inv_parts(3) [OF assms(1)] by (simp add: assms(2)) blast
  with assms(1-4) show ?thesis by (auto simp: pool_inv_def opened_for_def)
qed

lemma pool_inv_served:
  assumes "pool_inv K st" and "opened_for K st (pool_cache_key u e) t' s" "t' \<le> t"
    and "0 < po_ttl (pr_pool st) \<Longrightarrow> t < t' + po_ttl (pr_pool st)"
  shows "pool_inv K (st\<lparr>pr_served := (u, e, t, s) # pr_served st\<rparr>)"
  using assms by (auto simp: pool_inv_def opened_for_def)

lemma pool_inv_asked:
  assumes "pool_inv K st"
  shows "pool_inv K (st\<lparr>pr_building := (u, e, pr_clock st) # pr_building st, pr_asked := (u, e, pr_clock st) # pr_asked st\<rparr>)"
    (is "pool_inv K ?st")
proof -
  have mono: "opened_for K st k t s \<Longrightarrow> opened_for K ?st k t s" for k t s by (auto simp: opened_for_def)
  have served: "\<exists>t'. opened_for K ?st (pool_cache_key u e) t' s \<and> t' \<le> t \<and> (0 < po_ttl (pr_pool st) \<longrightarrow> t < t' + po_ttl (pr_pool st))"
    if asked: "(u, e, t, s) \<in> set (pr_served st)" for u e t s
  proof -
    obtain t' where "opened_for K st (pool_cache_key u e) t' s" "t' \<le> t" "0 < po_ttl (pr_pool st) \<longrightarrow> t < t' + po_ttl (pr_pool st)"
      using pool_inv_parts(6) [OF assms asked] by blast
    with mono show ?thesis by blast
  qed
  have cached: "opened_for K ?st k (pe_expires_at x - po_ttl (pr_pool st)) (pe_server x)"
    if "(k, x) \<in> set (po_cache (pr_pool st))" for k x using mono [OF pool_inv_parts(3) [OF assms that]] .
  show ?thesis
    unfolding pool_inv_def using served cached assms [unfolded pool_inv_def]
    by (intro conjI) (simp_all, blast+)
qed

lemma pool_inv_rest:
  assumes "pool_inv K st" and "set b \<subseteq> set (pr_building st)" and "pr_clock st \<le> t"
  shows "pool_inv K (st\<lparr>pr_building := b, pr_clock := t, pr_fresh := n\<rparr>)"
  using assms by (fastforce simp: pool_inv_def opened_for_def)

lemma pool_step_inv:
  assumes "pool_step K connect st st'" and inv: "pool_inv K st"
  shows "pool_inv K st'"
  using assms(1)
proof cases
  case (pool_hit u e s p)
  note look = pool_lookup_cache [OF pool_hit(2) pool_inv_parts(1) [OF inv]]
  from look(6) [OF refl] obtain x where x: "(pool_cache_key u e, x) \<in> set (po_cache (pr_pool st))" "s = pe_server x"
    "pr_clock st < pe_expires_at x" by blast
  have o: "opened_for K st (pool_cache_key u e) (pe_expires_at x - po_ttl (pr_pool st)) s"
    using pool_inv_parts(3) [OF inv x(1)] x(2) by simp
  have "pool_inv K (st\<lparr>pr_served := (u, e, pr_clock st, s) # pr_served st\<rparr>)" (is "pool_inv K ?st")
    by (rule pool_inv_served [OF inv o pool_inv_parts(4) [OF inv o]]) (use x(3) in simp)
  then have "pool_inv K (?st\<lparr>pr_pool := p\<rparr>)"
    by (rule pool_inv_pool) (use look(1-5) pool_inv_parts(2) [OF inv] in auto)
  moreover have "st' = ?st\<lparr>pr_pool := p\<rparr>" unfolding pool_hit(1) by (cases st) simp
  ultimately show ?thesis by simp
next
  case (pool_miss u e p)
  note look = pool_lookup_cache [OF pool_miss(2) pool_inv_parts(1) [OF inv]]
  let ?st = "st\<lparr>pr_building := (u, e, pr_clock st) # pr_building st, pr_asked := (u, e, pr_clock st) # pr_asked st\<rparr>"
  from pool_inv_asked [OF inv, of u e] have "pool_inv K (?st\<lparr>pr_pool := p\<rparr>)"
    by (rule pool_inv_pool) (use look(1-5) pool_inv_parts(2) [OF inv] in auto)
  moreover have "st' = ?st\<lparr>pr_pool := p\<rparr>" unfolding pool_miss(1) by (cases st) simp
  ultimately show ?thesis by simp
next
  case (pool_built u e t s)
  note store = pool_store_cache [OF pool_inv_parts(1) [OF inv], of "pool_cache_key u e" t s]
  have asked: "(u, e, t) \<in> set (pr_asked st)" using pool_built(2) pool_inv_parts(5) [OF inv] by blast
  have o: "opened_for K st (pool_cache_key u e) t s"
    using pool_built(3) asked by (auto simp: opened_for_def build_server_Inr pool_cache_key_def)
  have "pool_inv K (st\<lparr>pr_served := (u, e, t, s) # pr_served st\<rparr>)" (is "pool_inv K ?st")
    by (rule pool_inv_served [OF inv o]) simp_all
  moreover have "(k, x) \<in> set (po_cache (pr_pool ?st)) \<or> opened_for K ?st k (pe_expires_at x - po_ttl (pr_pool st)) (pe_server x)"
    if "(k, x) \<in> set (po_cache (pool_store (pool_cache_key u e) t s (pr_pool st)))" for k x
  proof -
    have "(k, x) = (pool_cache_key u e, \<lparr>pe_server = s, pe_expires_at = t + po_ttl (pr_pool st)\<rparr>) \<or>
        (k, x) \<in> set (po_cache (pr_pool st))" using store(5) that by blast
    moreover have "opened_for K ?st (pool_cache_key u e) t s" using o by (simp add: opened_for_def)
    ultimately show ?thesis by auto
  qed
  ultimately have "pool_inv K (?st\<lparr>pr_pool := pool_store (pool_cache_key u e) t s (pr_pool st)\<rparr>)"
    using store(1-4) by (intro pool_inv_pool) simp_all
  then have "pool_inv K (?st\<lparr>pr_pool := pool_store (pool_cache_key u e) t s (pr_pool st)\<rparr>
      \<lparr>pr_building := remove1 (u, e, t) (pr_building st), pr_clock := pr_clock st, pr_fresh := Suc (pr_fresh st)\<rparr>)"
    by (rule pool_inv_rest) (auto intro: set_remove1_subset [THEN subsetD])
  moreover have "st' = ?st\<lparr>pr_pool := pool_store (pool_cache_key u e) t s (pr_pool st)\<rparr>
      \<lparr>pr_building := remove1 (u, e, t) (pr_building st), pr_clock := pr_clock st, pr_fresh := Suc (pr_fresh st)\<rparr>"
    unfolding pool_built(1) by (cases st) simp
  ultimately show ?thesis by simp
next
  case (pool_failed u e t x)
  have "pool_inv K (st\<lparr>pr_building := remove1 (u, e, t) (pr_building st), pr_clock := pr_clock st, pr_fresh := pr_fresh st\<rparr>)"
    by (rule pool_inv_rest [OF inv]) (auto intro: set_remove1_subset [THEN subsetD])
  moreover have "st' = st\<lparr>pr_building := remove1 (u, e, t) (pr_building st), pr_clock := pr_clock st, pr_fresh := pr_fresh st\<rparr>" unfolding pool_failed(1) by (cases st) simp
  ultimately show ?thesis by simp
next
  case (pool_invalidated usr sl n p)
  show ?thesis unfolding pool_invalidated(1)
    by (rule pool_inv_pool [OF inv])
      (use pool_invalidated(2) pool_inv_parts(1,2) [OF inv] in
        \<open>auto simp: pool_invalidate_def close_servers_def Let_def distinct_map_filter intro: le_trans [OF length_filter_le]\<close>)
next
  case pool_stopped
  show ?thesis unfolding pool_stopped
    by (rule pool_inv_pool [OF inv]) (simp_all add: pool_shutdown_def close_servers_def)
next
  case (pool_ticked t)
  have "pool_inv K (st\<lparr>pr_building := pr_building st, pr_clock := t, pr_fresh := pr_fresh st\<rparr>)"
    by (rule pool_inv_rest [OF inv]) (use pool_ticked in auto)
  moreover have "st' = st\<lparr>pr_building := pr_building st, pr_clock := t, pr_fresh := pr_fresh st\<rparr>" unfolding pool_ticked(1) by (cases st) simp
  ultimately show ?thesis by simp
qed

lemma pool_step_bounds:
  assumes "pool_step K connect st st'" and "pool_inv K st"
  shows "po_ttl (pr_pool st') = po_ttl (pr_pool st) \<and> po_max (pr_pool st') = po_max (pr_pool st)"
  using assms(1)
proof cases
  case (pool_hit u e s p)
  then show ?thesis using pool_lookup_cache [OF pool_hit(2) pool_inv_parts(1) [OF assms(2)]] by simp
next
  case (pool_miss u e p)
  then show ?thesis using pool_lookup_cache [OF pool_miss(2) pool_inv_parts(1) [OF assms(2)]] by simp
next
  case (pool_built u e t s)
  then show ?thesis using pool_store_cache [OF pool_inv_parts(1) [OF assms(2)]] by simp
qed (auto simp: pool_invalidate_def pool_shutdown_def close_servers_def Let_def)

lemma pool_reachable:
  assumes "(pool_step K connect)\<^sup>*\<^sup>* (pool_start ttl most) st"
  shows "pool_inv K st \<and> po_ttl (pr_pool st) = ttl \<and> po_max (pr_pool st) = most"
  using assms
proof (induction rule: rtranclp_induct)
  case base
  then show ?case by (simp add: pool_inv_def pool_start_def)
next
  case (step st st')
  then show ?case using pool_step_inv [OF step.hyps(2)] pool_step_bounds [OF step.hyps(2)] by simp
qed

subsection \<open>Which servers are closed\<close>

definition tracked :: "nat \<Rightarrow> mcp_pool \<Rightarrow> bool" where
  "tracked n p \<longleftrightarrow> n \<in> set (po_closed p) \<or> (\<exists>k x. (k, x) \<in> set (po_cache p) \<and> sv_id (pe_server x) = n)"

definition building_keys :: "pool_run \<Rightarrow> pool_key list" where
  "building_keys st = map (\<lambda>(u, e, t). pool_cache_key u e) (pr_building st)"

text \<open>Steps during which no two requests build the same key.\<close>

definition pool_step_alone :: "kms \<Rightarrow> (mcp_server \<Rightarrow> unit result) \<Rightarrow> pool_run \<Rightarrow> pool_run \<Rightarrow> bool" where
  "pool_step_alone K connect st st' \<longleftrightarrow> pool_step K connect st st' \<and> distinct (building_keys st')"

lemma pool_lookup_tracked:
  assumes "pool_lookup k now p = (r, p')" and d: "distinct (map fst (po_cache p))"
  shows "tracked n p \<Longrightarrow> tracked n p'" and "fst ` set (po_cache p') \<subseteq> fst ` set (po_cache p)"
    and "r = None \<Longrightarrow> k \<notin> fst ` set (po_cache p')"
proof -
  show "fst ` set (po_cache p') \<subseteq> fst ` set (po_cache p)" using pool_lookup_cache(4) [OF assms] by blast
  show "r = None \<Longrightarrow> k \<notin> fst ` set (po_cache p')"
    using assms by (auto simp: pool_lookup_def close_servers_def AList.delete_eq map_of_eq_None_iff split: option.splits if_splits)
  assume t: "tracked n p"
  show "tracked n p'"
  proof (cases "map_of (po_cache p) k")
    case None
    then show ?thesis using assms t by (simp add: pool_lookup_def)
  next
    case (Some x)
    have "y = x" if "(k, y) \<in> set (po_cache p)" for y using that Some d by (metis map_of_eq_Some_iff option.inject)
    then have "\<exists>k' y. (k', y) \<in> set (AList.delete k (po_cache p)) \<and> sv_id (pe_server y) = n"
      if "(k', y) \<in> set (po_cache p)" "sv_id (pe_server y) = n" "n \<noteq> sv_id (pe_server x)" for k' y
      using that by (intro exI [of _ k'] exI [of _ y]) (auto simp: AList.delete_eq)
    then have gone: "tracked n (close_servers [pe_server x] (p\<lparr>po_cache := AList.delete k (po_cache p)\<rparr>))"
      using t by (cases "n = sv_id (pe_server x)") (auto simp: tracked_def close_servers_def)
    have kept: "tracked n (p\<lparr>po_cache := move_to_end k (po_cache p)\<rparr>)" using t d by (simp add: tracked_def)
    show ?thesis using assms(1) Some gone kept by (cases "now < pe_expires_at x") (auto simp: pool_lookup_def)
  qed
qed

lemma pool_store_tracked:
  assumes d: "distinct (map fst (po_cache p))" and new: "k \<notin> fst ` set (po_cache p)"
  shows "tracked n p \<or> n = sv_id s \<Longrightarrow> tracked n (pool_store k now s p)"
    and "fst ` set (po_cache (pool_store k now s p)) \<subseteq> insert k (fst ` set (po_cache p))"
proof -
  let ?x = "\<lparr>pe_server = s, pe_expires_at = now + po_ttl p\<rparr>"
  have c: "move_to_end k (dict_set k ?x (po_cache p)) = po_cache p @ [(k, ?x)]"
    using new by (simp add: move_to_end_def dict_get_set AList.delete_update_same)
  show "fst ` set (po_cache (pool_store k now s p)) \<subseteq> insert k (fst ` set (po_cache p))"
    using pool_store_cache(5) [OF d, of k now s] by force
  obtain c' ss where ev: "evict_if_full (po_max p) (po_cache p @ [(k, ?x)]) = (c', ss)" by fastforce
  from evict_splits [OF this] obtain old where old: "po_cache p @ [(k, ?x)] = old @ c'" "ss = map (\<lambda>(_, x). pe_server x) old" by blast
  have st: "pool_store k now s p = p\<lparr>po_cache := c', po_closed := po_closed p @ map sv_id ss\<rparr>"
    by (simp add: pool_store_def c ev close_servers_def)
  assume "tracked n p \<or> n = sv_id s"
  then have "n \<in> set (po_closed p) \<or> (\<exists>k' y. (k', y) \<in> set (po_cache p @ [(k, ?x)]) \<and> sv_id (pe_server y) = n)"
  proof
    assume "tracked n p"
    then show ?thesis by (auto simp: tracked_def)
  next
    assume "n = sv_id s"
    then have "(k, ?x) \<in> set (po_cache p @ [(k, ?x)])" "sv_id (pe_server ?x) = n" by simp_all
    then show ?thesis by blast
  qed
  then show "tracked n (pool_store k now s p)" unfolding st old(1) by (force simp: tracked_def old(2))
qed

definition pool_tidy :: "pool_run \<Rightarrow> bool" where
  "pool_tidy st \<longleftrightarrow> distinct (building_keys st) \<and> set (building_keys st) \<inter> fst ` set (po_cache (pr_pool st)) = {} \<and>
     (\<forall>n < pr_fresh st. tracked n (pr_pool st))"

lemma map_remove1_distinct: "distinct (map f xs) \<Longrightarrow> x \<in> set xs \<Longrightarrow> map f (remove1 x xs) = remove1 (f x) (map f xs)"
  by (induction xs) (auto, metis image_eqI)

lemma building_keys_remove1:
  assumes "distinct (building_keys st)" and "(u, e, t) \<in> set (pr_building st)"
  shows "set (building_keys (st\<lparr>pr_building := remove1 (u, e, t) (pr_building st)\<rparr>)) = set (building_keys st) - {pool_cache_key u e}"
  using map_remove1_distinct [OF assms [unfolded building_keys_def]] assms(1)
  by (simp add: building_keys_def set_remove1_eq)

lemma pool_tidyI:
  assumes "distinct (building_keys st')" and "set (building_keys st') \<subseteq> ks"
    and "ks \<inter> fst ` set (po_cache (pr_pool st')) = {}" and "\<And>n. n < pr_fresh st' \<Longrightarrow> tracked n (pr_pool st')"
  shows "pool_tidy st'"
  using assms by (auto simp: pool_tidy_def)

lemma pool_tidy_parts:
  assumes "pool_tidy st"
  shows "distinct (building_keys st)" "set (building_keys st) \<inter> fst ` set (po_cache (pr_pool st)) = {}"
    and "n < pr_fresh st \<Longrightarrow> tracked n (pr_pool st)"
  using assms by (simp_all add: pool_tidy_def)

lemma tracked_invalidate: "pool_invalidate usr sl p = (m, p') \<Longrightarrow> tracked n p \<Longrightarrow> tracked n p' \<and> fst ` set (po_cache p') \<subseteq> fst ` set (po_cache p)"
  by (fastforce simp: pool_invalidate_def Let_def tracked_def close_servers_def image_iff)

lemma pool_tidy_step:
  assumes "pool_step_alone K connect st st'" and tidy: "pool_tidy st" and inv: "pool_inv K st"
  shows "pool_tidy st'"
proof -
  have alone: "distinct (building_keys st')" using assms(1) by (simp add: pool_step_alone_def)
  from assms(1) have "pool_step K connect st st'" by (simp add: pool_step_alone_def)
  note parts = pool_tidy_parts [OF tidy]
  from \<open>pool_step K connect st st'\<close> show ?thesis
  proof cases
    case (pool_hit u e s p)
    note look = pool_lookup_tracked [OF pool_hit(2) pool_inv_parts(1) [OF inv]]
    have "set (building_keys st) \<inter> fst ` set (po_cache (pr_pool st')) = {}"
      using parts(2) look(2) by (simp add: pool_hit(1)) blast
    then show ?thesis
      by (rule pool_tidyI [OF alone, rotated]) (use parts(3) look(1) in \<open>simp_all add: pool_hit(1) building_keys_def\<close>)
  next
    case (pool_miss u e p)
    note look = pool_lookup_tracked [OF pool_miss(2) pool_inv_parts(1) [OF inv]]
    have ks: "set (building_keys st') \<subseteq> insert (pool_cache_key u e) (set (building_keys st))"
      by (auto simp: pool_miss(1) building_keys_def)
    show ?thesis
    proof (rule pool_tidyI [OF alone ks])
      show "insert (pool_cache_key u e) (set (building_keys st)) \<inter> fst ` set (po_cache (pr_pool st')) = {}"
        using parts(2) look(2) look(3) [OF refl] by (simp add: pool_miss(1)) blast
      show "tracked n (pr_pool st')" if "n < pr_fresh st'" for n
        using parts(3) [of n] look(1) that by (simp add: pool_miss(1))
    qed
  next
    case (pool_built u e t s)
    let ?k = "pool_cache_key u e"
    have d: "distinct (map fst (po_cache (pr_pool st)))" by (rule pool_inv_parts(1) [OF inv])
    have "?k \<in> set (building_keys st)" using pool_built(2) by (force simp: building_keys_def)
    then have new: "?k \<notin> fst ` set (po_cache (pr_pool st))" using parts(2) by auto
    note store = pool_store_tracked [OF d new, where now = t and s = s]
    have rest: "set (building_keys st') \<subseteq> set (building_keys st) - {?k}"
      using building_keys_remove1 [OF parts(1) pool_built(2)] by (simp add: pool_built(1) building_keys_def)
    show ?thesis
    proof (rule pool_tidyI [OF alone rest])
      show "(set (building_keys st) - {?k}) \<inter> fst ` set (po_cache (pr_pool st')) = {}"
        using store(2) parts(2) by (simp add: pool_built(1)) blast
      show "tracked n (pr_pool st')" if "n < pr_fresh st'" for n
        using that store(1) [of n] parts(3) [of n] pool_built(3) by (auto simp: pool_built(1) build_server_Inr less_Suc_eq)
    qed
  next
    case (pool_failed u e t x)
    have "set (building_keys st') \<subseteq> set (building_keys st)"
      using building_keys_remove1 [OF parts(1) pool_failed(2)] by (simp add: pool_failed(1) building_keys_def)
    then show ?thesis by (rule pool_tidyI [OF alone]) (use parts(2,3) in \<open>simp_all add: pool_failed(1)\<close>)
  next
    case (pool_invalidated usr sl n p)
    note inval = tracked_invalidate [OF pool_invalidated(2)]
    have sub: "fst ` set (po_cache p) \<subseteq> fst ` set (po_cache (pr_pool st))"
      using pool_invalidated(2) by (auto simp: pool_invalidate_def Let_def close_servers_def)
    have "set (building_keys st) \<inter> fst ` set (po_cache (pr_pool st')) = {}"
      using parts(2) sub by (simp add: pool_invalidated(1)) blast
    then show ?thesis
      by (rule pool_tidyI [OF alone, rotated]) (use parts(3) inval in \<open>simp_all add: pool_invalidated(1) building_keys_def\<close>)
  next
    case pool_stopped
    have "tracked n (pool_shutdown p)" if "tracked n p" for n p
      using that by (force simp: pool_shutdown_def close_servers_def tracked_def image_iff)
    then show ?thesis
      by (intro pool_tidyI [OF alone, where ks = "set (building_keys st)"])
        (use parts(3) in \<open>auto simp: pool_stopped building_keys_def pool_shutdown_def close_servers_def\<close>)
  next
    case (pool_ticked t)
    show ?thesis
      by (rule pool_tidyI [OF alone, where ks = "set (building_keys st)"])
        (use parts(2,3) in \<open>auto simp: pool_ticked(1) building_keys_def\<close>)
  qed
qed

subsection \<open>Properties\<close>

text \<open>
  C27. However requests, invalidations and expiry interleave, the pool never holds more than its bound,
  and whatever server a user is handed was opened for a request of that same user for the same slug
  and address, with the headers that request resolved to, less than the time to live before.
\<close>

theorem mcp_pool_serves_own:
  assumes "(pool_step K connect)\<^sup>*\<^sup>* (pool_start ttl most) st" and "0 < ttl"
  shows "length (po_cache (pr_pool st)) \<le> most \<and>
    (\<forall>(u, e, t, s) \<in> set (pr_served st). \<exists>e' t'. (u, e', t') \<in> set (pr_asked st) \<and> pool_cache_key u e' = pool_cache_key u e \<and>
       server_headers K e' = Inr (sv_headers s) \<and> sv_name s = rm_slug e \<and> sv_url s = rm_url e \<and> t' \<le> t \<and> t < t' + ttl)"
proof -
  from pool_reachable [OF assms(1)] have inv: "pool_inv K st" and b: "po_ttl (pr_pool st) = ttl" "po_max (pr_pool st) = most" by auto
  have "\<exists>e' t'. (u, e', t') \<in> set (pr_asked st) \<and> pool_cache_key u e' = pool_cache_key u e \<and>
       server_headers K e' = Inr (sv_headers s) \<and> sv_name s = rm_slug e \<and> sv_url s = rm_url e \<and> t' \<le> t \<and> t < t' + ttl"
    if "(u, e, t, s) \<in> set (pr_served st)" for u e t s
  proof -
    from pool_inv_parts(6) [OF inv that] assms(2) obtain t' where "opened_for K st (pool_cache_key u e) t' s" "t' \<le> t" "t < t' + ttl"
      by (auto simp: b)
    moreover from this(1) obtain e' where "(u, e', t') \<in> set (pr_asked st)" "pool_cache_key u e' = pool_cache_key u e"
      "server_headers K e' = Inr (sv_headers s)" "sv_name s = rm_slug e" "sv_url s = rm_url e"
      by (auto simp: opened_for_def pool_cache_key_def)
    ultimately show ?thesis by blast
  qed
  then show ?thesis using pool_inv_parts(2) [OF inv] by (auto simp: b)
qed

text \<open>
  As long as no two requests of one key overlap, every server the pool connected is either in the pool
  or closed.
\<close>

theorem mcp_pool_closes_all:
  assumes "(pool_step_alone K connect)\<^sup>*\<^sup>* (pool_start ttl most) st" and "n < pr_fresh st"
  shows "n \<in> set (po_closed (pool_shutdown (pr_pool st)))"
proof -
  have "pool_tidy st \<and> (pool_step K connect)\<^sup>*\<^sup>* (pool_start ttl most) st"
    using assms(1)
  proof (induction rule: rtranclp_induct)
    case base
    then show ?case by (simp add: pool_tidy_def pool_start_def building_keys_def)
  next
    case (step st st')
    then show ?case using pool_tidy_step [OF step.hyps(2)] pool_reachable
      by (auto simp: pool_step_alone_def intro: rtranclp.rtrancl_into_rtrancl)
  qed
  then have "tracked n (pr_pool st)" using assms(2) by (simp add: pool_tidy_def)
  then show ?thesis by (force simp: tracked_def pool_shutdown_def close_servers_def)
qed

definition plain_mcp :: resolved_mcp where
  "plain_mcp = \<lparr>rm_slug = ''m'', rm_scope = UserScope, rm_url = ''http'', rm_auth_header = None, rm_auth_value_ct = None,
     rm_cache_tools_list = True, rm_enabled = True, rm_mandatory = False, rm_user_id = Some ''u''\<rparr>"

definition plain_server :: "nat \<Rightarrow> mcp_server" where
  "plain_server n = \<lparr>sv_id = n, sv_name = ''m'', sv_url = ''http'', sv_headers = []\<rparr>"

lemma plain_build: "build_server K (\<lambda>_. Inr ()) n plain_mcp = Inr (plain_server n)"
  by (simp add: build_server_def server_headers_def plain_mcp_def plain_server_def)

definition leaked :: "nat \<Rightarrow> pool_run \<Rightarrow> bool" where
  "leaked n st \<longleftrightarrow> n < pr_fresh st \<and> \<not> tracked n (pr_pool st)"

lemma leaked_run:
  "\<exists>st. (pool_step K (\<lambda>_. Inr ()))\<^sup>*\<^sup>* (pool_start 600000 100) st \<and> pr_building st = [] \<and> leaked 0 st"
proof -
  let ?r = "(''u'', plain_mcp, 0)" and ?k = "(''u'', ''m'', ''http'')" and ?step = "pool_step K (\<lambda>_. Inr ())"
  have key: "pool_cache_key ''u'' plain_mcp = ?k" by (simp add: pool_cache_key_def plain_mcp_def)
  let ?p = "\<lambda>c. \<lparr>po_ttl = 600000, po_max = 100, po_cache = c, po_closed = []\<rparr>"
  let ?c = "\<lambda>n. [(?k, \<lparr>pe_server = plain_server n, pe_expires_at = 600000\<rparr>)]"
  let ?st = "\<lambda>c n b a s. \<lparr>pr_pool = ?p c, pr_clock = 0, pr_fresh = n, pr_building = b, pr_asked = a, pr_served = s\<rparr>"
  let ?s = "\<lambda>n. (''u'', plain_mcp, 0, plain_server n)"
  have store: "pool_store ?k 0 (plain_server n) (?p c) = ?p (?c n)" if "c = [] \<or> c = ?c 0" for n c
    using that by (auto simp: pool_store_def move_to_end_def close_servers_def)
  have miss: "?step (?st [] n b a s) (?st [] n (?r # b) (?r # a) s)" for n b a s
    using pool_step.pool_miss [of "''u''" plain_mcp "?st [] n b a s" "?p []" K "\<lambda>_. Inr ()"] by (simp add: pool_lookup_def)
  have built: "?step (?st c n (?r # b) a s) (?st (?c n) (Suc n) b a (?s n # s))" if "c = [] \<or> c = ?c 0" for c n b a s
    using pool_step.pool_built [of "''u''" plain_mcp 0 "?st c n (?r # b) a s" K "\<lambda>_. Inr ()" "plain_server n"] store [OF that]
    by (simp add: plain_build key)
  have "?step\<^sup>*\<^sup>* (pool_start 600000 100) (?st (?c 1) 2 [] [?r, ?r] [?s 1, ?s 0])"
  proof -
    have "?step (pool_start 600000 100) (?st [] 0 [?r] [?r] [])" unfolding pool_start_def by (rule miss)
    moreover have "?step (?st [] 0 [?r] [?r] []) (?st [] 0 [?r, ?r] [?r, ?r] [])" by (rule miss)
    moreover have "?step (?st [] 0 [?r, ?r] [?r, ?r] []) (?st (?c 0) (Suc 0) [?r] [?r, ?r] [?s 0])" by (rule built) simp
    moreover have "?step (?st (?c 0) (Suc 0) [?r] [?r, ?r] [?s 0]) (?st (?c (Suc 0)) (Suc (Suc 0)) [] [?r, ?r] [?s (Suc 0), ?s 0])"
      by (rule built) simp
    ultimately show ?thesis unfolding numeral_2_eq_2 One_nat_def
      by (meson converse_rtranclp_into_rtranclp rtranclp.rtrancl_refl)
  qed
  moreover have "leaked 0 (?st (?c 1) 2 [] [?r, ?r] [?s 1, ?s 0])" by (simp add: leaked_def tracked_def plain_server_def)
  ultimately show ?thesis by (intro exI [of _ "?st (?c 1) 2 [] [?r, ?r] [?s 1, ?s 0]"]) simp
qed

lemma pool_untracked:
  assumes d: "distinct (map fst (po_cache p))" and n: "\<not> tracked n p"
  shows "pool_lookup k now p = (r, p') \<Longrightarrow> \<not> tracked n p'" and "n \<noteq> sv_id s \<Longrightarrow> \<not> tracked n (pool_store k now s p)"
    and "pool_invalidate usr sl p = (m, p') \<Longrightarrow> \<not> tracked n p'" and "\<not> tracked n (pool_shutdown p)"
proof -
  show "\<not> tracked n p'" if look: "pool_lookup k now p = (r, p')"
  proof (cases "map_of (po_cache p) k")
    case None
    then show ?thesis using look n by (simp add: pool_lookup_def)
  next
    case (Some x)
    have "sv_id (pe_server x) \<noteq> n" using map_of_SomeD [OF Some] n unfolding tracked_def by blast
    moreover have "set (po_cache p') \<subseteq> set (po_cache p)" by (rule pool_lookup_cache(4) [OF look d])
    moreover have "set (po_closed p') \<subseteq> insert (sv_id (pe_server x)) (set (po_closed p))"
      using look Some by (cases "now < pe_expires_at x") (auto simp: pool_lookup_def close_servers_def)
    ultimately show ?thesis using n unfolding tracked_def by blast
  qed
  show "\<not> tracked n (pool_store k now s p)" if "n \<noteq> sv_id s"
  proof -
    let ?x = "\<lparr>pe_server = s, pe_expires_at = now + po_ttl p\<rparr>" let ?c = "move_to_end k (dict_set k ?x (po_cache p))"
    obtain c' ss where ev: "evict_if_full (po_max p) ?c = (c', ss)" by fastforce
    from evict_splits [OF this] obtain old where old: "?c = old @ c'" "ss = map (\<lambda>(_, x). pe_server x) old" by blast
    have "sv_id (pe_server y) \<noteq> n" if "(k', y) \<in> set ?c" for k' y
    proof -
      have "(k', y) \<in> set (dict_set k ?x (po_cache p))" using that d by (simp add: distinct_update)
      then have "(k', y) = (k, ?x) \<or> (k', y) \<in> set (po_cache p)" using set_dict_set by fast
      then show ?thesis
      proof
        assume "(k', y) = (k, ?x)"
        then show ?thesis using \<open>n \<noteq> sv_id s\<close> by simp
      next
        assume "(k', y) \<in> set (po_cache p)"
        then show ?thesis using n unfolding tracked_def by blast
      qed
    qed
    then show ?thesis using n unfolding old(1) by (auto simp: pool_store_def ev close_servers_def tracked_def old(2))
  qed
  show "\<not> tracked n p'" if "pool_invalidate usr sl p = (m, p')"
    using that n by (fastforce simp: pool_invalidate_def Let_def tracked_def close_servers_def simp del: split_paired_All split_paired_Ex)
  show "\<not> tracked n (pool_shutdown p)"
    using n by (fastforce simp: pool_shutdown_def tracked_def close_servers_def simp del: split_paired_All split_paired_Ex)
qed

lemma leaked_step: "pool_step K connect st st' \<Longrightarrow> pool_inv K st \<Longrightarrow> leaked n st \<Longrightarrow> leaked n st'"
proof (induction rule: pool_step.induct)
  case (pool_built u e t st s)
  then show ?case
    using pool_untracked(2) [OF pool_inv_parts(1) [OF pool_built.prems(1)], of n s "pool_cache_key u e" t]
    by (auto simp: leaked_def build_server_Inr)
next
  case (pool_stopped st)
  then show ?case using pool_untracked(4) [OF pool_inv_parts(1) [OF pool_stopped(1)]] by (auto simp: leaked_def)
qed (auto simp: leaked_def dest: pool_untracked(1,3) [OF pool_inv_parts(1)])

text \<open>
  Two requests of one user that miss at the same time both connect; the second to finish replaces the
  first in the pool without closing it, and no later operation of the pool, its shutdown included,
  ever closes that connection.
\<close>

theorem mcp_pool_leaks_on_overlap:
  "\<exists>st. (pool_step K (\<lambda>_. Inr ()))\<^sup>*\<^sup>* (pool_start 600000 100) st \<and> pr_building st = [] \<and> 0 < pr_fresh st \<and>
     \<not> (\<exists>st'. (pool_step K (\<lambda>_. Inr ()))\<^sup>*\<^sup>* st st' \<and> 0 \<in> set (po_closed (pr_pool st')))"
proof -
  obtain st where st: "(pool_step K (\<lambda>_. Inr ()))\<^sup>*\<^sup>* (pool_start 600000 100) st" "pr_building st = []" "leaked 0 st"
    using leaked_run by blast
  have "leaked 0 st' \<and> pool_inv K st'" if "(pool_step K (\<lambda>_. Inr ()))\<^sup>*\<^sup>* st st'" for st'
    using that by (induction rule: rtranclp_induct) (use st pool_reachable [OF st(1)] leaked_step pool_step_inv in blast)+
  then show ?thesis using st by (auto simp: leaked_def tracked_def)
qed

text \<open>One request, served and then answered from the pool.\<close>

lemma served_run:
  fixes K :: kms
  defines "st1 \<equiv> \<lparr>pr_pool = \<lparr>po_ttl = 600000, po_max = 100, po_cache = [], po_closed = []\<rparr>, pr_clock = 0, pr_fresh = 0,
     pr_building = [(''u'', plain_mcp, 0)], pr_asked = [(''u'', plain_mcp, 0)], pr_served = []\<rparr>"
  shows "pool_step_alone K (\<lambda>_. Inr ()) (pool_start 600000 100) st1"
    and "\<exists>st. pool_step_alone K (\<lambda>_. Inr ()) st1 st \<and> pr_served st = [(''u'', plain_mcp, 0, plain_server 0)] \<and> pr_fresh st = 1"
proof -
  show "pool_step_alone K (\<lambda>_. Inr ()) (pool_start 600000 100) st1"
    using pool_step.pool_miss [of "''u''" plain_mcp "pool_start 600000 100" _ K "\<lambda>_. Inr ()"]
    by (simp add: pool_step_alone_def building_keys_def st1_def pool_start_def pool_lookup_def)
  have "pool_step K (\<lambda>_. Inr ()) st1 (st1\<lparr>pr_pool := pool_store (pool_cache_key ''u'' plain_mcp) 0 (plain_server 0) (pr_pool st1),
      pr_fresh := Suc (pr_fresh st1), pr_building := remove1 (''u'', plain_mcp, 0) (pr_building st1),
      pr_served := (''u'', plain_mcp, 0, plain_server 0) # pr_served st1\<rparr>)"
    by (rule pool_step.pool_built) (simp_all add: st1_def plain_build)
  then show "\<exists>st. pool_step_alone K (\<lambda>_. Inr ()) st1 st \<and> pr_served st = [(''u'', plain_mcp, 0, plain_server 0)] \<and> pr_fresh st = 1"
    by (intro exI) (auto simp: pool_step_alone_def building_keys_def st1_def)
qed

lemma served_state:
  "\<exists>st. (pool_step_alone K (\<lambda>_. Inr ()))\<^sup>*\<^sup>* (pool_start 600000 100) st \<and> (pool_step K (\<lambda>_. Inr ()))\<^sup>*\<^sup>* (pool_start 600000 100) st \<and>
     pr_served st = [(''u'', plain_mcp, 0, plain_server 0)] \<and> pr_fresh st = 1"
proof -
  from served_run [of K] obtain st1 st where s: "pool_step_alone K (\<lambda>_. Inr ()) (pool_start 600000 100) st1"
    "pool_step_alone K (\<lambda>_. Inr ()) st1 st" "pr_served st = [(''u'', plain_mcp, 0, plain_server 0)]" "pr_fresh st = 1" by blast
  then have "pool_step K (\<lambda>_. Inr ()) (pool_start 600000 100) st1" "pool_step K (\<lambda>_. Inr ()) st1 st"
    by (simp_all add: pool_step_alone_def)
  with s show ?thesis by (meson converse_rtranclp_into_rtranclp r_into_rtranclp)
qed

theorem mcp_pool_serves_own_witness:
  "\<exists>st e' t'. (pool_step (local_kms id Some) (\<lambda>_. Inr ()))\<^sup>*\<^sup>* (pool_start 600000 100) st \<and>
     (''u'', plain_mcp, 0, plain_server 0) \<in> set (pr_served st) \<and> (''u'', e', t') \<in> set (pr_asked st) \<and>
     pool_cache_key ''u'' e' = pool_cache_key ''u'' plain_mcp"
proof -
  obtain st where st: "(pool_step (local_kms id Some) (\<lambda>_. Inr ()))\<^sup>*\<^sup>* (pool_start 600000 100) st"
    and served: "(''u'', plain_mcp, 0, plain_server 0) \<in> set (pr_served st)"
    using served_state [of "local_kms id Some"] by auto
  from mcp_pool_serves_own [OF st, THEN conjunct2, THEN bspec, OF _ served] obtain e' t' where
    "(''u'', e', t') \<in> set (pr_asked st)" "pool_cache_key ''u'' e' = pool_cache_key ''u'' plain_mcp" by auto
  with st served show ?thesis by blast
qed

theorem mcp_pool_closes_all_witness:
  "\<exists>st :: pool_run. pr_fresh st = 1 \<and> 0 \<in> set (po_closed (pool_shutdown (pr_pool st)))"
proof -
  obtain st where st: "(pool_step_alone (local_kms id Some) (\<lambda>_. Inr ()))\<^sup>*\<^sup>* (pool_start 600000 100) st" and n: "pr_fresh st = 1"
    using served_state [of "local_kms id Some"] by blast
  have "0 \<in> set (po_closed (pool_shutdown (pr_pool st)))" by (rule mcp_pool_closes_all [OF st]) (simp add: n)
  with n show ?thesis by blast
qed

end
