(* ===== verification/Skill_Stats.thy ===== *)
theory Skill_Stats
  imports Complex_Main Skill_Repo Worker_Messages
begin

text \<open>
  \<open>skills/stats.py\<close>: the sidecar file of a local skill, and the decay tag computed from it in
  \<open>agent/backends/skill_local.py\<close>.  A file that is empty, no JSON or no object reads as the default
  document.  The advisory lock makes one operation atomic.
\<close>

subsection \<open>The file\<close>

datatype sidecar = No_File | No_Document | Document dict

definition default_stats :: dict where
  "default_stats = [(''usage_count'', JInt 0), (''success_count'', JInt 0), (''error_count'', JInt 0),
     (''last_used_at'', JNull), (''last_error_at'', JNull), (''last_error_summary'', JNull),
     (''last_optimized_at'', JNull), (''schema_version'', JInt 1)]"

text \<open>The known keys of the file over the defaults.\<close>

definition read_fd :: "sidecar \<Rightarrow> dict" where
  "read_fd f =
     (case f of
        Document d \<Rightarrow> fold (\<lambda>(k, v) m. if k \<in> fst ` set default_stats then dict_set k v m else m) d default_stats
      | _ \<Rightarrow> default_stats)"

definition stats_read :: "sidecar \<Rightarrow> dict option" where
  "stats_read f = (if f = No_File then None else Some (read_fd f))"

text \<open>\<open>int(data.get(key, 0))\<close>; a value that is no number raises.\<close>

definition counter :: "dict \<Rightarrow> string \<Rightarrow> int result" where
  "counter d k =
     (case py_int (case map_of d k of None \<Rightarrow> JInt 0 | Some v \<Rightarrow> v) of
        Some n \<Rightarrow> Inr n
      | None \<Rightarrow> Inl (case map_of d k of Some (JStr s) \<Rightarrow> ValueError | _ \<Rightarrow> TypeError))"

text \<open>Opening creates the file, also when the update then raises.\<close>

definition opened :: "sidecar \<Rightarrow> sidecar" where
  "opened f = (if f = No_File then No_Document else f)"

definition written_or_raised :: "sidecar \<Rightarrow> dict result \<Rightarrow> unit result \<times> sidecar" where
  "written_or_raised f r = (case r of Inl x \<Rightarrow> (Inl x, opened f) | Inr d \<Rightarrow> (Inr (), Document d))"

definition record_view :: "string \<Rightarrow> sidecar \<Rightarrow> unit result \<times> sidecar" where
  "record_view now f =
     (let d = read_fd f in
      written_or_raised f (bind_result (counter d ''usage_count'') (\<lambda>n.
        Inr (dict_set ''last_used_at'' (JStr now) (dict_set ''usage_count'' (JInt (n + 1)) d)))))"

definition ERROR_SUMMARY_MAX_CHARS :: nat where "ERROR_SUMMARY_MAX_CHARS = 500"

definition record_outcome :: "string \<Rightarrow> bool \<Rightarrow> string option \<Rightarrow> sidecar \<Rightarrow> unit result \<times> sidecar" where
  "record_outcome now ok summary f =
     (let d = read_fd f in
      written_or_raised f
        (if ok then bind_result (counter d ''success_count'') (\<lambda>n. Inr (dict_set ''success_count'' (JInt (n + 1)) d))
         else bind_result (counter d ''error_count'') (\<lambda>n.
           (let d1 = dict_set ''last_error_at'' (JStr now) (dict_set ''error_count'' (JInt (n + 1)) d)
            in Inr (case summary of
                 None \<Rightarrow> d1
               | Some s \<Rightarrow>
                   if s = [] then d1
                   else (let trimmed = take ERROR_SUMMARY_MAX_CHARS (py_strip s)
                     in dict_set ''last_error_summary'' (if trimmed = [] then JNull else JStr trimmed) d1))))))"

definition mark_optimized :: "string \<Rightarrow> sidecar \<Rightarrow> unit result \<times> sidecar" where
  "mark_optimized now f = written_or_raised f (Inr (dict_set ''last_optimized_at'' (JStr now) (read_fd f)))"

subsection \<open>The decay tag\<close>

text \<open>\<open>int(data.get(key, 0) or 0)\<close>.\<close>

definition counter_or_zero :: "dict \<Rightarrow> string \<Rightarrow> int result" where
  "counter_or_zero d k = (if truthy (py_get d k) then counter d k else Inr 0)"

definition FRAGILE_MIN_ERRORS :: int where "FRAGILE_MIN_ERRORS = 3"
definition FRAGILE_MAX_SUCCESS_RATIO :: rat where "FRAGILE_MAX_SUCCESS_RATIO = 1 / 2"

definition is_fragile :: "int \<Rightarrow> int \<Rightarrow> int \<Rightarrow> bool" where
  "is_fragile errors successes uses \<longleftrightarrow>
     \<not> (errors < FRAGILE_MIN_ERRORS \<or> uses \<le> 0) \<and>
     \<not> FRAGILE_MAX_SUCCESS_RATIO \<le> of_int successes / of_int (max 1 uses)"

definition fragile :: "sidecar \<Rightarrow> bool result" where
  "fragile f =
     (case stats_read f of
        None \<Rightarrow> Inr False
      | Some d \<Rightarrow>
          bind_result (counter_or_zero d ''error_count'') (\<lambda>errors.
          bind_result (counter_or_zero d ''success_count'') (\<lambda>successes.
          bind_result (counter_or_zero d ''usage_count'') (\<lambda>uses. Inr (is_fragile errors successes uses)))))"

subsection \<open>Histories\<close>

datatype stats_event = Viewed string | Ended string bool "string option" | Optimized string

fun record_event :: "stats_event \<Rightarrow> sidecar \<Rightarrow> unit result \<times> sidecar" where
  "record_event (Viewed now) f = record_view now f"
| "record_event (Ended now ok s) f = record_outcome now ok s f"
| "record_event (Optimized now) f = mark_optimized now f"

definition record_events :: "stats_event list \<Rightarrow> sidecar \<Rightarrow> sidecar" where
  "record_events es f = fold (\<lambda>e f. snd (record_event e f)) es f"

text \<open>A document whose three counters are the given numbers and whose keys are the known ones.\<close>

definition counts :: "int \<Rightarrow> int \<Rightarrow> int \<Rightarrow> dict \<Rightarrow> bool" where
  "counts u s e d \<longleftrightarrow> map fst d = map fst default_stats \<and> map_of d ''usage_count'' = Some (JInt u) \<and>
     map_of d ''success_count'' = Some (JInt s) \<and> map_of d ''error_count'' = Some (JInt e)"

definition views_in :: "stats_event list \<Rightarrow> int" where
  "views_in es = int (length (filter (\<lambda>e. \<exists>n. e = Viewed n) es))"

definition ended_in :: "bool \<Rightarrow> stats_event list \<Rightarrow> int" where
  "ended_in ok es = int (length (filter (\<lambda>e. \<exists>n s. e = Ended n ok s) es))"

lemma map_fst_dict_set: "map fst (dict_set k v d) = (if k \<in> fst ` set d then map fst d else map fst d @ [k])"
  by (induction d) auto

lemma read_fd_written:
  assumes "map fst d = map fst default_stats"
  shows "read_fd (Document d) = d"
proof -
  obtain a b c e g h i j where d: "d = [(''usage_count'', a), (''success_count'', b), (''error_count'', c),
      (''last_used_at'', e), (''last_error_at'', g), (''last_error_summary'', h), (''last_optimized_at'', i), (''schema_version'', j)]"
    using assms by (auto simp: default_stats_def map_eq_Cons_conv)
  show ?thesis unfolding d by (simp add: read_fd_def default_stats_def)
qed

lemma counts_counter:
  assumes "counts u s e d"
  shows "counter d ''usage_count'' = Inr u" "counter d ''success_count'' = Inr s" "counter d ''error_count'' = Inr e"
    and "counter_or_zero d ''usage_count'' = Inr u" "counter_or_zero d ''success_count'' = Inr s" "counter_or_zero d ''error_count'' = Inr e"
  using assms by (auto simp: counts_def counter_def counter_or_zero_def py_get_def py_int_def)

lemma counts_set:
  assumes "counts u s e d"
  shows "counts (n + 1) s e (dict_set ''last_used_at'' v (dict_set ''usage_count'' (JInt (n + 1)) d))"
    and "counts u (n + 1) e (dict_set ''success_count'' (JInt (n + 1)) d)"
    and "counts u s (n + 1) (dict_set ''last_error_at'' v (dict_set ''error_count'' (JInt (n + 1)) d))"
    and "counts u s e (dict_set ''last_error_summary'' v d)" and "counts u s e (dict_set ''last_optimized_at'' v d)"
proof -
  have keys: "fst ` set d = set (map fst default_stats)" using assms by (metis counts_def list.set_map)
  show "counts (n + 1) s e (dict_set ''last_used_at'' v (dict_set ''usage_count'' (JInt (n + 1)) d))"
    "counts u (n + 1) e (dict_set ''success_count'' (JInt (n + 1)) d)"
    "counts u s (n + 1) (dict_set ''last_error_at'' v (dict_set ''error_count'' (JInt (n + 1)) d))"
    "counts u s e (dict_set ''last_error_summary'' v d)" "counts u s e (dict_set ''last_optimized_at'' v d)"
    using assms by (simp_all add: counts_def map_fst_dict_set keys dom_update dict_get_set) (simp_all add: default_stats_def)
qed

lemma record_event_counts:
  assumes "counts u s e (read_fd f)"
  shows "\<exists>d. record_event ev f = (Inr (), Document d) \<and>
    counts (u + views_in [ev]) (s + ended_in True [ev]) (e + ended_in False [ev]) (read_fd (Document d))"
proof -
  have read: "counts u' s' e' d \<Longrightarrow> counts u' s' e' (read_fd (Document d))" for u' s' e' d
    by (simp add: counts_def read_fd_written)
  note c = counts_counter [OF assms] and sets = counts_set [OF assms]
  show ?thesis
  proof (cases ev)
    case (Viewed now)
    then show ?thesis using read [OF sets(1)] by (simp add: record_view_def Let_def c written_or_raised_def views_in_def ended_in_def)
  next
    case (Optimized now)
    then show ?thesis using read [OF sets(5)] by (simp add: mark_optimized_def written_or_raised_def views_in_def ended_in_def)
  next
    case (Ended now ok summary)
    show ?thesis
    proof (cases ok)
      case True
      then show ?thesis using Ended read [OF sets(2)]
        by (simp add: record_outcome_def Let_def c written_or_raised_def views_in_def ended_in_def)
    next
      case False
      then show ?thesis using Ended read [OF sets(3)] read [OF counts_set(4) [OF sets(3)]]
        by (auto simp: record_outcome_def Let_def c written_or_raised_def views_in_def ended_in_def split: option.splits)
    qed
  qed
qed

lemma record_events_counts:
  assumes "counts u s e (read_fd f)" and "es \<noteq> []"
  shows "\<exists>d. record_events es f = Document d \<and>
    counts (u + views_in es) (s + ended_in True es) (e + ended_in False es) (read_fd (Document d))"
  using assms
proof (induction es arbitrary: u s e f)
  case (Cons ev es)
  from record_event_counts [OF Cons.prems(1), of ev] obtain d where d: "record_event ev f = (Inr (), Document d)"
    "counts (u + views_in [ev]) (s + ended_in True [ev]) (e + ended_in False [ev]) (read_fd (Document d))" by blast
  show ?case
  proof (cases "es = []")
    case True
    then show ?thesis using d by (auto simp: record_events_def)
  next
    case False
    from Cons.IH [OF d(2) False] show ?thesis
      using d(1) by (auto simp: record_events_def views_in_def ended_in_def algebra_simps split: if_splits)
  qed
qed simp

lemma is_fragile_iff: "is_fragile errors successes uses \<longleftrightarrow> 3 \<le> errors \<and> 0 < uses \<and> 2 * successes < uses"
proof -
  have "\<not> FRAGILE_MAX_SUCCESS_RATIO \<le> rat_of_int successes / of_int uses \<longleftrightarrow> 2 * successes < uses" if "0 < uses"
  proof -
    have "rat_of_int successes / of_int uses < 1 / 2 \<longleftrightarrow> 2 * rat_of_int successes < of_int uses"
      using that by (simp add: divide_less_eq mult.commute)
    also have "\<dots> \<longleftrightarrow> rat_of_int (2 * successes) < of_int uses" by simp
    also have "\<dots> \<longleftrightarrow> 2 * successes < uses" by (rule of_int_less_iff)
    finally show ?thesis by (simp add: FRAGILE_MAX_SUCCESS_RATIO_def not_le)
  qed
  then show ?thesis by (auto simp: is_fragile_def FRAGILE_MIN_ERRORS_def)
qed

text \<open>
  The sidecar counts: whatever the file held before (no file, text that is no document), after any
  history of views, ended runs and optimisations the three counters are the numbers of views, of good
  and of failed runs, every operation succeeded, and the skill is tagged as fragile exactly when three
  runs failed and fewer than half as many runs succeeded as there were views.
\<close>

theorem skill_stats_exact:
  assumes "es \<noteq> []" and "f = No_File \<or> f = No_Document"
  shows "\<exists>d. stats_read (record_events es f) = Some d \<and> map_of d ''usage_count'' = Some (JInt (views_in es)) \<and>
    map_of d ''success_count'' = Some (JInt (ended_in True es)) \<and> map_of d ''error_count'' = Some (JInt (ended_in False es)) \<and>
    fragile (record_events es f) = Inr (3 \<le> ended_in False es \<and> 0 < views_in es \<and> 2 * ended_in True es < views_in es)"
proof -
  have "counts 0 0 0 (read_fd f)" using assms(2) by (auto simp: counts_def read_fd_def default_stats_def)
  from record_events_counts [OF this assms(1)] obtain d where d: "record_events es f = Document d"
    "counts (views_in es) (ended_in True es) (ended_in False es) (read_fd (Document d))" by auto
  then have "fragile (record_events es f) = Inr (is_fragile (ended_in False es) (ended_in True es) (views_in es))"
    by (simp add: fragile_def stats_read_def counts_counter [OF d(2)])
  with d show ?thesis by (auto simp: stats_read_def counts_def is_fragile_iff)
qed

theorem skill_stats_exact_witness:
  "fragile (record_events [Viewed ''t'', Ended ''t'' False (Some ''e''), Ended ''t'' False None, Ended ''t'' False None] No_Document) = Inr True"
proof -
  let ?es = "[Viewed ''t'', Ended ''t'' False (Some ''e''), Ended ''t'' False None, Ended ''t'' False None]"
  have "views_in ?es = 1" "ended_in True ?es = 0" "ended_in False ?es = 3" by (simp_all add: views_in_def ended_in_def)
  with skill_stats_exact [of ?es No_Document] show ?thesis by auto
qed

end
