(* ===== verification/Skill_Activation.thy ===== *)
theory Skill_Activation
  imports Complex_Main Curator Skill_Stats Error_Kinds Effective_Config
begin

text \<open>
  \<open>skills/activation.py\<close>: which skills the prompt of a turn lists.  \<open>activate_when\<close> rules are
  scored against the user's text, their profile and the tokens of the text; the best eight are kept.
  Scores are the exact rationals the code's floats hold.  The shell patterns are those of the
  standard library's \<open>fnmatch\<close> on POSIX.  \<open>yaml.safe_load\<close> is the argument \<open>yaml\<close>, \<open>None\<close> for an error.
\<close>

subsection \<open>Shell patterns\<close>

datatype glob_item = GLit char | GRange char char

datatype glob_piece = GChar char | GAny | GStar | GSet bool "glob_item list"

text \<open>A hyphen makes a range except at either end of the set and right after a range.\<close>

fun set_items :: "string \<Rightarrow> glob_item list" where
  "set_items (c # d # h # r) = (if d = CHR ''-'' then GRange c h # set_items r else GLit c # set_items (d # h # r))"
| "set_items [c, d] = [GLit c, GLit d]"
| "set_items [c] = [GLit c]"
| "set_items [] = []"

fun nonempty_item :: "glob_item \<Rightarrow> bool" where
  "nonempty_item (GLit c) = True"
| "nonempty_item (GRange a b) = (a \<le> b)"

text \<open>
  Empty ranges are dropped from the text of the set, and what is then its first character decides
  whether it is negated.
\<close>

definition glob_set :: "string \<Rightarrow> glob_piece" where
  "glob_set stuff =
     (case filter nonempty_item (case stuff of CHR ''!'' # r \<Rightarrow> GLit (CHR ''!'') # set_items r | _ \<Rightarrow> set_items stuff) of
        GLit c # r \<Rightarrow> if c = CHR ''!'' then GSet True r else GSet False (GLit c # r)
      | GRange a b # r \<Rightarrow> if a = CHR ''!'' then GSet True (GLit (CHR ''-'') # GLit b # r) else GSet False (GRange a b # r)
      | [] \<Rightarrow> GSet False [])"

text \<open>The text of a set up to its closing bracket, which is no member only if it does not come first.\<close>

definition take_opt :: "char \<Rightarrow> string \<Rightarrow> string \<times> string" where
  "take_opt c s = (case s of x # r \<Rightarrow> if x = c then ([c], r) else ([], s) | [] \<Rightarrow> ([], []))"

definition close_set :: "string \<Rightarrow> (string \<times> string) option" where
  "close_set s =
     (let (a, r) = take_opt (CHR ''!'') s; (b, r') = take_opt (CHR '']'') r in
      case dropWhile (\<lambda>c. c \<noteq> CHR '']'') r' of
        [] \<Rightarrow> None
      | _ # rest \<Rightarrow> Some (a @ b @ takeWhile (\<lambda>c. c \<noteq> CHR '']'') r', rest))"

lemma take_opt_length: "take_opt c s = (a, r) \<Longrightarrow> length r \<le> length s"
  by (auto simp: take_opt_def split: list.splits if_splits)

lemma close_set_length:
  assumes "close_set s = Some (stuff, rest)"
  shows "length rest < length s"
proof -
  obtain a r where r: "take_opt (CHR ''!'') s = (a, r)" by fastforce
  obtain b r' where r': "take_opt (CHR '']'') r = (b, r')" by fastforce
  have "\<exists>x. dropWhile (\<lambda>c. c \<noteq> CHR '']'') r' = x # rest"
    using assms r r' by (auto simp: close_set_def split: list.splits)
  then have "length rest < length r'" by (metis length_Cons length_dropWhile_le less_eq_Suc_le)
  with take_opt_length [OF r] take_opt_length [OF r'] show ?thesis by simp
qed

function glob_pieces :: "string \<Rightarrow> glob_piece list" where
  "glob_pieces s =
     (case s of
        [] \<Rightarrow> []
      | c # r \<Rightarrow>
          if c = CHR ''*'' then GStar # glob_pieces r
          else if c = CHR ''?'' then GAny # glob_pieces r
          else if c = CHR ''['' then
            (case close_set r of
               None \<Rightarrow> GChar c # glob_pieces r
             | Some (stuff, rest) \<Rightarrow> glob_set stuff # glob_pieces rest)
          else GChar c # glob_pieces r)"
  by pat_completeness auto
termination
  by (relation "measure length") (auto dest: close_set_length)

declare glob_pieces.simps [simp del]

fun in_item :: "char \<Rightarrow> glob_item \<Rightarrow> bool" where
  "in_item c (GLit d) = (c = d)"
| "in_item c (GRange a b) = (a \<le> c \<and> c \<le> b)"

fun piece_matches :: "glob_piece \<Rightarrow> char \<Rightarrow> bool" where
  "piece_matches (GChar d) c = (c = d)"
| "piece_matches GAny c = True"
| "piece_matches GStar c = True"
| "piece_matches (GSet neg xs) c = (list_ex (in_item c) xs \<noteq> neg)"

fun glob_match :: "glob_piece list \<Rightarrow> string \<Rightarrow> bool" where
  "glob_match [] s = (s = [])"
| "glob_match (GStar # ps) [] = glob_match ps []"
| "glob_match (GStar # ps) (c # s) = (glob_match ps (c # s) \<or> glob_match (GStar # ps) s)"
| "glob_match (p # ps) [] = False"
| "glob_match (p # ps) (c # s) = (piece_matches p c \<and> glob_match ps s)"

definition fnmatch :: "string \<Rightarrow> string \<Rightarrow> bool" where
  "fnmatch name pat = glob_match (glob_pieces pat) name"

text \<open>A star followed by plain characters is a suffix test, and a plain pattern is equality.\<close>

lemma glob_match_chars: "glob_match (map GChar w) s \<longleftrightarrow> s = w"
proof (induction w arbitrary: s)
  case (Cons c w)
  show ?case by (cases s) (auto simp: Cons.IH)
qed simp

lemma glob_match_star: "glob_match (GStar # ps) s \<longleftrightarrow> (\<exists>a b. s = a @ b \<and> glob_match ps b)"
proof (induction s)
  case (Cons c s)
  show ?case
  proof
    assume "glob_match (GStar # ps) (c # s)"
    then consider "glob_match ps (c # s)" | "glob_match (GStar # ps) s" by auto
    then show "\<exists>a b. c # s = a @ b \<and> glob_match ps b"
    proof cases
      case 1
      then show ?thesis by (intro exI [of _ "[]"] exI [of _ "c # s"]) simp
    next
      case 2
      then obtain a b where "s = a @ b" "glob_match ps b" using Cons.IH by blast
      then show ?thesis by (intro exI [of _ "c # a"] exI [of _ b]) simp
    qed
  next
    assume "\<exists>a b. c # s = a @ b \<and> glob_match ps b"
    then obtain a b where ab: "c # s = a @ b" "glob_match ps b" by blast
    show "glob_match (GStar # ps) (c # s)"
    proof (cases a)
      case Nil
      with ab have "glob_match ps (c # s)" by simp
      then show ?thesis by simp
    next
      case (Cons x a')
      with ab have "s = a' @ b" by simp
      with ab(2) Cons.IH show ?thesis by auto
    qed
  qed
qed simp

definition plain_char :: "char \<Rightarrow> bool" where
  "plain_char c \<longleftrightarrow> c \<notin> set ''*?[''"

lemma glob_pieces_plain: "list_all plain_char w \<Longrightarrow> glob_pieces w = map GChar w"
  by (induction w) (simp_all add: glob_pieces.simps plain_char_def)

lemma fnmatch_suffix:
  "list_all plain_char w \<Longrightarrow> fnmatch name (CHR ''*'' # w) \<longleftrightarrow> (\<exists>a. name = a @ w)"
  by (simp add: fnmatch_def glob_pieces.simps [of "CHR ''*'' # w"] glob_pieces_plain glob_match_star glob_match_chars)

subsection \<open>Entries and rules\<close>

type_synonym activation_rule = "(string \<times> string list) list"

record skill_entry =
  se_name :: string
  se_description :: string
  se_category :: "string option"
  se_activate_when :: "activation_rule list"

definition always_on :: "skill_entry \<Rightarrow> bool" where
  "always_on e \<longleftrightarrow> se_activate_when e = []"

fun nonblank_str :: "json \<Rightarrow> string list" where
  "nonblank_str (JStr s) = (if py_strip s = [] then [] else [s])"
| "nonblank_str _ = []"

definition coerce_rule :: "dict \<Rightarrow> activation_rule" where
  "coerce_rule item =
     (case py_get item ''keywords'' of JArr kws \<Rightarrow> [(''keywords'', concat (map nonblank_str kws))] | _ \<Rightarrow> []) @
     (case py_get item ''file_globs'' of JArr gs \<Rightarrow> [(''file_globs'', concat (map nonblank_str gs))] | _ \<Rightarrow> [])"

definition coerce_rules :: "json \<Rightarrow> activation_rule list" where
  "coerce_rules raw =
     (case raw of
        JArr items \<Rightarrow> filter (\<lambda>r. r \<noteq> []) (map (\<lambda>i. case i of JObj d \<Rightarrow> coerce_rule d | _ \<Rightarrow> []) items)
      | _ \<Rightarrow> [])"

definition category_of :: "json \<Rightarrow> string option" where
  "category_of v = (case v of JStr s \<Rightarrow> Some (py_strip s) | _ \<Rightarrow> None)"

definition resolved_to_entry :: "resolved_skill \<Rightarrow> skill_entry" where
  "resolved_to_entry sk =
     \<lparr>se_name = rs_slug sk, se_description = rs_description sk,
      se_category = category_of (py_get (rs_frontmatter sk) ''category''),
      se_activate_when = coerce_rules (py_get (rs_frontmatter sk) ''activate_when'')\<rparr>"

subsection \<open>Scores\<close>

definition ALWAYS_ON_SCORE :: rat where "ALWAYS_ON_SCORE = 1 / 2"
definition KEYWORD_IN_TEXT_SCORE :: rat where "KEYWORD_IN_TEXT_SCORE = 2"
definition KEYWORD_IN_PROFILE_SCORE :: rat where "KEYWORD_IN_PROFILE_SCORE = 1"
definition GLOB_MATCH_SCORE :: rat where "GLOB_MATCH_SCORE = 2"
definition ACTIVATION_TOP_K :: nat where "ACTIVATION_TOP_K = 8"

definition TOKEN_SEPARATORS :: string where
  "TOKEN_SEPARATORS = '',;:!?()[]{}<>'' @ [CHR 0x22, CHR 0x27]"

definition is_separator :: "char \<Rightarrow> bool" where
  "is_separator c \<longleftrightarrow> py_isspace c \<or> c \<in> set TOKEN_SEPARATORS"

function split_runs :: "(char \<Rightarrow> bool) \<Rightarrow> string \<Rightarrow> string list" where
  "split_runs p s =
     (case dropWhile (\<lambda>c. \<not> p c) s of
        [] \<Rightarrow> [s]
      | c # r \<Rightarrow> takeWhile (\<lambda>c. \<not> p c) s # split_runs p (dropWhile p r))"
  by pat_completeness auto
termination
proof (relation "measure (length \<circ> snd)", simp)
  fix p :: "char \<Rightarrow> bool" and s c r
  assume "dropWhile (\<lambda>c. \<not> p c) s = c # r"
  then have "length (c # r) \<le> length s" by (metis length_dropWhile_le)
  then show "((p, dropWhile p r), p, s) \<in> measure (length \<circ> snd)"
    using length_dropWhile_le [of p r] by simp
qed

declare split_runs.simps [simp del]

definition glob_matches_any_token :: "string \<Rightarrow> string \<Rightarrow> bool" where
  "glob_matches_any_token glob user_text =
     list_ex (\<lambda>raw. let tok = strip_chars ''.,'' raw in tok \<noteq> [] \<and> fnmatch tok glob) (split_runs is_separator user_text)"

definition text_in :: "string \<Rightarrow> string \<Rightarrow> bool" where
  "text_in needle hay = contains (codes needle) (codes hay)"

definition rule_list :: "activation_rule \<Rightarrow> string \<Rightarrow> string list" where
  "rule_list r k = (case map_of r k of None \<Rightarrow> [] | Some xs \<Rightarrow> xs)"

definition keyword_score :: "string \<Rightarrow> string \<Rightarrow> string \<Rightarrow> rat" where
  "keyword_score text_lower profile_lower kw =
     (let k = py_lower kw in
      if k \<noteq> [] \<and> text_in k text_lower then KEYWORD_IN_TEXT_SCORE
      else if k \<noteq> [] \<and> profile_lower \<noteq> [] \<and> text_in k profile_lower then KEYWORD_IN_PROFILE_SCORE
      else 0)"

definition score_entry :: "skill_entry \<Rightarrow> string \<Rightarrow> string \<Rightarrow> string \<Rightarrow> rat" where
  "score_entry e user_text text_lower profile_lower =
     (if always_on e then ALWAYS_ON_SCORE
      else sum_list (map (\<lambda>rule.
        sum_list (map (keyword_score text_lower profile_lower) (rule_list rule ''keywords'')) +
        sum_list (map (\<lambda>g. if glob_matches_any_token g user_text then GLOB_MATCH_SCORE else 0) (rule_list rule ''file_globs'')))
        (se_activate_when e)))"

subsection \<open>The best entries\<close>

definition take_best :: "('e \<Rightarrow> rat) \<Rightarrow> ('e \<Rightarrow> string) \<Rightarrow> nat \<Rightarrow> 'e list \<Rightarrow> 'e list" where
  "take_best score name top_k xs =
     map snd (take top_k (sort_key (\<lambda>(sc, e). (- sc, name e)) (filter (\<lambda>(sc, e). 0 < sc) (map (\<lambda>e. (score e, e)) xs))))"

definition filter_resolved_for_turn :: "string option \<Rightarrow> string \<Rightarrow> nat \<Rightarrow> resolved_skill list \<Rightarrow> resolved_skill list" where
  "filter_resolved_for_turn user_text profile_text top_k skills =
     (case user_text of
        None \<Rightarrow> sort_key rs_slug skills
      | Some text \<Rightarrow>
          take_best (\<lambda>sk. score_entry (resolved_to_entry sk) text (py_lower text) (py_lower profile_text)) rs_slug top_k skills)"

subsection \<open>The local skills\<close>

text \<open>A child of the skills directory is no directory, or one whose \<open>SKILL.md\<close> is a text or not.\<close>

datatype skill_md = No_Md | Unreadable | Md string

datatype skill_child = Not_Dir | Skill_Dir skill_md

fun find_at :: "string \<Rightarrow> string \<Rightarrow> nat option" where
  "find_at n [] = (if n = [] then Some 0 else None)"
| "find_at n (c # s) = (if take (length n) (c # s) = n then Some 0 else map_option Suc (find_at n s))"

definition find_from :: "string \<Rightarrow> nat \<Rightarrow> string \<Rightarrow> nat option" where
  "find_from n k s = (if k \<le> length s then map_option ((+) k) (find_at n (drop k s)) else None)"

definition newline :: char where "newline = CHR 0x0A"

text \<open>The YAML block between the two rules and the text after them.\<close>

definition frontmatter_parts :: "string \<Rightarrow> (string \<times> string) option" where
  "frontmatter_parts text =
     (if take 3 text \<noteq> ''---'' then None
      else map_option (\<lambda>e. (lstrip_chars [newline] (take (e - 3) (drop 3 text)), lstrip_chars [newline] (drop (e + 4) text)))
        (find_from (newline # ''---'') 3 text))"

definition parse_frontmatter :: "(string \<Rightarrow> json option) \<Rightarrow> string \<Rightarrow> dict" where
  "parse_frontmatter yaml text =
     (case frontmatter_parts text of
        None \<Rightarrow> []
      | Some (block, _) \<Rightarrow> (case yaml block of Some (JObj d) \<Rightarrow> d | _ \<Rightarrow> []))"

fun parse_skill :: "(string \<Rightarrow> json option) \<Rightarrow> string \<Rightarrow> skill_md \<Rightarrow> skill_entry" where
  "parse_skill yaml name (Md text) =
     (let fm = parse_frontmatter yaml text in
      \<lparr>se_name = name, se_description = py_strip (get_text fm ''description''),
       se_category = category_of (py_get fm ''category''), se_activate_when = coerce_rules (py_get fm ''activate_when'')\<rparr>)"
| "parse_skill yaml name _ = \<lparr>se_name = name, se_description = [], se_category = None, se_activate_when = []\<rparr>"

definition load_all :: "(string \<Rightarrow> json option) \<Rightarrow> (string \<times> skill_child) list option \<Rightarrow> skill_entry list" where
  "load_all yaml dir =
     (case dir of
        None \<Rightarrow> []
      | Some cs \<Rightarrow> List.map_filter (\<lambda>(n, c). case c of
            Not_Dir \<Rightarrow> None
          | Skill_Dir md \<Rightarrow> if md = No_Md then None else Some (parse_skill yaml n md)) (sort_key fst cs))"

definition filter_for_turn ::
  "(string \<Rightarrow> json option) \<Rightarrow> (string \<times> skill_child) list option \<Rightarrow> string option \<Rightarrow> string \<Rightarrow> nat \<Rightarrow> skill_entry list"
where
  "filter_for_turn yaml dir user_text profile_text top_k =
     (case user_text of
        None \<Rightarrow> sort_key se_name (load_all yaml dir)
      | Some text \<Rightarrow>
          take_best (\<lambda>e. score_entry e text (py_lower text) (py_lower profile_text)) se_name top_k (load_all yaml dir))"

text \<open>The index block of the command line's prompt; a counter that is no number raises.\<close>

definition FRAGILE_TAG :: pystr where
  "FRAGILE_TAG = codes '' (fragile '' @ [8212] @ codes '' see stats)''"

definition index_line :: "string \<Rightarrow> string \<Rightarrow> pystr \<Rightarrow> pystr" where
  "index_line name desc tag =
     codes (''- **'' @ name @ ''**: '' @ (if desc = [] then ''(no description)'' else desc)) @ tag"

definition render_local_skills_index_block ::
  "(string \<Rightarrow> json option) \<Rightarrow> (string \<Rightarrow> sidecar) \<Rightarrow> (string \<times> skill_child) list option \<Rightarrow> string option \<Rightarrow> string
     \<Rightarrow> pystr \<Rightarrow> pystr result"
where
  "render_local_skills_index_block yaml stats dir user_text profile_text header =
     (let entries = filter_for_turn yaml dir user_text profile_text ACTIVATION_TOP_K in
      if entries = [] then Inr []
      else bind_result (map_result (\<lambda>e. bind_result (fragile (stats (se_name e))) (\<lambda>bad.
             Inr (index_line (se_name e) (se_description e) (if bad then FRAGILE_TAG else []))))
           (sort_key se_name entries)) (\<lambda>lines. Inr (header @ [10] @ join_by [10] lines)))"

text \<open>\<open>list_resolved\<close> of \<open>agent/backends/skill_local.py\<close>.\<close>

definition local_frontmatter :: "(string \<Rightarrow> json option) \<Rightarrow> string \<Rightarrow> dict \<times> string" where
  "local_frontmatter yaml text =
     (case frontmatter_parts text of
        None \<Rightarrow> ([], text)
      | Some (block, rest) \<Rightarrow> (case yaml block of Some (JObj d) \<Rightarrow> (d, rest) | _ \<Rightarrow> ([], rest)))"

definition local_list_resolved :: "(string \<Rightarrow> json option) \<Rightarrow> (string \<times> skill_child) list option \<Rightarrow> resolved_skill list" where
  "local_list_resolved yaml dir =
     (case dir of
        None \<Rightarrow> []
      | Some cs \<Rightarrow> List.map_filter (\<lambda>(n, c). case c of
            Skill_Dir (Md text) \<Rightarrow>
              (let (fm, rest) = local_frontmatter yaml text in
               Some \<lparr>rs_slug = n, rs_scope = UserScope, rs_description = py_strip (get_text fm ''description''),
                 rs_body = rest, rs_frontmatter = fm, rs_enabled_default = True, rs_mandatory = False\<rparr>)
          | _ \<Rightarrow> None) (sort_key fst cs))"

subsection \<open>What is selected\<close>

lemma insort_key_map: "insort_key f (g x) (map g xs) = map g (insort_key (\<lambda>x. f (g x)) x xs)"
  by (induction xs) simp_all

lemma sort_key_of_map: "sort_key f (map g xs) = map g (sort_key (\<lambda>x. f (g x)) xs)"
  by (induction xs) (simp_all add: insort_key_map)

lemma take_best_eq:
  "take_best score name k xs = take k (sort_key (\<lambda>e. (- score e, name e)) (filter (\<lambda>e. 0 < score e) xs))"
  by (simp add: take_best_def filter_map o_def sort_key_of_map take_map case_prod_beta)

lemma take_best_map: "take_best score name k (map g xs) = map g (take_best (\<lambda>x. score (g x)) (\<lambda>x. name (g x)) k xs)"
  by (simp add: take_best_eq filter_map o_def sort_key_of_map take_map)

definition better :: "('e \<Rightarrow> rat) \<Rightarrow> ('e \<Rightarrow> string) \<Rightarrow> 'e \<Rightarrow> 'e \<Rightarrow> bool" where
  "better score name a b \<longleftrightarrow> score b < score a \<or> score a = score b \<and> name a < name b"

lemma sorted_key_better:
  assumes "distinct (map name xs)"
  shows "sorted_wrt (better score name) (sort_key (\<lambda>e. (- score e, name e)) xs)"
proof -
  let ?ys = "sort_key (\<lambda>e. (- score e, name e)) xs"
  have "distinct (map name ?ys)"
    using assms by (simp add: distinct_sort_key)
  then have "sorted_wrt (\<lambda>a b. name a \<noteq> name b) ?ys"
    by (auto simp: sorted_wrt_iff_nth_less distinct_conv_nth)
  moreover have "sorted_wrt (\<lambda>a b. (- score a, name a) \<le> (- score b, name b)) ?ys"
    using sorted_sort_key [of "\<lambda>e. (- score e, name e)" xs] by (simp add: sorted_map)
  moreover have "better score name a b" if "name a \<noteq> name b" "(- score a, name a) \<le> (- score b, name b)" for a b
    using that by (auto simp: better_def less_eq_prod_def le_less)
  ultimately show ?thesis by (simp add: sorted_wrt_iff_nth_less)
qed

lemma take_best_better:
  assumes "distinct (map name xs)"
  shows "sorted_wrt (better score name) (take_best score name k xs)"
    and "s \<in> set (take_best score name k xs) \<Longrightarrow> t \<in> set xs \<Longrightarrow> 0 < score t \<Longrightarrow> t \<notin> set (take_best score name k xs) \<Longrightarrow>
      better score name s t"
    and "set (take_best score name k xs) \<subseteq> {e \<in> set xs. 0 < score e}"
    and "length (take_best score name k xs) = min k (length (filter (\<lambda>e. 0 < score e) xs))"
    and "distinct (map name (take_best score name k xs))"
proof -
  let ?zs = "sort_key (\<lambda>e. (- score e, name e)) (filter (\<lambda>e. 0 < score e) xs)"
  have d: "distinct (map name (filter (\<lambda>e. 0 < score e) xs))" using assms by (rule distinct_map_filter)
  have split: "take k ?zs @ drop k ?zs = ?zs" by simp
  have srt: "sorted_wrt (better score name) (take k ?zs @ drop k ?zs)"
    unfolding split by (rule sorted_key_better [OF d])
  then show "sorted_wrt (better score name) (take_best score name k xs)"
    unfolding take_best_eq by (simp add: sorted_wrt_append del: append_take_drop_id)
  show "better score name s t" if "s \<in> set (take_best score name k xs)" "t \<in> set xs" "0 < score t"
    "t \<notin> set (take_best score name k xs)"
  proof -
    have "t \<in> set (take k ?zs @ drop k ?zs)" unfolding split using that(2,3) by simp
    with that(4) have "t \<in> set (drop k ?zs)" by (simp add: take_best_eq del: append_take_drop_id)
    with srt that(1) show ?thesis by (simp add: sorted_wrt_append take_best_eq del: append_take_drop_id)
  qed
  show "set (take_best score name k xs) \<subseteq> {e \<in> set xs. 0 < score e}"
    unfolding take_best_eq by (auto dest: in_set_takeD)
  show "length (take_best score name k xs) = min k (length (filter (\<lambda>e. 0 < score e) xs))"
    by (simp add: take_best_eq min.commute)
  have "distinct (map name (take k ?zs @ drop k ?zs))" unfolding split using d by (simp add: distinct_sort_key)
  then show "distinct (map name (take_best score name k xs))" by (simp add: take_best_eq del: append_take_drop_id)
qed

text \<open>What a rule reacts to, said without scores.\<close>

definition triggered :: "string \<Rightarrow> string \<Rightarrow> skill_entry \<Rightarrow> bool" where
  "triggered text profile e \<longleftrightarrow>
     (\<exists>rule \<in> set (se_activate_when e).
        (\<exists>kw \<in> set (rule_list rule ''keywords'').
           kw \<noteq> [] \<and> (text_in (py_lower kw) (py_lower text) \<or> text_in (py_lower kw) (py_lower profile))) \<or>
        (\<exists>g \<in> set (rule_list rule ''file_globs''). glob_matches_any_token g text))"

lemma py_lower_Nil [simp]: "py_lower s = [] \<longleftrightarrow> s = []" "py_lower [] = []"
  by (simp_all add: py_lower_def)

lemma text_in_Nil: "text_in k [] \<longleftrightarrow> k = []"
  by (auto simp: text_in_def contains_iff codes_def)

lemma sum_list_pos_iff:
  fixes f :: "'x \<Rightarrow> rat"
  assumes "\<And>x. 0 \<le> f x"
  shows "0 < sum_list (map f xs) \<longleftrightarrow> (\<exists>x \<in> set xs. 0 < f x)" and "0 \<le> sum_list (map f xs)"
proof -
  have ge: "0 \<le> sum_list (map f ys)" for ys by (induction ys) (simp_all add: assms)
  show "0 < sum_list (map f xs) \<longleftrightarrow> (\<exists>x \<in> set xs. 0 < f x)"
  proof (induction xs)
    case (Cons x xs)
    show ?case using Cons.IH assms [of x] ge [of xs] by (auto simp: less_le intro: add_pos_nonneg add_nonneg_pos)
  qed simp
  show "0 \<le> sum_list (map f xs)" by (rule ge)
qed

lemma keyword_score_nonneg: "0 \<le> keyword_score t p kw"
  by (simp add: keyword_score_def Let_def KEYWORD_IN_TEXT_SCORE_def KEYWORD_IN_PROFILE_SCORE_def)

lemma keyword_score_pos:
  "0 < keyword_score (py_lower t) (py_lower p) kw \<longleftrightarrow>
     kw \<noteq> [] \<and> (text_in (py_lower kw) (py_lower t) \<or> text_in (py_lower kw) (py_lower p))"
  by (cases "p = []") (auto simp: keyword_score_def Let_def KEYWORD_IN_TEXT_SCORE_def KEYWORD_IN_PROFILE_SCORE_def text_in_Nil)

lemma score_entry_pos:
  "0 < score_entry e text (py_lower text) (py_lower profile) \<longleftrightarrow> always_on e \<or> triggered text profile e"
proof -
  let ?g = "\<lambda>g. if glob_matches_any_token g text then GLOB_MATCH_SCORE else 0 :: rat"
  let ?k = "keyword_score (py_lower text) (py_lower profile)"
  let ?rule = "\<lambda>rule. sum_list (map ?k (rule_list rule ''keywords'')) + sum_list (map ?g (rule_list rule ''file_globs''))"
  have g: "0 \<le> ?g x" for x by (simp add: GLOB_MATCH_SCORE_def)
  note k = sum_list_pos_iff [where f = ?k, OF keyword_score_nonneg] and gl = sum_list_pos_iff [where f = ?g, OF g]
  have nonneg: "0 \<le> ?rule r" for r by (intro add_nonneg_nonneg k(2) gl(2))
  have "0 < ?rule r \<longleftrightarrow> 0 < sum_list (map ?k (rule_list r ''keywords'')) \<or> 0 < sum_list (map ?g (rule_list r ''file_globs''))" for r
    using k(2) [of "rule_list r ''keywords''"] gl(2) [of "rule_list r ''file_globs''"] by linarith
  then have "0 < ?rule r \<longleftrightarrow>
      (\<exists>kw \<in> set (rule_list r ''keywords''). 0 < ?k kw) \<or> (\<exists>g \<in> set (rule_list r ''file_globs''). glob_matches_any_token g text)" for r
    unfolding k(1) gl(1) by (auto simp: GLOB_MATCH_SCORE_def)
  then show ?thesis
    by (simp add: score_entry_def triggered_def sum_list_pos_iff(1) [where f = ?rule, OF nonneg] keyword_score_pos ALWAYS_ON_SCORE_def)
qed

text \<open>
  C28. The selection of a turn: only skills without rules or with a rule the turn triggers are listed, each
  once, as many of them as there are up to the limit; every one listed beats every such skill left out,
  by its score or, at equal scores, by its slug, and the list is in that order.
\<close>

theorem activation_selects_best:
  fixes msg profile :: string and k :: nat and skills :: "resolved_skill list"
  defines "score \<equiv> \<lambda>sk. score_entry (resolved_to_entry sk) msg (py_lower msg) (py_lower profile)"
    and "relevant \<equiv> \<lambda>sk. always_on (resolved_to_entry sk) \<or> triggered msg profile (resolved_to_entry sk)"
    and "S \<equiv> filter_resolved_for_turn (Some msg) profile k skills"
  assumes "distinct (map rs_slug skills)"
  shows "set S \<subseteq> {sk \<in> set skills. relevant sk} \<and> distinct (map rs_slug S) \<and> length S = min k (length (filter relevant skills)) \<and>
    (\<forall>s \<in> set S. \<forall>t \<in> set skills. relevant t \<longrightarrow> t \<notin> set S \<longrightarrow> better score rs_slug s t) \<and> sorted_wrt (better score rs_slug) S"
proof -
  have S: "S = take_best score rs_slug k skills" by (simp add: S_def filter_resolved_for_turn_def score_def)
  have rel: "0 < score sk \<longleftrightarrow> relevant sk" for sk by (simp add: score_def relevant_def score_entry_pos)
  note best = take_best_better [where score = score, OF assms(4)]
  show ?thesis using best(1) [of k] best(2) [of _ k] best(3,4,5) [of k] by (auto simp: S rel)
qed

lemma parse_skill_resolved:
  assumes "(fm, rest) = local_frontmatter yaml text"
  shows "parse_skill yaml n (Md text) = resolved_to_entry \<lparr>rs_slug = n, rs_scope = UserScope,
    rs_description = py_strip (get_text fm ''description''), rs_body = rest, rs_frontmatter = fm,
    rs_enabled_default = True, rs_mandatory = False\<rparr>"
proof -
  have "fm = parse_frontmatter yaml text"
    using assms by (auto simp: local_frontmatter_def parse_frontmatter_def split: option.splits prod.splits json.splits)
  then show ?thesis by (simp add: resolved_to_entry_def Let_def)
qed

lemma load_all_resolved:
  assumes "\<forall>(n, c) \<in> set cs. c \<noteq> Skill_Dir Unreadable"
  shows "load_all yaml (Some cs) = map resolved_to_entry (local_list_resolved yaml (Some cs))"
proof -
  have "List.map_filter (\<lambda>(n, c). case c of Not_Dir \<Rightarrow> None | Skill_Dir md \<Rightarrow> if md = No_Md then None else Some (parse_skill yaml n md)) xs =
    map resolved_to_entry (List.map_filter (\<lambda>(n, c). case c of
            Skill_Dir (Md text) \<Rightarrow>
              (let (fm, rest) = local_frontmatter yaml text in
               Some \<lparr>rs_slug = n, rs_scope = UserScope, rs_description = py_strip (get_text fm ''description''),
                 rs_body = rest, rs_frontmatter = fm, rs_enabled_default = True, rs_mandatory = False\<rparr>)
          | _ \<Rightarrow> None) xs)"
    if "\<forall>(n, c) \<in> set xs. c \<noteq> Skill_Dir Unreadable" for xs
    using that
  proof (induction xs)
    case (Cons x xs)
    obtain n c where x: "x = (n, c)" by fastforce
    show ?case
    proof (cases c)
      case (Skill_Dir md)
      then show ?thesis using Cons x
        by (cases md) (auto simp: map_filter_simps parse_skill_resolved simp del: parse_skill.simps(1) split: prod.splits)
    qed (use Cons x in \<open>simp add: map_filter_simps\<close>)
  qed (simp add: map_filter_simps)
  from this [of "sort_key fst cs"] assms show ?thesis by (simp add: load_all_def local_list_resolved_def)
qed

text \<open>
  The command line and the service select alike: over a directory whose files can be read, the entries
  the local scan selects are those selected from the resolved skills of the same directory.
\<close>

theorem activation_local_is_cloud:
  assumes "\<forall>(n, c) \<in> set cs. c \<noteq> Skill_Dir Unreadable"
  shows "filter_for_turn yaml (Some cs) user_text profile k =
    map resolved_to_entry (filter_resolved_for_turn user_text profile k (local_list_resolved yaml (Some cs)))"
proof (cases user_text)
  case None
  then show ?thesis
    by (simp add: filter_for_turn_def filter_resolved_for_turn_def load_all_resolved [OF assms] sort_key_of_map resolved_to_entry_def)
next
  case (Some msg)
  then show ?thesis
    by (simp add: filter_for_turn_def filter_resolved_for_turn_def load_all_resolved [OF assms] take_best_map)
      (simp add: resolved_to_entry_def)
qed

definition plain_skill :: "string \<Rightarrow> resolved_skill" where
  "plain_skill n = \<lparr>rs_slug = n, rs_scope = UserScope, rs_description = [], rs_body = [], rs_frontmatter = [],
     rs_enabled_default = True, rs_mandatory = False\<rparr>"

lemma plain_skill_simps [simp]:
  "rs_slug (plain_skill n) = n" "always_on (resolved_to_entry (plain_skill n))"
  by (simp_all add: plain_skill_def resolved_to_entry_def always_on_def coerce_rules_def py_get_def)

theorem activation_selects_best_witness:
  "filter_resolved_for_turn (Some ''x'') [] 1 [plain_skill ''b'', plain_skill ''a''] = [plain_skill ''a'']"
proof -
  let ?S = "filter_resolved_for_turn (Some ''x'') [] 1 [plain_skill ''b'', plain_skill ''a'']"
  note best = activation_selects_best [of "[plain_skill ''b'', plain_skill ''a'']" "''x''" "[]" 1]
  have len: "length ?S = 1" and sub: "set ?S \<subseteq> {plain_skill ''b'', plain_skill ''a''}"
    and beats: "\<forall>s \<in> set ?S. plain_skill ''a'' \<notin> set ?S \<longrightarrow>
      better (\<lambda>sk. score_entry (resolved_to_entry sk) ''x'' (py_lower ''x'') (py_lower [])) rs_slug s (plain_skill ''a'')"
    using best by auto
  from len obtain s where S: "?S = [s]" by (cases ?S) auto
  have "\<not> better (\<lambda>sk. score_entry (resolved_to_entry sk) ''x'' (py_lower ''x'') (py_lower [])) rs_slug (plain_skill ''b'') (plain_skill ''a'')"
    by (simp add: better_def score_entry_def)
  with S sub beats show ?thesis by auto
qed

theorem activation_local_is_cloud_witness:
  "filter_for_turn (\<lambda>_. None) (Some [(''a'', Skill_Dir (Md ''x''))]) (Some ''y'') [] 8 =
     map resolved_to_entry (filter_resolved_for_turn (Some ''y'') [] 8 (local_list_resolved (\<lambda>_. None) (Some [(''a'', Skill_Dir (Md ''x''))])))"
  by (rule activation_local_is_cloud) simp

end
