(* ===== verification/Prompt.thy ===== *)
theory Prompt
  imports Skill_Activation Memory_Spec "HOL-Library.Multiset"
begin

text \<open>
  \<open>agent/instructions.py\<close> and \<open>local_prompt.py\<close>: the system prompt of a turn.  The time is an
  argument, and so is the function \<open>pct\<close> that yields the floating point percentage of a memory
  block.
\<close>

subsection \<open>The user's request\<close>

definition USER_REQUEST_MAX_CHARS :: nat where "USER_REQUEST_MAX_CHARS = 500"

text \<open>The texts of a message made of parts; \<open>None\<close> stands for an exception.\<close>

fun text_parts :: "json list \<Rightarrow> string list option" where
  "text_parts [] = Some []"
| "text_parts (JObj d # ps) =
     (case py_get d ''type'' of
        JArr _ \<Rightarrow> None
      | JObj _ \<Rightarrow> None
      | JStr t \<Rightarrow>
          (if t \<in> set [''text'', ''input_text'']
           then (case (case map_of d ''text'' of None \<Rightarrow> JStr [] | Some v \<Rightarrow> v) of
                   JStr s \<Rightarrow> map_option ((#) s) (text_parts ps)
                 | _ \<Rightarrow> None)
           else text_parts ps)
      | _ \<Rightarrow> text_parts ps)"
| "text_parts (_ # ps) = text_parts ps"

definition cut_request :: "string \<Rightarrow> string" where
  "cut_request s = take USER_REQUEST_MAX_CHARS s"

fun latest_request :: "json list \<Rightarrow> string option" where
  "latest_request [] = None"
| "latest_request (JObj d # items) =
     (if py_get d ''role'' = JStr ''user''
      then (case py_get d ''content'' of
              JStr s \<Rightarrow> Some (cut_request s)
            | JArr ps \<Rightarrow>
                (case text_parts ps of
                   None \<Rightarrow> None
                 | Some ts \<Rightarrow> if concat ts = [] then None else Some (cut_request (concat ts)))
            | _ \<Rightarrow> latest_request items)
      else latest_request items)"
| "latest_request (JStr s # items) = Some (cut_request s)"
| "latest_request (_ # items) = latest_request items"

definition extract_user_request :: "json option \<Rightarrow> string option" where
  "extract_user_request turn_input = (case turn_input of Some (JArr items) \<Rightarrow> latest_request (rev items) | _ \<Rightarrow> None)"

subsection \<open>Blocks\<close>

definition SKILLS_INDEX_HEADER :: pystr where
  "SKILLS_INDEX_HEADER = codes ''AVAILABLE SKILLS (load with skill_view)''"

definition TOOL_GUIDANCE :: pystr where
  "TOOL_GUIDANCE = codes ''TOOL USE GUIDANCE:'' @ [10] @
     codes ''- Use `memory(action=...)` proactively when you learn something the human will benefit from remembering across sessions. Two targets: 'memory' for environment facts, conventions, lessons; 'user' for the human's preferences and identity.'' @ [10] @
     codes ''- Use `session_search(query=...)` BEFORE asking the human about something they may have already told you. It searches all past conversations.'' @ [10] @
     codes ''- Use `skill_view(name)` to load a skill before doing related work; use `skill_manage(action='create', ...)` AFTER completing a non-trivial task that is likely to recur.''"

definition entries_to_block ::
  "(nat \<Rightarrow> nat \<Rightarrow> nat) \<Rightarrow> 'st backend \<Rightarrow> kind \<Rightarrow> string \<Rightarrow> 'st \<Rightarrow> pystr"
where
  "entries_to_block pct b k label st =
     (case b_entries b k st of
        Inl _ \<Rightarrow> []
      | Inr es \<Rightarrow>
          if es = [] then []
          else (let chars = sum_list (map length es) + (length es - 1) * length ENTRY_DELIMITER;
                    limit = b_char_limit b k;
                    p = (if limit = 0 then 0 else pct chars limit);
                    rule = replicate 46 9552
                in rule @ [10] @ codes (label @ '' ['' @ digits p @ ''% '') @ [8212] @
                   codes ('' '' @ digits chars @ ''/'' @ digits limit @ '' chars]'') @ [10] @ rule @ [10] @
                   join_by ENTRY_DELIMITER es))"

definition render_named_block :: "string \<Rightarrow> pystr \<Rightarrow> pystr" where
  "render_named_block header b = (if strip b = [] then [] else codes (header @ '':'') @ [10] @ strip b)"

record session_summary =
  ss_topic :: pystr
  ss_summary :: pystr

definition summary_line :: "session_summary \<Rightarrow> pystr" where
  "summary_line s =
     codes ''- **'' @ (if strip (ss_topic s) = [] then codes ''(untitled)'' else strip (ss_topic s)) @ codes ''** '' @
       [8212] @ codes '' '' @ strip (ss_summary s)"

definition render_session_summaries :: "string \<Rightarrow> session_summary list \<Rightarrow> pystr" where
  "render_session_summaries header items =
     (let lines = map summary_line (filter (\<lambda>s. strip (ss_summary s) \<noteq> []) items)
      in if items = [] \<or> lines = [] then [] else join_by [10] (codes header # lines))"

definition resolved_skills_index :: "resolved_skill list \<Rightarrow> string option \<Rightarrow> string \<Rightarrow> pystr" where
  "resolved_skills_index skills user_text profile =
     (let sel = filter_resolved_for_turn user_text profile ACTIVATION_TOP_K skills
      in if sel = [] then []
         else SKILLS_INDEX_HEADER @ [10] @ join_by [10] (map (\<lambda>sk. index_line (rs_slug sk) (rs_description sk) []) (sort_key rs_slug sel)))"

definition time_block :: "string \<Rightarrow> pystr" where
  "time_block now = codes (''Current time: '' @ now)"

definition paragraphs :: "pystr list \<Rightarrow> pystr" where
  "paragraphs ps = join_by [10, 10] ps"

definition given :: "pystr \<Rightarrow> pystr list" where
  "given b = (if b = [] then [] else [b])"

subsection \<open>The prompt of the command line\<close>

record prompt_extras =
  px_soul :: pystr
  px_agents_md :: pystr

text \<open>A file of the home directory: absent or unreadable, or its text.\<close>

definition read_optional :: "pystr option \<Rightarrow> nat \<Rightarrow> pystr" where
  "read_optional f max_chars = (case f of None \<Rightarrow> [] | Some s \<Rightarrow> strip (take max_chars s))"

definition load_local_prompt_extras :: "pystr option \<Rightarrow> pystr option \<Rightarrow> prompt_extras" where
  "load_local_prompt_extras soul agents = \<lparr>px_soul = read_optional soul 8000, px_agents_md = read_optional agents 4000\<rparr>"

text \<open>The skills index may raise; a loader that raises gives no extras.\<close>

definition make_instructions ::
  "(nat \<Rightarrow> nat \<Rightarrow> nat) \<Rightarrow> prompt_extras result \<Rightarrow> 'st backend \<Rightarrow> 'st \<Rightarrow> (string option \<Rightarrow> pystr result) \<Rightarrow> json option \<Rightarrow> string
     \<Rightarrow> pystr result"
where
  "make_instructions pct loader b st skills_index turn_input now =
     (let extras = (case loader of Inl _ \<Rightarrow> \<lparr>px_soul = [], px_agents_md = []\<rparr> | Inr x \<Rightarrow> x)
      in bind_result (skills_index (extract_user_request turn_input)) (\<lambda>idx.
           Inr (paragraphs (given (px_soul extras) @ given (entries_to_block pct b Memory ''MEMORY'' st) @
             given (entries_to_block pct b User ''USER PROFILE'' st) @ given idx @
             (if px_agents_md extras = [] then [] else [codes ''PROJECT CONTEXT (AGENTS.md):'' @ [10] @ px_agents_md extras]) @
             [TOOL_GUIDANCE, time_block now]))))"

subsection \<open>The prompt of the service\<close>

record prompt_input =
  pi_eff :: effective_config
  pi_memory_text :: pystr
  pi_user_md_text :: string
  pi_recent :: "session_summary list"
  pi_relevant :: "session_summary list"

definition instruction_blocks :: "effective_config \<Rightarrow> pystr list" where
  "instruction_blocks eff = filter (\<lambda>b. b \<noteq> []) (map (\<lambda>i. strip (codes (ri_body i))) (ec_instructions eff))"

definition profile_block :: "prompt_input \<Rightarrow> pystr" where
  "profile_block pin = render_named_block ''USER PROFILE'' (codes (pi_user_md_text pin))"

definition memory_block :: "prompt_input \<Rightarrow> pystr" where
  "memory_block pin = render_named_block ''MEMORY'' (pi_memory_text pin)"

definition recent_block :: "prompt_input \<Rightarrow> pystr" where
  "recent_block pin = render_session_summaries ''## Recent Sessions'' (pi_recent pin)"

definition relevant_block :: "prompt_input \<Rightarrow> pystr" where
  "relevant_block pin = render_session_summaries ''## Relevant Past Sessions'' (pi_relevant pin)"

definition turn_skills_index :: "prompt_input \<Rightarrow> json option \<Rightarrow> pystr" where
  "turn_skills_index pin turn_input =
     resolved_skills_index (ec_skills (pi_eff pin)) (extract_user_request turn_input) (pi_user_md_text pin)"

definition cloud_parts :: "prompt_input \<Rightarrow> json option \<Rightarrow> string \<Rightarrow> pystr list" where
  "cloud_parts pin turn_input now =
     instruction_blocks (pi_eff pin) @ given (profile_block pin) @ given (memory_block pin) @ given (recent_block pin) @
     given (relevant_block pin) @ given (turn_skills_index pin turn_input) @ [TOOL_GUIDANCE, time_block now]"

definition make_instructions_for_user :: "prompt_input \<Rightarrow> json option \<Rightarrow> string \<Rightarrow> pystr" where
  "make_instructions_for_user pin turn_input now = paragraphs (cloud_parts pin turn_input now)"

record layered_instructions =
  li_stable :: pystr
  li_semi_stable :: pystr
  li_volatile :: pystr

definition li_as_text :: "layered_instructions \<Rightarrow> pystr" where
  "li_as_text l = paragraphs (filter (\<lambda>p. p \<noteq> []) [li_stable l, li_semi_stable l, li_volatile l])"

definition build_layered_instructions ::
  "pystr list \<Rightarrow> pystr \<Rightarrow> pystr \<Rightarrow> pystr \<Rightarrow> pystr \<Rightarrow> pystr \<Rightarrow> pystr \<Rightarrow> string \<Rightarrow> layered_instructions"
where
  "build_layered_instructions blocks profile memory recent relevant idx guidance now =
     \<lparr>li_stable = paragraphs (blocks @ [guidance]),
      li_semi_stable = paragraphs (given profile @ given memory @ given idx),
      li_volatile = paragraphs (given recent @ given relevant @ [time_block now])\<rparr>"

definition layered_for_turn :: "prompt_input \<Rightarrow> json option \<Rightarrow> string \<Rightarrow> layered_instructions" where
  "layered_for_turn pin turn_input now =
     build_layered_instructions (instruction_blocks (pi_eff pin)) (profile_block pin) (memory_block pin) (recent_block pin)
       (relevant_block pin) (turn_skills_index pin turn_input) TOOL_GUIDANCE now"

subsection \<open>Layers\<close>

lemma paragraphs_append:
  "xs \<noteq> [] \<Longrightarrow> ys \<noteq> [] \<Longrightarrow> paragraphs (xs @ ys) = paragraphs xs @ [10, 10] @ paragraphs ys"
proof (induction xs rule: list_nonempty_induct)
  case (single x)
  then show ?case by (simp add: paragraphs_def join_by_Cons)
next
  case (cons x xs)
  then show ?case by (simp add: paragraphs_def join_by_Cons)
qed

lemma paragraphs_Nil_iff: "[] \<notin> set ps \<Longrightarrow> paragraphs ps = [] \<longleftrightarrow> ps = []"
  unfolding paragraphs_def using join_by_eq_Nil by (cases ps) fastforce+

lemma layers_join:
  assumes "paragraphs a \<noteq> []" and "[] \<notin> set b" and "paragraphs c \<noteq> []"
  shows "paragraphs (filter (\<lambda>p. p \<noteq> []) [paragraphs a, paragraphs b, paragraphs c]) = paragraphs (a @ b @ c)"
proof -
  have ne: "a \<noteq> []" "c \<noteq> []" using assms(1,3) by (auto simp: paragraphs_def)
  show ?thesis
  proof (cases "b = []")
    case True
    then show ?thesis using assms ne by (simp add: paragraphs_append) (simp add: paragraphs_def)
  next
    case False
    then show ?thesis using assms ne
      by (simp add: paragraphs_append paragraphs_Nil_iff) (simp add: paragraphs_def)
  qed
qed

lemma given_no_Nil [simp]: "[] \<notin> set (given b)"
  by (simp add: given_def)

lemma paragraphs_last: "x \<noteq> [] \<Longrightarrow> paragraphs (ps @ [x]) \<noteq> []"
  using join_by_eq_Nil [of "[10, 10]" "ps @ [x]"] by (auto simp: paragraphs_def)

lemma blocks_ne [simp]: "TOOL_GUIDANCE \<noteq> []" "time_block now \<noteq> []"
  by (simp_all add: TOOL_GUIDANCE_def time_block_def codes_def)

text \<open>
  The layered prompt is made of exactly the blocks of the interleaved one, in another order; its first
  layer is a function of the configured instructions alone, and the memory and profile documents open
  the second.
\<close>

theorem prompt_layers_same_blocks:
  "(\<exists>ps. li_as_text (layered_for_turn pin turn_input now) = paragraphs ps \<and> mset ps = mset (cloud_parts pin turn_input now)) \<and>
   make_instructions_for_user pin turn_input now = paragraphs (cloud_parts pin turn_input now) \<and>
   li_stable (layered_for_turn pin turn_input now) = paragraphs (instruction_blocks (pi_eff pin) @ [TOOL_GUIDANCE])"
proof -
  let ?a = "instruction_blocks (pi_eff pin) @ [TOOL_GUIDANCE]"
  let ?b = "given (profile_block pin) @ given (memory_block pin) @ given (turn_skills_index pin turn_input)"
  let ?c = "given (recent_block pin) @ given (relevant_block pin) @ [time_block now]"
  have "li_as_text (layered_for_turn pin turn_input now) = paragraphs (?a @ ?b @ ?c)"
  proof -
    have "li_as_text (layered_for_turn pin turn_input now) = paragraphs (filter (\<lambda>p. p \<noteq> []) [paragraphs ?a, paragraphs ?b, paragraphs ?c])"
      by (simp only: li_as_text_def layered_for_turn_def build_layered_instructions_def layered_instructions.simps)
    also have "\<dots> = paragraphs (?a @ ?b @ ?c)"
    proof (rule layers_join)
      show "paragraphs ?a \<noteq> []" by (rule paragraphs_last) simp
      show "paragraphs ?c \<noteq> []"
        using paragraphs_last [of "time_block now" "given (recent_block pin) @ given (relevant_block pin)"] by simp
    qed simp
    finally show ?thesis .
  qed
  moreover have "mset (?a @ ?b @ ?c) = mset (cloud_parts pin turn_input now)"
    by (simp add: cloud_parts_def)
  ultimately show ?thesis
    by (auto simp: make_instructions_for_user_def layered_for_turn_def build_layered_instructions_def)
qed

definition keyed_skill :: resolved_skill where
  "keyed_skill = \<lparr>rs_slug = ''py'', rs_scope = UserScope, rs_description = ''d'', rs_body = [],
     rs_frontmatter = [(''activate_when'', JArr [JObj [(''keywords'', JArr [JStr ''py''])]])],
     rs_enabled_default = True, rs_mandatory = False\<rparr>"

definition keyed_input :: prompt_input where
  "keyed_input = \<lparr>pi_eff = \<lparr>ec_skills = [keyed_skill], ec_instructions = [], ec_commands = [], ec_mcp_servers = [], ec_etag = []\<rparr>,
     pi_memory_text = [], pi_user_md_text = [], pi_recent = [], pi_relevant = []\<rparr>"

definition said :: "string \<Rightarrow> json option" where
  "said s = Some (JArr [JObj [(''role'', JStr ''user''), (''content'', JStr s)]])"

lemma keyed_rules: "se_activate_when (resolved_to_entry keyed_skill) = [[(''keywords'', [''py''])]]"
  by (simp add: keyed_skill_def resolved_to_entry_def coerce_rules_def coerce_rule_def py_get_def py_strip_def py_isspace_def)

lemma keyed_triggered:
  "triggered ''py'' [] (resolved_to_entry keyed_skill)" "\<not> triggered ''no'' [] (resolved_to_entry keyed_skill)"
  "\<not> always_on (resolved_to_entry keyed_skill)"
  by (simp_all add: triggered_def always_on_def keyed_rules rule_list_def text_in_def py_lower_def py_lower_char_def
      contains_def codes_def)

lemma said_request: "extract_user_request (said ''py'') = Some ''py''" "extract_user_request (said ''no'') = Some ''no''"
  by (simp_all add: extract_user_request_def said_def py_get_def cut_request_def USER_REQUEST_MAX_CHARS_def)

text \<open>
  The second layer is documented to be identical for a session unless memory, profile or skills are
  changed; it changes with what the user says, for it holds the skills index of the turn.
\<close>

theorem prompt_semi_stable_follows_request:
  "\<exists>pin a b now. extract_user_request a \<noteq> None \<and> extract_user_request b \<noteq> None \<and>
     li_semi_stable (layered_for_turn pin a now) \<noteq> li_semi_stable (layered_for_turn pin b now)"
proof -
  have idx: "turn_skills_index keyed_input (said ''no'') = []" "turn_skills_index keyed_input (said ''py'') \<noteq> []"
    by (simp_all add: turn_skills_index_def keyed_input_def said_request resolved_skills_index_def filter_resolved_for_turn_def
        take_best_eq score_entry_pos [of _ _ "[]", simplified] keyed_triggered ACTIVATION_TOP_K_def)
  have docs: "given (profile_block keyed_input) = []" "given (memory_block keyed_input) = []"
    by (simp_all add: given_def profile_block_def memory_block_def render_named_block_def keyed_input_def codes_def)
  from idx have "li_semi_stable (layered_for_turn keyed_input (said ''py'') now) \<noteq> li_semi_stable (layered_for_turn keyed_input (said ''no'') now)" for now
    by (simp add: layered_for_turn_def build_layered_instructions_def docs) (simp add: given_def paragraphs_def)
  then show ?thesis by (intro exI [of _ keyed_input] exI [of _ "said ''py''"] exI [of _ "said ''no''"]) (simp add: said_request)
qed

end
