(* ===== verification/Budget_Hook.thy ===== *)
theory Budget_Hook
  imports Prompt
begin

text \<open>
  \<open>agent/budget.py\<close> and \<open>agent/consolidator.py\<close>: the notes stamped into the latest tool item as a
  run uses up its turns, and the facts saved to memory once when it runs short.  Ratios are exact;
  a float division rounded correctly compares with the literals in the same way.  An item of the
  turn input is its role and the text of its content.  The side agent's answer is an argument.
\<close>

subsection \<open>Notes\<close>

definition BUDGET_CAUTION_THRESHOLD :: rat where "BUDGET_CAUTION_THRESHOLD = 70 / 100"
definition BUDGET_WARNING_THRESHOLD :: rat where "BUDGET_WARNING_THRESHOLD = 90 / 100"
definition NUDGE_EVERY_N_TOOL_CALLS :: nat where "NUDGE_EVERY_N_TOOL_CALLS = 10"
definition DEFAULT_MAX_TURNS :: nat where "DEFAULT_MAX_TURNS = 90"

datatype tier = Caution | Warning

text \<open>An item that is no dict has no role; a turn input that is missing or no list is \<^const>\<open>None\<close>.\<close>

record turn_item =
  it_role :: "string option"
  it_content :: pystr

type_synonym turn_input = "turn_item list option"

record budget_hook =
  bh_max_turns :: nat
  bh_iteration :: nat
  bh_last_tier :: "tier option"
  bh_consolidated :: bool

definition new_budget :: "nat \<Rightarrow> budget_hook" where
  "new_budget m = \<lparr>bh_max_turns = m, bh_iteration = 0, bh_last_tier = None, bh_consolidated = False\<rparr>"

definition budget_on_start :: "budget_hook \<Rightarrow> budget_hook" where
  "budget_on_start h = h\<lparr>bh_iteration := 0, bh_last_tier := None, bh_consolidated := False\<rparr>"

definition tier_for :: "rat \<Rightarrow> tier option" where
  "tier_for ratio =
     (if BUDGET_WARNING_THRESHOLD \<le> ratio then Some Warning
      else if BUDGET_CAUTION_THRESHOLD \<le> ratio then Some Caution
      else None)"

definition num :: "nat \<Rightarrow> pystr" where
  "num n = codes (digits n)"

definition tier_note :: "nat \<Rightarrow> nat \<Rightarrow> tier \<Rightarrow> pystr" where
  "tier_note m i tier =
     (case tier of
        Warning \<Rightarrow> codes ''[BUDGET WARNING: Iteration '' @ num i @ codes ''/'' @ num m @ codes ''. Only '' @ num (m - i) @
          codes '' iteration(s) left. Provide your final response NOW.]''
      | Caution \<Rightarrow> codes ''[BUDGET: Iteration '' @ num i @ codes ''/'' @ num m @ codes ''. '' @ num (m - i) @
          codes '' iterations left. Start consolidating your work.]'')"

definition nudge_note :: "nat \<Rightarrow> pystr" where
  "nudge_note i =
     codes ''[NUDGE: You have done '' @ num i @ codes '' tool calls. If you learned a durable fact '' @ [8212] @
     codes '' user preference, environmental constant, lesson '' @ [8212] @
     codes '' consider `memory(action='add', ...)` before continuing.]''"

text \<open>The items are scanned from the latest.\<close>

definition with_note :: "pystr \<Rightarrow> turn_item \<Rightarrow> turn_item" where
  "with_note note i = i\<lparr>it_content := (if it_content i = [] then note else it_content i @ [10, 10] @ note)\<rparr>"

fun stamp_first :: "pystr \<Rightarrow> turn_item list \<Rightarrow> turn_item list option" where
  "stamp_first note [] = None"
| "stamp_first note (i # items) =
     (if it_role i = Some ''tool'' then Some (with_note note i # items) else map_option ((#) i) (stamp_first note items))"

definition append_note :: "pystr \<Rightarrow> turn_input \<Rightarrow> bool \<times> turn_input" where
  "append_note note ti =
     (case ti of
        None \<Rightarrow> (False, ti)
      | Some items \<Rightarrow>
          (case stamp_first note (rev items) of
             None \<Rightarrow> (False, ti)
           | Some items' \<Rightarrow> (True, Some (rev items'))))"

definition maybe_emit_nudge :: "budget_hook \<Rightarrow> turn_input \<Rightarrow> turn_input" where
  "maybe_emit_nudge h ti =
     (if NUDGE_EVERY_N_TOOL_CALLS = 0 \<or> bh_iteration h = 0 \<or> bh_iteration h mod NUDGE_EVERY_N_TOOL_CALLS \<noteq> 0 then ti
      else snd (append_note (nudge_note (bh_iteration h)) ti))"

subsection \<open>Consolidation\<close>

definition CONSOLIDATOR_MAX_ENTRIES :: nat where "CONSOLIDATOR_MAX_ENTRIES = 5"
definition CONSOLIDATOR_MAX_ENTRY_CHARS :: nat where "CONSOLIDATOR_MAX_ENTRY_CHARS = 200"

text \<open>\<open>_parse_entries\<close>; the reader of JSON is an argument, \<open>None\<close> for an error.\<close>

definition parse_entries :: "(string \<Rightarrow> json option) \<Rightarrow> string \<Rightarrow> string list" where
  "parse_entries loads output =
     (let s = py_strip output;
          s' = (if take 3 s = ''```'' then py_strip (lstrip_chars ''json'' (strip_chars ''`'' s)) else s)
      in case loads s' of
           Some (JArr items) \<Rightarrow>
             concat (map (\<lambda>i. case i of
                 JStr x \<Rightarrow> (let y = py_strip x in if y \<noteq> [] \<and> length y \<le> CONSOLIDATOR_MAX_ENTRY_CHARS then [y] else [])
               | _ \<Rightarrow> []) (take CONSOLIDATOR_MAX_ENTRIES items))
         | _ \<Rightarrow> [])"

text \<open>\<open>Consolidator.run\<close>: the side agent answers a text, nothing, or raises.\<close>

definition consolidator_run ::
  "(string \<Rightarrow> json option) \<Rightarrow> (turn_item list \<Rightarrow> string option result) \<Rightarrow> turn_item list \<Rightarrow> string list result"
where
  "consolidator_run loads agent items =
     bind_result (agent items) (\<lambda>out. Inr (case out of None \<Rightarrow> [] | Some s \<Rightarrow> if s = [] then [] else parse_entries loads s))"

definition skippable :: "exn \<Rightarrow> bool" where
  "skippable e \<longleftrightarrow> e \<in> {UnsafeContent, ValueError} \<or> (\<exists>a b. e = MemoryFull a b)"

lemma skippable_simps [code]:
  "skippable e = (case e of UnsafeContent \<Rightarrow> True | ValueError \<Rightarrow> True | MemoryFull a b \<Rightarrow> True | _ \<Rightarrow> False)"
  by (cases e) (simp_all add: skippable_def)

fun add_entries :: "'st backend \<Rightarrow> string list \<Rightarrow> 'st \<Rightarrow> 'st" where
  "add_entries b [] st = st"
| "add_entries b (e # es) st =
     (case b_add b Memory (codes e) st of
        (Inr _, st') \<Rightarrow> add_entries b es st'
      | (Inl x, st') \<Rightarrow> if skippable x then add_entries b es st' else st')"

definition consolidate ::
  "(turn_item list \<Rightarrow> string list result) option \<Rightarrow> 'st backend \<Rightarrow> turn_input \<Rightarrow> 'st \<Rightarrow> 'st"
where
  "consolidate conso b ti st =
     (case conso of
        None \<Rightarrow> st
      | Some run \<Rightarrow>
          (case run (case ti of None \<Rightarrow> [] | Some items \<Rightarrow> items) of Inl _ \<Rightarrow> st | Inr es \<Rightarrow> add_entries b es st))"

subsection \<open>The hook\<close>

definition budget_on_tool_end ::
  "(turn_item list \<Rightarrow> string list result) option \<Rightarrow> 'st backend \<Rightarrow> turn_input \<times> budget_hook \<times> 'st \<Rightarrow> turn_input \<times> budget_hook \<times> 'st"
where
  "budget_on_tool_end conso b s =
     (let (ti, h0, st) = s; h = h0\<lparr>bh_iteration := Suc (bh_iteration h0)\<rparr>;
          ti1 = maybe_emit_nudge h ti;
          t = tier_for (of_nat (bh_iteration h) / of_nat (max 1 (bh_max_turns h)))
      in case t of
           None \<Rightarrow> (ti1, h, st)
         | Some x \<Rightarrow>
             if t = bh_last_tier h then (ti1, h, st)
             else (let (landed, ti2) = append_note (tier_note (bh_max_turns h) (bh_iteration h) x) ti1
               in if \<not> landed then (ti2, h, st)
                  else if x = Warning \<and> \<not> bh_consolidated h
                  then (ti2, h\<lparr>bh_last_tier := t, bh_consolidated := True\<rparr>, consolidate conso b ti2 st)
                  else (ti2, h\<lparr>bh_last_tier := t\<rparr>, st)))"

text \<open>A run: the turn input each tool call leaves is that of the runner, stamped.\<close>

fun budget_run ::
  "(turn_item list \<Rightarrow> string list result) option \<Rightarrow> 'st backend \<Rightarrow> turn_input list \<Rightarrow> budget_hook \<Rightarrow> 'st
     \<Rightarrow> turn_input list \<times> budget_hook \<times> 'st"
where
  "budget_run conso b [] h st = ([], h, st)"
| "budget_run conso b (ti # tis) h st =
     (let (ti', h', st') = budget_on_tool_end conso b (ti, h, st); (tis', r) = budget_run conso b tis h' st'
      in (ti' # tis', r))"

subsection \<open>When the notes are stamped\<close>

text \<open>The first calls at which the thresholds are reached.\<close>

definition caution_at :: "nat \<Rightarrow> nat" where "caution_at m = (7 * max 1 m + 9) div 10"
definition warning_at :: "nat \<Rightarrow> nat" where "warning_at m = (9 * max 1 m + 9) div 10"

definition due_tier :: "nat \<Rightarrow> nat \<Rightarrow> tier option" where
  "due_tier m i = (if warning_at m \<le> i then Some Warning else if caution_at m \<le> i then Some Caution else None)"

lemma tier_for_due: "tier_for (of_nat i / of_nat (max 1 m)) = due_tier m i"
proof -
  let ?M = "max 1 m"
  have M: "0 < (of_nat ?M :: rat)" by simp
  have "90 / 100 \<le> (of_nat i / of_nat ?M :: rat) \<longleftrightarrow> 9 * ?M \<le> 10 * i"
  proof -
    have "90 / 100 \<le> (of_nat i / of_nat ?M :: rat) \<longleftrightarrow> 9 * (of_nat ?M :: rat) \<le> 10 * of_nat i"
      using M by (simp add: field_simps)
    also have "\<dots> \<longleftrightarrow> (of_nat (9 * ?M) :: rat) \<le> of_nat (10 * i)" by simp
    finally show ?thesis by (simp only: of_nat_le_iff)
  qed
  moreover have "70 / 100 \<le> (of_nat i / of_nat ?M :: rat) \<longleftrightarrow> 7 * ?M \<le> 10 * i"
  proof -
    have "70 / 100 \<le> (of_nat i / of_nat ?M :: rat) \<longleftrightarrow> 7 * (of_nat ?M :: rat) \<le> 10 * of_nat i"
      using M by (simp add: field_simps)
    also have "\<dots> \<longleftrightarrow> (of_nat (7 * ?M) :: rat) \<le> of_nat (10 * i)" by simp
    finally show ?thesis by (simp only: of_nat_le_iff)
  qed
  moreover have "9 * ?M \<le> 10 * i \<longleftrightarrow> warning_at m \<le> i" "7 * ?M \<le> 10 * i \<longleftrightarrow> caution_at m \<le> i"
    unfolding warning_at_def caution_at_def by linarith+
  ultimately show ?thesis
    by (simp add: tier_for_def due_tier_def BUDGET_WARNING_THRESHOLD_def BUDGET_CAUTION_THRESHOLD_def)
qed

definition has_tool :: "turn_input \<Rightarrow> bool" where
  "has_tool ti \<longleftrightarrow> (\<exists>items. ti = Some items \<and> Some ''tool'' \<in> it_role ` set items)"

definition stamped :: "pystr list \<Rightarrow> turn_input \<Rightarrow> turn_input" where
  "stamped notes ti = fold (\<lambda>n t. snd (append_note n t)) notes ti"

lemma stamp_first_Some: "Some ''tool'' \<in> it_role ` set items \<Longrightarrow> \<exists>items'. stamp_first n items = Some items' \<and> map it_role items' = map it_role items"
  by (induction items) (auto simp: with_note_def)

lemma append_note_lands:
  assumes "has_tool ti"
  shows "fst (append_note n ti)" and "has_tool (snd (append_note n ti))"
proof -
  from assms obtain items where items: "ti = Some items" "Some ''tool'' \<in> it_role ` set (rev items)"
    by (auto simp: has_tool_def)
  from stamp_first_Some [OF items(2)] obtain items' where s: "stamp_first n (rev items) = Some items'" "map it_role items' = map it_role (rev items)"
    by blast
  show "fst (append_note n ti)" by (simp add: append_note_def items(1) s(1))
  have "it_role ` set items' = it_role ` set items" using s(2) by (metis list.set_map set_rev)
  then show "has_tool (snd (append_note n ti))"
    using items(2) by (simp add: append_note_def items(1) s(1) has_tool_def)
qed

lemma append_note_misses: "\<not> has_tool ti \<Longrightarrow> append_note n ti = (False, ti)"
proof -
  have "Some ''tool'' \<notin> it_role ` set items \<Longrightarrow> stamp_first n items = None" for items
    by (induction items) auto
  from this [of "rev (the ti)"] show "\<not> has_tool ti \<Longrightarrow> ?thesis"
    by (auto simp: has_tool_def append_note_def split: option.splits)
qed

lemma append_note_cases: "append_note n ti = (has_tool ti, stamped [n] ti)"
  by (cases "has_tool ti") (simp_all add: append_note_lands append_note_misses stamped_def prod_eq_iff)

lemma stamped_tool [simp]: "has_tool (stamped ns ti) \<longleftrightarrow> has_tool ti"
proof -
  have "has_tool (snd (append_note n t)) \<longleftrightarrow> has_tool t" for n t
    by (cases "has_tool t") (simp_all add: append_note_lands append_note_misses)
  then show ?thesis unfolding stamped_def by (induction ns arbitrary: ti) simp_all
qed

lemma stamped_none: "\<not> has_tool ti \<Longrightarrow> stamped ns ti = ti"
  unfolding stamped_def by (induction ns) (simp_all add: append_note_misses)

lemma due_tier_mono: "due_tier m i = Some Warning \<Longrightarrow> i \<le> j \<Longrightarrow> due_tier m j = Some Warning"
  by (auto simp: due_tier_def split: if_splits)

text \<open>
  The call into whose input the note of a tier is stamped: the first, counted from 0, at which the
  tier is due and the input has a tool item.
\<close>

definition lands_at :: "nat \<Rightarrow> turn_input list \<Rightarrow> tier \<Rightarrow> nat option" where
  "lands_at m tis x = find (\<lambda>i. has_tool (tis ! i) \<and> due_tier m (Suc i) = Some x) [0..<length tis]"

definition notes_at :: "nat \<Rightarrow> turn_input list \<Rightarrow> nat \<Rightarrow> pystr list" where
  "notes_at m tis i =
     (if 10 dvd Suc i then [nudge_note (Suc i)] else []) @
     (case due_tier m (Suc i) of None \<Rightarrow> [] | Some x \<Rightarrow> if lands_at m tis x = Some i then [tier_note m (Suc i) x] else [])"

definition budget_after :: "nat \<Rightarrow> turn_input list \<Rightarrow> budget_hook" where
  "budget_after m tis = \<lparr>bh_max_turns = m, bh_iteration = length tis,
     bh_last_tier = (if lands_at m tis Warning \<noteq> None then Some Warning
       else if lands_at m tis Caution \<noteq> None then Some Caution else None),
     bh_consolidated = (lands_at m tis Warning \<noteq> None)\<rparr>"

definition saved_after ::
  "(turn_item list \<Rightarrow> string list result) option \<Rightarrow> 'st backend \<Rightarrow> nat \<Rightarrow> turn_input list \<Rightarrow> 'st \<Rightarrow> 'st"
where
  "saved_after conso b m tis st =
     (case lands_at m tis Warning of None \<Rightarrow> st | Some i \<Rightarrow> consolidate conso b (stamped (notes_at m tis i) (tis ! i)) st)"

lemma find_snoc: "find P (xs @ [x]) = (case find P xs of Some y \<Rightarrow> Some y | None \<Rightarrow> if P x then Some x else None)"
  by (induction xs) simp_all

lemma lands_at_snoc:
  "lands_at m (tis @ [ti]) x =
     (case lands_at m tis x of
        Some i \<Rightarrow> Some i
      | None \<Rightarrow> if has_tool ti \<and> due_tier m (Suc (length tis)) = Some x then Some (length tis) else None)"
proof -
  have "find (\<lambda>i. has_tool ((tis @ [ti]) ! i) \<and> due_tier m (Suc i) = Some x) [0..<length tis] = lands_at m tis x"
    unfolding lands_at_def by (rule find_cong) (simp_all add: nth_append)
  then show ?thesis by (simp add: lands_at_def [of m "tis @ [ti]"] find_snoc split: option.split)
qed

lemma lands_at_less: "lands_at m tis x = Some i \<Longrightarrow> i < length tis \<and> has_tool (tis ! i) \<and> due_tier m (Suc i) = Some x"
  by (auto simp: lands_at_def find_Some_iff)

lemma notes_at_snoc: "i < length tis \<Longrightarrow> notes_at m (tis @ [ti]) i = notes_at m tis i"
  by (auto simp: notes_at_def lands_at_snoc split: option.splits)

lemma nudged:
  "maybe_emit_nudge h ti = stamped (if 0 < bh_iteration h \<and> 10 dvd bh_iteration h then [nudge_note (bh_iteration h)] else []) ti"
  by (auto simp: maybe_emit_nudge_def NUDGE_EVERY_N_TOOL_CALLS_def stamped_def dvd_eq_mod_eq_0)

text \<open>Where a tier is due, it is the last one stamped just if its note has landed.\<close>

lemma last_tier_due:
  assumes "due_tier m (Suc (length tis)) = Some x"
  shows "bh_last_tier (budget_after m tis) = Some x \<longleftrightarrow> lands_at m tis x \<noteq> None"
proof (cases x)
  case Caution
  have "lands_at m tis Warning = None"
  proof (rule ccontr)
    assume "lands_at m tis Warning \<noteq> None"
    then obtain i where "i < length tis" "due_tier m (Suc i) = Some Warning" using lands_at_less by blast
    then have "due_tier m (Suc (length tis)) = Some Warning" using due_tier_mono by simp
    then show False using assms Caution by simp
  qed
  then show ?thesis by (simp add: budget_after_def Caution)
qed (simp add: budget_after_def)

lemma budget_step:
  "budget_on_tool_end conso b (ti, budget_after m tis, saved_after conso b m tis st) =
    (stamped (notes_at m (tis @ [ti]) (length tis)) ti, budget_after m (tis @ [ti]), saved_after conso b m (tis @ [ti]) st)"
proof -
  let ?n = "length tis" and ?st = "saved_after conso b m tis st"
  let ?ti1 = "stamped (if 10 dvd Suc ?n then [nudge_note (Suc ?n)] else []) ti"
  let ?h = "(budget_after m tis)\<lparr>bh_iteration := Suc ?n\<rparr>"
  have it: "bh_iteration (budget_after m tis) = ?n" "bh_iteration ?h = Suc ?n" "bh_max_turns ?h = m"
    "bh_last_tier ?h = bh_last_tier (budget_after m tis)" "bh_consolidated ?h = (lands_at m tis Warning \<noteq> None)"
    by (simp_all add: budget_after_def)
  have nudge: "maybe_emit_nudge ?h ti = ?ti1" unfolding nudged it by simp
  have tool: "has_tool ?ti1 = has_tool ti" by (simp only: stamped_tool)
  have stamps: "stamped (notes_at m (tis @ [ti]) ?n) ti = stamped (case due_tier m (Suc ?n) of
      None \<Rightarrow> [] | Some x \<Rightarrow> if lands_at m tis x = None \<and> has_tool ti then [tier_note m (Suc ?n) x] else []) ?ti1"
    using lands_at_less [of m tis]
    by (auto simp: notes_at_def stamped_def lands_at_snoc split: option.splits)
  have saved: "saved_after conso b m (tis @ [ti]) st =
      (if lands_at m tis Warning = None \<and> has_tool ti \<and> due_tier m (Suc ?n) = Some Warning
       then consolidate conso b (stamped (notes_at m (tis @ [ti]) ?n) ti) ?st else ?st)"
    using lands_at_less [of m tis Warning]
    by (auto simp: saved_after_def lands_at_snoc nth_append notes_at_snoc split: option.splits)
  have run: "budget_on_tool_end conso b (ti, budget_after m tis, ?st) =
    (case due_tier m (Suc ?n) of
       None \<Rightarrow> (?ti1, ?h, ?st)
     | Some x \<Rightarrow>
         if due_tier m (Suc ?n) = bh_last_tier (budget_after m tis) then (?ti1, ?h, ?st)
         else if \<not> has_tool ti then (stamped [tier_note m (Suc ?n) x] ?ti1, ?h, ?st)
         else if x = Warning \<and> lands_at m tis Warning = None
         then (stamped [tier_note m (Suc ?n) x] ?ti1, ?h\<lparr>bh_last_tier := due_tier m (Suc ?n), bh_consolidated := True\<rparr>,
           consolidate conso b (stamped [tier_note m (Suc ?n) x] ?ti1) ?st)
         else (stamped [tier_note m (Suc ?n) x] ?ti1, ?h\<lparr>bh_last_tier := due_tier m (Suc ?n)\<rparr>, ?st))"
    unfolding budget_on_tool_end_def Let_def prod.case it nudge tier_for_due append_note_cases tool
    by (simp split: option.split)
  show ?thesis
  proof (cases "due_tier m (Suc ?n)")
    case None
    then show ?thesis
      unfolding run stamps saved by (simp add: budget_after_def lands_at_snoc stamped_def split: option.split)
  next
    case (Some x)
    consider "lands_at m tis x \<noteq> None" | "lands_at m tis x = None" "\<not> has_tool ti" | "lands_at m tis x = None" "has_tool ti"
      by blast
    then show ?thesis
    proof cases
      case 1
      then have "due_tier m (Suc ?n) = bh_last_tier (budget_after m tis)" using last_tier_due [OF Some] Some by simp
      moreover have "lands_at m (tis @ [ti]) y = lands_at m tis y" for y
        using 1 by (auto simp: lands_at_snoc Some split: option.split)
      ultimately show ?thesis
        unfolding run stamps saved using 1 Some by (auto simp: budget_after_def stamped_def)
    next
      case 2
      then have "due_tier m (Suc ?n) \<noteq> bh_last_tier (budget_after m tis)" using last_tier_due [OF Some] Some by auto
      moreover have "lands_at m (tis @ [ti]) y = lands_at m tis y" for y
        using 2 by (auto simp: lands_at_snoc split: option.split)
      ultimately show ?thesis
        unfolding run stamps saved using 2 Some by (simp add: budget_after_def stamped_none)
    next
      case 3
      then have new: "due_tier m (Suc ?n) \<noteq> bh_last_tier (budget_after m tis)" using last_tier_due [OF Some] Some by auto
      have lands: "lands_at m (tis @ [ti]) y = (if y = x then Some ?n else lands_at m tis y)" for y
        using 3 by (auto simp: lands_at_snoc Some split: option.split)
      have warned: "lands_at m tis Warning = None"
      proof (cases x)
        case Caution
        then show ?thesis
          using due_tier_mono [of m _ "Suc ?n"] lands_at_less [of m tis Warning] Some
          by (cases "lands_at m tis Warning") fastforce+
      qed (use 3 in simp)
      show ?thesis
        unfolding run stamps saved using 3 Some new warned by (cases x) (auto simp: budget_after_def lands stamped_def)
    qed
  qed
qed

lemma budget_run_snoc:
  "budget_run conso b (tis @ [ti]) h st =
    (case budget_run conso b tis h st of (tis', h', st') \<Rightarrow>
      case budget_on_tool_end conso b (ti, h', st') of (ti', h'', st'') \<Rightarrow> (tis' @ [ti'], h'', st''))"
  by (induction tis arbitrary: h st) (auto split: prod.splits)

text \<open>
  C29. A run on its own, whatever its inputs hold.  Notes go into the latest item with the role
  \<open>tool\<close> of a call's input, and an input without one is left as it is.  Every tenth call is
  stamped with the nudge; the caution is stamped once, into the first input that has such an item
  among the calls from 70\% up to 90\% of the turns, the warning once, into the first from 90\% on;
  and the facts of the run are saved exactly once, from the input the warning was stamped into.
  So a run none of whose inputs has such an item is never warned and saves nothing.
\<close>

theorem budget_run_exact:
  "budget_run conso b tis (budget_on_start h) st =
    (map (\<lambda>i. stamped (notes_at (bh_max_turns h) tis i) (tis ! i)) [0..<length tis],
     budget_after (bh_max_turns h) tis,
     case lands_at (bh_max_turns h) tis Warning of
       None \<Rightarrow> st
     | Some i \<Rightarrow> consolidate conso b (stamped (notes_at (bh_max_turns h) tis i) (tis ! i)) st) \<and>
   (\<forall>ti \<in> set tis. \<not> has_tool ti \<longrightarrow> (\<forall>notes. stamped notes ti = ti)) \<and>
   (list_all (\<lambda>ti. \<not> has_tool ti) tis \<longrightarrow> budget_run conso b tis (budget_on_start h) st =
      (tis, (budget_on_start h)\<lparr>bh_iteration := length tis\<rparr>, st))"
proof -
  let ?m = "bh_max_turns h"
  have run: "budget_run conso b tis (budget_on_start h) st =
    (map (\<lambda>i. stamped (notes_at ?m tis i) (tis ! i)) [0..<length tis], budget_after ?m tis, saved_after conso b ?m tis st)"
  proof (induction tis rule: rev_induct)
    case Nil
    then show ?case by (simp add: budget_on_start_def budget_after_def saved_after_def lands_at_def)
  next
    case (snoc ti tis)
    then show ?case by (simp add: budget_run_snoc budget_step nth_append notes_at_snoc)
  qed
  have "budget_run conso b tis (budget_on_start h) st = (tis, (budget_on_start h)\<lparr>bh_iteration := length tis\<rparr>, st)"
    if none: "list_all (\<lambda>ti. \<not> has_tool ti) tis"
  proof -
    have "lands_at ?m tis x = None" for x
      using none by (auto simp: lands_at_def find_None_iff list_all_length)
    moreover have "map (\<lambda>i. stamped (notes_at ?m tis i) (tis ! i)) [0..<length tis] = tis"
      using none by (intro nth_equalityI) (simp_all add: list_all_length stamped_none)
    ultimately show ?thesis unfolding run by (simp add: budget_after_def saved_after_def) (simp add: budget_on_start_def)
  qed
  with run show ?thesis by (simp add: saved_after_def stamped_none)
qed

text \<open>
  The hook belongs to the agent, and \<open>api.py\<close> keeps one agent for all conversations: a run whose calls
  alternate with the starts of other runs is never warned, however many calls it makes.
\<close>

fun shared_run ::
  "(turn_item list \<Rightarrow> string list result) option \<Rightarrow> 'st backend \<Rightarrow> turn_input list \<Rightarrow> budget_hook \<Rightarrow> 'st
     \<Rightarrow> turn_input list \<times> budget_hook \<times> 'st"
where
  "shared_run conso b [] h st = ([], h, st)"
| "shared_run conso b (ti # tis) h st =
     (let (ti', h', st') = budget_on_tool_end conso b (ti, h, st);
          (tis', r) = shared_run conso b tis (budget_on_start h') st'
      in (ti' # tis', r))"

theorem shared_budget_never_warns:
  assumes "2 \<le> bh_max_turns h"
  shows "shared_run conso b tis (budget_on_start h) st = (tis, budget_on_start h, st)"
proof (induction tis)
  case (Cons ti tis)
  let ?m = "bh_max_turns h"
  have m: "\<not> warning_at ?m \<le> 1" "\<not> caution_at ?m \<le> 1" using assms by (simp_all add: warning_at_def caution_at_def)
  have "tier_for (1 / of_nat (max 1 ?m)) = None"
    using tier_for_due [of 1 ?m] m by (simp add: due_tier_def)
  then have "budget_on_tool_end conso b (ti, budget_on_start h, st) = (ti, (budget_on_start h)\<lparr>bh_iteration := 1\<rparr>, st)"
    using assms by (simp add: budget_on_tool_end_def Let_def budget_on_start_def maybe_emit_nudge_def NUDGE_EVERY_N_TOOL_CALLS_def)
  moreover have "budget_on_start ((budget_on_start h)\<lparr>bh_iteration := 1\<rparr>) = budget_on_start h"
    by (simp add: budget_on_start_def)
  ultimately show ?case using Cons.IH by simp
qed simp

definition tool_said :: "string \<Rightarrow> turn_input" where
  "tool_said s = Some [\<lparr>it_role = Some ''tool'', it_content = codes s\<rparr>]"

text \<open>Of three calls the last is due a warning; without tool items nothing is stamped.\<close>

theorem budget_run_exact_witness:
  "fst (budget_run None (undefined :: unit backend) (replicate 3 (tool_said ''x'')) (budget_on_start (new_budget 3)) ()) =
     [tool_said ''x'', tool_said ''x'', stamped [tier_note 3 3 Warning] (tool_said ''x'')] \<and>
   fst (budget_run None (undefined :: unit backend) (replicate 3 (Some [])) (budget_on_start (new_budget 3)) ()) = replicate 3 (Some [])"
proof -
  let ?tis = "replicate 3 (tool_said ''x'')"
  have tool: "has_tool (tool_said ''x'')" by (simp add: has_tool_def tool_said_def)
  have at: "warning_at 3 = 3" "caution_at 3 = 3" by (simp_all add: warning_at_def caution_at_def)
  have idx: "[0..<length ?tis] = [0, 1, 2]" by (simp add: upt_conv_Cons)
  have due: "due_tier 3 (Suc 0) = None" "due_tier 3 (Suc (Suc 0)) = None" "due_tier 3 2 = None" "due_tier 3 3 = Some Warning"
    by (simp_all add: due_tier_def at)
  have lands: "lands_at 3 ?tis Warning = Some 2"
    unfolding lands_at_def idx using tool by (simp add: due)
  have stamps: "notes_at 3 ?tis 0 = []" "notes_at 3 ?tis 1 = []" "notes_at 3 ?tis 2 = [tier_note 3 3 Warning]"
    using due lands dvd_imp_le [of 10 "Suc (Suc 0)"] dvd_imp_le [of 10 3] by (auto simp: notes_at_def)
  have m: "bh_max_turns (new_budget 3) = 3" by (simp add: new_budget_def)
  have "fst (budget_run None (undefined :: unit backend) ?tis (budget_on_start (new_budget 3)) ()) =
      map (\<lambda>i. stamped (notes_at 3 ?tis i) (?tis ! i)) [0, 1, 2]"
    using budget_run_exact [of None "undefined :: unit backend" ?tis "new_budget 3" "()"] unfolding m idx by simp
  moreover have "fst (budget_run None (undefined :: unit backend) (replicate 3 (Some [])) (budget_on_start (new_budget 3)) ()) = replicate 3 (Some [])"
    by (subst budget_run_exact [THEN conjunct2, THEN conjunct2, THEN mp]) (simp_all add: list_all_iff has_tool_def)
  ultimately show ?thesis using stamps by (simp add: stamped_def)
qed

theorem shared_budget_never_warns_witness:
  "fst (shared_run None (undefined :: unit backend) (replicate 90 (tool_said ''x'')) (budget_on_start (new_budget 90)) ()) =
     replicate 90 (tool_said ''x'')"
  by (subst shared_budget_never_warns) (simp_all add: new_budget_def)

end
