(* ===== verification/Evolution_Hook.thy ===== *)
theory Evolution_Hook
  imports Budget_Hook
begin

text \<open>
  \<open>agent/evolution.py\<close> and \<open>LiteHorseHooks\<close> of \<open>agent/factory.py\<close>: what a run leaves behind for
  its skills, and which side agent it starts.  The tenant's skill backend, its feedback sink, the
  reader of JSON and the two side agents are arguments; what a side agent does to the tenant's
  state is a function of its prompt and the state, whether it raises or not.
\<close>

subsection \<open>Error markers\<close>

text \<open>The pieces of the four patterns, matched without regard to case; a word boundary takes no text.\<close>

datatype marker_piece = MChar char | MSpaces | MBoundary

definition mchars :: "string \<Rightarrow> marker_piece list" where
  "mchars s = map MChar s"

definition ERROR_MARKERS :: "marker_piece list list" where
  "ERROR_MARKERS =
     [mchars ([CHR 0x22] @ ''success'' @ [CHR 0x22]) @ [MSpaces] @ mchars '':'' @ [MSpaces] @ mchars ''false'',
      mchars ''traceback (most recent call last)'',
      [MBoundary] @ mchars ''exception'' @ [MSpaces] @ mchars '':'',
      [MBoundary] @ mchars ''failed'' @ [MBoundary]]"

definition ERROR_SUMMARY_LEN :: nat where "ERROR_SUMMARY_LEN = 300"

text \<open>\<open>\w\<close> on Latin-1 characters.\<close>

definition word_char :: "char \<Rightarrow> bool" where
  "word_char c =
     (let n = of_char c :: nat in
      48 \<le> n \<and> n \<le> 57 \<or> 65 \<le> n \<and> n \<le> 90 \<or> n = 95 \<or> 97 \<le> n \<and> n \<le> 122 \<or> n \<in> set [170, 178, 179, 181, 185, 186, 188, 189, 190] \<or>
      192 \<le> n \<and> n \<noteq> 215 \<and> n \<noteq> 247)"

text \<open>
  The length of the match at the start of a text, given the character before it.  Spaces are never
  followed by a piece that matches a space, so taking all of them loses nothing.
\<close>

fun match_pieces :: "marker_piece list \<Rightarrow> char option \<Rightarrow> string \<Rightarrow> nat option" where
  "match_pieces [] before s = Some 0"
| "match_pieces (MChar c # ps) before [] = None"
| "match_pieces (MChar c # ps) before (d # s) =
     (if py_lower_char d = c then map_option Suc (match_pieces ps (Some d) s) else None)"
| "match_pieces (MSpaces # ps) before s =
     (let sp = takeWhile py_isspace s in
      map_option ((+) (length sp)) (match_pieces ps (if sp = [] then before else Some (last sp)) (dropWhile py_isspace s)))"
| "match_pieces (MBoundary # ps) before s =
     (if (case before of None \<Rightarrow> False | Some c \<Rightarrow> word_char c) \<noteq> (case s of [] \<Rightarrow> False | c # _ \<Rightarrow> word_char c)
      then match_pieces ps before s else None)"

text \<open>\<open>search\<close>: start and end of the leftmost match.\<close>

fun search_pieces :: "marker_piece list \<Rightarrow> nat \<Rightarrow> char option \<Rightarrow> string \<Rightarrow> (nat \<times> nat) option" where
  "search_pieces ps k before s =
     (case match_pieces ps before s of
        Some n \<Rightarrow> Some (k, k + n)
      | None \<Rightarrow> (case s of [] \<Rightarrow> None | c # r \<Rightarrow> search_pieces ps (Suc k) (Some c) r))"

declare search_pieces.simps [simp del]

definition slice :: "nat \<Rightarrow> nat \<Rightarrow> string \<Rightarrow> string" where
  "slice a b s = take (b - a) (drop a s)"

fun first_marker :: "marker_piece list list \<Rightarrow> string \<Rightarrow> string option" where
  "first_marker [] result = None"
| "first_marker (p # ps) result =
     (case search_pieces p 0 None result of
        Some (a, b) \<Rightarrow> Some (take ERROR_SUMMARY_LEN (py_strip (slice (a - 40) (min (length result) (b + 60)) result)))
      | None \<Rightarrow> first_marker ps result)"

definition first_error_marker :: "string \<Rightarrow> string option" where
  "first_error_marker result = (if result = [] then None else first_marker ERROR_MARKERS result)"

subsection \<open>The hook\<close>

record evolution_hook =
  eh_min_tool_calls :: nat
  eh_tool_calls :: nat
  eh_request :: "string option"
  eh_final :: "string option"
  eh_viewed :: "string list"
  eh_error :: "string option"

definition SKILL_CREATION_MIN_TOOL_CALLS :: nat where "SKILL_CREATION_MIN_TOOL_CALLS = 5"
definition CURATOR_REFINE_MIN_OUTCOMES :: int where "CURATOR_REFINE_MIN_OUTCOMES = 5"

definition new_evolution :: evolution_hook where
  "new_evolution = \<lparr>eh_min_tool_calls = SKILL_CREATION_MIN_TOOL_CALLS, eh_tool_calls = 0, eh_request = None, eh_final = None,
     eh_viewed = [], eh_error = None\<rparr>"

definition evolution_on_start :: "json option \<Rightarrow> evolution_hook \<Rightarrow> evolution_hook" where
  "evolution_on_start turn_input h =
     h\<lparr>eh_tool_calls := 0, eh_final := None, eh_viewed := [], eh_error := None, eh_request := extract_user_request turn_input\<rparr>"

definition track_view :: "(string \<Rightarrow> json option) \<Rightarrow> string \<Rightarrow> evolution_hook \<Rightarrow> evolution_hook" where
  "track_view loads result h =
     (case loads result of
        Some (JObj d) \<Rightarrow>
          if \<not> truthy (py_get d ''success'') then h
          else (case py_get d ''name'' of
                  JStr n \<Rightarrow> if n \<in> set (eh_viewed h) then h else h\<lparr>eh_viewed := eh_viewed h @ [n]\<rparr>
                | _ \<Rightarrow> h)
      | _ \<Rightarrow> h)"

definition evolution_on_tool_end :: "(string \<Rightarrow> json option) \<Rightarrow> string \<Rightarrow> string \<Rightarrow> evolution_hook \<Rightarrow> evolution_hook" where
  "evolution_on_tool_end loads tool result h0 =
     (let h = h0\<lparr>eh_tool_calls := Suc (eh_tool_calls h0)\<rparr> in
      if tool = ''skill_view'' then track_view loads result h
      else if eh_viewed h \<noteq> [] \<and> eh_error h = None
      then (case first_error_marker result of None \<Rightarrow> h | Some e \<Rightarrow> h\<lparr>eh_error := Some e\<rparr>)
      else h)"

text \<open>
  The statistics of a skill are its successes and errors, \<^const>\<open>None\<close> when there is no sink or it
  raised.
\<close>

record 'st evolution_services =
  ev_stats :: "string \<Rightarrow> 'st \<Rightarrow> (int \<times> int) option"
  ev_record_outcome :: "string \<Rightarrow> bool \<Rightarrow> string option \<Rightarrow> 'st \<Rightarrow> unit result \<times> 'st"
  ev_read_md :: "string \<Rightarrow> 'st \<Rightarrow> string option result"
  ev_distill :: "json \<Rightarrow> 'st \<Rightarrow> 'st"
  ev_refine :: "json \<Rightarrow> 'st \<Rightarrow> 'st"

definition should_refine :: "'st evolution_services \<Rightarrow> evolution_hook \<Rightarrow> 'st \<Rightarrow> bool" where
  "should_refine sv h st =
     (if eh_viewed h = [] then False
      else (let marker_says_fail = (eh_error h \<noteq> None) in
        case ev_stats sv (last (eh_viewed h)) st of
          None \<Rightarrow> marker_says_fail
        | Some (successes, errors) \<Rightarrow>
            if successes + errors < CURATOR_REFINE_MIN_OUTCOMES then marker_says_fail
            else if 0 \<le> successes - errors then False else True))"

definition record_viewed_outcomes :: "'st evolution_services \<Rightarrow> evolution_hook \<Rightarrow> 'st \<Rightarrow> 'st" where
  "record_viewed_outcomes sv h st =
     fold (\<lambda>name s. snd (ev_record_outcome sv name (eh_error h = None) (eh_error h) s)) (eh_viewed h) st"

definition opt_str :: "string option \<Rightarrow> json" where
  "opt_str v = (case v of None \<Rightarrow> JNull | Some s \<Rightarrow> JStr s)"

definition distill_prompt :: "evolution_hook \<Rightarrow> json" where
  "distill_prompt h = JObj [(''user_request'', opt_str (eh_request h)), (''tool_calls_used'', JInt (int (eh_tool_calls h))),
     (''final_output_excerpt'', opt_str (eh_final h))]"

definition refine_prompt :: "string \<Rightarrow> string \<Rightarrow> evolution_hook \<Rightarrow> json" where
  "refine_prompt target md h = JObj [(''skill_name'', JStr target), (''skill_markdown'', JStr md),
     (''user_request'', opt_str (eh_request h)), (''error_summary'', opt_str (eh_error h)),
     (''final_output_excerpt'', opt_str (eh_final h))]"

definition maybe_refine_skill :: "'st evolution_services \<Rightarrow> evolution_hook \<Rightarrow> 'st \<Rightarrow> unit result \<times> 'st" where
  "maybe_refine_skill sv h st =
     (let target = last (eh_viewed h) in
      case ev_read_md sv target st of
        Inl e \<Rightarrow> (Inl e, st)
      | Inr md \<Rightarrow> (Inr (), (case md of None \<Rightarrow> st | Some s \<Rightarrow> if s = [] then st else ev_refine sv (refine_prompt target s h) st)))"

definition evolution_on_end ::
  "'st evolution_services \<Rightarrow> string option \<Rightarrow> evolution_hook \<Rightarrow> 'st \<Rightarrow> unit result \<times> evolution_hook \<times> 'st"
where
  "evolution_on_end sv output h0 st =
     (let h = h0\<lparr>eh_final := (case output of None \<Rightarrow> None | Some s \<Rightarrow> if s = [] then None else Some (take 1000 s))\<rparr>;
          st1 = record_viewed_outcomes sv h st
      in if should_refine sv h st1 then (let (r, st2) = maybe_refine_skill sv h st1 in (r, h, st2))
         else if eh_tool_calls h < eh_min_tool_calls h then (Inr (), h, st1)
         else (Inr (), h, ev_distill sv (distill_prompt h) st1))"

subsection \<open>The composite hook of an agent\<close>

record agent_hooks =
  ah_budget :: budget_hook
  ah_evolution :: evolution_hook

definition new_hooks :: "nat \<Rightarrow> agent_hooks" where
  "new_hooks m = \<lparr>ah_budget = new_budget m, ah_evolution = new_evolution\<rparr>"

definition hooks_on_start :: "json option \<Rightarrow> agent_hooks \<Rightarrow> agent_hooks" where
  "hooks_on_start turn_input a =
     a\<lparr>ah_budget := budget_on_start (ah_budget a), ah_evolution := evolution_on_start turn_input (ah_evolution a)\<rparr>"

definition hooks_on_tool_end ::
  "(turn_item list \<Rightarrow> string list result) option \<Rightarrow> 'st backend \<Rightarrow> (string \<Rightarrow> json option) \<Rightarrow> string \<Rightarrow> string \<Rightarrow> turn_input
     \<Rightarrow> agent_hooks \<Rightarrow> 'st \<Rightarrow> turn_input \<times> agent_hooks \<times> 'st"
where
  "hooks_on_tool_end conso b loads tool result ti a st =
     (let (ti', h', st') = budget_on_tool_end conso b (ti, ah_budget a, st)
      in (ti', a\<lparr>ah_budget := h', ah_evolution := evolution_on_tool_end loads tool result (ah_evolution a)\<rparr>, st'))"

definition hooks_on_end ::
  "'st evolution_services \<Rightarrow> string option \<Rightarrow> agent_hooks \<Rightarrow> 'st \<Rightarrow> unit result \<times> agent_hooks \<times> 'st"
where
  "hooks_on_end sv output a st =
     (let (r, h', st') = evolution_on_end sv output (ah_evolution a) st in (r, a\<lparr>ah_evolution := h'\<rparr>, st'))"

subsection \<open>What a run leaves in the hook\<close>

type_synonym tool_result = "string \<times> string"

text \<open>The skill a successful view names.\<close>

definition viewed_name :: "(string \<Rightarrow> json option) \<Rightarrow> tool_result \<Rightarrow> string option" where
  "viewed_name loads tr =
     (if fst tr \<noteq> ''skill_view'' then None
      else (case loads (snd tr) of
              Some (JObj d) \<Rightarrow> if truthy (py_get d ''success'') then (case py_get d ''name'' of JStr n \<Rightarrow> Some n | _ \<Rightarrow> None) else None
            | _ \<Rightarrow> None))"

text \<open>The first marker in a result after the first view.\<close>

fun error_of :: "(string \<Rightarrow> json option) \<Rightarrow> bool \<Rightarrow> tool_result list \<Rightarrow> string option" where
  "error_of loads seen [] = None"
| "error_of loads seen (tr # trs) =
     (if fst tr = ''skill_view'' then error_of loads (seen \<or> viewed_name loads tr \<noteq> None) trs
      else if seen \<and> first_error_marker (snd tr) \<noteq> None then first_error_marker (snd tr)
      else error_of loads seen trs)"

definition tools_ended :: "(string \<Rightarrow> json option) \<Rightarrow> tool_result list \<Rightarrow> evolution_hook \<Rightarrow> evolution_hook" where
  "tools_ended loads trs h = fold (\<lambda>(tool, result) h. evolution_on_tool_end loads tool result h) trs h"

text \<open>The names viewed, each where it was first viewed.\<close>

fun add_new :: "string list \<Rightarrow> string list \<Rightarrow> string list" where
  "add_new seen [] = seen"
| "add_new seen (n # ns) = add_new (if n \<in> set seen then seen else seen @ [n]) ns"

definition views_of :: "(string \<Rightarrow> json option) \<Rightarrow> tool_result list \<Rightarrow> string list" where
  "views_of loads trs = add_new [] (List.map_filter (viewed_name loads) trs)"

lemma distinct_add_new: "distinct seen \<Longrightarrow> distinct (add_new seen ns)"
  by (induction ns arbitrary: seen) auto

lemma set_add_new: "set (add_new seen ns) = set seen \<union> set ns"
  by (induction ns arbitrary: seen) auto

lemma tools_ended_state:
  "tools_ended loads trs h =
     h\<lparr>eh_tool_calls := eh_tool_calls h + length trs, eh_viewed := add_new (eh_viewed h) (List.map_filter (viewed_name loads) trs),
       eh_error := (case eh_error h of Some e \<Rightarrow> Some e | None \<Rightarrow> error_of loads (eh_viewed h \<noteq> []) trs)\<rparr>"
proof (induction trs arbitrary: h)
  case Nil
  then show ?case by (cases h) (simp add: tools_ended_def map_filter_simps split: option.split)
next
  case (Cons tr trs)
  obtain tool result where tr: "tr = (tool, result)" by fastforce
  have step: "tools_ended loads (tr # trs) h = tools_ended loads trs (evolution_on_tool_end loads tool result h)"
    by (simp add: tools_ended_def tr)
  show ?case
  proof (cases "tool = ''skill_view''")
    case True
    then have "evolution_on_tool_end loads tool result h = h\<lparr>eh_tool_calls := Suc (eh_tool_calls h),
        eh_viewed := (case viewed_name loads tr of None \<Rightarrow> eh_viewed h | Some n \<Rightarrow> if n \<in> set (eh_viewed h) then eh_viewed h else eh_viewed h @ [n])\<rparr>"
      by (cases h) (auto simp: evolution_on_tool_end_def track_view_def viewed_name_def tr split: option.split json.split)
    then show ?thesis using True unfolding step Cons.IH
      by (cases "viewed_name loads tr"; cases "eh_viewed h = []") (auto simp: tr map_filter_simps split: option.split)
  next
    case False
    then have none: "viewed_name loads tr = None" by (simp add: viewed_name_def tr)
    have "evolution_on_tool_end loads tool result h = h\<lparr>eh_tool_calls := Suc (eh_tool_calls h),
        eh_error := (if eh_viewed h \<noteq> [] \<and> eh_error h = None then first_error_marker result else eh_error h)\<rparr>"
      using False by (cases h; cases "first_error_marker result") (auto simp: evolution_on_tool_end_def Let_def)
    then show ?thesis using False unfolding step Cons.IH
      by (auto simp: tr none [unfolded tr] map_filter_simps split: option.split)
  qed
qed

subsection \<open>Properties\<close>

definition refine_due :: "string list \<Rightarrow> string option \<Rightarrow> (string \<Rightarrow> (int \<times> int) option) \<Rightarrow> bool" where
  "refine_due views error stats \<longleftrightarrow> views \<noteq> [] \<and>
     (case stats (last views) of
        None \<Rightarrow> error \<noteq> None
      | Some (good, bad) \<Rightarrow> if good + bad < 5 then error \<noteq> None else good < bad)"

lemma should_refine_iff: "should_refine sv h st \<longleftrightarrow> refine_due (eh_viewed h) (eh_error h) (\<lambda>n. ev_stats sv n st)"
  by (auto simp: should_refine_def refine_due_def CURATOR_REFINE_MIN_OUTCOMES_def Let_def split: option.splits)

text \<open>
  C30. The end of a run: every skill it viewed gets exactly one outcome, bad if and only if a result after
  the first view shows an error; then one side agent runs at most: the refiner on the skill viewed last,
  when that skill's history, or for lack of history the run, failed, or else the distiller when the run
  made enough tool calls.
\<close>

theorem evolution_run_exact:
  fixes sv :: "'st evolution_services" and loads :: "string \<Rightarrow> json option" and trs :: "tool_result list"
  defines "views \<equiv> views_of loads trs" and "error \<equiv> error_of loads False trs"
  shows "\<exists>h' st1. distinct views \<and>
    st1 = fold (\<lambda>n s. snd (ev_record_outcome sv n (error = None) error s)) views st \<and>
    eh_tool_calls h' = length trs \<and> eh_request h' = extract_user_request turn_input \<and>
    evolution_on_end sv output (tools_ended loads trs (evolution_on_start turn_input h)) st =
      (if refine_due views error (\<lambda>n. ev_stats sv n st1)
       then (case ev_read_md sv (last views) st1 of
               Inl e \<Rightarrow> (Inl e, h', st1)
             | Inr (Some (c # cs)) \<Rightarrow> (Inr (), h', ev_refine sv (refine_prompt (last views) (c # cs) h') st1)
             | Inr _ \<Rightarrow> (Inr (), h', st1))
       else (Inr (), h', if length trs < eh_min_tool_calls h then st1 else ev_distill sv (distill_prompt h') st1))"
proof -
  let ?h0 = "tools_ended loads trs (evolution_on_start turn_input h)"
  define h1 where "h1 = ?h0\<lparr>eh_final := (case output of None \<Rightarrow> None | Some s \<Rightarrow> if s = [] then None else Some (take 1000 s))\<rparr>"
  have f: "eh_viewed h1 = views" "eh_error h1 = error" "eh_tool_calls h1 = length trs"
    "eh_request h1 = extract_user_request turn_input" "eh_min_tool_calls h1 = eh_min_tool_calls h"
    unfolding h1_def tools_ended_state by (simp_all add: evolution_on_start_def views_def error_def views_of_def)
  define st1 where "st1 = record_viewed_outcomes sv h1 st"
  have "distinct views" unfolding views_def views_of_def by (rule distinct_add_new) simp
  moreover have "st1 = fold (\<lambda>n s. snd (ev_record_outcome sv n (error = None) error s)) views st"
    by (simp only: st1_def record_viewed_outcomes_def f)
  moreover have "evolution_on_end sv output ?h0 st =
      (if refine_due views error (\<lambda>n. ev_stats sv n st1)
       then (case ev_read_md sv (last views) st1 of
               Inl e \<Rightarrow> (Inl e, h1, st1)
             | Inr (Some (c # cs)) \<Rightarrow> (Inr (), h1, ev_refine sv (refine_prompt (last views) (c # cs) h1) st1)
             | Inr _ \<Rightarrow> (Inr (), h1, st1))
       else (Inr (), h1, if length trs < eh_min_tool_calls h then st1 else ev_distill sv (distill_prompt h1) st1))"
    unfolding evolution_on_end_def Let_def h1_def [symmetric] st1_def [symmetric] should_refine_iff maybe_refine_skill_def f
    by (simp split: sum.split option.split list.split)
  ultimately show ?thesis using f(3,4) by blast
qed

text \<open>
  A skill document that cannot be read when the refiner is due makes the hook raise, although nothing
  in it is to break the user's run.
\<close>

theorem evolution_read_breaks_run:
  assumes "refine_due (eh_viewed h) (eh_error h) (\<lambda>n. ev_stats sv n (record_viewed_outcomes sv h st))"
    and "ev_read_md sv (last (eh_viewed h)) (record_viewed_outcomes sv h st) = Inl e"
  shows "fst (evolution_on_end sv output h st) = Inl e"
proof -
  let ?h = "h\<lparr>eh_final := (case output of None \<Rightarrow> None | Some s \<Rightarrow> if s = [] then None else Some (take 1000 s))\<rparr>"
  have f: "eh_viewed ?h = eh_viewed h" "eh_error ?h = eh_error h" by simp_all
  have "record_viewed_outcomes sv ?h st = record_viewed_outcomes sv h st" by (simp only: record_viewed_outcomes_def f)
  with assms show ?thesis
    unfolding evolution_on_end_def Let_def should_refine_iff maybe_refine_skill_def f by simp
qed

text \<open>
  The command line keeps one agent, and with it one hook, for all conversations: when run B starts after
  run A and views a skill, an error in a result of A is recorded against B's skill, which B alone would
  have recorded as a success.
\<close>

theorem shared_evolution_blames_other:
  assumes "viewed_name loads trB = Some y" and "fst trA \<noteq> ''skill_view''" and "first_error_marker (snd trA) = Some e"
  shows "record_viewed_outcomes sv (tools_ended loads [trB, trA] (evolution_on_start tiB (evolution_on_start tiA h))) st =
      snd (ev_record_outcome sv y False (Some e) st)"
    and "record_viewed_outcomes sv (tools_ended loads [trB] (evolution_on_start tiB h)) st =
      snd (ev_record_outcome sv y True None st)"
proof -
  have B: "fst trB = ''skill_view''" using assms(1) by (auto simp: viewed_name_def split: if_splits)
  have A: "viewed_name loads trA = None" using assms(2) by (simp add: viewed_name_def)
  show "record_viewed_outcomes sv (tools_ended loads [trB, trA] (evolution_on_start tiB (evolution_on_start tiA h))) st =
      snd (ev_record_outcome sv y False (Some e) st)"
    unfolding tools_ended_state using assms A B
    by (simp add: record_viewed_outcomes_def evolution_on_start_def map_filter_simps)
  show "record_viewed_outcomes sv (tools_ended loads [trB] (evolution_on_start tiB h)) st =
      snd (ev_record_outcome sv y True None st)"
    unfolding tools_ended_state using assms(1) B
    by (simp add: record_viewed_outcomes_def evolution_on_start_def map_filter_simps)
qed

definition logging_services :: "(string \<times> bool) list evolution_services" where
  "logging_services = \<lparr>ev_stats = (\<lambda>n st. None), ev_record_outcome = (\<lambda>n ok e st. (Inr (), (n, ok) # st)),
     ev_read_md = (\<lambda>n st. Inl ValueError), ev_distill = (\<lambda>p st. st), ev_refine = (\<lambda>p st. st)\<rparr>"

definition view_reply :: "string \<Rightarrow> json option" where
  "view_reply s = Some (JObj [(''success'', JBool True), (''name'', JStr ''y'')])"

lemma failed_marker: "first_error_marker ''failed'' = Some ''failed''"
  by (simp add: first_error_marker_def ERROR_MARKERS_def mchars_def search_pieces.simps py_lower_char_def word_char_def
      slice_def py_strip_def py_isspace_def ERROR_SUMMARY_LEN_def)

theorem evolution_read_breaks_run_witness:
  "fst (evolution_on_end logging_services None (new_evolution\<lparr>eh_viewed := [''y''], eh_error := Some ''failed''\<rparr>) []) = Inl ValueError"
  by (rule evolution_read_breaks_run) (simp_all add: refine_due_def logging_services_def)

theorem shared_evolution_blames_other_witness:
  "record_viewed_outcomes logging_services
     (tools_ended view_reply [(''skill_view'', []), (''shell'', ''failed'')]
       (evolution_on_start None (evolution_on_start None new_evolution))) [] = [(''y'', False)]"
proof -
  have y: "viewed_name view_reply (''skill_view'', []) = Some ''y''" by (simp add: viewed_name_def view_reply_def py_get_def)
  have "record_viewed_outcomes logging_services
     (tools_ended view_reply [(''skill_view'', []), (''shell'', ''failed'')]
       (evolution_on_start None (evolution_on_start None new_evolution))) [] =
     snd (ev_record_outcome logging_services ''y'' False (Some ''failed'') [])"
    by (rule shared_evolution_blames_other(1) [OF y]) (simp_all add: failed_marker)
  then show ?thesis unfolding logging_services_def by simp
qed

end
