(* ===== verification/Local_Runner.thy ===== *)
theory Local_Runner
  imports Evolution_Hook Permission_Broker
begin

text \<open>
  \<open>api.py\<close>, \<open>core/\<close> and \<open>build_agent\<close> of \<open>agent/factory.py\<close>: the runs of the command line.  What an
  attempt of the agent gives is an argument, a value or the attributes of the exception it raises;
  so is the writer of JSON that renders the arguments of a tool call.  The filter of a policy is that of
  \<open>Permission_Broker\<close>, and a tool is its name.
\<close>

subsection \<open>Permissions\<close>

definition VALID_MODES :: "string list" where "VALID_MODES = [''auto'', ''ask'', ''ro'']"

record permission_policy =
  pp_mode :: string
  pp_allowed :: "string list"
  pp_denied :: "string list"

definition normalize_mode :: "string \<Rightarrow> string option" where
  "normalize_mode raw =
     (let lower = py_lower (py_strip raw) in
      if lower \<in> set [''ro'', ''read-only'', ''readonly''] then Some ''ro''
      else if lower \<in> set VALID_MODES then Some lower
      else None)"

type_synonym policies = "(string \<times> permission_policy) list"

definition set_policy :: "string \<Rightarrow> permission_policy \<Rightarrow> policies \<Rightarrow> policies" where
  "set_policy k p ps = dict_set k p ps"

definition get_policy :: "string \<Rightarrow> policies \<Rightarrow> permission_policy option" where
  "get_policy k ps = dict_get ps k"

definition clear_policy :: "string \<Rightarrow> policies \<Rightarrow> policies" where
  "clear_policy k ps = filter (\<lambda>(k', _). k' \<noteq> k) ps"

subsection \<open>Session keys\<close>

definition build_session_key :: "string \<Rightarrow> string \<Rightarrow> string \<Rightarrow> string option \<Rightarrow> string" where
  "build_session_key platform chat_type chat_id thread_id =
     (let base = ''agent:main:'' @ platform @ '':'' @ chat_type @ '':'' @ chat_id
      in case thread_id of None \<Rightarrow> base | Some t \<Rightarrow> base @ '':'' @ t)"

subsection \<open>The agent\<close>

record agent_config =
  cf_model :: string
  cf_max_turns :: nat
  cf_web_search :: bool

record local_agent =
  la_tools :: "string list"
  la_hooks :: agent_hooks

definition build_agent :: "agent_config \<Rightarrow> permission_policy option \<Rightarrow> local_agent" where
  "build_agent cfg policy =
     (let tools = [''memory'', ''memory_search'', ''session_search'', ''skill_manage'', ''skill_view'', ''cron_manage''] @
            (if cf_web_search cfg then [''web_search''] else [])
      in \<lparr>la_tools = (case policy of None \<Rightarrow> tools | Some p \<Rightarrow> filter_tools (pp_mode p) (\<lambda>t. t) tools), la_hooks = new_hooks (cf_max_turns cfg)\<rparr>)"

text \<open>Only a read-only policy rebuilds the agent of a streamed turn; \<open>run_turn\<close> always uses the cached one.\<close>

definition effective_agent :: "agent_config \<Rightarrow> local_agent \<Rightarrow> permission_policy option \<Rightarrow> local_agent" where
  "effective_agent cfg agent policy =
     (case policy of
        Some p \<Rightarrow> if pp_mode p = ''ro'' then build_agent cfg (Some p) else agent
      | None \<Rightarrow> agent)"

subsection \<open>A turn with retries\<close>

definition MAX_RUN_ATTEMPTS :: nat where "MAX_RUN_ATTEMPTS = 3"

text \<open>Seconds.\<close>

definition retry_delay :: "nat \<Rightarrow> nat" where
  "retry_delay attempt = 1 * 4 ^ (attempt - 1)"

function run_from :: "(nat \<Rightarrow> raised + 'r) \<Rightarrow> nat \<Rightarrow> (raised + 'r) \<times> nat list" where
  "run_from attempts k =
     (case attempts k of
        Inr r \<Rightarrow> (Inr r, [])
      | Inl e \<Rightarrow>
          if ce_retryable (classify e) \<and> k < MAX_RUN_ATTEMPTS
          then (let (out, delays) = run_from attempts (Suc k) in (out, retry_delay k # delays))
          else (Inl e, []))"
  by pat_completeness auto
termination
  by (relation "measure (\<lambda>(_, k). MAX_RUN_ATTEMPTS - k)") auto

declare run_from.simps [simp del]

datatype run_item = Tool_Call | Tool_Output | Other_Item

record sdk_answer =
  aa_final_output :: pystr
  aa_new_items :: "run_item list"
  aa_raw_responses :: nat

record run_summary =
  rs_final_output :: pystr
  rs_session_key :: string
  rs_turn_count :: nat
  rs_tool_calls :: nat
  rs_input_tokens :: "int option"
  rs_output_tokens :: "int option"
  rs_total_tokens :: "int option"

text \<open>The attempts of a turn, given the bound on its turns and the agent.\<close>

definition local_run_turn ::
  "agent_config \<Rightarrow> local_agent \<Rightarrow> (local_agent \<Rightarrow> nat \<Rightarrow> nat \<Rightarrow> raised + sdk_answer) \<Rightarrow> string \<Rightarrow> nat option
     \<Rightarrow> (raised + run_summary) \<times> nat list"
where
  "local_run_turn cfg agent run key max_turns =
     (let turns = (case max_turns of Some (Suc n) \<Rightarrow> Suc n | _ \<Rightarrow> cf_max_turns cfg);
          (out, delays) = run_from (run agent turns) 1
      in (case out of
            Inl e \<Rightarrow> Inl e
          | Inr r \<Rightarrow> Inr \<lparr>rs_final_output = aa_final_output r, rs_session_key = key, rs_turn_count = aa_raw_responses r,
              rs_tool_calls = length (filter (\<lambda>i. i = Tool_Call) (aa_new_items r)),
              rs_input_tokens = None, rs_output_tokens = None, rs_total_tokens = None\<rparr>, delays))"

subsection \<open>A streamed turn\<close>

record usage_counts =
  uc_input :: int
  uc_output :: int
  uc_total :: int

record raw_item =
  ri_name :: "string option"
  ri_type :: "string option"
  ri_arguments :: "json option"
  ri_input :: "json option"

datatype sdk_event =
    Text_Delta pystr
  | Completed "usage_counts option"
  | Other_Raw
  | Call_Item raw_item
  | Output_Item raw_item pystr
  | Other_Run_Item
  | Agent_Updated

record stream_counters =
  sc_tool_calls :: nat
  sc_input_tokens :: int
  sc_output_tokens :: int
  sc_total_tokens :: int
  sc_saw_usage :: bool

definition no_counts :: stream_counters where
  "no_counts = \<lparr>sc_tool_calls = 0, sc_input_tokens = 0, sc_output_tokens = 0, sc_total_tokens = 0, sc_saw_usage = False\<rparr>"

definition accumulate_usage :: "usage_counts option \<Rightarrow> stream_counters \<Rightarrow> stream_counters" where
  "accumulate_usage usage c =
     (case usage of
        None \<Rightarrow> c
      | Some u \<Rightarrow> c\<lparr>sc_saw_usage := True, sc_input_tokens := sc_input_tokens c + uc_input u,
          sc_output_tokens := sc_output_tokens c + uc_output u, sc_total_tokens := sc_total_tokens c + uc_total u\<rparr>)"

text \<open>A null attribute reads as an absent one.\<close>

definition tool_call_descriptor :: "(json \<Rightarrow> string) \<Rightarrow> raw_item \<Rightarrow> string \<times> string" where
  "tool_call_descriptor render r =
     (let name = or_else (ri_name r) (or_else (ri_type r) ''tool'');
          args = (case ri_arguments r of Some a \<Rightarrow> a | None \<Rightarrow> (case ri_input r of Some a \<Rightarrow> a | None \<Rightarrow> JStr []))
      in (name, case args of JStr s \<Rightarrow> s | _ \<Rightarrow> render args))"

datatype stream_event = Delta pystr | ToolCall string string | ToolOutput string pystr | Done run_summary

fun process_stream_event :: "(json \<Rightarrow> string) \<Rightarrow> sdk_event \<Rightarrow> stream_counters \<Rightarrow> stream_event list \<times> stream_counters" where
  "process_stream_event render (Text_Delta t) c = (if t = [] then [] else [Delta t], c)"
| "process_stream_event render (Completed u) c = ([], accumulate_usage u c)"
| "process_stream_event render Other_Raw c = ([], c)"
| "process_stream_event render (Call_Item r) c =
     (let (name, args) = tool_call_descriptor render r in ([ToolCall name args], c\<lparr>sc_tool_calls := Suc (sc_tool_calls c)\<rparr>))"
| "process_stream_event render (Output_Item r out) c = ([ToolOutput (fst (tool_call_descriptor render r)) out], c)"
| "process_stream_event render Other_Run_Item c = ([], c)"
| "process_stream_event render Agent_Updated c = ([], c)"

fun stream_all :: "(json \<Rightarrow> string) \<Rightarrow> sdk_event list \<Rightarrow> stream_counters \<Rightarrow> stream_event list \<times> stream_counters" where
  "stream_all render [] c = ([], c)"
| "stream_all render (e # es) c =
     (let (out, c1) = process_stream_event render e c; (rest, c2) = stream_all render es c1 in (out @ rest, c2))"

text \<open>
  What the runner does: it raises while it is set up, or it streams events and then raises or ends
  with a final output, \<^const>\<open>None\<close> if reading that raises, and a number of responses.
\<close>

datatype sdk_run = Setup_Failed raised | Streamed "sdk_event list" "raised + (pystr option \<times> nat)"

definition run_turn_streaming :: "(json \<Rightarrow> string) \<Rightarrow> string \<Rightarrow> sdk_run \<Rightarrow> stream_event list \<times> (raised + unit)" where
  "run_turn_streaming render key run =
     (case run of
        Setup_Failed e \<Rightarrow> ([], Inl e)
      | Streamed events ending \<Rightarrow>
          (let (out, c) = stream_all render events no_counts in
           case ending of
             Inl e \<Rightarrow> (out, Inl e)
           | Inr (final, responses) \<Rightarrow>
               (let some = (\<lambda>n. if sc_saw_usage c then Some n else None) in
                (out @ [Done \<lparr>rs_final_output = (case final of None \<Rightarrow> [] | Some t \<Rightarrow> t), rs_session_key = key,
                   rs_turn_count = responses, rs_tool_calls = sc_tool_calls c,
                   rs_input_tokens = some (sc_input_tokens c), rs_output_tokens = some (sc_output_tokens c),
                   rs_total_tokens = some (sc_total_tokens c)\<rparr>], Inr ()))))"

definition search_limit :: "int \<Rightarrow> int" where
  "search_limit limit = min (max 1 limit) 50"

subsection \<open>Properties\<close>

lemma run_from_exact:
  assumes "1 \<le> k" and "k \<le> MAX_RUN_ATTEMPTS"
  shows "\<exists>n. k \<le> n \<and> n \<le> MAX_RUN_ATTEMPTS \<and> run_from attempts k = (attempts n, map retry_delay [k..<n]) \<and>
    (\<forall>j. k \<le> j \<and> j < n \<longrightarrow> (\<exists>e. attempts j = Inl e \<and> kind_of e \<in> {RateLimit, Network})) \<and>
    (n < MAX_RUN_ATTEMPTS \<longrightarrow> (\<forall>e. attempts n = Inl e \<longrightarrow> kind_of e \<notin> {RateLimit, Network}))"
  using assms
proof (induction attempts k rule: run_from.induct)
  case (1 attempts k)
  show ?case
  proof (cases "\<exists>e. attempts k = Inl e \<and> kind_of e \<in> {RateLimit, Network} \<and> k < MAX_RUN_ATTEMPTS")
    case True
    then obtain e where e: "attempts k = Inl e" "kind_of e \<in> {RateLimit, Network}" "k < MAX_RUN_ATTEMPTS" by blast
    then have c: "ce_retryable (classify e) \<and> k < MAX_RUN_ATTEMPTS" by (simp add: classify_def)
    obtain n where n: "Suc k \<le> n" "n \<le> MAX_RUN_ATTEMPTS" "run_from attempts (Suc k) = (attempts n, map retry_delay [Suc k..<n])"
      "\<forall>j. Suc k \<le> j \<and> j < n \<longrightarrow> (\<exists>e. attempts j = Inl e \<and> kind_of e \<in> {RateLimit, Network})"
      "n < MAX_RUN_ATTEMPTS \<longrightarrow> (\<forall>e. attempts n = Inl e \<longrightarrow> kind_of e \<notin> {RateLimit, Network})"
      using "1.IH" [OF e(1) c] e(3) by auto
    have "run_from attempts k = (attempts n, map retry_delay [k..<n])"
      using n(1,3) c by (simp add: run_from.simps [of attempts k] e(1) upt_conv_Cons)
    moreover have "\<exists>e. attempts j = Inl e \<and> kind_of e \<in> {RateLimit, Network}" if "k \<le> j" "j < n" for j
      using that n(4) e by (cases "j = k") auto
    ultimately show ?thesis using n(1,2,5) by (intro exI [of _ n]) auto
  next
    case False
    then have "run_from attempts k = (attempts k, [])"
      by (auto simp: run_from.simps [of attempts k] classify_def split: sum.split)
    then show ?thesis using False "1.prems" by (intro exI [of _ k]) auto
  qed
qed

text \<open>
  C31. A turn makes at most three attempts: each but the last failed with a rate limit or network error, the
  last one's outcome is the turn's, the waits are the first of one and four seconds, and it stops before
  the third only on an answer or another failure.
\<close>

theorem local_turn_retries:
  fixes max_turns :: "nat option" and cfg :: agent_config
  defines "turns \<equiv> (case max_turns of Some (Suc n) \<Rightarrow> Suc n | _ \<Rightarrow> cf_max_turns cfg)"
  shows "\<exists>n. 1 \<le> n \<and> n \<le> 3 \<and> snd (local_run_turn cfg agent run key max_turns) = take (n - 1) [1, 4] \<and>
    (case run agent turns n of
       Inl e \<Rightarrow> fst (local_run_turn cfg agent run key max_turns) = Inl e
     | Inr r \<Rightarrow> \<exists>s. fst (local_run_turn cfg agent run key max_turns) = Inr s \<and> rs_final_output s = aa_final_output r \<and> rs_session_key s = key) \<and>
    (\<forall>j. 1 \<le> j \<and> j < n \<longrightarrow> (\<exists>e. run agent turns j = Inl e \<and> kind_of e \<in> {RateLimit, Network})) \<and>
    (n < 3 \<longrightarrow> (\<forall>e. run agent turns n = Inl e \<longrightarrow> kind_of e \<notin> {RateLimit, Network}))"
proof -
  from run_from_exact [of 1 "run agent turns"] obtain n where n: "1 \<le> n" "n \<le> 3"
    "run_from (run agent turns) 1 = (run agent turns n, map retry_delay [1..<n])"
    "\<forall>j. 1 \<le> j \<and> j < n \<longrightarrow> (\<exists>e. run agent turns j = Inl e \<and> kind_of e \<in> {RateLimit, Network})"
    "n < 3 \<longrightarrow> (\<forall>e. run agent turns n = Inl e \<longrightarrow> kind_of e \<notin> {RateLimit, Network})"
    by (auto simp: MAX_RUN_ATTEMPTS_def)
  have "n = 1 \<or> n = 2 \<or> n = 3" using n(1,2) by arith
  then have "map retry_delay [1..<n] = take (n - 1) [1, 4]"
    by (auto simp: retry_delay_def upt_rec)
  moreover have "snd (local_run_turn cfg agent run key max_turns) = map retry_delay [1..<n]"
    using n(3) by (simp add: local_run_turn_def turns_def [symmetric] Let_def)
  moreover have "case run agent turns n of
       Inl e \<Rightarrow> fst (local_run_turn cfg agent run key max_turns) = Inl e
     | Inr r \<Rightarrow> \<exists>s. fst (local_run_turn cfg agent run key max_turns) = Inr s \<and> rs_final_output s = aa_final_output r \<and> rs_session_key s = key"
    using n(3) by (simp add: local_run_turn_def turns_def [symmetric] Let_def split: sum.split)
  ultimately show ?thesis using n by (intro exI [of _ n]) simp
qed

definition busy :: raised where
  "busy = \<lparr>ex_instance_of = [RateLimitError], ex_code = None, ex_message = None, ex_str = [], ex_class_name = []\<rparr>"

definition some_local_agent :: local_agent where
  "some_local_agent = build_agent \<lparr>cf_model = [], cf_max_turns = 90, cf_web_search = True\<rparr> None"

theorem local_turn_retries_witness:
  "snd (local_run_turn \<lparr>cf_model = [], cf_max_turns = 90, cf_web_search = True\<rparr> some_local_agent
     (\<lambda>a turns k. if k = 1 then Inl busy else Inr \<lparr>aa_final_output = [], aa_new_items = [], aa_raw_responses = 1\<rparr>) ''k'' None) = [1]"
proof -
  have busy: "kind_of busy = RateLimit" by (simp add: kind_of_def busy_def DISPATCH_def)
  let ?run = "\<lambda>(a :: local_agent) (turns :: nat) (k :: nat).
    if k = 1 then Inl busy else Inr \<lparr>aa_final_output = [], aa_new_items = [], aa_raw_responses = 1\<rparr>"
  obtain n where n: "1 \<le> n" "n \<le> 3"
    "snd (local_run_turn \<lparr>cf_model = [], cf_max_turns = 90, cf_web_search = True\<rparr> some_local_agent ?run ''k'' None) = take (n - 1) [1, 4]"
    "\<forall>j. 1 \<le> j \<and> j < n \<longrightarrow> (\<exists>e. ?run some_local_agent 90 j = Inl e \<and> kind_of e \<in> {RateLimit, Network})"
    "n < 3 \<longrightarrow> (\<forall>e. ?run some_local_agent 90 n = Inl e \<longrightarrow> kind_of e \<notin> {RateLimit, Network})"
    using local_turn_retries [of "\<lparr>cf_model = [], cf_max_turns = 90, cf_web_search = True\<rparr>" some_local_agent ?run "''k''" None] by auto
  have "n \<noteq> 1" using n(5) busy by auto
  moreover have "n \<noteq> 3" using n(4) by (auto dest: spec [of _ 2])
  ultimately have "n = 2" using n(1,2) by arith
  with n(3) show ?thesis by simp
qed

lemma stream_all_counts:
  "snd (stream_all render es c) =
     \<lparr>sc_tool_calls = sc_tool_calls c + length (filter (\<lambda>e. \<exists>r. e = Call_Item r) es),
      sc_input_tokens = sc_input_tokens c + sum_list (map uc_input (List.map_filter (\<lambda>e. case e of Completed u \<Rightarrow> u | _ \<Rightarrow> None) es)),
      sc_output_tokens = sc_output_tokens c + sum_list (map uc_output (List.map_filter (\<lambda>e. case e of Completed u \<Rightarrow> u | _ \<Rightarrow> None) es)),
      sc_total_tokens = sc_total_tokens c + sum_list (map uc_total (List.map_filter (\<lambda>e. case e of Completed u \<Rightarrow> u | _ \<Rightarrow> None) es)),
      sc_saw_usage = (sc_saw_usage c \<or> (\<exists>u. Completed (Some u) \<in> set es))\<rparr>"
proof (induction es arbitrary: c)
  case (Cons e es)
  obtain out c1 where p: "process_stream_event render e c = (out, c1)" by fastforce
  have "snd (stream_all render (e # es) c) = snd (stream_all render es c1)"
    by (simp add: p split: prod.split)
  then show ?case using p
    by (cases e; cases c) (auto simp: Cons.IH map_filter_simps accumulate_usage_def Let_def split: prod.splits option.splits)
qed (simp add: map_filter_simps)

definition delta_text :: "stream_event \<Rightarrow> pystr" where
  "delta_text e = (case e of Delta t \<Rightarrow> t | _ \<Rightarrow> [])"

lemma stream_all_text:
  "concat (map delta_text (fst (stream_all render es c))) = concat (map (\<lambda>e. case e of Text_Delta t \<Rightarrow> t | _ \<Rightarrow> []) es)"
proof (induction es arbitrary: c)
  case (Cons e es)
  obtain out c1 where p: "process_stream_event render e c = (out, c1)" by fastforce
  have "fst (stream_all render (e # es) c) = out @ fst (stream_all render es c1)"
    by (simp add: p split: prod.split)
  moreover have "concat (map delta_text out) = (case e of Text_Delta t \<Rightarrow> t | _ \<Rightarrow> [])"
    using p by (cases e) (auto simp: delta_text_def split: prod.splits if_splits)
  ultimately show ?case by (simp add: Cons.IH)
qed simp

lemma stream_all_done: "Done s \<notin> set (fst (stream_all render es c))"
proof (induction es arbitrary: c)
  case (Cons e es)
  obtain out c1 where p: "process_stream_event render e c = (out, c1)" by fastforce
  have "fst (stream_all render (e # es) c) = out @ fst (stream_all render es c1)"
    by (simp add: p split: prod.split)
  moreover have "Done s \<notin> set out" using p by (cases e) (auto split: prod.splits if_splits)
  ultimately show ?case by (simp add: Cons.IH)
qed simp

text \<open>
  A streamed turn shows all of the model's text in order; if it completes, its last event and only that
  one is the summary, with the number of tool calls announced and the sums of the usage reported, or no
  usage when none was; and if it fails, no summary is sent.
\<close>

theorem local_stream_exact:
  fixes events :: "sdk_event list"
  defines "usages \<equiv> List.map_filter (\<lambda>e. case e of Completed u \<Rightarrow> u | _ \<Rightarrow> None) events"
  shows "concat (map delta_text (fst (run_turn_streaming render key (Streamed events ending)))) =
      concat (map (\<lambda>e. case e of Text_Delta t \<Rightarrow> t | _ \<Rightarrow> []) events) \<and>
    (case ending of
       Inl e \<Rightarrow> snd (run_turn_streaming render key (Streamed events ending)) = Inl e \<and>
         (\<forall>s. Done s \<notin> set (fst (run_turn_streaming render key (Streamed events ending))))
     | Inr (final, responses) \<Rightarrow>
         (\<exists>pre s. run_turn_streaming render key (Streamed events ending) = (pre @ [Done s], Inr ()) \<and> (\<forall>s'. Done s' \<notin> set pre) \<and>
            rs_tool_calls s = length (filter (\<lambda>e. \<exists>r. e = Call_Item r) events) \<and> rs_turn_count s = responses \<and>
            rs_total_tokens s = (if usages = [] then None else Some (sum_list (map uc_total usages))) \<and>
            rs_input_tokens s = (if usages = [] then None else Some (sum_list (map uc_input usages)))))"
proof -
  obtain out c where sa: "stream_all render events no_counts = (out, c)" by fastforce
  have shown: "concat (map delta_text out) = concat (map (\<lambda>e. case e of Text_Delta t \<Rightarrow> t | _ \<Rightarrow> []) events)"
    using stream_all_text [of render events no_counts] by (simp add: sa)
  have noD: "\<forall>s. Done s \<notin> set out" using stream_all_done [of _ render events no_counts] by (simp add: sa)
  have saw: "usages \<noteq> [] \<longleftrightarrow> (\<exists>u. Completed (Some u) \<in> set events)"
    unfolding usages_def by (induction events) (auto simp: map_filter_simps split: sdk_event.splits option.splits)
  have c: "c = \<lparr>sc_tool_calls = length (filter (\<lambda>e. \<exists>r. e = Call_Item r) events),
      sc_input_tokens = sum_list (map uc_input usages), sc_output_tokens = sum_list (map uc_output usages),
      sc_total_tokens = sum_list (map uc_total usages), sc_saw_usage = (usages \<noteq> [])\<rparr>"
  proof -
    have "c = snd (stream_all render events no_counts)" by (simp add: sa)
    then show ?thesis unfolding stream_all_counts by (simp add: no_counts_def saw usages_def [symmetric])
  qed
  show ?thesis
  proof (cases ending)
    case (Inl e)
    then show ?thesis using shown noD by (simp add: run_turn_streaming_def sa)
  next
    case (Inr fr)
    obtain final responses where fr: "fr = (final, responses)" by fastforce
    show ?thesis using shown noD by (simp add: Inr fr run_turn_streaming_def sa c delta_text_def Let_def)
  qed
qed

text \<open>
  In read-only mode no write tool is offered to the model, and yet a run of at least five tool calls that
  viewed no skill still ends with the distiller, whose tool is \<open>skill_manage\<close>, free to change the
  tenant's skills.
\<close>

theorem read_only_still_distills:
  assumes "pp_mode p = ''ro''" and "5 \<le> length trs" and "views_of loads trs = []"
  shows "set (la_tools (effective_agent cfg agent (Some p))) \<inter> set WRITE_TOOL_NAMES = {}"
    and "\<exists>prompt h. evolution_on_end sv final
      (tools_ended loads trs (evolution_on_start ti (ah_evolution (la_hooks (effective_agent cfg agent (Some p)))))) st =
        (Inr (), h, ev_distill sv prompt st)"
proof -
  show "set (la_tools (effective_agent cfg agent (Some p))) \<inter> set WRITE_TOOL_NAMES = {}"
    using assms(1) by (auto simp: effective_agent_def build_agent_def Let_def filter_tools_def is_tool_allowed_def)
  let ?h = "tools_ended loads trs (evolution_on_start ti (ah_evolution (la_hooks (effective_agent cfg agent (Some p)))))"
  have h: "eh_viewed ?h = []" "eh_tool_calls ?h = length trs" "eh_min_tool_calls ?h = 5"
    using assms by (simp_all add: tools_ended_state evolution_on_start_def views_of_def effective_agent_def build_agent_def Let_def
        new_hooks_def new_evolution_def SKILL_CREATION_MIN_TOOL_CALLS_def)
  then show "\<exists>prompt h. evolution_on_end sv final ?h st = (Inr (), h, ev_distill sv prompt st)"
    using assms(2) by (simp add: evolution_on_end_def Let_def should_refine_def record_viewed_outcomes_def) blast
qed

theorem read_only_still_distills_witness:
  "\<exists>prompt h. evolution_on_end (logging_services\<lparr>ev_distill := \<lambda>p st. (''distilled'', True) # st\<rparr>) None
      (tools_ended view_reply (replicate 5 (''web_search'', [])) (evolution_on_start None
        (ah_evolution (la_hooks (effective_agent \<lparr>cf_model = [], cf_max_turns = 90, cf_web_search = True\<rparr>
          (build_agent \<lparr>cf_model = [], cf_max_turns = 90, cf_web_search = True\<rparr> None)
          (Some \<lparr>pp_mode = ''ro'', pp_allowed = [], pp_denied = []\<rparr>)))))) [] = (Inr (), h, [(''distilled'', True)])"
proof -
  have v: "views_of view_reply (replicate 5 (''web_search'', [])) = []"
    by (simp add: views_of_def map_filter_simps viewed_name_def numeral_eq_Suc)
  show ?thesis
    using read_only_still_distills(2) [where p = "\<lparr>pp_mode = ''ro'', pp_allowed = [], pp_denied = []\<rparr>"
        and trs = "replicate 5 (''web_search'', [])" and loads = view_reply and st = "[]" and final = None and ti = None
        and sv = "logging_services\<lparr>ev_distill := \<lambda>p st. (''distilled'', True) # st\<rparr>"
        and cfg = "\<lparr>cf_model = [], cf_max_turns = 90, cf_web_search = True\<rparr>"
        and agent = "build_agent \<lparr>cf_model = [], cf_max_turns = 90, cf_web_search = True\<rparr> None", OF _ _ v]
    by simp
qed

text \<open>A chat id with a colon makes two conversations share a key.\<close>

theorem session_key_ambiguous:
  "build_session_key p c (i @ '':'' @ t) None = build_session_key p c i (Some t)"
  by (simp add: build_session_key_def)

end
