(* ===== verification/Skill_Backend.thy ===== *)
theory Skill_Backend
  imports Local_Runner
begin

text \<open>
  The skill tool and its two backends, part one: what they share (\<open>skills/_slug.py\<close>,
  \<open>agent/backends/skill.py\<close>), the backend of the service (\<open>agent/backends/skill_cloud.py\<close>) and the tool
  (\<open>skills/manage_tool.py\<close>, \<open>skills/view_tool.py\<close>).  YAML is the pair of arguments \<open>yaml\<close>, which reads, and \<open>dump\<close>,
  which writes.  An error message is a constructor that names it.
\<close>

subsection \<open>Answers and operations\<close>

datatype skill_refusal =
    Name_Required
  | Invalid_Name string
  | Already_Exists string
  | Does_Not_Exist string
  | Not_Found string
  | Frontmatter_Needed
  | Frontmatter_Missing
  | Strings_Required
  | Old_String_Not_Found
  | Old_String_Matches nat
  | Frontmatter_Broken
  | Unsafe_Text
  | Path_And_Content_Required
  | Path_Required
  | Path_Escapes
  | Null_In_Path
  | Not_Supported

datatype skill_answer = Done_Ok | Done_Path string | Done_List "string list" | Refused skill_refusal

datatype skill_op = Create string | Patch string string | Edit string | Delete | Write_File string string | Remove_File string

text \<open>\<open>^[a-z0-9][a-z0-9_-]{0,63}$\<close> with \<open>match\<close>: the dollar also matches before a final newline.\<close>

definition slug_start :: "char \<Rightarrow> bool" where
  "slug_start c \<longleftrightarrow> CHR ''a'' \<le> c \<and> c \<le> CHR ''z'' \<or> CHR ''0'' \<le> c \<and> c \<le> CHR ''9''"

definition slug_body :: "string \<Rightarrow> bool" where
  "slug_body s =
     (case s of
        [] \<Rightarrow> False
      | c # r \<Rightarrow> slug_start c \<and> length r \<le> 63 \<and> list_all (\<lambda>x. slug_start x \<or> x = CHR ''_'' \<or> x = CHR ''-'') r)"

definition slug_matches :: "string \<Rightarrow> bool" where
  "slug_matches s \<longleftrightarrow> slug_body s \<or> s \<noteq> [] \<and> last s = newline \<and> slug_body (butlast s)"

subsection \<open>\<open>SKILL.md\<close> texts\<close>

definition parse_md :: "(string \<Rightarrow> json option) \<Rightarrow> string \<Rightarrow> (dict \<times> string) option" where
  "parse_md yaml content =
     (case frontmatter_parts content of
        None \<Rightarrow> None
      | Some (block, rest) \<Rightarrow> (case yaml block of Some (JObj fm) \<Rightarrow> Some (fm, rest) | _ \<Rightarrow> None))"

definition py_rstrip :: "string \<Rightarrow> string" where
  "py_rstrip s = rev (dropWhile py_isspace (rev s))"

definition serialise_md :: "(dict \<Rightarrow> string) \<Rightarrow> dict \<Rightarrow> string \<Rightarrow> string" where
  "serialise_md dump fm rest =
     py_rstrip (''---'' @ [newline] @ py_strip (dump fm) @ [newline] @ ''---'' @ [newline, newline] @ rest) @ [newline]"

text \<open>\<open>str.count\<close> and \<open>str.replace\<close> with a count of one.\<close>

function count_sub :: "string \<Rightarrow> string \<Rightarrow> nat" where
  "count_sub n s =
     (if n = [] then Suc (length s)
      else (case s of
              [] \<Rightarrow> 0
            | c # r \<Rightarrow> if take (length n) s = n then Suc (count_sub n (drop (length n) s)) else count_sub n r))"
  by pat_completeness auto
termination
  by (relation "measure (length \<circ> snd)") auto

declare count_sub.simps [simp del]

definition replace_first :: "string \<Rightarrow> string \<Rightarrow> string \<Rightarrow> string" where
  "replace_first old new s =
     (case find_at old s of None \<Rightarrow> s | Some i \<Rightarrow> take i s @ new @ drop (i + length old) s)"

subsection \<open>Views\<close>

definition SKILL_VIEW_MAX_BYTES :: nat where "SKILL_VIEW_MAX_BYTES = 16 * 1024"

definition TRUNCATION_MARKER :: pystr where
  "TRUNCATION_MARKER = [10, 10] @ codes ''[... truncated by skill_view; full file on disk]''"

definition utf8_length :: "pystr \<Rightarrow> nat" where
  "utf8_length s = sum_list (map (\<lambda>c. length (utf8_char c)) s)"

text \<open>
  Cutting the encoding of a text to a number of bytes and decoding it without the incomplete last
  character keeps the characters that fit whole.
\<close>

fun fit_bytes :: "nat \<Rightarrow> pystr \<Rightarrow> pystr" where
  "fit_bytes n [] = []"
| "fit_bytes n (c # s) = (if length (utf8_char c) \<le> n then c # fit_bytes (n - length (utf8_char c)) s else [])"

definition view_text :: "pystr \<Rightarrow> pystr" where
  "view_text s =
     (if SKILL_VIEW_MAX_BYTES < utf8_length s
      then fit_bytes (SKILL_VIEW_MAX_BYTES - length TRUNCATION_MARKER) s @ TRUNCATION_MARKER
      else s)"

subsection \<open>The backend of the service\<close>

record cloud_skills =
  cs_schema :: schema_rev
  cs_user :: "uuid option"
  cs_effective :: "effective_config option"
  cs_yaml :: "string \<Rightarrow> json option"
  cs_dump :: "dict \<Rightarrow> string"

definition cloud_list_slugs :: "cloud_skills \<Rightarrow> skill_row list \<Rightarrow> string list result" where
  "cloud_list_slugs c t = bind_result (skill_list_user (cs_user c) t) (\<lambda>rows. Inr (sort (map slug rows)))"

text \<open>The snapshot of the configuration comes first, then the user's row, then the official one.\<close>

definition cloud_read_md :: "cloud_skills \<Rightarrow> string \<Rightarrow> skill_row list \<Rightarrow> string option result" where
  "cloud_read_md c s t =
     (let stored = bind_result (skill_get_user (cs_user c) s t) (\<lambda>row.
            case row of
              Some r \<Rightarrow> Inr (Some (serialise_md (cs_dump c) (frontmatter r) (body r)))
            | None \<Rightarrow> bind_result (skill_get_official s t) (\<lambda>row.
                Inr (map_option (\<lambda>r. serialise_md (cs_dump c) (frontmatter r) (body r)) row)))
      in case cs_effective c of
           None \<Rightarrow> stored
         | Some eff \<Rightarrow>
             (case find (\<lambda>sk. rs_slug sk = s) (ec_skills eff) of
                Some sk \<Rightarrow> Inr (Some (serialise_md (cs_dump c) (rs_frontmatter sk) (rs_body sk)))
              | None \<Rightarrow> stored))"

definition cloud_view :: "cloud_skills \<Rightarrow> string \<Rightarrow> skill_row list \<Rightarrow> (skill_refusal + pystr) result" where
  "cloud_view c s t =
     (if \<not> slug_matches s then Inr (Inl (Invalid_Name s))
      else bind_result (cloud_read_md c s t) (\<lambda>text.
        case text of None \<Rightarrow> Inr (Inl (Not_Found s)) | Some x \<Rightarrow> Inr (Inr (view_text (codes x)))))"

definition cloud_create :: "cloud_skills \<Rightarrow> uuid \<Rightarrow> string \<Rightarrow> string \<Rightarrow> skill_row list \<Rightarrow> (skill_answer \<times> skill_row list) result" where
  "cloud_create c fresh s content t =
     (if \<not> slug_matches s then Inr (Refused (Invalid_Name s), t)
      else (case parse_md (cs_yaml c) content of
              None \<Rightarrow> Inr (Refused Frontmatter_Needed, t)
            | Some (fm, b) \<Rightarrow>
                (case check_untrusted (codes content) of
                   Inl _ \<Rightarrow> Inr (Refused Unsafe_Text, t)
                 | Inr _ \<Rightarrow>
                     bind_result (skill_get_user (cs_user c) s t) (\<lambda>row.
                       if row \<noteq> None then Inr (Refused (Already_Exists s), t)
                       else bind_result (skill_create_user (cs_schema c) fresh (cs_user c) s fm b True t) (\<lambda>(_, t').
                              Inr (Done_Path (''skills/'' @ s @ ''/SKILL.md''), t'))))))"

definition cloud_patch :: "cloud_skills \<Rightarrow> string \<Rightarrow> string \<Rightarrow> string \<Rightarrow> skill_row list \<Rightarrow> (skill_answer \<times> skill_row list) result" where
  "cloud_patch c s old new t =
     bind_result (skill_get_user (cs_user c) s t) (\<lambda>row.
       case row of
         None \<Rightarrow> Inr (Refused (Does_Not_Exist s), t)
       | Some r \<Rightarrow>
           (let text = serialise_md (cs_dump c) (frontmatter r) (body r); n = count_sub old text in
            if n = 0 then Inr (Refused Old_String_Not_Found, t)
            else if 1 < n then Inr (Refused (Old_String_Matches n), t)
            else (let new_text = replace_first old new text in
              case parse_md (cs_yaml c) new_text of
                None \<Rightarrow> Inr (Refused Frontmatter_Broken, t)
              | Some (fm, b) \<Rightarrow>
                  (case check_untrusted (codes new_text) of
                     Inl _ \<Rightarrow> Inr (Refused Unsafe_Text, t)
                   | Inr _ \<Rightarrow> bind_result (skill_update_user (cs_schema c) (cs_user c) s (Some fm) (Some b) None t)
                       (\<lambda>(_, t'). Inr (Done_Ok, t'))))))"

definition cloud_edit :: "cloud_skills \<Rightarrow> string \<Rightarrow> string \<Rightarrow> skill_row list \<Rightarrow> (skill_answer \<times> skill_row list) result" where
  "cloud_edit c s content t =
     (case parse_md (cs_yaml c) content of
        None \<Rightarrow> Inr (Refused Frontmatter_Missing, t)
      | Some (fm, b) \<Rightarrow>
          (case check_untrusted (codes content) of
             Inl _ \<Rightarrow> Inr (Refused Unsafe_Text, t)
           | Inr _ \<Rightarrow>
               bind_result (skill_get_user (cs_user c) s t) (\<lambda>row.
                 if row = None then Inr (Refused (Does_Not_Exist s), t)
                 else bind_result (skill_update_user (cs_schema c) (cs_user c) s (Some fm) (Some b) None t)
                        (\<lambda>(_, t'). Inr (Done_Ok, t')))))"

definition cloud_delete :: "cloud_skills \<Rightarrow> string \<Rightarrow> skill_row list \<Rightarrow> (skill_answer \<times> skill_row list) result" where
  "cloud_delete c s t =
     bind_result (skill_delete_user (cs_user c) s t) (\<lambda>(ok, t').
       Inr (if ok then Done_Ok else Refused (Does_Not_Exist s), t'))"

fun cloud_op :: "cloud_skills \<Rightarrow> uuid \<Rightarrow> string \<Rightarrow> skill_op \<Rightarrow> skill_row list \<Rightarrow> (skill_answer \<times> skill_row list) result" where
  "cloud_op c fresh s (Create content) t = cloud_create c fresh s content t"
| "cloud_op c fresh s (Patch old new) t = cloud_patch c s old new t"
| "cloud_op c fresh s (Edit content) t = cloud_edit c s content t"
| "cloud_op c fresh s Delete t = cloud_delete c s t"
| "cloud_op c fresh s (Write_File path content) t = Inr (Refused Not_Supported, t)"
| "cloud_op c fresh s (Remove_File path) t = Inr (Refused Not_Supported, t)"

subsection \<open>The tool\<close>

text \<open>
  A backend applies an operation to the skill of a name; an exception leaves the state it has reached.
\<close>

record 'st skill_backend =
  sb_list :: "'st \<Rightarrow> string list result"
  sb_apply :: "string \<Rightarrow> skill_op \<Rightarrow> 'st \<Rightarrow> skill_answer result \<times> 'st"
  sb_read_md :: "string \<Rightarrow> 'st \<Rightarrow> string option result"

definition cloud_skill_backend :: "cloud_skills \<Rightarrow> uuid \<Rightarrow> skill_row list skill_backend" where
  "cloud_skill_backend c fresh =
     \<lparr>sb_list = cloud_list_slugs c,
      sb_apply = (\<lambda>s x t. case cloud_op c fresh s x t of Inl e \<Rightarrow> (Inl e, t) | Inr (a, t') \<Rightarrow> (Inr a, t')),
      sb_read_md = cloud_read_md c\<rparr>"

record 'ix recall_ops =
  rc_index :: "string \<Rightarrow> string \<Rightarrow> 'ix \<Rightarrow> 'ix"
  rc_delete :: "string \<Rightarrow> 'ix \<Rightarrow> 'ix"

text \<open>Whatever fails here is logged and dropped.\<close>

definition reindex_skill_body :: "'st skill_backend \<Rightarrow> 'ix recall_ops \<Rightarrow> string \<Rightarrow> 'st \<Rightarrow> 'ix \<Rightarrow> 'ix" where
  "reindex_skill_body b rc s st ix =
     (case sb_read_md b s st of
        Inl _ \<Rightarrow> ix
      | Inr None \<Rightarrow> rc_delete rc s ix
      | Inr (Some text) \<Rightarrow> rc_index rc s text ix)"

record skill_call =
  sc_action :: string
  sc_name :: "string option"
  sc_content :: "string option"
  sc_old_string :: "string option"
  sc_new_string :: "string option"
  sc_file_path :: "string option"

definition given_text :: "string option \<Rightarrow> string option" where
  "given_text v = (case v of Some (c # cs) \<Rightarrow> Some (c # cs) | _ \<Rightarrow> None)"

definition succeeded :: "skill_answer \<Rightarrow> bool" where
  "succeeded a \<longleftrightarrow> (\<forall>r. a \<noteq> Refused r)"

lemma succeeded_code [code]: "succeeded a = (case a of Refused r \<Rightarrow> False | _ \<Rightarrow> True)"
  by (cases a) (simp_all add: succeeded_def)

text \<open>The operation a call stands for, or why it is turned away.\<close>

definition skill_call_op :: "skill_call \<Rightarrow> skill_refusal + skill_op" where
  "skill_call_op k =
     (if sc_action k = ''create'' then (case given_text (sc_content k) of None \<Rightarrow> Inl Frontmatter_Needed | Some c \<Rightarrow> Inr (Create c))
      else if sc_action k = ''patch''
      then (case (given_text (sc_old_string k), sc_new_string k) of
              (Some old, Some new) \<Rightarrow> Inr (Patch old new)
            | _ \<Rightarrow> Inl Strings_Required)
      else if sc_action k = ''edit'' then (case given_text (sc_content k) of None \<Rightarrow> Inl Frontmatter_Missing | Some c \<Rightarrow> Inr (Edit c))
      else if sc_action k = ''delete'' then Inr Delete
      else if sc_action k = ''write_file''
      then (case (given_text (sc_file_path k), sc_content k) of
              (Some p, Some c) \<Rightarrow> Inr (Write_File p c)
            | _ \<Rightarrow> Inl Path_And_Content_Required)
      else (case given_text (sc_file_path k) of None \<Rightarrow> Inl Path_Required | Some p \<Rightarrow> Inr (Remove_File p)))"

text \<open>The action is one of the seven the tool's schema admits.\<close>

definition skill_manage :: "'st skill_backend \<Rightarrow> 'ix recall_ops \<Rightarrow> skill_call \<Rightarrow> 'st \<Rightarrow> 'ix \<Rightarrow> skill_answer result \<times> 'st \<times> 'ix" where
  "skill_manage b rc k st ix =
     (if sc_action k = ''list'' then (bind_result (sb_list b st) (\<lambda>xs. Inr (Done_List xs)), st, ix)
      else (case given_text (sc_name k) of
              None \<Rightarrow> (Inr (Refused Name_Required), st, ix)
            | Some n \<Rightarrow>
                (case skill_call_op k of
                   Inl r \<Rightarrow> (Inr (Refused r), st, ix)
                 | Inr x \<Rightarrow>
                     (case sb_apply b n x st of
                        (Inl e, st') \<Rightarrow> (Inl e, st', ix)
                      | (Inr a, st') \<Rightarrow>
                          (Inr a, st',
                           if \<not> succeeded a then ix
                           else (case x of
                                   Delete \<Rightarrow> rc_delete rc n ix
                                 | Write_File _ _ \<Rightarrow> ix
                                 | Remove_File _ \<Rightarrow> ix
                                 | _ \<Rightarrow> reindex_skill_body b rc n st' ix))))))"

end
