(* ===== verification/Skill_Files.thy ===== *)
theory Skill_Files
  imports Skill_Backend
begin

text \<open>
  The backend of the command line: \<open>skills/local_dispatch.py\<close>, \<open>skills/local_view.py\<close> and the rest of
  \<open>agent/backends/skill_local.py\<close>.  The files below the skills root are the list of their paths,
  relative to it, with what is there; there are no symbolic links, and the limits of the file system
  are not reached.  Both backends then interpret the contract the tool relies on.
\<close>

subsection \<open>Files\<close>

type_synonym path = "string list"

datatype fs_node = Fs_File string | Fs_Dir

type_synonym files = "(path \<times> fs_node) list"

definition path_exists :: "files \<Rightarrow> path \<Rightarrow> bool" where
  "path_exists fs p \<longleftrightarrow> p = [] \<or> map_of fs p \<noteq> None"

definition is_dir :: "files \<Rightarrow> path \<Rightarrow> bool" where
  "is_dir fs p \<longleftrightarrow> p = [] \<or> map_of fs p = Some Fs_Dir"

definition is_file :: "files \<Rightarrow> path \<Rightarrow> bool" where
  "is_file fs p \<longleftrightarrow> p \<noteq> [] \<and> (case map_of fs p of Some (Fs_File _) \<Rightarrow> True | _ \<Rightarrow> False)"

text \<open>Text mode reads \<open>\r\n\<close> and \<open>\r\<close> as a newline and writes as is.\<close>

fun read_newlines :: "bool \<Rightarrow> string \<Rightarrow> string" where
  "read_newlines after [] = []"
| "read_newlines after (c # s) =
     (if c = newline \<and> after then read_newlines False s
      else (if c = CHR 0x0D then newline else c) # read_newlines (c = CHR 0x0D) s)"

definition fs_read :: "files \<Rightarrow> path \<Rightarrow> string result" where
  "fs_read fs p = (case map_of fs p of Some (Fs_File s) \<Rightarrow> Inr (read_newlines False s) | _ \<Rightarrow> Inl OSError)"

definition fs_write :: "path \<Rightarrow> string \<Rightarrow> files \<Rightarrow> unit result \<times> files" where
  "fs_write p content fs =
     (if is_dir fs (butlast p) \<and> \<not> is_dir fs p then (Inr (), dict_set p (Fs_File content) fs) else (Inl OSError, fs))"

text \<open>\<open>mkdir(parents=True, exist_ok=True)\<close>\<close>

definition make_dirs :: "path \<Rightarrow> files \<Rightarrow> unit result \<times> files" where
  "make_dirs p fs =
     (if list_ex (is_file fs) (prefixes p) then (Inl OSError, fs)
      else (Inr (), fold (\<lambda>q f. if is_dir f q then f else dict_set q Fs_Dir f) (prefixes p) fs))"

definition remove_tree :: "path \<Rightarrow> files \<Rightarrow> unit result \<times> files" where
  "remove_tree p fs =
     (if is_dir fs p then (Inr (), filter (\<lambda>(q, _). take (length p) q \<noteq> p) fs) else (Inl OSError, fs))"

definition fs_unlink :: "path \<Rightarrow> files \<Rightarrow> unit result \<times> files" where
  "fs_unlink p fs = (if is_file fs p then (Inr (), filter (\<lambda>(q, _). q \<noteq> p) fs) else (Inl OSError, fs))"

subsection \<open>Paths of a call\<close>

fun split_char :: "char \<Rightarrow> string \<Rightarrow> string list" where
  "split_char d [] = [[]]"
| "split_char d (c # s) =
     (if c = d then [] # split_char d s
      else (case split_char d s of [] \<Rightarrow> [[c]] | x # xs \<Rightarrow> (c # x) # xs))"

definition path_parts :: "string \<Rightarrow> path" where
  "path_parts s = filter (\<lambda>p. p \<noteq> [] \<and> p \<noteq> ''.'') (split_char (CHR ''/'') s)"

definition normalised :: "path \<Rightarrow> path" where
  "normalised ps = fold (\<lambda>p acc. if p = ''..'' then butlast acc else acc @ [p]) ps []"

text \<open>
  The target of a path in the skill's directory, relative to the skills root, whose own absolute path
  is \<open>base\<close>.  A path that starts with exactly two slashes has a root of its own.
\<close>

definition resolve_inside :: "path \<Rightarrow> string \<Rightarrow> string \<Rightarrow> skill_refusal + path" where
  "resolve_inside base name rel =
     (if CHR 0x00 \<in> set rel then Inl Null_In_Path
      else (let target = normalised (if take 1 rel = ''/'' then path_parts rel else base @ [name] @ path_parts rel);
                d = base @ [name]
            in if take 2 rel = ''//'' \<and> take 3 rel \<noteq> ''///'' \<or> take (length d) target \<noteq> d then Inl Path_Escapes
               else Inr (drop (length base) target)))"

subsection \<open>The operations\<close>

definition skill_md_path :: "string \<Rightarrow> path" where
  "skill_md_path name = [name, ''SKILL.md'']"

definition has_rule :: "string \<Rightarrow> bool" where
  "has_rule content \<longleftrightarrow> content \<noteq> [] \<and> text_in ''---'' content"

text \<open>The result of a step that may raise, as the answer of the call.\<close>

definition answered :: "skill_answer \<Rightarrow> unit result \<times> files \<Rightarrow> skill_answer result \<times> files" where
  "answered a r = (case r of (Inl e, fs) \<Rightarrow> (Inl e, fs) | (Inr _, fs) \<Rightarrow> (Inr a, fs))"

definition local_create :: "string \<Rightarrow> string \<Rightarrow> files \<Rightarrow> skill_answer result \<times> files" where
  "local_create name content fs =
     (if path_exists fs [name] then (Inr (Refused (Already_Exists name)), fs)
      else if \<not> has_rule content then (Inr (Refused Frontmatter_Needed), fs)
      else (case check_untrusted (codes content) of
              Inl _ \<Rightarrow> (Inr (Refused Unsafe_Text), fs)
            | Inr _ \<Rightarrow> answered (Done_Path (''skills/'' @ name @ ''/SKILL.md''))
                (fs_write (skill_md_path name) content (snd (make_dirs [name] fs)))))"

definition local_patch :: "string \<Rightarrow> string \<Rightarrow> string \<Rightarrow> files \<Rightarrow> skill_answer result \<times> files" where
  "local_patch name old new fs =
     (if \<not> path_exists fs (skill_md_path name) then (Inr (Refused (Does_Not_Exist name)), fs)
      else if old = [] then (Inr (Refused Strings_Required), fs)
      else (case fs_read fs (skill_md_path name) of
              Inl e \<Rightarrow> (Inl e, fs)
            | Inr text \<Rightarrow>
                (let n = count_sub old text in
                 if n = 0 then (Inr (Refused Old_String_Not_Found), fs)
                 else if 1 < n then (Inr (Refused (Old_String_Matches n)), fs)
                 else answered Done_Ok (fs_write (skill_md_path name) (replace_first old new text) fs))))"

definition local_edit :: "string \<Rightarrow> string \<Rightarrow> files \<Rightarrow> skill_answer result \<times> files" where
  "local_edit name content fs =
     (if \<not> path_exists fs (skill_md_path name) then (Inr (Refused (Does_Not_Exist name)), fs)
      else if \<not> has_rule content then (Inr (Refused Frontmatter_Missing), fs)
      else (case check_untrusted (codes content) of
              Inl _ \<Rightarrow> (Inr (Refused Unsafe_Text), fs)
            | Inr _ \<Rightarrow> answered Done_Ok (fs_write (skill_md_path name) content fs)))"

definition local_delete :: "string \<Rightarrow> files \<Rightarrow> skill_answer result \<times> files" where
  "local_delete name fs =
     (if \<not> path_exists fs [name] then (Inr (Refused (Does_Not_Exist name)), fs) else answered Done_Ok (remove_tree [name] fs))"

definition local_write_file :: "path \<Rightarrow> string \<Rightarrow> string \<Rightarrow> string \<Rightarrow> files \<Rightarrow> skill_answer result \<times> files" where
  "local_write_file base name rel content fs =
     (if rel = [] then (Inr (Refused Path_And_Content_Required), fs)
      else if \<not> path_exists fs [name] then (Inr (Refused (Does_Not_Exist name)), fs)
      else (case resolve_inside base name rel of
              Inl r \<Rightarrow> (Inr (Refused r), fs)
            | Inr target \<Rightarrow>
                (case check_untrusted (codes content) of
                   Inl _ \<Rightarrow> (Inr (Refused Unsafe_Text), fs)
                 | Inr _ \<Rightarrow>
                     (case make_dirs (butlast target) fs of
                        (Inl e, fs') \<Rightarrow> (Inl e, fs')
                      | (Inr _, fs') \<Rightarrow> answered (Done_Path (''skills/'' @ name @ ''/'' @ rel)) (fs_write target content fs')))))"

definition local_remove_file :: "path \<Rightarrow> string \<Rightarrow> string \<Rightarrow> files \<Rightarrow> skill_answer result \<times> files" where
  "local_remove_file base name rel fs =
     (if rel = [] then (Inr (Refused Path_Required), fs)
      else if \<not> path_exists fs [name] then (Inr (Refused (Does_Not_Exist name)), fs)
      else (case resolve_inside base name rel of
              Inl r \<Rightarrow> (Inr (Refused r), fs)
            | Inr target \<Rightarrow> if path_exists fs target then answered Done_Ok (fs_unlink target fs) else (Inr Done_Ok, fs)))"

definition local_dispatch :: "path \<Rightarrow> string \<Rightarrow> skill_op \<Rightarrow> files \<Rightarrow> skill_answer result \<times> files" where
  "local_dispatch base name x fs =
     (if name = [] then (Inr (Refused Name_Required), fs)
      else if \<not> slug_matches name then (Inr (Refused (Invalid_Name name)), fs)
      else (case x of
              Create content \<Rightarrow> local_create name content fs
            | Patch old new \<Rightarrow> local_patch name old new fs
            | Edit content \<Rightarrow> local_edit name content fs
            | Delete \<Rightarrow> local_delete name fs
            | Write_File rel content \<Rightarrow> local_write_file base name rel content fs
            | Remove_File rel \<Rightarrow> local_remove_file base name rel fs))"

definition local_list_slugs :: "files \<Rightarrow> string list" where
  "local_list_slugs fs = sort (map (\<lambda>(p, _). hd p) (filter (\<lambda>(p, n). length p = 1 \<and> n = Fs_Dir) fs))"

text \<open>No name check: a missing or unreadable document reads as none.\<close>

definition local_read_md :: "string \<Rightarrow> files \<Rightarrow> string option" where
  "local_read_md name fs = (case fs_read fs (skill_md_path name) of Inl _ \<Rightarrow> None | Inr s \<Rightarrow> Some s)"

text \<open>A view counts as a use of the skill; \<open>stats\<close> are the sidecar files.\<close>

definition local_view ::
  "string \<Rightarrow> string \<Rightarrow> files \<Rightarrow> (string \<Rightarrow> sidecar) \<Rightarrow> (skill_refusal + pystr) result \<times> (string \<Rightarrow> sidecar)"
where
  "local_view now name fs stats =
     (if \<not> slug_matches name then (Inr (Inl (Invalid_Name name)), stats)
      else if \<not> is_file fs (skill_md_path name) then (Inr (Inl (Not_Found name)), stats)
      else (case fs_read fs (skill_md_path name) of
              Inl e \<Rightarrow> (Inl e, stats)
            | Inr s \<Rightarrow>
                (case record_view now (stats name) of
                   (Inl e, f) \<Rightarrow> (Inl e, stats(name := f))
                 | (Inr _, f) \<Rightarrow> (Inr (Inr (view_text (codes s))), stats(name := f)))))"

definition local_skill_backend :: "path \<Rightarrow> files skill_backend" where
  "local_skill_backend base =
     \<lparr>sb_list = (\<lambda>fs. Inr (local_list_slugs fs)), sb_apply = local_dispatch base, sb_read_md = (\<lambda>n fs. Inr (local_read_md n fs))\<rparr>"

subsection \<open>The contract of a skill backend\<close>

text \<open>
  What the tool relies on: an operation on one skill leaves the others alone whatever comes of it, and
  a refused one leaves everything alone.  \<open>part\<close> is what the state holds of a skill.
\<close>

locale skill_store =
  fixes b :: "'st skill_backend" and part :: "'st \<Rightarrow> string \<Rightarrow> 'd"
  assumes others_kept: "sb_apply b n x st = (r, st') \<Longrightarrow> m \<noteq> n \<Longrightarrow> part st' m = part st m"
    and refused_kept: "sb_apply b n x st = (Inr (Refused e), st') \<Longrightarrow> st' = st"
begin

lemma tool_others_kept:
  "skill_manage b rc k st ix = (r, st', ix') \<Longrightarrow> sc_name k \<noteq> Some m \<Longrightarrow> part st' m = part st m"
  using others_kept [of _ _ st]
  by (auto simp: skill_manage_def given_text_def split: if_splits option.splits sum.splits prod.splits list.splits)

lemma tool_refused_kept:
  "skill_manage b rc k st ix = (Inr (Refused e), st', ix') \<Longrightarrow> st' = st \<and> ix' = ix"
  using refused_kept [of _ _ st]
  by (auto simp: skill_manage_def succeeded_def bind_result_def split: if_splits option.splits sum.splits prod.splits)

end

text \<open>The rows of a slug are what the table holds of a skill.\<close>

definition rows_of :: "skill_row list \<Rightarrow> string \<Rightarrow> skill_row list" where
  "rows_of t n = filter (\<lambda>r. slug r = n) t"

lemma rows_of_update:
  assumes "skill_update_user sch guc n (Some fm) (Some bd) None t = Inr (row, t')" and "m \<noteq> n"
  shows "rows_of t' m = rows_of t m"
proof -
  have keep: "filter (\<lambda>r. slug r = m) (sql_update p f t) = filter (\<lambda>r. slug r = m) t"
    if "\<And>r. p r \<Longrightarrow> slug r = n" "\<And>r. slug (f r) = slug r" for p and f :: "skill_row \<Rightarrow> skill_row"
    using that assms(2) by (induction t) (auto simp: sql_update_def)
  show ?thesis
    using assms(1) unfolding skill_update_user_def update_user_row_def rows_of_def
    by (auto simp: result_eqs skill_values_def checked_eq_Inr Let_def user_row_def split: if_splits intro!: keep)
qed

lemma rows_of_delete: "(\<And>r. p r \<Longrightarrow> slug r = n) \<Longrightarrow> m \<noteq> n \<Longrightarrow> rows_of (sql_delete p t) m = rows_of t m"
  by (induction t) (auto simp: rows_of_def sql_delete_def)

lemma cloud_patch_cases:
  assumes "cloud_patch c n old new t = Inr (a, t')"
  shows "t' = t \<or> a = Done_Ok \<and> (\<exists>fm bd row. skill_update_user (cs_schema c) (cs_user c) n (Some fm) (Some bd) None t = Inr (row, t'))"
proof (cases "skill_get_user (cs_user c) n t")
  case (Inr row)
  show ?thesis
  proof (cases row)
    case (Some r)
    let ?s = "serialise_md (cs_dump c) (frontmatter r) (body r)"
    show ?thesis using assms
      by (cases "parse_md (cs_yaml c) (replace_first old new ?s)"; cases "check_untrusted (codes (replace_first old new ?s))")
        (auto simp: cloud_patch_def Inr Some Let_def bind_result_eq_Inr split: if_splits, blast)
  qed (use assms in \<open>simp add: cloud_patch_def Inr\<close>)
qed (use assms in \<open>simp add: cloud_patch_def\<close>)

lemma cloud_op_others:
  assumes "cloud_op c fresh n x t = Inr (a, t')" and "m \<noteq> n"
  shows "rows_of t' m = rows_of t m"
  using assms
proof (cases x)
  case (Create content)
  with assms show ?thesis
    by (auto simp: cloud_create_def result_eqs skill_create_user_def insert_row_def checked_eq_Inr rows_of_def skill_user_row_def
        split: if_splits option.splits sum.splits prod.splits)
next
  case (Patch old new)
  with assms show ?thesis using cloud_patch_cases [of c n old new t a t'] rows_of_update by fastforce
next
  case (Edit content)
  with assms show ?thesis
    by (auto simp: cloud_edit_def result_eqs split: if_splits option.splits sum.splits prod.splits intro: rows_of_update)
next
  case Delete
  with assms show ?thesis
    by (auto simp: cloud_delete_def skill_delete_user_def delete_user_row_def result_eqs Let_def split: if_splits intro!: rows_of_delete)
qed simp_all

lemma cloud_op_refused:
  assumes "cloud_op c fresh n x t = Inr (Refused e, t')"
  shows "t' = t"
  using assms
proof (cases x)
  case Delete
  from Delete assms show ?thesis
    by (auto simp: cloud_delete_def skill_delete_user_def delete_user_row_def result_eqs Let_def sql_delete_def filter_id_conv
        filter_empty_conv split: if_splits)
next
  case (Patch old new)
  with assms show ?thesis using cloud_patch_cases [of c n old new t "Refused e" t'] by auto
qed (auto simp: cloud_create_def cloud_edit_def result_eqs Let_def split: if_splits option.splits sum.splits prod.splits)

interpretation cloud_skill_store: skill_store "cloud_skill_backend c fresh" rows_of for c fresh
proof
  fix n x t r t' m
  assume "sb_apply (cloud_skill_backend c fresh) n x t = (r, t')" "m \<noteq> n"
  then show "rows_of t' m = rows_of t m"
    by (auto simp: cloud_skill_backend_def split: sum.splits prod.splits intro: cloud_op_others)
next
  fix n x t e t'
  assume "sb_apply (cloud_skill_backend c fresh) n x t = (Inr (Refused e), t')"
  then show "t' = t"
    by (auto simp: cloud_skill_backend_def split: sum.splits prod.splits intro: cloud_op_refused)
qed

text \<open>The files of a skill are those below the directory of its name.\<close>

definition files_of :: "files \<Rightarrow> string \<Rightarrow> path \<Rightarrow> fs_node option" where
  "files_of fs n p = map_of fs (n # p)"

definition below :: "string \<Rightarrow> path \<Rightarrow> bool" where
  "below n p \<longleftrightarrow> p \<noteq> [] \<and> hd p = n"

definition only_below :: "string \<Rightarrow> files \<Rightarrow> files \<Rightarrow> bool" where
  "only_below n fs fs' \<longleftrightarrow> (\<forall>p. \<not> below n p \<longrightarrow> map_of fs' p = map_of fs p)"

lemma only_below_refl [simp]: "only_below n fs fs"
  by (simp add: only_below_def)

lemma only_below_trans: "only_below n a b \<Longrightarrow> only_below n b c \<Longrightarrow> only_below n a c"
  by (simp add: only_below_def)

lemma only_below_others: "only_below n fs fs' \<Longrightarrow> m \<noteq> n \<Longrightarrow> files_of fs' m = files_of fs m"
  by (auto simp: only_below_def files_of_def below_def)

lemma only_below_set: "below n p \<Longrightarrow> only_below n fs (dict_set p v fs)"
  by (auto simp: only_below_def update_conv')

lemma fs_write_below: "below n p \<Longrightarrow> fs_write p content fs = (r, fs') \<Longrightarrow> only_below n fs fs'"
  by (auto simp: fs_write_def only_below_set split: if_splits)

lemma make_dirs_below:
  assumes "p = [] \<or> below n p" and "make_dirs p fs = (r, fs')"
  shows "only_below n fs fs'"
proof -
  have "only_below n fs (fold (\<lambda>q f. if is_dir f q then f else dict_set q Fs_Dir f) qs fs)"
    if "\<forall>q \<in> set qs. q = [] \<or> below n q" for qs
    using that
  proof (induction qs arbitrary: fs)
    case (Cons q qs)
    have "only_below n fs (if is_dir fs q then fs else dict_set q Fs_Dir fs)"
      using Cons.prems by (auto simp: is_dir_def intro: only_below_set)
    with Cons.IH [of "if is_dir fs q then fs else dict_set q Fs_Dir fs"] Cons.prems show ?case
      by (auto intro: only_below_trans)
  qed simp
  moreover have "\<forall>q \<in> set (prefixes p). q = [] \<or> below n q"
    using assms(1) by (auto simp: below_def prefix_def)
  ultimately show ?thesis using assms(2) by (auto simp: make_dirs_def split: if_splits)
qed

lemma map_of_filter_key: "map_of (filter (\<lambda>(q, _). P q) fs) p = (if P p then map_of fs p else None)"
  by (induction fs) auto

lemma take_below: "take (Suc 0) p = [n] \<longleftrightarrow> below n p"
  by (cases p) (auto simp: below_def)

lemma remove_tree_below: "remove_tree [n] fs = (r, fs') \<Longrightarrow> only_below n fs fs'"
  by (auto simp: remove_tree_def only_below_def map_of_filter_key take_below split: if_splits)

lemma fs_unlink_below: "below n p \<Longrightarrow> fs_unlink p fs = (r, fs') \<Longrightarrow> only_below n fs fs'"
  by (auto simp: fs_unlink_def only_below_def map_of_filter_key split: if_splits)

lemma resolve_inside_below: "resolve_inside base name rel = Inr target \<Longrightarrow> below name target"
proof -
  assume "resolve_inside base name rel = Inr target"
  then obtain t where t: "take (Suc (length base)) t = base @ [name]" "target = drop (length base) t"
    by (auto simp: resolve_inside_def Let_def split: if_splits)
  have "t = take (Suc (length base)) t @ drop (Suc (length base)) t" by simp
  then have "t = base @ [name] @ drop (Suc (length base)) t" by (simp add: t(1))
  then have "target = name # drop (Suc (length base)) t" by (metis append_Cons append_Nil append_eq_conv_conj t(2))
  then show ?thesis by (simp add: below_def)
qed

lemma butlast_below: "below n p \<Longrightarrow> butlast p = [] \<or> below n (butlast p)"
  by (cases p) (auto simp: below_def)

lemma local_write_file_below:
  assumes "local_write_file base name rel content fs = (r, fs')"
  shows "only_below name fs fs'"
proof (cases "resolve_inside base name rel")
  case (Inl e)
  with assms show ?thesis by (auto simp: local_write_file_def split: if_splits)
next
  case (Inr target)
  then have b: "below name target" by (rule resolve_inside_below)
  obtain r1 fs1 where d: "make_dirs (butlast target) fs = (r1, fs1)" by fastforce
  obtain r2 fs2 where w: "fs_write target content fs1 = (r2, fs2)" by fastforce
  have "only_below name fs fs1" by (rule make_dirs_below [OF butlast_below [OF b] d])
  moreover have "only_below name fs1 fs2" by (rule fs_write_below [OF b w])
  ultimately show ?thesis using assms
    by (auto simp: local_write_file_def Inr d w answered_def split: if_splits sum.splits intro: only_below_trans)
qed

lemma local_dispatch_below:
  assumes "local_dispatch base name x fs = (r, fs')"
  shows "only_below name fs fs'"
proof -
  have md: "below name (skill_md_path name)" "below name [name]" by (simp_all add: skill_md_path_def below_def)
  note steps = fs_write_below [OF md(1)] remove_tree_below fs_unlink_below
  show ?thesis
  proof (cases x)
    case (Create content)
    have "only_below name fs (snd (make_dirs [name] fs))"
      using make_dirs_below [of "[name]" name fs] md(2) by (metis prod.collapse)
    with Create assms show ?thesis
      by (auto simp: local_dispatch_def local_create_def answered_def split: if_splits sum.splits prod.splits
          dest!: fs_write_below [OF md(1)] intro: only_below_trans)
  next
    case (Write_File rel content)
    with assms show ?thesis by (auto simp: local_dispatch_def split: if_splits dest: local_write_file_below)
  next
    case (Remove_File rel)
    with assms show ?thesis
      by (auto simp: local_dispatch_def local_remove_file_def answered_def split: if_splits sum.splits prod.splits
          dest!: fs_unlink_below [OF resolve_inside_below])
  qed (use assms in \<open>auto simp: local_dispatch_def local_patch_def local_edit_def local_delete_def answered_def Let_def
      split: if_splits sum.splits prod.splits dest!: steps\<close>)
qed

lemma local_dispatch_refused:
  assumes "local_dispatch base name x fs = (Inr (Refused e), fs')"
  shows "fs' = fs"
  using assms
  by (cases x) (auto simp: local_dispatch_def local_create_def local_patch_def local_edit_def local_delete_def local_write_file_def
      local_remove_file_def answered_def Let_def split: if_splits sum.splits prod.splits)

interpretation local_skill_store: skill_store "local_skill_backend base" files_of for base
proof
  fix n x st r st' m
  assume "sb_apply (local_skill_backend base) n x st = (r, st')" "m \<noteq> n"
  then show "files_of st' m = files_of st m"
    by (intro only_below_others [OF local_dispatch_below]) (simp_all add: local_skill_backend_def)
next
  fix n x st e st'
  assume "sb_apply (local_skill_backend base) n x st = (Inr (Refused e), st')"
  then show "st' = st" by (intro local_dispatch_refused) (simp add: local_skill_backend_def)
qed

end
