(* ===== verification/Recall_Index.thy ===== *)
theory Recall_Index
  imports Curator Memory_Tool Worker_Dispatch Skill_Backend
begin

text \<open>
  The recall index: \<open>providers/chunker.py\<close>, \<open>providers/embedding.py\<close>, \<open>repositories/memory_chunk_repo.py\<close>,
  the two backends \<open>agent/backends/recall_local.py\<close> and \<open>recall_cloud.py\<close>, the tool
  \<open>memory/search_tool.py\<close> and the job \<open>worker/embed.py\<close>.  The tokeniser and the embedding service are
  arguments, and so are the full-text functions of Postgres and \<open>str.lower\<close> on arbitrary text.  Vectors
  are exact reals and times integers.
\<close>

subsection \<open>Chunks of a text\<close>

definition CHUNK_TOKENS :: nat where "CHUNK_TOKENS = 256"
definition CHUNK_OVERLAP_TOKENS :: nat where "CHUNK_OVERLAP_TOKENS = 32"
definition CHARS_PER_TOKEN_FALLBACK :: nat where "CHARS_PER_TOKEN_FALLBACK = 4"

text \<open>The loop both chunkers run, from a start position on.\<close>

function windows_from :: "nat \<Rightarrow> nat \<Rightarrow> nat \<Rightarrow> 'a list \<Rightarrow> 'a list list" where
  "windows_from w overlap start xs =
     (if length xs \<le> start then []
      else (let stop = min (start + w) (length xs); piece = take (stop - start) (drop start xs) in
            if stop = length xs then [piece] else piece # windows_from w overlap (max (stop - overlap) (start + 1)) xs))"
  by pat_completeness auto
termination
  by (relation "measure (\<lambda>(w, overlap, start, xs). length xs - start)") auto

declare windows_from.simps [simp del]

text \<open>A tokeniser encodes a text, or raises; it is \<^const>\<open>None\<close> where it is not installed.\<close>

record tokeniser =
  tk_encode :: "pystr \<Rightarrow> nat list option"
  tk_decode :: "nat list \<Rightarrow> pystr"

definition nonempty_stripped :: "pystr list \<Rightarrow> pystr list" where
  "nonempty_stripped ws = filter (\<lambda>c. c \<noteq> []) (map strip ws)"

definition chunk_with_tokens :: "tokeniser option \<Rightarrow> pystr \<Rightarrow> pystr list option" where
  "chunk_with_tokens tk text =
     (case tk of
        None \<Rightarrow> None
      | Some t \<Rightarrow> map_option (\<lambda>tokens.
          nonempty_stripped (map (tk_decode t) (windows_from CHUNK_TOKENS CHUNK_OVERLAP_TOKENS 0 tokens))) (tk_encode t text))"

definition chunk_with_chars :: "pystr \<Rightarrow> pystr list" where
  "chunk_with_chars text =
     (if strip text = [] then []
      else nonempty_stripped (windows_from (CHUNK_TOKENS * CHARS_PER_TOKEN_FALLBACK)
             (CHUNK_OVERLAP_TOKENS * CHARS_PER_TOKEN_FALLBACK) 0 text))"

definition chunk_text :: "tokeniser option \<Rightarrow> pystr \<Rightarrow> pystr list" where
  "chunk_text tk text =
     (if strip text = [] then []
      else (case chunk_with_tokens tk text of Some cs \<Rightarrow> cs | None \<Rightarrow> chunk_with_chars text))"

subsection \<open>Embedding providers\<close>

record embedder =
  eb_embed :: "pystr \<Rightarrow> real list result"
  eb_batch :: "pystr list \<Rightarrow> real list list result"
  eb_model :: string

definition null_embedder :: embedder where
  "null_embedder = \<lparr>eb_embed = (\<lambda>_. Inr []), eb_batch = (\<lambda>ts. Inr (map (\<lambda>_. []) ts)), eb_model = ''none''\<rparr>"

datatype embedder_choice = Null_Embedder | Voyage_Embedder | OpenAI_Embedder

text \<open>The name is that of the environment variable, empty when unset.\<close>

definition select_embedding_provider :: "string \<Rightarrow> string option \<Rightarrow> embedder_choice" where
  "select_embedding_provider env api_key =
     (let name = py_lower env; keyed = (api_key \<noteq> None \<and> api_key \<noteq> Some []) in
      if name = ''null'' then Null_Embedder
      else if name = ''voyage'' \<and> keyed then Voyage_Embedder
      else if keyed then OpenAI_Embedder
      else Null_Embedder)"

definition EMBED_DIM :: nat where "EMBED_DIM = 1536"

definition pad_to_target :: "real list \<Rightarrow> real list" where
  "pad_to_target vec =
     (if length vec = EMBED_DIM then vec
      else if EMBED_DIM < length vec then take EMBED_DIM vec
      else vec @ replicate (EMBED_DIM - length vec) 0)"

text \<open>The vectors of the chunks: none where the call failed, answered too few or an empty one.\<close>

definition vectors_for :: "embedder \<Rightarrow> pystr list \<Rightarrow> real list option list" where
  "vectors_for e chunks =
     (let es = (case eb_batch e chunks of Inl _ \<Rightarrow> map (\<lambda>_. []) chunks | Inr vs \<Rightarrow> vs)
      in map (\<lambda>i. let v = (if i < length es then es ! i else []) in if v = [] then None else Some v) [0..<length chunks])"

subsection \<open>Rows\<close>

record chunk =
  ck_id :: nat
  ck_kind :: string
  ck_source :: "string option"
  ck_index :: nat
  ck_content :: pystr
  ck_embedding :: "real list option"
  ck_model :: string
  ck_ts :: int

record tenant_chunk = chunk +
  ck_user :: uuid
  ck_agent :: uuid

text \<open>A table with the next id of its sequence, which is never taken back.\<close>

record 'r chunk_db =
  cd_rows :: "'r list"
  cd_next :: nat

record recalled =
  re_kind :: string
  re_source :: "string option"
  re_content :: pystr
  re_score :: real
  re_ts :: int

definition hit_from :: "real \<Rightarrow> 'a chunk_scheme \<Rightarrow> recalled" where
  "hit_from s r = \<lparr>re_kind = ck_kind r, re_source = (if ck_source r = Some [] then None else ck_source r),
     re_content = ck_content r, re_score = s, re_ts = ck_ts r\<rparr>"

text \<open>Rows of equal score keep the order they came in, which for Postgres is one of those it may choose.\<close>

definition top_hits :: "nat \<Rightarrow> (real \<times> 'r) list \<Rightarrow> (real \<times> 'r) list" where
  "top_hits k scored = take k (sort_key (\<lambda>(s, _). - s) scored)"

subsection \<open>The repository\<close>

definition SOURCE_KINDS :: "string list" where
  "SOURCE_KINDS = [''memory_md'', ''user_md'', ''session_summary'', ''message'', ''skill_body'']"

text \<open>
  \<open>MemoryChunkRepo\<close>.  The user and the agent of a row exist; what else Postgres may refuse is a kind
  outside the list, a vector of another length, and text it cannot store.
\<close>

definition vector_ok :: "real list option \<Rightarrow> bool" where
  "vector_ok v \<longleftrightarrow> (case v of None \<Rightarrow> True | Some x \<Rightarrow> length x = EMBED_DIM)"

definition chunk_insert ::
  "uuid option \<Rightarrow> uuid \<Rightarrow> int \<Rightarrow> string \<Rightarrow> string option \<Rightarrow> nat \<Rightarrow> pystr \<Rightarrow> real list option \<Rightarrow> string \<Rightarrow> tenant_chunk chunk_db
     \<Rightarrow> (nat \<times> tenant_chunk chunk_db) result"
where
  "chunk_insert guc agent now kind source idx content embedding model db =
     bind_result (current_user_id guc) (\<lambda>u.
       if kind \<notin> set SOURCE_KINDS then Inl IntegrityError
       else if \<not> vector_ok embedding \<or> \<not> pg_text content then Inl DataError
       else Inr (cd_next db, db\<lparr>cd_rows := cd_rows db @ [\<lparr>ck_id = cd_next db, ck_kind = kind, ck_source = source, ck_index = idx,
         ck_content = content, ck_embedding = embedding, ck_model = model, ck_ts = now, ck_user = u, ck_agent = agent\<rparr>],
         cd_next := Suc (cd_next db)\<rparr>))"

definition set_embedding :: "nat \<Rightarrow> real list \<Rightarrow> string \<Rightarrow> tenant_chunk chunk_db \<Rightarrow> tenant_chunk chunk_db result" where
  "set_embedding i v model db =
     (if length v \<noteq> EMBED_DIM then Inl DataError
      else Inr (db\<lparr>cd_rows := map (\<lambda>r. if ck_id r = i then r\<lparr>ck_embedding := Some v, ck_model := model\<rparr> else r) (cd_rows db)\<rparr>))"

definition of_tenant :: "uuid \<Rightarrow> uuid \<Rightarrow> tenant_chunk \<Rightarrow> bool" where
  "of_tenant u a r \<longleftrightarrow> ck_user r = u \<and> ck_agent r = a"

definition of_source :: "string \<Rightarrow> string option \<Rightarrow> 'a chunk_scheme \<Rightarrow> bool" where
  "of_source kind source r \<longleftrightarrow> ck_kind r = kind \<and> ck_source r = source"

definition delete_source ::
  "uuid option \<Rightarrow> uuid \<Rightarrow> string \<Rightarrow> string option \<Rightarrow> tenant_chunk chunk_db \<Rightarrow> (nat \<times> tenant_chunk chunk_db) result"
where
  "delete_source guc agent kind source db =
     bind_result (current_user_id guc) (\<lambda>u.
       let p = (\<lambda>r. of_tenant u agent r \<and> of_source kind source r)
       in Inr (length (filter p (cd_rows db)), db\<lparr>cd_rows := filter (\<lambda>r. \<not> p r) (cd_rows db)\<rparr>))"

definition list_pending_embeddings ::
  "uuid option \<Rightarrow> uuid \<Rightarrow> int \<Rightarrow> tenant_chunk chunk_db \<Rightarrow> (nat \<times> pystr) list result"
where
  "list_pending_embeddings guc agent limit db =
     bind_result (current_user_id guc) (\<lambda>u.
       if limit < 0 then Inl DataError
       else Inr (map (\<lambda>r. (ck_id r, ck_content r))
         (take (nat limit) (sort_key ck_id (filter (\<lambda>r. of_tenant u agent r \<and> ck_embedding r = None) (cd_rows db))))))"

text \<open>
  Full-text search: \<open>ft_rank content query\<close> is \<open>ts_rank_cd\<close> and \<open>ft_match\<close> the operator \<open>@@\<close>; one minus
  the cosine distance of vectors is their cosine, where neither is zero.  A zero vector, for which the
  distance is not a number, has cosine 0 here: scores are exact reals.  Postgres compares vectors of one
  length only.
\<close>

record full_text =
  ft_rank :: "pystr \<Rightarrow> pystr \<Rightarrow> real"
  ft_match :: "pystr \<Rightarrow> pystr \<Rightarrow> bool"

definition cos_sim :: "real list \<Rightarrow> real list option \<Rightarrow> real" where
  "cos_sim q v = (case v of None \<Rightarrow> 0 | Some x \<Rightarrow> cosine x q)"

definition blended_scores :: "full_text \<Rightarrow> pystr \<Rightarrow> real list \<Rightarrow> real \<Rightarrow> tenant_chunk list \<Rightarrow> (real \<times> tenant_chunk) list" where
  "blended_scores ft query q alpha rows =
     (let best = max (Max (insert 0 ((\<lambda>r. ft_rank ft (ck_content r) query) ` set rows))) (1 / 10 ^ 9)
      in map (\<lambda>r. (alpha * cos_sim q (ck_embedding r) + (1 - alpha) * min (ft_rank ft (ck_content r) query / best) 1, r))
           (filter (\<lambda>r. 0 < cos_sim q (ck_embedding r) \<or> 0 < ft_rank ft (ck_content r) query) rows))"

definition comparable :: "real list \<Rightarrow> tenant_chunk list \<Rightarrow> bool" where
  "comparable q rows \<longleftrightarrow> list_all (\<lambda>r. case ck_embedding r of None \<Rightarrow> True | Some v \<Rightarrow> length v = length q) rows"

definition text_scores :: "full_text \<Rightarrow> pystr \<Rightarrow> tenant_chunk list \<Rightarrow> (real \<times> tenant_chunk) list" where
  "text_scores ft query rows =
     map (\<lambda>r. (ft_rank ft (ck_content r) query, r)) (filter (\<lambda>r. ft_match ft (ck_content r) query) rows)"

definition hybrid_search ::
  "full_text \<Rightarrow> uuid option \<Rightarrow> uuid option \<Rightarrow> pystr \<Rightarrow> real list option \<Rightarrow> nat \<Rightarrow> real \<Rightarrow> tenant_chunk chunk_db \<Rightarrow> recalled list result"
where
  "hybrid_search ft guc agent query q k alpha db =
     (if strip query = [] then Inr []
      else bind_result (current_user_id guc) (\<lambda>u.
        let rows = filter (\<lambda>r. ck_user r = u \<and> (case agent of None \<Rightarrow> True | Some a \<Rightarrow> ck_agent r = a)) (cd_rows db);
            found = (\<lambda>scored. Inr (map (\<lambda>(s, r). hit_from s r) (top_hits k scored)))
        in case q of
             Some v \<Rightarrow> if comparable v rows then found (blended_scores ft query v alpha rows) else Inl DataError
           | None \<Rightarrow> found (text_scores ft query rows)))"

subsection \<open>The backend of the service\<close>

text \<open>An exception inside the session rolls it back.\<close>

fun insert_chunks ::
  "uuid option \<Rightarrow> uuid \<Rightarrow> int \<Rightarrow> string \<Rightarrow> string option \<Rightarrow> string \<Rightarrow> nat \<Rightarrow> (pystr \<times> real list option) list \<Rightarrow> tenant_chunk chunk_db
     \<Rightarrow> tenant_chunk chunk_db result"
where
  "insert_chunks guc agent now kind source model i [] db = Inr db"
| "insert_chunks guc agent now kind source model i ((c, v) # cs) db =
     bind_result (chunk_insert guc agent now kind source i c v model db) (\<lambda>(_, db').
       insert_chunks guc agent now kind source model (Suc i) cs db')"

definition recall_cloud_index ::
  "tokeniser option \<Rightarrow> embedder \<Rightarrow> uuid \<Rightarrow> uuid \<Rightarrow> int \<Rightarrow> string \<Rightarrow> string option \<Rightarrow> pystr \<Rightarrow> tenant_chunk chunk_db
     \<Rightarrow> nat result \<times> tenant_chunk chunk_db"
where
  "recall_cloud_index tk e u agent now kind source content db =
     (let chunks = chunk_text tk content in
      case bind_result (delete_source (Some u) agent kind source db) (\<lambda>(_, db').
             insert_chunks (Some u) agent now kind source (eb_model e) 0 (zip chunks (vectors_for e chunks)) db') of
        Inl ex \<Rightarrow> (Inl ex, db)
      | Inr db' \<Rightarrow> (Inr (length chunks), db'))"

definition query_vector :: "embedder \<Rightarrow> pystr \<Rightarrow> real list" where
  "query_vector e query = (case eb_embed e query of Inl _ \<Rightarrow> [] | Inr v \<Rightarrow> v)"

definition recall_cloud_search ::
  "full_text \<Rightarrow> embedder \<Rightarrow> uuid \<Rightarrow> uuid \<Rightarrow> pystr \<Rightarrow> nat \<Rightarrow> tenant_chunk chunk_db \<Rightarrow> recalled list result"
where
  "recall_cloud_search ft e u agent query k db =
     (if strip query = [] then Inr []
      else (let q = query_vector e query
            in hybrid_search ft (Some u) (Some agent) query (if q = [] then None else Some q) k (1 / 2) db))"

definition recall_cloud_delete ::
  "uuid \<Rightarrow> uuid \<Rightarrow> string \<Rightarrow> string option \<Rightarrow> tenant_chunk chunk_db \<Rightarrow> nat result \<times> tenant_chunk chunk_db"
where
  "recall_cloud_delete u agent kind source db =
     (case delete_source (Some u) agent kind source db of Inl ex \<Rightarrow> (Inl ex, db) | Inr (n, db') \<Rightarrow> (Inr n, db'))"

subsection \<open>The backend of the command line\<close>

definition delete_locked :: "string \<Rightarrow> string option \<Rightarrow> chunk chunk_db \<Rightarrow> nat \<times> chunk chunk_db" where
  "delete_locked kind source db =
     (length (filter (of_source kind source) (cd_rows db)), db\<lparr>cd_rows := filter (\<lambda>r. \<not> of_source kind source r) (cd_rows db)\<rparr>)"

fun local_insert_chunks ::
  "int \<Rightarrow> string \<Rightarrow> string option \<Rightarrow> string \<Rightarrow> nat \<Rightarrow> (pystr \<times> real list option) list \<Rightarrow> chunk chunk_db \<Rightarrow> chunk chunk_db"
where
  "local_insert_chunks now kind source model i [] db = db"
| "local_insert_chunks now kind source model i ((c, v) # cs) db =
     local_insert_chunks now kind source model (Suc i) cs
       (db\<lparr>cd_rows := cd_rows db @ [\<lparr>ck_id = cd_next db, ck_kind = kind, ck_source = source, ck_index = i, ck_content = c,
          ck_embedding = v, ck_model = model, ck_ts = now\<rparr>], cd_next := Suc (cd_next db)\<rparr>)"

text \<open>
  SQLite takes no lone surrogate: binding one raises \<open>UnicodeEncodeError\<close>, a \<open>ValueError\<close>, and the connection's
  context rolls back.
\<close>

definition recall_local_index ::
  "tokeniser option \<Rightarrow> embedder \<Rightarrow> int \<Rightarrow> string \<Rightarrow> string option \<Rightarrow> pystr \<Rightarrow> chunk chunk_db \<Rightarrow> nat result \<times> chunk chunk_db"
where
  "recall_local_index tk e now kind source content db =
     (let chunks = chunk_text tk content; db' = snd (delete_locked kind source db)
      in if list_ex (list_ex surrogate) chunks then (Inl ValueError, db)
         else (Inr (length chunks), local_insert_chunks now kind source (eb_model e) 0 (zip chunks (vectors_for e chunks)) db'))"

text \<open>Newest rows first; \<open>lower\<close> is \<open>str.lower\<close>.\<close>

definition local_score :: "(pystr \<Rightarrow> pystr) \<Rightarrow> real list \<Rightarrow> pystr \<Rightarrow> chunk \<Rightarrow> real" where
  "local_score lower q query r =
     (let cos = (if q = [] then 0 else (case ck_embedding r of None \<Rightarrow> 0 | Some v \<Rightarrow> cosine q v));
          bm25 = (if lower query \<noteq> [] \<and> contains (lower query) (lower (ck_content r)) then 1 else 0);
          alpha = (if q = [] then 0 else 1 / 2)
      in alpha * cos + (1 - alpha) * bm25)"

definition recall_local_search ::
  "(pystr \<Rightarrow> pystr) \<Rightarrow> embedder \<Rightarrow> pystr \<Rightarrow> nat \<Rightarrow> chunk chunk_db \<Rightarrow> recalled list"
where
  "recall_local_search lower e query k db =
     (if strip query = [] then []
      else (let q = query_vector e query;
                scored = filter (\<lambda>(s, _). 0 < s) (map (\<lambda>r. (local_score lower q query r, r)) (rev (sort_key ck_id (cd_rows db))))
            in map (\<lambda>(s, r). hit_from s r) (top_hits k scored)))"

definition recall_local_delete :: "string \<Rightarrow> string option \<Rightarrow> chunk chunk_db \<Rightarrow> nat result \<times> chunk chunk_db" where
  "recall_local_delete kind source db = (let (n, db') = delete_locked kind source db in (Inr n, db'))"

subsection \<open>The search tool\<close>

definition SEARCH_DEFAULT_K :: int where "SEARCH_DEFAULT_K = 5"
definition SEARCH_MAX_K :: int where "SEARCH_MAX_K = 20"
definition SEARCH_PREVIEW_CHARS :: nat where "SEARCH_PREVIEW_CHARS = 480"

datatype search_reply = Query_Required | Search_Failed exn | Search_Results "recalled list"

definition preview :: "pystr \<Rightarrow> pystr" where
  "preview s = (if SEARCH_PREVIEW_CHARS < length s then take SEARCH_PREVIEW_CHARS s @ [8230] else s)"

text \<open>Scores are rounded to four places for the reply; the argument \<open>round4\<close> does so.\<close>

definition memory_search :: "(real \<Rightarrow> real) \<Rightarrow> (pystr \<Rightarrow> nat \<Rightarrow> recalled list result) \<Rightarrow> pystr \<Rightarrow> int \<Rightarrow> search_reply" where
  "memory_search round4 lookup query k =
     (if strip query = [] then Query_Required
      else (let bounded_k = max 1 (min (if k = 0 then SEARCH_DEFAULT_K else k) SEARCH_MAX_K) in
            case lookup query (nat bounded_k) of
              Inl ex \<Rightarrow> Search_Failed ex
            | Inr rows \<Rightarrow> Search_Results (map (\<lambda>r. r\<lparr>re_score := round4 (re_score r), re_content := preview (re_content r)\<rparr>) rows)))"

subsection \<open>The embedding job\<close>

text \<open>Message ids are parsed by the session; the job's answer is \<^const>\<open>False\<close> for a retry.\<close>

fun fill_embeddings :: "string \<Rightarrow> (nat \<times> real list) list \<Rightarrow> tenant_chunk chunk_db \<Rightarrow> tenant_chunk chunk_db result" where
  "fill_embeddings model [] db = Inr db"
| "fill_embeddings model ((i, v) # ivs) db =
     (if v = [] then fill_embeddings model ivs db
      else bind_result (set_embedding i v model db) (fill_embeddings model ivs))"

definition run_embed :: "embedder \<Rightarrow> uuid \<Rightarrow> uuid \<Rightarrow> int \<Rightarrow> tenant_chunk chunk_db \<Rightarrow> bool result \<times> tenant_chunk chunk_db" where
  "run_embed e u agent limit db =
     (case list_pending_embeddings (Some u) agent limit db of
        Inl ex \<Rightarrow> (Inl ex, db)
      | Inr pending \<Rightarrow>
          (if pending = [] then (Inr True, db)
           else (case eb_batch e (map snd pending) of
                   Inl _ \<Rightarrow> (Inr False, db)
                 | Inr vs \<Rightarrow>
                     (case fill_embeddings (eb_model e) (zip (map fst pending) vs) db of
                        Inl ex \<Rightarrow> (Inl ex, db)
                      | Inr db' \<Rightarrow> (Inr True, db')))))"

end
