(* ===== verification/Recall_Facts.thy ===== *)
theory Recall_Facts
  imports Recall_Index
begin

text \<open>
  What the recall index guarantees: chunks cover their text, both backends implement a map from sources
  to documents, searches return the best rows of the tenant, and the job that fills in vectors drains
  what is pending, if the provider answers.
\<close>

subsection \<open>Chunks\<close>

fun unwindow :: "nat \<Rightarrow> 'a list list \<Rightarrow> 'a list" where
  "unwindow k [] = []"
| "unwindow k (x # xs) = x @ concat (map (drop k) xs)"

lemma windows_tail:
  "k < w \<Longrightarrow> start + k \<le> length xs \<Longrightarrow> concat (map (drop k) (windows_from w k start xs)) = drop (start + k) xs"
proof (induction w k start xs rule: windows_from.induct)
  case (1 w k start xs)
  show ?case
  proof (cases "start + w < length xs")
    case True
    let ?next = "max (start + w - k) (start + 1)"
    from "1.prems"(1) have nx: "?next + k = start + w" by simp
    have "concat (map (drop k) (windows_from w k ?next xs)) = drop (start + w) xs"
      using "1.IH" [of "start + w"] True "1.prems"(1) nx by (simp add: min_def)
    moreover have "windows_from w k start xs = take w (drop start xs) # windows_from w k ?next xs"
      using True by (subst windows_from.simps) (simp add: min_def Let_def)
    moreover have "drop k (take w (drop start xs)) @ drop (start + w) xs = drop (start + k) xs"
    proof -
      have "drop (start + k) xs = take (w - k) (drop (start + k) xs) @ drop (w - k) (drop (start + k) xs)"
        by (simp only: append_take_drop_id)
      with "1.prems"(1) show ?thesis by (simp add: drop_take add.commute)
    qed
    ultimately show ?thesis by simp
  next
    case False
    then have "windows_from w k start xs = (if length xs \<le> start then [] else [drop start xs])"
      by (subst windows_from.simps) (simp add: min_def Let_def)
    then show ?thesis using "1.prems" by (simp add: add.commute)
  qed
qed

lemma windows_cover:
  assumes "k < w"
  shows "unwindow k (windows_from w k 0 xs) = xs" and "x \<in> set (windows_from w k start xs) \<Longrightarrow> length x \<le> w \<and> x \<noteq> []"
proof -
  show "unwindow k (windows_from w k 0 xs) = xs"
  proof (cases "w < length xs")
    case True
    let ?next = "max (w - k) 1"
    have "windows_from w k 0 xs = take w xs # windows_from w k ?next xs"
      using True by (subst windows_from.simps) (auto simp: min_def Let_def)
    moreover have "concat (map (drop k) (windows_from w k ?next xs)) = drop w xs"
      using windows_tail [of k w ?next xs] assms True by simp
    ultimately show ?thesis by simp
  next
    case False
    then have "windows_from w k 0 xs = (if xs = [] then [] else [xs])"
      by (subst windows_from.simps) (auto simp: min_def Let_def)
    then show ?thesis by simp
  qed
  show "length x \<le> w \<and> x \<noteq> []" if "x \<in> set (windows_from w k start xs)"
    using that assms
  proof (induction w k start xs rule: windows_from.induct)
    case (1 w k start xs)
    have nx: "max (start + w - k) (start + 1) = start + w - k" using "1.prems"(2) by simp
    have step: "windows_from w k start xs =
       (if length xs \<le> start then [] else if start + w < length xs then take w (drop start xs) # windows_from w k (start + w - k) xs
        else [drop start xs])"
      using "1.prems"(2) by (subst windows_from.simps) (auto simp: min_def Let_def nx simp del: max_def)
    show ?case
    proof (cases "start + w < length xs")
      case True
      with "1.prems" step consider "x = take w (drop start xs)" | "x \<in> set (windows_from w k (start + w - k) xs)"
        by (auto split: if_splits)
      then show ?thesis
      proof cases
        case 1
        with True "1.prems"(2) show ?thesis by simp
      next
        case 2
        with "1.IH" [of "start + w"] True "1.prems"(2) nx show ?thesis by (simp del: max_def)
      qed
    qed (use "1.prems"(1) step in \<open>auto split: if_splits\<close>)
  qed
qed

text \<open>
  Without a tokeniser the chunks of a text are the stripped windows, empty ones left out, of a cover of
  it: windows of at most 1024 characters, each of which repeats the last 128 of the one before it.
\<close>

theorem chunks_cover_text:
  assumes "strip doc \<noteq> []"
  shows "\<exists>ws. chunk_text None doc = nonempty_stripped ws \<and> unwindow 128 ws = doc \<and> (\<forall>w \<in> set ws. length w \<le> 1024) \<and>
    (\<forall>c \<in> set (chunk_text None doc). length c \<le> 1024)"
proof -
  let ?ws = "windows_from 1024 128 0 doc"
  have ws: "chunk_text None doc = nonempty_stripped ?ws"
    using assms by (auto simp: chunk_text_def chunk_with_tokens_def chunk_with_chars_def CHUNK_TOKENS_def CHUNK_OVERLAP_TOKENS_def
        CHARS_PER_TOKEN_FALLBACK_def)
  have len: "\<forall>w \<in> set ?ws. length w \<le> 1024" using windows_cover(2) [of 128 1024 _ 0 doc] by auto
  have "length (strip w) \<le> length w" for w
    using length_dropWhile_le [of is_space "rev (dropWhile is_space w)"] length_dropWhile_le [of is_space w]
    by (simp add: strip_def rstrip_def lstrip_def)
  then have "\<forall>c \<in> set (chunk_text None doc). length c \<le> 1024"
    using len unfolding ws nonempty_stripped_def by (auto intro: le_trans)
  with ws len show ?thesis using windows_cover(1) [of 128 1024 doc] by (intro exI [of _ ?ws]) simp
qed

lemma chunks_cover_text_witness:
  "\<exists>ws. chunk_text None (codes ''abc'') = nonempty_stripped ws \<and> unwindow 128 ws = codes ''abc''"
  using chunks_cover_text [of "codes ''abc''"] by (auto simp: is_space_def)

subsection \<open>The contract of a recall index\<close>

text \<open>
  What the tools and the workers rely on: an index holds for each source the chunks of the document last
  put there.  \<open>part\<close> is what the state holds, \<open>admits\<close> what the store takes.
\<close>

type_synonym source_key = "string \<times> string option"

datatype recall_op = Index_Source source_key pystr | Drop_Source source_key

locale recall_store =
  fixes put :: "source_key \<Rightarrow> pystr \<Rightarrow> 'st \<Rightarrow> nat result \<times> 'st"
    and drop_source :: "source_key \<Rightarrow> 'st \<Rightarrow> nat result \<times> 'st"
    and part :: "'st \<Rightarrow> source_key \<Rightarrow> pystr list"
    and chop :: "pystr \<Rightarrow> pystr list"
    and admits :: "source_key \<Rightarrow> pystr \<Rightarrow> bool"
  assumes put_admitted: "admits key doc \<Longrightarrow>
      fst (put key doc st) = Inr (length (chop doc)) \<and> part (snd (put key doc st)) = (part st)(key := chop doc)"
    and put_refused: "\<not> admits key doc \<Longrightarrow> \<exists>e. put key doc st = (Inl e, st)"
    and dropped: "fst (drop_source key st) = Inr (length (part st key)) \<and> part (snd (drop_source key st)) = (part st)(key := [])"

fun recall_run ::
  "(source_key \<Rightarrow> pystr \<Rightarrow> 'st \<Rightarrow> nat result \<times> 'st) \<Rightarrow> (source_key \<Rightarrow> 'st \<Rightarrow> nat result \<times> 'st) \<Rightarrow> recall_op list \<Rightarrow> 'st
     \<Rightarrow> nat result list \<times> 'st"
where
  "recall_run put drop_source [] st = ([], st)"
| "recall_run put drop_source (Index_Source key doc # ops) st =
     (let (a, st1) = put key doc st; (as, st2) = recall_run put drop_source ops st1 in (a # as, st2))"
| "recall_run put drop_source (Drop_Source key # ops) st =
     (let (a, st1) = drop_source key st; (as, st2) = recall_run put drop_source ops st1 in (a # as, st2))"

text \<open>The specification: a map from sources to chunk lists; \<^const>\<open>None\<close> stands for some exception.\<close>

fun recall_spec ::
  "(pystr \<Rightarrow> pystr list) \<Rightarrow> (source_key \<Rightarrow> pystr \<Rightarrow> bool) \<Rightarrow> recall_op list \<Rightarrow> (source_key \<Rightarrow> pystr list)
     \<Rightarrow> nat option list \<times> (source_key \<Rightarrow> pystr list)"
where
  "recall_spec chop admits [] m = ([], m)"
| "recall_spec chop admits (Index_Source key doc # ops) m =
     (let (as, m') = recall_spec chop admits ops (if admits key doc then m(key := chop doc) else m)
      in ((if admits key doc then Some (length (chop doc)) else None) # as, m'))"
| "recall_spec chop admits (Drop_Source key # ops) m =
     (let (as, m') = recall_spec chop admits ops (m(key := [])) in (Some (length (m key)) # as, m'))"

definition answer_of :: "nat result \<Rightarrow> nat option" where
  "answer_of r = (case r of Inl _ \<Rightarrow> None | Inr n \<Rightarrow> Some n)"

lemma answer_of_simps [simp]: "answer_of (Inl e) = None" "answer_of (Inr n) = Some n"
  by (simp_all add: answer_of_def)

context recall_store
begin

lemma run_refines_map:
  "map answer_of (fst (recall_run put drop_source ops st)) = fst (recall_spec chop admits ops (part st)) \<and>
   part (snd (recall_run put drop_source ops st)) = snd (recall_spec chop admits ops (part st))"
proof (induction ops arbitrary: st)
  case (Cons x ops)
  show ?case
  proof (cases x)
    case (Index_Source key doc)
    obtain a st1 where p: "put key doc st = (a, st1)" by fastforce
    have "answer_of a = (if admits key doc then Some (length (chop doc)) else None) \<and>
        part st1 = (if admits key doc then (part st)(key := chop doc) else part st)"
      using put_admitted [of key doc st] put_refused [of key doc st] by (cases "admits key doc") (auto simp: p)
    with Cons.IH [of st1] show ?thesis by (cases "admits key doc") (simp_all add: Index_Source p split_beta fun_upd_def)
  next
    case (Drop_Source key)
    obtain a st1 where p: "drop_source key st = (a, st1)" by fastforce
    with dropped [of key st] Cons.IH [of st1] show ?thesis by (simp add: Drop_Source p split_beta fun_upd_def)
  qed
qed simp

end

definition local_part :: "chunk chunk_db \<Rightarrow> source_key \<Rightarrow> pystr list" where
  "local_part db key = map ck_content (filter (of_source (fst key) (snd key)) (cd_rows db))"

definition cloud_part :: "uuid \<Rightarrow> uuid \<Rightarrow> tenant_chunk chunk_db \<Rightarrow> source_key \<Rightarrow> pystr list" where
  "cloud_part u a db key = map ck_content (filter (\<lambda>r. of_tenant u a r \<and> of_source (fst key) (snd key) r) (cd_rows db))"

text \<open>What SQLite takes, and what Postgres takes.\<close>

definition local_admits :: "tokeniser option \<Rightarrow> source_key \<Rightarrow> pystr \<Rightarrow> bool" where
  "local_admits tk key doc \<longleftrightarrow> \<not> list_ex (list_ex surrogate) (chunk_text tk doc)"

definition cloud_admits :: "tokeniser option \<Rightarrow> embedder \<Rightarrow> source_key \<Rightarrow> pystr \<Rightarrow> bool" where
  "cloud_admits tk e key doc \<longleftrightarrow> chunk_text tk doc = [] \<or> fst key \<in> set SOURCE_KINDS \<and>
     list_all pg_text (chunk_text tk doc) \<and> list_all vector_ok (vectors_for e (chunk_text tk doc))"

lemma length_vectors_for [simp]: "length (vectors_for e chunks) = length chunks"
  by (simp add: vectors_for_def Let_def)

lemma local_insert_part:
  "local_part (local_insert_chunks now kind source model i cs db) =
     (local_part db)((kind, source) := local_part db (kind, source) @ map fst cs)"
proof (induction cs arbitrary: i db)
  case (Cons c cs)
  obtain x v where c: "c = (x, v)" by fastforce
  show ?case by (auto simp: c Cons.IH fun_eq_iff local_part_def of_source_def)
qed simp

lemma local_delete_part: "local_part (snd (delete_locked kind source db)) = (local_part db)((kind, source) := [])"
  by (auto simp: delete_locked_def local_part_def fun_eq_iff of_source_def filter_filter filter_empty_conv
      intro!: arg_cong [where f = "map ck_content"] filter_cong)

interpretation local_recall: recall_store
  "\<lambda>key. recall_local_index tk e now (fst key) (snd key)" "\<lambda>key. recall_local_delete (fst key) (snd key)"
  local_part "chunk_text tk" "local_admits tk"
  for tk :: "tokeniser option" and e :: embedder and now :: int
proof
  fix key doc and st :: "chunk chunk_db"
  show "fst (recall_local_index tk e now (fst key) (snd key) doc st) = Inr (length (chunk_text tk doc)) \<and>
      local_part (snd (recall_local_index tk e now (fst key) (snd key) doc st)) = (local_part st)(key := chunk_text tk doc)"
    if "local_admits tk key doc"
    using that by (simp add: recall_local_index_def local_admits_def Let_def local_insert_part local_delete_part)
  show "\<exists>ex. recall_local_index tk e now (fst key) (snd key) doc st = (Inl ex, st)" if "\<not> local_admits tk key doc"
    using that by (simp add: recall_local_index_def local_admits_def Let_def)
  show "fst (recall_local_delete (fst key) (snd key) st) = Inr (length (local_part st key)) \<and>
      local_part (snd (recall_local_delete (fst key) (snd key) st)) = (local_part st)(key := [])"
    using local_delete_part [of "fst key" "snd key" st]
    by (simp add: recall_local_delete_def delete_locked_def local_part_def)
qed

subsection \<open>The backend of the service\<close>

definition chunk_storable :: "string \<Rightarrow> pystr \<times> real list option \<Rightarrow> bool" where
  "chunk_storable kind c \<longleftrightarrow> kind \<in> set SOURCE_KINDS \<and> pg_text (fst c) \<and> vector_ok (snd c)"

lemma insert_chunks_ok:
  "list_all (chunk_storable kind) cs \<Longrightarrow>
     \<exists>rows. insert_chunks (Some u) a now kind source model i cs db = Inr (db\<lparr>cd_rows := cd_rows db @ rows, cd_next := cd_next db + length cs\<rparr>) \<and>
       map ck_content rows = map fst cs \<and> list_all (\<lambda>r. of_tenant u a r \<and> of_source kind source r) rows \<and>
       map ck_id rows = [cd_next db..<cd_next db + length cs]"
proof (induction cs arbitrary: i db)
  case (Cons c cs)
  let ?r = "\<lparr>ck_id = cd_next db, ck_kind = kind, ck_source = source, ck_index = i, ck_content = fst c, ck_embedding = snd c,
    ck_model = model, ck_ts = now, ck_user = u, ck_agent = a\<rparr>"
  let ?db = "db\<lparr>cd_rows := cd_rows db @ [?r], cd_next := Suc (cd_next db)\<rparr>"
  have one: "chunk_insert (Some u) a now kind source i (fst c) (snd c) model db = Inr (cd_next db, ?db)"
    using Cons.prems by (simp add: chunk_insert_def chunk_storable_def current_user_id_def)
  have "list_all (chunk_storable kind) cs" using Cons.prems by simp
  from Cons.IH [OF this, of "Suc i" ?db] obtain rows where
    rest: "insert_chunks (Some u) a now kind source model (Suc i) cs ?db =
        Inr (?db\<lparr>cd_rows := cd_rows ?db @ rows, cd_next := cd_next ?db + length cs\<rparr>)"
      "map ck_content rows = map fst cs" "list_all (\<lambda>r. of_tenant u a r \<and> of_source kind source r) rows"
      "map ck_id rows = [cd_next ?db..<cd_next ?db + length cs]" by blast
  have "insert_chunks (Some u) a now kind source model i (c # cs) db =
      Inr (db\<lparr>cd_rows := cd_rows db @ ?r # rows, cd_next := cd_next db + length (c # cs)\<rparr>)"
    using one rest(1) by (cases c) simp
  moreover have "map ck_id (?r # rows) = [cd_next db..<cd_next db + length (c # cs)]"
    using rest(4) by (simp add: upt_rec)
  ultimately show ?case using rest(2,3) by (intro exI [of _ "?r # rows"]) (simp add: of_tenant_def of_source_def)
qed simp

lemma insert_chunks_fails:
  "\<not> list_all (chunk_storable kind) cs \<Longrightarrow> \<exists>e. insert_chunks (Some u) a now kind source model i cs db = Inl e"
proof (induction cs arbitrary: i db)
  case (Cons c cs)
  then show ?case
    by (cases c) (auto simp: chunk_insert_def chunk_storable_def current_user_id_def result_eqs split: if_splits)
qed simp

lemma storable_all:
  "length vs = length cs \<Longrightarrow> list_all (chunk_storable kind) (zip cs vs) \<longleftrightarrow>
     cs = [] \<or> kind \<in> set SOURCE_KINDS \<and> list_all pg_text cs \<and> list_all vector_ok vs"
  by (induction vs cs rule: list_induct2) (auto simp: chunk_storable_def)

lemma cloud_index_eq:
  "fst (recall_cloud_index tk e u a now kind source doc db) =
     (if cloud_admits tk e (kind, source) doc then Inr (length (chunk_text tk doc))
      else fst (recall_cloud_index tk e u a now kind source doc db))"
  "cloud_admits tk e (kind, source) doc \<Longrightarrow> \<exists>rows n.
     recall_cloud_index tk e u a now kind source doc db = (Inr (length (chunk_text tk doc)),
       db\<lparr>cd_rows := filter (\<lambda>r. \<not> (of_tenant u a r \<and> of_source kind source r)) (cd_rows db) @ rows, cd_next := n\<rparr>) \<and>
     map ck_content rows = chunk_text tk doc \<and> list_all (\<lambda>r. of_tenant u a r \<and> of_source kind source r) rows \<and>
     map ck_id rows = [cd_next db..<n] \<and> n = cd_next db + length (chunk_text tk doc)"
  "\<not> cloud_admits tk e (kind, source) doc \<Longrightarrow> \<exists>ex. recall_cloud_index tk e u a now kind source doc db = (Inl ex, db)"
proof -
  let ?cs = "zip (chunk_text tk doc) (vectors_for e (chunk_text tk doc))"
  let ?db = "db\<lparr>cd_rows := filter (\<lambda>r. \<not> (of_tenant u a r \<and> of_source kind source r)) (cd_rows db)\<rparr>"
  have adm: "cloud_admits tk e (kind, source) doc \<longleftrightarrow> list_all (chunk_storable kind) ?cs"
    by (subst storable_all) (simp_all add: cloud_admits_def)
  have run: "recall_cloud_index tk e u a now kind source doc db =
      (case insert_chunks (Some u) a now kind source (eb_model e) 0 ?cs ?db of
         Inl ex \<Rightarrow> (Inl ex, db) | Inr db' \<Rightarrow> (Inr (length (chunk_text tk doc)), db'))"
    by (simp add: recall_cloud_index_def delete_source_def current_user_id_def Let_def)
  show ok: "\<exists>rows n. recall_cloud_index tk e u a now kind source doc db = (Inr (length (chunk_text tk doc)),
       db\<lparr>cd_rows := filter (\<lambda>r. \<not> (of_tenant u a r \<and> of_source kind source r)) (cd_rows db) @ rows, cd_next := n\<rparr>) \<and>
     map ck_content rows = chunk_text tk doc \<and> list_all (\<lambda>r. of_tenant u a r \<and> of_source kind source r) rows \<and>
     map ck_id rows = [cd_next db..<n] \<and> n = cd_next db + length (chunk_text tk doc)"
    if "cloud_admits tk e (kind, source) doc"
    using insert_chunks_ok [of kind ?cs u a now source "eb_model e" 0 ?db] that unfolding adm run by fastforce
  show "\<exists>ex. recall_cloud_index tk e u a now kind source doc db = (Inl ex, db)"
    if "\<not> cloud_admits tk e (kind, source) doc"
    using insert_chunks_fails [of kind ?cs u a now source "eb_model e" 0 ?db] that unfolding adm run by auto
  show "fst (recall_cloud_index tk e u a now kind source doc db) =
     (if cloud_admits tk e (kind, source) doc then Inr (length (chunk_text tk doc))
      else fst (recall_cloud_index tk e u a now kind source doc db))"
    using ok by auto
qed

lemma cloud_part_delete:
  "map ck_content (filter (\<lambda>r. of_tenant u a r \<and> of_source k' s' r) (filter (\<lambda>r. \<not> (of_tenant u a r \<and> of_source k s r)) xs)) =
     (if (k', s') = (k, s) then [] else map ck_content (filter (\<lambda>r. of_tenant u a r \<and> of_source k' s' r) xs))"
  by (induction xs) (auto simp: of_source_def)

interpretation cloud_recall: recall_store
  "\<lambda>key. recall_cloud_index tk e u a now (fst key) (snd key)" "\<lambda>key. recall_cloud_delete u a (fst key) (snd key)"
  "cloud_part u a" "chunk_text tk" "cloud_admits tk e"
  for tk :: "tokeniser option" and e :: embedder and u a :: uuid and now :: int
proof
  fix key doc and st :: "tenant_chunk chunk_db"
  assume "cloud_admits tk e key doc"
  then have "cloud_admits tk e (fst key, snd key) doc" by simp
  from cloud_index_eq(2) [OF this, of u a now st] obtain rows n where
    r: "recall_cloud_index tk e u a now (fst key) (snd key) doc st = (Inr (length (chunk_text tk doc)),
       st\<lparr>cd_rows := filter (\<lambda>r. \<not> (of_tenant u a r \<and> of_source (fst key) (snd key) r)) (cd_rows st) @ rows, cd_next := n\<rparr>)"
      "map ck_content rows = chunk_text tk doc" "list_all (\<lambda>r. of_tenant u a r \<and> of_source (fst key) (snd key) r) rows"
    by blast
  have new: "filter (\<lambda>r. of_tenant u a r \<and> of_source (fst key') (snd key') r) rows = (if key' = key then rows else [])" for key'
    using r(3) by (induction rows) (auto simp: of_source_def prod_eq_iff)
  show "fst (recall_cloud_index tk e u a now (fst key) (snd key) doc st) = Inr (length (chunk_text tk doc)) \<and>
      cloud_part u a (snd (recall_cloud_index tk e u a now (fst key) (snd key) doc st)) = (cloud_part u a st)(key := chunk_text tk doc)"
    using cloud_part_delete [of u a _ _ "fst key" "snd key" "cd_rows st"]
    by (auto simp: r(1,2) cloud_part_def fun_eq_iff new prod_eq_iff simp del: filter_filter de_Morgan_conj not_imp)
next
  fix key doc and st :: "tenant_chunk chunk_db"
  assume "\<not> cloud_admits tk e key doc"
  then show "\<exists>ex. recall_cloud_index tk e u a now (fst key) (snd key) doc st = (Inl ex, st)"
    using cloud_index_eq(3) [of tk e "fst key" "snd key" doc u a now st] by simp
next
  fix key and st :: "tenant_chunk chunk_db"
  show "fst (recall_cloud_delete u a (fst key) (snd key) st) = Inr (length (cloud_part u a st key)) \<and>
      cloud_part u a (snd (recall_cloud_delete u a (fst key) (snd key) st)) = (cloud_part u a st)(key := [])"
    using cloud_part_delete [of u a _ _ "fst key" "snd key" "cd_rows st"]
    by (auto simp: recall_cloud_delete_def delete_source_def current_user_id_def Let_def cloud_part_def fun_eq_iff prod_eq_iff
        simp del: filter_filter de_Morgan_conj not_imp)
qed

text \<open>
  C33. Whatever is indexed and dropped, in whatever order, each backend answers and afterwards holds what a map
  from sources to documents does: the chunks of the document last put under the source, and no others.
  Each refuses what its database cannot store, SQLite lone surrogates and Postgres also NUL, unknown kinds
  and vectors of another length, and then keeps what it had.
\<close>

theorem recall_backends_refine_map:
  "map answer_of (fst (recall_run (\<lambda>key. recall_local_index tk e now (fst key) (snd key))
       (\<lambda>key. recall_local_delete (fst key) (snd key)) ops ldb)) = fst (recall_spec (chunk_text tk) (local_admits tk) ops (local_part ldb)) \<and>
   local_part (snd (recall_run (\<lambda>key. recall_local_index tk e now (fst key) (snd key))
       (\<lambda>key. recall_local_delete (fst key) (snd key)) ops ldb)) = snd (recall_spec (chunk_text tk) (local_admits tk) ops (local_part ldb)) \<and>
   map answer_of (fst (recall_run (\<lambda>key. recall_cloud_index tk e u a now (fst key) (snd key))
       (\<lambda>key. recall_cloud_delete u a (fst key) (snd key)) ops db)) = fst (recall_spec (chunk_text tk) (cloud_admits tk e) ops (cloud_part u a db)) \<and>
   cloud_part u a (snd (recall_run (\<lambda>key. recall_cloud_index tk e u a now (fst key) (snd key))
       (\<lambda>key. recall_cloud_delete u a (fst key) (snd key)) ops db)) = snd (recall_spec (chunk_text tk) (cloud_admits tk e) ops (cloud_part u a db))"
  using local_recall.run_refines_map cloud_recall.run_refines_map by blast

subsection \<open>Tenants\<close>

lemma insert_chunks_rows:
  "insert_chunks (Some u) a now kind source model i cs db = Inr db' \<Longrightarrow>
     \<exists>rows. cd_rows db' = cd_rows db @ rows \<and> list_all (of_tenant u a) rows"
proof (induction cs arbitrary: i db)
  case (Cons c cs)
  then obtain j db1 where one: "chunk_insert (Some u) a now kind source i (fst c) (snd c) model db = Inr (j, db1)"
    "insert_chunks (Some u) a now kind source model (Suc i) cs db1 = Inr db'"
    by (cases c) (auto simp: bind_result_eq_Inr)
  from one(1) obtain r where "cd_rows db1 = cd_rows db @ [r]" "of_tenant u a r"
    by (auto simp: chunk_insert_def current_user_id_def of_tenant_def split: if_splits)
  with Cons.IH [OF one(2)] show ?case by fastforce
qed simp

lemma filter_others: "filter (\<lambda>r. \<not> P r) (filter (\<lambda>r. \<not> (P r \<and> Q r)) xs) = filter (\<lambda>r. \<not> P r) xs"
  by (induction xs) auto

text \<open>
  No operation of one tenant touches a row of another, and what a tenant finds depends on its own rows only.
\<close>

theorem recall_isolated:
  "filter (\<lambda>r. \<not> of_tenant u a r) (cd_rows (snd (recall_cloud_index tk e u a now kind source doc db))) =
     filter (\<lambda>r. \<not> of_tenant u a r) (cd_rows db) \<and>
   filter (\<lambda>r. \<not> of_tenant u a r) (cd_rows (snd (recall_cloud_delete u a kind source db))) =
     filter (\<lambda>r. \<not> of_tenant u a r) (cd_rows db) \<and>
   recall_cloud_search ft e u a query k db =
     recall_cloud_search ft e u a query k (db\<lparr>cd_rows := filter (of_tenant u a) (cd_rows db)\<rparr>)"
proof (intro conjI)
  show "filter (\<lambda>r. \<not> of_tenant u a r) (cd_rows (snd (recall_cloud_index tk e u a now kind source doc db))) =
      filter (\<lambda>r. \<not> of_tenant u a r) (cd_rows db)"
  proof (cases "recall_cloud_index tk e u a now kind source doc db")
    case (Pair r db')
    show ?thesis
    proof (cases r)
      case (Inr n)
      from Pair Inr obtain rows where "cd_rows db' = filter (\<lambda>r. \<not> (of_tenant u a r \<and> of_source kind source r)) (cd_rows db) @ rows"
        "list_all (of_tenant u a) rows"
        by (auto simp: recall_cloud_index_def delete_source_def current_user_id_def Let_def split: sum.splits
            dest!: insert_chunks_rows)
      moreover have "list_all (of_tenant u a) rows \<Longrightarrow> filter (\<lambda>r. \<not> of_tenant u a r) rows = []"
        by (simp add: list_all_iff filter_empty_conv)
      ultimately show ?thesis
        by (simp add: Pair filter_others del: filter_filter de_Morgan_conj not_imp)
    qed (use Pair in \<open>auto simp: recall_cloud_index_def Let_def split: sum.splits\<close>)
  qed
  show "filter (\<lambda>r. \<not> of_tenant u a r) (cd_rows (snd (recall_cloud_delete u a kind source db))) =
      filter (\<lambda>r. \<not> of_tenant u a r) (cd_rows db)"
    by (simp add: recall_cloud_delete_def delete_source_def current_user_id_def Let_def filter_others
        del: filter_filter de_Morgan_conj not_imp)
  have "filter (\<lambda>r. ck_user r = u \<and> ck_agent r = a) (filter (of_tenant u a) xs) = filter (\<lambda>r. ck_user r = u \<and> ck_agent r = a) xs" for xs
    by (induction xs) (auto simp: of_tenant_def)
  then show "recall_cloud_search ft e u a query k db =
      recall_cloud_search ft e u a query k (db\<lparr>cd_rows := filter (of_tenant u a) (cd_rows db)\<rparr>)"
    by (simp add: recall_cloud_search_def hybrid_search_def current_user_id_def Let_def del: filter_filter)
qed

subsection \<open>Searches\<close>

lemma top_hits_best:
  shows "length (top_hits k xs) = min k (length xs)" and "set (top_hits k xs) \<subseteq> set xs"
    and "sorted_wrt (\<lambda>x y. fst y \<le> fst x) (top_hits k xs)"
    and "x \<in> set xs \<Longrightarrow> x \<notin> set (top_hits k xs) \<Longrightarrow> y \<in> set (top_hits k xs) \<Longrightarrow> fst x \<le> fst y"
proof -
  let ?zs = "sort_key (\<lambda>(s, _). - s) xs"
  show "length (top_hits k xs) = min k (length xs)" by (simp add: top_hits_def min.commute)
  show "set (top_hits k xs) \<subseteq> set xs" by (auto simp: top_hits_def dest: in_set_takeD)
  have "sorted (map (\<lambda>(s, _). - s) ?zs)" by (rule sorted_sort_key)
  then have srt: "sorted_wrt (\<lambda>x y. fst y \<le> fst x) (take k ?zs @ drop k ?zs)"
    by (simp add: sorted_map case_prod_beta)
  then show "sorted_wrt (\<lambda>x y. fst y \<le> fst x) (top_hits k xs)"
    unfolding top_hits_def by (simp add: sorted_wrt_append del: append_take_drop_id)
  show "fst x \<le> fst y" if "x \<in> set xs" "x \<notin> set (top_hits k xs)" "y \<in> set (top_hits k xs)"
  proof -
    have "x \<in> set (take k ?zs @ drop k ?zs)" using that(1) by simp
    with that(2) have "x \<in> set (drop k ?zs)" by (simp add: top_hits_def del: append_take_drop_id)
    with srt that(3) show ?thesis by (simp add: sorted_wrt_append top_hits_def del: append_take_drop_id)
  qed
qed

lemma search_at_most: "recall_cloud_search ft e u a query k db = Inr hits \<Longrightarrow> length hits \<le> k"
  by (auto simp: recall_cloud_search_def hybrid_search_def current_user_id_def Let_def top_hits_def
      split: if_splits option.splits)

definition tenant_rows :: "uuid \<Rightarrow> uuid \<Rightarrow> tenant_chunk chunk_db \<Rightarrow> tenant_chunk list" where
  "tenant_rows u a db = filter (of_tenant u a) (cd_rows db)"

definition relevant_to :: "full_text \<Rightarrow> real list \<Rightarrow> pystr \<Rightarrow> tenant_chunk \<Rightarrow> bool" where
  "relevant_to ft q query r \<longleftrightarrow>
     (if q = [] then ft_match ft (ck_content r) query else 0 < cos_sim q (ck_embedding r) \<or> 0 < ft_rank ft (ck_content r) query)"

definition score_among :: "full_text \<Rightarrow> real list \<Rightarrow> pystr \<Rightarrow> tenant_chunk list \<Rightarrow> tenant_chunk \<Rightarrow> real" where
  "score_among ft q query rows r =
     (if q = [] then ft_rank ft (ck_content r) query
      else cos_sim q (ck_embedding r) / 2 +
        min (ft_rank ft (ck_content r) query / max (Max (insert 0 ((\<lambda>r. ft_rank ft (ck_content r) query) ` set rows))) (1 / 10 ^ 9)) 1 / 2)"

text \<open>
  C34. A search in the service returns the relevant chunks of the tenant, at most as many as asked for, best
  first, and no relevant chunk left out scores higher than one returned.
\<close>

theorem recall_search_best:
  fixes ft :: full_text and e :: embedder and u a :: uuid and query :: pystr and db :: "tenant_chunk chunk_db"
  defines "rows \<equiv> tenant_rows u a db" and "q \<equiv> query_vector e query"
  assumes "recall_cloud_search ft e u a query k db = Inr hits" and "strip query \<noteq> []"
  shows "length hits = min k (length (filter (relevant_to ft q query) rows)) \<and> sorted_wrt (\<lambda>x y. re_score y \<le> re_score x) hits \<and>
    (\<forall>h \<in> set hits. \<exists>r \<in> set rows. relevant_to ft q query r \<and> h = hit_from (score_among ft q query rows r) r) \<and>
    (\<forall>r \<in> set rows. relevant_to ft q query r \<longrightarrow> hit_from (score_among ft q query rows r) r \<in> set hits \<or>
       (\<forall>h \<in> set hits. score_among ft q query rows r \<le> re_score h))"
proof -
  let ?xs = "map (\<lambda>r. (score_among ft q query rows r, r)) (filter (relevant_to ft q query) rows)"
  have rows: "rows = filter (\<lambda>r. ck_user r = u \<and> ck_agent r = a) (cd_rows db)"
    by (simp add: rows_def tenant_rows_def of_tenant_def cong: filter_cong)
  have scored: "(if q = [] then text_scores ft query rows else blended_scores ft query q (1 / 2) rows) = ?xs"
    by (simp add: text_scores_def blended_scores_def relevant_to_def score_among_def Let_def cong: filter_cong)
  have "hits = map (\<lambda>(s, r). hit_from s r)
      (top_hits k (if q = [] then text_scores ft query rows else blended_scores ft query q (1 / 2) rows))"
    using assms(3,4) unfolding rows
    by (cases "q = []") (auto simp: recall_cloud_search_def hybrid_search_def current_user_id_def Let_def q_def split: if_splits)
  then have hits: "hits = map (\<lambda>(s, r). hit_from s r) (top_hits k ?xs)" unfolding scored .
  note best = top_hits_best [where k = k and xs = ?xs]
  have score: "re_score (hit_from s r) = s" for s and r :: tenant_chunk by (simp add: hit_from_def)
  have "sorted_wrt (\<lambda>x y. re_score y \<le> re_score x) hits"
    using best(3) by (simp add: hits sorted_wrt_map case_prod_beta score)
  moreover have "\<forall>h \<in> set hits. \<exists>r \<in> set rows. relevant_to ft q query r \<and> h = hit_from (score_among ft q query rows r) r"
    using best(2) unfolding hits by fastforce
  moreover have "hit_from (score_among ft q query rows r) r \<in> set hits \<or> (\<forall>h \<in> set hits. score_among ft q query rows r \<le> re_score h)"
    if "r \<in> set rows" "relevant_to ft q query r" for r
  proof (cases "(score_among ft q query rows r, r) \<in> set (top_hits k ?xs)")
    case True
    then show ?thesis unfolding hits by force
  next
    case False
    have "(score_among ft q query rows r, r) \<in> set ?xs" using that by simp
    with best(4) False show ?thesis unfolding hits by (fastforce simp: score)
  qed
  ultimately show ?thesis using best(1) by (simp add: hits)
qed

definition word_text :: full_text where
  "word_text = \<lparr>ft_rank = (\<lambda>c q. if contains q c then real (length c) else 0), ft_match = (\<lambda>c q. contains q c)\<rparr>"

definition chunk_of :: "nat \<Rightarrow> uuid \<Rightarrow> string \<Rightarrow> tenant_chunk" where
  "chunk_of i u s = \<lparr>ck_id = i, ck_kind = ''memory_md'', ck_source = None, ck_index = 0, ck_content = codes s, ck_embedding = None,
     ck_model = ''none'', ck_ts = 0, ck_user = u, ck_agent = 1\<rparr>"

lemma recall_search_best_witness:
  "\<exists>h. recall_cloud_search word_text null_embedder 7 1 (codes ''ab'') 1
     \<lparr>cd_rows = [chunk_of 0 7 ''ab'', chunk_of 1 8 ''abcd'', chunk_of 2 7 ''abc''], cd_next = 3\<rparr> = Inr [h] \<and> re_score h = 3"
proof -
  let ?db = "\<lparr>cd_rows = [chunk_of 0 7 ''ab'', chunk_of 1 8 ''abcd'', chunk_of 2 7 ''abc''], cd_next = 3\<rparr>"
  obtain hits where hits: "recall_cloud_search word_text null_embedder 7 1 (codes ''ab'') 1 ?db = Inr hits"
    by (simp add: recall_cloud_search_def hybrid_search_def current_user_id_def is_space_def Let_def query_vector_def null_embedder_def)
  have rows: "tenant_rows 7 1 ?db = [chunk_of 0 7 ''ab'', chunk_of 2 7 ''abc'']"
    by (simp add: tenant_rows_def of_tenant_def chunk_of_def)
  have q: "query_vector null_embedder (codes ''ab'') = []" by (simp add: query_vector_def null_embedder_def)
  have rel: "relevant_to word_text [] (codes ''ab'') (chunk_of i 7 (''ab'' @ s))" for i s
    by (simp add: relevant_to_def word_text_def chunk_of_def contains_def)
  have score: "score_among word_text [] (codes ''ab'') rs (chunk_of i 7 (''ab'' @ s)) = real (length s + 2)" for i s rs
    using rel [of i s] by (simp add: score_among_def relevant_to_def word_text_def chunk_of_def codes_def)
  note best = recall_search_best [OF hits, unfolded rows q]
  have "length hits = 1" using best rel [of 0 "[]"] rel [of 2 "''c''"] by (simp add: is_space_def)
  then obtain h where h: "hits = [h]" by (auto simp: length_Suc_conv)
  have "re_score h = 2 \<or> re_score h = 3" "3 \<le> re_score h \<or> re_score h = 3"
    using best rel [of 0 "[]"] rel [of 2 "''c''"] score [of _ 0 "[]"] score [of _ 2 "''c''"] by (auto simp: h is_space_def hit_from_def)
  with hits h show ?thesis by auto
qed

subsection \<open>Filling in vectors\<close>

text \<open>Ids grow with the rows and stay below the sequence.\<close>

definition ids_ok :: "'a chunk_scheme chunk_db \<Rightarrow> bool" where
  "ids_ok db \<longleftrightarrow> sorted_wrt (<) (map ck_id (cd_rows db)) \<and> (\<forall>r \<in> set (cd_rows db). ck_id r < cd_next db)"

lemma sorted_wrt_filter_map: "sorted_wrt (<) (map f xs) \<Longrightarrow> sorted_wrt (<) (map f (filter P xs))"
  for f :: "'r \<Rightarrow> nat"
  by (induction xs) auto

lemma ids_ok_filter: "ids_ok db \<Longrightarrow> ids_ok (db\<lparr>cd_rows := filter P (cd_rows db)\<rparr>)"
  by (simp add: ids_ok_def sorted_wrt_filter_map)

lemma ids_ok_index:
  assumes "ids_ok db"
  shows "ids_ok (snd (recall_cloud_index tk e u a now kind source doc db))"
proof (cases "cloud_admits tk e (kind, source) doc")
  case True
  from cloud_index_eq(2) [OF True, of u a now db] obtain rows n where
    r: "recall_cloud_index tk e u a now kind source doc db = (Inr (length (chunk_text tk doc)),
       db\<lparr>cd_rows := filter (\<lambda>r. \<not> (of_tenant u a r \<and> of_source kind source r)) (cd_rows db) @ rows, cd_next := n\<rparr>)"
      "map ck_id rows = [cd_next db..<n]" "n = cd_next db + length (chunk_text tk doc)" by blast
  have new: "cd_next db \<le> ck_id x \<and> ck_id x < n" if "x \<in> set rows" for x
  proof -
    have "ck_id x \<in> set (map ck_id rows)" using that by simp
    then show ?thesis unfolding r(2) by simp
  qed
  have "sorted_wrt (<) (map ck_id rows)" unfolding r(2) by (rule sorted_wrt_upt)
  then show ?thesis
    using ids_ok_filter [OF assms, of "\<lambda>r. \<not> (of_tenant u a r \<and> of_source kind source r)"] new r(3)
    by (fastforce simp: r(1) ids_ok_def sorted_wrt_append)
next
  case False
  with cloud_index_eq(3) [of tk e kind source doc u a now db] assms show ?thesis by auto
qed

definition pending_rows :: "uuid \<Rightarrow> uuid \<Rightarrow> tenant_chunk chunk_db \<Rightarrow> tenant_chunk list" where
  "pending_rows u a db = filter (\<lambda>r. of_tenant u a r \<and> ck_embedding r = None) (cd_rows db)"

lemma list_pending:
  assumes "ids_ok db" and "0 \<le> limit"
  shows "list_pending_embeddings (Some u) a limit db = Inr (map (\<lambda>r. (ck_id r, ck_content r)) (take (nat limit) (pending_rows u a db)))"
proof -
  have "sorted (map ck_id (pending_rows u a db))"
    using assms(1) sorted_wrt_filter_map [of ck_id "cd_rows db"] by (simp add: ids_ok_def pending_rows_def strict_sorted_iff)
  then have "sort_key ck_id (pending_rows u a db) = pending_rows u a db" by (simp add: sort_key_id_if_sorted)
  then show ?thesis using assms(2) by (simp add: list_pending_embeddings_def current_user_id_def pending_rows_def)
qed

definition filled :: "string \<Rightarrow> (nat \<times> real list) list \<Rightarrow> tenant_chunk \<Rightarrow> tenant_chunk" where
  "filled model ivs r = (case map_of ivs (ck_id r) of None \<Rightarrow> r | Some v \<Rightarrow> r\<lparr>ck_embedding := Some v, ck_model := model\<rparr>)"

lemma fill_all:
  assumes "distinct (map fst ivs)" and "\<forall>(i, v) \<in> set ivs. length v = EMBED_DIM"
  shows "fill_embeddings model ivs db = Inr (db\<lparr>cd_rows := map (filled model ivs) (cd_rows db)\<rparr>)"
  using assms
proof (induction ivs arbitrary: db)
  case Nil
  then show ?case by (simp add: filled_def)
next
  case (Cons p ivs)
  obtain i v where p: "p = (i, v)" by fastforce
  have v: "length v = EMBED_DIM" "v \<noteq> []" using Cons.prems(2) by (auto simp: p EMBED_DIM_def)
  have i: "map_of ivs i = None" using Cons.prems(1) by (simp add: p map_of_eq_None_iff)
  have "filled model ivs (if ck_id r = i then r\<lparr>ck_embedding := Some v, ck_model := model\<rparr> else r) = filled model (p # ivs) r" for r
    using i by (simp add: filled_def p split: option.split)
  then show ?case using Cons v by (simp add: p set_embedding_def)
qed

lemma taken_away:
  assumes "distinct (map f xs)"
  shows "filter (\<lambda>r. f r \<notin> f ` set (take n xs)) xs = drop n xs"
proof -
  have d: "distinct (map f (take n xs @ drop n xs))" using assms by simp
  have "filter (\<lambda>r. f r \<notin> f ` set (take n xs)) (take n xs @ drop n xs) = drop n xs"
    using d by (simp del: append_take_drop_id) (auto simp: filter_empty_conv filter_id_conv)
  then show ?thesis by simp
qed

text \<open>A provider that answers a vector of the right length for each text.\<close>

definition answers :: "embedder \<Rightarrow> bool" where
  "answers e \<longleftrightarrow> (\<forall>ts. \<exists>vs. eb_batch e ts = Inr vs \<and> length vs = length ts \<and> list_all (\<lambda>v. length v = EMBED_DIM) vs)"

lemma run_embed_step:
  assumes "answers e" and "ids_ok db" and "0 \<le> limit"
  shows "\<exists>db'. run_embed e u a limit db = (Inr True, db') \<and> ids_ok db' \<and>
    pending_rows u a db' = drop (nat limit) (pending_rows u a db) \<and>
    filter (\<lambda>r. \<not> of_tenant u a r) (cd_rows db') = filter (\<lambda>r. \<not> of_tenant u a r) (cd_rows db)"
proof -
  let ?taken = "take (nat limit) (pending_rows u a db)"
  from assms(1) obtain vs where vs: "eb_batch e (map ck_content ?taken) = Inr vs" "length vs = length ?taken"
    "list_all (\<lambda>v. length v = EMBED_DIM) vs" unfolding answers_def by (metis length_map)
  let ?ivs = "zip (map ck_id ?taken) vs"
  have dist: "distinct (map ck_id (pending_rows u a db))"
    using assms(2) sorted_wrt_filter_map [of ck_id "cd_rows db"] by (simp add: ids_ok_def pending_rows_def strict_sorted_iff)
  have fst: "map fst ?ivs = map ck_id ?taken" using vs(2) by simp
  have "distinct (map fst ?ivs)" unfolding fst using dist by (simp add: take_map [symmetric])
  moreover have "\<forall>(i, v) \<in> set ?ivs. length v = EMBED_DIM" using vs(3) by (auto simp: list_all_iff dest: set_zip_rightD)
  ultimately have fill: "fill_embeddings (eb_model e) ?ivs db = Inr (db\<lparr>cd_rows := map (filled (eb_model e) ?ivs) (cd_rows db)\<rparr>)"
    by (rule fill_all)
  let ?db = "if ?taken = [] then db else db\<lparr>cd_rows := map (filled (eb_model e) ?ivs) (cd_rows db)\<rparr>"
  have run: "run_embed e u a limit db = (Inr True, ?db)"
    using list_pending [OF assms(2,3), of u a] vs(1) fill by (simp add: run_embed_def o_def)
  show ?thesis
  proof (cases "?taken = []")
    case True
    then have "drop (nat limit) (pending_rows u a db) = pending_rows u a db" by auto
    with True run assms(2) show ?thesis by simp
  next
    case False
    have keeps: "ck_id (filled m ivs r) = ck_id r" "of_tenant u a (filled m ivs r) = of_tenant u a r" for m ivs r
      by (simp_all add: filled_def of_tenant_def split: option.split)
    have none: "ck_embedding (filled m ?ivs r) = None \<longleftrightarrow> ck_embedding r = None \<and> ck_id r \<notin> ck_id ` set ?taken" for m r
    proof -
      have "map_of ?ivs (ck_id r) = None \<longleftrightarrow> ck_id r \<notin> ck_id ` set ?taken"
        using fst by (metis map_of_eq_None_iff list.set_map)
      then show ?thesis by (auto simp: filled_def split: option.split)
    qed
    have kept: "filled m ?ivs r = r" if "r \<in> set (cd_rows db)" "\<not> of_tenant u a r" for m r
    proof -
      have "ck_id r \<notin> ck_id ` set ?taken"
      proof
        assume "ck_id r \<in> ck_id ` set ?taken"
        then obtain s where s: "s \<in> set ?taken" "ck_id s = ck_id r" by auto
        then have "s \<in> set (cd_rows db)" "of_tenant u a s" by (auto simp: pending_rows_def dest: in_set_takeD)
        moreover have "distinct (map ck_id (cd_rows db))" using assms(2) by (simp add: ids_ok_def strict_sorted_iff)
        ultimately show False using s(2) that by (metis distinct_map inj_onD)
      qed
      then have "map_of ?ivs (ck_id r) = None" using fst by (metis map_of_eq_None_iff list.set_map)
      then show ?thesis by (simp add: filled_def)
    qed
    define g where "g = filled (eb_model e) ?ivs"
    define ids where "ids = ck_id ` set ?taken"
    have g: "of_tenant u a (g r) = of_tenant u a r" "ck_embedding (g r) = None \<longleftrightarrow> ck_embedding r = None \<and> ck_id r \<notin> ids" for r
      unfolding g_def ids_def by (rule keeps none)+
    have "pending_rows u a (db\<lparr>cd_rows := map g (cd_rows db)\<rparr>) = map g (filter (\<lambda>r. ck_id r \<notin> ids) (pending_rows u a db))"
      by (simp add: pending_rows_def filter_map o_def g conj_assoc)
    then have "pending_rows u a ?db = map (filled (eb_model e) ?ivs) (filter (\<lambda>r. ck_id r \<notin> ck_id ` set ?taken) (pending_rows u a db))"
      using False by (simp only: g_def ids_def if_False)
    also have "\<dots> = map (filled (eb_model e) ?ivs) (drop (nat limit) (pending_rows u a db))"
      by (simp only: taken_away [OF dist])
    also have "\<dots> = drop (nat limit) (pending_rows u a db)"
    proof (rule map_idI)
      fix r
      assume "r \<in> set (drop (nat limit) (pending_rows u a db))"
      then have "r \<in> set (filter (\<lambda>r. ck_id r \<notin> ck_id ` set ?taken) (pending_rows u a db))" unfolding taken_away [OF dist] .
      then have "ck_id r \<notin> ck_id ` set ?taken" by (simp only: set_filter mem_Collect_eq) blast
      then have "map_of ?ivs (ck_id r) = None" using fst by (metis map_of_eq_None_iff list.set_map)
      then show "filled (eb_model e) ?ivs r = r" by (simp add: filled_def)
    qed
    finally have "pending_rows u a ?db = drop (nat limit) (pending_rows u a db)" .
    moreover have "ids_ok ?db" using assms(2) False by (simp add: ids_ok_def o_def keeps)
    moreover have "filter (\<lambda>r. \<not> of_tenant u a r) (cd_rows ?db) = filter (\<lambda>r. \<not> of_tenant u a r) (cd_rows db)"
      using False by (simp add: filter_map o_def keeps) (rule map_idI, use kept in auto)
    ultimately show ?thesis using run by blast
  qed
qed

fun embed_rounds :: "embedder \<Rightarrow> uuid \<Rightarrow> uuid \<Rightarrow> int \<Rightarrow> nat \<Rightarrow> tenant_chunk chunk_db \<Rightarrow> tenant_chunk chunk_db" where
  "embed_rounds e u a limit 0 db = db"
| "embed_rounds e u a limit (Suc n) db = embed_rounds e u a limit n (snd (run_embed e u a limit db))"

text \<open>
  C35. While the provider answers, each run of the job takes the oldest pending chunks of the tenant off the
  list, as many as its limit, and touches no other tenant's; so after enough runs none is pending.
\<close>

theorem embed_drains:
  assumes "answers e" and "ids_ok db" and "0 < limit"
  shows "pending_rows u a (embed_rounds e u a limit n db) = drop (n * nat limit) (pending_rows u a db) \<and>
    filter (\<lambda>r. \<not> of_tenant u a r) (cd_rows (embed_rounds e u a limit n db)) = filter (\<lambda>r. \<not> of_tenant u a r) (cd_rows db) \<and>
    pending_rows u a (embed_rounds e u a limit (length (pending_rows u a db)) db) = []"
proof -
  have rounds: "pending_rows u a (embed_rounds e u a limit n db) = drop (n * nat limit) (pending_rows u a db) \<and>
    filter (\<lambda>r. \<not> of_tenant u a r) (cd_rows (embed_rounds e u a limit n db)) = filter (\<lambda>r. \<not> of_tenant u a r) (cd_rows db)" for n
    using assms(2)
  proof (induction n arbitrary: db)
    case (Suc n)
    from run_embed_step [OF assms(1) Suc.prems, of limit u a] assms(3) obtain db' where
      "run_embed e u a limit db = (Inr True, db')" "ids_ok db'" "pending_rows u a db' = drop (nat limit) (pending_rows u a db)"
      "filter (\<lambda>r. \<not> of_tenant u a r) (cd_rows db') = filter (\<lambda>r. \<not> of_tenant u a r) (cd_rows db)" by auto
    with Suc.IH [of db'] show ?case by (simp add: add.commute)
  qed simp
  have "length (pending_rows u a db) \<le> length (pending_rows u a db) * nat limit" using assms(3) by (cases "nat limit") auto
  with rounds [of "length (pending_rows u a db)"] rounds [of n] show ?thesis by simp
qed

definition steady_embedder :: embedder where
  "steady_embedder = \<lparr>eb_embed = (\<lambda>_. Inr (replicate EMBED_DIM 1)), eb_batch = (\<lambda>ts. Inr (map (\<lambda>_. replicate EMBED_DIM 1) ts)),
     eb_model = ''steady''\<rparr>"

lemma embed_drains_witness:
  "pending_rows 7 1 (embed_rounds steady_embedder 7 1 1 2 \<lparr>cd_rows = [chunk_of 0 7 ''a'', chunk_of 1 8 ''b'', chunk_of 2 7 ''c''], cd_next = 3\<rparr>) = []"
proof -
  let ?db = "\<lparr>cd_rows = [chunk_of 0 7 ''a'', chunk_of 1 8 ''b'', chunk_of 2 7 ''c''], cd_next = 3\<rparr>"
  have "answers steady_embedder" by (simp add: answers_def steady_embedder_def list_all_iff)
  moreover have "ids_ok ?db" by (simp add: ids_ok_def chunk_of_def)
  ultimately have "pending_rows 7 1 (embed_rounds steady_embedder 7 1 1 2 ?db) = drop (2 * nat 1) (pending_rows 7 1 ?db)"
    using embed_drains [of steady_embedder ?db 1 7 1 2] by simp
  then show ?thesis by (simp add: pending_rows_def of_tenant_def chunk_of_def)
qed

text \<open>
  Where the provider answers an empty vector for each of the oldest pending chunks (as the null provider,
  chosen when no key is configured, does for all), the job reports success, changes nothing, and picks the
  same chunks the next time: no chunk after them is ever reached.
\<close>

theorem embed_starves:
  assumes "ids_ok db" and "0 \<le> limit"
    and "eb_batch e (map ck_content (take (nat limit) (pending_rows u a db))) = Inr vs" and "\<forall>v \<in> set vs. v = []"
  shows "run_embed e u a limit db = (Inr True, db) \<and> embed_rounds e u a limit n db = db"
proof -
  have "fill_embeddings m (zip is vs) db = Inr db" for m "is"
    using assms(4) by (induction "is" vs rule: list_induct2') auto
  then have run: "run_embed e u a limit db = (Inr True, db)"
    using list_pending [OF assms(1,2), of u a] assms(3) by (simp add: run_embed_def o_def)
  moreover have "embed_rounds e u a limit n db = db" by (induction n) (simp_all add: run)
  ultimately show ?thesis by simp
qed

lemma embed_starves_witness:
  "run_embed null_embedder 7 1 50 \<lparr>cd_rows = [chunk_of 0 7 ''a''], cd_next = 1\<rparr> = (Inr True, \<lparr>cd_rows = [chunk_of 0 7 ''a''], cd_next = 1\<rparr>)"
  using embed_starves [of "\<lparr>cd_rows = [chunk_of 0 7 ''a''], cd_next = 1\<rparr>" 50 null_embedder 7 1 "[[]]"]
  by (simp add: ids_ok_def chunk_of_def pending_rows_def of_tenant_def null_embedder_def)

subsection \<open>The search tool\<close>

text \<open>
  Whatever the model asks for, the tool asks the index for one to twenty chunks and shows at most 480
  characters of each; of an index that honours the number it shows at most twenty.
\<close>

theorem memory_search_bounded:
  assumes "\<And>q k rows. lookup q k = Inr rows \<Longrightarrow> length rows \<le> k"
    and "memory_search round4 lookup query k = Search_Results rows"
  shows "length rows \<le> 20 \<and> (\<forall>r \<in> set rows. length (re_content r) \<le> 481)"
proof -
  let ?k = "max 1 (min (if k = 0 then SEARCH_DEFAULT_K else k) SEARCH_MAX_K)"
  from assms(2) obtain rs where rs: "lookup query (nat ?k) = Inr rs"
    "rows = map (\<lambda>r. r\<lparr>re_score := round4 (re_score r), re_content := preview (re_content r)\<rparr>) rs"
    by (auto simp: memory_search_def Let_def split: if_splits sum.splits)
  have "nat ?k \<le> 20" by (simp add: SEARCH_MAX_K_def)
  with assms(1) [OF rs(1)] have "length rows \<le> 20" using rs(2) by simp
  moreover have "length (preview s) \<le> 481" for s by (simp add: preview_def SEARCH_PREVIEW_CHARS_def)
  ultimately show ?thesis using rs(2) by auto
qed

lemma memory_search_bounded_witness:
  "\<exists>rows. memory_search (\<lambda>x. x) (\<lambda>q k. recall_cloud_search word_text null_embedder 7 1 q k \<lparr>cd_rows = [chunk_of 0 7 ''a''], cd_next = 1\<rparr>)
     (codes ''a'') 1000 = Search_Results rows \<and> length rows \<le> 20"
proof -
  let ?f = "\<lambda>q k. recall_cloud_search word_text null_embedder 7 1 q k \<lparr>cd_rows = [chunk_of 0 7 ''a''], cd_next = 1\<rparr>"
  have len: "length rows \<le> k" if "?f q k = Inr rows" for q k rows
    using that by (rule search_at_most)
  obtain rows where rows: "memory_search (\<lambda>x. x) ?f (codes ''a'') 1000 = Search_Results rows"
    by (simp add: memory_search_def recall_cloud_search_def hybrid_search_def current_user_id_def is_space_def Let_def query_vector_def null_embedder_def)
  have "length rows \<le> 20" by (rule memory_search_bounded [where lookup = ?f, OF len rows, THEN conjunct1]) assumption
  with rows show ?thesis by blast
qed

end
