(* ===== verification/Summaries.thy ===== *)
theory Summaries
  imports Recall_Facts Session_Routes
begin

text \<open>
  Summaries of finished sessions: \<open>repositories/session_summary_repo.py\<close>, \<open>agent/summarizer.py\<close>, the job
  \<open>worker/summarize.py\<close>, the sweep \<open>scheduler/summarize_tick.py\<close>, and how \<open>web/turn_engine.py\<close> puts
  them into the prompt of a turn.  The side agent is a function from its prompt to its final output, or it
  raises.  Times are microseconds.
\<close>

subsection \<open>The repository\<close>

record digest_row =
  dg_session :: string
  dg_user :: uuid
  dg_agent :: uuid
  dg_summary :: string
  dg_topic :: "string option"
  dg_generator :: string
  dg_at :: int

text \<open>
  The session of a row exists, and there is one row of a session.  A conflict replaces what the row says
  but not whose it is.
\<close>

definition digest_upsert ::
  "uuid option \<Rightarrow> uuid \<Rightarrow> int \<Rightarrow> string \<Rightarrow> string \<Rightarrow> string option \<Rightarrow> string \<Rightarrow> pg_db \<Rightarrow> digest_row list \<Rightarrow> digest_row list result"
where
  "digest_upsert guc agent now sid summary topic generator db t =
     bind_result (current_user_id guc) (\<lambda>u.
       if \<not> pg_text (codes summary) \<or> \<not> pg_text (codes (case topic of None \<Rightarrow> [] | Some x \<Rightarrow> x)) then Inl DataError
       else if sid \<notin> ss_id ` set (pd_sessions db) then Inl IntegrityError
       else if list_ex (\<lambda>r. dg_session r = sid) t
       then Inr (map (\<lambda>r. if dg_session r = sid
              then r\<lparr>dg_summary := summary, dg_topic := topic, dg_generator := generator, dg_at := now\<rparr> else r) t)
       else Inr (t @ [\<lparr>dg_session = sid, dg_user = u, dg_agent = agent, dg_summary = summary, dg_topic = topic,
              dg_generator = generator, dg_at = now\<rparr>]))"

definition digest_get :: "uuid option \<Rightarrow> string \<Rightarrow> digest_row list \<Rightarrow> digest_row option result" where
  "digest_get guc sid t =
     bind_result (current_user_id guc) (\<lambda>u. scalar_one_or_none (filter (\<lambda>r. dg_session r = sid \<and> dg_user r = u) t))"

definition digest_list_recent ::
  "uuid option \<Rightarrow> uuid option \<Rightarrow> string option \<Rightarrow> int \<Rightarrow> digest_row list \<Rightarrow> digest_row list result"
where
  "digest_list_recent guc agent exclude limit t =
     bind_result (current_user_id guc) (\<lambda>u.
       pg_limit limit (sort_key (\<lambda>r. - dg_at r) (filter (\<lambda>r. dg_user r = u \<and>
         (case agent of None \<Rightarrow> True | Some a \<Rightarrow> dg_agent r = a) \<and>
         (case exclude of None \<Rightarrow> True | Some s \<Rightarrow> dg_session r \<noteq> s)) t)))"

text \<open>
  The sessions without a row whose last message, or for lack of one their start, is past the cutoff.  The
  agent of a session, a column the repository of sessions never sets, is the argument \<open>agent_of\<close>.
\<close>

record idle_session =
  id_session :: string
  id_user :: uuid
  id_agent :: "uuid option"

definition last_activity :: "pg_message list \<Rightarrow> pg_session \<Rightarrow> int" where
  "last_activity ms s =
     (let ts = map mr_ts (filter (\<lambda>r. mr_session r = ss_id s) ms) in if ts = [] then ss_started_at s else Max (set ts))"

definition find_idle_sessions ::
  "(string \<Rightarrow> uuid option) \<Rightarrow> int \<Rightarrow> int \<Rightarrow> int \<Rightarrow> pg_db \<Rightarrow> digest_row list \<Rightarrow> idle_session list result"
where
  "find_idle_sessions agent_of idle_hours limit now db t =
     bind_result (pg_limit limit (sort_key ss_started_at (filter (\<lambda>s. ss_id s \<notin> dg_session ` set t \<and>
         last_activity (pd_messages db) s < now - idle_hours * 3600 * 10 ^ 6) (pd_sessions db))))
       (\<lambda>rows. Inr (map (\<lambda>s. \<lparr>id_session = ss_id s, id_user = ss_user s, id_agent = agent_of (ss_id s)\<rparr>) rows))"

subsection \<open>The sweep\<close>

definition DEFAULT_IDLE_HOURS :: int where "DEFAULT_IDLE_HOURS = 24"
definition SUMMARIZE_SCAN_LIMIT :: int where "SUMMARIZE_SCAN_LIMIT = 200"

definition new_summarize_message :: "uuid \<Rightarrow> uuid \<Rightarrow> string \<Rightarrow> summarize_message" where
  "new_summarize_message u a sid =
     \<lparr>su_kind = SUMMARIZE_KIND, su_user_id = uuid_str u, su_agent_id = uuid_str a, su_session_id = sid, su_model = []\<rparr>"

definition summarize_tick ::
  "(string \<Rightarrow> uuid option) \<Rightarrow> int \<Rightarrow> pg_db \<Rightarrow> digest_row list \<Rightarrow> (json \<Rightarrow> 'q \<Rightarrow> 'q) \<Rightarrow> 'q \<Rightarrow> (nat \<times> 'q) result"
where
  "summarize_tick agent_of now db t send q =
     bind_result (find_idle_sessions agent_of DEFAULT_IDLE_HOURS SUMMARIZE_SCAN_LIMIT now db t) (\<lambda>idle.
       let ms = List.map_filter (\<lambda>s. map_option (\<lambda>a. summarize_to_json (new_summarize_message (id_user s) a (id_session s)))
             (id_agent s)) idle
       in Inr (length ms, fold send ms q))"

subsection \<open>The summariser\<close>

definition SUMMARIZER_MAX_MESSAGES :: nat where "SUMMARIZER_MAX_MESSAGES = 20"
definition SUMMARIZER_MAX_SUMMARY_CHARS :: nat where "SUMMARIZER_MAX_SUMMARY_CHARS = 300"
definition SUMMARIZER_MAX_TOPIC_CHARS :: nat where "SUMMARIZER_MAX_TOPIC_CHARS = 80"

definition summarizer_tail :: "dict list \<Rightarrow> dict list" where
  "summarizer_tail ms =
     (let substantive = filter (\<lambda>m. (py_get m ''role'' = JStr ''user'' \<or> py_get m ''role'' = JStr ''assistant'') \<and>
            truthy (py_get m ''content'')) ms
      in drop (length substantive - SUMMARIZER_MAX_MESSAGES) substantive)"

text \<open>
  A topic and a summary, both empty for nothing.  The reader answers a document, nothing where
  \<open>json.loads\<close> raises \<open>JSONDecodeError\<close>, and the exception where it raises another one: \<open>ValueError\<close> on an
  integer of more than 4300 digits, \<open>RecursionError\<close> on deep nesting; that one is not caught.
\<close>

definition parse_summary :: "(string \<Rightarrow> json option result) \<Rightarrow> string \<Rightarrow> (string \<times> string) result" where
  "parse_summary loads output =
     bind_result (loads (unfenced output)) (\<lambda>doc.
       Inr (case doc of
          Some (JObj d) \<Rightarrow> (take SUMMARIZER_MAX_TOPIC_CHARS (py_strip (get_text d ''topic'')),
            take SUMMARIZER_MAX_SUMMARY_CHARS (py_strip (get_text d ''summary'')))
        | _ \<Rightarrow> ([], [])))"

definition summarizer_run ::
  "(string \<Rightarrow> json option result) \<Rightarrow> (json \<Rightarrow> string option result) \<Rightarrow> dict list \<Rightarrow> (string \<times> string) result"
where
  "summarizer_run loads side ms =
     (let tail = summarizer_tail ms in
      if tail = [] then Inr ([], [])
      else (case side (JObj [(''messages'', JArr (map JObj tail))]) of
              Inl _ \<Rightarrow> Inr ([], [])
            | Inr None \<Rightarrow> Inr ([], [])
            | Inr (Some s) \<Rightarrow> if s = [] then Inr ([], []) else parse_summary loads s))"

subsection \<open>The job\<close>

definition compose_indexable :: "string \<Rightarrow> string \<Rightarrow> string" where
  "compose_indexable topic summary =
     (if py_strip topic = [] then py_strip summary else py_strip topic @ '': '' @ py_strip summary)"

record digest_world =
  dw_pg :: pg_db
  dw_digests :: "digest_row list"
  dw_chunks :: "tenant_chunk chunk_db"

definition DEFAULT_SUMMARIZER_MODEL :: string where "DEFAULT_SUMMARIZER_MODEL = ''gpt-5.4-mini''"

text \<open>The ids of the message are parsed by the session; \<open>side\<close> is given the model it runs on.\<close>

definition run_summarize ::
  "(string \<Rightarrow> json option result) \<Rightarrow> (string \<Rightarrow> json \<Rightarrow> string option result) \<Rightarrow> tokeniser option \<Rightarrow> embedder \<Rightarrow> int \<Rightarrow> uuid \<Rightarrow> uuid
     \<Rightarrow> string \<Rightarrow> string \<Rightarrow> digest_world \<Rightarrow> bool result \<times> digest_world"
where
  "run_summarize loads side tk e now u a sid model0 w =
     (case pg_get_session_meta (Some u) sid (dw_pg w) of
        Inl ex \<Rightarrow> (Inl ex, w)
      | Inr None \<Rightarrow> (Inr True, w)
      | Inr (Some _) \<Rightarrow>
          (case pg_get_messages (Some u) sid None (dw_pg w) of
             Inl ex \<Rightarrow> (Inl ex, w)
           | Inr ms \<Rightarrow>
               (if ms = [] then (Inr True, w)
                else (let model = (if model0 = [] then DEFAULT_SUMMARIZER_MODEL else model0) in
                  case summarizer_run loads (side model) ms of
                    Inl _ \<Rightarrow> (Inr False, w)
                  | Inr (topic, summary) \<Rightarrow>
                      (if py_strip summary = [] then (Inr True, w)
                       else (case digest_upsert (Some u) a now sid summary (if topic = [] then None else Some topic) model
                                    (dw_pg w) (dw_digests w) of
                               Inl ex \<Rightarrow> (Inl ex, w)
                             | Inr ds \<Rightarrow>
                                 (Inr True, w\<lparr>dw_digests := ds,
                                    dw_chunks := snd (recall_cloud_index tk e u a now ''session_summary'' (Some sid)
                                      (codes (compose_indexable topic summary)) (dw_chunks w))\<rparr>)))))))"

subsection \<open>Summaries in the prompt of a turn\<close>

text \<open>\<open>str.partition\<close>: what is before the separator and what is after it.\<close>

definition partition_at :: "pystr \<Rightarrow> pystr \<Rightarrow> pystr \<times> pystr" where
  "partition_at sep s =
     (case find (\<lambda>i. take (length sep) (drop i s) = sep) [0..<Suc (length s)] of
        None \<Rightarrow> (s, [])
      | Some i \<Rightarrow> (take i s, drop (i + length sep) s))"

definition block_of_content :: "pystr \<Rightarrow> session_summary" where
  "block_of_content content =
     (let (topic, summary) = partition_at (codes '': '') content
      in \<lparr>ss_topic = (if summary = [] then [] else strip topic), ss_summary = strip (if summary = [] then topic else summary)\<rparr>)"

definition recent_blocks :: "digest_row list \<Rightarrow> session_summary list" where
  "recent_blocks rows = map (\<lambda>r. \<lparr>ss_topic = codes (case dg_topic r of None \<Rightarrow> [] | Some t \<Rightarrow> t), ss_summary = codes (dg_summary r)\<rparr>) rows"

definition relevant_blocks :: "session_summary list \<Rightarrow> recalled list \<Rightarrow> session_summary list" where
  "relevant_blocks recent hits =
     filter (\<lambda>b. b \<notin> set recent) (map (\<lambda>h. block_of_content (strip (re_content h)))
       (filter (\<lambda>h. re_kind h = ''session_summary'' \<and> strip (re_content h) \<noteq> []) hits))"

text \<open>
  The two session blocks of a cloud turn: the three latest summaries of other sessions, and, when the
  session is new and the search works, what it finds.
\<close>

definition session_blocks ::
  "full_text \<Rightarrow> embedder \<Rightarrow> uuid \<Rightarrow> uuid \<Rightarrow> string \<Rightarrow> pystr \<Rightarrow> digest_world \<Rightarrow> (session_summary list \<times> session_summary list) result"
where
  "session_blocks ft e u a sid request w =
     bind_result (digest_list_recent (Some u) (Some a) (Some sid) 3 (dw_digests w)) (\<lambda>rows.
     bind_result (pg_get_session_meta (Some u) sid (dw_pg w)) (\<lambda>meta.
       let recent = recent_blocks rows in
       Inr (recent,
         if meta = None \<and> strip request \<noteq> []
         then relevant_blocks recent (case recall_cloud_search ft e u a request 3 (dw_chunks w) of Inl _ \<Rightarrow> [] | Inr hits \<Rightarrow> hits)
         else [])))"

subsection \<open>What the job does\<close>

lemma strip_codes: "strip (codes s) = codes (py_strip s)"
proof -
  have space: "is_space (of_char c) = py_isspace c" for c
  proof -
    define n where "n = (of_char c :: nat)"
    then have "n < 256" by simp
    then show ?thesis unfolding is_space_def py_isspace_def Let_def n_def [symmetric] by auto
  qed
  have "dropWhile is_space (codes x) = codes (dropWhile py_isspace x)" for x
    by (induction x) (simp_all add: space)
  then show ?thesis by (simp add: strip_def rstrip_def lstrip_def py_strip_def py_lstrip_def codes_def rev_map)
qed

lemma parse_summary_bounded: "parse_summary loads s = Inr (t, y) \<Longrightarrow> length t \<le> 80 \<and> length y \<le> 300"
proof -
  assume "parse_summary loads s = Inr (t, y)"
  then obtain doc where "(case doc of Some (JObj d) \<Rightarrow> (take SUMMARIZER_MAX_TOPIC_CHARS (py_strip (get_text d ''topic'')),
        take SUMMARIZER_MAX_SUMMARY_CHARS (py_strip (get_text d ''summary''))) | _ \<Rightarrow> ([], [])) = (t, y)"
    by (auto simp: parse_summary_def bind_result_eq_Inr)
  then show ?thesis
  proof (cases doc)
    case (Some v)
    with \<open>_ = (t, y)\<close> show ?thesis
      by (cases v) (auto simp: SUMMARIZER_MAX_TOPIC_CHARS_def SUMMARIZER_MAX_SUMMARY_CHARS_def)
  qed auto
qed

lemma summarizer_bounded: "summarizer_run loads side ms = Inr (t, y) \<Longrightarrow> length t \<le> 80 \<and> length y \<le> 300"
  using parse_summary_bounded by (auto simp: summarizer_run_def Let_def split: if_splits sum.splits option.splits)

lemma filter_single: "distinct (map f xs) \<Longrightarrow> y \<in> set xs \<Longrightarrow> filter (\<lambda>r. f r = f y) xs = [y]"
  by (induction xs) (auto simp: filter_empty_conv, metis imageI)

lemma filter_updated:
  "(\<And>x. dg_session (f x) = dg_session x) \<Longrightarrow>
     filter (\<lambda>r. dg_session r = sid) (map (\<lambda>r. if dg_session r = sid then f r else r) xs) = map f (filter (\<lambda>r. dg_session r = sid) xs)"
  "(\<And>x. dg_session (f x) = dg_session x) \<Longrightarrow>
     filter (\<lambda>r. dg_session r \<noteq> sid) (map (\<lambda>r. if dg_session r = sid then f r else r) xs) = filter (\<lambda>r. dg_session r \<noteq> sid) xs"
  by (induction xs) auto

text \<open>What a job that wrote has written.\<close>

lemma summarize_written:
  fixes ms :: "dict list"
  assumes "run_summarize loads side tk e now u a sid model w = (Inr True, w')" and "distinct (map dg_session (dw_digests w))"
  shows "w' = w \<or> (\<exists>topic summary r. length topic \<le> 80 \<and> length summary \<le> 300 \<and> py_strip summary \<noteq> [] \<and> dw_pg w' = dw_pg w \<and>
    filter (\<lambda>r. dg_session r = sid) (dw_digests w') = [r] \<and> dg_summary r = summary \<and> dg_at r = now \<and>
    dg_topic r = (if topic = [] then None else Some topic) \<and>
    filter (\<lambda>r. dg_session r \<noteq> sid) (dw_digests w') = filter (\<lambda>r. dg_session r \<noteq> sid) (dw_digests w) \<and>
    ((dg_user r = u \<and> dg_agent r = a) \<or> (\<exists>x \<in> set (dw_digests w). dg_session x = sid \<and> dg_user r = dg_user x \<and> dg_agent r = dg_agent x)) \<and>
    cloud_part u a (dw_chunks w') = (let key = (''session_summary'', Some sid); doc = codes (compose_indexable topic summary) in
      if cloud_admits tk e key doc then (cloud_part u a (dw_chunks w))(key := chunk_text tk doc) else cloud_part u a (dw_chunks w)))"
proof (cases "w' = w")
  case False
  from assms(1) False obtain ms m topic summary ds where run: "summarizer_run loads (side m) ms = Inr (topic, summary)"
    "py_strip summary \<noteq> []"
    and ds: "digest_upsert (Some u) a now sid summary (if topic = [] then None else Some topic) m (dw_pg w) (dw_digests w) = Inr ds"
    and w': "w' = w\<lparr>dw_digests := ds, dw_chunks := snd (recall_cloud_index tk e u a now ''session_summary'' (Some sid)
        (codes (compose_indexable topic summary)) (dw_chunks w))\<rparr>"
    by (auto simp: run_summarize_def Let_def split: sum.splits option.splits if_splits prod.splits)
  have len: "length topic \<le> 80" "length summary \<le> 300" using summarizer_bounded [OF run(1)] by simp_all
  have rows: "\<exists>r. filter (\<lambda>r. dg_session r = sid) ds = [r] \<and> dg_summary r = summary \<and> dg_at r = now \<and>
      dg_topic r = (if topic = [] then None else Some topic) \<and>
      ((dg_user r = u \<and> dg_agent r = a) \<or> (\<exists>x \<in> set (dw_digests w). dg_session x = sid \<and> dg_user r = dg_user x \<and> dg_agent r = dg_agent x))"
  proof (cases "sid \<in> dg_session ` set (dw_digests w)")
    case True
    then obtain r where r: "r \<in> set (dw_digests w)" "dg_session r = sid" by auto
    with filter_single [OF assms(2) r(1)] have one: "filter (\<lambda>r. dg_session r = sid) (dw_digests w) = [r]" by simp
    from r ds have "ds = map (\<lambda>r. if dg_session r = sid then r\<lparr>dg_summary := summary,
        dg_topic := (if topic = [] then None else Some topic), dg_generator := m, dg_at := now\<rparr> else r) (dw_digests w)"
      by (auto simp: digest_upsert_def current_user_id_def list_ex_iff split: if_splits)
    then show ?thesis using one r by (auto simp: filter_updated)
  next
    case False
    then have "filter (\<lambda>r. dg_session r = sid) (dw_digests w) = []" "\<not> list_ex (\<lambda>r. dg_session r = sid) (dw_digests w)"
      by (auto simp: filter_empty_conv list_ex_iff)
    with ds show ?thesis by (auto simp: digest_upsert_def current_user_id_def split: if_splits)
  qed
  have others: "filter (\<lambda>r. dg_session r \<noteq> sid) ds = filter (\<lambda>r. dg_session r \<noteq> sid) (dw_digests w)"
    using ds by (auto simp: digest_upsert_def current_user_id_def filter_updated split: if_splits)
  have "cloud_part u a (dw_chunks w') = (if cloud_admits tk e (''session_summary'', Some sid) (codes (compose_indexable topic summary))
      then (cloud_part u a (dw_chunks w))((''session_summary'', Some sid) := chunk_text tk (codes (compose_indexable topic summary)))
      else cloud_part u a (dw_chunks w))"
    using cloud_recall.put_admitted [of tk e "(''session_summary'', Some sid)" "codes (compose_indexable topic summary)" u a now "dw_chunks w"]
      cloud_recall.put_refused [of tk e "(''session_summary'', Some sid)" "codes (compose_indexable topic summary)" u a now "dw_chunks w"]
    by (auto simp: w')
  moreover from rows obtain r where "filter (\<lambda>r. dg_session r = sid) ds = [r]" "dg_summary r = summary" "dg_at r = now"
    "dg_topic r = (if topic = [] then None else Some topic)"
    "(dg_user r = u \<and> dg_agent r = a) \<or> (\<exists>x \<in> set (dw_digests w). dg_session x = sid \<and> dg_user r = dg_user x \<and> dg_agent r = dg_agent x)" by blast
  ultimately show ?thesis using len run(2) others
    by - (rule disjI2, rule exI [of _ topic], rule exI [of _ summary], rule exI [of _ r], simp add: w' Let_def)
qed simp

text \<open>
  The job changes nothing, or it makes what the summariser said, a topic of at most 80 and a summary of at
  most 300 characters, the one row of the session and, unless the index refuses it, the session's only
  indexed document; sessions, other rows and other documents stay.
\<close>

theorem summarize_exact:
  fixes ms :: "dict list"
  assumes "run_summarize loads side tk e now u a sid model w = (Inr True, w')" and "distinct (map dg_session (dw_digests w))"
  shows "w' = w \<or> (\<exists>topic summary r. length topic \<le> 80 \<and> length summary \<le> 300 \<and> py_strip summary \<noteq> [] \<and> dw_pg w' = dw_pg w \<and>
    filter (\<lambda>r. dg_session r = sid) (dw_digests w') = [r] \<and> dg_summary r = summary \<and> dg_at r = now \<and>
    dg_topic r = (if topic = [] then None else Some topic) \<and>
    filter (\<lambda>r. dg_session r \<noteq> sid) (dw_digests w') = filter (\<lambda>r. dg_session r \<noteq> sid) (dw_digests w) \<and>
    cloud_part u a (dw_chunks w') = (let key = (''session_summary'', Some sid); doc = codes (compose_indexable topic summary) in
      if cloud_admits tk e key doc then (cloud_part u a (dw_chunks w))(key := chunk_text tk doc) else cloud_part u a (dw_chunks w)))"
  using summarize_written [OF assms] by blast

text \<open>
  A model that fails is no failure of the job: the summariser catches the exception, the message is
  acknowledged, and nothing is written.  The job reports failure, for the queue to deliver again, only
  for a reply that \<open>json.loads\<close> cannot read for another reason than bad JSON.
\<close>

theorem summarize_failure_acked:
  assumes "pg_get_session_meta (Some u) sid (dw_pg w) = Inr (Some s)" and "pg_string sid"
  shows "((\<forall>m p. side m p = Inl ex) \<longrightarrow> run_summarize loads side tk e now u a sid model w = (Inr True, w)) \<and>
    (fst (run_summarize loads side tk e now u a sid model w) = Inr False \<longrightarrow>
      (\<exists>m p out x. side m p = Inr (Some out) \<and> loads (unfenced out) = Inl x))"
proof
  show "(\<forall>m p. side m p = Inl ex) \<longrightarrow> run_summarize loads side tk e now u a sid model w = (Inr True, w)"
    using assms by (simp add: run_summarize_def summarizer_run_def pg_get_messages_def current_user_id_def Let_def)
  show "fst (run_summarize loads side tk e now u a sid model w) = Inr False \<longrightarrow>
      (\<exists>m p out x. side m p = Inr (Some out) \<and> loads (unfenced out) = Inl x)"
    by (auto simp: run_summarize_def summarizer_run_def parse_summary_def bind_result_def Let_def
        split: sum.splits option.splits if_splits prod.splits) 
qed

subsection \<open>From a summary to the prompt\<close>

lemma partition_first:
  assumes "\<not> contains sep s" and "sep = [x, y]" and "x \<noteq> y"
  shows "partition_at sep (s @ sep @ t) = (s, t)"
proof -
  have none: "take 2 (drop i (s @ sep @ t)) \<noteq> sep" if "i < length s" for i
  proof
    assume eq: "take 2 (drop i (s @ sep @ t)) = sep"
    show False
    proof (cases "Suc i < length s")
      case True
      then have "take 2 (drop i s) = sep" using eq by simp
      then have "s = take i s @ sep @ drop (2 + i) s" by (metis append_take_drop_id drop_drop)
      with assms(1) show False by (auto simp: contains_iff)
    next
      case False
      with that have "drop i s = [s ! i]" by (simp add: Cons_nth_drop_Suc [symmetric])
      with eq that assms(2) have "[s ! i, x] = [x, y]" by simp
      with assms(3) show False by simp
    qed
  qed
  let ?P = "\<lambda>i. take (length sep) (drop i (s @ sep @ t)) = sep"
  have len: "length sep = 2" using assms(2) by simp
  have "find ?P [0..<Suc (length (s @ sep @ t))] = Some (length s)"
    unfolding find_Some_iff using none len by (intro exI [of _ "length s"]) (simp del: upt_Suc)
  then show ?thesis by (simp add: partition_at_def)
qed

lemma one_chunk:
  assumes "stripped doc" and "doc \<noteq> []" and "length doc \<le> 1024"
  shows "chunk_text None doc = [doc]"
proof -
  from assms have ne: "strip doc = doc" by simp
  have "windows_from 1024 128 0 doc = [doc]"
    using assms(2,3) by (subst windows_from.simps) (simp add: Let_def)
  with ne assms(2) show ?thesis
    by (simp add: chunk_text_def chunk_with_tokens_def chunk_with_chars_def CHUNK_TOKENS_def CHUNK_OVERLAP_TOKENS_def
        CHARS_PER_TOKEN_FALLBACK_def nonempty_stripped_def del: strip_eq_Nil)
qed

lemma chunk_text_doc:
  assumes "py_strip topic = topic" and "topic \<noteq> []" and "py_strip summary = summary" and "summary \<noteq> []"
    and "length topic \<le> 80" and "length summary \<le> 300"
  shows "chunk_text None (codes (compose_indexable topic summary)) = [codes (compose_indexable topic summary)]"
proof -
  have "stripped (codes topic)" "stripped (codes summary)"
    using assms(1,3) stripped_strip [of "codes topic"] stripped_strip [of "codes summary"] by (simp_all add: strip_codes)
  then have "stripped (codes (compose_indexable topic summary))"
    using assms(1-4) by (simp add: compose_indexable_def stripped_def codes_def)
  then show ?thesis using assms by (intro one_chunk) (simp_all add: compose_indexable_def codes_def)
qed

text \<open>The document of a summary is one chunk, and the prompt takes it apart again.\<close>

lemma summary_block:
  assumes "py_strip topic = topic" and "topic \<noteq> []" and "\<not> contains (codes '': '') (codes topic)"
    and "py_strip summary = summary" and "summary \<noteq> []"
  shows "block_of_content (strip (codes (compose_indexable topic summary))) = \<lparr>ss_topic = codes topic, ss_summary = codes summary\<rparr>"
proof -
  let ?doc = "codes topic @ codes '': '' @ codes summary"
  have doc: "codes (compose_indexable topic summary) = ?doc"
    using assms(1,2,4) by (simp add: compose_indexable_def codes_def)
  have t: "strip (codes topic) = codes topic" "stripped (codes topic)"
    using assms(1) stripped_strip [of "codes topic"] by (simp_all add: strip_codes)
  have s: "strip (codes summary) = codes summary" "stripped (codes summary)"
    using assms(4) stripped_strip [of "codes summary"] by (simp_all add: strip_codes)
  have ne: "codes topic \<noteq> []" "codes summary \<noteq> []" using assms(2,5) by (simp_all add: codes_def)
  then have "strip ?doc = ?doc" using t(2) s(2) by (intro strip_stripped) (simp add: stripped_def)
  moreover have "partition_at (codes '': '') ?doc = (codes topic, codes summary)"
    by (rule partition_first [OF assms(3), of 58 32]) simp_all
  ultimately show ?thesis
    using t(1) s(1) ne unfolding doc by (simp add: block_of_content_def del: codes_simps)
qed

text \<open>What a search finds of a source is a chunk of the tenant's document.\<close>

lemma search_hits_part:
  assumes "recall_cloud_search ft e u a query k db = Inr hits" and "h \<in> set hits"
    and "re_kind h = kind" and "re_source h = Some src"
  shows "re_content h \<in> set (cloud_part u a db (kind, Some src))"
proof -
  have found: "\<exists>s r. h = hit_from s r \<and> r \<in> set rows"
    if "h \<in> (\<lambda>(s, r). hit_from s r) ` set (top_hits k xs)" "snd ` set xs \<subseteq> set rows" for xs and rows :: "tenant_chunk list"
    using that top_hits_best(2) [of k xs] by force
  have sub: "snd ` set (text_scores ft query rows) \<subseteq> set rows" "snd ` set (blended_scores ft query v al rows) \<subseteq> set rows"
    for v al and rows :: "tenant_chunk list"
    by (auto simp: text_scores_def blended_scores_def Let_def)
  let ?rows = "filter (of_tenant u a) (cd_rows db)"
  have rows: "filter (\<lambda>r. ck_user r = u \<and> ck_agent r = a) (cd_rows db) = ?rows"
    by (simp add: of_tenant_def cong: filter_cong)
  have "\<exists>xs. hits = map (\<lambda>(s, r). hit_from s r) (top_hits k xs) \<and> snd ` set xs \<subseteq> set ?rows"
  proof (cases "strip query = []")
    case True
    then have "hits = []" using assms(1) by (simp add: recall_cloud_search_def)
    then show ?thesis using assms(2) by simp
  next
    case False
    then consider "hits = map (\<lambda>(s, r). hit_from s r) (top_hits k (text_scores ft query ?rows))"
      | "hits = map (\<lambda>(s, r). hit_from s r) (top_hits k (blended_scores ft query (query_vector e query) (1 / 2) ?rows))"
      using assms(1) by (auto simp: recall_cloud_search_def hybrid_search_def current_user_id_def Let_def rows split: if_splits)
    then show ?thesis using sub by cases blast+
  qed
  then obtain xs where xs: "hits = map (\<lambda>(s, r). hit_from s r) (top_hits k xs)" "snd ` set xs \<subseteq> set ?rows" by blast
  from assms(2) have "h \<in> (\<lambda>(s, r). hit_from s r) ` set (top_hits k xs)" by (simp only: xs(1) set_map)
  from found [OF this xs(2)] obtain s r where r: "h = hit_from s r" "r \<in> set ?rows" by blast
  then have row: "r \<in> set (cd_rows db)" "of_tenant u a r" by simp_all
  with assms(3,4) have "of_source kind (Some src) r"
    by (auto simp: r(1) hit_from_def of_source_def split: if_splits)
  with r(1) row show ?thesis by (auto simp: cloud_part_def hit_from_def)
qed

text \<open>The block of a row, as the list of recent sessions shows it.\<close>

definition row_block :: "digest_row \<Rightarrow> session_summary" where
  "row_block r = \<lparr>ss_topic = codes (case dg_topic r of None \<Rightarrow> [] | Some t \<Rightarrow> t), ss_summary = codes (dg_summary r)\<rparr>"

lemma recent_blocks_rows: "recent_blocks rows = map row_block rows"
  by (simp add: recent_blocks_def row_block_def [abs_def])

lemma latest_first:
  fixes f :: "'x \<Rightarrow> int"
  assumes "r \<in> set xs" and "\<And>y. y \<in> set xs \<Longrightarrow> y \<noteq> r \<Longrightarrow> f y < f r" and "0 < n"
  shows "\<exists>rest. take n (sort_key (\<lambda>x. - f x) xs) = r # rest"
proof -
  obtain y ys where s: "sort_key (\<lambda>x. - f x) xs = y # ys"
    using assms(1) by (cases "sort_key (\<lambda>x. - f x) xs") (auto simp flip: set_empty)
  have "sorted (map (\<lambda>x. - f x) (sort_key (\<lambda>x. - f x) xs))" by simp
  then have low: "f z \<le> f y" if "z \<in> set (y # ys)" for z using that by (auto simp: s)
  have same: "set (y # ys) = set xs" using set_sort [of "\<lambda>x. - f x" xs] by (simp add: s)
  have "y = r"
  proof (rule ccontr)
    assume "y \<noteq> r"
    with assms(2) [of y] same have "f y < f r" by auto
    moreover have "f r \<le> f y" using low [of r] same assms(1) by auto
    ultimately show False by simp
  qed
  then show ?thesis using assms(3) by (cases n) (simp_all add: s)
qed

text \<open>
  C36. What the job writes about a session reaches the next turns.  Let the job have changed the table, the
  table have held one row a session at most, that of this session (if any) under the same user and agent,
  and every other row be older.  Then the session has one row, of now, and the turns of that user and
  agent in another session that get their blocks list the row's topic and summary first among the recent
  sessions.  If moreover topic and summary have no white space at their ends, the topic is neither
  missing nor empty and holds no colon followed by a space, and the index takes the document, then the
  index holds them as one chunk (no tokeniser being installed, as none is required), and whatever a search
  returns of that session reads as the same topic and summary, so the session is not listed a second
  time among the relevant ones.  Without a topic it may be.
\<close>

theorem summary_reaches_prompt:
  assumes "run_summarize loads side None e now u a sid model w = (Inr True, w')" and "dw_digests w' \<noteq> dw_digests w"
    and "distinct (map dg_session (dw_digests w))"
    and "\<forall>r \<in> set (dw_digests w). if dg_session r = sid then dg_user r = u \<and> dg_agent r = a else dg_at r < now"
  shows "\<exists>r. filter (\<lambda>x. dg_session x = sid) (dw_digests w') = [r] \<and> dg_at r = now \<and>
    (\<forall>ft e2 other request recent relevant. other \<noteq> sid \<and>
        session_blocks ft e2 u a other request w' = Inr (recent, relevant) \<longrightarrow> (\<exists>rest. recent = row_block r # rest)) \<and>
    (\<forall>topic doc ft e2 request k hits h.
        dg_topic r = Some topic \<and> py_strip topic = topic \<and> topic \<noteq> [] \<and> \<not> contains (codes '': '') (codes topic) \<and>
        py_strip (dg_summary r) = dg_summary r \<and> doc = codes (compose_indexable topic (dg_summary r)) \<and>
        cloud_admits None e (''session_summary'', Some sid) doc \<longrightarrow>
        cloud_part u a (dw_chunks w') (''session_summary'', Some sid) = [doc] \<and>
        (recall_cloud_search ft e2 u a request k (dw_chunks w') = Inr hits \<and> h \<in> set hits \<and>
          re_kind h = ''session_summary'' \<and> re_source h = Some sid \<longrightarrow>
         block_of_content (strip (re_content h)) = row_block r \<and> (\<forall>rest. relevant_blocks (row_block r # rest) [h] = [])))"
proof -
  have "w' \<noteq> w" using assms(2) by auto
  with summarize_written [OF assms(1,3)] obtain topic0 summary r where
    len: "length topic0 \<le> 80" "length summary \<le> 300" "py_strip summary \<noteq> []"
    and r: "filter (\<lambda>x. dg_session x = sid) (dw_digests w') = [r]" "dg_summary r = summary" "dg_at r = now"
      "dg_topic r = (if topic0 = [] then None else Some topic0)"
    and others: "filter (\<lambda>x. dg_session x \<noteq> sid) (dw_digests w') = filter (\<lambda>x. dg_session x \<noteq> sid) (dw_digests w)"
    and owner: "(dg_user r = u \<and> dg_agent r = a) \<or> (\<exists>x \<in> set (dw_digests w). dg_session x = sid \<and> dg_user r = dg_user x \<and> dg_agent r = dg_agent x)"
    and part: "cloud_part u a (dw_chunks w') = (let key = (''session_summary'', Some sid); doc = codes (compose_indexable topic0 summary) in
      if cloud_admits None e key doc then (cloud_part u a (dw_chunks w))(key := chunk_text None doc) else cloud_part u a (dw_chunks w))"
    by blast
  have r_in: "r \<in> set (dw_digests w')" "dg_session r = sid"
  proof -
    have "r \<in> set (filter (\<lambda>x. dg_session x = sid) (dw_digests w'))" by (simp add: r(1))
    then show "r \<in> set (dw_digests w')" "dg_session r = sid" by simp_all
  qed
  have mine: "dg_user r = u" "dg_agent r = a" using owner assms(4) by auto
  have older: "dg_at x < now" if "x \<in> set (dw_digests w')" "x \<noteq> r" for x
  proof -
    have "dg_session x \<noteq> sid"
    proof
      assume "dg_session x = sid"
      then have "x \<in> set (filter (\<lambda>x. dg_session x = sid) (dw_digests w'))" using that(1) by simp
      then show False using that(2) by (simp add: r(1))
    qed
    then have "x \<in> set (filter (\<lambda>x. dg_session x \<noteq> sid) (dw_digests w))" using that(1) by (simp flip: others)
    with assms(4) show ?thesis by auto
  qed
  have first: "\<exists>rest. recent = row_block r # rest"
    if "other \<noteq> sid" "session_blocks ft e2 u a other request w' = Inr (recent, relevant)" for ft e2 other request recent relevant
  proof -
    let ?rows = "filter (\<lambda>x. dg_user x = u \<and> dg_agent x = a \<and> dg_session x \<noteq> other) (dw_digests w')"
    have "r \<in> set ?rows" using r_in mine that(1) by simp
    then obtain rest where "take (nat 3) (sort_key (\<lambda>x. - dg_at x) ?rows) = r # rest"
      using latest_first [of r ?rows dg_at "nat 3"] older r(3) by auto
    then show ?thesis
      using that(2) by (auto simp: session_blocks_def digest_list_recent_def current_user_id_def pg_limit_def result_eqs
          recent_blocks_rows Let_def)
  qed
  have indexed: "cloud_part u a (dw_chunks w') (''session_summary'', Some sid) = [doc] \<and> block_of_content (strip doc) = row_block r"
    if "dg_topic r = Some topic" "py_strip topic = topic" "topic \<noteq> []" "\<not> contains (codes '': '') (codes topic)"
      "py_strip (dg_summary r) = dg_summary r" "doc = codes (compose_indexable topic (dg_summary r))"
      "cloud_admits None e (''session_summary'', Some sid) doc" for topic doc
  proof -
    have eq: "topic0 = topic" "summary = dg_summary r" using that(1) r(2,4) by (auto split: if_splits)
    have "dg_summary r \<noteq> []" using len(3) that(5) by (simp add: eq(2))
    note ne = this
    have "chunk_text None doc = [doc]"
      using chunk_text_doc [OF that(2,3,5) ne] len unfolding that(6) eq by simp
    moreover have "block_of_content (strip doc) = row_block r"
      using summary_block [OF that(2-5) ne] by (simp add: that(1,6) row_block_def)
    ultimately show ?thesis using part that(6,7) unfolding eq by (simp add: Let_def)
  qed
  have "block_of_content (strip (re_content h)) = row_block r \<and> (\<forall>rest. relevant_blocks (row_block r # rest) [h] = [])"
    if "cloud_part u a (dw_chunks w') (''session_summary'', Some sid) = [doc]" "block_of_content (strip doc) = row_block r"
      "recall_cloud_search ft e2 u a request k (dw_chunks w') = Inr hits" "h \<in> set hits"
      "re_kind h = ''session_summary''" "re_source h = Some sid" for doc ft e2 request k hits h
  proof -
    have "re_content h = doc" using search_hits_part [OF that(3-6)] that(1) by simp
    then show ?thesis using that(2) by (simp add: relevant_blocks_def)
  qed
  note hit = this
  show ?thesis
  proof (rule exI [of _ r], intro conjI allI impI, goal_cases)
    case (3 ft e2 other request recent relevant)
    then show ?case using first by blast
  next
    case (4 topic doc ft e2 request k hits h)
    then show ?case using indexed [of topic doc] by blast
  next
    case (5 topic doc ft e2 request k hits h)
    then show ?case using indexed [of topic doc] hit [of doc] by blast
  next
    case (6 topic doc ft e2 request k hits h rest)
    then show ?case using indexed [of topic doc] hit [of doc] by blast
  qed (use r in simp_all)
qed

text \<open>
  A summary without a topic that has a colon comes back split at it, and so is listed a second time as a
  relevant session although it is already listed as a recent one.
\<close>

theorem untitled_summary_repeats:
  "\<exists>row hit. dg_topic row = None \<and> re_kind hit = ''session_summary'' \<and>
     chunk_text None (codes (compose_indexable [] (dg_summary row))) = [re_content hit] \<and>
     recent_blocks [row] = [\<lparr>ss_topic = [], ss_summary = codes ''Plan: go''\<rparr>] \<and>
     relevant_blocks (recent_blocks [row]) [hit] = [\<lparr>ss_topic = codes ''Plan'', ss_summary = codes ''go''\<rparr>]"
proof -
  let ?row = "\<lparr>dg_session = ''s'', dg_user = 1, dg_agent = 1, dg_summary = ''Plan: go'', dg_topic = None, dg_generator = [], dg_at = 0\<rparr>"
  let ?hit = "\<lparr>re_kind = ''session_summary'', re_source = Some ''s'', re_content = codes ''Plan: go'', re_score = 1, re_ts = 0\<rparr>"
  have st: "stripped (codes ''Plan: go'')" by (simp add: stripped_def is_space_def)
  have doc: "compose_indexable [] ''Plan: go'' = ''Plan: go''" by (simp add: compose_indexable_def py_strip_def py_isspace_def)
  have "partition_at (codes '': '') (codes ''Plan'' @ codes '': '' @ codes ''go'') = (codes ''Plan'', codes ''go'')"
    by (rule partition_first [of _ _ 58 32]) (simp_all add: contains_def)
  then have block: "block_of_content (codes ''Plan: go'') = \<lparr>ss_topic = codes ''Plan'', ss_summary = codes ''go''\<rparr>"
    by (simp add: block_of_content_def stripped_def is_space_def)
  show ?thesis
    using one_chunk [OF st] block strip_stripped [OF st]
    by - (rule exI [of _ ?row], rule exI [of _ ?hit], simp add: doc recent_blocks_def relevant_blocks_def del: strip_eq_Nil)
qed

definition example_digest_world :: digest_world where
  "example_digest_world = \<lparr>dw_pg = example_pg, dw_digests = [], dw_chunks = \<lparr>cd_rows = [], cd_next = 0\<rparr>\<rparr>"

definition read_summary :: "string \<Rightarrow> json option result" where
  "read_summary s = Inr (Some (JObj [(''topic'', JStr ''Plan''), (''summary'', JStr ''Done'')]))"

lemma example_summarized:
  "\<exists>w'. run_summarize read_summary (\<lambda>m p. Inr (Some ''x'')) None null_embedder 5 7 1 ''a1'' [] example_digest_world = (Inr True, w') \<and>
     dw_pg w' = example_pg \<and>
     dw_digests w' = [\<lparr>dg_session = ''a1'', dg_user = 7, dg_agent = 1, dg_summary = ''Done'', dg_topic = Some ''Plan'',
       dg_generator = DEFAULT_SUMMARIZER_MODEL, dg_at = 5\<rparr>]"
proof -
  have "summarizer_run read_summary (\<lambda>p. Inr (Some ''x'')) [body_to_msg (mr_body example_message)] = Inr (''Plan'', ''Done'')"
    by (simp add: summarizer_run_def summarizer_tail_def example_message_def body_to_msg_def py_get_def parse_summary_def
        read_summary_def get_text_def py_str_def py_strip_def py_lstrip_def py_isspace_def Let_def
        SUMMARIZER_MAX_MESSAGES_def SUMMARIZER_MAX_TOPIC_CHARS_def SUMMARIZER_MAX_SUMMARY_CHARS_def)
  then show ?thesis
    by (simp add: run_summarize_def example_digest_world_def pg_get_session_meta_def pg_get_messages_def current_user_id_def
        example_pg_def own_def example_session_def of_session_def mine_def example_message_def in_order_def py_strip_def py_isspace_def
        digest_upsert_def pg_text_def surrogate_def pg_string_def Let_def)
qed

lemma summarize_exact_witness:
  "map dg_summary (dw_digests (snd (run_summarize read_summary (\<lambda>m p. Inr (Some ''x'')) None null_embedder 5 7 1 ''a1'' [] example_digest_world)))
     = [''Done'']"
proof -
  obtain w' where run: "run_summarize read_summary (\<lambda>m p. Inr (Some ''x'')) None null_embedder 5 7 1 ''a1'' [] example_digest_world = (Inr True, w')"
    and ds: "dw_digests w' \<noteq> []" "\<forall>r \<in> set (dw_digests w'). dg_summary r = ''Done'' \<and> dg_session r = ''a1''"
    using example_summarized by auto
  from summarize_exact [OF run] ds obtain r where "filter (\<lambda>r. dg_session r = ''a1'') (dw_digests w') = [r]"
    by (auto simp: example_digest_world_def)
  moreover have "filter (\<lambda>r. dg_session r = ''a1'') (dw_digests w') = dw_digests w'" using ds(2) by (simp add: filter_id_conv)
  ultimately show ?thesis using run ds(2) by simp
qed

lemma summary_reaches_prompt_witness:
  "\<exists>w' rest. run_summarize read_summary (\<lambda>m p. Inr (Some ''x'')) None null_embedder 5 7 1 ''a1'' [] example_digest_world = (Inr True, w') \<and>
     session_blocks word_text null_embedder 7 1 ''b1'' [] w' = Inr (\<lparr>ss_topic = codes ''Plan'', ss_summary = codes ''Done''\<rparr> # rest, [])"
proof -
  obtain w' where run: "run_summarize read_summary (\<lambda>m p. Inr (Some ''x'')) None null_embedder 5 7 1 ''a1'' [] example_digest_world = (Inr True, w')"
    and w': "dw_pg w' = example_pg" and ds: "dw_digests w' = [\<lparr>dg_session = ''a1'', dg_user = 7, dg_agent = 1, dg_summary = ''Done'',
      dg_topic = Some ''Plan'', dg_generator = DEFAULT_SUMMARIZER_MODEL, dg_at = 5\<rparr>]"
    using example_summarized by blast
  obtain recent where blocks: "session_blocks word_text null_embedder 7 1 ''b1'' [] w' = Inr (recent, [])"
    by (simp add: session_blocks_def digest_list_recent_def current_user_id_def pg_limit_def pg_get_session_meta_def w'
        example_pg_def own_def example_session_def pg_string_def Let_def)
  have prems: "dw_digests w' \<noteq> dw_digests example_digest_world" "distinct (map dg_session (dw_digests example_digest_world))"
    "\<forall>r \<in> set (dw_digests example_digest_world). if dg_session r = ''a1'' then dg_user r = 7 \<and> dg_agent r = 1 else dg_at r < 5"
    by (simp_all add: ds example_digest_world_def)
  from summary_reaches_prompt [OF run prems] obtain r where one: "filter (\<lambda>x. dg_session x = ''a1'') (dw_digests w') = [r]"
    and first: "\<forall>ft e2 other request recent relevant. other \<noteq> ''a1'' \<and>
      session_blocks ft e2 7 1 other request w' = Inr (recent, relevant) \<longrightarrow> (\<exists>rest. recent = row_block r # rest)"
    by (elim exE conjE) (rule that)
  have "\<exists>rest. recent = row_block r # rest"
    by (rule first [rule_format, OF conjI [OF _ blocks]]) simp
  with one obtain rest where "recent = \<lparr>ss_topic = codes ''Plan'', ss_summary = codes ''Done''\<rparr> # rest"
    by (auto simp: ds row_block_def)
  with run blocks show ?thesis by blast
qed

lemma summarize_failure_acked_witness:
  "run_summarize read_summary (\<lambda>m p. Inl RuntimeError) None null_embedder 5 7 1 ''a1'' [] example_digest_world = (Inr True, example_digest_world)"
  using summarize_failure_acked [where s = example_session and u = 7 and sid = "''a1''" and w = example_digest_world
      and side = "\<lambda>m p. Inl RuntimeError" and ex = RuntimeError]
  by (simp add: example_digest_world_def pg_get_session_meta_def current_user_id_def example_pg_def own_def example_session_def pg_string_def)

end
