(* ===== verification/Compaction.thy ===== *)
theory Compaction
  imports Summaries
begin

text \<open>
  Compaction of \<open>memory.md\<close>: the job \<open>worker/compact.py\<close>, its sweep \<open>scheduler/compact_tick.py\<close>, and the
  re-indexing of a document by the memory tool (\<open>memory/tool.py\<close>).  The job reads in one transaction,
  asks the side agent, and writes in another, so the two halves are apart.
\<close>

subsection \<open>The sweep\<close>

definition COMPACT_SCAN_LIMIT :: nat where "COMPACT_SCAN_LIMIT = 200"

definition new_compact_message :: "uuid \<Rightarrow> uuid \<Rightarrow> slice_message" where
  "new_compact_message u a = \<lparr>sm_kind = COMPACT_KIND, sm_user_id = uuid_str u, sm_agent_id = uuid_str a, sm_model = []\<rparr>"

definition compact_tick :: "user_document list \<Rightarrow> (json \<Rightarrow> 'q \<Rightarrow> 'q) \<Rightarrow> 'q \<Rightarrow> nat \<times> 'q" where
  "compact_tick t send q =
     (let ms = List.map_filter (\<lambda>(u, a). map_option (\<lambda>a. slice_to_json (new_compact_message u a)) a)
          (find_compaction_candidates 1920 COMPACT_SCAN_LIMIT t)
      in (length ms, fold send ms q))"

subsection \<open>The job\<close>

text \<open>Utilisation over eight tenths, without the division.\<close>

definition over_threshold :: "pystr \<Rightarrow> bool" where
  "over_threshold doc \<longleftrightarrow> 8 * MEMORY_MD_CHAR_LIMIT < 10 * length doc"

definition compact_split :: "pystr \<Rightarrow> pystr list" where
  "compact_split doc = (if strip doc = [] then [] else cut_entries doc)"

definition trajectory :: "pystr list \<Rightarrow> turn_item list" where
  "trajectory entries = map (\<lambda>e. \<lparr>it_role = Some ''memory'', it_content = e\<rparr>) entries"

text \<open>
  The first half: what is to be written, or the answer of a job that writes nothing.  The argument is the
  consolidator's \<open>run\<close>.
\<close>

definition compact_plan ::
  "(turn_item list \<Rightarrow> string list result) \<Rightarrow> uuid \<Rightarrow> user_document list \<Rightarrow> (bool + pystr list) result"
where
  "compact_plan run u t =
     bind_result (memory_get (Some u) ''memory.md'' t) (\<lambda>doc.
       let entries = compact_split doc in
       if entries = [] then Inr (Inl True)
       else if \<not> over_threshold doc then Inr (Inl True)
       else (case run (trajectory entries) of
               Inl _ \<Rightarrow> Inr (Inl False)
             | Inr new \<Rightarrow>
                 (let es = map codes new in
                  if es = [] then Inr (Inl True)
                  else if length doc \<le> length (join_entries es) then Inr (Inl True)
                  else Inr (Inr es))))"

text \<open>Each new entry is indexed under a source of its own; what the index refuses is logged.\<close>

fun index_compacted ::
  "tokeniser option \<Rightarrow> embedder \<Rightarrow> uuid \<Rightarrow> uuid \<Rightarrow> int \<Rightarrow> nat \<Rightarrow> pystr list \<Rightarrow> tenant_chunk chunk_db \<Rightarrow> tenant_chunk chunk_db"
where
  "index_compacted tk e u a now i [] db = db"
| "index_compacted tk e u a now i (x # xs) db =
     index_compacted tk e u a now (Suc i) xs
       (snd (recall_cloud_index tk e u a now ''memory_md'' (Some (''compact-'' @ digits i)) x db))"

definition compact_write ::
  "schema_rev \<Rightarrow> tokeniser option \<Rightarrow> embedder \<Rightarrow> int \<Rightarrow> uuid \<Rightarrow> uuid \<Rightarrow> pystr list \<Rightarrow> user_document list \<times> tenant_chunk chunk_db
     \<Rightarrow> bool result \<times> user_document list \<times> tenant_chunk chunk_db"
where
  "compact_write sch tk e now u a es w =
     (case memory_put sch now (Some u) ''memory.md'' (join_entries es) (fst w) of
        Inl ex \<Rightarrow> (Inl ex, w)
      | Inr t' \<Rightarrow> (Inr True, t', index_compacted tk e u a now 0 es (snd w)))"

definition run_compact ::
  "schema_rev \<Rightarrow> tokeniser option \<Rightarrow> embedder \<Rightarrow> (turn_item list \<Rightarrow> string list result) \<Rightarrow> int \<Rightarrow> uuid \<Rightarrow> uuid
     \<Rightarrow> user_document list \<times> tenant_chunk chunk_db \<Rightarrow> bool result \<times> user_document list \<times> tenant_chunk chunk_db"
where
  "run_compact sch tk e run now u a w =
     (case compact_plan run u (fst w) of
        Inl ex \<Rightarrow> (Inl ex, w)
      | Inr (Inl ok) \<Rightarrow> (Inr ok, w)
      | Inr (Inr es) \<Rightarrow> compact_write sch tk e now u a es w)"

subsection \<open>Re-indexing by the memory tool\<close>

text \<open>\<open>_reindex_memory_doc\<close> in the service: whatever fails is logged.\<close>

fun doc_source :: "kind \<Rightarrow> string" where
  "doc_source Memory = ''memory_md''"
| "doc_source User = ''user_md''"

definition reindex_memory_doc ::
  "tokeniser option \<Rightarrow> embedder \<Rightarrow> uuid \<Rightarrow> uuid \<Rightarrow> int \<Rightarrow> kind \<Rightarrow> user_document list \<Rightarrow> tenant_chunk chunk_db \<Rightarrow> tenant_chunk chunk_db"
where
  "reindex_memory_doc tk e u a now k t db =
     (case cloud_get u k t of
        Inl _ \<Rightarrow> db
      | Inr doc \<Rightarrow> snd (recall_cloud_index tk e u a now (doc_source k) None doc db))"

subsection \<open>What compaction keeps\<close>

lemma parse_entries_bounded:
  "length (parse_entries loads s) \<le> 5 \<and> (\<forall>x \<in> set (parse_entries loads s). x \<noteq> [] \<and> length x \<le> 200 \<and> py_strip x = x)"
proof -
  let ?f = "\<lambda>i. case i of
      JStr x \<Rightarrow> (let y = py_strip x in if y \<noteq> [] \<and> length y \<le> CONSOLIDATOR_MAX_ENTRY_CHARS then [y] else []) | _ \<Rightarrow> []"
  have "length (concat (map ?f items)) \<le> length items" for items
    by (induction items) (auto simp: Let_def split: json.split)
  then have len: "length (concat (map ?f (take CONSOLIDATOR_MAX_ENTRIES items))) \<le> 5" for items
    by (rule le_trans) (simp add: CONSOLIDATOR_MAX_ENTRIES_def)
  have entry: "x \<noteq> [] \<and> length x \<le> 200 \<and> py_strip x = x" if "x \<in> set (concat (map ?f items))" for x items
    using that by (auto simp: CONSOLIDATOR_MAX_ENTRY_CHARS_def Let_def split: json.splits if_splits)
  have "parse_entries loads s = [] \<or> (\<exists>items. parse_entries loads s = concat (map ?f (take CONSOLIDATOR_MAX_ENTRIES items)))"
    unfolding parse_entries_def Let_def by (auto split: option.split json.split simp del: concat_map_singleton)
  then show ?thesis
  proof
    assume "\<exists>items. parse_entries loads s = concat (map ?f (take CONSOLIDATOR_MAX_ENTRIES items))"
    then obtain items where eq: "parse_entries loads s = concat (map ?f (take CONSOLIDATOR_MAX_ENTRIES items))" ..
    show ?thesis unfolding eq using len [of items] entry [of _ "take CONSOLIDATOR_MAX_ENTRIES items"] by blast
  qed simp
qed

lemma consolidator_bounded:
  "consolidator_run loads side items = Inr es \<Longrightarrow> length es \<le> 5 \<and> (\<forall>x \<in> set es. length x \<le> 200)"
  using parse_entries_bounded by (fastforce simp: consolidator_run_def bind_result_eq_Inr split: option.splits if_splits)

lemma length_join_entries: "length (join_entries es) \<le> sum_list (map length es) + 3 * (length es - 1)"
proof (induction es)
  case (Cons x es)
  then show ?case by (cases es) (simp_all add: join_entries_def ENTRY_DELIMITER_def)
qed (simp add: join_entries_def)

lemma memory_put_content:
  assumes "memory_put sch now (Some u) ''memory.md'' doc t = Inr t'" and "distinct (map doc_key t)"
  shows "memory_get (Some u) ''memory.md'' t' = Inr doc"
proof -
  let ?f = "\<lambda>r. r\<lparr>ud_content := doc, ud_version := ud_version r + 1, ud_updated := now\<rparr>"
  let ?p = "\<lambda>r. ud_user r = u \<and> ud_kind r = ''memory.md''"
  from assms(1) have t': "t' = map (\<lambda>r. if ?p r then ?f r else r) t \<and> list_ex ?p t \<or>
      (\<exists>r. t' = t @ [r] \<and> ?p r \<and> ud_content r = doc \<and> \<not> list_ex ?p t)"
    by (auto simp: memory_put_def doc_limits_def upsert_doc_def doc_key_def current_user_id_def bind_result_eq_Inr split: if_splits)
  have key: "?p r \<longleftrightarrow> doc_key r = (u, ''memory.md'')" for r by (auto simp: doc_key_def)
  have one: "filter ?p t = [r]" if "r \<in> set t" "?p r" for r
    using filter_single [OF assms(2) that(1)] that(2) by (simp add: key)
  have upd: "filter ?p (map (\<lambda>r. if ?p r then ?f r else r) xs) = map ?f (filter ?p xs)" for xs
    by (induction xs) auto
  from t' have "\<exists>r. filter ?p t' = [r] \<and> ud_content r = doc"
  proof
    assume m: "t' = map (\<lambda>r. if ?p r then ?f r else r) t \<and> list_ex ?p t"
    then obtain r where "r \<in> set t" "?p r" by (auto simp: list_ex_iff)
    from one [OF this] m upd [of t] show ?thesis by simp
  next
    assume "\<exists>r. t' = t @ [r] \<and> ?p r \<and> ud_content r = doc \<and> \<not> list_ex ?p t"
    then obtain r where "t' = t @ [r]" "?p r" "ud_content r = doc" "\<not> list_ex ?p t" by blast
    moreover from this(4) have "filter ?p t = []" by (auto simp: list_ex_iff filter_empty_conv)
    ultimately show ?thesis by simp
  qed
  then show ?thesis by (auto simp: memory_get_def doc_limits_def current_user_id_def)
qed

lemma index_compacted_others:
  "\<forall>i. src \<noteq> Some (''compact-'' @ digits i) \<Longrightarrow>
     cloud_part u a (index_compacted tk e u a now n es db) (''memory_md'', src) = cloud_part u a db (''memory_md'', src)"
proof (induction es arbitrary: n db)
  case (Cons x es)
  let ?key = "(''memory_md'', Some (''compact-'' @ digits n))"
  have "cloud_part u a (snd (recall_cloud_index tk e u a now ''memory_md'' (Some (''compact-'' @ digits n)) x db)) (''memory_md'', src) =
      cloud_part u a db (''memory_md'', src)"
    using cloud_recall.put_admitted [of tk e ?key x u a now db] cloud_recall.put_refused [of tk e ?key x u a now db] Cons.prems
    by (cases "cloud_admits tk e ?key x") auto
  with Cons show ?case by simp
qed simp

text \<open>
  C37. A compaction that writes leaves a document of at most five entries of at most 200 characters, less than
  1013 characters in all and shorter than the one it read, however many entries that had.
\<close>

theorem compaction_keeps_five:
  assumes "run_compact sch tk e (consolidator_run loads side) now u a (t, db) = (Inr ok, t', db')"
    and "t' \<noteq> t" and "distinct (map doc_key t)"
  shows "\<exists>es old. memory_get (Some u) ''memory.md'' t = Inr old \<and> memory_get (Some u) ''memory.md'' t' = Inr (join_entries es) \<and>
    1 \<le> length es \<and> length es \<le> 5 \<and> (\<forall>x \<in> set es. length x \<le> 200) \<and> length (join_entries es) \<le> 1012 \<and>
    1920 < length old \<and> length (join_entries es) < length old"
proof -
  from assms(1,2) obtain es where plan: "compact_plan (consolidator_run loads side) u t = Inr (Inr es)"
    and wr: "compact_write sch tk e now u a es (t, db) = (Inr ok, t', db')"
    by (auto simp: run_compact_def split: sum.splits)
  from plan obtain old new where get: "memory_get (Some u) ''memory.md'' t = Inr old"
    and run: "consolidator_run loads side (trajectory (compact_split old)) = Inr new" and es: "es = map codes new" "es \<noteq> []"
    and short: "length (join_entries es) < length old" and over: "over_threshold old"
    by (auto simp: compact_plan_def bind_result_eq_Inr Let_def split: if_splits sum.splits)
  from consolidator_bounded [OF run] have len: "length es \<le> 5" "\<forall>x \<in> set es. length x \<le> 200" by (auto simp: es(1))
  have "sum_list (map length es) \<le> length es * 200"
    using len(2) by (induction es) auto
  then have "length (join_entries es) \<le> 1012" using length_join_entries [of es] len(1) by linarith
  moreover from wr have "memory_put sch now (Some u) ''memory.md'' (join_entries es) t = Inr t'"
    by (auto simp: compact_write_def split: sum.splits)
  then have "memory_get (Some u) ''memory.md'' t' = Inr (join_entries es)" by (rule memory_put_content [OF _ assms(3)])
  moreover have "1920 < length old" using over by (simp add: over_threshold_def MEMORY_MD_CHAR_LIMIT_def)
  moreover have "1 \<le> length es" using es(2) by (cases es) auto
  ultimately show ?thesis using get len short by blast
qed

text \<open>
  What was indexed of the whole document stays in the index after a compaction, so what it dropped is still
  found by a search.
\<close>

theorem compaction_leaves_stale_chunks:
  "cloud_part u a (snd (snd (run_compact sch tk e run now u a (t, db)))) (''memory_md'', None) = cloud_part u a db (''memory_md'', None)"
  using index_compacted_others [of None u a tk e now 0 _ db]
  by (auto simp: run_compact_def compact_write_def split: sum.split)

text \<open>
  An entry the user adds while the side agent runs is overwritten: the second half of the job writes what
  the first half read.
\<close>

theorem compaction_loses_concurrent_write:
  assumes "compact_plan run u t = Inr (Inr es)" and "memory_put sch now1 (Some u) ''memory.md'' doc t = Inr t1"
    and "compact_write sch tk e now2 u a es (t1, db) = (Inr ok, t2, db2)" and "distinct (map doc_key t1)"
  shows "memory_get (Some u) ''memory.md'' t2 = Inr (join_entries es)"
proof -
  from assms(3) have "memory_put sch now2 (Some u) ''memory.md'' (join_entries es) t1 = Inr t2"
    by (auto simp: compact_write_def split: sum.splits)
  then show ?thesis by (rule memory_put_content [OF _ assms(4)])
qed

definition full_doc :: pystr where
  "full_doc = replicate 2000 97"

definition full_table :: "user_document list" where
  "full_table = [\<lparr>ud_user = 7, ud_kind = ''memory.md'', ud_agent = None, ud_content = full_doc, ud_version = 1, ud_updated = 0\<rparr>]"

definition brief :: "string \<Rightarrow> json option" where
  "brief s = Some (JArr [JStr ''short''])"

lemma short_safe: "check_untrusted (codes ''short'') = Inr ()"
  by (simp add: codes_def check_untrusted_def invisible_def injection_patterns_def lits_def match_by_rewriting
      del: match_at.simps(3,5,7) search.simps(2))

lemma full_plan: "compact_plan (consolidator_run brief (\<lambda>_. Inr (Some ''x''))) 7 full_table = Inr (Inr [codes ''short''])"
proof -
  have st: "stripped full_doc" "full_doc \<noteq> []" by (simp_all add: stripped_def full_doc_def is_space_def)
  have "167 \<notin> set full_doc" by (simp add: full_doc_def)
  with st have split: "compact_split full_doc = [full_doc]" by (simp add: compact_split_def cut_entries_single del: strip_eq_Nil)
  have get: "memory_get (Some 7) ''memory.md'' full_table = Inr full_doc"
    by (simp add: memory_get_def doc_limits_def current_user_id_def full_table_def)
  have run: "consolidator_run brief (\<lambda>_. Inr (Some ''x'')) items = Inr [''short'']" for items
    by (simp add: consolidator_run_def parse_entries_def brief_def py_strip_def py_isspace_def Let_def CONSOLIDATOR_MAX_ENTRIES_def
        CONSOLIDATOR_MAX_ENTRY_CHARS_def)
  have over: "over_threshold full_doc" "length full_doc = 2000" by (simp_all add: over_threshold_def MEMORY_MD_CHAR_LIMIT_def full_doc_def)
  show ?thesis
    by (simp add: compact_plan_def get split run over Let_def join_entries_def)
qed

lemma short_put:
  assumes "ud_user r = 7" "ud_kind r = ''memory.md''"
  shows "memory_put Schema_0001 now (Some 7) ''memory.md'' (join_entries [codes ''short'']) [r] =
     Inr [r\<lparr>ud_content := codes ''short'', ud_version := ud_version r + 1, ud_updated := now\<rparr>]"
proof -
  have "join_entries [codes ''short''] = codes ''short''" by (simp add: join_entries_def)
  moreover have "codes ''short'' \<noteq> []" "length (codes ''short'') = 5" "pg_text (codes ''short'')"
    by (simp_all add: pg_text_def surrogate_def)
  ultimately show ?thesis using assms
    by (simp add: memory_put_def doc_limits_def MEMORY_MD_CHAR_LIMIT_def short_safe current_user_id_def upsert_doc_def doc_row_ok_def
        doc_key_def del: codes_simps)
qed

lemma full_run:
  "\<exists>t' db'. run_compact Schema_0001 None null_embedder (consolidator_run brief (\<lambda>_. Inr (Some ''x''))) 5 7 1
     (full_table, \<lparr>cd_rows = [], cd_next = 0\<rparr>) = (Inr True, t', db') \<and> t' \<noteq> full_table"
proof -
  let ?t = "[(hd full_table)\<lparr>ud_content := codes ''short'', ud_version := 2, ud_updated := 5\<rparr>]"
  have "[hd full_table] = full_table" by (simp add: full_table_def)
  with short_put [of "hd full_table" 5]
  have put: "memory_put Schema_0001 5 (Some 7) ''memory.md'' (join_entries [codes ''short'']) full_table = Inr ?t"
    by (simp add: full_table_def)
  have "?t \<noteq> full_table" by (simp add: full_table_def)
  with put show ?thesis by (simp add: run_compact_def full_plan compact_write_def del: codes_simps)
qed

lemma compaction_keeps_five_witness:
  "\<exists>t'. fst (snd (run_compact Schema_0001 None null_embedder (consolidator_run brief (\<lambda>_. Inr (Some ''x''))) 5 7 1
     (full_table, \<lparr>cd_rows = [], cd_next = 0\<rparr>))) = t' \<and>
     (\<exists>es. memory_get (Some 7) ''memory.md'' t' = Inr (join_entries es) \<and> length (join_entries es) \<le> 1012)"
proof -
  obtain t' db' where run: "run_compact Schema_0001 None null_embedder (consolidator_run brief (\<lambda>_. Inr (Some ''x''))) 5 7 1
      (full_table, \<lparr>cd_rows = [], cd_next = 0\<rparr>) = (Inr True, t', db')" and "t' \<noteq> full_table"
    using full_run by blast
  moreover have "distinct (map doc_key full_table)" by (simp add: full_table_def)
  ultimately show ?thesis using compaction_keeps_five [OF run] by auto
qed

lemma compaction_loses_concurrent_write_witness:
  "\<exists>t1 t2. memory_get (Some 7) ''memory.md'' t1 = Inr (codes ''added'') \<and>
     memory_get (Some 7) ''memory.md'' t2 = Inr (join_entries [codes ''short''])"
proof -
  let ?t1 = "[(hd full_table)\<lparr>ud_content := codes ''added'', ud_version := 2, ud_updated := 4\<rparr>]"
  have safe: "check_untrusted (codes ''added'') = Inr ()"
    by (simp add: codes_def check_untrusted_def invisible_def injection_patterns_def lits_def match_by_rewriting
        del: match_at.simps(3,5,7) search.simps(2))
  have "codes ''added'' \<noteq> []" "length (codes ''added'') = 5" "pg_text (codes ''added'')" by (simp_all add: pg_text_def surrogate_def)
  then have put: "memory_put Schema_0001 4 (Some 7) ''memory.md'' (codes ''added'') full_table = Inr ?t1"
    by (simp add: memory_put_def doc_limits_def MEMORY_MD_CHAR_LIMIT_def safe current_user_id_def upsert_doc_def doc_row_ok_def
        doc_key_def full_table_def del: codes_simps)
  obtain t2 db2 where wr: "compact_write Schema_0001 None null_embedder 5 7 1 [codes ''short''] (?t1, \<lparr>cd_rows = [], cd_next = 0\<rparr>) =
      (Inr True, t2, db2)"
    using short_put [of "hd ?t1" 5] by (simp add: compact_write_def full_table_def)
  have "memory_get (Some 7) ''memory.md'' t2 = Inr (join_entries [codes ''short''])"
    by (rule compaction_loses_concurrent_write [OF full_plan put wr]) simp
  moreover have "memory_get (Some 7) ''memory.md'' ?t1 = Inr (codes ''added'')"
    by (simp add: memory_get_def doc_limits_def current_user_id_def full_table_def)
  ultimately show ?thesis by blast
qed

end
