(* ===== verification/Feedback.thy ===== *)
theory Feedback
  imports Summaries Turn_Routes Scheduler_Tick
begin

text \<open>
  Outcomes of turns: \<open>repositories/turn_outcome_repo.py\<close>, the sinks \<open>agent/backends/feedback_cloud.py\<close>
  and \<open>feedback_local.py\<close>, the side agent \<open>agent/outcome_classifier.py\<close>, the job \<open>worker/classify.py\<close>
  and the route \<open>POST /v1/turns/{turn_id}/feedback\<close>.  The constructor \<open>UUID\<close> on texts is the argument
  \<open>uuid_of\<close>.  Times are microseconds.
\<close>

subsection \<open>Outcomes\<close>

datatype outcome_source = Classifier | User_Explicit | Regex_Marker

fun source_text :: "outcome_source \<Rightarrow> string" where
  "source_text Classifier = ''classifier''"
| "source_text User_Explicit = ''user_explicit''"
| "source_text Regex_Marker = ''regex_marker''"

text \<open>What is handed to \<open>record\<close>; reason and skill are texts or null.\<close>

record feedback =
  fb_session :: string
  fb_turn :: string
  fb_source :: outcome_source
  fb_rating :: int
  fb_reason :: json
  fb_skill :: json

record outcome = feedback +
  oc_at :: string

record outcome_stats =
  oz_uses :: nat
  oz_successes :: nat
  oz_errors :: nat

definition moment_of :: "int \<Rightarrow> feedback \<Rightarrow> outcome" where
  "moment_of now f = \<lparr>fb_session = fb_session f, fb_turn = fb_turn f, fb_source = fb_source f, fb_rating = fb_rating f,
     fb_reason = fb_reason f, fb_skill = fb_skill f, oc_at = isoformat now\<rparr>"

subsection \<open>The repository\<close>

record outcome_row =
  ow_id :: nat
  ow_user :: uuid
  ow_agent :: uuid
  ow_turn :: uuid
  ow_said :: feedback
  ow_ts :: int

record outcome_db =
  od_rows :: "outcome_row list"
  od_next :: nat

definition row_to_outcome :: "outcome_row \<Rightarrow> outcome" where
  "row_to_outcome r = moment_of (ow_ts r) ((ow_said r)\<lparr>fb_turn := uuid_str (ow_turn r)\<rparr>)"

text \<open>A UUID has 128 bits.\<close>

definition turn_uuid :: "(string \<Rightarrow> uuid option) \<Rightarrow> string \<Rightarrow> uuid option" where
  "turn_uuid uuid_of s = (case uuid_of s of Some i \<Rightarrow> if i < 2 ^ 128 then Some i else None | None \<Rightarrow> None)"

definition pg_json_text :: "json \<Rightarrow> bool" where
  "pg_json_text v \<longleftrightarrow> (case v of JNull \<Rightarrow> True | JStr s \<Rightarrow> pg_text (codes s) | _ \<Rightarrow> False)"

text \<open>
  The columns take what fits them; the checks want a rating between -1 and 1 and the session of a row to
  exist.  The user and the agent of a row exist.
\<close>

definition outcome_record ::
  "(string \<Rightarrow> uuid option) \<Rightarrow> uuid option \<Rightarrow> uuid \<Rightarrow> int \<Rightarrow> feedback \<Rightarrow> pg_session list \<Rightarrow> outcome_db \<Rightarrow> (outcome \<times> outcome_db) result"
where
  "outcome_record uuid_of guc agent now f sessions t =
     bind_result (current_user_id guc) (\<lambda>u.
     bind_result (parsed_uuid (turn_uuid uuid_of (fb_turn f))) (\<lambda>i.
       if \<not> pg_text (codes (fb_session f)) \<or> \<not> pg_json_text (fb_reason f) \<or> \<not> pg_json_text (fb_skill f) \<or>
          fb_rating f < - 32768 \<or> 32767 < fb_rating f then Inl DataError
       else if fb_rating f < -1 \<or> 1 < fb_rating f \<or> fb_session f \<notin> ss_id ` set sessions then Inl IntegrityError
       else (let r = \<lparr>ow_id = od_next t, ow_user = u, ow_agent = agent, ow_turn = i, ow_said = f, ow_ts = now\<rparr>
             in Inr (row_to_outcome r, t\<lparr>od_rows := od_rows t @ [r], od_next := Suc (od_next t)\<rparr>))))"

text \<open>What the row level security policy and the statements let a reader see; no agent admits all.\<close>

definition outcome_seen :: "uuid \<Rightarrow> uuid option \<Rightarrow> outcome_row \<Rightarrow> bool" where
  "outcome_seen u agent r \<longleftrightarrow> ow_user r = u \<and> (case agent of None \<Rightarrow> True | Some a \<Rightarrow> ow_agent r = a)"

definition outcome_latest_for_turn ::
  "(string \<Rightarrow> uuid option) \<Rightarrow> uuid option \<Rightarrow> uuid option \<Rightarrow> string \<Rightarrow> outcome_db \<Rightarrow> outcome option result"
where
  "outcome_latest_for_turn uuid_of guc agent turn t =
     bind_result (current_user_id guc) (\<lambda>u.
     bind_result (parsed_uuid (turn_uuid uuid_of turn)) (\<lambda>i.
       Inr (map_option row_to_outcome (case sort_key (\<lambda>r. - ow_ts r) (filter (\<lambda>r. outcome_seen u agent r \<and> ow_turn r = i) (od_rows t)) of
         [] \<Rightarrow> None | r # _ \<Rightarrow> Some r))))"

definition outcome_list_recent ::
  "uuid option \<Rightarrow> uuid option \<Rightarrow> string \<Rightarrow> int \<Rightarrow> outcome_db \<Rightarrow> outcome list result"
where
  "outcome_list_recent guc agent skill limit t =
     bind_result (current_user_id guc) (\<lambda>u.
     bind_result (pg_limit limit (sort_key (\<lambda>r. - ow_ts r)
         (filter (\<lambda>r. outcome_seen u agent r \<and> fb_skill (ow_said r) = JStr skill) (od_rows t))))
       (\<lambda>rows. Inr (map row_to_outcome rows)))"

definition count_ratings :: "string \<Rightarrow> 'a feedback_scheme list \<Rightarrow> outcome_stats" where
  "count_ratings skill os =
     (let mine = filter (\<lambda>f. fb_skill f = JStr skill) os
      in \<lparr>oz_uses = length mine, oz_successes = length (filter (\<lambda>f. fb_rating f = 1) mine),
          oz_errors = length (filter (\<lambda>f. fb_rating f = -1) mine)\<rparr>)"

definition outcome_rating_stats :: "uuid option \<Rightarrow> uuid option \<Rightarrow> string \<Rightarrow> outcome_db \<Rightarrow> outcome_stats result" where
  "outcome_rating_stats guc agent skill t =
     bind_result (current_user_id guc) (\<lambda>u.
       Inr (count_ratings skill (map ow_said (filter (outcome_seen u agent) (od_rows t)))))"

subsection \<open>The sink of the service\<close>

definition cloud_record ::
  "(string \<Rightarrow> uuid option) \<Rightarrow> pg_session list \<Rightarrow> uuid \<Rightarrow> uuid option \<Rightarrow> int \<Rightarrow> feedback \<Rightarrow> outcome_db \<Rightarrow> outcome result \<times> outcome_db"
where
  "cloud_record uuid_of sessions u agent now f t =
     (case agent of
        None \<Rightarrow> (Inl RuntimeError, t)
      | Some a \<Rightarrow>
          (case outcome_record uuid_of (Some u) a now f sessions t of
             Inl e \<Rightarrow> (Inl e, t)
           | Inr (oc, t') \<Rightarrow> (Inr oc, t')))"

definition cloud_latest_for_turn ::
  "(string \<Rightarrow> uuid option) \<Rightarrow> uuid \<Rightarrow> uuid option \<Rightarrow> string \<Rightarrow> outcome_db \<Rightarrow> outcome option result"
where
  "cloud_latest_for_turn uuid_of u agent turn t = outcome_latest_for_turn uuid_of (Some u) agent turn t"

definition cloud_rating_stats :: "uuid \<Rightarrow> uuid option \<Rightarrow> string \<Rightarrow> outcome_db \<Rightarrow> outcome_stats result" where
  "cloud_rating_stats u agent skill t = outcome_rating_stats (Some u) agent skill t"

subsection \<open>The sink of the command line\<close>

text \<open>
  The log is a list of lines, empty where there is no file; \<open>record\<close> writes a line of ASCII with its end.
\<close>

datatype log_line = Blank_Line | Bad_Line | Json_Line json

definition outcome_json :: "outcome \<Rightarrow> json" where
  "outcome_json oc = JObj [(''session_id'', JStr (fb_session oc)), (''turn_id'', JStr (fb_turn oc)),
     (''source'', JStr (source_text (fb_source oc))), (''rating'', JInt (fb_rating oc)), (''reason'', fb_reason oc),
     (''skill_slug'', fb_skill oc), (''ts'', JStr (oc_at oc))]"

definition local_record :: "int \<Rightarrow> feedback \<Rightarrow> log_line list \<Rightarrow> outcome result \<times> log_line list" where
  "local_record now f journal = (Inr (moment_of now f), journal @ [Json_Line (outcome_json (moment_of now f))])"

text \<open>
  A line of another shape or source is skipped; a source that cannot be hashed and a rating that is no
  number raise.
\<close>

definition source_of :: "json \<Rightarrow> outcome_source option result" where
  "source_of v =
     (case v of
        JStr s \<Rightarrow> Inr (find (\<lambda>c. source_text c = s) [Classifier, User_Explicit, Regex_Marker])
      | JArr _ \<Rightarrow> Inl TypeError
      | JObj _ \<Rightarrow> Inl TypeError
      | _ \<Rightarrow> Inr None)"

definition int_or_raise :: "json \<Rightarrow> int result" where
  "int_or_raise v = (case py_int v of Some n \<Rightarrow> Inr n | None \<Rightarrow> Inl (case v of JStr _ \<Rightarrow> ValueError | _ \<Rightarrow> TypeError))"

definition read_line :: "log_line \<Rightarrow> outcome option result" where
  "read_line l =
     (case l of
        Json_Line (JObj d) \<Rightarrow>
          bind_result (source_of (py_get d ''source'')) (\<lambda>s.
            case s of
              None \<Rightarrow> Inr None
            | Some src \<Rightarrow>
                bind_result (if truthy (py_get d ''rating'') then int_or_raise (py_get d ''rating'') else Inr 0) (\<lambda>n.
                  Inr (Some \<lparr>fb_session = get_text d ''session_id'', fb_turn = get_text d ''turn_id'', fb_source = src,
                    fb_rating = n, fb_reason = py_get d ''reason'', fb_skill = py_get d ''skill_slug'', oc_at = get_text d ''ts''\<rparr>)))
      | _ \<Rightarrow> Inr None)"

fun read_records :: "log_line list \<Rightarrow> outcome list result" where
  "read_records [] = Inr []"
| "read_records (l # ls) =
     bind_result (read_line l) (\<lambda>oc. bind_result (read_records ls) (\<lambda>os. Inr ((case oc of None \<Rightarrow> [] | Some x \<Rightarrow> [x]) @ os)))"

definition latest_of :: "string \<Rightarrow> outcome list \<Rightarrow> outcome option" where
  "latest_of turn os = fold (\<lambda>oc latest. if fb_turn oc = turn then Some oc else latest) os None"

definition local_latest_for_turn :: "string \<Rightarrow> log_line list \<Rightarrow> outcome option result" where
  "local_latest_for_turn turn journal = bind_result (read_records journal) (\<lambda>os. Inr (latest_of turn os))"

definition local_rating_stats :: "string \<Rightarrow> log_line list \<Rightarrow> outcome_stats result" where
  "local_rating_stats skill journal = bind_result (read_records journal) (\<lambda>os. Inr (count_ratings skill os))"

subsection \<open>The contract of a sink\<close>

text \<open>
  A sink keeps what it was given, in order, under the name it has for the turn, and answers from that.
  \<open>kept t st\<close> says that the state is one the sink left at a time up to \<open>t\<close>.
\<close>

locale feedback_sink =
  fixes put :: "int \<Rightarrow> feedback \<Rightarrow> 'st \<Rightarrow> outcome result \<times> 'st"
    and latest :: "string \<Rightarrow> 'st \<Rightarrow> outcome option result"
    and stats :: "string \<Rightarrow> 'st \<Rightarrow> outcome_stats result"
    and name_turn :: "string \<Rightarrow> string option"
    and admits :: "feedback \<Rightarrow> bool"
    and past :: "'st \<Rightarrow> outcome list"
    and kept :: "int \<Rightarrow> 'st \<Rightarrow> bool"
  assumes put_admitted: "kept t st \<Longrightarrow> t < now \<Longrightarrow> admits f \<Longrightarrow> name_turn (fb_turn f) = Some x \<Longrightarrow>
      \<exists>st'. put now f st = (Inr (moment_of now (f\<lparr>fb_turn := x\<rparr>)), st') \<and>
        past st' = past st @ [moment_of now (f\<lparr>fb_turn := x\<rparr>)] \<and> kept now st'"
    and put_refused: "\<not> admits f \<or> name_turn (fb_turn f) = None \<Longrightarrow> \<exists>e. put now f st = (Inl e, st)"
    and kept_later: "kept t st \<Longrightarrow> t \<le> t' \<Longrightarrow> kept t' st"
    and stats_past: "kept t st \<Longrightarrow> stats skill st = Inr (count_ratings skill (past st))"
    and latest_past: "kept t st \<Longrightarrow> latest turn st =
      (case name_turn turn of None \<Rightarrow> Inl ValueError | Some x \<Rightarrow> Inr (latest_of x (past st)))"

fun record_all :: "(int \<Rightarrow> feedback \<Rightarrow> 'st \<Rightarrow> outcome result \<times> 'st) \<Rightarrow> (int \<times> feedback) list \<Rightarrow> 'st \<Rightarrow> 'st" where
  "record_all put [] st = st"
| "record_all put ((now, f) # fs) st = record_all put fs (snd (put now f st))"

text \<open>What a sink accepts of a history.\<close>

definition accepted :: "(feedback \<Rightarrow> bool) \<Rightarrow> (string \<Rightarrow> string option) \<Rightarrow> (int \<times> feedback) list \<Rightarrow> outcome list" where
  "accepted admits name_turn fs = List.map_filter (\<lambda>(now, f).
     if admits f then map_option (\<lambda>x. moment_of now (f\<lparr>fb_turn := x\<rparr>)) (name_turn (fb_turn f)) else None) fs"

lemma accepted_simps [simp]:
  "accepted admits name_turn [] = []"
  "accepted admits name_turn ((now, f) # fs) =
     (if admits f then (case name_turn (fb_turn f) of None \<Rightarrow> [] | Some x \<Rightarrow> [moment_of now (f\<lparr>fb_turn := x\<rparr>)]) else []) @
     accepted admits name_turn fs"
  by (simp_all add: accepted_def List.map_filter_def split: option.split)

context feedback_sink
begin

lemma past_of_history:
  "kept t st \<Longrightarrow> sorted_wrt (<) (t # map fst fs) \<Longrightarrow>
     past (record_all put fs st) = past st @ accepted admits name_turn fs \<and> (\<exists>t'. kept t' (record_all put fs st))"
proof (induction fs arbitrary: t st)
  case (Cons p fs)
  obtain now f where p: "p = (now, f)" by fastforce
  from Cons.prems(2) have time: "t < now" "sorted_wrt (<) (now # map fst fs)" by (simp_all add: p)
  show ?case
  proof (cases "admits f \<and> name_turn (fb_turn f) \<noteq> None")
    case True
    then obtain x where x: "name_turn (fb_turn f) = Some x" by blast
    from put_admitted [OF Cons.prems(1) time(1) _ x] True obtain st' where
      "put now f st = (Inr (moment_of now (f\<lparr>fb_turn := x\<rparr>)), st')" "past st' = past st @ [moment_of now (f\<lparr>fb_turn := x\<rparr>)]"
      "kept now st'" by blast
    with Cons.IH [OF this(3) time(2)] True x show ?thesis by (simp add: p)
  next
    case False
    then obtain e where "put now f st = (Inl e, st)" using put_refused [of f now st] by blast
    with Cons.IH [OF kept_later [OF Cons.prems(1)] time(2)] time(1) False show ?thesis by (auto simp: p)
  qed
qed auto

lemma answers_from_history:
  assumes "kept t st" and "past st = []" and "sorted_wrt (<) (t # map fst fs)"
  shows "stats skill (record_all put fs st) = Inr (count_ratings skill (accepted admits name_turn fs)) \<and>
    latest turn (record_all put fs st) =
      (case name_turn turn of None \<Rightarrow> Inl ValueError | Some x \<Rightarrow> Inr (latest_of x (accepted admits name_turn fs)))"
proof -
  from past_of_history [OF assms(1,3)] assms(2) obtain t' where
    "past (record_all put fs st) = accepted admits name_turn fs" "kept t' (record_all put fs st)" by auto
  with stats_past [OF this(2)] latest_past [OF this(2)] show ?thesis by (simp split: option.split)
qed

end

subsection \<open>Both sinks keep it\<close>

text \<open>The outcomes of the log, which is one the sink wrote.\<close>

definition log_past :: "log_line list \<Rightarrow> outcome list" where
  "log_past journal = (case read_records journal of Inl _ \<Rightarrow> [] | Inr os \<Rightarrow> os)"

definition text_or_null :: "json \<Rightarrow> bool" where
  "text_or_null v \<longleftrightarrow> (case v of JNull \<Rightarrow> True | JStr _ \<Rightarrow> True | _ \<Rightarrow> False)"

lemma read_back_line: "read_line (Json_Line (outcome_json oc)) = Inr (Some oc)"
proof -
  have "source_of (JStr (source_text c)) = Inr (Some c)" for c by (cases c) (simp_all add: source_of_def)
  then show ?thesis
    by (simp add: read_line_def outcome_json_def py_get_def get_text_def int_or_raise_def py_int_def py_str_def)
qed

lemma read_records_append:
  "read_records (xs @ ys) = bind_result (read_records xs) (\<lambda>a. bind_result (read_records ys) (\<lambda>b. Inr (a @ b)))"
  by (induction xs) (auto simp: bind_result_def split: sum.splits)

interpretation local_sink: feedback_sink
  local_record local_latest_for_turn local_rating_stats Some "\<lambda>_. True" log_past "\<lambda>_ journal. \<exists>os. read_records journal = Inr os"
proof
  fix t now :: int and st :: "log_line list" and f :: feedback and x
  assume "\<exists>os. read_records st = Inr os" and x: "Some (fb_turn f) = Some x"
  then obtain os where "read_records st = Inr os" by blast
  moreover from x have "f\<lparr>fb_turn := x\<rparr> = f" by simp
  ultimately show "\<exists>st'. local_record now f st = (Inr (moment_of now (f\<lparr>fb_turn := x\<rparr>)), st') \<and>
      log_past st' = log_past st @ [moment_of now (f\<lparr>fb_turn := x\<rparr>)] \<and> (\<exists>os. read_records st' = Inr os)"
    by (simp add: local_record_def log_past_def read_records_append read_back_line)
qed (auto simp: log_past_def local_rating_stats_def local_latest_for_turn_def)

definition outcomes_past :: "uuid \<Rightarrow> uuid \<Rightarrow> outcome_db \<Rightarrow> outcome list" where
  "outcomes_past u a t = map row_to_outcome (filter (outcome_seen u (Some a)) (od_rows t))"

definition outcome_admitted :: "pg_session list \<Rightarrow> feedback \<Rightarrow> bool" where
  "outcome_admitted sessions f \<longleftrightarrow> fb_session f \<in> ss_id ` set sessions \<and> pg_text (codes (fb_session f)) \<and>
     pg_json_text (fb_reason f) \<and> pg_json_text (fb_skill f) \<and> -1 \<le> fb_rating f \<and> fb_rating f \<le> 1"

text \<open>Rows in the order of their times, none later than \<open>t\<close>.\<close>

definition outcomes_kept :: "int \<Rightarrow> outcome_db \<Rightarrow> bool" where
  "outcomes_kept t db \<longleftrightarrow> sorted_wrt (<) (map ow_ts (od_rows db)) \<and> (\<forall>r \<in> set (od_rows db). ow_ts r \<le> t \<and> ow_turn r < 2 ^ 128)"

definition named_turn :: "(string \<Rightarrow> uuid option) \<Rightarrow> string \<Rightarrow> string option" where
  "named_turn uuid_of s = map_option uuid_str (turn_uuid uuid_of s)"

lemma latest_of_append: "latest_of x (os @ [oc]) = (if fb_turn oc = x then Some oc else latest_of x os)"
  by (simp add: latest_of_def)

lemma latest_of_filter: "latest_of x os = (if filter (\<lambda>oc. fb_turn oc = x) os = [] then None else Some (last (filter (\<lambda>oc. fb_turn oc = x) os)))"
  by (induction os rule: rev_induct) (simp_all add: latest_of_append latest_of_def)

lemma count_ratings_said: "count_ratings skill (map row_to_outcome rows) = count_ratings skill (map ow_said rows)"
  by (simp add: count_ratings_def row_to_outcome_def moment_of_def filter_map o_def)

lemma newest_first_rev:
  fixes f :: "'r \<Rightarrow> int"
  assumes "sorted_wrt (<) (map f xs)"
  shows "sort_key (\<lambda>r. - f r) xs = rev xs"
proof (rule properties_for_sort_key)
  show "mset (rev xs) = mset xs" by simp
  have "distinct (map f xs)" using assms by (simp add: strict_sorted_iff)
  then show "filter (\<lambda>x. - f k = - f x) (rev xs) = filter (\<lambda>x. - f k = - f x) xs" if "k \<in> set (rev xs)" for k
  proof -
    have "filter (\<lambda>x. f x = f k) xs = [k]" using filter_single [of f xs k] \<open>distinct (map f xs)\<close> that by simp
    then show ?thesis by (simp add: rev_filter [symmetric] eq_commute [of "f k"])
  qed
  show "sorted (map (\<lambda>r. - f r) (rev xs))"
    using assms by (simp add: rev_map sorted_wrt_rev sorted_wrt_map sorted_wrt_mono_rel [of xs "\<lambda>x y. f x < f y"] less_imp_le)
qed

lemma cloud_latest_past:
  assumes "outcomes_kept t db"
  shows "cloud_latest_for_turn uuid_of u (Some a) turn db =
    (case named_turn uuid_of turn of None \<Rightarrow> Inl ValueError | Some x \<Rightarrow> Inr (latest_of x (outcomes_past u a db)))"
proof (cases "turn_uuid uuid_of turn")
  case None
  then show ?thesis
    by (simp add: cloud_latest_for_turn_def outcome_latest_for_turn_def named_turn_def current_user_id_def parsed_uuid_def)
next
  case (Some i)
  then have i: "i < 2 ^ 128" by (auto simp: turn_uuid_def split: option.splits if_splits)
  let ?P = "\<lambda>r. outcome_seen u (Some a) r \<and> ow_turn r = i"
  have "sorted_wrt (<) (map ow_ts (filter ?P (od_rows db)))"
    using assms by (simp add: outcomes_kept_def sorted_wrt_map sorted_wrt_filter)
  from newest_first_rev [OF this] have newest: "sort_key (\<lambda>r. - ow_ts r) (filter ?P (od_rows db)) = rev (filter ?P (od_rows db))" .
  have "fb_turn (row_to_outcome r) = uuid_str i \<longleftrightarrow> ow_turn r = i" if "r \<in> set (od_rows db)" for r
    using assms that uuid_str_inj [of "ow_turn r" i] i by (auto simp: outcomes_kept_def row_to_outcome_def moment_of_def)
  then have "filter (\<lambda>oc. fb_turn oc = uuid_str i) (outcomes_past u a db) = map row_to_outcome (filter ?P (od_rows db))"
    by (auto simp: outcomes_past_def filter_map o_def intro!: arg_cong [where f = "map row_to_outcome"] filter_cong)
  then have "latest_of (uuid_str i) (outcomes_past u a db) =
      (if filter ?P (od_rows db) = [] then None else Some (row_to_outcome (last (filter ?P (od_rows db)))))"
    by (simp add: latest_of_filter last_map)
  moreover have "(case rev xs of [] \<Rightarrow> None | r # _ \<Rightarrow> Some r) = (if xs = [] then None else Some (last xs))" for xs :: "outcome_row list"
    by (cases xs rule: rev_cases) simp_all
  ultimately show ?thesis
    using Some newest
    by (simp add: cloud_latest_for_turn_def outcome_latest_for_turn_def named_turn_def current_user_id_def parsed_uuid_def)
qed

interpretation cloud_sink: feedback_sink
  "cloud_record uuid_of sessions u (Some a)" "cloud_latest_for_turn uuid_of u (Some a)" "cloud_rating_stats u (Some a)"
  "named_turn uuid_of" "outcome_admitted sessions" "outcomes_past u a" outcomes_kept
  for uuid_of :: "string \<Rightarrow> uuid option" and sessions :: "pg_session list" and u a :: uuid
proof
  fix t now :: int and st :: outcome_db and f :: feedback and x
  assume kept: "outcomes_kept t st" "t < now" and f: "outcome_admitted sessions f" "named_turn uuid_of (fb_turn f) = Some x"
  from f(2) obtain i where i: "turn_uuid uuid_of (fb_turn f) = Some i" "x = uuid_str i" by (auto simp: named_turn_def)
  let ?r = "\<lparr>ow_id = od_next st, ow_user = u, ow_agent = a, ow_turn = i, ow_said = f, ow_ts = now\<rparr>"
  let ?st = "st\<lparr>od_rows := od_rows st @ [?r], od_next := Suc (od_next st)\<rparr>"
  have row: "row_to_outcome ?r = moment_of now (f\<lparr>fb_turn := x\<rparr>)" by (simp add: row_to_outcome_def i(2))
  have "cloud_record uuid_of sessions u (Some a) now f st = (Inr (row_to_outcome ?r), ?st)"
    using f(1) by (simp add: cloud_record_def outcome_record_def outcome_admitted_def current_user_id_def parsed_uuid_def i(1) Let_def)
  moreover have "outcomes_past u a ?st = outcomes_past u a st @ [row_to_outcome ?r]"
    by (simp add: outcomes_past_def outcome_seen_def)
  moreover have "i < 2 ^ 128" using i(1) by (auto simp: turn_uuid_def split: option.splits if_splits)
  then have "outcomes_kept now ?st" using kept by (fastforce simp: outcomes_kept_def sorted_wrt_append)
  ultimately show "\<exists>st'. cloud_record uuid_of sessions u (Some a) now f st = (Inr (moment_of now (f\<lparr>fb_turn := x\<rparr>)), st') \<and>
      outcomes_past u a st' = outcomes_past u a st @ [moment_of now (f\<lparr>fb_turn := x\<rparr>)] \<and> outcomes_kept now st'"
    unfolding row by blast
next
  fix now :: int and st :: outcome_db and f :: feedback
  assume "\<not> outcome_admitted sessions f \<or> named_turn uuid_of (fb_turn f) = None"
  then show "\<exists>e. cloud_record uuid_of sessions u (Some a) now f st = (Inl e, st)"
    by (auto simp: cloud_record_def outcome_record_def outcome_admitted_def named_turn_def current_user_id_def parsed_uuid_def
        split: option.splits)
next
  fix t :: int and st :: outcome_db and skill
  assume "outcomes_kept t st"
  show "cloud_rating_stats u (Some a) skill st = Inr (count_ratings skill (outcomes_past u a st))"
    by (simp add: cloud_rating_stats_def outcome_rating_stats_def current_user_id_def outcomes_past_def count_ratings_said)
next
  fix t :: int and st :: outcome_db and turn
  assume "outcomes_kept t st"
  then show "cloud_latest_for_turn uuid_of u (Some a) turn st =
      (case named_turn uuid_of turn of None \<Rightarrow> Inl ValueError | Some x \<Rightarrow> Inr (latest_of x (outcomes_past u a st)))"
    by (rule cloud_latest_past)
qed (auto simp: outcomes_kept_def)

subsection \<open>What the sinks answer\<close>

text \<open>
  C38. Whatever outcomes are recorded, one after the other, each sink then answers from exactly those it accepted
  of them: the log of the command line from all, the service from those whose turn is a UUID, whose session
  exists and whose rating is -1, 0 or 1.  The counts are counts over that history, and the latest outcome of
  a turn is the last in it.
\<close>

theorem feedback_sinks_exact:
  assumes "sorted_wrt (<) (t # map fst fs)"
  shows "local_rating_stats skill (record_all local_record fs []) = Inr (count_ratings skill (accepted (\<lambda>_. True) Some fs)) \<and>
    local_latest_for_turn turn (record_all local_record fs []) = Inr (latest_of turn (accepted (\<lambda>_. True) Some fs)) \<and>
    cloud_rating_stats u (Some a) skill (record_all (cloud_record uuid_of sessions u (Some a)) fs \<lparr>od_rows = [], od_next = n\<rparr>) =
      Inr (count_ratings skill (accepted (outcome_admitted sessions) (named_turn uuid_of) fs)) \<and>
    cloud_latest_for_turn uuid_of u (Some a) turn (record_all (cloud_record uuid_of sessions u (Some a)) fs \<lparr>od_rows = [], od_next = n\<rparr>) =
      (case named_turn uuid_of turn of None \<Rightarrow> Inl ValueError
       | Some x \<Rightarrow> Inr (latest_of x (accepted (outcome_admitted sessions) (named_turn uuid_of) fs)))"
proof -
  have "log_past [] = []" by (simp add: log_past_def)
  moreover have "outcomes_kept t \<lparr>od_rows = [], od_next = n\<rparr>" "outcomes_past u a \<lparr>od_rows = [], od_next = n\<rparr> = []"
    by (simp_all add: outcomes_kept_def outcomes_past_def)
  ultimately show ?thesis
    using local_sink.answers_from_history [OF _ _ assms, where st = "[]" and skill = skill and turn = turn]
      cloud_sink.answers_from_history [OF _ _ assms, where st = "\<lparr>od_rows = [], od_next = n\<rparr>" and u = u and a = a and
        uuid_of = uuid_of and sessions = sessions and skill = skill and turn = turn]
    by simp
qed

definition liked :: "string \<Rightarrow> int \<Rightarrow> feedback" where
  "liked turn n = \<lparr>fb_session = ''a1'', fb_turn = turn, fb_source = User_Explicit, fb_rating = n, fb_reason = JNull, fb_skill = JStr ''k''\<rparr>"

lemma feedback_sinks_exact_witness:
  "local_rating_stats ''k'' (record_all local_record [(1, liked ''x'' 1), (2, liked ''x'' 7)] []) =
     Inr \<lparr>oz_uses = 2, oz_successes = 1, oz_errors = 0\<rparr> \<and>
   cloud_rating_stats 7 (Some 1) ''k'' (record_all (cloud_record (\<lambda>_. Some 5) [] 7 (Some 1))
     [(1, liked ''x'' 1), (2, liked ''x'' 7)] \<lparr>od_rows = [], od_next = 0\<rparr>) = Inr \<lparr>oz_uses = 0, oz_successes = 0, oz_errors = 0\<rparr>"
  using feedback_sinks_exact [of 0 "[(1, liked ''x'' 1), (2, liked ''x'' 7)]" "''k''" "''x''" 7 1 "\<lambda>_. Some 5" "[]" 0]
  by (simp add: count_ratings_def liked_def moment_of_def outcome_admitted_def)

text \<open>Where the service takes them all, under the names they have, both sinks give the same answers.\<close>

theorem feedback_sinks_agree:
  assumes "sorted_wrt (<) (t # map fst fs)" and "list_all (\<lambda>(_, f). outcome_admitted sessions f \<and> named_turn uuid_of (fb_turn f) = Some (fb_turn f)) fs"
    and "named_turn uuid_of turn = Some turn"
  shows "local_rating_stats skill (record_all local_record fs []) =
      cloud_rating_stats u (Some a) skill (record_all (cloud_record uuid_of sessions u (Some a)) fs \<lparr>od_rows = [], od_next = n\<rparr>) \<and>
    local_latest_for_turn turn (record_all local_record fs []) =
      cloud_latest_for_turn uuid_of u (Some a) turn (record_all (cloud_record uuid_of sessions u (Some a)) fs \<lparr>od_rows = [], od_next = n\<rparr>)"
proof -
  have "accepted (\<lambda>_. True) Some fs = accepted (outcome_admitted sessions) (named_turn uuid_of) fs"
    using assms(2) by (induction fs) auto
  moreover have "log_past [] = []" by (simp add: log_past_def)
  moreover have "outcomes_kept t \<lparr>od_rows = [], od_next = n\<rparr>" "outcomes_past u a \<lparr>od_rows = [], od_next = n\<rparr> = []"
    by (simp_all add: outcomes_kept_def outcomes_past_def)
  ultimately show ?thesis
    using local_sink.answers_from_history [OF _ _ assms(1), where st = "[]" and skill = skill and turn = turn] assms(3)
      cloud_sink.answers_from_history [OF _ _ assms(1), where st = "\<lparr>od_rows = [], od_next = n\<rparr>" and u = u and a = a and
        uuid_of = uuid_of and sessions = sessions and skill = skill and turn = turn]
    by simp
qed

lemma feedback_sinks_agree_witness:
  "local_rating_stats ''k'' (record_all local_record [(1, liked (uuid_str 5) 1)] []) =
   cloud_rating_stats 7 (Some 1) ''k'' (record_all (cloud_record (\<lambda>_. Some 5) [example_session] 7 (Some 1))
     [(1, liked (uuid_str 5) 1)] \<lparr>od_rows = [], od_next = 0\<rparr>)"
proof -
  have "outcome_admitted [example_session] (liked (uuid_str 5) 1)"
    by (simp add: outcome_admitted_def liked_def example_session_def pg_json_text_def pg_text_def surrogate_def)
  moreover have "named_turn (\<lambda>_. Some 5) x = Some (uuid_str 5)" for x by (simp add: named_turn_def turn_uuid_def)
  ultimately show ?thesis
    using feedback_sinks_agree [of 0 "[(1, liked (uuid_str 5) 1)]" "[example_session]" "\<lambda>_. Some 5" "uuid_str 5" "''k''" 7 1 0]
    by (simp add: liked_def)
qed

subsection \<open>What the evolution hook makes of them\<close>

text \<open>\<open>EvolutionHook._latest_skill_stats\<close>: a sink that raises counts as none.\<close>

definition latest_skill_stats :: "outcome_stats result \<Rightarrow> (int \<times> int) option" where
  "latest_skill_stats r = (case r of Inl _ \<Rightarrow> None | Inr z \<Rightarrow> Some (int (oz_successes z), int (oz_errors z)))"

lemma sum_of_ratings:
  assumes "\<forall>f \<in> set fs. -1 \<le> fb_rating f \<and> fb_rating f \<le> 1"
  shows "int (length (filter (\<lambda>f. fb_rating f = 1) fs)) - int (length (filter (\<lambda>f. fb_rating f = -1) fs)) = sum_list (map fb_rating fs) \<and>
    length (filter (\<lambda>f. fb_rating f = 1) fs) + length (filter (\<lambda>f. fb_rating f = -1) fs) = length (filter (\<lambda>f. fb_rating f \<noteq> 0) fs)"
  using assms
proof (induction fs)
  case (Cons f fs)
  from Cons have ih: "int (length (filter (\<lambda>f. fb_rating f = 1) fs)) - int (length (filter (\<lambda>f. fb_rating f = -1) fs)) = sum_list (map fb_rating fs)"
    "length (filter (\<lambda>f. fb_rating f = 1) fs) + length (filter (\<lambda>f. fb_rating f = -1) fs) = length (filter (\<lambda>f. fb_rating f \<noteq> 0) fs)"
    by simp_all
  from Cons.prems consider "fb_rating f = -1" | "fb_rating f = 0" | "fb_rating f = 1" by force
  then show ?case
  proof cases
    case 1
    with ih show ?thesis by simp
  next
    case 2
    with ih show ?thesis by simp
  next
    case 3
    with ih show ?thesis by simp
  qed
qed simp

lemma accepted_ratings: "\<forall>oc \<in> set (accepted (outcome_admitted sessions) nm fs). -1 \<le> fb_rating oc \<and> fb_rating oc \<le> 1"
proof (induction fs)
  case (Cons p fs)
  obtain now f where p: "p = (now, f)" by fastforce
  have r: "fb_rating (moment_of now (f\<lparr>fb_turn := x\<rparr>)) = fb_rating f" for x by (simp add: moment_of_def)
  have adm: "outcome_admitted sessions f \<Longrightarrow> -1 \<le> fb_rating f \<and> fb_rating f \<le> 1" by (simp add: outcome_admitted_def)
  have "accepted (outcome_admitted sessions) nm (p # fs) = accepted (outcome_admitted sessions) nm fs \<or>
      outcome_admitted sessions f \<and> (\<exists>x. accepted (outcome_admitted sessions) nm (p # fs) =
        moment_of now (f\<lparr>fb_turn := x\<rparr>) # accepted (outcome_admitted sessions) nm fs)"
    unfolding p accepted_simps(2) by (cases "nm (fb_turn f)") (simp, simp, blast)
  with Cons.IH adm r show ?case by fastforce
qed simp

text \<open>The rule on the counts of the last skill viewed, whatever sink answers them.\<close>

lemma refine_from_counts:
  assumes "\<And>skill. ev_stats sv skill st = latest_skill_stats (stats skill)" and "eh_viewed h \<noteq> []"
    and "stats (last (eh_viewed h)) = Inr (count_ratings (last (eh_viewed h)) os)"
    and "rated = filter (\<lambda>oc. fb_skill oc = JStr (last (eh_viewed h))) os"
  shows "should_refine sv h st \<longleftrightarrow>
    (let up = length (filter (\<lambda>oc. fb_rating oc = 1) rated); down = length (filter (\<lambda>oc. fb_rating oc = -1) rated)
     in if up + down < 5 then eh_error h \<noteq> None else up < down)"
proof -
  have "ev_stats sv (last (eh_viewed h)) st = Some (int (length (filter (\<lambda>oc. fb_rating oc = 1) rated)),
      int (length (filter (\<lambda>oc. fb_rating oc = -1) rated)))"
    by (simp add: assms(1,3,4) latest_skill_stats_def count_ratings_def Let_def)
  with assms(2) show ?thesis unfolding should_refine_def by (auto simp: Let_def CURATOR_REFINE_MIN_OUTCOMES_def)
qed


definition sink_services :: "outcome_db evolution_services" where
  "sink_services = \<lparr>ev_stats = (\<lambda>skill st. latest_skill_stats (cloud_rating_stats 7 (Some 1) skill st)),
     ev_record_outcome = (\<lambda>_ _ _ st. (Inr (), st)), ev_read_md = (\<lambda>_ _. Inr None), ev_distill = (\<lambda>_ st. st), ev_refine = (\<lambda>_ st. st)\<rparr>"

definition journal_services :: "log_line list evolution_services" where
  "journal_services = \<lparr>ev_stats = (\<lambda>skill st. latest_skill_stats (local_rating_stats skill st)),
     ev_record_outcome = (\<lambda>_ _ _ st. (Inr (), st)), ev_read_md = (\<lambda>_ _. Inr None), ev_distill = (\<lambda>_ st. st), ev_refine = (\<lambda>_ st. st)\<rparr>"


end
