(* ===== verification/Classify.thy ===== *)
theory Classify
  imports Feedback
begin

text \<open>
  How outcomes come about: the side agent \<open>agent/outcome_classifier.py\<close>, the job \<open>worker/classify.py\<close>,
  and the route \<open>POST /v1/turns/{turn_id}/feedback\<close> of \<open>web/routes/turns.py\<close>.
\<close>

subsection \<open>The classifier\<close>

definition CLASSIFIER_MAX_TAIL_MESSAGES :: nat where "CLASSIFIER_MAX_TAIL_MESSAGES = 12"
definition CLASSIFIER_MAX_REASON_CHARS :: nat where "CLASSIFIER_MAX_REASON_CHARS = 240"

record classifier_result =
  cr_rating :: int
  cr_reason :: string

text \<open>
  \<open>json.loads\<close> also reads fractions and the words for infinity and not-a-number, which \<open>int\<close> treats apart.
  The reader \<open>loads\<close> of the model answers the value under \<open>rating\<close>, if any, and the other keys of an
  object; \<open>Inr None\<close> is a \<open>JSONDecodeError\<close> or a document that is no object, and \<open>Inl\<close> any other exception of
  \<open>json.loads\<close>: a plain \<open>ValueError\<close> on an integer of more than 4300 digits and a \<open>RecursionError\<close> on a document
  nested too deeply.
\<close>

datatype rating_value = Json_Rating json | Fraction_Rating rat | Infinite_Rating | Nan_Rating

type_synonym reply_reader = "string \<Rightarrow> (rating_value option \<times> dict) option result"

definition rating_int :: "rating_value \<Rightarrow> int result" where
  "rating_int v =
     (case v of
        Json_Rating j \<Rightarrow> int_or_raise j
      | Fraction_Rating q \<Rightarrow> Inr (if q < 0 then \<lceil>q\<rceil> else \<lfloor>q\<rfloor>)
      | Infinite_Rating \<Rightarrow> Inl OverflowError
      | Nan_Rating \<Rightarrow> Inl ValueError)"

text \<open>
  Of \<open>json.loads\<close> the \<open>JSONDecodeError\<close> is caught, and of \<open>int\<close> the \<open>TypeError\<close> and the \<open>ValueError\<close>; nothing else is.
\<close>

definition classifier_parse :: "reply_reader \<Rightarrow> string \<Rightarrow> classifier_result result" where
  "classifier_parse loads reply =
     (case loads (unfenced reply) of
        Inl e \<Rightarrow> Inl e
      | Inr None \<Rightarrow> Inr \<lparr>cr_rating = 0, cr_reason = ''unparseable''\<rparr>
      | Inr (Some (rating, d)) \<Rightarrow>
          (let reason = take CLASSIFIER_MAX_REASON_CHARS (py_strip (get_text d ''reason'')) in
           case (case rating of None \<Rightarrow> Inr 0 | Some v \<Rightarrow> rating_int v) of
             Inl OverflowError \<Rightarrow> Inl OverflowError
           | Inl _ \<Rightarrow> Inr \<lparr>cr_rating = 0, cr_reason = reason\<rparr>
           | Inr n \<Rightarrow> Inr \<lparr>cr_rating = (if n \<in> {-1, 0, 1} then n else 0), cr_reason = reason\<rparr>))"

definition classifier_tail :: "json list \<Rightarrow> json list" where
  "classifier_tail xs =
     (let substantive = filter (\<lambda>x. case x of JObj d \<Rightarrow> truthy (py_get d ''name'') \<and> truthy (py_get d ''output'') | _ \<Rightarrow> False) xs
      in drop (length substantive - CLASSIFIER_MAX_TAIL_MESSAGES) substantive)"

text \<open>The side agent answers its final output, nothing, or raises.\<close>

definition classifier_run ::
  "reply_reader \<Rightarrow> (json \<Rightarrow> string option result) \<Rightarrow> string \<Rightarrow> string \<Rightarrow> json list \<Rightarrow> classifier_result result"
where
  "classifier_run loads side request final tool_tail =
     (let tail = classifier_tail tool_tail in
      if request = [] \<and> final = [] \<and> tail = [] then Inr \<lparr>cr_rating = 0, cr_reason = ''no trajectory''\<rparr>
      else (case side (JObj [(''user_request'', JStr (take 500 request)), (''final_text'', JStr (take 800 final)),
                (''tool_tail'', JArr tail)]) of
              Inl _ \<Rightarrow> Inr \<lparr>cr_rating = 0, cr_reason = ''classifier raised''\<rparr>
            | Inr None \<Rightarrow> Inr \<lparr>cr_rating = 0, cr_reason = ''empty response''\<rparr>
            | Inr (Some s) \<Rightarrow>
                if s = [] then Inr \<lparr>cr_rating = 0, cr_reason = ''empty response''\<rparr> else classifier_parse loads s))"

subsection \<open>The job\<close>

definition DEFAULT_CLASSIFIER_MODEL :: string where "DEFAULT_CLASSIFIER_MODEL = ''gpt-5.4-mini''"

text \<open>
  The ids of the message are texts; whatever the sink raises counts as a failure to be tried again, while
  an exception of the classifier leaves the job.
\<close>

definition run_classify ::
  "reply_reader \<Rightarrow> (string \<Rightarrow> json \<Rightarrow> string option result) \<Rightarrow> (string \<Rightarrow> uuid option) \<Rightarrow> pg_session list \<Rightarrow> int
     \<Rightarrow> classify_message \<Rightarrow> outcome_db \<Rightarrow> bool result \<times> outcome_db"
where
  "run_classify loads side uuid_of sessions now m t =
     (case classifier_run loads (side (if cl_model m = [] then DEFAULT_CLASSIFIER_MODEL else cl_model m))
             (cl_user_request m) (cl_final_text m) (cl_tool_tail m) of
        Inl e \<Rightarrow> (Inl e, t)
      | Inr r \<Rightarrow>
          (case (uuid_of (cl_user_id m), uuid_of (cl_agent_id m)) of
             (Some u, Some a) \<Rightarrow>
               (case cloud_record uuid_of sessions u (Some a) now
                   \<lparr>fb_session = cl_session_id m, fb_turn = cl_turn_id m, fb_source = Classifier, fb_rating = cr_rating r,
                    fb_reason = (if cr_reason r = [] then JNull else JStr (cr_reason r)), fb_skill = cl_skill_slug m\<rparr> t of
                  (Inl _, t') \<Rightarrow> (Inr False, t')
                | (Inr _, t') \<Rightarrow> (Inr True, t'))
           | _ \<Rightarrow> (Inr False, t)))"

subsection \<open>The route\<close>

record feedback_in =
  fi_session_key :: string
  fi_rating :: int
  fi_reason :: "string option"
  fi_skill_slug :: "string option"
  fi_agent :: "agent_ref option"

definition feedback_in_ok :: "feedback_in \<Rightarrow> bool" where
  "feedback_in_ok b \<longleftrightarrow> fi_session_key b \<noteq> [] \<and> length (fi_session_key b) \<le> 200 \<and> fi_rating b \<in> {-1, 0, 1} \<and>
     (case fi_reason b of None \<Rightarrow> True | Some s \<Rightarrow> length s \<le> 240) \<and> (case fi_skill_slug b of None \<Rightarrow> True | Some s \<Rightarrow> length s \<le> 200)"

definition value_as_unprocessable :: "'a result \<Rightarrow> 'a result" where
  "value_as_unprocessable r = (case r of Inl ValueError \<Rightarrow> Inl (http_error UNPROCESSABLE) | _ \<Rightarrow> r)"

definition post_feedback ::
  "(string \<Rightarrow> uuid option) \<Rightarrow> pg_session list \<Rightarrow> uuid \<Rightarrow> uuid \<Rightarrow> int \<Rightarrow> string \<Rightarrow> feedback_in \<Rightarrow> agent_db \<times> outcome_db
     \<Rightarrow> outcome result \<times> agent_db \<times> outcome_db"
where
  "post_feedback uuid_of sessions u fresh now turn b st =
     (case resolve_agent_limits u (fi_agent b) fresh now (fst st) of
        Inl e \<Rightarrow> (Inl e, st)
      | Inr (l, db) \<Rightarrow>
          (case (case l of Some x \<Rightarrow> Some (Some (al_agent_id x)) | None \<Rightarrow> map_option snd (fi_agent b)) of
             None \<Rightarrow> (Inl (http_error UNPROCESSABLE), db, snd st)
           | Some None \<Rightarrow> (Inl (http_error UNPROCESSABLE), db, snd st)
           | Some (Some a) \<Rightarrow>
               (let (r, t') = cloud_record uuid_of sessions u (Some a) now
                  \<lparr>fb_session = fi_session_key b, fb_turn = turn, fb_source = User_Explicit, fb_rating = fi_rating b,
                   fb_reason = opt_str (fi_reason b), fb_skill = opt_str (fi_skill_slug b)\<rparr> (snd st)
                in (value_as_unprocessable r, db, t'))))"

subsection \<open>What the classifier answers\<close>

definition classifier_prompt :: "string \<Rightarrow> string \<Rightarrow> json list \<Rightarrow> json" where
  "classifier_prompt request final tool_tail =
     JObj [(''user_request'', JStr (take 500 request)), (''final_text'', JStr (take 800 final)),
       (''tool_tail'', JArr (classifier_tail tool_tail))]"

text \<open>The reply the classifier parses, if it asks and gets one.\<close>

definition classifier_reply :: "(json \<Rightarrow> string option result) \<Rightarrow> string \<Rightarrow> string \<Rightarrow> json list \<Rightarrow> string option" where
  "classifier_reply side request final tool_tail =
     (if request = [] \<and> final = [] \<and> classifier_tail tool_tail = [] then None
      else (case side (classifier_prompt request final tool_tail) of
              Inr (Some s) \<Rightarrow> if s = [] then None else Some s
            | _ \<Rightarrow> None))"

text \<open>What the classifier may answer: a rating of -1, 0 or 1 and a short reason.\<close>

definition bounded_result :: "classifier_result \<Rightarrow> bool" where
  "bounded_result r \<longleftrightarrow> cr_rating r \<in> {-1, 0, 1} \<and> length (cr_reason r) \<le> 240"

lemma int_or_raise_no_overflow: "int_or_raise j \<noteq> Inl OverflowError"
  by (simp add: int_or_raise_def split: option.split json.split)

lemma rating_overflow: "rating_int v = Inl OverflowError \<longleftrightarrow> v = Infinite_Rating"
  using int_or_raise_no_overflow by (simp add: rating_int_def split: rating_value.split)

text \<open>What the parser makes of an object: it raises exactly on an infinite rating.\<close>

lemma parse_object:
  assumes "loads (unfenced s) = Inr (Some (rating, d))"
  shows "if rating = Some Infinite_Rating then classifier_parse loads s = Inl OverflowError
    else \<exists>r. classifier_parse loads s = Inr r"
proof (cases rating)
  case (Some v)
  show ?thesis
  proof (cases "rating_int v")
    case (Inl x)
    with rating_overflow [of v] assms Some show ?thesis by (cases x) (auto simp: classifier_parse_def Let_def)
  next
    case (Inr n)
    with rating_overflow [of v] assms Some show ?thesis by (auto simp: classifier_parse_def Let_def)
  qed
qed (use assms in \<open>simp add: classifier_parse_def Let_def\<close>)

lemma parse_bounded:
  assumes "classifier_parse loads s = Inr r"
  shows "bounded_result r"
  using assms unfolding classifier_parse_def Let_def CLASSIFIER_MAX_REASON_CHARS_def bounded_result_def
  by (auto split: option.splits sum.splits exn.splits prod.splits if_splits)

lemma classifier_run_cases:
  "case classifier_reply side request final tool_tail of
     None \<Rightarrow> \<exists>r. classifier_run loads side request final tool_tail = Inr r \<and> bounded_result r
   | Some s \<Rightarrow> classifier_run loads side request final tool_tail = classifier_parse loads s"
  by (auto simp: classifier_reply_def classifier_run_def classifier_prompt_def bounded_result_def Let_def
      split: sum.split option.split)

lemma classifier_run_bounded:
  assumes "classifier_run loads side request final tool_tail = Inr r"
  shows "bounded_result r"
  using classifier_run_cases [where side = side and request = request and final = final and tool_tail = tool_tail and loads = loads]
    assms parse_bounded by (auto split: option.splits)

text \<open>
  C40. What the classifier does is settled by the reply of the model and by what \<open>json.loads\<close> makes of it.
  Without a reply (nothing to classify, the model raised or answered nothing) it answers a rating of
  -1, 0 or 1 and a reason of at most 240 characters.  With one it raises what \<open>json.loads\<close> raised other
  than a \<open>JSONDecodeError\<close>, it raises an \<open>OverflowError\<close> when the rating of the object is infinite, and it
  answers such a rating and reason in every other case, with the reason ''unparseable'' and the rating 0
  for what is no JSON object.
\<close>

theorem classifier_total:
  "case classifier_reply side request final tool_tail of
     None \<Rightarrow> \<exists>r. classifier_run loads side request final tool_tail = Inr r \<and> bounded_result r
   | Some s \<Rightarrow>
       (case loads (unfenced s) of
          Inl e \<Rightarrow> classifier_run loads side request final tool_tail = Inl e
        | Inr None \<Rightarrow> classifier_run loads side request final tool_tail = Inr \<lparr>cr_rating = 0, cr_reason = ''unparseable''\<rparr>
        | Inr (Some (rating, d)) \<Rightarrow>
            if rating = Some Infinite_Rating then classifier_run loads side request final tool_tail = Inl OverflowError
            else \<exists>r. classifier_run loads side request final tool_tail = Inr r \<and> bounded_result r)"
proof -
  note run = classifier_run_cases [where side = side and request = request and final = final and tool_tail = tool_tail and loads = loads]
  show ?thesis
  proof (cases "classifier_reply side request final tool_tail")
    case (Some s)
    with run have "classifier_run loads side request final tool_tail = classifier_parse loads s" by simp
    with Some parse_object [of loads s] parse_bounded [of loads s] show ?thesis
      by (auto simp: classifier_parse_def split: sum.split option.split)
  qed (use run in simp)
qed

subsection \<open>What is recorded\<close>

lemma cloud_record_cases:
  "(\<exists>oc r. cloud_record uuid_of sessions u (Some a) now f t = (Inr oc, t\<lparr>od_rows := od_rows t @ [r], od_next := Suc (od_next t)\<rparr>) \<and>
      ow_user r = u \<and> ow_agent r = a \<and> ow_said r = f \<and> ow_ts r = now \<and> outcome_admitted sessions f) \<or>
   (\<exists>e. cloud_record uuid_of sessions u (Some a) now f t = (Inl e, t))"
proof (cases "outcome_admitted sessions f \<and> named_turn uuid_of (fb_turn f) \<noteq> None")
  case True
  then obtain i where i: "turn_uuid uuid_of (fb_turn f) = Some i" by (auto simp: named_turn_def)
  let ?r = "\<lparr>ow_id = od_next t, ow_user = u, ow_agent = a, ow_turn = i, ow_said = f, ow_ts = now\<rparr>"
  from True i have "cloud_record uuid_of sessions u (Some a) now f t =
      (Inr (row_to_outcome ?r), t\<lparr>od_rows := od_rows t @ [?r], od_next := Suc (od_next t)\<rparr>)"
    by (simp add: cloud_record_def outcome_record_def outcome_admitted_def current_user_id_def parsed_uuid_def Let_def)
  with True show ?thesis
    by (intro disjI1 exI [of _ "row_to_outcome ?r"] exI [of _ ?r]) simp
next
  case False
  with cloud_sink.put_refused [of sessions f uuid_of u a now t] show ?thesis by blast
qed

text \<open>
  The job answers true exactly when it appended one row: the classifier's, for the turn and the session of
  the message, with a rating of -1, 0 or 1 and no reason longer than 240 characters.  Otherwise it changes
  nothing.
\<close>

theorem classify_exact:
  assumes "run_classify loads side uuid_of sessions now m t = (res, t')"
  shows "if res = Inr True
    then \<exists>r u a. t' = t\<lparr>od_rows := od_rows t @ [r], od_next := Suc (od_next t)\<rparr> \<and> uuid_of (cl_user_id m) = Some u \<and>
      uuid_of (cl_agent_id m) = Some a \<and> ow_user r = u \<and> ow_agent r = a \<and> ow_ts r = now \<and> fb_source (ow_said r) = Classifier \<and>
      fb_session (ow_said r) = cl_session_id m \<and> fb_turn (ow_said r) = cl_turn_id m \<and> fb_rating (ow_said r) \<in> {-1, 0, 1} \<and>
      (fb_reason (ow_said r) = JNull \<or> (\<exists>s. fb_reason (ow_said r) = JStr s \<and> length s \<le> 240)) \<and>
      cl_session_id m \<in> ss_id ` set sessions
    else t' = t"
proof -
  let ?run = "classifier_run loads (side (if cl_model m = [] then DEFAULT_CLASSIFIER_MODEL else cl_model m))
      (cl_user_request m) (cl_final_text m) (cl_tool_tail m)"
  show ?thesis
  proof (cases ?run)
    case (Inl e)
    with assms show ?thesis by (auto simp: run_classify_def)
  next
    case (Inr c)
    have c: "cr_rating c \<in> {-1, 0, 1}" "length (cr_reason c) \<le> 240"
      using classifier_run_bounded [OF Inr] by (simp_all add: bounded_result_def)
    let ?f = "\<lparr>fb_session = cl_session_id m, fb_turn = cl_turn_id m, fb_source = Classifier, fb_rating = cr_rating c,
        fb_reason = (if cr_reason c = [] then JNull else JStr (cr_reason c)), fb_skill = cl_skill_slug m\<rparr>"
    show ?thesis
    proof (cases "\<exists>u a. uuid_of (cl_user_id m) = Some u \<and> uuid_of (cl_agent_id m) = Some a")
      case True
      then obtain u a where ids: "uuid_of (cl_user_id m) = Some u" "uuid_of (cl_agent_id m) = Some a" by blast
      from cloud_record_cases [of uuid_of sessions u a now ?f t] show ?thesis
      proof (elim disjE exE conjE)
        fix oc r
        assume "cloud_record uuid_of sessions u (Some a) now ?f t = (Inr oc, t\<lparr>od_rows := od_rows t @ [r], od_next := Suc (od_next t)\<rparr>)"
          and r: "ow_user r = u" "ow_agent r = a" "ow_said r = ?f" "ow_ts r = now" "outcome_admitted sessions ?f"
        with assms Inr ids have "res = Inr True" "t' = t\<lparr>od_rows := od_rows t @ [r], od_next := Suc (od_next t)\<rparr>"
          by (simp_all add: run_classify_def)
        moreover have "cl_session_id m \<in> ss_id ` set sessions" using r(5) by (simp add: outcome_admitted_def)
        moreover have "fb_reason ?f = JNull \<or> (\<exists>s. fb_reason ?f = JStr s \<and> length s \<le> 240)" using c(2) by simp
        moreover have "fb_source ?f = Classifier" "fb_session ?f = cl_session_id m" "fb_turn ?f = cl_turn_id m"
          "fb_rating ?f \<in> {-1, 0, 1}" using c(1) by simp_all
        ultimately show ?thesis using ids r(1-4) by (metis (no_types, lifting))
      next
        fix e
        assume "cloud_record uuid_of sessions u (Some a) now ?f t = (Inl e, t)"
        with assms Inr ids show ?thesis by (auto simp: run_classify_def)
      qed
    qed (use assms Inr in \<open>auto simp: run_classify_def split: option.splits\<close>)
  qed
qed

lemma record_without_session:
  assumes "cloud_record uuid_of sessions u (Some a) now f t = (r, t')" and "fb_session f \<notin> ss_id ` set sessions"
  shows "\<exists>e. r = Inl e \<and> t' = t"
  using cloud_record_cases [of uuid_of sessions u a now f t] assms by (auto simp: outcome_admitted_def)

text \<open>
  An outcome needs its session in the sessions table of Postgres.  Without it the job answers false, so the
  queue delivers its message again and again, and the route raises for the user; nothing is recorded.
\<close>

theorem feedback_needs_session:
  assumes "cl_session_id m \<notin> ss_id ` set sessions" and "fi_session_key b \<notin> ss_id ` set sessions"
  shows "fst (run_classify loads side uuid_of sessions now m t) \<noteq> Inr True \<and> snd (run_classify loads side uuid_of sessions now m t) = t \<and>
    (\<exists>e. fst (post_feedback uuid_of sessions u fresh now turn b (db, t)) = Inl e) \<and>
    snd (snd (post_feedback uuid_of sessions u fresh now turn b (db, t))) = t"
proof -
  obtain res t' where run: "run_classify loads side uuid_of sessions now m t = (res, t')" by fastforce
  have "res \<noteq> Inr True \<and> t' = t"
  proof (cases "classifier_run loads (side (if cl_model m = [] then DEFAULT_CLASSIFIER_MODEL else cl_model m))
      (cl_user_request m) (cl_final_text m) (cl_tool_tail m)")
    case (Inl e)
    with run show ?thesis by (auto simp: run_classify_def)
  next
    case (Inr c)
    with run show ?thesis using assms(1)
      by (auto simp: run_classify_def split: option.splits prod.splits sum.splits dest!: record_without_session)
  qed
  moreover have "(\<exists>e. fst (post_feedback uuid_of sessions u fresh now turn b (db, t)) = Inl e) \<and>
      snd (snd (post_feedback uuid_of sessions u fresh now turn b (db, t))) = t"
  proof -
    have bad: "\<exists>e. value_as_unprocessable (Inl x) = Inl e" for x :: exn
      by (simp add: value_as_unprocessable_def split: exn.split)
    then show ?thesis using assms(2)
      by (auto simp: post_feedback_def split: sum.splits option.splits prod.splits dest!: record_without_session)
  qed
  ultimately show ?thesis using run by simp
qed

definition classify_order :: "string \<Rightarrow> classify_message" where
  "classify_order sid = \<lparr>cl_kind = CLASSIFY_KIND, cl_user_id = uuid_str 7, cl_agent_id = uuid_str 1, cl_session_id = sid,
     cl_turn_id = uuid_str 5, cl_user_request = ''hi'', cl_final_text = ''ok'', cl_tool_tail = [], cl_skill_slug = JNull, cl_model = []\<rparr>"

lemma classify_exact_witness:
  "\<exists>t'. run_classify (\<lambda>_. Inr (Some (Some (Json_Rating (JInt 7)), []))) (\<lambda>_ _. Inr (Some ''x'')) (\<lambda>_. Some 5) [example_session] 3
     (classify_order ''a1'') \<lparr>od_rows = [], od_next = 0\<rparr> = (Inr True, t') \<and> length (od_rows t') = 1 \<and>
     fb_rating (ow_said (hd (od_rows t'))) \<in> {-1, 0, 1}"
proof -
  let ?run = "run_classify (\<lambda>_. Inr (Some (Some (Json_Rating (JInt 7)), []))) (\<lambda>_ _. Inr (Some ''x'')) (\<lambda>_. Some 5) [example_session] 3
     (classify_order ''a1'') \<lparr>od_rows = [], od_next = 0\<rparr>"
  have "fst ?run = Inr True"
    by (simp add: run_classify_def classify_order_def classifier_run_def classifier_parse_def rating_int_def int_or_raise_def py_int_def
        cloud_record_def outcome_record_def current_user_id_def parsed_uuid_def turn_uuid_def example_session_def pg_json_text_def
        pg_text_def surrogate_def Let_def get_text_def py_get_def)
  then obtain t' where run: "?run = (Inr True, t')" by (metis prod.collapse)
  from classify_exact [OF run] show ?thesis unfolding run by auto
qed

lemma feedback_needs_session_witness:
  "fst (run_classify (\<lambda>_. Inr (Some (None, []))) (\<lambda>_ _. Inr None) (\<lambda>_. Some 5) [] 3 (classify_order ''a1'') \<lparr>od_rows = [], od_next = 0\<rparr>) \<noteq> Inr True"
  using feedback_needs_session [of "classify_order ''a1''" "[]" "\<lparr>fi_session_key = ''a1'', fi_rating = 1, fi_reason = None, fi_skill_slug = None,
      fi_agent = None\<rparr>" "\<lambda>_. Inr (Some (None, []))" "\<lambda>_ _. Inr None" "\<lambda>_. Some 5" 3 "\<lparr>od_rows = [], od_next = 0\<rparr>"]
  by simp

end
