(* ===== verification/Spec2Isabelle.thy ===== *)
theory Spec2Isabelle
  imports
    Skill_Repo
    Instruction_Repo
    Command_Repo
    Mcp_Repo
    Cron_Repo
    Opt_Out_Repo
    Memory_Tool
    Effective_Config
    Session_Locks
    Rate_Limit
    Cost_Budget
    Idempotency
    Sse
    Permission_Broker
    Agent_Repo
    Turn_Routes
    Webhook_Delivery
    Worker_Dispatch
    Cron_Tool
    Session_Routes
    Engine_Sessions
    Gdpr
    User_Isolation
    User_Types
    Agent_Routes
    Promotion_Facts
    Admin_Facts
    Curator
    Mcp_Pool
    Skill_Stats
    Skill_Facts
    Compaction
    Classify
begin

text \<open>
  A verification library for lite-horse (\<open>src/src/lite_horse\<close>), an agent service that runs as a
  single-user command line program and as a multi-tenant web service.

  The program and its parts.  A cloud turn enters at \<open>web/routes/turns.py\<close>: the idempotency cache
  is asked, the limits of the agent are checked, a lock on the session is taken, the engine runs
  the agent, its events are streamed, and the turn is metered and cached.  What the agent may do
  comes from layered configuration: bundled, official and user rows of skills, instructions,
  commands, MCP servers and cron jobs in Postgres, resolved by the \<open>list_effective\<close> of each
  repository and cached.  The tools of the agent write to memory, to cron jobs and to skills
  through backends with a local and a cloud version.  Conversations are kept by message stores.
  Cron jobs fire from a scheduler, which puts messages on a queue, and a worker, which runs
  them and delivers results to webhooks.

  Conventions.  A Python exception is a value of \<open>exn\<close> and a fallible operation returns
  \<open>exn + 'a\<close>.  A table is the list of its rows in insertion order, a dict the list of its pairs, a
  Redis keyspace a map with expiry times.  An operation that writes returns the new state.  Where
  a failure is raised after a statement was executed the transaction is rolled back, so the state
  is the one before.  Times are integers of milliseconds or microseconds and are arguments, as are
  fresh ids.  UUIDs are numbers, written out by \<open>uuid_str\<close> where the code compares texts.  Text the
  code looks into character by character is a list of code points (\<open>pystr\<close>); other text is Latin-1
  (\<open>string\<close>).  Prices are exact rationals.  Python's integers are \<open>int\<close>; a bound matters only where
  a database column has one, and is written out there.  \<open>json.loads\<close> after \<open>json.dumps\<close> is the
  identity on documents, except where the bytes matter and the writer is modelled.  The database
  schema before and after migration \<open>0003_agents\<close> is the parameter \<open>schema_rev\<close>.

  Foundations.
  \<^item> \<open>Prelude\<close>: exceptions, results, dicts, \<open>scalar_one_or_none\<close>; collections of facts.
  \<^item> \<open>Py_Values\<close>, \<open>Py_Text\<close>, \<open>Uuid_Text\<close>, \<open>Base64\<close>: Python values, \<open>str\<close> and UTF-8, UUID texts,
    base64, each with the round trips the components use.
  \<^item> \<open>Redis_Model\<close>, \<open>Redis_Keys\<close>: Redis commands with expiry; keys joined by colons.
  \<^item> \<open>Layered_Tables\<close>, \<open>Version_History\<close>, \<open>Layered_Resolution\<close>: the statements that the
    repositories share, the linear version history they keep, and the three-layer merge.

  Layered configuration.
  \<^item> \<open>Skill_Repo\<close>, \<open>Instruction_Repo\<close>, \<open>Command_Repo\<close>, \<open>Mcp_Repo\<close>, \<open>Cron_Repo\<close>, \<open>Opt_Out_Repo\<close>
    (\<open>repositories/*.py\<close>): every operation of each repository.  Shown: what is effective for a
    user, that nobody else's rows matter to it, version histories, rollback, isolation of writers,
    and secrets bound to their owner.
  \<^item> \<open>Untrusted\<close> (\<open>security/validators.py\<close>): the filter of prompt content, equivalent to a
    declarative reading of its patterns.
  \<^item> \<open>Kms\<close> (\<open>storage/kms.py\<close>, \<open>kms_local.py\<close>): envelope encryption over an abstract cipher.
  \<^item> \<open>Effective_Config\<close> (\<open>effective.py\<close>, \<open>web/effective_config.py\<close>, \<open>web/effective_cache.py\<close>):
    resolution and cache, with a bound on how stale an answer can be.
  \<^item> \<open>Agent_Repo\<close> (\<open>agent_repo.py\<close>, \<open>user_settings_repo.py\<close>): agents, the default one, settings;
    the invariant that every user's default agent exists and is live.

  Memory.
  \<^item> \<open>Memory_Spec\<close>: the contract as a locale; \<open>Memory_Store\<close> (\<open>memory/store.py\<close>, files) and
    \<open>Memory_Repo\<close> (\<open>memory_repo.py\<close>, rows) interpret it; \<open>Memory_Tool\<close> (\<open>memory/tool.py\<close>) is
    their client.  Shown: the local store refines the specification and the two backends give the
    same answers, up to the writes that fail in the service since \<open>0003_agents\<close>.

  Turns.
  \<^item> \<open>Idempotency\<close>, \<open>Rate_Limit\<close>, \<open>Cost_Budget\<close>, \<open>Session_Locks\<close>, \<open>Pricing\<close>: the modules of the
    same names under \<open>web/\<close>, \<open>storage/locks_*.py\<close> and \<open>providers/pricing.py\<close>.  Shown: the
    counters equal a count over the history of requests; the Redis lock excludes, the in-memory
    one stops doing so after expiry; a cached answer is the one stored.
  \<^item> \<open>Sse\<close> (\<open>web/sse.py\<close>): the writer and the reader of events, inverse to each other.
  \<^item> \<open>Permission_Broker\<close> (\<open>web/permissions.py\<close>): parked tool calls as a step relation; decisions
    are authentic, and cancelling a turn releases its calls.
  \<^item> \<open>Turn_Stream\<close> (\<open>web/turns.py\<close>) and \<open>Turn_Routes\<close> (\<open>web/routes/turns.py\<close>, parts of
    \<open>web/turn_engine.py\<close>, \<open>agent/factory.py\<close> and \<open>usage_repo.py\<close>): the composition.  The agent is
    the list of items it produces.  Shown: a turn runs only within its limits, its stream is
    complete, a completed turn is replayed; and two ways in which metering and replay fail.

  Conversations.
  \<^item> \<open>Session_Tables\<close>: rows, order, and the contract of a message store as the locale
    \<open>message_store\<close>: a store refines \<open>conversations\<close>, the open session keys and a map from them to
    timed messages, where each store says which operations it refuses (\<open>guarded_run\<close>) and draws
    the ids of its messages in increasing order.
  \<^item> \<open>Local_Sessions\<close> (\<open>sessions/local.py\<close>, \<open>sdk_session.py\<close>) and \<open>Pg_Sessions\<close>
    (\<open>session_repo.py\<close>, \<open>message_repo.py\<close>): the SQLite and the Postgres store, both interpretations.
  \<^item> \<open>Session_Search\<close> (\<open>sessions/search_tool.py\<close>): query rewriting, search and tool; FTS5 itself is
    a parameter.
  \<^item> \<open>Session_Routes\<close> (\<open>web/routes/sessions.py\<close>): forking and deleting sessions.
  \<^item> \<open>Engine_Sessions\<close>: the turn engine over the SQLite store.  Shown: the stores agree but for
    what Postgres refuses, and the Postgres one keeps users apart, while the engine and the search tool share conversations
    across users.

  Cron jobs and background work.
  \<^item> \<open>Message_Queue\<close> (\<open>storage/queue_memory.py\<close>) interprets the locale \<open>message_queue\<close>;
    \<open>Worker_Messages\<close> and \<open>Worker_Dispatch\<close> (\<open>worker/*.py\<close>) are its clients.  Shown: every message
    kind reaches its job with its values, and every message is accounted for.
  \<^item> \<open>Scheduler_Tick\<close> (\<open>scheduler/tick.py\<close>, \<open>cron/scheduler.py\<close>): due rows and fan-out.
  \<^item> \<open>Cron_Jobs\<close> (\<open>cron/jobs.py\<close>), \<open>Error_Kinds\<close> (\<open>agent/errors.py\<close>): local jobs and the strikes
    that disable them.  \<open>Cron_Tool\<close> (\<open>cron/manage_tool.py\<close>): the tool over the locale
    \<open>cron_backend\<close>, interpreted by both backends.
  \<^item> \<open>Webhook_Delivery\<close> (\<open>cron/delivery.py\<close>): the signed POST with at most four attempts.

  Routes of users and administrators.
  \<^item> \<open>Route_Base\<close>: what the handlers share: the caller, HTTP errors, the transaction of a request.
  \<^item> \<open>User_Routes\<close>, \<open>User_Views\<close>, \<open>User_Rows\<close> (\<open>web/routes/user_config.py\<close>, \<open>users.py\<close>): every handler of a
    user's skills, instructions, commands, MCP servers, cron jobs, documents, opt-outs, settings and
    proposals.  \<open>User_Resources\<close>: the skill routes refine a map, with the locale of a resource.
    \<open>User_Isolation\<close>, \<open>User_Types\<close>: no request touches what is another's, and stored literals stay
    valid.  \<open>Agent_Routes\<close> (\<open>web/routes/agents.py\<close>).
  \<^item> \<open>Admin_Base\<close>, \<open>Admin_Routes\<close>, \<open>Admin_Views\<close>, \<open>Admin_Facts\<close> (\<open>web/routes/admin.py\<close>,
    \<open>web/admin_helpers.py\<close>): the administrative handlers; every write is audited.
  \<^item> \<open>Promotion_Repo\<close>, \<open>Promotion_Facts\<close>: candidates for promotion and their sweep.  The aggregate
    \<open>min\<close> over UUIDs is an argument that may be absent, as it is from PostgreSQL 16; then the sweep raises.
  \<^item> \<open>Gdpr\<close>: deletion and export of a user, shipping of the audit log: what a purge archives (which is
    not all of the user's rows, and more than the user's), what it erases and what it keeps.

  Skills.
  \<^item> \<open>Skill_Activation\<close> (\<open>skills/activation.py\<close>): the skills a turn lists, selected alike on the
    command line and in the service.  \<open>Skill_Stats\<close> (\<open>skills/stats.py\<close>): the sidecar counters.
  \<^item> \<open>Skill_Backend\<close> (\<open>agent/backends/skill_cloud.py\<close>, \<open>skills/manage_tool.py\<close>), \<open>Skill_Files\<close>
    (\<open>skills/local_dispatch.py\<close>, \<open>local_view.py\<close>, \<open>agent/backends/skill_local.py\<close>): the tool over the
    locale \<open>skill_store\<close>, interpreted by rows and by files.  \<open>Skill_Facts\<close>: a call is confined to the
    skill it names; views are bounded; where the two backends differ.
  \<^item> \<open>Curator\<close> (\<open>curator.py\<close>, \<open>worker/curate.py\<close>, \<open>scheduler/curator_tick.py\<close>): ageing and merging.

  The agent and its hooks.
  \<^item> \<open>Prompt\<close> (\<open>agent/instructions.py\<close>, \<open>local_prompt.py\<close>): the system prompt, whole and layered.
  \<^item> \<open>Budget_Hook\<close> (\<open>agent/budget.py\<close>, \<open>agent/consolidator.py\<close>) and \<open>Evolution_Hook\<close>
    (\<open>agent/evolution.py\<close>): what a run is told, and what it leaves behind, call by call.
  \<^item> \<open>Local_Runner\<close> (\<open>api.py\<close>, \<open>core/permission.py\<close>, \<open>agent/factory.py\<close>): turns of the command line,
    their retries and their stream of events.
  \<^item> \<open>Mcp_Pool\<close> (\<open>agent/mcp_pool.py\<close>): pooled connections as a step relation over interleaved requests.

  Recall and the jobs around a model call.
  \<^item> \<open>Recall_Index\<close> (\<open>providers/chunker.py\<close>, \<open>memory_chunk_repo.py\<close>, \<open>agent/backends/recall_*.py\<close>,
    \<open>memory/search_tool.py\<close>, \<open>worker/embed.py\<close>): chunks, their rows, both backends.  \<open>Recall_Facts\<close>: the
    contract as the locale \<open>recall_store\<close>, which both backends interpret, so both refine a map from
    sources to documents; tenants are apart; searches return the best rows; pending vectors drain.
  \<^item> \<open>Summaries\<close> (\<open>session_summary_repo.py\<close>, \<open>agent/summarizer.py\<close>, \<open>worker/summarize.py\<close>,
    \<open>scheduler/summarize_tick.py\<close>): from a finished session over the table and the index to the prompt
    of a later turn.
  \<^item> \<open>Compaction\<close> (\<open>worker/compact.py\<close>, \<open>scheduler/compact_tick.py\<close>): how much of \<open>memory.md\<close> is left.
  \<^item> \<open>Feedback\<close> (\<open>turn_outcome_repo.py\<close>, \<open>agent/backends/feedback_*.py\<close>): outcomes of turns over the locale
    \<open>feedback_sink\<close>, interpreted by rows and by the log, and what the evolution hook makes of them
    in the service and on the command line.
    \<open>Classify\<close> (\<open>agent/outcome_classifier.py\<close>, \<open>worker/classify.py\<close>, the feedback route): where they come from.

  Loops.  Every loop is a terminating recursion: over a list, over the attempts that are left
  (four for a webhook, three for a local turn, by the code's own constants), over the length of the
  text that is left.  No model runs on fuel.  The one loop whose input may never end, that of a turn's stream, returns
  \<^const>\<open>None\<close> on a list of items that closes neither source, and completeness is stated for the
  items the two sources do produce.

  Idealisations.  The rows of the five layered tables hold texts without NUL and integers that fit their
  columns; for messages, documents, chunks and outcomes, what Postgres refuses is modelled.  The size limits of
  Postgres (of a value, an index row or a text vector) and integers beyond 64 bits as LIMIT are not.
  A look-up of the effective configuration is one step, although its queries and the write of the cache are
  several.  Scores of the recall index are exact reals, and a zero vector has cosine 0.  Skill directories
  hold no symbolic links.  \<open>json.loads\<close> may also raise a plain \<open>ValueError\<close> or a \<open>RecursionError\<close>: the readers
  of the classifier and of the summarizer have this branch, those of the curator, the consolidator and the
  evolution hook do not.

  Not modelled.  Clients of services (SQS, S3, AWS KMS, secrets, model providers, metrics) are
  outside the repository's logic; what is used of them is a parameter.  Migrations and
  infrastructure code only prepare the state.  The command line (\<open>cli\<close>) is input and output.  Left out
  for now: the users' own provider keys and the GitHub sign-in; search, compaction and export of
  sessions; the body of the job gepa; \<open>evolve\<close>,
  which is model calls and git around small decision functions; the reader of the configuration file.
\<close>

end
